(* ===== verification/Words.thy ===== *)
theory Words
  imports Prelude
begin

text \<open>
  Words of a text, lines, and \<^verbatim>\<open>count_tokens\<close> of \<^verbatim>\<open>src/minni/tokens.py\<close>; what the two
  chunkers and the result packer share.
\<close>

text \<open>\<^verbatim>\<open>s.split()\<close>; the accumulator is the word being read, reversed.\<close>

fun words_acc :: "string \<Rightarrow> string \<Rightarrow> string list" where
  "words_acc acc [] = (if acc = [] then [] else [rev acc])"
| "words_acc acc (c # cs) =
     (if py_space c then (if acc = [] then words_acc [] cs else rev acc # words_acc [] cs)
      else words_acc (c # acc) cs)"

definition py_split :: "string \<Rightarrow> string list" where
  "py_split s = words_acc [] s"

definition SP :: string where
  "SP = '' ''"

text \<open>\<open>encoder\<close> is tiktoken's token count, None when it cannot be loaded; \<^verbatim>\<open>int(n / 0.75)\<close>.\<close>

definition count_tokens :: "(string \<Rightarrow> nat) option \<Rightarrow> string \<Rightarrow> nat" where
  "count_tokens encoder s =
     (case encoder of Some f \<Rightarrow> f s | None \<Rightarrow> length (py_split s) * 4 div 3)"

definition is_word :: "string \<Rightarrow> bool" where
  "is_word w \<longleftrightarrow> w \<noteq> [] \<and> list_all (\<lambda>c. \<not> py_space c) w"

definition are_words :: "string list \<Rightarrow> bool" where
  "are_words ws \<longleftrightarrow> list_all is_word ws"

lemma words_acc_are_words:
  "list_all (\<lambda>c. \<not> py_space c) acc \<Longrightarrow> are_words (words_acc acc s)"
  by (induction acc s rule: words_acc.induct) (simp_all add: are_words_def is_word_def)

lemma py_split_are_words [simp]: "are_words (py_split s)"
  by (simp add: py_split_def words_acc_are_words)

lemma words_acc_word:
  "list_all (\<lambda>c. \<not> py_space c) w \<Longrightarrow> words_acc acc (w @ s) = words_acc (rev w @ acc) s"
  by (induction w arbitrary: acc) auto

lemma space_is_space [simp]: "py_space CHR '' ''"
  by (simp add: py_simps)

lemma py_split_join: "are_words ws \<Longrightarrow> py_split (join_with SP ws) = ws"
proof (induction SP ws rule: join_with.induct)
  case 1
  then show ?case by (simp add: py_split_def)
next
  case (2 x)
  then show ?case
    using words_acc_word [of x "[]" "[]"] by (auto simp: are_words_def is_word_def py_split_def)
next
  case (3 x y ys)
  have x: "is_word x" "are_words (y # ys)" using 3(2) by (simp_all add: are_words_def)
  then have "words_acc [] (x @ SP @ join_with SP (y # ys)) = x # words_acc [] (join_with SP (y # ys))"
    using words_acc_word [of x "[]"] by (simp add: SP_def is_word_def)
  then show ?case using 3(1) x(2) by (simp add: py_split_def)
qed

lemma are_words_take [simp]: "are_words ws \<Longrightarrow> are_words (take n ws)"
  and are_words_drop [simp]: "are_words ws \<Longrightarrow> are_words (drop n ws)"
  by (auto simp: are_words_def list_all_iff dest: in_set_takeD in_set_dropD)

lemma are_words_append [simp]: "are_words (xs @ ys) \<longleftrightarrow> are_words xs \<and> are_words ys"
  by (simp add: are_words_def)

text \<open>Stripping keeps the words.\<close>

lemma words_acc_spaces: "list_all py_space u \<Longrightarrow> words_acc acc u = (if acc = [] then [] else [rev acc])"
  by (induction u arbitrary: acc) auto

lemma words_acc_trailing: "list_all py_space u \<Longrightarrow> words_acc acc (s @ u) = words_acc acc s"
  by (induction acc s rule: words_acc.induct) (simp_all add: words_acc_spaces)

lemma words_acc_leading: "words_acc [] (dropWhile py_space s) = words_acc [] s"
  by (induction s) simp_all

lemma py_split_strip [simp]: "py_split (py_strip s) = py_split s"
proof -
  let ?t = "dropWhile py_space s"
  have "?t = rev (dropWhile py_space (rev ?t)) @ rev (takeWhile py_space (rev ?t))"
    by (simp add: rev_append [symmetric])
  moreover have "list_all py_space (rev (takeWhile py_space (rev ?t)))"
    by (auto simp: list_all_iff dest: set_takeWhileD)
  ultimately have "words_acc [] ?t = words_acc [] (py_strip s)"
    using words_acc_trailing unfolding py_strip_def by metis
  then show ?thesis by (simp add: py_split_def words_acc_leading)
qed

lemma strip_nonempty: "py_strip s \<noteq> [] \<longleftrightarrow> (\<exists>c \<in> set s. \<not> py_space c)"
proof -
  have "py_strip s = [] \<longleftrightarrow> (\<forall>c \<in> set (dropWhile py_space s). py_space c)"
    by (simp add: py_strip_def dropWhile_eq_Nil_conv)
  also have "\<dots> \<longleftrightarrow> (\<forall>c \<in> set s. py_space c)"
    by (induction s) simp_all
  finally show ?thesis by blast
qed

lemma join_nonblank:
  assumes "are_words ws" and "ws \<noteq> []"
  shows "py_strip (join_with SP ws) \<noteq> []"
proof -
  obtain w ws' where w: "ws = w # ws'" using assms(2) by (cases ws) auto
  then obtain c where "c \<in> set w" "\<not> py_space c"
    using assms(1) by (cases w) (auto simp: are_words_def is_word_def)
  moreover have "set w \<subseteq> set (join_with SP ws)" using w by (cases ws') auto
  ultimately show ?thesis using strip_nonempty by blast
qed

end
