(* ===== verification/AfmChunking.thy ===== *)
theory AfmChunking
  imports Words "HOL-Library.AList"
begin

text \<open>
  \<^verbatim>\<open>src/minni/afm_chunking.py\<close>: calling a native model operation with more input than its
  context holds.  The operation is an argument that threads its own state; the token counter
  is an argument too.
\<close>

definition AFM_INPUT_BUDGET_TOKENS :: nat where
  "AFM_INPUT_BUDGET_TOKENS = 3200"

definition MIN_CHUNK_TOKENS :: nat where
  "MIN_CHUNK_TOKENS = 200"

definition DEFAULT_CHUNK_TOKENS :: nat where
  "DEFAULT_CHUNK_TOKENS = 2400"

definition DEFAULT_OVERLAP_TOKENS :: nat where
  "DEFAULT_OVERLAP_TOKENS = 300"

definition SENTENCE_SNAP_LOOKAHEAD_WORDS :: nat where
  "SENTENCE_SNAP_LOOKAHEAD_WORDS = 20"

text \<open>The environment variable first, then the configured value, then the constant.\<close>

definition resolve_afm_input_budget_tokens :: "string option \<Rightarrow> int option \<Rightarrow> nat" where
  "resolve_afm_input_budget_tokens env_value config_value =
     (let raw = py_strip (case env_value of None \<Rightarrow> [] | Some v \<Rightarrow> v);
          from_config = (case config_value of
              Some v \<Rightarrow> if 0 < v then nat v else AFM_INPUT_BUDGET_TOKENS
            | None \<Rightarrow> AFM_INPUT_BUDGET_TOKENS)
      in if raw = [] then from_config
         else case parse_int raw of Some v \<Rightarrow> if 0 < v then nat v else from_config | None \<Rightarrow> from_config)"

subsection \<open>The sz of a payload\<close>

text \<open>\<^verbatim>\<open>json.dumps(x, separators=(",", ":"), ensure_ascii=False)\<close>\<close>

definition json_char :: "char \<Rightarrow> string" where
  "json_char c =
     (let n = code_point c; bs = CHR 0x5C in
      if n = 34 \<or> n = 92 then [bs, c]
      else if n = 10 then [bs, CHR ''n''] else if n = 13 then [bs, CHR ''r'']
      else if n = 9 then [bs, CHR ''t''] else if n = 8 then [bs, CHR ''b'']
      else if n = 12 then [bs, CHR ''f'']
      else if n < 32 then [bs, CHR ''u'', CHR ''0'', CHR ''0'', hex_digit (n div 16), hex_digit (n mod 16)]
      else [c])"

definition json_string :: "string \<Rightarrow> string" where
  "json_string s = CHR 0x22 # concat (map json_char s) @ [CHR 0x22]"

fun json_dumps :: "json \<Rightarrow> string" where
  "json_dumps JNull = ''null''"
| "json_dumps (JBool b) = (if b then ''true'' else ''false'')"
| "json_dumps (JInt n) = int_text n"
| "json_dumps (JFloat v t) =
     (case v of Fin _ \<Rightarrow> t | PosInf \<Rightarrow> ''Infinity'' | NegInf \<Rightarrow> ''-Infinity'' | NaN \<Rightarrow> ''NaN'')"
| "json_dumps (JStr s) = json_string s"
| "json_dumps (JList xs) = ''['' @ join_with '','' (map json_dumps xs) @ '']''"
| "json_dumps (JObj kvs) =
     ''{'' @ join_with '','' (map (\<lambda>kv. json_string (fst kv) @ '':'' @ json_dumps (snd kv)) kvs) @ ''}''"

definition estimate_native_payload_tokens :: "(string \<Rightarrow> nat) \<Rightarrow> jobj \<Rightarrow> nat" where
  "estimate_native_payload_tokens tokens payload = tokens (json_dumps (JObj payload))"

subsection \<open>Splitting a text\<close>

definition ends_sentence :: "char \<Rightarrow> bool" where
  "ends_sentence c \<longleftrightarrow> c = CHR ''.'' \<or> c = CHR ''!'' \<or> c = CHR ''?''"

text \<open>The start of the first match of \<^verbatim>\<open>(?<=[.!?])\s+\<close>.\<close>

fun first_sentence_end :: "nat \<Rightarrow> char option \<Rightarrow> string \<Rightarrow> nat option" where
  "first_sentence_end n prev [] = None"
| "first_sentence_end n prev (c # cs) =
     (if py_space c \<and> (case prev of Some p \<Rightarrow> ends_sentence p | None \<Rightarrow> False) then Some n
      else first_sentence_end (n + 1) (Some c) cs)"

definition snap_extra :: "string list \<Rightarrow> nat \<Rightarrow> string list" where
  "snap_extra ws fin =
     (let look = join_with SP (take SENTENCE_SNAP_LOOKAHEAD_WORDS (drop fin ws))
      in case first_sentence_end 0 None look of
           None \<Rightarrow> []
         | Some pos \<Rightarrow> py_split (take (pos + 1) look))"

function windows_from :: "nat \<Rightarrow> nat \<Rightarrow> string list \<Rightarrow> nat \<Rightarrow> string list" where
  "windows_from sz step ws start =
     (if length ws \<le> start then []
      else
        let fin = min (start + sz) (length ws);
            extra = (if fin < length ws then snap_extra ws fin else []);
            window = take (fin - start) (drop start ws) @ extra;
            t = join_with SP window;
            here = (if py_strip t \<noteq> [] then [t] else [])
        in here @ (if length ws \<le> fin + length extra then []
                   else windows_from sz step ws (start + max step 1)))"
  by pat_completeness auto
termination
  by (relation "measure (\<lambda>(sz, step, ws, start). length ws - start)") auto

declare windows_from.simps [simp del]

definition split_text :: "(string \<Rightarrow> nat) \<Rightarrow> string \<Rightarrow> nat \<Rightarrow> nat \<Rightarrow> string list" where
  "split_text tokens s chunk_tokens overlap_tokens =
     (if py_strip s = [] then [s]
      else if tokens s \<le> chunk_tokens then [s]
      else if py_split s = [] then [s]
      else let chunks = windows_from chunk_tokens (chunk_tokens - overlap_tokens) (py_split s) 0
           in if chunks = [] then [s] else chunks)"

subsection \<open>Packing items\<close>

fun pack_items :: "('a \<Rightarrow> nat) \<Rightarrow> nat \<Rightarrow> 'a list \<Rightarrow> nat \<Rightarrow> 'a list \<Rightarrow> 'a list list" where
  "pack_items cost budget current used [] = (if current = [] then [] else [current])"
| "pack_items cost budget current used (x # xs) =
     (if current \<noteq> [] \<and> budget < used + cost x
      then current # pack_items cost budget [x] (cost x) xs
      else pack_items cost budget (current @ [x]) (used + cost x) xs)"

definition split_list_by_token_budget :: "(string \<Rightarrow> nat) \<Rightarrow> ('a \<Rightarrow> string) \<Rightarrow> 'a list \<Rightarrow> nat \<Rightarrow> 'a list list" where
  "split_list_by_token_budget tokens serialize items budget_tokens =
     (let groups = pack_items (\<lambda>x. tokens (serialize x)) budget_tokens [] 0 items
      in if groups = [] then [[]] else groups)"

subsection \<open>Calling in chunks\<close>

record native_result =
  nr_ok :: bool
  nr_data :: json

type_synonym 's native_op = "jobj \<Rightarrow> 's \<Rightarrow> native_result \<times> 's"

definition classify_error_kind :: "native_result \<Rightarrow> string" where
  "classify_error_kind r =
     (let data = (case nr_data r of JObj d \<Rightarrow> d | _ \<Rightarrow> [])
      in py_lower (py_strip (py_str (py_or (jget data ''error_kind'') (JStr [])))))"

definition overflowed :: "native_result \<Rightarrow> bool" where
  "overflowed r \<longleftrightarrow> \<not> nr_ok r \<and> classify_error_kind r = ''context_overflow''"

definition effective_overlap_tokens :: "nat \<Rightarrow> nat \<Rightarrow> nat" where
  "effective_overlap_tokens chunk_tokens overlap_tokens = max (min overlap_tokens (chunk_tokens div 4)) 0"

definition payload_text :: "string \<Rightarrow> jobj \<Rightarrow> string" where
  "payload_text field payload = py_str (py_or (jget payload field) (JStr []))"

definition halve :: "nat \<Rightarrow> nat" where
  "halve n = max (n div 2) MIN_CHUNK_TOKENS"

text \<open>\<^verbatim>\<open>_chunk_and_call\<close> and its loop over the pieces; each returns the results in order.\<close>

function (sequential)
  chunk_and_call :: "(string \<Rightarrow> nat) \<Rightarrow> 's native_op \<Rightarrow> string \<Rightarrow> nat \<Rightarrow> nat \<Rightarrow> jobj \<Rightarrow> 's \<Rightarrow> native_result list \<times> 's"
and call_pieces :: "(string \<Rightarrow> nat) \<Rightarrow> 's native_op \<Rightarrow> string \<Rightarrow> nat \<Rightarrow> nat \<Rightarrow> jobj \<Rightarrow> string list \<Rightarrow> 's \<Rightarrow> native_result list \<times> 's"
where
  "chunk_and_call tokens op field overlap sz payload s =
     (let t = payload_text field payload; single = (let (r, s') = op payload s in ([r], s'))
      in if py_strip t = [] \<or> sz < MIN_CHUNK_TOKENS then single
         else
           let pieces = split_text tokens t sz (effective_overlap_tokens sz overlap)
           in if length pieces \<le> 1 then
                if sz \<le> MIN_CHUNK_TOKENS then single
                else chunk_and_call tokens op field overlap (halve sz) payload s
              else call_pieces tokens op field overlap sz payload pieces s)"
| "call_pieces tokens op field overlap sz payload [] s = ([], s)"
| "call_pieces tokens op field overlap sz payload (p # ps) s =
     (let chunk_payload = AList.update field (JStr p) payload; (r, s1) = op chunk_payload s;
          (rs, s2) = (if overflowed r \<and> MIN_CHUNK_TOKENS < sz
                      then chunk_and_call tokens op field overlap (halve sz) chunk_payload s1
                      else ([r], s1));
          (rest, s3) = call_pieces tokens op field overlap sz payload ps s2
      in (rs @ rest, s3))"
  by pat_completeness auto
termination
  by (relation "measures [\<lambda>x. case x of Inl (_, _, _, _, sz, _, _) \<Rightarrow> sz | Inr (_, _, _, _, sz, _, _, _) \<Rightarrow> sz,
       \<lambda>x. case x of Inl _ \<Rightarrow> 1 | Inr _ \<Rightarrow> 0,
       \<lambda>x. case x of Inl _ \<Rightarrow> 0 | Inr (_, _, _, _, _, _, ps, _) \<Rightarrow> length ps]")
    (auto simp: halve_def MIN_CHUNK_TOKENS_def)

declare chunk_and_call.simps [simp del] call_pieces.simps [simp del]

definition call_native_op_chunked ::
  "(string \<Rightarrow> nat) \<Rightarrow> 's native_op \<Rightarrow> string \<Rightarrow> nat \<Rightarrow> nat \<Rightarrow> nat \<Rightarrow> jobj \<Rightarrow> 's \<Rightarrow> (native_result list \<times> bool) \<times> 's" where
  "call_native_op_chunked tokens op field budget sz overlap payload s =
     (let chunked = (\<lambda>s.
            let base_tokens = estimate_native_payload_tokens tokens (filter (\<lambda>(k, v). k \<noteq> field) payload)
            in if budget < base_tokens then (let (r, s') = op payload s in (([r], False), s'))
               else let (rs, s') = chunk_and_call tokens op field overlap
                                     (max (min sz (budget - base_tokens)) MIN_CHUNK_TOKENS) payload s
                    in ((rs, True), s'))
      in if estimate_native_payload_tokens tokens payload \<le> budget then
           let (r, s1) = op payload s
           in if nr_ok r \<or> classify_error_kind r \<noteq> ''context_overflow'' then (([r], False), s1)
              else chunked s1
         else chunked s)"

text \<open>
  \<^verbatim>\<open>reduce_via_same_op\<close> calls itself on the reduced pieces.  Nothing bounds the depth, so
  the result is None when it never returns.
\<close>

definition success_data :: "native_result list \<Rightarrow> jobj list" where
  "success_data rs = List.map_filter (\<lambda>r. if nr_ok r then (case nr_data r of JObj d \<Rightarrow> Some d | _ \<Rightarrow> None) else None) rs"

partial_function (option) reduce_via_same_op ::
  "(string \<Rightarrow> nat) \<Rightarrow> 's native_op \<Rightarrow> (jobj list \<Rightarrow> jobj) \<Rightarrow> string \<Rightarrow> nat \<Rightarrow> native_result list \<Rightarrow> 's
    \<Rightarrow> (native_result option \<times> 's) option" where
  "reduce_via_same_op tokens op build field budget chunk_results s =
     (let data = success_data chunk_results
      in if data = [] then Some (None, s)
         else if length data = 1 then Some (find nr_ok chunk_results, s)
         else
           let ((results, chunked), s') = call_native_op_chunked tokens op field budget DEFAULT_CHUNK_TOKENS
                 DEFAULT_OVERLAP_TOKENS (build data) s;
               good = filter nr_ok results
           in if length good = 1 then Some (Some (hd good), s')
              else if 1 < length good then reduce_via_same_op tokens op build field budget good s'
              else Some (find nr_ok chunk_results, s'))"

end
