(* ===== verification/AfmChunking_Laws.thy ===== *)
theory AfmChunking_Laws
  imports AfmChunking
begin

text \<open>
  Splitting drops no word and stays near its size, packing is a partition within budget,
  and chunked calling sends every word in a call whose result it returns.
\<close>

subsection \<open>Cutting joined words at a space\<close>

lemma word_no_space: "is_word w \<Longrightarrow> i < length w \<Longrightarrow> \<not> py_space (w ! i)"
  by (auto simp: is_word_def list_all_iff)

lemma cut_at_space:
  assumes "are_words us" "p < length (join_with SP us)" "py_space (join_with SP us ! p)"
  shows "\<exists>k. take p (join_with SP us) = join_with SP (take k us)"
  using assms
proof (induction SP us arbitrary: p rule: join_with.induct)
  case 1
  then show ?case by simp
next
  case (2 x)
  then show ?case using word_no_space by (auto simp: are_words_def)
next
  case (3 x y ys)
  have x: "is_word x" "are_words (y # ys)" using 3(2) by (simp_all add: are_words_def)
  note cut = 3(3,4)
  consider "p < length x" | "p = length x" | q where "p = length x + 1 + q"
    by (metis Suc_eq_plus1 add.commute less_imp_Suc_add linorder_neqE_nat plus_1_eq_Suc add_Suc_right)
  then show ?case
  proof cases
    case 1
    then show ?thesis using cut(2) word_no_space [OF x(1)] by (simp add: nth_append)
  next
    case 2
    then show ?thesis by (intro exI [of _ 1]) simp
  next
    case (3 q)
    let ?r = "join_with SP (y # ys)"
    have q: "q < length ?r" "py_space (?r ! q)"
      using cut 3 by (auto simp: SP_def nth_append nth_Cons')
    obtain k where k: "take q ?r = join_with SP (take k (y # ys))"
      using "3.hyps" [OF x(2) q] by blast
    have "k \<noteq> 0"
    proof
      assume "k = 0"
      then have "q = 0" using k q(1) by (cases q) auto
      moreover have "?r ! 0 = y ! 0" "y \<noteq> []"
        using x(2) by (cases ys; auto simp: are_words_def is_word_def nth_append)+
      ultimately show False using q(2) word_no_space [of y 0] x(2) by (auto simp: are_words_def)
    qed
    then obtain j where "k = Suc j" by (cases k) auto
    then have "take p (join_with SP (x # y # ys)) = join_with SP (take (Suc k) (x # y # ys))"
      using k 3 by (simp add: SP_def)
    then show ?thesis by blast
  qed
qed

lemma first_sentence_end_space:
  "first_sentence_end n prev s = Some m \<Longrightarrow> n \<le> m \<and> m - n < length s \<and> py_space (s ! (m - n))"
proof (induction n prev s rule: first_sentence_end.induct)
  case (1 n prev)
  then show ?case by simp
next
  case (2 n prev c cs)
  show ?case
  proof (cases "py_space c \<and> (case prev of Some p \<Rightarrow> ends_sentence p | None \<Rightarrow> False)")
    case True
    then show ?thesis using 2(2) by simp
  next
    case False
    then have "first_sentence_end (n + 1) (Some c) cs = Some m" using 2(2) by (auto split: if_split_asm)
    then have "n + 1 \<le> m \<and> m - (n + 1) < length cs \<and> py_space (cs ! (m - (n + 1)))"
      using 2(1) False by blast
    moreover from this have "m - n = Suc (m - (n + 1))" by auto
    ultimately show ?thesis by auto
  qed
qed

lemma snap_extra_prefix:
  assumes "are_words ws"
  obtains k where "k \<le> SENTENCE_SNAP_LOOKAHEAD_WORDS" "snap_extra ws fin = take k (drop fin ws)"
proof -
  define us where "us = take SENTENCE_SNAP_LOOKAHEAD_WORDS (drop fin ws)"
  have us: "are_words us" using assms by (simp add: us_def)
  show thesis
  proof (cases "first_sentence_end 0 None (join_with SP us)")
    case None
    then show thesis using that [of 0] by (simp add: snap_extra_def us_def Let_def)
  next
    case (Some pos)
    let ?l = "join_with SP us"
    have p: "pos < length ?l" "py_space (?l ! pos)" using first_sentence_end_space [OF Some] by simp_all
    obtain k where k: "take pos ?l = join_with SP (take k us)" using cut_at_space [OF us p] by blast
    have "take (pos + 1) ?l = take pos ?l @ [?l ! pos]" using p(1) by (simp add: take_Suc_conv_app_nth)
    then have "py_split (take (pos + 1) ?l) = py_split (take pos ?l)"
      using words_acc_trailing [of "[?l ! pos]"] p(2) by (simp add: py_split_def)
    also have "\<dots> = take k us" using k py_split_join us by simp
    finally have "snap_extra ws fin = take k us" using Some by (simp add: snap_extra_def us_def Let_def)
    then show thesis
      by (intro that [of "min k SENTENCE_SNAP_LOOKAHEAD_WORDS"]) (simp_all add: us_def)
  qed
qed

subsection \<open>Windows\<close>

text \<open>One window: the words up to \<open>fin\<close> and the first \<open>k\<close> after it.\<close>

lemma windows_step:
  assumes "0 < sz" "are_words ws" "start < length ws"
  obtains fin k where "fin = min (start + sz) (length ws)" "k \<le> SENTENCE_SNAP_LOOKAHEAD_WORDS"
    and "windows_from sz step ws start
      = join_with SP (take (fin - start) (drop start ws) @ take k (drop fin ws))
        # (if length ws \<le> fin + length (take k (drop fin ws)) then []
           else windows_from sz step ws (start + max step 1))"
proof -
  define fin where "fin = min (start + sz) (length ws)"
  define extra where "extra = (if fin < length ws then snap_extra ws fin else [])"
  define window where "window = take (fin - start) (drop start ws) @ extra"
  obtain k where k: "k \<le> SENTENCE_SNAP_LOOKAHEAD_WORDS" "extra = take k (drop fin ws)"
  proof (cases "fin < length ws")
    case True
    obtain j where "j \<le> SENTENCE_SNAP_LOOKAHEAD_WORDS" "snap_extra ws fin = take j (drop fin ws)"
      using snap_extra_prefix [OF assms(2)] by blast
    then show thesis using that True by (simp add: extra_def)
  qed (use that [of 0] extra_def in simp)
  have "are_words window" using assms(2) k(2) by (simp add: window_def)
  moreover have "start < fin" using assms(1,3) by (simp add: fin_def)
  then have "window \<noteq> []" using assms(3) by (simp add: window_def)
  ultimately have t: "py_strip (join_with SP window) \<noteq> []" by (rule join_nonblank)
  have "windows_from sz step ws start = join_with SP window # (if length ws \<le> fin + length extra then []
      else windows_from sz step ws (start + max step 1))"
    using assms(3) t unfolding window_def extra_def fin_def
    by (subst windows_from.simps) (simp only: Let_def if_False if_True not_le [symmetric] append_Cons append_Nil simp_thms)
  then show thesis using that [OF fin_def k(1)] k(2) by (simp add: window_def)
qed

lemma windows_end: "length ws \<le> start \<Longrightarrow> windows_from sz step ws start = []"
  by (subst windows_from.simps) simp

lemma windows_cover:
  assumes "0 < sz" "step \<le> sz" "are_words ws" "start \<le> i" "i < length ws"
  shows "\<exists>t \<in> set (windows_from sz step ws start). ws ! i \<in> set (py_split t)"
  using assms
proof (induction "length ws - start" arbitrary: start rule: less_induct)
  case less
  have st: "start < length ws" using less by simp
  obtain fin k where w: "fin = min (start + sz) (length ws)"
    "windows_from sz step ws start
      = join_with SP (take (fin - start) (drop start ws) @ take k (drop fin ws))
        # (if length ws \<le> fin + length (take k (drop fin ws)) then []
           else windows_from sz step ws (start + max step 1))"
    using windows_step [OF less(2,4) st] by metis
  let ?t = "join_with SP (take (fin - start) (drop start ws) @ take k (drop fin ws))"
  have sp: "set (py_split ?t) = set (take (fin - start) (drop start ws)) \<union> set (take k (drop fin ws))"
    using py_split_join [of "take (fin - start) (drop start ws) @ take k (drop fin ws)"] less(4) by simp
  consider "i < fin" | "fin \<le> i" "length ws \<le> fin + length (take k (drop fin ws))"
    | "fin \<le> i" "\<not> length ws \<le> fin + length (take k (drop fin ws))" by linarith
  then show ?case
  proof cases
    case 1
    then have "take (fin - start) (drop start ws) ! (i - start) = ws ! i" "i - start < length (take (fin - start) (drop start ws))"
      using less(5,6) by auto
    then have "ws ! i \<in> set (py_split ?t)" unfolding sp by (metis UnI1 nth_mem)
    then show ?thesis unfolding w(2) by simp
  next
    case 2
    then have "take k (drop fin ws) ! (i - fin) = ws ! i" "i - fin < length (take k (drop fin ws))"
      using less(6) by auto
    then have "ws ! i \<in> set (py_split ?t)" unfolding sp by (metis UnI2 nth_mem)
    then show ?thesis unfolding w(2) by simp
  next
    case 3
    have "start + max step 1 \<le> i" using 3 less(2,3,6) w(1) by auto
    then have "\<exists>t \<in> set (windows_from sz step ws (start + max step 1)). ws ! i \<in> set (py_split t)"
      using less(1) [of "start + max step 1"] st less(2-6) by simp
    then show ?thesis unfolding w(2) using 3(2) by auto
  qed
qed

lemma windows_bounded:
  assumes "0 < sz" "are_words ws" "t \<in> set (windows_from sz step ws start)"
  shows "length (py_split t) \<le> sz + SENTENCE_SNAP_LOOKAHEAD_WORDS"
  using assms
proof (induction "length ws - start" arbitrary: start rule: less_induct)
  case less
  have st: "start < length ws"
    using less(4) windows_end [of ws start sz step] by (cases "length ws \<le> start") auto
  obtain fin k where w: "fin = min (start + sz) (length ws)" "k \<le> SENTENCE_SNAP_LOOKAHEAD_WORDS"
    "windows_from sz step ws start
      = join_with SP (take (fin - start) (drop start ws) @ take k (drop fin ws))
        # (if length ws \<le> fin + length (take k (drop fin ws)) then []
           else windows_from sz step ws (start + max step 1))"
    using windows_step [OF less(2,3) st] by metis
  have "length (py_split (join_with SP (take (fin - start) (drop start ws) @ take k (drop fin ws))))
      \<le> sz + SENTENCE_SNAP_LOOKAHEAD_WORDS"
    using py_split_join [of "take (fin - start) (drop start ws) @ take k (drop fin ws)"] less(3) w(1,2) by auto
  moreover have "t \<in> set (windows_from sz step ws (start + max step 1)) \<Longrightarrow>
      length (py_split t) \<le> sz + SENTENCE_SNAP_LOOKAHEAD_WORDS"
    using less(1) [of "start + max step 1"] st less(2,3) by simp
  ultimately show ?case using less(4) unfolding w(3) by (auto split: if_split_asm)
qed

lemma split_text_cover:
  assumes "0 < chunk" "i < length (py_split s)"
  shows "\<exists>t \<in> set (split_text tokens s chunk overlap). py_split s ! i \<in> set (py_split t)"
proof -
  have c: "\<exists>t \<in> set (windows_from chunk (chunk - overlap) (py_split s) 0). py_split s ! i \<in> set (py_split t)"
    by (rule windows_cover) (use assms in auto)
  show ?thesis using c assms(2) by (auto simp: split_text_def Let_def)
qed

theorem split_text_bounded:
  assumes "t \<in> set (split_text tokens s chunk overlap)" and "0 < chunk"
  shows "length (py_split t) \<le> chunk + 20 \<or> t = s \<and> tokens s \<le> chunk"
proof -
  have "py_split s = [] \<Longrightarrow> length (py_split s) \<le> chunk + 20" by simp
  moreover have "py_strip s = [] \<Longrightarrow> py_split s = []"
    using py_split_strip [of s] by (simp add: py_split_def)
  moreover have "windows_from chunk (chunk - overlap) (py_split s) 0 = [] \<Longrightarrow> py_split s = []"
    using windows_cover [of chunk "chunk - overlap" "py_split s" 0 0] assms(2) by fastforce
  ultimately show ?thesis
    using assms windows_bounded [OF assms(2) py_split_are_words, of t "chunk - overlap" s 0]
    by (auto simp: split_text_def Let_def SENTENCE_SNAP_LOOKAHEAD_WORDS_def split: if_split_asm)
qed

subsection \<open>Packing\<close>

lemma pack_items_concat: "concat (pack_items cost budget cur used xs) = cur @ xs"
  by (induction cost budget cur used xs rule: pack_items.induct) auto

definition fits :: "('a \<Rightarrow> nat) \<Rightarrow> nat \<Rightarrow> 'a list \<Rightarrow> bool" where
  "fits cost budget g \<longleftrightarrow> sum_list (map cost g) \<le> budget \<or> length g = 1"

lemma pack_items_fit:
  assumes "sum_list (map cost cur) = used" "cur = [] \<or> fits cost budget cur"
  shows "list_all (fits cost budget) (pack_items cost budget cur used xs)"
  using assms
proof (induction xs arbitrary: cur used)
  case Nil
  then show ?case by (cases "cur = []") auto
next
  case (Cons x xs)
  show ?case
  proof (cases "cur \<noteq> [] \<and> budget < used + cost x")
    case True
    have "list_all (fits cost budget) (pack_items cost budget [x] (cost x) xs)"
      by (rule Cons.IH) (simp_all add: fits_def)
    then show ?thesis using True Cons.prems(2) by simp
  next
    case False
    have "list_all (fits cost budget) (pack_items cost budget (cur @ [x]) (used + cost x) xs)"
      by (rule Cons.IH) (use False Cons.prems(1) in \<open>auto simp: fits_def\<close>)
    then show ?thesis using False by auto
  qed
qed

theorem split_list_partitions:
  "concat (split_list_by_token_budget tokens serialize items budget) = items
   \<and> list_all (\<lambda>g. sum_list (map (\<lambda>x. tokens (serialize x)) g) \<le> budget \<or> length g = 1)
       (split_list_by_token_budget tokens serialize items budget)"
proof -
  let ?cost = "\<lambda>x. tokens (serialize x)"
  have "list_all (fits ?cost budget) (pack_items ?cost budget [] 0 items)"
    by (rule pack_items_fit) simp_all
  then have "list_all (\<lambda>g. sum_list (map ?cost g) \<le> budget \<or> length g = 1) (pack_items ?cost budget [] 0 items)"
    by (simp add: fits_def [abs_def])
  then show ?thesis
    using pack_items_concat [of ?cost budget "[]" 0 items]
    by (cases "pack_items ?cost budget [] 0 items = []") (auto simp: split_list_by_token_budget_def Let_def)
qed

subsection \<open>Chunked calling\<close>

text \<open>The same operation, keeping a log of its calls.\<close>

type_synonym call_log = "(jobj \<times> native_result) list"

definition logged :: "'s native_op \<Rightarrow> ('s \<times> call_log) native_op" where
  "logged op p st = (let (s, l) = st; (r, s') = op p s in (r, (s', l @ [(p, r)])))"

text \<open>Every word of \<open>t\<close> went out in a logged call whose result is kept.\<close>

definition answered :: "string \<Rightarrow> string \<Rightarrow> call_log \<Rightarrow> native_result list \<Rightarrow> bool" where
  "answered field t l rs \<longleftrightarrow>
     (\<forall>w \<in> set (py_split t). \<exists>(p, r) \<in> set l. r \<in> set rs \<and> w \<in> set (py_split (payload_text field p)))"

lemma answered_mono:
  "answered field t l rs \<Longrightarrow> set l \<subseteq> set l' \<Longrightarrow> set rs \<subseteq> set rs' \<Longrightarrow> answered field t l' rs'"
  unfolding answered_def by blast

lemma answered_single: "answered field (payload_text field p) (l @ [(p, r)]) [r]"
  by (auto simp: answered_def)

lemma payload_text_update [simp]: "payload_text field (AList.update field (JStr t) p) = t"
  by (simp add: payload_text_def jget_or_def update_conv' py_or_def)

definition call_ok :: "string \<Rightarrow> jobj \<Rightarrow> call_log \<Rightarrow> native_result list \<times> ('s \<times> call_log) \<Rightarrow> bool" where
  "call_ok field payload l out \<longleftrightarrow> set l \<subseteq> set (snd (snd out)) \<and> fst out \<noteq> []
     \<and> answered field (payload_text field payload) (snd (snd out)) (fst out)"

definition pieces_ok :: "string \<Rightarrow> string list \<Rightarrow> call_log \<Rightarrow> native_result list \<times> ('s \<times> call_log) \<Rightarrow> bool" where
  "pieces_ok field ps l out \<longleftrightarrow> set l \<subseteq> set (snd (snd out)) \<and> length ps \<le> length (fst out)
     \<and> (\<forall>t \<in> set ps. answered field t (snd (snd out)) (fst out))"

lemma call_single_ok: "call_ok field payload (snd st) (let (r, s') = logged op payload st in ([r], s'))"
  by (auto simp: call_ok_def logged_def answered_single split_beta Let_def)

lemma chunk_and_call_ok:
  fixes op :: "'s native_op"
  shows "call_ok field payload (snd st) (chunk_and_call tokens (logged op) field overlap sz payload st)"
    and "MIN_CHUNK_TOKENS \<le> sz \<Longrightarrow>
      pieces_ok field ps (snd st) (call_pieces tokens (logged op) field overlap sz payload ps st)"
proof (induction tokens "logged op" field overlap sz payload st and tokens "logged op" field overlap sz payload ps st
    rule: chunk_and_call_call_pieces.induct)
  case (1 tokens field overlap sz payload s)
  let ?t = "payload_text field payload"
  let ?ps = "split_text tokens ?t sz (effective_overlap_tokens sz overlap)"
  show ?case
  proof (cases "py_strip ?t = [] \<or> sz < MIN_CHUNK_TOKENS \<or> length ?ps \<le> 1 \<and> sz \<le> MIN_CHUNK_TOKENS")
    case True
    then have "chunk_and_call tokens (logged op) field overlap sz payload s = (let (r, s') = logged op payload s in ([r], s'))"
      by (subst chunk_and_call.simps) (auto simp: Let_def)
    then show ?thesis using call_single_ok by metis
  next
    case f: False
    show ?thesis
    proof (cases "length ?ps \<le> 1")
      case True
      then have "chunk_and_call tokens (logged op) field overlap sz payload s
          = chunk_and_call tokens (logged op) field overlap (halve sz) payload s"
        using f by (subst chunk_and_call.simps) (simp add: Let_def)
      then show ?thesis using 1(1) [OF refl refl _ refl] f True by simp
    next
      case False
      then have e: "chunk_and_call tokens (logged op) field overlap sz payload s
          = call_pieces tokens (logged op) field overlap sz payload ?ps s"
        using f by (subst chunk_and_call.simps) (simp add: Let_def)
      have p: "pieces_ok field ?ps (snd s) (call_pieces tokens (logged op) field overlap sz payload ?ps s)"
        using 1(2) [OF refl refl _ refl] f False by simp
      have "answered field ?t l rs" if "\<forall>t \<in> set ?ps. answered field t l rs" for l rs
      proof -
        have sz: "0 < sz" using f by (auto simp: MIN_CHUNK_TOKENS_def)
        show ?thesis
          unfolding answered_def
        proof
          fix w
          assume "w \<in> set (py_split ?t)"
          then obtain i where "i < length (py_split ?t)" "py_split ?t ! i = w" by (auto simp: in_set_conv_nth)
          then obtain t where "t \<in> set ?ps" "w \<in> set (py_split t)"
            using split_text_cover [OF sz] by blast
          then show "\<exists>(p, r) \<in> set l. r \<in> set rs \<and> w \<in> set (py_split (payload_text field p))"
            using that unfolding answered_def by blast
        qed
      qed
      then show ?thesis
        using p False unfolding e call_ok_def pieces_ok_def by auto
    qed
  qed
next
  case (2 tokens field overlap sz payload s)
  show ?case by (simp add: call_pieces.simps pieces_ok_def)
next
  case (3 tokens field overlap sz payload p ps s)
  let ?cp = "AList.update field (JStr p) payload"
  obtain r s1 where o: "logged op ?cp s = (r, s1)" by (cases "logged op ?cp s")
  have l1: "snd s1 = snd s @ [(?cp, r)]" using o by (auto simp: logged_def Let_def split_beta)
  obtain rs s2 where c: "(if overflowed r \<and> MIN_CHUNK_TOKENS < sz
      then chunk_and_call tokens (logged op) field overlap (halve sz) ?cp s1 else ([r], s1)) = (rs, s2)"
    by (metis surj_pair)
  obtain rest s3 where d: "call_pieces tokens (logged op) field overlap sz payload ps s2 = (rest, s3)"
    by (cases "call_pieces tokens (logged op) field overlap sz payload ps s2")
  have e: "call_pieces tokens (logged op) field overlap sz payload (p # ps) s = (rs @ rest, s3)"
    by (simp add: call_pieces.simps o c d Let_def)
  have one: "call_ok field ?cp (snd s1) (rs, s2)"
  proof (cases "overflowed r \<and> MIN_CHUNK_TOKENS < sz")
    case True
    then have "call_ok field ?cp (snd s1) (chunk_and_call tokens (logged op) field overlap (halve sz) ?cp s1)"
      using 3(1) [OF refl o [symmetric] refl True] by simp
    then show ?thesis using c True by simp
  next
    case False
    then have "rs = [r]" "s2 = s1" using c by auto
    then show ?thesis using l1 answered_single [of field ?cp "snd s" r] by (simp add: call_ok_def)
  qed
  have rest: "pieces_ok field ps (snd s2) (rest, s3)"
    using 3(2) [OF refl o [symmetric] refl c [symmetric] refl] d 3(3) by simp
  have "1 \<le> length rs" using one by (cases rs) (simp_all add: call_ok_def)
  then show ?case
    unfolding e pieces_ok_def
    using one rest l1
    by (auto simp: call_ok_def pieces_ok_def intro: answered_mono)
qed


theorem chunked_call_loses_no_word:
  assumes "chunk_and_call tokens (logged op) field overlap sz payload (s, []) = (rs, (s', l))"
    and "w \<in> set (py_split (payload_text field payload))"
  shows "\<exists>(p, r) \<in> set l. r \<in> set rs \<and> w \<in> set (py_split (payload_text field p))"
  using chunk_and_call_ok(1) [of field payload "(s, [])" tokens op overlap sz] assms
  by (simp add: call_ok_def answered_def)

theorem split_text_covers:
  assumes "0 < chunk" "i < length (py_split s)"
  shows "\<exists>t \<in> set (split_text tokens s chunk overlap). py_split s ! i \<in> set (py_split t)"
  using split_text_cover [OF assms] .

subsection \<open>Reducing need not return\<close>

lemma calls_without_overflow:
  assumes "\<And>p s. \<not> overflowed (fst (op p s))"
  shows "length (fst (call_pieces tokens op field overlap sz payload ps s)) = length ps
    \<and> set (fst (call_pieces tokens op field overlap sz payload ps s)) \<subseteq> range (\<lambda>(p, s). fst (op p s))"
proof (induction ps arbitrary: s)
  case Nil
  then show ?case by (simp add: call_pieces.simps)
next
  case (Cons p ps)
  let ?cp = "AList.update field (JStr p) payload"
  obtain r s1 where o: "op ?cp s = (r, s1)" by (cases "op ?cp s")
  obtain rest s3 where d: "call_pieces tokens op field overlap sz payload ps s1 = (rest, s3)"
    by (cases "call_pieces tokens op field overlap sz payload ps s1")
  have "\<not> overflowed r" using assms [of ?cp s] o by simp
  then have e: "call_pieces tokens op field overlap sz payload (p # ps) s = (r # rest, s3)"
    by (simp add: call_pieces.simps o d Let_def)
  have "r \<in> range (\<lambda>(p, s). fst (op p s))"
    by (rule range_eqI [of _ _ "(?cp, s)"]) (simp add: o)
  then show ?case using Cons.IH [of s1] e d by simp
qed

text \<open>An operation that always succeeds, and a builder whose payload never shrinks.\<close>

definition chatty :: "unit native_op" where
  "chatty p s = (\<lparr>nr_ok = True, nr_data = JObj []\<rparr>, s)"

definition long_payload :: jobj where
  "long_payload = [(''text'', JStr (join_with SP (replicate 4000 ''a'')))]"

text \<open>The text costs more than the budget, everything else little.\<close>

definition demo_tokens :: "string \<Rightarrow> nat" where
  "demo_tokens s = length s"

lemma long_text: "payload_text ''text'' long_payload = join_with SP (replicate 4000 ''a'')"
  and long_words: "py_split (join_with SP (replicate 4000 ''a'')) = replicate 4000 ''a''"
proof -
  have w: "are_words (replicate 4000 ''a'')" by (simp add: are_words_def is_word_def list_all_iff py_simps)
  show "py_split (join_with SP (replicate 4000 ''a'')) = replicate 4000 ''a''" by (rule py_split_join [OF w])
  have "join_with SP (replicate 4000 ''a'') \<noteq> []"
    using py_split_join [OF w] by (auto simp: py_split_def)
  then show "payload_text ''text'' long_payload = join_with SP (replicate 4000 ''a'')"
    by (simp add: payload_text_def long_payload_def jget_or_def py_or_def)
qed


lemma words_acc_length: "length (words_acc acc s) \<le> length s + (if acc = [] then 0 else 1)"
  by (induction acc s rule: words_acc.induct) auto

lemma json_string_length: "length s \<le> length (json_string s)"
proof -
  have "json_char c \<noteq> []" for c by (simp add: json_char_def Let_def)
  then have one: "1 \<le> length (json_char c)" for c by (simp add: Suc_le_eq)
  have "length s \<le> length (concat (map json_char s))"
  proof (induction s)
    case (Cons c s)
    then show ?case using one [of c] by simp
  qed simp
  then show ?thesis by (simp add: json_string_def)
qed

lemma long_payload_cost: "3200 < estimate_native_payload_tokens demo_tokens long_payload"
proof -
  have "4000 \<le> length (join_with SP (replicate 4000 ''a''))"
    using words_acc_length [of "[]" "join_with SP (replicate 4000 ''a'')"] long_words by (simp add: py_split_def)
  also have "\<dots> \<le> length (json_string (join_with SP (replicate 4000 ''a'')))" by (rule json_string_length)
  finally show ?thesis
    by (simp add: estimate_native_payload_tokens_def demo_tokens_def long_payload_def)
qed

lemma two_windows:
  assumes "0 < sz" "are_words ws" "start + sz + 20 < length ws" "start + max step 1 < length ws"
  shows "1 < length (windows_from sz step ws start)"
proof -
  have st: "start < length ws" using assms(3) by simp
  obtain fin k where w: "fin = min (start + sz) (length ws)" "k \<le> SENTENCE_SNAP_LOOKAHEAD_WORDS"
    "windows_from sz step ws start
      = join_with SP (take (fin - start) (drop start ws) @ take k (drop fin ws))
        # (if length ws \<le> fin + length (take k (drop fin ws)) then []
           else windows_from sz step ws (start + max step 1))"
    using windows_step [OF assms(1,2) st] by metis
  have "windows_from sz step ws (start + max step 1) \<noteq> []"
    using windows_step [OF assms(1,2,4), of step] by (metis list.distinct(1))
  then show ?thesis using w assms(3) by (auto simp: SENTENCE_SNAP_LOOKAHEAD_WORDS_def)
qed

lemma long_pieces:
  "1 < length (split_text demo_tokens (join_with SP (replicate 4000 ''a'')) 2400 300)"
proof -
  let ?ws = "replicate 4000 ''a''" and ?t = "join_with SP (replicate 4000 ''a'')"
  have w: "are_words ?ws" by (simp add: are_words_def is_word_def list_all_iff py_simps)
  have ww: "1 < length (windows_from 2400 2100 ?ws 0)"
    by (rule two_windows [OF _ w]) simp_all
  have "4000 \<le> demo_tokens ?t"
    using words_acc_length [of "[]" ?t] long_words by (simp add: py_split_def demo_tokens_def)
  then have big: "\<not> demo_tokens ?t \<le> 2400" by simp
  have nb: "py_strip ?t \<noteq> []" by (rule join_nonblank [OF w]) simp
  have "split_text demo_tokens ?t 2400 300 = windows_from 2400 2100 ?ws 0"
    using ww big nb long_words by (auto simp: split_text_def Let_def)
  then show ?thesis using ww by simp
qed

lemma chatty_chunks:
  "\<exists>rs. call_native_op_chunked demo_tokens chatty ''text'' 3200 DEFAULT_CHUNK_TOKENS DEFAULT_OVERLAP_TOKENS long_payload () = ((rs, True), ())
    \<and> 1 < length rs \<and> set rs \<subseteq> {\<lparr>nr_ok = True, nr_data = JObj []\<rparr>}"
proof -
  let ?ps = "split_text demo_tokens (join_with SP (replicate 4000 ''a'')) 2400 300"
  obtain rs u where rs: "call_pieces demo_tokens chatty ''text'' 300 2400 long_payload ?ps () = (rs, u)"
    by (cases "call_pieces demo_tokens chatty ''text'' 300 2400 long_payload ?ps ()")
  have no: "\<not> overflowed (fst (chatty p s))" for p s by (simp add: chatty_def overflowed_def)
  have len: "length rs = length ?ps" and sub: "set rs \<subseteq> {\<lparr>nr_ok = True, nr_data = JObj []\<rparr>}"
    using calls_without_overflow [of chatty demo_tokens "''text''" 300 2400 long_payload ?ps "()", OF no] rs
    by (auto simp: chatty_def)
  have ov: "effective_overlap_tokens 2400 300 = 300" by (simp add: effective_overlap_tokens_def)
  have nb: "py_strip (join_with SP (replicate 4000 ''a'')) \<noteq> []"
    using long_words by (metis py_split_strip py_split_def words_acc.simps(1) replicate_empty zero_neq_numeral)
  have "chunk_and_call demo_tokens chatty ''text'' 300 2400 long_payload () = (rs, u)"
    using nb long_pieces rs
    by (subst chunk_and_call.simps) (simp add: Let_def long_text ov MIN_CHUNK_TOKENS_def)
  moreover have "estimate_native_payload_tokens demo_tokens (filter (\<lambda>(k, v). k \<noteq> ''text'') long_payload) = 2"
    by (simp add: estimate_native_payload_tokens_def demo_tokens_def long_payload_def)
  ultimately have "call_native_op_chunked demo_tokens chatty ''text'' 3200 DEFAULT_CHUNK_TOKENS DEFAULT_OVERLAP_TOKENS long_payload () = ((rs, True), u)"
    using long_payload_cost
    by (simp add: call_native_op_chunked_def Let_def DEFAULT_CHUNK_TOKENS_def DEFAULT_OVERLAP_TOKENS_def MIN_CHUNK_TOKENS_def)
  then show ?thesis using len sub long_pieces by auto
qed

text \<open>
  Reducing chunk results need not converge.  With a builder whose payload always has the same long
  text, and an operation that always answers, every pass splits the payload into several pieces
  again; no depth of recursion is enough (Python ends in RecursionError).
\<close>

theorem reduce_may_not_return:
  "reduce_via_same_op demo_tokens chatty (\<lambda>_. long_payload) ''text'' 3200
     [\<lparr>nr_ok = True, nr_data = JObj []\<rparr>, \<lparr>nr_ok = True, nr_data = JObj []\<rparr>] () = None"
proof -
  let ?ok = "\<lparr>nr_ok = True, nr_data = JObj []\<rparr>"
  have sd: "set rs \<subseteq> {?ok} \<Longrightarrow> length (success_data rs) = length rs" for rs
    by (induction rs) (auto simp: success_data_def List.map_filter_simps)
  have fl: "set rs \<subseteq> {?ok} \<Longrightarrow> filter nr_ok rs = rs" for rs
    by (induction rs) auto
  define P where "P = (\<lambda>(tokens :: string \<Rightarrow> nat) (op :: unit native_op) (build :: jobj list \<Rightarrow> jobj) (field :: string) (budget :: nat) rs (s :: unit) (y :: native_result option \<times> unit).
    tokens = demo_tokens \<and> op = chatty \<and> build = (\<lambda>_. long_payload) \<and> field = ''text'' \<and> budget = 3200
      \<and> 1 < length rs \<and> set rs \<subseteq> {?ok} \<longrightarrow> False)"
  have step: "P tokens op build field budget rs s y"
    if IH: "\<And>tokens op build field budget rs s y. f tokens op build field budget rs s = Some y \<Longrightarrow> P tokens op build field budget rs s y"
      and eq: "(let data = success_data rs
        in if data = [] then Some (None, s)
           else if length data = 1 then Some (find nr_ok rs, s)
           else let ((results, chunked), s') = call_native_op_chunked tokens op field budget DEFAULT_CHUNK_TOKENS
                  DEFAULT_OVERLAP_TOKENS (build data) s; good = filter nr_ok results
                in if length good = 1 then Some (Some (hd good), s')
                   else if 1 < length good then f tokens op build field budget good s'
                   else Some (find nr_ok rs, s')) = Some y"
    for f tokens op build field budget rs s y
  proof -
    { assume a: "tokens = demo_tokens \<and> op = chatty \<and> build = (\<lambda>_. long_payload) \<and> field = ''text'' \<and> budget = 3200
        \<and> 1 < length rs \<and> set rs \<subseteq> {?ok}"
      obtain rs' where c: "call_native_op_chunked demo_tokens chatty ''text'' 3200 DEFAULT_CHUNK_TOKENS DEFAULT_OVERLAP_TOKENS long_payload () = ((rs', True), ())"
        "1 < length rs'" "set rs' \<subseteq> {?ok}"
        using chatty_chunks by blast
      have "f demo_tokens chatty (\<lambda>_. long_payload) ''text'' 3200 rs' () = Some y"
      proof -
        have u: "s = ()" by simp
        have n: "success_data rs \<noteq> []" "length (success_data rs) \<noteq> 1" using sd [of rs] a by auto
        have g: "length (filter nr_ok rs') \<noteq> 1" "1 < length (filter nr_ok rs')" using fl [OF c(3)] c(2) by simp_all
        show ?thesis using eq a c(1) n g fl [OF c(3)] unfolding u by (simp add: Let_def)
      qed
      then have "P demo_tokens chatty (\<lambda>_. long_payload) ''text'' 3200 rs' () y" by (rule IH)
      then have False using c by (simp add: P_def) }
    then show ?thesis unfolding P_def by blast
  qed
  have all: "reduce_via_same_op tokens op build field budget rs s = Some y \<Longrightarrow> P tokens op build field budget rs s y" for tokens op build field budget rs s y
    by (rule reduce_via_same_op.raw_induct [of P]) (rule step, assumption+)
  have "reduce_via_same_op demo_tokens chatty (\<lambda>_. long_payload) ''text'' 3200 [?ok, ?ok] () \<noteq> Some y" for y
    using all [of demo_tokens chatty "\<lambda>_. long_payload" "''text''" 3200 "[?ok, ?ok]" "()" y] by (auto simp: P_def)
  then show ?thesis by (meson not_None_eq)
qed

subsection \<open>Concrete calls\<close>

theorem split_text_covers_witness:
  "\<exists>t \<in> set (split_text demo_tokens ''aa bb cc'' 2 1). ''cc'' \<in> set (py_split t)"
proof -
  have w: "py_split ''aa bb cc'' = [''aa'', ''bb'', ''cc'']" by code_simp
  show ?thesis using split_text_covers [of 2 2 "''aa bb cc''" demo_tokens 1] by (simp add: w)
qed

theorem split_text_bounded_witness:
  "\<exists>t. t \<in> set (split_text demo_tokens ''aa bb cc'' 2 1) \<and> (length (py_split t) \<le> 22 \<or> demo_tokens ''aa bb cc'' \<le> 2)"
proof -
  have "py_split ''aa bb cc'' = [''aa'', ''bb'', ''cc'']" by code_simp
  then obtain t where t: "t \<in> set (split_text demo_tokens ''aa bb cc'' 2 1)"
    using split_text_cover [of 2 0 "''aa bb cc''" demo_tokens 1] by auto
  show ?thesis using t split_text_bounded [OF t] by auto
qed

theorem chunked_call_loses_no_word_witness:
  "\<exists>rs s' l. chunk_and_call demo_tokens (logged chatty) ''text'' 0 10 [(''text'', JStr ''aa bb'')] ((), []) = (rs, (s', l))
    \<and> (\<exists>(p, r) \<in> set l. r \<in> set rs \<and> ''bb'' \<in> set (py_split (payload_text ''text'' p)))"
proof -
  obtain rs s' l where c: "chunk_and_call demo_tokens (logged chatty) ''text'' 0 10 [(''text'', JStr ''aa bb'')] ((), []) = (rs, (s', l))"
    by (metis surj_pair)
  have "py_split (payload_text ''text'' [(''text'', JStr ''aa bb'')]) = [''aa'', ''bb'']" by code_simp
  then show ?thesis using c chunked_call_loses_no_word [OF c, of "''bb''"] by auto
qed

end
