(* ===== verification/Regex.thy ===== *)
theory Regex
  imports Prelude
begin

text \<open>
  The part of Python's \<^verbatim>\<open>re\<close> module the program uses, as an ordered
  backtracking matcher: \<open>rx\<close> lists every way a pattern can match at a position, in
  the order CPython tries them, so the head of the list is the match CPython
  reports.  A position is the previous character, the remaining text and the
  groups captured so far.  Patterns built here never iterate an expression that
  matches the empty string, so the loop below, which demands progress, is exact.
\<close>

datatype re =
    Eps
  | Lit string                       \<comment> \<open>a literal, in lower case where the flag ignores case\<close>
  | Cls bool "(nat \<times> nat) list"     \<comment> \<open>negated?, code point ranges\<close>
  | AnyChar                          \<comment> \<open>\<^verbatim>\<open>.\<close> under \<^verbatim>\<open>DOTALL\<close>\<close>
  | WordB
  | NotAfterWord                     \<comment> \<open>\<^verbatim>\<open>(?<!\w)\<close>\<close>
  | LineStart                        \<comment> \<open>\<^verbatim>\<open>^\<close> under \<^verbatim>\<open>MULTILINE\<close>\<close>
  | Seq re re
  | Alt re re
  | Star bool re                     \<comment> \<open>greedy?\<close>
  | Grp nat re
  | BackRef nat

type_synonym caps = "(nat \<times> string) list"
type_synonym rx_state = "char option \<times> string \<times> caps"

definition word_ranges :: "(nat \<times> nat) list" where
  "word_ranges = [(48, 57), (65, 90), (95, 95), (97, 122), (170, 170), (178, 179), (181, 181),
     (185, 186), (188, 190), (192, 214), (216, 246), (248, 255)]"

definition space_ranges :: "(nat \<times> nat) list" where
  "space_ranges = [(9, 13), (28, 32), (133, 133), (160, 160)]"

definition in_ranges :: "(nat \<times> nat) list \<Rightarrow> nat \<Rightarrow> bool" where
  "in_ranges rs n \<longleftrightarrow> list_ex (\<lambda>(a, b). a \<le> n \<and> n \<le> b) rs"

definition is_word_char :: "char \<Rightarrow> bool" where
  "is_word_char c \<longleftrightarrow> in_ranges word_ranges (code_point c)"

definition upper_char :: "char \<Rightarrow> char" where
  "upper_char c = (let n = code_point c in
     if 97 \<le> n \<and> n \<le> 122 \<or> 224 \<le> n \<and> n \<le> 254 \<and> n \<noteq> 247 then char_of (n - 32) else c)"

definition cls_match :: "bool \<Rightarrow> bool \<Rightarrow> (nat \<times> nat) list \<Rightarrow> char \<Rightarrow> bool" where
  "cls_match ic neg rs c \<longleftrightarrow>
     ((in_ranges rs (code_point c)
       \<or> ic \<and> (in_ranges rs (code_point (lower_char c)) \<or> in_ranges rs (code_point (upper_char c))))
      \<noteq> neg)"

definition opt_word :: "char option \<Rightarrow> bool" where
  "opt_word p = (case p of None \<Rightarrow> False | Some c \<Rightarrow> is_word_char c)"

definition head_word :: "string \<Rightarrow> bool" where
  "head_word s = (case s of [] \<Rightarrow> False | c # _ \<Rightarrow> is_word_char c)"

text \<open>The rest of the text after a literal, if it is a prefix.\<close>

fun lit_rest :: "bool \<Rightarrow> string \<Rightarrow> char option \<Rightarrow> string \<Rightarrow> (char option \<times> string) option" where
  "lit_rest ic [] p s = Some (p, s)"
| "lit_rest ic (d # ds) p [] = None"
| "lit_rest ic (d # ds) p (c # cs) =
     (if c = d \<or> ic \<and> lower_char c = d then lit_rest ic ds (Some c) cs else None)"

fun last_char :: "char option \<Rightarrow> string \<Rightarrow> char option" where
  "last_char p [] = p"
| "last_char p (c # cs) = last_char (Some c) cs"

fun rx_star :: "nat \<Rightarrow> bool \<Rightarrow> (rx_state \<Rightarrow> rx_state list) \<Rightarrow> rx_state \<Rightarrow> rx_state list" where
  "rx_star 0 g f st = [st]"
| "rx_star (Suc n) g f st =
     (let again = concat (map (rx_star n g f)
                    (filter (\<lambda>st'. length (fst (snd st')) < length (fst (snd st))) (f st)))
      in if g then again @ [st] else st # again)"

fun rx :: "bool \<Rightarrow> re \<Rightarrow> rx_state \<Rightarrow> rx_state list" where
  "rx ic Eps st = [st]"
| "rx ic (Lit t) (p, s, cp) =
     (case lit_rest ic t p s of None \<Rightarrow> [] | Some (p', s') \<Rightarrow> [(p', s', cp)])"
| "rx ic (Cls neg rs) (p, s, cp) =
     (case s of [] \<Rightarrow> [] | c # cs \<Rightarrow> if cls_match ic neg rs c then [(Some c, cs, cp)] else [])"
| "rx ic AnyChar (p, s, cp) = (case s of [] \<Rightarrow> [] | c # cs \<Rightarrow> [(Some c, cs, cp)])"
| "rx ic WordB (p, s, cp) = (if opt_word p \<noteq> head_word s then [(p, s, cp)] else [])"
| "rx ic NotAfterWord (p, s, cp) = (if opt_word p then [] else [(p, s, cp)])"
| "rx ic LineStart (p, s, cp) = (if p = None \<or> p = Some (CHR 0x0A) then [(p, s, cp)] else [])"
| "rx ic (Seq a b) st = concat (map (rx ic b) (rx ic a st))"
| "rx ic (Alt a b) st = rx ic a st @ rx ic b st"
| "rx ic (Star g r) (p, s, cp) = rx_star (length s) g (rx ic r) (p, s, cp)"
| "rx ic (Grp n r) (p, s, cp) =
     map (\<lambda>(p', s', cp'). (p', s', (n, take (length s - length s') s) # cp')) (rx ic r (p, s, cp))"
| "rx ic (BackRef n) (p, s, cp) =
     (case map_of cp n of
        None \<Rightarrow> []
      | Some t \<Rightarrow> if starts_with t s then [(last_char p t, drop (length t) s, cp)] else [])"

text \<open>\<^verbatim>\<open>pattern.search\<close>, as a yes/no answer.\<close>

fun rx_search :: "bool \<Rightarrow> re \<Rightarrow> char option \<Rightarrow> string \<Rightarrow> bool" where
  "rx_search ic r p [] = (rx ic r (p, [], []) \<noteq> [])"
| "rx_search ic r p (c # cs) = (rx ic r (p, c # cs, []) \<noteq> [] \<or> rx_search ic r (Some c) cs)"

subsection \<open>Building patterns\<close>

fun seqs :: "re list \<Rightarrow> re" where
  "seqs [] = Eps"
| "seqs [r] = r"
| "seqs (r # s # rs) = Seq r (seqs (s # rs))"

fun alts :: "re list \<Rightarrow> re" where
  "alts [] = Cls False []"
| "alts [r] = r"
| "alts (r # s # rs) = Alt r (alts (s # rs))"

definition opt :: "re \<Rightarrow> re" where "opt r = Alt r Eps"
definition plus :: "re \<Rightarrow> re" where "plus r = Seq r (Star True r)"
definition words :: "string list \<Rightarrow> re" where "words ws = alts (map Lit ws)"
definition sp :: re where "sp = plus (Cls False space_ranges)"
definition sp0 :: re where "sp0 = Star True (Cls False space_ranges)"
definition wordch :: re where "wordch = Cls False word_ranges"

text \<open>\<open>r{n,}\<close>.\<close>

fun at_least :: "nat \<Rightarrow> re \<Rightarrow> re" where
  "at_least 0 r = Star True r"
| "at_least (Suc n) r = Seq r (at_least n r)"

fun exactly :: "nat \<Rightarrow> re \<Rightarrow> re" where
  "exactly 0 r = Eps"
| "exactly (Suc n) r = Seq r (exactly n r)"

subsection \<open>Searching inside a longer text\<close>

lemma rx_search_suffix:
  "rx ic r (last_char p pre, s, []) \<noteq> [] \<Longrightarrow> rx_search ic r p (pre @ s)"
proof (induction pre arbitrary: p)
  case Nil
  then show ?case by (cases s) simp_all
next
  case (Cons c pre)
  then show ?case by simp
qed

lemma rx_search_iff:
  "rx_search ic r p s \<longleftrightarrow> (\<exists>pre suf. s = pre @ suf \<and> rx ic r (last_char p pre, suf, []) \<noteq> [])"
proof
  show "rx_search ic r p s \<Longrightarrow> \<exists>pre suf. s = pre @ suf \<and> rx ic r (last_char p pre, suf, []) \<noteq> []"
  proof (induction s arbitrary: p)
    case Nil
    then show ?case by (intro exI [of _ "[]"]) simp
  next
    case (Cons c cs)
    then consider "rx ic r (p, c # cs, []) \<noteq> []" | "rx_search ic r (Some c) cs" by auto
    then show ?case
    proof cases
      case 1
      then show ?thesis by (intro exI [of _ "[]"] exI [of _ "c # cs"]) simp
    next
      case 2
      then obtain pre suf where "cs = pre @ suf" "rx ic r (last_char (Some c) pre, suf, []) \<noteq> []"
        using Cons.IH by blast
      then show ?thesis by (intro exI [of _ "c # pre"] exI [of _ suf]) simp
    qed
  qed
qed (auto intro: rx_search_suffix)

lemma last_char_snoc [simp]: "last_char p (xs @ [c]) = Some c"
  by (induction xs arbitrary: p) simp_all

lemma seq_nonempty: "st' \<in> set (rx ic a st) \<Longrightarrow> rx ic b st' \<noteq> [] \<Longrightarrow> rx ic (Seq a b) st \<noteq> []"
  by auto

text \<open>\<^verbatim>\<open>pattern.match\<close>: the groups of the first match at the start of the text.\<close>

definition rx_match :: "bool \<Rightarrow> re \<Rightarrow> string \<Rightarrow> caps option" where
  "rx_match ic r s = (case rx ic r (None, s, []) of [] \<Rightarrow> None | (p, s', cp) # _ \<Rightarrow> Some cp)"

end
