(* ===== verification/Frontmatter.thy ===== *)
theory Frontmatter
  imports Regex
begin

text \<open>
  \<^verbatim>\<open>VaultIndexer._extract_frontmatter\<close> and \<^verbatim>\<open>_infer_layer\<close> of
  \<^verbatim>\<open>src/minni/indexer.py\<close>: the ownership, lifecycle and privacy a vault page may
  declare for itself.  \<^verbatim>\<open>yaml.safe_load\<close> is third-party code and stays a
  parameter \<open>yaml\<close> (\<open>None\<close>: it raised).
\<close>

type_synonym yaml_loader = "string \<Rightarrow> json option"

record frontmatter =
  fm_agent :: string
  fm_sigil :: "string option"   \<comment> \<open>None: the default glyph\<close>
  fm_status :: string
  fm_privacy :: string
  fm_page_type :: "string option"
  fm_layer :: string

definition nl :: re where "nl = Cls False [(10, 10)]"

text \<open>\<^verbatim>\<open>^---\s*\n(.*?)\n---\s*\n\<close> with \<^verbatim>\<open>DOTALL\<close> and \<^verbatim>\<open>MULTILINE\<close>.\<close>

definition FRONTMATTER_BLOCK_RE :: re where
  "FRONTMATTER_BLOCK_RE = seqs [LineStart, Lit ''---'', sp0, nl, Grp 1 (Star False AnyChar), nl,
     Lit ''---'', sp0, nl]"

definition valid_statuses :: "string list" where
  "valid_statuses = [''draft'', ''candidate'', ''accepted'', ''superseded'', ''rejected'', ''expired'']"

text \<open>In the order of \<^verbatim>\<open>order\<close>: least to most restrictive.\<close>

definition privacy_order :: "string list" where
  "privacy_order = [''safe'', ''local-only'', ''private'', ''blocked'']"

definition strip_quotes :: "string \<Rightarrow> string" where
  "strip_quotes s =
     (let q = (\<lambda>c. c = CHR 0x22 \<or> c = CHR 0x27)
      in rev (dropWhile q (rev (dropWhile q s))))"

definition fm_str :: "json \<Rightarrow> string \<Rightarrow> string" where
  "fm_str v d = (if v = JNull then d else strip_quotes (py_strip (py_str v)))"

fun privacy_rank :: "string list \<Rightarrow> string \<Rightarrow> nat" where
  "privacy_rank [] v = 0"
| "privacy_rank (o1 # os) v = (if v = o1 then 0 else Suc (privacy_rank os v))"

text \<open>\<^verbatim>\<open>max(recognized, key=order.index)\<close>: the first most restrictive value.\<close>

fun most_restrictive :: "string list \<Rightarrow> string \<Rightarrow> string" where
  "most_restrictive [] best = best"
| "most_restrictive (v # vs) best =
     most_restrictive vs (if privacy_rank privacy_order best < privacy_rank privacy_order v then v else best)"

fun split_lines :: "string \<Rightarrow> string list" where
  "split_lines [] = [[]]"
| "split_lines (c # cs) =
     (if c = CHR 0x0A then [] # split_lines cs
      else case split_lines cs of l # ls \<Rightarrow> (c # l) # ls | [] \<Rightarrow> [[c]])"

text \<open>
  \<^verbatim>\<open>re.findall(r"^privacy:\s*(.+)$", block, re.MULTILINE)\<close>.  \<^verbatim>\<open>\s*\<close> can run over
  line ends, so an empty \<^verbatim>\<open>privacy:\<close> line takes its value from the next non-blank
  line, and a value made of blanks only is found by giving back its last blank.  The
  scan goes on after the line the value ends on.
\<close>

definition blank :: "string \<Rightarrow> bool" where
  "blank l \<longleftrightarrow> list_all py_space l"

fun declared_privacy :: "string list \<Rightarrow> string list" where
  "declared_privacy [] = []"
| "declared_privacy (l # ls) =
     (if starts_with ''privacy:'' l
      then let v = drop 8 l in
        if \<not> blank v then dropWhile py_space v # declared_privacy ls
        else (case dropWhile blank ls of
                l' # ls' \<Rightarrow> dropWhile py_space l' # (if length ls' < length ls then declared_privacy ls' else [])
              | [] \<Rightarrow> [])
      else declared_privacy ls)"

definition infer_layer :: "string \<Rightarrow> string option \<Rightarrow> int \<Rightarrow> string" where
  "infer_layer agent page_type whole_document =
     (if whole_document = 1 \<and> starts_with ''identity:'' agent then ''identity''
      else case page_type of
             Some t \<Rightarrow> if py_lower t = ''artifact'' then ''artifact'' else ''knowledge''
           | None \<Rightarrow> ''knowledge'')"

definition extract_agent :: "jobj \<Rightarrow> string" where
  "extract_agent data =
     (let agent = fm_str (first_of_keys data [''agent'', ''sigil'']) ''unknown''
      in if starts_with ''identity:'' agent
         then (let stripped = py_strip (drop 9 agent)
               in if stripped = [] then ''unknown'' else stripped)
         else agent)"

definition clamp_status :: "string \<Rightarrow> string" where
  "clamp_status s = (if s \<in> set valid_statuses then s else ''candidate'')"

definition clamp_privacy :: "string list \<Rightarrow> string \<Rightarrow> string" where
  "clamp_privacy block_lines p =
     (let p1 = (if p \<in> set privacy_order then p else ''safe'');
          recognized = filter (\<lambda>v. v \<in> set privacy_order)
            (map (\<lambda>v. py_lower (fm_str (JStr v) [])) (declared_privacy block_lines))
      in case recognized of
           v # w # vs \<Rightarrow> most_restrictive (w # vs) v
         | _ \<Rightarrow> p1)"

definition extract_frontmatter :: "yaml_loader \<Rightarrow> string \<Rightarrow> frontmatter" where
  "extract_frontmatter yaml content =
     (case rx_match False FRONTMATTER_BLOCK_RE content of
        None \<Rightarrow> \<lparr>fm_agent = ''unknown'', fm_sigil = None, fm_status = ''candidate'',
                 fm_privacy = ''safe'', fm_page_type = None, fm_layer = ''knowledge''\<rparr>
      | Some cp \<Rightarrow>
          (let block = (case map_of cp 1 of Some t \<Rightarrow> t | None \<Rightarrow> []);
               data = (case yaml block of Some (JObj kvs) \<Rightarrow> kvs | _ \<Rightarrow> []);
               agent = extract_agent data;
               pt = fm_str (first_of_keys data [''type'', ''page_type'']) [];
               page_type = (if pt = [] then None else Some pt)
           in \<lparr>fm_agent = agent,
               fm_sigil = (if jget data ''sigil'' = JNull then None
                           else Some (fm_str (jget data ''sigil'') [])),
               fm_status = clamp_status (py_lower (fm_str (jget data ''status'') ''candidate'')),
               fm_privacy = clamp_privacy (split_lines block)
                              (py_lower (fm_str (jget data ''privacy'') ''safe'')),
               fm_page_type = page_type,
               fm_layer = infer_layer agent page_type 1\<rparr>))"

subsection \<open>What a page can and cannot declare\<close>

lemma most_restrictive_in: "most_restrictive vs b \<in> insert b (set vs)"
  by (induction vs arbitrary: b) force+

lemma most_restrictive_ge:
  "v \<in> insert b (set vs) \<Longrightarrow>
   privacy_rank privacy_order v \<le> privacy_rank privacy_order (most_restrictive vs b)"
proof (induction vs arbitrary: b v)
  case Nil
  then show ?case by simp
next
  case (Cons w vs)
  let ?b = "if privacy_rank privacy_order b < privacy_rank privacy_order w then w else b"
  have "privacy_rank privacy_order b \<le> privacy_rank privacy_order ?b"
    and "privacy_rank privacy_order w \<le> privacy_rank privacy_order ?b" by auto
  moreover have "privacy_rank privacy_order ?b \<le> privacy_rank privacy_order (most_restrictive vs ?b)"
    using Cons.IH [of ?b ?b] by simp
  ultimately show ?case using Cons.prems Cons.IH [of v ?b] by auto
qed

definition recognized_privacy :: "string list \<Rightarrow> string list" where
  "recognized_privacy ls = filter (\<lambda>v. v \<in> set privacy_order)
     (map (\<lambda>v. py_lower (fm_str (JStr v) [])) (declared_privacy ls))"

theorem clamp_privacy_most_restrictive:
  shows "clamp_privacy ls p \<in> set privacy_order
    \<and> (2 \<le> length (recognized_privacy ls) \<longrightarrow>
        clamp_privacy ls p \<in> set (recognized_privacy ls)
        \<and> (\<forall>v \<in> set (recognized_privacy ls).
             privacy_rank privacy_order v \<le> privacy_rank privacy_order (clamp_privacy ls p)))"
proof -
  have c: "clamp_privacy ls p = (case recognized_privacy ls of v # w # vs \<Rightarrow> most_restrictive (w # vs) v
      | _ \<Rightarrow> if p \<in> set privacy_order then p else ''safe'')"
    by (simp add: clamp_privacy_def recognized_privacy_def Let_def)
  have safe: "''safe'' \<in> set privacy_order" by (simp add: privacy_order_def)
  have sub: "set (recognized_privacy ls) \<subseteq> set privacy_order"
    by (auto simp: recognized_privacy_def)
  show ?thesis
  proof (cases "recognized_privacy ls")
    case Nil
    then show ?thesis using c safe by simp
  next
    case (Cons v rest)
    note v = this
    show ?thesis
    proof (cases rest)
      case Nil
      then show ?thesis using c safe v by simp
    next
      case (Cons w vs)
      then have r: "recognized_privacy ls = v # w # vs" using v by simp
      have "clamp_privacy ls p \<in> set (v # w # vs)"
        using c r most_restrictive_in [of "w # vs" v] by simp
      moreover have "\<forall>u \<in> set (v # w # vs).
          privacy_rank privacy_order u \<le> privacy_rank privacy_order (clamp_privacy ls p)"
        using c r most_restrictive_ge [of _ v "w # vs"] by simp
      ultimately show ?thesis using r sub by auto
    qed
  qed
qed

text \<open>The \<^verbatim>\<open>identity:\<close> prefix is removed once, so a doubled prefix keeps the trusted layer.\<close>

theorem identity_layer_forgeable:
  assumes "rx_match False FRONTMATTER_BLOCK_RE content = Some cp" and "map_of cp 1 = Some block"
    and "yaml block = Some (JObj [(''agent'', JStr ''identity:identity:codex'')])"
  shows "fm_agent (extract_frontmatter yaml content) = ''identity:codex''
    \<and> fm_layer (extract_frontmatter yaml content) = ''identity''"
proof -
  have "extract_agent [(''agent'', JStr ''identity:identity:codex'')] = ''identity:codex''"
    by code_simp
  moreover have "infer_layer ''identity:codex'' pt 1 = ''identity''" for pt
    by (simp add: infer_layer_def starts_with_def)
  ultimately show ?thesis using assms by (simp add: extract_frontmatter_def Let_def)
qed

theorem identity_layer_forgeable_witness:
  "\<exists>content. fm_layer (extract_frontmatter
      (\<lambda>_. Some (JObj [(''agent'', JStr ''identity:identity:codex'')])) content) = ''identity''"
proof -
  let ?c = "[CHR ''-'', CHR ''-'', CHR ''-'', CHR 0x0A, CHR ''a'', CHR 0x0A, CHR ''-'', CHR ''-'', CHR ''-'', CHR 0x0A]"
  have a: "rx_match False FRONTMATTER_BLOCK_RE ?c = Some [(1, ''a'')]" by code_simp
  have b: "map_of [(1::nat, ''a'')] 1 = Some ''a''" by simp
  let ?y = "\<lambda>_. Some (JObj [(''agent'', JStr ''identity:identity:codex'')])"
  have "fm_layer (extract_frontmatter ?y ?c) = ''identity''"
    using identity_layer_forgeable [OF a b, of ?y] by simp
  then show ?thesis by blast
qed

end
