(* ===== verification/Chunker.thy ===== *)
theory Chunker
  imports Words Frontmatter
begin

text \<open>
  \<^verbatim>\<open>src/minni/chunker.py\<close>: the Markdown chunker.  The token counter, the embedder and the
  configuration are arguments; a vector is the list of its numbers.
\<close>

record chunk_config =
  chunk_size :: nat
  chunk_overlap :: nat
  sliding_strategy :: bool
  min_tokens :: nat
  max_tokens :: nat
  sentence_snap :: bool
  code_single_chunk :: bool
  semantic_merge :: bool

definition DEFAULT_CHUNK_CONFIG :: chunk_config where
  "DEFAULT_CHUNK_CONFIG = \<lparr>chunk_size = 512, chunk_overlap = 128, sliding_strategy = False,
     min_tokens = 64, max_tokens = 1024, sentence_snap = True, code_single_chunk = True,
     semantic_merge = False\<rparr>"

record chunk =
  ch_text :: string
  ch_heading :: string
  ch_path :: string
  ch_index :: nat
  ch_code :: bool
  ch_truncated :: bool

subsection \<open>Headings\<close>

text \<open>
  \<^verbatim>\<open>^(#{1,6})\s+(.+)$\<close> at a line start.  \<^verbatim>\<open>\s+\<close> can run over line ends, so a bare
  marker takes the next non-blank line as its text; when only blanks follow, the last one
  that is no line end is given back.  The result is the level, the matched source, the
  stripped text and what follows.
\<close>

record heading =
  h_level :: nat
  h_source :: string
  h_text :: string

definition NL :: char where
  "NL = CHR 0x0A"

definition match_heading :: "string \<Rightarrow> (heading \<times> string) option" where
  "match_heading s =
     (let hs = takeWhile (\<lambda>c. c = CHR ''#'') s; n = length hs; rest = drop n s;
          ws = takeWhile py_space rest; after = drop (length ws) rest
      in if n = 0 \<or> 6 < n \<or> ws = [] then None
         else if after \<noteq> [] then
           (let t = takeWhile (\<lambda>c. c \<noteq> NL) after
            in Some (\<lparr>h_level = n, h_source = hs @ ws @ t, h_text = py_strip t\<rparr>, drop (length t) after))
         else (case dropWhile (\<lambda>c. c = NL) (rev ws) of
             c # m # mr \<Rightarrow>
               Some (\<lparr>h_level = n, h_source = hs @ rev (m # mr) @ [c], h_text = py_strip [c]\<rparr>,
                     rev (takeWhile (\<lambda>c. c = NL) (rev ws)))
           | _ \<Rightarrow> None))"

text \<open>The next heading: the text before it, the heading and the text after it.\<close>

fun next_heading :: "bool \<Rightarrow> string \<Rightarrow> string \<Rightarrow> (string \<times> heading \<times> string) option" where
  "next_heading bol acc [] = None"
| "next_heading bol acc (c # cs) =
     (case (if bol then match_heading (c # cs) else None) of
        Some (h, rest) \<Rightarrow> Some (rev acc, h, rest)
      | None \<Rightarrow> next_heading (c = NL) (c # acc) cs)"

lemma match_heading_source:
  assumes "match_heading s = Some (h, rest)"
  shows "s = h_source h @ rest \<and> h_source h \<noteq> []"
proof -
  define hs where "hs = takeWhile (\<lambda>c. c = CHR ''#'') s"
  define ws where "ws = takeWhile py_space (drop (length hs) s)"
  define after where "after = drop (length ws) (drop (length hs) s)"
  have s: "s = hs @ ws @ after"
    by (metis after_def append_take_drop_id hs_def takeWhile_eq_take ws_def)
  have cond: "length hs \<noteq> 0" "ws \<noteq> []"
    using assms by (auto simp: match_heading_def Let_def hs_def ws_def split: if_split_asm)
  show ?thesis
  proof (cases "after = []")
    case False
    then have "h_source h = hs @ ws @ takeWhile (\<lambda>c. c \<noteq> NL) after"
      "rest = drop (length (takeWhile (\<lambda>c. c \<noteq> NL) after)) after"
      using assms by (auto simp: match_heading_def Let_def hs_def ws_def after_def split: if_split_asm)
    then show ?thesis
      using s cond by (simp add: dropWhile_eq_drop [symmetric])
  next
    case True
    then obtain c m mr where d: "dropWhile (\<lambda>c. c = NL) (rev ws) = c # m # mr"
      and h: "h_source h = hs @ rev (m # mr) @ [c]" "rest = rev (takeWhile (\<lambda>c. c = NL) (rev ws))"
      using assms
      by (auto simp: match_heading_def Let_def hs_def ws_def after_def split: if_split_asm list.split_asm)
    have "rev ws = takeWhile (\<lambda>c. c = NL) (rev ws) @ c # m # mr"
      using d by (metis takeWhile_dropWhile_id)
    then have "ws = rev (c # m # mr) @ rest" using h(2) by (metis rev_append rev_rev_ident)
    then show ?thesis using s True h(1) by simp
  qed
qed

lemma next_heading_source:
  "next_heading bol acc s = Some (body, h, rest) \<Longrightarrow> rev acc @ s = body @ h_source h @ rest \<and> length rest < length s"
proof (induction bol acc s rule: next_heading.induct)
  case (1 bol acc)
  then show ?case by simp
next
  case (2 bol acc c cs)
  show ?case
  proof (cases "if bol then match_heading (c # cs) else None")
    case None
    then show ?thesis using 2 by auto
  next
    case (Some x)
    then obtain h' rest' where x: "match_heading (c # cs) = Some (h', rest')" "x = (h', rest')"
      by (cases x) (auto split: if_split_asm)
    then have "body = rev acc" "h = h'" "rest = rest'" using 2(2) Some by auto
    then show ?thesis using match_heading_source [OF x(1)] by (metis append_is_Nil_conv length_append less_add_same_cancel2 length_greater_0_conv)
  qed
qed

text \<open>\<^verbatim>\<open>finditer\<close>: each heading with the text before it, and the text after the last.\<close>

function find_headings :: "bool \<Rightarrow> string \<Rightarrow> (string \<times> heading) list \<times> string" where
  "find_headings bol s =
     (case next_heading bol [] s of
        None \<Rightarrow> ([], s)
      | Some (body, h, rest) \<Rightarrow>
          (let (ms, tail) = find_headings False rest in ((body, h) # ms, tail)))"
  by pat_completeness auto
termination
  by (relation "measure (\<lambda>(b, s). length s)") (auto dest!: next_heading_source)

declare find_headings.simps [simp del]

fun sections_from ::
  "(nat \<times> string) list \<Rightarrow> string \<Rightarrow> string \<Rightarrow> bool \<Rightarrow> (string \<times> heading) list \<Rightarrow> string
    \<Rightarrow> (string \<times> string \<times> string) list" where
  "sections_from stack path hd0 seen [] tail = (if py_strip tail = [] then [] else [(path, hd0, tail)])"
| "sections_from stack path hd0 seen ((body, h) # ms) tail =
     (let stack' = (h_level h, h_text h) # dropWhile (\<lambda>(l, t). h_level h \<le> l) stack;
          path' = join_with '' > '' (map snd (rev stack'))
      in (if seen \<or> py_strip body \<noteq> [] then [(path, hd0, body)] else [])
         @ sections_from stack' path' (h_text h) True ms tail)"

definition split_sections :: "string \<Rightarrow> (string \<times> string \<times> string) list" where
  "split_sections s =
     (let (ms, tail) = find_headings True s; secs = sections_from [] [] [] False ms tail
      in if secs = [] then [([], [], s)] else secs)"

subsection \<open>Atomic blocks\<close>

definition FENCE :: string where
  "FENCE = [CHR 0x60, CHR 0x60, CHR 0x60]"

text \<open>\<^verbatim>\<open>^\s*\d+\.\<close>\<close>

definition numbered_item :: "string \<Rightarrow> bool" where
  "numbered_item l \<longleftrightarrow>
     (let r = dropWhile py_space l; d = takeWhile is_digit r
      in d \<noteq> [] \<and> starts_with ''.'' (drop (length d) r))"

definition list_line :: "string \<Rightarrow> bool" where
  "list_line l \<longleftrightarrow> (let t = py_strip l in starts_with ''-'' t \<or> starts_with ''*'' t \<or> starts_with ''+'' t)
     \<or> numbered_item l"

definition join_lines :: "string list \<Rightarrow> string" where
  "join_lines ls = join_with [NL] ls"

text \<open>\<open>cur\<close> is the current block, \<open>fenced\<close> says it is an open code block.\<close>

fun atomic_blocks :: "string list \<Rightarrow> bool \<Rightarrow> string list \<Rightarrow> string list" where
  "atomic_blocks cur fenced [] = (if cur = [] then [] else [join_lines cur])"
| "atomic_blocks cur fenced (l # ls) =
     (if starts_with FENCE (py_strip l) then
        if fenced then join_lines (cur @ [l]) # atomic_blocks [] False ls
        else if cur \<noteq> [] then join_lines cur # atomic_blocks [l] True ls
        else atomic_blocks [l] True ls
      else if fenced then atomic_blocks (cur @ [l]) True ls
      else if py_strip l = [] then
        if cur \<noteq> [] \<and> \<not> list_ex list_line cur then join_lines cur # atomic_blocks [] False ls
        else if cur \<noteq> [] then atomic_blocks (cur @ [l]) False ls
        else atomic_blocks cur False ls
      else atomic_blocks (cur @ [l]) False ls)"

definition split_atomic_blocks :: "string \<Rightarrow> string list" where
  "split_atomic_blocks s = filter (\<lambda>b. py_strip b \<noteq> []) (atomic_blocks [] False (split_lines s))"

definition is_code_block :: "string \<Rightarrow> bool" where
  "is_code_block s \<longleftrightarrow> substr_of FENCE s"

subsection \<open>Sentence snapping\<close>

definition sentence_mark :: "char \<Rightarrow> bool" where
  "sentence_mark c \<longleftrightarrow> c = CHR ''.'' \<or> c = CHR ''!'' \<or> c = CHR ''?''"

text \<open>Positions where \<^verbatim>\<open>(?<=[.!?])\s+\<close> matches; \<open>prev\<close> is the character before.\<close>

fun sentence_ends :: "nat \<Rightarrow> char option \<Rightarrow> string \<Rightarrow> nat list" where
  "sentence_ends n prev [] = []"
| "sentence_ends n prev (c # cs) =
     (if py_space c \<and> (case prev of Some p \<Rightarrow> sentence_mark p | None \<Rightarrow> False)
      then n # sentence_ends (n + 1) (Some c) cs
      else sentence_ends (n + 1) (Some c) cs)"

definition word_index_at :: "string \<Rightarrow> nat \<Rightarrow> nat" where
  "word_index_at s pos = length (py_split (take pos s))"

definition max_lookahead :: "chunk_config \<Rightarrow> nat" where
  "max_lookahead cfg = max (chunk_overlap cfg div 2) 5"

text \<open>\<^verbatim>\<open>words[a:b]\<close>\<close>

definition slice :: "'a list \<Rightarrow> nat \<Rightarrow> nat \<Rightarrow> 'a list" where
  "slice xs a b = take (b - a) (drop a xs)"

definition snap_to_sentence :: "chunk_config \<Rightarrow> string list \<Rightarrow> nat \<Rightarrow> nat \<Rightarrow> string list" where
  "snap_to_sentence cfg ws start window_size =
     (let fin = start + window_size
      in if length ws \<le> fin then slice ws start fin
         else
           let lookahead_end = min (fin + max_lookahead cfg) (length ws);
               lookahead = join_with SP (slice ws start lookahead_end);
               best = foldl (\<lambda>best pos.
                 let wab = word_index_at lookahead pos; actual = start + wab
                 in if int wab \<le> int (max_lookahead cfg div 2) + int window_size - int (length (slice ws start fin))
                       \<and> fin < actual \<and> actual \<le> lookahead_end
                    then Some (slice ws start actual) else best) None (sentence_ends 0 None lookahead)
           in case best of Some b \<Rightarrow> b | None \<Rightarrow> slice ws start fin)"

subsection \<open>The sliding window\<close>

definition window_step :: "chunk_config \<Rightarrow> nat" where
  "window_step cfg = max (chunk_size cfg - chunk_overlap cfg) 1"

definition capped_window :: "chunk_config \<Rightarrow> string list \<Rightarrow> nat \<Rightarrow> string list" where
  "capped_window cfg ws start =
     (let w = slice ws start (start + chunk_size cfg)
      in if max_tokens cfg < length w then take (max_tokens cfg) w else w)"

definition window_at :: "chunk_config \<Rightarrow> string list \<Rightarrow> bool \<Rightarrow> nat \<Rightarrow> string list" where
  "window_at cfg ws code start =
     (let w = capped_window cfg ws start
      in if sentence_snap cfg \<and> \<not> code then snap_to_sentence cfg ws start (length w) else w)"

function sliding_from ::
  "chunk_config \<Rightarrow> string list \<Rightarrow> string \<Rightarrow> string \<Rightarrow> bool \<Rightarrow> nat \<Rightarrow> nat \<Rightarrow> chunk list" where
  "sliding_from cfg ws hd0 path code idx start =
     (if length ws \<le> start then []
      else
        let w = window_at cfg ws code start; t = join_with SP w;
            keep = py_strip t \<noteq> [] \<and> min_tokens cfg \<le> length w;
            here = (if keep then [\<lparr>ch_text = t, ch_heading = hd0, ch_path = path, ch_index = idx, ch_code = code,
                                   ch_truncated = max_tokens cfg \<le> length w\<rparr>] else [])
        in here @ (if length ws \<le> start + chunk_size cfg then []
                   else sliding_from cfg ws hd0 path code (if keep then idx + 1 else idx) (start + window_step cfg)))"
  by pat_completeness auto
termination
  by (relation "measure (\<lambda>(cfg, ws, hd0, path, code, idx, start). length ws - start)")
    (auto simp: window_step_def)

declare sliding_from.simps [simp del]

definition sliding_window_raw ::
  "chunk_config \<Rightarrow> string list \<Rightarrow> string \<Rightarrow> string \<Rightarrow> nat \<Rightarrow> bool \<Rightarrow> chunk list" where
  "sliding_window_raw cfg ws hd0 path idx code = sliding_from cfg ws hd0 path code idx 0"

definition sliding_window :: "chunk_config \<Rightarrow> string \<Rightarrow> chunk list" where
  "sliding_window cfg s = sliding_window_raw cfg (py_split s) [] [] 0 False"

subsection \<open>Finalization and the semantic merge\<close>

fun reindex :: "nat \<Rightarrow> chunk list \<Rightarrow> chunk list" where
  "reindex n [] = []"
| "reindex n (c # cs) = c\<lparr>ch_index := n\<rparr> # reindex (n + 1) cs"

definition filter_and_finalize :: "chunk_config \<Rightarrow> (string \<Rightarrow> nat) \<Rightarrow> chunk list \<Rightarrow> chunk list" where
  "filter_and_finalize cfg tokens chunks =
     reindex 0 (filter (\<lambda>c. min_tokens cfg \<le> tokens (ch_text c)) chunks)"

definition dot :: "real list \<Rightarrow> real list \<Rightarrow> real" where
  "dot a b = sum_list (map2 (*) a b)"

definition cosine :: "real list \<Rightarrow> real list \<Rightarrow> real" where
  "cosine a b =
     (let denom = sqrt (dot a a) * sqrt (dot b b)
      in if denom < 1 / 10 ^ 8 then 0 else dot a b / denom)"

definition average_vectors :: "real list \<Rightarrow> real list \<Rightarrow> real list" where
  "average_vectors a b = map2 (\<lambda>x y. (x + y) / 2) a b"

definition merged_text :: "chunk \<Rightarrow> chunk \<Rightarrow> string" where
  "merged_text c d = py_strip (ch_text c @ [NL, NL] @ ch_text d)"

definition merge_two :: "chunk \<Rightarrow> chunk \<Rightarrow> chunk" where
  "merge_two c d = c\<lparr>ch_text := merged_text c d, ch_code := ch_code c \<or> ch_code d,
     ch_truncated := ch_truncated c \<or> ch_truncated d\<rparr>"

text \<open>\<open>enc\<close> is the embedder: None when encoding raises.\<close>

fun merge_from ::
  "chunk_config \<Rightarrow> (string \<Rightarrow> nat) \<Rightarrow> (string \<Rightarrow> real list option) \<Rightarrow> chunk \<Rightarrow> real list option
    \<Rightarrow> chunk list \<Rightarrow> chunk list" where
  "merge_from cfg tokens enc cur vec [] = [cur]"
| "merge_from cfg tokens enc cur vec (nxt # rest) =
     (if ch_path cur \<noteq> ch_path nxt \<or> max_tokens cfg < tokens (merged_text cur nxt)
      then cur # merge_from cfg tokens enc nxt None rest
      else case (case vec of Some v \<Rightarrow> Some v | None \<Rightarrow> enc (ch_text cur)) of
          None \<Rightarrow> cur # merge_from cfg tokens enc nxt None rest
        | Some v \<Rightarrow>
            (case enc (ch_text nxt) of
               None \<Rightarrow> cur # merge_from cfg tokens enc nxt None rest
             | Some u \<Rightarrow>
                 if cosine v u > 9 / 10
                 then merge_from cfg tokens enc (merge_two cur nxt) (Some (average_vectors v u)) rest
                 else cur # merge_from cfg tokens enc nxt None rest))"

definition semantic_merge_chunks ::
  "chunk_config \<Rightarrow> (string \<Rightarrow> nat) \<Rightarrow> (string \<Rightarrow> real list option) option \<Rightarrow> chunk list \<Rightarrow> chunk list" where
  "semantic_merge_chunks cfg tokens embedder chunks =
     (case (chunks, embedder) of
        (c # d # rest, Some enc) \<Rightarrow> merge_from cfg tokens enc c None (d # rest)
      | _ \<Rightarrow> chunks)"

definition finalize ::
  "chunk_config \<Rightarrow> (string \<Rightarrow> nat) \<Rightarrow> (string \<Rightarrow> real list option) option \<Rightarrow> chunk list \<Rightarrow> chunk list" where
  "finalize cfg tokens embedder chunks0 =
     (let chunks = filter_and_finalize cfg tokens chunks0
      in if semantic_merge cfg
         then filter_and_finalize cfg tokens (semantic_merge_chunks cfg tokens embedder chunks)
         else chunks)"

subsection \<open>\<^verbatim>\<open>chunk_document\<close>\<close>

definition TRUNCATED_MARK :: string where
  "TRUNCATED_MARK = [NL, NL] @ ''<!-- TRUNCATED: exceeded max_tokens -->''"

definition block_chunks ::
  "chunk_config \<Rightarrow> string \<Rightarrow> string \<Rightarrow> nat \<Rightarrow> string \<Rightarrow> chunk list" where
  "block_chunks cfg hd0 path idx block =
     (let ws = py_split block; code = is_code_block block;
          one = (\<lambda>t cut. [\<lparr>ch_text = py_strip t, ch_heading = hd0, ch_path = path, ch_index = idx,
                           ch_code = code, ch_truncated = cut\<rparr>])
      in if code \<and> code_single_chunk cfg then
           if max_tokens cfg < length ws
           then one (join_with SP (take (max_tokens cfg) ws) @ TRUNCATED_MARK) True
           else one block False
         else if length ws \<le> chunk_size cfg then one block False
         else sliding_window_raw cfg ws hd0 path idx code)"

fun blocks_chunks ::
  "chunk_config \<Rightarrow> string \<Rightarrow> string \<Rightarrow> nat \<Rightarrow> string list \<Rightarrow> chunk list" where
  "blocks_chunks cfg hd0 path idx [] = []"
| "blocks_chunks cfg hd0 path idx (b # bs) =
     (let cs = block_chunks cfg hd0 path idx b
      in cs @ blocks_chunks cfg hd0 path (idx + length cs) bs)"

definition section_chunks :: "chunk_config \<Rightarrow> nat \<Rightarrow> string \<times> string \<times> string \<Rightarrow> chunk list" where
  "section_chunks cfg idx sec =
     (let (path, hd0, body) = sec
      in if py_strip body = [] then []
         else if length (py_split body) \<le> chunk_size cfg
         then [\<lparr>ch_text = py_strip body, ch_heading = hd0, ch_path = path, ch_index = idx,
                ch_code = is_code_block body, ch_truncated = False\<rparr>]
         else blocks_chunks cfg hd0 path idx (split_atomic_blocks body))"

fun sections_chunks :: "chunk_config \<Rightarrow> nat \<Rightarrow> (string \<times> string \<times> string) list \<Rightarrow> chunk list" where
  "sections_chunks cfg idx [] = []"
| "sections_chunks cfg idx (s # ss) =
     (let cs = section_chunks cfg idx s in cs @ sections_chunks cfg (idx + length cs) ss)"

definition chunk_document ::
  "chunk_config \<Rightarrow> (string \<Rightarrow> nat) \<Rightarrow> (string \<Rightarrow> real list option) option \<Rightarrow> string \<Rightarrow> chunk list" where
  "chunk_document cfg tokens embedder s =
     (if sliding_strategy cfg then finalize cfg tokens embedder (sliding_window cfg s)
      else let chunks = sections_chunks cfg 0 (split_sections s)
           in if chunks = [] then finalize cfg tokens embedder (sliding_window cfg s)
              else finalize cfg tokens embedder chunks)"

end
