(* ===== verification/Chunker_Laws.thy ===== *)
theory Chunker_Laws
  imports Chunker
begin

text \<open>
  What the chunker guarantees: the sliding window covers every word, chunks stay below the
  cap, sections and blocks lose no text, and what the sentence snap really does.
\<close>

subsection \<open>Slices\<close>

lemma slice_length [simp]: "length (slice xs a b) = min (b - a) (length xs - a)"
  by (simp add: slice_def)

lemma slice_words [simp]: "are_words ws \<Longrightarrow> are_words (slice ws a b)"
  by (simp add: slice_def)

lemma slice_cut: "slice xs a b = slice xs a (min b (length xs))"
  by (simp add: slice_def min_def)

subsection \<open>The snap\<close>

lemma foldl_best:
  "foldl (\<lambda>best pos. if ok pos then Some (f pos) else best) acc ps = Some w \<Longrightarrow>
    acc = Some w \<or> (\<exists>pos \<in> set ps. ok pos \<and> w = f pos)"
  by (induction ps arbitrary: acc) (fastforce split: if_splits)+

lemma snap_cases:
  assumes "snap_to_sentence cfg ws start n = w"
  obtains (plain) "w = slice ws start (start + n)"
  | (snapped) wab where "w = slice ws start (start + wab)" "n < wab" "start + wab \<le> length ws"
      "wab \<le> max_lookahead cfg div 2" "start + n < length ws"
proof (cases "length ws \<le> start + n")
  case True
  then show thesis using assms plain by (simp add: snap_to_sentence_def)
next
  case False
  define lend where "lend = min (start + n + max_lookahead cfg) (length ws)"
  define look where "look = join_with SP (slice ws start lend)"
  define ok where "ok = (\<lambda>pos. int (word_index_at look pos) \<le> int (max_lookahead cfg div 2) + int n - int (length (slice ws start (start + n)))
      \<and> start + n < start + word_index_at look pos \<and> start + word_index_at look pos \<le> lend)"
  define best where "best = foldl (\<lambda>best pos. if ok pos then Some (slice ws start (start + word_index_at look pos)) else best) None (sentence_ends 0 None look)"
  have w: "w = (case best of Some b \<Rightarrow> b | None \<Rightarrow> slice ws start (start + n))"
    unfolding assms [symmetric] snap_to_sentence_def Let_def best_def ok_def look_def lend_def
    by (simp only: False if_False)
  show thesis
  proof (cases best)
    case None
    then show thesis using w plain by simp
  next
    case (Some b)
    then obtain pos where p: "ok pos" "b = slice ws start (start + word_index_at look pos)"
      using foldl_best [of ok "\<lambda>pos. slice ws start (start + word_index_at look pos)" None "sentence_ends 0 None look" b]
      unfolding best_def by auto
    show thesis
      by (rule snapped [of "word_index_at look pos"])
        (use p Some w False in \<open>auto simp: ok_def lend_def\<close>)
  qed
qed

lemma snap_dead:
  assumes "max_lookahead cfg div 2 \<le> n"
  shows "snap_to_sentence cfg ws start n = slice ws start (start + n)"
  by (rule snap_cases [OF refl, of cfg ws start n]) (use assms in auto)

lemma capped_slice: "capped_window cfg ws start = slice ws start (start + min (chunk_size cfg) (max_tokens cfg))"
  by (auto simp: capped_window_def Let_def slice_def min_def)

lemma window_slice:
  obtains e where "window_at cfg ws code start = slice ws start e"
    and "min (start + min (chunk_size cfg) (max_tokens cfg)) (length ws) \<le> e"
proof (cases "sentence_snap cfg \<and> \<not> code")
  case False
  then have "window_at cfg ws code start = slice ws start (start + min (chunk_size cfg) (max_tokens cfg))"
    by (auto simp: window_at_def Let_def capped_slice)
  then show thesis by (rule that) simp
next
  case True
  let ?n = "length (capped_window cfg ws start)"
  have w: "window_at cfg ws code start = snap_to_sentence cfg ws start ?n"
    using True by (simp add: window_at_def Let_def)
  have n: "?n = min (min (chunk_size cfg) (max_tokens cfg)) (length ws - start)"
    by (simp add: capped_slice)
  show thesis
  proof (rule snap_cases [OF w [symmetric]])
    assume x: "window_at cfg ws code start = slice ws start (start + ?n)"
    show thesis by (rule that [OF x]) (use n in auto)
  next
    fix wab
    assume x: "window_at cfg ws code start = slice ws start (start + wab)" and g: "?n < wab"
    show thesis by (rule that [OF x]) (use n g in auto)
  qed
qed

lemma window_plain:
  assumes "max_lookahead cfg div 2 \<le> min (chunk_size cfg) (max_tokens cfg)"
  shows "window_at cfg ws code start = slice ws start (start + min (chunk_size cfg) (max_tokens cfg))"
proof -
  let ?n = "length (capped_window cfg ws start)"
  have n: "?n = min (min (chunk_size cfg) (max_tokens cfg)) (length ws - start)"
    by (simp add: capped_slice)
  have "snap_to_sentence cfg ws start ?n = slice ws start (start + ?n)"
    by (rule snap_cases [OF refl, of cfg ws start ?n]) (use n assms in auto)
  also have "\<dots> = capped_window cfg ws start" by (simp add: capped_slice slice_def min_def)
  finally show ?thesis by (simp add: window_at_def Let_def capped_slice)
qed

theorem default_never_snaps:
  "window_at DEFAULT_CHUNK_CONFIG ws code start = slice ws start (start + 512)"
  by (subst window_plain) (simp_all add: DEFAULT_CHUNK_CONFIG_def max_lookahead_def)

subsection \<open>Every word is covered\<close>

lemma sliding_from_covers:
  assumes "chunk_size cfg \<le> max_tokens cfg" "min_tokens cfg \<le> chunk_overlap cfg" "chunk_overlap cfg < chunk_size cfg"
    and "are_words ws" "start \<le> i" "i < length ws" "min_tokens cfg \<le> length ws - start"
  shows "\<exists>c \<in> set (sliding_from cfg ws hd0 path code idx start). \<exists>a e.
    ch_text c = join_with SP (slice ws a e) \<and> a \<le> i \<and> i < e"
  using assms
proof (induction cfg ws hd0 path code idx start rule: sliding_from.induct)
  case (1 cfg ws hd0 path code idx start)
  define w where "w = window_at cfg ws code start"
  have st: "start < length ws" using 1 by simp
  obtain e where e: "w = slice ws start e" "min (start + chunk_size cfg) (length ws) \<le> e"
    using window_slice [of cfg ws code start] 1(2) unfolding w_def by (metis min_absorb1)
  have len: "min_tokens cfg \<le> length w" "w \<noteq> []"
    using e 1(2-) st by (auto simp: slice_def)
  have keep: "py_strip (join_with SP w) \<noteq> [] \<and> min_tokens cfg \<le> length w"
    using len e 1(5) join_nonblank by simp
  define c where "c = \<lparr>ch_text = join_with SP w, ch_heading = hd0, ch_path = path, ch_index = idx, ch_code = code,
    ch_truncated = max_tokens cfg \<le> length w\<rparr>"
  have unfold: "sliding_from cfg ws hd0 path code idx start
      = c # (if length ws \<le> start + chunk_size cfg then []
             else sliding_from cfg ws hd0 path code (idx + 1) (start + window_step cfg))"
    using st keep by (subst sliding_from.simps) (simp add: Let_def w_def c_def)
  show ?case
  proof (cases "i < e")
    case True
    then show ?thesis
      unfolding unfold using e 1(6) by (intro bexI [of _ c]) (auto simp: c_def)
  next
    case False
    then have more: "\<not> length ws \<le> start + chunk_size cfg" and i: "start + chunk_size cfg \<le> i"
      using e 1(7) by auto
    have "\<exists>c \<in> set (sliding_from cfg ws hd0 path code (idx + 1) (start + window_step cfg)). \<exists>a e.
        ch_text c = join_with SP (slice ws a e) \<and> a \<le> i \<and> i < e"
    proof -
      have k: "(if py_strip (join_with SP w) \<noteq> [] \<and> min_tokens cfg \<le> length w then idx + 1 else idx) = idx + 1"
        using keep by simp
      show ?thesis
        using 1(1) [of w "join_with SP w" "py_strip (join_with SP w) \<noteq> [] \<and> min_tokens cfg \<le> length w"
            "[c]"] 1(2-) st more i keep
        by (auto simp: w_def c_def window_step_def)
    qed
    then show ?thesis unfolding unfold using more by auto
  qed
qed

theorem sliding_window_covers:
  assumes "chunk_size cfg \<le> max_tokens cfg" "min_tokens cfg \<le> chunk_overlap cfg" "chunk_overlap cfg < chunk_size cfg"
    and "min_tokens cfg \<le> length (py_split s)" and "i < length (py_split s)"
  shows "\<exists>c \<in> set (sliding_window cfg s). \<exists>a e.
    ch_text c = join_with SP (slice (py_split s) a e) \<and> a \<le> i \<and> i < e \<and> py_split s ! i \<in> set (py_split (ch_text c))"
proof -
  obtain c a e where c: "c \<in> set (sliding_window cfg s)" "ch_text c = join_with SP (slice (py_split s) a e)" "a \<le> i" "i < e"
    using sliding_from_covers [OF assms(1-3) py_split_are_words _ assms(5), of 0] assms(4)
    unfolding sliding_window_def sliding_window_raw_def by (metis diff_zero le0)
  have "py_split s ! i = slice (py_split s) a e ! (i - a)" "i - a < length (slice (py_split s) a e)"
    using c assms(5) by (auto simp: slice_def)
  then have "py_split s ! i \<in> set (py_split (ch_text c))"
    unfolding c(2) py_split_join [OF slice_words [OF py_split_are_words]] by (metis nth_mem)
  then show ?thesis using c by blast
qed


subsection \<open>Size bounds\<close>

lemma words_acc_break:
  "py_space c \<Longrightarrow> words_acc acc (s @ c # t) = words_acc acc s @ words_acc [] t"
  by (induction acc s rule: words_acc.induct) simp_all

lemma py_split_break: "py_space c \<Longrightarrow> py_split (s @ c # t) = py_split s @ py_split t"
  by (simp add: py_split_def words_acc_break)

lemma truncated_words:
  "are_words ws \<Longrightarrow> length (py_split (join_with SP ws @ TRUNCATED_MARK)) = length ws + 5"
proof -
  assume ws: "are_words ws"
  have sp: "py_space NL" by (simp add: NL_def py_simps)
  have "py_split (NL # ''<!-- TRUNCATED: exceeded max_tokens -->'') = [''<!--'', ''TRUNCATED:'', ''exceeded'', ''max_tokens'', ''-->'']"
    by code_simp
  then show ?thesis
    by (simp add: TRUNCATED_MARK_def py_split_break [OF sp] py_split_join [OF ws])
qed

definition word_cap :: "chunk_config \<Rightarrow> nat" where
  "word_cap cfg = max (chunk_size cfg) (max_tokens cfg + 5)"

definition snap_out_of_reach :: "chunk_config \<Rightarrow> bool" where
  "snap_out_of_reach cfg \<longleftrightarrow> max_lookahead cfg div 2 \<le> min (chunk_size cfg) (max_tokens cfg)"

definition within_cap :: "chunk_config \<Rightarrow> chunk \<Rightarrow> bool" where
  "within_cap cfg c \<longleftrightarrow> length (py_split (ch_text c)) \<le> word_cap cfg"

lemma sliding_from_cap:
  assumes "snap_out_of_reach cfg" "are_words ws"
  shows "list_all (within_cap cfg) (sliding_from cfg ws hd0 path code idx start)"
  using assms
proof (induction cfg ws hd0 path code idx start rule: sliding_from.induct)
  case (1 cfg ws hd0 path code idx start)
  have "within_cap cfg \<lparr>ch_text = join_with SP (window_at cfg ws code start), ch_heading = hd0, ch_path = path,
      ch_index = idx, ch_code = code, ch_truncated = tr\<rparr>" for tr
    using 1(2) window_plain [of cfg ws code start] py_split_join [OF slice_words [OF 1(3)]]
    by (simp add: snap_out_of_reach_def word_cap_def within_cap_def)
  then show ?case
    using 1 by (subst sliding_from.simps) (auto simp: Let_def)
qed

lemma block_chunks_cap:
  "snap_out_of_reach cfg \<Longrightarrow> list_all (within_cap cfg) (block_chunks cfg hd0 path idx block)"
  by (auto simp: block_chunks_def Let_def within_cap_def word_cap_def truncated_words sliding_window_raw_def
      intro: sliding_from_cap)

lemma blocks_chunks_cap:
  "snap_out_of_reach cfg \<Longrightarrow> list_all (within_cap cfg) (blocks_chunks cfg hd0 path idx bs)"
  by (induction bs arbitrary: idx) (simp_all add: Let_def block_chunks_cap)

lemma sections_chunks_cap:
  "snap_out_of_reach cfg \<Longrightarrow> list_all (within_cap cfg) (sections_chunks cfg idx ss)"
  by (induction ss arbitrary: idx)
    (auto simp: Let_def section_chunks_def blocks_chunks_cap within_cap_def word_cap_def)

lemma reindex_map: "map (\<lambda>c. c\<lparr>ch_index := 0\<rparr>) (reindex n cs) = map (\<lambda>c. c\<lparr>ch_index := 0\<rparr>) cs"
  by (induction n cs rule: reindex.induct) simp_all

lemma reindex_list_all:
  "(\<And>c k. P (c\<lparr>ch_index := k\<rparr>) = P c) \<Longrightarrow> list_all P (reindex n cs) = list_all P cs"
  by (induction n cs rule: reindex.induct) simp_all

lemma filter_and_finalize_all:
  assumes "\<And>c k. P (c\<lparr>ch_index := k\<rparr>) = P c" and "list_all P cs"
  shows "list_all P (filter_and_finalize cfg tokens cs)"
proof -
  have "list_all P (filter Q cs)" for Q using assms(2) by (simp add: list_all_iff)
  then show ?thesis by (simp add: filter_and_finalize_def reindex_list_all [of P, OF assms(1)])
qed

theorem chunk_document_capped:
  assumes "snap_out_of_reach cfg" and "\<not> semantic_merge cfg" and "c \<in> set (chunk_document cfg tokens embedder s)"
  shows "length (py_split (ch_text c)) \<le> max (chunk_size cfg) (max_tokens cfg + 5)"
proof -
  have "list_all (within_cap cfg) (sliding_window cfg s)"
    using sliding_from_cap [OF assms(1)] by (simp add: sliding_window_def sliding_window_raw_def)
  then have "list_all (within_cap cfg) (chunk_document cfg tokens embedder s)"
    using assms(2) sections_chunks_cap [OF assms(1)]
    by (auto simp: chunk_document_def finalize_def Let_def within_cap_def intro!: filter_and_finalize_all)
  then show ?thesis using assms(3) by (simp add: list_all_iff within_cap_def word_cap_def)
qed

lemma reindex_indices: "map ch_index (reindex n cs) = [n..<n + length cs]"
  by (induction n cs rule: reindex.induct) (simp_all add: upt_rec)

lemma reindex_length [simp]: "length (reindex n cs) = length cs"
  by (induction n cs rule: reindex.induct) simp_all

lemma filter_and_finalize_shape:
  "map ch_index (filter_and_finalize cfg tokens cs) = [0..<length (filter_and_finalize cfg tokens cs)]
   \<and> list_all (\<lambda>c. min_tokens cfg \<le> tokens (ch_text c)) (filter_and_finalize cfg tokens cs)"
  by (simp add: filter_and_finalize_def reindex_indices reindex_list_all) (simp add: list_all_iff)

theorem chunk_document_numbered:
  "map ch_index (chunk_document cfg tokens embedder s) = [0..<length (chunk_document cfg tokens embedder s)]
   \<and> (\<forall>c. c \<in> set (chunk_document cfg tokens embedder s) \<longrightarrow> min_tokens cfg \<le> tokens (ch_text c))"
  using filter_and_finalize_shape
  by (auto simp: chunk_document_def finalize_def Let_def list_all_iff)

subsection \<open>Sections lose no text\<close>

lemma find_headings_source:
  "find_headings bol s = (ms, tail) \<Longrightarrow> s = concat (map (\<lambda>(b, h). b @ h_source h) ms) @ tail"
proof (induction bol s arbitrary: ms tail rule: find_headings.induct)
  case (1 bol s)
  show ?case
  proof (cases "next_heading bol [] s")
    case None
    then show ?thesis using 1(2) by (simp add: find_headings.simps [of bol s])
  next
    case (Some x)
    obtain body h rest where x: "x = (body, h, rest)" by (cases x)
    obtain ms' tail' where r: "find_headings False rest = (ms', tail')" by fastforce
    have "s = body @ h_source h @ rest"
      using next_heading_source [of bol "[]" s body h rest] Some x by simp
    moreover have "ms = (body, h) # ms'" "tail = tail'"
      using 1(2) Some x r by (auto simp: find_headings.simps [of bol s])
    ultimately show ?thesis using 1(1) [OF Some] x r by simp
  qed
qed

text \<open>The line of a heading: hash signs, white space and the heading's text.\<close>

definition heading_line :: "heading \<Rightarrow> bool" where
  "heading_line h \<longleftrightarrow> (\<exists>ws t. h_source h = replicate (h_level h) (CHR ''#'') @ ws @ t \<and> h_level h \<in> {1..6}
     \<and> ws \<noteq> [] \<and> list_all py_space ws \<and> h_text h = py_strip t)"

lemma match_heading_line:
  assumes "match_heading s = Some (h, rest)"
  shows "heading_line h"
proof -
  define hs where "hs = takeWhile (\<lambda>c. c = CHR ''#'') s"
  define ws where "ws = takeWhile py_space (drop (length hs) s)"
  define after where "after = drop (length ws) (drop (length hs) s)"
  have hs: "hs = replicate (length hs) (CHR ''#'')"
    by (rule replicate_length_same [symmetric]) (auto simp: hs_def dest: set_takeWhileD)
  have ws: "list_all py_space ws" by (auto simp: ws_def list_all_iff dest: set_takeWhileD)
  have u: "match_heading s = (if length hs = 0 \<or> 6 < length hs \<or> ws = [] then None
      else if after \<noteq> [] then
        Some (\<lparr>h_level = length hs, h_source = hs @ ws @ takeWhile (\<lambda>c. c \<noteq> NL) after,
               h_text = py_strip (takeWhile (\<lambda>c. c \<noteq> NL) after)\<rparr>, drop (length (takeWhile (\<lambda>c. c \<noteq> NL) after)) after)
      else (case dropWhile (\<lambda>c. c = NL) (rev ws) of
              c # m # mr \<Rightarrow>
                Some (\<lparr>h_level = length hs, h_source = hs @ rev (m # mr) @ [c], h_text = py_strip [c]\<rparr>,
                      rev (takeWhile (\<lambda>c. c = NL) (rev ws)))
            | _ \<Rightarrow> None))"
    unfolding match_heading_def Let_def hs_def ws_def after_def by (rule refl)
  have len: "length hs \<in> {1..6}" and ne: "ws \<noteq> []"
    using assms unfolding u by (cases hs; simp split: if_split_asm)+
  have line: ?thesis if "h_level h = length hs" "h_source h = hs @ v @ t" "v \<noteq> []" "list_all py_space v"
      "h_text h = py_strip t" for v t
    unfolding heading_line_def that(1) using that len
    by (intro exI [of _ v] exI [of _ t]) (simp flip: hs)
  show ?thesis
  proof (cases "after = []")
    case False
    have "h = \<lparr>h_level = length hs, h_source = hs @ ws @ takeWhile (\<lambda>c. c \<noteq> NL) after,
               h_text = py_strip (takeWhile (\<lambda>c. c \<noteq> NL) after)\<rparr>"
      using assms len ne False unfolding u by (cases hs) simp_all
    then show ?thesis by (intro line [OF _ _ ne ws]) simp_all
  next
    case True
    then obtain c m mr where d: "dropWhile (\<lambda>c. c = NL) (rev ws) = c # m # mr"
      and h: "h = \<lparr>h_level = length hs, h_source = hs @ rev (m # mr) @ [c], h_text = py_strip [c]\<rparr>"
      using assms len ne True unfolding u by (cases hs; simp split: list.split_asm)
    have "set (c # m # mr) \<subseteq> set ws"
      unfolding d [symmetric] using set_dropWhileD [of _ "\<lambda>c. c = NL" "rev ws"] by auto
    then have "list_all py_space (rev (m # mr))" using ws by (auto simp: list_all_iff)
    then show ?thesis by (rule line [rotated 3]) (simp_all add: h)
  qed
qed

lemma next_heading_line: "next_heading bol acc s = Some (body, h, rest) \<Longrightarrow> heading_line h"
proof (induction bol acc s rule: next_heading.induct)
  case (2 bol acc c cs)
  show ?case
  proof (cases "if bol then match_heading (c # cs) else None")
    case None
    then show ?thesis using 2 by auto
  next
    case (Some x)
    then obtain h' rest' where "match_heading (c # cs) = Some (h', rest')" "x = (h', rest')"
      by (cases x) (auto split: if_split_asm)
    then show ?thesis using 2(2) Some match_heading_line by auto
  qed
qed simp

lemma find_headings_lines: "find_headings bol s = (ms, tail) \<Longrightarrow> list_all (\<lambda>(b, h). heading_line h) ms"
proof (induction bol s arbitrary: ms tail rule: find_headings.induct)
  case (1 bol s)
  show ?case
  proof (cases "next_heading bol [] s")
    case None
    then show ?thesis using 1(2) by (simp add: find_headings.simps [of bol s])
  next
    case (Some x)
    obtain body h rest where x: "x = (body, h, rest)" by (cases x)
    obtain ms' tail' where r: "find_headings False rest = (ms', tail')" by fastforce
    have "ms = (body, h) # ms'" using 1(2) Some x r by (auto simp: find_headings.simps [of bol s])
    then show ?thesis using 1(1) [OF Some] x r next_heading_line Some by auto
  qed
qed

definition unblank :: "string list \<Rightarrow> string list" where
  "unblank = filter (\<lambda>s. py_strip s \<noteq> [])"

definition nonblank :: "(string \<times> string) list \<Rightarrow> (string \<times> string) list" where
  "nonblank = filter (\<lambda>(hd0, body). py_strip body \<noteq> [])"

lemma sections_from_bodies:
  "nonblank (map snd (sections_from stack path hd0 seen ms tail))
    = nonblank (zip (hd0 # map (h_text \<circ> snd) ms) (map fst ms @ [tail]))"
  by (induction stack path hd0 seen ms tail rule: sections_from.induct) (simp_all add: nonblank_def Let_def)

lemma sections_from_seen: "sections_from stack path hd0 True ms tail = [] \<longleftrightarrow> ms = [] \<and> py_strip tail = []"
  by (cases ms) (auto simp: Let_def)

lemma sections_from_empty:
  "sections_from stack path hd0 False ms tail = []
    \<longleftrightarrow> length ms \<le> 1 \<and> list_all (\<lambda>b. py_strip b = []) (map fst ms @ [tail])"
  by (cases ms) (auto simp: Let_def sections_from_seen split: if_splits)

text \<open>
  C37. A document is the concatenation of its section bodies and heading lines, each a run of
  one to six hash signs, white space and the heading's text. Unless there is at most one
  heading and no text besides it, when the one section is the whole document, the sections
  pair every body that is not blank, in order, with the text of the heading above it.
\<close>

theorem sections_lose_no_text:
  "let (ms, tail) = find_headings True s; bodies = map fst ms @ [tail]
   in s = concat (map (\<lambda>(body, h). body @ h_source h) ms) @ tail
    \<and> list_all (\<lambda>(body, h). heading_line h) ms
    \<and> (if length ms \<le> 1 \<and> list_all (\<lambda>b. py_strip b = []) bodies then split_sections s = [([], [], s)]
       else nonblank (map snd (split_sections s)) = nonblank (zip ([] # map (h_text \<circ> snd) ms) bodies))"
proof -
  obtain ms tail where m: "find_headings True s = (ms, tail)" by fastforce
  let ?secs = "sections_from [] [] [] False ms tail"
  have "split_sections s = (if ?secs = [] then [([], [], s)] else ?secs)"
    by (simp add: split_sections_def m)
  then show ?thesis
    using sections_from_bodies [of "[]" "[]" "[]" False ms tail] sections_from_empty [of "[]" "[]" "[]" ms tail]
      find_headings_source [OF m] find_headings_lines [OF m] m by simp
qed

subsection \<open>Blocks lose no line\<close>

definition unblank_lines :: "string \<Rightarrow> string list" where
  "unblank_lines s = unblank (split_lines s)"

lemma split_lines_no_NL: "l \<in> set (split_lines s) \<Longrightarrow> NL \<notin> set l"
  by (induction s arbitrary: l rule: split_lines.induct) (auto simp: NL_def split: if_splits list.split_asm)

lemma split_lines_nonempty [simp]: "split_lines s \<noteq> []"
  by (induction s) (auto split: list.split)

lemma split_lines_line: "NL \<notin> set l \<Longrightarrow> split_lines l = [l]"
  by (induction l) (auto simp: NL_def)

lemma split_lines_cons: "NL \<notin> set l \<Longrightarrow> split_lines (l @ NL # s) = l # split_lines s"
  by (induction l) (auto simp: NL_def split: list.split)

lemma split_lines_join:
  "ls \<noteq> [] \<Longrightarrow> list_all (\<lambda>l. NL \<notin> set l) ls \<Longrightarrow> split_lines (join_lines ls) = ls"
proof (induction ls rule: list_nonempty_induct)
  case (single x)
  then show ?case by (simp add: join_lines_def split_lines_line)
next
  case (cons x xs)
  then show ?case by (cases xs) (simp_all add: join_lines_def split_lines_cons)
qed

lemma atomic_blocks_lines:
  assumes "list_all (\<lambda>l. NL \<notin> set l) cur" "list_all (\<lambda>l. NL \<notin> set l) ls"
  shows "concat (map unblank_lines (atomic_blocks cur fenced ls)) = unblank (cur @ ls)"
proof -
  have j: "cur \<noteq> [] \<Longrightarrow> list_all (\<lambda>l. NL \<notin> set l) cur \<Longrightarrow> unblank_lines (join_lines cur) = unblank cur" for cur
    by (simp add: unblank_lines_def split_lines_join)
  show ?thesis
    using assms
    by (induction cur fenced ls rule: atomic_blocks.induct) (auto simp: j unblank_def)
qed

lemma unblank_lines_blank: "py_strip b = [] \<Longrightarrow> unblank_lines b = []"
proof -
  assume "py_strip b = []"
  then have "\<forall>c \<in> set b. py_space c" using strip_nonempty by blast
  moreover have "l \<in> set (split_lines b) \<Longrightarrow> set l \<subseteq> set b" for l
    by (induction b arbitrary: l rule: split_lines.induct) (auto split: if_splits list.split_asm, blast)
  ultimately have "l \<in> set (split_lines b) \<Longrightarrow> py_strip l = []" for l
    using strip_nonempty by blast
  then show ?thesis by (auto simp: unblank_lines_def unblank_def filter_empty_conv)
qed

theorem atomic_blocks_lose_no_line:
  "concat (map unblank_lines (split_atomic_blocks s)) = unblank_lines s"
proof -
  have "concat (map unblank_lines (filter (\<lambda>b. py_strip b \<noteq> []) bs)) = concat (map unblank_lines bs)" for bs
    by (induction bs) (auto simp: unblank_lines_blank)
  moreover have "concat (map unblank_lines (atomic_blocks [] False (split_lines s))) = unblank_lines s"
    using atomic_blocks_lines [of "[]" "split_lines s" False] split_lines_no_NL
    by (simp add: unblank_lines_def list_all_iff)
  ultimately show ?thesis by (simp add: split_atomic_blocks_def)
qed

subsection \<open>A heading inside a code block\<close>

theorem comment_splits_code_block:
  "split_sections (FENCE @ [NL] @ ''# run'' @ [NL] @ ''make'' @ [NL] @ FENCE)
     = [([], [], FENCE @ [NL]), (''run'', ''run'', [NL] @ ''make'' @ [NL] @ FENCE)]"
proof -
  have "find_headings True (FENCE @ [NL] @ ''# run'' @ [NL] @ ''make'' @ [NL] @ FENCE)
      = ([(FENCE @ [NL], \<lparr>h_level = 1, h_source = ''# run'', h_text = ''run''\<rparr>)], [NL] @ ''make'' @ [NL] @ FENCE)"
    by code_simp
  then show ?thesis by (simp add: split_sections_def) (code_simp)
qed

subsection \<open>Concrete documents\<close>

definition demo_config :: chunk_config where
  "demo_config = \<lparr>chunk_size = 4, chunk_overlap = 2, sliding_strategy = False, min_tokens = 1, max_tokens = 6,
     sentence_snap = True, code_single_chunk = True, semantic_merge = False\<rparr>"

theorem sliding_window_covers_witness:
  "\<exists>c \<in> set (sliding_window demo_config ''a b c d e f g''). ''f'' \<in> set (py_split (ch_text c))"
proof -
  have w: "py_split ''a b c d e f g'' = [''a'', ''b'', ''c'', ''d'', ''e'', ''f'', ''g'']" by code_simp
  show ?thesis
    using sliding_window_covers [of demo_config "''a b c d e f g''" 5]
    by (auto simp: demo_config_def w)
qed

theorem chunk_document_capped_witness:
  "\<exists>c \<in> set (chunk_document demo_config (\<lambda>s. length (py_split s)) None ''# T'').
     length (py_split (ch_text c)) \<le> 11"
proof -
  have r: "snap_out_of_reach demo_config" "\<not> semantic_merge demo_config"
    by (simp_all add: snap_out_of_reach_def demo_config_def max_lookahead_def)
  have sec: "sections_chunks demo_config 0 (split_sections ''# T'') = [\<lparr>ch_text = ''# T'', ch_heading = [],
      ch_path = [], ch_index = 0, ch_code = False, ch_truncated = False\<rparr>]" by code_simp
  have "py_split ''# T'' = [''#'', ''T'']" by code_simp
  then have "chunk_document demo_config (\<lambda>s. length (py_split s)) None ''# T'' \<noteq> []"
    unfolding chunk_document_def sec Let_def
    by (simp add: demo_config_def finalize_def filter_and_finalize_def)
  then obtain c where c: "c \<in> set (chunk_document demo_config (\<lambda>s. length (py_split s)) None ''# T'')"
    using list.set_intros(1) by (metis list.exhaust)
  show ?thesis using chunk_document_capped [OF r c] c by (auto simp: demo_config_def)
qed

end
