(* ===== verification/Timestamps.thy ===== *)
theory Timestamps
  imports Words
begin

text \<open>
  \<^verbatim>\<open>src/minni/timestamps.py\<close>: epoch values as they come from a loosely typed column, and
  the report of unusable ones.  A cell is what SQLite stores (its integers have 64 bits, so \<^verbatim>\<open>float\<close> takes them all).  The standard library's
  number, UTF-8 and ISO-8601 parsers are fields of \<open>parsers\<close>: the last gives the seconds of
  the written wall clock and the zone offset, if one is written.
\<close>

datatype cell = CNull | CBool bool | CInt int | CReal pyfloat | CText string | CBlob "nat list"

record parsers =
  float_of :: "string \<Rightarrow> pyfloat option"
  utf8_of :: "nat list \<Rightarrow> string option"
  iso_of :: "string \<Rightarrow> (real \<times> real option) option"

fun finite_value :: "pyfloat \<Rightarrow> real option" where
  "finite_value (Fin v) = Some v"
| "finite_value _ = None"

definition replace_Z :: "string \<Rightarrow> string" where
  "replace_Z s = concat (map (\<lambda>c. if c = CHR ''Z'' then ''+00:00'' else [c]) s)"

definition parse_epoch_text :: "parsers \<Rightarrow> string \<Rightarrow> real option" where
  "parse_epoch_text ps s0 =
     (let s = py_strip s0
      in if s = [] then None
         else case float_of ps s of
           Some v \<Rightarrow> finite_value v
         | None \<Rightarrow>
             (case iso_of ps (replace_Z s) of
                None \<Rightarrow> None
              | Some (wall, offset) \<Rightarrow> Some (wall - (case offset of None \<Rightarrow> 0 | Some d \<Rightarrow> d))))"

fun parse_epoch :: "parsers \<Rightarrow> cell \<Rightarrow> real option" where
  "parse_epoch ps CNull = None"
| "parse_epoch ps (CBool b) = None"
| "parse_epoch ps (CInt n) = Some (of_int n)"
| "parse_epoch ps (CReal v) = finite_value v"
| "parse_epoch ps (CText s) = parse_epoch_text ps s"
| "parse_epoch ps (CBlob bs) = (case utf8_of ps bs of None \<Rightarrow> None | Some s \<Rightarrow> parse_epoch_text ps s)"

definition coerce_epoch :: "parsers \<Rightarrow> real option \<Rightarrow> cell \<Rightarrow> real option" where
  "coerce_epoch ps dflt v =
     (if v = CNull then None
      else case parse_epoch ps v of Some x \<Rightarrow> Some x | None \<Rightarrow> dflt)"

subsection \<open>The report\<close>

definition MAX_EXAMPLES :: nat where
  "MAX_EXAMPLES = 10"

text \<open>Per \<^verbatim>\<open>source.field\<close>: how many, and the first few with the row and the value's text.\<close>

record malformed =
  mf_count :: "string \<Rightarrow> nat"
  mf_examples :: "string \<Rightarrow> (int \<times> string) list"

definition no_malformed :: malformed where
  "no_malformed = \<lparr>mf_count = \<lambda>_. 0, mf_examples = \<lambda>_. []\<rparr>"

definition malformed_key :: "string \<Rightarrow> string \<Rightarrow> string" where
  "malformed_key source field = source @ ''.'' @ field"

definition record_malformed :: "string \<Rightarrow> string \<Rightarrow> int \<Rightarrow> string \<Rightarrow> malformed \<Rightarrow> malformed" where
  "record_malformed source field doc_id value_repr m =
     (let key = malformed_key source field
      in m\<lparr>mf_count := (mf_count m)(key := mf_count m key + 1),
           mf_examples := (if length (mf_examples m key) < MAX_EXAMPLES
             then (mf_examples m)(key := mf_examples m key @ [(doc_id, take 120 value_repr)])
             else mf_examples m)\<rparr>)"

text \<open>\<open>rep\<close> is \<^verbatim>\<open>repr\<close> of a cell.\<close>

definition parse_epoch_or_report ::
  "parsers \<Rightarrow> (cell \<Rightarrow> string) \<Rightarrow> string \<Rightarrow> string \<Rightarrow> int \<Rightarrow> cell \<Rightarrow> malformed \<Rightarrow> real option \<times> malformed" where
  "parse_epoch_or_report ps rep field source doc_id v m =
     (if v = CNull then (None, m)
      else case parse_epoch ps v of
             Some x \<Rightarrow> (Some x, m)
           | None \<Rightarrow> (None, record_malformed source field doc_id (rep v) m))"

definition is_numeric :: "cell \<Rightarrow> bool" where
  "is_numeric v \<longleftrightarrow> (case v of CInt _ \<Rightarrow> True | CReal _ \<Rightarrow> True | CBool _ \<Rightarrow> True | _ \<Rightarrow> False)"

text \<open>The rows with a cell SQLite does not hold as a number.\<close>

definition stored_malformed_timestamp_count :: "(cell \<times> cell \<times> cell) list \<Rightarrow> nat" where
  "stored_malformed_timestamp_count rows =
     length (filter (\<lambda>(a, b, c). \<exists>v \<in> {a, b, c}. v \<noteq> CNull \<and> \<not> is_numeric v) rows)"

subsection \<open>No unusable value goes unreported\<close>

definition unusable :: "parsers \<Rightarrow> cell \<Rightarrow> bool" where
  "unusable ps v \<longleftrightarrow> v \<noteq> CNull \<and> parse_epoch ps v = None"

lemma report_step:
  assumes "parse_epoch_or_report ps rep field source i v m = (r, m')"
  shows "r = (if v = CNull then None else parse_epoch ps v)"
    and "mf_count m' k = mf_count m k + (if k = malformed_key source field \<and> unusable ps v then 1 else 0)"
    and "length (mf_examples m k) = min (mf_count m k) MAX_EXAMPLES
      \<Longrightarrow> length (mf_examples m' k) = min (mf_count m' k) MAX_EXAMPLES"
  using assms
  by (cases "parse_epoch ps v";
      auto simp: parse_epoch_or_report_def record_malformed_def unusable_def Let_def split: if_splits)+

fun read_all ::
  "parsers \<Rightarrow> (cell \<Rightarrow> string) \<Rightarrow> string \<Rightarrow> string \<Rightarrow> (int \<times> cell) list \<Rightarrow> malformed \<Rightarrow> real option list \<times> malformed" where
  "read_all ps rep field source [] m = ([], m)"
| "read_all ps rep field source ((i, v) # rows) m =
     (let (r, m1) = parse_epoch_or_report ps rep field source i v m;
          (rs, m2) = read_all ps rep field source rows m1
      in (r # rs, m2))"

lemma read_all_report:
  assumes "read_all ps rep field source rows m = (rs, m')"
    and "\<forall>k. length (mf_examples m k) = min (mf_count m k) MAX_EXAMPLES"
  shows "rs = map (\<lambda>(i, v). parse_epoch ps v) rows
    \<and> mf_count m' (malformed_key source field)
        = mf_count m (malformed_key source field) + length (filter (\<lambda>(i, v). unusable ps v) rows)
    \<and> (\<forall>k. length (mf_examples m' k) = min (mf_count m' k) MAX_EXAMPLES)"
  using assms
proof (induction rows arbitrary: m rs m')
  case Nil
  then show ?case by simp
next
  case (Cons row rows)
  obtain i v where row: "row = (i, v)" by (cases row)
  obtain r m1 where a: "parse_epoch_or_report ps rep field source i v m = (r, m1)"
    by (cases "parse_epoch_or_report ps rep field source i v m")
  obtain rs2 m2 where b: "read_all ps rep field source rows m1 = (rs2, m2)"
    by (cases "read_all ps rep field source rows m1")
  have e: "rs = r # rs2" "m' = m2" using Cons.prems(1) a b row by auto
  have "\<forall>k. length (mf_examples m1 k) = min (mf_count m1 k) MAX_EXAMPLES"
    using report_step(3) [OF a] Cons.prems(2) by blast
  from Cons.IH [OF b this] show ?case
    using report_step(1,2) [OF a] e row by auto
qed

theorem malformed_all_counted:
  assumes "read_all ps rep field source rows no_malformed = (rs, m)"
  shows "rs = map (\<lambda>(i, v). parse_epoch ps v) rows
    \<and> mf_count m (malformed_key source field) = length (filter (\<lambda>(i, v). unusable ps v) rows)
    \<and> length (mf_examples m (malformed_key source field))
        = min (length (filter (\<lambda>(i, v). unusable ps v) rows)) 10"
  using read_all_report [OF assms] by (simp add: no_malformed_def MAX_EXAMPLES_def)

theorem coerced_is_parsed:
  "coerce_epoch ps dflt v = (if v = CNull then None else if parse_epoch ps v = None then dflt else parse_epoch ps v)
   \<and> (coerce_epoch ps None v = Some x \<longleftrightarrow> parse_epoch ps v = Some x)"
  by (cases v) (auto simp: coerce_epoch_def split: option.splits)

definition demo_parsers :: parsers where
  "demo_parsers = \<lparr>float_of = (\<lambda>s. if s = ''17'' then Some (Fin 17) else None), utf8_of = (\<lambda>_. None), iso_of = (\<lambda>_. None)\<rparr>"

theorem malformed_all_counted_witness:
  "\<exists>rs m. read_all demo_parsers (\<lambda>_. ''x'') ''indexed_at'' ''decay'' [(1, CText ''17''), (2, CText ''soon''), (3, CNull)] no_malformed = (rs, m)
    \<and> mf_count m ''decay.indexed_at'' = 1"
proof -
  let ?rows = "[(1, CText ''17''), (2, CText ''soon''), (3, CNull)]"
  obtain rs m where r: "read_all demo_parsers (\<lambda>_. ''x'') ''indexed_at'' ''decay'' ?rows no_malformed = (rs, m)"
    by (cases "read_all demo_parsers (\<lambda>_. ''x'') ''indexed_at'' ''decay'' ?rows no_malformed")
  have s: "py_strip ''17'' = ''17''" "py_strip ''soon'' = ''soon''" by code_simp+
  have "length (filter (\<lambda>(i, v). unusable demo_parsers v) ?rows) = 1"
    by (simp add: unusable_def demo_parsers_def parse_epoch_text_def s)
  then show ?thesis
    using r malformed_all_counted [OF r] by (simp add: malformed_key_def)
qed

end
