(* ===== verification/Decay.thy ===== *)
theory Decay
  imports Timestamps
begin

text \<open>
  \<^verbatim>\<open>src/minni/decay.py\<close>: one decay pass over the documents of an index.  Numbers are reals;
  \<^verbatim>\<open>math.pow(0.5, x)\<close> raises when its result leaves the float range, and
  \<^verbatim>\<open>round(x, 4)\<close> rounds half to even.
\<close>

record decay_config =
  half_life_days :: real
  decay_min_score :: real
  grace_days :: real
  correction_floor :: real
  correction_page_types :: "string list"

definition DEFAULT_DECAY_CONFIG :: decay_config where
  "DEFAULT_DECAY_CONFIG = \<lparr>half_life_days = 7, decay_min_score = 5 / 100, grace_days = 7,
     correction_floor = 1 / 2,
     correction_page_types = [''correction'', ''contradiction'', ''decision'', ''fix'']\<rparr>"

definition correction_class_page_types :: "decay_config \<Rightarrow> string set" where
  "correction_class_page_types cfg = py_lower ` set (if correction_page_types cfg = []
     then [''correction'', ''contradiction'', ''decision'', ''fix''] else correction_page_types cfg)"

record decay_row =
  d_id :: int
  d_indexed_at :: cell
  d_last_accessed :: cell
  d_access_count :: int         \<comment> \<open>NULL reads as 0\<close>
  d_score :: real               \<comment> \<open>NULL reads as 0\<close>
  d_page_type :: string         \<comment> \<open>NULL reads as empty\<close>

record decay_stats =
  s_updated :: nat
  s_reinforced :: nat
  s_bad_indexed :: nat
  s_bad_accessed :: nat

datatype decay_error = OverflowError

definition pow_half :: "real \<Rightarrow> decay_error + real" where
  "pow_half x = (if x \<le> - 1024 then Inl OverflowError else Inr ((1 / 2) powr x))"

definition round_half_even :: "real \<Rightarrow> int" where
  "round_half_even y =
     (let f = \<lfloor>y\<rfloor>; d = y - of_int f
      in if d < 1 / 2 then f else if 1 / 2 < d then f + 1 else if even f then f else f + 1)"

definition round4 :: "real \<Rightarrow> real" where
  "round4 x = of_int (round_half_even (x * 10000)) / 10000"

subsection \<open>The score of one row\<close>

definition anchors :: "parsers \<Rightarrow> real \<Rightarrow> decay_row \<Rightarrow> real \<times> real option" where
  "anchors ps tnow row =
     ((case parse_epoch ps (d_indexed_at row) of None \<Rightarrow> tnow | Some t \<Rightarrow> t),
      parse_epoch ps (d_last_accessed row))"

definition reference_time :: "parsers \<Rightarrow> real \<Rightarrow> decay_row \<Rightarrow> real" where
  "reference_time ps tnow row =
     (let (indexed, accessed) = anchors ps tnow row
      in case accessed of Some t \<Rightarrow> if t \<noteq> 0 then t else indexed | None \<Rightarrow> indexed)"

definition access_boost :: "decay_row \<Rightarrow> real" where
  "access_boost row = min (of_int (d_access_count row) * (5 / 100)) (1 / 2)"

definition clamped :: "decay_config \<Rightarrow> real \<Rightarrow> real" where
  "clamped cfg x = max (decay_min_score cfg) (min 1 x)"

definition is_correction :: "decay_config \<Rightarrow> decay_row \<Rightarrow> bool" where
  "is_correction cfg row \<longleftrightarrow> py_lower (d_page_type row) \<in> correction_class_page_types cfg"

definition in_grace :: "decay_config \<Rightarrow> parsers \<Rightarrow> real \<Rightarrow> decay_row \<Rightarrow> bool" where
  "in_grace cfg ps tnow row \<longleftrightarrow> tnow - fst (anchors ps tnow row) \<le> grace_days cfg * 86400"

definition correction_adjusted :: "decay_config \<Rightarrow> parsers \<Rightarrow> real \<Rightarrow> decay_row \<Rightarrow> real \<Rightarrow> real" where
  "correction_adjusted cfg ps tnow row score =
     (if is_correction cfg row
      then if in_grace cfg ps tnow row then 1 else max score (correction_floor cfg)
      else score)"

definition raw_decay :: "decay_config \<Rightarrow> parsers \<Rightarrow> real \<Rightarrow> decay_row \<Rightarrow> decay_error + real" where
  "raw_decay cfg ps tnow row =
     (let half = half_life_days cfg * 86400; age = tnow - reference_time ps tnow row
      in if 0 < half then pow_half (age / half) else Inr 1)"

definition new_score :: "decay_config \<Rightarrow> parsers \<Rightarrow> real \<Rightarrow> decay_row \<Rightarrow> decay_error + real" where
  "new_score cfg ps tnow row =
     (case raw_decay cfg ps tnow row of
        Inl e \<Rightarrow> Inl e
      | Inr r \<Rightarrow> Inr (correction_adjusted cfg ps tnow row (clamped cfg (r + access_boost row))))"

definition old_score :: "decay_row \<Rightarrow> real" where
  "old_score row = (if d_score row = 0 then 1 else d_score row)"

subsection \<open>The pass\<close>

definition bad_cell :: "parsers \<Rightarrow> cell \<Rightarrow> bool" where
  "bad_cell ps v \<longleftrightarrow> v \<noteq> CNull \<and> parse_epoch ps v = None"

definition count_row :: "parsers \<Rightarrow> bool \<Rightarrow> decay_row \<Rightarrow> decay_stats \<Rightarrow> decay_stats" where
  "count_row ps updated row s =
     s\<lparr>s_updated := s_updated s + (if updated then 1 else 0),
       s_reinforced := s_reinforced s + (if updated \<and> 0 < access_boost row then 1 else 0),
       s_bad_indexed := s_bad_indexed s + (if bad_cell ps (d_indexed_at row) then 1 else 0),
       s_bad_accessed := s_bad_accessed s + (if bad_cell ps (d_last_accessed row) then 1 else 0)\<rparr>"

definition decay_row_step ::
  "decay_config \<Rightarrow> parsers \<Rightarrow> real \<Rightarrow> decay_row \<Rightarrow> decay_error + (decay_row \<times> bool)" where
  "decay_row_step cfg ps tnow row =
     (case new_score cfg ps tnow row of
        Inl e \<Rightarrow> Inl e
      | Inr x \<Rightarrow> if \<bar>x - old_score row\<bar> > 1 / 1000 then Inr (row\<lparr>d_score := round4 x\<rparr>, True)
                 else Inr (row, False))"

text \<open>The two parses of a row also count unusable cells in the report of \<open>Timestamps\<close>.\<close>

definition report_row :: "parsers \<Rightarrow> (cell \<Rightarrow> string) \<Rightarrow> decay_row \<Rightarrow> malformed \<Rightarrow> malformed" where
  "report_row ps rep row m =
     (let m1 = snd (parse_epoch_or_report ps rep ''indexed_at'' ''decay.run_decay'' (d_id row) (d_indexed_at row) m)
      in snd (parse_epoch_or_report ps rep ''last_accessed'' ''decay.run_decay'' (d_id row) (d_last_accessed row) m1))"

fun decay_rows ::
  "decay_config \<Rightarrow> parsers \<Rightarrow> (cell \<Rightarrow> string) \<Rightarrow> real \<Rightarrow> decay_row list \<Rightarrow> decay_stats \<Rightarrow> malformed
    \<Rightarrow> (decay_error + (decay_row list \<times> decay_stats)) \<times> malformed" where
  "decay_rows cfg ps rep tnow [] s m = (Inr ([], s), m)"
| "decay_rows cfg ps rep tnow (r # rs) s m =
     (case decay_row_step cfg ps tnow r of
        Inl e \<Rightarrow> (Inl e, report_row ps rep r m)
      | Inr (r', upd) \<Rightarrow>
          (case decay_rows cfg ps rep tnow rs (count_row ps upd r s) (report_row ps rep r m) of
             (Inl e, m') \<Rightarrow> (Inl e, m')
           | (Inr (rs', s'), m') \<Rightarrow> (Inr (r' # rs', s'), m')))"

definition no_stats :: decay_stats where
  "no_stats = \<lparr>s_updated = 0, s_reinforced = 0, s_bad_indexed = 0, s_bad_accessed = 0\<rparr>"

text \<open>The transaction: an exception rolls every row back.\<close>

definition run_decay ::
  "decay_config \<Rightarrow> parsers \<Rightarrow> (cell \<Rightarrow> string) \<Rightarrow> real \<Rightarrow> decay_row list \<Rightarrow> malformed
    \<Rightarrow> (decay_error + decay_stats) \<times> decay_row list \<times> malformed" where
  "run_decay cfg ps rep tnow rows m =
     (case decay_rows cfg ps rep tnow rows no_stats m of
        (Inl e, m') \<Rightarrow> (Inl e, rows, m')
      | (Inr (rows', s), m') \<Rightarrow> (Inr s, rows', m'))"

record decay_report =
  rep_total :: nat
  rep_fading :: nat
  rep_strong :: nat

definition get_decay_report :: "decay_row list \<Rightarrow> decay_report" where
  "get_decay_report rows = \<lparr>rep_total = length rows,
     rep_fading = length (filter (\<lambda>r. d_score r < 1 / 10) rows),
     rep_strong = length (filter (\<lambda>r. 8 / 10 < d_score r) rows)\<rparr>"

text \<open>One pass per index; a failing index keeps its rows and reports its error.\<close>

fun run_decay_all_indexes ::
  "decay_config \<Rightarrow> parsers \<Rightarrow> (cell \<Rightarrow> string) \<Rightarrow> real \<Rightarrow> (string \<times> decay_row list) list \<Rightarrow> malformed
    \<Rightarrow> (string \<times> (decay_error + decay_stats)) list \<times> (string \<times> decay_row list) list \<times> malformed" where
  "run_decay_all_indexes cfg ps rep tnow [] m = ([], [], m)"
| "run_decay_all_indexes cfg ps rep tnow ((n, rows) # idx) m =
     (let (r, rows', m1) = run_decay cfg ps rep tnow rows m;
          (rs, idx', m2) = run_decay_all_indexes cfg ps rep tnow idx m1
      in ((n, r) # rs, (n, rows') # idx', m2))"

subsection \<open>Bounds\<close>

lemma round_half_even_bounds: "of_int (round_half_even y) \<le> y + 1 / 2 \<and> y - 1 / 2 \<le> of_int (round_half_even y)"
proof -
  have "of_int \<lfloor>y\<rfloor> \<le> y" "y < of_int \<lfloor>y\<rfloor> + 1" by linarith+
  then show ?thesis by (auto simp: round_half_even_def Let_def) linarith+
qed

lemma round_half_even_mono_int: "of_int k \<le> y \<Longrightarrow> k \<le> round_half_even y"
  and round_half_even_le_int: "y \<le> of_int k \<Longrightarrow> round_half_even y \<le> k"
proof -
  assume "of_int k \<le> y"
  then have "k \<le> \<lfloor>y\<rfloor>" by linarith
  then show "k \<le> round_half_even y" by (auto simp: round_half_even_def Let_def)
next
  assume a: "y \<le> of_int k"
  show "round_half_even y \<le> k"
  proof (cases "y = of_int k")
    case True
    then show ?thesis by (simp add: round_half_even_def)
  next
    case False
    then have "\<lfloor>y\<rfloor> + 1 \<le> k" using a by linarith
    then show ?thesis by (auto simp: round_half_even_def Let_def)
  qed
qed

lemma round4_le_1: "x \<le> 1 \<Longrightarrow> round4 x \<le> 1"
  using round_half_even_le_int [of "x * 10000" 10000] by (simp add: round4_def)

lemma round4_close: "x - 1 / 20000 \<le> round4 x"
  using round_half_even_bounds [of "x * 10000"] by (simp add: round4_def field_simps)

lemma new_score_bounds:
  assumes "new_score cfg ps tnow row = Inr x" "decay_min_score cfg \<le> 1" "correction_floor cfg \<le> 1"
  shows "decay_min_score cfg \<le> x \<and> x \<le> 1
    \<and> (is_correction cfg row \<longrightarrow> correction_floor cfg \<le> x)
    \<and> (is_correction cfg row \<and> in_grace cfg ps tnow row \<longrightarrow> x = 1)"
proof -
  obtain r where r: "x = correction_adjusted cfg ps tnow row (clamped cfg r)"
    using assms(1) by (auto simp: new_score_def split: sum.split_asm)
  then show ?thesis using assms(2,3) by (auto simp: correction_adjusted_def clamped_def)
qed

lemma decay_rows_all:
  assumes "decay_rows cfg ps rep tnow rows s m = (Inr (rows', s'), m')"
  shows "list_all2 (\<lambda>r r'. \<exists>b. decay_row_step cfg ps tnow r = Inr (r', b)) rows rows'"
  using assms
  by (induction rows arbitrary: s m rows') (auto split: sum.split_asm prod.split_asm)

lemma run_decay_Inr:
  "run_decay cfg ps rep tnow rows m = (Inr s, rows', m') \<longleftrightarrow> decay_rows cfg ps rep tnow rows no_stats m = (Inr (rows', s), m')"
  by (auto simp: run_decay_def split: prod.split sum.split)

definition decayed :: "decay_config \<Rightarrow> parsers \<Rightarrow> real \<Rightarrow> decay_row \<Rightarrow> decay_row \<Rightarrow> bool" where
  "decayed cfg ps tnow r r' \<longleftrightarrow> r' = r\<lparr>d_score := d_score r'\<rparr>
    \<and> (r' = r \<or> d_score r' \<le> 1 \<and> decay_min_score cfg - 1 / 20000 \<le> d_score r'
        \<and> (is_correction cfg r \<longrightarrow> correction_floor cfg - 1 / 20000 \<le> d_score r')
        \<and> (is_correction cfg r \<and> in_grace cfg ps tnow r \<longrightarrow> d_score r' = 1))"

theorem decay_scores_bounded:
  assumes "run_decay cfg ps rep tnow rows m = (Inr s, rows', m')"
    and "decay_min_score cfg \<le> 1" and "correction_floor cfg \<le> 1"
  shows "list_all2 (decayed cfg ps tnow) rows rows'"
  using decay_rows_all [OF assms(1) [unfolded run_decay_Inr]]
proof (rule list_all2_mono)
  fix r r'
  assume "\<exists>b. decay_row_step cfg ps tnow r = Inr (r', b)"
  then obtain x where x: "new_score cfg ps tnow r = Inr x" and r': "r' = r \<or> r' = r\<lparr>d_score := round4 x\<rparr>"
    by (auto simp: decay_row_step_def split: sum.split_asm if_split_asm)
  have "round4 x \<le> 1 \<and> decay_min_score cfg - 1 / 20000 \<le> round4 x
      \<and> (is_correction cfg r \<longrightarrow> correction_floor cfg - 1 / 20000 \<le> round4 x)
      \<and> (is_correction cfg r \<and> in_grace cfg ps tnow r \<longrightarrow> round4 x = 1)"
    using new_score_bounds [OF x assms(2,3)] round4_le_1 [of x] round4_close [of x]
    by (auto simp: round4_def round_half_even_def)
  then show "decayed cfg ps tnow r r'" using r' by (auto simp: decayed_def)
qed

subsection \<open>When a pass succeeds, and when it does not\<close>

definition computable :: "decay_config \<Rightarrow> parsers \<Rightarrow> real \<Rightarrow> decay_row \<Rightarrow> bool" where
  "computable cfg ps tnow r \<longleftrightarrow> half_life_days cfg \<le> 0
     \<or> reference_time ps tnow r < tnow + 1024 * (half_life_days cfg * 86400)"

lemma computable_iff: "computable cfg ps tnow r \<longleftrightarrow> (\<exists>out. decay_row_step cfg ps tnow r = Inr out)"
proof -
  let ?h = "half_life_days cfg * 86400" and ?a = "tnow - reference_time ps tnow r"
  have "0 < ?h \<Longrightarrow> (?a / ?h \<le> - 1024 \<longleftrightarrow> \<not> reference_time ps tnow r < tnow + 1024 * ?h)"
    by (auto simp: pos_divide_le_eq)
  moreover have "0 < ?h \<longleftrightarrow> \<not> half_life_days cfg \<le> 0" by auto
  ultimately have "(\<exists>x. raw_decay cfg ps tnow r = Inr x) \<longleftrightarrow> computable cfg ps tnow r"
    by (auto simp: computable_def raw_decay_def pow_half_def Let_def)
  then show ?thesis by (auto simp: decay_row_step_def new_score_def split: sum.split)
qed

text \<open>
  A row whose timestamp lies 1024 half lives ahead, as one written in milliseconds does,
  takes the whole pass down; nothing else does.
\<close>

theorem one_far_future_row_decides_the_pass:
  "fst (run_decay cfg ps rep tnow rows m) = Inl OverflowError \<and> fst (snd (run_decay cfg ps rep tnow rows m)) = rows
     \<and> \<not> list_all (computable cfg ps tnow) rows
   \<or> (\<exists>s. fst (run_decay cfg ps rep tnow rows m) = Inr s) \<and> list_all (computable cfg ps tnow) rows"
proof -
  have "(\<exists>out m'. decay_rows cfg ps rep tnow rows s m = (Inr out, m')) \<and> list_all (computable cfg ps tnow) rows
      \<or> (\<exists>e m'. decay_rows cfg ps rep tnow rows s m = (Inl e, m')) \<and> \<not> list_all (computable cfg ps tnow) rows" for s m
  proof (induction rows arbitrary: s m)
    case (Cons r rs)
    show ?case
    proof (cases "decay_row_step cfg ps tnow r")
      case (Inl e)
      then have "\<not> computable cfg ps tnow r" by (simp add: computable_iff)
      then show ?thesis using Inl by simp
    next
      case (Inr out)
      obtain r' b where out: "out = (r', b)" by (cases out)
      note st = Inr
      have c: "computable cfg ps tnow r" using Inr by (auto simp: computable_iff)
      obtain res m2 where d: "decay_rows cfg ps rep tnow rs (count_row ps b r s) (report_row ps rep r m) = (res, m2)"
        by (cases "decay_rows cfg ps rep tnow rs (count_row ps b r s) (report_row ps rep r m)")
      show ?thesis
      proof (cases res)
        case (Inl e)
        then have "\<not> list_all (computable cfg ps tnow) rs"
          using Cons.IH [of "count_row ps b r s" "report_row ps rep r m"] unfolding d by simp
        then show ?thesis using Inl out d st by simp
      next
        case ok: (Inr o2)
        then have "list_all (computable cfg ps tnow) rs"
          using Cons.IH [of "count_row ps b r s" "report_row ps rep r m"] unfolding d by simp
        then show ?thesis using ok out d c st by (cases o2) simp
      qed
    qed
  qed simp
  from this [of no_stats m] show ?thesis
  proof (elim disjE conjE exE)
    fix out m' assume "decay_rows cfg ps rep tnow rows no_stats m = (Inr out, m')" "list_all (computable cfg ps tnow) rows"
    then show ?thesis by (cases out) (simp add: run_decay_def)
  next
    fix e m' assume "decay_rows cfg ps rep tnow rows no_stats m = (Inl e, m')" "\<not> list_all (computable cfg ps tnow) rows"
    then show ?thesis by (cases e) (simp add: run_decay_def)
  qed
qed

definition demo_doc :: "int \<Rightarrow> cell \<Rightarrow> decay_row" where
  "demo_doc i t = \<lparr>d_id = i, d_indexed_at = t, d_last_accessed = CNull, d_access_count = 0, d_score = 1, d_page_type = ''fix''\<rparr>"

theorem decay_scores_bounded_witness:
  "\<exists>s r' m'. run_decay DEFAULT_DECAY_CONFIG demo_parsers (\<lambda>_. []) 1700000000 [demo_doc 1 (CInt 1700000000)] no_malformed = (Inr s, [r'], m')
    \<and> d_score r' = 1"
proof -
  let ?r = "demo_doc 1 (CInt 1700000000)"
  have "computable DEFAULT_DECAY_CONFIG demo_parsers 1700000000 ?r"
    by (simp add: computable_def DEFAULT_DECAY_CONFIG_def reference_time_def anchors_def demo_doc_def)
  then obtain r' b where st: "decay_row_step DEFAULT_DECAY_CONFIG demo_parsers 1700000000 ?r = Inr (r', b)"
    by (auto simp: computable_iff)
  then obtain s m' where run: "run_decay DEFAULT_DECAY_CONFIG demo_parsers (\<lambda>_. []) 1700000000 [?r] no_malformed = (Inr s, [r'], m')"
    by (simp add: run_decay_def)
  have "py_lower ''fix'' = ''fix''" by code_simp
  then have c: "is_correction DEFAULT_DECAY_CONFIG ?r" "in_grace DEFAULT_DECAY_CONFIG demo_parsers 1700000000 ?r"
    by (auto simp: is_correction_def demo_doc_def correction_class_page_types_def DEFAULT_DECAY_CONFIG_def image_iff
        in_grace_def anchors_def)
  have "d_score ?r = 1" by (simp add: demo_doc_def)
  then show ?thesis
    using run decay_scores_bounded [OF run] c by (auto simp: DEFAULT_DECAY_CONFIG_def decayed_def)
qed

text \<open>A row indexed in milliseconds.\<close>

lemma millisecond_row_aborts:
  "fst (run_decay DEFAULT_DECAY_CONFIG demo_parsers (\<lambda>_. []) 1700000000
     [demo_doc 1 (CInt 1600000000), demo_doc 2 (CInt 1700000000000)] no_malformed) = Inl OverflowError"
proof -
  have "\<not> computable DEFAULT_DECAY_CONFIG demo_parsers 1700000000 (demo_doc 2 (CInt 1700000000000))"
    by (simp add: computable_def DEFAULT_DECAY_CONFIG_def reference_time_def anchors_def demo_doc_def)
  then have "\<not> list_all (computable DEFAULT_DECAY_CONFIG demo_parsers 1700000000)
      [demo_doc 1 (CInt 1600000000), demo_doc 2 (CInt 1700000000000)]" by simp
  then show ?thesis
    using one_far_future_row_decides_the_pass [of DEFAULT_DECAY_CONFIG demo_parsers "\<lambda>_. []" 1700000000
        "[demo_doc 1 (CInt 1600000000), demo_doc 2 (CInt 1700000000000)]" no_malformed]
    by blast
qed

end
