(* ===== verification/Principal.thy ===== *)
theory Principal
  imports Prelude "HOL-Library.Sublist"
begin

text \<open>
  \<^verbatim>\<open>src/minni/principal.py\<close>: the server-stamped identity every request runs under.
  The directory of principal files is an association list from file stem to a file
  (its mode and its decoded content); the process environment, path resolution and
  the home directory are the \<open>host\<close> record.  A resolved path is its list of
  components, so \<^verbatim>\<open>is_relative_to\<close> is the prefix order.
\<close>

subsection \<open>The host and the principal directory\<close>

record host =
  environ :: "string \<Rightarrow> string option"
  resolve_path :: "string \<Rightarrow> string list option"  \<comment> \<open>None: \<^verbatim>\<open>Path.resolve\<close> raises\<close>
  expand_user :: "string \<Rightarrow> string option"        \<comment> \<open>None: no home directory\<close>
  chmod_works :: bool

record pfile =
  stat_mode :: "nat option"     \<comment> \<open>None: \<^verbatim>\<open>stat\<close> raises\<close>
  pfile_body :: "json option"   \<comment> \<open>None: unreadable or not JSON\<close>

type_synonym pdir = "(string \<times> pfile) list"

definition CANONICAL_PRINCIPAL_NAMES :: "string list" where
  "CANONICAL_PRINCIPAL_NAMES = [''local'', ''default'', ''operator'', ''main'']"

definition OPERATOR_RESERVED_AGENT_IDS :: "string list" where
  "OPERATOR_RESERVED_AGENT_IDS = [''operator'', ''main'']"

definition PLATFORM_NO_ROOTS_SENTINEL :: string where
  "PLATFORM_NO_ROOTS_SENTINEL = ''/.minni-platform-no-vault-roots''"

definition has_any_principal_files :: "pdir \<Rightarrow> bool" where
  "has_any_principal_files d \<longleftrightarrow> d \<noteq> []"

subsection \<open>EffectivePrincipal\<close>

datatype deny_reason = UnknownIdentity | ReservedAgentId

record effective_principal =
  p_agent_id :: string
  p_workspace_id :: string
  p_session_id :: json
  p_transport :: string
  p_capabilities :: "json list"
  p_allowed_vault_roots :: "string list"
  p_auto_accept_own :: bool
  p_deny_reason :: "deny_reason option"

definition can :: "effective_principal \<Rightarrow> string \<Rightarrow> bool" where [acl_defs]:
  "can p cap \<longleftrightarrow> JStr ''*'' \<in> set (p_capabilities p) \<or> JStr cap \<in> set (p_capabilities p)"

fun under_some_root :: "host \<Rightarrow> string list \<Rightarrow> string list \<Rightarrow> bool" where
  "under_some_root h cs [] = False"
| "under_some_root h cs (r # rs) =
     (case resolve_path h r of
        None \<Rightarrow> False
      | Some rc \<Rightarrow> prefix rc cs \<or> under_some_root h cs rs)"

definition allows_vault_root :: "host \<Rightarrow> effective_principal \<Rightarrow> string \<Rightarrow> bool" where
  "allows_vault_root h p path =
     (if p_allowed_vault_roots p = [] then p_capabilities p \<noteq> []
      else case resolve_path h path of
             None \<Rightarrow> False
           | Some cs \<Rightarrow> under_some_root h cs (p_allowed_vault_roots p))"

subsection \<open>Loading a principal file\<close>

text \<open>\<^verbatim>\<open>mode & 0o077\<close> keeps the low six bits.\<close>

definition too_permissive :: "nat \<Rightarrow> bool" where
  "too_permissive mode \<longleftrightarrow> mode mod 64 \<noteq> 0"

definition load_raw_principal_file :: "bool \<Rightarrow> string \<Rightarrow> pdir \<Rightarrow> pyerr + jobj option" where
  "load_raw_principal_file strict name d =
     (case map_of d name of
        None \<Rightarrow> Inr None
      | Some f \<Rightarrow>
          (if stat_mode f = None \<and> strict then Inl (RuntimeError ''stat failed'')
           else
             (let mode = (case stat_mode f of None \<Rightarrow> 384 | Some m \<Rightarrow> m)
              in if too_permissive mode \<and> strict then Inl (RuntimeError ''must be 0600'')
                 else (case pfile_body f of
                         Some (JObj kvs) \<Rightarrow> Inr (Some kvs)
                       | _ \<Rightarrow> Inr None))))"

text \<open>The directory after the call: a loose file is tightened to 0600 when not strict.\<close>

definition load_raw_chmod :: "host \<Rightarrow> bool \<Rightarrow> string \<Rightarrow> pdir \<Rightarrow> pdir" where
  "load_raw_chmod h strict name d =
     map (\<lambda>(n, f).
       if n = name \<and> \<not> strict \<and> chmod_works h
          \<and> (\<exists>m. stat_mode f = Some m \<and> too_permissive m)
       then (n, f\<lparr>stat_mode := Some 384\<rparr>) else (n, f)) d"

fun auto_accept_flag :: "json \<Rightarrow> bool" where
  "auto_accept_flag (JBool True) = True"
| "auto_accept_flag _ = False"

subsection \<open>Agent ids\<close>

definition lower_alnum :: "char \<Rightarrow> bool" where [py_simps]:
  "lower_alnum c \<longleftrightarrow> (let n = code_point c in 97 \<le> n \<and> n \<le> 122 \<or> 48 \<le> n \<and> n \<le> 57)"

definition agent_id_char :: "char \<Rightarrow> bool" where [py_simps]:
  "agent_id_char c \<longleftrightarrow> lower_alnum c \<or> c = CHR ''.'' \<or> c = CHR ''_'' \<or> c = CHR ''-''"

fun agent_id_body :: "string \<Rightarrow> bool" where
  "agent_id_body [] = False"
| "agent_id_body (c # cs) = (lower_alnum c \<and> list_all agent_id_char cs \<and> length cs \<le> 63)"

text \<open>
  \<^verbatim>\<open>_AGENT_ID_RE.match\<close>: the pattern ends in \<^verbatim>\<open>$\<close>, which also matches just
  before a final newline.
\<close>

definition agent_id_re_match :: "string \<Rightarrow> bool" where
  "agent_id_re_match s \<longleftrightarrow>
     agent_id_body s \<or> (s \<noteq> [] \<and> last s = CHR 0x0A \<and> agent_id_body (butlast s))"

definition validate_agent_id :: "string \<Rightarrow> pyerr + string" where
  "validate_agent_id s =
     (if s = [] then Inl (ValueError ''agent_id must be a non-empty string'')
      else if agent_id_re_match s then Inr s
      else Inl (ValueError ''invalid agent_id''))"


subsection \<open>Vault directories\<close>

definition AGENT_VAULT_DIRS :: "(string \<times> string) list" where
  "AGENT_VAULT_DIRS =
    [(''claude-code'', ''claudecode-vault''), (''claude-science'', ''claude-science-vault''),
     (''codex'', ''codex-vault''), (''cursor'', ''cursor-vault''), (''gemini'', ''gemini-vault''),
     (''grok-build'', ''grok-build-vault''), (''kilocode'', ''kilocode-vault'')]"

definition vault_dirname_for :: "string \<Rightarrow> string" where
  "vault_dirname_for a =
     (case map_of AGENT_VAULT_DIRS a of Some d \<Rightarrow> d | None \<Rightarrow> a @ ''-vault'')"

definition path_str :: "string list \<Rightarrow> string" where
  "path_str cs = CHR ''/'' # join_with ''/'' cs"

text \<open>\<^verbatim>\<open>_minni_home\<close>: an unset or empty variable falls back to the home directory.\<close>

definition minni_home :: "host \<Rightarrow> pyerr + string" where
  "minni_home h =
     (let raw = (case environ h ''MINNI_HOME'' of
                   Some v \<Rightarrow> if v = [] then ''~/.minni'' else v
                 | None \<Rightarrow> ''~/.minni'')
      in case expand_user h raw of
           Some p \<Rightarrow> Inr p
         | None \<Rightarrow> Inl (RuntimeError ''could not determine home directory''))"

definition canonical_live_vault_root :: "host \<Rightarrow> string \<Rightarrow> pyerr + string" where
  "canonical_live_vault_root h a =
     bind_result (minni_home h) (\<lambda>home. Inr (home @ ''/'' @ vault_dirname_for a))"

definition resolve_str :: "host \<Rightarrow> string \<Rightarrow> pyerr + string" where
  "resolve_str h p = (case resolve_path h p of Some cs \<Rightarrow> Inr (path_str cs) | None \<Rightarrow> Inl OSError)"

subsection \<open>Building a principal from its JSON object\<close>

definition norm_root :: "host \<Rightarrow> string \<Rightarrow> string" where
  "norm_root h p =
     (case expand_user h p of
        None \<Rightarrow> p
      | Some e \<Rightarrow> (case resolve_path h e of None \<Rightarrow> p | Some cs \<Rightarrow> path_str cs))"

definition declared_agent_id :: "jobj \<Rightarrow> string" where
  "declared_agent_id raw =
     py_str (py_or (py_or (jget raw ''agent_id'') (jget raw ''id'')) (JStr ''main''))"

definition principal_from_raw :: "host \<Rightarrow> string \<Rightarrow> jobj \<Rightarrow> pyerr + effective_principal" where
  "principal_from_raw h transport raw =
     bind_result (validate_agent_id (declared_agent_id raw)) (\<lambda>aid.
     bind_result (py_iter (py_or (jget_or (JList []) raw ''allowed_vault_roots'') (JList []))) (\<lambda>roots.
     bind_result (py_iter (jget_or (JList [JStr ''*'']) raw ''capabilities'')) (\<lambda>caps.
       Inr \<lparr>p_agent_id = aid,
            p_workspace_id = py_str (jget_or (JStr ''default'') raw ''workspace_id''),
            p_session_id = jget raw ''session_id'',
            p_transport = transport,
            p_capabilities = caps,
            p_allowed_vault_roots = map (\<lambda>x. norm_root h (py_str x)) roots,
            p_auto_accept_own = auto_accept_flag (jget_or (JBool False) raw ''auto_accept_own''),
            p_deny_reason = None\<rparr>)))"

definition from_operator_config ::
  "host \<Rightarrow> pdir \<Rightarrow> string \<Rightarrow> bool \<Rightarrow> string \<Rightarrow> pyerr + effective_principal option" where
  "from_operator_config h d transport strict name =
     bind_result (load_raw_principal_file strict name d) (\<lambda>r.
       case r of None \<Rightarrow> Inr None
       | Some raw \<Rightarrow> bind_result (principal_from_raw h transport raw) (\<lambda>p. Inr (Some p)))"

fun first_operator_config ::
  "host \<Rightarrow> pdir \<Rightarrow> string \<Rightarrow> bool \<Rightarrow> string list \<Rightarrow> pyerr + effective_principal option" where
  "first_operator_config h d transport strict [] = Inr None"
| "first_operator_config h d transport strict (n # ns) =
     bind_result (from_operator_config h d transport strict n) (\<lambda>r.
       case r of Some p \<Rightarrow> Inr (Some p)
       | None \<Rightarrow> first_operator_config h d transport strict ns)"

definition local_operator_asserted :: "host \<Rightarrow> bool" where
  "local_operator_asserted h \<longleftrightarrow>
     py_lower (py_strip (case environ h ''MINNI_LOCAL_OPERATOR'' of Some v \<Rightarrow> v | None \<Rightarrow> []))
       \<in> set [''1'', ''true'', ''yes'', ''on'']"

definition synthesized_main :: "string \<Rightarrow> json list \<Rightarrow> effective_principal" where
  "synthesized_main transport caps =
     \<lparr>p_agent_id = ''main'', p_workspace_id = ''default'', p_session_id = JNull,
      p_transport = transport, p_capabilities = caps, p_allowed_vault_roots = [],
      p_auto_accept_own = False, p_deny_reason = None\<rparr>"

definition from_local_transport ::
  "host \<Rightarrow> pdir \<Rightarrow> string \<Rightarrow> bool \<Rightarrow> pyerr + effective_principal" where
  "from_local_transport h d transport strict =
     bind_result (first_operator_config h d transport strict CANONICAL_PRINCIPAL_NAMES) (\<lambda>r.
       case r of
         Some p \<Rightarrow> Inr p
       | None \<Rightarrow>
           if strict \<and> \<not> local_operator_asserted h then Inr (synthesized_main transport [])
           else Inr (synthesized_main transport [JStr ''*'']))"

subsection \<open>Recall scope: aliases\<close>

definition string_list :: "json \<Rightarrow> string list" where
  "string_list v =
     (let raw = (case v of JList xs \<Rightarrow> xs | JStr s \<Rightarrow> [JStr s] | _ \<Rightarrow> [])
      in filter (\<lambda>s. s \<noteq> []) (map (\<lambda>x. py_strip (py_str x)) raw))"

definition principal_aliases :: "jobj \<Rightarrow> string list" where
  "principal_aliases raw =
     string_list (jget raw ''legacy_agent_ids'') @ string_list (jget raw ''aliases'')"

text \<open>\<^verbatim>\<open>scope\<close> and \<^verbatim>\<open>seen\<close> always hold the same ids, so one list is enough.\<close>

definition add_valid_agent :: "string list \<Rightarrow> string \<Rightarrow> string list" where
  "add_valid_agent scope a =
     (case validate_agent_id a of
        Inl _ \<Rightarrow> scope
      | Inr b \<Rightarrow> if b \<in> set scope then scope else scope @ [b])"

definition scope_step :: "string \<Rightarrow> jobj \<Rightarrow> string list \<Rightarrow> string list" where
  "scope_step a raw scope =
     (let canonical = py_strip (declared_agent_id raw);
          aliases = principal_aliases raw;
          platform_ids = string_list (jget raw ''platform_agent_ids'')
      in if a = canonical \<or> a \<in> set platform_ids then foldl add_valid_agent scope aliases
         else if a \<in> set aliases
           then foldl add_valid_agent (add_valid_agent scope canonical) aliases
         else scope)"

fun scope_over :: "pdir \<Rightarrow> string \<Rightarrow> string list \<Rightarrow> string list \<Rightarrow> pyerr + string list" where
  "scope_over d a [] scope = Inr scope"
| "scope_over d a (n # ns) scope =
     bind_result (load_raw_principal_file False n d) (\<lambda>r.
       case r of
         Some (kv # kvs) \<Rightarrow> scope_over d a ns (scope_step a (kv # kvs) scope)
       | _ \<Rightarrow> scope_over d a ns scope)"

definition agent_scope_for :: "pdir \<Rightarrow> string \<Rightarrow> pyerr + string list" where
  "agent_scope_for d a =
     bind_result (validate_agent_id a) (\<lambda>a.
       scope_over d a CANONICAL_PRINCIPAL_NAMES (add_valid_agent [] a))"


subsection \<open>Stamping: \<^verbatim>\<open>_stamp_effective_principal\<close>\<close>

definition default_deny_principal ::
  "string \<Rightarrow> string \<Rightarrow> deny_reason option \<Rightarrow> pyerr + effective_principal" where
  "default_deny_principal a transport reason =
     bind_result (validate_agent_id a) (\<lambda>a.
       Inr \<lparr>p_agent_id = a, p_workspace_id = ''default'', p_session_id = JNull,
            p_transport = transport, p_capabilities = [], p_allowed_vault_roots = [],
            p_auto_accept_own = False, p_deny_reason = reason\<rparr>)"

fun collect_aliases ::
  "(jobj \<Rightarrow> pyerr + string list) \<Rightarrow> pdir \<Rightarrow> string list \<Rightarrow> pyerr + string list" where
  "collect_aliases f d [] = Inr []"
| "collect_aliases f d (n # ns) =
     bind_result (load_raw_principal_file True n d) (\<lambda>r.
     bind_result (case r of Some (kv # kvs) \<Rightarrow> f (kv # kvs) | _ \<Rightarrow> Inr []) (\<lambda>as.
     bind_result (collect_aliases f d ns) (\<lambda>bs. Inr (as @ bs))))"

text \<open>\<^verbatim>\<open>str(a) for a in (raw.get("legacy_agent_ids") or raw.get("aliases") or [])\<close>.\<close>

definition migration_aliases :: "jobj \<Rightarrow> pyerr + string list" where
  "migration_aliases raw =
     bind_result (py_iter (py_or (py_or (jget raw ''legacy_agent_ids'') (jget raw ''aliases''))
                                 (JList [])))
       (\<lambda>xs. Inr (map py_str xs))"

definition stamp_operator ::
  "pdir \<Rightarrow> bool \<Rightarrow> effective_principal \<Rightarrow> string \<Rightarrow> pyerr + effective_principal" where
  "stamp_operator d strict stamped supplied =
     (if supplied = p_agent_id stamped then Inr stamped
      else if supplied \<in> set OPERATOR_RESERVED_AGENT_IDS
              \<and> p_agent_id stamped \<in> set OPERATOR_RESERVED_AGENT_IDS then Inr stamped
      else if strict then
        bind_result (collect_aliases (\<lambda>raw. Inr (principal_aliases raw)) d CANONICAL_PRINCIPAL_NAMES)
          (\<lambda>as. if supplied \<in> set as then Inr stamped
                else Inl (IdentityMismatch supplied (p_agent_id stamped)))
      else Inl (IdentityMismatch supplied (p_agent_id stamped)))"

definition as_dict :: "json \<Rightarrow> jobj" where
  "as_dict v = (case v of JObj kvs \<Rightarrow> kvs | _ \<Rightarrow> [])"

definition default_platform_roots :: "host \<Rightarrow> string \<Rightarrow> pyerr + string list" where
  "default_platform_roots h a =
     bind_result (canonical_live_vault_root h a) (\<lambda>live.
     bind_result (resolve_str h live) (\<lambda>root.
       if a = ''gemini'' then
         (case expand_user h ''~/.gemini/minni-vault'' of
            None \<Rightarrow> Inl (RuntimeError ''could not determine home directory'')
          | Some g \<Rightarrow> bind_result (resolve_str h g) (\<lambda>legacy. Inr [root, legacy]))
       else Inr [root]))"

definition expand_resolve :: "host \<Rightarrow> string \<Rightarrow> pyerr + string" where
  "expand_resolve h r =
     (case expand_user h r of
        None \<Rightarrow> Inl (RuntimeError ''could not determine home directory'')
      | Some e \<Rightarrow> resolve_str h e)"

fun nonblank_strings :: "json list \<Rightarrow> string list" where
  "nonblank_strings [] = []"
| "nonblank_strings (JStr r # xs) =
     (if py_strip r \<noteq> [] then r # nonblank_strings xs else nonblank_strings xs)"
| "nonblank_strings (_ # xs) = nonblank_strings xs"

definition platform_roots :: "host \<Rightarrow> jobj \<Rightarrow> string \<Rightarrow> pyerr + string list" where
  "platform_roots h raw supplied =
     (let roots_map = as_dict (py_or (jget raw ''platform_agent_vault_roots'') (JObj []))
      in case map_of roots_map supplied of
           None \<Rightarrow> default_platform_roots h supplied
         | Some (JList (x # xs)) \<Rightarrow>
             bind_result (result_map (expand_resolve h) (nonblank_strings (x # xs)))
               (\<lambda>rs. Inr (if rs = [] then [PLATFORM_NO_ROOTS_SENTINEL] else rs))
         | Some _ \<Rightarrow> Inr [PLATFORM_NO_ROOTS_SENTINEL])"

definition platform_principal ::
  "host \<Rightarrow> string \<Rightarrow> effective_principal \<Rightarrow> string \<Rightarrow> jobj \<Rightarrow> pyerr + effective_principal" where
  "platform_principal h transport stamped supplied raw =
     bind_result (platform_roots h raw supplied) (\<lambda>roots.
     bind_result (py_iter (case map_of (as_dict (py_or (jget raw ''platform_agent_capabilities'') (JObj [])))
                                        supplied of Some caps \<Rightarrow> caps | None \<Rightarrow> JList [])) (\<lambda>caps.
       Inr \<lparr>p_agent_id = supplied,
            p_workspace_id = (case jget raw ''workspace_id'' of
                                JNull \<Rightarrow> p_workspace_id stamped | w \<Rightarrow> py_str w),
            p_session_id = jget raw ''session_id'',
            p_transport = transport,
            p_capabilities = caps,
            p_allowed_vault_roots = roots,
            p_auto_accept_own = auto_accept_flag
              (jget_or (JBool False)
                 (as_dict (py_or (jget raw ''platform_agent_auto_accept_own'') (JObj []))) supplied),
            p_deny_reason = None\<rparr>))"

definition lists_platform_id :: "jobj \<Rightarrow> string \<Rightarrow> bool" where
  "lists_platform_id raw supplied \<longleftrightarrow>
     (case jget raw ''platform_agent_ids'' of
        JList xs \<Rightarrow> supplied \<in> set (map py_str xs) | _ \<Rightarrow> False)"

fun platform_stamp ::
  "host \<Rightarrow> pdir \<Rightarrow> string \<Rightarrow> effective_principal \<Rightarrow> string \<Rightarrow> string list
    \<Rightarrow> pyerr + effective_principal option" where
  "platform_stamp h d transport stamped supplied [] = Inr None"
| "platform_stamp h d transport stamped supplied (n # ns) =
     bind_result (load_raw_principal_file True n d) (\<lambda>r.
       case r of
         Some (kv # kvs) \<Rightarrow>
           if lists_platform_id (kv # kvs) supplied
           then bind_result (platform_principal h transport stamped supplied (kv # kvs)) (\<lambda>p. Inr (Some p))
           else platform_stamp h d transport stamped supplied ns
       | _ \<Rightarrow> platform_stamp h d transport stamped supplied ns)"

text \<open>The last two rules of the resolver: a migration alias, then mismatch or default deny.\<close>

definition stamp_alias_or_deny ::
  "pdir \<Rightarrow> string \<Rightarrow> bool \<Rightarrow> effective_principal \<Rightarrow> string \<Rightarrow> pyerr + effective_principal" where
  "stamp_alias_or_deny d transport strict stamped supplied =
     bind_result (if strict then collect_aliases migration_aliases d CANONICAL_PRINCIPAL_NAMES
                  else Inr []) (\<lambda>as.
       if supplied \<in> set as then Inr stamped
       else if strict \<and> p_agent_id stamped \<notin> set OPERATOR_RESERVED_AGENT_IDS
         then Inl (IdentityMismatch supplied (p_agent_id stamped))
       else default_deny_principal supplied transport (Some UnknownIdentity))"

definition stamp_agent ::
  "host \<Rightarrow> pdir \<Rightarrow> string \<Rightarrow> bool \<Rightarrow> effective_principal \<Rightarrow> string
    \<Rightarrow> pyerr + effective_principal" where
  "stamp_agent h d transport strict stamped supplied =
     bind_result (from_operator_config h d transport True supplied) (\<lambda>r.
       case r of
         Some p \<Rightarrow> if p_agent_id p \<noteq> supplied then Inl (IdentityMismatch supplied (p_agent_id p))
                   else Inr p
       | None \<Rightarrow>
           if supplied = p_agent_id stamped then Inr stamped
           else bind_result (if strict then platform_stamp h d transport stamped supplied
                                              CANONICAL_PRINCIPAL_NAMES
                             else Inr None) (\<lambda>q.
             case q of Some p \<Rightarrow> Inr p
             | None \<Rightarrow> stamp_alias_or_deny d transport strict stamped supplied))"

definition stamp_supplied ::
  "host \<Rightarrow> pdir \<Rightarrow> string \<Rightarrow> bool \<Rightarrow> bool \<Rightarrow> effective_principal \<Rightarrow> string
    \<Rightarrow> pyerr + effective_principal" where
  "stamp_supplied h d transport operator_context strict stamped supplied =
     (if supplied \<in> set OPERATOR_RESERVED_AGENT_IDS \<and> \<not> operator_context
         \<and> \<not> local_operator_asserted h
      then default_deny_principal supplied transport (Some ReservedAgentId)
      else if operator_context \<or> supplied \<in> set OPERATOR_RESERVED_AGENT_IDS
      then stamp_operator d strict stamped supplied
      else stamp_agent h d transport strict stamped supplied)"

definition stamp_effective_principal ::
  "host \<Rightarrow> pdir \<Rightarrow> string \<Rightarrow> bool \<Rightarrow> json \<Rightarrow> pyerr + effective_principal" where
  "stamp_effective_principal h d transport operator_context supplied_agent_id =
     (let strict = has_any_principal_files d;
          local = (if transport \<in> {''uds'', ''stdio'', ''local'', ''test''} then transport else ''http'')
      in bind_result (from_local_transport h d local strict) (\<lambda>stamped.
           if supplied_agent_id = JNull then Inr stamped
           else
             (let supplied_raw = py_strip (py_str supplied_agent_id)
              in if supplied_raw = [] then Inr stamped
                 else (case validate_agent_id supplied_raw of
                         Inl _ \<Rightarrow> Inl (IdentityMismatch supplied_raw (p_agent_id stamped))
                       | Inr supplied \<Rightarrow>
                           stamp_supplied h d transport operator_context strict stamped supplied))))"

subsection \<open>Seeding the caller's own vault\<close>

definition acl_forbids_live_store :: "host \<Rightarrow> effective_principal \<Rightarrow> string \<Rightarrow> bool" where
  "acl_forbids_live_store h p live =
     (if allows_vault_root h p live then False
      else if p_allowed_vault_roots p = [] then True
      else list_all (\<lambda>r. r = PLATFORM_NO_ROOTS_SENTINEL) (p_allowed_vault_roots p))"

text \<open>The directory \<^verbatim>\<open>_seed_own_vault\<close> hands to \<^verbatim>\<open>ensure_agent_vault\<close>, if any.\<close>

definition seed_own_vault :: "host \<Rightarrow> effective_principal \<Rightarrow> pyerr + string option" where
  "seed_own_vault h p =
     (if \<not> (can p ''learn'' \<or> can p ''write'') then Inr None
      else bind_result (canonical_live_vault_root h (p_agent_id p)) (\<lambda>live.
        if acl_forbids_live_store h p live then Inr None else Inr (Some live)))"

subsection \<open>Authorization predicates\<close>

definition is_operator_principal :: "effective_principal \<Rightarrow> bool" where [acl_defs]:
  "is_operator_principal p \<longleftrightarrow>
     (let caps = set (p_capabilities p)
      in JStr ''*'' \<in> caps \<or> JStr ''resolve_candidate'' \<in> caps \<or> JStr ''govern'' \<in> caps
         \<or> p_agent_id p \<in> {''main'', ''operator''} \<and> p_capabilities p \<noteq> [])"

definition allows_cross_agent_recall :: "effective_principal \<Rightarrow> bool" where [acl_defs]:
  "allows_cross_agent_recall p \<longleftrightarrow>
     JStr ''*'' \<in> set (p_capabilities p) \<or> JStr ''cross_agent'' \<in> set (p_capabilities p)
     \<or> JStr ''govern'' \<in> set (p_capabilities p) \<or> is_operator_principal p"

subsection \<open>The read gate: \<^verbatim>\<open>can_read_document\<close>\<close>

definition doc_agent :: "jobj \<Rightarrow> string" where
  "doc_agent md = py_strip (py_str (py_or (first_of_keys md [''agent'', ''sigil'']) (JStr ''unknown'')))"

definition doc_page_type :: "jobj \<Rightarrow> string" where
  "doc_page_type md = py_lower (py_str (py_or (jget md ''page_type'') (JStr [])))"

definition doc_privacy :: "jobj \<Rightarrow> string" where
  "doc_privacy md =
     py_strip (py_lower (py_str (py_or (first_of_keys md [''privacy_level'', ''privacy'']) (JStr ''safe''))))"

definition doc_same_agent :: "effective_principal \<Rightarrow> jobj \<Rightarrow> bool" where
  "doc_same_agent p md \<longleftrightarrow> doc_agent md = p_agent_id p
     \<and> \<not> (doc_page_type md = ''session'' \<and> py_lower (doc_agent md) = ''unknown'')"

definition workspace_gate :: "effective_principal \<Rightarrow> string \<Rightarrow> jobj \<Rightarrow> bool" where
  "workspace_gate p workspace md =
     (let raw = first_of_keys md [''workspace_id'', ''workspace'', ''ws''];
          doc_ws = py_str (py_or raw (JStr ''default''));
          call_ws = (if workspace = [] then ''default'' else workspace)
      in doc_ws = ''*'' \<or> call_ws = ''*'' \<or> doc_ws = call_ws
         \<or> doc_same_agent p md \<and> \<not> truthy raw)"

definition session_gate :: "effective_principal \<Rightarrow> jobj \<Rightarrow> bool" where
  "session_gate p md =
     (let al = py_lower (doc_agent md)
      in \<not> (\<not> doc_same_agent p md
            \<and> (doc_page_type md = ''session'' \<or> al = ''wiki:session'' \<or> starts_with ''session:'' al)
            \<and> \<not> is_operator_principal p))"

definition path_gate :: "host \<Rightarrow> effective_principal \<Rightarrow> jobj \<Rightarrow> bool" where
  "path_gate h p md =
     (let path = first_of_keys md [''path'', ''source'', ''filename'']
      in if \<not> truthy path then True
         else case path of
           JStr s \<Rightarrow>
             (case expand_user h s of
                None \<Rightarrow> False
              | Some e \<Rightarrow>
                  if starts_with ''/'' e then allows_vault_root h p s
                  else if p_allowed_vault_roots p = [] then p_capabilities p \<noteq> []
                  else if \<not> doc_same_agent p md then False
                  else \<not> list_all (\<lambda>r. r = PLATFORM_NO_ROOTS_SENTINEL) (p_allowed_vault_roots p))
         | _ \<Rightarrow> False)"

definition shared_page :: "jobj \<Rightarrow> bool" where
  "shared_page md =
     (let al = py_lower (doc_agent md)
      in doc_page_type md \<in> {''wiki'', ''handoff'', ''synthesis'', ''decision''}
         \<or> starts_with ''wiki:'' al \<or> starts_with ''handoff'' al
         \<or> substr_of ''wiki'' al \<or> substr_of ''handoff'' al)"

text \<open>The decision once workspace, session and path gates have passed.\<close>

definition audience_gate :: "effective_principal \<Rightarrow> jobj \<Rightarrow> bool" where
  "audience_gate p md =
     (if doc_privacy md = ''blocked'' then False
      else if doc_same_agent p md then True
      else if doc_agent md = ''unknown''
              \<and> (p_capabilities p \<noteq> [] \<or> p_allowed_vault_roots p \<noteq> []) then True
      else if is_operator_principal p then True
      else if doc_privacy md \<in> {''private'', ''local-only''} then False
      else shared_page md)"

definition can_read_document ::
  "host \<Rightarrow> effective_principal option \<Rightarrow> string \<Rightarrow> json \<Rightarrow> bool" where
  "can_read_document h caller workspace doc_metadata =
     (case caller of
        None \<Rightarrow> False
      | Some p \<Rightarrow>
          (case doc_metadata of
             JObj md \<Rightarrow> workspace_gate p workspace md \<and> session_gate p md
                        \<and> path_gate h p md \<and> audience_gate p md
           | _ \<Rightarrow> False))"

lemmas read_gate_defs =
  can_read_document_def workspace_gate_def session_gate_def path_gate_def audience_gate_def

subsection \<open>Facts about ids and stamps\<close>

lemma validate_agent_id_same: "validate_agent_id s = Inr t \<Longrightarrow> t = s"
  by (auto simp: validate_agent_id_def split: if_splits)

lemma default_deny_principal_fields:
  assumes "default_deny_principal a t r = Inr p"
  shows "p_agent_id p = a" "p_capabilities p = []" "p_allowed_vault_roots p = []"
    "p_deny_reason p = r" "p_auto_accept_own p = False"
  using assms by (auto simp: default_deny_principal_def bind_result_Inr_iff dest: validate_agent_id_same)

lemma no_caps_no_can: "p_capabilities p = [] \<Longrightarrow> \<not> can p c"
  by (simp add: can_def)

lemma stamp_effective_principal_supplied:
  assumes st: "stamp_effective_principal h d t oc s = Inr p"
    and nn: "s \<noteq> JNull" and nb: "py_strip (py_str s) \<noteq> []"
  obtains stamped local where
    "from_local_transport h d local (has_any_principal_files d) = Inr stamped"
    "stamp_supplied h d t oc (has_any_principal_files d) stamped (py_strip (py_str s)) = Inr p"
proof (cases "validate_agent_id (py_strip (py_str s))")
  case (Inl e)
  then show ?thesis
    using st nn nb by (auto simp: stamp_effective_principal_def Let_def bind_result_Inr_iff)
next
  case (Inr u)
  moreover have "u = py_strip (py_str s)"
    by (rule validate_agent_id_same [OF Inr])
  ultimately show ?thesis
    using st nn nb that by (auto simp: stamp_effective_principal_def Let_def bind_result_Inr_iff)
qed

lemma agent_id_char_not_slash: "agent_id_char c \<Longrightarrow> c \<noteq> CHR ''/''"
  by (auto simp: agent_id_char_def lower_alnum_def code_point_def Let_def)

lemma lower_alnum_not_punct: "lower_alnum c \<Longrightarrow> c \<noteq> CHR ''/'' \<and> c \<noteq> CHR ''.''"
  by (auto simp: lower_alnum_def code_point_def Let_def)

lemma agent_id_body_shape:
  "agent_id_body s \<Longrightarrow> s \<noteq> [] \<and> CHR ''/'' \<notin> set s \<and> hd s \<noteq> CHR ''.'' \<and> length s \<le> 64"
  by (cases s) (auto simp: list_all_iff dest: agent_id_char_not_slash lower_alnum_not_punct)

theorem validate_agent_id_safe_component:
  assumes "validate_agent_id s = Inr t"
  shows "t = s \<and> s \<noteq> [] \<and> CHR ''/'' \<notin> set s \<and> hd s \<noteq> CHR ''.'' \<and> length s \<le> 65"
proof -
  have "agent_id_re_match s" and t: "t = s"
    using assms by (auto simp: validate_agent_id_def split: if_splits)
  then consider "agent_id_body s" | "s \<noteq> []" "last s = CHR 0x0A" "agent_id_body (butlast s)"
    by (auto simp: agent_id_re_match_def)
  then show ?thesis
  proof cases
    case 1
    then show ?thesis using t agent_id_body_shape [of s] by auto
  next
    case 2
    then have s: "s = butlast s @ [CHR 0x0A]"
      by (metis append_butlast_last_id)
    have b: "butlast s \<noteq> []" "CHR ''/'' \<notin> set (butlast s)" "hd (butlast s) \<noteq> CHR ''.''"
        "length (butlast s) \<le> 64"
      using agent_id_body_shape [OF 2(3)] by auto
    have "set s = insert (CHR 0x0A) (set (butlast s))" using s by (metis Un_insert_right list.set(1) list.simps(15) set_append sup_bot_right)
    moreover have "hd s = hd (butlast s)" using s b(1) by (metis hd_append2)
    moreover have "length s = Suc (length (butlast s))" using 2(1) by simp
    ultimately show ?thesis using t b 2(1) by auto
  qed
qed

theorem validate_agent_id_accepts_newline:
  assumes "agent_id_body s"
  shows "validate_agent_id (s @ [CHR 0x0A]) = Inr (s @ [CHR 0x0A])"
  using assms by (simp add: validate_agent_id_def agent_id_re_match_def)

theorem stamp_reserved_claim_denied:
  assumes "stamp_effective_principal h d t False s = Inr p" and "s \<noteq> JNull"
    and "py_strip (py_str s) \<in> set OPERATOR_RESERVED_AGENT_IDS"
    and "\<not> local_operator_asserted h"
  shows "p_deny_reason p = Some ReservedAgentId \<and> p_allowed_vault_roots p = [] \<and> \<not> can p c"
proof -
  have nb: "py_strip (py_str s) \<noteq> []"
    using assms(3) by (auto simp: OPERATOR_RESERVED_AGENT_IDS_def)
  obtain stamped where
    "stamp_supplied h d t False (has_any_principal_files d) stamped (py_strip (py_str s)) = Inr p"
    by (rule stamp_effective_principal_supplied [OF assms(1,2) nb])
  then have "default_deny_principal (py_strip (py_str s)) t (Some ReservedAgentId) = Inr p"
    using assms(3,4) by (simp add: stamp_supplied_def)
  then show ?thesis
    by (simp add: default_deny_principal_fields no_caps_no_can)
qed

lemma from_operator_config_no_file:
  "map_of d n = None \<Longrightarrow> from_operator_config h d t st n = Inr None"
  by (simp add: from_operator_config_def load_raw_principal_file_def)

lemma first_operator_config_no_file:
  "(\<And>n. n \<in> set ns \<Longrightarrow> map_of d n = None) \<Longrightarrow> first_operator_config h d t st ns = Inr None"
  by (induction ns) (simp_all add: from_operator_config_no_file)

theorem strict_without_operator_file_denies:
  assumes "has_any_principal_files d" and "\<forall>n \<in> set CANONICAL_PRINCIPAL_NAMES. map_of d n = None"
    and "\<not> local_operator_asserted h"
  shows "\<exists>p. stamp_effective_principal h d t oc JNull = Inr p
    \<and> p_agent_id p = ''main'' \<and> p_capabilities p = [] \<and> \<not> is_operator_principal p
    \<and> \<not> allows_vault_root h p path"
  using assms
  by (simp add: stamp_effective_principal_def Let_def from_local_transport_def
      first_operator_config_no_file synthesized_main_def is_operator_principal_def
      allows_vault_root_def)

lemma stamp_operator_stamped: "stamp_operator d st stamped s = Inr p \<Longrightarrow> p = stamped"
  by (auto simp: stamp_operator_def bind_result_Inr_iff split: if_splits)

lemma platform_principal_fields:
  assumes "platform_principal h t stamped s raw = Inr p"
  shows "p_agent_id p = s" "p_deny_reason p = None"
    "platform_roots h raw s = Inr (p_allowed_vault_roots p)"
    "py_iter (case map_of (as_dict (py_or (jget raw ''platform_agent_capabilities'') (JObj []))) s of
        Some caps \<Rightarrow> caps | None \<Rightarrow> JList []) = Inr (p_capabilities p)"
    "p_auto_accept_own p = auto_accept_flag (jget_or (JBool False)
        (as_dict (py_or (jget raw ''platform_agent_auto_accept_own'') (JObj []))) s)"
  using assms by (auto simp: platform_principal_def bind_result_Inr_iff)

lemma platform_roots_nonempty: "platform_roots h raw s = Inr rs \<Longrightarrow> rs \<noteq> []"
  by (auto simp: platform_roots_def Let_def default_platform_roots_def bind_result_Inr_iff
      split: option.splits json.splits list.splits if_splits)

lemma platform_stamp_from_file:
  "platform_stamp h d t stamped s ns = Inr (Some p) \<Longrightarrow>
   \<exists>n raw. n \<in> set ns \<and> load_raw_principal_file True n d = Inr (Some raw)
     \<and> lists_platform_id raw s \<and> platform_principal h t stamped s raw = Inr p"
proof (induction ns)
  case Nil
  then show ?case by simp
next
  case (Cons n ns)
  obtain r where r: "load_raw_principal_file True n d = Inr r"
    using Cons.prems by (auto simp: bind_result_Inr_iff)
  consider raw where "r = Some raw" "lists_platform_id raw s" "platform_principal h t stamped s raw = Inr p"
    | "platform_stamp h d t stamped s ns = Inr (Some p)"
    using Cons.prems r by (auto simp: bind_result_Inr_iff split: option.splits list.splits if_splits)
  then show ?case
  proof cases
    case 1
    then show ?thesis using r by (intro exI [of _ n] exI [of _ raw]) simp
  next
    case 2
    then show ?thesis using Cons.IH by (meson list.set_intros(2))
  qed
qed

lemma under_some_root_ex:
  "under_some_root h cs rs \<Longrightarrow> \<exists>r \<in> set rs. \<exists>rc. resolve_path h r = Some rc \<and> prefix rc cs"
  by (induction rs) (auto split: option.splits)

lemma allows_vault_root_contained:
  assumes "p_allowed_vault_roots p \<noteq> []" and "allows_vault_root h p path"
  shows "\<exists>r \<in> set (p_allowed_vault_roots p). \<exists>rc cs.
    resolve_path h r = Some rc \<and> resolve_path h path = Some cs \<and> prefix rc cs"
  using assms under_some_root_ex
  by (auto simp: allows_vault_root_def split: option.splits if_splits)

theorem platform_stamp_grants_only_listed:
  assumes "platform_stamp h d t stamped s ns = Inr (Some p)"
  shows "p_agent_id p = s \<and> p_allowed_vault_roots p \<noteq> []
    \<and> (allows_vault_root h p path \<longrightarrow>
        (\<exists>r \<in> set (p_allowed_vault_roots p). \<exists>rc cs.
           resolve_path h r = Some rc \<and> resolve_path h path = Some cs \<and> prefix rc cs))
    \<and> (\<exists>n raw. n \<in> set ns \<and> load_raw_principal_file True n d = Inr (Some raw)
        \<and> lists_platform_id raw s
        \<and> (map_of (as_dict (py_or (jget raw ''platform_agent_capabilities'') (JObj []))) s = None
            \<longrightarrow> p_capabilities p = []))"
proof -
  obtain n raw where f: "n \<in> set ns" "load_raw_principal_file True n d = Inr (Some raw)"
      "lists_platform_id raw s" "platform_principal h t stamped s raw = Inr p"
    using platform_stamp_from_file [OF assms] by blast
  note pf = platform_principal_fields [OF f(4)]
  have ne: "p_allowed_vault_roots p \<noteq> []"
    using pf(3) by (rule platform_roots_nonempty)
  have "map_of (as_dict (py_or (jget raw ''platform_agent_capabilities'') (JObj []))) s = None
      \<longrightarrow> p_capabilities p = []"
    using pf(4) by auto
  moreover have "allows_vault_root h p path \<longrightarrow>
        (\<exists>r \<in> set (p_allowed_vault_roots p). \<exists>rc cs.
           resolve_path h r = Some rc \<and> resolve_path h path = Some cs \<and> prefix rc cs)"
    using allows_vault_root_contained [OF ne, of h path] by blast
  ultimately show ?thesis
    using pf(1) ne f(1-3) by (intro conjI exI [of _ n] exI [of _ raw]) simp_all
qed

lemma stamp_alias_or_deny_cases:
  assumes "stamp_alias_or_deny d t st stamped s = Inr p"
  shows "p = stamped \<and> st \<and> (\<exists>as. collect_aliases migration_aliases d CANONICAL_PRINCIPAL_NAMES = Inr as \<and> s \<in> set as)
    \<or> default_deny_principal s t (Some UnknownIdentity) = Inr p"
  using assms by (auto simp: stamp_alias_or_deny_def bind_result_Inr_iff split: if_splits)

lemma stamp_agent_cases:
  assumes "stamp_agent h d t st stamped s = Inr p"
  shows "p_agent_id p = s \<or>
    p = stamped \<and> st \<and> (\<exists>as. collect_aliases migration_aliases d CANONICAL_PRINCIPAL_NAMES = Inr as \<and> s \<in> set as)"
proof -
  obtain r where r: "from_operator_config h d t True s = Inr r"
    using assms by (auto simp: stamp_agent_def bind_result_Inr_iff)
  show ?thesis
  proof (cases r)
    case (Some q)
    then show ?thesis using assms r by (auto simp: stamp_agent_def split: if_splits)
  next
    case None
    note n = this
    show ?thesis
    proof (cases "s = p_agent_id stamped")
      case True
      then show ?thesis using assms r n by (simp add: stamp_agent_def)
    next
      case False
      then obtain q where q: "(if st then platform_stamp h d t stamped s CANONICAL_PRINCIPAL_NAMES
            else Inr None) = Inr q"
          and e: "(case q of Some p \<Rightarrow> Inr p | None \<Rightarrow> stamp_alias_or_deny d t st stamped s) = Inr p"
        using assms r n unfolding stamp_agent_def by (auto simp: bind_result_Inr_iff)
      show ?thesis
      proof (cases q)
        case None
        then show ?thesis
          using e stamp_alias_or_deny_cases default_deny_principal_fields(1) by fastforce
      next
        case (Some q')
        then have "platform_stamp h d t stamped s CANONICAL_PRINCIPAL_NAMES = Inr (Some p)"
          using q e by (simp split: if_splits)
        then show ?thesis using platform_stamp_from_file platform_principal_fields(1) by blast
      qed
    qed
  qed
qed

text \<open>
  C5. The identity a handler acts under comes from the operator's files: a claimed agent id is
  stamped as that id, as the local operator's own stamp, or the call is refused; it never
  becomes some other agent.
\<close>

theorem stamp_identity_not_spoofable:
  assumes "stamp_effective_principal h d t False s = Inr p" and "s \<noteq> JNull"
    and "py_strip (py_str s) \<noteq> []" and "p_agent_id p \<noteq> py_strip (py_str s)"
  shows "(\<exists>local. from_local_transport h d local (has_any_principal_files d) = Inr p)
    \<and> (local_operator_asserted h \<and> py_strip (py_str s) \<in> set OPERATOR_RESERVED_AGENT_IDS
       \<or> has_any_principal_files d
         \<and> (\<exists>as. collect_aliases migration_aliases d CANONICAL_PRINCIPAL_NAMES = Inr as
                 \<and> py_strip (py_str s) \<in> set as))"
proof -
  let ?s = "py_strip (py_str s)" and ?st = "has_any_principal_files d"
  obtain stamped local where l: "from_local_transport h d local ?st = Inr stamped"
    and u: "stamp_supplied h d t False ?st stamped ?s = Inr p"
    by (rule stamp_effective_principal_supplied [OF assms(1-3)])
  show ?thesis
  proof (cases "?s \<in> set OPERATOR_RESERVED_AGENT_IDS")
    case True
    have "local_operator_asserted h"
    proof (rule ccontr)
      assume "\<not> local_operator_asserted h"
      then have "default_deny_principal ?s t (Some ReservedAgentId) = Inr p"
        using True u by (simp add: stamp_supplied_def)
      then show False using assms(4) by (simp add: default_deny_principal_fields(1))
    qed
    moreover have "p = stamped"
      using True u calculation by (auto simp: stamp_supplied_def dest: stamp_operator_stamped)
    ultimately show ?thesis using True l by blast
  next
    case False
    then have "stamp_agent h d t ?st stamped ?s = Inr p"
      using u by (simp add: stamp_supplied_def)
    then show ?thesis using stamp_agent_cases assms(4) l by blast
  qed
qed

lemma from_operator_config_empty [simp]: "from_operator_config h [] t st n = Inr None"
  by (simp add: from_operator_config_no_file)

theorem fresh_install_claims_get_nothing:
  assumes "stamp_effective_principal h [] t False s = Inr p" and "s \<noteq> JNull"
    and "py_strip (py_str s) \<noteq> []" and "\<not> local_operator_asserted h"
  shows "p_capabilities p = [] \<and> p_allowed_vault_roots p = [] \<and> \<not> p_auto_accept_own p"
proof -
  let ?s = "py_strip (py_str s)"
  have st: "has_any_principal_files [] = False" by (simp add: has_any_principal_files_def)
  obtain stamped local where l: "from_local_transport h [] local False = Inr stamped"
    and u: "stamp_supplied h [] t False False stamped ?s = Inr p"
    using stamp_effective_principal_supplied [OF assms(1-3)] st by metis
  have "p_agent_id stamped = ''main''"
    using l by (auto simp: from_local_transport_def first_operator_config_no_file synthesized_main_def)
  then have "default_deny_principal ?s t (Some UnknownIdentity) = Inr p
      \<or> default_deny_principal ?s t (Some ReservedAgentId) = Inr p"
    using u assms(4)
    by (auto simp: stamp_supplied_def stamp_agent_def stamp_alias_or_deny_def
        OPERATOR_RESERVED_AGENT_IDS_def split: if_splits)
  then show ?thesis using default_deny_principal_fields by blast
qed

lemma audience_gate_cases:
  assumes "audience_gate p md"
  shows "doc_privacy md \<noteq> ''blocked''"
    and "doc_same_agent p md \<or> is_operator_principal p
      \<or> doc_agent md = ''unknown'' \<and> (p_capabilities p \<noteq> [] \<or> p_allowed_vault_roots p \<noteq> [])
      \<or> doc_privacy md \<notin> {''private'', ''local-only''} \<and> shared_page md"
  using assms by (auto simp: audience_gate_def split: if_splits)

text \<open>
  C6. When the read gate admits a document it is not blocked; a session page is the caller's
  own or the caller is an operator; otherwise the document is the caller's own, or the caller
  is an operator, or the document has no owner ('unknown') and the caller has a capability or
  a vault root (private documents included, see the findings), or it is a shared page that is
  not private; its workspace is the caller's or a '*', or it is an unstamped document of the
  caller; and a file path that is absolute lies under one of the caller's vault roots, a
  relative one is the caller's own and needs a real root, and a caller without roots needs a
  capability.
\<close>

theorem can_read_document_sound:
  assumes "can_read_document h (Some p) ws (JObj md)"
  shows "doc_privacy md \<noteq> ''blocked''
    \<and> (doc_page_type md = ''session'' \<longrightarrow> doc_same_agent p md \<or> is_operator_principal p)
    \<and> (doc_same_agent p md \<or> is_operator_principal p
       \<or> doc_agent md = ''unknown'' \<and> (p_capabilities p \<noteq> [] \<or> p_allowed_vault_roots p \<noteq> [])
       \<or> doc_privacy md \<notin> {''private'', ''local-only''} \<and> shared_page md)
    \<and> (let raw = first_of_keys md [''workspace_id'', ''workspace'', ''ws'']; call = (if ws = [] then ''default'' else ws)
       in py_str (py_or raw (JStr ''default'')) \<in> {''*'', call} \<or> call = ''*'' \<or> doc_same_agent p md \<and> \<not> truthy raw)
    \<and> (let path = first_of_keys md [''path'', ''source'', ''filename''] in
       truthy path \<longrightarrow>
         (\<exists>s e. path = JStr s \<and> expand_user h s = Some e
            \<and> (if p_allowed_vault_roots p = [] then p_capabilities p \<noteq> []
               else if starts_with ''/'' e then
                 (\<exists>r \<in> set (p_allowed_vault_roots p). \<exists>rc cs.
                    resolve_path h r = Some rc \<and> resolve_path h s = Some cs \<and> prefix rc cs)
               else doc_same_agent p md
                 \<and> (\<exists>r \<in> set (p_allowed_vault_roots p). r \<noteq> PLATFORM_NO_ROOTS_SENTINEL))))"
proof -
  let ?path = "first_of_keys md [''path'', ''source'', ''filename'']" and ?roots = "p_allowed_vault_roots p"
  have a: "audience_gate p md" and s: "session_gate p md" and g: "path_gate h p md" and w: "workspace_gate p ws md"
    using assms by (simp_all add: can_read_document_def)
  have session: "doc_page_type md = ''session'' \<longrightarrow> doc_same_agent p md \<or> is_operator_principal p"
    using s by (auto simp: session_gate_def Let_def)
  have path: "\<exists>s e. ?path = JStr s \<and> expand_user h s = Some e
      \<and> (if ?roots = [] then p_capabilities p \<noteq> []
         else if starts_with ''/'' e then
           (\<exists>r \<in> set ?roots. \<exists>rc cs. resolve_path h r = Some rc \<and> resolve_path h s = Some cs \<and> prefix rc cs)
         else doc_same_agent p md \<and> (\<exists>r \<in> set ?roots. r \<noteq> PLATFORM_NO_ROOTS_SENTINEL))"
    if t: "truthy ?path"
  proof -
    obtain s e where se: "?path = JStr s" "expand_user h s = Some e"
      using g t by (auto simp: path_gate_def Let_def split: json.splits option.splits)
    have "if starts_with ''/'' e then allows_vault_root h p s
        else if ?roots = [] then p_capabilities p \<noteq> []
        else doc_same_agent p md \<and> \<not> list_all (\<lambda>r. r = PLATFORM_NO_ROOTS_SENTINEL) ?roots"
      using g t se by (auto simp: path_gate_def Let_def split: if_splits)
    then show ?thesis
      using se allows_vault_root_contained [of p h s]
      by (auto simp: allows_vault_root_def list_all_iff split: if_splits)
  qed
  show ?thesis
    using audience_gate_cases [OF a] session w path unfolding Let_def workspace_gate_def by auto
qed

theorem default_deny_reads_no_file:
  assumes "p_capabilities p = []" and "p_allowed_vault_roots p = []"
    and "can_read_document h (Some p) ws (JObj md)"
  shows "\<not> truthy (first_of_keys md [''path'', ''source'', ''filename''])
    \<and> (doc_same_agent p md \<or> doc_privacy md \<notin> {''private'', ''local-only''} \<and> shared_page md)"
proof -
  have g: "path_gate h p md" and a: "audience_gate p md"
    using assms(3) by (simp_all add: can_read_document_def)
  have "\<not> truthy (first_of_keys md [''path'', ''source'', ''filename''])"
    using g assms(1,2)
    by (auto simp: path_gate_def Let_def allows_vault_root_def split: if_splits json.splits option.splits)
  then show ?thesis
    using audience_gate_cases [OF a] assms(1,2) by (auto simp: is_operator_principal_def)
qed

subsection \<open>Recall scope\<close>

definition scope_ok :: "pdir \<Rightarrow> string \<Rightarrow> string list \<Rightarrow> bool" where
  "scope_ok d a sc \<longleftrightarrow> distinct sc \<and> sc \<noteq> [] \<and> hd sc = a
     \<and> (\<forall>x \<in> set sc. validate_agent_id x = Inr x)
     \<and> (\<forall>x \<in> set sc. x = a \<or> (\<exists>n raw. load_raw_principal_file False n d = Inr (Some raw)
          \<and> x \<in> insert (py_strip (declared_agent_id raw)) (set (principal_aliases raw))
          \<and> a \<in> insert (py_strip (declared_agent_id raw))
                  (set (principal_aliases raw) \<union> set (string_list (jget raw ''platform_agent_ids'')))))"

lemma add_valid_agent_ok:
  assumes "scope_ok d a sc"
    and "x = a \<or> (\<exists>n raw. load_raw_principal_file False n d = Inr (Some raw)
          \<and> x \<in> insert (py_strip (declared_agent_id raw)) (set (principal_aliases raw))
          \<and> a \<in> insert (py_strip (declared_agent_id raw))
                  (set (principal_aliases raw) \<union> set (string_list (jget raw ''platform_agent_ids''))))"
  shows "scope_ok d a (add_valid_agent sc x)"
proof (cases "validate_agent_id x")
  case (Inl e)
  then show ?thesis using assms(1) by (simp add: add_valid_agent_def)
next
  case (Inr y)
  then have "y = x" by (rule validate_agent_id_same)
  then show ?thesis using Inr assms unfolding scope_ok_def
    by (auto simp: add_valid_agent_def)
qed

lemma foldl_add_valid_agent_ok:
  assumes "scope_ok d a sc" "load_raw_principal_file False n d = Inr (Some raw)"
    and "set xs \<subseteq> insert (py_strip (declared_agent_id raw)) (set (principal_aliases raw))"
    and "a \<in> insert (py_strip (declared_agent_id raw))
      (set (principal_aliases raw) \<union> set (string_list (jget raw ''platform_agent_ids'')))"
  shows "scope_ok d a (foldl add_valid_agent sc xs)"
  using assms
proof (induction xs arbitrary: sc)
  case Nil
  then show ?case by simp
next
  case (Cons x xs)
  have "scope_ok d a (add_valid_agent sc x)"
    by (rule add_valid_agent_ok [OF Cons.prems(1)]) (use Cons.prems(2-4) in auto)
  then show ?case using Cons.IH Cons.prems by simp
qed

lemma scope_step_ok:
  assumes "scope_ok d a sc" "load_raw_principal_file False n d = Inr (Some raw)"
  shows "scope_ok d a (scope_step a raw sc)"
proof -
  let ?c = "py_strip (declared_agent_id raw)" and ?as = "principal_aliases raw"
  show ?thesis
  proof (cases "a = ?c \<or> a \<in> set (string_list (jget raw ''platform_agent_ids''))")
    case True
    then show ?thesis
      using foldl_add_valid_agent_ok [OF assms, of ?as] by (auto simp: scope_step_def Let_def)
  next
    case False
    then show ?thesis
      using assms(1) foldl_add_valid_agent_ok [OF assms, of "?c # ?as"]
      by (auto simp: scope_step_def Let_def)
  qed
qed

lemma scope_over_ok:
  "scope_ok d a sc \<Longrightarrow> scope_over d a ns sc = Inr sc' \<Longrightarrow> scope_ok d a sc'"
proof (induction ns arbitrary: sc)
  case Nil
  then show ?case by simp
next
  case (Cons n ns)
  obtain r where r: "load_raw_principal_file False n d = Inr r"
    using Cons.prems(2) by (auto simp: bind_result_Inr_iff)
  show ?case
  proof (cases "r = None \<or> r = Some []")
    case True
    then show ?thesis using Cons r by auto
  next
    case False
    then obtain kv kvs where "r = Some (kv # kvs)" by (cases r) (auto simp: neq_Nil_conv)
    then show ?thesis
      using Cons.prems(2) r Cons.IH [OF scope_step_ok [OF Cons.prems(1), of n "kv # kvs"]] by simp
  qed
qed

theorem agent_scope_for_sound:
  assumes "agent_scope_for d a = Inr sc"
  shows "distinct sc \<and> sc \<noteq> [] \<and> hd sc = a
    \<and> (\<forall>x \<in> set sc. validate_agent_id x = Inr x)
    \<and> (\<forall>x \<in> set sc. x \<noteq> a \<longrightarrow> (\<exists>n raw. load_raw_principal_file False n d = Inr (Some raw)
          \<and> x \<in> insert (py_strip (declared_agent_id raw)) (set (principal_aliases raw))
          \<and> a \<in> insert (py_strip (declared_agent_id raw))
                  (set (principal_aliases raw) \<union> set (string_list (jget raw ''platform_agent_ids'')))))"
proof -
  obtain b where b: "validate_agent_id a = Inr b"
    using assms by (auto simp: agent_scope_for_def bind_result_Inr_iff)
  then have "b = a" by (rule validate_agent_id_same)
  then have "scope_over d a CANONICAL_PRINCIPAL_NAMES [a] = Inr sc"
    using assms b by (simp add: agent_scope_for_def add_valid_agent_def)
  moreover have "scope_ok d a [a]"
    using b \<open>b = a\<close> by (simp add: scope_ok_def)
  ultimately have "scope_ok d a sc" by (metis scope_over_ok)
  then show ?thesis by (auto simp: scope_ok_def)
qed

theorem seed_own_vault_guarded:
  assumes "seed_own_vault h p = Inr (Some v)"
  shows "(can p ''learn'' \<or> can p ''write'') \<and> canonical_live_vault_root h (p_agent_id p) = Inr v
    \<and> (allows_vault_root h p v \<or> (\<exists>r \<in> set (p_allowed_vault_roots p). r \<noteq> PLATFORM_NO_ROOTS_SENTINEL))"
  using assms
  by (auto simp: seed_own_vault_def acl_forbids_live_store_def bind_result_Inr_iff list_all_iff
      split: if_splits)


subsection \<open>Concrete inputs\<close>

definition demo_host :: host where
  "demo_host = \<lparr>environ = (\<lambda>_. None), resolve_path = (\<lambda>s. Some [s]), expand_user = Some,
                chmod_works = True\<rparr>"

definition demo_raw :: jobj where
  "demo_raw = [(''agent_id'', JStr ''main''), (''capabilities'', JList [JStr ''*'']),
     (''aliases'', JList [JStr ''old-main'']), (''platform_agent_ids'', JList [JStr ''codex'']),
     (''platform_agent_capabilities'', JObj [(''codex'', JList [JStr ''learn''])])]"

definition demo_dir :: pdir where
  "demo_dir = [(''local'', \<lparr>stat_mode = Some 384, pfile_body = Some (JObj demo_raw)\<rparr>)]"

definition demo_agent :: "string \<Rightarrow> json list \<Rightarrow> string list \<Rightarrow> effective_principal" where
  "demo_agent a caps roots = \<lparr>p_agent_id = a, p_workspace_id = ''default'', p_session_id = JNull,
     p_transport = ''uds'', p_capabilities = caps, p_allowed_vault_roots = roots,
     p_auto_accept_own = False, p_deny_reason = None\<rparr>"

theorem validate_agent_id_safe_component_witness:
  "validate_agent_id ''grok-build'' = Inr ''grok-build'' \<and> CHR ''/'' \<notin> set ''grok-build''"
proof -
  have a: "validate_agent_id ''grok-build'' = Inr ''grok-build''" by code_simp
  show ?thesis using a validate_agent_id_safe_component [OF a] by blast
qed

theorem validate_agent_id_accepts_newline_witness:
  "validate_agent_id [CHR ''a'', CHR 0x0A] = Inr [CHR ''a'', CHR 0x0A]"
proof -
  have "agent_id_body ''a''" by code_simp
  from validate_agent_id_accepts_newline [OF this] show ?thesis by simp
qed

theorem stamp_reserved_claim_denied_witness:
  "stamp_effective_principal demo_host demo_dir ''uds'' False (JStr ''main'')
     = Inr ((demo_agent ''main'' [] [])\<lparr>p_deny_reason := Some ReservedAgentId\<rparr>)
   \<and> \<not> can ((demo_agent ''main'' [] [])\<lparr>p_deny_reason := Some ReservedAgentId\<rparr>) ''search''"
proof -
  have a: "stamp_effective_principal demo_host demo_dir ''uds'' False (JStr ''main'')
     = Inr ((demo_agent ''main'' [] [])\<lparr>p_deny_reason := Some ReservedAgentId\<rparr>)" by code_simp
  have b: "py_strip (py_str (JStr ''main'')) \<in> set OPERATOR_RESERVED_AGENT_IDS" by code_simp
  have c: "\<not> local_operator_asserted demo_host" by code_simp
  show ?thesis using a stamp_reserved_claim_denied [OF a _ b c, of "''search''"] by simp
qed

theorem stamp_identity_not_spoofable_witness:
  "stamp_effective_principal demo_host demo_dir ''uds'' False (JStr ''old-main'')
     = Inr (demo_agent ''main'' [JStr ''*''] [])
   \<and> (\<exists>as. collect_aliases migration_aliases demo_dir CANONICAL_PRINCIPAL_NAMES = Inr as
        \<and> ''old-main'' \<in> set as)"
proof -
  have a: "stamp_effective_principal demo_host demo_dir ''uds'' False (JStr ''old-main'')
     = Inr (demo_agent ''main'' [JStr ''*''] [])" by code_simp
  have b: "py_strip (py_str (JStr ''old-main'')) = ''old-main''" by code_simp
  have c: "\<not> local_operator_asserted demo_host" by code_simp
  show ?thesis
    using a c stamp_identity_not_spoofable [OF a, unfolded b]
    by (auto simp: demo_agent_def)
qed

theorem fresh_install_claims_get_nothing_witness:
  "stamp_effective_principal demo_host [] ''uds'' False (JStr ''codex'')
     = Inr ((demo_agent ''codex'' [] [])\<lparr>p_deny_reason := Some UnknownIdentity\<rparr>)
   \<and> p_capabilities ((demo_agent ''codex'' [] [])\<lparr>p_deny_reason := Some UnknownIdentity\<rparr>) = []"
proof -
  have a: "stamp_effective_principal demo_host [] ''uds'' False (JStr ''codex'')
     = Inr ((demo_agent ''codex'' [] [])\<lparr>p_deny_reason := Some UnknownIdentity\<rparr>)" by code_simp
  have b: "py_strip (py_str (JStr ''codex'')) \<noteq> []" by code_simp
  have c: "\<not> local_operator_asserted demo_host" by code_simp
  show ?thesis using a fresh_install_claims_get_nothing [OF a _ b c] by simp
qed

theorem strict_without_operator_file_denies_witness:
  "\<exists>p. stamp_effective_principal demo_host [(''codex'', \<lparr>stat_mode = Some 384, pfile_body = None\<rparr>)]
      ''uds'' False JNull = Inr p \<and> p_agent_id p = ''main'' \<and> p_capabilities p = []"
proof -
  let ?d = "[(''codex'', \<lparr>stat_mode = Some 384, pfile_body = None\<rparr>)] :: pdir"
  have a: "has_any_principal_files ?d" by code_simp
  have b: "\<forall>n \<in> set CANONICAL_PRINCIPAL_NAMES. map_of ?d n = None"
    by (simp add: CANONICAL_PRINCIPAL_NAMES_def)
  have c: "\<not> local_operator_asserted demo_host" by code_simp
  show ?thesis using strict_without_operator_file_denies [OF a b c] by blast
qed

theorem platform_stamp_grants_only_listed_witness:
  "platform_stamp demo_host demo_dir ''uds'' (demo_agent ''main'' [JStr ''*''] []) ''codex''
      CANONICAL_PRINCIPAL_NAMES
     = Inr (Some (demo_agent ''codex'' [JStr ''learn''] [''/~/.minni/codex-vault'']))
   \<and> p_allowed_vault_roots (demo_agent ''codex'' [JStr ''learn''] [''/~/.minni/codex-vault'']) \<noteq> []"
proof -
  have a: "platform_stamp demo_host demo_dir ''uds'' (demo_agent ''main'' [JStr ''*''] []) ''codex''
      CANONICAL_PRINCIPAL_NAMES
     = Inr (Some (demo_agent ''codex'' [JStr ''learn''] [''/~/.minni/codex-vault'']))"
    by code_simp
  show ?thesis using a platform_stamp_grants_only_listed [OF a] by blast
qed

theorem can_read_document_sound_witness:
  "can_read_document demo_host (Some (demo_agent ''codex'' [JStr ''read''] [''/v'']))
      ''default'' (JObj [(''agent'', JStr ''codex''), (''path'', JStr ''/v'')])
   \<and> doc_privacy [(''agent'', JStr ''codex''), (''path'', JStr ''/v'')] \<noteq> ''blocked''"
proof -
  have a: "can_read_document demo_host (Some (demo_agent ''codex'' [JStr ''read''] [''/v'']))
      ''default'' (JObj [(''agent'', JStr ''codex''), (''path'', JStr ''/v'')])" by code_simp
  show ?thesis using a can_read_document_sound [OF a] by blast
qed

text \<open>A private document without an owner is read by anyone with a capability or a root.\<close>

lemma unowned_private_readable:
  "can_read_document demo_host (Some (demo_agent ''codex'' [JStr ''read''] [])) ''default''
     (JObj [(''privacy_level'', JStr ''private'')])"
  by code_simp

theorem default_deny_reads_no_file_witness:
  "can_read_document demo_host (Some (demo_agent ''codex'' [] [])) ''default''
      (JObj [(''agent'', JStr ''wiki:ops''), (''page_type'', JStr ''wiki'')])
   \<and> shared_page [(''agent'', JStr ''wiki:ops''), (''page_type'', JStr ''wiki'')]"
proof -
  let ?md = "[(''agent'', JStr ''wiki:ops''), (''page_type'', JStr ''wiki'')]"
  let ?p = "demo_agent ''codex'' [] []"
  have a: "can_read_document demo_host (Some ?p) ''default'' (JObj ?md)" by code_simp
  have b: "\<not> doc_same_agent ?p ?md" by code_simp
  have c: "p_capabilities ?p = []" "p_allowed_vault_roots ?p = []" by (simp_all add: demo_agent_def)
  show ?thesis using a b default_deny_reads_no_file [OF c a] by blast
qed

theorem agent_scope_for_sound_witness:
  "agent_scope_for demo_dir ''codex'' = Inr [''codex'', ''old-main'']
   \<and> distinct [''codex'', ''old-main'']"
proof -
  have a: "agent_scope_for demo_dir ''codex'' = Inr [''codex'', ''old-main'']" by code_simp
  show ?thesis using a agent_scope_for_sound [OF a] by blast
qed

theorem seed_own_vault_guarded_witness:
  "seed_own_vault demo_host (demo_agent ''codex'' [JStr ''learn''] [])
     = Inr (Some ''~/.minni/codex-vault'')
   \<and> canonical_live_vault_root demo_host ''codex'' = Inr ''~/.minni/codex-vault''"
proof -
  have a: "seed_own_vault demo_host (demo_agent ''codex'' [JStr ''learn''] [])
     = Inr (Some ''~/.minni/codex-vault'')" by code_simp
  show ?thesis using a seed_own_vault_guarded [OF a] by (simp add: demo_agent_def)
qed

end
