(* ===== verification/Hits.thy ===== *)
theory Hits
  imports Decay Regex Principal "HOL-Library.AList"
begin

text \<open>
  \<^verbatim>\<open>src/minni/retrieval.py\<close>: the rows the search legs hand to the ranking, and which of them
  a caller may see.  SQLite and the vector index are parameters: \<open>matching\<close> is what an FTS5
  expression matches in rank order, \<open>nearest\<close> the scored chunks the index returns.
  A number column that holds NULL is None; the flags of \<open>late\<close> say that the request deadline
  has passed where the code asks.
\<close>

section \<open>Rows\<close>

text \<open>A chunk joined with its document, as the queries select it.\<close>

record doc_row =
  r_doc :: int
  r_chunk :: "int option"
  r_path :: string
  r_agent :: string
  r_sigil :: string
  r_decay :: "real option"
  r_status :: "string option"
  r_privacy :: "string option"
  r_page_type :: "string option"
  r_evidence :: "string option"
  r_indexed :: cell
  r_layer :: "string option"
  r_text :: "string option"
  r_heading :: "string option"

text \<open>A candidate: the row's fields, then what the ranking writes into the dictionary.\<close>

record hit =
  h_doc :: int
  h_chunk :: "int option"
  h_path :: string
  h_agent :: string
  h_sigil :: string
  h_decay :: real
  h_status :: string
  h_privacy :: string
  h_page_type :: "string option"
  h_evidence :: "string option"
  h_indexed :: cell
  h_created :: cell
  h_layer :: string
  h_text :: string
  h_heading :: string
  h_rrf :: "real option"
  h_fts_rank :: "nat option"
  h_sem_rank :: "nat option"
  h_final :: real
  h_salience :: real
  h_applied :: "real option"      \<comment> \<open>\<^verbatim>\<open>decay_applied\<close>\<close>
  h_rerank :: "real option"
  h_raw_rerank :: "real option"
  h_demote :: "real option"       \<comment> \<open>\<^verbatim>\<open>feedback_demote\<close>\<close>
  h_adjusted :: "real option"     \<comment> \<open>\<^verbatim>\<open>feedback_adjusted_score\<close>\<close>
  h_tokens :: "nat option"

definition or_text :: "string option \<Rightarrow> string \<Rightarrow> string" where
  "or_text v d = (case v of None \<Rightarrow> d | Some s \<Rightarrow> if s = [] then d else s)"

text \<open>\<^verbatim>\<open>row["decay_score"] or 1.0\<close>\<close>

definition or_one :: "real option \<Rightarrow> real" where
  "or_one v = (case v of None \<Rightarrow> 1 | Some x \<Rightarrow> if x = 0 then 1 else x)"

definition hit_of_row :: "doc_row \<Rightarrow> string \<Rightarrow> hit" where
  "hit_of_row r body =
     \<lparr>h_doc = r_doc r, h_chunk = r_chunk r, h_path = r_path r, h_agent = r_agent r, h_sigil = r_sigil r,
      h_decay = or_one (r_decay r), h_status = or_text (r_status r) ''candidate'',
      h_privacy = or_text (r_privacy r) ''safe'', h_page_type = r_page_type r,
      h_evidence = r_evidence r, h_indexed = r_indexed r, h_created = CNull,
      h_layer = or_text (r_layer r) ''knowledge'', h_text = body, h_heading = or_text (r_heading r) [],
      h_rrf = None, h_fts_rank = None, h_sem_rank = None, h_final = 0, h_salience = 0,
      h_applied = None, h_rerank = None, h_raw_rerank = None, h_demote = None, h_adjusted = None,
      h_tokens = None\<rparr>"

subsection \<open>Query text\<close>

text \<open>\<^verbatim>\<open>re.sub(r'[^\w\s]', ' ', query)\<close>, then the words.\<close>

definition sanitize_fts_query :: "string \<Rightarrow> string" where
  "sanitize_fts_query q =
     join_with SP (py_split (map (\<lambda>c. if is_word_char c \<or> py_space c then c else CHR '' '') q))"

definition or_query :: "string \<Rightarrow> string" where
  "or_query q = join_with '' OR '' (map py_lower (py_split q))"

text \<open>\<^verbatim>\<open>text.find(needle, start)\<close>, as the text after the needle.\<close>

fun after_first :: "string \<Rightarrow> string \<Rightarrow> string option" where
  "after_first n [] = (if n = [] then Some [] else None)"
| "after_first n (c # cs) = (if starts_with n (c # cs) then Some (drop (length n) (c # cs)) else after_first n cs)"

definition DASHES :: string where
  "DASHES = ''---''"

definition collapsed_frontmatter :: re where
  "collapsed_frontmatter = seqs [Lit DASHES, sp, Seq AnyChar (Star False AnyChar), sp, Lit DASHES, sp0]"

definition strip_leading_frontmatter :: "string \<Rightarrow> string" where
  "strip_leading_frontmatter t =
     (if \<not> starts_with DASHES t then t
      else case after_first (CHR 0x0A # DASHES) (drop 3 t) of
             Some rest \<Rightarrow> (if starts_with [CHR 0x0A] rest then drop 1 rest else rest)
           | None \<Rightarrow> (case rx False collapsed_frontmatter (None, t, []) of
                        [] \<Rightarrow> t
                      | (_, rest, _) # _ \<Rightarrow> rest))"

subsection \<open>Arguments that are None, one string, or a sequence\<close>

datatype seq_arg = SNone | SOne string | SMany "string list"

definition normalize_agent_filter :: "seq_arg \<Rightarrow> string list" where
  "normalize_agent_filter a =
     (case a of
        SNone \<Rightarrow> []
      | SOne s \<Rightarrow> filter (\<lambda>x. x \<noteq> []) [py_strip s]
      | SMany ss \<Rightarrow> rev (remdups (rev (filter (\<lambda>x. x \<noteq> []) (map py_strip ss)))))"

definition VALID_LAYERS :: "string list" where
  "VALID_LAYERS = [''identity'', ''episodic'', ''knowledge'', ''artifact'']"

text \<open>None: no filter; an empty list matches nothing.\<close>

definition normalize_layers :: "seq_arg \<Rightarrow> string list option" where
  "normalize_layers a =
     (case a of
        SNone \<Rightarrow> None
      | SOne s \<Rightarrow> Some (filter (\<lambda>l. l \<in> set VALID_LAYERS) [py_lower s])
      | SMany ss \<Rightarrow> Some (remdups (filter (\<lambda>l. l \<in> set VALID_LAYERS) (map py_lower ss))))"

section \<open>The search legs\<close>

text \<open>\<open>statuses\<close> are the lifecycle states left out in SQL; a NULL status counts as candidate.\<close>

definition sql_admits :: "string list \<Rightarrow> string list \<Rightarrow> doc_row \<Rightarrow> bool" where
  "sql_admits agents statuses r \<longleftrightarrow> (agents = [] \<or> r_agent r \<in> set agents)
     \<and> (statuses = [] \<or> (case r_status r of None \<Rightarrow> ''candidate'' | Some s \<Rightarrow> s) \<notin> set statuses)"

definition fts_rows ::
  "(string \<Rightarrow> doc_row list) \<Rightarrow> (doc_row \<Rightarrow> bool) \<Rightarrow> string \<Rightarrow> nat \<Rightarrow> doc_row list" where
  "fts_rows matching admits q n =
     (let rows = take n (filter admits (matching q))
      in if rows = [] \<and> 1 < length (py_split q) then take n (filter admits (matching (or_query q))) else rows)"

definition fts_search ::
  "(string \<Rightarrow> doc_row list) \<Rightarrow> string \<Rightarrow> seq_arg \<Rightarrow> string list \<Rightarrow> nat \<Rightarrow> hit list" where
  "fts_search matching query agent_filter statuses limit =
     (let q = sanitize_fts_query query
      in if q = [] then []
         else map (\<lambda>r. (hit_of_row r (strip_leading_frontmatter (or_text (r_text r) [])))
                          \<lparr>h_chunk := None, h_heading := []\<rparr>)
                (fts_rows matching (sql_admits (normalize_agent_filter agent_filter) statuses) q (limit * 3)))"

text \<open>The best chunk of each document; a later chunk replaces an earlier one only when it is
  strictly closer.\<close>

fun keep_best :: "(hit \<times> real) \<Rightarrow> (hit \<times> real) list \<Rightarrow> (hit \<times> real) list" where
  "keep_best x [] = [x]"
| "keep_best x (y # ys) =
     (if h_doc (fst y) = h_doc (fst x) then (if snd y < snd x then x # ys else y # ys)
      else y # keep_best x ys)"

definition best_per_doc :: "(int \<times> real) list \<Rightarrow> doc_row list \<Rightarrow> (hit \<times> real) list" where
  "best_per_doc scored rows =
     foldl (\<lambda>best r. keep_best
       (hit_of_row r (or_text (r_text r) []),
        case r_chunk r of None \<Rightarrow> 0 | Some c \<Rightarrow> (case map_of (rev scored) c of None \<Rightarrow> 0 | Some s \<Rightarrow> s)) best)
       [] rows"

text \<open>\<^verbatim>\<open>sorted(..., reverse=True)\<close> is stable.\<close>

definition sort_desc :: "('a \<Rightarrow> real) \<Rightarrow> 'a list \<Rightarrow> 'a list" where
  "sort_desc f xs = sort_key (\<lambda>x. - f x) xs"

text \<open>\<open>lookup\<close> is the query of the rows with the given chunk ids, in the database's order.\<close>

definition hits_to_dicts :: "(int list \<Rightarrow> doc_row list) \<Rightarrow> (int \<times> real) list \<Rightarrow> hit list" where
  "hits_to_dicts lookup scored =
     (if scored = [] then [] else map fst (sort_desc snd (best_per_doc scored (lookup (map fst scored)))))"

text \<open>The default vector leg with a loaded index; None is an encoder that is down.\<close>

definition semantic_search ::
  "(nat \<Rightarrow> (int \<times> real) list) option \<Rightarrow> (int list \<Rightarrow> doc_row list) \<Rightarrow> nat \<Rightarrow> hit list" where
  "semantic_search nearest lookup limit =
     (case nearest of
        None \<Rightarrow> []
      | Some near \<Rightarrow> take (limit * 3) (hits_to_dicts lookup (near (limit * 5))))"

section \<open>Which rows a caller may see\<close>

subsection \<open>Layer and date filters\<close>

text \<open>\<open>tz\<close> is the local zone's offset at a wall clock time, None where it has none.\<close>

definition naive_time :: "(real \<Rightarrow> real option) \<Rightarrow> real \<Rightarrow> real option" where
  "naive_time tz wall = map_option (\<lambda>d. wall - d) (tz wall)"

definition parse_iso_date ::
  "parsers \<Rightarrow> (real \<Rightarrow> real option) \<Rightarrow> string option \<Rightarrow> bool \<Rightarrow> real option" where
  "parse_iso_date ps tz value end_of_day =
     (case value of
        None \<Rightarrow> None
      | Some s \<Rightarrow>
          if s = [] then None
          else (case iso_of ps (if length s = 10 then s else replace_Z s) of
                  None \<Rightarrow> None
                | Some (wall, offset) \<Rightarrow>
                    if length s = 10 \<and> end_of_day
                    then naive_time tz (of_int \<lfloor>wall / 86400\<rfloor> * 86400 + 86399999999 / 1000000)
                    else (case offset of None \<Rightarrow> naive_time tz wall | Some d \<Rightarrow> Some (wall - d))))"

definition candidate_time :: "parsers \<Rightarrow> hit \<Rightarrow> real option" where
  "candidate_time ps r =
     (case parse_epoch ps (h_created r) of
        Some t \<Rightarrow> Some t
      | None \<Rightarrow> (case parse_epoch ps (h_indexed r) of
                  Some t \<Rightarrow> Some t
                | None \<Rightarrow> if h_created r = CNull \<and> h_indexed r = CNull then Some 0 else None))"

definition in_period :: "real option \<Rightarrow> real option \<Rightarrow> real option \<Rightarrow> bool" where
  "in_period start fin at_time \<longleftrightarrow>
     (case at_time of
        None \<Rightarrow> False
      | Some t \<Rightarrow> (case start of None \<Rightarrow> True | Some a \<Rightarrow> a \<le> t) \<and> (case fin of None \<Rightarrow> True | Some b \<Rightarrow> t \<le> b))"

definition in_layers :: "string list option \<Rightarrow> hit \<Rightarrow> bool" where
  "in_layers layer_set r \<longleftrightarrow>
     (case layer_set of
        None \<Rightarrow> True
      | Some ls \<Rightarrow> (if h_layer r = [] then ''knowledge'' else h_layer r) \<in> set ls)"

definition filter_candidates ::
  "parsers \<Rightarrow> string list option \<Rightarrow> real option \<Rightarrow> real option \<Rightarrow> hit list \<Rightarrow> hit list" where
  "filter_candidates ps layer_set start fin rows =
     (if layer_set = None \<and> start = None \<and> fin = None then rows
      else filter (\<lambda>r. in_layers layer_set r
             \<and> (start = None \<and> fin = None \<or> in_period start fin (candidate_time ps r))) rows)"

subsection \<open>The read gate\<close>

definition EXCLUDED_STATUSES :: "string list" where
  "EXCLUDED_STATUSES = [''complete'']"

record search_args =
  a_superseded :: bool
  a_rejected :: bool
  a_drafts :: bool
  a_expired :: bool
  a_layers :: seq_arg
  a_start :: "string option"
  a_end :: "string option"
  a_agents :: seq_arg
  a_principal :: "effective_principal option"
  a_workspace :: string

definition skip_statuses :: "search_args \<Rightarrow> string list" where
  "skip_statuses a =
     (if a_superseded a then [] else [''superseded'']) @ (if a_rejected a then [] else [''rejected''])
     @ (if a_drafts a then [] else [''draft'']) @ (if a_expired a then [] else [''expired''])
     @ EXCLUDED_STATUSES"

definition search_workspace :: "search_args \<Rightarrow> string" where
  "search_workspace a =
     (if a_workspace a \<noteq> [] then a_workspace a
      else case a_principal a of None \<Rightarrow> ''default'' | Some p \<Rightarrow> p_workspace_id p)"

text \<open>The keys of a row the gate reads.\<close>

definition hit_json :: "hit \<Rightarrow> json" where
  "hit_json r = JObj [(''doc_id'', JInt (h_doc r)), (''path'', JStr (h_path r)), (''agent'', JStr (h_agent r)),
     (''sigil'', JStr (h_sigil r)), (''page_status'', JStr (h_status r)), (''privacy_level'', JStr (h_privacy r)),
     (''page_type'', case h_page_type r of None \<Rightarrow> JNull | Some t \<Rightarrow> JStr t), (''layer'', JStr (h_layer r))]"

record search_env =
  e_host :: host
  e_parsers :: parsers
  e_zone :: "real \<Rightarrow> real option"

definition may_read :: "search_env \<Rightarrow> search_args \<Rightarrow> hit \<Rightarrow> bool" where
  "may_read e a r \<longleftrightarrow> can_read_document (e_host e) (a_principal a) (search_workspace a) (hit_json r)"

definition status_of :: "hit \<Rightarrow> string" where
  "status_of r = (if h_status r = [] then ''candidate'' else h_status r)"

definition privacy_of :: "hit \<Rightarrow> string" where
  "privacy_of r = (if h_privacy r = [] then ''safe'' else h_privacy r)"

definition lifecycle_ok :: "search_args \<Rightarrow> hit \<Rightarrow> bool" where
  "lifecycle_ok a r \<longleftrightarrow> status_of r \<notin> set (skip_statuses a) \<and> privacy_of r \<noteq> ''blocked''"

definition in_scope :: "search_env \<Rightarrow> search_args \<Rightarrow> hit list \<Rightarrow> hit list" where
  "in_scope e a rows =
     (let kept = filter_candidates (e_parsers e) (normalize_layers (a_layers a))
                   (parse_iso_date (e_parsers e) (e_zone e) (a_start a) False)
                   (parse_iso_date (e_parsers e) (e_zone e) (a_end a) True)
                   (filter (lifecycle_ok a) rows);
          scope = normalize_agent_filter (a_agents a)
      in if scope = [] then kept else filter (\<lambda>r. h_agent r \<in> set scope) kept)"

text \<open>What the gate remembers for the diagnostics: the rows it denied, and whether it admitted one.\<close>

record gate_log =
  gl_denied :: "((int \<times> string) \<times> hit) list"
  gl_saw :: bool

fun gate_rows :: "search_env \<Rightarrow> search_args \<Rightarrow> hit list \<Rightarrow> gate_log \<Rightarrow> hit list \<times> gate_log" where
  "gate_rows e a [] g = ([], g)"
| "gate_rows e a (r # rs) g =
     (if may_read e a r
      then (let (ok, g') = gate_rows e a rs (g\<lparr>gl_saw := True\<rparr>) in (r # ok, g'))
      else gate_rows e a rs (g\<lparr>gl_denied := AList.update (h_doc r, h_path r) r (gl_denied g)\<rparr>))"

definition eligible :: "search_env \<Rightarrow> search_args \<Rightarrow> hit list \<Rightarrow> gate_log \<Rightarrow> hit list \<times> gate_log" where
  "eligible e a rows g =
     (case a_principal a of
        None \<Rightarrow> (in_scope e a rows, g)
      | Some _ \<Rightarrow> gate_rows e a (in_scope e a rows) g)"

text \<open>The suppression report: how many candidates the gate removed, when it removed all.\<close>

definition apply_read_gate :: "search_env \<Rightarrow> search_args \<Rightarrow> hit list \<Rightarrow> hit list \<times> nat option" where
  "apply_read_gate e a merged =
     (let kept = filter (may_read e a) merged
      in (kept, if merged \<noteq> [] \<and> kept = [] then Some (length merged) else None))"

section \<open>Filling the candidate window\<close>

text \<open>
  A leg is asked for a window of rows; None is \<^verbatim>\<open>RequestDeadlineExceeded\<close>.  The outcome:
  the rows (None: the exception left the loop), whether coverage is incomplete, and whether
  a fetch returned.  The window is never 0, so \<open>max 1\<close> changes nothing and makes the
  recursion total.
\<close>

record collected =
  c_rows :: "hit list option"
  c_exhausted :: bool
  c_fetched :: bool
  c_log :: gate_log

function collect_from ::
  "(nat \<Rightarrow> hit list option) \<Rightarrow> (hit list \<Rightarrow> gate_log \<Rightarrow> hit list \<times> gate_log) \<Rightarrow> (nat \<Rightarrow> bool) \<Rightarrow> bool
    \<Rightarrow> nat \<Rightarrow> nat \<Rightarrow> nat \<Rightarrow> hit list \<Rightarrow> bool \<Rightarrow> gate_log \<Rightarrow> collected" where
  "collect_from fetch elig late sql wanted cap window last_rows fetched g =
     (case fetch window of
        None \<Rightarrow> \<lparr>c_rows = (if last_rows = [] then None else Some last_rows), c_exhausted = False,
                 c_fetched = fetched, c_log = g\<rparr>
      | Some raw \<Rightarrow>
          (let (rows, g') = elig raw g
           in if wanted \<le> length rows \<or> length rows = length raw \<or> sql \<and> length raw < window
              then \<lparr>c_rows = Some rows, c_exhausted = False, c_fetched = True, c_log = g'\<rparr>
              else if cap \<le> window \<or> late window
              then \<lparr>c_rows = Some rows, c_exhausted = True, c_fetched = True, c_log = g'\<rparr>
              else collect_from fetch elig late sql wanted cap (min cap (max 1 (window * 2))) rows True g'))"
  by pat_completeness auto
termination
  by (relation "measure (\<lambda>(fetch, elig, late, sql, wanted, cap, window, last_rows, fetched, g). cap - window)")
    (auto simp: min_def max_def)

declare collect_from.simps [simp del]

definition COLLECT_CEILING :: nat where
  "COLLECT_CEILING = 512"

definition collect_eligible ::
  "(nat \<Rightarrow> hit list option) \<Rightarrow> (hit list \<Rightarrow> gate_log \<Rightarrow> hit list \<times> gate_log) \<Rightarrow> (nat \<Rightarrow> bool) \<Rightarrow> bool
    \<Rightarrow> nat \<Rightarrow> gate_log \<Rightarrow> collected" where
  "collect_eligible fetch elig late sql wanted g =
     (let window = max 1 wanted
      in collect_from fetch elig late sql wanted (max window COLLECT_CEILING) window [] False g)"

section \<open>Eligibility is one predicate\<close>

definition scoped :: "search_env \<Rightarrow> search_args \<Rightarrow> hit \<Rightarrow> bool" where
  "scoped e a r \<longleftrightarrow> lifecycle_ok a r
     \<and> in_layers (normalize_layers (a_layers a)) r
     \<and> (let start = parse_iso_date (e_parsers e) (e_zone e) (a_start a) False;
            fin = parse_iso_date (e_parsers e) (e_zone e) (a_end a) True
        in start = None \<and> fin = None \<or> in_period start fin (candidate_time (e_parsers e) r))
     \<and> (normalize_agent_filter (a_agents a) = [] \<or> h_agent r \<in> set (normalize_agent_filter (a_agents a)))"

definition admits :: "search_env \<Rightarrow> search_args \<Rightarrow> hit \<Rightarrow> bool" where
  "admits e a r \<longleftrightarrow> scoped e a r \<and> (a_principal a = None \<or> may_read e a r)"

lemma filter_candidates_filter:
  "filter_candidates ps ls start fin rows
    = filter (\<lambda>r. in_layers ls r \<and> (start = None \<and> fin = None \<or> in_period start fin (candidate_time ps r))) rows"
  by (auto simp: filter_candidates_def in_layers_def filter_id_conv)

lemma in_scope_filter: "in_scope e a rows = filter (scoped e a) rows"
  unfolding in_scope_def Let_def filter_candidates_filter scoped_def
  by (auto simp: filter_filter intro!: filter_cong)

lemma gate_rows_ok:
  "gate_rows e a rows g = (ok, g') \<Longrightarrow> ok = filter (may_read e a) rows
     \<and> (gl_saw g' \<longleftrightarrow> gl_saw g \<or> ok \<noteq> [])
     \<and> fst ` set (gl_denied g') = fst ` set (gl_denied g)
          \<union> (\<lambda>r. (h_doc r, h_path r)) ` set (filter (\<lambda>r. \<not> may_read e a r) rows)"
proof (induction rows arbitrary: ok g g')
  case (Cons r rs)
  show ?case
  proof (cases "may_read e a r")
    case True
    obtain ok1 g1 where g1: "gate_rows e a rs (g\<lparr>gl_saw := True\<rparr>) = (ok1, g1)" by fastforce
    then have "ok = r # ok1" "g' = g1" using Cons.prems True by simp_all
    then show ?thesis using Cons.IH [OF g1] True by simp
  next
    case False
    then have "gate_rows e a rs (g\<lparr>gl_denied := AList.update (h_doc r, h_path r) r (gl_denied g)\<rparr>) = (ok, g')"
      using Cons.prems by simp
    from Cons.IH [OF this] show ?thesis using False by (simp add: dom_update)
  qed
qed simp

lemma eligible_filter: "fst (eligible e a rows g) = filter (admits e a) rows"
proof (cases "a_principal a")
  case None
  then have "admits e a = scoped e a" by (intro ext) (simp add: admits_def)
  then show ?thesis using None by (simp add: eligible_def in_scope_filter)
next
  case (Some p)
  obtain ok g' where g: "gate_rows e a (in_scope e a rows) g = (ok, g')" by fastforce
  have "ok = filter (may_read e a) (in_scope e a rows)" using gate_rows_ok [OF g] by simp
  moreover have "admits e a = (\<lambda>r. scoped e a r \<and> may_read e a r)"
    using Some by (intro ext) (simp add: admits_def)
  ultimately show ?thesis using Some g by (simp add: eligible_def in_scope_filter filter_filter conj_commute)
qed

lemma eligible_log:
  assumes "eligible e a rows g = (ok, g')" and "a_principal a \<noteq> None"
  shows "gl_saw g' \<longleftrightarrow> gl_saw g \<or> ok \<noteq> []"
    and "fst ` set (gl_denied g') = fst ` set (gl_denied g)
          \<union> (\<lambda>r. (h_doc r, h_path r)) ` set (filter (\<lambda>r. scoped e a r \<and> \<not> may_read e a r) rows)"
proof -
  have "gate_rows e a (in_scope e a rows) g = (ok, g')"
    using assms by (auto simp: eligible_def split: option.split_asm)
  from gate_rows_ok [OF this]
  show "gl_saw g' \<longleftrightarrow> gl_saw g \<or> ok \<noteq> []"
    and "fst ` set (gl_denied g') = fst ` set (gl_denied g)
          \<union> (\<lambda>r. (h_doc r, h_path r)) ` set (filter (\<lambda>r. scoped e a r \<and> \<not> may_read e a r) rows)"
    by (simp_all add: in_scope_filter filter_filter conj_commute)
qed

section \<open>What the window loop finds\<close>

lemma collect_unfold:
  "collect_from fetch elig late sql wanted cap window last_rows fetched g =
     (case fetch window of
        None \<Rightarrow> \<lparr>c_rows = (if last_rows = [] then None else Some last_rows), c_exhausted = False,
                 c_fetched = fetched, c_log = g\<rparr>
      | Some raw \<Rightarrow>
          (if wanted \<le> length (fst (elig raw g)) \<or> length (fst (elig raw g)) = length raw \<or> sql \<and> length raw < window
           then \<lparr>c_rows = Some (fst (elig raw g)), c_exhausted = False, c_fetched = True, c_log = snd (elig raw g)\<rparr>
           else if cap \<le> window \<or> late window
           then \<lparr>c_rows = Some (fst (elig raw g)), c_exhausted = True, c_fetched = True, c_log = snd (elig raw g)\<rparr>
           else collect_from fetch elig late sql wanted cap (min cap (max 1 (window * 2)))
                  (fst (elig raw g)) True (snd (elig raw g))))"
  by (subst collect_from.simps) (simp add: case_prod_beta Let_def cong: option.case_cong)

text \<open>One induction over the windows, with what a fetch that returns and one that raises give.\<close>

lemma collect_induct:
  assumes step: "\<And>w raw g. fetch w = Some raw \<Longrightarrow> 0 < w \<Longrightarrow> wanted \<le> w \<Longrightarrow> w \<le> cap \<Longrightarrow>
      P w (fst (elig raw g))
        (wanted \<le> length (fst (elig raw g)) \<or> length (fst (elig raw g)) = length raw \<or> sql \<and> length raw < w)"
    and "0 < window" "wanted \<le> window" "window \<le> cap"
    and last: "last_rows \<noteq> [] \<Longrightarrow> \<exists>w. P w last_rows False"
    and r: "collect_from fetch elig late sql wanted cap window last_rows fetched g = c" "c_rows c = Some rows"
  shows "\<exists>w. P w rows False \<and> (c_exhausted c \<or> (\<exists>w. fetch w = None)) \<or> P w rows True \<and> \<not> c_exhausted c"
  using assms(2-)
proof (induction "cap - window" arbitrary: window last_rows fetched g rule: less_induct)
  case less
  show ?case
  proof (cases "fetch window")
    case None
    have "c = \<lparr>c_rows = (if last_rows = [] then None else Some last_rows), c_exhausted = False,
                 c_fetched = fetched, c_log = g\<rparr>"
      using less.prems(5) None by (simp only: collect_unfold [of fetch elig late sql wanted cap window] option.case)
    then have "last_rows \<noteq> [] \<and> rows = last_rows" using less.prems(6) by (auto split: if_split_asm)
    then show ?thesis using less.prems(4) None by blast
  next
    case (Some raw)
    define rows' where "rows' = fst (elig raw g)"
    define g' where "g' = snd (elig raw g)"
    define stop where "stop \<longleftrightarrow> wanted \<le> length rows' \<or> length rows' = length raw \<or> sql \<and> length raw < window"
    let ?w = "min cap (max 1 (window * 2))"
    have p: "P window rows' stop"
      using step [OF Some less.prems(1-3), of g] by (simp only: rows'_def stop_def)
    have u: "c = (if stop then \<lparr>c_rows = Some rows', c_exhausted = False, c_fetched = True, c_log = g'\<rparr>
           else if cap \<le> window \<or> late window
           then \<lparr>c_rows = Some rows', c_exhausted = True, c_fetched = True, c_log = g'\<rparr>
           else collect_from fetch elig late sql wanted cap ?w rows' True g')"
      by (subst less.prems(5) [symmetric], subst collect_unfold)
        (simp only: Some option.case rows'_def g'_def stop_def)
    show ?thesis
    proof (cases "stop \<or> cap \<le> window \<or> late window")
      case True
      then have "rows = rows'" "c_exhausted c \<longleftrightarrow> \<not> stop" using u less.prems(6) by (auto split: if_split_asm)
      then show ?thesis using p by (cases stop) auto
    next
      case False
      then have "collect_from fetch elig late sql wanted cap ?w rows' True g' = c" using u by simp
      moreover have "cap - ?w < cap - window" "0 < ?w" "wanted \<le> ?w" "?w \<le> cap"
        using False less.prems(1,2) by (auto simp: min_def max_def)
      moreover have "\<exists>w. P w rows' False" using p False by auto
      ultimately show ?thesis by (intro less.hyps [OF _ _ _ _ _ _ less.prems(6)])
    qed
  qed
qed

text \<open>A leg that returns ever longer prefixes of one ranking.\<close>

locale window_source =
  fixes leg :: "nat \<Rightarrow> hit list" and ranking :: "hit list" and factor :: nat
  assumes leg: "0 < w \<Longrightarrow> leg w = take (factor * w) ranking"
    and factor: "0 < factor"
begin

lemma window_full:
  assumes "0 < w" "wanted \<le> w" and "length (filter P (leg w)) = length (leg w) \<or> length (leg w) < w"
  shows "wanted \<le> length (filter P (leg w)) \<or> filter P (leg w) = filter P ranking"
proof (cases "length ranking \<le> factor * w")
  case True
  then show ?thesis using leg [OF assms(1)] by simp
next
  case False
  then have "length (leg w) = factor * w" using leg [OF assms(1)] by simp
  moreover have "w \<le> factor * w" using factor by simp
  ultimately show ?thesis using assms by linarith
qed

lemma prefix_filter_take: "prefix (filter P (take n xs)) (filter P xs)"
  by (metis append_take_drop_id filter_append prefixI)

lemma collect_exact:
  assumes r: "collect_eligible (\<lambda>w. Some (leg w)) (eligible e a) late sql wanted g = c" "c_rows c = Some rows"
  shows "prefix rows (filter (admits e a) ranking)
    \<and> (c_exhausted c \<or> wanted \<le> length rows \<or> rows = filter (admits e a) ranking)"
proof -
  let ?P = "\<lambda>(w :: nat) rows stop. prefix rows (filter (admits e a) ranking)
    \<and> (stop \<longrightarrow> wanted \<le> length rows \<or> rows = filter (admits e a) ranking)"
  have step: "?P w (fst (eligible e a raw g))
        (wanted \<le> length (fst (eligible e a raw g)) \<or> length (fst (eligible e a raw g)) = length raw \<or> sql \<and> length raw < w)"
    if "Some (leg w) = Some raw" "0 < w" "wanted \<le> w" for w raw g
  proof -
    have raw: "raw = leg w" using that by simp
    have "wanted \<le> length (filter (admits e a) (leg w)) \<or> filter (admits e a) (leg w) = filter (admits e a) ranking"
      if "length (filter (admits e a) (leg w)) = length (leg w) \<or> length (leg w) < w"
      using window_full [OF \<open>0 < w\<close> \<open>wanted \<le> w\<close> that] .
    then show ?thesis
      unfolding eligible_filter raw using prefix_filter_take [of "admits e a" "factor * w" ranking] leg [OF that(2)]
      by auto
  qed
  have "\<exists>w. ?P w rows False \<and> (c_exhausted c \<or> (\<exists>w. Some (leg w) = None)) \<or> ?P w rows True \<and> \<not> c_exhausted c"
    by (rule collect_induct [where P = ?P and fetch = "\<lambda>w. Some (leg w)" and elig = "eligible e a" and wanted = wanted and sql = sql,
          OF _ _ _ _ _ r(1) [unfolded collect_eligible_def Let_def] r(2)], erule step)
      (simp_all add: COLLECT_CEILING_def)
  then show ?thesis by auto
qed

end

subsection \<open>The lexical leg\<close>

text \<open>All the rows the lexical leg can return, in rank order.\<close>

definition fts_ranking ::
  "(string \<Rightarrow> doc_row list) \<Rightarrow> string \<Rightarrow> seq_arg \<Rightarrow> string list \<Rightarrow> hit list" where
  "fts_ranking matching query agent_filter statuses =
     (let q = sanitize_fts_query query; adm = sql_admits (normalize_agent_filter agent_filter) statuses;
          strict = filter adm (matching q)
      in if q = [] then []
         else map (\<lambda>r. (hit_of_row r (strip_leading_frontmatter (or_text (r_text r) [])))
                          \<lparr>h_chunk := None, h_heading := []\<rparr>)
                (if strict = [] \<and> 1 < length (py_split q) then filter adm (matching (or_query q)) else strict))"

lemma fts_search_window:
  "0 < w \<Longrightarrow> fts_search matching query agent_filter statuses w
    = take (3 * w) (fts_ranking matching query agent_filter statuses)"
  by (auto simp: fts_search_def fts_ranking_def fts_rows_def Let_def take_map mult.commute)

interpretation fts: window_source "fts_search matching query agent_filter statuses"
    "fts_ranking matching query agent_filter statuses" 3 for matching query agent_filter statuses
  by unfold_locales (simp_all add: fts_search_window)

theorem lexical_leg_exact:
  assumes "collect_eligible (\<lambda>w. Some (fts_search matching query agents statuses w)) (eligible e a) late True wanted g = c"
    and "c_rows c = Some rows"
  shows "prefix rows (filter (admits e a) (fts_ranking matching query agents statuses))
    \<and> (c_exhausted c \<or> wanted \<le> length rows
       \<or> rows = filter (admits e a) (fts_ranking matching query agents statuses))"
  by (rule fts.collect_exact [OF assms])

subsection \<open>A concrete search\<close>

definition demo_row :: "int \<Rightarrow> string \<Rightarrow> doc_row" where
  "demo_row n status = \<lparr>r_doc = n, r_chunk = None, r_path = ''/v/a.md'', r_agent = ''codex'', r_sigil = [],
     r_decay = None, r_status = Some status, r_privacy = None, r_page_type = None, r_evidence = None,
     r_indexed = CNull, r_layer = None, r_text = Some ''body'', r_heading = None\<rparr>"

definition demo_search :: search_args where
  "demo_search = \<lparr>a_superseded = False, a_rejected = False, a_drafts = False, a_expired = False,
     a_layers = SNone, a_start = None, a_end = None, a_agents = SNone, a_principal = None, a_workspace = []\<rparr>"

definition demo_matching :: "string \<Rightarrow> doc_row list" where
  "demo_matching q = [demo_row 1 ''draft'', demo_row 2 ''accepted'']"

lemma demo_query: "sanitize_fts_query ''plan'' = ''plan''"
  by code_simp

lemma demo_ranking: "fts_ranking demo_matching ''plan'' SNone []
  = map (\<lambda>r. (hit_of_row r ''body'')\<lparr>h_chunk := None, h_heading := []\<rparr>) [demo_row 1 ''draft'', demo_row 2 ''accepted'']"
  by (simp add: fts_ranking_def demo_query demo_matching_def sql_admits_def normalize_agent_filter_def Let_def
      demo_row_def or_text_def strip_leading_frontmatter_def starts_with_def DASHES_def)

lemma demo_admits:
  "admits e demo_search ((hit_of_row (demo_row n s) t)\<lparr>h_chunk := None, h_heading := []\<rparr>)
    \<longleftrightarrow> s \<notin> {''superseded'', ''rejected'', ''draft'', ''expired'', ''complete''}"
  by (auto simp: admits_def scoped_def demo_search_def lifecycle_ok_def status_of_def privacy_of_def
      hit_of_row_def demo_row_def or_text_def skip_statuses_def EXCLUDED_STATUSES_def normalize_layers_def
      in_layers_def parse_iso_date_def normalize_agent_filter_def Let_def)

theorem lexical_leg_exact_witness:
  "\<forall>e g. \<exists>c r. collect_eligible (\<lambda>w. Some (fts_search demo_matching ''plan'' SNone [] w))
        (eligible e demo_search) (\<lambda>_. False) True 1 g = c
    \<and> c_rows c = Some [r] \<and> h_doc r = 2
    \<and> prefix [r] (filter (admits e demo_search) (fts_ranking demo_matching ''plan'' SNone []))"
proof (intro allI)
  fix e g
  let ?c = "collect_eligible (\<lambda>w. Some (fts_search demo_matching ''plan'' SNone [] w))
        (eligible e demo_search) (\<lambda>_. False) True 1 g"
  have f: "filter (admits e demo_search) (fts_search demo_matching ''plan'' SNone [] (Suc 0))
      = [(hit_of_row (demo_row 2 ''accepted'') ''body'')\<lparr>h_chunk := None, h_heading := []\<rparr>]" (is "_ = [?r]")
    by (simp add: fts_search_window demo_ranking demo_admits)
  have c: "c_rows ?c = Some [?r]"
    unfolding collect_eligible_def Let_def
    by (subst collect_unfold) (simp add: eligible_filter f COLLECT_CEILING_def)
  show "\<exists>c r. ?c = c
    \<and> c_rows c = Some [r] \<and> h_doc r = 2
    \<and> prefix [r] (filter (admits e demo_search) (fts_ranking demo_matching ''plan'' SNone []))"
    using lexical_leg_exact [OF refl c] c by (auto simp: hit_of_row_def demo_row_def)
qed

end
