(* ===== verification/Obs.thy ===== *)
theory Obs
  imports Prelude
begin

text \<open>
  \<^verbatim>\<open>src/minni/obs.py\<close>: the process-local counters, their change since the last look, the
  health flags derived from it, and the bounded ring of recent dispatch failures.  A counter
  table is a map from names; the lock makes each operation one step.
\<close>

subsection \<open>Counters\<close>

record counters =
  counts :: "string \<Rightarrow> int option"
  previous :: "string \<Rightarrow> int option"
  last_incr_at :: "string \<Rightarrow> real option"

definition no_counters :: counters where
  "no_counters = \<lparr>counts = \<lambda>_. None, previous = \<lambda>_. None, last_incr_at = \<lambda>_. None\<rparr>"

definition or_zero :: "int option \<Rightarrow> int" where [simp]:
  "or_zero v = (case v of None \<Rightarrow> 0 | Some n \<Rightarrow> n)"

definition incr_counter :: "string \<Rightarrow> int \<Rightarrow> real \<Rightarrow> counters \<Rightarrow> counters" where
  "incr_counter name amount t c =
     c\<lparr>counts := (counts c)(name \<mapsto> or_zero (counts c name) + amount),
       last_incr_at := (last_incr_at c)(name \<mapsto> t)\<rparr>"

definition counter_value :: "counters \<Rightarrow> string \<Rightarrow> int" where
  "counter_value c name = or_zero (counts c name)"

record reading =
  total :: int
  delta :: int

definition delta_snapshot :: "bool \<Rightarrow> counters \<Rightarrow> (string \<Rightarrow> reading option) \<times> counters" where
  "delta_snapshot consume c =
     ((\<lambda>name. map_option (\<lambda>n. \<lparr>total = n, delta = n - or_zero (previous c name)\<rparr>) (counts c name)),
      if consume then c\<lparr>previous := counts c\<rparr> else c)"

definition reset_counters :: "counters \<Rightarrow> counters" where
  "reset_counters c = no_counters"

definition HEALTH_FLAG_THRESHOLDS :: "(string \<times> int \<times> string) list" where
  "HEALTH_FLAG_THRESHOLDS =
     [(''errors'', 10, ''errors_rising''), (''errors.search'', 3, ''errors_search_rising'')]"

definition health_flags :: "(string \<Rightarrow> reading option) \<Rightarrow> string list" where
  "health_flags deltas =
     [flag. (name, threshold, flag) \<leftarrow> HEALTH_FLAG_THRESHOLDS,
            case deltas name of None \<Rightarrow> False | Some r \<Rightarrow> threshold \<le> delta r]"

subsection \<open>The error ring\<close>

record error_entry =
  ee_method :: string
  ee_class :: string
  ee_message :: string
  ee_ts :: string

definition MESSAGE_MAX :: nat where
  "MESSAGE_MAX = 500"

definition RING_MAXLEN :: nat where
  "RING_MAXLEN = 20"

text \<open>Appending to a \<^verbatim>\<open>deque(maxlen=n)\<close> drops from the left.\<close>

definition deque_append :: "nat \<Rightarrow> 'a \<Rightarrow> 'a list \<Rightarrow> 'a list" where
  "deque_append n x xs = (let ys = xs @ [x] in drop (length ys - n) ys)"

definition record_error ::
  "string \<Rightarrow> string \<Rightarrow> string \<Rightarrow> string \<Rightarrow> error_entry list \<Rightarrow> error_entry list" where
  "record_error method exc_class exc_text ts ring =
     deque_append RING_MAXLEN
       \<lparr>ee_method = method, ee_class = exc_class, ee_message = take MESSAGE_MAX exc_text, ee_ts = ts\<rparr> ring"

lemma deque_append_length: "length xs \<le> n \<Longrightarrow> 0 < n \<Longrightarrow> length (deque_append n x xs) \<le> n"
  by (simp add: deque_append_def)

lemma deque_append_take:
  fixes xs :: "'a list"
  shows "rev (deque_append n x xs) = take n (x # rev xs)"
proof -
  have "rev (drop (length ys - n) ys) = take n (rev ys)" for ys :: "'a list"
    by (cases "n \<le> length ys") (simp_all add: rev_drop)
  from this [of "xs @ [x]"] show ?thesis by (simp add: deque_append_def)
qed

lemma take_rev_deque:
  "rev (foldl (\<lambda>r x. deque_append n x r) r0 xs) = take n (rev (r0 @ xs))" if "length r0 \<le> n"
  using that
proof (induction xs rule: rev_induct)
  case Nil
  then show ?case by simp
next
  case (snoc x xs)
  then show ?case by (simp add: deque_append_take take_Cons' min_def)
qed

subsection \<open>What the readings account for\<close>

text \<open>The operations of the daemon on its counters, in the order they take the lock.\<close>

datatype counter_op = Incr string int real | Look | Peek

fun counter_step :: "counters \<Rightarrow> counter_op \<Rightarrow> counters" where
  "counter_step c (Incr n a t) = incr_counter n a t c"
| "counter_step c Look = snd (delta_snapshot True c)"
| "counter_step c Peek = snd (delta_snapshot False c)"

fun delta_of :: "reading option \<Rightarrow> int" where
  "delta_of None = 0"
| "delta_of (Some r) = delta r"

text \<open>The deltas a poller has been shown for one counter.\<close>

fun deltas_shown :: "string \<Rightarrow> counters \<Rightarrow> counter_op list \<Rightarrow> int" where
  "deltas_shown n c [] = 0"
| "deltas_shown n c (op # ops) =
     (if op = Look then delta_of (fst (delta_snapshot True c) n) else 0)
     + deltas_shown n (counter_step c op) ops"

fun increments :: "string \<Rightarrow> counter_op list \<Rightarrow> int" where
  "increments n [] = 0"
| "increments n (Incr m a t # ops) = (if m = n then a else 0) + increments n ops"
| "increments n (_ # ops) = increments n ops"

definition known_before :: "counters \<Rightarrow> bool" where
  "known_before c \<longleftrightarrow> (\<forall>n. counts c n = None \<longrightarrow> previous c n = None)"

lemma known_before_step: "known_before c \<Longrightarrow> known_before (counter_step c op)"
  by (cases op) (auto simp: known_before_def incr_counter_def delta_snapshot_def)

lemma deltas_account_gen:
  "known_before c \<Longrightarrow>
   deltas_shown n c ops + delta_of (fst (delta_snapshot False (foldl counter_step c ops)) n)
     = increments n ops + delta_of (fst (delta_snapshot False c) n)"
proof (induction ops arbitrary: c)
  case Nil
  then show ?case by simp
next
  case (Cons op ops)
  note IH = Cons.IH [OF known_before_step [OF Cons.prems]]
  show ?case
    by (cases op)
      (use IH [of op] Cons.prems in \<open>auto simp: delta_snapshot_def incr_counter_def known_before_def
         split: option.splits\<close>)
qed

lemma counter_value_gen:
  "counter_value (foldl counter_step c ops) n = counter_value c n + increments n ops"
  by (induction ops arbitrary: c rule: increments.induct)
    (auto simp: counter_value_def incr_counter_def delta_snapshot_def)

theorem readings_account_for_every_increment:
  "deltas_shown n no_counters ops + delta_of (fst (delta_snapshot False (foldl counter_step no_counters ops)) n)
     = counter_value (foldl counter_step no_counters ops) n"
  using deltas_account_gen [of no_counters n ops] counter_value_gen [of no_counters ops n]
  by (simp add: known_before_def no_counters_def delta_snapshot_def counter_value_def)

theorem error_ring_keeps_latest:
  "rev (foldl (\<lambda>r (m, k, x, t). record_error m k x t r) [] errs)
     = take 20 (map (\<lambda>(m, k, x, t). \<lparr>ee_method = m, ee_class = k, ee_message = take 500 x, ee_ts = t\<rparr>) (rev errs))"
proof -
  let ?f = "\<lambda>(m, k, x, t). \<lparr>ee_method = m, ee_class = k, ee_message = take 500 x, ee_ts = t\<rparr>"
  have "foldl (\<lambda>r (m, k, x, t). record_error m k x t r) [] errs
      = foldl (\<lambda>r x. deque_append 20 x r) [] (map ?f errs)"
    by (induction errs rule: rev_induct)
      (auto simp: record_error_def RING_MAXLEN_def MESSAGE_MAX_def split_beta)
  then show ?thesis
    using take_rev_deque [of "[] :: error_entry list" 20 "map ?f errs"] by (simp add: rev_map)
qed

end
