(* ===== verification/Dispatch.thy ===== *)
theory Dispatch
  imports Principal Obs "HOL-Library.AList"
begin

text \<open>
  The daemon gate: \<^verbatim>\<open>minnid_runtime/rpc.py\<close>, \<^verbatim>\<open>minnid_runtime/provenance.py\<close>,
  \<^verbatim>\<open>minnid_runtime/dispatch.py\<close>, the method registry of \<^verbatim>\<open>minnid.py\<close> and
  \<^verbatim>\<open>resolve_effective_principal\<close>.  A request is a decoded JSON object.  The handlers are an
  argument: a handler takes the parameters and the request id and threads the state of the
  daemon.  The texts of exceptions and the clock are fields of the gate.
\<close>

subsection \<open>Responses\<close>

definition make_response :: "json \<Rightarrow> json \<Rightarrow> json" where
  "make_response result request_id =
     JObj [(''jsonrpc'', JStr ''2.0''), (''id'', request_id), (''result'', result)]"

definition make_error :: "int \<Rightarrow> string \<Rightarrow> json \<Rightarrow> json \<Rightarrow> json" where
  "make_error code message request_id data =
     JObj [(''jsonrpc'', JStr ''2.0''), (''id'', request_id),
       (''error'', JObj ([(''code'', JInt code), (''message'', JStr message)]
          @ (if data = JNull then [] else [(''data'', data)])))]"

text \<open>The code of an error response.\<close>

fun error_code :: "json \<Rightarrow> int option" where
  "error_code (JObj r) =
     (case jget r ''error'' of
        JObj e \<Rightarrow> (case jget e ''code'' of JInt n \<Rightarrow> Some n | _ \<Rightarrow> None)
      | _ \<Rightarrow> None)"
| "error_code _ = None"

subsection \<open>The registry and its capabilities\<close>

definition METHODS :: "string list" where
  "METHODS =
    [''ping'', ''gate.shared'', ''search'', ''feedback'', ''trace'', ''expand'', ''sm_drill'',
     ''sm_export_pack'', ''read'', ''list_events'', ''learn'', ''resolve_contradiction'',
     ''minni_subscribe_contradictions'', ''log_event'', ''daemon.handoff'', ''handoff'',
     ''minni_ack_handoff'', ''minni_list_pending_handoffs'', ''minni_await_handoff'',
     ''daemon.compile'', ''daemon.endorse'', ''stage_candidate'', ''list_candidates'',
     ''resolve_candidate'', ''ax_snapshot_store'', ''ax_snapshot_get'', ''vault_index_doc'',
     ''status'', ''health_report'', ''hygiene_report'', ''cache_reload'']"

definition RECOVERY_ALLOWED_METHODS :: "string list" where
  "RECOVERY_ALLOWED_METHODS = [''ping'', ''status'', ''health_report'', ''hygiene_report'']"

definition RPC_CAPABILITY_REQUIREMENTS :: "(string \<times> string) list" where
  "RPC_CAPABILITY_REQUIREMENTS =
    [(''search'', ''search''), (''feedback'', ''feedback''), (''trace'', ''read''),
     (''expand'', ''read''), (''sm_drill'', ''read''), (''sm_export_pack'', ''export''),
     (''read'', ''read''), (''list_events'', ''read''), (''learn'', ''learn''),
     (''resolve_contradiction'', ''learn''), (''minni_subscribe_contradictions'', ''read''),
     (''log_event'', ''log_event''), (''daemon.handoff'', ''handoff''), (''handoff'', ''handoff''),
     (''minni_ack_handoff'', ''handoff''), (''minni_list_pending_handoffs'', ''handoff''),
     (''minni_await_handoff'', ''handoff''), (''stage_candidate'', ''learn''),
     (''list_candidates'', ''learn''), (''ax_snapshot_store'', ''learn''),
     (''ax_snapshot_get'', ''read''), (''vault_index_doc'', ''learn''),
     (''daemon.compile'', ''read''), (''daemon.endorse'', ''govern''), (''cache_reload'', ''govern'')]"

subsection \<open>Recovery\<close>

definition recovery_next :: string where
  "recovery_next = ''Call status/health_report, then stamp the runtime with MINNI_AGENT_ID and a principals/<agent>.json entry.''"

definition recovery_remediation :: "string list" where
  "recovery_remediation =
    [''Stamp this runtime surface with MINNI_AGENT_ID.'',
     ''Author the matching operator-owned principals/<agent>.json file (engine/.venv/bin/python engine/tools/author_principals.py --apply for the shipped agents, or hand-author it) and chmod it 0600.'',
     ''Send SIGHUP to minnid or restart it so identity caches reload.'',
     ''Use one of the pre-identity diagnostic methods: '' @ join_with '', '' RECOVERY_ALLOWED_METHODS @ ''.'']"

definition recover_method :: "json \<Rightarrow> string" where
  "recover_method m = py_str (py_or m (JStr ''unknown''))"

definition recover_machine :: "string \<Rightarrow> json \<Rightarrow> json \<Rightarrow> json" where
  "recover_machine reason m supplied =
     JObj [(''ok'', JBool False), (''status'', JStr ''recovery_required''), (''reason'', JStr reason),
       (''identity'', JNull),
       (''caller'', JObj [(''method'', JStr (recover_method m)), (''supplied_agent_id'', supplied)]),
       (''route'', JObj [(''zone'', JStr ''pre_identity''), (''surface'', JStr ''diagnostic''),
          (''allowed_methods'', JList (map JStr RECOVERY_ALLOWED_METHODS)),
          (''next'', JStr recovery_next)]),
       (''remediation'', JList (map JStr recovery_remediation))]"

definition recover_human :: "string \<Rightarrow> json \<Rightarrow> json \<Rightarrow> string" where
  "recover_human reason m supplied =
     ''Minni provenance recovery required for method '' @ repr_str (recover_method m)
     @ (if supplied = JNull then [] else '' supplied='' @ py_repr supplied)
     @ '': '' @ reason @ ''. Stamp this runtime with MINNI_AGENT_ID and a matching principals/<agent>.json file; diagnostics available via ''
     @ join_with '', '' RECOVERY_ALLOWED_METHODS @ ''.''"

subsection \<open>Capability enforcement\<close>

definition make_reserved_agent_id_error :: "string \<Rightarrow> string \<Rightarrow> json \<Rightarrow> json" where
  "make_reserved_agent_id_error agent_id meth request_id =
     make_error (-32004)
       (''reserved_agent_id: reserved agent_id '' @ repr_str agent_id @ '' requires operator context for ''
        @ repr_str meth @ '' '' @ [char_of (226 :: nat), char_of (128 :: nat), char_of (148 :: nat)]
        @ '' omit agent_id for the zero-config operator path, or set MINNI_LOCAL_OPERATOR in the daemon environment (operator-controlled, never wire-supplied)'')
       request_id JNull"

definition make_capability_denied_error :: "string \<Rightarrow> string \<Rightarrow> json \<Rightarrow> string \<Rightarrow> json" where
  "make_capability_denied_error capability meth request_id principal_id =
     make_error (-32004)
       (''capability_denied: '' @ repr_str capability @ '' required for '' @ repr_str meth
        @ (if principal_id = [] then [] else '' (principal='' @ repr_str principal_id @ '')''))
       request_id JNull"

definition make_mismatch_error :: "string \<Rightarrow> string \<Rightarrow> json \<Rightarrow> json" where
  "make_mismatch_error supplied stamped request_id =
     make_error (-32000)
       (''identity_mismatch: supplied agent_id '' @ [CHR 0x27] @ supplied @ [CHR 0x27]
        @ '' does not match server-stamped EffectivePrincipal '' @ [CHR 0x27] @ stamped @ [CHR 0x27])
       request_id JNull"

definition enforce_method_capability :: "string \<Rightarrow> effective_principal option \<Rightarrow> json \<Rightarrow> json option" where
  "enforce_method_capability meth who request_id =
     (case who of
        None \<Rightarrow> None
      | Some p \<Rightarrow>
          (case map_of RPC_CAPABILITY_REQUIREMENTS meth of
             None \<Rightarrow> None
           | Some required \<Rightarrow>
               if can p required then None
               else Some (case p_deny_reason p of
                   Some UnknownIdentity \<Rightarrow>
                     make_error (-32004)
                       (recover_human ''unknown_identity'' (JStr meth) (JStr (p_agent_id p))) request_id
                       (recover_machine ''unknown_identity'' (JStr meth) (JStr (p_agent_id p)))
                 | Some ReservedAgentId \<Rightarrow> make_reserved_agent_id_error (p_agent_id p) meth request_id
                 | None \<Rightarrow> make_capability_denied_error required meth request_id (p_agent_id p))))"

subsection \<open>Resolving the caller\<close>

text \<open>
  \<^verbatim>\<open>resolve_effective_principal\<close>: the stamp, then the caller's own vault is seeded;
  \<open>ensure\<close> is what \<^verbatim>\<open>ensure_agent_vault\<close> raises on that directory, if anything.
\<close>

definition resolve_effective_principal ::
  "host \<Rightarrow> (string \<Rightarrow> pyerr option) \<Rightarrow> pdir \<Rightarrow> string \<Rightarrow> bool \<Rightarrow> json \<Rightarrow> pyerr + effective_principal" where
  "resolve_effective_principal h ensure d transport operator_context supplied_agent_id =
     bind_result (stamp_effective_principal h d transport operator_context supplied_agent_id) (\<lambda>p.
     bind_result (seed_own_vault h p) (\<lambda>live.
       case live of
         None \<Rightarrow> Inr p
       | Some dir \<Rightarrow> (case ensure dir of None \<Rightarrow> Inr p | Some e \<Rightarrow> Inl e)))"

record gate =
  g_resolve :: "json \<Rightarrow> pyerr + effective_principal"
  g_exc_text :: "pyerr \<Rightarrow> string"
  g_monotonic :: json

record resolution =
  r_principal :: "effective_principal option"
  r_recovery :: "json option"

definition none_or_str :: "string option \<Rightarrow> json" where
  "none_or_str s = (case s of None \<Rightarrow> JNull | Some t \<Rightarrow> JStr t)"

definition provenance_claim :: "string \<Rightarrow> jobj \<Rightarrow> string option" where
  "provenance_claim meth params =
     (let claim = (if meth = ''daemon.handoff'' \<or> meth = ''handoff'' then jget params ''from_agent''
                   else if jget params ''agent_id'' = JNull \<and> meth = ''vault_index_doc''
                   then jget params ''agent''
                   else jget params ''agent_id'')
      in if claim = JNull then None
         else let s = py_strip (py_str claim) in if s = [] then None else Some s)"

definition request_params :: "jobj \<Rightarrow> json" where
  "request_params request = py_or (jget_or (JObj []) request ''params'') (JObj [])"

definition resolve_provenance :: "gate \<Rightarrow> jobj \<Rightarrow> resolution" where
  "resolve_provenance g request =
     (let meth = py_str (jget_or (JStr []) request ''method'')
      in case request_params request of
           JObj params \<Rightarrow>
             (let supplied = provenance_claim meth params
              in case g_resolve g (none_or_str supplied) of
                   Inr p \<Rightarrow> \<lparr>r_principal = Some p, r_recovery = None\<rparr>
                 | Inl (IdentityMismatch s t) \<Rightarrow>
                     \<lparr>r_principal = None,
                      r_recovery = Some (recover_machine ''identity_mismatch'' (JStr meth) (JStr s))\<rparr>
                 | Inl e \<Rightarrow>
                     \<lparr>r_principal = None,
                      r_recovery = Some (recover_machine (''provenance_error: '' @ g_exc_text g e)
                        (JStr meth) (none_or_str supplied))\<rparr>)
         | _ \<Rightarrow> \<lparr>r_principal = None,
                 r_recovery = Some (recover_machine ''invalid_params'' (JStr meth) JNull)\<rparr>)"

subsection \<open>What a handler receives\<close>

text \<open>
  The parameters after the gate: the wire object with \<^verbatim>\<open>_recovery\<close> and
  \<^verbatim>\<open>_accepted_monotonic\<close> overwritten, and the principal object under
  \<^verbatim>\<open>_principal\<close>, which \<^verbatim>\<open>setdefault\<close> leaves out when the wire object has that key.
\<close>

record call_params =
  cp_wire :: jobj
  cp_principal :: "effective_principal option"

definition gate_params :: "gate \<Rightarrow> resolution \<Rightarrow> jobj \<Rightarrow> call_params" where
  "gate_params g r params =
     \<lparr>cp_wire = AList.update ''_accepted_monotonic'' (g_monotonic g)
                  (AList.update ''_recovery'' (JBool (r_recovery r \<noteq> None)) params),
      cp_principal = (if has_key params ''_principal'' then None else r_principal r)\<rparr>"

text \<open>The result: an exception, an error response, or the principal.\<close>

definition handler_principal ::
  "gate \<Rightarrow> call_params \<Rightarrow> json \<Rightarrow> string \<Rightarrow> pyerr + (json + effective_principal)" where
  "handler_principal g params request_id claim_key =
     (case cp_principal params of
        Some p \<Rightarrow> Inr (Inr p)
      | None \<Rightarrow>
          (case g_resolve g (jget (cp_wire params) claim_key) of
             Inr p \<Rightarrow> Inr (Inr p)
           | Inl (IdentityMismatch s t) \<Rightarrow> Inr (Inl (make_mismatch_error s t request_id))
           | Inl e \<Rightarrow> Inl e))"

definition guard_vault_root ::
  "host \<Rightarrow> gate \<Rightarrow> call_params \<Rightarrow> string \<Rightarrow> json \<Rightarrow> string \<Rightarrow> pyerr + json option" where
  "guard_vault_root h g params vault_path request_id label =
     (case handler_principal g params request_id ''agent_id'' of
        Inl e \<Rightarrow> Inl e
      | Inr (Inl err) \<Rightarrow> Inr (Some err)
      | Inr (Inr p) \<Rightarrow>
          if \<not> allows_vault_root h p vault_path
          then Inr (Some (make_error (-32003)
                 (''vault_root_denied: '' @ label @ '' path outside principal.allowed_vault_roots (realpath + relative check; traversal/symlink escape rejected)'')
                 request_id JNull))
          else Inr None)"

subsection \<open>The one handler of \<^verbatim>\<open>minnid.py\<close> that only authorizes\<close>

definition handle_gate_shared :: "gate \<Rightarrow> call_params \<Rightarrow> json \<Rightarrow> pyerr + json" where
  "handle_gate_shared g params request_id =
     (case handler_principal g params request_id ''agent_id'' of
        Inl e \<Rightarrow> Inl e
      | Inr (Inl err) \<Rightarrow> Inr err
      | Inr (Inr p) \<Rightarrow>
          (let operation = py_strip (py_str (py_or (jget (cp_wire params) ''operation'') (JStr [])))
           in if operation = [] then Inr (make_error (-32602) ''operation is required'' request_id JNull)
              else if p_deny_reason p = Some ReservedAgentId
                then Inr (make_reserved_agent_id_error (p_agent_id p) ''gate.shared'' request_id)
              else if p_capabilities p = [] \<and> p_allowed_vault_roots p = []
                then Inr (make_response (recover_machine ''unknown_identity'' (JStr ''gate.shared'')
                       (jget (cp_wire params) ''agent_id'')) request_id)
              else Inr (make_response (JObj [(''status'', JStr ''ok''), (''operation'', JStr operation),
                     (''principal'', JStr (p_agent_id p)), (''workspace_id'', JStr (p_workspace_id p)),
                     (''gate'', JStr ''minnid'')]) request_id)))"

subsection \<open>\<^verbatim>\<open>dispatch_request\<close>\<close>

type_synonym 's handler = "call_params \<Rightarrow> json \<Rightarrow> 's \<Rightarrow> (pyerr + json) \<times> 's"

text \<open>
  Everything before the handler call: an exception, an immediate response, or the handler
  with its parameters.  An array or object as method name cannot be looked up.
\<close>

datatype 's plan = Crash pyerr | Answer json | Run string "'s handler" call_params

definition dispatch_prepare :: "gate \<Rightarrow> (string \<Rightarrow> 's handler option) \<Rightarrow> jobj \<Rightarrow> 's plan" where
  "dispatch_prepare g methods request =
     (let method_name = jget_or (JStr []) request ''method'';
          request_id = jget request ''id'';
          not_found = Answer (make_error (-32601) (''Method not found: '' @ py_str method_name) request_id JNull)
      in case method_name of
           JList _ \<Rightarrow> Crash TypeError
         | JObj _ \<Rightarrow> Crash TypeError
         | JStr m \<Rightarrow>
             (case methods m of
                None \<Rightarrow> not_found
              | Some handler \<Rightarrow>
                  (case request_params request of
                     JObj params \<Rightarrow>
                       (let r = resolve_provenance g request
                        in if r_recovery r \<noteq> None \<and> m \<notin> set RECOVERY_ALLOWED_METHODS
                           then Answer (make_response (the (r_recovery r)) request_id)
                           else case enforce_method_capability m (r_principal r) request_id of
                                  Some err \<Rightarrow> Answer err
                                | None \<Rightarrow> Run m handler (gate_params g r params))
                   | _ \<Rightarrow> Answer (make_error (-32602) ''Invalid params: expected a JSON object'' request_id JNull)))
         | _ \<Rightarrow> not_found)"

record daemon_obs =
  o_counters :: counters
  o_ring :: "error_entry list"

fun exc_class :: "pyerr \<Rightarrow> string" where
  "exc_class (ValueError _) = ''ValueError''"
| "exc_class TypeError = ''TypeError''"
| "exc_class OSError = ''OSError''"
| "exc_class (RuntimeError _) = ''RuntimeError''"
| "exc_class (IdentityMismatch _ _) = ''IdentityMismatchError''"

definition count_error :: "string \<Rightarrow> real \<Rightarrow> daemon_obs \<Rightarrow> daemon_obs" where
  "count_error m t b =
     b\<lparr>o_counters := incr_counter (''errors.'' @ m) 1 t (incr_counter ''errors'' 1 t (o_counters b))\<rparr>"

definition note_exception :: "gate \<Rightarrow> string \<Rightarrow> pyerr \<Rightarrow> string \<Rightarrow> daemon_obs \<Rightarrow> daemon_obs" where
  "note_exception g m e ts b = b\<lparr>o_ring := record_error m (exc_class e) (g_exc_text g e) ts (o_ring b)\<rparr>"

definition is_error_result :: "json \<Rightarrow> bool" where
  "is_error_result result \<longleftrightarrow> (case result of JObj r \<Rightarrow> has_key r ''error'' | _ \<Rightarrow> False)"

text \<open>\<open>t\<close> and \<open>ts\<close> are the wall clock, as a number and as text.\<close>

definition dispatch_request ::
  "gate \<Rightarrow> (string \<Rightarrow> 's handler option) \<Rightarrow> real \<Rightarrow> string \<Rightarrow> jobj \<Rightarrow> 's \<Rightarrow> daemon_obs
    \<Rightarrow> (pyerr + json) \<times> 's \<times> daemon_obs" where
  "dispatch_request g methods t ts request s b =
     (case dispatch_prepare g methods request of
        Crash e \<Rightarrow> (Inl e, s, b)
      | Answer r \<Rightarrow> (Inr r, s, b)
      | Run m handler params \<Rightarrow>
          (case handler params (jget request ''id'') s of
             (Inl e, s') \<Rightarrow> (Inl e, s', note_exception g m e ts (count_error m t b))
           | (Inr result, s') \<Rightarrow>
               (Inr result, s', if is_error_result result then count_error m t b else b)))"

subsection \<open>The contract of a resolver\<close>

text \<open>
  The gate hands the stripped text of a claim to the resolver, a handler the claim itself;
  the contract makes both the same question.
\<close>

locale identity_resolver =
  fixes resolve :: "json \<Rightarrow> pyerr + effective_principal"
  assumes blank_claim: "j \<noteq> JNull \<Longrightarrow> py_strip (py_str j) = [] \<Longrightarrow> resolve j = resolve JNull"
    and claim_text: "j \<noteq> JNull \<Longrightarrow> resolve (JStr (py_strip (py_str j))) = resolve j"

text \<open>The claim key a handler of the method asks for.\<close>

definition claim_key_of :: "string \<Rightarrow> string" where
  "claim_key_of m = (if m = ''daemon.handoff'' \<or> m = ''handoff'' then ''from_agent'' else ''agent_id'')"

lemma resolve_provenance_params:
  assumes "request_params request = JObj params" and "jget_or (JStr []) request ''method'' = JStr m"
  shows "r_principal (resolve_provenance g request)
      = (case g_resolve g (none_or_str (provenance_claim m params)) of Inr p \<Rightarrow> Some p | Inl _ \<Rightarrow> None)"
    and "r_recovery (resolve_provenance g request) \<noteq> None
      \<longleftrightarrow> r_principal (resolve_provenance g request) = None"
  using assms by (auto simp: resolve_provenance_def Let_def split: sum.split pyerr.split)

lemma dispatch_prepare_Run:
  assumes "dispatch_prepare g methods request = Run m handler hp"
  obtains params where "jget_or (JStr []) request ''method'' = JStr m" and "methods m = Some handler"
    and "request_params request = JObj params"
    and "hp = gate_params g (resolve_provenance g request) params"
    and "r_principal (resolve_provenance g request) = None \<longrightarrow> m \<in> set RECOVERY_ALLOWED_METHODS"
    and "enforce_method_capability m (r_principal (resolve_provenance g request)) (jget request ''id'') = None"
proof -
  let ?r = "resolve_provenance g request"
  obtain params where run: "jget_or (JStr []) request ''method'' = JStr m" "methods m = Some handler"
    "request_params request = JObj params" "hp = gate_params g ?r params"
    "r_recovery ?r \<noteq> None \<longrightarrow> m \<in> set RECOVERY_ALLOWED_METHODS"
    "enforce_method_capability m (r_principal ?r) (jget request ''id'') = None"
    using assms
    by (auto simp: dispatch_prepare_def Let_def split: json.split_asm option.split_asm if_split_asm)
  show thesis
    by (rule that [OF run(1-4) _ run(6)]) (use run(5) resolve_provenance_params(2) [OF run(3,1), of g] in simp)
qed

lemma gate_params_keys:
  "jget (cp_wire (gate_params g r params)) ''_recovery'' = JBool (r_recovery r \<noteq> None)"
  "jget (cp_wire (gate_params g r params)) ''_accepted_monotonic'' = g_monotonic g"
  "k \<noteq> ''_recovery'' \<Longrightarrow> k \<noteq> ''_accepted_monotonic''
    \<Longrightarrow> jget (cp_wire (gate_params g r params)) k = jget params k"
  by (simp_all add: gate_params_def jget_or_def update_conv')

lemma enforce_None:
  "enforce_method_capability m (Some p) rid = None
     \<longleftrightarrow> (case map_of RPC_CAPABILITY_REQUIREMENTS m of None \<Rightarrow> True | Some c \<Rightarrow> can p c)"
  by (simp add: enforce_method_capability_def split: option.split)

context identity_resolver
begin

lemma claim_resolves:
  assumes "m \<noteq> ''vault_index_doc''"
  shows "resolve (none_or_str (provenance_claim m params)) = resolve (jget params (claim_key_of m))"
proof -
  let ?c = "jget params (claim_key_of m)"
  have pc: "provenance_claim m params = (if ?c = JNull then None
      else let s = py_strip (py_str ?c) in if s = [] then None else Some s)"
    using assms by (simp add: provenance_claim_def claim_key_of_def Let_def)
  show ?thesis
  proof (cases "?c = JNull")
    case True
    then show ?thesis by (simp add: pc none_or_str_def)
  next
    case False
    then show ?thesis
      using blank_claim [of ?c] claim_text [of ?c] by (simp add: pc none_or_str_def Let_def)
  qed
qed

text \<open>A handler acts as the principal the gate checked, whatever \<^verbatim>\<open>_principal\<close> the wire carries.\<close>

lemma handler_matches_gate:
  assumes g: "g_resolve g = resolve" and run: "dispatch_prepare g methods request = Run m handler hp"
    and m: "m \<noteq> ''vault_index_doc''"
    and p: "handler_principal g hp rid (claim_key_of m) = Inr (Inr p)"
  shows "r_principal (resolve_provenance g request) = Some p"
proof -
  from run obtain params where r: "jget_or (JStr []) request ''method'' = JStr m"
      "request_params request = JObj params" "hp = gate_params g (resolve_provenance g request) params"
    by (rule dispatch_prepare_Run)
  note rp = resolve_provenance_params(1) [OF r(2,1), of g]
  show ?thesis
  proof (cases "cp_principal hp")
    case (Some q)
    then have "q = p" using p by (simp add: handler_principal_def)
    then show ?thesis using Some r(3) by (simp add: gate_params_def split: if_split_asm)
  next
    case None
    have "claim_key_of m \<noteq> ''_recovery''" "claim_key_of m \<noteq> ''_accepted_monotonic''"
      by (simp_all add: claim_key_of_def)
    then have "jget (cp_wire hp) (claim_key_of m) = jget params (claim_key_of m)"
      using r(3) gate_params_keys(3) by simp
    then have "resolve (jget params (claim_key_of m)) = Inr p"
      using p None g by (auto simp: handler_principal_def split: sum.split_asm pyerr.split_asm)
    then show ?thesis using claim_resolves [OF m, of params] rp g by simp
  qed
qed

end

subsection \<open>The daemon's resolver meets the contract\<close>

lemma py_strip_idem [simp]: "py_strip (py_strip s) = py_strip s"
proof -
  have hd: "dropWhile P (dropWhile P xs) = dropWhile P xs" for P and xs :: string
    by (induction xs) simp_all
  define u where "u = dropWhile py_space (rev (dropWhile py_space s))"
  have "dropWhile py_space (rev u) = rev u"
  proof (cases "u = []")
    case False
    obtain ys where ys: "rev (dropWhile py_space s) = ys @ u"
      using takeWhile_dropWhile_id unfolding u_def by metis
    then have "dropWhile py_space s = rev u @ rev ys" by (metis rev_append rev_rev_ident)
    then have "hd (rev u) = hd (dropWhile py_space s)" "dropWhile py_space s \<noteq> []"
      using False by simp_all
    then have "\<not> py_space (hd (rev u))" using hd_dropWhile by metis
    then show ?thesis using False by (cases "rev u") auto
  qed simp
  moreover have "dropWhile py_space u = u" using hd u_def by simp
  ultimately show ?thesis by (simp add: py_strip_def u_def [symmetric])
qed

lemma stamp_by_text:
  assumes "j \<noteq> JNull" and "k \<noteq> JNull" and "py_strip (py_str j) = py_strip (py_str k)"
  shows "stamp_effective_principal h d t oc j = stamp_effective_principal h d t oc k"
  using assms by (simp add: stamp_effective_principal_def)

lemma stamp_blank:
  "j \<noteq> JNull \<Longrightarrow> py_strip (py_str j) = [] \<Longrightarrow>
    stamp_effective_principal h d t oc j = stamp_effective_principal h d t oc JNull"
  by (simp add: stamp_effective_principal_def)

interpretation daemon_resolver: identity_resolver "resolve_effective_principal h ensure d t oc"
  for h ensure d t oc
proof unfold_locales
  fix j
  assume "j \<noteq> JNull"
  show "py_strip (py_str j) = [] \<Longrightarrow> resolve_effective_principal h ensure d t oc j
      = resolve_effective_principal h ensure d t oc JNull"
    using stamp_blank [OF \<open>j \<noteq> JNull\<close>] by (simp add: resolve_effective_principal_def)
  show "resolve_effective_principal h ensure d t oc (JStr (py_strip (py_str j)))
      = resolve_effective_principal h ensure d t oc j"
    using stamp_by_text [of "JStr (py_strip (py_str j))" j] \<open>j \<noteq> JNull\<close>
    by (simp add: resolve_effective_principal_def)
qed

definition daemon_gate ::
  "host \<Rightarrow> (string \<Rightarrow> pyerr option) \<Rightarrow> pdir \<Rightarrow> (pyerr \<Rightarrow> string) \<Rightarrow> json \<Rightarrow> gate" where
  "daemon_gate h ensure d txt clock =
     \<lparr>g_resolve = resolve_effective_principal h ensure d ''uds'' False, g_exc_text = txt, g_monotonic = clock\<rparr>"

subsection \<open>What the gate guarantees\<close>

lemma registry_gated:
  "m \<in> set METHODS \<Longrightarrow> m \<in> set RECOVERY_ALLOWED_METHODS \<or> m \<in> {''gate.shared'', ''resolve_candidate''}
     \<or> map_of RPC_CAPABILITY_REQUIREMENTS m \<noteq> None"
  unfolding METHODS_def RECOVERY_ALLOWED_METHODS_def RPC_CAPABILITY_REQUIREMENTS_def
  by (simp only: list.set insert_iff empty_iff) (elim disjE; simp)

text \<open>
  C7. A request changes the daemon's state only when its method is a diagnostic one, or the
  identity its claim resolves to holds the capability the method requires (gate.shared and
  resolve_candidate check in the handler).
\<close>

theorem handlers_run_authorised:
  assumes "dispatch_request g methods t ts request s b = (r, s', b')" and "s' \<noteq> s"
    and "dom methods \<subseteq> set METHODS"
  shows "\<exists>m params. jget_or (JStr []) request ''method'' = JStr m \<and> request_params request = JObj params
    \<and> (m \<in> set RECOVERY_ALLOWED_METHODS
       \<or> (\<exists>p. g_resolve g (none_or_str (provenance_claim m params)) = Inr p
            \<and> (m \<in> {''gate.shared'', ''resolve_candidate''}
               \<or> (\<exists>c. map_of RPC_CAPABILITY_REQUIREMENTS m = Some c \<and> can p c))))"
proof -
  obtain m handler hp where run: "dispatch_prepare g methods request = Run m handler hp"
    using assms(1,2) by (cases "dispatch_prepare g methods request") (auto simp: dispatch_request_def)
  from run obtain params where p: "jget_or (JStr []) request ''method'' = JStr m" "methods m = Some handler"
    "request_params request = JObj params"
    "r_principal (resolve_provenance g request) = None \<longrightarrow> m \<in> set RECOVERY_ALLOWED_METHODS"
    "enforce_method_capability m (r_principal (resolve_provenance g request)) (jget request ''id'') = None"
    by (rule dispatch_prepare_Run)
  have "m \<in> set METHODS" using assms(3) p(2) by blast
  note gated = registry_gated [OF this]
  show ?thesis
  proof (cases "r_principal (resolve_provenance g request)")
    case None
    then show ?thesis using p by blast
  next
    case (Some q)
    then have q: "g_resolve g (none_or_str (provenance_claim m params)) = Inr q"
      using resolve_provenance_params(1) [OF p(3,1), of g] by (simp split: sum.split_asm)
    have "case map_of RPC_CAPABILITY_REQUIREMENTS m of None \<Rightarrow> True | Some c \<Rightarrow> can q c"
      using p(5) Some enforce_None by simp
    then show ?thesis
      using p(1,3) q gated by (cases "map_of RPC_CAPABILITY_REQUIREMENTS m") auto
  qed
qed

theorem handler_acts_as_checked_principal:
  assumes "dispatch_prepare (daemon_gate h ensure d txt clock) methods request = Run m handler hp"
    and "m \<noteq> ''vault_index_doc''"
    and "handler_principal (daemon_gate h ensure d txt clock) hp rid (claim_key_of m) = Inr (Inr p)"
  shows "(case map_of RPC_CAPABILITY_REQUIREMENTS m of None \<Rightarrow> True | Some c \<Rightarrow> can p c)
    \<and> resolve_effective_principal h ensure d ''uds'' False
        (none_or_str (provenance_claim m (case request_params request of JObj kvs \<Rightarrow> kvs | _ \<Rightarrow> []))) = Inr p"
proof -
  let ?g = "daemon_gate h ensure d txt clock"
  have g: "g_resolve ?g = resolve_effective_principal h ensure d ''uds'' False"
    by (simp add: daemon_gate_def)
  have rp: "r_principal (resolve_provenance ?g request) = Some p"
    by (rule daemon_resolver.handler_matches_gate [OF g assms])
  from assms(1) obtain params where q: "jget_or (JStr []) request ''method'' = JStr m"
    "request_params request = JObj params"
    "enforce_method_capability m (r_principal (resolve_provenance ?g request)) (jget request ''id'') = None"
    by (rule dispatch_prepare_Run)
  have "case map_of RPC_CAPABILITY_REQUIREMENTS m of None \<Rightarrow> True | Some c \<Rightarrow> can p c"
    using q(3) rp enforce_None by simp
  moreover have "g_resolve ?g (none_or_str (provenance_claim m params)) = Inr p"
    using resolve_provenance_params(1) [OF q(2,1), of ?g] rp by (simp split: sum.split_asm)
  ultimately show ?thesis using q(2) g by simp
qed

theorem recovery_flag_not_spoofable:
  assumes "dispatch_prepare g methods request = Run m handler hp"
  shows "\<exists>params. request_params request = JObj params
    \<and> jget (cp_wire hp) ''_recovery''
        = JBool (\<nexists>p. g_resolve g (none_or_str (provenance_claim m params)) = Inr p)
    \<and> jget (cp_wire hp) ''_accepted_monotonic'' = g_monotonic g"
proof -
  from assms obtain params where q: "jget_or (JStr []) request ''method'' = JStr m"
    "request_params request = JObj params" "hp = gate_params g (resolve_provenance g request) params"
    by (rule dispatch_prepare_Run)
  show ?thesis
    using resolve_provenance_params [OF q(2,1), of g] q(2,3)
    by (auto simp: gate_params_keys split: sum.split_asm)
qed


lemma error_code_make_error [simp]: "error_code (make_error c msg rid data) = Some c"
  by (simp add: make_error_def jget_or_def)

theorem refusals_fail_loud:
  assumes "dispatch_prepare g methods request = Answer x"
  shows "error_code x \<in> {Some (-32601), Some (-32602), Some (-32004)}
    \<or> (\<exists>reason m sup. x = make_response (recover_machine reason m sup) (jget request ''id''))"
proof -
  have e: "enforce_method_capability m who rid = Some y \<Longrightarrow> error_code y = Some (-32004)" for m who rid y
    by (auto simp: enforce_method_capability_def make_reserved_agent_id_error_def
        make_capability_denied_error_def split: option.split_asm if_split_asm deny_reason.split_asm)
  have r: "r_recovery (resolve_provenance g request) = Some y \<Longrightarrow> \<exists>reason m sup. y = recover_machine reason m sup" for y
    by (auto simp: resolve_provenance_def Let_def split: json.split_asm sum.split_asm pyerr.split_asm)
  show ?thesis
    using assms e r
    by (fastforce simp: dispatch_prepare_def Let_def split: json.split_asm option.split_asm if_split_asm)
qed

theorem gate_shared_needs_grant:
  assumes "handle_gate_shared g hp rid = Inr (make_response (JObj kvs) rid)" and "jget kvs ''status'' = JStr ''ok''"
  shows "\<exists>p. handler_principal g hp rid ''agent_id'' = Inr (Inr p) \<and> jget kvs ''principal'' = JStr (p_agent_id p)
    \<and> p_deny_reason p \<noteq> Some ReservedAgentId
    \<and> (p_capabilities p \<noteq> [] \<or> p_allowed_vault_roots p \<noteq> [])"
proof -
  have n: "make_error c msg rid' dt \<noteq> make_response y rid" for c msg rid' dt y
    by (simp add: make_error_def make_response_def)
  have m: "handler_principal g hp rid ''agent_id'' = Inr (Inl err) \<Longrightarrow> err \<noteq> make_response y rid" for err y
    using n by (auto simp: handler_principal_def make_mismatch_error_def split: option.split_asm sum.split_asm pyerr.split_asm)
  have i: "make_response y rid = make_response z rid \<longleftrightarrow> y = z" for y z
    by (simp add: make_response_def)
  show ?thesis
    using assms
    by (auto simp: handle_gate_shared_def n m i make_reserved_agent_id_error_def recover_machine_def Let_def jget_or_def
        split: sum.split_asm if_split_asm)
qed

subsection \<open>Concrete requests\<close>

definition demo_gate :: gate where
  "demo_gate = daemon_gate demo_host (\<lambda>_. None) demo_dir (\<lambda>_. []) (JInt 7)"

definition demo_methods :: "string \<Rightarrow> nat handler option" where
  "demo_methods = [''learn'' \<mapsto> (\<lambda>hp rid n. (Inr JNull, n + 1)), ''ping'' \<mapsto> (\<lambda>hp rid n. (Inr JNull, n))]"

text \<open>The wire plants a principal and a recovery flag.\<close>

definition demo_wire :: jobj where
  "demo_wire = [(''agent_id'', JStr '' codex ''), (''_principal'', JStr ''main''), (''_recovery'', JBool True)]"

definition demo_request :: jobj where
  "demo_request = [(''method'', JStr ''learn''), (''id'', JInt 1), (''params'', JObj demo_wire)]"

definition demo_codex :: effective_principal where
  "demo_codex = demo_agent ''codex'' [JStr ''learn''] [''/~/.minni/codex-vault'']"

lemma demo_gate_resolves:
  "\<exists>p. g_resolve demo_gate (JStr ''codex'') = Inr p \<and> can p ''learn''
     \<and> g_resolve demo_gate (JStr '' codex '') = Inr p"
proof -
  have "(case g_resolve demo_gate (JStr ''codex'') of Inr p \<Rightarrow> can p ''learn'' | Inl _ \<Rightarrow> False)"
    by code_simp
  moreover have "g_resolve demo_gate (JStr '' codex '') = g_resolve demo_gate (JStr ''codex'')"
    by code_simp
  ultimately show ?thesis by (auto split: sum.split_asm)
qed

lemma demo_claim: "provenance_claim ''learn'' demo_wire = Some ''codex''"
  by code_simp

lemma demo_gate_prepare:
  obtains p handler where "g_resolve demo_gate (JStr ''codex'') = Inr p" "can p ''learn''"
    "demo_methods ''learn'' = Some handler"
    "dispatch_prepare demo_gate demo_methods demo_request
      = Run ''learn'' handler (gate_params demo_gate \<lparr>r_principal = Some p, r_recovery = None\<rparr> demo_wire)"
    "handler_principal demo_gate (gate_params demo_gate \<lparr>r_principal = Some p, r_recovery = None\<rparr> demo_wire)
       (JInt 1) ''agent_id'' = Inr (Inr p)"
proof -
  obtain p where p: "g_resolve demo_gate (JStr ''codex'') = Inr p" "can p ''learn''"
    "g_resolve demo_gate (JStr '' codex '') = Inr p"
    using demo_gate_resolves by blast
  obtain handler where h: "demo_methods ''learn'' = Some handler" by (simp add: demo_methods_def)
  have q: "request_params demo_request = JObj demo_wire"
    by (simp add: request_params_def demo_request_def jget_or_def py_or_def demo_wire_def)
  have m: "jget_or (JStr []) demo_request ''method'' = JStr ''learn''"
    by (simp add: demo_request_def jget_or_def)
  have r: "resolve_provenance demo_gate demo_request = \<lparr>r_principal = Some p, r_recovery = None\<rparr>"
    by (simp add: resolve_provenance_def q m demo_claim none_or_str_def p(1))
  have e: "enforce_method_capability ''learn'' (Some p) rid = None" for rid
    using p(2) by (simp add: enforce_method_capability_def RPC_CAPABILITY_REQUIREMENTS_def)
  have "jget (cp_wire (gate_params demo_gate \<lparr>r_principal = Some p, r_recovery = None\<rparr> demo_wire)) ''agent_id''
      = JStr '' codex ''"
    using gate_params_keys(3) by (simp add: demo_wire_def jget_or_def)
  moreover have "cp_principal (gate_params demo_gate \<lparr>r_principal = Some p, r_recovery = None\<rparr> demo_wire) = None"
    by (simp add: gate_params_def demo_wire_def has_key_def)
  ultimately have a: "handler_principal demo_gate (gate_params demo_gate \<lparr>r_principal = Some p, r_recovery = None\<rparr> demo_wire)
       (JInt 1) ''agent_id'' = Inr (Inr p)"
    using p(3) by (simp add: handler_principal_def)
  show ?thesis
    by (rule that [OF p(1,2) h _ a]) (simp add: dispatch_prepare_def m h q r e)
qed

theorem handlers_run_authorised_witness:
  "\<exists>r b'. dispatch_request demo_gate demo_methods 0 [] demo_request 4 \<lparr>o_counters = no_counters, o_ring = []\<rparr> = (r, 5, b')
    \<and> (\<exists>p. g_resolve demo_gate (JStr ''codex'') = Inr p \<and> can p ''learn'')"
proof -
  obtain p handler where d: "demo_methods ''learn'' = Some handler"
    "dispatch_prepare demo_gate demo_methods demo_request
      = Run ''learn'' handler (gate_params demo_gate \<lparr>r_principal = Some p, r_recovery = None\<rparr> demo_wire)"
    by (rule demo_gate_prepare)
  have h: "handler = (\<lambda>hp rid n. (Inr JNull, n + 1))" using d(1) by (simp add: demo_methods_def)
  obtain r b' where x: "dispatch_request demo_gate demo_methods 0 [] demo_request 4
      \<lparr>o_counters = no_counters, o_ring = []\<rparr> = (r, 5, b')"
    by (simp add: dispatch_request_def d(2) h)
  have dm: "dom demo_methods \<subseteq> set METHODS" by (simp add: demo_methods_def METHODS_def)
  have q: "request_params demo_request = JObj demo_wire" "jget_or (JStr []) demo_request ''method'' = JStr ''learn''"
    by (simp_all add: request_params_def demo_request_def jget_or_def py_or_def demo_wire_def)
  from handlers_run_authorised [OF x _ dm] x show ?thesis
    by (auto simp: q demo_claim none_or_str_def RECOVERY_ALLOWED_METHODS_def RPC_CAPABILITY_REQUIREMENTS_def)
qed

theorem handler_acts_as_checked_principal_witness:
  "\<exists>handler hp p. dispatch_prepare demo_gate demo_methods demo_request = Run ''learn'' handler hp
    \<and> cp_principal hp = None \<and> handler_principal demo_gate hp (JInt 1) ''agent_id'' = Inr (Inr p) \<and> can p ''learn''"
proof -
  obtain p handler where d: "dispatch_prepare demo_gate demo_methods demo_request
      = Run ''learn'' handler (gate_params demo_gate \<lparr>r_principal = Some p, r_recovery = None\<rparr> demo_wire)"
    "handler_principal demo_gate (gate_params demo_gate \<lparr>r_principal = Some p, r_recovery = None\<rparr> demo_wire)
       (JInt 1) ''agent_id'' = Inr (Inr p)"
    by (rule demo_gate_prepare)
  have k: "claim_key_of ''learn'' = ''agent_id''" by (simp add: claim_key_of_def)
  have "can p ''learn''"
    using handler_acts_as_checked_principal [OF d(1) [unfolded demo_gate_def] _ d(2) [unfolded demo_gate_def, folded k]]
    by (simp add: RPC_CAPABILITY_REQUIREMENTS_def)
  then show ?thesis using d by (auto simp: gate_params_def demo_wire_def has_key_def)
qed

theorem recovery_flag_not_spoofable_witness:
  "\<exists>handler hp. dispatch_prepare demo_gate demo_methods demo_request = Run ''learn'' handler hp
    \<and> jget demo_wire ''_recovery'' = JBool True \<and> jget (cp_wire hp) ''_recovery'' = JBool False"
proof -
  obtain p handler where d: "g_resolve demo_gate (JStr ''codex'') = Inr p"
    "dispatch_prepare demo_gate demo_methods demo_request
      = Run ''learn'' handler (gate_params demo_gate \<lparr>r_principal = Some p, r_recovery = None\<rparr> demo_wire)"
    by (rule demo_gate_prepare)
  have "request_params demo_request = JObj demo_wire"
    by (simp add: request_params_def demo_request_def jget_or_def py_or_def demo_wire_def)
  moreover have "jget demo_wire ''_recovery'' = JBool True" by (simp add: demo_wire_def jget_or_def)
  ultimately show ?thesis
    using recovery_flag_not_spoofable [OF d(2)] d by (auto simp: demo_claim none_or_str_def)
qed

theorem refusals_fail_loud_witness:
  "\<exists>x. dispatch_prepare demo_gate demo_methods [(''method'', JStr ''drop''), (''id'', JInt 1)] = Answer x
    \<and> error_code x = Some (-32601)"
proof -
  have a: "dispatch_prepare demo_gate demo_methods [(''method'', JStr ''drop''), (''id'', JInt 1)]
    = Answer (make_error (-32601) ''Method not found: drop'' (JInt 1) JNull)"
    by (simp add: dispatch_prepare_def jget_or_def demo_methods_def)
  show ?thesis using a refusals_fail_loud [OF a] by simp
qed

theorem gate_shared_needs_grant_witness:
  "\<exists>p kvs. handle_gate_shared demo_gate \<lparr>cp_wire = [(''operation'', JStr ''sync'')], cp_principal = Some (demo_agent ''codex'' [JStr ''learn''] [])\<rparr> JNull
     = Inr (make_response (JObj kvs) JNull)
    \<and> handler_principal demo_gate \<lparr>cp_wire = [(''operation'', JStr ''sync'')], cp_principal = Some (demo_agent ''codex'' [JStr ''learn''] [])\<rparr> JNull ''agent_id'' = Inr (Inr p)
    \<and> p_capabilities p \<noteq> []"
proof -
  let ?hp = "\<lparr>cp_wire = [(''operation'', JStr ''sync'')], cp_principal = Some (demo_agent ''codex'' [JStr ''learn''] [])\<rparr>"
  let ?kvs = "[(''status'', JStr ''ok''), (''operation'', JStr ''sync''), (''principal'', JStr ''codex''),
     (''workspace_id'', JStr ''default''), (''gate'', JStr ''minnid'')]"
  have s: "py_strip ''sync'' = ''sync''" by code_simp
  have a: "handle_gate_shared demo_gate ?hp JNull = Inr (make_response (JObj ?kvs) JNull)"
    by (simp add: handle_gate_shared_def handler_principal_def jget_or_def py_or_def s demo_agent_def)
  have b: "jget ?kvs ''status'' = JStr ''ok''" by (simp add: jget_or_def)
  show ?thesis
    using a gate_shared_needs_grant [OF a b] by (auto simp: handler_principal_def demo_agent_def)
qed

end
