(* ===== verification/Episodic.thy ===== *)
theory Episodic
  imports Hits Dispatch
begin

text \<open>
  \<^verbatim>\<open>src/minni/episodic.py\<close>: the log of events with its full-text index, which triggers of
  \<^verbatim>\<open>db.py\<close> keep, its pruning and repair; the coverage report of \<^verbatim>\<open>backfill.py\<close>; and the two ways
  to read events: \<^verbatim>\<open>search_episodic\<close> of \<^verbatim>\<open>retrieval.py\<close> and \<^verbatim>\<open>handle_list_events\<close> of
  \<^verbatim>\<open>minnid_runtime/recall.py\<close>.  Tables are lists in rowid order.  An event's metadata and its
  compressed blob are written and read back unchanged and left out.
\<close>

section \<open>Tables\<close>

record episode =
  ep_id :: int
  ep_agent :: string
  ep_type :: string
  ep_content :: "string option"
  ep_task :: "string option"
  ep_thread :: "string option"
  ep_at :: real

text \<open>A row of the index; its columns have no constraint.\<close>

record fts_row =
  fx_event :: "int option"
  fx_agent :: "string option"
  fx_text :: "string option"

record thread_row =
  td_id :: string
  td_title :: string
  td_created :: real
  td_updated :: real
  td_agents :: int
  td_messages :: int

record task_row =
  tk_agent :: string
  tk_task :: string
  tk_description :: string
  tk_status :: string
  tk_start :: real
  tk_end :: "real option"
  tk_result :: "string option"

record episodic_db =
  ed_events :: "episode list"
  ed_index :: "fts_row list"
  ed_threads :: "thread_row list"
  ed_links :: "((string \<times> int) \<times> real \<times> real) list"    \<comment> \<open>thread, document: similarity, time\<close>
  ed_tasks :: "task_row list"
  ed_next :: int                                       \<comment> \<open>the AUTOINCREMENT counter\<close>

definition NON_MEMORY_EVENT_TYPES :: "string list" where
  "NON_MEMORY_EVENT_TYPES = [''recall'']"

definition is_memory :: "episode \<Rightarrow> bool" where
  "is_memory e \<longleftrightarrow> ep_type e \<notin> set NON_MEMORY_EVENT_TYPES"

definition no_events :: episodic_db where
  "no_events = \<lparr>ed_events = [], ed_index = [], ed_threads = [], ed_links = [], ed_tasks = [], ed_next = 1\<rparr>"

section \<open>Writing\<close>

text \<open>What the insert trigger puts into the index.\<close>

definition index_row :: "episode \<Rightarrow> fts_row" where
  "index_row e = \<lparr>fx_event = Some (ep_id e), fx_agent = Some (ep_agent e), fx_text = ep_content e\<rparr>"

definition count_message :: "episode \<Rightarrow> thread_row \<Rightarrow> thread_row" where
  "count_message e t =
     (if ep_thread e = Some (td_id t) then t\<lparr>td_messages := td_messages t + 1, td_updated := ep_at e\<rparr> else t)"

definition insert_episode :: "episode \<Rightarrow> episodic_db \<Rightarrow> episodic_db" where
  "insert_episode e d =
     d\<lparr>ed_events := ed_events d @ [e],
       ed_index := (if ep_content e = None then ed_index d else ed_index d @ [index_row e]),
       ed_threads := map (count_message e) (ed_threads d),
       ed_next := ep_id e + 1\<rparr>"

text \<open>
  \<open>similar\<close> is the semantic search of the bind: documents with their similarity, or None where
  it raises; the whole bind is best effort.
\<close>

definition semantic_thread_bind ::
  "(string \<Rightarrow> (int \<times> real) list option) \<Rightarrow> real \<Rightarrow> real \<Rightarrow> string \<Rightarrow> string \<Rightarrow> episodic_db \<Rightarrow> episodic_db" where
  "semantic_thread_bind similar threshold tnow thread content d =
     (case similar content of
        None \<Rightarrow> d
      | Some rs \<Rightarrow> d\<lparr>ed_links := foldl (\<lambda>ls r.
          if threshold \<le> snd r then AList.update (thread, fst r) (snd r, tnow) ls else ls) (ed_links d) rs\<rparr>)"

definition add_event ::
  "(string \<Rightarrow> (int \<times> real) list option) \<Rightarrow> real \<Rightarrow> real \<Rightarrow> string \<Rightarrow> string \<Rightarrow> string option
    \<Rightarrow> string option \<Rightarrow> string option \<Rightarrow> bool \<Rightarrow> episodic_db \<Rightarrow> int \<times> episodic_db" where
  "add_event similar threshold tnow agent etype content task thread bind d =
     (let i = ed_next d;
          d' = insert_episode \<lparr>ep_id = i, ep_agent = agent, ep_type = etype, ep_content = content, ep_task = task,
                 ep_thread = thread, ep_at = tnow\<rparr> d
      in (i, if bind \<and> or_text thread [] \<noteq> [] \<and> or_text content [] \<noteq> []
             then semantic_thread_bind similar threshold tnow (or_text thread []) (or_text content []) d'
             else d'))"

definition same_task :: "string \<Rightarrow> string \<Rightarrow> task_row \<Rightarrow> bool" where
  "same_task agent task t \<longleftrightarrow> tk_agent t = agent \<and> tk_task t = task"

definition start_task ::
  "(string \<Rightarrow> (int \<times> real) list option) \<Rightarrow> real \<Rightarrow> real \<Rightarrow> string \<Rightarrow> string \<Rightarrow> string \<Rightarrow> episodic_db \<Rightarrow> episodic_db" where
  "start_task similar threshold tnow agent task description d =
     snd (add_event similar threshold tnow agent ''task_start'' (Some description) (Some task) None True
       (d\<lparr>ed_tasks := filter (\<lambda>t. \<not> same_task agent task t) (ed_tasks d)
            @ [\<lparr>tk_agent = agent, tk_task = task, tk_description = description, tk_status = ''running'',
                tk_start = tnow, tk_end = None, tk_result = None\<rparr>]\<rparr>))"

definition end_task ::
  "(string \<Rightarrow> (int \<times> real) list option) \<Rightarrow> real \<Rightarrow> real \<Rightarrow> string \<Rightarrow> string \<Rightarrow> string \<Rightarrow> string
    \<Rightarrow> episodic_db \<Rightarrow> episodic_db" where
  "end_task similar threshold tnow agent task status result d =
     snd (add_event similar threshold tnow agent ''task_end'' (Some (status @ '': '' @ result)) (Some task) None True
       (d\<lparr>ed_tasks := map (\<lambda>t. if same_task agent task t
            then t\<lparr>tk_status := status, tk_end := Some tnow, tk_result := Some result\<rparr> else t) (ed_tasks d)\<rparr>))"

definition create_thread :: "real \<Rightarrow> string \<Rightarrow> string \<Rightarrow> int \<Rightarrow> episodic_db \<Rightarrow> episodic_db" where
  "create_thread tnow thread title agents d =
     (if thread \<in> td_id ` set (ed_threads d) then d
      else d\<lparr>ed_threads := ed_threads d @ [\<lparr>td_id = thread, td_title = title, td_created = tnow, td_updated = tnow,
             td_agents = agents, td_messages = 0\<rparr>]\<rparr>)"

subsection \<open>Pruning and repair\<close>

text \<open>Delete the events of a kind with the index rows that carry their ids.\<close>

definition prune :: "(episode \<Rightarrow> bool) \<Rightarrow> episodic_db \<Rightarrow> int \<times> episodic_db" where
  "prune dead d =
     (let ids = ep_id ` set (filter dead (ed_events d))
      in (int (length (filter dead (ed_events d))),
          d\<lparr>ed_index := filter (\<lambda>x. fx_event x \<notin> Some ` ids) (ed_index d),
            ed_events := filter (\<lambda>e. \<not> dead e) (ed_events d)\<rparr>))"

definition trim_recall_traces :: "real \<Rightarrow> real \<Rightarrow> episodic_db \<Rightarrow> int \<times> episodic_db" where
  "trim_recall_traces tnow max_age = prune (\<lambda>e. \<not> is_memory e \<and> ep_at e < tnow - max_age)"

definition cleanup_expired :: "real \<Rightarrow> real \<Rightarrow> episodic_db \<Rightarrow> int \<times> episodic_db" where
  "cleanup_expired tnow max_age = prune (\<lambda>e. ep_at e < tnow - max_age)"

definition owns_row :: "episode \<Rightarrow> fts_row \<Rightarrow> bool" where
  "owns_row e x \<longleftrightarrow> fx_event x = Some (ep_id e) \<and> fx_agent x = Some (ep_agent e)"

definition unindexed :: "fts_row list \<Rightarrow> episode list \<Rightarrow> episode list" where
  "unindexed index es = filter (\<lambda>e. ep_content e \<noteq> None \<and> \<not> list_ex (owns_row e) index) es"

record reconciled =
  rc_missing :: int
  rc_inserted :: int
  rc_removed :: int

definition reconcile_episodic_fts :: "episodic_db \<Rightarrow> reconciled \<times> episodic_db" where
  "reconcile_episodic_fts d =
     (let kept = filter (\<lambda>x. list_ex (\<lambda>e. owns_row e x) (ed_events d)) (ed_index d);
          new = unindexed kept (ed_events d);
          gone = int (length (ed_index d)) - int (length kept)
      in (\<lparr>rc_missing = int (length new), rc_inserted = int (length new), rc_removed = gone\<rparr>,
          d\<lparr>ed_index := kept @ map index_row new\<rparr>))"

subsection \<open>Coverage\<close>

record coverage =
  cv_total :: nat
  cv_indexed :: nat
  cv_missing :: nat
  cv_ratio :: "real option"
  cv_observability :: nat
  cv_orphans :: nat

definition recallable :: "episode \<Rightarrow> bool" where
  "recallable e \<longleftrightarrow> ep_content e \<noteq> None \<and> is_memory e"

definition episodic_index_coverage :: "episodic_db \<Rightarrow> coverage" where
  "episodic_index_coverage d =
     (let mem = filter recallable (ed_events d);
          total = length mem;
          indexed = card (ep_id ` {e \<in> set mem. list_ex (owns_row e) (ed_index d)})
      in \<lparr>cv_total = total, cv_indexed = indexed, cv_missing = total - indexed,
          cv_ratio = (if total = 0 then None else Some (round4 (real indexed / real total))),
          cv_observability = length (filter (\<lambda>e. \<not> is_memory e) (ed_events d)),
          cv_orphans = length (filter (\<lambda>x. case fx_event x of None \<Rightarrow> True
                         | Some i \<Rightarrow> i \<notin> ep_id ` set (ed_events d)) (ed_index d))\<rparr>)"

section \<open>Reading\<close>

text \<open>SQL's LIMIT: a negative number is none.\<close>

definition sql_limit :: "int \<Rightarrow> 'a list \<Rightarrow> 'a list" where
  "sql_limit n xs = (if n < 0 then xs else take (nat n) xs)"

definition get_recent_events :: "string \<Rightarrow> int \<Rightarrow> episodic_db \<Rightarrow> episode list" where
  "get_recent_events agent limit d =
     sql_limit limit (sort_desc ep_at (filter (\<lambda>e. ep_agent e = agent) (ed_events d)))"

definition round2 :: "real \<Rightarrow> real" where
  "round2 x = of_int (round_half_even (x * 100)) / 100"

definition get_task_history :: "string \<Rightarrow> int \<Rightarrow> episodic_db \<Rightarrow> (task_row \<times> real) list" where
  "get_task_history agent limit d =
     map (\<lambda>t. (t, case tk_end t of None \<Rightarrow> 0 | Some x \<Rightarrow> if x = 0 then 0 else round2 (x - tk_start t)))
       (sql_limit limit (sort_desc tk_start (filter (\<lambda>t. tk_agent t = agent) (ed_tasks d))))"

text \<open>None: no such thread.\<close>

definition get_thread_context ::
  "string \<Rightarrow> int \<Rightarrow> int list \<Rightarrow> episodic_db \<Rightarrow> (thread_row \<times> episode list \<times> (int \<times> real) list) option" where
  "get_thread_context thread limit docs d =
     (case filter (\<lambda>t. td_id t = thread) (ed_threads d) of
        [] \<Rightarrow> None
      | t # _ \<Rightarrow> Some (t,
          sql_limit limit (sort_key ep_at (filter (\<lambda>e. ep_thread e = Some thread) (ed_events d))),
          take 10 (sort_desc snd (List.map_filter
            (\<lambda>((th, doc), sim, made). if th = thread \<and> doc \<in> set docs then Some (doc, sim) else None) (ed_links d)))))"

text \<open>\<open>matching\<close> ranks the index rows that match a query.\<close>

definition search_episodic ::
  "(string \<Rightarrow> fts_row list \<Rightarrow> fts_row list) \<Rightarrow> string \<Rightarrow> string option \<Rightarrow> int \<Rightarrow> string list
    \<Rightarrow> episodic_db \<Rightarrow> (fts_row \<times> episode) list" where
  "search_episodic matching query agent limit excluded d =
     (let q = sanitize_fts_query query
      in if q = [] then []
         else sql_limit limit (concat (map (\<lambda>x.
           map (Pair x) (filter (\<lambda>e. fx_event x = Some (ep_id e) \<and> ep_type e \<notin> set excluded
                \<and> (or_text agent [] = [] \<or> fx_agent x = agent)) (ed_events d)))
             (matching q (ed_index d)))))"

subsection \<open>\<^verbatim>\<open>handle_list_events\<close>\<close>

text \<open>The optional text filters of a request; None where the value is of another type.\<close>

definition text_filter :: "json \<Rightarrow> string option option" where
  "text_filter v = (case v of JNull \<Rightarrow> Some None | JStr s \<Rightarrow> Some (Some s) | _ \<Rightarrow> None)"

definition int64 :: "int \<Rightarrow> bool" where
  "int64 n \<longleftrightarrow> - (2 ^ 63) \<le> n \<and> n < 2 ^ 63"

definition select_events ::
  "int \<Rightarrow> string option \<Rightarrow> string option \<Rightarrow> nat \<Rightarrow> episodic_db \<Rightarrow> episode list" where
  "select_events since agent etype limit d =
     take limit (sort_key ep_id (filter (\<lambda>e. since < ep_id e \<and> (agent = None \<or> agent = Some (ep_agent e))
       \<and> (etype = None \<or> etype = Some (ep_type e))) (ed_events d)))"

datatype listing = Page "episode list" int | Refused json

text \<open>The filter a principal may use; None is the refusal.\<close>

definition event_scope :: "effective_principal \<Rightarrow> string option \<Rightarrow> string option option" where
  "event_scope p wanted =
     (if allows_cross_agent_recall p then Some wanted
      else if wanted \<noteq> None \<and> wanted \<noteq> Some (p_agent_id p) then None
      else Some (Some (p_agent_id p)))"

definition handle_list_events :: "gate \<Rightarrow> call_params \<Rightarrow> json \<Rightarrow> episodic_db \<Rightarrow> pyerr + listing" where
  "handle_list_events g params rid d =
     (let wire = cp_wire params; bad = (\<lambda>m. Inr (Refused (make_error (-32602) m rid JNull)))
      in case handler_principal g params rid ''agent_id'' of
        Inl exc \<Rightarrow> Inl exc
      | Inr (Inl err) \<Rightarrow> Inr (Refused err)
      | Inr (Inr p) \<Rightarrow>
          (case (jget_or (JInt 0) wire ''since_id'', jget_or (JInt 50) wire ''limit'') of
             (JInt since, JInt n) \<Rightarrow>
               if n < 1 then bad ''limit must be >= 1''
               else (case (text_filter (jget wire ''agent_id''), text_filter (jget wire ''event_type'')) of
                 (None, _) \<Rightarrow> bad ''agent_id must be a string''
               | (Some _, None) \<Rightarrow> bad ''event_type must be a string''
               | (Some wanted, Some etype) \<Rightarrow>
                   (case event_scope p wanted of
                      None \<Rightarrow> Inr (Refused (make_capability_denied_error ''cross_agent'' ''list_events'' rid (p_agent_id p)))
                    | Some agent \<Rightarrow>
                        if \<not> int64 since
                        then Inr (Refused (make_error (-32000)
                               ''list_events error: Python int too large to convert to SQLite INTEGER'' rid JNull))
                        else let es = select_events since agent etype (nat (min n 200)) d
                             in Inr (Page es (if es = [] then since else ep_id (last es)))))
           | (JInt since, _) \<Rightarrow> bad ''limit must be an integer''
           | _ \<Rightarrow> bad ''since_id must be an integer''))"

end
