(* ===== verification/Episodic_Laws.thy ===== *)
theory Episodic_Laws
  imports Episodic
begin

text \<open>
  What the log of events promises: its index is exact over every history, repair restores
  reachability from any state, readers see their own events, and paging loses none.
\<close>

section \<open>The index is exact\<close>

definition indexed_events :: "episode list \<Rightarrow> fts_row list" where
  "indexed_events es = map index_row (filter (\<lambda>e. ep_content e \<noteq> None) es)"

definition episodic_wf :: "episodic_db \<Rightarrow> bool" where
  "episodic_wf d \<longleftrightarrow> distinct (map ep_id (ed_events d)) \<and> list_all (\<lambda>e. ep_id e < ed_next d) (ed_events d)
     \<and> ed_index d = indexed_events (ed_events d)"

lemma insert_wf: "episodic_wf d \<Longrightarrow> ed_next d = ep_id e \<Longrightarrow> episodic_wf (insert_episode e d)"
  by (auto simp: episodic_wf_def insert_episode_def indexed_events_def list_all_iff)

lemma bind_tables [simp]:
  "ed_events (semantic_thread_bind f th t a b d) = ed_events d"
  "ed_index (semantic_thread_bind f th t a b d) = ed_index d"
  "ed_next (semantic_thread_bind f th t a b d) = ed_next d"
  by (simp_all add: semantic_thread_bind_def split: option.split)

lemma wf_cong:
  "ed_events d' = ed_events d \<Longrightarrow> ed_index d' = ed_index d \<Longrightarrow> ed_next d' = ed_next d \<Longrightarrow> episodic_wf d' = episodic_wf d"
  by (simp add: episodic_wf_def)

lemma add_wf: "episodic_wf d \<Longrightarrow> episodic_wf (snd (add_event f th t agent etype content task thread b d))"
proof -
  assume "episodic_wf d"
  then have "episodic_wf (insert_episode \<lparr>ep_id = ed_next d, ep_agent = agent, ep_type = etype, ep_content = content,
      ep_task = task, ep_thread = thread, ep_at = t\<rparr> d)"
    by (rule insert_wf) simp
  then show ?thesis by (simp add: add_event_def Let_def wf_cong [OF bind_tables])
qed

lemma pruned_index:
  assumes "distinct (map ep_id es)"
  shows "filter (\<lambda>x. fx_event x \<notin> Some ` ep_id ` {e \<in> set es. dead e}) (indexed_events es)
    = indexed_events (filter (\<lambda>e. \<not> dead e) es)"
proof -
  have "ep_id e \<in> ep_id ` {e \<in> set es. dead e} \<longleftrightarrow> dead e" if "e \<in> set es" for e
    using that assms by (auto simp: distinct_map inj_on_def)
  then show ?thesis
    unfolding indexed_events_def filter_map filter_filter
    by (intro arg_cong [where f = "map index_row"] filter_cong) (auto simp: index_row_def)
qed

lemma prune_wf: "episodic_wf d \<Longrightarrow> episodic_wf (snd (prune dead d))"
  by (simp add: episodic_wf_def prune_def Let_def pruned_index list_all_iff distinct_map_filter)

lemma owner_of_index: "x \<in> set (indexed_events es) \<Longrightarrow> \<exists>e \<in> set es. owns_row e x \<and> fx_text x = ep_content e \<and> ep_content e \<noteq> None"
  by (auto simp: indexed_events_def owns_row_def index_row_def)

lemma index_of_owner: "e \<in> set es \<Longrightarrow> ep_content e \<noteq> None \<Longrightarrow> \<exists>x \<in> set (indexed_events es). owns_row e x"
  by (auto simp: indexed_events_def owns_row_def index_row_def)

lemma exact_needs_no_repair:
  assumes "ed_index d = indexed_events (ed_events d)"
  shows "reconcile_episodic_fts d = (\<lparr>rc_missing = 0, rc_inserted = 0, rc_removed = 0\<rparr>, d)"
proof -
  have k: "filter (\<lambda>x. list_ex (\<lambda>e. owns_row e x) (ed_events d)) (ed_index d) = ed_index d"
    using assms owner_of_index by (intro filter_True) (fastforce simp: list_ex_iff)
  have n: "unindexed (ed_index d) (ed_events d) = []"
    using assms index_of_owner by (fastforce simp: unindexed_def filter_empty_conv list_ex_iff)
  show ?thesis by (simp add: reconcile_episodic_fts_def k n Let_def)
qed

text \<open>Everything that writes the log.\<close>

datatype episodic_op =
    AddEvent "string \<Rightarrow> (int \<times> real) list option" real real string string "string option" "string option" "string option" bool
  | StartTask "string \<Rightarrow> (int \<times> real) list option" real real string string string
  | EndTask "string \<Rightarrow> (int \<times> real) list option" real real string string string string
  | CreateThread real string string int
  | TrimTraces real real
  | CleanupExpired real real
  | Reconcile

fun episodic_step :: "episodic_op \<Rightarrow> episodic_db \<Rightarrow> episodic_db" where
  "episodic_step (AddEvent f th t agent etype content task thread b) d = snd (add_event f th t agent etype content task thread b d)"
| "episodic_step (StartTask f th t agent task description) d = start_task f th t agent task description d"
| "episodic_step (EndTask f th t agent task status result) d = end_task f th t agent task status result d"
| "episodic_step (CreateThread t thread title agents) d = create_thread t thread title agents d"
| "episodic_step (TrimTraces t age) d = snd (trim_recall_traces t age d)"
| "episodic_step (CleanupExpired t age) d = snd (cleanup_expired t age d)"
| "episodic_step Reconcile d = snd (reconcile_episodic_fts d)"

lemma step_wf: "episodic_wf d \<Longrightarrow> episodic_wf (episodic_step op d)"
proof (cases op)
  case Reconcile
  assume "episodic_wf d"
  then have "ed_index d = indexed_events (ed_events d)" by (simp add: episodic_wf_def)
  then show ?thesis using Reconcile \<open>episodic_wf d\<close> by (simp add: exact_needs_no_repair)
next
  case (StartTask f th t agent task description)
  assume wf: "episodic_wf d"
  show ?thesis unfolding StartTask episodic_step.simps start_task_def
    by (rule add_wf) (use wf in \<open>simp add: episodic_wf_def\<close>)
next
  case (EndTask f th t agent task status result)
  assume wf: "episodic_wf d"
  show ?thesis unfolding EndTask episodic_step.simps end_task_def
    by (rule add_wf) (use wf in \<open>simp add: episodic_wf_def\<close>)
next
  case (CreateThread t thread title agents)
  assume wf: "episodic_wf d"
  then show ?thesis unfolding CreateThread by (simp add: create_thread_def episodic_wf_def)
qed (simp_all add: add_wf prune_wf trim_recall_traces_def cleanup_expired_def)

lemma steps_wf: "episodic_wf d \<Longrightarrow> episodic_wf (fold episodic_step ops d)"
  by (induction ops arbitrary: d) (simp_all add: step_wf)

lemma start_wf: "episodic_wf no_events"
  by (simp add: episodic_wf_def no_events_def indexed_events_def)

section \<open>Searching\<close>

lemma sql_limit_subset: "set (sql_limit n xs) \<subseteq> set xs"
  by (auto simp: sql_limit_def dest: in_set_takeD)

text \<open>
  C16. After any history of events, tasks, pruning and repair, an episodic search for an agent
  finds only events of that agent that still exist and are memories, with the text the index
  matched being the event's own.
\<close>

theorem episodic_search_sound:
  assumes "\<And>ix. set (matching (sanitize_fts_query query) ix) \<subseteq> set ix" and "agent \<noteq> []"
    and "fold episodic_step ops no_events = d"
    and "(x, e) \<in> set (search_episodic matching query (Some agent) limit NON_MEMORY_EVENT_TYPES d)"
  shows "e \<in> set (ed_events d) \<and> ep_agent e = agent \<and> is_memory e \<and> ep_content e \<noteq> None \<and> fx_text x = ep_content e"
proof -
  have wf: "episodic_wf d" using steps_wf [OF start_wf] assms(3) by blast
  have in_pair: "\<exists>x' \<in> set (matching (sanitize_fts_query query) (ed_index d)). x' = x \<and> e \<in> set (ed_events d)
      \<and> fx_event x = Some (ep_id e) \<and> is_memory e \<and> fx_agent x = Some agent"
    using assms(4) sql_limit_subset assms(2)
    by (fastforce simp: search_episodic_def Let_def or_text_def is_memory_def split: if_splits)
  then have "x \<in> set (indexed_events (ed_events d))" using assms(1) wf by (auto simp: episodic_wf_def)
  then obtain e' where e': "e' \<in> set (ed_events d)" "owns_row e' x" "fx_text x = ep_content e'" "ep_content e' \<noteq> None"
    using owner_of_index by blast
  then have "ep_id e' = ep_id e" using in_pair by (simp add: owns_row_def)
  then have "e' = e" using wf e'(1) in_pair by (auto simp: episodic_wf_def distinct_map inj_on_def)
  then show ?thesis using e' in_pair by (auto simp: owns_row_def)
qed

section \<open>Repair\<close>

definition reachable :: "episodic_db \<Rightarrow> episode \<Rightarrow> bool" where
  "reachable d e \<longleftrightarrow> list_ex (owns_row e) (ed_index d)"

lemma reconcile_fields:
  assumes "reconcile_episodic_fts d = (r, d')"
  shows "ed_events d' = ed_events d"
    "ed_index d' = filter (\<lambda>x. list_ex (\<lambda>e. owns_row e x) (ed_events d)) (ed_index d)
       @ map index_row (unindexed (filter (\<lambda>x. list_ex (\<lambda>e. owns_row e x) (ed_events d)) (ed_index d)) (ed_events d))"
    "rc_missing r = rc_inserted r"
    "rc_inserted r = int (length (unindexed (filter (\<lambda>x. list_ex (\<lambda>e. owns_row e x) (ed_events d)) (ed_index d)) (ed_events d)))"
  using assms by (auto simp: reconcile_episodic_fts_def Let_def)

lemma kept_owner:
  "e \<in> set es \<Longrightarrow> list_ex (owns_row e) (filter (\<lambda>x. list_ex (\<lambda>e. owns_row e x) es) ix) \<longleftrightarrow> list_ex (owns_row e) ix"
  by (auto simp: list_ex_iff)

lemma unindexed_kept:
  "unindexed (filter (\<lambda>x. list_ex (\<lambda>e. owns_row e x) es) ix) es = unindexed ix es"
  unfolding unindexed_def by (rule filter_cong) (simp_all add: kept_owner)

theorem reconcile_repairs:
  assumes "reconcile_episodic_fts d = (r, d')"
  shows "ed_events d' = ed_events d
    \<and> list_all (\<lambda>e. ep_content e \<noteq> None \<longrightarrow> reachable d' e) (ed_events d')
    \<and> list_all (\<lambda>x. list_ex (\<lambda>e. owns_row e x) (ed_events d')) (ed_index d')
    \<and> rc_inserted r = int (length (filter (\<lambda>e. ep_content e \<noteq> None \<and> \<not> reachable d e) (ed_events d)))
    \<and> reconcile_episodic_fts d' = (\<lparr>rc_missing = 0, rc_inserted = 0, rc_removed = 0\<rparr>, d')"
proof -
  note f = reconcile_fields [OF assms, unfolded unindexed_kept]
  have own: "owns_row e (index_row e)" for e by (simp add: owns_row_def index_row_def)
  have reach: "list_ex (owns_row e) (ed_index d')" if "e \<in> set (ed_events d)" "ep_content e \<noteq> None" for e
  proof (cases "list_ex (owns_row e) (ed_index d)")
    case True
    then have "list_ex (owns_row e) (filter (\<lambda>x. list_ex (\<lambda>e. owns_row e x) (ed_events d)) (ed_index d))"
      using kept_owner [OF that(1)] by blast
    then show ?thesis unfolding f(2) list_ex_append by blast
  next
    case False
    then have "e \<in> set (unindexed (ed_index d) (ed_events d))" using that by (simp add: unindexed_def)
    then have "list_ex (owns_row e) (map index_row (unindexed (ed_index d) (ed_events d)))"
      using own by (auto simp: list_ex_iff)
    then show ?thesis unfolding f(2) list_ex_append by blast
  qed
  have owned: "list_ex (\<lambda>e. owns_row e x) (ed_events d)" if "x \<in> set (ed_index d')" for x
    using that own unfolding f(2) by (auto simp: list_ex_iff unindexed_def)
  have "filter (\<lambda>x. list_ex (\<lambda>e. owns_row e x) (ed_events d')) (ed_index d') = ed_index d'"
    using owned by (intro filter_True) (simp add: f(1))
  moreover have "unindexed (ed_index d') (ed_events d') = []"
    unfolding unindexed_def f(1) filter_empty_conv using reach by blast
  ultimately have "reconcile_episodic_fts d' = (\<lparr>rc_missing = 0, rc_inserted = 0, rc_removed = 0\<rparr>, d')"
    by (simp add: reconcile_episodic_fts_def Let_def)
  moreover have "rc_inserted r = int (length (filter (\<lambda>e. ep_content e \<noteq> None \<and> \<not> reachable d e) (ed_events d)))"
    unfolding f(4) unindexed_def reachable_def ..
  moreover have "list_all (\<lambda>e. ep_content e \<noteq> None \<longrightarrow> reachable d' e) (ed_events d')"
    unfolding list_all_iff f(1) reachable_def using reach by blast
  moreover have "list_all (\<lambda>x. list_ex (\<lambda>e. owns_row e x) (ed_events d')) (ed_index d')"
    unfolding list_all_iff f(1) using owned by blast
  ultimately show ?thesis using f(1) by blast
qed

text \<open>The report of \<^verbatim>\<open>backfill.py\<close> and the repair agree on what is missing.\<close>

theorem repair_closes_reported_gap:
  assumes "distinct (map ep_id (ed_events d))" and "reconcile_episodic_fts d = (r, d')"
  shows "cv_missing (episodic_index_coverage d') = 0 \<and> cv_orphans (episodic_index_coverage d') = 0
    \<and> cv_indexed (episodic_index_coverage d') = cv_total (episodic_index_coverage d')
    \<and> (cv_total (episodic_index_coverage d') = 0 \<or> cv_ratio (episodic_index_coverage d') = Some 1)
    \<and> int (cv_missing (episodic_index_coverage d)) \<le> rc_inserted r
    \<and> reconcile_episodic_fts d' = (\<lparr>rc_missing = 0, rc_inserted = 0, rc_removed = 0\<rparr>, d')"
proof -
  note rep = reconcile_repairs [OF assms(2)]
  let ?mem = "\<lambda>d. filter recallable (ed_events d)"
  have ev: "ed_events d' = ed_events d" using rep by blast
  have dis: "distinct (map ep_id (?mem e))" if "distinct (map ep_id (ed_events e))" for e
    using that by (rule distinct_map_filter)
  have all: "{e \<in> set (?mem d'). list_ex (owns_row e) (ed_index d')} = set (?mem d')"
    using rep by (auto simp: list_all_iff reachable_def recallable_def)
  have idx: "cv_indexed (episodic_index_coverage d') = length (?mem d')"
    unfolding episodic_index_coverage_def Let_def coverage.simps all
    using distinct_card [OF dis [of d']] assms(1) ev by simp
  have tot: "cv_total (episodic_index_coverage e) = length (?mem e)" for e
    by (simp add: episodic_index_coverage_def Let_def)
  have orph: "filter (\<lambda>x. case fx_event x of None \<Rightarrow> True | Some i \<Rightarrow> i \<notin> ep_id ` set (ed_events d')) (ed_index d') = []"
    using rep by (fastforce simp: filter_empty_conv list_all_iff list_ex_iff owns_row_def)
  have miss: "cv_missing (episodic_index_coverage e) = cv_total (episodic_index_coverage e) - cv_indexed (episodic_index_coverage e)" for e
    by (simp add: episodic_index_coverage_def Let_def)
  have "cv_missing (episodic_index_coverage d) \<le> length (filter (\<lambda>e. ep_content e \<noteq> None \<and> \<not> reachable d e) (ed_events d))"
  proof -
    have "inj_on ep_id {e \<in> set (?mem d). list_ex (owns_row e) (ed_index d)}"
      using assms(1) by (auto simp: distinct_map inj_on_def)
    then have "cv_indexed (episodic_index_coverage d) = card {e \<in> set (?mem d). list_ex (owns_row e) (ed_index d)}"
      unfolding episodic_index_coverage_def Let_def coverage.simps by (rule card_image)
    also have "\<dots> = card (set (filter (reachable d) (?mem d)))"
      by (rule arg_cong [where f = card]) (auto simp: reachable_def)
    also have "\<dots> = length (filter (reachable d) (?mem d))"
      using assms(1) by (intro distinct_card) (simp add: distinct_map)
    finally have "cv_missing (episodic_index_coverage d) = length (filter (\<lambda>e. \<not> reachable d e) (?mem d))"
      unfolding miss tot using sum_length_filter_compl [of "reachable d" "?mem d"] by simp
    also have "\<dots> \<le> length (filter (\<lambda>e. ep_content e \<noteq> None \<and> \<not> reachable d e) (ed_events d))"
      unfolding filter_filter by (rule length_filter_mono) (simp add: recallable_def)
    finally show ?thesis .
  qed
  then have "int (cv_missing (episodic_index_coverage d)) \<le> rc_inserted r" using rep by simp
  moreover have "cv_total (episodic_index_coverage d') = 0 \<or> cv_ratio (episodic_index_coverage d') = Some 1"
    using idx tot [of d'] by (auto simp: episodic_index_coverage_def Let_def round4_def round_half_even_def)
  moreover have "cv_orphans (episodic_index_coverage d') = 0"
    unfolding episodic_index_coverage_def Let_def coverage.simps orph by simp
  ultimately show ?thesis using idx tot [of d'] miss [of d'] rep by simp
qed

text \<open>The repair looks at ids and agents only: a stale text stays in the index.\<close>

definition stale_log :: episodic_db where
  "stale_log = no_events\<lparr>ed_events := [\<lparr>ep_id = 1, ep_agent = ''codex'', ep_type = ''message'', ep_content = Some ''new'',
     ep_task = None, ep_thread = None, ep_at = 0\<rparr>],
     ed_index := [\<lparr>fx_event = Some 1, fx_agent = Some ''codex'', fx_text = Some ''old''\<rparr>], ed_next := 2\<rparr>"

theorem stale_text_survives:
  "reconcile_episodic_fts stale_log = (\<lparr>rc_missing = 0, rc_inserted = 0, rc_removed = 0\<rparr>, stale_log)
   \<and> \<not> episodic_wf stale_log"
  by (simp add: reconcile_episodic_fts_def stale_log_def unindexed_def owns_row_def Let_def episodic_wf_def
      indexed_events_def index_row_def no_events_def)

section \<open>Listing and paging\<close>

definition visible_events :: "string option \<Rightarrow> string option \<Rightarrow> episodic_db \<Rightarrow> episode list" where
  "visible_events agent etype d =
     sort_key ep_id (filter (\<lambda>e. (agent = None \<or> agent = Some (ep_agent e)) \<and> (etype = None \<or> etype = Some (ep_type e)))
       (ed_events d))"

lemma select_visible:
  "select_events since agent etype n d = take n (filter (\<lambda>e. since < ep_id e) (visible_events agent etype d))"
  unfolding select_events_def visible_events_def filter_sort filter_filter
  by (rule arg_cong [where f = "\<lambda>P. take n (sort_key ep_id (filter P (ed_events d)))"]) auto

lemma last_after: "es = select_events since agent etype n d \<Longrightarrow> es \<noteq> [] \<Longrightarrow>
  since < ep_id (last es) \<and> last es \<in> set (visible_events agent etype d)"
proof -
  assume es: "es = select_events since agent etype n d" "es \<noteq> []"
  then have "last es \<in> set es" by simp
  then show ?thesis unfolding es(1) select_visible by (auto dest: in_set_takeD)
qed

text \<open>A client that pages with the last id of the page before.\<close>

function read_pages :: "string option \<Rightarrow> string option \<Rightarrow> nat \<Rightarrow> episodic_db \<Rightarrow> int \<Rightarrow> episode list list" where
  "read_pages agent etype n d since =
     (let es = select_events since agent etype n d
      in if es = [] then [] else es # read_pages agent etype n d (ep_id (last es)))"
  by pat_completeness auto

termination
proof (relation "measure (\<lambda>(agent, etype, n, d, since). length (filter (\<lambda>e. since < ep_id e) (visible_events agent etype d)))")
  fix agent etype n d since es
  assume es: "es = select_events since agent etype n d" "es \<noteq> []"
  note l = last_after [OF es]
  let ?V = "visible_events agent etype d"
  have "filter (\<lambda>e. ep_id (last es) < ep_id e) ?V = filter (\<lambda>e. ep_id (last es) < ep_id e) (filter (\<lambda>e. since < ep_id e) ?V)"
    unfolding filter_filter using l by (intro filter_cong) auto
  also have "length \<dots> < length (filter (\<lambda>e. since < ep_id e) ?V)"
    using l by (intro length_filter_less [of "last es"]) auto
  finally show "((agent, etype, n, d, ep_id (last es)), agent, etype, n, d, since)
      \<in> measure (\<lambda>(agent, etype, n, d, since). length (filter (\<lambda>e. since < ep_id e) (visible_events agent etype d)))"
    by simp
qed simp

declare read_pages.simps [simp del]

lemma after_last:
  fixes f :: "'a \<Rightarrow> int"
  assumes "sorted_wrt (\<lambda>x y. f x < f y) xs" and "take n (filter (\<lambda>e. s < f e) xs) = es" and "es \<noteq> []"
  shows "filter (\<lambda>e. s < f e) xs = es @ filter (\<lambda>e. f (last es) < f e) xs"
proof -
  let ?X = "filter (\<lambda>e. s < f e) xs"
  have so: "sorted_wrt (\<lambda>x y. f x < f y) ?X" using assms(1) by (rule sorted_wrt_filter)
  have dec: "?X = es @ drop n ?X" using assms(2) by (metis append_take_drop_id)
  have s: "s < f (last es)"
  proof -
    have "last es \<in> set ?X" using assms(2,3) by (metis in_set_takeD last_in_set)
    then show ?thesis by simp
  qed
  have le: "\<not> f (last es) < f e" if "e \<in> set es" for e
  proof -
    have "sorted_wrt (\<lambda>x y. f x < f y) es" using so dec by (metis sorted_wrt_append)
    moreover have "es = butlast es @ [last es]" using assms(3) by simp
    ultimately show ?thesis using that by (metis (no_types, lifting) order.asym order.irrefl Un_iff empty_iff empty_set
      set_append set_ConsD sorted_wrt_append list.set_intros(1))
  qed
  have gt: "f (last es) < f e" if "e \<in> set (drop n ?X)" for e
    using so dec that assms(3) by (metis last_in_set sorted_wrt_append)
  have "filter (\<lambda>e. f (last es) < f e) xs = filter (\<lambda>e. f (last es) < f e) ?X"
    unfolding filter_filter using s by (intro filter_cong) auto
  also have "\<dots> = filter (\<lambda>e. f (last es) < f e) es @ filter (\<lambda>e. f (last es) < f e) (drop n ?X)"
    by (subst dec) simp
  also have "filter (\<lambda>e. f (last es) < f e) es = []" using le by (simp add: filter_empty_conv)
  also have "filter (\<lambda>e. f (last es) < f e) (drop n ?X) = drop n ?X" using gt by (simp add: filter_id_conv)
  finally show ?thesis using dec by simp
qed

lemma visible_increasing:
  assumes "distinct (map ep_id (ed_events d))"
  shows "sorted_wrt (\<lambda>x y. ep_id x < ep_id y) (visible_events agent etype d)"
proof -
  let ?V = "visible_events agent etype d"
  have "sorted (map ep_id ?V)" by (simp add: visible_events_def)
  moreover have "distinct (map ep_id ?V)"
    unfolding visible_events_def using assms distinct_map_filter
    by (metis (no_types, lifting) distinct_map distinct_sort set_sort)
  ultimately have "sorted_wrt (<) (map ep_id ?V)" by (simp add: strict_sorted_iff)
  then show ?thesis by (simp add: sorted_wrt_map)
qed

theorem pages_lose_no_event:
  assumes "distinct (map ep_id (ed_events d))" and "0 < n"
  shows "concat (read_pages agent etype n d since) = filter (\<lambda>e. since < ep_id e) (visible_events agent etype d)
    \<and> list_all (\<lambda>p. 0 < length p \<and> length p \<le> n) (read_pages agent etype n d since)"
  using assms
proof (induction agent etype n d since rule: read_pages.induct)
  case (1 agent etype n d since)
  let ?es = "select_events since agent etype n d" and ?V = "visible_events agent etype d"
  show ?case
  proof (cases "?es = []")
    case True
    then have "filter (\<lambda>e. since < ep_id e) ?V = []" using 1 by (simp add: select_visible)
    then show ?thesis using True by (subst (1 2) read_pages.simps) simp
  next
    case False
    have "filter (\<lambda>e. since < ep_id e) ?V = ?es @ filter (\<lambda>e. ep_id (last ?es) < ep_id e) ?V"
      by (rule after_last [OF visible_increasing _ False, where n = n]) (use 1 in \<open>simp_all add: select_visible\<close>)
    moreover have "length ?es \<le> n" by (simp add: select_events_def)
    moreover have "read_pages agent etype n d since = ?es # read_pages agent etype n d (ep_id (last ?es))"
      by (subst read_pages.simps) (simp add: False Let_def)
    ultimately show ?thesis using 1 False by simp
  qed
qed

theorem list_events_scoped:
  assumes "handle_list_events g params rid d = Inr (Page es l)"
    and "handler_principal g params rid ''agent_id'' = Inr (Inr p)"
  shows "\<exists>since agent etype n. jget_or (JInt 0) (cp_wire params) ''since_id'' = JInt since
    \<and> 0 < n \<and> n \<le> 200 \<and> es = select_events since agent etype n d
    \<and> l = (if es = [] then since else ep_id (last es))
    \<and> (\<not> allows_cross_agent_recall p \<longrightarrow> agent = Some (p_agent_id p) \<and> list_all (\<lambda>e. ep_agent e = p_agent_id p) es)"
proof -
  obtain since n wanted etype agent where
    q: "jget_or (JInt 0) (cp_wire params) ''since_id'' = JInt since" "\<not> n < 1" "event_scope p wanted = Some agent"
    and es: "es = select_events since agent etype (nat (min n 200)) d" "l = (if es = [] then since else ep_id (last es))"
    using assms by (auto simp: handle_list_events_def Let_def split: json.splits if_splits option.splits; metis)
  have "agent = Some (p_agent_id p)" if "\<not> allows_cross_agent_recall p"
    using q(3) that by (simp add: event_scope_def split: if_splits)
  moreover have "list_all (\<lambda>e. ep_agent e = a) es" if "agent = Some a" for a
    unfolding es(1) select_visible that by (auto simp: list_all_iff visible_events_def dest!: in_set_takeD)
  ultimately show ?thesis using q es
    by (intro exI [of _ since] exI [of _ agent] exI [of _ etype] exI [of _ "nat (min n 200)"]) auto
qed

section \<open>A concrete log\<close>

definition demo_log :: "episodic_op list" where
  "demo_log = [AddEvent (\<lambda>_. None) 1 10 ''codex'' ''message'' (Some ''plan'') None None True,
     AddEvent (\<lambda>_. None) 1 20 ''main'' ''recall'' (Some ''plan'') None None False,
     AddEvent (\<lambda>_. None) 1 30 ''codex'' ''message'' None None None True,
     TrimTraces 1000 100, Reconcile]"

lemma demo_log_run: "fold episodic_step demo_log no_events
  = no_events\<lparr>ed_events := [\<lparr>ep_id = 1, ep_agent = ''codex'', ep_type = ''message'', ep_content = Some ''plan'',
        ep_task = None, ep_thread = None, ep_at = 10\<rparr>,
      \<lparr>ep_id = 3, ep_agent = ''codex'', ep_type = ''message'', ep_content = None, ep_task = None, ep_thread = None, ep_at = 30\<rparr>],
      ed_index := [\<lparr>fx_event = Some 1, fx_agent = Some ''codex'', fx_text = Some ''plan''\<rparr>], ed_next := 4\<rparr>"
  by (simp add: demo_log_def add_event_def insert_episode_def no_events_def index_row_def or_text_def Let_def
      trim_recall_traces_def prune_def is_memory_def NON_MEMORY_EVENT_TYPES_def reconcile_episodic_fts_def owns_row_def
      unindexed_def)

theorem episodic_search_sound_witness:
  "\<exists>x e. (x, e) \<in> set (search_episodic (\<lambda>q ix. ix) ''plan'' (Some ''codex'') 5 NON_MEMORY_EVENT_TYPES
       (fold episodic_step demo_log no_events)) \<and> ep_agent e = ''codex'' \<and> fx_text x = ep_content e"
proof -
  obtain x e where h: "(x, e) \<in> set (search_episodic (\<lambda>q ix. ix) ''plan'' (Some ''codex'') 5 NON_MEMORY_EVENT_TYPES
       (fold episodic_step demo_log no_events))"
    by (simp add: demo_log_run search_episodic_def demo_query or_text_def sql_limit_def NON_MEMORY_EVENT_TYPES_def)
  from episodic_search_sound [OF _ _ refl h] show ?thesis using h by blast
qed

theorem repair_closes_reported_gap_witness:
  "\<exists>r d'. reconcile_episodic_fts ((fold episodic_step demo_log no_events)\<lparr>ed_index := []\<rparr>) = (r, d')
     \<and> rc_inserted r = 1 \<and> cv_missing (episodic_index_coverage d') = 0"
proof -
  let ?d = "(fold episodic_step demo_log no_events)\<lparr>ed_index := []\<rparr>"
  obtain r d' where r: "reconcile_episodic_fts ?d = (r, d')" by (cases "reconcile_episodic_fts ?d")
  have "distinct (map ep_id (ed_events ?d))" by (simp add: demo_log_run)
  note g = repair_closes_reported_gap [OF this r]
  have "rc_inserted r = 1"
    using r by (auto simp: demo_log_run reconcile_episodic_fts_def unindexed_def Let_def)
  then show ?thesis using r g by blast
qed

theorem pages_lose_no_event_witness:
  "map ep_id (concat (read_pages None None 1 (fold episodic_step demo_log no_events) 0)) = [1, 3]"
proof -
  let ?d = "fold episodic_step demo_log no_events"
  have "distinct (map ep_id (ed_events ?d))" by (simp add: demo_log_run)
  note g = pages_lose_no_event [OF this, of 1 None None 0]
  have "map ep_id (filter (\<lambda>e. 0 < ep_id e) (visible_events None None ?d)) = [1, 3]"
    by (simp add: demo_log_run visible_events_def)
  then show ?thesis using g by simp
qed

definition list_call :: "string \<Rightarrow> call_params" where
  "list_call agent = \<lparr>cp_wire = [], cp_principal = Some (demo_agent agent [] [])\<rparr>"

theorem list_events_scoped_witness:
  "\<forall>g rid. \<exists>es. handle_list_events g (list_call ''codex'') rid (fold episodic_step demo_log no_events) = Inr (Page es 3)
     \<and> list_all (\<lambda>e. ep_agent e = ''codex'') es"
proof (intro allI)
  fix g rid
  let ?p = "demo_agent ''codex'' [] []"
  have p: "handler_principal g (list_call ''codex'') rid ''agent_id'' = Inr (Inr ?p)"
    by (simp add: handler_principal_def list_call_def)
  have n: "\<not> allows_cross_agent_recall ?p"
    by (simp add: allows_cross_agent_recall_def demo_agent_def is_operator_principal_def)
  have "event_scope ?p None = Some (Some ''codex'')" using n by (simp add: event_scope_def demo_agent_def)
  then obtain es where h: "handle_list_events g (list_call ''codex'') rid (fold episodic_step demo_log no_events) = Inr (Page es 3)"
    using p by (simp add: handle_list_events_def list_call_def jget_or_def text_filter_def int64_def demo_log_run
        select_events_def)
  from list_events_scoped [OF h p] n have "list_all (\<lambda>e. ep_agent e = ''codex'') es"
    by (auto simp: demo_agent_def)
  then show "\<exists>es. handle_list_events g (list_call ''codex'') rid (fold episodic_step demo_log no_events) = Inr (Page es 3)
     \<and> list_all (\<lambda>e. ep_agent e = ''codex'') es"
    using h by blast
qed

end
