(* ===== verification/Expansion.thy ===== *)
theory Expansion
  imports Principal "HOL-Library.List_Lexorder" "HOL-Library.Char_ord" "HOL-Library.AList"
begin

text \<open>
  \<^verbatim>\<open>src/minni/graph_expansion.py\<close>: the neighbours of ranked seeds in the typed graph of
  learnings, over one and two hops.  The rows of one read snapshot are lists.  A deadline is the
  number of checks that still pass; \<open>None\<close> is \<^verbatim>\<open>RequestDeadlineExceeded\<close>.  Floats are reals.
\<close>

section \<open>Rows\<close>

record gnode =
  gn_id :: int
  gn_path :: string
  gn_agent :: string
  gn_sigil :: "string option"
  gn_privacy :: "string option"
  gn_status :: "string option"
  gn_type :: "string option"
  gn_kind :: "string option"

record glink =
  gl_source :: int
  gl_target :: int
  gl_type :: string
  gl_weight :: json
  gl_confidence :: json
  gl_run :: "string option"
  gl_model :: "string option"
  gl_method :: "string option"
  gl_status :: string

record gchunk =
  gc_id :: int
  gc_doc :: int
  gc_index :: int
  gc_text :: "string option"
  gc_heading :: "string option"

record graph =
  gr_nodes :: "gnode list"
  gr_links :: "glink list"
  gr_chunks :: "gchunk list"

section \<open>Constants\<close>

definition TYPE_FACTORS :: "(string \<times> real) list" where
  "TYPE_FACTORS = [(''updates'', 1), (''contradicts'', 95/100), (''extends'', 85/100),
     (''derived_from'', 75/100), (''wikilink'', 70/100), (''relates'', 55/100)]"

definition ALLOWED_LINK_TYPES :: "string list" where
  "ALLOWED_LINK_TYPES = map fst TYPE_FACTORS"

definition TWO_HOP_TYPES :: "string list" where
  "TWO_HOP_TYPES = [''updates'', ''extends'', ''derived_from'']"

definition HOP_DECAY :: real where "HOP_DECAY = 65/100"
definition MAX_SEEDS :: nat where "MAX_SEEDS = 8"
definition MAX_NEIGHBORS_PER_SEED :: nat where "MAX_NEIGHBORS_PER_SEED = 6"
definition MAX_GRAPH_CANDIDATES :: nat where "MAX_GRAPH_CANDIDATES = 12"
definition EDGE_PAGE_SIZE :: nat where "EDGE_PAGE_SIZE = 32"

definition CLOSED_STATUSES :: "string list" where
  "CLOSED_STATUSES = [''draft'', ''expired'', ''rejected'', ''superseded'']"

definition type_factor :: "string \<Rightarrow> real" where
  "type_factor t = (case map_of TYPE_FACTORS t of None \<Rightarrow> 0 | Some x \<Rightarrow> x)"

section \<open>Values\<close>

definition text_or :: "string option \<Rightarrow> string \<Rightarrow> string" where
  "text_or v d = (case v of None \<Rightarrow> d | Some s \<Rightarrow> if s = [] then d else s)"

fun finite_score :: "json \<Rightarrow> real option" where
  "finite_score (JInt n) = Some (of_int n)"
| "finite_score (JFloat (Fin x) _) = Some x"
| "finite_score _ = None"

definition finite_unit :: "json \<Rightarrow> real option" where
  "finite_unit v = (case finite_score v of None \<Rightarrow> None | Some x \<Rightarrow> if x < 0 \<or> x > 1 then None else Some x)"

definition legacy_or_unit :: "json \<Rightarrow> real option" where
  "legacy_or_unit v = (if v = JNull then Some 1 else finite_unit v)"

definition legacy_or_weight :: "json \<Rightarrow> real option" where
  "legacy_or_weight v = (if v = JNull then Some 1
     else case finite_score v of None \<Rightarrow> None | Some x \<Rightarrow> if x < 0 then None else Some x)"

text \<open>The given deadline against the one of the request; \<^verbatim>\<open>inf\<close> and text count as none.\<close>

definition validated_deadline :: "json \<Rightarrow> real option \<Rightarrow> real option" where
  "validated_deadline given ctx =
     (if given = JNull then ctx
      else case finite_score given of
        None \<Rightarrow> None
      | Some x \<Rightarrow> Some (case ctx of None \<Rightarrow> x | Some c \<Rightarrow> min x c))"

section \<open>Rows a principal may use\<close>

definition opt_json :: "string option \<Rightarrow> json" where
  "opt_json v = (case v of None \<Rightarrow> JNull | Some s \<Rightarrow> JStr s)"

definition node_json :: "string \<Rightarrow> gnode \<Rightarrow> json" where
  "node_json store n = JObj [(''doc_id'', JInt (gn_id n)), (''store_id'', JStr store), (''path'', JStr (gn_path n)),
     (''agent'', JStr (gn_agent n)), (''sigil'', opt_json (gn_sigil n)),
     (''privacy_level'', JStr (text_or (gn_privacy n) ''safe'')), (''page_status'', JStr (text_or (gn_status n) ''candidate'')),
     (''page_type'', opt_json (gn_type n)), (''memory_kind'', opt_json (gn_kind n))]"

definition authorized :: "host \<Rightarrow> effective_principal \<Rightarrow> string \<Rightarrow> string \<Rightarrow> gnode \<Rightarrow> bool" where
  "authorized h p ws store n \<longleftrightarrow> can_read_document h (Some p) ws (node_json store n)"

definition seed_usable :: "gnode \<Rightarrow> bool" where
  "seed_usable n \<longleftrightarrow> gn_kind n = Some ''learning'' \<and> py_lower (text_or (gn_type n) []) = ''learning''
     \<and> py_lower (text_or (gn_privacy n) ''safe'') \<noteq> ''blocked''"

definition neighbor_eligible :: "gnode \<Rightarrow> bool" where
  "neighbor_eligible n \<longleftrightarrow> seed_usable n \<and> text_or (gn_status n) ''candidate'' \<notin> set CLOSED_STATUSES"

section \<open>Pages of edges\<close>

datatype direction = Outgoing | Incoming

definition seed_end :: "direction \<Rightarrow> glink \<Rightarrow> int" where
  "seed_end d e = (case d of Outgoing \<Rightarrow> gl_source e | Incoming \<Rightarrow> gl_target e)"

definition far_end :: "direction \<Rightarrow> glink \<Rightarrow> int" where
  "far_end d e = (case d of Outgoing \<Rightarrow> gl_target e | Incoming \<Rightarrow> gl_source e)"

definition node_of :: "graph \<Rightarrow> int \<Rightarrow> gnode option" where
  "node_of g i = List.find (\<lambda>n. gn_id n = i) (gr_nodes g)"

text \<open>SQLite's \<^verbatim>\<open>lower\<close> folds ASCII only.\<close>

definition sql_lower :: "string \<Rightarrow> string" where
  "sql_lower = map (\<lambda>c. let n = code_point c in if 65 \<le> n \<and> n \<le> 90 then char_of (n + 32) else c)"

definition sql_eligible :: "gnode \<Rightarrow> bool" where
  "sql_eligible n \<longleftrightarrow> gn_kind n = Some ''learning''
     \<and> sql_lower (case gn_type n of None \<Rightarrow> [] | Some t \<Rightarrow> t) = ''learning''
     \<and> sql_lower (case gn_privacy n of None \<Rightarrow> ''safe'' | Some t \<Rightarrow> t) \<noteq> ''blocked''
     \<and> (case gn_status n of None \<Rightarrow> ''candidate'' | Some t \<Rightarrow> t) \<notin> set CLOSED_STATUSES"

definition edge_row :: "graph \<Rightarrow> direction \<Rightarrow> int \<Rightarrow> string list \<Rightarrow> glink \<Rightarrow> (glink \<times> gnode) option" where
  "edge_row g d seed types e =
     (if seed_end d e = seed \<and> gl_status e = ''active'' \<and> gl_type e \<in> set types \<and> gl_source e \<noteq> gl_target e
      then (case node_of g (far_end d e) of
              None \<Rightarrow> None | Some n \<Rightarrow> if sql_eligible n then Some (e, n) else None)
      else None)"

definition edge_rows :: "graph \<Rightarrow> direction \<Rightarrow> int \<Rightarrow> string list \<Rightarrow> (glink \<times> gnode) list" where
  "edge_rows g d seed types =
     sort_key (gn_id \<circ> snd) (sort_key (gl_type \<circ> fst) (List.map_filter (edge_row g d seed types) (gr_links g)))"

definition row_key :: "glink \<times> gnode \<Rightarrow> int \<times> string" where
  "row_key r = (gn_id (snd r), gl_type (fst r))"

definition key_less :: "int \<times> string \<Rightarrow> int \<times> string \<Rightarrow> bool" where
  "key_less a b \<longleftrightarrow> fst a < fst b \<or> fst a = fst b \<and> snd a < snd b"

definition fetch_edge_page :: "graph \<Rightarrow> direction \<Rightarrow> int \<Rightarrow> string list \<Rightarrow> int \<times> string \<Rightarrow> (glink \<times> gnode) list" where
  "fetch_edge_page g d seed types pos =
     take EDGE_PAGE_SIZE (filter (\<lambda>r. key_less pos (row_key r)) (edge_rows g d seed types))"

text \<open>The loop over the pages; \<open>step\<close> is its body for one row.\<close>

fun walk_pages ::
  "(int \<times> string \<Rightarrow> (glink \<times> gnode) list) \<Rightarrow> ('a \<Rightarrow> glink \<times> gnode \<Rightarrow> 'a) \<Rightarrow> int \<times> string \<Rightarrow> 'a \<Rightarrow> nat \<Rightarrow> ('a \<times> nat) option" where
  "walk_pages fetch step pos acc 0 = None"
| "walk_pages fetch step pos acc (Suc t) =
     (let rows = fetch pos
      in if rows = [] then Some (acc, t)
         else if length rows < EDGE_PAGE_SIZE then Some (foldl step acc rows, t)
         else walk_pages fetch step (row_key (last rows)) (foldl step acc rows) t)"

section \<open>Candidates\<close>

record hop =
  hp_from :: int
  hp_to :: int
  hp_type :: string
  hp_direction :: direction
  hp_confidence :: real
  hp_weight :: real
  hp_run :: "string option"
  hp_model :: "string option"
  hp_method :: "string option"
  hp_store :: string

record reached =
  rx_node :: gnode
  rx_store :: string
  rx_score :: real
  rx_seed :: int
  rx_paths :: "hop list"
  rx_depth :: nat
  rx_type :: string
  rx_text :: string
  rx_chunk :: "int option"
  rx_heading :: string

abbreviation rx_id :: "reached \<Rightarrow> int" where
  "rx_id x \<equiv> gn_id (rx_node x)"

record scope =
  sc_host :: host
  sc_principal :: effective_principal
  sc_workspace :: string
  sc_store :: string
  sc_seeds :: "int list"

definition hop_of :: "string \<Rightarrow> direction \<Rightarrow> int \<Rightarrow> int \<Rightarrow> glink \<Rightarrow> real \<Rightarrow> real \<Rightarrow> hop" where
  "hop_of store d a b e c w = \<lparr>hp_from = a, hp_to = b, hp_type = gl_type e, hp_direction = d, hp_confidence = c,
     hp_weight = w, hp_run = gl_run e, hp_model = gl_model e, hp_method = gl_method e, hp_store = store\<rparr>"

definition consider_edge :: "scope \<Rightarrow> direction \<Rightarrow> int \<Rightarrow> real \<Rightarrow> glink \<times> gnode \<Rightarrow> reached option" where
  "consider_edge s d seed score r =
     (case r of (e, n) \<Rightarrow>
        if gl_type e \<notin> set ALLOWED_LINK_TYPES \<or> gn_id n = seed \<or> gn_id n \<in> set (sc_seeds s) then None
        else case (legacy_or_weight (gl_weight e), legacy_or_unit (gl_confidence e)) of
          (Some w, Some c) \<Rightarrow>
            if authorized (sc_host s) (sc_principal s) (sc_workspace s) (sc_store s) n \<and> neighbor_eligible n
            then Some \<lparr>rx_node = n, rx_store = sc_store s, rx_score = score * type_factor (gl_type e) * w * c, rx_seed = seed,
                   rx_paths = [hop_of (sc_store s) d seed (gn_id n) e c w], rx_depth = 1, rx_type = gl_type e,
                   rx_text = [], rx_chunk = None, rx_heading = []\<rparr>
            else None
        | _ \<Rightarrow> None)"

definition consider_second_hop :: "scope \<Rightarrow> direction \<Rightarrow> int \<Rightarrow> reached \<Rightarrow> glink \<times> gnode \<Rightarrow> reached option" where
  "consider_second_hop s d seed parent r =
     (case r of (e, n) \<Rightarrow>
        if gl_type e \<notin> set TWO_HOP_TYPES \<or> gn_id n = rx_id parent \<or> gn_id n \<in> set (sc_seeds s) then None
        else case (legacy_or_weight (gl_weight e), legacy_or_unit (gl_confidence e)) of
          (Some w, Some c) \<Rightarrow>
            if authorized (sc_host s) (sc_principal s) (sc_workspace s) (sc_store s) n \<and> neighbor_eligible n
            then Some \<lparr>rx_node = n, rx_store = sc_store s,
                   rx_score = rx_score parent * type_factor (gl_type e) * w * c * HOP_DECAY, rx_seed = seed,
                   rx_paths = rx_paths parent @ [hop_of (sc_store s) d (rx_id parent) (gn_id n) e c w], rx_depth = 2,
                   rx_type = gl_type e, rx_text = [], rx_chunk = None, rx_heading = []\<rparr>
            else None
        | _ \<Rightarrow> None)"

text \<open>One candidate per document: a table and the rule by which a newcomer takes a place.\<close>

definition admit :: "('a \<Rightarrow> 'a \<Rightarrow> bool) \<Rightarrow> ('a \<Rightarrow> int) \<Rightarrow> (int \<times> 'a) list \<Rightarrow> 'a \<Rightarrow> (int \<times> 'a) list" where
  "admit wins key best x =
     (case map_of best (key x) of
        None \<Rightarrow> AList.update (key x) x best
      | Some y \<Rightarrow> if wins x y then AList.update (key x) x best else best)"

definition near_wins :: "reached \<Rightarrow> reached \<Rightarrow> bool" where
  "near_wins x y \<longleftrightarrow> rx_score x > rx_score y \<or> rx_score x = rx_score y \<and> rx_type x < rx_type y"

definition far_wins :: "reached \<Rightarrow> reached \<Rightarrow> bool" where
  "far_wins x y \<longleftrightarrow>
     (if rx_score x \<noteq> rx_score y then rx_score x > rx_score y
      else if rx_depth x \<noteq> rx_depth y then rx_depth x < rx_depth y
      else rx_type x < rx_type y)"

definition admit_row :: "(glink \<times> gnode \<Rightarrow> reached option) \<Rightarrow> (reached \<Rightarrow> reached \<Rightarrow> bool)
    \<Rightarrow> (int \<times> reached) list \<Rightarrow> glink \<times> gnode \<Rightarrow> (int \<times> reached) list" where
  "admit_row consider wins best r = (case consider r of None \<Rightarrow> best | Some x \<Rightarrow> admit wins rx_id best x)"

text \<open>By falling score, then by document.\<close>

definition by_rank :: "(int \<times> reached) list \<Rightarrow> reached list" where
  "by_rank best = sort_key (\<lambda>x. - rx_score x) (sort_key rx_id (map snd best))"

text \<open>Both directions, outgoing first.\<close>

definition both_ways ::
  "(direction \<Rightarrow> int \<times> string \<Rightarrow> (glink \<times> gnode) list) \<Rightarrow> (direction \<Rightarrow> glink \<times> gnode \<Rightarrow> reached option)
    \<Rightarrow> (reached \<Rightarrow> reached \<Rightarrow> bool) \<Rightarrow> nat \<Rightarrow> ((int \<times> reached) list \<times> nat) option" where
  "both_ways fetch consider wins t =
     (case walk_pages (fetch Outgoing) (admit_row (consider Outgoing) wins) (0, []) [] t of
        None \<Rightarrow> None
      | Some (best, t') \<Rightarrow> walk_pages (fetch Incoming) (admit_row (consider Incoming) wins) (0, []) best t')"

definition second_hop_for_parent :: "graph \<Rightarrow> scope \<Rightarrow> int \<Rightarrow> reached \<Rightarrow> nat \<Rightarrow> (reached list \<times> nat) option" where
  "second_hop_for_parent g s seed parent t =
     (case both_ways (\<lambda>d. fetch_edge_page g d (rx_id parent) (sort TWO_HOP_TYPES))
             (\<lambda>d. consider_second_hop s d seed parent) far_wins t of
        None \<Rightarrow> None
      | Some (best, t') \<Rightarrow> Some (take MAX_NEIGHBORS_PER_SEED (by_rank best), t'))"

definition frontier :: "(int \<times> reached) list \<Rightarrow> reached list" where
  "frontier best = filter (\<lambda>x. rx_type x \<in> set TWO_HOP_TYPES) (take MAX_NEIGHBORS_PER_SEED (by_rank best))"

fun merge_over ::
  "graph \<Rightarrow> scope \<Rightarrow> int \<Rightarrow> reached list \<Rightarrow> (int \<times> reached) list \<Rightarrow> nat \<Rightarrow> ((int \<times> reached) list \<times> nat) option" where
  "merge_over g s seed [] best t = Some (best, t)"
| "merge_over g s seed (x # xs) best 0 = None"
| "merge_over g s seed (x # xs) best (Suc t) =
     (case second_hop_for_parent g s seed x t of
        None \<Rightarrow> None
      | Some (far, t') \<Rightarrow> merge_over g s seed xs (foldl (admit far_wins rx_id) best far) t')"

definition merge_second_hop ::
  "graph \<Rightarrow> scope \<Rightarrow> int \<Rightarrow> (int \<times> reached) list \<Rightarrow> nat \<Rightarrow> ((int \<times> reached) list \<times> nat) option" where
  "merge_second_hop g s seed best t = merge_over g s seed (frontier best) best t"

definition hydrate_text :: "graph \<Rightarrow> reached \<Rightarrow> reached" where
  "hydrate_text g x =
     (case sort_key gc_index (filter (\<lambda>c. gc_doc c = rx_id x) (gr_chunks g)) of
        [] \<Rightarrow> x\<lparr>rx_text := [], rx_chunk := None, rx_heading := []\<rparr>
      | c # _ \<Rightarrow> x\<lparr>rx_text := text_or (gc_text c) [], rx_chunk := Some (gc_id c), rx_heading := text_or (gc_heading c) []\<rparr>)"

text \<open>One check before each text.\<close>

definition hydrate_all :: "graph \<Rightarrow> reached list \<Rightarrow> nat \<Rightarrow> (reached list \<times> nat) option" where
  "hydrate_all g xs t = (if length xs \<le> t then Some (map (hydrate_text g) xs, t - length xs) else None)"

definition eligible_neighbors_for_seed :: "graph \<Rightarrow> scope \<Rightarrow> nat \<Rightarrow> int \<times> real \<Rightarrow> nat \<Rightarrow> (reached list \<times> nat) option" where
  "eligible_neighbors_for_seed g s depth seed t =
     (case both_ways (\<lambda>d. fetch_edge_page g d (fst seed) (sort ALLOWED_LINK_TYPES))
             (\<lambda>d. consider_edge s d (fst seed) (snd seed)) near_wins t of
        None \<Rightarrow> None
      | Some (best, t1) \<Rightarrow>
          (case (if depth \<ge> 2 then merge_second_hop g s (fst seed) best t1 else Some (best, t1)) of
             None \<Rightarrow> None
           | Some (best', t2) \<Rightarrow> hydrate_all g (take MAX_NEIGHBORS_PER_SEED (by_rank best')) t2))"

section \<open>Seeds\<close>

text \<open>One item of the ranked envelope: skipped, refused or read.\<close>

definition seed_item :: "string \<Rightarrow> json \<Rightarrow> pyerr + (int \<times> real) option" where
  "seed_item store raw =
     (case raw of
        JObj kvs \<Rightarrow>
          (case (jget kvs ''doc_id'', finite_score (jget_or (jget kvs ''rrf_score'') kvs ''score'')) of
             (JInt d, Some x) \<Rightarrow>
               (let st = jget kvs ''store_id''
                in if st = JNull then Inr None
                   else if st \<noteq> JStr store
                   then Inl (ValueError (''seed doc_id '' @ int_text d @ '' store_id '' @ py_repr st @ '' does not match ''
                          @ repr_str store @ '': cross-corpus aliasing''))
                   else Inr (Some (d, x)))
           | _ \<Rightarrow> Inr None)
      | _ \<Rightarrow> Inr None)"

fun first_of_each_seed :: "int list \<Rightarrow> (int \<times> real) list \<Rightarrow> (int \<times> real) list" where
  "first_of_each_seed seen [] = []"
| "first_of_each_seed seen (x # xs) =
     (if fst x \<in> set seen then first_of_each_seed seen xs else x # first_of_each_seed (fst x # seen) xs)"

definition bounded_seeds :: "json \<Rightarrow> string \<Rightarrow> pyerr + (int \<times> real) list" where
  "bounded_seeds seeds store =
     (case seeds of
        JList raws \<Rightarrow> bind_result (result_map (seed_item store) (take MAX_SEEDS raws))
          (\<lambda>xs. Inr (first_of_each_seed [] (List.map_filter id xs)))
      | _ \<Rightarrow> Inl (ValueError ''seeds must be a sequence of ranked seed mappings''))"

fun authorize_seeds :: "graph \<Rightarrow> scope \<Rightarrow> (int \<times> real) list \<Rightarrow> nat \<Rightarrow> ((int \<times> real) list \<times> nat) option" where
  "authorize_seeds g s [] t = Some ([], t)"
| "authorize_seeds g s (x # xs) 0 = None"
| "authorize_seeds g s (x # xs) (Suc t) =
     map_option (\<lambda>(ys, t'). (if (case node_of g (fst x) of None \<Rightarrow> False
                               | Some n \<Rightarrow> authorized (sc_host s) (sc_principal s) (sc_workspace s) (sc_store s) n \<and> seed_usable n)
                             then x # ys else ys, t')) (authorize_seeds g s xs t)"

section \<open>The expansion\<close>

definition final_wins :: "reached \<Rightarrow> reached \<Rightarrow> bool" where
  "final_wins x y \<longleftrightarrow> rx_score x > rx_score y \<or> rx_score x = rx_score y \<and> rx_id x < rx_id y"

text \<open>The place in the list is \<^verbatim>\<open>graph_rank\<close>.\<close>

definition finalize :: "reached list \<Rightarrow> string \<Rightarrow> reached list" where
  "finalize collected store =
     take MAX_GRAPH_CANDIDATES (by_rank (foldl (admit final_wins rx_id) [] (filter (\<lambda>x. rx_store x = store) collected)))"

text \<open>The flag is false when the deadline cut the walk; the seeds before it are kept.\<close>

fun collect_seeds :: "graph \<Rightarrow> scope \<Rightarrow> nat \<Rightarrow> (int \<times> real) list \<Rightarrow> reached list \<Rightarrow> nat \<Rightarrow> reached list \<times> bool" where
  "collect_seeds g s depth [] acc t = (acc, True)"
| "collect_seeds g s depth (x # xs) acc 0 = (acc, False)"
| "collect_seeds g s depth (x # xs) acc (Suc t) =
     (case eligible_neighbors_for_seed g s depth x t of
        None \<Rightarrow> (acc, False)
      | Some (ns, t') \<Rightarrow> collect_seeds g s depth xs (acc @ ns) t')"

record graph_db =
  gd_graph :: graph
  gd_identity :: string       \<comment> \<open>real path of the main database file\<close>
  gd_ready :: bool            \<comment> \<open>\<^verbatim>\<open>verify_graph_schema\<close>\<close>

record graph_request =
  gq_store :: string
  gq_seeds :: json
  gq_principal :: "effective_principal option"
  gq_workspace :: string
  gq_deadline :: json
  gq_depth :: int

record graph_expansion =
  ge_neighbors :: "reached list"
  ge_status :: string

definition without_neighbors :: "string \<Rightarrow> graph_expansion" where
  "without_neighbors st = \<lparr>ge_neighbors = [], ge_status = st\<rparr>"

text \<open>The read snapshot, with \<open>t\<close> checks left after the three that come before the schema.\<close>

definition expand_snapshot :: "graph_db \<Rightarrow> scope \<Rightarrow> nat \<Rightarrow> (int \<times> real) list \<Rightarrow> nat \<Rightarrow> graph_expansion" where
  "expand_snapshot db s depth ranked t =
     (if t = 0 then without_neighbors ''degraded''
      else if \<not> gd_ready db then without_neighbors ''schema_missing''
      else case authorize_seeds (gd_graph db) s ranked (t - 1) of
        None \<Rightarrow> without_neighbors ''degraded''
      | Some (seeds, t') \<Rightarrow>
          (case collect_seeds (gd_graph db) (s\<lparr>sc_seeds := map fst seeds\<rparr>) depth seeds [] t' of
             (found, ok) \<Rightarrow> \<lparr>ge_neighbors = finalize found (sc_store s), ge_status = (if ok then ''ok'' else ''degraded'')\<rparr>))"

definition expand_typed_graph ::
  "host \<Rightarrow> real option \<Rightarrow> nat \<Rightarrow> graph_db \<Rightarrow> graph_request \<Rightarrow> pyerr + graph_expansion" where
  "expand_typed_graph h ctx t db q =
     (if gq_workspace q = [] then Inl (ValueError ''workspace must be a non-empty string'')
      else case gq_principal q of
        None \<Rightarrow> Inr (without_neighbors ''disabled'')
      | Some p \<Rightarrow>
          if py_strip (gq_store q) = [] then Inl (ValueError ''store_id must be a non-empty opaque storage identity'')
          else if gq_depth q \<noteq> 1 \<and> gq_depth q \<noteq> 2 then Inl (ValueError ''max_depth must be 1 or 2'')
          else if validated_deadline (gq_deadline q) ctx = None then Inr (without_neighbors ''disabled'')
          else bind_result (bounded_seeds (gq_seeds q) (gq_store q)) (\<lambda>ranked.
            if ranked = [] then Inr (without_neighbors ''ok'')
            else if t = 0 then Inr (without_neighbors ''degraded'')
            else if gq_store q \<noteq> gd_identity db
              then Inl (ValueError (''store_id '' @ repr_str (gq_store q) @ '' does not match db identity ''
                     @ repr_str (gd_identity db) @ '': cross-corpus aliasing''))
            else if t < 3 then Inr (without_neighbors ''degraded'')
            else Inr (expand_snapshot db
                   \<lparr>sc_host = h, sc_principal = p, sc_workspace = gq_workspace q, sc_store = gq_store q, sc_seeds = []\<rparr>
                   (nat (gq_depth q)) ranked (t - 3))))"

end
