(* ===== verification/Expansion_Laws.thy ===== *)
theory Expansion_Laws
  imports Expansion
begin

text \<open>
  What the typed graph gives away and how it ranks: every neighbour is reached by a chain of
  active links through documents the principal may read; paging the edges is reading them all;
  each document is there once, by its best path; with checks enough the walk ends.
\<close>

section \<open>Two sorts in a row\<close>

lemma insort_lex:
  fixes f :: "'a \<Rightarrow> 'b::linorder" and g :: "'a \<Rightarrow> 'c::linorder"
  assumes "sorted_wrt (\<lambda>a b. f a < f b \<or> f a = f b \<and> g a \<le> g b) zs" and "\<forall>z \<in> set zs. g y \<le> g z"
  shows "sorted_wrt (\<lambda>a b. f a < f b \<or> f a = f b \<and> g a \<le> g b) (insort_key f y zs)"
  using assms by (induction zs) (auto simp: set_insort_key)

lemma sort_twice:
  fixes f :: "'a \<Rightarrow> 'b::linorder" and g :: "'a \<Rightarrow> 'c::linorder"
  shows "sorted_wrt (\<lambda>a b. f a < f b \<or> f a = f b \<and> g a \<le> g b) (sort_key f (sort_key g xs))"
proof -
  have "sorted_wrt (\<lambda>a b. f a < f b \<or> f a = f b \<and> g a \<le> g b) (sort_key f ys)"
    if "sorted_wrt (\<lambda>a b. g a \<le> g b) ys" for ys
    using that
  proof (induction ys)
    case (Cons y ys)
    then show ?case by (simp add: insort_lex)
  qed simp
  then show ?thesis using sorted_sort_key [of g xs] by (simp add: sorted_wrt_map)
qed

section \<open>Paging is reading all\<close>

lemma key_less_order:
  "key_less a b \<Longrightarrow> key_less b c \<Longrightarrow> key_less a c" "key_less a b \<Longrightarrow> \<not> key_less b a" "\<not> key_less a a"
  by (auto simp: key_less_def)

lemma last_not_less:
  "sorted_wrt (\<lambda>a b. key_less (row_key a) (row_key b)) xs \<Longrightarrow> r \<in> set xs \<Longrightarrow> \<not> key_less (row_key (last xs)) (row_key r)"
proof (induction xs)
  case (Cons x xs)
  show ?case
  proof (cases "xs = []")
    case False
    then have "key_less (row_key x) (row_key (last xs))" using Cons.prems(1) by simp
    then show ?thesis using Cons False key_less_order(2) [of "row_key x" "row_key (last xs)"] by auto
  qed (use Cons.prems key_less_order(3) in auto)
qed simp

lemma sorted_wrt_parts: "sorted_wrt P (xs @ ys) \<Longrightarrow> sorted_wrt P xs \<and> (\<forall>x \<in> set xs. \<forall>y \<in> set ys. P x y)"
  by (simp add: sorted_wrt_append)

lemma walk_pages_all:
  assumes "sorted_wrt (\<lambda>a b. key_less (row_key a) (row_key b)) rows"
    and "\<And>pos. fetch pos = take EDGE_PAGE_SIZE (filter (\<lambda>r. key_less pos (row_key r)) rows)"
  shows "walk_pages fetch step pos acc t = Some (acc', t')
    \<Longrightarrow> acc' = foldl step acc (filter (\<lambda>r. key_less pos (row_key r)) rows)"
proof (induction t arbitrary: pos acc)
  case (Suc t)
  let ?X = "filter (\<lambda>r. key_less pos (row_key r)) rows"
  have f: "fetch pos = take EDGE_PAGE_SIZE ?X" by (rule assms(2))
  show ?case
  proof (cases "length (fetch pos) < EDGE_PAGE_SIZE")
    case True
    then have "fetch pos = ?X" using f by simp
    then show ?thesis using Suc.prems True by (auto simp: Let_def split: if_splits)
  next
    case False
    then have ne: "fetch pos \<noteq> []" using f by (auto simp: EDGE_PAGE_SIZE_def)
    have so: "sorted_wrt (\<lambda>a b. key_less (row_key a) (row_key b)) ?X" using assms(1) by (rule sorted_wrt_filter)
    let ?k = "row_key (last (fetch pos))"
    have rest: "filter (\<lambda>r. key_less ?k (row_key r)) rows = drop EDGE_PAGE_SIZE ?X"
    proof -
      have x: "?X = fetch pos @ drop EDGE_PAGE_SIZE ?X" using f by simp
      have pt: "sorted_wrt (\<lambda>a b. key_less (row_key a) (row_key b)) (fetch pos)"
        "\<forall>a \<in> set (fetch pos). \<forall>b \<in> set (drop EDGE_PAGE_SIZE ?X). key_less (row_key a) (row_key b)"
        using sorted_wrt_parts [of _ "fetch pos" "drop EDGE_PAGE_SIZE ?X"] so x by metis+
      have "last (fetch pos) \<in> set (take EDGE_PAGE_SIZE ?X)" using ne f by (metis last_in_set)
      then have last: "key_less pos ?k" by (auto dest: in_set_takeD)
      have "filter (\<lambda>r. key_less ?k (row_key r)) rows = filter (\<lambda>r. key_less ?k (row_key r)) ?X"
        unfolding filter_filter by (intro filter_cong refl) (use key_less_order(1) [OF last] in blast)
      also have "\<dots> = filter (\<lambda>r. key_less ?k (row_key r)) (fetch pos)
          @ filter (\<lambda>r. key_less ?k (row_key r)) (drop EDGE_PAGE_SIZE ?X)"
        by (subst x) simp
      also have "filter (\<lambda>r. key_less ?k (row_key r)) (fetch pos) = []"
        using last_not_less [OF pt(1)] by (simp add: filter_empty_conv)
      also have "filter (\<lambda>r. key_less ?k (row_key r)) (drop EDGE_PAGE_SIZE ?X) = drop EDGE_PAGE_SIZE ?X"
        using pt(2) ne by (simp add: filter_id_conv)
      finally show ?thesis by simp
    qed
    have "acc' = foldl step (foldl step acc (fetch pos)) (filter (\<lambda>r. key_less ?k (row_key r)) rows)"
      using Suc.prems False ne by (intro Suc.IH) (simp add: Let_def)
    then show ?thesis unfolding rest by (metis append_take_drop_id f foldl_append)
  qed
qed simp

lemma walk_pages_ends:
  assumes "sorted_wrt (\<lambda>a b. key_less (row_key a) (row_key b)) rows"
    and "\<And>pos. fetch pos = take EDGE_PAGE_SIZE (filter (\<lambda>r. key_less pos (row_key r)) rows)"
  shows "length (filter (\<lambda>r. key_less pos (row_key r)) rows) < t \<Longrightarrow>
    \<exists>acc' t'. walk_pages fetch step pos acc t = Some (acc', t')
      \<and> t \<le> t' + Suc (length (filter (\<lambda>r. key_less pos (row_key r)) rows))"
proof (induction t arbitrary: pos acc)
  case (Suc t)
  let ?X = "\<lambda>k. filter (\<lambda>r. key_less k (row_key r)) rows"
  show ?case
  proof (cases "length (fetch pos) < EDGE_PAGE_SIZE")
    case False
    then have ne: "fetch pos \<noteq> []" by (auto simp: EDGE_PAGE_SIZE_def)
    have "last (fetch pos) \<in> set (take EDGE_PAGE_SIZE (?X pos))" using ne assms(2) by (metis last_in_set)
    then have l: "last (fetch pos) \<in> set (?X pos)" by (rule in_set_takeD)
    let ?k = "row_key (last (fetch pos))"
    have "?X ?k = filter (\<lambda>r. key_less ?k (row_key r)) (?X pos)"
      unfolding filter_filter using l by (intro filter_cong) (auto simp: key_less_def)
    then have "length (?X ?k) < length (?X pos)"
      using l by (metis (no_types, lifting) key_less_def length_filter_less less_irrefl)
    then have "\<exists>acc' t'. walk_pages fetch step ?k (foldl step acc (fetch pos)) t = Some (acc', t')
        \<and> t \<le> t' + Suc (length (?X ?k))"
      using Suc.prems by (intro Suc.IH) simp
    then show ?thesis using False ne \<open>length (?X ?k) < length (?X pos)\<close> by (auto simp: Let_def)
  qed (simp add: Let_def)
qed simp

definition link_keys_distinct :: "graph \<Rightarrow> bool" where
  "link_keys_distinct g \<longleftrightarrow> distinct (map (\<lambda>e. (gl_source e, gl_target e, gl_type e)) (gr_links g))"

lemma node_of_Some: "node_of g i = Some n \<Longrightarrow> n \<in> set (gr_nodes g) \<and> gn_id n = i"
  by (auto simp: node_of_def find_Some_iff)

lemma edge_row_Some:
  "edge_row g d seed types e = Some (e', n) \<Longrightarrow> e' = e \<and> seed_end d e = seed \<and> gl_status e = ''active''
     \<and> gl_type e \<in> set types \<and> gl_source e \<noteq> gl_target e \<and> n \<in> set (gr_nodes g) \<and> gn_id n = far_end d e \<and> sql_eligible n"
  by (auto simp: edge_row_def dest: node_of_Some split: if_splits option.splits)

lemma map_filter_distinct:
  assumes "distinct (map k xs)" and "\<And>x y. f x = Some y \<Longrightarrow> k x = j y"
  shows "distinct (map j (List.map_filter f xs))"
  using assms(1)
proof (induction xs)
  case (Cons x xs)
  have "j y \<notin> j ` set (List.map_filter f xs)" if "f x = Some y" for y
    using Cons.prems assms(2) that by (force simp: map_filter_def)
  then show ?case using Cons by (cases "f x") (simp_all add: map_filter_simps)
qed (simp add: map_filter_simps)

lemma edge_rows_strict:
  assumes "link_keys_distinct g"
  shows "sorted_wrt (\<lambda>a b. key_less (row_key a) (row_key b)) (edge_rows g d seed types)"
proof -
  let ?M = "List.map_filter (edge_row g d seed types) (gr_links g)"
  have "distinct (map (\<lambda>r. (gl_source (fst r), gl_target (fst r), gl_type (fst r))) ?M)"
    using assms unfolding link_keys_distinct_def
    by (rule map_filter_distinct) (use edge_row_Some in fastforce)
  moreover have "inj_on row_key (set ?M)" if "inj_on (\<lambda>r. (gl_source (fst r), gl_target (fst r), gl_type (fst r))) (set ?M)"
  proof (rule inj_onI)
    fix x y assume xy: "x \<in> set ?M" "y \<in> set ?M" "row_key x = row_key y"
    have "\<exists>e. edge_row g d seed types e = Some x" "\<exists>e. edge_row g d seed types e = Some y"
      using xy by (auto simp: map_filter_def)
    then have "seed_end d (fst x) = seed" "seed_end d (fst y) = seed" "far_end d (fst x) = gn_id (snd x)"
      "far_end d (fst y) = gn_id (snd y)"
      by (metis edge_row_Some prod.collapse)+
    then show "x = y" using xy by (intro inj_onD [OF that]) (cases d; simp add: row_key_def seed_end_def far_end_def)+
  qed
  ultimately have dk: "distinct (map row_key ?M)" by (simp add: distinct_map)
  have "sorted_wrt (\<lambda>a b. gn_id (snd a) < gn_id (snd b) \<or> gn_id (snd a) = gn_id (snd b) \<and> gl_type (fst a) \<le> gl_type (fst b))
      (edge_rows g d seed types)"
    using sort_twice [of "gn_id \<circ> snd" "gl_type \<circ> fst" ?M] by (simp add: edge_rows_def)
  moreover have "distinct (map row_key (edge_rows g d seed types))"
    using dk unfolding edge_rows_def by (metis distinct_map distinct_sort set_sort)
  moreover have "sorted_wrt (\<lambda>a b. key_less (row_key a) (row_key b)) rs"
    if "sorted_wrt (\<lambda>a b. gn_id (snd a) < gn_id (snd b) \<or> gn_id (snd a) = gn_id (snd b) \<and> gl_type (fst a) \<le> gl_type (fst b)) rs"
      and "distinct (map row_key rs)" for rs
    using that
  proof (induction rs)
    case (Cons a rs)
    have "key_less (row_key a) (row_key b)" if b: "b \<in> set rs" for b
    proof -
      have "row_key a \<notin> row_key ` set rs" using Cons.prems(2) by simp
      then have "row_key b \<noteq> row_key a" using b by (metis image_eqI)
      then show ?thesis using Cons.prems(1) b by (auto simp: key_less_def row_key_def order_less_le)
    qed
    then show ?case using Cons by simp
  qed simp
  ultimately show ?thesis by blast
qed

section \<open>One candidate per document\<close>

definition table_ok :: "(reached \<Rightarrow> bool) \<Rightarrow> (int \<times> reached) list \<Rightarrow> bool" where
  "table_ok P best \<longleftrightarrow> distinct (map fst best) \<and> (\<forall>(k, x) \<in> set best. k = rx_id x \<and> P x)"

lemma table_ok_Nil [simp]: "table_ok P []"
  by (simp add: table_ok_def)

lemma update_entries:
  assumes "distinct (map fst xs)"
  shows "(k, v) \<in> set (AList.update k0 w xs) \<longleftrightarrow> (if k = k0 then v = w else (k, v) \<in> set xs)"
proof -
  have "(k, v) \<in> set (AList.update k0 w xs) \<longleftrightarrow> map_of (AList.update k0 w xs) k = Some v"
    using assms by (simp only: map_of_eq_Some_iff distinct_update)
  also have "\<dots> \<longleftrightarrow> (if k = k0 then v = w else map_of xs k = Some v)"
    by (simp only: update_conv' fun_upd_apply option.inject) auto
  also have "\<dots> \<longleftrightarrow> (if k = k0 then v = w else (k, v) \<in> set xs)" using assms by (simp only: map_of_eq_Some_iff)
  finally show ?thesis .
qed

lemma table_ok_update: "table_ok P best \<Longrightarrow> P x \<Longrightarrow> table_ok P (AList.update (rx_id x) x best)"
  by (auto simp: table_ok_def distinct_update update_entries split: if_splits)

lemma admit_ok: "table_ok P best \<Longrightarrow> P x \<Longrightarrow> table_ok P (admit wins rx_id best x)"
  by (auto simp: admit_def table_ok_update split: option.splits)

lemma admit_all_ok: "table_ok P best \<Longrightarrow> list_all P xs \<Longrightarrow> table_ok P (foldl (admit wins rx_id) best xs)"
  by (induction xs arbitrary: best) (simp_all add: admit_ok)

lemma admit_row_ok:
  "table_ok P best \<Longrightarrow> (\<And>x. consider r = Some x \<Longrightarrow> P x) \<Longrightarrow> table_ok P (admit_row consider wins best r)"
  by (auto simp: admit_row_def admit_ok split: option.splits)

text \<open>The rows a walk sees are rows of the graph.\<close>

lemma walk_pages_invariant:
  assumes "walk_pages fetch step pos acc t = Some (acc', t')" and "I acc"
    and "\<And>acc pos r. I acc \<Longrightarrow> r \<in> set (fetch pos) \<Longrightarrow> I (step acc r)"
  shows "I acc'"
proof -
  have fold: "set rs \<subseteq> set (fetch pos) \<Longrightarrow> I acc \<Longrightarrow> I (foldl step acc rs)" for acc rs pos
  proof (induction rs arbitrary: acc)
    case (Cons r rs)
    then show ?case using assms(3) [of acc r pos] by simp
  qed simp
  show ?thesis using assms(1,2)
  proof (induction t arbitrary: pos acc)
    case (Suc t)
    show ?case
    proof (cases "fetch pos = [] \<or> length (fetch pos) < EDGE_PAGE_SIZE")
      case True
      then have "acc' = acc \<or> acc' = foldl step acc (fetch pos)"
        using Suc.prems(1) by (auto simp: Let_def split: if_splits)
      then show ?thesis using fold [of "fetch pos" pos acc] Suc.prems(2) by auto
    next
      case False
      then show ?thesis using Suc.prems fold [of "fetch pos" pos acc]
        by (intro Suc.IH [of "row_key (last (fetch pos))" "foldl step acc (fetch pos)"]) (simp_all add: Let_def)
    qed
  qed simp
qed

lemma both_ways_ok:
  assumes "both_ways fetch consider wins t = Some (best, t')"
    and "\<And>d pos r x. r \<in> set (fetch d pos) \<Longrightarrow> consider d r = Some x \<Longrightarrow> P x"
  shows "table_ok P best"
proof -
  obtain b1 t1 where b: "walk_pages (fetch Outgoing) (admit_row (consider Outgoing) wins) (0, []) [] t = Some (b1, t1)"
    "walk_pages (fetch Incoming) (admit_row (consider Incoming) wins) (0, []) b1 t1 = Some (best, t')"
    using assms(1) by (auto simp: both_ways_def split: option.splits)
  have "table_ok P b1"
    by (rule walk_pages_invariant [OF b(1)]) (use assms(2) in \<open>blast intro: table_ok_Nil admit_row_ok\<close>)+
  then show ?thesis
    by (rule walk_pages_invariant [OF b(2)]) (use assms(2) in \<open>blast intro: admit_row_ok\<close>)
qed

lemma by_rank_set [simp]: "set (by_rank best) = snd ` set best"
  by (simp add: by_rank_def)

lemma by_rank_sorted:
  "sorted_wrt (\<lambda>a b. rx_score b < rx_score a \<or> rx_score a = rx_score b \<and> rx_id a \<le> rx_id b) (by_rank best)"
  using sort_twice [of "\<lambda>x. - rx_score x" rx_id "map snd best"] by (simp add: by_rank_def conj_commute eq_commute)

lemma by_rank_distinct:
  assumes "table_ok P best" shows "distinct (map rx_id (by_rank best))"
proof -
  have e: "map (rx_id \<circ> snd) best = map fst best"
    by (rule map_cong [OF refl]) (use assms in \<open>auto simp: table_ok_def\<close>)
  have "distinct (map rx_id (map snd best))" using assms unfolding map_map e table_ok_def by blast
  then show ?thesis unfolding by_rank_def
    by (auto simp: distinct_map dest: inj_on_imageI inj_on_imageI2)
qed

lemma by_rank_all: "table_ok P best \<Longrightarrow> list_all P (by_rank best)"
  by (auto simp: list_all_iff table_ok_def)

lemma by_rank_take: "table_ok P best \<Longrightarrow> x \<in> set (take n (by_rank best)) \<Longrightarrow> P x"
  using by_rank_all [of P best] in_set_takeD [of x n "by_rank best"] by (auto simp: list_all_iff)

section \<open>Chains of readable documents\<close>

definition usable :: "scope \<Rightarrow> gnode \<Rightarrow> bool" where
  "usable s n \<longleftrightarrow> authorized (sc_host s) (sc_principal s) (sc_workspace s) (sc_store s) n \<and> neighbor_eligible n
     \<and> gn_id n \<notin> set (sc_seeds s)"

text \<open>A hop is an active link of the store, and leads to a document the principal may use.\<close>

definition hop_ok :: "graph \<Rightarrow> scope \<Rightarrow> hop \<Rightarrow> bool" where
  "hop_ok g s hp \<longleftrightarrow> (\<exists>e \<in> set (gr_links g). gl_status e = ''active'' \<and> gl_type e = hp_type hp
       \<and> hp_type hp \<in> set ALLOWED_LINK_TYPES
       \<and> seed_end (hp_direction hp) e = hp_from hp \<and> far_end (hp_direction hp) e = hp_to hp
       \<and> legacy_or_weight (gl_weight e) = Some (hp_weight hp) \<and> legacy_or_unit (gl_confidence e) = Some (hp_confidence hp))
     \<and> (\<exists>n \<in> set (gr_nodes g). gn_id n = hp_to hp \<and> usable s n)"

fun chain :: "int \<Rightarrow> hop list \<Rightarrow> int \<Rightarrow> bool" where
  "chain a [] b \<longleftrightarrow> a = b"
| "chain a (hp # hps) b \<longleftrightarrow> hp_from hp = a \<and> chain (hp_to hp) hps b"

definition hop_value :: "hop \<Rightarrow> real" where
  "hop_value hp = type_factor (hp_type hp) * hp_weight hp * hp_confidence hp"

definition chain_score :: "real \<Rightarrow> hop list \<Rightarrow> real" where
  "chain_score x hps = x * prod_list (map hop_value hps) * HOP_DECAY ^ (length hps - 1)"

definition reached_ok :: "graph \<Rightarrow> scope \<Rightarrow> (int \<times> real) list \<Rightarrow> nat \<Rightarrow> reached \<Rightarrow> bool" where
  "reached_ok g s seeds depth x \<longleftrightarrow> rx_node x \<in> set (gr_nodes g) \<and> usable s (rx_node x) \<and> rx_store x = sc_store s
     \<and> chain (rx_seed x) (rx_paths x) (rx_id x) \<and> length (rx_paths x) = rx_depth x
     \<and> 1 \<le> rx_depth x \<and> rx_depth x \<le> depth \<and> list_all (hop_ok g s) (rx_paths x)
     \<and> (rx_depth x = 2 \<longrightarrow> list_all (\<lambda>hp. hp_type hp \<in> set TWO_HOP_TYPES) (rx_paths x))
     \<and> rx_type x = hp_type (last (rx_paths x))
     \<and> (\<exists>y. (rx_seed x, y) \<in> set seeds \<and> rx_score x = chain_score y (rx_paths x))"

lemma page_row: "r \<in> set (fetch_edge_page g d seed types pos) \<Longrightarrow> edge_row g d seed types (fst r) = Some r \<and> fst r \<in> set (gr_links g)"
proof -
  assume "r \<in> set (fetch_edge_page g d seed types pos)"
  then have "r \<in> set (List.map_filter (edge_row g d seed types) (gr_links g))"
    by (auto simp: fetch_edge_page_def edge_rows_def dest!: in_set_takeD)
  then obtain e where "e \<in> set (gr_links g)" "edge_row g d seed types e = Some r" by (auto simp: map_filter_def)
  then show ?thesis using edge_row_Some [of g d seed types e "fst r" "snd r"] by simp
qed

lemma chain_append: "chain a hps b \<Longrightarrow> chain a (hps @ [hp]) c \<longleftrightarrow> hp_from hp = b \<and> hp_to hp = c"
  by (induction a hps b rule: chain.induct) auto

lemma prod_chain: "hps \<noteq> [] \<Longrightarrow> chain_score x (hps @ [hp]) = chain_score x hps * hop_value hp * HOP_DECAY"
  by (cases "length hps") (simp_all add: chain_score_def)

lemma type_two_hop: "t \<in> set TWO_HOP_TYPES \<Longrightarrow> t \<in> set ALLOWED_LINK_TYPES"
  by (auto simp: TWO_HOP_TYPES_def ALLOWED_LINK_TYPES_def TYPE_FACTORS_def)

lemma hop_of_ok:
  assumes "edge_row g d seed types e = Some (e, n)" and "e \<in> set (gr_links g)" and "usable s n"
    and "gl_type e \<in> set ALLOWED_LINK_TYPES"
    and "legacy_or_weight (gl_weight e) = Some w" and "legacy_or_unit (gl_confidence e) = Some c"
  shows "hop_ok g s (hop_of (sc_store s) d seed (gn_id n) e c w)"
  using assms edge_row_Some [OF assms(1)] by (auto simp: hop_ok_def hop_of_def)

lemma consider_edge_ok:
  assumes "consider_edge s d seed score r = Some x" and "edge_row g d seed types (fst r) = Some r"
    and "fst r \<in> set (gr_links g)" and "(seed, score) \<in> set seeds" and "1 \<le> depth"
  shows "reached_ok g s seeds depth x"
proof -
  obtain e n where r: "r = (e, n)" by (cases r)
  obtain w c where wc: "legacy_or_weight (gl_weight e) = Some w" "legacy_or_unit (gl_confidence e) = Some c"
    using assms(1) by (auto simp: consider_edge_def r split: option.splits if_splits)
  then have u: "usable s n" "gl_type e \<in> set ALLOWED_LINK_TYPES"
    and x: "rx_node x = n" "rx_store x = sc_store s" "rx_score x = score * type_factor (gl_type e) * w * c" "rx_seed x = seed"
      "rx_paths x = [hop_of (sc_store s) d seed (gn_id n) e c w]" "rx_depth x = 1" "rx_type x = gl_type e"
    using assms(1) by (auto simp: consider_edge_def r usable_def split: if_splits)
  have row: "edge_row g d seed types e = Some (e, n)" "e \<in> set (gr_links g)" using assms(2,3) by (simp_all add: r)
  have "hop_ok g s (hop_of (sc_store s) d seed (gn_id n) e c w)" by (rule hop_of_ok [OF row u(1,2) wc])
  moreover have "rx_score x = chain_score score (rx_paths x)"
    by (simp add: x chain_score_def hop_value_def hop_of_def)
  ultimately show ?thesis using assms(4,5) u edge_row_Some [OF row(1)]
    unfolding reached_ok_def x by (auto simp: hop_of_def)
qed

lemma consider_second_ok:
  assumes "consider_second_hop s d seed parent r = Some x" and "edge_row g d (rx_id parent) types (fst r) = Some r"
    and "fst r \<in> set (gr_links g)" and "reached_ok g s seeds 1 parent" and "rx_seed parent = seed"
    and "rx_type parent \<in> set TWO_HOP_TYPES"
  shows "reached_ok g s seeds 2 x"
proof -
  obtain e n where r: "r = (e, n)" by (cases r)
  obtain w c where wc: "legacy_or_weight (gl_weight e) = Some w" "legacy_or_unit (gl_confidence e) = Some c"
    using assms(1) by (auto simp: consider_second_hop_def r split: option.splits if_splits)
  let ?h = "hop_of (sc_store s) d (rx_id parent) (gn_id n) e c w"
  have u: "usable s n" "gl_type e \<in> set TWO_HOP_TYPES"
    and x: "rx_node x = n" "rx_store x = sc_store s"
      "rx_score x = rx_score parent * type_factor (gl_type e) * w * c * HOP_DECAY" "rx_seed x = seed"
      "rx_paths x = rx_paths parent @ [?h]" "rx_depth x = 2" "rx_type x = gl_type e"
    using assms(1) wc by (auto simp: consider_second_hop_def r usable_def split: if_splits)
  have row: "edge_row g d (rx_id parent) types e = Some (e, n)" "e \<in> set (gr_links g)" using assms(2,3) by (simp_all add: r)
  have h: "hop_ok g s ?h" by (rule hop_of_ok [OF row u(1) type_two_hop [OF u(2)] wc])
  obtain y p where p: "rx_paths parent = [p]" "chain seed [p] (rx_id parent)" "hop_ok g s p" "hp_type p = rx_type parent"
    "(seed, y) \<in> set seeds" "rx_score parent = chain_score y [p]"
  proof -
    have "length (rx_paths parent) = 1" using assms(4) by (auto simp: reached_ok_def)
    then obtain p where "rx_paths parent = [p]" by (cases "rx_paths parent") auto
    then show thesis using assms(4,5) that by (auto simp: reached_ok_def)
  qed
  have "rx_score x = chain_score y [p, ?h]"
    using prod_chain [of "[p]" y ?h] by (simp add: x p(6) hop_value_def hop_of_def)
  moreover have "chain seed [p, ?h] (gn_id n)" using p(2) by (simp add: hop_of_def)
  moreover have "hp_type ?h = gl_type e" by (simp add: hop_of_def)
  ultimately show ?thesis using u h p(3-5) assms(6) edge_row_Some [OF row(1)]
    unfolding reached_ok_def x p(1) by auto
qed

text \<open>The depth can only grow.\<close>

lemma reached_ok_mono: "reached_ok g s seeds m x \<Longrightarrow> m \<le> n \<Longrightarrow> reached_ok g s seeds n x"
  by (auto simp: reached_ok_def)

lemma first_hop_ok:
  assumes "both_ways (\<lambda>d. fetch_edge_page g d (fst seed) types) (\<lambda>d. consider_edge s d (fst seed) (snd seed)) wins t = Some (best, t')"
    and "seed \<in> set seeds"
  shows "table_ok (\<lambda>x. reached_ok g s seeds 1 x \<and> rx_seed x = fst seed) best"
proof (rule both_ways_ok [OF assms(1)])
  fix d pos r x
  assume "r \<in> set (fetch_edge_page g d (fst seed) types pos)" and c: "consider_edge s d (fst seed) (snd seed) r = Some x"
  then have "edge_row g d (fst seed) types (fst r) = Some r" "fst r \<in> set (gr_links g)" using page_row by blast+
  then have "reached_ok g s seeds 1 x" using consider_edge_ok [OF c] assms(2) by simp
  moreover have "rx_seed x = fst seed" using c by (auto simp: consider_edge_def split: prod.splits option.splits if_splits)
  ultimately show "reached_ok g s seeds 1 x \<and> rx_seed x = fst seed" ..
qed

lemma second_hop_ok:
  assumes "second_hop_for_parent g s (rx_seed parent) parent t = Some (far, t')"
    and "reached_ok g s seeds 1 parent" and "rx_type parent \<in> set TWO_HOP_TYPES"
  shows "list_all (reached_ok g s seeds 2) far"
proof -
  obtain best where b: "both_ways (\<lambda>d. fetch_edge_page g d (rx_id parent) (sort TWO_HOP_TYPES))
      (\<lambda>d. consider_second_hop s d (rx_seed parent) parent) far_wins t = Some (best, t')"
    and far: "far = take MAX_NEIGHBORS_PER_SEED (by_rank best)"
    using assms(1) by (auto simp: second_hop_for_parent_def split: option.splits)
  have "table_ok (reached_ok g s seeds 2) best"
  proof (rule both_ways_ok [OF b])
    fix d pos r x
    assume "r \<in> set (fetch_edge_page g d (rx_id parent) (sort TWO_HOP_TYPES) pos)"
      and c: "consider_second_hop s d (rx_seed parent) parent r = Some x"
    then have "edge_row g d (rx_id parent) (sort TWO_HOP_TYPES) (fst r) = Some r" "fst r \<in> set (gr_links g)"
      using page_row by blast+
    then show "reached_ok g s seeds 2 x" using consider_second_ok [OF c] assms(2,3) by simp
  qed
  from by_rank_take [OF this] show ?thesis unfolding far list_all_iff by blast
qed

lemma merge_over_ok:
  "merge_over g s seed xs best t = Some (best', t') \<Longrightarrow>
   list_all (\<lambda>x. reached_ok g s seeds 1 x \<and> rx_seed x = seed \<and> rx_type x \<in> set TWO_HOP_TYPES) xs \<Longrightarrow>
   table_ok (reached_ok g s seeds 2) best \<Longrightarrow> table_ok (reached_ok g s seeds 2) best'"
proof (induction g s seed xs best t rule: merge_over.induct)
  case (3 g s seed x xs best t)
  obtain far t1 where f: "second_hop_for_parent g s seed x t = Some (far, t1)"
    using 3(2) by (auto split: option.splits)
  then have "list_all (reached_ok g s seeds 2) far" using 3(3) second_hop_ok by fastforce
  then have "table_ok (reached_ok g s seeds 2) (foldl (admit far_wins rx_id) best far)"
    using 3(4) by (rule admit_all_ok [rotated])
  then show ?case using 3 f by simp
qed simp_all

lemma hydrate_ok: "reached_ok g s seeds m (hydrate_text g' x) \<longleftrightarrow> reached_ok g s seeds m x"
  by (auto simp: hydrate_text_def reached_ok_def split: list.splits)

lemma eligible_neighbors_ok:
  assumes "eligible_neighbors_for_seed g s depth seed t = Some (ns, t')" and "seed \<in> set seeds" and "1 \<le> depth"
  shows "list_all (reached_ok g s seeds depth) ns"
proof -
  obtain best t1 best' t2 where b: "both_ways (\<lambda>d. fetch_edge_page g d (fst seed) (sort ALLOWED_LINK_TYPES))
      (\<lambda>d. consider_edge s d (fst seed) (snd seed)) near_wins t = Some (best, t1)"
    and m: "(if depth \<ge> 2 then merge_second_hop g s (fst seed) best t1 else Some (best, t1)) = Some (best', t2)"
    and h: "hydrate_all g (take MAX_NEIGHBORS_PER_SEED (by_rank best')) t2 = Some (ns, t')"
    using assms(1) unfolding eligible_neighbors_for_seed_def by (fastforce split: option.splits prod.splits)
  have one: "table_ok (\<lambda>x. reached_ok g s seeds 1 x \<and> rx_seed x = fst seed) best" by (rule first_hop_ok [OF b assms(2)])
  have "table_ok (reached_ok g s seeds depth) best'"
  proof (cases "depth \<ge> 2")
    case True
    then have "merge_over g s (fst seed) (frontier best) best t1 = Some (best', t2)" using m by (simp add: merge_second_hop_def)
    moreover have "list_all (\<lambda>x. reached_ok g s seeds 1 x \<and> rx_seed x = fst seed \<and> rx_type x \<in> set TWO_HOP_TYPES) (frontier best)"
      using by_rank_take [OF one, of _ MAX_NEIGHBORS_PER_SEED] unfolding frontier_def list_all_iff by auto
    moreover have "table_ok (reached_ok g s seeds 2) best"
      using one reached_ok_mono [of g s seeds 1 _ 2] by (auto simp: table_ok_def)
    ultimately have "table_ok (reached_ok g s seeds 2) best'" by (rule merge_over_ok)
    then show ?thesis using True reached_ok_mono [of g s seeds 2 _ depth] by (auto simp: table_ok_def)
  next
    case False
    then show ?thesis using one m assms(3) reached_ok_mono [of g s seeds 1 _ depth] by (auto simp: table_ok_def)
  qed
  from by_rank_take [OF this]
  have "list_all (reached_ok g s seeds depth) (take MAX_NEIGHBORS_PER_SEED (by_rank best'))" unfolding list_all_iff by blast
  then show ?thesis using h by (auto simp: hydrate_all_def list_all_iff hydrate_ok split: if_splits)
qed

lemma collect_seeds_ok:
  "collect_seeds g s depth xs acc t = (found, ok) \<Longrightarrow> set xs \<subseteq> set seeds \<Longrightarrow> 1 \<le> depth \<Longrightarrow>
   list_all (reached_ok g s seeds depth) acc \<Longrightarrow> list_all (reached_ok g s seeds depth) found"
proof (induction g s depth xs acc t rule: collect_seeds.induct)
  case (3 g s depth x xs acc t)
  show ?case
  proof (cases "eligible_neighbors_for_seed g s depth x t")
    case (Some y)
    obtain ns t1 where y: "y = (ns, t1)" by (cases y)
    have "list_all (reached_ok g s seeds depth) ns"
      using eligible_neighbors_ok [OF Some [unfolded y]] 3(3,4) by simp
    then show ?thesis using 3 Some y by simp
  qed (use 3 in simp)
qed simp_all

definition ranked_list :: "reached list \<Rightarrow> bool" where
  "ranked_list xs \<longleftrightarrow> length xs \<le> MAX_GRAPH_CANDIDATES \<and> distinct (map rx_id xs)
     \<and> sorted_wrt (\<lambda>a b. rx_score b < rx_score a \<or> rx_score a = rx_score b \<and> rx_id a \<le> rx_id b) xs"

lemma finalize_ok:
  assumes "list_all P found" shows "list_all P (finalize found store) \<and> ranked_list (finalize found store)"
proof -
  let ?best = "foldl (admit final_wins rx_id) [] (filter (\<lambda>x. rx_store x = store) found)"
  have ok: "table_ok P ?best" using assms by (intro admit_all_ok) (auto simp: list_all_iff)
  have "list_all P (finalize found store)"
    using by_rank_take [OF ok] unfolding finalize_def list_all_iff by blast
  moreover have "sorted_wrt (\<lambda>a b. rx_score b < rx_score a \<or> rx_score a = rx_score b \<and> rx_id a \<le> rx_id b) (finalize found store)"
    unfolding finalize_def by (rule sorted_wrt_take [OF by_rank_sorted])
  moreover have "distinct (map rx_id (finalize found store))"
    using by_rank_distinct [OF ok] unfolding finalize_def by (simp add: take_map [symmetric])
  ultimately show ?thesis by (simp add: ranked_list_def finalize_def)
qed

text \<open>Every seed that is walked stands in the request and may be read.\<close>

definition seed_ok :: "graph_db \<Rightarrow> graph_request \<Rightarrow> scope \<Rightarrow> int \<times> real \<Rightarrow> bool" where
  "seed_ok db q s x \<longleftrightarrow> (\<exists>ranked. bounded_seeds (gq_seeds q) (gq_store q) = Inr ranked \<and> x \<in> set ranked)
     \<and> (\<exists>n \<in> set (gr_nodes (gd_graph db)). gn_id n = fst x \<and> seed_usable n
          \<and> authorized (sc_host s) (sc_principal s) (sc_workspace s) (sc_store s) n)"

lemma authorize_seeds_ok:
  "authorize_seeds g s xs t = Some (ys, t') \<Longrightarrow> x \<in> set ys \<Longrightarrow> x \<in> set xs
     \<and> (\<exists>n \<in> set (gr_nodes g). gn_id n = fst x \<and> seed_usable n
          \<and> authorized (sc_host s) (sc_principal s) (sc_workspace s) (sc_store s) n)"
proof (induction g s xs t arbitrary: ys t' rule: authorize_seeds.induct)
  case (3 g s y ys0 t)
  show ?case
    using 3(2,3) 3(1) by (fastforce split: if_splits option.splits dest: node_of_Some)
qed simp_all

definition request_scope :: "host \<Rightarrow> graph_request \<Rightarrow> effective_principal \<Rightarrow> int list \<Rightarrow> scope" where
  "request_scope h q p seeds = \<lparr>sc_host = h, sc_principal = p, sc_workspace = gq_workspace q, sc_store = gq_store q, sc_seeds = seeds\<rparr>"

theorem expansion_sound_graph:
  assumes "expand_typed_graph h ctx t db q = Inr r"
  shows "ge_neighbors r = [] \<or> (\<exists>p seeds. gq_principal q = Some p \<and> gq_store q = gd_identity db \<and> gd_ready db
     \<and> list_all (seed_ok db q (request_scope h q p (map fst seeds))) seeds
     \<and> ranked_list (ge_neighbors r)
     \<and> list_all (reached_ok (gd_graph db) (request_scope h q p (map fst seeds)) seeds (nat (gq_depth q))) (ge_neighbors r))"
proof (cases "ge_neighbors r = []")
  case False
  then obtain p where p: "gq_principal q = Some p"
    using assms by (auto simp: expand_typed_graph_def without_neighbors_def split: if_splits option.splits)
  let ?s = "request_scope h q p []"
  obtain ranked where rk: "bounded_seeds (gq_seeds q) (gq_store q) = Inr ranked"
    and e: "r = expand_snapshot db ?s (nat (gq_depth q)) ranked (t - 3)" "gq_store q = gd_identity db"
    and d: "gq_depth q = 1 \<or> gq_depth q = 2"
    using assms False p
    by (auto simp: expand_typed_graph_def without_neighbors_def bind_result_Inr_iff request_scope_def split: if_splits)
  obtain seeds t1 found ok where a: "authorize_seeds (gd_graph db) ?s ranked (t - 3 - 1) = Some (seeds, t1)"
    and c: "collect_seeds (gd_graph db) (request_scope h q p (map fst seeds)) (nat (gq_depth q)) seeds [] t1 = (found, ok)"
    and n: "ge_neighbors r = finalize found (gq_store q)" and ready: "gd_ready db"
    using False unfolding e(1) expand_snapshot_def
    by (auto simp: without_neighbors_def request_scope_def split: if_splits option.splits prod.splits)
  have "list_all (seed_ok db q (request_scope h q p (map fst seeds))) seeds"
    using authorize_seeds_ok [OF a] rk unfolding list_all_iff seed_ok_def request_scope_def by auto
  moreover have "list_all (reached_ok (gd_graph db) (request_scope h q p (map fst seeds)) seeds (nat (gq_depth q))) found"
    by (rule collect_seeds_ok [OF c]) (use d in auto)
  ultimately show ?thesis using finalize_ok p e(2) ready unfolding n by blast
qed simp

section \<open>The best path wins\<close>

text \<open>The edges of a seed, in the order the walk reads them, and what they offer.\<close>

definition direct_offers :: "graph \<Rightarrow> scope \<Rightarrow> int \<times> real \<Rightarrow> reached list" where
  "direct_offers g s seed = concat (map (\<lambda>d. List.map_filter (consider_edge s d (fst seed) (snd seed))
     (filter (\<lambda>r. key_less (0, []) (row_key r)) (edge_rows g d (fst seed) (sort ALLOWED_LINK_TYPES)))) [Outgoing, Incoming])"

lemma foldl_admit_row: "foldl (admit_row c w) b rs = foldl (admit w rx_id) b (List.map_filter c rs)"
  by (induction rs arbitrary: b) (simp_all add: admit_row_def map_filter_simps split: option.split)

lemma both_ways_all:
  assumes "link_keys_distinct g"
    and "both_ways (\<lambda>d. fetch_edge_page g d (fst seed) (sort ALLOWED_LINK_TYPES))
      (\<lambda>d. consider_edge s d (fst seed) (snd seed)) wins t = Some (best, t')"
  shows "best = foldl (admit wins rx_id) [] (direct_offers g s seed)"
proof -
  note all = walk_pages_all [OF edge_rows_strict [OF assms(1)] fetch_edge_page_def]
  obtain b1 t1 where b: "walk_pages (fetch_edge_page g Outgoing (fst seed) (sort ALLOWED_LINK_TYPES))
       (admit_row (consider_edge s Outgoing (fst seed) (snd seed)) wins) (0, []) [] t = Some (b1, t1)"
    "walk_pages (fetch_edge_page g Incoming (fst seed) (sort ALLOWED_LINK_TYPES))
       (admit_row (consider_edge s Incoming (fst seed) (snd seed)) wins) (0, []) b1 t1 = Some (best, t')"
    using assms(2) by (auto simp: both_ways_def split: option.splits)
  show ?thesis unfolding all [OF b(2)] all [OF b(1)] foldl_admit_row by (simp add: direct_offers_def)
qed

definition beats :: "reached \<Rightarrow> reached \<Rightarrow> bool" where
  "beats x y \<longleftrightarrow> rx_score y < rx_score x \<or> rx_score x = rx_score y \<and> rx_type x \<le> rx_type y"

definition best_of :: "reached list \<Rightarrow> (int \<times> reached) list \<Rightarrow> bool" where
  "best_of cs best \<longleftrightarrow> distinct (map fst best) \<and> fst ` set best = rx_id ` set cs
     \<and> (\<forall>k x. (k, x) \<in> set best \<longrightarrow> k = rx_id x \<and> x \<in> set cs \<and> (\<forall>c \<in> set cs. rx_id c = k \<longrightarrow> beats x c))"

lemma beats_refl [simp]: "beats x x"
  by (simp add: beats_def)

lemma best_of_step:
  assumes "best_of cs best" shows "best_of (cs @ [c]) (admit near_wins rx_id best c)"
proof (cases "map_of best (rx_id c)")
  case None
  then have new: "rx_id c \<notin> fst ` set best" by (simp add: map_of_eq_None_iff)
  have d: "distinct (map fst best)" using assms by (simp add: best_of_def)
  have "fst ` set (AList.update (rx_id c) c best) = insert (rx_id c) (fst ` set best)"
    using dom_update [of "rx_id c" c best] unfolding dom_map_of_conv_image_fst by (simp only: insert_is_Un [symmetric])
  moreover have "rx_id x \<noteq> rx_id c" if "x \<in> set cs" for x
  proof
    assume "rx_id x = rx_id c"
    then have "rx_id c \<in> rx_id ` set cs" using that by (metis imageI)
    moreover have "fst ` set best = rx_id ` set cs" using assms unfolding best_of_def by blast
    ultimately show False using new by blast
  qed
  ultimately show ?thesis using assms None
    unfolding best_of_def admit_def
    by (auto simp: distinct_update update_entries [OF d] split: if_splits)
next
  case (Some y)
  then have y: "(rx_id c, y) \<in> set best" by (rule map_of_SomeD)
  have d: "distinct (map fst best)" using assms by (simp add: best_of_def)
  have yb: "rx_id y = rx_id c" "y \<in> set cs" "\<forall>x \<in> set cs. rx_id x = rx_id c \<longrightarrow> beats y x"
    using assms y by (auto simp: best_of_def)
  have keys: "fst ` set (AList.update (rx_id c) c best) = fst ` set best"
    using dom_update [of "rx_id c" c best] y by (force simp: dom_map_of_conv_image_fst)
  show ?thesis
  proof (cases "near_wins c y")
    case True
    have "beats c x" if "x \<in> set cs" "rx_id x = rx_id c" for x
      using yb(3) that True by (auto simp: beats_def near_wins_def)
    moreover have "rx_id c \<in> rx_id ` set cs" using yb(1,2) by (metis imageI)
    ultimately show ?thesis using assms Some True keys yb
      unfolding best_of_def admit_def
      by (auto simp: distinct_update update_entries [OF d] split: if_splits)
  next
    case False
    then have "beats y c" by (auto simp: beats_def near_wins_def not_less)
    moreover have "x = y" if "(rx_id c, x) \<in> set best" for x
      using map_of_is_SomeI [OF d that] Some by simp
    ultimately have win: "beats x c" if "(rx_id c, x) \<in> set best" for x using that by metis
    have old: "fst ` set best = rx_id ` set cs"
      "k = rx_id x \<and> x \<in> set cs \<and> (\<forall>c' \<in> set cs. rx_id c' = k \<longrightarrow> beats x c')" if "(k, x) \<in> set best" for k x
      using assms that unfolding best_of_def by blast+
    have "rx_id c \<in> rx_id ` set cs" using yb(1,2) by (metis imageI)
    then have keys: "fst ` set best = rx_id ` set (cs @ [c])" using old(1) [OF y] by (simp add: insert_absorb)
    have "beats x c'" if "(k, x) \<in> set best" "c' \<in> set (cs @ [c])" "rx_id c' = k" for k x c'
      using that win old(2) [OF that(1)] by (cases "c' = c") simp_all
    moreover have "admit near_wins rx_id best c = best" using Some False by (simp add: admit_def)
    ultimately show ?thesis unfolding best_of_def using keys d old(2) by simp
  qed
qed

lemma best_of_fold: "best_of cs best \<Longrightarrow> best_of (cs @ xs) (foldl (admit near_wins rx_id) best xs)"
proof (induction xs arbitrary: cs best)
  case (Cons x xs)
  from Cons.IH [OF best_of_step [OF Cons.prems, of x]] show ?case by simp
qed simp

lemma best_of_offers: "best_of cs (foldl (admit near_wins rx_id) [] cs)"
  using best_of_fold [of "[]" "[]" cs] by (simp add: best_of_def)

lemma hydrate_same:
  "rx_id (hydrate_text g x) = rx_id x" "rx_score (hydrate_text g x) = rx_score x" "rx_type (hydrate_text g x) = rx_type x"
  "rx_paths (hydrate_text g x) = rx_paths x"
  by (simp_all add: hydrate_text_def split: list.splits)

text \<open>Over one hop a seed gives its best offers, six documents at most, none of them weaker than one left out.\<close>

theorem first_hop_exact:
  assumes "link_keys_distinct g" and "eligible_neighbors_for_seed g s 1 seed t = Some (ns, t')"
  shows "length ns = min MAX_NEIGHBORS_PER_SEED (card (rx_id ` set (direct_offers g s seed)))
    \<and> distinct (map rx_id ns)
    \<and> (\<forall>x \<in> set ns. \<exists>c \<in> set (direct_offers g s seed). rx_id c = rx_id x \<and> rx_paths x = rx_paths c \<and> rx_score x = rx_score c
         \<and> (\<forall>c' \<in> set (direct_offers g s seed). rx_id c' = rx_id x \<longrightarrow> beats c c'))
    \<and> (\<forall>c \<in> set (direct_offers g s seed). rx_id c \<notin> rx_id ` set ns \<longrightarrow> (\<forall>x \<in> set ns. rx_score c \<le> rx_score x))"
proof -
  let ?cs = "direct_offers g s seed"
  obtain best t1 where b: "both_ways (\<lambda>d. fetch_edge_page g d (fst seed) (sort ALLOWED_LINK_TYPES))
      (\<lambda>d. consider_edge s d (fst seed) (snd seed)) near_wins t = Some (best, t1)"
    and h: "hydrate_all g (take MAX_NEIGHBORS_PER_SEED (by_rank best)) t1 = Some (ns, t')"
    using assms(2) unfolding eligible_neighbors_for_seed_def by (fastforce split: option.splits prod.splits)
  have bo: "best_of ?cs best" unfolding both_ways_all [OF assms(1) b] by (rule best_of_offers)
  define R where "R = by_rank best"
  have ns: "ns = map (hydrate_text g) (take MAX_NEIGHBORS_PER_SEED R)"
    using h by (simp add: hydrate_all_def R_def split: if_splits)
  have tab: "table_ok (\<lambda>x. x \<in> set ?cs \<and> (\<forall>c \<in> set ?cs. rx_id c = rx_id x \<longrightarrow> beats x c)) best"
    using bo by (auto simp: best_of_def table_ok_def)
  have ids: "map rx_id ns = take MAX_NEIGHBORS_PER_SEED (map rx_id R)" by (simp add: ns take_map comp_def hydrate_same)
  have dist: "distinct (map rx_id R)" unfolding R_def by (rule by_rank_distinct [OF tab])
  have "set (map rx_id R) = rx_id ` set ?cs"
  proof -
    have "rx_id ` snd ` set best = fst ` set best" using tab by (force simp: table_ok_def)
    then show ?thesis using bo by (simp add: R_def best_of_def)
  qed
  then have len: "length R = card (rx_id ` set ?cs)" using dist by (metis distinct_card length_map)
  have each: "\<exists>c \<in> set ?cs. rx_id c = rx_id x \<and> rx_paths x = rx_paths c \<and> rx_score x = rx_score c
      \<and> (\<forall>c' \<in> set ?cs. rx_id c' = rx_id x \<longrightarrow> beats c c')" if x: "x \<in> set ns" for x
  proof -
    obtain y where y: "y \<in> set (take MAX_NEIGHBORS_PER_SEED R)" "x = hydrate_text g y" using x ns by auto
    then show ?thesis using by_rank_take [OF tab, of y MAX_NEIGHBORS_PER_SEED]
      by (intro bexI [of _ y]) (simp_all add: hydrate_same R_def)
  qed
  have left: "rx_score c \<le> rx_score x" if c: "c \<in> set ?cs" "rx_id c \<notin> rx_id ` set ns" and x: "x \<in> set ns" for c x
  proof -
    have "rx_id c \<in> set (map rx_id R)" using c(1) \<open>set (map rx_id R) = rx_id ` set ?cs\<close> by blast
    then obtain z where z: "z \<in> set R" "rx_id z = rx_id c" by auto
    have "z \<notin> set (take MAX_NEIGHBORS_PER_SEED R)"
    proof
      assume "z \<in> set (take MAX_NEIGHBORS_PER_SEED R)"
      then have "hydrate_text g z \<in> set ns" by (simp add: ns)
      then have "rx_id (hydrate_text g z) \<in> rx_id ` set ns" by (rule imageI)
      then show False using c(2) z(2) by (simp add: hydrate_same)
    qed
    then have "z \<in> set (drop MAX_NEIGHBORS_PER_SEED R)" using z(1) by (metis Un_iff append_take_drop_id set_append)
    moreover obtain y where y: "y \<in> set (take MAX_NEIGHBORS_PER_SEED R)" "x = hydrate_text g y" using x ns by auto
    ultimately have "rx_score z \<le> rx_score y"
      using by_rank_sorted [of best] sorted_wrt_parts [of _ "take MAX_NEIGHBORS_PER_SEED R" "drop MAX_NEIGHBORS_PER_SEED R"]
      unfolding R_def append_take_drop_id by force
    moreover have "beats z c"
    proof -
      have "list_all (\<lambda>x. x \<in> set ?cs \<and> (\<forall>c \<in> set ?cs. rx_id c = rx_id x \<longrightarrow> beats x c)) R"
        unfolding R_def by (rule by_rank_all [OF tab])
      then show ?thesis using z c(1) by (simp add: list_all_iff)
    qed
    ultimately show ?thesis using y(2) by (auto simp: beats_def hydrate_same)
  qed
  have "length ns = min MAX_NEIGHBORS_PER_SEED (card (rx_id ` set ?cs))" by (simp add: ns len min.commute)
  moreover have "distinct (map rx_id ns)" unfolding ids using dist by simp
  ultimately show ?thesis using each left by blast
qed

section \<open>With checks enough the walk ends\<close>

definition walk_cost :: "graph \<Rightarrow> nat" where
  "walk_cost g = Suc (length (gr_links g))"

lemma edge_rows_length: "length (filter P (edge_rows g d seed types)) \<le> length (gr_links g)"
proof -
  have "length (List.map_filter f xs) \<le> length xs" for f :: "glink \<Rightarrow> (glink \<times> gnode) option" and xs
    by (induction xs) (auto simp: map_filter_simps split: option.split)
  then have "length (edge_rows g d seed types) \<le> length (gr_links g)" by (simp add: edge_rows_def)
  then show ?thesis using length_filter_le le_trans by blast
qed

lemma page_walk_ends:
  assumes "link_keys_distinct g" and "walk_cost g \<le> t"
  shows "\<exists>acc' t'. walk_pages (fetch_edge_page g d seed types) step pos acc t = Some (acc', t') \<and> t \<le> t' + walk_cost g"
proof -
  let ?n = "length (filter (\<lambda>r. key_less pos (row_key r)) (edge_rows g d seed types))"
  have n: "?n \<le> length (gr_links g)" by (rule edge_rows_length)
  then have "?n < t" using assms(2) by (simp add: walk_cost_def)
  from walk_pages_ends [OF edge_rows_strict [OF assms(1)] fetch_edge_page_def this]
  show ?thesis using n by (force simp: walk_cost_def)
qed

lemma both_ways_ends:
  assumes "link_keys_distinct g" and "2 * walk_cost g \<le> t"
  shows "\<exists>best t'. both_ways (\<lambda>d. fetch_edge_page g d seed types) consider wins t = Some (best, t') \<and> t \<le> t' + 2 * walk_cost g"
proof -
  have "walk_cost g \<le> t" using assms(2) by simp
  from page_walk_ends [OF assms(1) this, of Outgoing seed types "admit_row (consider Outgoing) wins" "(0, [])" "[]"]
  obtain b1 t1 where
    b1: "walk_pages (fetch_edge_page g Outgoing seed types) (admit_row (consider Outgoing) wins) (0, []) [] t = Some (b1, t1)"
      "t \<le> t1 + walk_cost g" by blast
  then have "walk_cost g \<le> t1" using assms(2) by simp
  from page_walk_ends [OF assms(1) this, of Incoming seed types "admit_row (consider Incoming) wins" "(0, [])" b1]
  obtain b2 t2 where
    "walk_pages (fetch_edge_page g Incoming seed types) (admit_row (consider Incoming) wins) (0, []) b1 t1 = Some (b2, t2)"
      "t1 \<le> t2 + walk_cost g" by blast
  then show ?thesis using b1 by (simp add: both_ways_def)
qed

lemma second_hop_ends:
  assumes "link_keys_distinct g" and "2 * walk_cost g \<le> t"
  shows "\<exists>far t'. second_hop_for_parent g s seed parent t = Some (far, t') \<and> t \<le> t' + 2 * walk_cost g"
  using both_ways_ends [OF assms, of "rx_id parent" "sort TWO_HOP_TYPES" "\<lambda>d. consider_second_hop s d seed parent" far_wins]
  by (force simp: second_hop_for_parent_def)

lemma merge_over_ends:
  assumes "link_keys_distinct g"
  shows "length xs * Suc (2 * walk_cost g) \<le> t \<Longrightarrow>
    \<exists>best' t'. merge_over g s seed xs best t = Some (best', t') \<and> t \<le> t' + length xs * Suc (2 * walk_cost g)"
proof (induction xs arbitrary: best t)
  case (Cons x xs)
  obtain t0 where t0: "t = Suc t0" using Cons.prems by (cases t) auto
  then have "2 * walk_cost g \<le> t0" using Cons.prems by simp
  from second_hop_ends [OF assms this] obtain far t1 where
    f: "second_hop_for_parent g s seed x t0 = Some (far, t1)" "t0 \<le> t1 + 2 * walk_cost g" by blast
  then have "length xs * Suc (2 * walk_cost g) \<le> t1" using Cons.prems t0 by simp
  from Cons.IH [OF this] f t0 show ?case by fastforce
qed simp

definition seed_cost :: "graph \<Rightarrow> nat" where
  "seed_cost g = 2 * walk_cost g + 6 * Suc (2 * walk_cost g) + 6"

lemma frontier_length: "length (frontier best) \<le> 6"
  unfolding frontier_def by (rule le_trans [OF length_filter_le]) (simp add: MAX_NEIGHBORS_PER_SEED_def)

lemma eligible_neighbors_ends:
  assumes "link_keys_distinct g" and "seed_cost g \<le> t"
  shows "\<exists>ns t'. eligible_neighbors_for_seed g s depth seed t = Some (ns, t') \<and> t \<le> t' + seed_cost g"
proof -
  let ?w = "2 * walk_cost g"
  have "?w \<le> t" using assms(2) by (simp add: seed_cost_def)
  from both_ways_ends [OF assms(1) this, of "fst seed" "sort ALLOWED_LINK_TYPES" "\<lambda>d. consider_edge s d (fst seed) (snd seed)" near_wins]
  obtain best t1 where
    b: "both_ways (\<lambda>d. fetch_edge_page g d (fst seed) (sort ALLOWED_LINK_TYPES))
      (\<lambda>d. consider_edge s d (fst seed) (snd seed)) near_wins t = Some (best, t1)" "t \<le> t1 + ?w" by blast
  then have "6 * Suc ?w + 6 \<le> t1" using assms(2) by (simp add: seed_cost_def)
  moreover have "length (frontier best) * Suc ?w \<le> 6 * Suc ?w" using frontier_length by (rule mult_le_mono1)
  ultimately have fr: "length (frontier best) * Suc ?w \<le> t1" by linarith
  obtain best' t2 where m: "(if depth \<ge> 2 then merge_second_hop g s (fst seed) best t1 else Some (best, t1)) = Some (best', t2)"
    "t1 \<le> t2 + 6 * Suc ?w"
  proof (cases "depth \<ge> 2")
    case True
    from merge_over_ends [OF assms(1) fr, of s "fst seed" best] obtain best' t2 where
      "merge_second_hop g s (fst seed) best t1 = Some (best', t2)" "t1 \<le> t2 + length (frontier best) * Suc ?w"
      unfolding merge_second_hop_def by blast
    then show thesis using True that \<open>length (frontier best) * Suc ?w \<le> 6 * Suc ?w\<close> by simp
  next
    case False
    then show thesis using that [of best t1] by simp
  qed
  have "6 \<le> t2" using m(2) \<open>6 * Suc ?w + 6 \<le> t1\<close> by linarith
  then have "hydrate_all g (take MAX_NEIGHBORS_PER_SEED (by_rank best')) t2
      = Some (map (hydrate_text g) (take MAX_NEIGHBORS_PER_SEED (by_rank best')), t2 - min (length (by_rank best')) 6)"
    by (simp add: hydrate_all_def MAX_NEIGHBORS_PER_SEED_def min_le_iff_disj)
  moreover have "t \<le> t2 - min (length (by_rank best')) 6 + seed_cost g"
    using b(2) m(2) by (simp add: seed_cost_def)
  ultimately show ?thesis using b(1) m(1) unfolding eligible_neighbors_for_seed_def by auto
qed

lemma collect_seeds_ends:
  assumes "link_keys_distinct g"
  shows "length xs * Suc (seed_cost g) \<le> t \<Longrightarrow> snd (collect_seeds g s depth xs acc t)"
proof (induction xs arbitrary: acc t)
  case (Cons x xs)
  obtain t0 where t0: "t = Suc t0" using Cons.prems by (cases t) auto
  then have "seed_cost g \<le> t0" using Cons.prems by simp
  from eligible_neighbors_ends [OF assms this] obtain ns t1 where
    n: "eligible_neighbors_for_seed g s depth x t0 = Some (ns, t1)" "t0 \<le> t1 + seed_cost g" by blast
  then have "length xs * Suc (seed_cost g) \<le> t1" using Cons.prems t0 by simp
  from Cons.IH [OF this] show ?case using n t0 by simp
qed simp

lemma authorize_seeds_ends:
  "length xs \<le> t \<Longrightarrow> \<exists>ys. authorize_seeds g s xs t = Some (ys, t - length xs) \<and> length ys \<le> length xs"
proof (induction g s xs t rule: authorize_seeds.induct)
  case (3 g s x xs t)
  then obtain ys where "authorize_seeds g s xs t = Some (ys, t - length xs)" "length ys \<le> length xs" by auto
  then show ?case by simp
qed simp_all

lemma bounded_seeds_length: "bounded_seeds seeds store = Inr ranked \<Longrightarrow> length ranked \<le> MAX_SEEDS"
proof -
  assume "bounded_seeds seeds store = Inr ranked"
  then obtain raws xs where x: "result_map (seed_item store) (take MAX_SEEDS raws) = Inr xs"
    "ranked = first_of_each_seed [] (List.map_filter id xs)"
    by (auto simp: bounded_seeds_def bind_result_Inr_iff split: json.splits)
  have "length (first_of_each_seed seen ys) \<le> length ys" for seen ys
    by (induction seen ys rule: first_of_each_seed.induct) auto
  moreover have "length (List.map_filter f ys) \<le> length ys" for f :: "(int \<times> real) option \<Rightarrow> (int \<times> real) option" and ys
    by (induction ys) (auto simp: map_filter_simps split: option.split)
  moreover have "length xs \<le> MAX_SEEDS" using result_map_length [OF x(1)] by simp
  ultimately show ?thesis unfolding x(2) by (meson le_trans)
qed

text \<open>The checks an expansion needs at most.\<close>

definition checks_needed :: "graph \<Rightarrow> nat" where
  "checks_needed g = 12 + 8 * Suc (seed_cost g)"

theorem expansion_finishes:
  assumes "link_keys_distinct (gd_graph db)" and "checks_needed (gd_graph db) \<le> t"
    and "expand_typed_graph h ctx t db q = Inr r"
  shows "ge_status r \<in> {''ok'', ''schema_missing'', ''disabled''}"
proof (rule ccontr)
  assume bad: "ge_status r \<notin> {''ok'', ''schema_missing'', ''disabled''}"
  have t: "12 + 8 * Suc (seed_cost (gd_graph db)) \<le> t" using assms(2) by (simp add: checks_needed_def)
  obtain p ranked where p: "gq_principal q = Some p" "bounded_seeds (gq_seeds q) (gq_store q) = Inr ranked"
    and e: "r = expand_snapshot db \<lparr>sc_host = h, sc_principal = p, sc_workspace = gq_workspace q, sc_store = gq_store q, sc_seeds = []\<rparr>
      (nat (gq_depth q)) ranked (t - 3)"
    using assms(3) bad t
    by (auto simp: expand_typed_graph_def without_neighbors_def bind_result_Inr_iff split: if_splits option.splits)
  let ?s = "\<lparr>sc_host = h, sc_principal = p, sc_workspace = gq_workspace q, sc_store = gq_store q, sc_seeds = []\<rparr>"
  have len: "length ranked \<le> 8" using bounded_seeds_length [OF p(2)] by (simp add: MAX_SEEDS_def)
  then have "length ranked \<le> t - 3 - 1" using t by linarith
  from authorize_seeds_ends [OF this, of "gd_graph db" ?s] obtain seeds where
    a: "authorize_seeds (gd_graph db) ?s ranked (t - 3 - 1) = Some (seeds, t - 3 - 1 - length ranked)" "length seeds \<le> length ranked"
    by blast
  have "length seeds * Suc (seed_cost (gd_graph db)) \<le> 8 * Suc (seed_cost (gd_graph db))"
    using a(2) len by (intro mult_le_mono1) simp
  then have "length seeds * Suc (seed_cost (gd_graph db)) \<le> t - 3 - 1 - length ranked" using t len by linarith
  from collect_seeds_ends [OF assms(1) this] have
    "snd (collect_seeds (gd_graph db) (?s\<lparr>sc_seeds := map fst seeds\<rparr>) (nat (gq_depth q)) seeds [] (t - 3 - 1 - length ranked))" .
  then show False using bad a(1) t
    by (auto simp: e expand_snapshot_def without_neighbors_def split: prod.splits if_splits)
qed

section \<open>A concrete graph\<close>

definition demo_node :: "int \<Rightarrow> string \<Rightarrow> gnode" where
  "demo_node i agent = \<lparr>gn_id = i, gn_path = ''/v/learnings/a.md'', gn_agent = agent, gn_sigil = None, gn_privacy = None,
     gn_status = Some ''accepted'', gn_type = Some ''learning'', gn_kind = Some ''learning''\<rparr>"

definition demo_link :: "int \<Rightarrow> int \<Rightarrow> string \<Rightarrow> glink" where
  "demo_link a b ty = \<lparr>gl_source = a, gl_target = b, gl_type = ty, gl_weight = JNull, gl_confidence = JNull, gl_run = None,
     gl_model = None, gl_method = None, gl_status = ''active''\<rparr>"

definition demo_db :: graph_db where
  "demo_db = \<lparr>gd_graph = \<lparr>gr_nodes = [demo_node 1 ''codex'', demo_node 2 ''codex'', demo_node 3 ''codex'',
       (demo_node 4 ''main'')\<lparr>gn_privacy := Some ''private''\<rparr>],
     gr_links = [demo_link 1 2 ''updates'', demo_link 3 2 ''extends'', demo_link 1 4 ''relates''], gr_chunks = []\<rparr>,
     gd_identity = ''/db'', gd_ready = True\<rparr>"

definition graph_host :: host where
  "graph_host = \<lparr>environ = (\<lambda>_. None), resolve_path = (\<lambda>p. Some (if p = ''/v'' then [''v''] else [''v'', ''learnings'', ''a.md''])),
     expand_user = Some, chmod_works = True\<rparr>"

definition graph_reader :: effective_principal where
  "graph_reader = \<lparr>p_agent_id = ''codex'', p_workspace_id = ''default'', p_session_id = JNull, p_transport = ''uds'',
     p_capabilities = [JStr ''read''], p_allowed_vault_roots = [''/v''], p_auto_accept_own = False, p_deny_reason = None\<rparr>"

definition demo_request :: graph_request where
  "demo_request = \<lparr>gq_store = ''/db'', gq_seeds = JList [JObj [(''doc_id'', JInt 1), (''score'', JInt 1), (''store_id'', JStr ''/db'')]],
     gq_principal = Some graph_reader, gq_workspace = ''default'', gq_deadline = JInt 5, gq_depth = 2\<rparr>"

definition demo_expansion_answer :: "pyerr + graph_expansion" where
  "demo_expansion_answer = expand_typed_graph graph_host None 600 demo_db demo_request"

lemma demo_found:
  "(case demo_expansion_answer of Inr r \<Rightarrow>
      ge_status r = ''ok'' \<and> map (\<lambda>x. (rx_id x, rx_depth x)) (ge_neighbors r) = [(2, 1), (3, 2)]
    | Inl e \<Rightarrow> False)"
  by code_simp

lemma demo_answer:
  obtains r where "expand_typed_graph graph_host None 600 demo_db demo_request = Inr r" and "ge_status r = ''ok''"
    and "map (\<lambda>x. (rx_id x, rx_depth x)) (ge_neighbors r) = [(2, 1), (3, 2)]"
  using demo_found unfolding demo_expansion_answer_def by (auto split: sum.splits)

theorem expansion_sound_graph_witness:
  "\<exists>r p seeds. expand_typed_graph graph_host None 600 demo_db demo_request = Inr r \<and> length (ge_neighbors r) = 2
     \<and> list_all (reached_ok (gd_graph demo_db) (request_scope graph_host demo_request p (map fst seeds)) seeds 2) (ge_neighbors r)"
proof -
  obtain r where r: "expand_typed_graph graph_host None 600 demo_db demo_request = Inr r"
    and n: "map (\<lambda>x. (rx_id x, rx_depth x)) (ge_neighbors r) = [(2, 1), (3, 2)]"
    by (rule demo_answer)
  have l: "length (ge_neighbors r) = 2" using arg_cong [OF n, of length] by simp
  then have "ge_neighbors r \<noteq> []" by auto
  moreover have "nat (gq_depth demo_request) = 2" by (simp add: demo_request_def)
  ultimately show ?thesis using expansion_sound_graph [OF r] r l by metis
qed

lemma demo_links: "link_keys_distinct (gd_graph demo_db)"
  by (simp add: link_keys_distinct_def demo_db_def demo_link_def)

theorem expansion_finishes_witness:
  "\<exists>r. expand_typed_graph graph_host None 600 demo_db demo_request = Inr r
     \<and> ge_status r \<in> {''ok'', ''schema_missing'', ''disabled''}"
proof -
  obtain r where r: "expand_typed_graph graph_host None 600 demo_db demo_request = Inr r" by (rule demo_answer)
  have "checks_needed (gd_graph demo_db) \<le> 600"
    by (simp add: checks_needed_def seed_cost_def walk_cost_def demo_db_def)
  from expansion_finishes [OF demo_links this r] r show ?thesis by blast
qed

definition demo_scope :: scope where
  "demo_scope = \<lparr>sc_host = graph_host, sc_principal = graph_reader, sc_workspace = ''default'', sc_store = ''/db'', sc_seeds = [1]\<rparr>"

theorem first_hop_exact_witness:
  "\<exists>ns t'. eligible_neighbors_for_seed (gd_graph demo_db) demo_scope 1 (1, 1) 600 = Some (ns, t')
     \<and> (\<forall>c \<in> set (direct_offers (gd_graph demo_db) demo_scope (1, 1)). rx_id c \<in> rx_id ` set ns)"
proof -
  have cost: "seed_cost (gd_graph demo_db) \<le> 600" by (simp add: seed_cost_def walk_cost_def demo_db_def)
  from eligible_neighbors_ends [OF demo_links cost] obtain ns t' where
    ns: "eligible_neighbors_for_seed (gd_graph demo_db) demo_scope 1 (1, 1) 600 = Some (ns, t')" by blast
  let ?C = "rx_id ` set (direct_offers (gd_graph demo_db) demo_scope (1, 1))"
  have C: "?C = {2}" by code_simp
  note ex = first_hop_exact [OF demo_links ns]
  have "length ns = 1" using ex C by (simp add: MAX_NEIGHBORS_PER_SEED_def)
  then obtain x where x: "ns = [x]" by (cases ns) auto
  have "\<forall>y \<in> set ns. \<exists>c \<in> set (direct_offers (gd_graph demo_db) demo_scope (1, 1)). rx_id c = rx_id y" using ex by blast
  then obtain c where "c \<in> set (direct_offers (gd_graph demo_db) demo_scope (1, 1))" "rx_id c = rx_id x" unfolding x by auto
  then have "rx_id x \<in> ?C" by (metis imageI)
  then have "rx_id ` set ns = ?C" unfolding C x by simp
  then have "\<forall>c \<in> set (direct_offers (gd_graph demo_db) demo_scope (1, 1)). rx_id c \<in> rx_id ` set ns" by blast
  then show ?thesis using ns by blast
qed

end
