(* ===== verification/Redaction.thy ===== *)
theory Redaction
  imports Regex
begin

text \<open>
  \<^verbatim>\<open>src/minni/minnid_runtime/redaction.py\<close>: the patterns and substitutions that
  keep secrets and local paths out of what leaves the process.
\<close>

subsection \<open>Substitution\<close>

text \<open>
  \<^verbatim>\<open>pattern.sub(f, text)\<close> for patterns that never match the empty string: scan from
  the left, replace the first match and go on after it.  The first argument bounds the number
  of steps; the length of the text is enough, since every step consumes a character.
\<close>

fun rx_sub :: "nat \<Rightarrow> bool \<Rightarrow> re \<Rightarrow> (caps \<Rightarrow> string) \<Rightarrow> char option \<Rightarrow> string \<Rightarrow> string" where
  "rx_sub 0 ic r f p s = s"
| "rx_sub (Suc n) ic r f p [] = []"
| "rx_sub (Suc n) ic r f p (c # cs) =
     (case rx ic r (p, c # cs, []) of
        (p', s', cp) # _ \<Rightarrow>
          if length s' < length (c # cs) then f cp @ rx_sub n ic r f p' s'
          else c # rx_sub n ic r f (Some c) cs
      | [] \<Rightarrow> c # rx_sub n ic r f (Some c) cs)"

definition substitute :: "bool \<Rightarrow> re \<Rightarrow> (caps \<Rightarrow> string) \<Rightarrow> string \<Rightarrow> string" where
  "substitute ic r f t = rx_sub (length t) ic r f None t"

subsection \<open>Patterns\<close>

definition key_words :: re where
  "key_words = alts [seqs [Lit ''api'', opt (Cls False [(45, 45), (95, 95)]), Lit ''key''],
     Lit ''password'', Lit ''secret'', Lit ''credential'',
     seqs [Lit ''private'', opt (Cls False [(32, 32), (45, 45), (95, 95)]), Lit ''key'']]"

definition token_words :: re where
  "token_words = alts [Lit ''bearer'',
     seqs [Lit ''access'', opt (Cls False [(45, 45), (95, 95)]), Lit ''token''],
     seqs [Lit ''refresh'', opt (Cls False [(45, 45), (95, 95)]), Lit ''token''],
     Lit ''token'']"

text \<open>\<^verbatim>\<open>[^\s,;<>"']\<close>.\<close>

definition bare_value :: re where
  "bare_value = Cls True (space_ranges @ [(34, 34), (39, 39), (44, 44), (59, 60), (62, 62)])"

definition assigned :: "re \<Rightarrow> re" where
  "assigned ws = seqs [WordB, Grp 1 ws, WordB, sp0, Cls False [(58, 58), (61, 61)], sp0,
     Grp 2 (plus bare_value)]"

definition quote_mark :: re where
  "quote_mark = Cls False [(34, 34)]"

definition json_assigned :: "re \<Rightarrow> re" where
  "json_assigned ws = seqs [Grp 1 (opt quote_mark), Grp 2 ws, BackRef 1, sp0, Cls False [(58, 58)], sp0,
     quote_mark, Grp 3 (plus (Cls True [(34, 34)])), quote_mark]"

definition upper_or_blank :: re where
  "upper_or_blank = Star True (Cls False [(32, 32), (65, 90)])"

definition private_key_block :: re where
  "private_key_block = seqs [Lit ''-----begin '', upper_or_blank, Lit ''private key-----'',
     Star False AnyChar, Lit ''-----end '', upper_or_blank, Lit ''private key-----'']"

text \<open>A pattern and the number of its groups.\<close>

definition SECRET_PATTERNS :: "(re \<times> nat) list" where
  "SECRET_PATTERNS = [(assigned key_words, 2), (assigned token_words, 2),
     (json_assigned key_words, 3), (json_assigned token_words, 3), (private_key_block, 0)]"

definition digit_letter :: "(nat \<times> nat) list" where
  "digit_letter = [(48, 57), (65, 90), (97, 122)]"

definition BARE_TOKEN_PATTERNS :: "re list" where
  "BARE_TOKEN_PATTERNS =
    [seqs [WordB, Lit ''sk-'', at_least 16 (Cls False (digit_letter @ [(45, 45), (95, 95)])), WordB],
     seqs [WordB, Lit ''gh'', Cls False [(111, 112), (114, 115), (117, 117)], Lit ''_'',
       at_least 20 (Cls False (digit_letter @ [(95, 95)])), WordB],
     seqs [WordB, Lit ''github_pat_'', at_least 20 (Cls False (digit_letter @ [(95, 95)])), WordB],
     seqs [WordB, Lit ''AKIA'', exactly 16 (Cls False [(48, 57), (65, 90)]), WordB],
     seqs [WordB, Lit ''xox'', Cls False [(97, 98), (112, 112), (114, 115)], Lit ''-'',
       at_least 10 (Cls False (digit_letter @ [(45, 45)])), WordB]]"

text \<open>\<^verbatim>\<open>[^ \n\r\t"'<>]\<close>.\<close>

definition path_char :: re where
  "path_char = Cls True [(9, 10), (13, 13), (32, 32), (34, 34), (39, 39), (60, 60), (62, 62)]"

definition LOCAL_PATH_PATTERN :: re where
  "LOCAL_PATH_PATTERN = Seq NotAfterWord (alts (map (\<lambda>root. Seq (Lit root) (plus path_char))
     [''/Users/'', ''/Volumes/'', ''/private/'', ''/home/'']))"

subsection \<open>Redaction\<close>

definition group_text :: "caps \<Rightarrow> nat \<Rightarrow> string" where
  "group_text cp n = (case map_of cp n of None \<Rightarrow> [] | Some t \<Rightarrow> t)"

definition secret_sub :: "nat \<Rightarrow> caps \<Rightarrow> string" where
  "secret_sub groups cp =
     (if groups \<ge> 3 then group_text cp 2 @ ''=[REDACTED]''
      else if groups \<ge> 2 then group_text cp 1 @ ''=[REDACTED]''
      else ''[REDACTED]'')"

definition apply_pattern :: "bool \<Rightarrow> re \<Rightarrow> (caps \<Rightarrow> string) \<Rightarrow> string \<times> bool \<Rightarrow> string \<times> bool" where
  "apply_pattern ic r f = (\<lambda>(t, changed).
     if rx_search ic r None t then (substitute ic r f t, True) else (t, changed))"

definition redact_text :: "string \<Rightarrow> string \<times> bool" where
  "redact_text t =
     apply_pattern False LOCAL_PATH_PATTERN (\<lambda>_. ''[REDACTED_PATH]'')
       (fold (\<lambda>r. apply_pattern False r (\<lambda>_. ''[REDACTED]'')) BARE_TOKEN_PATTERNS
         (fold (\<lambda>(r, n). apply_pattern True r (secret_sub n)) SECRET_PATTERNS (t, False)))"

fun redact_value :: "json \<Rightarrow> json \<times> bool" where
  "redact_value (JStr s) = (let (t, c) = redact_text s in (JStr t, c))"
| "redact_value (JList xs) =
     (JList (map (\<lambda>x. fst (redact_value x)) xs), list_ex (\<lambda>x. snd (redact_value x)) xs)"
| "redact_value (JObj kvs) =
     (JObj (map (\<lambda>kv. (fst kv, fst (redact_value (snd kv)))) kvs),
      list_ex (\<lambda>kv. snd (redact_value (snd kv))) kvs)"
| "redact_value v = (v, False)"

subsection \<open>The flag tells the truth\<close>

definition leaks :: "string \<Rightarrow> bool" where
  "leaks t \<longleftrightarrow> list_ex (\<lambda>(r, n). rx_search True r None t) SECRET_PATTERNS
     \<or> list_ex (\<lambda>r. rx_search False r None t) BARE_TOKEN_PATTERNS
     \<or> rx_search False LOCAL_PATH_PATTERN None t"

lemma apply_pattern_unchanged:
  "apply_pattern ic r f (t, c) = (t', False) \<longleftrightarrow> \<not> c \<and> \<not> rx_search ic r None t \<and> t' = t"
  by (auto simp: apply_pattern_def)

lemma fold_secret_unchanged:
  "fold (\<lambda>(r, n). apply_pattern True r (secret_sub n)) ps (t, c) = (t', False) \<longleftrightarrow>
   \<not> c \<and> t' = t \<and> \<not> list_ex (\<lambda>(r, n). rx_search True r None t) ps"
proof (induction ps arbitrary: t c)
  case Nil
  then show ?case by auto
next
  case (Cons p ps)
  obtain r n where p: "p = (r, n)" by fastforce
  obtain t1 c1 where a: "apply_pattern True r (secret_sub n) (t, c) = (t1, c1)" by fastforce
  show ?case
    using Cons [of t1 c1] apply_pattern_unchanged [of True r "secret_sub n" t c t1] a p
    by (cases c1) (auto simp: apply_pattern_def split: if_split_asm)
qed

lemma fold_bare_unchanged:
  "fold (\<lambda>r. apply_pattern False r g) rs (t, c) = (t', False) \<longleftrightarrow>
   \<not> c \<and> t' = t \<and> \<not> list_ex (\<lambda>r. rx_search False r None t) rs"
proof (induction rs arbitrary: t c)
  case Nil
  then show ?case by auto
next
  case (Cons r rs)
  obtain t1 c1 where a: "apply_pattern False r g (t, c) = (t1, c1)" by fastforce
  show ?case
    using Cons [of t1 c1] apply_pattern_unchanged [of False r g t c t1] a
    by (cases c1) (auto simp: apply_pattern_def split: if_split_asm)
qed

lemma redact_unchanged_iff: "redact_text t = (t', False) \<longleftrightarrow> t' = t \<and> \<not> leaks t"
proof -
  let ?B = "\<lambda>r. apply_pattern False r (\<lambda>_. ''[REDACTED]'')"
  obtain t1 c1 where 1: "fold (\<lambda>(r, n). apply_pattern True r (secret_sub n)) SECRET_PATTERNS (t, False)
      = (t1, c1)" by fastforce
  obtain t2 c2 where 2: "fold ?B BARE_TOKEN_PATTERNS (t1, c1) = (t2, c2)" by fastforce
  have a: "c1 = False \<and> t1 = t \<longleftrightarrow> \<not> list_ex (\<lambda>(r, n). rx_search True r None t) SECRET_PATTERNS"
    using fold_secret_unchanged [of SECRET_PATTERNS t False t] unfolding 1 by auto
  have a': "\<not> c1 \<Longrightarrow> t1 = t"
    using fold_secret_unchanged [of SECRET_PATTERNS t False t1] unfolding 1 by simp
  have b: "\<not> c2 \<Longrightarrow> \<not> c1 \<and> t2 = t1 \<and> \<not> list_ex (\<lambda>r. rx_search False r None t1) BARE_TOKEN_PATTERNS"
    using fold_bare_unchanged [of "\<lambda>_. ''[REDACTED]''" BARE_TOKEN_PATTERNS t1 c1 t2] unfolding 2 by simp
  have b': "\<not> c1 \<Longrightarrow> \<not> list_ex (\<lambda>r. rx_search False r None t1) BARE_TOKEN_PATTERNS \<Longrightarrow> \<not> c2 \<and> t2 = t1"
    using fold_bare_unchanged [of "\<lambda>_. ''[REDACTED]''" BARE_TOKEN_PATTERNS t1 c1 t1] unfolding 2 by simp
  have "redact_text t = (t', False) \<longleftrightarrow> \<not> c2 \<and> \<not> rx_search False LOCAL_PATH_PATTERN None t2 \<and> t' = t2"
    unfolding redact_text_def 1 2 by (rule apply_pattern_unchanged)
  also have "\<dots> \<longleftrightarrow> t' = t \<and> \<not> leaks t"
    unfolding leaks_def using a a' b b' by metis
  finally show ?thesis .
qed

theorem redact_flag_exact: "redact_text t = (t', False) \<longleftrightarrow> t' = t \<and> \<not> leaks t"
  by (rule redact_unchanged_iff)

end
