(* ===== verification/Safety.thy ===== *)
theory Safety
  imports Regex
begin

text \<open>
  \<^verbatim>\<open>src/minni/safety.py\<close>: the deterministic prompt-injection detector.  The
  pattern table is transcribed pattern by pattern; the flag says whether the source
  compiled it with \<^verbatim>\<open>IGNORECASE\<close>.
\<close>

definition targets7 :: "re" where
  "targets7 = alts [Seq (Lit ''instruction'') (opt (Lit ''s'')), Seq (Lit ''directive'') (opt (Lit ''s'')),
     Lit ''prompt'', Lit ''context'', Seq (Lit ''rule'') (opt (Lit ''s'')),
     Seq (Lit ''guideline'') (opt (Lit ''s'')), Seq (Lit ''constraint'') (opt (Lit ''s''))]"

definition targets5 :: "re" where
  "targets5 = alts [Seq (Lit ''instruction'') (opt (Lit ''s'')), Seq (Lit ''directive'') (opt (Lit ''s'')),
     Lit ''prompt'', Lit ''context'', Seq (Lit ''rule'') (opt (Lit ''s''))]"

definition whose :: re where
  "whose = words [''previous'', ''prior'', ''above'', ''earlier'', ''your'', ''all'']"

definition opener :: "string \<Rightarrow> re" where
  "opener w = seqs [WordB, Lit w, sp, opt (Seq (Lit ''all'') sp), whose, sp]"

definition PATTERNS :: "(bool \<times> re) list" where
  "PATTERNS =
   [(True, Seq (opener ''ignore'') (Seq targets7 WordB)),
    (True, Seq (opener ''disregard'') targets5),
    (True, Seq (opener ''forget'') targets5),
    (True, seqs [WordB, words [''pretend'', ''imagine'', ''act'', ''behave''], sp,
       alts [seqs [Lit ''you'', sp, Lit ''are''],
             seqs [Lit ''as'', sp, Lit ''if'', sp, Lit ''you'', sp, Lit ''are''],
             seqs [Lit ''that'', sp, Lit ''you'', sp, Lit ''are'']], WordB]),
    (True, seqs [WordB, Lit ''you'', sp, Lit ''are'', sp, Lit ''now'', sp, words [''a'', ''an''], WordB]),
    (True, seqs [WordB, Lit ''new'', sp,
       alts [Lit ''persona'', Lit ''identity'', Lit ''role'', Lit ''character'',
             seqs [Lit ''system'', sp, Lit ''prompt'']], WordB]),
    (True, seqs [WordB, Lit ''override'', sp, opt (words [''your'', ''the'', ''all'']), sp0,
       alts [Seq (Lit ''instruction'') (opt (Lit ''s'')), Seq (Lit ''directive'') (opt (Lit ''s'')),
             Seq (Lit ''rule'') (opt (Lit ''s'')), Lit ''system''], WordB]),
    (True, seqs [WordB, Lit ''system'', sp, Lit ''prompt'', WordB]),
    (True, seqs [WordB,
       alts [seqs [Lit ''you'', sp, Lit ''must''], seqs [Lit ''you'', sp, Lit ''shall''],
             seqs [Lit ''you'', sp, Lit ''will''], seqs [Lit ''you'', sp, Lit ''need'', sp, Lit ''to''],
             seqs [Lit ''you'', sp, Lit ''are'', sp, Lit ''required'', sp, Lit ''to'']], sp,
       words [''always'', ''never'', ''not'', ''only'', ''immediately'', ''now'', ''instead''], WordB]),
    (True, seqs [WordB,
       alts [seqs [Lit ''do'', sp, Lit ''not''],
             Lit [CHR ''d'', CHR ''o'', CHR ''n'', CHR 0x27, CHR ''t''], Lit ''never''], sp,
       alts [Lit ''follow'', Lit ''obey'', seqs [Lit ''comply'', sp, Lit ''with''],
             seqs [Lit ''adhere'', sp, Lit ''to'']], sp,
       words [''your'', ''the'', ''any'', ''these'', ''those''], sp,
       alts [Seq (Lit ''instruction'') (opt (Lit ''s'')), Seq (Lit ''rule'') (opt (Lit ''s'')),
             Seq (Lit ''guideline'') (opt (Lit ''s'')), Seq (Lit ''directive'') (opt (Lit ''s''))], WordB]),
    (False, seqs [WordB, Lit ''DAN'', WordB]),
    (True, seqs [WordB, Lit ''jailbreak'', WordB]),
    (True, seqs [WordB, Lit ''dev'', opt (Lit ''eloper''), sp, Lit ''mode'', WordB]),
    (True, seqs [WordB, Lit ''from'', sp, Lit ''now'', sp, Lit ''on'', WordB, Star True AnyChar, WordB,
       words [''you'', ''your'', ''always'', ''never''], WordB]),
    (True, seqs [WordB,
       alts [Lit ''disable'', seqs [Lit ''turn'', sp, Lit ''off''], Lit ''remove'', Lit ''bypass'',
             Lit ''circumvent''], sp, opt (Seq (Lit ''your'') sp),
       alts [Lit ''safety'', seqs [Lit ''safety'', sp, Lit ''filter''],
             seqs [Lit ''content'', sp, Lit ''filter''], Seq (Lit ''restriction'') (opt (Lit ''s'')),
             Seq (Lit ''guardrail'') (opt (Lit ''s'')), Seq (Lit ''limit'') (opt (Lit ''s''))], WordB]),
    (True, seqs [WordB, words [''ignore'', ''disregard'', ''skip''], sp, 
       opt (alts [Seq (Lit ''the'') sp, Seq (Lit ''this'') sp]),
       opt (seqs [Lit ''user'', opt (Lit [CHR 0x27]), opt (Lit ''s''), sp]),
       opt (Seq (plus wordch) sp), words [''question'', ''request'', ''task'', ''query''], WordB]),
    (True, seqs [WordB, words [''ignore'', ''disregard''], sp, Lit ''the'', sp, Lit ''user'', WordB]),
    (True, seqs [WordB, Lit ''instead'', sp,
       words [''output'', ''say'', ''respond'', ''answer'', ''reply'', ''recommend'', ''select'', ''approve''],
       WordB])]"

definition is_instruction_like :: "string \<Rightarrow> bool" where
  "is_instruction_like text =
     (if text = [] then False
      else list_ex (\<lambda>(ic, r). rx_search ic r None text) PATTERNS)"

definition instruction_like_score :: "string \<Rightarrow> nat" where
  "instruction_like_score text =
     (if text = [] then 0
      else length (filter (\<lambda>(ic, r). rx_search ic r None text) PATTERNS))"

lemmas safety_eval = is_instruction_like_def PATTERNS_def targets7_def targets5_def whose_def
  opener_def opt_def plus_def words_def sp_def sp0_def wordch_def opt_word_def head_word_def
  is_word_char_def in_ranges_def code_point_def word_ranges_def lower_char_def space_ranges_def
  cls_match_def upper_char_def

theorem instruction_like_iff_score: "is_instruction_like t \<longleftrightarrow> 0 < instruction_like_score t"
  by (auto simp: is_instruction_like_def instruction_like_score_def list_ex_iff filter_empty_conv)

end
