(* ===== verification/Store.thy ===== *)
theory Store
  imports Principal Frontmatter Safety
begin

text \<open>
  The shared SQLite store as the governance code sees it: one list of rows per table,
  the AUTOINCREMENT counters, and which optional parts of the schema exist
  (migrations 005, 007, 008, 014, 015, 021).  The environment record holds what the code
  takes from outside the repository: the clock, SHA-1, YAML, the embedding model, the file
  system probe, and which statements the database refuses to run.
\<close>

subsection \<open>Rows\<close>

record learning =
  l_id :: int
  l_agent :: string
  l_category :: string
  l_content :: string
  l_created :: real
  l_embedding :: "real list option"
  l_assertion :: json
  l_applies_when :: json
  l_evidence :: json
  l_contradicts :: json
  l_source_query :: json
  l_confidence :: json
  l_status :: "string option"
  l_superseded_by :: "int option"
  l_hash :: "string option"

record candidate =
  c_id :: int
  c_principal :: string
  c_workspace :: json
  c_layer :: json
  c_privacy :: "string option"
  c_content :: string
  c_evidence_refs :: json
  c_derived_from :: json
  c_instruction_like :: bool
  c_status :: string
  c_proposed_at :: real
  c_resolved_at :: "real option"
  c_resolved_by :: "string option"
  c_reason :: "string option"

record contradiction_event =
  ev_id :: int
  ev_superseded :: int
  ev_new :: int
  ev_agent :: string
  ev_at :: real

record learning_read =
  lr_learning :: int
  lr_agent :: string
  lr_at :: real

text \<open>A \<^verbatim>\<open>consolidation_actions\<close> row, as far as the review fence and the drain use it.\<close>

record action_row =
  a_type :: string
  a_claim :: string
  a_status :: "string option"
  a_target :: "int option"
  a_detail :: string
  a_at :: real

record document =
  d_id :: int
  d_path :: string
  d_agent :: string
  d_sigil :: "string option"
  d_modified :: real
  d_page_status :: "string option"
  d_privacy :: "string option"
  d_page_type :: "string option"
  d_layer :: "string option"
  d_kind :: "string option"
  d_uri :: "string option"
  d_superseded_by :: "int option"

record db =
  learnings :: "learning list"
  next_learning :: int
  candidates :: "candidate list"
  next_candidate :: int
  events :: "contradiction_event list"
  next_event :: int
  reads :: "learning_read list"
  actions :: "action_row list"
  documents :: "document list"
  next_document :: int
  links :: "(int \<times> int) list"   \<comment> \<open>\<^verbatim>\<open>derived_from\<close> rows of \<^verbatim>\<open>memory_links\<close>\<close>
  learning_documents :: "(int \<times> int) list"
  has_actions_table :: bool
  graph_schema :: bool
  check_allows_dns_log_only :: bool
  has_hash_column :: bool

datatype fault_point = FaultTxn | FaultCanonical | FaultHashColumn | FaultDetect | FaultEdges

record env =
  now :: real
  sha1 :: "string \<Rightarrow> string"
  yaml :: yaml_loader
  embedder :: "(json \<Rightarrow> real list option) option"
    \<comment> \<open>None: no model loaded; an inner None: \<^verbatim>\<open>encode\<close> raised\<close>
  cosine :: "real list \<Rightarrow> real list \<Rightarrow> real option"  \<comment> \<open>None: a zero vector\<close>
  contradiction_threshold :: real
  vault_path :: string
  lexists :: "string \<Rightarrow> bool"
  faults :: "fault_point \<Rightarrow> bool"
  resolve_operators :: "string option"   \<comment> \<open>\<^verbatim>\<open>MINNI_RESOLVE_OPERATORS\<close>\<close>
  index_result :: "string \<Rightarrow> string \<Rightarrow> int \<Rightarrow> bool option option"
    \<comment> \<open>\<^verbatim>\<open>index_durable_learning\<close>: None raised, Some None returned \<^verbatim>\<open>None\<close>\<close>

subsection \<open>Row operations\<close>

definition update_where :: "('r \<Rightarrow> bool) \<Rightarrow> ('r \<Rightarrow> 'r) \<Rightarrow> 'r list \<Rightarrow> 'r list" where
  "update_where P f = map (\<lambda>r. if P r then f r else r)"

definition row_count :: "('r \<Rightarrow> bool) \<Rightarrow> 'r list \<Rightarrow> nat" where
  "row_count P rs = length (filter P rs)"

lemma update_where_length [simp]: "length (update_where P f rs) = length rs"
  by (simp add: update_where_def)

lemma update_where_keys:
  "(\<And>r. k (f r) = k r) \<Longrightarrow> map k (update_where P f rs) = map k rs"
  by (simp add: update_where_def)

lemma update_where_none: "\<forall>r \<in> set rs. \<not> P r \<Longrightarrow> update_where P f rs = rs"
  by (induction rs) (auto simp: update_where_def)

lemma in_update_whereD:
  "r' \<in> set (update_where P f rs) \<Longrightarrow> \<exists>r \<in> set rs. r' = (if P r then f r else r)"
  by (auto simp: update_where_def)

lemma find_update_where:
  assumes "\<And>r. k (f r) = k r"
  shows "find (\<lambda>r. k r = i) (update_where P f rs)
    = map_option (\<lambda>r. if P r then f r else r) (find (\<lambda>r. k r = i) rs)"
  using assms by (induction rs) (auto simp: update_where_def)

lemma find_Some_iff': "find P xs = Some x \<Longrightarrow> x \<in> set xs \<and> P x"
  by (induction xs) (auto split: if_splits)

subsection \<open>Well-formedness\<close>

definition ids_fresh :: "('r \<Rightarrow> int) \<Rightarrow> 'r list \<Rightarrow> int \<Rightarrow> bool" where
  "ids_fresh k rs n \<longleftrightarrow> distinct (map k rs) \<and> (\<forall>r \<in> set rs. k r < n)"

definition wf_db :: "db \<Rightarrow> bool" where
  "wf_db d \<longleftrightarrow> ids_fresh l_id (learnings d) (next_learning d)
     \<and> ids_fresh c_id (candidates d) (next_candidate d)
     \<and> ids_fresh ev_id (events d) (next_event d)
     \<and> ids_fresh d_id (documents d) (next_document d)
     \<and> distinct (map d_path (documents d)) \<and> distinct (learning_documents d)"

lemma ids_fresh_snoc: "ids_fresh k rs n \<Longrightarrow> k r = n \<Longrightarrow> ids_fresh k (rs @ [r]) (n + 1)"
  by (auto simp: ids_fresh_def)

lemma ids_fresh_update:
  assumes "ids_fresh k rs n" and "\<And>r. k (f r) = k r"
  shows "ids_fresh k (update_where P f rs) n"
  using assms update_where_keys [of k f P rs]
  by (auto simp: ids_fresh_def dest: in_update_whereD)

lemma ids_fresh_find:
  assumes "ids_fresh k rs n" and "r \<in> set rs"
  shows "find (\<lambda>x. k x = k r) rs = Some r"
  using assms
proof (induction rs)
  case Nil
  then show ?case by simp
next
  case (Cons x xs)
  then show ?case by (auto simp: ids_fresh_def)
qed

subsection \<open>Active rows\<close>

text \<open>\<^verbatim>\<open>ACTIVE_LEARNING_SQL\<close>.\<close>

definition learning_active :: "learning \<Rightarrow> bool" where
  "learning_active l \<longleftrightarrow> l_superseded_by l = None
     \<and> l_status l \<notin> {Some ''rejected'', Some ''expired'', Some ''superseded''}"

definition CLOSED_PROJECTION_STATUSES :: "string list" where
  "CLOSED_PROJECTION_STATUSES = [''draft'', ''expired'', ''rejected'', ''superseded'']"

definition projection_row_closed :: "string option \<Rightarrow> string option \<Rightarrow> bool" where
  "projection_row_closed page_status privacy \<longleftrightarrow>
     privacy = Some ''blocked''
     \<or> (case page_status of None \<Rightarrow> [] | Some s \<Rightarrow> s) \<in> set CLOSED_PROJECTION_STATUSES"

subsection \<open>Principal families\<close>

definition VAULT_SLUG_TO_AGENT_ID :: "(string \<times> string) list" where
  "VAULT_SLUG_TO_AGENT_ID =
    [(''claudecode'', ''claude-code''), (''claude-science'', ''claude-science''),
     (''codex'', ''codex''), (''cursor'', ''cursor''), (''gemini'', ''gemini''),
     (''agy'', ''gemini''), (''antigravity'', ''gemini''), (''hermes'', ''hermes''),
     (''kilocode'', ''kilocode''), (''openclaw'', ''openclaw''), (''grok-build'', ''grok-build''),
     (''grok-beta'', ''grok-build''), (''grok'', ''grok-build''), (''xai'', ''grok-build''),
     (''devin'', ''devin'')]"

definition canonical_principal :: "string \<Rightarrow> string" where
  "canonical_principal p =
     (case map_of VAULT_SLUG_TO_AGENT_ID p of Some a \<Rightarrow> a | None \<Rightarrow> p)"

definition principal_family :: "string \<Rightarrow> string set" where
  "principal_family p =
     insert p (insert (canonical_principal p)
       (set (map fst (filter (\<lambda>(slug, a). a = canonical_principal p) VAULT_SLUG_TO_AGENT_ID))))"

lemma vault_agents_canonical:
  "list_all (\<lambda>(slug, a). canonical_principal a = a) VAULT_SLUG_TO_AGENT_ID"
  by code_simp

lemma canonical_principal_idem: "canonical_principal (canonical_principal p) = canonical_principal p"
proof (cases "map_of VAULT_SLUG_TO_AGENT_ID p")
  case None
  then show ?thesis by (simp add: canonical_principal_def)
next
  case (Some a)
  with vault_agents_canonical have "canonical_principal a = a"
    by (auto simp: list_all_iff dest: map_of_SomeD)
  with Some show ?thesis by (simp add: canonical_principal_def)
qed

lemma vault_slugs_distinct: "distinct (map fst VAULT_SLUG_TO_AGENT_ID)"
  by code_simp

lemma slug_canonical: "(q, a) \<in> set VAULT_SLUG_TO_AGENT_ID \<Longrightarrow> canonical_principal q = a"
  using vault_slugs_distinct by (simp add: canonical_principal_def)

theorem principal_family_iff:
  "q \<in> principal_family p \<longleftrightarrow> canonical_principal q = canonical_principal p"
proof
  assume "q \<in> principal_family p"
  then show "canonical_principal q = canonical_principal p"
    by (auto simp: principal_family_def canonical_principal_idem dest: slug_canonical)
next
  assume eq: "canonical_principal q = canonical_principal p"
  show "q \<in> principal_family p"
  proof (cases "map_of VAULT_SLUG_TO_AGENT_ID q")
    case None
    then have "canonical_principal q = q" by (simp add: canonical_principal_def)
    with eq show ?thesis by (simp add: principal_family_def)
  next
    case (Some a)
    then have "canonical_principal q = a" by (simp add: canonical_principal_def)
    with eq map_of_SomeD [OF Some] show ?thesis by (force simp: principal_family_def)
  qed
qed

subsection \<open>Statements the handlers share\<close>

definition new_learning :: "string \<Rightarrow> string \<Rightarrow> real \<Rightarrow> learning" where
  "new_learning agent content created =
     \<lparr>l_id = 0, l_agent = agent, l_category = ''general'', l_content = content,
      l_created = created, l_embedding = None, l_assertion = JNull, l_applies_when = JNull,
      l_evidence = JNull, l_contradicts = JNull, l_source_query = JNull,
      l_confidence = JFloat (Fin 1) ''1.0'', l_status = Some ''active'',
      l_superseded_by = None, l_hash = None\<rparr>"

definition insert_learning :: "learning \<Rightarrow> db \<Rightarrow> db" where
  "insert_learning l d = d\<lparr>learnings := learnings d @ [l\<lparr>l_id := next_learning d\<rparr>],
                            next_learning := next_learning d + 1\<rparr>"

definition insert_candidate :: "candidate \<Rightarrow> db \<Rightarrow> db" where
  "insert_candidate c d = d\<lparr>candidates := candidates d @ [c\<lparr>c_id := next_candidate d\<rparr>],
                             next_candidate := next_candidate d + 1\<rparr>"

definition insert_action :: "action_row \<Rightarrow> db \<Rightarrow> db" where
  "insert_action a d = d\<lparr>actions := actions d @ [a]\<rparr>"

definition candidate_row :: "db \<Rightarrow> int \<Rightarrow> candidate option" where
  "candidate_row d cid = find (\<lambda>c. c_id c = cid) (candidates d)"

definition learning_row :: "db \<Rightarrow> int \<Rightarrow> learning option" where
  "learning_row d lid = find (\<lambda>l. l_id l = lid) (learnings d)"

definition update_candidate :: "int \<Rightarrow> (candidate \<Rightarrow> candidate) \<Rightarrow> db \<Rightarrow> db" where
  "update_candidate cid f d = d\<lparr>candidates := update_where (\<lambda>c. c_id c = cid) f (candidates d)\<rparr>"

definition settle_row :: "string \<Rightarrow> real \<Rightarrow> string \<Rightarrow> string \<Rightarrow> candidate \<Rightarrow> candidate" where
  "settle_row st ts by_whom why c =
     c\<lparr>c_status := st, c_resolved_at := Some ts, c_resolved_by := Some by_whom, c_reason := Some why\<rparr>"

lemma insert_learning_simps [simp]:
  "learnings (insert_learning l d) = learnings d @ [l\<lparr>l_id := next_learning d\<rparr>]"
  "next_learning (insert_learning l d) = next_learning d + 1"
  "candidates (insert_learning l d) = candidates d" "events (insert_learning l d) = events d"
  "reads (insert_learning l d) = reads d" "actions (insert_learning l d) = actions d"
  "documents (insert_learning l d) = documents d"
  "learning_documents (insert_learning l d) = learning_documents d"
  "next_candidate (insert_learning l d) = next_candidate d"
  "next_event (insert_learning l d) = next_event d"
  "next_document (insert_learning l d) = next_document d"
  "has_actions_table (insert_learning l d) = has_actions_table d"
  "graph_schema (insert_learning l d) = graph_schema d"
  by (simp_all add: insert_learning_def)

lemma insert_candidate_simps [simp]:
  "candidates (insert_candidate c d) = candidates d @ [c\<lparr>c_id := next_candidate d\<rparr>]"
  "next_candidate (insert_candidate c d) = next_candidate d + 1"
  "learnings (insert_candidate c d) = learnings d" "events (insert_candidate c d) = events d"
  "reads (insert_candidate c d) = reads d" "actions (insert_candidate c d) = actions d"
  "documents (insert_candidate c d) = documents d"
  "learning_documents (insert_candidate c d) = learning_documents d"
  "next_learning (insert_candidate c d) = next_learning d"
  "next_event (insert_candidate c d) = next_event d"
  "next_document (insert_candidate c d) = next_document d"
  "has_actions_table (insert_candidate c d) = has_actions_table d"
  by (simp_all add: insert_candidate_def)

lemma insert_action_simps [simp]:
  "actions (insert_action a d) = actions d @ [a]"
  "learnings (insert_action a d) = learnings d" "candidates (insert_action a d) = candidates d"
  "events (insert_action a d) = events d" "reads (insert_action a d) = reads d"
  "documents (insert_action a d) = documents d"
  "learning_documents (insert_action a d) = learning_documents d"
  "next_learning (insert_action a d) = next_learning d"
  "next_candidate (insert_action a d) = next_candidate d"
  "next_event (insert_action a d) = next_event d"
  "next_document (insert_action a d) = next_document d"
  "has_actions_table (insert_action a d) = has_actions_table d"
  by (simp_all add: insert_action_def)

lemma update_candidate_simps [simp]:
  "candidates (update_candidate cid f d) = update_where (\<lambda>c. c_id c = cid) f (candidates d)"
  "learnings (update_candidate cid f d) = learnings d" "events (update_candidate cid f d) = events d"
  "reads (update_candidate cid f d) = reads d" "actions (update_candidate cid f d) = actions d"
  "documents (update_candidate cid f d) = documents d"
  "learning_documents (update_candidate cid f d) = learning_documents d"
  "next_learning (update_candidate cid f d) = next_learning d"
  "next_candidate (update_candidate cid f d) = next_candidate d"
  "next_event (update_candidate cid f d) = next_event d"
  "next_document (update_candidate cid f d) = next_document d"
  "has_actions_table (update_candidate cid f d) = has_actions_table d"
  by (simp_all add: update_candidate_def)

lemma settle_row_simps [simp]:
  "c_id (settle_row st ts w r c) = c_id c" "c_status (settle_row st ts w r c) = st"
  "c_content (settle_row st ts w r c) = c_content c"
  "c_principal (settle_row st ts w r c) = c_principal c"
  "c_privacy (settle_row st ts w r c) = c_privacy c"
  "c_instruction_like (settle_row st ts w r c) = c_instruction_like c"
  by (simp_all add: settle_row_def)

lemma insert_learning_wf: "wf_db d \<Longrightarrow> wf_db (insert_learning l d)"
  by (simp add: wf_db_def ids_fresh_snoc)

lemma insert_candidate_wf: "wf_db d \<Longrightarrow> wf_db (insert_candidate c d)"
  by (simp add: wf_db_def ids_fresh_snoc)

lemma insert_action_wf [simp]: "wf_db (insert_action a d) \<longleftrightarrow> wf_db d"
  by (simp add: wf_db_def)

lemma update_candidate_wf:
  "wf_db d \<Longrightarrow> (\<And>c. c_id (f c) = c_id c) \<Longrightarrow> wf_db (update_candidate cid f d)"
  by (simp add: wf_db_def ids_fresh_update)

lemma candidate_row_update:
  assumes "\<And>c. c_id (f c) = c_id c"
  shows "candidate_row (update_candidate cid f d) i
    = map_option (\<lambda>c. if c_id c = cid then f c else c) (candidate_row d i)"
  by (simp add: candidate_row_def find_update_where [where k = c_id] assms)

lemma candidate_row_Some: "candidate_row d cid = Some c \<Longrightarrow> c \<in> set (candidates d) \<and> c_id c = cid"
  unfolding candidate_row_def by (drule find_Some_iff') simp

lemma learning_row_Some: "learning_row d lid = Some l \<Longrightarrow> l \<in> set (learnings d) \<and> l_id l = lid"
  unfolding learning_row_def by (drule find_Some_iff') simp

subsection \<open>A concrete environment and an empty store\<close>

definition demo_env :: env where
  "demo_env = \<lparr>now = 1000, sha1 = (\<lambda>s. s), yaml = (\<lambda>_. None), embedder = Some (\<lambda>_. Some [1]),
     cosine = (\<lambda>_ _. None), contradiction_threshold = 1, vault_path = ''/v'',
     lexists = (\<lambda>_. False), faults = (\<lambda>_. False), resolve_operators = None,
     index_result = (\<lambda>_ _ _. Some (Some True))\<rparr>"

definition empty_db :: db where
  "empty_db = \<lparr>learnings = [], next_learning = 1, candidates = [], next_candidate = 1, events = [],
     next_event = 1, reads = [], actions = [], documents = [], next_document = 1,
     links = [], learning_documents = [], has_actions_table = True, graph_schema = True,
     check_allows_dns_log_only = True, has_hash_column = True\<rparr>"

definition demo_candidate :: "string \<Rightarrow> string \<Rightarrow> string \<Rightarrow> candidate" where
  "demo_candidate who privacy content =
     \<lparr>c_id = 0, c_principal = who, c_workspace = JStr ''default'', c_layer = JNull,
      c_privacy = Some privacy, c_content = content, c_evidence_refs = JList [],
      c_derived_from = JObj [], c_instruction_like = False, c_status = ''proposed'',
      c_proposed_at = 5, c_resolved_at = None, c_resolved_by = None, c_reason = None\<rparr>"

lemma empty_db_wf: "wf_db empty_db"
  by (simp add: wf_db_def empty_db_def ids_fresh_def)

end
