(* ===== verification/ReviewMarkers.thy ===== *)
theory ReviewMarkers
  imports Store
begin

text \<open>
  \<^verbatim>\<open>src/minni/afm_review_markers.py\<close>: the review fence that keeps the consolidation
  drain from re-examining a candidate, and the reconciliation of fences that outlived
  their candidate.  A store without \<^verbatim>\<open>consolidation_actions\<close> reads as having no
  fences; every other database error is raised by the caller's transaction and is not a
  value here.
\<close>

definition PENDING_STATUS :: string where
  "PENDING_STATUS = ''proposed''"

definition marker_active :: "action_row \<Rightarrow> bool" where
  "marker_active a \<longleftrightarrow> (case a_status a of None \<Rightarrow> [] | Some s \<Rightarrow> s) \<noteq> ''superseded''"

definition active_review :: "action_row \<Rightarrow> bool" where
  "active_review a \<longleftrightarrow> a_type a = ''afm_review'' \<and> marker_active a"

definition retire_marker :: "action_row \<Rightarrow> action_row" where
  "retire_marker a = a\<lparr>a_status := Some ''superseded''\<rparr>"

definition supersede_afm_review :: "int \<Rightarrow> db \<Rightarrow> db \<times> nat" where
  "supersede_afm_review cid d =
     (if \<not> has_actions_table d then (d, 0)
      else let hit = (\<lambda>a. active_review a \<and> a_claim a = int_text cid)
           in (d\<lparr>actions := update_where hit retire_marker (actions d)\<rparr>,
               row_count hit (actions d)))"

text \<open>The claim of the marker names a candidate that is still queued.\<close>

definition fence_is_live :: "db \<Rightarrow> action_row \<Rightarrow> bool" where
  "fence_is_live d a \<longleftrightarrow>
     list_ex (\<lambda>c. int_text (c_id c) = a_claim a \<and> c_status c = PENDING_STATUS) (candidates d)"

definition orphaned :: "db \<Rightarrow> action_row \<Rightarrow> bool" where
  "orphaned d a \<longleftrightarrow> active_review a \<and> \<not> fence_is_live d a"

definition count_orphaned_afm_review :: "db \<Rightarrow> nat" where
  "count_orphaned_afm_review d =
     (if has_actions_table d then row_count (orphaned d) (actions d) else 0)"

record reconcile_report =
  rr_dry_run :: bool
  rr_would_supersede :: nat
  rr_superseded :: nat

definition reconcile_orphaned_afm_review :: "bool \<Rightarrow> db \<Rightarrow> db \<times> reconcile_report" where
  "reconcile_orphaned_afm_review dry d =
     (let orphans = count_orphaned_afm_review d in
      if dry then (d, \<lparr>rr_dry_run = True, rr_would_supersede = orphans, rr_superseded = 0\<rparr>)
      else if orphans = 0
      then (d, \<lparr>rr_dry_run = False, rr_would_supersede = 0, rr_superseded = 0\<rparr>)
      else (d\<lparr>actions := update_where (orphaned d) retire_marker (actions d)\<rparr>,
            \<lparr>rr_dry_run = False, rr_would_supersede = orphans,
             rr_superseded = row_count (orphaned d) (actions d)\<rparr>))"

text \<open>The fence the consolidation query applies (\<^verbatim>\<open>NOT EXISTS\<close> in \<^verbatim>\<open>_proposed_candidates\<close>).\<close>

definition fenced :: "db \<Rightarrow> int \<Rightarrow> bool" where
  "fenced d cid \<longleftrightarrow> list_ex (\<lambda>a. active_review a \<and> a_claim a = int_text cid) (actions d)"

subsection \<open>Lemmas\<close>

lemma retire_marker_inactive [simp]: "\<not> active_review (retire_marker a)"
  by (simp add: active_review_def marker_active_def retire_marker_def)

lemma row_count_zero: "row_count P xs = 0 \<longleftrightarrow> (\<forall>x \<in> set xs. \<not> P x)"
  by (auto simp: row_count_def filter_empty_conv)

lemma supersede_frame [simp]:
  "learnings (fst (supersede_afm_review cid d)) = learnings d"
  "candidates (fst (supersede_afm_review cid d)) = candidates d"
  "events (fst (supersede_afm_review cid d)) = events d"
  "documents (fst (supersede_afm_review cid d)) = documents d"
  "learning_documents (fst (supersede_afm_review cid d)) = learning_documents d"
  "next_learning (fst (supersede_afm_review cid d)) = next_learning d"
  "next_candidate (fst (supersede_afm_review cid d)) = next_candidate d"
  "next_event (fst (supersede_afm_review cid d)) = next_event d"
  "next_document (fst (supersede_afm_review cid d)) = next_document d"
  "has_actions_table (fst (supersede_afm_review cid d)) = has_actions_table d"
  by (simp_all add: supersede_afm_review_def Let_def)

lemma supersede_wf [simp]: "wf_db (fst (supersede_afm_review cid d)) \<longleftrightarrow> wf_db d"
  by (simp add: wf_db_def)

lemma supersede_unfences:
  assumes "has_actions_table d"
  shows "\<not> fenced (fst (supersede_afm_review cid d)) cid"
proof -
  have "\<not> (active_review a \<and> a_claim a = int_text cid)"
    if "a \<in> set (actions (fst (supersede_afm_review cid d)))" for a
    using that assms
    by (auto simp: supersede_afm_review_def Let_def dest!: in_update_whereD split: if_splits)
  then show ?thesis by (auto simp: fenced_def list_ex_iff)
qed

lemma reconcile_no_orphans:
  "count_orphaned_afm_review (fst (reconcile_orphaned_afm_review False d)) = 0"
proof (cases "count_orphaned_afm_review d = 0")
  case True
  then show ?thesis by (simp add: reconcile_orphaned_afm_review_def)
next
  case False
  then have t: "has_actions_table d" by (auto simp: count_orphaned_afm_review_def split: if_splits)
  let ?d = "fst (reconcile_orphaned_afm_review False d)"
  have live: "fence_is_live ?d = fence_is_live d"
    by (rule ext) (simp add: fence_is_live_def reconcile_orphaned_afm_review_def Let_def)
  have acts: "actions ?d = update_where (orphaned d) retire_marker (actions d)"
    using False by (simp add: reconcile_orphaned_afm_review_def Let_def)
  have "\<not> orphaned ?d a" if "a \<in> set (actions ?d)" for a
    using that unfolding acts
    by (auto simp: orphaned_def live dest!: in_update_whereD split: if_splits)
  then show ?thesis by (simp add: count_orphaned_afm_review_def row_count_zero)
qed

theorem reconcile_keeps_live_fences:
  "fst (reconcile_orphaned_afm_review True d) = d
   \<and> count_orphaned_afm_review (fst (reconcile_orphaned_afm_review False d)) = 0
   \<and> filter (fence_is_live d) (actions (fst (reconcile_orphaned_afm_review dry d)))
       = filter (fence_is_live d) (actions d)
   \<and> rr_superseded (snd (reconcile_orphaned_afm_review False d)) = count_orphaned_afm_review d"
proof -
  have "filter (fence_is_live d) (update_where (orphaned d) retire_marker as)
      = filter (fence_is_live d) as" for as
    by (induction as)
      (auto simp: update_where_def orphaned_def fence_is_live_def retire_marker_def)
  then have "filter (fence_is_live d) (actions (fst (reconcile_orphaned_afm_review dry d)))
      = filter (fence_is_live d) (actions d)"
    by (simp add: reconcile_orphaned_afm_review_def Let_def)
  moreover have "rr_superseded (snd (reconcile_orphaned_afm_review False d))
      = count_orphaned_afm_review d"
    by (auto simp: reconcile_orphaned_afm_review_def Let_def count_orphaned_afm_review_def)
  moreover have "fst (reconcile_orphaned_afm_review True d) = d"
    by (simp add: reconcile_orphaned_afm_review_def)
  ultimately show ?thesis using reconcile_no_orphans by blast
qed

end
