(* ===== verification/Graph.thy ===== *)
theory Graph
  imports ReviewMarkers
begin

text \<open>
  \<^verbatim>\<open>src/minni/graph_commit.py\<close> and \<^verbatim>\<open>src/minni/durable_projection.py\<close>: the
  canonical document node of a learning.  The functions run on the caller's cursor: they
  take the store of the open transaction and return it updated; an \<^verbatim>\<open>Inl\<close> is a
  database error, which the caller turns into a rollback.
\<close>

subsection \<open>Projection identity and metadata\<close>

definition path_join :: "string \<Rightarrow> string \<Rightarrow> string" where
  "path_join a b =
     (if starts_with ''/'' b then b
      else if a = [] \<or> last a = CHR ''/'' then a @ b else a @ ''/'' @ b)"

definition durable_doc_path :: "env \<Rightarrow> string \<Rightarrow> string \<Rightarrow> string" where
  "durable_doc_path e agent content =
     path_join (path_join (vault_path e) ''_durable'')
       (agent @ ''__'' @ take 16 (sha1 e (agent @ [CHR 0x00] @ content)) @ ''.md'')"

record durable_meta =
  dm_sigil :: "string option"
  dm_page_status :: string
  dm_privacy :: string
  dm_page_type :: string
  dm_layer :: string

definition durable_metadata :: "env \<Rightarrow> string \<Rightarrow> durable_meta" where
  "durable_metadata e content =
     (let m = extract_frontmatter (yaml e) content
      in \<lparr>dm_sigil = fm_sigil m,
          dm_page_status = (if fm_status m = ''candidate'' then ''accepted'' else fm_status m),
          dm_privacy = fm_privacy m, dm_page_type = ''learning'', dm_layer = fm_layer m\<rparr>)"

subsection \<open>Aggregate state of a node\<close>

text \<open>\<^verbatim>\<open>learnings JOIN learning_documents\<close> for one document.\<close>

definition mapped_ids :: "db \<Rightarrow> int \<Rightarrow> int list" where
  "mapped_ids d doc = map fst (filter (\<lambda>(l, x). x = doc) (learning_documents d))"

definition members_of :: "db \<Rightarrow> int \<Rightarrow> learning list" where
  "members_of d doc = filter (\<lambda>l. l_id l \<in> set (mapped_ids d doc)) (learnings d)"

record node_state =
  ns_mapped :: bool
  ns_active :: bool
  ns_status :: "string option"
  ns_successor :: "int option"

definition least :: "int list \<Rightarrow> int option" where
  "least xs = (case xs of [] \<Rightarrow> None | _ \<Rightarrow> Some (Min (set xs)))"

definition canonical_node_learning_state :: "db \<Rightarrow> int \<Rightarrow> node_state" where
  "canonical_node_learning_state d doc =
     (let ls = members_of d doc;
          succs = List.map_filter l_superseded_by ls
      in if \<not> graph_schema d \<or> mapped_ids d doc = []
         then \<lparr>ns_mapped = False, ns_active = False, ns_status = None, ns_successor = None\<rparr>
         else if list_ex learning_active ls
         then \<lparr>ns_mapped = True, ns_active = True, ns_status = None, ns_successor = None\<rparr>
         else if succs \<noteq> []
         then \<lparr>ns_mapped = True, ns_active = False, ns_status = Some ''superseded'',
               ns_successor = least (map snd
                 (filter (\<lambda>(l, x). l = Max (set succs)) (learning_documents d)))\<rparr>
         else if list_ex (\<lambda>l. l_status l = Some ''expired'') ls
         then \<lparr>ns_mapped = True, ns_active = False, ns_status = Some ''expired'', ns_successor = None\<rparr>
         else if ls \<noteq> [] \<and> list_all (\<lambda>l. l_status l = Some ''rejected'') ls
         then \<lparr>ns_mapped = True, ns_active = False, ns_status = Some ''rejected'', ns_successor = None\<rparr>
         else \<lparr>ns_mapped = True, ns_active = False, ns_status = Some ''superseded'',
               ns_successor = None\<rparr>)"

subsection \<open>Find or create the node\<close>

definition reopen :: "document \<Rightarrow> document" where
  "reopen r = r\<lparr>d_page_status := Some ''accepted'', d_superseded_by := None\<rparr>"

definition reopen_allowed ::
  "env \<Rightarrow> document \<Rightarrow> int \<Rightarrow> string \<Rightarrow> string \<Rightarrow> durable_meta \<Rightarrow> string \<Rightarrow> db \<Rightarrow> bool" where
  "reopen_allowed e row lid agent content meta path d \<longleftrightarrow>
     d_page_status row = Some ''superseded'' \<and> d_privacy row \<noteq> Some ''blocked''
     \<and> \<not> projection_row_closed (Some (dm_page_status meta)) (Some (dm_privacy meta))
     \<and> \<not> lexists e path
     \<and> (lid, d_id row) \<notin> set (learning_documents d)
     \<and> (let s = canonical_node_learning_state d (d_id row)
        in ns_mapped s \<and> \<not> ns_active s
           \<and> ns_status s = d_page_status row \<and> ns_successor s = d_superseded_by row)
     \<and> list_ex (\<lambda>l. l_id l = lid \<and> l_agent l = agent \<and> l_content l = content
                     \<and> learning_active l) (learnings d)"

definition reconcile_new_active_mapping ::
  "env \<Rightarrow> document \<Rightarrow> int \<Rightarrow> string \<Rightarrow> string \<Rightarrow> durable_meta \<Rightarrow> string \<Rightarrow> db \<Rightarrow> db" where
  "reconcile_new_active_mapping e row lid agent content meta path d =
     (if reopen_allowed e row lid agent content meta path d
      then d\<lparr>documents := update_where (\<lambda>x. d_id x = d_id row) reopen (documents d)\<rparr>
      else d)"

definition node_uri :: "int \<Rightarrow> string" where
  "node_uri lid = ''learning://'' @ int_text lid"

definition new_node :: "int \<Rightarrow> string \<Rightarrow> string \<Rightarrow> durable_meta \<Rightarrow> real \<Rightarrow> int \<Rightarrow> document" where
  "new_node doc path agent meta created lid =
     \<lparr>d_id = doc, d_path = path, d_agent = agent, d_sigil = dm_sigil meta, d_modified = created,
      d_page_status = Some (dm_page_status meta), d_privacy = Some (dm_privacy meta),
      d_page_type = Some (dm_page_type meta), d_layer = Some (dm_layer meta),
      d_kind = Some ''learning'', d_uri = Some (node_uri lid), d_superseded_by = None\<rparr>"

definition stamp_mapping :: "int \<Rightarrow> int \<Rightarrow> db \<Rightarrow> db" where
  "stamp_mapping doc lid d =
     d\<lparr>documents := update_where (\<lambda>x. d_id x = doc)
        (\<lambda>x. x\<lparr>d_kind := Some ''learning'', d_uri := Some (node_uri lid)\<rparr>) (documents d)\<rparr>"

definition add_join :: "int \<Rightarrow> int \<Rightarrow> db \<Rightarrow> db" where
  "add_join lid doc d =
     (if (lid, doc) \<in> set (learning_documents d) then d
      else d\<lparr>learning_documents := learning_documents d @ [(lid, doc)]\<rparr>)"

definition ensure_canonical_learning_node ::
  "env \<Rightarrow> int \<Rightarrow> string \<Rightarrow> string \<Rightarrow> real \<Rightarrow> db \<Rightarrow> pyerr + (db \<times> int option)" where
  "ensure_canonical_learning_node e lid agent content created d =
     (if lid = 0 \<or> agent = [] \<or> content = [] then Inr (d, None)
      else if faults e FaultCanonical then Inl OSError
      else if \<not> graph_schema d then Inr (d, None)
      else
        let path = durable_doc_path e agent content;
            meta = durable_metadata e content
        in case find (\<lambda>x. d_path x = path) (documents d) of
             None \<Rightarrow>
               let doc = next_document d;
                   d1 = d\<lparr>documents := documents d @ [new_node doc path agent meta created lid],
                          next_document := doc + 1\<rparr>
               in Inr (add_join lid doc d1, Some doc)
           | Some row \<Rightarrow>
               if d_agent row \<noteq> agent then Inr (d, None)
               else
                 let d1 = reconcile_new_active_mapping e row lid agent content meta path d
                 in Inr (add_join lid (d_id row) (stamp_mapping (d_id row) lid d1), Some (d_id row)))"

subsection \<open>Retiring superseded members\<close>

record target_state =
  ts_doc :: document
  ts_members :: "(int \<times> string \<times> string option \<times> int option) list"

definition supersession_target_state :: "db \<Rightarrow> int \<Rightarrow> target_state option" where
  "supersession_target_state d doc =
     (case find (\<lambda>x. d_id x = doc) (documents d) of
        None \<Rightarrow> None
      | Some row \<Rightarrow> Some \<lparr>ts_doc = row,
          ts_members =
            (if graph_schema d
             then map (\<lambda>l. (l_id l, l_agent l, l_status l, l_superseded_by l))
                    (sort_key l_id (members_of d doc))
             else [])\<rparr>)"

definition retire_learning :: "int \<Rightarrow> learning \<Rightarrow> learning" where
  "retire_learning new l = l\<lparr>l_status := Some ''superseded'', l_superseded_by := Some new\<rparr>"

fun retire_each :: "int list \<Rightarrow> int \<Rightarrow> learning list \<Rightarrow> learning list \<times> int list" where
  "retire_each [] new ls = (ls, [])"
| "retire_each (i # is) new ls =
     (let hit = (\<lambda>l. l_id l = i \<and> learning_active l);
          (ls', ret) = retire_each is new (update_where hit (retire_learning new) ls)
      in (ls', if row_count hit ls = 0 then ret else i # ret))"

definition retire_document :: "int \<Rightarrow> real \<Rightarrow> document \<Rightarrow> document" where
  "retire_document new_doc ts r =
     r\<lparr>d_page_status := Some ''superseded'', d_superseded_by := Some new_doc, d_modified := ts\<rparr>"

definition retire_superseded_members ::
  "int \<Rightarrow> int list \<Rightarrow> int \<Rightarrow> int \<Rightarrow> real \<Rightarrow> db \<Rightarrow> db \<times> int list \<times> bool" where
  "retire_superseded_members doc lids new_lid new_doc ts d =
     (let (ls, retired) = retire_each lids new_lid (learnings d);
          d1 = d\<lparr>learnings := ls\<rparr>;
          hit = (\<lambda>r. d_id r = doc \<and> d_page_status r = Some ''accepted'')
      in if retired = [] \<or> list_ex learning_active (members_of d1 doc) then (d1, retired, False)
         else (d1\<lparr>documents := update_where hit (retire_document new_doc ts) (documents d1)\<rparr>,
               retired, row_count hit (documents d1) \<noteq> 0))"

subsection \<open>Nodes: what a commit may change\<close>

lemma update_where_frame:
  "r \<in> set rs \<Longrightarrow> (if P r then f r else r) \<in> set (update_where P f rs)"
  by (auto simp: update_where_def)

lemma reconcile_frame [simp]:
  "learnings (reconcile_new_active_mapping e row lid agent content meta path d) = learnings d"
  "candidates (reconcile_new_active_mapping e row lid agent content meta path d) = candidates d"
  "events (reconcile_new_active_mapping e row lid agent content meta path d) = events d"
  "actions (reconcile_new_active_mapping e row lid agent content meta path d) = actions d"
  "reads (reconcile_new_active_mapping e row lid agent content meta path d) = reads d"
  "learning_documents (reconcile_new_active_mapping e row lid agent content meta path d) = learning_documents d"
  "next_learning (reconcile_new_active_mapping e row lid agent content meta path d) = next_learning d"
  "next_candidate (reconcile_new_active_mapping e row lid agent content meta path d) = next_candidate d"
  "next_event (reconcile_new_active_mapping e row lid agent content meta path d) = next_event d"
  "next_document (reconcile_new_active_mapping e row lid agent content meta path d) = next_document d"
  "has_actions_table (reconcile_new_active_mapping e row lid agent content meta path d) = has_actions_table d"
  by (simp_all add: reconcile_new_active_mapping_def)

lemma stamp_frame [simp]:
  "learnings (stamp_mapping doc lid d) = learnings d"
  "candidates (stamp_mapping doc lid d) = candidates d"
  "events (stamp_mapping doc lid d) = events d"
  "actions (stamp_mapping doc lid d) = actions d"
  "reads (stamp_mapping doc lid d) = reads d"
  "learning_documents (stamp_mapping doc lid d) = learning_documents d"
  "next_learning (stamp_mapping doc lid d) = next_learning d"
  "next_candidate (stamp_mapping doc lid d) = next_candidate d"
  "next_event (stamp_mapping doc lid d) = next_event d"
  "next_document (stamp_mapping doc lid d) = next_document d"
  "has_actions_table (stamp_mapping doc lid d) = has_actions_table d"
  by (simp_all add: stamp_mapping_def)

lemma add_join_frame [simp]:
  "learnings (add_join lid doc d) = learnings d"
  "candidates (add_join lid doc d) = candidates d"
  "events (add_join lid doc d) = events d"
  "actions (add_join lid doc d) = actions d"
  "reads (add_join lid doc d) = reads d"
  "documents (add_join lid doc d) = documents d"
  "next_learning (add_join lid doc d) = next_learning d"
  "next_candidate (add_join lid doc d) = next_candidate d"
  "next_event (add_join lid doc d) = next_event d"
  "next_document (add_join lid doc d) = next_document d"
  "has_actions_table (add_join lid doc d) = has_actions_table d"
  by (simp_all add: add_join_def)

lemma add_join_in [simp]: "(lid, doc) \<in> set (learning_documents (add_join lid doc d))"
  by (simp add: add_join_def)

lemma ensure_node_cases [consumes 1, case_names skip create reuse]:
  assumes "ensure_canonical_learning_node e lid agent content created d = Inr (d', r)"
  obtains "d' = d" and "r = None"
  | "d' = add_join lid (next_document d)
       (d\<lparr>documents := documents d @
            [new_node (next_document d) (durable_doc_path e agent content) agent
               (durable_metadata e content) created lid],
          next_document := next_document d + 1\<rparr>)"
    and "r = Some (next_document d)"
    and "\<forall>x \<in> set (documents d). d_path x \<noteq> durable_doc_path e agent content"
  | row where "row \<in> set (documents d)" and "d_path row = durable_doc_path e agent content"
    and "d_agent row = agent" and "r = Some (d_id row)"
    and "d' = add_join lid (d_id row) (stamp_mapping (d_id row) lid
           (reconcile_new_active_mapping e row lid agent content (durable_metadata e content)
              (durable_doc_path e agent content) d))"
proof (cases "lid = 0 \<or> agent = [] \<or> content = [] \<or> faults e FaultCanonical \<or> \<not> graph_schema d")
  case True
  then have "Inr (d, None) = (Inr (d', r) :: pyerr + db \<times> int option)"
    using assms unfolding ensure_canonical_learning_node_def by (simp split: if_split_asm)
  then show ?thesis using that(1) by simp
next
  case False
  note unfold = assms [unfolded ensure_canonical_learning_node_def Let_def]
  show ?thesis
  proof (cases "find (\<lambda>x. d_path x = durable_doc_path e agent content) (documents d)")
    case None
    then have "\<forall>x \<in> set (documents d). d_path x \<noteq> durable_doc_path e agent content"
      by (simp add: find_None_iff)
    moreover note unfold
    ultimately show ?thesis using False None by (intro that(2)) simp_all
  next
    case (Some row)
    note row = find_Some_iff' [OF Some]
    show ?thesis
    proof (cases "d_agent row = agent")
      case True
      show ?thesis using unfold False Some True row by (intro that(3) [of row]) simp_all
    next
      case False
      then have "Inr (d, None) = (Inr (d', r) :: pyerr + db \<times> int option)"
        using unfold Some \<open>\<not> (lid = 0 \<or> _)\<close> by simp
      then show ?thesis using that(1) by simp
    qed
  qed
qed

lemma ensure_node_frame:
  assumes "ensure_canonical_learning_node e lid agent content created d = Inr (d', r)"
  shows "learnings d' = learnings d" and "candidates d' = candidates d" and "events d' = events d"
    and "actions d' = actions d" and "reads d' = reads d"
    and "next_learning d' = next_learning d" and "next_candidate d' = next_candidate d"
    and "next_event d' = next_event d" and "has_actions_table d' = has_actions_table d"
  using assms by (cases rule: ensure_node_cases; simp)+

lemma documents_update_wf:
  assumes "wf_db d" and "\<And>r. d_id (f r) = d_id r" and "\<And>r. d_path (f r) = d_path r"
  shows "wf_db (d\<lparr>documents := update_where P f (documents d)\<rparr>)"
  using assms update_where_keys [of d_path f P "documents d"]
  by (simp add: wf_db_def ids_fresh_update)

lemma reconcile_wf:
  "wf_db d \<Longrightarrow> wf_db (reconcile_new_active_mapping e row lid agent content meta path d)"
  by (simp add: reconcile_new_active_mapping_def documents_update_wf reopen_def)

lemma stamp_wf: "wf_db d \<Longrightarrow> wf_db (stamp_mapping doc lid d)"
  by (simp add: stamp_mapping_def documents_update_wf)

lemma add_join_wf: "wf_db d \<Longrightarrow> wf_db (add_join lid doc d)"
  by (simp add: wf_db_def add_join_def)

lemma ensure_node_wf:
  assumes "wf_db d"
    and "ensure_canonical_learning_node e lid agent content created d = Inr (d', r)"
  shows "wf_db d'"
  using assms(2)
proof (cases rule: ensure_node_cases)
  case skip
  then show ?thesis using assms(1) by simp
next
  case create
  have "wf_db (d\<lparr>documents := documents d @
            [new_node (next_document d) (durable_doc_path e agent content) agent
               (durable_metadata e content) created lid],
          next_document := next_document d + 1\<rparr>)"
    using assms(1) create(3)
    by (auto simp: wf_db_def new_node_def intro: ids_fresh_snoc)
  then show ?thesis using create(1) by (simp add: add_join_wf)
next
  case (reuse row)
  then show ?thesis using assms(1) by (simp add: add_join_wf stamp_wf reconcile_wf)
qed

lemma find_key:
  assumes "distinct (map k rs)" and "r \<in> set rs"
  shows "find (\<lambda>x. k x = k r) rs = Some r"
  using assms
proof (induction rs)
  case Nil
  then show ?case by simp
next
  case (Cons x xs)
  then show ?case by (auto simp: image_iff)
qed

definition reopened :: "env \<Rightarrow> db \<Rightarrow> document \<Rightarrow> document \<Rightarrow> bool" where
  "reopened e d x x' \<longleftrightarrow>
     d_page_status x = Some ''superseded'' \<and> d_privacy x \<noteq> Some ''blocked''
     \<and> \<not> lexists e (d_path x) \<and> \<not> list_ex learning_active (members_of d (d_id x))
     \<and> d_page_status x' = Some ''accepted'' \<and> d_superseded_by x' = None"

lemma node_state_inactive:
  "ns_mapped (canonical_node_learning_state d doc) \<Longrightarrow>
   \<not> ns_active (canonical_node_learning_state d doc) \<Longrightarrow>
   \<not> list_ex learning_active (members_of d doc)"
  unfolding canonical_node_learning_state_def Let_def by (auto split: if_split_asm)

lemma reconcile_document:
  assumes "wf_db d" and "x \<in> set (documents d)" and "row \<in> set (documents d)" and "d_path row = path"
  shows "\<exists>x' \<in> set (documents (reconcile_new_active_mapping e row lid agent content meta path d)).
     d_id x' = d_id x \<and> d_path x' = d_path x \<and> d_agent x' = d_agent x \<and> d_privacy x' = d_privacy x
     \<and> d_layer x' = d_layer x \<and> d_page_type x' = d_page_type x
     \<and> (x' = x \<or> x = row \<and> reopened e d x x')"
proof (cases "reopen_allowed e row lid agent content meta path d \<and> d_id x = d_id row")
  case False
  then have "x \<in> set (documents (reconcile_new_active_mapping e row lid agent content meta path d))"
    using assms(2) by (force simp: reconcile_new_active_mapping_def update_where_def)
  then show ?thesis by blast
next
  case True
  have "x = row"
    using True assms(1-3) ids_fresh_find [of d_id "documents d"]
    by (metis option.inject wf_db_def)
  moreover have "reopen x \<in> set (documents (reconcile_new_active_mapping e row lid agent content meta path d))"
    using True assms(2) by (force simp: reconcile_new_active_mapping_def update_where_def)
  moreover have "reopened e d row (reopen row)"
    using True assms(4) node_state_inactive [of d "d_id row"]
    by (simp add: reopened_def reopen_def reopen_allowed_def Let_def)
  ultimately show ?thesis
    by (intro bexI [of _ "reopen x"]) (simp_all add: reopen_def)
qed

lemma update_where_ex:
  assumes "r \<in> set rs" and "if P r then Q (f r) else Q r"
  shows "\<exists>r' \<in> set (update_where P f rs). Q r'"
  using update_where_frame [OF assms(1), of P f] assms(2) by (auto split: if_split_asm)

lemma stamp_row:
  assumes "x \<in> set (documents d)"
  shows "\<exists>x' \<in> set (documents (stamp_mapping doc lid d)).
     d_id x' = d_id x \<and> d_path x' = d_path x \<and> d_agent x' = d_agent x \<and> d_privacy x' = d_privacy x
     \<and> d_layer x' = d_layer x \<and> d_page_type x' = d_page_type x
     \<and> d_page_status x' = d_page_status x \<and> d_superseded_by x' = d_superseded_by x
     \<and> (if d_id x = doc then d_kind x' = Some ''learning'' \<and> d_uri x' = Some (node_uri lid) else x' = x)"
  unfolding stamp_mapping_def using assms by simp (rule update_where_ex, assumption, simp)

theorem node_commit_keeps_documents:
  assumes "wf_db d"
    and "ensure_canonical_learning_node e lid agent content created d = Inr (d', r)"
    and "x \<in> set (documents d)"
  shows "\<exists>x' \<in> set (documents d'). d_id x' = d_id x \<and> d_path x' = d_path x \<and> d_agent x' = d_agent x
     \<and> d_privacy x' = d_privacy x \<and> d_layer x' = d_layer x \<and> d_page_type x' = d_page_type x
     \<and> (d_page_status x' = d_page_status x \<and> d_superseded_by x' = d_superseded_by x
        \<or> reopened e d x x')
     \<and> (d_agent x \<noteq> agent \<longrightarrow> x' = x)"
  using assms(2)
proof (cases rule: ensure_node_cases)
  case skip
  then show ?thesis using assms(3) by blast
next
  case create
  then show ?thesis using assms(3) by auto
next
  case (reuse row)
  obtain x1 where x1: "x1 \<in> set (documents (reconcile_new_active_mapping e row lid agent content
       (durable_metadata e content) (durable_doc_path e agent content) d))"
    "d_id x1 = d_id x" "d_path x1 = d_path x" "d_agent x1 = d_agent x" "d_privacy x1 = d_privacy x"
    "d_layer x1 = d_layer x" "d_page_type x1 = d_page_type x"
    "x1 = x \<or> x = row \<and> reopened e d x x1"
    using reconcile_document [OF assms(1,3) reuse(1,2)] by metis
  obtain x2 where x2: "x2 \<in> set (documents d')" "d_id x2 = d_id x1" "d_path x2 = d_path x1"
    "d_agent x2 = d_agent x1" "d_privacy x2 = d_privacy x1" "d_layer x2 = d_layer x1"
    "d_page_type x2 = d_page_type x1" "d_page_status x2 = d_page_status x1"
    "d_superseded_by x2 = d_superseded_by x1" "d_id x1 \<noteq> d_id row \<longrightarrow> x2 = x1"
    using stamp_row [OF x1(1), of "d_id row" lid] reuse(5) by (metis add_join_frame(6))
  have "x = row" if "d_id x1 = d_id row"
    using that x1(2) assms(1,3) reuse(1) ids_fresh_find [of d_id "documents d"]
    by (metis option.inject wf_db_def)
  then show ?thesis using x1 x2 reuse(3)
    by (intro bexI [of _ x2]) (auto simp: reopened_def)
qed

theorem node_commit_maps:
  assumes "ensure_canonical_learning_node e lid agent content created d = Inr (d', Some doc)"
  shows "(lid, doc) \<in> set (learning_documents d')
    \<and> (\<exists>x \<in> set (documents d'). d_id x = doc \<and> d_path x = durable_doc_path e agent content
         \<and> d_agent x = agent \<and> d_kind x = Some ''learning'' \<and> d_uri x = Some (node_uri lid))"
  using assms
proof (cases rule: ensure_node_cases)
  case create
  then show ?thesis by (auto simp: new_node_def)
next
  case (reuse row)
  have "\<exists>x \<in> set (documents (reconcile_new_active_mapping e row lid agent content
       (durable_metadata e content) (durable_doc_path e agent content) d)).
       d_id x = d_id row \<and> d_path x = d_path row \<and> d_agent x = d_agent row"
    using reuse(1) by (auto simp: reconcile_new_active_mapping_def reopen_def intro: update_where_ex)
  then obtain x where x: "x \<in> set (documents (reconcile_new_active_mapping e row lid agent content
       (durable_metadata e content) (durable_doc_path e agent content) d))"
       "d_id x = d_id row" "d_path x = d_path row" "d_agent x = d_agent row" by blast
  then show ?thesis using reuse stamp_row [OF x(1), of "d_id row" lid]
    by (auto split: if_split_asm)
qed simp

theorem same_content_shares_node:
  assumes "wf_db d"
    and "ensure_canonical_learning_node e lid agent content created d = Inr (d', Some doc)"
    and "ensure_canonical_learning_node e lid2 agent content created2 d' = Inr (d'', Some doc2)"
  shows "doc2 = doc \<and> {(lid, doc), (lid2, doc)} \<subseteq> set (learning_documents d'')
    \<and> length (documents d'') = length (documents d')"
proof -
  have wf: "wf_db d'" using ensure_node_wf [OF assms(1,2)] .
  obtain x where x: "x \<in> set (documents d')" "d_id x = doc" "d_path x = durable_doc_path e agent content"
    "(lid, doc) \<in> set (learning_documents d')"
    using node_commit_maps [OF assms(2)] by blast
  from assms(3) show ?thesis
  proof (cases rule: ensure_node_cases)
    case create
    then show ?thesis using x by auto
  next
    case (reuse row)
    have "row = x"
      using find_key [of d_path "documents d'"] wf x(1,3) reuse(1,2)
      by (metis option.inject wf_db_def)
    then show ?thesis using reuse x
      by (auto simp: add_join_def stamp_mapping_def reconcile_new_active_mapping_def)
  qed simp
qed

subsection \<open>Retirement\<close>

definition retire_if :: "int list \<Rightarrow> int \<Rightarrow> learning \<Rightarrow> learning" where
  "retire_if lids new l =
     (if l_id l \<in> set lids \<and> learning_active l then retire_learning new l else l)"

lemma retire_learning_simps [simp]:
  "l_id (retire_learning new l) = l_id l" "l_agent (retire_learning new l) = l_agent l"
  "l_content (retire_learning new l) = l_content l" "\<not> learning_active (retire_learning new l)"
  by (simp_all add: retire_learning_def learning_active_def)

lemma retire_if_simps [simp]:
  "l_id (retire_if lids new l) = l_id l" "l_agent (retire_if lids new l) = l_agent l"
  "l_content (retire_if lids new l) = l_content l"
  "learning_active (retire_if lids new l) \<longleftrightarrow> learning_active l \<and> l_id l \<notin> set lids"
  by (auto simp: retire_if_def)

lemma retire_each_fst: "fst (retire_each lids new ls) = map (retire_if lids new) ls"
proof (induction lids arbitrary: ls)
  case Nil
  then show ?case by (simp add: retire_if_def)
next
  case (Cons i lids)
  then show ?case
    by (simp add: Let_def split_beta update_where_def) (auto simp: retire_if_def)
qed

lemma retire_each_snd:
  "set (snd (retire_each lids new ls)) = {i \<in> set lids. \<exists>l \<in> set ls. l_id l = i \<and> learning_active l}
   \<and> distinct (snd (retire_each lids new ls))"
proof (induction lids arbitrary: ls)
  case Nil
  then show ?case by simp
next
  case (Cons i lids)
  let ?hit = "\<lambda>l. l_id l = i \<and> learning_active l"
  let ?ls = "update_where ?hit (retire_learning new) ls"
  have act: "(\<exists>l \<in> set ?ls. l_id l = j \<and> learning_active l)
      \<longleftrightarrow> j \<noteq> i \<and> (\<exists>l \<in> set ls. l_id l = j \<and> learning_active l)" for j
    by (auto simp: update_where_def)
  show ?case
    using Cons.IH [of ?ls] unfolding act
    by (auto simp: Let_def split_beta row_count_zero)
qed

lemma members_of_map:
  "(\<And>l. l_id (f l) = l_id l) \<Longrightarrow>
   members_of (d\<lparr>learnings := map f (learnings d)\<rparr>) doc = map f (members_of d doc)"
  by (simp add: members_of_def mapped_ids_def filter_map comp_def)

theorem retire_superseded_sound:
  fixes d lids new_lid doc new_doc ts
  defines "out \<equiv> retire_superseded_members doc lids new_lid new_doc ts d"
  shows "learnings (fst out) = map (retire_if lids new_lid) (learnings d)
    \<and> set (fst (snd out)) = {i \<in> set lids. \<exists>l \<in> set (learnings d). l_id l = i \<and> learning_active l}
    \<and> (snd (snd out) \<longleftrightarrow> fst (snd out) \<noteq> []
         \<and> (\<exists>r \<in> set (documents d). d_id r = doc \<and> d_page_status r = Some ''accepted'')
         \<and> set (filter learning_active (members_of d doc)) \<subseteq> {l. l_id l \<in> set lids})
    \<and> documents (fst out) =
        (if snd (snd out)
         then map (\<lambda>r. if d_id r = doc \<and> d_page_status r = Some ''accepted''
                         then retire_document new_doc ts r else r) (documents d)
         else documents d)"
proof -
  let ?hit = "\<lambda>r. d_id r = doc \<and> d_page_status r = Some ''accepted''"
  obtain ls ret where e: "retire_each lids new_lid (learnings d) = (ls, ret)" by fastforce
  have ls: "ls = map (retire_if lids new_lid) (learnings d)"
    and ret: "set ret = {i \<in> set lids. \<exists>l \<in> set (learnings d). l_id l = i \<and> learning_active l}"
    using retire_each_fst [of lids new_lid "learnings d"]
      retire_each_snd [of lids new_lid "learnings d"] e by simp_all
  have m: "list_ex learning_active (members_of (d\<lparr>learnings := ls\<rparr>) doc)
      \<longleftrightarrow> \<not> set (filter learning_active (members_of d doc)) \<subseteq> {l. l_id l \<in> set lids}"
    unfolding ls by (auto simp: members_of_map list_ex_iff)
  have nohit: "update_where ?hit f rs = rs" if "row_count ?hit rs = 0" for f rs
    using that by (intro update_where_none) (simp add: row_count_zero)
  show ?thesis
    unfolding out_def retire_superseded_members_def e Let_def split_conv m
    using ret ls nohit [of "documents d"]
    by (auto simp: row_count_zero update_where_def)
qed

subsection \<open>A concrete store\<close>

definition demo_page :: document where
  "demo_page = \<lparr>d_id = 1, d_path = ''/v/notes.md'', d_agent = ''grok'', d_sigil = None, d_modified = 3,
     d_page_status = Some ''accepted'', d_privacy = Some ''private'', d_page_type = None,
     d_layer = None, d_kind = None, d_uri = None, d_superseded_by = None\<rparr>"

definition demo_graph :: db where
  "demo_graph = empty_db\<lparr>documents := [demo_page], next_document := 2\<rparr>"

lemma demo_graph_wf: "wf_db demo_graph"
  by (simp add: wf_db_def demo_graph_def empty_db_def ids_fresh_def demo_page_def)

lemma demo_no_fault: "\<not> faults demo_env x"
  by (simp add: demo_env_def)

lemma demo_first_node:
  obtains d' where "ensure_canonical_learning_node demo_env 1 ''codex'' ''hi'' 5 demo_graph = Inr (d', Some 2)"
    and "graph_schema d'"
    and "find (\<lambda>x. d_path x = durable_doc_path demo_env ''codex'' ''hi'') (documents d')
      = Some (new_node 2 (durable_doc_path demo_env ''codex'' ''hi'') ''codex'' (durable_metadata demo_env ''hi'') 5 1)"
proof -
  let ?path = "durable_doc_path demo_env ''codex'' ''hi''"
  have n: "d_path demo_page \<noteq> ?path" by code_simp
  have g: "graph_schema demo_graph" "learning_documents demo_graph = []" "documents demo_graph = [demo_page]" "next_document demo_graph = 2"
    by (simp_all add: demo_graph_def empty_db_def)
  obtain d' where d': "ensure_canonical_learning_node demo_env 1 ''codex'' ''hi'' 5 demo_graph = Inr (d', Some 2)"
    by (simp add: ensure_canonical_learning_node_def Let_def demo_no_fault g n)
  then have "documents d' = [demo_page, new_node 2 ?path ''codex'' (durable_metadata demo_env ''hi'') 5 1]"
      "graph_schema d'"
    by (auto simp: ensure_canonical_learning_node_def Let_def demo_no_fault g n add_join_def)
  then show ?thesis using d' n by (intro that [of d']) (simp_all add: new_node_def)
qed

theorem node_commit_keeps_documents_witness:
  "\<exists>d' r. \<exists>x' \<in> set (documents d'). ensure_canonical_learning_node demo_env 1 ''codex'' ''hi'' 5 demo_graph = Inr (d', r)
     \<and> x' = demo_page"
proof -
  obtain d' where n: "ensure_canonical_learning_node demo_env 1 ''codex'' ''hi'' 5 demo_graph = Inr (d', Some 2)"
    by (rule demo_first_node)
  have "demo_page \<in> set (documents demo_graph)" by (simp add: demo_graph_def)
  from node_commit_keeps_documents [OF demo_graph_wf n this] show ?thesis
    using n by (auto simp: demo_page_def)
qed

theorem same_content_shares_node_witness:
  "\<exists>d' d'' doc2. ensure_canonical_learning_node demo_env 1 ''codex'' ''hi'' 5 demo_graph = Inr (d', Some 2)
     \<and> ensure_canonical_learning_node demo_env 2 ''codex'' ''hi'' 6 d' = Inr (d'', Some doc2)
     \<and> doc2 = 2 \<and> length (documents d'') = length (documents d')"
proof -
  obtain d' where n: "ensure_canonical_learning_node demo_env 1 ''codex'' ''hi'' 5 demo_graph = Inr (d', Some 2)"
    and s: "graph_schema d'" and r: "find (\<lambda>x. d_path x = durable_doc_path demo_env ''codex'' ''hi'') (documents d')
      = Some (new_node 2 (durable_doc_path demo_env ''codex'' ''hi'') ''codex'' (durable_metadata demo_env ''hi'') 5 1)"
    by (rule demo_first_node)
  obtain d'' doc2 where m: "ensure_canonical_learning_node demo_env 2 ''codex'' ''hi'' 6 d' = Inr (d'', Some doc2)"
    using r s by (simp add: ensure_canonical_learning_node_def Let_def new_node_def demo_no_fault)
  from same_content_shares_node [OF demo_graph_wf n m] show ?thesis using n m by auto
qed

end
