(* ===== verification/Queue.thy ===== *)
theory Queue
  imports Graph
begin

text \<open>
  The contract every operation on the candidate queue keeps, whoever runs it: the key
  invariants of the store survive, a row that has left \<^verbatim>\<open>proposed\<close> is never touched
  again, and a governed operation makes one durable learning for each candidate it accepts.
  The operations of the daemon that touch the queue are shown to meet it where they are
  defined.
\<close>

definition frozen_rows :: "db \<Rightarrow> db \<Rightarrow> bool" where
  "frozen_rows d d' \<longleftrightarrow>
     (\<forall>i c. candidate_row d i = Some c \<and> c_status c \<noteq> ''proposed'' \<longrightarrow> candidate_row d' i = Some c)"

definition accepted_count :: "db \<Rightarrow> nat" where
  "accepted_count d = row_count (\<lambda>c. c_status c = ''accepted'') (candidates d)"

definition balance :: "db \<Rightarrow> int" where
  "balance d = int (length (learnings d)) - int (accepted_count d)"

lemma frozen_rows_refl [simp]: "frozen_rows d d"
  by (simp add: frozen_rows_def)

lemma frozen_rows_trans: "frozen_rows d d' \<Longrightarrow> frozen_rows d' d'' \<Longrightarrow> frozen_rows d d''"
  unfolding frozen_rows_def by blast

lemma frozen_rows_same: "candidates d' = candidates d \<Longrightarrow> frozen_rows d d'"
  by (simp add: frozen_rows_def candidate_row_def)

locale queue_op =
  fixes op :: "'a \<Rightarrow> db \<Rightarrow> db"
  assumes op_wf: "wf_db d \<Longrightarrow> wf_db (op a d)"
    and op_frozen: "wf_db d \<Longrightarrow> frozen_rows d (op a d)"
begin

lemma history_wf: "wf_db d \<Longrightarrow> wf_db (fold op as d)"
  by (induction as arbitrary: d) (simp_all add: op_wf)

lemma history_frozen: "wf_db d \<Longrightarrow> frozen_rows d (fold op as d)"
proof (induction as arbitrary: d)
  case Nil
  then show ?case by simp
next
  case (Cons a as)
  have "frozen_rows (op a d) (fold op as (op a d))" using Cons op_wf by blast
  then show ?case using frozen_rows_trans [OF op_frozen [OF Cons.prems]] by simp
qed

lemma terminal_forever:
  assumes "wf_db d" and "candidate_row d i = Some c" and "c_status c \<noteq> ''proposed''"
  shows "candidate_row (fold op as d) i = Some c"
  using history_frozen [OF assms(1)] assms(2,3) by (simp add: frozen_rows_def)

end

locale balanced_op = queue_op +
  assumes op_balance: "wf_db d \<Longrightarrow> balance (op a d) = balance d"
begin

lemma history_balance: "wf_db d \<Longrightarrow> balance (fold op as d) = balance d"
  by (induction as arbitrary: d) (simp_all add: op_wf op_balance)

end

subsection \<open>The two moves the operations are made of\<close>

lemma row_count_simps:
  "row_count P [] = 0" "row_count P (x # xs) = (if P x then 1 else 0) + row_count P xs"
  "row_count P (xs @ ys) = row_count P xs + row_count P ys"
  by (simp_all add: row_count_def)

lemma update_where_Cons: "update_where P f (x # xs) = (if P x then f x else x) # update_where P f xs"
  by (simp add: update_where_def)

lemma row_count_update_one:
  assumes "distinct (map k rs)" and "r \<in> set rs"
  shows "row_count P (update_where (\<lambda>x. k x = k r) f rs) + (if P r then 1 else 0)
    = row_count P rs + (if P (f r) then 1 else 0)"
  using assms
proof (induction rs)
  case Nil
  then show ?case by simp
next
  case (Cons x xs)
  show ?case
  proof (cases "x = r")
    case True
    then have "update_where (\<lambda>y. k y = k r) f xs = xs"
      using Cons.prems(1) by (intro update_where_none) (force simp: image_iff)
    then show ?thesis using True by (simp add: update_where_Cons row_count_simps)
  next
    case False
    then have "r \<in> set xs" "k x \<noteq> k r" using Cons.prems by (auto simp: image_iff)
    then show ?thesis using Cons by (simp add: update_where_Cons row_count_simps)
  qed
qed

lemma settle_accepted_count:
  assumes "wf_db d" and "candidate_row d cid = Some c" and "c_status c = ''proposed''"
  shows "accepted_count (update_candidate cid (settle_row st ts w why) d)
    = accepted_count d + (if st = ''accepted'' then 1 else 0)"
proof -
  have c: "c \<in> set (candidates d)" "c_id c = cid" using candidate_row_Some [OF assms(2)] by auto
  have "distinct (map c_id (candidates d))" using assms(1) by (simp add: wf_db_def ids_fresh_def)
  from row_count_update_one [OF this c(1), of "\<lambda>c. c_status c = ''accepted''" "settle_row st ts w why"]
  show ?thesis using c assms(3) by (simp add: accepted_count_def)
qed

lemma update_candidate_frozen:
  assumes "candidate_row d cid = Some c" and "c_status c = ''proposed''"
    and "\<And>c. c_id (f c) = c_id c"
  shows "frozen_rows d (update_candidate cid f d)"
  using assms candidate_row_Some [of d]
  unfolding frozen_rows_def by (force simp: candidate_row_update)

lemma flag_accepted_count:
  assumes "\<And>c. c_status (f c) = c_status c"
  shows "accepted_count (update_candidate cid f d) = accepted_count d"
  using assms by (simp add: accepted_count_def row_count_def update_where_def filter_map comp_def if_distrib)

lemma candidates_determine:
  "candidates d' = candidates d \<Longrightarrow> accepted_count d' = accepted_count d"
  by (simp add: accepted_count_def)

lemma insert_candidate_frozen:
  assumes "wf_db d"
  shows "frozen_rows d (insert_candidate c d)"
proof -
  have "find P (xs @ ys) = Some x" if "find P xs = Some x" for P :: "candidate \<Rightarrow> bool" and xs ys x
    using that by (induction xs) auto
  then show ?thesis by (simp add: frozen_rows_def candidate_row_def)
qed

end
