(* ===== verification/Consolidation.thy ===== *)
theory Consolidation
  imports Queue "HOL-Library.Multiset"
begin

text \<open>
  \<^verbatim>\<open>src/minni/afm_passes/consolidation.py\<close>: the pass that triages proposed
  candidates, and the part of \<^verbatim>\<open>src/minni/minnid_runtime/afm.py\<close> that applies its
  decisions.  The pass only returns decisions.  Applying one re-reads the row inside its own
  transaction, so each application is modelled as a plan made on one store and a commit made
  on the store that the transaction finds.
\<close>

subsection \<open>Normal form and structural quality\<close>

fun collapse_ws :: "bool \<Rightarrow> string \<Rightarrow> string" where
  "collapse_ws prev [] = []"
| "collapse_ws prev (c # cs) =
     (if py_space c then (if prev then collapse_ws True cs else CHR '' '' # collapse_ws True cs)
      else c # collapse_ws False cs)"

definition normalize :: "string \<Rightarrow> string" where
  "normalize t = collapse_ws False (py_lower (py_strip t))"

definition content_hash :: "env \<Rightarrow> string \<Rightarrow> string" where
  "content_hash e t = sha1 e (normalize t)"

definition SAFE_PRIVACY :: "string list" where
  "SAFE_PRIVACY = [''safe'', ''public'', ''low'']"

definition EXAMINABLE_PRIVACY :: "string list" where
  "EXAMINABLE_PRIVACY = SAFE_PRIVACY @ [''review'']"

definition MIN_CONTENT_LEN :: nat where
  "MIN_CONTENT_LEN = 12"

text \<open>\<^verbatim>\<open>str.isalpha\<close> and \<^verbatim>\<open>str.isalnum\<close> on code points below 256.\<close>

definition is_alpha :: "char \<Rightarrow> bool" where
  "is_alpha c \<longleftrightarrow> (let n = code_point c in
     65 \<le> n \<and> n \<le> 90 \<or> 97 \<le> n \<and> n \<le> 122 \<or> n \<in> {170, 181, 186}
     \<or> 192 \<le> n \<and> n \<noteq> 215 \<and> n \<noteq> 247)"

definition is_alnum :: "char \<Rightarrow> bool" where
  "is_alnum c \<longleftrightarrow> is_alpha c \<or> is_digit c \<or> code_point c \<in> {178, 179, 185, 188, 189, 190}"

definition word_char :: "char \<Rightarrow> bool" where
  "word_char c \<longleftrightarrow> (let n = code_point c in
     48 \<le> n \<and> n \<le> 57 \<or> 65 \<le> n \<and> n \<le> 90 \<or> 97 \<le> n \<and> n \<le> 122 \<or> n = 39)"

text \<open>\<^verbatim>\<open>re.findall(r"[A-Za-z0-9']+", text)\<close>; the first argument is the run read so far.\<close>

fun word_runs :: "string \<Rightarrow> string \<Rightarrow> string list" where
  "word_runs run [] = (if run = [] then [] else [rev run])"
| "word_runs run (c # cs) =
     (if word_char c then word_runs (c # run) cs
      else if run = [] then word_runs [] cs else rev run # word_runs [] cs)"

text \<open>
  \<^verbatim>\<open>letters / max(1, len(text)) < 0.4\<close>: the double nearest to a quotient below two
  fifths with a denominator under 2 to the 50 is below the double \<^verbatim>\<open>0.4\<close>, and the
  quotient two fifths rounds to it, so the test is exact.
\<close>

definition quality_blockers :: "string \<Rightarrow> string list" where
  "quality_blockers content =
     (let text = py_strip content;
          n = length text;
          alnum_chars = remdups (map lower_char (filter is_alnum text));
          words = remdups (map py_lower (word_runs [] text));
          letters = length (filter is_alpha text)
      in (if n > 8000 then [''oversized blob''] else [])
       @ (if n > 10 \<and> length alnum_chars \<le> 2 then [''low character diversity (filler)''] else [])
       @ (if length words < 2 then [''too few distinct words''] else [])
       @ (if n > 20 \<and> 5 * letters < 2 * n then [''low alphabetic ratio''] else []))"

subsection \<open>Queries\<close>

definition backfill_hash :: "env \<Rightarrow> learning \<Rightarrow> learning" where
  "backfill_hash e l =
     (case l_hash l of None \<Rightarrow> l\<lparr>l_hash := Some (content_hash e (l_content l))\<rparr> | Some _ \<Rightarrow> l)"

definition ensure_dedup_index :: "env \<Rightarrow> db \<Rightarrow> db" where
  "ensure_dedup_index e d =
     d\<lparr>has_hash_column := True, learnings := map (backfill_hash e) (learnings d)\<rparr>"

definition live_copy :: "string \<Rightarrow> string \<Rightarrow> learning \<Rightarrow> bool" where
  "live_copy h agent l \<longleftrightarrow> l_hash l = Some h \<and> l_agent l = agent
     \<and> l_status l = Some ''active'' \<and> l_superseded_by l = None"

definition has_active_learning_hash :: "db \<Rightarrow> string \<Rightarrow> string \<Rightarrow> bool" where
  "has_active_learning_hash d h agent \<longleftrightarrow> list_ex (live_copy h agent) (learnings d)"

definition total_proposed :: "db \<Rightarrow> nat" where
  "total_proposed d = row_count (\<lambda>c. c_status c = ''proposed'') (candidates d)"

definition proposed_candidates :: "db \<Rightarrow> int \<Rightarrow> pyerr + candidate list" where
  "proposed_candidates d limit =
     (if \<not> has_actions_table d then Inl OSError
      else
        let rows = sort_key c_proposed_at
              (filter (\<lambda>c. c_status c = ''proposed'' \<and> \<not> fenced d (c_id c)) (candidates d))
        in Inr (if limit < 0 then rows else take (nat limit) rows))"

subsection \<open>Review drafts\<close>

definition DRAFT_PRIVACY :: "string list" where
  "DRAFT_PRIVACY = [''safe'', ''public'', ''low'', ''review'', ''private'', ''local-only'', ''blocked'']"

definition draft_privacy :: "candidate \<Rightarrow> string" where
  "draft_privacy c =
     (case c_privacy c of
        None \<Rightarrow> ''review''
      | Some raw \<Rightarrow>
          if py_strip raw = [] then ''review''
          else let p = py_lower (py_strip raw)
            in if p \<in> set SAFE_PRIVACY then ''safe''
               else if p \<in> set DRAFT_PRIVACY then p else ''review'')"

definition flagged :: "candidate \<Rightarrow> bool" where
  "flagged c \<longleftrightarrow> c_instruction_like c \<or> is_instruction_like (c_content c)"

definition WITHHELD_LINE :: string where
  "WITHHELD_LINE = ''- Content: [withheld; learn-only / non-safe privacy]''"

record draft =
  dr_page_id :: string
  dr_title :: string
  dr_privacy :: string
  dr_content_line :: string

definition review_draft :: "candidate \<Rightarrow> string \<Rightarrow> string \<Rightarrow> draft" where
  "review_draft c reason trace_id =
     (let privacy = draft_privacy c
      in \<lparr>dr_page_id = ''consolidation-review-'' @ int_text (c_id c) @ ''-'' @ trace_id,
          dr_title = ''Candidate #'' @ int_text (c_id c) @ '' needs review ('' @ reason @ '')'',
          dr_privacy = privacy,
          dr_content_line =
            (if privacy \<in> set SAFE_PRIVACY \<and> \<not> flagged c
             then ''- Content: '' @ take 400 (c_content c) else WITHHELD_LINE)\<rparr>)"

subsection \<open>The pass\<close>

definition candidate_owner :: "candidate \<Rightarrow> string" where
  "candidate_owner c =
     canonical_principal (if c_principal c = [] then ''afm-loop'' else c_principal c)"

definition privacy_label :: "candidate \<Rightarrow> string" where
  "privacy_label c = (case c_privacy c of None \<Rightarrow> [] | Some p \<Rightarrow> py_lower (py_strip p))"

definition privacy_reason :: "candidate \<Rightarrow> string" where
  "privacy_reason c =
     ''privacy='' @ (if privacy_label c = [] then ''unset'' else privacy_label c)"

datatype verdict = Promote | Dedup | Review string

definition triage :: "env \<Rightarrow> db \<Rightarrow> (string \<times> string) list \<Rightarrow> candidate \<Rightarrow> verdict" where
  "triage e d seen c =
     (let norm = normalize (c_content c);
          key = (candidate_owner c, content_hash e (c_content c));
          blockers = quality_blockers (c_content c)
      in if length norm < MIN_CONTENT_LEN then Review ''too short / trivial''
         else if key \<in> set seen \<or> has_active_learning_hash d (snd key) (fst key) then Dedup
         else if flagged c then Review ''instruction_like''
         else if privacy_label c \<notin> set EXAMINABLE_PRIVACY then Review (privacy_reason c)
         else if blockers \<noteq> [] then Review (''low quality: '' @ join_with ''; '' blockers)
         else if privacy_label c \<notin> set SAFE_PRIVACY then Review (privacy_reason c)
         else Promote)"

record decisions =
  promote_ids :: "int list"
  dedup_ids :: "int list"
  review_ids :: "int list"
  drafts :: "draft list"

fun triage_all :: "env \<Rightarrow> db \<Rightarrow> string \<Rightarrow> (string \<times> string) list \<Rightarrow> candidate list \<Rightarrow> decisions" where
  "triage_all e d trace_id seen [] =
     \<lparr>promote_ids = [], dedup_ids = [], review_ids = [], drafts = []\<rparr>"
| "triage_all e d trace_id seen (c # cs) =
     (case triage e d seen c of
        Promote \<Rightarrow>
          let r = triage_all e d trace_id
                ((candidate_owner c, content_hash e (c_content c)) # seen) cs
          in r\<lparr>promote_ids := c_id c # promote_ids r\<rparr>
      | Dedup \<Rightarrow>
          let r = triage_all e d trace_id seen cs in r\<lparr>dedup_ids := c_id c # dedup_ids r\<rparr>
      | Review reason \<Rightarrow>
          let r = triage_all e d trace_id seen cs
          in r\<lparr>review_ids := c_id c # review_ids r,
               drafts := review_draft c reason trace_id # drafts r\<rparr>)"

record pass_summary =
  s_total_proposed :: nat
  s_examined :: nat
  s_deferred :: nat
  s_decisions :: decisions

definition consolidation_run :: "env \<Rightarrow> int \<Rightarrow> string \<Rightarrow> db \<Rightarrow> db \<times> (pyerr + pass_summary)" where
  "consolidation_run e max_per_run trace_id d0 =
     (let d = ensure_dedup_index e d0 in
      (d, bind_result (proposed_candidates d max_per_run) (\<lambda>cs.
        Inr \<lparr>s_total_proposed = total_proposed d, s_examined = length cs,
              s_deferred = total_proposed d - length cs,
              s_decisions = triage_all e d trace_id [] cs\<rparr>)))"

subsection \<open>The pass sorts every examined candidate into one bin\<close>

lemma triage_promote:
  "triage e d seen c = Promote \<longleftrightarrow>
     MIN_CONTENT_LEN \<le> length (normalize (c_content c))
     \<and> (candidate_owner c, content_hash e (c_content c)) \<notin> set seen
     \<and> \<not> has_active_learning_hash d (content_hash e (c_content c)) (candidate_owner c)
     \<and> \<not> flagged c \<and> privacy_label c \<in> set SAFE_PRIVACY \<and> quality_blockers (c_content c) = []"
  by (auto simp: triage_def Let_def EXAMINABLE_PRIVACY_def)

lemma triage_dedup:
  "triage e d seen c = Dedup \<Longrightarrow>
     (candidate_owner c, content_hash e (c_content c)) \<in> set seen
     \<or> has_active_learning_hash d (content_hash e (c_content c)) (candidate_owner c)"
  by (auto simp: triage_def Let_def split: if_split_asm)

lemma triage_all_partition:
  "mset (promote_ids (triage_all e d tr seen cs)) + mset (dedup_ids (triage_all e d tr seen cs))
     + mset (review_ids (triage_all e d tr seen cs)) = mset (map c_id cs)"
  by (induction e d tr seen cs rule: triage_all.induct) (auto split: verdict.split simp: Let_def)

definition batch_key :: "env \<Rightarrow> candidate \<Rightarrow> string \<times> string" where
  "batch_key e c = (candidate_owner c, content_hash e (c_content c))"

definition vetted :: "env \<Rightarrow> db \<Rightarrow> candidate \<Rightarrow> bool" where
  "vetted e d c \<longleftrightarrow> MIN_CONTENT_LEN \<le> length (normalize (c_content c))
     \<and> \<not> flagged c \<and> privacy_label c \<in> set SAFE_PRIVACY \<and> quality_blockers (c_content c) = []
     \<and> \<not> has_active_learning_hash d (content_hash e (c_content c)) (candidate_owner c)"

lemma distinct_keys_step:
  assumes "c_id c \<notin> c_id ` set cs" and "distinct (map k (filter (\<lambda>x. c_id x \<in> P) cs))"
    and "\<forall>x \<in> set cs. c_id x \<in> P \<longrightarrow> k x \<noteq> k c"
  shows "distinct (map k (filter (\<lambda>x. c_id x \<in> insert (c_id c) P) (c # cs)))"
proof -
  have "filter (\<lambda>x. c_id x \<in> insert (c_id c) P) cs = filter (\<lambda>x. c_id x \<in> P) cs"
    using assms(1) by (intro filter_cong) (auto simp: image_iff)
  moreover have "k c \<notin> k ` set (filter (\<lambda>x. c_id x \<in> P) cs)" using assms(3) by auto
  ultimately show ?thesis using assms(2) by (simp add: image_iff)
qed

lemma triage_all_promotes:
  assumes "distinct (map c_id cs)"
  shows "set (promote_ids (triage_all e d tr seen cs)) \<subseteq> c_id ` {c \<in> set cs. vetted e d c}
    \<and> distinct (map (batch_key e) (filter (\<lambda>c. c_id c \<in> set (promote_ids (triage_all e d tr seen cs))) cs))
    \<and> (\<forall>c \<in> set cs. c_id c \<in> set (promote_ids (triage_all e d tr seen cs)) \<longrightarrow> batch_key e c \<notin> set seen)"
  using assms
proof (induction e d tr seen cs rule: triage_all.induct)
  case 1
  then show ?case by simp
next
  case (2 e d tr seen c cs)
  show ?case
  proof (cases "triage e d seen c")
    case Promote
    let ?s = "(candidate_owner c, content_hash e (c_content c)) # seen"
    let ?P = "set (promote_ids (triage_all e d tr ?s cs))"
    note IH = 2(1) [OF Promote]
    have notin: "c_id c \<notin> c_id ` set cs" using 2(4) by simp
    have sub: "?P \<subseteq> c_id ` {x \<in> set cs. vetted e d x}"
      and dist: "distinct (map (batch_key e) (filter (\<lambda>x. c_id x \<in> ?P) cs))"
      and fresh: "\<forall>x \<in> set cs. c_id x \<in> ?P \<longrightarrow> batch_key e x \<notin> set ?s"
      using IH 2(4) by simp_all
    have v: "vetted e d c" "batch_key e c \<notin> set seen"
      using Promote by (simp_all add: triage_promote vetted_def batch_key_def)
    have fresh': "\<forall>x \<in> set cs. c_id x \<in> ?P \<longrightarrow> batch_key e x \<noteq> batch_key e c \<and> batch_key e x \<notin> set seen"
      using fresh unfolding batch_key_def by auto
    have ids: "set (promote_ids (triage_all e d tr seen (c # cs))) = insert (c_id c) ?P"
      using Promote by (simp add: Let_def)
    have "distinct (map (batch_key e) (filter (\<lambda>x. c_id x \<in> insert (c_id c) ?P) (c # cs)))"
      using fresh' by (intro distinct_keys_step notin dist) simp
    moreover have "c_id c \<notin> ?P" using sub notin by (auto simp: image_iff)
    ultimately show ?thesis unfolding ids using v sub fresh' notin by (auto simp: image_iff)
  next
    case Dedup
    have "c_id c \<notin> set (promote_ids (triage_all e d tr seen cs))"
      using 2(2) [OF Dedup] 2(4) by (auto simp: image_iff)
    then show ?thesis using 2(2) [OF Dedup] 2(4) Dedup by (auto simp: Let_def)
  next
    case (Review r)
    have "c_id c \<notin> set (promote_ids (triage_all e d tr seen cs))"
      using 2(3) [OF Review] 2(4) by (auto simp: image_iff)
    then show ?thesis using 2(3) [OF Review] 2(4) Review by (auto simp: Let_def)
  qed
qed

lemma triage_all_dedups:
  "i \<in> set (dedup_ids (triage_all e d tr seen cs)) \<Longrightarrow>
   \<exists>c \<in> set cs. c_id c = i
     \<and> (has_active_learning_hash d (content_hash e (c_content c)) (candidate_owner c)
        \<or> batch_key e c \<in> set seen
        \<or> (\<exists>c' \<in> set cs. c_id c' \<in> set (promote_ids (triage_all e d tr seen cs))
              \<and> batch_key e c' = batch_key e c))"
proof (induction e d tr seen cs rule: triage_all.induct)
  case 1
  then show ?case by simp
next
  case (2 e d tr seen c cs)
  show ?case
  proof (cases "triage e d seen c")
    case Promote
    let ?s = "(candidate_owner c, content_hash e (c_content c)) # seen"
    obtain x where x: "x \<in> set cs" "c_id x = i"
      "has_active_learning_hash d (content_hash e (c_content x)) (candidate_owner x)
        \<or> batch_key e x \<in> set ?s
        \<or> (\<exists>c' \<in> set cs. c_id c' \<in> set (promote_ids (triage_all e d tr ?s cs))
              \<and> batch_key e c' = batch_key e x)"
      using 2(1) [OF Promote] 2(4) Promote by (auto simp: Let_def)
    have "batch_key e x = batch_key e c" if "batch_key e x \<in> set ?s" "batch_key e x \<notin> set seen"
      using that by (auto simp: batch_key_def)
    then show ?thesis using x Promote by (auto simp: Let_def)
  next
    case Dedup
    then show ?thesis using 2(2) [OF Dedup] 2(4) triage_dedup [OF Dedup]
      by (auto simp: Let_def batch_key_def)
  next
    case (Review r)
    then show ?thesis using 2(3) [OF Review] 2(4) by (auto simp: Let_def)
  qed
qed

lemma triage_all_drafts:
  "dr \<in> set (drafts (triage_all e d tr seen cs)) \<Longrightarrow>
   \<exists>c \<in> set cs. \<exists>why. dr = review_draft c why tr"
  by (induction e d tr seen cs rule: triage_all.induct) (auto split: verdict.split_asm simp: Let_def)

lemma ensure_dedup_index_frame [simp]:
  "candidates (ensure_dedup_index e d) = candidates d" "actions (ensure_dedup_index e d) = actions d"
  "has_actions_table (ensure_dedup_index e d) = has_actions_table d"
  "documents (ensure_dedup_index e d) = documents d" "next_candidate (ensure_dedup_index e d) = next_candidate d"
  by (simp_all add: ensure_dedup_index_def)

lemma backfill_hash_id [simp]: "l_id (backfill_hash e l) = l_id l"
  by (simp add: backfill_hash_def split: option.split)

lemma ensure_dedup_index_wf: "wf_db d \<Longrightarrow> wf_db (ensure_dedup_index e d)"
  by (simp add: wf_db_def ensure_dedup_index_def ids_fresh_def comp_def)

definition queued :: "db \<Rightarrow> candidate \<Rightarrow> bool" where
  "queued d c \<longleftrightarrow> c \<in> set (candidates d) \<and> c_status c = ''proposed'' \<and> \<not> fenced d (c_id c)"

lemma proposed_candidates_queued:
  assumes "proposed_candidates d n = Inr cs"
  shows "set cs \<subseteq> {c. queued d c}" and "distinct (map c_id (candidates d)) \<Longrightarrow> distinct (map c_id cs)"
    and "0 \<le> n \<Longrightarrow> int (length cs) \<le> n"
proof -
  let ?rows = "sort_key c_proposed_at
    (filter (\<lambda>c. c_status c = ''proposed'' \<and> \<not> fenced d (c_id c)) (candidates d))"
  have cs: "cs = (if n < 0 then ?rows else take (nat n) ?rows)"
    using assms by (simp add: proposed_candidates_def Let_def split: if_split_asm)
  have all: "set ?rows \<subseteq> {c. queued d c}" by (auto simp: queued_def)
  then show "set cs \<subseteq> {c. queued d c}" using cs set_take_subset [of "nat n" ?rows] by (auto split: if_split_asm)
  show "0 \<le> n \<Longrightarrow> int (length cs) \<le> n" using cs by simp
  assume "distinct (map c_id (candidates d))"
  then have "distinct (map c_id (filter (\<lambda>c. c_status c = ''proposed'' \<and> \<not> fenced d (c_id c)) (candidates d)))"
    by (rule distinct_map_filter)
  then have "distinct (map c_id ?rows)"
    by (metis (mono_tags, lifting) distinct_map mset_sort mset_eq_imp_distinct_iff set_mset_mset)
  then show "distinct (map c_id cs)" using cs by (simp add: distinct_take flip: take_map)
qed

lemma consolidation_run_Inr:
  assumes "consolidation_run e n tr d0 = (d, Inr s)"
  obtains cs where "d = ensure_dedup_index e d0" and "proposed_candidates d n = Inr cs"
    and "s_examined s = length cs" and "s_decisions s = triage_all e d tr [] cs"
  using assms by (auto simp: consolidation_run_def Let_def bind_result_Inr_iff)

theorem consolidation_bins:
  assumes "consolidation_run e n tr d0 = (d, Inr s)"
  shows "length (promote_ids (s_decisions s)) + length (dedup_ids (s_decisions s))
       + length (review_ids (s_decisions s)) = s_examined s
    \<and> (0 \<le> n \<longrightarrow> int (s_examined s) \<le> n)
    \<and> (wf_db d0 \<longrightarrow> distinct (promote_ids (s_decisions s) @ dedup_ids (s_decisions s) @ review_ids (s_decisions s)))
    \<and> set (promote_ids (s_decisions s) @ dedup_ids (s_decisions s) @ review_ids (s_decisions s))
        \<subseteq> c_id ` {c. queued d0 c}
    \<and> map l_content (learnings d) = map l_content (learnings d0) \<and> candidates d = candidates d0"
proof -
  obtain cs where d: "d = ensure_dedup_index e d0" and cs: "proposed_candidates d n = Inr cs"
    and ex: "s_examined s = length cs" and de: "s_decisions s = triage_all e d tr [] cs"
    by (rule consolidation_run_Inr [OF assms])
  let ?D = "s_decisions s"
  let ?all = "promote_ids ?D @ dedup_ids ?D @ review_ids ?D"
  have part: "mset ?all = mset (map c_id cs)"
    using triage_all_partition [of e d tr "[]" cs] de by (simp add: ac_simps)
  have "length ?all = length cs" using mset_eq_length [OF part] by simp
  moreover have "set ?all = c_id ` set cs" using mset_eq_setD [OF part] by simp
  moreover have "distinct ?all" if "wf_db d0"
    using that proposed_candidates_queued(2) [OF cs] mset_eq_imp_distinct_iff [OF part] d
    by (simp add: wf_db_def ids_fresh_def)
  moreover have "set cs \<subseteq> {c. queued d0 c}"
    using proposed_candidates_queued(1) [OF cs] d by (simp add: queued_def fenced_def)
  moreover have "map l_content (learnings d) = map l_content (learnings d0)"
    using d by (simp add: ensure_dedup_index_def backfill_hash_def split: option.split)
  ultimately show ?thesis
    using proposed_candidates_queued(3) [OF cs] ex d by (auto simp del: set_append)
qed

theorem consolidation_promotes_vetted:
  assumes "consolidation_run e n tr d0 = (d, Inr s)" and "wf_db d0"
    and "i \<in> set (promote_ids (s_decisions s))"
  shows "\<exists>c. candidate_row d0 i = Some c \<and> queued d0 c \<and> vetted e d c
    \<and> (\<forall>j c'. j \<in> set (promote_ids (s_decisions s)) \<and> candidate_row d0 j = Some c'
          \<and> batch_key e c' = batch_key e c \<longrightarrow> j = i)"
proof -
  obtain cs where d: "d = ensure_dedup_index e d0" and cs: "proposed_candidates d n = Inr cs"
    and de: "s_decisions s = triage_all e d tr [] cs"
    by (rule consolidation_run_Inr [OF assms(1)])
  let ?P = "set (promote_ids (s_decisions s))"
  have ids: "distinct (map c_id (candidates d0))" using assms(2) by (simp add: wf_db_def ids_fresh_def)
  have dcs: "distinct (map c_id cs)" using proposed_candidates_queued(2) [OF cs] ids d by simp
  have q: "set cs \<subseteq> {c. queued d0 c}"
    using proposed_candidates_queued(1) [OF cs] d by (simp add: queued_def fenced_def)
  have row: "candidate_row d0 (c_id c) = Some c" if "c \<in> set cs" for c
    using that q find_key [OF ids] by (auto simp: candidate_row_def queued_def)
  note P = triage_all_promotes [OF dcs, of e d tr "[]", folded de]
  obtain c where c: "c \<in> set cs" "vetted e d c" "c_id c = i" using P assms(3) by auto
  have "j = i" if j: "j \<in> ?P" "candidate_row d0 j = Some c'" "batch_key e c' = batch_key e c" for j c'
  proof -
    obtain x where x: "x \<in> set cs" "c_id x = j" using P j(1) by auto
    then have "x = c'" using row j(2) by auto
    then have "x = c"
      using P j(3) x c assms(3) j(1) by (auto simp: distinct_map inj_on_def)
    then show ?thesis using x c by simp
  qed
  then show ?thesis using c row [OF c(1)] q by auto
qed

theorem review_draft_withholds:
  assumes "privacy_label c \<notin> set SAFE_PRIVACY \<or> flagged c"
  shows "dr_content_line (review_draft c why tr) = WITHHELD_LINE
    \<and> (privacy_label c \<notin> set SAFE_PRIVACY \<longrightarrow> dr_privacy (review_draft c why tr) \<notin> set SAFE_PRIVACY)"
proof -
  have "draft_privacy c \<in> set SAFE_PRIVACY \<longleftrightarrow> privacy_label c \<in> set SAFE_PRIVACY"
  proof (cases "c_privacy c")
    case None
    then show ?thesis by (simp add: draft_privacy_def privacy_label_def SAFE_PRIVACY_def)
  next
    case (Some raw)
    have "py_lower [] = []" by (simp add: py_lower_def)
    then show ?thesis using Some
      by (auto simp: draft_privacy_def privacy_label_def SAFE_PRIVACY_def Let_def)
  qed
  then show ?thesis using assms by (auto simp: review_draft_def Let_def)
qed

definition demo_queue :: db where
  "demo_queue = insert_candidate (demo_candidate ''codex'' ''review'' ''deploy notes b'')
     (insert_candidate (demo_candidate ''codex'' ''safe'' ''use nix flakes'') empty_db)"

lemma demo_queue_wf: "wf_db demo_queue"
  by (simp add: demo_queue_def insert_candidate_wf empty_db_wf)

definition demo_decisions :: decisions where
  "demo_decisions = \<lparr>promote_ids = [1], dedup_ids = [], review_ids = [2],
     drafts = [review_draft ((demo_candidate ''codex'' ''review'' ''deploy notes b'')\<lparr>c_id := 2\<rparr>)
                 ''privacy=review'' ''t'']\<rparr>"

definition demo_summary :: pass_summary where
  "demo_summary = \<lparr>s_total_proposed = 2, s_examined = 2, s_deferred = 0, s_decisions = demo_decisions\<rparr>"

lemma demo_texts:
  "is_instruction_like ''use nix flakes'' = False" "is_instruction_like ''deploy notes b'' = False"
  by (simp_all add: safety_eval)

lemma demo_quality:
  "quality_blockers ''use nix flakes'' = []" "quality_blockers ''deploy notes b'' = []"
  "normalize ''use nix flakes'' = ''use nix flakes''" "normalize ''deploy notes b'' = ''deploy notes b''"
  by code_simp+

lemma demo_proposed: "proposed_candidates demo_queue 5 = Inr (candidates demo_queue)"
  by code_simp

lemma demo_labels:
  "privacy_label (demo_candidate w ''safe'' x) = ''safe''"
  "privacy_label (demo_candidate w ''review'' x) = ''review''"
  by (simp_all add: privacy_label_def demo_candidate_def py_simps)

lemma demo_run: "consolidation_run demo_env 5 ''t'' demo_queue = (demo_queue, Inr demo_summary)"
proof -
  have d: "ensure_dedup_index demo_env demo_queue = demo_queue"
    by (simp add: ensure_dedup_index_def demo_queue_def insert_candidate_def empty_db_def)
  have t: "total_proposed demo_queue = 2" "length (candidates demo_queue) = 2" by code_simp+
  show ?thesis
    unfolding consolidation_run_def d Let_def demo_proposed
    by (simp add: t demo_summary_def demo_decisions_def) (simp add: demo_queue_def empty_db_def triage_def
        has_active_learning_hash_def flagged_def demo_candidate_def demo_texts demo_quality
        privacy_label_def privacy_reason_def MIN_CONTENT_LEN_def SAFE_PRIVACY_def EXAMINABLE_PRIVACY_def
        content_hash_def demo_env_def candidate_owner_def py_simps)
qed

theorem consolidation_bins_witness:
  "length (promote_ids demo_decisions) + length (dedup_ids demo_decisions)
     + length (review_ids demo_decisions) = 2
   \<and> set (promote_ids demo_decisions @ dedup_ids demo_decisions @ review_ids demo_decisions)
        \<subseteq> c_id ` {c. queued demo_queue c}"
  using consolidation_bins [OF demo_run] by (simp add: demo_summary_def)

theorem consolidation_promotes_vetted_witness:
  "\<exists>c. candidate_row demo_queue 1 = Some c \<and> vetted demo_env demo_queue c"
  using consolidation_promotes_vetted [OF demo_run demo_queue_wf, of 1]
  by (auto simp: demo_summary_def demo_decisions_def)

theorem review_draft_withholds_witness:
  "dr_content_line (review_draft (demo_candidate ''codex'' ''review'' ''secret'') ''r'' ''t'') = WITHHELD_LINE"
  using review_draft_withholds [of "demo_candidate ''codex'' ''review'' ''secret''" "''r''" "''t''"]
  by (simp add: demo_labels SAFE_PRIVACY_def)

end
