(* ===== verification/Drain.thy ===== *)
theory Drain
  imports Consolidation
begin

text \<open>
  The durable side of the consolidation loop, \<^verbatim>\<open>src/minni/minnid_runtime/afm.py\<close>:
  promoting, deduplicating and parking a candidate.  A promotion is prepared on one
  snapshot of the store and committed on another, between which any other connection may
  have written: the plan is a function of the first store, the commit of the plan and the
  second.
\<close>

subsection \<open>Promote\<close>

datatype promote_plan =
    NoPlan
  | FenceInstruction candidate
  | FencePrivacy candidate
  | Durable candidate "real list option"

definition embed :: "env \<Rightarrow> string \<Rightarrow> real list option" where
  "embed e t = (case embedder e of None \<Rightarrow> None | Some f \<Rightarrow> f (JStr t))"

definition promote_prepare :: "env \<Rightarrow> int \<Rightarrow> db \<Rightarrow> promote_plan" where
  "promote_prepare e cid d =
     (case candidate_row d cid of
        None \<Rightarrow> NoPlan
      | Some c \<Rightarrow>
          if c_status c \<noteq> ''proposed'' then NoPlan
          else if flagged c then FenceInstruction c
          else if privacy_label c \<notin> set SAFE_PRIVACY then FencePrivacy c
          else (case validate_agent_id (candidate_owner c) of
                  Inl _ \<Rightarrow> NoPlan
                | Inr _ \<Rightarrow> Durable c (embed e (c_content c))))"

definition row_matches_snapshot :: "db \<Rightarrow> int \<Rightarrow> candidate \<Rightarrow> bool" where
  "row_matches_snapshot d cid snap \<longleftrightarrow>
     (case candidate_row d cid of
        None \<Rightarrow> False
      | Some r \<Rightarrow> c_status r = ''proposed'' \<and> c_content r = c_content snap
          \<and> c_principal r = c_principal snap \<and> c_privacy r = c_privacy snap
          \<and> c_instruction_like r = c_instruction_like snap
          \<and> c_evidence_refs r = c_evidence_refs snap)"

definition review_marker :: "env \<Rightarrow> int \<Rightarrow> string \<Rightarrow> action_row" where
  "review_marker e cid detail =
     \<lparr>a_type = ''afm_review'', a_claim = int_text cid, a_status = Some ''pending'',
      a_target = None, a_detail = detail, a_at = now e\<rparr>"

definition raise_fence :: "env \<Rightarrow> int \<Rightarrow> string \<Rightarrow> db \<Rightarrow> db" where
  "raise_fence e cid detail d =
     (if fenced d cid then d else insert_action (review_marker e cid detail) d)"

definition flag_row :: "candidate \<Rightarrow> candidate" where
  "flag_row c = c\<lparr>c_instruction_like := True\<rparr>"

definition promoted_row :: "env \<Rightarrow> candidate \<Rightarrow> real list option \<Rightarrow> learning" where
  "promoted_row e snap emb =
     (new_learning (candidate_owner snap) (c_content snap) (now e))
       \<lparr>l_source_query := JStr ''afm-consolidation'', l_confidence := JFloat (Fin (9/10)) ''0.9'',
        l_embedding := emb, l_evidence := c_evidence_refs snap,
        l_hash := Some (content_hash e (c_content snap))\<rparr>"

definition promote_action :: "env \<Rightarrow> candidate \<Rightarrow> int \<Rightarrow> string \<Rightarrow> action_row" where
  "promote_action e snap lid reason =
     \<lparr>a_type = ''afm_promote'', a_claim = take 200 (c_content snap), a_status = Some ''applied'',
      a_target = Some lid, a_detail = take 500 reason, a_at = now e\<rparr>"

text \<open>The body of the durable transaction; \<open>None\<close>: something raised and it rolled back.\<close>

definition promote_txn ::
  "env \<Rightarrow> int \<Rightarrow> string \<Rightarrow> candidate \<Rightarrow> real list option \<Rightarrow> db \<Rightarrow> (db \<times> int) option" where
  "promote_txn e cid reason snap emb d =
     (let lid = next_learning d in
      if \<not> has_hash_column d \<or> \<not> has_actions_table d then None
      else
        case ensure_canonical_learning_node e lid (candidate_owner snap) (c_content snap) (now e)
               (insert_learning (promoted_row e snap emb) d) of
          Inl _ \<Rightarrow> None
        | Inr (d1, _) \<Rightarrow>
            let d2 = update_candidate cid
                       (settle_row ''accepted'' (now e) ''afm-consolidation'' (take 500 reason)) d1
            in Some (insert_action (promote_action e snap lid reason)
                       (fst (supersede_afm_review cid d2)), lid))"

definition promote_commit ::
  "env \<Rightarrow> int \<Rightarrow> string \<Rightarrow> promote_plan \<Rightarrow> db \<Rightarrow> pyerr + (db \<times> int option)" where
  "promote_commit e cid reason plan d =
     (case plan of
        NoPlan \<Rightarrow> Inr (d, None)
      | FenceInstruction c \<Rightarrow>
          if faults e FaultTxn then Inl OSError
          else if \<not> row_matches_snapshot d cid c then Inr (d, None)
          else if \<not> has_actions_table d then Inl OSError
          else Inr (raise_fence e cid (take 450 reason @ '': instruction_like'')
                      (update_candidate cid flag_row d), None)
      | FencePrivacy c \<Rightarrow>
          if faults e FaultTxn then Inl OSError
          else if \<not> row_matches_snapshot d cid c then Inr (d, None)
          else if \<not> has_actions_table d then Inl OSError
          else Inr (raise_fence e cid (take 450 reason @ '': '' @ privacy_reason c) d, None)
      | Durable c emb \<Rightarrow>
          if faults e FaultTxn \<or> \<not> row_matches_snapshot d cid c then Inr (d, None)
          else (case promote_txn e cid reason c emb d of
                  None \<Rightarrow> Inr (d, None)
                | Some (d', lid) \<Rightarrow> Inr (d', Some lid)))"

definition promote_candidate_durable ::
  "env \<Rightarrow> int \<Rightarrow> string \<Rightarrow> db \<Rightarrow> pyerr + (db \<times> int option)" where
  "promote_candidate_durable e cid reason d = promote_commit e cid reason (promote_prepare e cid d) d"

subsection \<open>Reject a duplicate, park for review\<close>

definition dedup_action :: "env \<Rightarrow> int \<Rightarrow> action_row" where
  "dedup_action e cid =
     \<lparr>a_type = ''afm_dedup'', a_claim = int_text cid, a_status = Some ''applied'',
      a_target = None, a_detail = ''duplicate of existing learning'', a_at = now e\<rparr>"

definition reject_candidate_dedup :: "env \<Rightarrow> int \<Rightarrow> db \<Rightarrow> pyerr + (db \<times> bool)" where
  "reject_candidate_dedup e cid d =
     (if faults e FaultTxn then Inl OSError
      else case candidate_row d cid of
        None \<Rightarrow> Inr (d, False)
      | Some c \<Rightarrow>
          if c_status c \<noteq> ''proposed'' then Inr (d, False)
          else if \<not> has_hash_column d then Inl OSError
          else if \<not> has_active_learning_hash d (content_hash e (c_content c)) (candidate_owner c)
          then Inr (d, False)
          else if \<not> has_actions_table d then Inl OSError
          else
            let d1 = update_candidate cid (settle_row ''rejected'' (now e) ''afm-consolidation''
                       ''duplicate of existing learning'') d
            in Inr (insert_action (dedup_action e cid) (fst (supersede_afm_review cid d1)), True))"

definition mark_candidate_review :: "env \<Rightarrow> int \<Rightarrow> string \<Rightarrow> db \<Rightarrow> pyerr + (db \<times> bool)" where
  "mark_candidate_review e cid reason d =
     (if faults e FaultTxn then Inl OSError
      else case candidate_row d cid of
        None \<Rightarrow> Inr (d, False)
      | Some c \<Rightarrow>
          if c_status c \<noteq> ''proposed'' then Inr (d, False)
          else if \<not> has_actions_table d then Inl OSError
          else
            let d1 = (if flagged c then update_candidate cid flag_row d else d)
            in if fenced d1 cid then Inr (d1, False)
               else Inr (insert_action (review_marker e cid (take 500 reason)) d1, True))"

subsection \<open>Applying a pass result\<close>

text \<open>One loop of the application: a raise is counted and leaves the store as it was.\<close>

fun apply_each :: "(int \<Rightarrow> db \<Rightarrow> pyerr + (db \<times> bool)) \<Rightarrow> int list \<Rightarrow> db \<Rightarrow> db \<times> nat \<times> nat" where
  "apply_each f [] d = (d, 0, 0)"
| "apply_each f (i # is) d =
     (case f i d of
        Inl _ \<Rightarrow> (let (d', n, err) = apply_each f is d in (d', n, Suc err))
      | Inr (d1, ok) \<Rightarrow>
          (let (d', n, err) = apply_each f is d1 in (d', if ok then Suc n else n, err)))"

definition promote_step :: "env \<Rightarrow> int \<Rightarrow> db \<Rightarrow> pyerr + (db \<times> bool)" where
  "promote_step e cid d =
     bind_result (promote_candidate_durable e cid ''afm-consolidation'' d)
       (\<lambda>(d', r). Inr (d', case r of None \<Rightarrow> False | Some lid \<Rightarrow> lid \<noteq> 0))"

definition still_proposed :: "db \<Rightarrow> int \<Rightarrow> bool" where
  "still_proposed d cid \<longleftrightarrow>
     (case candidate_row d cid of None \<Rightarrow> False | Some c \<Rightarrow> c_status c = ''proposed'')"

record applied =
  ap_promoted :: nat
  ap_deduped :: nat
  ap_reviewed :: nat
  ap_errors :: nat
  ap_remaining :: "int list"

definition remaining_proposed :: "db \<Rightarrow> decisions \<Rightarrow> pyerr + int list" where
  "remaining_proposed d r =
     (if review_ids r \<noteq> [] \<and> \<not> has_actions_table d then Inl OSError
      else Inr (filter (still_proposed d) (promote_ids r @ dedup_ids r)
                @ filter (\<lambda>i. \<not> fenced d i \<and> still_proposed d i) (review_ids r)))"

definition apply_consolidation_result :: "env \<Rightarrow> decisions \<Rightarrow> db \<Rightarrow> db \<times> applied" where
  "apply_consolidation_result e r d =
     (let (d1, np, e1) = apply_each (promote_step e) (promote_ids r) d;
          (d2, nd, e2) = apply_each (reject_candidate_dedup e) (dedup_ids r) d1;
          (d3, nr, e3) = apply_each
            (\<lambda>i. mark_candidate_review e i ''afm-consolidation review'') (review_ids r) d2
      in (d3, case remaining_proposed d3 r of
            Inl _ \<Rightarrow> \<lparr>ap_promoted = np, ap_deduped = nd, ap_reviewed = nr,
                       ap_errors = e1 + e2 + e3 + 1,
                       ap_remaining = remdups (promote_ids r @ dedup_ids r @ review_ids r)\<rparr>
          | Inr ids \<Rightarrow> \<lparr>ap_promoted = np, ap_deduped = nd, ap_reviewed = nr,
                         ap_errors = e1 + e2 + e3, ap_remaining = ids\<rparr>))"

subsection \<open>What each commit can do\<close>

lemma promote_txn_SomeD:
  assumes "promote_txn e cid reason snap emb d = Some (d', lid)"
  obtains d1 r where "lid = next_learning d"
    and "ensure_canonical_learning_node e lid (candidate_owner snap) (c_content snap) (now e)
           (insert_learning (promoted_row e snap emb) d) = Inr (d1, r)"
    and "d' = insert_action (promote_action e snap lid reason)
          (fst (supersede_afm_review cid (update_candidate cid
             (settle_row ''accepted'' (now e) ''afm-consolidation'' (take 500 reason)) d1)))"
proof (cases "has_hash_column d \<and> has_actions_table d")
  case False
  then show ?thesis using assms by (simp add: promote_txn_def Let_def)
next
  case True
  show ?thesis
  proof (cases "ensure_canonical_learning_node e (next_learning d) (candidate_owner snap)
      (c_content snap) (now e) (insert_learning (promoted_row e snap emb) d)")
    case (Inl x)
    then show ?thesis using assms True by (simp add: promote_txn_def Let_def)
  next
    case (Inr p)
    then show ?thesis using assms True
      by (intro that [of "fst p" "snd p"]) (auto simp: promote_txn_def Let_def split_beta)
  qed
qed

definition promoted_learning :: "env \<Rightarrow> candidate \<Rightarrow> learning \<Rightarrow> bool" where
  "promoted_learning e c l \<longleftrightarrow> l_agent l = candidate_owner c \<and> l_content l = c_content c
     \<and> l_status l = Some ''active'' \<and> l_superseded_by l = None
     \<and> l_hash l = Some (content_hash e (c_content c))"

lemma promote_txn_effect:
  assumes "promote_txn e cid reason snap emb d = Some (d', lid)"
  shows "\<exists>l. learnings d' = learnings d @ [l] \<and> l_id l = lid \<and> promoted_learning e snap l"
    and "candidates d' = candidates (update_candidate cid
           (settle_row ''accepted'' (now e) ''afm-consolidation'' (take 500 reason)) d)"
    and "wf_db d \<Longrightarrow> wf_db d'"
proof -
  obtain d1 r where lid: "lid = next_learning d"
    and node: "ensure_canonical_learning_node e lid (candidate_owner snap) (c_content snap) (now e)
           (insert_learning (promoted_row e snap emb) d) = Inr (d1, r)"
    and d': "d' = insert_action (promote_action e snap lid reason)
          (fst (supersede_afm_review cid (update_candidate cid
             (settle_row ''accepted'' (now e) ''afm-consolidation'' (take 500 reason)) d1)))"
    by (rule promote_txn_SomeD [OF assms])
  show "\<exists>l. learnings d' = learnings d @ [l] \<and> l_id l = lid \<and> promoted_learning e snap l"
    using ensure_node_frame(1) [OF node] lid d'
    by (simp add: promoted_learning_def promoted_row_def new_learning_def)
  show "candidates d' = candidates (update_candidate cid
           (settle_row ''accepted'' (now e) ''afm-consolidation'' (take 500 reason)) d)"
    using ensure_node_frame(2) [OF node] d' by simp
  show "wf_db d'" if "wf_db d"
    using ensure_node_wf [OF insert_learning_wf [OF that] node] d' by (simp add: update_candidate_wf)
qed

lemma raise_fence_simps [simp]:
  "learnings (raise_fence e cid t d) = learnings d" "candidates (raise_fence e cid t d) = candidates d"
  "wf_db (raise_fence e cid t d) \<longleftrightarrow> wf_db d"
  by (simp_all add: raise_fence_def)

lemma flag_row_simps [simp]: "c_id (flag_row c) = c_id c" "c_status (flag_row c) = c_status c"
  by (simp_all add: flag_row_def)

lemma snapshot_row:
  assumes "row_matches_snapshot d cid snap"
  obtains r where "candidate_row d cid = Some r" and "c_status r = ''proposed''"
    and "c_content r = c_content snap" and "c_principal r = c_principal snap"
    and "c_privacy r = c_privacy snap" and "c_instruction_like r = c_instruction_like snap"
  using assms by (auto simp: row_matches_snapshot_def split: option.split_asm)

lemma promote_commit_cases [consumes 1, case_names same flag fence durable]:
  assumes "promote_commit e cid reason plan d = Inr (d', res)"
  obtains "d' = d" and "res = None"
  | c t where "row_matches_snapshot d cid c" and "res = None" and "plan = FenceInstruction c"
      and "d' = raise_fence e cid t (update_candidate cid flag_row d)"
  | c t where "row_matches_snapshot d cid c" and "res = None" and "plan = FencePrivacy c"
      and "d' = raise_fence e cid t d"
  | c emb lid where "plan = Durable c emb" and "row_matches_snapshot d cid c" and "res = Some lid"
      and "promote_txn e cid reason c emb d = Some (d', lid)"
proof (cases plan)
  case NoPlan
  then show ?thesis using assms that(1) by (simp add: promote_commit_def)
next
  case (FenceInstruction c)
  note u = assms [unfolded promote_commit_def FenceInstruction promote_plan.case]
  show ?thesis
  proof (cases "row_matches_snapshot d cid c")
    case True
    with u have "d' = raise_fence e cid (take 450 reason @ '': instruction_like'')
        (update_candidate cid flag_row d)" "res = None"
      by (simp_all split: if_split_asm)
    then show ?thesis using that(2) True FenceInstruction by blast
  next
    case False
    with u show ?thesis by (intro that(1)) (simp_all split: if_split_asm)
  qed
next
  case (FencePrivacy c)
  note u = assms [unfolded promote_commit_def FencePrivacy promote_plan.case]
  show ?thesis
  proof (cases "row_matches_snapshot d cid c")
    case True
    with u have "d' = raise_fence e cid (take 450 reason @ '': '' @ privacy_reason c) d" "res = None"
      by (simp_all split: if_split_asm)
    then show ?thesis using that(3) True FencePrivacy by blast
  next
    case False
    with u show ?thesis by (intro that(1)) (simp_all split: if_split_asm)
  qed
next
  case (Durable c emb)
  note u = assms [unfolded promote_commit_def Durable promote_plan.case]
  show ?thesis
  proof (cases "faults e FaultTxn \<or> \<not> row_matches_snapshot d cid c")
    case True
    with u show ?thesis by (intro that(1)) simp_all
  next
    case False
    show ?thesis
    proof (cases "promote_txn e cid reason c emb d")
      case None
      with u False show ?thesis by (intro that(1)) simp_all
    next
      case (Some p)
      with u False show ?thesis
        by (intro that(4) [of c emb "snd p"]) (auto simp: Durable split_beta)
    qed
  qed
qed

lemma promote_prepare_Durable:
  assumes "promote_prepare e cid d = Durable c emb"
  shows "candidate_row d cid = Some c" and "\<not> flagged c" and "privacy_label c \<in> set SAFE_PRIVACY"
    and "validate_agent_id (candidate_owner c) = Inr (candidate_owner c)" and "emb = embed e (c_content c)"
proof -
  have v: "validate_agent_id a = Inr b \<Longrightarrow> b = a" for a b
    by (simp add: validate_agent_id_def split: if_split_asm)
  show "candidate_row d cid = Some c" "\<not> flagged c" "privacy_label c \<in> set SAFE_PRIVACY"
    "validate_agent_id (candidate_owner c) = Inr (candidate_owner c)" "emb = embed e (c_content c)"
    using assms v
    by (auto simp: promote_prepare_def split: option.split_asm if_split_asm sum.split_asm)
qed

lemma snapshot_same:
  assumes "candidate_row d cid = Some r" and "row_matches_snapshot d cid snap"
  shows "flagged r = flagged snap" and "privacy_label r = privacy_label snap"
    and "candidate_owner r = candidate_owner snap" and "promoted_learning e r = promoted_learning e snap"
    and "c_status r = ''proposed''" and "c_content r = c_content snap"
  using assms
  by (auto simp: row_matches_snapshot_def flagged_def privacy_label_def candidate_owner_def
      promoted_learning_def fun_eq_iff)

text \<open>
  C4. The background drain promotes only an unflagged proposed candidate of safe privacy; it
  adds exactly one learning with the candidate's own content and owner, and settles the row as
  accepted by afm-consolidation.
\<close>

theorem promote_needs_vetted_row:
  assumes "promote_commit e cid reason (promote_prepare e cid d0) d = Inr (d', Some lid)"
  shows "\<exists>c l. candidate_row d cid = Some c \<and> c_status c = ''proposed'' \<and> \<not> flagged c
    \<and> privacy_label c \<in> set SAFE_PRIVACY
    \<and> learnings d' = learnings d @ [l] \<and> l_id l = lid \<and> promoted_learning e c l
    \<and> candidate_row d' cid =
        Some (settle_row ''accepted'' (now e) ''afm-consolidation'' (take 500 reason) c)"
  using assms
proof (cases rule: promote_commit_cases)
  case (durable c emb lid')
  note eff = promote_txn_effect [OF durable(4)]
  obtain r where r: "candidate_row d cid = Some r" by (rule snapshot_row [OF durable(2)])
  note same = snapshot_same [OF r durable(2)]
  have "candidate_row d' cid = candidate_row (update_candidate cid
      (settle_row ''accepted'' (now e) ''afm-consolidation'' (take 500 reason)) d) cid"
    using eff(2) by (simp add: candidate_row_def)
  then have "candidate_row d' cid =
      Some (settle_row ''accepted'' (now e) ''afm-consolidation'' (take 500 reason) r)"
    using r candidate_row_Some [OF r] by (simp add: candidate_row_update)
  then show ?thesis
    using eff(1) r same promote_prepare_Durable [OF durable(1)] durable(3) by auto
qed simp_all

lemma promote_without_learning:
  assumes "promote_commit e cid reason plan d = Inr (d', None)"
  shows "learnings d' = learnings d \<and> map c_status (candidates d') = map c_status (candidates d)"
  using assms
  by (cases rule: promote_commit_cases) (simp_all add: update_where_keys)

subsection \<open>The drain keeps the queue contract\<close>

definition store_of :: "db \<Rightarrow> pyerr + (db \<times> 'b) \<Rightarrow> db" where
  "store_of d r = (case r of Inl _ \<Rightarrow> d | Inr (d', _) \<Rightarrow> d')"

lemma store_of_simps [simp]: "store_of d (Inl x) = d" "store_of d (Inr (d', b)) = d'"
  by (simp_all add: store_of_def)

definition promote_op :: "env \<Rightarrow> int \<times> string \<times> promote_plan \<Rightarrow> db \<Rightarrow> db" where
  "promote_op e = (\<lambda>(cid, reason, plan) d. store_of d (promote_commit e cid reason plan d))"

lemma flag_wf: "wf_db d \<Longrightarrow> wf_db (update_candidate cid flag_row d)"
  by (simp add: update_candidate_wf)

lemma frozen_rows_cong:
  "frozen_rows d d1 \<Longrightarrow> candidates d2 = candidates d1 \<Longrightarrow> frozen_rows d d2"
  by (simp add: frozen_rows_def candidate_row_def)

lemma settle_contract:
  assumes "wf_db d" and "candidate_row d cid = Some c" and "c_status c = ''proposed''"
    and "candidates d' = candidates (update_candidate cid (settle_row st ts w why) d)"
  shows "frozen_rows d d'" and "accepted_count d' = accepted_count d + (if st = ''accepted'' then 1 else 0)"
proof -
  have "frozen_rows d (update_candidate cid (settle_row st ts w why) d)"
    by (rule update_candidate_frozen [OF assms(2,3)]) simp
  then show "frozen_rows d d'" by (rule frozen_rows_cong [OF _ assms(4)])
  show "accepted_count d' = accepted_count d + (if st = ''accepted'' then 1 else 0)"
    using settle_accepted_count [OF assms(1-3)] candidates_determine [OF assms(4)] by simp
qed

lemma flag_contract:
  assumes "candidate_row d cid = Some c" and "c_status c = ''proposed''"
    and "candidates d' = candidates (update_candidate cid flag_row d)"
  shows "frozen_rows d d'" and "accepted_count d' = accepted_count d"
proof -
  have "frozen_rows d (update_candidate cid flag_row d)"
    by (rule update_candidate_frozen [OF assms(1,2)]) simp
  then show "frozen_rows d d'" by (rule frozen_rows_cong [OF _ assms(3)])
  show "accepted_count d' = accepted_count d"
    using flag_accepted_count [of flag_row cid d] candidates_determine [OF assms(3)] by simp
qed

lemma promote_contract:
  assumes "wf_db d"
  shows "wf_db (promote_op e a d) \<and> frozen_rows d (promote_op e a d)
    \<and> balance (promote_op e a d) = balance d"
proof -
  obtain cid reason plan where a: "a = (cid, reason, plan)" by (cases a)
  show ?thesis
  proof (cases "promote_commit e cid reason plan d")
    case (Inl x)
    then show ?thesis using assms a by (simp add: promote_op_def)
  next
    case (Inr p)
    obtain d' res where p: "p = (d', res)" by fastforce
    have e: "promote_op e a d = d'" using a Inr p by (simp add: promote_op_def)
    from Inr [unfolded p] have "wf_db d' \<and> frozen_rows d d' \<and> balance d' = balance d"
    proof (cases rule: promote_commit_cases)
      case same
      then show ?thesis using assms by simp
    next
      case (flag c t)
      obtain r where r: "candidate_row d cid = Some r" "c_status r = ''proposed''"
        by (rule snapshot_row [OF flag(1)])
      have "candidates d' = candidates (update_candidate cid flag_row d)" using flag(4) by simp
      note flag_contract [OF r this]
      then show ?thesis using flag(4) assms by (simp add: flag_wf balance_def)
    next
      case (fence c t)
      then show ?thesis using assms
        by (simp add: balance_def accepted_count_def frozen_rows_same)
    next
      case (durable c emb lid)
      note eff = promote_txn_effect [OF durable(4)]
      obtain r where r: "candidate_row d cid = Some r" "c_status r = ''proposed''"
        by (rule snapshot_row [OF durable(2)])
      note settle_contract [OF assms r eff(2)]
      then show ?thesis using eff(1,3) assms by (auto simp: balance_def)
    qed
    then show ?thesis using e by simp
  qed
qed

interpretation promote_queue: balanced_op "promote_op e"
  by unfold_locales (simp_all add: promote_contract)

definition dedup_op :: "env \<Rightarrow> int \<Rightarrow> db \<Rightarrow> db" where
  "dedup_op e cid d = store_of d (reject_candidate_dedup e cid d)"

definition review_op :: "env \<Rightarrow> int \<times> string \<Rightarrow> db \<Rightarrow> db" where
  "review_op e = (\<lambda>(cid, reason) d. store_of d (mark_candidate_review e cid reason d))"

lemma dedup_cases [consumes 1, case_names same rejected]:
  assumes "reject_candidate_dedup e cid d = Inr (d', ok)"
  obtains "d' = d" and "\<not> ok"
  | c where "candidate_row d cid = Some c" and "c_status c = ''proposed''" and "ok"
      and "has_active_learning_hash d (content_hash e (c_content c)) (candidate_owner c)"
      and "d' = insert_action (dedup_action e cid) (fst (supersede_afm_review cid (update_candidate cid
             (settle_row ''rejected'' (now e) ''afm-consolidation'' ''duplicate of existing learning'') d)))"
proof (cases "candidate_row d cid")
  case None
  then show ?thesis using assms that(1)
    by (simp add: reject_candidate_dedup_def split: if_split_asm)
next
  case (Some c)
  note u = assms [unfolded reject_candidate_dedup_def Some option.case Let_def]
  show ?thesis
  proof (cases "c_status c = ''proposed''
      \<and> has_active_learning_hash d (content_hash e (c_content c)) (candidate_owner c)")
    case False
    with u show ?thesis by (intro that(1)) (simp_all split: if_split_asm)
  next
    case True
    with u Some show ?thesis by (intro that(2) [of c]) (simp_all split: if_split_asm)
  qed
qed

lemma review_cases [consumes 1, case_names same flag fence flagfence]:
  assumes "mark_candidate_review e cid reason d = Inr (d', ok)"
  obtains "d' = d" and "\<not> ok"
  | c where "candidate_row d cid = Some c" and "c_status c = ''proposed''"
      and "d' = update_candidate cid flag_row d" and "fenced d' cid"
  | c where "candidate_row d cid = Some c" and "c_status c = ''proposed''" and "ok" and "\<not> flagged c"
      and "d' = insert_action (review_marker e cid (take 500 reason)) d"
  | c where "candidate_row d cid = Some c" and "c_status c = ''proposed''" and "ok"
      and "d' = insert_action (review_marker e cid (take 500 reason)) (update_candidate cid flag_row d)"
proof (cases "candidate_row d cid")
  case None
  then show ?thesis using assms that(1)
    by (simp add: mark_candidate_review_def split: if_split_asm)
next
  case (Some c)
  note u = assms [unfolded mark_candidate_review_def Some option.case Let_def]
  show ?thesis
  proof (cases "c_status c = ''proposed''")
    case False
    with u show ?thesis by (intro that(1)) (simp_all split: if_split_asm)
  next
    case True
    show ?thesis
    proof (cases "fenced (if flagged c then update_candidate cid flag_row d else d) cid")
      case F: True
      show ?thesis
      proof (cases "flagged c")
        case True
        with u F \<open>c_status c = ''proposed''\<close> Some show ?thesis
          by (intro that(2) [of c]) (simp_all split: if_split_asm)
      next
        case False
        with u F \<open>c_status c = ''proposed''\<close> show ?thesis
          by (intro that(1)) (simp_all split: if_split_asm)
      qed
    next
      case F: False
      show ?thesis
      proof (cases "flagged c")
        case True
        with u F \<open>c_status c = ''proposed''\<close> Some show ?thesis
          by (intro that(4) [of c]) (simp_all split: if_split_asm)
      next
        case False
        with u F \<open>c_status c = ''proposed''\<close> Some show ?thesis
          by (intro that(3) [of c]) (simp_all split: if_split_asm)
      qed
    qed
  qed
qed

lemma dedup_contract:
  assumes "wf_db d"
  shows "wf_db (dedup_op e cid d) \<and> frozen_rows d (dedup_op e cid d)
    \<and> balance (dedup_op e cid d) = balance d"
proof (cases "reject_candidate_dedup e cid d")
  case (Inl x)
  then show ?thesis using assms by (simp add: dedup_op_def)
next
  case (Inr p)
  obtain d' ok where p: "p = (d', ok)" by fastforce
  from Inr [unfolded p] have "wf_db d' \<and> frozen_rows d d' \<and> balance d' = balance d"
  proof (cases rule: dedup_cases)
    case same
    then show ?thesis using assms by simp
  next
    case (rejected c)
    have "candidates d' = candidates (update_candidate cid
        (settle_row ''rejected'' (now e) ''afm-consolidation'' ''duplicate of existing learning'') d)"
      using rejected(5) by simp
    note settle_contract [OF assms rejected(1,2) this]
    then show ?thesis using rejected(5) assms by (simp add: update_candidate_wf balance_def)
  qed
  then show ?thesis using Inr p by (simp add: dedup_op_def)
qed

lemma review_contract:
  assumes "wf_db d"
  shows "wf_db (review_op e a d) \<and> frozen_rows d (review_op e a d)
    \<and> balance (review_op e a d) = balance d"
proof -
  obtain cid reason where a: "a = (cid, reason)" by (cases a)
  show ?thesis
  proof (cases "mark_candidate_review e cid reason d")
    case (Inl x)
    then show ?thesis using assms a by (simp add: review_op_def)
  next
    case (Inr p)
    obtain d' ok where p: "p = (d', ok)" by fastforce
    from Inr [unfolded p] have "wf_db d' \<and> frozen_rows d d' \<and> balance d' = balance d"
    proof (cases rule: review_cases)
      case same
      then show ?thesis using assms by simp
    next
      case (flag c)
      note flag_contract [OF flag(1,2), of d']
      then show ?thesis using flag(3) assms by (simp add: flag_wf balance_def)
    next
      case (fence c)
      then show ?thesis using assms by (simp add: balance_def accepted_count_def frozen_rows_same)
    next
      case (flagfence c)
      note flag_contract [OF flagfence(1,2), of d']
      then show ?thesis using flagfence(4) assms by (simp add: flag_wf balance_def)
    qed
    then show ?thesis using Inr p a by (simp add: review_op_def)
  qed
qed

interpretation dedup_queue: balanced_op "dedup_op e"
  by unfold_locales (simp_all add: dedup_contract)

interpretation review_queue: balanced_op "review_op e"
  by unfold_locales (simp_all add: review_contract)

theorem dedup_keeps_a_live_copy:
  assumes "reject_candidate_dedup e cid d = Inr (d', True)"
  shows "\<exists>c l. candidate_row d cid = Some c \<and> c_status c = ''proposed''
    \<and> l \<in> set (learnings d') \<and> live_copy (content_hash e (c_content c)) (candidate_owner c) l
    \<and> learnings d' = learnings d"
  using assms
proof (cases rule: dedup_cases)
  case (rejected c)
  then show ?thesis by (auto simp: has_active_learning_hash_def list_ex_iff)
qed simp

subsection \<open>Progress of the drain\<close>

text \<open>
  C34. When applying a consolidation result leaves nothing over, none of the candidates it
  decided shows up as proposed in the next pass.
\<close>

theorem apply_progress:
  assumes "apply_consolidation_result e r d = (d', ap)" and "ap_remaining ap = []"
    and "wf_db d'" and "proposed_candidates d' n = Inr cs"
  shows "set (promote_ids r @ dedup_ids r @ review_ids r) \<inter> set (map c_id cs) = {}"
proof -
  have queued: "fenced d' (c_id c) = False \<and> still_proposed d' (c_id c)" if "c \<in> set cs" for c
  proof -
    have q: "queued d' c" using proposed_candidates_queued(1) [OF assms(4)] that by auto
    have "distinct (map c_id (candidates d'))" using assms(3) by (simp add: wf_db_def ids_fresh_def)
    then have "candidate_row d' (c_id c) = Some c"
      using q find_key [of c_id "candidates d'" c] by (simp add: candidate_row_def queued_def)
    then show ?thesis using q by (simp add: queued_def still_proposed_def)
  qed
  obtain d1 np e1 where 1: "apply_each (promote_step e) (promote_ids r) d = (d1, np, e1)"
    by (metis prod_cases3)
  obtain d2 nd e2 where 2: "apply_each (reject_candidate_dedup e) (dedup_ids r) d1 = (d2, nd, e2)"
    by (metis prod_cases3)
  obtain d3 nr e3 where 3: "apply_each (\<lambda>i. mark_candidate_review e i ''afm-consolidation review'')
      (review_ids r) d2 = (d3, nr, e3)"
    by (metis prod_cases3)
  have d': "d' = d3" using assms(1) 1 2 3 by (simp add: apply_consolidation_result_def)
  show ?thesis
  proof (cases "remaining_proposed d' r")
    case (Inl x)
    then have "remdups (promote_ids r @ dedup_ids r @ review_ids r) = []"
      using assms(1,2) 1 2 3 d' by (auto simp: apply_consolidation_result_def)
    then show ?thesis by simp
  next
    case (Inr ids)
    then have "ids = []"
      using assms(1,2) 1 2 3 d' by (auto simp: apply_consolidation_result_def)
    then have "\<forall>i \<in> set (promote_ids r @ dedup_ids r). \<not> still_proposed d' i"
      and "\<forall>i \<in> set (review_ids r). fenced d' i \<or> \<not> still_proposed d' i"
      using Inr by (auto simp: remaining_proposed_def filter_empty_conv split: if_split_asm)
    then show ?thesis using queued by auto
  qed
qed

subsection \<open>Concrete runs\<close>

lemma ensure_node_total:
  "\<not> faults e FaultCanonical \<Longrightarrow> \<exists>d' r. ensure_canonical_learning_node e lid agent content ts d = Inr (d', r)"
  unfolding ensure_canonical_learning_node_def Let_def by (simp split: option.split)

definition demo_row :: candidate where
  "demo_row = (demo_candidate ''codex'' ''safe'' ''use nix flakes'')\<lparr>c_id := 1\<rparr>"

lemma demo_row_lookup: "candidate_row demo_queue 1 = Some demo_row"
  by (simp add: candidate_row_def demo_queue_def demo_row_def empty_db_def demo_candidate_def)

lemma demo_row_simps [simp]:
  "c_status demo_row = ''proposed''" "c_content demo_row = ''use nix flakes''" "\<not> flagged demo_row"
  "privacy_label demo_row = ''safe''" "candidate_owner demo_row = ''codex''" "c_id demo_row = 1"
  by (simp_all add: demo_row_def demo_candidate_def flagged_def demo_texts privacy_label_def py_simps)
    (code_simp)

lemma demo_prepare: "promote_prepare demo_env 1 demo_queue = Durable demo_row (Some [1])"
proof -
  have "validate_agent_id ''codex'' = Inr ''codex''" by code_simp
  then show ?thesis
    by (simp add: promote_prepare_def demo_row_lookup SAFE_PRIVACY_def embed_def demo_env_def)
qed

lemma demo_snapshot: "row_matches_snapshot demo_queue 1 demo_row"
  by (simp add: row_matches_snapshot_def demo_row_lookup)

lemma demo_commit:
  "\<exists>d' lid. promote_commit demo_env 1 ''r'' (promote_prepare demo_env 1 demo_queue) demo_queue
     = Inr (d', Some lid)"
proof -
  have f: "\<not> faults demo_env FaultTxn" "\<not> faults demo_env FaultCanonical"
    "has_hash_column demo_queue" "has_actions_table demo_queue"
    by (simp_all add: demo_env_def demo_queue_def insert_candidate_def empty_db_def)
  from ensure_node_total [OF f(2)] obtain d1 r where
    "ensure_canonical_learning_node demo_env (next_learning demo_queue) (candidate_owner demo_row)
       (c_content demo_row) (now demo_env)
       (insert_learning (promoted_row demo_env demo_row (Some [1])) demo_queue) = Inr (d1, r)" by blast
  then show ?thesis
    using f by (simp add: demo_prepare promote_commit_def demo_snapshot promote_txn_def Let_def)
qed

theorem promote_needs_vetted_row_witness:
  "\<exists>d' lid c l. promote_commit demo_env 1 ''r'' (promote_prepare demo_env 1 demo_queue) demo_queue
     = Inr (d', Some lid) \<and> learnings d' = learnings demo_queue @ [l] \<and> promoted_learning demo_env c l"
  using demo_commit promote_needs_vetted_row [of demo_env 1 "''r''" demo_queue demo_queue] by metis

definition demo_learned :: db where
  "demo_learned = insert_learning ((new_learning ''codex'' ''use nix flakes'' 1)
     \<lparr>l_hash := Some ''use nix flakes''\<rparr>) demo_queue"

lemma demo_dedup: "\<exists>d'. reject_candidate_dedup demo_env 1 demo_learned = Inr (d', True)"
proof -
  have "candidate_row demo_learned 1 = Some demo_row"
    using demo_row_lookup by (simp add: demo_learned_def candidate_row_def)
  moreover have "has_active_learning_hash demo_learned
      (content_hash demo_env ''use nix flakes'') ''codex''"
    by (simp add: has_active_learning_hash_def demo_learned_def live_copy_def new_learning_def
        content_hash_def demo_quality demo_env_def)
  moreover have "\<not> faults demo_env FaultTxn" "has_hash_column demo_learned" "has_actions_table demo_learned"
    by (simp_all add: demo_env_def demo_learned_def demo_queue_def insert_learning_def
        insert_candidate_def empty_db_def)
  ultimately show ?thesis by (simp add: reject_candidate_dedup_def Let_def)
qed

theorem dedup_keeps_a_live_copy_witness:
  "\<exists>d' c l. reject_candidate_dedup demo_env 1 demo_learned = Inr (d', True)
     \<and> l \<in> set (learnings d') \<and> live_copy (content_hash demo_env (c_content c)) (candidate_owner c) l"
  using demo_dedup dedup_keeps_a_live_copy [of demo_env 1 demo_learned] by metis

definition demo_dups :: decisions where
  "demo_dups = \<lparr>promote_ids = [], dedup_ids = [1], review_ids = [2], drafts = []\<rparr>"

lemma demo_apply:
  "\<exists>d' ap cs. apply_consolidation_result demo_env demo_dups demo_learned = (d', ap)
     \<and> ap_remaining ap = [] \<and> wf_db d' \<and> proposed_candidates d' 5 = Inr cs"
proof -
  let ?r = "apply_consolidation_result demo_env demo_dups demo_learned"
  let ?d1 = "insert_action (dedup_action demo_env 1) (fst (supersede_afm_review 1
      (update_candidate 1 (settle_row ''rejected'' (now demo_env) ''afm-consolidation''
         ''duplicate of existing learning'') demo_learned)))"
  let ?c2 = "(demo_candidate ''codex'' ''review'' ''deploy notes b'')\<lparr>c_id := 2\<rparr>"
  have f: "\<not> faults demo_env FaultTxn" "has_hash_column demo_learned" "has_actions_table demo_learned"
    by (simp_all add: demo_env_def demo_learned_def demo_queue_def insert_learning_def
        insert_candidate_def empty_db_def)
  have rej: "reject_candidate_dedup demo_env 1 demo_learned = Inr (?d1, True)"
    using demo_dedup
    by (metis dedup_cases sum.inject(2) prod.inject)
  have t: "has_actions_table ?d1"
    using f(3) by simp
  have c2: "candidate_row ?d1 2 = Some ?c2"
    by (simp add: candidate_row_def demo_learned_def demo_queue_def empty_db_def demo_candidate_def
        update_where_def settle_row_def)
  have nf: "\<not> fenced ?d1 2"
    by (simp add: fenced_def supersede_afm_review_def demo_learned_def demo_queue_def empty_db_def
        dedup_action_def active_review_def update_where_def Let_def)
  have fl: "\<not> flagged ?c2" by (simp add: flagged_def demo_candidate_def demo_texts)
  have rev: "mark_candidate_review demo_env 2 ''afm-consolidation review'' ?d1
      = Inr (insert_action (review_marker demo_env 2 ''afm-consolidation review'') ?d1, True)"
    using f t c2 nf fl by (simp add: mark_candidate_review_def Let_def demo_candidate_def)
  let ?d2 = "insert_action (review_marker demo_env 2 ''afm-consolidation review'') ?d1"
  have still: "\<not> still_proposed ?d2 1"
    by (simp add: still_proposed_def candidate_row_def demo_learned_def demo_queue_def empty_db_def
        demo_candidate_def update_where_def)
  have fen: "fenced ?d2 2"
    by (simp add: fenced_def review_marker_def active_review_def marker_active_def)
  have t2: "has_actions_table ?d2" using t by simp
  have rem: "remaining_proposed ?d2 demo_dups = Inr []"
    using still fen t2 by (simp add: remaining_proposed_def demo_dups_def)
  have st: "fst ?r = ?d2" "ap_remaining (snd ?r) = []"
    using rem by (simp_all add: apply_consolidation_result_def demo_dups_def rej rev)
  have "wf_db demo_learned" by (simp add: demo_learned_def insert_learning_wf demo_queue_wf)
  then have "wf_db ?d2" by (simp add: update_candidate_wf)
  moreover have "\<exists>cs. proposed_candidates ?d2 5 = Inr cs"
    using t2 by (simp add: proposed_candidates_def Let_def)
  ultimately show ?thesis using st by (metis prod.collapse)
qed

theorem apply_progress_witness:
  "\<exists>d' ap cs. apply_consolidation_result demo_env demo_dups demo_learned = (d', ap)
     \<and> proposed_candidates d' 5 = Inr cs \<and> {1, 2} \<inter> set (map c_id cs) = {}"
proof -
  obtain d' ap cs where a: "apply_consolidation_result demo_env demo_dups demo_learned = (d', ap)"
    "ap_remaining ap = []" "wf_db d'" "proposed_candidates d' 5 = Inr cs"
    using demo_apply by blast
  then show ?thesis using apply_progress [OF a] by (auto simp: demo_dups_def)
qed

end
