(* ===== verification/Gates.thy ===== *)
theory Gates
  imports Drain
begin

text \<open>
  The parts of \<^verbatim>\<open>src/minni/minnid_runtime/governance.py\<close> the write handlers share:
  the refusal of wire-supplied governance configuration, the operator grants, the floor of
  automatic acceptance, and the effects around an acceptance.
\<close>

text \<open>
  What a handler hands to the dispatcher: a result, a JSON-RPC error with its code and the
  tag its message starts with, or an exception that leaves the handler.
\<close>

datatype 'a reply = Ok 'a | Fail int string | Raise pyerr

definition AUTO_ACCEPT_PARAM_KEYS :: "string list" where
  "AUTO_ACCEPT_PARAM_KEYS = [''auto_accept_own'', ''learn.auto_accept_own'']"

definition MAX_LEARN_CHARS :: nat where
  "MAX_LEARN_CHARS = 64 * 1024"

definition MAX_LEARN_FIELD_CHARS :: nat where
  "MAX_LEARN_FIELD_CHARS = 4 * 1024"

definition MAX_SUPERSEDE_IDS :: nat where
  "MAX_SUPERSEDE_IDS = 64"

definition reject_wire_supplied_auto_accept :: "jobj \<Rightarrow> (int \<times> string) option" where
  "reject_wire_supplied_auto_accept params =
     (if list_ex (has_key params) AUTO_ACCEPT_PARAM_KEYS
      then Some (-32004, ''operator_only'') else None)"

text \<open>The position after the first \<^verbatim>\<open>[.!?]\s\<close> mark, if there is one.\<close>

fun sentence_end :: "nat \<Rightarrow> string \<Rightarrow> nat option" where
  "sentence_end n (a # b # cs) =
     (if a \<in> {CHR ''.'', CHR ''!'', CHR ''?''} \<and> py_space b then Some (n + 1)
      else sentence_end (n + 1) (b # cs))"
| "sentence_end n _ = None"

definition extract_assertion :: "string \<Rightarrow> string" where
  "extract_assertion content0 =
     (let content = py_strip content0 in
      if length content \<le> 120 then content
      else case sentence_end 0 content of
             Some n \<Rightarrow> py_strip (take n content)
           | None \<Rightarrow> py_strip (take 120 content))"

text \<open>Values the SQLite driver accepts as a bound parameter.\<close>

fun bindable :: "json \<Rightarrow> bool" where
  "bindable (JList _) = False"
| "bindable (JObj _) = False"
| "bindable (JInt n) = (- (2 ^ 63) \<le> n \<and> n < 2 ^ 63)"
| "bindable _ = True"

subsection \<open>Grants\<close>

definition ACCEPT_FLAGGED_CAPABILITY :: string where
  "ACCEPT_FLAGGED_CAPABILITY = ''accept_flagged''"

fun split_commas :: "string \<Rightarrow> string list" where
  "split_commas [] = [[]]"
| "split_commas (c # cs) =
     (if c = CHR '','' then [] # split_commas cs
      else case split_commas cs of w # ws \<Rightarrow> (c # w) # ws | [] \<Rightarrow> [[c]])"

definition operator_allowlist :: "env \<Rightarrow> string list" where
  "operator_allowlist e =
     filter (\<lambda>a. a \<noteq> []) (map py_strip
       (split_commas (case resolve_operators e of None \<Rightarrow> [] | Some s \<Rightarrow> s)))"

definition explicitly_allowed_operator :: "env \<Rightarrow> effective_principal \<Rightarrow> bool" where
  "explicitly_allowed_operator e p \<longleftrightarrow>
     JStr ''resolve_candidate'' \<in> set (p_capabilities p) \<or> JStr ''govern'' \<in> set (p_capabilities p)
     \<or> p_agent_id p = ''operator'' \<or> p_agent_id p \<in> set (operator_allowlist e)"

definition explicitly_allowed_accept_flagged :: "effective_principal \<Rightarrow> bool" where
  "explicitly_allowed_accept_flagged p \<longleftrightarrow> JStr ACCEPT_FLAGGED_CAPABILITY \<in> set (p_capabilities p)"

subsection \<open>Acceptance\<close>

definition auto_accept_blockers :: "string \<Rightarrow> bool \<Rightarrow> string \<Rightarrow> string list" where
  "auto_accept_blockers content instruction_like requested_privacy =
     (if instruction_like then [''instruction_like''] else [])
     @ (if length (py_strip content) < MIN_CONTENT_LEN then [''below minimum content length''] else [])
     @ (if py_lower (py_strip requested_privacy) \<notin> set SAFE_PRIVACY
        then [''privacy='' @ requested_privacy] else [])
     @ quality_blockers content"

definition ensure_content_hash_column :: "env \<Rightarrow> db \<Rightarrow> db \<times> bool" where
  "ensure_content_hash_column e d =
     (if faults e FaultHashColumn then (d, False) else (d\<lparr>has_hash_column := True\<rparr>, True))"

definition apply_accepted_candidate_effects :: "int \<Rightarrow> db \<Rightarrow> db" where
  "apply_accepted_candidate_effects cid d = fst (supersede_afm_review cid d)"

text \<open>Whether indexing succeeded; nothing after the commit can raise.\<close>

definition settle_accepted_candidate :: "env \<Rightarrow> string \<Rightarrow> string \<Rightarrow> int \<Rightarrow> bool" where
  "settle_accepted_candidate e agent content lid =
     (case index_result e agent content lid of
        None \<Rightarrow> False
      | Some None \<Rightarrow> True
      | Some (Some b) \<Rightarrow> b)"

lemma hash_column_frame [simp]:
  "learnings (fst (ensure_content_hash_column e d)) = learnings d"
  "candidates (fst (ensure_content_hash_column e d)) = candidates d"
  "events (fst (ensure_content_hash_column e d)) = events d"
  "wf_db (fst (ensure_content_hash_column e d)) \<longleftrightarrow> wf_db d"
  by (simp_all add: ensure_content_hash_column_def wf_db_def)

lemma effects_frame [simp]:
  "learnings (apply_accepted_candidate_effects cid d) = learnings d"
  "candidates (apply_accepted_candidate_effects cid d) = candidates d"
  "wf_db (apply_accepted_candidate_effects cid d) \<longleftrightarrow> wf_db d"
  by (simp_all add: apply_accepted_candidate_effects_def)

end
