(* ===== verification/Stage.thy ===== *)
theory Stage
  imports Gates
begin

text \<open>
  \<^verbatim>\<open>stage_candidate\<close> of \<^verbatim>\<open>src/minni/minnid_runtime/governance.py\<close>: a
  learn becomes a proposal; only where the operator's file opts the principal in is the same
  proposal accepted in the same transaction.  A handler takes the request, what
  \<^verbatim>\<open>handler_principal\<close> returned for it, and the store.
\<close>

type_synonym stamp = "(int \<times> string) + effective_principal"

record stage_reply =
  sr_status :: string
  sr_candidate :: int
  sr_principal :: string
  sr_workspace :: json
  sr_privacy :: string
  sr_learning :: "int option"
  sr_indexed :: bool
  sr_withheld :: "string list"

definition declared_or_frontmatter :: "env \<Rightarrow> jobj \<Rightarrow> string \<Rightarrow> json" where
  "declared_or_frontmatter e params content =
     (if has_key params ''privacy_level'' then jget params ''privacy_level''
      else JStr (fm_privacy (extract_frontmatter (yaml e) content)))"

definition requested_privacy :: "env \<Rightarrow> jobj \<Rightarrow> string \<Rightarrow> string" where
  "requested_privacy e params content =
     (case declared_or_frontmatter e params content of
        JNull \<Rightarrow> ''safe''
      | JStr s \<Rightarrow> if py_strip s = [] then ''safe'' else py_strip s
      | v \<Rightarrow> py_strip (py_str v))"

definition stored_privacy :: "env \<Rightarrow> effective_principal \<Rightarrow> jobj \<Rightarrow> string \<Rightarrow> string" where
  "stored_privacy e p params content =
     (if explicitly_allowed_operator e p then requested_privacy e params content else ''review'')"

definition staged_instruction_like :: "jobj \<Rightarrow> string \<Rightarrow> bool" where
  "staged_instruction_like params content \<longleftrightarrow>
     truthy (jget params ''instruction_like'') \<or> is_instruction_like content"

definition staged_row :: "env \<Rightarrow> effective_principal \<Rightarrow> jobj \<Rightarrow> string \<Rightarrow> candidate" where
  "staged_row e p params content =
     \<lparr>c_id = 0, c_principal = p_agent_id p,
      c_workspace = py_or (jget params ''workspace_id'') (JStr ''default''),
      c_layer = jget params ''layer'',
      c_privacy = Some (stored_privacy e p params content), c_content = content,
      c_evidence_refs = py_or (first_of_keys params [''evidence_refs'', ''evidence_doc_ids'']) (JList []),
      c_derived_from = py_or (jget params ''derived_from'') (JObj []),
      c_instruction_like = staged_instruction_like params content,
      c_status = ''proposed'', c_proposed_at = now e,
      c_resolved_at = None, c_resolved_by = None, c_reason = None\<rparr>"

text \<open>
  The content hash and the embedding of a durable write, prepared before the transaction; on
  any failure the candidate is only proposed.
\<close>

definition prepare_durable :: "env \<Rightarrow> string \<Rightarrow> db \<Rightarrow> db \<times> (string \<times> real list) option" where
  "prepare_durable e content d =
     (let (d1, ok) = ensure_content_hash_column e d in
      (d1, if \<not> ok then None
           else map_option (\<lambda>v. (content_hash e content, v)) (embed e content)))"

definition resolved_by_auto :: "effective_principal \<Rightarrow> string" where
  "resolved_by_auto p = ''auto_accept_own('' @ p_agent_id p @ '')''"

definition AUTO_REASON :: string where
  "AUTO_REASON = ''auto_accept_own: operator-enabled auto-acceptance of the principal's own candidate (#290)''"

datatype stage_outcome =
    Proposed db
  | Duplicate db
  | Accepted db int
  | CanonicalFailed

definition auto_learning :: "env \<Rightarrow> candidate \<Rightarrow> string \<Rightarrow> real list \<Rightarrow> learning" where
  "auto_learning e row h v =
     (new_learning (c_principal row) (c_content row) (now e))
       \<lparr>l_embedding := Some v, l_hash := Some h\<rparr>"

definition stage_txn ::
  "env \<Rightarrow> effective_principal \<Rightarrow> candidate \<Rightarrow> (string \<times> real list) option \<Rightarrow> db \<Rightarrow> stage_outcome" where
  "stage_txn e p row durable d =
     (let cid = next_candidate d; d1 = insert_candidate row d in
      case durable of
        None \<Rightarrow> Proposed d1
      | Some (h, v) \<Rightarrow>
          if has_active_learning_hash d1 h (p_agent_id p) then Duplicate d1
          else
            let lid = next_learning d1 in
            case ensure_canonical_learning_node e lid (p_agent_id p) (c_content row) (now e)
                   (insert_learning (auto_learning e row h v) d1) of
              Inl _ \<Rightarrow> CanonicalFailed
            | Inr (d2, _) \<Rightarrow>
                Accepted (apply_accepted_candidate_effects cid
                  (update_candidate cid
                     (settle_row ''accepted'' (now e) (resolved_by_auto p) AUTO_REASON) d2)) lid)"

definition stage_result ::
  "env \<Rightarrow> effective_principal \<Rightarrow> candidate \<Rightarrow> int \<Rightarrow> int option \<Rightarrow> string list \<Rightarrow> stage_reply" where
  "stage_result e p row cid lid withheld =
     \<lparr>sr_status = (if lid = None then ''proposed'' else ''accepted''),
      sr_candidate = cid, sr_principal = p_agent_id p, sr_workspace = c_workspace row,
      sr_privacy = (case c_privacy row of None \<Rightarrow> [] | Some s \<Rightarrow> s),
      sr_learning = lid,
      sr_indexed = (case lid of None \<Rightarrow> True
                    | Some l \<Rightarrow> settle_accepted_candidate e (p_agent_id p) (c_content row) l),
      sr_withheld = (if lid = None \<and> p_auto_accept_own p then withheld else [])\<rparr>"

definition stage_content ::
  "env \<Rightarrow> effective_principal \<Rightarrow> jobj \<Rightarrow> string \<Rightarrow> db \<Rightarrow> stage_reply reply \<times> db" where
  "stage_content e p params stored d =
     (let row = staged_row e p params stored;
          withheld = auto_accept_blockers stored (c_instruction_like row)
                       (requested_privacy e params stored);
          auto = (p_auto_accept_own p \<and> withheld = []);
          (d1, durable) = (if auto then prepare_durable e stored d else (d, None));
          withheld1 = (if auto \<and> durable = None then withheld @ [''durable-write preparation failed'']
                       else withheld);
          cid = next_candidate d1
      in if faults e FaultTxn \<or> \<not> bindable (c_workspace row) \<or> \<not> bindable (c_layer row)
         then (Fail (-32000) ''stage_candidate error'', d1)
         else case stage_txn e p row durable d1 of
                Proposed d2 \<Rightarrow> (Ok (stage_result e p row cid None withheld1), d2)
              | Duplicate d2 \<Rightarrow>
                  (Ok (stage_result e p row cid None [''duplicate of an existing learning'']), d2)
              | Accepted d2 lid \<Rightarrow> (Ok (stage_result e p row cid (Some lid) withheld1), d2)
              | CanonicalFailed \<Rightarrow>
                  (Ok (stage_result e p row cid None (withheld1 @ [''canonical commit failed''])),
                   insert_candidate row d1))"

definition stage_candidate ::
  "env \<Rightarrow> jobj \<Rightarrow> stamp \<Rightarrow> db \<Rightarrow> stage_reply reply \<times> db" where
  "stage_candidate e params who d =
     (case reject_wire_supplied_auto_accept params of
        Some (code, tag) \<Rightarrow> (Fail code tag, d)
      | None \<Rightarrow>
          case who of
            Inl (code, tag) \<Rightarrow> (Fail code tag, d)
          | Inr p \<Rightarrow>
              case py_or (first_of_keys params [''content'', ''text'']) (JStr []) of
                JStr s \<Rightarrow>
                  if py_strip s = [] then (Fail (-32602) ''content is required'', d)
                  else stage_content e p params (take 200000 (py_strip s)) d
              | _ \<Rightarrow> (Raise (RuntimeError ''AttributeError''), d))"

subsection \<open>Effects of staging\<close>

lemma auto_learning_simps [simp]:
  "l_agent (auto_learning e row h v) = c_principal row" "l_content (auto_learning e row h v) = c_content row"
  "l_status (auto_learning e row h v) = Some ''active''" "l_superseded_by (auto_learning e row h v) = None"
  "l_hash (auto_learning e row h v) = Some h" "l_embedding (auto_learning e row h v) = Some v"
  by (simp_all add: auto_learning_def new_learning_def)

lemma staged_row_simps [simp]:
  "c_status (staged_row e p params t) = ''proposed''" "c_content (staged_row e p params t) = t"
  "c_principal (staged_row e p params t) = p_agent_id p"
  "c_privacy (staged_row e p params t) = Some (stored_privacy e p params t)"
  "c_instruction_like (staged_row e p params t) = staged_instruction_like params t"
  by (simp_all add: staged_row_def)

lemma insert_candidate_row:
  assumes "wf_db d"
  shows "candidate_row (insert_candidate c d) (next_candidate d) = Some (c\<lparr>c_id := next_candidate d\<rparr>)"
proof -
  have "find (\<lambda>x. c_id x = next_candidate d) (candidates d) = None"
    using assms by (auto simp: wf_db_def ids_fresh_def find_None_iff)
  moreover have "find P (xs @ ys) = find P ys" if "find P xs = None" for P :: "candidate \<Rightarrow> bool" and xs ys
    using that by (induction xs) (auto split: if_split_asm)
  ultimately show ?thesis by (simp add: candidate_row_def)
qed

lemma stage_txn_cases [consumes 1, case_names proposed duplicate accepted failed]:
  assumes "stage_txn e p row durable d = out"
  obtains "out = Proposed (insert_candidate row d)" and "durable = None"
  | h v where "durable = Some (h, v)" and "out = Duplicate (insert_candidate row d)"
  | h v d2 r where "durable = Some (h, v)"
      and "\<not> has_active_learning_hash (insert_candidate row d) h (p_agent_id p)"
      and "ensure_canonical_learning_node e (next_learning d) (p_agent_id p) (c_content row) (now e)
             (insert_learning (auto_learning e row h v) (insert_candidate row d)) = Inr (d2, r)"
      and "out = Accepted (apply_accepted_candidate_effects (next_candidate d)
             (update_candidate (next_candidate d)
                (settle_row ''accepted'' (now e) (resolved_by_auto p) AUTO_REASON) d2)) (next_learning d)"
  | h v where "durable = Some (h, v)" and "out = CanonicalFailed"
proof (cases durable)
  case None
  then show ?thesis using assms that(1) by (simp add: stage_txn_def Let_def)
next
  case (Some q)
  obtain h v where q: "q = (h, v)" by fastforce
  note u = assms [unfolded stage_txn_def Let_def Some q option.case prod.case]
  show ?thesis
  proof (cases "has_active_learning_hash (insert_candidate row d) h (p_agent_id p)")
    case True
    with u Some q show ?thesis by (intro that(2) [of h v]) simp_all
  next
    case False
    show ?thesis
    proof (cases "ensure_canonical_learning_node e (next_learning d) (p_agent_id p) (c_content row)
        (now e) (insert_learning (auto_learning e row h v) (insert_candidate row d))")
      case (Inl x)
      with u Some q False show ?thesis by (intro that(4) [of h v]) simp_all
    next
      case (Inr w)
      with u Some q False show ?thesis
        by (intro that(3) [of h v "fst w" "snd w"]) (auto simp: split_beta)
    qed
  qed
qed

definition auto_accepted :: "env \<Rightarrow> effective_principal \<Rightarrow> candidate \<Rightarrow> int \<Rightarrow> db \<Rightarrow> db \<Rightarrow> bool" where
  "auto_accepted e p row lid d d' \<longleftrightarrow>
     (\<exists>l. learnings d' = learnings d @ [l] \<and> l_id l = lid \<and> l_agent l = p_agent_id p
        \<and> l_content l = c_content row \<and> learning_active l \<and> l_embedding l \<noteq> None
        \<and> l_hash l = Some (content_hash e (c_content row))
        \<and> \<not> has_active_learning_hash d (content_hash e (c_content row)) (p_agent_id p))
     \<and> candidates d' = candidates (update_candidate (next_candidate d)
           (settle_row ''accepted'' (now e) (resolved_by_auto p) AUTO_REASON) (insert_candidate row d))"

lemma stage_txn_accepted:
  assumes "stage_txn e p row (Some (content_hash e (c_content row), v)) d = Accepted d' lid"
    and "c_principal row = p_agent_id p"
  shows "auto_accepted e p row lid d d' \<and> (wf_db d \<longrightarrow> wf_db d')"
  using assms(1)
proof (cases rule: stage_txn_cases)
  case (accepted h w d2 r)
  have h: "h = content_hash e (c_content row)" "w = v" using accepted(1) by simp_all
  note node = ensure_node_frame(1,2) [OF accepted(3)]
  have "auto_accepted e p row lid d d'"
    using accepted(2,4) node assms(2) h
    by (auto simp: auto_accepted_def learning_active_def has_active_learning_hash_def)
  moreover have "wf_db d2" if "wf_db d"
    using that ensure_node_wf [OF insert_learning_wf [OF insert_candidate_wf] accepted(3)] by blast
  ultimately show ?thesis using accepted(4) by (simp add: update_candidate_wf)
qed simp_all

lemma prepare_durable_simps:
  assumes "prepare_durable e t d = (d1, q)"
  shows "learnings d1 = learnings d" "candidates d1 = candidates d" "wf_db d1 = wf_db d"
    "next_candidate d1 = next_candidate d" "next_learning d1 = next_learning d"
    "q = Some (h, v) \<Longrightarrow> h = content_hash e t"
  using assms
  by (auto simp: prepare_durable_def ensure_content_hash_column_def wf_db_def split: if_split_asm)

lemma auto_accepted_prepared:
  assumes "prepare_durable e t d = (d1, q)" and "auto_accepted e p row lid d1 d'"
  shows "auto_accepted e p row lid d d'"
  using assms(2) prepare_durable_simps [OF assms(1)]
  by (simp add: auto_accepted_def has_active_learning_hash_def)

lemma stage_content_cases [consumes 1, case_names failed proposed accepted]:
  assumes "stage_content e p params t d = (rep, d')"
  obtains "rep = Fail (-32000) ''stage_candidate error''" and "learnings d' = learnings d"
      and "candidates d' = candidates d" and "wf_db d \<Longrightarrow> wf_db d'"
  | w where "rep = Ok (stage_result e p (staged_row e p params t) (next_candidate d) None w)"
      and "learnings d' = learnings d"
      and "candidates d' = candidates (insert_candidate (staged_row e p params t) d)"
      and "wf_db d \<Longrightarrow> wf_db d'"
  | lid where "p_auto_accept_own p"
      and "auto_accept_blockers t (staged_instruction_like params t) (requested_privacy e params t) = []"
      and "rep = Ok (stage_result e p (staged_row e p params t) (next_candidate d) (Some lid) [])"
      and "auto_accepted e p (staged_row e p params t) lid d d'" and "wf_db d \<Longrightarrow> wf_db d'"
proof -
  let ?row = "staged_row e p params t"
  let ?w = "auto_accept_blockers t (c_instruction_like ?row) (requested_privacy e params t)"
  let ?auto = "p_auto_accept_own p \<and> ?w = []"
  obtain d1 q where pq: "(if ?auto then prepare_durable e t d else (d, None)) = (d1, q)" by fastforce
  have same: "learnings d1 = learnings d" "candidates d1 = candidates d" "wf_db d1 = wf_db d"
    "next_candidate d1 = next_candidate d"
    using pq prepare_durable_simps [of e t d d1 q] by (auto split: if_split_asm)
  have wf: "wf_db d \<Longrightarrow> wf_db (insert_candidate ?row d1)"
    using same(3) by (simp add: insert_candidate_wf)
  note u = assms [unfolded stage_content_def Let_def pq prod.case]
  show ?thesis
  proof (cases "faults e FaultTxn \<or> \<not> bindable (c_workspace ?row) \<or> \<not> bindable (c_layer ?row)")
    case True
    with u same show ?thesis by (intro that(1)) simp_all
  next
    case False
    obtain out where out: "stage_txn e p ?row q d1 = out" by simp
    from out show ?thesis
    proof (cases rule: stage_txn_cases)
      case proposed
      with u False out same wf show ?thesis by (intro that(2)) auto
    next
      case (duplicate h v)
      with u False out same wf show ?thesis by (intro that(2)) auto
    next
      case (accepted h v d2 r)
      have auto: ?auto "prepare_durable e t d = (d1, q)"
        using pq accepted(1) by (auto split: if_split_asm)
      have "h = content_hash e (c_content ?row)"
        using prepare_durable_simps(6) [OF auto(2)] accepted(1) by simp
      then have acc: "auto_accepted e p ?row (next_learning d1) d1 d'" "wf_db d1 \<longrightarrow> wf_db d'"
        using stage_txn_accepted [of e p ?row v d1 d' "next_learning d1"] u False out accepted(1,4)
        by simp_all
      show ?thesis
      proof (rule that(3))
        show "rep = Ok (stage_result e p ?row (next_candidate d) (Some (next_learning d1)) [])"
          using u False out accepted(1,4) same auto(1) by simp
      qed (use auto acc same auto_accepted_prepared [OF auto(2)] in auto)
    next
      case (failed h v)
      with u False out same wf show ?thesis by (intro that(2)) auto
    qed
  qed
qed

lemma stage_candidate_cases [consumes 1, case_names refused staged]:
  assumes "stage_candidate e params who d = (rep, d')"
  obtains "d' = d" and "\<forall>r. rep \<noteq> Ok r"
  | p t where "who = Inr p" and "t \<noteq> []" and "\<forall>k \<in> set AUTO_ACCEPT_PARAM_KEYS. \<not> has_key params k"
      and "stage_content e p params t d = (rep, d')"
proof (cases "reject_wire_supplied_auto_accept params")
  case (Some x)
  then show ?thesis using assms that(1) by (auto simp: stage_candidate_def split: prod.split_asm)
next
  case None
  then have keys: "\<forall>k \<in> set AUTO_ACCEPT_PARAM_KEYS. \<not> has_key params k"
    by (simp add: reject_wire_supplied_auto_accept_def list_ex_iff split: if_split_asm)
  show ?thesis
  proof (cases who)
    case (Inl x)
    then show ?thesis using assms None that(1) by (auto simp: stage_candidate_def split: prod.split_asm)
  next
    case (Inr p)
    show ?thesis
    proof (cases "\<exists>s. py_or (first_of_keys params [''content'', ''text'']) (JStr []) = JStr s \<and> py_strip s \<noteq> []")
      case False
      then show ?thesis using assms None Inr that(1)
        by (auto simp: stage_candidate_def split: json.split_asm if_split_asm)
    next
      case True
      then obtain s where s: "py_or (first_of_keys params [''content'', ''text'']) (JStr []) = JStr s"
        "py_strip s \<noteq> []" by blast
      show ?thesis using assms None Inr s keys
        by (intro that(2) [of p "take 200000 (py_strip s)"]) (simp_all add: stage_candidate_def)
    qed
  qed
qed

definition stage_op :: "env \<Rightarrow> jobj \<times> stamp \<Rightarrow> db \<Rightarrow> db" where
  "stage_op e = (\<lambda>(params, who) d. snd (stage_candidate e params who d))"

lemma auto_accepted_contract:
  assumes "wf_db d" and "auto_accepted e p row lid d d'" and "c_status row = ''proposed''"
  shows "frozen_rows d d' \<and> balance d' = balance d"
proof -
  let ?d1 = "insert_candidate row d"
  have wf: "wf_db ?d1" by (rule insert_candidate_wf [OF assms(1)])
  have cs: "candidates d' = candidates (update_candidate (next_candidate d)
      (settle_row ''accepted'' (now e) (resolved_by_auto p) AUTO_REASON) ?d1)"
    using assms(2) by (simp only: auto_accepted_def)
  note con = settle_contract [OF wf insert_candidate_row [OF assms(1)] _ cs]
  have f: "frozen_rows ?d1 d'" and n: "accepted_count d' = accepted_count ?d1 + 1"
    using con assms(3) by simp_all
  have "accepted_count ?d1 = accepted_count d"
    using assms(3) by (simp add: accepted_count_def row_count_simps)
  moreover have "length (learnings d') = length (learnings d) + 1"
    using assms(2) by (auto simp: auto_accepted_def)
  ultimately show ?thesis
    using frozen_rows_trans [OF insert_candidate_frozen [OF assms(1)] f] n by (simp add: balance_def)
qed

lemma stage_contract:
  assumes "wf_db d"
  shows "wf_db (stage_op e a d) \<and> frozen_rows d (stage_op e a d) \<and> balance (stage_op e a d) = balance d"
proof -
  obtain params who rep d' where a: "a = (params, who)" "stage_candidate e params who d = (rep, d')"
    by (metis prod.exhaust)
  from a(2) have "wf_db d' \<and> frozen_rows d d' \<and> balance d' = balance d"
  proof (cases rule: stage_candidate_cases)
    case refused
    then show ?thesis using assms by simp
  next
    case (staged p t)
    from staged(4) show ?thesis
    proof (cases rule: stage_content_cases)
      case failed
      then show ?thesis using assms frozen_rows_same [of d' d] candidates_determine [of d' d]
        by (simp add: balance_def)
    next
      case (proposed w)
      have "frozen_rows d d'"
        by (rule frozen_rows_cong [OF insert_candidate_frozen [OF assms] proposed(3)])
      moreover have "accepted_count d' = accepted_count d"
        using candidates_determine [OF proposed(3)] by (simp add: accepted_count_def row_count_simps)
      ultimately show ?thesis using proposed(2,4) assms by (simp add: balance_def)
    next
      case (accepted lid)
      then show ?thesis using auto_accepted_contract [OF assms accepted(4)] assms by simp
    qed
  qed
  then show ?thesis using a by (simp add: stage_op_def)
qed

interpretation stage_queue: balanced_op "stage_op e"
  by unfold_locales (simp_all add: stage_contract)

subsection \<open>Properties of staging\<close>

lemma stage_result_simps [simp]:
  "sr_candidate (stage_result e p row cid lid w) = cid" "sr_learning (stage_result e p row cid lid w) = lid"
  "sr_status (stage_result e p row cid lid w) = (if lid = None then ''proposed'' else ''accepted'')"
  by (simp_all add: stage_result_def)

text \<open>
  C3. minni_stage_candidate without the operator's auto-accept grant never writes a learning;
  it adds at most one proposed row owned by the caller, of privacy 'review' unless the caller
  is an allowed operator, flagged when the content is instruction-like.
\<close>

theorem stage_without_grant_only_proposes:
  assumes "stage_candidate e params (Inr p) d = (rep, d')" and "\<not> p_auto_accept_own p"
  shows "learnings d' = learnings d
    \<and> (candidates d' = candidates d
       \<or> (\<exists>c. candidates d' = candidates d @ [c] \<and> c_status c = ''proposed'' \<and> c_principal c = p_agent_id p
             \<and> (\<not> explicitly_allowed_operator e p \<longrightarrow> c_privacy c = Some ''review'')
             \<and> (is_instruction_like (c_content c) \<longrightarrow> c_instruction_like c)))"
  using assms(1)
proof (cases rule: stage_candidate_cases)
  case refused
  then show ?thesis by simp
next
  case (staged q t)
  then have q: "q = p" by simp
  from staged(4) show ?thesis
  proof (cases rule: stage_content_cases)
    case failed
    then show ?thesis by simp
  next
    case (proposed w)
    then show ?thesis using q
      by (auto simp: stored_privacy_def staged_instruction_like_def)
  next
    case (accepted lid)
    then show ?thesis using assms(2) q by simp
  qed
qed

lemma auto_accepted_row:
  assumes "wf_db d" and "auto_accepted e p row lid d d'"
  shows "candidate_row d' (next_candidate d) = Some (settle_row ''accepted'' (now e) (resolved_by_auto p)
     AUTO_REASON (row\<lparr>c_id := next_candidate d\<rparr>))"
proof -
  have "candidates d' = candidates (update_candidate (next_candidate d)
      (settle_row ''accepted'' (now e) (resolved_by_auto p) AUTO_REASON) (insert_candidate row d))"
    using assms(2) by (simp only: auto_accepted_def)
  then have "candidate_row d' (next_candidate d) = candidate_row (update_candidate (next_candidate d)
      (settle_row ''accepted'' (now e) (resolved_by_auto p) AUTO_REASON) (insert_candidate row d))
      (next_candidate d)"
    unfolding candidate_row_def by simp
  then show ?thesis
    using insert_candidate_row [OF assms(1), of row] by (simp add: candidate_row_update)
qed

theorem stage_all_or_nothing:
  assumes "stage_candidate e params who d = (rep, d')" and "wf_db d"
  shows "case rep of
      Ok r \<Rightarrow> (\<exists>c. candidate_row d' (sr_candidate r) = Some c \<and> c_status c = sr_status r)
        \<and> candidate_row d (sr_candidate r) = None
        \<and> length (candidates d') = length (candidates d) + 1
        \<and> (sr_status r = ''accepted'' \<longleftrightarrow> sr_learning r \<noteq> None)
        \<and> length (learnings d') = length (learnings d) + (if sr_learning r = None then 0 else 1)
    | _ \<Rightarrow> learnings d' = learnings d \<and> candidates d' = candidates d"
proof -
  have fresh: "candidate_row d (next_candidate d) = None"
    using assms(2) by (auto simp: wf_db_def ids_fresh_def candidate_row_def find_None_iff)
  from assms(1) show ?thesis
  proof (cases rule: stage_candidate_cases)
    case refused
    then show ?thesis by (cases rep) auto
  next
    case (staged p t)
    from staged(4) show ?thesis
    proof (cases rule: stage_content_cases)
      case failed
      then show ?thesis by simp
    next
      case (proposed w)
      have "candidate_row d' (next_candidate d)
          = candidate_row (insert_candidate (staged_row e p params t) d) (next_candidate d)"
        using proposed(3) unfolding candidate_row_def by simp
      then show ?thesis using proposed fresh
          insert_candidate_row [OF assms(2), of "staged_row e p params t"] by simp
    next
      case (accepted lid)
      have "length (candidates d') = length (candidates d) + 1"
        "length (learnings d') = length (learnings d) + 1"
        using accepted(4) by (auto simp: auto_accepted_def)
      then show ?thesis using accepted fresh auto_accepted_row [OF assms(2) accepted(4)] by simp
    qed
  qed
qed

lemma auto_accept_blockers_none:
  assumes "auto_accept_blockers t instr privacy = []"
  shows "\<not> instr" "MIN_CONTENT_LEN \<le> length (py_strip t)" "py_lower (py_strip privacy) \<in> set SAFE_PRIVACY"
    "quality_blockers t = []"
  using assms by (auto simp: auto_accept_blockers_def split: if_split_asm)

theorem stage_auto_accept_floor:
  assumes "stage_candidate e params who d = (Ok r, d')" and "sr_learning r = Some lid"
  shows "\<exists>p l. who = Inr p \<and> p_auto_accept_own p \<and> learnings d' = learnings d @ [l]
    \<and> l_id l = lid \<and> l_agent l = p_agent_id p \<and> l_embedding l \<noteq> None
    \<and> \<not> is_instruction_like (l_content l) \<and> \<not> truthy (jget params ''instruction_like'')
    \<and> MIN_CONTENT_LEN \<le> length (py_strip (l_content l)) \<and> quality_blockers (l_content l) = []
    \<and> py_lower (py_strip (requested_privacy e params (l_content l))) \<in> set SAFE_PRIVACY
    \<and> \<not> has_active_learning_hash d (content_hash e (l_content l)) (p_agent_id p)"
  using assms(1)
proof (cases rule: stage_candidate_cases)
  case (staged p t)
  from staged(4) show ?thesis
  proof (cases rule: stage_content_cases)
    case (accepted lid')
    note b = auto_accept_blockers_none [OF accepted(2)]
    have "lid' = lid" using accepted(3) assms(2) by auto
    then show ?thesis using accepted(1,4) b staged(1)
      by (auto simp: auto_accepted_def staged_instruction_like_def)
  qed (use assms(2) in auto)
qed simp_all

subsection \<open>Concrete requests\<close>

definition demo_params :: jobj where
  "demo_params = [(''content'', JStr ''use nix flakes'')]"

definition demo_grantee :: effective_principal where
  "demo_grantee = (demo_agent ''codex'' [] [])\<lparr>p_auto_accept_own := True\<rparr>"

theorem stage_without_grant_only_proposes_witness:
  "\<exists>rep d'. stage_candidate demo_env demo_params (Inr (demo_agent ''codex'' [] [])) empty_db = (rep, d')
     \<and> learnings d' = []"
proof -
  obtain rep d' where s:
    "stage_candidate demo_env demo_params (Inr (demo_agent ''codex'' [] [])) empty_db = (rep, d')"
    by fastforce
  then show ?thesis
    using stage_without_grant_only_proposes [OF s] by (simp add: demo_agent_def empty_db_def)
qed

lemma demo_stage_content:
  "stage_candidate demo_env demo_params (Inr p) d = stage_content demo_env p demo_params ''use nix flakes'' d"
  by (simp add: stage_candidate_def reject_wire_supplied_auto_accept_def AUTO_ACCEPT_PARAM_KEYS_def
      demo_params_def py_simps)

lemma demo_privacy: "requested_privacy demo_env demo_params ''use nix flakes'' = ''safe''"
  by code_simp

lemma demo_blockers:
  "auto_accept_blockers ''use nix flakes'' (staged_instruction_like demo_params ''use nix flakes'')
     (requested_privacy demo_env demo_params ''use nix flakes'') = []"
proof -
  have "py_lower (py_strip ''safe'') \<in> set SAFE_PRIVACY" "length (py_strip ''use nix flakes'') = 14"
    by code_simp+
  then show ?thesis
    unfolding auto_accept_blockers_def demo_privacy
    by (simp add: demo_quality staged_instruction_like_def demo_texts demo_params_def
        MIN_CONTENT_LEN_def jget_or_def)
qed

lemma demo_stage_accepts:
  "\<exists>r d' lid. stage_candidate demo_env demo_params (Inr demo_grantee) empty_db = (Ok r, d')
     \<and> sr_learning r = Some lid"
proof -
  let ?row = "staged_row demo_env demo_grantee demo_params ''use nix flakes''"
  have f: "\<not> faults demo_env FaultTxn" "\<not> faults demo_env FaultCanonical"
    "\<not> faults demo_env FaultHashColumn" "bindable (c_workspace ?row)" "bindable (c_layer ?row)"
    "p_auto_accept_own demo_grantee" "p_agent_id demo_grantee = ''codex''"
    by (simp_all add: demo_env_def staged_row_def demo_params_def py_or_def jget_or_def demo_grantee_def
        demo_agent_def)
  let ?d = "empty_db\<lparr>has_hash_column := True\<rparr>" and ?h = "content_hash demo_env ''use nix flakes''"
  have prep: "prepare_durable demo_env ''use nix flakes'' empty_db = (?d, Some (?h, [1]))"
    using f(3) by (simp add: prepare_durable_def ensure_content_hash_column_def embed_def demo_env_def)
  from ensure_node_total [OF f(2)] obtain d2 x where node:
    "ensure_canonical_learning_node demo_env (next_learning ?d) ''codex'' (c_content ?row) (now demo_env)
       (insert_learning (auto_learning demo_env ?row ?h [1]) (insert_candidate ?row ?d)) = Inr (d2, x)"
    by blast
  have "\<exists>d' lid. stage_txn demo_env demo_grantee ?row (Some (?h, [1])) ?d = Accepted d' lid"
    using node f(7) by (simp add: stage_txn_def Let_def has_active_learning_hash_def empty_db_def)
  then obtain d' lid where "stage_txn demo_env demo_grantee ?row (Some (?h, [1])) ?d = Accepted d' lid"
    by blast
  then show ?thesis
    using f prep demo_blockers
    by (simp add: demo_stage_content stage_content_def Let_def)
qed

theorem stage_auto_accept_floor_witness:
  "\<exists>r d' l. stage_candidate demo_env demo_params (Inr demo_grantee) empty_db = (Ok r, d')
     \<and> learnings d' = [l] \<and> l_agent l = ''codex'' \<and> \<not> is_instruction_like (l_content l)"
proof -
  obtain r d' lid where s: "stage_candidate demo_env demo_params (Inr demo_grantee) empty_db = (Ok r, d')"
    "sr_learning r = Some lid"
    using demo_stage_accepts by blast
  show ?thesis
    using stage_auto_accept_floor [OF s] s(1)
    by (auto simp: demo_grantee_def demo_agent_def empty_db_def)
qed

theorem stage_all_or_nothing_witness:
  "\<exists>r d'. stage_candidate demo_env demo_params (Inr demo_grantee) empty_db = (Ok r, d')
     \<and> length (candidates d') = 1"
proof -
  obtain r d' lid where s: "stage_candidate demo_env demo_params (Inr demo_grantee) empty_db = (Ok r, d')"
    "sr_learning r = Some lid"
    using demo_stage_accepts by blast
  show ?thesis using stage_all_or_nothing [OF s(1) empty_db_wf] s(1) by (auto simp: empty_db_def)
qed

end
