(* ===== verification/Handoff.thy ===== *)
theory Handoff
  imports Redaction Stage "HOL-Library.AList" "HOL-Library.List_Lexorder" "HOL-Library.Char_ord"
begin

text \<open>
  \<^verbatim>\<open>src/minni/minnid_runtime/handoff.py\<close>: agent-to-agent handoffs over two channels, the
  lease table of the store and the JSON packets in the \<^verbatim>\<open>inbox\<close> and \<^verbatim>\<open>outbox\<close> directories
  of the agents' vaults.  A packet file is kept as the JSON value it holds (\<open>None\<close>: unreadable
  or not JSON); what is written is what is read back.
\<close>

subsection \<open>State and environment\<close>

record lease =
  ls_lease :: string
  ls_from :: string
  ls_to :: string
  ls_task :: json
  ls_status :: string
  ls_contradicts :: json
  ls_inbox :: string
  ls_outbox :: string
  ls_created :: real
  ls_expires :: "real option"

type_synonym hdir = "(string \<times> json option) list"

record hvault =
  hv_inbox :: hdir
  hv_outbox :: hdir
  hv_archive :: hdir                       \<comment> \<open>\<^verbatim>\<open>inbox/.archive\<close>\<close>
  hv_pages :: "(string \<times> string) list"    \<comment> \<open>\<^verbatim>\<open>wiki/handoffs\<close>\<close>
  hv_log :: "string option"                \<comment> \<open>\<^verbatim>\<open>log.md\<close>\<close>
  hv_daily :: "(string \<times> string) list"    \<comment> \<open>\<^verbatim>\<open>logs/<day>.md\<close>\<close>

record hworld =
  leases :: "lease list"
  vaults :: "(string \<times> hvault) list"

datatype store_call = StoreLease | UpdateLease | PendingQuery | KnownQuery | StatusQuery | RecipientQuery

record henv =
  hhost :: host
  loads :: "string \<Rightarrow> json option"           \<comment> \<open>\<^verbatim>\<open>json.loads\<close> of \<^verbatim>\<open>MINNI_AGENT_VAULTS\<close>\<close>
  canonical_home :: string
  hnow :: real
  now_iso :: string                         \<comment> \<open>\<^verbatim>\<open>%Y-%m-%dT%H:%M:%SZ\<close>\<close>
  stamp_text :: string                      \<comment> \<open>\<^verbatim>\<open>%Y%m%dT%H%M%SZ\<close>\<close>
  uuid_text :: string
  uuid_hex :: string
  iso_ts :: "string \<Rightarrow> real option"          \<comment> \<open>\<^verbatim>\<open>datetime.fromisoformat\<close> as a UTC epoch\<close>
  iso_text :: "real \<Rightarrow> string"
  hsha1 :: "string \<Rightarrow> string"
  ellipsis :: char                          \<comment> \<open>U+2026, outside the character range of the model\<close>
  store_faults :: "store_call \<Rightarrow> bool"
  path_faults :: "string \<Rightarrow> bool"            \<comment> \<open>creating or writing this path raises\<close>

definition HANDOFF_KINDS :: "string list" where
  "HANDOFF_KINDS = [''handoff'', ''candidate_learning'', ''request'', ''answer'']"

definition HANDOFF_ACK_STATUSES :: "string list" where
  "HANDOFF_ACK_STATUSES = [''accepted'', ''rejected_stale'', ''rejected_contradicts'', ''rejected_scope'']"

subsection \<open>Names\<close>

text \<open>Runs of characters outside a class become one separator, as \<^verbatim>\<open>re.sub("[^...]+", sep, s)\<close>.\<close>

fun squeeze :: "(char \<Rightarrow> bool) \<Rightarrow> string \<Rightarrow> bool \<Rightarrow> string \<Rightarrow> string" where
  "squeeze P sep inside [] = []"
| "squeeze P sep inside (c # cs) =
     (if P c then c # squeeze P sep False cs
      else if inside then squeeze P sep True cs else sep @ squeeze P sep True cs)"

definition strip_char :: "char \<Rightarrow> string \<Rightarrow> string" where
  "strip_char x s = rev (dropWhile (\<lambda>c. c = x) (rev (dropWhile (\<lambda>c. c = x) s)))"

text \<open>\<^verbatim>\<open>str.upper\<close>; code points 181 and 255 leave the range, and count as themselves here.\<close>

definition upper_chars :: "char \<Rightarrow> string" where
  "upper_chars c = (let n = code_point c in
     if 97 \<le> n \<and> n \<le> 122 \<or> 224 \<le> n \<and> n \<le> 254 \<and> n \<noteq> 247 then [char_of (n - 32)]
     else if n = 223 then ''SS'' else [c])"

definition upper_alnum :: "char \<Rightarrow> bool" where
  "upper_alnum c \<longleftrightarrow> (let n = code_point c in 65 \<le> n \<and> n \<le> 90 \<or> 48 \<le> n \<and> n \<le> 57)"

definition agent_env_key :: "string \<Rightarrow> string" where
  "agent_env_key a = strip_char (CHR ''_'') (squeeze upper_alnum ''_'' False (concat (map upper_chars a)))"

definition slugify :: "string \<Rightarrow> string" where
  "slugify t =
     (let s = take 80 (strip_char (CHR ''-'') (squeeze lower_alnum ''-'' False (py_lower t)))
      in if s = [] then ''handoff'' else s)"

definition vault_aliases :: "(string \<times> string) list" where
  "vault_aliases =
    [(''claude-code'', ''claudecode''), (''claudecode'', ''claudecode''), (''codex'', ''codex''),
     (''hermes'', ''hermes''), (''openclaw'', ''openclaw''), (''claude-science'', ''claude-science''),
     (''grok-build'', ''grok-build''), (''grok-beta'', ''grok-beta''), (''grok'', ''grok'')]"

definition default_agent_vault :: "henv \<Rightarrow> string \<Rightarrow> string" where
  "default_agent_vault e a =
     canonical_home e @ ''/''
     @ (case map_of vault_aliases a of
          Some s \<Rightarrow> s
        | None \<Rightarrow> (let s = squeeze lower_alnum [] False (py_lower a) in if s = [] then ''agent'' else s))
     @ ''-vault''"

text \<open>\<^verbatim>\<open>str(Path(p))\<close>: empty and \<^verbatim>\<open>.\<close> components vanish.\<close>

fun split_on :: "char \<Rightarrow> string \<Rightarrow> string list" where
  "split_on x [] = [[]]"
| "split_on x (c # cs) =
     (if c = x then [] # split_on x cs
      else case split_on x cs of w # ws \<Rightarrow> (c # w) # ws | [] \<Rightarrow> [[c]])"

definition norm_path :: "string \<Rightarrow> string" where
  "norm_path p =
     (let body = join_with ''/'' (filter (\<lambda>w. w \<noteq> [] \<and> w \<noteq> ''.'') (split_on (CHR ''/'') p));
          root = (if \<not> starts_with ''/'' p then []
                  else if starts_with ''//'' p \<and> \<not> starts_with ''///'' p then ''//'' else ''/'')
      in if root @ body = [] then ''.'' else root @ body)"

text \<open>\<^verbatim>\<open>os.path.expanduser\<close> never raises.\<close>

definition expand_path :: "henv \<Rightarrow> string \<Rightarrow> string" where
  "expand_path e p =
     norm_path (case expand_user (hhost e) p of None \<Rightarrow> p | Some q \<Rightarrow> q)"

definition vault_mapping :: "henv \<Rightarrow> jobj" where
  "vault_mapping e =
     (case environ (hhost e) ''MINNI_AGENT_VAULTS'' of
        None \<Rightarrow> []
      | Some raw \<Rightarrow> if raw = [] then []
          else (case loads e raw of Some (JObj kvs) \<Rightarrow> kvs | _ \<Rightarrow> []))"

definition agent_vault :: "henv \<Rightarrow> string \<Rightarrow> string \<times> bool" where
  "agent_vault e a =
     (case map_of (vault_mapping e) a of
        Some v \<Rightarrow> (expand_path e (py_str v), True)
      | None \<Rightarrow>
          case environ (hhost e) (''MINNI_'' @ agent_env_key a @ ''_VAULT_PATH'') of
            Some (c # cs) \<Rightarrow> (expand_path e (c # cs), True)
          | _ \<Rightarrow> (default_agent_vault e a, False))"

text \<open>\<^verbatim>\<open>root.glob("*-vault")\<close>: the vaults of the world that lie directly under the root.\<close>

definition home_vaults :: "henv \<Rightarrow> hworld \<Rightarrow> string list" where
  "home_vaults e w =
     (let root = norm_path (case environ (hhost e) ''MINNI_HOME'' of
                   Some r \<Rightarrow> r
                 | None \<Rightarrow> (case expand_user (hhost e) ''~/.minni'' of None \<Rightarrow> ''~/.minni'' | Some q \<Rightarrow> q))
      in filter (\<lambda>p. starts_with (root @ ''/'') p \<and> CHR ''/'' \<notin> set (drop (length root + 1) p)
            \<and> starts_with (rev ''-vault'') (rev (drop (length root + 1) p)))
           (map fst (vaults w)))"

definition first_occurrences :: "'a list \<Rightarrow> 'a list" where
  "first_occurrences xs = rev (remdups (rev xs))"

definition known_agent_vaults :: "henv \<Rightarrow> hworld \<Rightarrow> string list" where
  "known_agent_vaults e w =
     first_occurrences (map (\<lambda>kv. expand_path e (py_str (snd kv))) (vault_mapping e) @ home_vaults e w)"

definition lease_tag :: "jobj \<Rightarrow> string \<Rightarrow> string" where
  "lease_tag packet stamp =
     py_str (py_or (first_of_keys packet [''lease_id'', ''trace_id'']) (JStr stamp))"

definition handoff_packet_filename :: "henv \<Rightarrow> jobj \<Rightarrow> string" where
  "handoff_packet_filename e packet =
     (let slug = slugify (py_str (py_or (jget packet ''task'') (JStr ''handoff'')));
          raw = lease_tag packet (stamp_text e)
      in stamp_text e @ ''-'' @ slug @ ''-'' @ slugify raw @ ''-'' @ take 10 (hsha1 e raw) @ ''.json'')"

definition handoff_wiki_filename :: "henv \<Rightarrow> jobj \<Rightarrow> string" where
  "handoff_wiki_filename e packet =
     (let slug = slugify (py_str (jget packet ''from_agent'') @ ''-to-'' @ py_str (jget packet ''to_agent'')
                   @ ''-'' @ py_strip (py_str (jget packet ''task'')));
          raw = lease_tag packet (stamp_text e)
      in take 8 (stamp_text e) @ ''-'' @ slug @ ''-'' @ slugify raw @ ''-'' @ take 10 (hsha1 e raw) @ ''.md'')"

subsection \<open>Audit entries\<close>

definition LF :: char where
  "LF = CHR 0x0A"

fun escape_inline :: "string \<Rightarrow> string" where
  "escape_inline [] = []"
| "escape_inline (c # cs) =
     (if c = CHR 0x5C then [c, c] else if c = CHR 0x0D then [CHR 0x5C, CHR ''r'']
      else if c = LF then [CHR 0x5C, CHR ''n''] else [c]) @ escape_inline cs"

definition clip :: "char \<Rightarrow> nat \<Rightarrow> string \<Rightarrow> string" where
  "clip ell m v = (if m < length v then take (m - 1) v @ [ell] else v)"

definition escape_hash :: "string \<Rightarrow> string" where
  "escape_hash s = (if starts_with ''#'' s then CHR 0x5C # s else s)"

definition escape_audit_field :: "char \<Rightarrow> nat \<Rightarrow> string \<Rightarrow> string" where
  "escape_audit_field ell m v = clip ell m (escape_hash (escape_inline v))"

definition AUDIT_SUMMARY_MAX :: nat where "AUDIT_SUMMARY_MAX = 500"
definition AUDIT_DETAIL_LINE_MAX :: nat where "AUDIT_DETAIL_LINE_MAX = 1000"
definition AUDIT_DETAIL_BLOCK_MAX :: nat where "AUDIT_DETAIL_BLOCK_MAX = 4000"

definition escape_audit_details_block :: "char \<Rightarrow> string \<Rightarrow> string" where
  "escape_audit_details_block ell raw =
     clip ell AUDIT_DETAIL_BLOCK_MAX
       (join_with [LF] (map (\<lambda>ln. clip ell AUDIT_DETAIL_LINE_MAX (escape_hash ln)) (split_on LF raw)))"

text \<open>\<^verbatim>\<open>json.dumps(x, indent=2)\<close>, with the escapes of \<^verbatim>\<open>ensure_ascii\<close>.\<close>

definition json_char :: "char \<Rightarrow> string" where
  "json_char c = (let n = code_point c in
     if n = 34 \<or> n = 92 then [CHR 0x5C, c]
     else if n = 10 then [CHR 0x5C, CHR ''n''] else if n = 13 then [CHR 0x5C, CHR ''r'']
     else if n = 9 then [CHR 0x5C, CHR ''t''] else if n = 12 then [CHR 0x5C, CHR ''f'']
     else if n = 8 then [CHR 0x5C, CHR ''b'']
     else if n < 32 \<or> 126 < n
       then [CHR 0x5C, CHR ''u'', CHR ''0'', CHR ''0'', hex_digit (n div 16), hex_digit (n mod 16)]
     else [c])"

definition json_str :: "string \<Rightarrow> string" where
  "json_str s = [CHR 0x22] @ concat (map json_char s) @ [CHR 0x22]"

fun dumps :: "nat \<Rightarrow> json \<Rightarrow> string" where
  "dumps n JNull = ''null''"
| "dumps n (JBool b) = (if b then ''true'' else ''false'')"
| "dumps n (JInt i) = int_text i"
| "dumps n (JFloat v t) = (case v of Fin _ \<Rightarrow> t | PosInf \<Rightarrow> ''Infinity'' | NegInf \<Rightarrow> ''-Infinity'' | NaN \<Rightarrow> ''NaN'')"
| "dumps n (JStr s) = json_str s"
| "dumps n (JList xs) =
     (if xs = [] then ''[]''
      else ''['' @ [LF] @ join_with ('','' @ [LF]) (map (\<lambda>x. replicate (n + 2) (CHR '' '') @ dumps (n + 2) x) xs)
           @ [LF] @ replicate n (CHR '' '') @ '']'')"
| "dumps n (JObj kvs) =
     (if kvs = [] then ''{}''
      else ''{'' @ [LF] @ join_with ('','' @ [LF])
             (map (\<lambda>kv. replicate (n + 2) (CHR '' '') @ json_str (fst kv) @ '': '' @ dumps (n + 2) (snd kv)) kvs)
           @ [LF] @ replicate n (CHR '' '') @ ''}'')"

definition audit_entry :: "henv \<Rightarrow> string \<Rightarrow> string \<Rightarrow> string \<Rightarrow> string" where
  "audit_entry e tool summary raw_details =
     ''## ['' @ now_iso e @ ''] '' @ escape_audit_field (ellipsis e) 200 tool @ '' | ''
     @ escape_audit_field (ellipsis e) AUDIT_SUMMARY_MAX summary @ [LF, LF] @ ''```json'' @ [LF]
     @ escape_audit_details_block (ellipsis e) raw_details @ [LF] @ ''```'' @ [LF, LF]"

definition LOG_HEADER :: string where
  "LOG_HEADER = ''# Minni Log'' @ [LF, LF]"

text \<open>Seed the header when the file is missing, then append.\<close>

definition append_log :: "string \<Rightarrow> string \<Rightarrow> string option \<Rightarrow> string option" where
  "append_log header entry old = Some ((case old of None \<Rightarrow> header | Some t \<Rightarrow> t) @ entry)"


subsection \<open>The packet\<close>

definition set_default :: "string \<Rightarrow> json \<Rightarrow> jobj \<Rightarrow> jobj" where
  "set_default k v kvs = (if has_key kvs k then kvs else kvs @ [(k, v)])"

datatype json_type = StrT | ListT | BoolT

fun has_type :: "json_type \<Rightarrow> json \<Rightarrow> bool" where
  "has_type StrT (JStr s) = True"
| "has_type ListT (JList xs) = True"
| "has_type BoolT (JBool b) = True"
| "has_type _ _ = False"

definition packet_fields :: "(string \<times> json_type) list" where
  "packet_fields =
    [(''from_agent'', StrT), (''to_agent'', StrT), (''kind'', StrT), (''task'', StrT),
     (''envelope'', StrT), (''wikilink_refs'', ListT), (''trace_id'', StrT), (''created_at'', StrT),
     (''lease_id'', StrT), (''requires_ack'', BoolT), (''expires_at'', StrT)]"

fun blank_string :: "json \<Rightarrow> bool" where
  "blank_string (JStr s) = (py_strip s = [])"
| "blank_string _ = False"

fun field_error :: "jobj \<Rightarrow> (string \<times> json_type) list \<Rightarrow> string option" where
  "field_error kvs [] = None"
| "field_error kvs ((k, t) # fs) =
     (case map_of kvs k of
        None \<Rightarrow> Some (k @ '' is required'')
      | Some v \<Rightarrow>
          if \<not> has_type t v
          then Some (k @ '' must be ''
                 @ (case t of StrT \<Rightarrow> ''str'' | ListT \<Rightarrow> ''list'' | BoolT \<Rightarrow> ''bool''))
          else if blank_string v then Some (k @ '' must not be empty'')
          else field_error kvs fs)"

definition packet_defaults :: "henv \<Rightarrow> string \<Rightarrow> string \<Rightarrow> jobj \<Rightarrow> jobj" where
  "packet_defaults e src dst kvs =
     set_default ''expires_at'' (JStr (iso_text e (hnow e + 86400)))
     (set_default ''requires_ack'' (JBool True)
     (set_default ''lease_id'' (JStr (''handoff-'' @ take 16 (uuid_hex e)))
     (set_default ''trace_id'' (JStr (uuid_text e))
     (set_default ''created_at'' (JStr (now_iso e))
     (set_default ''to_agent'' (JStr dst)
     (set_default ''from_agent'' (JStr src) kvs))))))"

fun ref_ok :: "json \<Rightarrow> bool" where
  "ref_ok (JStr s) = (py_strip s \<noteq> [])"
| "ref_ok _ = False"

fun list_items :: "json \<Rightarrow> json list" where
  "list_items (JList xs) = xs"
| "list_items _ = []"

definition validate_handoff_packet ::
  "henv \<Rightarrow> string \<Rightarrow> string \<Rightarrow> json \<Rightarrow> string + jobj" where
  "validate_handoff_packet e src dst packet =
     (case packet of
        JObj raw \<Rightarrow>
          (let kvs = packet_defaults e src dst raw in
           case field_error kvs packet_fields of
             Some msg \<Rightarrow> Inl msg
           | None \<Rightarrow>
               if jget kvs ''from_agent'' \<noteq> JStr src then Inl ''from_agent must match params.from_agent''
               else if jget kvs ''to_agent'' \<noteq> JStr dst then Inl ''to_agent must match params.to_agent''
               else if py_str (jget kvs ''kind'') \<notin> set HANDOFF_KINDS then Inl ''kind must be one of''
               else if \<not> list_all ref_ok (list_items (jget kvs ''wikilink_refs''))
                 then Inl ''wikilink_refs must be a list of strings''
               else Inr kvs)
      | _ \<Rightarrow> Inl ''packet must be an object'')"

subsection \<open>Vault writes\<close>

definition empty_vault :: hvault where
  "empty_vault = \<lparr>hv_inbox = [], hv_outbox = [], hv_archive = [], hv_pages = [], hv_log = None, hv_daily = []\<rparr>"

definition vault_of :: "hworld \<Rightarrow> string \<Rightarrow> hvault" where
  "vault_of w v = (case map_of (vaults w) v of None \<Rightarrow> empty_vault | Some x \<Rightarrow> x)"

definition update_vault :: "string \<Rightarrow> (hvault \<Rightarrow> hvault) \<Rightarrow> hworld \<Rightarrow> hworld" where
  "update_vault v f w = w\<lparr>vaults := AList.update v (f (vault_of w v)) (vaults w)\<rparr>"

text \<open>A write step: the new state, and whether it went through (False: it raised).\<close>

type_synonym hstep = "hworld \<Rightarrow> hworld \<times> bool"

fun run_steps :: "hstep list \<Rightarrow> hstep" where
  "run_steps [] w = (w, True)"
| "run_steps (f # fs) w = (case f w of (w', ok) \<Rightarrow> if ok then run_steps fs w' else (w', False))"

definition seed_log :: "hvault \<Rightarrow> hvault" where
  "seed_log x = (case hv_log x of None \<Rightarrow> x\<lparr>hv_log := Some LOG_HEADER\<rparr> | Some _ \<Rightarrow> x)"

definition ensure_handoff_vault :: "henv \<Rightarrow> string \<Rightarrow> hstep" where
  "ensure_handoff_vault e v w =
     (if path_faults e v then (w, False) else (update_vault v seed_log w, True))"

datatype channel = Inbox | Outbox

fun channel_name :: "channel \<Rightarrow> string" where
  "channel_name Inbox = ''inbox''"
| "channel_name Outbox = ''outbox''"

fun channel_files :: "channel \<Rightarrow> hvault \<Rightarrow> hdir" where
  "channel_files Inbox x = hv_inbox x"
| "channel_files Outbox x = hv_outbox x"

fun update_channel :: "channel \<Rightarrow> (hdir \<Rightarrow> hdir) \<Rightarrow> hvault \<Rightarrow> hvault" where
  "update_channel Inbox f x = x\<lparr>hv_inbox := f (hv_inbox x)\<rparr>"
| "update_channel Outbox f x = x\<lparr>hv_outbox := f (hv_outbox x)\<rparr>"

definition packet_path :: "string \<Rightarrow> channel \<Rightarrow> string \<Rightarrow> string" where
  "packet_path v ch name = v @ ''/'' @ channel_name ch @ ''/'' @ name"

definition write_json :: "henv \<Rightarrow> string \<Rightarrow> channel \<Rightarrow> string \<Rightarrow> jobj \<Rightarrow> hstep" where
  "write_json e v ch name packet w =
     (if path_faults e (packet_path v ch name) then (w, False)
      else (update_vault v (update_channel ch (AList.update name (Some (JObj packet)))) w, True))"

definition append_handoff_audit :: "henv \<Rightarrow> string \<Rightarrow> string \<Rightarrow> string \<Rightarrow> json \<Rightarrow> hstep" where
  "append_handoff_audit e v tool summary details =
     (let entry = audit_entry e tool summary (dumps 0 details); day = take 10 (now_iso e) in
      run_steps
        [ensure_handoff_vault e v,
         (\<lambda>w. if path_faults e (v @ ''/log.md'') then (w, False)
              else (update_vault v (\<lambda>x. x\<lparr>hv_log := append_log LOG_HEADER entry (hv_log x)\<rparr>) w, True)),
         (\<lambda>w. if path_faults e (v @ ''/logs/'' @ day @ ''.md'') then (w, False)
              else (update_vault v (\<lambda>x. x\<lparr>hv_daily :=
                      AList.update (day @ ''.md'')
                        (the (append_log (''# '' @ day @ '' Minni Audit'' @ [LF, LF]) entry
                           (map_of (hv_daily x) (day @ ''.md'')))) (hv_daily x)\<rparr>) w, True))])"

definition remove_suffix :: "string \<Rightarrow> string \<Rightarrow> string" where
  "remove_suffix suf s =
     (if starts_with (rev suf) (rev s) then take (length s - length suf) s else s)"

definition handoff_page :: "jobj \<Rightarrow> string" where
  "handoff_page packet =
     (let f = (\<lambda>k. py_str (jget packet k)); title = py_strip (f ''task'');
          refs = join_with [LF] (map (\<lambda>r. ''- [['' @ remove_suffix ''.md'' (py_str r) @ '']]'')
                   (list_items (jget_or (JList []) packet ''wikilink_refs'')))
      in join_with [LF]
        [''---'', ''title: '' @ title, ''type: handoff'', ''status: accepted'', ''privacy: safe'',
         ''from_agent: '' @ f ''from_agent'', ''to_agent: '' @ f ''to_agent'',
         ''trace_id: '' @ f ''trace_id'', ''created: '' @ f ''created_at'', ''---'', [],
         ''# '' @ title, [], ''From: `'' @ f ''from_agent'' @ ''`'', [],
         ''To: `'' @ f ''to_agent'' @ ''`'', [], ''## Envelope'', [], ''```xml'', f ''envelope'', ''```'', [],
         ''## Wikilink References'', [], (if refs = [] then ''- None'' else refs), []])"

definition page_path :: "henv \<Rightarrow> string \<Rightarrow> jobj \<Rightarrow> string option" where
  "page_path e v packet =
     (if jget packet ''kind'' \<noteq> JStr ''handoff'' then None
      else Some (v @ ''/wiki/handoffs/'' @ handoff_wiki_filename e packet))"

definition compile_handoff_page :: "henv \<Rightarrow> string \<Rightarrow> jobj \<Rightarrow> hstep" where
  "compile_handoff_page e v packet w =
     (case page_path e v packet of
        None \<Rightarrow> (w, True)
      | Some path \<Rightarrow>
          if path_faults e path then (w, False)
          else (update_vault v (\<lambda>x. x\<lparr>hv_pages :=
                  AList.update (handoff_wiki_filename e packet) (handoff_page packet) (hv_pages x)\<rparr>) w, True))"

subsection \<open>The lease table\<close>

definition parse_iso_ts :: "henv \<Rightarrow> json \<Rightarrow> real option" where
  "parse_iso_ts e v = (case v of JStr (c # cs) \<Rightarrow> iso_ts e (c # cs) | _ \<Rightarrow> None)"

definition lease_row :: "hworld \<Rightarrow> string \<Rightarrow> lease option" where
  "lease_row w lid = find (\<lambda>l. ls_lease l = lid) (leases w)"

text \<open>\<^verbatim>\<open>ON CONFLICT\<close> keeps \<^verbatim>\<open>contradicts_id\<close> of the old row and takes the rest of the new one.\<close>

definition upsert_lease :: "lease \<Rightarrow> hworld \<Rightarrow> hworld" where
  "upsert_lease l w =
     (case lease_row w (ls_lease l) of
        None \<Rightarrow> w\<lparr>leases := leases w @ [l]\<rparr>
      | Some _ \<Rightarrow> w\<lparr>leases := update_where (\<lambda>r. ls_lease r = ls_lease l)
                      (\<lambda>r. l\<lparr>ls_contradicts := ls_contradicts r\<rparr>) (leases w)\<rparr>)"

definition packet_lease :: "henv \<Rightarrow> jobj \<Rightarrow> string \<Rightarrow> string \<Rightarrow> lease" where
  "packet_lease e packet inbox outbox =
     \<lparr>ls_lease = py_str (jget packet ''lease_id''), ls_from = py_str (jget packet ''from_agent''),
      ls_to = py_str (jget packet ''to_agent''), ls_task = jget packet ''task'',
      ls_status = (if truthy (jget_or (JBool True) packet ''requires_ack'') then ''pending''
                   else ''not_required''),
      ls_contradicts = jget packet ''contradicts_id'', ls_inbox = inbox, ls_outbox = outbox,
      ls_created = (case parse_iso_ts e (jget packet ''created_at'') of
                      None \<Rightarrow> hnow e | Some t \<Rightarrow> if t = 0 then hnow e else t),
      ls_expires = parse_iso_ts e (jget packet ''expires_at'')\<rparr>"

definition store_handoff_lease :: "henv \<Rightarrow> jobj \<Rightarrow> string \<Rightarrow> string \<Rightarrow> hworld \<Rightarrow> hworld \<times> bool" where
  "store_handoff_lease e packet inbox outbox w =
     (if store_faults e StoreLease \<or> \<not> bindable (jget packet ''contradicts_id'') then (w, False)
      else (upsert_lease (packet_lease e packet inbox outbox) w, True))"


subsection \<open>Sending\<close>

record handoff_reply =
  ho_status :: string
  ho_delivered :: bool
  ho_persisted :: bool
  ho_redacted :: bool
  ho_inbox :: string
  ho_outbox :: string
  ho_page :: "string option"
  ho_lease :: string

definition undelivered :: handoff_reply where
  "undelivered = \<lparr>ho_status = ''degraded'', ho_delivered = False, ho_persisted = False,
     ho_redacted = False, ho_inbox = [], ho_outbox = [], ho_page = None, ho_lease = []\<rparr>"

definition lstrip_slash :: "string \<Rightarrow> string" where
  "lstrip_slash s = dropWhile (\<lambda>c. c = CHR ''/'') s"

definition ref_contained :: "henv \<Rightarrow> effective_principal \<Rightarrow> string \<Rightarrow> json \<Rightarrow> bool" where
  "ref_contained e p sender ref =
     (let r = py_strip (py_str ref); wiki = sender @ ''/wiki'' in
      r = [] \<or>
      (case (resolve_path (hhost e) (wiki @ ''/'' @ lstrip_slash r), resolve_path (hhost e) wiki) of
         (Some cand, Some base) \<Rightarrow> prefix base cand \<and> allows_vault_root (hhost e) p (path_str cand)
       | _ \<Rightarrow> False))"

definition create_missing_vaults :: "henv \<Rightarrow> bool" where
  "create_missing_vaults e \<longleftrightarrow>
     py_lower (case environ (hhost e) ''MINNI_HANDOFF_CREATE_MISSING_VAULTS'' of
        None \<Rightarrow> ''1'' | Some v \<Rightarrow> v) \<notin> set [''0'', ''false'', ''off'']"

definition audit_details ::
  "jobj \<Rightarrow> string \<Rightarrow> string \<Rightarrow> string \<Rightarrow> string \<Rightarrow> string option \<Rightarrow> bool \<Rightarrow> bool \<Rightarrow> json" where
  "audit_details packet src dst inbox outbox page redacted persisted =
     JObj [(''expires_at'', jget packet ''expires_at''), (''from_agent'', JStr src),
       (''handoff_page'', (case page of None \<Rightarrow> JNull | Some q \<Rightarrow> JStr q)),
       (''inbox_path'', JStr inbox), (''kind'', jget packet ''kind''),
       (''lease_id'', jget packet ''lease_id''), (''lease_persisted'', JBool persisted),
       (''outbox_path'', JStr outbox), (''redacted'', JBool redacted), (''task'', jget packet ''task''),
       (''to_agent'', JStr dst), (''trace_id'', jget packet ''trace_id'')]"

text \<open>
  The body of the \<^verbatim>\<open>try\<close> block: packets, then the lease, then page and audit.  An exception
  leaves what was already written in place.
\<close>

definition deliver ::
  "henv \<Rightarrow> string \<Rightarrow> string \<Rightarrow> string \<Rightarrow> string \<Rightarrow> jobj \<Rightarrow> bool \<Rightarrow> hworld \<Rightarrow> handoff_reply \<times> hworld" where
  "deliver e src dst sender recipient packet redacted w =
     (let name = handoff_packet_filename e packet;
          inbox = packet_path recipient Inbox name; outbox = packet_path sender Outbox name;
          page = page_path e sender packet; task = py_str (jget packet ''task'') in
      case run_steps [ensure_handoff_vault e sender, ensure_handoff_vault e recipient,
                      write_json e sender Outbox name packet,
                      write_json e recipient Inbox name packet] w of
        (w1, False) \<Rightarrow> (undelivered, w1)
      | (w1, True) \<Rightarrow>
          case store_handoff_lease e packet inbox outbox w1 of
            (w2, persisted) \<Rightarrow>
              let details = audit_details packet src dst inbox outbox page redacted persisted in
              case run_steps [compile_handoff_page e sender packet,
                              append_handoff_audit e sender ''handoff_sent'' task details,
                              append_handoff_audit e recipient ''handoff_received'' task details] w2 of
                (w3, False) \<Rightarrow> (undelivered, w3)
              | (w3, True) \<Rightarrow>
                  (\<lparr>ho_status = (if persisted then ''ok'' else ''degraded''), ho_delivered = True,
                    ho_persisted = persisted, ho_redacted = redacted, ho_inbox = inbox,
                    ho_outbox = outbox, ho_page = page,
                    ho_lease = py_str (jget packet ''lease_id'')\<rparr>, w3))"

definition param_text :: "jobj \<Rightarrow> string \<Rightarrow> string" where
  "param_text params k = py_strip (py_str (jget_or (JStr []) params k))"

definition send_packet ::
  "henv \<Rightarrow> effective_principal \<Rightarrow> string \<Rightarrow> jobj \<Rightarrow> hworld \<Rightarrow> handoff_reply reply \<times> hworld" where
  "send_packet e p dst packet w =
     (let src = p_agent_id p;
          (redacted_packet, redacted) = redact_value (JObj packet);
          (sender, sender_explicit) = agent_vault e src;
          (recipient, recipient_explicit) = agent_vault e dst in
      if \<not> allows_vault_root (hhost e) p sender \<or> \<not> allows_vault_root (hhost e) p recipient
        then (Fail (-32003) ''vault_root_denied'', w)
      else if \<not> list_all (ref_contained e p sender) (list_items (jget packet ''wikilink_refs''))
        then (Fail (-32003) ''wikilink_traversal_denied'', w)
      else if \<not> recipient_explicit \<and> map_of (vaults w) recipient = None \<and> \<not> create_missing_vaults e
        then if sender_explicit
             then (case ensure_handoff_vault e sender w of
                     (w', True) \<Rightarrow> (Ok undelivered, w') | (w', False) \<Rightarrow> (Raise OSError, w'))
             else (Ok undelivered, w)
      else case deliver e src dst sender recipient (as_dict redacted_packet) redacted w of
             (r, w') \<Rightarrow> (Ok r, w'))"

definition handle_daemon_handoff ::
  "henv \<Rightarrow> jobj \<Rightarrow> stamp \<Rightarrow> hworld \<Rightarrow> handoff_reply reply \<times> hworld" where
  "handle_daemon_handoff e params who w =
     (let dst = param_text params ''to_agent'' in
      if param_text params ''from_agent'' = [] \<or> dst = []
        then (Fail (-32602) ''from_agent and to_agent are required'', w)
      else case who of
        Inl (code, tag) \<Rightarrow> (Fail code tag, w)
      | Inr p \<Rightarrow>
          case validate_handoff_packet e (p_agent_id p) dst (jget params ''packet'') of
            Inl msg \<Rightarrow> (Fail (-32602) msg, w)
          | Inr packet \<Rightarrow> send_packet e p dst packet w)"

subsection \<open>Reading the file channel\<close>

record hfile =
  hf_vault :: string
  hf_channel :: channel
  hf_name :: string
  hf_packet :: jobj

fun lease_packet :: "json option \<Rightarrow> jobj option" where
  "lease_packet (Some (JObj kvs)) =
     (case map_of kvs ''lease_id'' of Some (JStr (c # cs)) \<Rightarrow> Some kvs | _ \<Rightarrow> None)"
| "lease_packet _ = None"

definition channel_packets :: "hworld \<Rightarrow> string \<Rightarrow> channel \<Rightarrow> hfile list" where
  "channel_packets w v ch =
     List.map_filter (\<lambda>(name, content). map_option (\<lambda>kvs.
         \<lparr>hf_vault = v, hf_channel = ch, hf_name = name, hf_packet = kvs\<rparr>) (lease_packet content))
       (sort_key fst (filter (\<lambda>(name, _). starts_with (rev ''.json'') (rev name)) (channel_files ch (vault_of w v))))"

definition iter_handoff_files :: "hworld \<Rightarrow> string list \<Rightarrow> hfile list" where
  "iter_handoff_files w vs = concat (map (\<lambda>v. channel_packets w v Inbox @ channel_packets w v Outbox) vs)"

definition file_path :: "hfile \<Rightarrow> string" where
  "file_path f = packet_path (hf_vault f) (hf_channel f) (hf_name f)"

definition has_lease :: "string \<Rightarrow> hfile \<Rightarrow> bool" where
  "has_lease lid f \<longleftrightarrow> jget (hf_packet f) ''lease_id'' = JStr lid"

subsection \<open>Acknowledging\<close>

definition lease_to_agent :: "henv \<Rightarrow> hworld \<Rightarrow> string \<Rightarrow> string option" where
  "lease_to_agent e w lid =
     (case (if store_faults e RecipientQuery then None else lease_row w lid) of
        Some l \<Rightarrow> if ls_to l \<noteq> [] then Some (ls_to l) else
          map_option (\<lambda>f. py_str (jget (hf_packet f) ''to_agent''))
            (find (\<lambda>f. has_lease lid f \<and> truthy (jget (hf_packet f) ''to_agent''))
              (iter_handoff_files w (known_agent_vaults e w)))
      | None \<Rightarrow>
          map_option (\<lambda>f. py_str (jget (hf_packet f) ''to_agent''))
            (find (\<lambda>f. has_lease lid f \<and> truthy (jget (hf_packet f) ''to_agent''))
              (iter_handoff_files w (known_agent_vaults e w))))"

definition ack_updates :: "henv \<Rightarrow> string \<Rightarrow> json \<Rightarrow> jobj \<Rightarrow> jobj" where
  "ack_updates e status contradicts packet =
     (let p1 = AList.update ''acked_at'' (JStr (now_iso e)) (AList.update ''ack_status'' (JStr status) packet)
      in if contradicts = JNull then p1 else AList.update ''contradicts_id'' contradicts p1)"

fun write_all :: "henv \<Rightarrow> (jobj \<Rightarrow> jobj) \<Rightarrow> hfile list \<Rightarrow> hstep" where
  "write_all e g [] w = (w, True)"
| "write_all e g (f # fs) w =
     (case write_json e (hf_vault f) (hf_channel f) (hf_name f) (g (hf_packet f)) w of
        (w', ok) \<Rightarrow> if ok then write_all e g fs w' else (w', False))"

definition matching_files :: "henv \<Rightarrow> hworld \<Rightarrow> string \<Rightarrow> hfile list" where
  "matching_files e w lid = filter (has_lease lid) (iter_handoff_files w (known_agent_vaults e w))"

definition update_handoff_lease_status :: "henv \<Rightarrow> string \<Rightarrow> string \<Rightarrow> json \<Rightarrow> hworld \<Rightarrow> hworld \<times> bool" where
  "update_handoff_lease_status e lid status contradicts w =
     (if store_faults e UpdateLease \<or> \<not> bindable contradicts then (w, False)
      else (w\<lparr>leases := update_where (\<lambda>l. ls_lease l = lid)
                (\<lambda>l. l\<lparr>ls_status := status,
                       ls_contradicts := (if contradicts = JNull then ls_contradicts l else contradicts)\<rparr>)
                (leases w)\<rparr>, lease_row w lid \<noteq> None))"

text \<open>The first free name in \<^verbatim>\<open>.archive\<close>; one more try than it has files is enough.\<close>

definition json_stem :: "string \<Rightarrow> string \<times> string" where
  "json_stem name = (if name = ''.json'' then (name, []) else (remove_suffix ''.json'' name, ''.json''))"

definition archive_name :: "hdir \<Rightarrow> string \<Rightarrow> string" where
  "archive_name archive name =
     (let (stem, suf) = json_stem name;
          names = name # map (\<lambda>n. stem @ ''.'' @ int_text (int n) @ suf) [1..<length archive + 1]
      in case find (\<lambda>x. map_of archive x = None) names of Some x \<Rightarrow> x | None \<Rightarrow> name)"

definition archive_inbox_file :: "hfile \<Rightarrow> hworld \<Rightarrow> hworld \<times> string option" where
  "archive_inbox_file f w =
     (let x = vault_of w (hf_vault f) in
      case map_of (hv_inbox x) (hf_name f) of
        None \<Rightarrow> (w, None)
      | Some content \<Rightarrow>
          let target = archive_name (hv_archive x) (hf_name f) in
          (update_vault (hf_vault f) (\<lambda>x.
             x\<lparr>hv_inbox := AList.delete (hf_name f) (hv_inbox x),
               hv_archive := AList.update target content (hv_archive x)\<rparr>) w,
           Some (hf_vault f @ ''/inbox/.archive/'' @ target)))"

text \<open>A failed move is logged and skipped.\<close>

fun archive_files :: "henv \<Rightarrow> hfile list \<Rightarrow> hworld \<Rightarrow> hworld \<times> string list" where
  "archive_files e [] w = (w, [])"
| "archive_files e (f # fs) w =
     (if hf_channel f \<noteq> Inbox \<or> path_faults e (hf_vault f @ ''/inbox/.archive'') then archive_files e fs w
      else case archive_inbox_file f w of
        (w1, None) \<Rightarrow> archive_files e fs w1
      | (w1, Some path) \<Rightarrow> (case archive_files e fs w1 of (w2, paths) \<Rightarrow> (w2, path # paths)))"

record ack_reply =
  ar_lease :: string
  ar_status :: string
  ar_updated :: "string list"
  ar_archived :: "string list"

definition handle_ack_handoff :: "henv \<Rightarrow> jobj \<Rightarrow> stamp \<Rightarrow> hworld \<Rightarrow> ack_reply reply \<times> hworld" where
  "handle_ack_handoff e params who w =
     (let lid = param_text params ''lease_id''; status = param_text params ''status'';
          contradicts = jget params ''contradicts_id'' in
      if lid = [] then (Fail (-32602) ''lease_id is required'', w)
      else if status \<notin> set HANDOFF_ACK_STATUSES then (Fail (-32602) ''status must be one of'', w)
      else case who of
        Inl (code, tag) \<Rightarrow> (Fail code tag, w)
      | Inr p \<Rightarrow>
          case lease_to_agent e w lid of
            None \<Rightarrow> (Fail (-32000) ''No handoff lease found'', w)
          | Some dst \<Rightarrow>
              if dst \<noteq> p_agent_id p then (Fail (-32004) ''principal_mismatch'', w)
              else
                let files = matching_files e w lid in
                case write_all e (ack_updates e status contradicts) files w of
                  (w1, False) \<Rightarrow> (Raise OSError, w1)
                | (w1, True) \<Rightarrow>
                    case update_handoff_lease_status e lid status contradicts w1 of
                      (w2, db_changed) \<Rightarrow>
                        if files = [] \<and> \<not> db_changed then (Fail (-32000) ''No handoff lease found'', w2)
                        else (case archive_files e files w2 of (w3, archived) \<Rightarrow>
                          (Ok \<lparr>ar_lease = lid, ar_status = status, ar_updated = map file_path files,
                               ar_archived = archived\<rparr>, w3)))"


subsection \<open>Listing\<close>

record pending =
  pe_lease :: string
  pe_from :: json
  pe_to :: json
  pe_task :: json
  pe_expires :: json
  pe_path :: string

definition lease_entry :: "henv \<Rightarrow> lease \<Rightarrow> pending" where
  "lease_entry e l =
     \<lparr>pe_lease = ls_lease l, pe_from = JStr (ls_from l), pe_to = JStr (ls_to l), pe_task = ls_task l,
      pe_expires = (case ls_expires l of None \<Rightarrow> JNull | Some t \<Rightarrow> JStr (iso_text e t)),
      pe_path = ls_inbox l\<rparr>"

definition lease_open :: "henv \<Rightarrow> string \<Rightarrow> lease \<Rightarrow> bool" where
  "lease_open e a l \<longleftrightarrow> ls_to l = a \<and> ls_status l = ''pending''
     \<and> (case ls_expires l of None \<Rightarrow> True | Some t \<Rightarrow> hnow e < t)"

text \<open>\<open>None\<close>: \<^verbatim>\<open>HandoffStoreError\<close>.\<close>

definition pending_handoff_leases :: "henv \<Rightarrow> hworld \<Rightarrow> string \<Rightarrow> pending list option" where
  "pending_handoff_leases e w a =
     (if store_faults e PendingQuery then None
      else Some (map (lease_entry e)
        (sort_key ls_created (sort_key ls_lease (filter (lease_open e a) (leases w))))))"

definition file_open :: "henv \<Rightarrow> string \<Rightarrow> jobj \<Rightarrow> bool" where
  "file_open e a p \<longleftrightarrow> jget p ''to_agent'' = JStr a \<and> truthy (jget_or (JBool False) p ''requires_ack'')
     \<and> \<not> truthy (jget p ''ack_status'')
     \<and> (case parse_iso_ts e (jget p ''expires_at'') of None \<Rightarrow> True | Some t \<Rightarrow> hnow e < t)"

definition file_entry :: "hfile \<Rightarrow> pending" where
  "file_entry f = (let p = hf_packet f in
     \<lparr>pe_lease = py_str (jget p ''lease_id''), pe_from = jget p ''from_agent'',
      pe_to = jget p ''to_agent'', pe_task = jget p ''task'', pe_expires = jget p ''expires_at'',
      pe_path = file_path f\<rparr>)"

definition file_channel_pending :: "henv \<Rightarrow> hworld \<Rightarrow> string \<Rightarrow> pending list" where
  "file_channel_pending e w a =
     map file_entry (filter (\<lambda>f. file_open e a (hf_packet f))
       (iter_handoff_files w [fst (agent_vault e a)]))"

definition known_lease_ids :: "henv \<Rightarrow> hworld \<Rightarrow> string \<Rightarrow> string list" where
  "known_lease_ids e w a =
     (if store_faults e KnownQuery then []
      else map ls_lease (filter (\<lambda>l. ls_to l = a) (leases w)))"

text \<open>\<^verbatim>\<open>merged.setdefault\<close> over a dict kept in insertion order.\<close>

fun merge_pending :: "string list \<Rightarrow> pending list \<Rightarrow> pending list \<Rightarrow> pending list" where
  "merge_pending known acc [] = acc"
| "merge_pending known acc (h # hs) =
     merge_pending known
       (if pe_lease h \<in> set known \<or> pe_lease h \<in> set (map pe_lease acc) then acc else acc @ [h]) hs"

definition handle_list_pending ::
  "henv \<Rightarrow> stamp \<Rightarrow> hworld \<Rightarrow> pending list reply" where
  "handle_list_pending e who w =
     (case who of
        Inl (code, tag) \<Rightarrow> Fail code tag
      | Inr p \<Rightarrow>
          let a = p_agent_id p; store = pending_handoff_leases e w a;
              rows = (case store of None \<Rightarrow> [] | Some hs \<Rightarrow> hs);
              known = known_lease_ids e w a @ map pe_lease rows;
              merged = merge_pending known rows (file_channel_pending e w a) in
          if a = [] then Fail (-32602) ''agent_id is required''
          else if merged \<noteq> [] then Ok merged
          else if store = None then Fail (-32000) ''handoff lease store failed''
          else Ok merged)"

subsection \<open>Awaiting\<close>

definition terminal_ack :: "henv \<Rightarrow> hworld \<Rightarrow> string \<Rightarrow> json option" where
  "terminal_ack e w lid =
     map_option (\<lambda>f. jget (hf_packet f) ''ack_status'')
       (find (\<lambda>f. has_lease lid f \<and> truthy (jget (hf_packet f) ''ack_status''))
          (iter_handoff_files w (known_agent_vaults e w)))"

definition store_terminal :: "henv \<Rightarrow> hworld \<Rightarrow> string \<Rightarrow> string option" where
  "store_terminal e w lid =
     (if store_faults e StatusQuery then None
      else case lease_row w lid of
        None \<Rightarrow> None
      | Some l \<Rightarrow> if ls_status l = ''pending'' then None else Some (ls_status l))"

datatype await_result = Answered json | TimedOut | StoreFailed

text \<open>
  One turn of the polling loop; \<open>None\<close>: not yet, sleep.  Poll \<open>n\<close> sees environment and world
  \<open>sees n\<close>, and the clock read at its end is \<open>clock n\<close>.
\<close>

definition await_poll ::
  "(nat \<Rightarrow> henv \<times> hworld) \<Rightarrow> (nat \<Rightarrow> real) \<Rightarrow> string \<Rightarrow> real \<Rightarrow> nat \<Rightarrow> await_result option" where
  "await_poll sees clock lid deadline n =
     (case sees n of (e, w) \<Rightarrow>
        case store_terminal e w lid of
          Some st \<Rightarrow> Some (Answered (JStr st))
        | None \<Rightarrow>
            case terminal_ack e w lid of
              Some st \<Rightarrow> Some (Answered st)
            | None \<Rightarrow>
                if deadline \<le> clock n
                then Some (if store_faults e StatusQuery then StoreFailed else TimedOut)
                else None)"

fun await_loop ::
  "nat \<Rightarrow> (nat \<Rightarrow> henv \<times> hworld) \<Rightarrow> (nat \<Rightarrow> real) \<Rightarrow> string \<Rightarrow> real \<Rightarrow> nat \<Rightarrow> await_result option" where
  "await_loop 0 sees clock lid deadline n = None"
| "await_loop (Suc fuel) sees clock lid deadline n =
     (case await_poll sees clock lid deadline n of
        Some r \<Rightarrow> Some r
      | None \<Rightarrow> await_loop fuel sees clock lid deadline (n + 1))"

definition timeout_ms :: "int \<Rightarrow> int" where
  "timeout_ms n = max 0 (min n 300000)"

text \<open>A \<open>None\<close> within \<open>Ok\<close> stands for a loop that has used up its fuel.\<close>

definition handle_await_handoff ::
  "nat \<Rightarrow> jobj \<Rightarrow> (nat \<Rightarrow> henv \<times> hworld) \<Rightarrow> real \<Rightarrow> (nat \<Rightarrow> real) \<Rightarrow> await_result option reply" where
  "handle_await_handoff fuel params sees start clock =
     (let lid = param_text params ''lease_id'' in
      if lid = [] then Fail (-32602) ''lease_id is required''
      else case py_int (jget_or (JInt 30000) params ''timeout_ms'') of
        None \<Rightarrow> Raise (case jget params ''timeout_ms'' of JStr s \<Rightarrow> ValueError ''invalid literal for int()'' | _ \<Rightarrow> TypeError)
      | Some n \<Rightarrow> Ok (await_loop fuel sees clock lid (start + of_int (timeout_ms n) / 1000) 0))"

end
