(* ===== verification/Handoff_Laws.thy ===== *)
theory Handoff_Laws
  imports Handoff
begin

text \<open>
  What the handoff handlers promise: listings are exact and never hide a failing store, only
  the recipient settles a lease, a settled lease does not come back, waiting ends, audit
  entries cannot be forged, and a delivery reaches the inbox it names.
\<close>

subsection \<open>Listing is exact\<close>

definition lease_keys :: "hworld \<Rightarrow> bool" where
  "lease_keys w \<longleftrightarrow> distinct (map ls_lease (leases w))"

lemma merge_pending_distinct:
  "distinct (map pe_lease acc) \<Longrightarrow> distinct (map pe_lease (merge_pending known acc hs))"
  by (induction hs arbitrary: acc) auto

lemma merge_pending_origin:
  "h \<in> set (merge_pending known acc hs) \<Longrightarrow> h \<in> set acc \<or> h \<in> set hs \<and> pe_lease h \<notin> set known"
proof (induction hs arbitrary: acc)
  case Nil
  then show ?case by simp
next
  case (Cons x xs)
  show ?case
  proof (cases "pe_lease x \<in> set known \<or> pe_lease x \<in> set (map pe_lease acc)")
    case True
    then show ?thesis using Cons.IH [of acc] Cons.prems by auto
  next
    case False
    then show ?thesis using Cons.IH [of "acc @ [x]"] Cons.prems by auto
  qed
qed

lemma merge_pending_keeps: "h \<in> set acc \<Longrightarrow> h \<in> set (merge_pending known acc hs)"
  by (induction hs arbitrary: acc) auto

lemma merge_pending_covers:
  "h \<in> set hs \<Longrightarrow> pe_lease h \<notin> set known \<Longrightarrow>
   pe_lease h \<in> pe_lease ` set (merge_pending known acc hs)"
proof (induction hs arbitrary: acc)
  case Nil
  then show ?case by simp
next
  case (Cons x xs)
  show ?case
  proof (cases "h = x")
    case False
    then show ?thesis using Cons by simp
  next
    case True
    define acc' where "acc' = (if pe_lease h \<in> set (map pe_lease acc) then acc else acc @ [h])"
    have "pe_lease h \<in> pe_lease ` set acc'" by (auto simp: acc'_def)
    then have "pe_lease h \<in> pe_lease ` set (merge_pending known acc' xs)"
      using merge_pending_keeps by (meson image_mono subsetD subsetI)
    then show ?thesis using True Cons.prems(2) by (auto simp: acc'_def split: if_splits)
  qed
qed

lemma pending_rows:
  assumes "pending_handoff_leases e w a = Some hs"
  shows "set hs = lease_entry e ` {l \<in> set (leases w). lease_open e a l}"
    and "lease_keys w \<Longrightarrow> distinct (map pe_lease hs)"
proof -
  show "set hs = lease_entry e ` {l \<in> set (leases w). lease_open e a l}"
    using assms by (auto simp: pending_handoff_leases_def split: if_split_asm)
  assume "lease_keys w"
  then have "distinct (map ls_lease (filter (lease_open e a) (leases w)))"
    by (simp add: lease_keys_def distinct_map_filter)
  then have d: "distinct (map ls_lease (sort_key ls_created (sort_key ls_lease (filter (lease_open e a) (leases w)))))"
    by (simp add: distinct_map)
  show "distinct (map pe_lease hs)"
    using assms d by (auto simp: pending_handoff_leases_def comp_def lease_entry_def split: if_split_asm)
qed

definition pending_merge :: "henv \<Rightarrow> hworld \<Rightarrow> string \<Rightarrow> pending list" where
  "pending_merge e w a = (let rows = (case pending_handoff_leases e w a of None \<Rightarrow> [] | Some hs \<Rightarrow> hs) in
     merge_pending (known_lease_ids e w a @ map pe_lease rows) rows (file_channel_pending e w a))"

lemma list_pending_Ok:
  "handle_list_pending e (Inr p) w = Ok hs \<longleftrightarrow> p_agent_id p \<noteq> [] \<and> hs = pending_merge e w (p_agent_id p)
     \<and> (hs = [] \<longrightarrow> \<not> store_faults e PendingQuery)"
  by (auto simp: handle_list_pending_def pending_merge_def Let_def pending_handoff_leases_def)

lemma pending_merge_origin:
  assumes "h \<in> set (pending_merge e w a)"
  shows "(\<exists>l \<in> set (leases w). lease_open e a l \<and> h = lease_entry e l)
    \<or> h \<in> set (file_channel_pending e w a) \<and> pe_lease h \<notin> set (known_lease_ids e w a)"
  using assms pending_rows(1) [of e w a]
  by (auto simp: pending_merge_def Let_def split: option.splits dest!: merge_pending_origin)

lemma file_pending_recipient: "h \<in> set (file_channel_pending e w a) \<Longrightarrow> pe_to h = JStr a"
  by (auto simp: file_channel_pending_def file_entry_def file_open_def Let_def)


theorem settled_lease_never_listed:
  assumes "lease_keys w" and "lease_row w lid = Some l" and "ls_to l = p_agent_id p"
    and "ls_status l \<noteq> ''pending''" and "\<not> store_faults e KnownQuery"
    and "handle_list_pending e (Inr p) w = Ok hs"
  shows "lid \<notin> pe_lease ` set hs"
proof
  assume "lid \<in> pe_lease ` set hs"
  then obtain h where h: "h \<in> set hs" "pe_lease h = lid" by auto
  have l: "l \<in> set (leases w)" "ls_lease l = lid"
    using assms(2) by (auto simp: lease_row_def find_Some_iff)
  have "lid \<in> set (known_lease_ids e w (p_agent_id p))"
    using l assms(3,5) by (auto simp: known_lease_ids_def)
  then obtain l' where "l' \<in> set (leases w)" "lease_open e (p_agent_id p) l'" "ls_lease l' = lid"
    using pending_merge_origin [of h e w "p_agent_id p"] assms(6) h by (auto simp: list_pending_Ok lease_entry_def)
  moreover from this(1,3) l assms(1) have "l' = l"
    by (auto simp: lease_keys_def distinct_map inj_on_def)
  ultimately show False using assms(4) by (simp add: lease_open_def)
qed

theorem empty_listing_means_empty:
  assumes "handle_list_pending e (Inr p) w = Ok []"
  shows "\<not> store_faults e PendingQuery \<and> (\<forall>l \<in> set (leases w). \<not> lease_open e (p_agent_id p) l)"
proof -
  have f: "\<not> store_faults e PendingQuery" and m: "pending_merge e w (p_agent_id p) = []"
    using assms by (auto simp: list_pending_Ok)
  then obtain rows where r: "pending_handoff_leases e w (p_agent_id p) = Some rows"
    by (simp add: pending_handoff_leases_def)
  have "h \<notin> set rows" for h
    using m r merge_pending_keeps [of h rows "known_lease_ids e w (p_agent_id p) @ map pe_lease rows"
      "file_channel_pending e w (p_agent_id p)"] by (auto simp: pending_merge_def Let_def)
  then have "rows = []" by (cases rows) auto
  then show ?thesis using f pending_rows(1) [OF r] by auto
qed

subsection \<open>Acknowledgement\<close>

lemma update_vault_leases [simp]: "leases (update_vault v f w) = leases w"
  by (simp add: update_vault_def)

lemma write_json_leases: "leases (fst (write_json e v ch name p w)) = leases w"
  by (simp add: write_json_def)

lemma write_all_leases: "write_all e g fs w = (w', ok) \<Longrightarrow> leases w' = leases w"
proof (induction fs arbitrary: w)
  case Nil
  then show ?case by simp
next
  case (Cons f fs)
  obtain w1 b where "write_json e (hf_vault f) (hf_channel f) (hf_name f) (g (hf_packet f)) w = (w1, b)"
    by fastforce
  then show ?case
    using Cons write_json_leases [of e "hf_vault f" "hf_channel f" "hf_name f" "g (hf_packet f)" w]
    by (auto split: if_split_asm)
qed

lemma archive_inbox_file_leases: "archive_inbox_file f w = (w', path) \<Longrightarrow> leases w' = leases w"
  by (auto simp: archive_inbox_file_def Let_def split: option.splits)

lemma archive_files_leases: "archive_files e fs w = (w', paths) \<Longrightarrow> leases w' = leases w"
proof (induction fs arbitrary: w w' paths)
  case Nil
  then show ?case by simp
next
  case (Cons f fs)
  obtain w1 path where a: "archive_inbox_file f w = (w1, path)" by fastforce
  obtain w2 ps where b: "archive_files e fs w1 = (w2, ps)" by fastforce
  show ?case
    using Cons.IH [OF b] Cons.IH [of w w' paths] Cons.prems a b archive_inbox_file_leases [OF a]
    by (cases path) (auto split: if_split_asm)
qed

lemma lease_row_status:
  "lease_row (w\<lparr>leases := update_where (\<lambda>l. ls_lease l = lid) g (leases w)\<rparr>) lid
    = map_option g (lease_row w lid)" if "\<And>l. ls_lease (g l) = ls_lease l"
proof -
  have "find (\<lambda>l. ls_lease l = lid) (update_where (\<lambda>l. ls_lease l = lid) g ls)
      = map_option g (find (\<lambda>l. ls_lease l = lid) ls)" for ls
    by (induction ls) (auto simp: update_where_Cons that update_where_def)
  then show ?thesis by (simp add: lease_row_def)
qed

lemma lease_row_cong: "leases w' = leases w \<Longrightarrow> lease_row w' = lease_row w"
  by (simp add: lease_row_def fun_eq_iff)

lemma no_row_no_change:
  "lease_row w lid = None \<Longrightarrow> update_where (\<lambda>l. ls_lease l = lid) g (leases w) = leases w"
  by (intro update_where_none) (auto simp: lease_row_def find_None_iff)

lemma ack_cases [consumes 1, case_names refused raised acked]:
  assumes "handle_ack_handoff e params who w = (rep, w')"
  obtains code tag where "rep = Fail code tag" and "w' = w"
  | "rep = Raise OSError" and "leases w' = leases w"
  | p lid st r w1 where "who = Inr p" and "lid = param_text params ''lease_id''"
      and "st = param_text params ''status''" and "st \<in> set HANDOFF_ACK_STATUSES"
      and "lease_to_agent e w lid = Some (p_agent_id p)"
      and "leases w1 = leases w"
      and "leases w' = leases (fst (update_handoff_lease_status e lid st (jget params ''contradicts_id'') w1))"
      and "rep = Ok r" and "ar_lease r = lid" and "ar_status r = st"
proof -
  define lid st ct where "lid = param_text params ''lease_id''" and "st = param_text params ''status''"
    and "ct = jget params ''contradicts_id''"
  note u = assms [unfolded handle_ack_handoff_def, folded lid_def st_def ct_def, simplified Let_def]
  show ?thesis
  proof (cases "lid = [] \<or> st \<notin> set HANDOFF_ACK_STATUSES")
    case True
    then show ?thesis using u that(1) by (auto split: if_split_asm)
  next
    case ok: False
    show ?thesis
    proof (cases who)
      case (Inl a)
      then show ?thesis using u ok that(1) by (cases a) auto
    next
      case (Inr p)
      show ?thesis
      proof (cases "lease_to_agent e w lid = Some (p_agent_id p)")
        case False
        then show ?thesis using u ok Inr that(1) by (auto split: option.splits if_split_asm)
      next
        case True
        define files where "files = matching_files e w lid"
        obtain w1 b where w1: "write_all e (ack_updates e st ct) files w = (w1, b)" by fastforce
        note l1 = write_all_leases [OF w1]
        obtain w2 c where w2: "update_handoff_lease_status e lid st ct w1 = (w2, c)" by fastforce
        obtain w3 ar where w3: "archive_files e files w2 = (w3, ar)" by fastforce
        note l3 = archive_files_leases [OF w3]
        show ?thesis
        proof (cases b)
          case False
          then show ?thesis using u ok Inr True w1 l1 that(2) by (simp add: files_def)
        next
          case b: True
          show ?thesis
          proof (cases "files = [] \<and> \<not> c")
            case True
            then have "w1 = w" using w1 by simp
            moreover have "w2 = w1"
              using w2 True no_row_no_change [of w1 lid]
              by (auto simp: update_handoff_lease_status_def split: if_split_asm)
            ultimately show ?thesis
              using u ok Inr \<open>lease_to_agent e w lid = _\<close> w1 w2 b True that(1) by (auto simp: files_def)
          next
            case False
            then have "(rep, w') = (Ok \<lparr>ar_lease = lid, ar_status = st, ar_updated = map file_path files,
                ar_archived = ar\<rparr>, w3)"
              using u ok Inr \<open>lease_to_agent e w lid = _\<close> w1 w2 w3 b by (auto simp: files_def)
            then show ?thesis
              using that(3) [OF Inr lid_def st_def _ True l1] ok l3 w2 by (simp add: ct_def)
          qed
        qed
      qed
    qed
  qed
qed

text \<open>
  C18. Only the agent a lease is addressed to acknowledges it, with one of the four terminal
  statuses; a refused acknowledgement changes nothing.
\<close>

theorem ack_only_by_recipient:
  assumes "handle_ack_handoff e params who w = (rep, w')"
  shows "case rep of
      Ok r \<Rightarrow> \<exists>p. who = Inr p \<and> lease_to_agent e w (ar_lease r) = Some (p_agent_id p)
        \<and> ar_status r \<in> set HANDOFF_ACK_STATUSES
    | Fail code tag \<Rightarrow> w' = w
    | Raise x \<Rightarrow> leases w' = leases w"
  using assms by (cases rule: ack_cases) auto

theorem acked_lease_leaves_listing:
  assumes "handle_ack_handoff e params who w = (Ok r, w')" and "lease_keys w"
    and "lease_row w (ar_lease r) = Some l" and "ls_to l \<noteq> []"
    and "\<not> store_faults e RecipientQuery" and "\<not> store_faults e UpdateLease"
    and "bindable (jget params ''contradicts_id'')" and "\<not> store_faults e' KnownQuery"
    and "handle_list_pending e' who w' = Ok hs"
  shows "ar_lease r \<notin> pe_lease ` set hs
    \<and> (\<exists>l'. lease_row w' (ar_lease r) = Some l' \<and> ls_status l' = ar_status r \<and> ls_to l' = ls_to l)"
  using assms(1)
proof (cases rule: ack_cases)
  case (acked p lid st r' w1)
  define g :: "lease \<Rightarrow> lease" where "g = (\<lambda>l. l\<lparr>ls_status := st, ls_contradicts :=
    (if jget params ''contradicts_id'' = JNull then ls_contradicts l else jget params ''contradicts_id'')\<rparr>)"
  have g: "ls_lease (g x) = ls_lease x" "ls_to (g x) = ls_to x" "ls_status (g x) = st" for x
    by (simp_all add: g_def)
  have w': "leases w' = update_where (\<lambda>l. ls_lease l = lid) g (leases w)"
    using acked assms(6,7) by (simp add: update_handoff_lease_status_def g_def)
  have row: "lease_row w' lid = Some (g l)"
    using lease_row_status [where g = g and w = w and lid = lid, OF g(1)] w' assms(3) acked lease_row_cong [of w']
    by (simp add: lease_row_def)
  have k: "lease_keys w'"
    using assms(2) w' update_where_keys [of ls_lease g] g by (simp add: lease_keys_def)
  have "ls_to l = p_agent_id p"
    using acked assms(3,4,5) by (auto simp: lease_to_agent_def)
  moreover have "st \<noteq> ''pending''" using acked by (auto simp: HANDOFF_ACK_STATUSES_def)
  ultimately have "lid \<notin> pe_lease ` set hs"
    using settled_lease_never_listed [OF k row _ _ assms(8)] g acked assms(9) by simp
  then show ?thesis using row g acked by simp
qed simp_all

subsection \<open>Awaiting ends, and says why\<close>

lemma await_loop_Some:
  "await_loop fuel sees clock lid dl n = Some r \<Longrightarrow>
   \<exists>k \<ge> n. await_poll sees clock lid dl k = Some r \<and> (\<forall>j. n \<le> j \<and> j < k \<longrightarrow> await_poll sees clock lid dl j = None)"
proof (induction fuel arbitrary: n)
  case 0
  then show ?case by simp
next
  case (Suc fuel)
  show ?case
  proof (cases "await_poll sees clock lid dl n")
    case None
    then obtain k where "k \<ge> n + 1" "await_poll sees clock lid dl k = Some r"
        "\<forall>j. n + 1 \<le> j \<and> j < k \<longrightarrow> await_poll sees clock lid dl j = None"
      using Suc by auto
    then show ?thesis using None by (intro exI [of _ k]) (simp, metis Suc_leI le_neq_implies_less)
  next
    case (Some r')
    then show ?thesis using Suc.prems by (intro exI [of _ n]) auto
  qed
qed

lemma await_loop_total:
  "dl \<le> clock (n + k) \<Longrightarrow> k < fuel \<Longrightarrow> \<exists>r. await_loop fuel sees clock lid dl n = Some r"
proof (induction fuel arbitrary: n k)
  case 0
  then show ?case by simp
next
  case (Suc fuel)
  show ?case
  proof (cases "await_poll sees clock lid dl n")
    case (Some r)
    then show ?thesis by simp
  next
    case None
    then have "\<not> dl \<le> clock n" by (auto simp: await_poll_def split: prod.splits option.splits if_split_asm)
    then obtain k' where "k = Suc k'" using Suc.prems by (cases k) auto
    then show ?thesis using None Suc.IH [of "n + 1" k'] Suc.prems by simp
  qed
qed

text \<open>Every turn sleeps at least 50 ms, so the clock at the end of turn \<open>n\<close> has moved on by that much.\<close>

definition sleeps :: "(nat \<Rightarrow> real) \<Rightarrow> real \<Rightarrow> bool" where
  "sleeps clock start \<longleftrightarrow> start \<le> clock 0 \<and> (\<forall>n. clock n + 1 / 20 \<le> clock (n + 1))"

lemma sleeps_lower: "sleeps clock start \<Longrightarrow> start + real n / 20 \<le> clock n"
proof (induction n)
  case 0
  then show ?case by (simp add: sleeps_def)
next
  case (Suc n)
  have "clock n + 1 / 20 \<le> clock (n + 1)" using Suc.prems unfolding sleeps_def by blast
  then show ?case using Suc by (simp add: add_divide_distrib)
qed

text \<open>When the clock does run, 6001 polls are enough for every requested timeout.\<close>

lemma await_enough_polls:
  assumes "sleeps clock start" and "param_text params ''lease_id'' \<noteq> []"
    and "py_int (jget_or (JInt 30000) params ''timeout_ms'') = Some n"
  shows "\<exists>r. handle_await_handoff 6001 params sees start clock = Ok (Some r)"
proof -
  have "of_int (timeout_ms n) \<le> (300000 :: real)" by (simp add: timeout_ms_def)
  then have "start + of_int (timeout_ms n) / 1000 \<le> clock (0 + 6000)"
    using sleeps_lower [OF assms(1), of 6000] by simp
  from await_loop_total [where clock = clock and k = 6000 and fuel = 6001 and n = 0, OF this] show ?thesis
    using assms(2,3) by (simp add: handle_await_handoff_def)
qed

lemma await_loop_iff:
  "(\<exists>r. await_loop fuel sees clock lid dl n = Some r) \<longleftrightarrow>
   (\<exists>k. n \<le> k \<and> k < n + fuel \<and> await_poll sees clock lid dl k \<noteq> None)"
proof (induction fuel arbitrary: n)
  case (Suc fuel)
  show ?case
  proof (cases "await_poll sees clock lid dl n")
    case None
    have "n \<le> k \<and> k < n + Suc fuel \<and> await_poll sees clock lid dl k \<noteq> None \<longleftrightarrow>
        n + 1 \<le> k \<and> k < n + 1 + fuel \<and> await_poll sees clock lid dl k \<noteq> None" for k
      using None by (cases "k = n") auto
    then show ?thesis using None Suc.IH [of "n + 1"] by simp
  next
    case (Some r)
    then show ?thesis by (auto intro: exI [of _ n])
  qed
qed simp

lemma await_poll_iff:
  "await_poll sees clock lid dl k \<noteq> None \<longleftrightarrow>
     (case sees k of (e, w) \<Rightarrow> store_terminal e w lid \<noteq> None \<or> terminal_ack e w lid \<noteq> None \<or> dl \<le> clock k)"
  by (auto simp: await_poll_def split: option.splits prod.splits)

text \<open>
  C20. With a lease id and a readable timeout, awaiting a handoff returns within a number of
  polls exactly when at one of these polls the store or a packet holds a final answer, or the
  clock has reached the deadline, which is at most 300 seconds after the start. Nothing is
  assumed of the wall clock: when it never reaches the deadline and no answer comes, the call
  does not return.
\<close>

theorem await_returns_iff:
  assumes "param_text params ''lease_id'' = lid" and "lid \<noteq> []"
    and "py_int (jget_or (JInt 30000) params ''timeout_ms'') = Some n"
  shows "(\<exists>r. handle_await_handoff fuel params sees start clock = Ok (Some r)) \<longleftrightarrow>
    (\<exists>k < fuel. case sees k of (e, w) \<Rightarrow>
       store_terminal e w lid \<noteq> None \<or> terminal_ack e w lid \<noteq> None
       \<or> start + of_int (max 0 (min n 300000)) / 1000 \<le> clock k)"
proof -
  have "handle_await_handoff fuel params sees start clock
      = Ok (await_loop fuel sees clock lid (start + of_int (timeout_ms n) / 1000) 0)"
    using assms by (simp add: handle_await_handoff_def)
  then show ?thesis
    using await_loop_iff [of fuel sees clock lid "start + of_int (timeout_ms n) / 1000" 0] await_poll_iff
    by (simp add: timeout_ms_def)
qed

lemma await_poll_cases:
  assumes "await_poll sees clock lid dl k = Some r" and "sees k = (e, w)"
  shows "case r of
      Answered st \<Rightarrow> (\<exists>s. store_terminal e w lid = Some s \<and> st = JStr s) \<or> terminal_ack e w lid = Some st
    | TimedOut \<Rightarrow> dl \<le> clock k \<and> \<not> store_faults e StatusQuery \<and> store_terminal e w lid = None
        \<and> terminal_ack e w lid = None
    | StoreFailed \<Rightarrow> dl \<le> clock k \<and> store_faults e StatusQuery \<and> terminal_ack e w lid = None"
  using assms by (auto simp: await_poll_def split: option.splits if_split_asm)

theorem await_answer_sound:
  assumes "handle_await_handoff fuel params sees start clock = Ok (Some r)"
  shows "\<exists>k n. py_int (jget_or (JInt 30000) params ''timeout_ms'') = Some n
    \<and> (let (e, w) = sees k; lid = param_text params ''lease_id'';
              dl = start + of_int (timeout_ms n) / 1000 in
      (\<forall>j < k. \<exists>e' w'. sees j = (e', w') \<and> store_terminal e' w' lid = None \<and> terminal_ack e' w' lid = None
          \<and> clock j < dl)
    \<and> (case r of
        Answered st \<Rightarrow> (\<exists>s. store_terminal e w lid = Some s \<and> st = JStr s) \<or> terminal_ack e w lid = Some st
      | TimedOut \<Rightarrow> dl \<le> clock k \<and> \<not> store_faults e StatusQuery \<and> store_terminal e w lid = None
          \<and> terminal_ack e w lid = None
      | StoreFailed \<Rightarrow> dl \<le> clock k \<and> store_faults e StatusQuery \<and> terminal_ack e w lid = None))"
proof -
  define lid where "lid = param_text params ''lease_id''"
  obtain n where pn: "py_int (jget_or (JInt 30000) params ''timeout_ms'') = Some n"
    and n: "await_loop fuel sees clock lid (start + of_int (timeout_ms n) / 1000) 0 = Some r"
    using assms by (auto simp: handle_await_handoff_def Let_def lid_def split: if_split_asm option.splits)
  define dl where "dl = start + of_int (timeout_ms n) / 1000"
  obtain k where k: "await_poll sees clock lid dl k = Some r" "\<forall>j < k. await_poll sees clock lid dl j = None"
    using await_loop_Some [OF n] by (auto simp: dl_def)
  obtain e w where ew: "sees k = (e, w)" by fastforce
  have "\<exists>e' w'. sees j = (e', w') \<and> store_terminal e' w' lid = None \<and> terminal_ack e' w' lid = None
      \<and> clock j < dl" if "j < k" for j
    using k(2) that by (fastforce simp: await_poll_def split: prod.splits option.splits if_split_asm)
  then show ?thesis
    using await_poll_cases [OF k(1) ew] ew pn
    unfolding Let_def lid_def [symmetric] dl_def [symmetric] by (intro exI [of _ k] exI [of _ n]) (cases r; simp add: dl_def)
qed

subsection \<open>Audit entries cannot be forged\<close>

text \<open>The number of entry headers a reader of a log sees, and texts that have none.\<close>

fun headers :: "bool \<Rightarrow> string \<Rightarrow> nat" where
  "headers b [] = 0"
| "headers b (c # cs) = (if b \<and> starts_with ''## ['' (c # cs) then 1 else 0) + headers (c = LF) cs"

fun no_hash_line :: "bool \<Rightarrow> string \<Rightarrow> bool" where
  "no_hash_line b [] = True"
| "no_hash_line b (c # cs) = (\<not> (b \<and> c = CHR ''#'') \<and> no_hash_line (c = LF) cs)"

definition line_end :: "bool \<Rightarrow> string \<Rightarrow> bool" where
  "line_end b s = (if s = [] then b else last s = LF)"

lemma line_end_Cons: "line_end b (c # cs) = line_end (c = LF) cs"
  by (simp add: line_end_def)

lemma no_hash_headers: "no_hash_line b s \<Longrightarrow> headers b s = 0"
  by (induction s arbitrary: b) (auto simp: starts_with_def)

lemma no_hash_append:
  "no_hash_line b (s @ t) \<longleftrightarrow> no_hash_line b s \<and> no_hash_line (line_end b s) t"
  by (induction s arbitrary: b) (auto simp: line_end_Cons line_end_def)

lemma header_within:
  "last (c # cs) = LF \<Longrightarrow> starts_with ''## ['' ((c # cs) @ t) \<longleftrightarrow> starts_with ''## ['' (c # cs)"
  by (cases cs; cases "tl cs"; cases "tl (tl cs)") (auto simp: starts_with_def LF_def)

lemma headers_append:
  "s = [] \<or> last s = LF \<Longrightarrow> headers b (s @ t) = headers b s + headers (line_end b s) t"
proof (induction s arbitrary: b)
  case Nil
  then show ?case by (simp add: line_end_def)
next
  case (Cons c s)
  have "starts_with ''## ['' (c # s @ t) \<longleftrightarrow> starts_with ''## ['' (c # s)"
    using header_within [of c s t] Cons.prems by simp
  moreover have "headers (c = LF) (s @ t) = headers (c = LF) s + headers (line_end (c = LF) s) t"
    using Cons.IH Cons.prems by (cases "s = []") (simp_all add: line_end_def)
  ultimately show ?case by (simp add: line_end_Cons)
qed

lemma no_hash_inline: "LF \<notin> set s \<Longrightarrow> no_hash_line False s"
  by (induction s) auto

lemma no_hash_one_line: "LF \<notin> set s \<Longrightarrow> \<not> starts_with ''#'' s \<Longrightarrow> no_hash_line True s"
  by (cases s) (auto simp: no_hash_inline starts_with_def)

lemma no_hash_clip: "no_hash_line b v \<Longrightarrow> ell \<noteq> CHR ''#'' \<Longrightarrow> no_hash_line b (clip ell m v)"
  using no_hash_append [of b "take (m - 1) v" "drop (m - 1) v"]
  by (auto simp: clip_def no_hash_append)

lemma clip_one_line: "LF \<notin> set v \<Longrightarrow> ell \<noteq> LF \<Longrightarrow> LF \<notin> set (clip ell m v)"
  by (auto simp: clip_def dest: in_set_takeD)

lemma escape_inline_one_line: "LF \<notin> set (escape_inline v)"
  by (induction v) (auto simp: LF_def)

lemma escape_hash_props:
  "LF \<notin> set v \<Longrightarrow> LF \<notin> set (escape_hash v)" "\<not> starts_with ''#'' (escape_hash v)"
  by (auto simp: escape_hash_def starts_with_def LF_def)

lemma field_one_line: "ell \<noteq> LF \<Longrightarrow> LF \<notin> set (escape_audit_field ell m v)"
  unfolding escape_audit_field_def
  by (intro clip_one_line escape_hash_props(1) escape_inline_one_line)

lemma split_on_pieces: "w \<in> set (split_on x s) \<Longrightarrow> x \<notin> set w"
proof (induction s arbitrary: w)
  case Nil
  then show ?case by simp
next
  case (Cons c s)
  show ?case using Cons by (cases "split_on x s") (auto split: if_split_asm)
qed

lemma no_hash_join:
  "\<forall>l \<in> set ls. no_hash_line True l \<Longrightarrow> no_hash_line True (join_with [LF] ls)"
  by (induction "[LF]" ls rule: join_with.induct) (auto simp: no_hash_append LF_def)

lemma details_no_hash:
  assumes "ell \<noteq> LF" and "ell \<noteq> CHR ''#''"
  shows "no_hash_line True (escape_audit_details_block ell raw)"
  unfolding escape_audit_details_block_def
proof (intro no_hash_clip no_hash_join ballI)
  fix l assume "l \<in> set (map (\<lambda>ln. clip ell AUDIT_DETAIL_LINE_MAX (escape_hash ln)) (split_on LF raw))"
  then obtain ln where ln: "l = clip ell AUDIT_DETAIL_LINE_MAX (escape_hash ln)" "LF \<notin> set ln"
    using split_on_pieces by auto
  have "no_hash_line True (escape_hash ln)"
    using ln(2) escape_hash_props no_hash_one_line by blast
  then show "no_hash_line True l" unfolding ln(1) using assms(2) by (rule no_hash_clip)
qed (rule assms(2))

lemma no_hash_after_LF: "no_hash_line False (LF # t) \<longleftrightarrow> no_hash_line True t"
  by (simp add: LF_def)

lemma no_hash_line_mid:
  "LF \<notin> set s \<Longrightarrow> no_hash_line False (s @ t) \<longleftrightarrow> no_hash_line False t"
proof (induction s)
  case Nil
  then show ?case by simp
next
  case (Cons c s)
  then show ?case by auto
qed

lemma line_end_append: "line_end b (s @ t) = line_end (line_end b s) t"
  by (auto simp: line_end_def)

lemma audit_entry_one_header:
  assumes "LF \<notin> set (now_iso e)" and "ellipsis e \<noteq> LF" and "ellipsis e \<noteq> CHR ''#''"
  shows "headers True (audit_entry e tool summary raw) = 1" and "last (audit_entry e tool summary raw) = LF"
proof -
  define tail where "tail = ''```json'' @ [LF]
     @ escape_audit_details_block (ellipsis e) raw @ [LF] @ ''```'' @ [LF, LF]"
  define rest where "rest = ''# ['' @ now_iso e @ ''] '' @ escape_audit_field (ellipsis e) 200 tool @ '' | ''
     @ escape_audit_field (ellipsis e) AUDIT_SUMMARY_MAX summary @ [LF, LF] @ tail"
  have entry: "audit_entry e tool summary raw = CHR ''#'' # rest"
    by (simp add: audit_entry_def rest_def tail_def)
  have q: "no_hash_line b (''```'' @ [LF, LF])" for b by (simp add: LF_def)
  have "no_hash_line True tail"
    unfolding tail_def
    using details_no_hash [OF assms(2,3), of raw] q by (auto simp: no_hash_append LF_def)
  then have "no_hash_line False rest"
    using field_one_line [OF assms(2)] assms(1)
    unfolding rest_def by (simp add: no_hash_line_mid no_hash_after_LF LF_def)
  then show "headers True (audit_entry e tool summary raw) = 1"
    unfolding entry by (simp add: no_hash_headers LF_def starts_with_def rest_def)
  show "last (audit_entry e tool summary raw) = LF"
    by (simp add: audit_entry_def)
qed

definition audit_history :: "(henv \<times> string \<times> string \<times> json) list \<Rightarrow> string option \<Rightarrow> string option" where
  "audit_history items old =
     fold (\<lambda>(e, tool, summary, details). append_log LOG_HEADER (audit_entry e tool summary (dumps 0 details)))
       items old"

definition plain_clock :: "henv \<Rightarrow> bool" where
  "plain_clock e \<longleftrightarrow> LF \<notin> set (now_iso e) \<and> ellipsis e \<noteq> LF \<and> ellipsis e \<noteq> CHR ''#''"

lemma audit_history_headers:
  assumes "\<forall>it \<in> set items. plain_clock (fst it)" and "text0 = [] \<or> last text0 = LF"
    and "audit_history items (Some text0) = Some t"
  shows "headers True t = headers True text0 + length items \<and> (t = [] \<or> last t = LF)"
  using assms
proof (induction items arbitrary: text0)
  case Nil
  then show ?case by (simp add: audit_history_def)
next
  case (Cons it items)
  obtain e tool summary details where it: "it = (e, tool, summary, details)" by (cases it) auto
  define entry where "entry = audit_entry e tool summary (dumps 0 details)"
  have p: "plain_clock e" using Cons.prems(1) it by simp
  then have h: "headers True entry = 1" "last entry = LF" "entry \<noteq> []"
    using audit_entry_one_header unfolding plain_clock_def entry_def by (auto simp: audit_entry_def)
  have "audit_history items (Some (text0 @ entry)) = Some t"
    using Cons.prems(3) it by (simp add: audit_history_def append_log_def entry_def)
  from Cons.IH [OF _ _ this] h Cons.prems(1,2) headers_append [of text0 True entry]
  show ?case by (auto simp: line_end_def)
qed

text \<open>
  C21. However hostile tool names, summaries and details are, an audit log has exactly one
  entry header per entry written.
\<close>

theorem audit_log_not_forgeable:
  assumes "\<forall>it \<in> set items. plain_clock (fst it)" and "audit_history items None = Some t"
  shows "headers True t = length items"
proof (cases items)
  case Nil
  then show ?thesis using assms(2) by (simp add: audit_history_def)
next
  case (Cons it rest)
  obtain e tool summary details where it: "it = (e, tool, summary, details)" by (cases it) auto
  have "audit_history items (Some LOG_HEADER) = Some t"
    using assms(2) Cons it by (simp add: audit_history_def append_log_def)
  from audit_history_headers [OF assms(1) _ this] show ?thesis
    by (simp add: LOG_HEADER_def LF_def starts_with_def)
qed

subsection \<open>Delivery\<close>

lemma vault_of_update: "vault_of (update_vault v f w) x = (if x = v then f (vault_of w v) else vault_of w x)"
  by (simp add: vault_of_def update_vault_def update_conv')

definition same_files :: "hworld \<Rightarrow> hworld \<Rightarrow> bool" where
  "same_files w w' \<longleftrightarrow> leases w' = leases w \<and>
     (\<forall>v. hv_inbox (vault_of w' v) = hv_inbox (vault_of w v) \<and> hv_outbox (vault_of w' v) = hv_outbox (vault_of w v))"

lemma same_files_trans: "same_files a b \<Longrightarrow> same_files b c \<Longrightarrow> same_files a c"
  by (simp add: same_files_def)

lemma same_files_update:
  "(\<And>x. hv_inbox (f x) = hv_inbox x \<and> hv_outbox (f x) = hv_outbox x) \<Longrightarrow> same_files w (update_vault v f w)"
  by (simp add: same_files_def vault_of_update)

lemma run_steps_same_files:
  "\<forall>f \<in> set fs. \<forall>w. same_files w (fst (f w)) \<Longrightarrow> run_steps fs w = (w', ok) \<Longrightarrow> same_files w w'"
proof (induction fs arbitrary: w)
  case Nil
  then show ?case by (simp add: same_files_def)
next
  case (Cons f fs)
  obtain w1 b where f: "f w = (w1, b)" by fastforce
  have "same_files w w1" using Cons.prems(1) f by (metis fst_conv list.set_intros(1))
  then show ?case
    using Cons f by (auto split: if_split_asm intro: same_files_trans)
qed

lemma ensure_same_files: "same_files w (fst (ensure_handoff_vault e v w))"
  unfolding ensure_handoff_vault_def
  by (auto simp: same_files_def vault_of_update seed_log_def split: option.splits)

lemma page_same_files: "same_files w (fst (compile_handoff_page e v p w))"
  by (auto simp: compile_handoff_page_def same_files_def vault_of_update split: option.splits)

lemma audit_same_files: "same_files w (fst (append_handoff_audit e v tool s d w))"
proof -
  obtain w' ok where r: "append_handoff_audit e v tool s d w = (w', ok)" by fastforce
  show ?thesis
    unfolding r fst_conv
    by (rule run_steps_same_files [OF _ r [unfolded append_handoff_audit_def Let_def]])
      (auto simp: ensure_same_files, (auto simp: same_files_def vault_of_update)+)
qed

lemma find_snoc: "find P (xs @ [x]) = (case find P xs of Some y \<Rightarrow> Some y | None \<Rightarrow> if P x then Some x else None)"
  by (induction xs) auto

lemma upsert_lease_row:
  "\<exists>l'. lease_row (upsert_lease l w) (ls_lease l) = Some l' \<and> l' = l\<lparr>ls_contradicts := ls_contradicts l'\<rparr>"
proof (cases "lease_row w (ls_lease l)")
  case None
  then have "lease_row (upsert_lease l w) (ls_lease l) = Some l"
    by (auto simp: upsert_lease_def lease_row_def find_snoc split: option.splits)
  then show ?thesis by simp
next
  case (Some old)
  define g :: "lease \<Rightarrow> lease" where "g = (\<lambda>r. l\<lparr>ls_contradicts := ls_contradicts r\<rparr>)"
  have u: "upsert_lease l w = w\<lparr>leases := update_where (\<lambda>r. ls_lease r = ls_lease l) g (leases w)\<rparr>"
    using Some by (simp add: upsert_lease_def g_def)
  have "find (\<lambda>r. ls_lease r = ls_lease l) (update_where (\<lambda>r. ls_lease r = ls_lease l) g ls)
      = map_option g (find (\<lambda>r. ls_lease r = ls_lease l) ls)" for ls
    by (induction ls) (auto simp: update_where_Cons g_def, simp add: update_where_def)
  then have "lease_row (upsert_lease l w) (ls_lease l) = Some (g old)"
    using Some u by (simp add: lease_row_def)
  then show ?thesis by (simp add: g_def)
qed

lemma upsert_lease_other:
  "lid \<noteq> ls_lease l \<Longrightarrow> lease_row (upsert_lease l w) lid = lease_row w lid"
proof -
  assume n: "lid \<noteq> ls_lease l"
  have "find (\<lambda>r. ls_lease r = lid) (update_where (\<lambda>r. ls_lease r = ls_lease l)
      (\<lambda>r. l\<lparr>ls_contradicts := ls_contradicts r\<rparr>) ls) = find (\<lambda>r. ls_lease r = lid) ls" for ls
    using n by (induction ls) (auto simp: update_where_Cons, simp add: update_where_def)
  moreover have "find (\<lambda>r. ls_lease r = lid) (ls @ [l]) = find (\<lambda>r. ls_lease r = lid) ls" for ls
    using n by (induction ls) auto
  ultimately show ?thesis by (simp add: upsert_lease_def lease_row_def split: option.splits)
qed

lemma upsert_lease_keys: "lease_keys w \<Longrightarrow> lease_keys (upsert_lease l w)"
proof -
  have k: "map ls_lease (update_where (\<lambda>r. ls_lease r = ls_lease l) (\<lambda>r. l\<lparr>ls_contradicts := ls_contradicts r\<rparr>) ls)
      = map ls_lease ls" for ls
    by (induction ls) (auto simp: update_where_Cons, simp add: update_where_def)
  assume "lease_keys w"
  then show ?thesis
    using k by (auto simp: upsert_lease_def lease_keys_def lease_row_def find_None_iff split: option.splits)
qed

lemma write_json_files:
  "write_json e v ch name p w = (w', True) \<Longrightarrow>
   leases w' = leases w \<and> map_of (channel_files ch (vault_of w' v)) name = Some (Some (JObj p))
   \<and> (\<forall>v' ch' n. (v', ch', n) \<noteq> (v, ch, name) \<longrightarrow>
        map_of (channel_files ch' (vault_of w' v')) n = map_of (channel_files ch' (vault_of w v')) n)"
  by (cases ch) (auto simp: write_json_def vault_of_update update_conv' split: if_split_asm; case_tac ch'; auto simp: update_conv')+


lemma deliver_Ok:
  assumes "deliver e src dst sender recipient packet redacted w = (r, w')" and "ho_delivered r"
  defines "name \<equiv> handoff_packet_filename e packet"
  shows "map_of (hv_inbox (vault_of w' recipient)) name = Some (Some (JObj packet))"
    and "map_of (hv_outbox (vault_of w' sender)) name = Some (Some (JObj packet))"
    and "ho_lease r = py_str (jget packet ''lease_id'')" and "ho_redacted r = redacted"
    and "ho_status r = (if ho_persisted r then ''ok'' else ''degraded'')"
    and "leases w' = (if ho_persisted r
        then leases (upsert_lease (packet_lease e packet (packet_path recipient Inbox name) (packet_path sender Outbox name)) w)
        else leases w)"
proof -
  let ?inbox = "packet_path recipient Inbox name" and ?outbox = "packet_path sender Outbox name"
  note u = assms(1) [unfolded deliver_def, folded name_def, simplified Let_def]
  obtain w1 b where r1: "run_steps [ensure_handoff_vault e sender, ensure_handoff_vault e recipient,
      write_json e sender Outbox name packet, write_json e recipient Inbox name packet] w = (w1, b)" by fastforce
  have b: b using u assms(2) r1 by (cases b) (auto simp: undelivered_def)
  obtain w2 ps where s: "store_handoff_lease e packet ?inbox ?outbox w1 = (w2, ps)" by fastforce
  obtain w3 c where r3: "run_steps [compile_handoff_page e sender packet,
      append_handoff_audit e sender ''handoff_sent'' (py_str (jget packet ''task''))
        (audit_details packet src dst ?inbox ?outbox (page_path e sender packet) redacted ps),
      append_handoff_audit e recipient ''handoff_received'' (py_str (jget packet ''task''))
        (audit_details packet src dst ?inbox ?outbox (page_path e sender packet) redacted ps)] w2 = (w3, c)"
    by fastforce
  have c: c using u assms(2) r1 b s r3 by (cases c) (auto simp: undelivered_def)
  have w3: "w3 = w'" and f: "ho_lease r = py_str (jget packet ''lease_id'')" "ho_redacted r = redacted"
      "ho_persisted r = ps" "ho_status r = (if ps then ''ok'' else ''degraded'')"
    using u r1 b s r3 c by auto
  have same: "same_files w2 w'"
    using run_steps_same_files [OF _ r3] w3 page_same_files audit_same_files by simp
  obtain wa wb wc where st: "ensure_handoff_vault e sender w = (wa, True)"
      "ensure_handoff_vault e recipient wa = (wb, True)"
      "write_json e sender Outbox name packet wb = (wc, True)"
      "write_json e recipient Inbox name packet wc = (w1, True)"
    using r1 b by (auto split: prod.splits if_split_asm)
  have l: "leases w1 = leases w"
    using ensure_same_files [of w e sender] ensure_same_files [of wa e recipient]
      write_json_files [OF st(3)] write_json_files [OF st(4)] st(1,2) by (simp add: same_files_def)
  have files: "map_of (hv_inbox (vault_of w1 recipient)) name = Some (Some (JObj packet))"
      "map_of (hv_outbox (vault_of w1 sender)) name = Some (Some (JObj packet))"
    using write_json_files [OF st(4), THEN conjunct2] write_json_files [OF st(3), THEN conjunct2]
    by (simp, metis channel.distinct(1) channel_files.simps(2) prod.inject)
  have v2: "vaults w2 = vaults w1"
    using s by (auto simp: store_handoff_lease_def upsert_lease_def split: if_split_asm option.splits)
  then have "vault_of w2 = vault_of w1" by (simp add: vault_of_def fun_eq_iff)
  then show "map_of (hv_inbox (vault_of w' recipient)) name = Some (Some (JObj packet))"
    and "map_of (hv_outbox (vault_of w' sender)) name = Some (Some (JObj packet))"
    using files same by (simp_all add: same_files_def)
  show "ho_lease r = py_str (jget packet ''lease_id'')" "ho_redacted r = redacted"
    "ho_status r = (if ho_persisted r then ''ok'' else ''degraded'')" using f by simp_all
  have "leases (upsert_lease x w1) = leases (upsert_lease x w)" for x
    using l by (simp add: upsert_lease_def lease_row_cong [OF l] split: option.splits)
  then show "leases w' = (if ho_persisted r
        then leases (upsert_lease (packet_lease e packet ?inbox ?outbox) w) else leases w)"
    using s l f same by (auto simp: store_handoff_lease_def same_files_def split: if_split_asm)
qed


lemma redacted_object: "\<exists>kvs b. redact_value (JObj p) = (JObj kvs, b)"
  by simp

lemma redacted_get:
  "jget (as_dict (fst (redact_value (JObj p)))) k = (case map_of p k of None \<Rightarrow> JNull | Some v \<Rightarrow> fst (redact_value v))"
proof -
  have "map_of (map (\<lambda>kv. (fst kv, fst (redact_value (snd kv)))) p) k = map_option (\<lambda>v. fst (redact_value v)) (map_of p k)"
    by (induction p) auto
  then show ?thesis by (simp add: as_dict_def jget_or_def split: option.splits)
qed

lemma send_packet_delivered:
  assumes "send_packet e p dst packet w = (Ok r, w')" and "ho_delivered r"
  shows "allows_vault_root (hhost e) p (fst (agent_vault e (p_agent_id p)))"
    and "allows_vault_root (hhost e) p (fst (agent_vault e dst))"
    and "list_all (ref_contained e p (fst (agent_vault e (p_agent_id p)))) (list_items (jget packet ''wikilink_refs''))"
    and "deliver e (p_agent_id p) dst (fst (agent_vault e (p_agent_id p))) (fst (agent_vault e dst))
      (as_dict (fst (redact_value (JObj packet)))) (snd (redact_value (JObj packet))) w = (r, w')"
proof -
  obtain sv sx where s: "agent_vault e (p_agent_id p) = (sv, sx)" by fastforce
  obtain rv rx where d: "agent_vault e dst = (rv, rx)" by fastforce
  obtain rp rb where r: "redact_value (JObj packet) = (rp, rb)" by fastforce
  obtain r' w1 where dl: "deliver e (p_agent_id p) dst sv rv (as_dict rp) rb w = (r', w1)" by fastforce
  note u = assms(1) [unfolded send_packet_def Let_def s d r prod.case dl]
  show "allows_vault_root (hhost e) p (fst (agent_vault e (p_agent_id p)))"
    and "allows_vault_root (hhost e) p (fst (agent_vault e dst))"
    and "list_all (ref_contained e p (fst (agent_vault e (p_agent_id p)))) (list_items (jget packet ''wikilink_refs''))"
    using u s d by (auto split: if_split_asm)
  show "deliver e (p_agent_id p) dst (fst (agent_vault e (p_agent_id p))) (fst (agent_vault e dst))
      (as_dict (fst (redact_value (JObj packet)))) (snd (redact_value (JObj packet))) w = (r, w')"
    using u assms(2) unfolding s d r fst_conv snd_conv dl
    by (auto simp: undelivered_def split: if_split_asm prod.splits bool.splits)
qed

lemma validate_packet_ids:
  assumes "validate_handoff_packet e src dst packet = Inr kvs"
  shows "jget kvs ''from_agent'' = JStr src \<and> jget kvs ''to_agent'' = JStr dst
    \<and> (\<exists>k. jget kvs ''kind'' = JStr k \<and> k \<in> set HANDOFF_KINDS)"
proof -
  obtain raw where raw: "packet = JObj raw" using assms by (cases packet) (auto simp: validate_handoff_packet_def)
  have k: "kvs = packet_defaults e src dst raw" "field_error kvs packet_fields = None"
    and f: "jget kvs ''from_agent'' = JStr src" "jget kvs ''to_agent'' = JStr dst"
      "py_str (jget kvs ''kind'') \<in> set HANDOFF_KINDS"
    using assms unfolding raw by (auto simp: validate_handoff_packet_def Let_def split: option.splits if_split_asm)
  have "\<exists>k. map_of kvs ''kind'' = Some (JStr k)"
    using k(2) by (auto simp: packet_fields_def split: option.splits if_split_asm elim: has_type.elims)
  then show ?thesis using f by (auto simp: jget_or_def)
qed

lemma set_default_adds: "\<exists>xs. set_default k v kvs = kvs @ xs \<and> fst ` set xs \<subseteq> {k}"
  by (auto simp: set_default_def)

lemma packet_defaults_adds:
  "\<exists>xs. packet_defaults e src dst kvs = kvs @ xs \<and> fst ` set xs \<subseteq>
     {''expires_at'', ''requires_ack'', ''lease_id'', ''trace_id'', ''created_at'', ''to_agent'', ''from_agent''}"
proof -
  have step: "\<exists>ys. set_default k v kvs' = kvs @ ys \<and> fst ` set ys \<subseteq> insert k K"
    if "\<exists>xs. kvs' = kvs @ xs \<and> fst ` set xs \<subseteq> K" for k v kvs' K
    using that set_default_adds [of k v kvs'] by force
  have "\<exists>xs. kvs = kvs @ xs \<and> fst ` set xs \<subseteq> {}" by simp
  from step [OF step [OF step [OF step [OF step [OF step [OF step [OF this]]]]]]] show ?thesis
    unfolding packet_defaults_def .
qed

lemma validate_packet_given:
  assumes "validate_handoff_packet e src dst v = Inr kvs"
  obtains raw xs where "v = JObj raw" "kvs = raw @ xs" "fst ` set xs \<subseteq>
     {''expires_at'', ''requires_ack'', ''lease_id'', ''trace_id'', ''created_at'', ''to_agent'', ''from_agent''}"
proof -
  obtain raw where "v = JObj raw" "kvs = packet_defaults e src dst raw"
    using assms by (cases v) (auto simp: validate_handoff_packet_def Let_def split: option.splits if_split_asm)
  then show ?thesis using that packet_defaults_adds [of e src dst raw] by blast
qed

text \<open>
  C11. A delivered handoff is sent by the stamped principal to the recipient of the request,
  between vaults inside the principal's roots, with all links inside the sender's wiki; the
  packet that lies in the recipient's inbox and the sender's outbox is the request's packet,
  completed by default fields only and redacted; when the lease was persisted its row names
  both parties (as redacted) and no other lease changed, and otherwise no lease changed.
\<close>

theorem handoff_delivery:
  assumes "handle_daemon_handoff e params who w = (Ok r, w')" and "ho_delivered r"
  shows "\<exists>p packet raw added. let dst = param_text params ''to_agent''; src = p_agent_id p;
         sent = as_dict (fst (redact_value (JObj packet)));
         name = handoff_packet_filename e sent in
      who = Inr p \<and> jget params ''packet'' = JObj raw \<and> packet = raw @ added
    \<and> fst ` set added \<subseteq> {''expires_at'', ''requires_ack'', ''lease_id'', ''trace_id'', ''created_at'', ''to_agent'', ''from_agent''}
    \<and> jget packet ''from_agent'' = JStr src \<and> jget packet ''to_agent'' = JStr dst
    \<and> allows_vault_root (hhost e) p (fst (agent_vault e src))
    \<and> allows_vault_root (hhost e) p (fst (agent_vault e dst))
    \<and> list_all (ref_contained e p (fst (agent_vault e src))) (list_items (jget packet ''wikilink_refs''))
    \<and> map_of (hv_inbox (vault_of w' (fst (agent_vault e dst)))) name = Some (Some (JObj sent))
    \<and> map_of (hv_outbox (vault_of w' (fst (agent_vault e src)))) name = Some (Some (JObj sent))
    \<and> (ho_status r = ''ok'' \<longleftrightarrow> ho_persisted r)
    \<and> (if ho_persisted r
       then \<exists>l. lease_row w' (ho_lease r) = Some l \<and> ls_from l = fst (redact_text src)
              \<and> ls_to l = fst (redact_text dst)
              \<and> (\<forall>lid. lid \<noteq> ho_lease r \<longrightarrow> lease_row w' lid = lease_row w lid)
       else leases w' = leases w)"
proof -
  define dst where "dst = param_text params ''to_agent''"
  obtain p packet where p: "who = Inr p"
      and v: "validate_handoff_packet e (p_agent_id p) dst (jget params ''packet'') = Inr packet"
      and s: "send_packet e p dst packet w = (Ok r, w')"
    using assms(1) unfolding handle_daemon_handoff_def Let_def dst_def [symmetric]
    by (auto split: if_split_asm sum.splits)
  define sent where "sent = as_dict (fst (redact_value (JObj packet)))"
  note ids = validate_packet_ids [OF v]
  obtain raw added where given: "jget params ''packet'' = JObj raw" "packet = raw @ added" "fst ` set added \<subseteq>
     {''expires_at'', ''requires_ack'', ''lease_id'', ''trace_id'', ''created_at'', ''to_agent'', ''from_agent''}"
    by (rule validate_packet_given [OF v])
  note sd = send_packet_delivered [OF s assms(2)]
  note dl = deliver_Ok [OF sd(4) [folded sent_def] assms(2)]
  have ft: "jget sent ''from_agent'' = JStr (fst (redact_text (p_agent_id p)))"
      "jget sent ''to_agent'' = JStr (fst (redact_text dst))"
    using ids unfolding sent_def redacted_get
    by (auto simp: jget_or_def split: option.splits prod.splits)
  have "\<exists>l. lease_row w' (ho_lease r) = Some l \<and> ls_from l = fst (redact_text (p_agent_id p))
      \<and> ls_to l = fst (redact_text dst) \<and> (\<forall>lid. lid \<noteq> ho_lease r \<longrightarrow> lease_row w' lid = lease_row w lid)"
    if "ho_persisted r"
  proof -
    let ?l = "packet_lease e sent
      (packet_path (fst (agent_vault e dst)) Inbox (handoff_packet_filename e sent))
      (packet_path (fst (agent_vault e (p_agent_id p))) Outbox (handoff_packet_filename e sent))"
    have id: "ls_lease ?l = ho_lease r" "ls_from ?l = fst (redact_text (p_agent_id p))"
        "ls_to ?l = fst (redact_text dst)"
      using dl(3) ft by (simp_all add: packet_lease_def)
    have "lease_row w' = lease_row (upsert_lease ?l w)"
      by (rule lease_row_cong) (use dl(6) that in simp)
    moreover obtain l' where "lease_row (upsert_lease ?l w) (ls_lease ?l) = Some l'"
        "l' = ?l\<lparr>ls_contradicts := ls_contradicts l'\<rparr>" using upsert_lease_row by blast
    moreover from this(2) have "ls_from l' = ls_from ?l" "ls_to l' = ls_to ?l"
      by (metis lease.select_convs(2) lease.surjective lease.update_convs(6), metis lease.select_convs(3) lease.surjective lease.update_convs(6))
    ultimately show ?thesis using id upsert_lease_other by metis
  qed
  moreover have "leases w' = leases w" if "\<not> ho_persisted r" using dl(6) that by simp
  ultimately show ?thesis
    using p ids sd(1-3) dl(1,2,5) given unfolding Let_def dst_def [symmetric]
    by (intro exI [of _ p] exI [of _ packet] exI [of _ raw] exI [of _ added]) (simp add: sent_def)
qed

definition demo_host :: host where
  "demo_host = \<lparr>environ = (\<lambda>_. None), resolve_path = (\<lambda>p. Some (filter (\<lambda>w. w \<noteq> []) (split_on (CHR ''/'') p))),
     expand_user = (\<lambda>p. Some p), chmod_works = True\<rparr>"

definition demo_henv :: henv where
  "demo_henv = \<lparr>hhost = demo_host, loads = (\<lambda>_. None), canonical_home = ''/m'', hnow = 10,
     now_iso = ''2026-01-01T00:00:00Z'', stamp_text = ''20260101T000000Z'', uuid_text = ''u1'',
     uuid_hex = ''0123456789abcdef'', iso_ts = (\<lambda>_. None), iso_text = (\<lambda>_. ''2026-01-02''),
     hsha1 = (\<lambda>s. s), ellipsis = CHR 0x85, store_faults = (\<lambda>_. False), path_faults = (\<lambda>_. False)\<rparr>"

definition demo_sender :: effective_principal where
  "demo_sender = \<lparr>p_agent_id = ''a'', p_workspace_id = ''default'', p_session_id = JNull,
     p_transport = ''uds'', p_capabilities = [], p_allowed_vault_roots = [''/m''],
     p_auto_accept_own = False, p_deny_reason = None\<rparr>"

definition demo_handoff :: jobj where
  "demo_handoff = [(''from_agent'', JStr ''a''), (''to_agent'', JStr ''b''),
     (''packet'', JObj [(''kind'', JStr ''request''), (''task'', JStr ''t''), (''envelope'', JStr ''e''),
        (''wikilink_refs'', JList []), (''lease_id'', JStr ''L'')])]"

definition demo_lease :: lease where
  "demo_lease = \<lparr>ls_lease = ''L'', ls_from = ''codex'', ls_to = ''claude-code'', ls_task = JStr ''x'',
     ls_status = ''pending'', ls_contradicts = JNull, ls_inbox = ''i'', ls_outbox = ''o'',
     ls_created = 1, ls_expires = None\<rparr>"

definition demo_world :: hworld where
  "demo_world = \<lparr>leases = [demo_lease], vaults = []\<rparr>"


lemma demo_clean: "\<not> leaks ''L''" "\<not> leaks ''a''" "\<not> leaks ''b''"
  by code_simp+

lemma demo_redact: "redact_text ''L'' = (''L'', False)" "redact_text ''a'' = (''a'', False)"
  "redact_text ''b'' = (''b'', False)"
  by (rule redact_unchanged_iff [THEN iffD2], rule conjI [OF refl], rule demo_clean)+

lemma run_steps_total:
  assumes "\<forall>f \<in> set fs. \<forall>w. snd (f w)"
  shows "snd (run_steps fs w)"
  using assms
proof (induction fs arbitrary: w)
  case Nil
  then show ?case by simp
next
  case (Cons f fs)
  obtain w1 b where f: "f w = (w1, b)" by fastforce
  have "snd (f w)" using Cons.prems by simp
  then show ?case using f Cons by simp
qed

lemma deliver_total:
  assumes "\<And>x. \<not> path_faults e x" and "\<not> store_faults e StoreLease"
    and "bindable (jget packet ''contradicts_id'')"
  shows "\<exists>r w'. deliver e src dst sender recipient packet redacted w = (r, w') \<and> ho_delivered r \<and> ho_persisted r
    \<and> ho_lease r = py_str (jget packet ''lease_id'')"
proof -
  have en: "snd (ensure_handoff_vault e v w)" for v w using assms(1) by (simp add: ensure_handoff_vault_def)
  have wr: "snd (write_json e v ch n p w)" for v ch n p w using assms(1) by (simp add: write_json_def)
  have pg: "snd (compile_handoff_page e v p w)" for v p w
    using assms(1) by (simp add: compile_handoff_page_def split: option.splits)
  have au: "snd (append_handoff_audit e v t s d w)" for v t s d w
    unfolding append_handoff_audit_def Let_def by (rule run_steps_total) (simp add: en assms(1))
  let ?name = "handoff_packet_filename e packet"
  have step: "\<exists>w'. run_steps fs w = (w', True)" if "\<forall>f \<in> set fs. \<forall>w. snd (f w)" for fs w
    using run_steps_total [OF that, of w] by (metis prod.collapse)
  obtain w1 where 1: "run_steps [ensure_handoff_vault e sender, ensure_handoff_vault e recipient,
      write_json e sender Outbox ?name packet, write_json e recipient Inbox ?name packet] w = (w1, True)"
    using step [of "[ensure_handoff_vault e sender, ensure_handoff_vault e recipient,
      write_json e sender Outbox ?name packet, write_json e recipient Inbox ?name packet]" w] en wr
    by (simp del: run_steps.simps) blast
  obtain w2 where 2: "store_handoff_lease e packet (packet_path recipient Inbox ?name)
      (packet_path sender Outbox ?name) w1 = (w2, True)"
    using assms(2,3) by (simp add: store_handoff_lease_def)
  let ?d = "audit_details packet src dst (packet_path recipient Inbox ?name) (packet_path sender Outbox ?name)
    (page_path e sender packet) redacted True"
  let ?t = "py_str (jget packet ''task'')"
  obtain w3 where 3: "run_steps [compile_handoff_page e sender packet,
      append_handoff_audit e sender ''handoff_sent'' ?t ?d,
      append_handoff_audit e recipient ''handoff_received'' ?t ?d] w2 = (w3, True)"
    using step [of "[compile_handoff_page e sender packet,
      append_handoff_audit e sender ''handoff_sent'' ?t ?d,
      append_handoff_audit e recipient ''handoff_received'' ?t ?d]" w2] pg au
    by (simp del: run_steps.simps) blast
  show ?thesis by (simp add: deliver_def Let_def 1 2 3 del: run_steps.simps)
qed

definition demo_packet :: jobj where
  "demo_packet = packet_defaults demo_henv ''a'' ''b'' (as_dict (jget demo_handoff ''packet''))"

lemma demo_packet_valid: "validate_handoff_packet demo_henv ''a'' ''b'' (jget demo_handoff ''packet'') = Inr demo_packet"
proof -
  have o: "jget demo_handoff ''packet'' = JObj (as_dict (jget demo_handoff ''packet''))"
    by (simp add: demo_handoff_def as_dict_def jget_or_def)
  have "field_error demo_packet packet_fields = None" "jget demo_packet ''from_agent'' = JStr ''a''"
     "jget demo_packet ''to_agent'' = JStr ''b''" "py_str (jget demo_packet ''kind'') \<in> set HANDOFF_KINDS"
     "list_all ref_ok (list_items (jget demo_packet ''wikilink_refs''))"
    by code_simp+
  then show ?thesis
    by (subst o) (simp add: validate_handoff_packet_def Let_def demo_packet_def [symmetric])
qed

lemma demo_packet_fields:
  "jget demo_packet ''lease_id'' = JStr ''L''" "map_of demo_packet ''contradicts_id'' = None"
  "jget demo_packet ''wikilink_refs'' = JList []"
  by (simp_all add: demo_packet_def demo_handoff_def as_dict_def packet_defaults_def set_default_def jget_or_def has_key_def)

lemma demo_roots:
  "allows_vault_root demo_host demo_sender (fst (agent_vault demo_henv ''a''))"
  "allows_vault_root demo_host demo_sender (fst (agent_vault demo_henv ''b''))"
  "create_missing_vaults demo_henv"
  by code_simp+

subsection \<open>The lease table as an interface\<close>

locale lease_op =
  fixes op :: "'a \<Rightarrow> hworld \<Rightarrow> hworld"
  assumes op_keys: "lease_keys w \<Longrightarrow> lease_keys (op a w)"
begin

lemma history_keys: "lease_keys w \<Longrightarrow> lease_keys (fold op as w)"
  by (induction as arbitrary: w) (simp_all add: op_keys)

lemma history_row_unique:
  assumes "lease_keys w" and "l \<in> set (leases (fold op as w))"
  shows "lease_row (fold op as w) (ls_lease l) = Some l"
proof -
  have "distinct (map ls_lease ls) \<Longrightarrow> x \<in> set ls \<Longrightarrow> find (\<lambda>r. ls_lease r = ls_lease x) ls = Some x"
    for ls and x :: lease
    by (induction ls) (auto simp: image_iff)
  then show ?thesis
    using history_keys [OF assms(1)] assms(2) by (simp add: lease_keys_def lease_row_def)
qed

end

lemma lease_keys_cong: "leases w' = leases w \<Longrightarrow> lease_keys w' = lease_keys w"
  by (simp add: lease_keys_def)

lemma same_files_leases: "same_files w w' \<Longrightarrow> leases w' = leases w"
  by (simp add: same_files_def)

lemma ack_keeps_keys:
  assumes "handle_ack_handoff e params who w = (rep, w')" and "lease_keys w"
  shows "lease_keys w'"
  using assms(1)
proof (cases rule: ack_cases)
  case (acked p lid st r w1)
  have "map ls_lease (leases (fst (update_handoff_lease_status e lid st ct w1))) = map ls_lease (leases w1)" for ct
    by (simp add: update_handoff_lease_status_def update_where_keys)
  then show ?thesis using acked(6,7) assms(2) by (simp add: lease_keys_def)
next
  case (refused code tag)
  then show ?thesis using assms(2) by simp
next
  case raised
  then show ?thesis using assms(2) lease_keys_cong by blast
qed

lemma run_steps_leases:
  "\<forall>f \<in> set fs. \<forall>w. leases (fst (f w)) = leases w \<Longrightarrow> run_steps fs w = (w', ok) \<Longrightarrow> leases w' = leases w"
proof (induction fs arbitrary: w)
  case Nil
  then show ?case by simp
next
  case (Cons f fs)
  obtain w1 b where f: "f w = (w1, b)" by fastforce
  then have "leases w1 = leases w" using Cons.prems(1) by (metis fst_conv list.set_intros(1))
  then show ?case using Cons f by (auto split: if_split_asm)
qed

lemma step_leases:
  "leases (fst (ensure_handoff_vault e v w)) = leases w"
  "leases (fst (compile_handoff_page e v p w)) = leases w"
  "leases (fst (append_handoff_audit e v t s d w)) = leases w"
  by (rule same_files_leases [OF ensure_same_files] same_files_leases [OF page_same_files]
      same_files_leases [OF audit_same_files])+

lemma store_lease_keys:
  "store_handoff_lease e p i out w = (w', b) \<Longrightarrow> lease_keys w \<Longrightarrow> lease_keys w'"
  by (auto simp: store_handoff_lease_def upsert_lease_keys split: if_split_asm)

lemma deliver_keys:
  assumes "deliver e src dst sender recipient packet redacted w = (r, w')" and "lease_keys w"
  shows "lease_keys w'"
proof -
  let ?name = "handoff_packet_filename e packet"
  let ?in = "packet_path recipient Inbox ?name" and ?out = "packet_path sender Outbox ?name"
  obtain w1 b where 1: "run_steps [ensure_handoff_vault e sender, ensure_handoff_vault e recipient,
      write_json e sender Outbox ?name packet, write_json e recipient Inbox ?name packet] w = (w1, b)" by fastforce
  have k1: "lease_keys w1"
    by (rule lease_keys_cong [THEN iffD2, OF run_steps_leases [OF _ 1] assms(2)])
      (simp add: step_leases write_json_leases)
  obtain w2 ps where 2: "store_handoff_lease e packet ?in ?out w1 = (w2, ps)" by fastforce
  have k2: "lease_keys w2" using store_lease_keys [OF 2 k1] .
  let ?d = "audit_details packet src dst ?in ?out (page_path e sender packet) redacted ps"
  obtain w3 c where 3: "run_steps [compile_handoff_page e sender packet,
      append_handoff_audit e sender ''handoff_sent'' (py_str (jget packet ''task'')) ?d,
      append_handoff_audit e recipient ''handoff_received'' (py_str (jget packet ''task'')) ?d] w2 = (w3, c)"
    by fastforce
  have "lease_keys w3"
    by (rule lease_keys_cong [THEN iffD2, OF run_steps_leases [OF _ 3] k2]) (simp add: step_leases)
  then show ?thesis
    using assms(1) [unfolded deliver_def Let_def 1 prod.case 2 3] k1 by (cases b; cases c) auto
qed

lemma send_packet_keys:
  assumes "send_packet e p dst packet w = (rep, w')" and "lease_keys w"
  shows "lease_keys w'"
proof -
  obtain sv sx where s: "agent_vault e (p_agent_id p) = (sv, sx)" by fastforce
  obtain rv rx where d: "agent_vault e dst = (rv, rx)" by fastforce
  obtain rp rb where r: "redact_value (JObj packet) = (rp, rb)" by fastforce
  obtain r' w1 where dl: "deliver e (p_agent_id p) dst sv rv (as_dict rp) rb w = (r', w1)" by fastforce
  obtain w2 b where en: "ensure_handoff_vault e sv w = (w2, b)" by fastforce
  have "lease_keys w1" by (rule deliver_keys [OF dl assms(2)])
  moreover have "lease_keys w2"
    using step_leases(1) [of e sv w] en assms(2) lease_keys_cong [of w2 w] by simp
  ultimately show ?thesis
    using assms unfolding send_packet_def Let_def s d r prod.case dl en
    by (cases b) (auto split: if_split_asm)
qed

lemma send_keeps_keys:
  assumes "handle_daemon_handoff e params who w = (rep, w')" and "lease_keys w"
  shows "lease_keys w'"
  using assms send_packet_keys unfolding handle_daemon_handoff_def Let_def
  by (auto split: if_split_asm sum.splits)

datatype handoff_call = Send henv jobj stamp | Ack henv jobj stamp

fun handoff_step :: "handoff_call \<Rightarrow> hworld \<Rightarrow> hworld" where
  "handoff_step (Send e params who) w = snd (handle_daemon_handoff e params who w)"
| "handoff_step (Ack e params who) w = snd (handle_ack_handoff e params who w)"

interpretation handoff_table: lease_op handoff_step
proof
  fix w a assume "lease_keys w"
  then show "lease_keys (handoff_step a w)"
    using send_keeps_keys ack_keeps_keys by (cases a) (metis handoff_step.simps prod.collapse)+
qed

theorem lease_ids_stay_unique:
  "distinct (map ls_lease (leases (fold handoff_step calls (w\<lparr>leases := []\<rparr>))))"
  using handoff_table.history_keys [of "w\<lparr>leases := []\<rparr>" calls] by (simp add: lease_keys_def)

text \<open>
  A resend with a caller-chosen lease id replaces the lease row whoever sent the first one.
\<close>

text \<open>
  C39. A delivered and persisted handoff whose lease id is already that of a lease of another
  recipient replaces that lease's sender, recipient and status (the names as redacted),
  whoever sends it; from then on the lease's recipient, as an acknowledgement reads it while
  the store answers, is no longer the old one.
\<close>

theorem resend_takes_over_lease:
  assumes "handle_daemon_handoff e params who w = (Ok r, w')" and "ho_delivered r" and "ho_persisted r"
    and "lease_row w (ho_lease r) = Some old" and "ls_to old \<noteq> fst (redact_text (param_text params ''to_agent''))"
    and "fst (redact_text (param_text params ''to_agent'')) \<noteq> []"
    and "\<not> store_faults e2 RecipientQuery"
  shows "\<exists>l p. who = Inr p \<and> lease_row w' (ho_lease r) = Some l
    \<and> ls_from l = fst (redact_text (p_agent_id p)) \<and> ls_to l = fst (redact_text (param_text params ''to_agent''))
    \<and> ls_status l \<in> {''pending'', ''not_required''}
    \<and> lease_to_agent e2 w' (ho_lease r) \<noteq> Some (ls_to old)"
proof -
  define dst where "dst = param_text params ''to_agent''"
  obtain p packet where p: "who = Inr p" and s: "send_packet e p dst packet w = (Ok r, w')"
      and v: "validate_handoff_packet e (p_agent_id p) dst (jget params ''packet'') = Inr packet"
    using assms(1) unfolding handle_daemon_handoff_def Let_def dst_def [symmetric]
    by (auto split: if_split_asm sum.splits)
  define sent where "sent = as_dict (fst (redact_value (JObj packet)))"
  note dl = deliver_Ok [OF send_packet_delivered(4) [OF s assms(2), folded sent_def] assms(2)]
  let ?l = "packet_lease e sent
      (packet_path (fst (agent_vault e dst)) Inbox (handoff_packet_filename e sent))
      (packet_path (fst (agent_vault e (p_agent_id p))) Outbox (handoff_packet_filename e sent))"
  have "jget sent ''to_agent'' = JStr (fst (redact_text dst))"
      "jget sent ''from_agent'' = JStr (fst (redact_text (p_agent_id p)))"
    using validate_packet_ids [OF v] unfolding sent_def redacted_get
    by (auto simp: jget_or_def split: option.splits prod.splits)
  then have l: "ls_lease ?l = ho_lease r" "ls_to ?l = fst (redact_text dst)" "ls_from ?l = fst (redact_text (p_agent_id p))"
      "ls_status ?l \<in> {''pending'', ''not_required''}"
    using dl(3) by (simp_all add: packet_lease_def)
  obtain l' where l': "lease_row (upsert_lease ?l w) (ls_lease ?l) = Some l'"
      "l' = ?l\<lparr>ls_contradicts := ls_contradicts l'\<rparr>" using upsert_lease_row by blast
  have e: "ls_to l' = ls_to ?l" "ls_status l' = ls_status ?l" "ls_from l' = ls_from ?l"
    by (subst l'(2), simp)+
  have "lease_row w' = lease_row (upsert_lease ?l w)"
    by (rule lease_row_cong) (use dl(6) assms(3) in simp)
  then have row: "lease_row w' (ho_lease r) = Some l'" using l'(1) l(1) by simp
  have "lease_to_agent e2 w' (ho_lease r) = Some (ls_to l')"
    using row assms(6,7) e l by (simp add: lease_to_agent_def dst_def)
  then show ?thesis using p row e l assms(5) by (auto simp: dst_def)
qed

subsection \<open>Concrete runs\<close>

definition empty_world :: hworld where
  "empty_world = \<lparr>leases = [], vaults = []\<rparr>"

definition demo_recipient :: effective_principal where
  "demo_recipient = demo_sender\<lparr>p_agent_id := ''claude-code''\<rparr>"

definition demo_ack :: jobj where
  "demo_ack = [(''lease_id'', JStr ''L''), (''status'', JStr ''accepted'')]"

lemma demo_host_of [simp]: "hhost demo_henv = demo_host"
  by (simp add: demo_henv_def)

lemma demo_no_faults [simp]: "\<not> store_faults demo_henv c" "\<not> path_faults demo_henv x"
  by (simp_all add: demo_henv_def)

lemma demo_sent:
  obtains r w' where "handle_daemon_handoff demo_henv demo_handoff (Inr demo_sender) demo_world = (Ok r, w')"
    and "ho_delivered r" and "ho_persisted r" and "ho_lease r = ''L''"
proof -
  define sent where "sent = as_dict (fst (redact_value (JObj demo_packet)))"
  have ct: "bindable (jget sent ''contradicts_id'')"
    unfolding sent_def redacted_get demo_packet_fields by simp
  have "map_of demo_packet ''lease_id'' = Some (JStr ''L'')"
    using demo_packet_fields(1) by (auto simp: jget_or_def split: option.splits)
  then have lid: "jget sent ''lease_id'' = JStr ''L''"
    unfolding sent_def redacted_get using demo_redact by simp
  let ?sv = "fst (agent_vault demo_henv ''a'')" and ?rv = "fst (agent_vault demo_henv ''b'')"
  obtain r w' where d: "deliver demo_henv ''a'' ''b'' ?sv ?rv sent (snd (redact_value (JObj demo_packet))) demo_world = (r, w')"
      and r: "ho_delivered r" "ho_persisted r" "ho_lease r = ''L''"
    using deliver_total [of demo_henv sent, OF _ _ ct] lid by fastforce
  have a: "p_agent_id demo_sender = ''a''" by (simp add: demo_sender_def)
  have "send_packet demo_henv demo_sender ''b'' demo_packet demo_world = (Ok r, w')"
    using d demo_roots demo_packet_fields(3)
    unfolding send_packet_def Let_def a
    by (simp add: sent_def split_beta del: redact_value.simps)
  moreover have "param_text demo_handoff ''from_agent'' = ''a''" "param_text demo_handoff ''to_agent'' = ''b''"
    by code_simp+
  ultimately have "handle_daemon_handoff demo_henv demo_handoff (Inr demo_sender) demo_world = (Ok r, w')"
    using demo_packet_valid by (simp add: handle_daemon_handoff_def Let_def a)
  then show ?thesis using r that by blast
qed

lemma demo_acked:
  obtains r w' where "handle_ack_handoff demo_henv demo_ack (Inr demo_recipient) demo_world = (Ok r, w')"
    and "ar_lease r = ''L''"
proof -
  have p: "param_text demo_ack ''lease_id'' = ''L''" "param_text demo_ack ''status'' = ''accepted''"
      "jget demo_ack ''contradicts_id'' = JNull"
    by code_simp+
  have l: "lease_row demo_world ''L'' = Some demo_lease"
    by (simp add: lease_row_def demo_world_def demo_lease_def)
  have t: "lease_to_agent demo_henv demo_world ''L'' = Some (p_agent_id demo_recipient)"
    using l by (simp add: lease_to_agent_def demo_lease_def demo_recipient_def)
  have "known_agent_vaults demo_henv demo_world = []"
    by (simp add: known_agent_vaults_def home_vaults_def vault_mapping_def demo_host_def demo_world_def
        first_occurrences_def Let_def)
  then have f: "matching_files demo_henv demo_world ''L'' = []"
    by (simp add: matching_files_def iter_handoff_files_def)
  have s: "''accepted'' \<in> set HANDOFF_ACK_STATUSES" by (simp add: HANDOFF_ACK_STATUSES_def)
  obtain r w' where "handle_ack_handoff demo_henv demo_ack (Inr demo_recipient) demo_world = (Ok r, w')"
      "ar_lease r = ''L''"
    by (simp add: handle_ack_handoff_def Let_def p t f s update_handoff_lease_status_def l)
  then show ?thesis by (rule that)
qed

lemma demo_keys: "lease_keys demo_world" "lease_keys empty_world"
  by (simp_all add: lease_keys_def demo_world_def empty_world_def)

lemma demo_listing: "handle_list_pending demo_henv (Inr demo_sender) empty_world = Ok []"
proof -
  have "file_channel_pending demo_henv empty_world ''a'' = []"
    by (simp add: file_channel_pending_def iter_handoff_files_def channel_packets_def vault_of_def
        empty_world_def empty_vault_def map_filter_def)
  then show ?thesis
    by (simp add: list_pending_Ok pending_merge_def pending_handoff_leases_def empty_world_def demo_sender_def)
qed

text \<open>A recipient with an open lease in the store and a packet on the file channel only.\<close>

definition busy_world :: hworld where
  "busy_world = \<lparr>leases = [demo_lease],
     vaults = [(''/m/claudecode-vault'', empty_vault\<lparr>hv_inbox := [(''x.json'', Some (JObj
       [(''lease_id'', JStr ''M''), (''from_agent'', JStr ''codex''), (''to_agent'', JStr ''claude-code''),
        (''requires_ack'', JBool True)]))]\<rparr>)]\<rparr>"

lemma busy_listing:
  "case handle_list_pending demo_henv (Inr demo_recipient) busy_world of
     Ok hs \<Rightarrow> map pe_lease hs = [''L'', ''M''] | _ \<Rightarrow> False"
  by code_simp

lemma busy_file: "\<exists>h. h \<in> set (file_channel_pending demo_henv busy_world ''claude-code'') \<and> pe_lease h = ''M''"
proof -
  have "map pe_lease (file_channel_pending demo_henv busy_world ''claude-code'') = [''M'']" by code_simp
  then have "''M'' \<in> set (map pe_lease (file_channel_pending demo_henv busy_world ''claude-code''))"
    by (rule ssubst) simp
  then obtain h where h: "h \<in> set (file_channel_pending demo_henv busy_world ''claude-code'')" "''M'' = pe_lease h"
    by (simp only: set_map image_iff) (erule bexE)
  show ?thesis by (rule exI [of _ h], rule conjI [OF h(1) h(2) [symmetric]])
qed


theorem empty_listing_means_empty_witness:
  "handle_list_pending demo_henv (Inr demo_sender) empty_world = Ok [] \<and> \<not> store_faults demo_henv PendingQuery"
  using empty_listing_means_empty [OF demo_listing] demo_listing by simp

theorem ack_only_by_recipient_witness:
  "\<exists>r w'. handle_ack_handoff demo_henv demo_ack (Inr demo_recipient) demo_world = (Ok r, w')
     \<and> lease_to_agent demo_henv demo_world (ar_lease r) = Some (p_agent_id demo_recipient)"
proof -
  obtain r w' where a: "handle_ack_handoff demo_henv demo_ack (Inr demo_recipient) demo_world = (Ok r, w')"
    by (rule demo_acked)
  from ack_only_by_recipient [OF a] a show ?thesis by auto
qed

lemma demo_pending_merge_total: "\<exists>hs. handle_list_pending demo_henv (Inr demo_recipient) w = Ok hs"
  by (simp add: list_pending_Ok demo_recipient_def)

theorem settled_lease_never_listed_witness:
  "\<exists>hs. handle_list_pending demo_henv (Inr demo_recipient)
      (demo_world\<lparr>leases := [demo_lease\<lparr>ls_status := ''accepted''\<rparr>]\<rparr>) = Ok hs \<and> ''L'' \<notin> pe_lease ` set hs"
proof -
  let ?w = "demo_world\<lparr>leases := [demo_lease\<lparr>ls_status := ''accepted''\<rparr>]\<rparr>"
  obtain hs where hs: "handle_list_pending demo_henv (Inr demo_recipient) ?w = Ok hs"
    using demo_pending_merge_total by blast
  have k: "lease_keys ?w" by (simp add: lease_keys_def)
  have r: "lease_row ?w ''L'' = Some (demo_lease\<lparr>ls_status := ''accepted''\<rparr>)"
    by (simp add: lease_row_def demo_lease_def)
  from settled_lease_never_listed [OF k r _ _ _ hs] hs show ?thesis
    by (simp add: demo_lease_def demo_recipient_def)
qed

theorem acked_lease_leaves_listing_witness:
  "\<exists>r w' hs. handle_ack_handoff demo_henv demo_ack (Inr demo_recipient) demo_world = (Ok r, w')
     \<and> handle_list_pending demo_henv (Inr demo_recipient) w' = Ok hs \<and> ''L'' \<notin> pe_lease ` set hs"
proof -
  obtain r w' where a: "handle_ack_handoff demo_henv demo_ack (Inr demo_recipient) demo_world = (Ok r, w')"
      "ar_lease r = ''L''"
    by (rule demo_acked)
  obtain hs where hs: "handle_list_pending demo_henv (Inr demo_recipient) w' = Ok hs"
    using demo_pending_merge_total by blast
  have l: "lease_row demo_world (ar_lease r) = Some demo_lease"
    using a(2) by (simp add: lease_row_def demo_world_def demo_lease_def)
  have b: "bindable (jget demo_ack ''contradicts_id'')" by code_simp
  from acked_lease_leaves_listing [OF a(1) demo_keys(1) l _ _ _ b _ hs] a hs show ?thesis
    by (simp add: demo_lease_def)
qed

definition demo_clock :: "nat \<Rightarrow> real" where
  "demo_clock n = real (n + 1) / 20"

definition demo_sees :: "nat \<Rightarrow> henv \<times> hworld" where
  "demo_sees n = (demo_henv, demo_world\<lparr>leases := [demo_lease\<lparr>ls_status := ''accepted''\<rparr>]\<rparr>)"

definition demo_await :: jobj where
  "demo_await = [(''lease_id'', JStr ''L''), (''timeout_ms'', JInt 1000)]"

lemma demo_await_params:
  "param_text demo_await ''lease_id'' \<noteq> []" "py_int (jget_or (JInt 30000) demo_await ''timeout_ms'') = Some 1000"
  by code_simp+

theorem await_returns_iff_witness:
  "\<exists>r. handle_await_handoff 21 demo_await demo_sees 0 demo_clock = Ok (Some r)"
  by (subst await_returns_iff [OF refl demo_await_params]) (auto simp: demo_clock_def intro!: exI [of _ 20])

theorem await_answer_sound_witness:
  "\<exists>r. handle_await_handoff 1 demo_await demo_sees 0 demo_clock = Ok (Some r)
     \<and> (\<exists>k. store_terminal (fst (demo_sees k)) (snd (demo_sees k)) ''L'' = Some ''accepted'')"
proof -
  have l: "param_text demo_await ''lease_id'' = ''L''" by code_simp
  have a: "handle_await_handoff 1 demo_await demo_sees 0 demo_clock = Ok (Some (Answered (JStr ''accepted'')))"
    by (simp add: handle_await_handoff_def demo_await_params l await_poll_def demo_sees_def store_terminal_def
        lease_row_def demo_lease_def)
  have t: "terminal_ack (fst (demo_sees k)) (snd (demo_sees k)) ''L'' = None" for k
    by (simp add: terminal_ack_def iter_handoff_files_def demo_sees_def demo_world_def known_agent_vaults_def
        home_vaults_def vault_mapping_def demo_host_def first_occurrences_def Let_def)
  show ?thesis using await_answer_sound [OF a] a t by (fastforce simp: l Let_def split_beta)
qed

theorem audit_log_not_forgeable_witness:
  "headers True (the (audit_history [(demo_henv, ''t'', LF # ''## [x'', JStr ''d'')] None)) = 1"
proof -
  have p: "\<forall>it \<in> set [(demo_henv, ''t'', LF # ''## [x'', JStr ''d'')]. plain_clock (fst it)"
    by (simp add: plain_clock_def demo_henv_def LF_def)
  show ?thesis
    using audit_log_not_forgeable [OF p] by (simp add: audit_history_def append_log_def)
qed

theorem handoff_delivery_witness:
  "\<exists>r w' name sent. handle_daemon_handoff demo_henv demo_handoff (Inr demo_sender) demo_world = (Ok r, w')
     \<and> map_of (hv_inbox (vault_of w' (fst (agent_vault demo_henv (param_text demo_handoff ''to_agent''))))) name
        = Some (Some (JObj sent))"
proof -
  obtain r w' where a: "handle_daemon_handoff demo_henv demo_handoff (Inr demo_sender) demo_world = (Ok r, w')"
      "ho_delivered r"
    by (rule demo_sent)
  from handoff_delivery [OF a] a(1) show ?thesis unfolding Let_def by blast
qed

theorem resend_takes_over_lease_witness:
  "\<exists>r w' l. handle_daemon_handoff demo_henv demo_handoff (Inr demo_sender) demo_world = (Ok r, w')
     \<and> lease_row demo_world ''L'' = Some demo_lease \<and> ls_from demo_lease = ''codex''
     \<and> ls_to demo_lease = ''claude-code'' \<and> lease_row w' ''L'' = Some l \<and> ls_to l = ''b''"
proof -
  obtain r w' where a: "handle_daemon_handoff demo_henv demo_handoff (Inr demo_sender) demo_world = (Ok r, w')"
      "ho_delivered r" "ho_persisted r" "ho_lease r = ''L''"
    by (rule demo_sent)
  have l: "lease_row demo_world (ho_lease r) = Some demo_lease"
    using a(4) by (simp add: lease_row_def demo_world_def demo_lease_def)
  have f: "ls_from demo_lease = ''codex''" "ls_to demo_lease = ''claude-code''" by (simp_all add: demo_lease_def)
  have to: "param_text demo_handoff ''to_agent'' = ''b''" by code_simp
  from resend_takes_over_lease [OF a(1-3) l, of demo_henv] a l show ?thesis
    by (auto simp: to demo_redact f)
qed

end
