(* ===== verification/Resolve.thy ===== *)
theory Resolve
  imports Stage
begin

text \<open>
  \<^verbatim>\<open>resolve_candidate\<close> of \<^verbatim>\<open>src/minni/minnid_runtime/governance.py\<close>: the
  decision on a proposed candidate.  \<^verbatim>\<open>ResolveRejected\<close> and every other exception
  leave the transaction with the store it started from; the plain \<^verbatim>\<open>return\<close> for
  flagged content leaves it committed, so the flag it wrote stays.
\<close>

definition allowed_decisions :: "string list" where
  "allowed_decisions = [''accept'', ''learn'', ''reject'', ''redact'', ''do_not_store'',
     ''log_only'', ''merge'', ''supersede'']"

definition unimplemented_decisions :: "string list" where
  "unimplemented_decisions = [''mark_sensitive'', ''mark_temporary'', ''mark_project_scoped'']"

definition status_map :: "(string \<times> string) list" where
  "status_map = [(''accept'', ''accepted''), (''learn'', ''accepted''), (''reject'', ''rejected''),
     (''redact'', ''redacted''), (''do_not_store'', ''do_not_store''), (''log_only'', ''log_only''),
     (''merge'', ''merged''), (''supersede'', ''superseded'')]"

definition decided_status :: "string \<Rightarrow> string" where
  "decided_status decision =
     (case map_of status_map decision of None \<Rightarrow> ''rejected'' | Some s \<Rightarrow> s)"

record resolve_request =
  rq_cid :: int
  rq_decision :: string
  rq_reason :: string

definition parse_resolve :: "jobj \<Rightarrow> (int \<times> string) + resolve_request" where
  "parse_resolve params =
     (if jget params ''candidate_id'' = JNull then Inl (-32602, ''candidate_id is required'')
      else case py_int (jget params ''candidate_id'') of
             None \<Rightarrow> Inl (-32602, ''candidate_id must be integer'')
           | Some cid \<Rightarrow>
               let decision = py_lower (py_strip (py_str (py_or (jget params ''decision'') (JStr []))));
                   reason = take 500 (py_str (py_or
                     (first_of_keys params [''reason'', ''resolution_reason'']) (JStr [])))
               in if decision \<in> set unimplemented_decisions
                  then Inl (-32602, ''decision is not yet implemented'')
                  else if decision \<notin> set allowed_decisions
                  then Inl (-32602, ''decision must be one of'')
                  else Inr \<lparr>rq_cid = cid, rq_decision = decision, rq_reason = reason\<rparr>)"

definition may_resolve :: "env \<Rightarrow> effective_principal \<Rightarrow> candidate \<Rightarrow> bool" where
  "may_resolve e p c \<longleftrightarrow>
     canonical_principal (c_principal c) = canonical_principal (p_agent_id p)
     \<or> explicitly_allowed_operator e p"

definition may_accept :: "env \<Rightarrow> effective_principal \<Rightarrow> bool" where
  "may_accept e p \<longleftrightarrow> is_operator_principal p \<or> explicitly_allowed_operator e p"

text \<open>The pre-015 schema refuses two statuses; they are written as \<^verbatim>\<open>rejected\<close>.\<close>

definition admitted_status :: "db \<Rightarrow> string \<Rightarrow> string \<Rightarrow> string \<times> string" where
  "admitted_status d status reason =
     (if status \<in> {''do_not_store'', ''log_only''} \<and> \<not> check_allows_dns_log_only d
      then (''rejected'', reason @ '' [intended_status='' @ status @ ''; schema pre-015]'')
      else (status, reason))"

definition stamp_flag :: "int \<Rightarrow> candidate \<Rightarrow> db \<Rightarrow> db" where
  "stamp_flag cid c d =
     (if is_instruction_like (c_content c) \<and> \<not> c_instruction_like c
      then update_candidate cid flag_row d else d)"

datatype resolve_outcome =
    Rejected int string          \<comment> \<open>rolled back\<close>
  | Withheld db                  \<comment> \<open>flagged content: refused, the flag committed\<close>
  | Failed                       \<comment> \<open>an exception: rolled back\<close>
  | Settled db string "int option"

definition accept_into ::
  "env \<Rightarrow> effective_principal \<Rightarrow> string \<Rightarrow> db \<Rightarrow> (db \<times> int) option" where
  "accept_into e p content d =
     (let lid = next_learning d in
      case ensure_canonical_learning_node e lid (p_agent_id p) content (now e)
             (insert_learning (new_learning (p_agent_id p) content (now e)) d) of
        Inl _ \<Rightarrow> None
      | Inr (d1, _) \<Rightarrow> Some (d1, lid))"

definition write_resolution ::
  "env \<Rightarrow> effective_principal \<Rightarrow> int \<Rightarrow> string \<Rightarrow> string \<Rightarrow> db \<Rightarrow> db \<times> string" where
  "write_resolution e p cid status reason d =
     (let (st, why) = admitted_status d status reason in
      (apply_accepted_candidate_effects cid
         (update_candidate cid (settle_row st (now e) (p_agent_id p) why) d), st))"

definition resolve_txn ::
  "env \<Rightarrow> effective_principal \<Rightarrow> resolve_request \<Rightarrow> db \<Rightarrow> resolve_outcome" where
  "resolve_txn e p q d =
     (let cid = rq_cid q; status = decided_status (rq_decision q) in
      if faults e FaultTxn \<or> \<not> bindable (JInt cid) then Failed
      else case candidate_row d cid of
        None \<Rightarrow> Rejected (-32001) ''candidate_not_found''
      | Some c \<Rightarrow>
          if \<not> may_resolve e p c then Rejected (-32004) ''principal_mismatch''
          else if c_status c \<noteq> ''proposed'' then Rejected (-32009) ''already_resolved''
          else
            let d1 = stamp_flag cid c d in
            if status = ''accepted'' \<and> flagged c \<and> \<not> explicitly_allowed_accept_flagged p
            then Withheld d1
            else if status = ''accepted'' \<and> \<not> may_accept e p
            then Rejected (-32004) ''operator_only''
            else if status = ''accepted''
            then (case accept_into e p (c_content c) d1 of
                    None \<Rightarrow> Failed
                  | Some (d2, lid) \<Rightarrow>
                      let (d3, st) = write_resolution e p cid status (rq_reason q) d2
                      in Settled d3 st (Some lid))
            else
              let (d3, st) = write_resolution e p cid status (rq_reason q) d1
              in Settled d3 st None)"

record resolve_reply =
  rr_candidate :: int
  rr_new_status :: string
  rr_learning :: "int option"
  rr_indexed :: bool

definition resolve_settled ::
  "env \<Rightarrow> effective_principal \<Rightarrow> resolve_request \<Rightarrow> db \<Rightarrow> string \<Rightarrow> int option \<Rightarrow> resolve_reply" where
  "resolve_settled e p q d st lid =
     \<lparr>rr_candidate = rq_cid q, rr_new_status = st, rr_learning = lid,
      rr_indexed = (case lid of None \<Rightarrow> True
        | Some l \<Rightarrow> settle_accepted_candidate e (p_agent_id p)
            (case candidate_row d (rq_cid q) of None \<Rightarrow> [] | Some c \<Rightarrow> c_content c) l)\<rparr>"

definition resolve_candidate ::
  "env \<Rightarrow> jobj \<Rightarrow> stamp \<Rightarrow> db \<Rightarrow> resolve_reply reply \<times> db" where
  "resolve_candidate e params who d =
     (case who of
        Inl (code, tag) \<Rightarrow> (Fail code tag, d)
      | Inr p \<Rightarrow>
          case validate_agent_id (p_agent_id p) of
            Inl _ \<Rightarrow> (Fail (-32602) ''invalid agent_id'', d)
          | Inr _ \<Rightarrow>
              case parse_resolve params of
                Inl (code, tag) \<Rightarrow> (Fail code tag, d)
              | Inr q \<Rightarrow>
                  case resolve_txn e p q d of
                    Rejected code tag \<Rightarrow> (Fail code tag, d)
                  | Withheld d1 \<Rightarrow> (Fail (-32004) ''accept_flagged_required'', d1)
                  | Failed \<Rightarrow> (Fail (-32000) ''resolve_candidate error'', d)
                  | Settled d1 st lid \<Rightarrow> (Ok (resolve_settled e p q d st lid), d1))"

subsection \<open>Effects of a resolution\<close>

lemma accept_into_effect:
  assumes "accept_into e p t d = Some (d1, lid)"
  shows "lid = next_learning d"
    and "learnings d1 = learnings d @ [(new_learning (p_agent_id p) t (now e))\<lparr>l_id := lid\<rparr>]"
    and "candidates d1 = candidates d" and "wf_db d \<Longrightarrow> wf_db d1"
proof -
  from assms obtain r where lid: "lid = next_learning d" and node:
    "ensure_canonical_learning_node e (next_learning d) (p_agent_id p) t (now e)
       (insert_learning (new_learning (p_agent_id p) t (now e)) d) = Inr (d1, r)"
    by (auto simp: accept_into_def Let_def split: sum.split_asm)
  show "lid = next_learning d" by (rule lid)
  show "learnings d1 = learnings d @ [(new_learning (p_agent_id p) t (now e))\<lparr>l_id := lid\<rparr>]"
    "candidates d1 = candidates d"
    using ensure_node_frame(1,2) [OF node] lid by simp_all
  show "wf_db d1" if "wf_db d" using ensure_node_wf [OF insert_learning_wf [OF that] node] .
qed

lemma write_resolution_effect:
  assumes "write_resolution e p cid status reason d = (d', st)"
  obtains why where "st = fst (admitted_status d status reason)"
    and "candidates d' = candidates (update_candidate cid (settle_row st (now e) (p_agent_id p) why) d)"
    and "learnings d' = learnings d" and "wf_db d \<Longrightarrow> wf_db d'"
proof -
  obtain s why where a: "admitted_status d status reason = (s, why)" by fastforce
  then have "d' = apply_accepted_candidate_effects cid
      (update_candidate cid (settle_row s (now e) (p_agent_id p) why) d)" "st = s"
    using assms by (auto simp: write_resolution_def)
  then show ?thesis using a by (intro that [of why]) (simp_all add: update_candidate_wf)
qed

lemma stamp_flag_simps [simp]:
  "learnings (stamp_flag cid c d) = learnings d"
  "check_allows_dns_log_only (stamp_flag cid c d) = check_allows_dns_log_only d"
  by (simp_all add: stamp_flag_def update_candidate_def)

lemma stamp_flag_contract:
  assumes "wf_db d" and "candidate_row d cid = Some c" and "c_status c = ''proposed''"
  shows "wf_db (stamp_flag cid c d)" and "frozen_rows d (stamp_flag cid c d)"
    and "accepted_count (stamp_flag cid c d) = accepted_count d"
    and "\<exists>c'. candidate_row (stamp_flag cid c d) cid = Some c' \<and> c_status c' = ''proposed''
           \<and> c_content c' = c_content c \<and> c_principal c' = c_principal c"
proof -
  note f = flag_contract [OF assms(2,3) refl]
  show "wf_db (stamp_flag cid c d)" using assms(1) by (simp add: stamp_flag_def flag_wf)
  show "frozen_rows d (stamp_flag cid c d)" "accepted_count (stamp_flag cid c d) = accepted_count d"
    using f by (simp_all add: stamp_flag_def)
  show "\<exists>c'. candidate_row (stamp_flag cid c d) cid = Some c' \<and> c_status c' = ''proposed''
           \<and> c_content c' = c_content c \<and> c_principal c' = c_principal c"
    using assms(2,3) by (simp add: stamp_flag_def candidate_row_update) (simp add: flag_row_def)
qed

definition resolves :: "env \<Rightarrow> effective_principal \<Rightarrow> resolve_request \<Rightarrow> candidate \<Rightarrow> db \<Rightarrow> bool" where
  "resolves e p q c d \<longleftrightarrow> candidate_row d (rq_cid q) = Some c \<and> c_status c = ''proposed''
     \<and> may_resolve e p c
     \<and> (decided_status (rq_decision q) = ''accepted'' \<longrightarrow>
          may_accept e p \<and> (flagged c \<longrightarrow> explicitly_allowed_accept_flagged p))"

lemma resolve_txn_cases [consumes 1, case_names rejected withheld failed accepted closed]:
  assumes "resolve_txn e p q d = out"
  obtains code tag where "out = Rejected code tag"
  | c where "candidate_row d (rq_cid q) = Some c" and "c_status c = ''proposed''" and "flagged c"
      and "out = Withheld (stamp_flag (rq_cid q) c d)"
  | "out = Failed"
  | c d1 d2 lid st where "resolves e p q c d" and "decided_status (rq_decision q) = ''accepted''"
      and "accept_into e p (c_content c) (stamp_flag (rq_cid q) c d) = Some (d1, lid)"
      and "write_resolution e p (rq_cid q) ''accepted'' (rq_reason q) d1 = (d2, st)"
      and "out = Settled d2 st (Some lid)"
  | c d2 st where "resolves e p q c d" and "decided_status (rq_decision q) \<noteq> ''accepted''"
      and "write_resolution e p (rq_cid q) (decided_status (rq_decision q)) (rq_reason q)
             (stamp_flag (rq_cid q) c d) = (d2, st)"
      and "out = Settled d2 st None"
proof (cases "faults e FaultTxn \<or> \<not> bindable (JInt (rq_cid q))")
  case True
  then show ?thesis using assms that(3) unfolding resolve_txn_def Let_def by simp
next
  case ok: False
  show ?thesis
  proof (cases "candidate_row d (rq_cid q)")
    case None
    then have "out = Rejected (-32001) ''candidate_not_found''"
      using assms ok unfolding resolve_txn_def Let_def by simp
    then show ?thesis by (rule that(1))
  next
    case (Some c)
    have u: "out = (if \<not> may_resolve e p c then Rejected (-32004) ''principal_mismatch''
          else if c_status c \<noteq> ''proposed'' then Rejected (-32009) ''already_resolved''
          else if decided_status (rq_decision q) = ''accepted'' \<and> flagged c
                 \<and> \<not> explicitly_allowed_accept_flagged p
          then Withheld (stamp_flag (rq_cid q) c d)
          else if decided_status (rq_decision q) = ''accepted'' \<and> \<not> may_accept e p
          then Rejected (-32004) ''operator_only''
          else if decided_status (rq_decision q) = ''accepted''
          then (case accept_into e p (c_content c) (stamp_flag (rq_cid q) c d) of
                  None \<Rightarrow> Failed
                | Some (d2, lid) \<Rightarrow>
                    let (d3, st) = write_resolution e p (rq_cid q) (decided_status (rq_decision q))
                          (rq_reason q) d2
                    in Settled d3 st (Some lid))
          else let (d3, st) = write_resolution e p (rq_cid q) (decided_status (rq_decision q))
                 (rq_reason q) (stamp_flag (rq_cid q) c d)
               in Settled d3 st None)"
      using assms Some ok unfolding resolve_txn_def Let_def by (simp only: option.case if_False)
    show ?thesis
    proof (cases "may_resolve e p c \<and> c_status c = ''proposed''")
      case False
      then have "\<exists>code tag. out = Rejected code tag" using u by (auto split: if_split_asm)
      then show ?thesis using that(1) by blast
    next
      case own: True
      show ?thesis
      proof (cases "decided_status (rq_decision q) = ''accepted''")
        case False
        obtain d2 st where w: "write_resolution e p (rq_cid q) (decided_status (rq_decision q))
            (rq_reason q) (stamp_flag (rq_cid q) c d) = (d2, st)" by fastforce
        show ?thesis using u own False w Some
          by (intro that(5) [of c d2 st]) (simp_all add: resolves_def)
      next
        case acc: True
        show ?thesis
        proof (cases "(flagged c \<longrightarrow> explicitly_allowed_accept_flagged p) \<and> may_accept e p")
          case False
          then have "(\<exists>code tag. out = Rejected code tag)
              \<or> flagged c \<and> out = Withheld (stamp_flag (rq_cid q) c d)"
            using u own acc by (auto split: if_split_asm)
          then show ?thesis using own Some that(1) that(2) [of c] by blast
        next
          case True
          show ?thesis
          proof (cases "accept_into e p (c_content c) (stamp_flag (rq_cid q) c d)")
            case None
            then show ?thesis using u own acc True that(3) by auto
          next
            case (Some w)
            obtain d1 lid where w: "w = (d1, lid)" by fastforce
            obtain d2 st where z: "write_resolution e p (rq_cid q) ''accepted'' (rq_reason q) d1 = (d2, st)"
              by fastforce
            show ?thesis using u own acc True Some w z \<open>candidate_row d (rq_cid q) = Some c\<close>
              by (intro that(4) [of c d1 lid d2 st]) (auto simp: resolves_def)
          qed
        qed
      qed
    qed
  qed
qed

lemma admitted_accepted:
  "fst (admitted_status d ''accepted'' why) = ''accepted''"
  "status \<noteq> ''accepted'' \<Longrightarrow> fst (admitted_status d status why) \<noteq> ''accepted''"
  by (auto simp: admitted_status_def)

definition settled_row :: "env \<Rightarrow> effective_principal \<Rightarrow> string \<Rightarrow> candidate \<Rightarrow> candidate \<Rightarrow> bool" where
  "settled_row e p st c c' \<longleftrightarrow> c_status c' = st \<and> c_content c' = c_content c
     \<and> c_principal c' = c_principal c \<and> c_resolved_by c' = Some (p_agent_id p)
     \<and> c_resolved_at c' = Some (now e)"

lemma resolution_written:
  assumes "wf_db d" and "candidate_row d cid = Some c" and "c_status c = ''proposed''"
    and "candidates d1 = candidates (stamp_flag cid c d)" and "wf_db d1"
    and "write_resolution e p cid status why d1 = (d2, st)"
  shows "wf_db d2" and "learnings d2 = learnings d1" and "frozen_rows d d2"
    and "accepted_count d2 = accepted_count d + (if st = ''accepted'' then 1 else 0)"
    and "\<exists>c'. candidate_row d2 cid = Some c' \<and> settled_row e p st c c'"
proof -
  note stamp = stamp_flag_contract [OF assms(1-3)]
  obtain c1 where c1: "candidate_row d1 cid = Some c1" "c_status c1 = ''proposed''"
    "c_content c1 = c_content c" "c_principal c1 = c_principal c"
    using stamp(4) assms(4) by (auto simp: candidate_row_def)
  obtain r where cs: "candidates d2 = candidates (update_candidate cid
      (settle_row st (now e) (p_agent_id p) r) d1)"
    and l: "learnings d2 = learnings d1" and w: "wf_db d1 \<Longrightarrow> wf_db d2"
    using write_resolution_effect [OF assms(6)] by metis
  note con = settle_contract [OF assms(5) c1(1,2) cs]
  show "wf_db d2" "learnings d2 = learnings d1" using w assms(5) l by simp_all
  have "frozen_rows d d1" by (rule frozen_rows_cong [OF stamp(2) assms(4)])
  then show "frozen_rows d d2" using con(1) by (rule frozen_rows_trans)
  show "accepted_count d2 = accepted_count d + (if st = ''accepted'' then 1 else 0)"
    using con(2) stamp(3) candidates_determine [OF assms(4)] by simp
  have "candidate_row d2 cid = candidate_row (update_candidate cid
      (settle_row st (now e) (p_agent_id p) r) d1) cid"
    using cs unfolding candidate_row_def by simp
  then show "\<exists>c'. candidate_row d2 cid = Some c' \<and> settled_row e p st c c'"
    using c1 candidate_row_Some [OF c1(1)]
    by (simp add: candidate_row_update settled_row_def) (simp add: settle_row_def)
qed

lemma resolve_candidate_cases [consumes 1, case_names refused withheld accepted closed]:
  assumes "resolve_candidate e params who d = (rep, d')"
  obtains "d' = d" and "\<forall>r. rep \<noteq> Ok r"
  | p q c where "who = Inr p" and "parse_resolve params = Inr q"
      and "candidate_row d (rq_cid q) = Some c" and "c_status c = ''proposed''" and "flagged c"
      and "d' = stamp_flag (rq_cid q) c d" and "rep = Fail (-32004) ''accept_flagged_required''"
  | p q c d1 lid st where "who = Inr p" and "parse_resolve params = Inr q" and "resolves e p q c d"
      and "decided_status (rq_decision q) = ''accepted''"
      and "accept_into e p (c_content c) (stamp_flag (rq_cid q) c d) = Some (d1, lid)"
      and "write_resolution e p (rq_cid q) ''accepted'' (rq_reason q) d1 = (d', st)"
      and "rep = Ok (resolve_settled e p q d st (Some lid))"
  | p q c st where "who = Inr p" and "parse_resolve params = Inr q" and "resolves e p q c d"
      and "decided_status (rq_decision q) \<noteq> ''accepted''"
      and "write_resolution e p (rq_cid q) (decided_status (rq_decision q)) (rq_reason q)
             (stamp_flag (rq_cid q) c d) = (d', st)"
      and "rep = Ok (resolve_settled e p q d st None)"
proof (cases who)
  case (Inl x)
  then show ?thesis using assms that(1) by (auto simp: resolve_candidate_def split: prod.split_asm)
next
  case (Inr p)
  show ?thesis
  proof (cases "validate_agent_id (p_agent_id p)")
    case (Inl y)
    then show ?thesis using assms Inr that(1) by (auto simp: resolve_candidate_def)
  next
    case v: (Inr a)
    show ?thesis
    proof (cases "parse_resolve params")
      case (Inl z)
      then show ?thesis using assms Inr v that(1) by (auto simp: resolve_candidate_def split: prod.split_asm)
    next
      case q: (Inr q)
      note u = assms [unfolded resolve_candidate_def Inr v q sum.case]
      obtain out where out: "resolve_txn e p q d = out" by simp
      from out show ?thesis
      proof (cases rule: resolve_txn_cases)
        case (rejected code tag)
        then show ?thesis using u out that(1) by auto
      next
        case (withheld c)
        then show ?thesis using u out Inr q by (intro that(2) [of p q c]) auto
      next
        case failed
        then show ?thesis using u out that(1) by auto
      next
        case (accepted c d1 d2 lid st)
        then show ?thesis using u out Inr q by (intro that(3) [of p q c d1 lid st]) auto
      next
        case (closed c d2 st)
        then show ?thesis using u out Inr q by (intro that(4) [of p q c st]) auto
      qed
    qed
  qed
qed

lemma accepted_written:
  assumes "wf_db d" and "resolves e p q c d"
    and "accept_into e p (c_content c) (stamp_flag (rq_cid q) c d) = Some (d1, lid)"
  shows "candidates d1 = candidates (stamp_flag (rq_cid q) c d)" and "wf_db d1"
    and "learnings d1 = learnings d @ [(new_learning (p_agent_id p) (c_content c) (now e))\<lparr>l_id := lid\<rparr>]"
  using accept_into_effect [OF assms(3)] stamp_flag_contract(1) [OF assms(1)] assms(2)
  by (simp_all add: resolves_def)

lemma closed_status:
  assumes "decided_status x \<noteq> ''accepted''"
    and "write_resolution e p cid (decided_status x) why d1 = (d2, st)"
  shows "st \<noteq> ''accepted''"
  using write_resolution_effect [OF assms(2)] admitted_accepted(2) [OF assms(1)] by metis

definition resolve_op :: "env \<Rightarrow> jobj \<times> stamp \<Rightarrow> db \<Rightarrow> db" where
  "resolve_op e = (\<lambda>(params, who) d. snd (resolve_candidate e params who d))"

lemma resolve_contract:
  assumes "wf_db d"
  shows "wf_db (resolve_op e a d) \<and> frozen_rows d (resolve_op e a d)
    \<and> balance (resolve_op e a d) = balance d"
proof -
  obtain params who rep d' where a: "a = (params, who)" "resolve_candidate e params who d = (rep, d')"
    by (metis prod.exhaust)
  from a(2) have "wf_db d' \<and> frozen_rows d d' \<and> balance d' = balance d"
  proof (cases rule: resolve_candidate_cases)
    case refused
    then show ?thesis using assms by simp
  next
    case (withheld p q c)
    then show ?thesis using stamp_flag_contract [OF assms withheld(3,4)] by (simp add: balance_def)
  next
    case (accepted p q c d1 lid st)
    note w = accepted_written [OF assms accepted(3,5)]
    have c: "candidate_row d (rq_cid q) = Some c" "c_status c = ''proposed''"
      using accepted(3) by (simp_all add: resolves_def)
    note r = resolution_written [OF assms c w(1,2) accepted(6)]
    have "st = ''accepted''"
      using write_resolution_effect [OF accepted(6)] admitted_accepted(1) by metis
    then show ?thesis using r w(3) by (simp add: balance_def)
  next
    case (closed p q c st)
    have c: "candidate_row d (rq_cid q) = Some c" "c_status c = ''proposed''"
      using closed(3) by (simp_all add: resolves_def)
    note r = resolution_written [OF assms c refl stamp_flag_contract(1) [OF assms c] closed(5)]
    then show ?thesis using closed_status [OF closed(4,5)] by (simp add: balance_def)
  qed
  then show ?thesis using a by (simp add: resolve_op_def)
qed

interpretation resolve_queue: balanced_op "resolve_op e"
  by unfold_locales (simp_all add: resolve_contract)

subsection \<open>Properties of resolution\<close>

lemma resolve_settled_simps [simp]:
  "rr_candidate (resolve_settled e p q d st lid) = rq_cid q"
  "rr_new_status (resolve_settled e p q d st lid) = st"
  "rr_learning (resolve_settled e p q d st lid) = lid"
  by (simp_all add: resolve_settled_def)

text \<open>
  C1. A candidate that has left 'proposed' is never resolved again: minni_resolve_candidate
  refuses it without touching the store, and the row stays exactly as it is under every later
  history of resolve calls.
\<close>

theorem resolution_is_terminal:
  assumes "wf_db d" and "candidate_row d (rq_cid q) = Some c" and "c_status c \<noteq> ''proposed''"
    and "parse_resolve params = Inr q"
  shows "(\<exists>code tag. resolve_candidate e params who d = (Fail code tag, d))
    \<and> candidate_row (fold (resolve_op e) later d) (rq_cid q) = Some c"
proof
  obtain rep d' where r: "resolve_candidate e params who d = (rep, d')" by fastforce
  then have "d' = d \<and> (\<forall>x. rep \<noteq> Ok x)"
    using assms(2-4) by (cases rule: resolve_candidate_cases) (auto simp: resolves_def)
  moreover have "rep \<noteq> Raise x" for x
    using r by (auto simp: resolve_candidate_def split: sum.split_asm resolve_outcome.split_asm prod.split_asm)
  ultimately show "\<exists>code tag. resolve_candidate e params who d = (Fail code tag, d)"
    using r by (cases rep) auto
  show "candidate_row (fold (resolve_op e) later d) (rq_cid q) = Some c"
    by (rule resolve_queue.terminal_forever [OF assms(1-3)])
qed

lemma decided_accepted: "decided_status x = ''accepted'' \<longleftrightarrow> x \<in> {''accept'', ''learn''}"
  by (auto simp: decided_status_def status_map_def)

text \<open>
  C2. When minni_resolve_candidate changes the learnings, or its reply names a learning, the
  request was an accept or learn decision by an operator on a still proposed candidate it may
  resolve, with the accept_flagged capability when the content is or looks instruction-like;
  the one change is exactly one new learning, the caller's, with the candidate's content, and
  the reply names that candidate, the status accepted and that learning.
\<close>

theorem acceptance_needs_authority:
  assumes "resolve_candidate e params who d = (rep, d')"
    and "learnings d' \<noteq> learnings d \<or> (\<exists>r lid. rep = Ok r \<and> rr_learning r = Some lid)"
  shows "\<exists>p q c l r. who = Inr p \<and> parse_resolve params = Inr q \<and> rq_decision q \<in> {''accept'', ''learn''}
    \<and> candidate_row d (rq_cid q) = Some c \<and> c_status c = ''proposed''
    \<and> may_resolve e p c \<and> (is_operator_principal p \<or> explicitly_allowed_operator e p)
    \<and> (c_instruction_like c \<or> is_instruction_like (c_content c) \<longrightarrow>
         JStr ''accept_flagged'' \<in> set (p_capabilities p))
    \<and> learnings d' = learnings d @ [l] \<and> l_agent l = p_agent_id p \<and> l_content l = c_content c
    \<and> rep = Ok r \<and> rr_candidate r = rq_cid q \<and> rr_new_status r = ''accepted'' \<and> rr_learning r = Some (l_id l)"
  using assms(1)
proof (cases rule: resolve_candidate_cases)
  case (accepted p q c d1 lid' st)
  have "learnings d' = learnings d1" and "st = ''accepted''"
    using write_resolution_effect [OF accepted(6)] admitted_accepted(1) by metis+
  then show ?thesis
    using accepted accept_into_effect(2) [OF accepted(5)]
    by (auto simp: resolves_def may_accept_def flagged_def explicitly_allowed_accept_flagged_def
        ACCEPT_FLAGGED_CAPABILITY_def new_learning_def decided_accepted)
next
  case (closed p q c st)
  have "learnings d' = learnings d" using write_resolution_effect [OF closed(5)] by (metis stamp_flag_simps(1))
  then show ?thesis using closed(6) assms(2) by simp
next
  case (withheld p q c)
  then show ?thesis using assms(2) by simp
next
  case refused
  then show ?thesis using assms(2) by auto
qed

lemma write_resolution_unfences:
  assumes "write_resolution e p cid status why d = (d', st)" and "has_actions_table d"
  shows "\<not> fenced d' cid"
  using assms supersede_unfences [of _ cid]
  by (auto simp: write_resolution_def apply_accepted_candidate_effects_def split: prod.split_asm)

lemma accept_into_table: "accept_into e p t d = Some (d1, lid) \<Longrightarrow> has_actions_table d1 = has_actions_table d"
  using ensure_node_frame(9) by (fastforce simp: accept_into_def Let_def split: sum.split_asm)

lemma decided_not_proposed:
  assumes "write_resolution e p cid (decided_status x) why d = (d', st)"
  shows "st \<noteq> ''proposed''"
proof -
  have "list_all (\<lambda>kv. snd kv \<noteq> ''proposed'') status_map" by code_simp
  then have "s \<noteq> ''proposed''" if "map_of status_map x = Some s" for s
    using bspec [OF _ map_of_SomeD [OF that], of "\<lambda>kv. snd kv \<noteq> ''proposed''"]
    by (simp add: list_all_iff)
  then have "decided_status x \<noteq> ''proposed''"
    unfolding decided_status_def by (cases "map_of status_map x") auto
  moreover have "st = fst (admitted_status d (decided_status x) why)"
    using write_resolution_effect [OF assms] by metis
  ultimately show ?thesis by (simp add: admitted_status_def split: if_split_asm)
qed

theorem resolution_effect:
  assumes "resolve_candidate e params who d = (Ok r, d')" and "wf_db d"
  shows "\<exists>p c c'. who = Inr p \<and> candidate_row d (rr_candidate r) = Some c
    \<and> (canonical_principal (c_principal c) = canonical_principal (p_agent_id p)
        \<or> explicitly_allowed_operator e p)
    \<and> candidate_row d' (rr_candidate r) = Some c' \<and> settled_row e p (rr_new_status r) c c'
    \<and> rr_new_status r \<noteq> ''proposed''
    \<and> (rr_new_status r = ''accepted'' \<longleftrightarrow> rr_learning r \<noteq> None)
    \<and> length (learnings d') = length (learnings d) + (if rr_learning r = None then 0 else 1)
    \<and> (has_actions_table d \<longrightarrow> \<not> fenced d' (rr_candidate r))"
  using assms(1)
proof (cases rule: resolve_candidate_cases)
  case (accepted p q c d1 lid st)
  note w = accepted_written [OF assms(2) accepted(3,5)]
  have c: "candidate_row d (rq_cid q) = Some c" "c_status c = ''proposed''" "may_resolve e p c"
    using accepted(3) by (simp_all add: resolves_def)
  note r = resolution_written [OF assms(2) c(1,2) w(1,2) accepted(6)]
  have st: "st = ''accepted''"
    using write_resolution_effect [OF accepted(6)] admitted_accepted(1) by metis
  have "\<not> fenced d' (rq_cid q)" if "has_actions_table d"
    using that write_resolution_unfences [OF accepted(6)] accept_into_table [OF accepted(5)]
    by (simp add: stamp_flag_def)
  then show ?thesis using accepted(1,7) c r w(3) st by (auto simp: may_resolve_def)
next
  case (closed p q c st)
  have c: "candidate_row d (rq_cid q) = Some c" "c_status c = ''proposed''" "may_resolve e p c"
    using closed(3) by (simp_all add: resolves_def)
  note r = resolution_written [OF assms(2) c(1,2) refl stamp_flag_contract(1) [OF assms(2) c(1,2)] closed(5)]
  have st: "st \<noteq> ''accepted''" by (rule closed_status [OF closed(4,5)])
  have np: "st \<noteq> ''proposed''" by (rule decided_not_proposed [OF closed(5)])
  have "\<not> fenced d' (rq_cid q)" if "has_actions_table d"
    using that write_resolution_unfences [OF closed(5)] by (simp add: stamp_flag_def)
  then show ?thesis using closed(1,6) c r st np by (auto simp: may_resolve_def)
qed simp_all

theorem refused_resolution_keeps_store:
  assumes "resolve_candidate e params who d = (rep, d')" and "\<forall>r. rep \<noteq> Ok r"
  shows "learnings d' = learnings d \<and> documents d' = documents d
    \<and> map (\<lambda>c. (c_id c, c_status c, c_content c)) (candidates d')
        = map (\<lambda>c. (c_id c, c_status c, c_content c)) (candidates d)
    \<and> (d' \<noteq> d \<longrightarrow> (\<exists>c \<in> set (candidates d). is_instruction_like (c_content c) \<and> \<not> c_instruction_like c))"
  using assms(1)
proof (cases rule: resolve_candidate_cases)
  case refused
  then show ?thesis by simp
next
  case (withheld p q c)
  have "map (\<lambda>c. (c_id c, c_status c, c_content c)) (update_where P flag_row cs)
      = map (\<lambda>c. (c_id c, c_status c, c_content c)) cs" for P cs
    by (rule update_where_keys) (simp add: flag_row_def)
  then show ?thesis using withheld(6) candidate_row_Some [OF withheld(3)]
    by (auto simp: stamp_flag_def)
qed (use assms(2) in auto)

subsection \<open>Concrete resolutions\<close>

definition demo_operator :: effective_principal where
  "demo_operator = demo_agent ''operator'' [JStr ''*''] []"

definition demo_accept :: jobj where
  "demo_accept = [(''candidate_id'', JInt 1), (''decision'', JStr ''Accept'')]"

definition demo_request :: resolve_request where
  "demo_request = \<lparr>rq_cid = 1, rq_decision = ''accept'', rq_reason = []\<rparr>"

lemma demo_parse: "parse_resolve demo_accept = Inr demo_request"
  by code_simp

lemma demo_resolves:
  "\<exists>r d' lid. resolve_candidate demo_env demo_accept (Inr demo_operator) demo_queue = (Ok r, d')
     \<and> rr_learning r = Some lid \<and> rr_candidate r = 1"
proof -
  have f: "\<not> faults demo_env FaultTxn" "\<not> faults demo_env FaultCanonical"
    by (simp_all add: demo_env_def)
  have op: "may_resolve demo_env demo_operator demo_row" "may_accept demo_env demo_operator"
    "p_agent_id demo_operator = ''operator''"
    by (simp_all add: may_resolve_def may_accept_def explicitly_allowed_operator_def demo_operator_def
        demo_agent_def)
  have v: "validate_agent_id ''operator'' = Inr ''operator''" by code_simp
  have st: "decided_status ''accept'' = ''accepted''" by code_simp
  obtain d1 x where "ensure_canonical_learning_node demo_env (next_learning (stamp_flag 1 demo_row demo_queue))
      (p_agent_id demo_operator) (c_content demo_row) (now demo_env)
      (insert_learning (new_learning (p_agent_id demo_operator) (c_content demo_row) (now demo_env))
         (stamp_flag 1 demo_row demo_queue)) = Inr (d1, x)"
    using ensure_node_total [OF f(2)] by blast
  then have acc: "accept_into demo_env demo_operator (c_content demo_row) (stamp_flag 1 demo_row demo_queue)
      = Some (d1, next_learning (stamp_flag 1 demo_row demo_queue))"
    by (simp add: accept_into_def Let_def)
  obtain d2 s where w: "write_resolution demo_env demo_operator 1 ''accepted'' [] d1 = (d2, s)"
    by fastforce
  have "resolve_txn demo_env demo_operator demo_request demo_queue
      = Settled d2 s (Some (next_learning (stamp_flag 1 demo_row demo_queue)))"
    using f(1) op demo_row_lookup acc w st
    by (simp add: resolve_txn_def Let_def demo_request_def del: demo_row_simps(2))
  then show ?thesis
    using v op(3) by (simp add: resolve_candidate_def demo_parse demo_request_def)
qed

theorem acceptance_needs_authority_witness:
  "\<exists>r d' l. resolve_candidate demo_env demo_accept (Inr demo_operator) demo_queue = (Ok r, d')
     \<and> learnings d' = learnings demo_queue @ [l] \<and> l_agent l = ''operator''"
proof -
  obtain r d' lid where r: "resolve_candidate demo_env demo_accept (Inr demo_operator) demo_queue = (Ok r, d')"
    "rr_learning r = Some lid"
    using demo_resolves by blast
  have "learnings d' \<noteq> learnings demo_queue \<or> (\<exists>r' lid. Ok r = Ok r' \<and> rr_learning r' = Some lid)"
    using r(2) by blast
  from acceptance_needs_authority [OF r(1) this] r(1) show ?thesis
    by (auto simp: demo_operator_def demo_agent_def)
qed

theorem resolution_effect_witness:
  "\<exists>r d' c'. resolve_candidate demo_env demo_accept (Inr demo_operator) demo_queue = (Ok r, d')
     \<and> candidate_row d' 1 = Some c' \<and> c_status c' = ''accepted''"
proof -
  obtain r d' lid where r: "resolve_candidate demo_env demo_accept (Inr demo_operator) demo_queue = (Ok r, d')"
    "rr_learning r = Some lid" "rr_candidate r = 1"
    using demo_resolves by blast
  show ?thesis using resolution_effect [OF r(1) demo_queue_wf] r by (auto simp: settled_row_def)
qed

definition demo_closed :: db where
  "demo_closed = update_candidate 1 (settle_row ''rejected'' 6 ''operator'' ''r'') demo_queue"

lemma demo_closed_row:
  "candidate_row demo_closed 1 = Some (settle_row ''rejected'' 6 ''operator'' ''r'' demo_row)"
  by (simp add: demo_closed_def candidate_row_update demo_row_lookup)

theorem resolution_is_terminal_witness:
  "\<exists>code tag. resolve_candidate demo_env demo_accept (Inr demo_operator) demo_closed
     = (Fail code tag, demo_closed)"
proof -
  have "wf_db demo_closed" by (simp add: demo_closed_def update_candidate_wf demo_queue_wf)
  moreover have "candidate_row demo_closed (rq_cid demo_request)
      = Some (settle_row ''rejected'' 6 ''operator'' ''r'' demo_row)"
    using demo_closed_row by (simp add: demo_request_def)
  ultimately show ?thesis
    using resolution_is_terminal [OF _ _ _ demo_parse, of demo_closed _ demo_env "Inr demo_operator"]
    by simp
qed

theorem refused_resolution_keeps_store_witness:
  "learnings (snd (resolve_candidate demo_env [] (Inr demo_operator) demo_queue)) = learnings demo_queue"
proof -
  obtain rep d' where r: "resolve_candidate demo_env [] (Inr demo_operator) demo_queue = (rep, d')"
    by fastforce
  have "parse_resolve [] = Inl (-32602, ''candidate_id is required'')" by code_simp
  then have "\<forall>x. rep \<noteq> Ok x" using r by (auto simp: resolve_candidate_def split: sum.split_asm)
  then show ?thesis using refused_resolution_keeps_store [OF r] r by simp
qed

end
