(* ===== verification/Learn.thy ===== *)
theory Learn
  imports Stage
begin

text \<open>
  \<^verbatim>\<open>handle_learn\<close> of \<^verbatim>\<open>src/minni/minnid_runtime/governance.py\<close>, with the
  parts of \<^verbatim>\<open>src/minni/writeback.py\<close> it runs: contradiction detection and the
  provenance edges of a forced write.  The row the detection writes to
  \<^verbatim>\<open>contradiction_log\<close> and the markdown copy on disk are not part of the store
  here; both are best effort and never change an answer.
\<close>

subsection \<open>Contradiction detection\<close>

record contradiction =
  ct_id :: int
  ct_content :: string
  ct_assertion :: json
  ct_score :: real
  ct_agent :: string
  ct_created :: real

text \<open>\<^verbatim>\<open>round(x, 4)\<close>: ties to the even neighbour.\<close>

definition round4 :: "real \<Rightarrow> real" where
  "round4 x =
     (let y = x * 10000; k = \<lfloor>y\<rfloor>; f = y - of_int k
      in of_int (if f < 1/2 \<or> f = 1/2 \<and> even k then k else k + 1) / 10000)"

definition contradiction_of :: "env \<Rightarrow> string \<Rightarrow> real list \<Rightarrow> learning \<Rightarrow> contradiction option" where
  "contradiction_of e agent q l =
     (if \<not> learning_active l \<or> agent \<noteq> [] \<and> l_agent l \<noteq> agent then None
      else case l_embedding l of
        None \<Rightarrow> None
      | Some v \<Rightarrow>
          (case cosine e q v of
             None \<Rightarrow> None
           | Some sim \<Rightarrow>
               if sim > contradiction_threshold e
               then Some \<lparr>ct_id = l_id l, ct_content = l_content l, ct_assertion = l_assertion l,
                          ct_score = round4 sim, ct_agent = l_agent l, ct_created = l_created l\<rparr>
               else None))"

definition detect_contradictions :: "env \<Rightarrow> json \<Rightarrow> string \<Rightarrow> db \<Rightarrow> contradiction list" where
  "detect_contradictions e text agent d =
     (case embedder e of
        None \<Rightarrow> []
      | Some f \<Rightarrow>
          (case f text of
             None \<Rightarrow> []
           | Some q \<Rightarrow>
               if faults e FaultDetect then []
               else sort_key (\<lambda>x. - ct_score x)
                      (List.map_filter (contradiction_of e agent q) (learnings d))))"

subsection \<open>Provenance edges\<close>

text \<open>A parameter compared with an \<^verbatim>\<open>INTEGER\<close> column.\<close>

fun sql_int :: "json \<Rightarrow> int option" where
  "sql_int (JInt n) = Some n"
| "sql_int (JBool b) = Some (if b then 1 else 0)"
| "sql_int (JFloat (Fin v) t) = (if of_int \<lfloor>v\<rfloor> = v then Some \<lfloor>v\<rfloor> else None)"
| "sql_int (JStr s) = (if CHR ''_'' \<in> set s then None else parse_int s)"
| "sql_int _ = None"

fun int_overflows :: "json \<Rightarrow> bool" where
  "int_overflows (JFloat PosInf _) = True"
| "int_overflows (JFloat NegInf _) = True"
| "int_overflows _ = False"

definition derived_ids :: "json \<Rightarrow> pyerr + int list" where
  "derived_ids evidence =
     bind_result (py_iter evidence) (\<lambda>xs.
       if list_ex int_overflows xs then Inl (RuntimeError ''OverflowError'')
       else Inr (rev (remdups (rev (List.map_filter py_int xs)))))"

definition alias_node :: "env \<Rightarrow> int \<Rightarrow> int \<Rightarrow> string \<Rightarrow> document" where
  "alias_node e doc lid agent =
     \<lparr>d_id = doc, d_path = node_uri lid, d_agent = ''learning:'' @ agent, d_sigil = Some ''L'',
      d_modified = now e, d_page_status = Some ''accepted'', d_privacy = Some ''safe'',
      d_page_type = Some ''learning'', d_layer = None, d_kind = None, d_uri = None,
      d_superseded_by = None\<rparr>"

definition edge_source :: "env \<Rightarrow> int \<Rightarrow> string \<Rightarrow> int option \<Rightarrow> db \<Rightarrow> db \<times> int" where
  "edge_source e lid agent canonical d =
     (case canonical of
        Some doc \<Rightarrow> (d, doc)
      | None \<Rightarrow>
          (case find (\<lambda>x. d_path x = node_uri lid) (documents d) of
             Some row \<Rightarrow> (d, d_id row)
           | None \<Rightarrow>
               let doc = next_document d
               in (d\<lparr>documents := documents d @ [alias_node e doc lid agent],
                     next_document := doc + 1\<rparr>, doc)))"

definition add_link :: "int \<Rightarrow> int \<Rightarrow> (int \<times> int) list \<Rightarrow> (int \<times> int) list" where
  "add_link src dst ls = (if (src, dst) \<in> set ls then ls else ls @ [(src, dst)])"

definition add_derived_from_edges ::
  "env \<Rightarrow> int \<Rightarrow> string \<Rightarrow> json \<Rightarrow> int option \<Rightarrow> db \<Rightarrow> pyerr + db" where
  "add_derived_from_edges e lid agent evidence canonical d =
     (if \<not> truthy evidence then Inr d
      else bind_result (derived_ids evidence) (\<lambda>ids.
        if ids = [] then Inr d
        else if faults e FaultEdges \<or> \<not> list_all (\<lambda>i. bindable (JInt i)) ids then Inl OSError
        else
          let (d1, src) = edge_source e lid agent canonical d;
              targets = filter (\<lambda>i. i \<in> d_id ` set (documents d1)) ids
          in Inr (d1\<lparr>links := fold (add_link src) targets (links d1)\<rparr>)))"

subsection \<open>The forced write\<close>

definition CATEGORIES :: "string list" where
  "CATEGORIES = [''pattern'', ''fix'', ''decision'', ''preference'', ''fact'', ''procedure'', ''general'']"

fun known_category :: "json \<Rightarrow> pyerr + string" where
  "known_category (JStr s) = Inr (if s \<in> set CATEGORIES then s else ''general'')"
| "known_category (JList _) = Inl TypeError"
| "known_category (JObj _) = Inl TypeError"
| "known_category _ = Inr ''general''"

definition evidence_json :: "json \<Rightarrow> json" where
  "evidence_json v = (if truthy v then v else JNull)"

definition learn_row :: "env \<Rightarrow> string \<Rightarrow> string \<Rightarrow> string \<Rightarrow> jobj \<Rightarrow> learning" where
  "learn_row e agent category content params =
     (new_learning agent content (now e))
       \<lparr>l_category := category, l_source_query := jget params ''source_query'',
        l_confidence := jget_or (JFloat (Fin 1) ''1.0'') params ''confidence'',
        l_embedding := embed e content,
        l_assertion := jget params ''assertion'', l_applies_when := jget params ''applies_when'',
        l_evidence := evidence_json (jget params ''evidence_doc_ids''),
        l_contradicts := jget params ''contradicts_id''\<rparr>"

definition learn_row_accepted :: "learning \<Rightarrow> db \<Rightarrow> bool" where
  "learn_row_accepted l d \<longleftrightarrow>
     list_all bindable [l_source_query l, l_confidence l, l_assertion l, l_applies_when l, l_contradicts l]
     \<and> (l_contradicts l = JNull
        \<or> (\<exists>n \<in> set_option (sql_int (l_contradicts l)). n \<in> l_id ` set (learnings d)))"

definition point_superseded :: "int \<Rightarrow> json \<Rightarrow> db \<Rightarrow> db" where
  "point_superseded lid target d =
     d\<lparr>learnings := update_where (\<lambda>l. sql_int target = Some (l_id l))
        (\<lambda>l. l\<lparr>l_superseded_by := Some lid\<rparr>) (learnings d)\<rparr>"

text \<open>The cursor block of a forced learn; an \<^verbatim>\<open>Inl\<close> rolls it back.\<close>

definition force_txn :: "env \<Rightarrow> learning \<Rightarrow> jobj \<Rightarrow> db \<Rightarrow> pyerr + (db \<times> int)" where
  "force_txn e l params d =
     (let lid = next_learning d; d1 = insert_learning l d; supersedes = jget params ''supersedes'' in
      if faults e FaultTxn \<or> \<not> learn_row_accepted l d1 then Inl OSError
      else if truthy supersedes \<and> \<not> bindable supersedes then Inl OSError
      else
        let d2 = (if truthy supersedes then point_superseded lid supersedes d1 else d1) in
        bind_result (ensure_canonical_learning_node e lid (l_agent l) (l_content l) (now e) d2)
          (\<lambda>(d3, doc). bind_result
             (add_derived_from_edges e lid (l_agent l) (jget params ''evidence_doc_ids'') doc d3)
             (\<lambda>d4. Inr (d4, lid))))"

datatype learn_result =
    Contradiction "contradiction list"
  | Staged stage_reply
  | Stored int string bool    \<comment> \<open>learning, category, indexed\<close>

definition force_learn ::
  "env \<Rightarrow> effective_principal \<Rightarrow> string \<Rightarrow> jobj \<Rightarrow> db \<Rightarrow> learn_result reply \<times> db" where
  "force_learn e p content params d =
     (if \<not> is_operator_principal p then (Fail (-32004) ''operator_only'', d)
      else case known_category (jget_or (JStr ''general'') params ''category'') of
        Inl _ \<Rightarrow> (Fail (-32000) ''Learn error'', d)
      | Inr category \<Rightarrow>
          (case force_txn e (learn_row e (p_agent_id p) category content params) params d of
             Inl _ \<Rightarrow> (Fail (-32000) ''Learn error'', d)
           | Inr (d', lid) \<Rightarrow>
               (case index_result e (p_agent_id p) content lid of
                  None \<Rightarrow> (Fail (-32000) ''Learn error'', d')
                | Some r \<Rightarrow> (Ok (Stored lid category (r \<noteq> Some False)), d'))))"

subsection \<open>The handler\<close>

fun json_len :: "json \<Rightarrow> nat option" where
  "json_len (JStr s) = Some (length s)"
| "json_len (JList xs) = Some (length xs)"
| "json_len (JObj kvs) = Some (length kvs)"
| "json_len _ = None"

fun overlong :: "json \<Rightarrow> bool" where
  "overlong (JStr s) = (length s > MAX_LEARN_FIELD_CHARS)"
| "overlong _ = False"

text \<open>A failure of the staging inside \<^verbatim>\<open>handle_learn\<close> is caught by its own handler.\<close>

definition learn_staged :: "stage_reply reply \<times> db \<Rightarrow> learn_result reply \<times> db" where
  "learn_staged r = (case r of
      (Ok s, d) \<Rightarrow> (Ok (Staged s), d)
    | (Fail code tag, d) \<Rightarrow> (Fail code tag, d)
    | (Raise _, d) \<Rightarrow> (Fail (-32000) ''Learn error'', d))"

definition learn_authorized ::
  "env \<Rightarrow> jobj \<Rightarrow> json \<Rightarrow> effective_principal \<Rightarrow> db \<Rightarrow> learn_result reply \<times> db" where
  "learn_authorized e params content p d =
     (let force = truthy (jget params ''force'');
          scan = (\<not> force \<and> jget params ''contradicts_id'' = JNull);
          assertion = jget params ''assertion''
      in case content of
           JStr text \<Rightarrow>
             let hits = (if scan then detect_contradictions e
                            (if truthy assertion then assertion else JStr (extract_assertion text))
                            (p_agent_id p) d
                         else [])
             in if hits \<noteq> [] then (Ok (Contradiction hits), d)
                else if \<not> force then learn_staged (stage_candidate e params (Inr p) d)
                else force_learn e p text params d
         | _ \<Rightarrow>
             let hits = (if scan \<and> truthy assertion
                         then detect_contradictions e assertion (p_agent_id p) d else [])
             in if hits \<noteq> [] then (Ok (Contradiction hits), d)
                else if force \<and> \<not> is_operator_principal p then (Fail (-32004) ''operator_only'', d)
                else (Fail (-32000) ''Learn error'', d))"

definition handle_learn :: "env \<Rightarrow> jobj \<Rightarrow> stamp \<Rightarrow> db \<Rightarrow> learn_result reply \<times> db" where
  "handle_learn e params who d =
     (case reject_wire_supplied_auto_accept params of
        Some (code, tag) \<Rightarrow> (Fail code tag, d)
      | None \<Rightarrow>
        let content = jget_or (JStr []) params ''content'' in
        if \<not> truthy content then (Fail (-32602) ''content is required'', d)
        else case json_len content of
          None \<Rightarrow> (Raise TypeError, d)
        | Some n \<Rightarrow>
            if n > MAX_LEARN_CHARS then (Fail (-32602) ''learn content exceeds'', d)
            else if overlong (jget params ''title'') then (Fail (-32602) ''learn title exceeds'', d)
            else if overlong (jget params ''summary'') then (Fail (-32602) ''learn summary exceeds'', d)
            else case who of
              Inl (code, tag) \<Rightarrow> (Fail code tag, d)
            | Inr p \<Rightarrow>
                (case validate_agent_id (p_agent_id p) of
                   Inl _ \<Rightarrow> (Fail (-32602) ''invalid agent_id'', d)
                 | Inr _ \<Rightarrow> learn_authorized e params content p d))"

subsection \<open>Detection answers about the caller's own rows\<close>

lemma contradiction_of_Some:
  assumes "contradiction_of e agent q l = Some ct" and "agent \<noteq> []"
  shows "learning_active l \<and> l_agent l = agent \<and> ct_id ct = l_id l \<and> ct_agent ct = agent
    \<and> ct_content ct = l_content l"
  using assms by (auto simp: contradiction_of_def split: if_split_asm option.split_asm)

lemma map_filter_set: "x \<in> set (List.map_filter f xs) \<longleftrightarrow> (\<exists>y \<in> set xs. f y = Some x)"
  by (induction xs) (auto simp: List.map_filter_simps split: option.split)

lemma detect_own:
  assumes "ct \<in> set (detect_contradictions e t agent d)" and "agent \<noteq> []"
  shows "\<exists>l \<in> set (learnings d). learning_active l \<and> l_agent l = agent \<and> ct_id ct = l_id l
    \<and> ct_agent ct = agent \<and> ct_content ct = l_content l"
  using assms contradiction_of_Some [OF _ assms(2)]
  by (fastforce simp: detect_contradictions_def map_filter_set split: option.split_asm if_split_asm)

lemma detect_sorted: "sorted (map (\<lambda>x. - ct_score x) (detect_contradictions e t agent d))"
  by (simp add: detect_contradictions_def split: option.split)

lemma learn_staged_simps [simp]:
  "snd (learn_staged r) = snd r"
  "fst (learn_staged r) \<noteq> Ok (Contradiction cs)" "fst (learn_staged r) \<noteq> Ok (Stored l c b)"
  by (auto simp: learn_staged_def split: prod.split reply.split)

lemma handle_learn_cases [consumes 1, case_names refused contradiction staged forced]:
  assumes "handle_learn e params who d = (rep, d')"
  obtains "d' = d" and "\<forall>r. rep \<noteq> Ok r"
  | p cs t where "who = Inr p" and "p_agent_id p \<noteq> []" and "d' = d" and "rep = Ok (Contradiction cs)"
      and "cs = detect_contradictions e t (p_agent_id p) d" and "cs \<noteq> []"
      and "\<not> truthy (jget params ''force'')"
  | p where "who = Inr p" and "\<not> truthy (jget params ''force'')"
      and "(rep, d') = learn_staged (stage_candidate e params who d)"
  | p t where "who = Inr p" and "truthy (jget params ''force'')"
      and "(rep, d') = force_learn e p t params d"
proof -
  have named: "validate_agent_id a = Inr b \<Longrightarrow> a \<noteq> []" for a b
    by (auto simp: validate_agent_id_def agent_id_re_match_def split: if_split_asm)
  show ?thesis
  proof (cases "d' = d \<and> (\<forall>r. rep \<noteq> Ok r)")
    case True
    then show ?thesis using that(1) by blast
  next
    case ok: False
    obtain p content where p: "who = Inr p" "p_agent_id p \<noteq> []"
      and a: "learn_authorized e params content p d = (rep, d')"
      using assms ok named
      by (auto simp: handle_learn_def Let_def split: option.split_asm if_split_asm sum.split_asm prod.split_asm)
    show ?thesis
    proof (cases "\<exists>t. content = JStr t")
      case True
      then obtain t where t: "content = JStr t" by blast
      note u = a [unfolded learn_authorized_def t Let_def json.case]
      show ?thesis
      proof (cases "truthy (jget params ''force'')")
        case True
        then show ?thesis using u p by (intro that(4) [of p t]) simp_all
      next
        case False
        let ?q = "if truthy (jget params ''assertion'') then jget params ''assertion''
          else JStr (extract_assertion t)"
        let ?hits = "detect_contradictions e ?q (p_agent_id p) d"
        show ?thesis
        proof (cases "jget params ''contradicts_id'' = JNull \<and> ?hits \<noteq> []")
          case True
          then show ?thesis using u p False by (intro that(2) [of p ?hits ?q]) auto
        next
          case F: False
          then show ?thesis using u p False by (intro that(3) [of p]) auto
        qed
      qed
    next
      case False
      then have u: "(let hits = (if (\<not> truthy (jget params ''force'') \<and> jget params ''contradicts_id'' = JNull)
            \<and> truthy (jget params ''assertion'')
          then detect_contradictions e (jget params ''assertion'') (p_agent_id p) d else [])
        in if hits \<noteq> [] then (Ok (Contradiction hits), d)
           else if truthy (jget params ''force'') \<and> \<not> is_operator_principal p
           then (Fail (-32004) ''operator_only'', d) else (Fail (-32000) ''Learn error'', d)) = (rep, d')"
        using a False unfolding learn_authorized_def
        by (cases content) (simp_all only: Let_def json.case json.inject simp_thms)
      show ?thesis using u p ok that(2) [of p _ "jget params ''assertion''"]
        by (auto simp: Let_def split: if_split_asm)
    qed
  qed
qed

lemma force_txn_Inr:
  assumes "force_txn e l params d = Inr (d', lid)"
  shows "lid = next_learning d" and "candidates d' = candidates d"
    and "learnings d' = learnings ((if truthy (jget params ''supersedes'')
           then point_superseded lid (jget params ''supersedes'') else id) (insert_learning l d))"
    and "wf_db d \<Longrightarrow> wf_db d'"
proof -
  let ?s = "jget params ''supersedes''"
  let ?d2 = "(if truthy ?s then point_superseded (next_learning d) ?s (insert_learning l d)
    else insert_learning l d)"
  obtain d3 doc d4 where node: "ensure_canonical_learning_node e (next_learning d) (l_agent l)
      (l_content l) (now e) ?d2 = Inr (d3, doc)"
    and edges: "add_derived_from_edges e (next_learning d) (l_agent l)
      (jget params ''evidence_doc_ids'') doc d3 = Inr d4" and d': "d' = d4" "lid = next_learning d"
    using assms unfolding force_txn_def Let_def
    by (auto simp: bind_result_Inr_iff split: if_split_asm)
  have src: "learnings (fst (edge_source e i a c x)) = learnings x"
    "candidates (fst (edge_source e i a c x)) = candidates x"
    "wf_db x \<Longrightarrow> wf_db (fst (edge_source e i a c x))" for i a c x
    by (auto simp: edge_source_def Let_def wf_db_def alias_node_def find_None_iff
        intro: ids_fresh_snoc split: option.split)
  have link: "wf_db (x\<lparr>links := ls\<rparr>) = wf_db x" for x ls by (simp add: wf_db_def)
  have e: "learnings d4 = learnings d3 \<and> candidates d4 = candidates d3 \<and> (wf_db d3 \<longrightarrow> wf_db d4)"
    using edges src(1,2) src(3) [of d3] link
    by (auto simp: add_derived_from_edges_def bind_result_Inr_iff Let_def split_beta split: if_split_asm)
  have p: "wf_db x \<Longrightarrow> wf_db (point_superseded i t x)" for i t x
    by (simp add: point_superseded_def wf_db_def ids_fresh_update)
  have c2: "candidates ?d2 = candidates d" by (simp add: point_superseded_def)
  have w2: "wf_db d \<Longrightarrow> wf_db ?d2" by (simp add: p insert_learning_wf)
  show "lid = next_learning d" by (rule d'(2))
  show "candidates d' = candidates d" using e d' ensure_node_frame(2) [OF node] c2 by simp
  show "learnings d' = learnings ((if truthy ?s then point_superseded lid ?s else id) (insert_learning l d))"
    using e d' ensure_node_frame(1) [OF node] by simp
  show "wf_db d'" if "wf_db d" using e d' ensure_node_wf [OF w2 [OF that] node] by simp
qed

lemma force_learn_cases [consumes 1, case_names refused written]:
  assumes "force_learn e p t params d = (rep, d')"
  obtains "d' = d" and "\<forall>r. rep \<noteq> Ok r"
  | category lid where "is_operator_principal p"
      and "force_txn e (learn_row e (p_agent_id p) category t params) params d = Inr (d', lid)"
      and "rep = Fail (-32000) ''Learn error''
        \<or> (\<exists>b. rep = Ok (Stored lid category b))"
proof (cases "is_operator_principal p")
  case False
  then show ?thesis using assms that(1) by (auto simp: force_learn_def)
next
  case op: True
  show ?thesis
  proof (cases "known_category (jget_or (JStr ''general'') params ''category'')")
    case (Inl x)
    then show ?thesis using assms op that(1) by (auto simp: force_learn_def)
  next
    case (Inr cat)
    show ?thesis
    proof (cases "force_txn e (learn_row e (p_agent_id p) cat t params) params d")
      case (Inl x)
      then show ?thesis using assms op Inr that(1) by (auto simp: force_learn_def)
    next
      case w: (Inr w)
      obtain d1 lid where w': "w = (d1, lid)" by fastforce
      have "d' = d1 \<and> (rep = Fail (-32000) ''Learn error'' \<or> (\<exists>b. rep = Ok (Stored lid cat b)))"
        using assms op Inr w w' by (auto simp: force_learn_def split: option.split_asm)
      then show ?thesis using op w w' that(2) by blast
    qed
  qed
qed

definition learn_op :: "env \<Rightarrow> jobj \<times> stamp \<Rightarrow> db \<Rightarrow> db" where
  "learn_op e = (\<lambda>(params, who) d. snd (handle_learn e params who d))"

lemma learn_contract:
  assumes "wf_db d"
  shows "wf_db (learn_op e a d) \<and> frozen_rows d (learn_op e a d)"
proof -
  obtain params who rep d' where a: "a = (params, who)" "handle_learn e params who d = (rep, d')"
    by (metis prod.exhaust)
  from a(2) have "wf_db d' \<and> frozen_rows d d'"
  proof (cases rule: handle_learn_cases)
    case refused
    then show ?thesis using assms by simp
  next
    case (contradiction p cs t)
    then show ?thesis using assms by simp
  next
    case (staged p)
    have "d' = snd (stage_candidate e params who d)"
      using arg_cong [OF staged(3), of snd] by simp
    then show ?thesis using stage_contract [OF assms, of e "(params, who)"] by (simp add: stage_op_def)
  next
    case (forced p t)
    from forced(3) [symmetric] show ?thesis
    proof (cases rule: force_learn_cases)
      case refused
      then show ?thesis using assms by simp
    next
      case (written c lid)
      then show ?thesis
        using force_txn_Inr [OF written(2)] assms frozen_rows_same by blast
    qed
  qed
  then show ?thesis using a by (simp add: learn_op_def)
qed

interpretation learn_queue: queue_op "learn_op e"
  by unfold_locales (simp_all add: learn_contract)

subsection \<open>Properties of learning\<close>

theorem wire_knob_refused:
  assumes "k \<in> set AUTO_ACCEPT_PARAM_KEYS" and "has_key params k"
  shows "handle_learn e params who d = (Fail (-32004) ''operator_only'', d)
    \<and> stage_candidate e params who d = (Fail (-32004) ''operator_only'', d)"
proof -
  have "reject_wire_supplied_auto_accept params = Some (-32004, ''operator_only'')"
    using assms by (auto simp: reject_wire_supplied_auto_accept_def list_ex_iff)
  then show ?thesis by (simp add: handle_learn_def stage_candidate_def)
qed

theorem contradictions_are_own:
  assumes "handle_learn e params who d = (Ok (Contradiction cs), d')"
  shows "d' = d \<and> cs \<noteq> [] \<and> sorted (map (\<lambda>x. - ct_score x) cs)
    \<and> (\<exists>p. who = Inr p \<and> (\<forall>ct \<in> set cs. ct_agent ct = p_agent_id p
         \<and> (\<exists>l \<in> set (learnings d). learning_active l \<and> l_agent l = p_agent_id p
               \<and> l_id l = ct_id ct \<and> l_content l = ct_content ct)))"
  using assms
proof (cases rule: handle_learn_cases)
  case (contradiction p cs' t)
  then show ?thesis using detect_own [of _ e t "p_agent_id p" d] detect_sorted [of e t "p_agent_id p" d]
    by fastforce
next
  case (staged p)
  then show ?thesis using learn_staged_simps(2) by (metis fst_conv)
next
  case (forced p t)
  from forced(3) [symmetric] show ?thesis by (cases rule: force_learn_cases) auto
qed simp

lemma update_where_last:
  "xs \<noteq> [] \<Longrightarrow> last (update_where P f xs) = (if P (last xs) then f (last xs) else last xs)"
  by (simp add: update_where_def last_map)

theorem learn_writes_need_authority:
  assumes "handle_learn e params who d = (rep, d')" and "learnings d' \<noteq> learnings d"
  shows "\<exists>p. who = Inr p
    \<and> (if truthy (jget params ''force'') then is_operator_principal p else p_auto_accept_own p)
    \<and> length (learnings d') = length (learnings d) + 1
    \<and> map l_content (butlast (learnings d')) = map l_content (learnings d)
    \<and> l_agent (last (learnings d')) = p_agent_id p"
  using assms(1)
proof (cases rule: handle_learn_cases)
  case (staged p)
  note noforce = staged(2)
  obtain rs where s: "stage_candidate e params who d = (rs, d')"
    using staged(3) by (metis learn_staged_simps(1) prod.collapse snd_conv)
  from s show ?thesis
  proof (cases rule: stage_candidate_cases)
    case refused
    then show ?thesis using assms(2) by simp
  next
    case (staged q t)
    from staged(4) show ?thesis
    proof (cases rule: stage_content_cases)
      case (accepted lid)
      then show ?thesis using staged(1) noforce by (auto simp: auto_accepted_def)
    qed (use assms(2) in auto)
  qed
next
  case (forced p t)
  from forced(3) [symmetric] show ?thesis
  proof (cases rule: force_learn_cases)
    case refused
    then show ?thesis using assms(2) by simp
  next
    case (written c lid)
    note f = force_txn_Inr(1,3) [OF written(2)]
    have ls: "learnings d' = learnings (insert_learning (learn_row e (p_agent_id p) c t params) d) \<or>
       learnings d' = update_where (\<lambda>l. sql_int (jget params ''supersedes'') = Some (l_id l))
        (\<lambda>l. l\<lparr>l_superseded_by := Some lid\<rparr>)
        (learnings (insert_learning (learn_row e (p_agent_id p) c t params) d))"
      using f(2) by (simp add: point_superseded_def split: if_split_asm)
    have "map l_content (learnings d') = map l_content
        (learnings (insert_learning (learn_row e (p_agent_id p) c t params) d))"
      using ls by (auto simp: update_where_keys)
    then have m: "map l_content (butlast (learnings d')) = map l_content (learnings d)"
      by (simp add: map_butlast)
    have n: "length (learnings d') = length (learnings d) + 1" using ls by auto
    have "l_agent (last (learnings d')) = p_agent_id p"
      using ls by (auto simp: update_where_last learn_row_def new_learning_def)
    then show ?thesis using forced(1,2) written(1) m n by auto
  qed
qed (use assms(2) in auto)

subsection \<open>Concrete learns\<close>

theorem wire_knob_refused_witness:
  "handle_learn demo_env [(''auto_accept_own'', JBool True)] (Inr demo_grantee) empty_db
     = (Fail (-32004) ''operator_only'', empty_db)"
  using wire_knob_refused [of "''auto_accept_own''" "[(''auto_accept_own'', JBool True)]"]
  by (simp add: AUTO_ACCEPT_PARAM_KEYS_def has_key_def)

definition demo_echo_env :: env where
  "demo_echo_env = demo_env\<lparr>cosine := \<lambda>_ _. Some 1, contradiction_threshold := 0\<rparr>"

definition demo_memory :: db where
  "demo_memory = insert_learning ((new_learning ''codex'' ''use nix flakes'' 1)\<lparr>l_embedding := Some [1]\<rparr>) empty_db"

definition demo_echo :: contradiction where
  "demo_echo = \<lparr>ct_id = 1, ct_content = ''use nix flakes'', ct_assertion = JNull, ct_score = 1,
     ct_agent = ''codex'', ct_created = 1\<rparr>"

lemma demo_detect: "detect_contradictions demo_echo_env t ''codex'' demo_memory = [demo_echo]"
proof -
  have "round4 1 = 1" by (simp add: round4_def Let_def)
  then show ?thesis
    by (simp add: detect_contradictions_def demo_echo_env_def demo_env_def demo_memory_def
        new_learning_def empty_db_def contradiction_of_def learning_active_def
        List.map_filter_simps demo_echo_def)
qed

lemma demo_contradicts:
  "handle_learn demo_echo_env demo_params (Inr (demo_agent ''codex'' [] [])) demo_memory
     = (Ok (Contradiction [demo_echo]), demo_memory)"
proof -
  have v: "validate_agent_id ''codex'' = Inr ''codex''" by code_simp
  have "p_agent_id (demo_agent ''codex'' [] []) = ''codex''" by (simp add: demo_agent_def)
  then show ?thesis using v
    by (simp add: handle_learn_def reject_wire_supplied_auto_accept_def AUTO_ACCEPT_PARAM_KEYS_def
        has_key_def demo_params_def jget_or_def MAX_LEARN_CHARS_def learn_authorized_def Let_def
        demo_detect)
qed

theorem contradictions_are_own_witness:
  "\<exists>cs. handle_learn demo_echo_env demo_params (Inr (demo_agent ''codex'' [] [])) demo_memory
     = (Ok (Contradiction cs), demo_memory) \<and> (\<forall>ct \<in> set cs. ct_agent ct = ''codex'')"
proof -
  obtain cs where cs: "handle_learn demo_echo_env demo_params (Inr (demo_agent ''codex'' [] [])) demo_memory
     = (Ok (Contradiction cs), demo_memory)" using demo_contradicts by blast
  then show ?thesis using contradictions_are_own [OF cs] by (auto simp: demo_agent_def)
qed

lemma demo_learn_staged:
  "handle_learn demo_env demo_params (Inr demo_grantee) empty_db
     = learn_staged (stage_candidate demo_env demo_params (Inr demo_grantee) empty_db)"
proof -
  have v: "validate_agent_id ''codex'' = Inr ''codex''" by code_simp
  have "p_agent_id demo_grantee = ''codex''" by (simp add: demo_grantee_def demo_agent_def)
  then show ?thesis using v
    by (simp add: handle_learn_def reject_wire_supplied_auto_accept_def AUTO_ACCEPT_PARAM_KEYS_def
        has_key_def demo_params_def jget_or_def MAX_LEARN_CHARS_def learn_authorized_def Let_def
        detect_contradictions_def empty_db_def List.map_filter_simps split: option.split)
qed

theorem learn_writes_need_authority_witness:
  "\<exists>rep d'. handle_learn demo_env demo_params (Inr demo_grantee) empty_db = (rep, d')
     \<and> length (learnings d') = 1 \<and> p_auto_accept_own demo_grantee"
proof -
  obtain r d' lid where s: "stage_candidate demo_env demo_params (Inr demo_grantee) empty_db = (Ok r, d')"
    "sr_learning r = Some lid"
    using demo_stage_accepts by blast
  from s(1) have "learnings d' \<noteq> learnings empty_db"
  proof (cases rule: stage_candidate_cases)
    case (staged p t)
    from staged(4) show ?thesis
      by (cases rule: stage_content_cases) (use s(2) in \<open>auto simp: auto_accepted_def\<close>)
  qed simp
  moreover have "handle_learn demo_env demo_params (Inr demo_grantee) empty_db = (Ok (Staged r), d')"
    using demo_learn_staged s by (simp add: learn_staged_def)
  ultimately show ?thesis
    using learn_writes_need_authority [of demo_env demo_params "Inr demo_grantee" empty_db "Ok (Staged r)" d']
    by (auto simp: demo_params_def jget_or_def empty_db_def)
qed

end
