(* ===== verification/Correct.thy ===== *)
theory Correct
  imports Learn
begin

text \<open>
  \<^verbatim>\<open>handle_resolve_contradiction\<close> and \<^verbatim>\<open>handle_subscribe_contradictions\<close> of
  \<^verbatim>\<open>src/minni/minnid_runtime/governance.py\<close>: correcting durable learnings, and
  telling the agents that had read them.  The purge of the projections of superseded
  learnings and the markdown copy run after the commit and are outside the store here.
\<close>

subsection \<open>Request\<close>

fun plain_ints :: "json list \<Rightarrow> int list option" where
  "plain_ints [] = Some []"
| "plain_ints (JInt n # xs) = map_option ((#) n) (plain_ints xs)"
| "plain_ints (_ # xs) = None"

definition parse_supersede_ids :: "jobj \<Rightarrow> (int \<times> string) + int list" where
  "parse_supersede_ids params =
     (case jget_or (JList []) params ''supersede_ids'' of
        JList xs \<Rightarrow>
          (case plain_ints xs of
             None \<Rightarrow> Inl (-32602, ''supersede_ids must be a list of integers'')
           | Some ids \<Rightarrow>
               if ids = [] then Inl (-32602, ''supersede_ids must be a non-empty list of integers'')
               else Inr ids)
      | _ \<Rightarrow> Inl (-32602, ''supersede_ids must be a list''))"

text \<open>\<^verbatim>\<open>list(dict.fromkeys(ids))\<close>: first occurrences, in order.\<close>

definition dedupe :: "int list \<Rightarrow> int list" where
  "dedupe ids = rev (remdups (rev ids))"

subsection \<open>The transaction\<close>

definition correction_row :: "env \<Rightarrow> string \<Rightarrow> string \<Rightarrow> string \<Rightarrow> string option \<Rightarrow> jobj \<Rightarrow> learning" where
  "correction_row e agent category content h params =
     (new_learning agent content (now e))
       \<lparr>l_category := category,
        l_confidence := jget_or (JFloat (Fin 1) ''1.0'') params ''confidence'',
        l_embedding := embed e content,
        l_assertion := jget params ''assertion'', l_applies_when := jget params ''applies_when'',
        l_evidence := evidence_json (jget params ''evidence_doc_ids''), l_hash := h\<rparr>"

fun check_owned :: "env \<Rightarrow> effective_principal \<Rightarrow> db \<Rightarrow> int list \<Rightarrow> (int \<times> string) option" where
  "check_owned e p d [] = None"
| "check_owned e p d (i # is) =
     (if \<not> bindable (JInt i) then Some (-32000, ''Resolve contradiction error'')
      else case learning_row d i of
        None \<Rightarrow> Some (-32001, ''learning_not_found'')
      | Some l \<Rightarrow>
          if l_agent l \<noteq> p_agent_id p \<and> \<not> explicitly_allowed_operator e p
          then Some (-32004, ''principal_mismatch'')
          else check_owned e p d is)"

definition supersede_one :: "env \<Rightarrow> string \<Rightarrow> int \<Rightarrow> int \<Rightarrow> db \<Rightarrow> db" where
  "supersede_one e agent new i d =
     d\<lparr>learnings := update_where (\<lambda>l. l_id l = i) (retire_learning new) (learnings d),
       events := events d @ [\<lparr>ev_id = next_event d, ev_superseded = i, ev_new = new,
                              ev_agent = agent, ev_at = now e\<rparr>],
       next_event := next_event d + 1\<rparr>"

definition supersede_all :: "env \<Rightarrow> string \<Rightarrow> int \<Rightarrow> int list \<Rightarrow> db \<Rightarrow> db" where
  "supersede_all e agent new ids d = fold (supersede_one e agent new) ids d"

definition correct_txn ::
  "env \<Rightarrow> effective_principal \<Rightarrow> learning \<Rightarrow> int list \<Rightarrow> db \<Rightarrow> (int \<times> string) + (db \<times> int)" where
  "correct_txn e p l ids d =
     (if faults e FaultTxn then Inl (-32000, ''Resolve contradiction error'')
      else case check_owned e p d ids of
        Some err \<Rightarrow> Inl err
      | None \<Rightarrow>
          if \<not> list_all bindable [l_confidence l, l_assertion l, l_applies_when l]
          then Inl (-32000, ''Resolve contradiction error'')
          else let lid = next_learning d
               in Inr (supersede_all e (p_agent_id p) lid ids (insert_learning l d), lid))"

record correct_reply =
  cr_learning :: int
  cr_superseded :: "int list"

definition correct_authorized ::
  "env \<Rightarrow> jobj \<Rightarrow> string \<Rightarrow> int list \<Rightarrow> effective_principal \<Rightarrow> db \<Rightarrow> correct_reply reply \<times> db" where
  "correct_authorized e params content ids0 p d =
     (if length content > MAX_LEARN_CHARS then (Fail (-32602) ''new_content exceeds'', d)
      else if is_instruction_like content \<and> \<not> explicitly_allowed_accept_flagged p
      then (Fail (-32004) ''accept_flagged_required'', d)
      else
        let ids = dedupe ids0 in
        if length ids > MAX_SUPERSEDE_IDS then (Fail (-32602) ''supersede_ids exceeds'', d)
        else case known_category (jget_or (JStr ''general'') params ''category'') of
          Inl _ \<Rightarrow> (Fail (-32000) ''Resolve contradiction error'', d)
        | Inr category \<Rightarrow>
            let (d1, hashed) = ensure_content_hash_column e d;
                h = (if hashed then Some (content_hash e content) else None)
            in case correct_txn e p (correction_row e (p_agent_id p) category content h params) ids d1 of
                 Inl (code, tag) \<Rightarrow> (Fail code tag, d1)
               | Inr (d2, lid) \<Rightarrow> (Ok \<lparr>cr_learning = lid, cr_superseded = ids\<rparr>, d2))"

definition handle_resolve_contradiction ::
  "env \<Rightarrow> jobj \<Rightarrow> stamp \<Rightarrow> db \<Rightarrow> correct_reply reply \<times> db" where
  "handle_resolve_contradiction e params who d =
     (let content = jget_or (JStr []) params ''new_content'' in
      if \<not> truthy content then (Fail (-32602) ''new_content is required'', d)
      else case parse_supersede_ids params of
        Inl (code, tag) \<Rightarrow> (Fail code tag, d)
      | Inr ids \<Rightarrow>
          (case who of
             Inl (code, tag) \<Rightarrow> (Fail code tag, d)
           | Inr p \<Rightarrow>
               (case validate_agent_id (p_agent_id p) of
                  Inl _ \<Rightarrow> (Fail (-32602) ''invalid agent_id'', d)
                | Inr _ \<Rightarrow>
                    (case content of
                       JStr text \<Rightarrow> correct_authorized e params text ids p d
                     | _ \<Rightarrow> (Raise TypeError, d)))))"

subsection \<open>Effects of a correction\<close>

lemma dedupe_props: "set (dedupe ids) = set ids" "distinct (dedupe ids)" "dedupe ids = [] \<longleftrightarrow> ids = []"
proof -
  show s: "set (dedupe ids) = set ids" and "distinct (dedupe ids)" by (simp_all add: dedupe_def)
  show "dedupe ids = [] \<longleftrightarrow> ids = []" using s by (metis set_empty)
qed

definition retire_in :: "int list \<Rightarrow> int \<Rightarrow> learning \<Rightarrow> learning" where
  "retire_in ids new l = (if l_id l \<in> set ids then retire_learning new l else l)"

lemma supersede_all_learnings:
  "learnings (supersede_all e agent new ids d) = map (retire_in ids new) (learnings d)"
proof (induction ids arbitrary: d)
  case Nil
  then show ?case by (simp add: supersede_all_def retire_in_def)
next
  case (Cons i ids)
  have "learnings (supersede_all e agent new (i # ids) d)
      = map (retire_in ids new) (learnings (supersede_one e agent new i d))"
    using Cons [of "supersede_one e agent new i d"] by (simp add: supersede_all_def)
  then show ?case
    by (simp add: supersede_one_def update_where_def retire_in_def)
      (auto simp: retire_learning_def)
qed

lemma supersede_all_events:
  "\<exists>es. events (supersede_all e agent new ids d) = events d @ es \<and> map ev_superseded es = ids
     \<and> (\<forall>x \<in> set es. ev_new x = new \<and> ev_agent x = agent \<and> ev_at x = now e)"
proof (induction ids arbitrary: d)
  case Nil
  then show ?case by (simp add: supersede_all_def)
next
  case (Cons i ids)
  obtain es where es: "events (supersede_all e agent new ids (supersede_one e agent new i d))
      = events (supersede_one e agent new i d) @ es" "map ev_superseded es = ids"
    "\<forall>x \<in> set es. ev_new x = new \<and> ev_agent x = agent \<and> ev_at x = now e"
    using Cons by blast
  let ?x = "\<lparr>ev_id = next_event d, ev_superseded = i, ev_new = new, ev_agent = agent, ev_at = now e\<rparr>"
  show ?case using es
    by (intro exI [of _ "?x # es"]) (simp add: supersede_all_def supersede_one_def)
qed

lemma supersede_all_frame [simp]:
  "candidates (supersede_all e agent new ids d) = candidates d"
  "wf_db d \<Longrightarrow> wf_db (supersede_all e agent new ids d)"
proof -
  have one: "candidates (supersede_one e agent new i d) = candidates d"
    "wf_db d \<Longrightarrow> wf_db (supersede_one e agent new i d)" for i d
    by (simp_all add: supersede_one_def wf_db_def ids_fresh_update ids_fresh_snoc)
  show "candidates (supersede_all e agent new ids d) = candidates d"
    by (induction ids arbitrary: d) (simp_all add: supersede_all_def one)
  show "wf_db d \<Longrightarrow> wf_db (supersede_all e agent new ids d)"
    by (induction ids arbitrary: d) (simp_all add: supersede_all_def one)
qed

lemma supersede_all_reads [simp]: "reads (supersede_all e agent new ids d) = reads d"
  by (induction ids arbitrary: d) (simp_all add: supersede_all_def supersede_one_def)

lemma check_owned_None:
  assumes "check_owned e p d ids = None" and "i \<in> set ids"
  shows "\<exists>l. learning_row d i = Some l \<and> (l_agent l = p_agent_id p \<or> explicitly_allowed_operator e p)"
  using assms by (induction ids) (auto split: if_split_asm option.split_asm)

lemma correct_txn_Inr:
  assumes "correct_txn e p l ids d = Inr (d', lid)"
  shows "check_owned e p d ids = None" and "lid = next_learning d"
    and "d' = supersede_all e (p_agent_id p) lid ids (insert_learning l d)"
  using assms by (auto simp: correct_txn_def Let_def split: if_split_asm option.split_asm)

lemma given_text: "jget_or (JStr []) params k = JStr t \<Longrightarrow> t \<noteq> [] \<Longrightarrow> jget params k = JStr t"
  by (auto simp: jget_or_def split: option.splits)

lemma plain_ints_Some: "plain_ints xs = Some ids \<Longrightarrow> xs = map JInt ids"
  by (induction xs arbitrary: ids rule: plain_ints.induct) auto

lemma given_ids: "parse_supersede_ids params = Inr ids \<Longrightarrow> jget params ''supersede_ids'' = JList (map JInt ids)"
  by (auto simp: parse_supersede_ids_def jget_or_def dest!: plain_ints_Some
      split: json.splits option.splits if_splits)

lemma correct_cases [consumes 1, case_names refused written]:
  assumes "handle_resolve_contradiction e params who d = (rep, d')"
  obtains "learnings d' = learnings d" and "events d' = events d" and "candidates d' = candidates d"
      and "wf_db d' = wf_db d" and "\<forall>r. rep \<noteq> Ok r"
  | p ids0 content category d1 h lid where "who = Inr p" and "parse_supersede_ids params = Inr ids0"
      and "is_instruction_like content \<longrightarrow> explicitly_allowed_accept_flagged p"
      and "length (dedupe ids0) \<le> MAX_SUPERSEDE_IDS"
      and "fst (ensure_content_hash_column e d) = d1"
      and "correct_txn e p (correction_row e (p_agent_id p) category content h params) (dedupe ids0) d1
             = Inr (d', lid)"
      and "rep = Ok \<lparr>cr_learning = lid, cr_superseded = dedupe ids0\<rparr>"
      and "jget params ''new_content'' = JStr content"
proof (cases "\<exists>r. rep = Ok r")
  case False
  have "d' = d \<or> d' = fst (ensure_content_hash_column e d)"
    using assms False
    by (auto simp: handle_resolve_contradiction_def correct_authorized_def Let_def split_beta
        split: if_split_asm sum.split_asm json.split_asm)
  then show ?thesis using that(1) False by auto
next
  case True
  then obtain p ids0 body where p: "who = Inr p" "parse_supersede_ids params = Inr ids0"
    and body: "jget params ''new_content'' = JStr body"
    and a: "correct_authorized e params body ids0 p d = (rep, d')"
    using assms given_text by (auto simp: handle_resolve_contradiction_def Let_def
        split: if_split_asm sum.split_asm json.split_asm prod.split_asm)
  obtain category where cat: "known_category (jget_or (JStr ''general'') params ''category'') = Inr category"
    using a True by (auto simp: correct_authorized_def Let_def split: if_split_asm sum.split_asm)
  obtain d1 b where hc: "ensure_content_hash_column e d = (d1, b)" by fastforce
  let ?l = "correction_row e (p_agent_id p) category body
     (if b then Some (content_hash e body) else None) params"
  have g: "is_instruction_like body \<longrightarrow> explicitly_allowed_accept_flagged p"
    "length (dedupe ids0) \<le> MAX_SUPERSEDE_IDS"
    and t: "(case correct_txn e p ?l (dedupe ids0) d1 of Inl (code, tag) \<Rightarrow> (Fail code tag, d1)
        | Inr (d2, lid) \<Rightarrow> (Ok \<lparr>cr_learning = lid, cr_superseded = dedupe ids0\<rparr>, d2)) = (rep, d')"
    using a True cat hc by (auto simp: correct_authorized_def Let_def split: if_split_asm)
  then obtain lid where "correct_txn e p ?l (dedupe ids0) d1 = Inr (d', lid)"
    "rep = Ok \<lparr>cr_learning = lid, cr_superseded = dedupe ids0\<rparr>"
    using True by (auto split: sum.split_asm)
  then show ?thesis using p g hc body by (intro that(2)) auto
qed

lemma correction_events:
  assumes "handle_resolve_contradiction e params who d = (Ok r, d')" and "i \<in> set (cr_superseded r)"
  shows "\<exists>x \<in> set (events d'). ev_superseded x = i \<and> ev_new x = cr_learning r \<and> ev_at x = now e"
    and "reads d' = reads d"
proof -
  have "(\<exists>x \<in> set (events d'). ev_superseded x = i \<and> ev_new x = cr_learning r \<and> ev_at x = now e) \<and> reads d' = reads d"
    using assms(1)
  proof (cases rule: correct_cases)
    case (written p ids0 content category d1 h lid)
    let ?l = "correction_row e (p_agent_id p) category content h params"
    obtain es where es: "events d' = events (insert_learning ?l d1) @ es" "map ev_superseded es = dedupe ids0"
      "\<forall>x \<in> set es. ev_new x = lid \<and> ev_agent x = p_agent_id p \<and> ev_at x = now e"
      using supersede_all_events [of e "p_agent_id p" lid "dedupe ids0" "insert_learning ?l d1"]
        correct_txn_Inr(3) [OF written(6)] by blast
    have "i \<in> ev_superseded ` set es" using assms(2) written(7) es(2) by (metis correct_reply.select_convs(2) reply.inject(1) list.set_map)
    moreover have "reads d' = reads d"
      using correct_txn_Inr(3) [OF written(6)] written(5)
      by (auto simp: insert_learning_def ensure_content_hash_column_def Let_def split: if_split_asm)
    ultimately show ?thesis using es(1,3) written(7) by auto
  qed simp
  then show "\<exists>x \<in> set (events d'). ev_superseded x = i \<and> ev_new x = cr_learning r \<and> ev_at x = now e"
    and "reads d' = reads d" by blast+
qed

definition correct_op :: "env \<Rightarrow> jobj \<times> stamp \<Rightarrow> db \<Rightarrow> db" where
  "correct_op e = (\<lambda>(params, who) d. snd (handle_resolve_contradiction e params who d))"

lemma correct_contract:
  assumes "wf_db d"
  shows "wf_db (correct_op e a d) \<and> frozen_rows d (correct_op e a d)"
proof -
  obtain params who rep d' where a: "a = (params, who)"
    "handle_resolve_contradiction e params who d = (rep, d')"
    by (metis prod.exhaust)
  from a(2) have "wf_db d' \<and> frozen_rows d d'"
  proof (cases rule: correct_cases)
    case refused
    then show ?thesis using assms frozen_rows_same by simp
  next
    case (written p ids0 content category d1 h lid)
    have "wf_db d1" "candidates d1 = candidates d" using written(5) assms by auto
    then show ?thesis
      using correct_txn_Inr(3) [OF written(6)] frozen_rows_same [of d' d]
      by (simp add: insert_learning_wf)
  qed
  then show ?thesis using a by (simp add: correct_op_def)
qed

interpretation correct_queue: queue_op "correct_op e"
  by unfold_locales (simp_all add: correct_contract)

text \<open>
  C8. In a store whose ids are unique, a successful correction retires exactly the learnings
  the request's supersede_ids list, each owned by the caller or superseded by an allowed
  operator, adds one active learning of the caller with the request's new_content, needs the
  accept_flagged capability for instruction-like content, and records one contradiction event
  per retired learning.
\<close>

theorem correction_sound:
  assumes "handle_resolve_contradiction e params who d = (Ok r, d')" and "wf_db d"
  shows "\<exists>p new es ids. who = Inr p
    \<and> jget params ''supersede_ids'' = JList (map JInt ids) \<and> set (cr_superseded r) = set ids
    \<and> jget params ''new_content'' = JStr (l_content new)
    \<and> distinct (cr_superseded r) \<and> cr_superseded r \<noteq> [] \<and> length (cr_superseded r) \<le> 64
    \<and> (\<forall>i \<in> set (cr_superseded r). \<exists>l \<in> set (learnings d). l_id l = i
          \<and> (l_agent l = p_agent_id p \<or> explicitly_allowed_operator e p))
    \<and> learnings d' = map (retire_in (cr_superseded r) (cr_learning r)) (learnings d) @ [new]
    \<and> l_id new = cr_learning r \<and> learning_active new \<and> l_agent new = p_agent_id p
    \<and> (is_instruction_like (l_content new) \<longrightarrow> explicitly_allowed_accept_flagged p)
    \<and> events d' = events d @ es \<and> map ev_superseded es = cr_superseded r
    \<and> (\<forall>x \<in> set es. ev_new x = cr_learning r \<and> ev_agent x = p_agent_id p)"
  using assms(1)
proof (cases rule: correct_cases)
  case (written p ids0 content category d1 h lid)
  let ?ids = "dedupe ids0" and ?l = "correction_row e (p_agent_id p) category content h params"
  have d1: "learnings d1 = learnings d" "events d1 = events d" "wf_db d1" "next_learning d1 = next_learning d"
    using written(5) assms(2) by (auto simp: ensure_content_hash_column_def wf_db_def split: if_split_asm)
  note t = correct_txn_Inr [OF written(6)]
  have owned: "\<exists>l \<in> set (learnings d). l_id l = i
      \<and> (l_agent l = p_agent_id p \<or> explicitly_allowed_operator e p)" if "i \<in> set ?ids" for i
    using check_owned_None [OF t(1) that] learning_row_Some [of d1 i] d1(1) by auto
  have "ids_fresh l_id (learnings d) (next_learning d)" using assms(2) by (simp add: wf_db_def)
  then have fresh: "lid \<notin> set ?ids" using owned t(2) d1(4) by (force simp: ids_fresh_def)
  let ?new = "?l\<lparr>l_id := lid\<rparr>"
  have new: "retire_in ?ids lid ?new = ?new" using fresh by (simp add: retire_in_def)
  have ls: "learnings d' = map (retire_in ?ids lid) (learnings d) @ [?new]"
    unfolding t(3) supersede_all_learnings using t(2) new d1(1,4) by simp
  obtain es where es: "events d' = events d @ es" "map ev_superseded es = ?ids"
    "\<forall>x \<in> set es. ev_new x = lid \<and> ev_agent x = p_agent_id p"
    using supersede_all_events [of e "p_agent_id p" lid ?ids "insert_learning ?l d1"] t(3) d1(2) by auto
  have ne: "?ids \<noteq> []" using written(2) dedupe_props(3)
    by (auto simp: parse_supersede_ids_def split: json.split_asm option.split_asm if_split_asm)
  have r: "r = \<lparr>cr_learning = lid, cr_superseded = ?ids\<rparr>" using written(7) by simp
  show ?thesis
    using written(1,3,4,8) given_ids [OF written(2)] dedupe_props(1,2) ne owned ls es r
    by (intro exI [of _ p] exI [of _ ?new] exI [of _ es] exI [of _ ids0])
      (simp add: MAX_SUPERSEDE_IDS_def correction_row_def new_learning_def learning_active_def)
qed simp

theorem correction_all_or_nothing:
  assumes "handle_resolve_contradiction e params who d = (rep, d')" and "\<forall>r. rep \<noteq> Ok r"
  shows "learnings d' = learnings d \<and> events d' = events d \<and> candidates d' = candidates d"
  using assms(1) by (cases rule: correct_cases) (use assms(2) in auto)

definition demo_correction :: jobj where
  "demo_correction = [(''new_content'', JStr ''use nix flakes''), (''supersede_ids'', JList [JInt 1, JInt 1])]"

lemma demo_corrects_read:
  "\<exists>r d'. handle_resolve_contradiction demo_env demo_correction (Inr (demo_agent ''codex'' [] [])) (demo_memory\<lparr>reads := rs\<rparr>)
     = (Ok r, d') \<and> cr_superseded r = [1]"
proof -
  have v: "validate_agent_id ''codex'' = Inr ''codex''" by code_simp
  have ids: "parse_supersede_ids demo_correction = Inr [1, 1]" "dedupe [1, 1] = [1]" by code_simp+
  have row: "check_owned demo_env (demo_agent ''codex'' [] []) (demo_memory\<lparr>reads := rs, has_hash_column := True\<rparr>) [1] = None"
    by (simp add: learning_row_def demo_memory_def empty_db_def new_learning_def demo_agent_def)
  have get: "jget_or (JStr []) demo_correction ''new_content'' = JStr ''use nix flakes''"
    "known_category (jget_or (JStr ''general'') demo_correction ''category'') = Inr ''general''"
    by (simp_all add: demo_correction_def jget_or_def CATEGORIES_def)
  let ?p = "demo_agent ''codex'' [] []" and ?d = "demo_memory\<lparr>reads := rs, has_hash_column := True\<rparr>"
  have col: "ensure_content_hash_column demo_env (demo_memory\<lparr>reads := rs\<rparr>) = (?d, True)" "\<not> faults demo_env FaultTxn"
    by (simp_all add: ensure_content_hash_column_def demo_env_def)
  have pid: "p_agent_id ?p = ''codex''" by (simp add: demo_agent_def)
  let ?l = "correction_row demo_env ''codex'' ''general'' ''use nix flakes''
      (Some (content_hash demo_env ''use nix flakes'')) demo_correction"
  have b: "list_all bindable [l_confidence ?l, l_assertion ?l, l_applies_when ?l]"
    by (simp add: correction_row_def new_learning_def demo_correction_def jget_or_def)
  have t: "correct_txn demo_env ?p ?l [1] ?d
      = Inr (supersede_all demo_env ''codex'' (next_learning ?d) [1] (insert_learning ?l ?d), next_learning ?d)"
    unfolding correct_txn_def row Let_def using col(2) b pid by simp
  have "correct_authorized demo_env demo_correction ''use nix flakes'' [1, 1] ?p (demo_memory\<lparr>reads := rs\<rparr>)
      = (Ok \<lparr>cr_learning = next_learning ?d, cr_superseded = [1]\<rparr>,
         supersede_all demo_env ''codex'' (next_learning ?d) [1] (insert_learning ?l ?d))"
    unfolding correct_authorized_def ids(2) get(2) col(1) Let_def
    using t pid by (simp add: demo_texts MAX_LEARN_CHARS_def MAX_SUPERSEDE_IDS_def)
  then show ?thesis
    unfolding handle_resolve_contradiction_def get(1) ids(1) Let_def using v pid by simp
qed

lemma demo_corrects:
  "\<exists>r d'. handle_resolve_contradiction demo_env demo_correction (Inr (demo_agent ''codex'' [] [])) demo_memory
     = (Ok r, d') \<and> cr_superseded r = [1]"
  using demo_corrects_read [of "reads demo_memory"] by simp

theorem correction_sound_witness:
  "\<exists>r d' new. handle_resolve_contradiction demo_env demo_correction (Inr (demo_agent ''codex'' [] [])) demo_memory
     = (Ok r, d') \<and> learnings d' = map (retire_in [1] (cr_learning r)) (learnings demo_memory) @ [new]
     \<and> learning_active new"
proof -
  obtain r d' where c: "handle_resolve_contradiction demo_env demo_correction
      (Inr (demo_agent ''codex'' [] [])) demo_memory = (Ok r, d')" "cr_superseded r = [1]"
    using demo_corrects by blast
  have "wf_db demo_memory" by (simp add: demo_memory_def insert_learning_wf empty_db_wf)
  from correction_sound [OF c(1) this] show ?thesis using c by auto
qed

theorem correction_all_or_nothing_witness:
  "learnings (snd (handle_resolve_contradiction demo_env [] (Inr demo_grantee) demo_memory)) = learnings demo_memory"
  using correction_all_or_nothing [of demo_env "[]" "Inr demo_grantee" demo_memory
      "Fail (-32602) ''new_content is required''" demo_memory]
  by (simp add: handle_resolve_contradiction_def jget_or_def)

end
