(* ===== verification/History.thy ===== *)
theory History
  imports Resolve Correct
begin

text \<open>
  All governed writers on one store.  A call is one handler invocation or one commit of the
  drain; the drain prepares a promotion on one store and commits it on a later one, so a
  plan is prepared on any store and other calls may run in between.
\<close>

subsection \<open>The step relation\<close>

datatype gov_call =
    StageCall env jobj stamp
  | ResolveCall env jobj stamp
  | LearnCall env jobj stamp
  | CorrectCall env jobj stamp
  | PromoteCall env int string
  | DedupCall env int
  | ReviewCall env int string

inductive gov_step :: "db \<Rightarrow> gov_call \<Rightarrow> db \<Rightarrow> bool" where
  stage: "stage_candidate e params who d = (rep, d') \<Longrightarrow> gov_step d (StageCall e params who) d'"
| resolve: "resolve_candidate e params who d = (rep, d') \<Longrightarrow> gov_step d (ResolveCall e params who) d'"
| learn: "handle_learn e params who d = (rep, d') \<Longrightarrow> gov_step d (LearnCall e params who) d'"
| correct: "handle_resolve_contradiction e params who d = (rep, d') \<Longrightarrow> gov_step d (CorrectCall e params who) d'"
| promote: "promote_commit e cid reason (promote_prepare e cid d0) d = Inr (d', lid)
    \<Longrightarrow> gov_step d (PromoteCall e cid reason) d'"
| promote_failed: "promote_commit e cid reason (promote_prepare e cid d0) d = Inl x
    \<Longrightarrow> gov_step d (PromoteCall e cid reason) d"
| dedup: "reject_candidate_dedup e cid d = Inr (d', b) \<Longrightarrow> gov_step d (DedupCall e cid) d'"
| dedup_failed: "reject_candidate_dedup e cid d = Inl x \<Longrightarrow> gov_step d (DedupCall e cid) d"
| review: "mark_candidate_review e cid reason d = Inr (d', b) \<Longrightarrow> gov_step d (ReviewCall e cid reason) d'"
| review_failed: "mark_candidate_review e cid reason d = Inl x \<Longrightarrow> gov_step d (ReviewCall e cid reason) d"

inductive_cases gov_step_stage: "gov_step d (StageCall e params who) d'"
inductive_cases gov_step_promote: "gov_step d (PromoteCall e cid reason) d'"

inductive gov_run :: "db \<Rightarrow> gov_call list \<Rightarrow> db \<Rightarrow> bool" where
  none: "gov_run d [] d"
| step: "gov_step d c d1 \<Longrightarrow> gov_run d1 cs d' \<Longrightarrow> gov_run d (c # cs) d'"

inductive_simps gov_run_Nil [simp]: "gov_run d [] d'"
inductive_simps gov_run_Cons: "gov_run d (c # cs) d'"

text \<open>Calls that write through the candidate queue only.\<close>

fun queued_call :: "gov_call \<Rightarrow> bool" where
  "queued_call (LearnCall _ _ _) = False"
| "queued_call (CorrectCall _ _ _) = False"
| "queued_call _ = True"

lemmas op_defs = stage_op_def resolve_op_def learn_op_def correct_op_def promote_op_def dedup_op_def
  review_op_def store_of_def

lemma gov_step_contract:
  assumes "gov_step d c d'" and "wf_db d"
  shows "wf_db d' \<and> frozen_rows d d' \<and> (queued_call c \<longrightarrow> balance d' = balance d)"
  using assms
proof (induction rule: gov_step.induct)
  case (stage e params who d rep d')
  then have d': "d' = stage_op e (params, who) d" by (simp add: stage_op_def)
  show ?case unfolding d' using stage_queue.op_wf stage_queue.op_frozen stage_queue.op_balance stage(2) by simp
next
  case (resolve e params who d rep d')
  then have d': "d' = resolve_op e (params, who) d" by (simp add: resolve_op_def)
  show ?case unfolding d' using resolve_queue.op_wf resolve_queue.op_frozen resolve_queue.op_balance resolve(2) by simp
next
  case (learn e params who d rep d')
  then have d': "d' = learn_op e (params, who) d" by (simp add: learn_op_def)
  show ?case unfolding d' using learn_queue.op_wf learn_queue.op_frozen learn(2) by simp
next
  case (correct e params who d rep d')
  then have d': "d' = correct_op e (params, who) d" by (simp add: correct_op_def)
  show ?case unfolding d' using correct_queue.op_wf correct_queue.op_frozen correct(2) by simp
next
  case (promote e cid reason d0 d d' lid)
  then have d': "d' = promote_op e (cid, reason, promote_prepare e cid d0) d"
    by (simp add: promote_op_def store_of_def)
  show ?case unfolding d'
    using promote_queue.op_wf promote_queue.op_frozen promote_queue.op_balance promote(2) by simp
next
  case (dedup e cid d d' b)
  then have d': "d' = dedup_op e cid d" by (simp add: dedup_op_def store_of_def)
  show ?case unfolding d' using dedup_queue.op_wf dedup_queue.op_frozen dedup_queue.op_balance dedup(2) by simp
next
  case (review e cid reason d d' b)
  then have d': "d' = review_op e (cid, reason) d" by (simp add: review_op_def store_of_def)
  show ?case unfolding d' using review_queue.op_wf review_queue.op_frozen review_queue.op_balance review(2) by simp
qed simp_all

lemma gov_run_contract:
  "gov_run d cs d' \<Longrightarrow> wf_db d \<Longrightarrow>
   wf_db d' \<and> frozen_rows d d' \<and> (list_all queued_call cs \<longrightarrow> balance d' = balance d)"
proof (induction rule: gov_run.induct)
  case (none d)
  then show ?case by simp
next
  case (step d c d1 cs d')
  note s = gov_step_contract [OF step.hyps(1) step.prems]
  then show ?case using step.IH frozen_rows_trans by auto
qed

subsection \<open>The abstract queue\<close>

text \<open>
  What the queue promises, without rows or handlers: each id has no status yet, is
  \<^verbatim>\<open>proposed\<close>, or has reached a status it keeps.
\<close>

definition queue_abs :: "db \<Rightarrow> int \<Rightarrow> string option" where
  "queue_abs d i = map_option c_status (candidate_row d i)"

definition abs_step :: "(int \<Rightarrow> string option) \<Rightarrow> (int \<Rightarrow> string option) \<Rightarrow> bool" where
  "abs_step m m' \<longleftrightarrow> (\<forall>i. m i = None \<or> m i = Some ''proposed'' \<or> m' i = m i)"

lemma frozen_refines: "frozen_rows d d' \<Longrightarrow> abs_step (queue_abs d) (queue_abs d')"
  by (fastforce simp: frozen_rows_def abs_step_def queue_abs_def)

text \<open>
  C10. Every call of a governed writer, the drain's promotions and rejections included, is a
  step of an abstract queue in which an id gets a status once and keeps any status but
  'proposed' for ever; the tables stay well formed.
\<close>

theorem governed_steps_refine_queue:
  assumes "gov_step d c d'" and "wf_db d"
  shows "wf_db d' \<and> abs_step (queue_abs d) (queue_abs d')"
  using gov_step_contract [OF assms] frozen_refines by blast

theorem terminal_rows_survive_everything:
  assumes "gov_run d calls d'" and "wf_db d" and "candidate_row d i = Some c" and "c_status c \<noteq> ''proposed''"
  shows "candidate_row d' i = Some c \<and> wf_db d'"
  using gov_run_contract [OF assms(1,2)] assms(3,4) by (simp add: frozen_rows_def)

theorem learnings_match_acceptances:
  assumes "gov_run (empty_db\<lparr>has_actions_table := a, graph_schema := g\<rparr>) calls d'" and "list_all queued_call calls"
  shows "length (learnings d') = accepted_count d'"
proof -
  let ?d = "empty_db\<lparr>has_actions_table := a, graph_schema := g\<rparr>"
  have "wf_db ?d" using empty_db_wf by (simp add: wf_db_def)
  then have "balance d' = balance ?d" using gov_run_contract [OF assms(1)] assms(2) by simp
  then show ?thesis by (simp add: balance_def accepted_count_def row_count_def empty_db_def)
qed

subsection \<open>Instruction-like text never slips in\<close>

definition contents :: "db \<Rightarrow> string list" where
  "contents d = map l_content (learnings d)"

definition adds_clean :: "db \<Rightarrow> db \<Rightarrow> bool" where
  "adds_clean d d' \<longleftrightarrow> (\<exists>xs. contents d' = contents d @ xs \<and> (\<forall>x \<in> set xs. \<not> is_instruction_like x))"

lemma adds_clean_same: "learnings d' = learnings d \<Longrightarrow> adds_clean d d'"
  by (auto simp: adds_clean_def contents_def)

lemma adds_clean_one:
  "learnings d' = learnings d @ [l] \<Longrightarrow> \<not> is_instruction_like (l_content l) \<Longrightarrow> adds_clean d d'"
  by (auto simp: adds_clean_def contents_def intro!: exI [of _ "[l_content l]"])

lemma adds_clean_trans: "adds_clean a b \<Longrightarrow> adds_clean b c \<Longrightarrow> adds_clean a c"
  unfolding adds_clean_def by (metis UnE append.assoc set_append)

text \<open>No principal of the call has \<^verbatim>\<open>accept_flagged\<close>, and it is not a forced write.\<close>

fun wary_principal :: "stamp \<Rightarrow> bool" where
  "wary_principal (Inr p) = (\<not> explicitly_allowed_accept_flagged p)"
| "wary_principal (Inl _) = True"

fun wary_call :: "gov_call \<Rightarrow> bool" where
  "wary_call (ResolveCall e params who) = wary_principal who"
| "wary_call (CorrectCall e params who) = wary_principal who"
| "wary_call (LearnCall e params who) = (\<not> truthy (jget params ''force''))"
| "wary_call _ = True"

lemma stage_adds_clean:
  assumes "stage_candidate e params who d = (rep, d')"
  shows "adds_clean d d'"
  using assms
proof (cases rule: stage_candidate_cases)
  case (staged p t)
  from staged(4) show ?thesis
  proof (cases rule: stage_content_cases)
    case (accepted lid)
    have "\<not> is_instruction_like t"
      using auto_accept_blockers_none [OF accepted(2)] by (simp add: staged_instruction_like_def)
    then show ?thesis
      using accepted(4) by (auto simp: auto_accepted_def intro: adds_clean_one)
  qed (simp_all add: adds_clean_same)
qed (simp add: adds_clean_same)

lemma resolve_adds_clean:
  assumes "resolve_candidate e params who d = (rep, d')" and "wary_principal who"
  shows "adds_clean d d'"
  using assms(1)
proof (cases rule: resolve_candidate_cases)
  case (accepted p q c d1 lid st)
  have n: "\<not> is_instruction_like (c_content c)"
    using accepted(1,3,4) assms(2) by (auto simp: resolves_def flagged_def)
  have l: "learnings d' = learnings d @ [(new_learning (p_agent_id p) (c_content c) (now e))\<lparr>l_id := lid\<rparr>]"
    by (rule write_resolution_effect [OF accepted(6)]) (use accept_into_effect(2) [OF accepted(5)] in simp)
  show ?thesis by (rule adds_clean_one [OF l]) (simp add: new_learning_def n)
next
  case (closed p q c st)
  then show ?thesis
    by (intro adds_clean_same) (rule write_resolution_effect [OF closed(5)], simp)
qed (simp_all add: adds_clean_same)

lemma correct_adds_clean:
  assumes "handle_resolve_contradiction e params who d = (rep, d')" and "wary_principal who"
  shows "adds_clean d d'"
  using assms(1)
proof (cases rule: correct_cases)
  case refused
  then show ?thesis by (simp add: adds_clean_same)
next
  case (written p ids0 content category d1 h lid)
  have "\<not> is_instruction_like content" using written(1,3) assms(2) by auto
  moreover have "contents (supersede_all e a l ids x) = contents x" for a l ids x
    by (induction ids arbitrary: x)
      (simp_all add: supersede_all_def supersede_one_def contents_def update_where_def retire_learning_def comp_def if_distrib)
  moreover have "contents d1 = contents d" using written(5) by (auto simp: contents_def)
  ultimately show ?thesis
    unfolding correct_txn_Inr(3) [OF written(6)] adds_clean_def
    by (auto simp: contents_def insert_learning_def correction_row_def new_learning_def)
qed

lemma gov_step_clean:
  assumes "gov_step d c d'" and "wary_call c"
  shows "adds_clean d d'"
  using assms
proof (induction rule: gov_step.induct)
  case (stage e params who d rep d')
  then show ?case using stage_adds_clean by blast
next
  case (resolve e params who d rep d')
  then show ?case using resolve_adds_clean by simp
next
  case (correct e params who d rep d')
  then show ?case using correct_adds_clean by simp
next
  case (learn e params who d rep d')
  from learn(1) show ?case
  proof (cases rule: handle_learn_cases)
    case (staged p)
    then show ?thesis using stage_adds_clean
      by (cases "stage_candidate e params who d") (auto simp: learn_staged_def split: reply.splits)
  next
    case (forced p t)
    then show ?thesis using learn(2) by simp
  qed (simp_all add: adds_clean_same)
next
  case (promote e cid reason d0 d d' lid)
  from promote(1) show ?case
  proof (cases rule: promote_commit_cases)
    case (durable c emb i)
    have "\<not> is_instruction_like (c_content c)"
      using promote_prepare_Durable(2) [OF durable(1)] by (simp add: flagged_def)
    then show ?thesis
      using promote_txn_effect(1) [OF durable(4)] by (auto simp: promoted_learning_def intro: adds_clean_one)
  qed (simp_all add: adds_clean_same raise_fence_def)
next
  case (dedup e cid d d' b)
  from dedup(1) show ?case by (cases rule: dedup_cases) (simp_all add: adds_clean_same)
next
  case (review e cid reason d d' b)
  from review(1) show ?case by (cases rule: review_cases) (simp_all add: adds_clean_same)
qed (simp_all add: adds_clean_same)

lemma gov_run_clean: "gov_run d cs d' \<Longrightarrow> list_all wary_call cs \<Longrightarrow> adds_clean d d'"
proof (induction rule: gov_run.induct)
  case (none d)
  then show ?case by (simp add: adds_clean_same)
next
  case (step d c d1 cs d')
  then have "adds_clean d d1" "adds_clean d1 d'" using gov_step_clean [OF step.hyps(1)] by simp_all
  then show ?case by (rule adds_clean_trans)
qed

text \<open>
  C9. Over any history of governed writes whose callers lack the accept_flagged capability and
  force no write, every learning that comes into being has content that is not instruction-
  like, through whichever of the seven writers it came.
\<close>

theorem no_instruction_like_learning:
  assumes "gov_run (empty_db\<lparr>has_actions_table := a, graph_schema := g, candidates := cs, next_candidate := n\<rparr>) calls d'"
    and "list_all wary_call calls" and "l \<in> set (learnings d')"
  shows "\<not> is_instruction_like (l_content l)"
  using gov_run_clean [OF assms(1,2)] assms(3) by (auto simp: adds_clean_def contents_def empty_db_def)


subsection \<open>Concrete histories\<close>

definition demo_calls :: "gov_call list" where
  "demo_calls = [StageCall demo_env demo_params (Inr demo_grantee),
     ResolveCall demo_env demo_accept (Inr demo_operator)]"

lemma demo_history_run: "\<exists>d'. gov_run d demo_calls d'"
proof -
  obtain r1 d1 where 1: "stage_candidate demo_env demo_params (Inr demo_grantee) d = (r1, d1)" by fastforce
  obtain r2 d2 where 2: "resolve_candidate demo_env demo_accept (Inr demo_operator) d1 = (r2, d2)" by fastforce
  show ?thesis
    unfolding demo_calls_def
    by (intro exI [of _ d2] gov_run.step [OF gov_step.stage [OF 1]] gov_run.step [OF gov_step.resolve [OF 2]] gov_run.none)
qed

lemma demo_wary: "list_all wary_call demo_calls" "list_all queued_call demo_calls"
  by (simp_all add: demo_calls_def explicitly_allowed_accept_flagged_def demo_operator_def demo_agent_def
      ACCEPT_FLAGGED_CAPABILITY_def)

theorem governed_steps_refine_queue_witness:
  "\<exists>d'. gov_step demo_queue (StageCall demo_env demo_params (Inr demo_grantee)) d'
     \<and> abs_step (queue_abs demo_queue) (queue_abs d')"
proof -
  obtain r1 d1 where 1: "stage_candidate demo_env demo_params (Inr demo_grantee) demo_queue = (r1, d1)" by fastforce
  show ?thesis
    using gov_step.stage [OF 1] governed_steps_refine_queue [OF gov_step.stage [OF 1] demo_queue_wf] by blast
qed

theorem terminal_rows_survive_everything_witness:
  "\<exists>d'. gov_run demo_closed demo_calls d'
     \<and> candidate_row d' 1 = Some (settle_row ''rejected'' 6 ''operator'' ''r'' demo_row)"
proof -
  obtain d' where r: "gov_run demo_closed demo_calls d'" using demo_history_run by blast
  have w: "wf_db demo_closed" by (simp add: demo_closed_def update_candidate_wf demo_queue_wf)
  have "c_status (settle_row ''rejected'' 6 ''operator'' ''r'' demo_row) \<noteq> ''proposed''"
    by (simp add: settle_row_def)
  from terminal_rows_survive_everything [OF r w demo_closed_row this] r show ?thesis by blast
qed

theorem learnings_match_acceptances_witness:
  "\<exists>d'. gov_run (empty_db\<lparr>has_actions_table := True, graph_schema := True\<rparr>) demo_calls d'
     \<and> length (learnings d') = accepted_count d'"
proof -
  obtain d' where r: "gov_run (empty_db\<lparr>has_actions_table := True, graph_schema := True\<rparr>) demo_calls d'"
    using demo_history_run by blast
  from learnings_match_acceptances [OF r demo_wary(2)] r show ?thesis by blast
qed

lemma demo_learned:
  "\<exists>d' l. gov_run (empty_db\<lparr>has_actions_table := True, graph_schema := True, candidates := [], next_candidate := 1\<rparr>)
     [StageCall demo_env demo_params (Inr demo_grantee)] d' \<and> l \<in> set (learnings d')"
proof -
  have e: "empty_db\<lparr>has_actions_table := True, graph_schema := True, candidates := [], next_candidate := 1\<rparr> = empty_db"
    by (simp add: empty_db_def)
  obtain r d' lid where s: "stage_candidate demo_env demo_params (Inr demo_grantee) empty_db = (Ok r, d')"
    "sr_learning r = Some lid" using demo_stage_accepts by blast
  have "learnings d' \<noteq> []"
    using s(1)
  proof (cases rule: stage_candidate_cases)
    case (staged p t)
    from staged(4) show ?thesis
      by (cases rule: stage_content_cases) (use s(2) in \<open>auto simp: auto_accepted_def\<close>)
  qed simp
  then obtain l where "l \<in> set (learnings d')" by (cases "learnings d'") auto
  then show ?thesis
    unfolding e using gov_run.step [OF gov_step.stage [OF s(1)] gov_run.none] by blast
qed

theorem no_instruction_like_learning_witness:
  "\<exists>d' l. gov_run (empty_db\<lparr>has_actions_table := True, graph_schema := True, candidates := [], next_candidate := 1\<rparr>)
     [StageCall demo_env demo_params (Inr demo_grantee)] d' \<and> l \<in> set (learnings d')
     \<and> \<not> is_instruction_like (l_content l)"
proof -
  obtain d' l where r: "gov_run (empty_db\<lparr>has_actions_table := True, graph_schema := True, candidates := [], next_candidate := 1\<rparr>)
     [StageCall demo_env demo_params (Inr demo_grantee)] d'" "l \<in> set (learnings d')"
    using demo_learned by blast
  from no_instruction_like_learning [OF r(1) _ r(2)] r show ?thesis by auto
qed

end
