(* ===== verification/Pack.thy ===== *)
theory Pack
  imports Words "HOL-Library.Multiset"
begin

text \<open>
  \<^verbatim>\<open>pack_results\<close> of \<^verbatim>\<open>src/minni/tokens.py\<close>: selecting results by maximal marginal
  relevance within a token budget.  A result is its decoded object; the token counter and
  \<^verbatim>\<open>float(result["score"])\<close> are arguments, floats are reals.
\<close>

subsection \<open>Cost and text of a result\<close>

definition str_or_blank :: "jobj \<Rightarrow> string \<Rightarrow> string" where
  "str_or_blank r k = py_str (py_or (jget_or (JStr []) r k) (JStr []))"

text \<open>\<^verbatim>\<open>isinstance(x, int) and x > 0\<close>; a Boolean is an int.\<close>

definition stored_tokens :: "jobj \<Rightarrow> nat option" where
  "stored_tokens r =
     (case jget r ''token_count'' of
        JInt n \<Rightarrow> if 0 < n then Some (nat n) else None
      | JBool b \<Rightarrow> if b then Some 1 else None
      | _ \<Rightarrow> None)"

definition result_tokens :: "(string \<Rightarrow> nat) \<Rightarrow> string \<Rightarrow> jobj \<Rightarrow> nat" where
  "result_tokens tokens depth r =
     (case stored_tokens r of
        Some n \<Rightarrow> n
      | None \<Rightarrow>
          (let prov = jget r ''provenance'';
               parts = [str_or_blank r ''source'', str_or_blank r ''filename'', str_or_blank r ''score'']
                 @ (if depth \<in> {''snippet'', ''chunk'', ''document''} then [str_or_blank r ''text'', str_or_blank r ''heading''] else [])
                 @ (if depth \<in> {''chunk'', ''document''} \<and> truthy prov then [py_str prov] else [])
                 @ (if depth = ''document'' then [str_or_blank r ''full_document_text''] else []);
               combined = join_with SP (filter (\<lambda>p. p \<noteq> []) parts)
           in if combined = [] then 30 else tokens combined))"

definition result_text_repr :: "string \<Rightarrow> jobj \<Rightarrow> string" where
  "result_text_repr depth r =
     (let prov = (case jget r ''provenance'' of JObj p \<Rightarrow> p | _ \<Rightarrow> []);
          parts = [str_or_blank r ''source'', str_or_blank r ''text'', str_or_blank r ''heading'']
            @ (if depth \<in> {''chunk'', ''document''} then [str_or_blank prov ''agent_origin''] else [])
      in join_with SP (filter (\<lambda>p. p \<noteq> []) parts))"

subsection \<open>Bag-of-words similarity\<close>

definition word_list :: "string \<Rightarrow> string list" where
  "word_list s = py_split (py_lower s)"

definition word_count :: "string list \<Rightarrow> string \<Rightarrow> nat" where
  "word_count ws w = length (filter (\<lambda>v. v = w) ws)"

definition word_norm :: "string list \<Rightarrow> real" where
  "word_norm ws = sqrt (\<Sum>w \<leftarrow> remdups ws. (real (word_count ws w))\<^sup>2)"

definition cosine_sim_bag_of_words :: "string \<Rightarrow> string \<Rightarrow> real" where
  "cosine_sim_bag_of_words a b =
     (let va = word_list a; vb = word_list b
      in if va = [] \<or> vb = [] then 0
         else let d = (\<Sum>w \<leftarrow> remdups va. real (word_count va w) * real (word_count vb w));
                  denom = word_norm va * word_norm vb
              in if 0 < denom then d / denom else 0)"

subsection \<open>The selection loop\<close>

definition max_similarity :: "string list \<Rightarrow> string \<Rightarrow> real" where
  "max_similarity chosen c =
     (case map (cosine_sim_bag_of_words c) chosen of
        [] \<Rightarrow> 0
      | x # xs \<Rightarrow> foldl max x xs)"

text \<open>The first index with the largest value; \<open>best\<close> is the best so far.\<close>

fun best_index :: "real list \<Rightarrow> nat \<Rightarrow> (nat \<times> real) option \<Rightarrow> nat option" where
  "best_index [] i best = map_option fst best"
| "best_index (x # xs) i best =
     best_index xs (i + 1)
       (case best of None \<Rightarrow> Some (i, x) | Some (j, y) \<Rightarrow> if y < x then Some (i, x) else best)"

definition mmr_scores ::
  "real \<Rightarrow> (jobj \<Rightarrow> real) \<Rightarrow> string \<Rightarrow> jobj list \<Rightarrow> string list \<Rightarrow> real list" where
  "mmr_scores lam score depth candidates chosen =
     map (\<lambda>c. lam * score c - (1 - lam) * max_similarity chosen (result_text_repr depth c)) candidates"

lemma best_index_bound: "best_index xs i best = Some k \<Longrightarrow> (\<forall>j y. best = Some (j, y) \<longrightarrow> j < i) \<Longrightarrow> k < i + length xs"
proof (induction xs i best rule: best_index.induct)
  case (1 i best)
  then show ?case by (cases best) auto
next
  case (2 x xs i best)
  have "\<forall>j y. (case best of None \<Rightarrow> Some (i, x) | Some (j, y) \<Rightarrow> if y < x then Some (i, x) else best) = Some (j, y) \<longrightarrow> j < i + 1"
    using 2(3) by (auto split: option.split_asm if_split_asm prod.split_asm)
  then show ?case using 2(1) 2(2) by simp
qed

function pack_loop ::
  "(string \<Rightarrow> nat) \<Rightarrow> (jobj \<Rightarrow> real) \<Rightarrow> real \<Rightarrow> string \<Rightarrow> int \<Rightarrow> jobj list \<Rightarrow> jobj list \<Rightarrow> nat \<Rightarrow> jobj list" where
  "pack_loop tokens score lam depth budget candidates selected used =
     (case best_index (mmr_scores lam score depth candidates (map (result_text_repr depth) selected)) 0 None of
        None \<Rightarrow> selected
      | Some i \<Rightarrow>
          (let chosen = candidates ! i; cost = result_tokens tokens depth chosen
           in if budget < int (used + cost) \<and> selected \<noteq> [] then selected
              else pack_loop tokens score lam depth budget (take i candidates @ drop (i + 1) candidates)
                     (selected @ [chosen]) (used + cost)))"
  by pat_completeness auto
termination
  by (relation "measure (\<lambda>(tokens, score, lam, depth, budget, candidates, selected, used). length candidates)")
    (auto dest!: best_index_bound simp: mmr_scores_def)

declare pack_loop.simps [simp del]

definition pack_results ::
  "(string \<Rightarrow> nat) \<Rightarrow> (jobj \<Rightarrow> real) \<Rightarrow> jobj list \<Rightarrow> int \<Rightarrow> string \<Rightarrow> real \<Rightarrow> jobj list" where
  "pack_results tokens score results budget depth lam =
     (if results = [] then []
      else if budget \<le> 0 then results
      else pack_loop tokens score lam depth budget results [] 0)"

subsection \<open>What packing guarantees\<close>

lemma best_index_some: "best_index xs i best \<noteq> None \<longleftrightarrow> xs \<noteq> [] \<or> best \<noteq> None"
  by (induction xs i best rule: best_index.induct) (auto split: option.split)

text \<open>The index is that of a largest value.\<close>

lemma best_index_max:
  assumes "best_index xs i best = Some k" and "\<forall>j y. best = Some (j, y) \<longrightarrow> j < i"
  shows "(case best of Some (j, y) \<Rightarrow> (k = j \<and> (\<forall>x \<in> set xs. x \<le> y)) \<or> (i \<le> k \<and> y < xs ! (k - i) \<and> (\<forall>x \<in> set xs. x \<le> xs ! (k - i)))
          | None \<Rightarrow> i \<le> k \<and> (\<forall>x \<in> set xs. x \<le> xs ! (k - i)))"
  using assms
proof (induction xs i best rule: best_index.induct)
  case (1 i best)
  then show ?case by (cases best) auto
next
  case (2 x xs i best)
  let ?b = "case best of None \<Rightarrow> Some (i, x) | Some (j, y) \<Rightarrow> if y < x then Some (i, x) else best"
  have b: "\<forall>j y. ?b = Some (j, y) \<longrightarrow> j < i + 1"
    using 2(3) by (auto split: option.split_asm if_split_asm prod.split_asm)
  have IH: "case ?b of Some (j, y) \<Rightarrow> (k = j \<and> (\<forall>x \<in> set xs. x \<le> y)) \<or> (i + 1 \<le> k \<and> y < xs ! (k - (i + 1)) \<and> (\<forall>x \<in> set xs. x \<le> xs ! (k - (i + 1))))
          | None \<Rightarrow> i + 1 \<le> k \<and> (\<forall>x \<in> set xs. x \<le> xs ! (k - (i + 1)))"
    using 2(1) 2(2) b by simp
  have nth: "i + 1 \<le> k \<Longrightarrow> (x # xs) ! (k - i) = xs ! (k - (i + 1))"
    by (simp add: nth_Cons')
  show ?case
  proof (cases best)
    case None
    then show ?thesis using IH nth by auto
  next
    case (Some p)
    obtain j y where p: "p = (j, y)" by (cases p)
    have "j < i" using 2(3) Some p by simp
    then show ?thesis using IH nth Some p by (cases "y < x") auto
  qed
qed

definition pack_total :: "(string \<Rightarrow> nat) \<Rightarrow> string \<Rightarrow> jobj list \<Rightarrow> nat" where
  "pack_total tokens depth rs = (\<Sum>r \<leftarrow> rs. result_tokens tokens depth r)"

lemma mset_take_nth_drop: "i < length xs \<Longrightarrow> add_mset (xs ! i) (mset (take i xs @ drop (i + 1) xs)) = mset xs"
  by (metis Cons_nth_drop_Suc Suc_eq_plus1 append_take_drop_id mset.simps(2) mset_append union_mset_add_mset_right)

lemma pack_loop_ok:
  assumes "used = pack_total tokens depth selected"
    and "int used \<le> budget \<or> length selected \<le> 1"
  shows "(int (pack_total tokens depth (pack_loop tokens score lam depth budget candidates selected used)) \<le> budget
        \<or> length (pack_loop tokens score lam depth budget candidates selected used) \<le> 1)
    \<and> (\<exists>rest. pack_loop tokens score lam depth budget candidates selected used = selected @ rest
          \<and> mset rest \<subseteq># mset candidates \<and> (selected = [] \<and> candidates \<noteq> [] \<longrightarrow> rest \<noteq> []))"
  using assms
proof (induction "length candidates" arbitrary: candidates selected used rule: less_induct)
  case less
  let ?scores = "mmr_scores lam score depth candidates (map (result_text_repr depth) selected)"
  have len: "length ?scores = length candidates" by (simp add: mmr_scores_def)
  show ?case
  proof (cases "best_index ?scores 0 None")
    case None
    then have "pack_loop tokens score lam depth budget candidates selected used = selected"
      by (subst pack_loop.simps) simp
    moreover have "candidates = []" using None best_index_some [of ?scores 0 None] len by auto
    ultimately show ?thesis using less.prems by auto
  next
    case (Some i)
    have i: "i < length candidates" using best_index_bound [OF Some] len by simp
    define chosen where "chosen = candidates ! i"
    define cost where "cost = result_tokens tokens depth chosen"
    define cs where "cs = take i candidates @ drop (i + 1) candidates"
    show ?thesis
    proof (cases "budget < int (used + cost) \<and> selected \<noteq> []")
      case True
      then have "pack_loop tokens score lam depth budget candidates selected used = selected"
        using Some by (subst pack_loop.simps) (simp add: Let_def chosen_def cost_def)
      then show ?thesis using less.prems True by auto
    next
      case False
      then have e: "pack_loop tokens score lam depth budget candidates selected used
          = pack_loop tokens score lam depth budget cs (selected @ [chosen]) (used + cost)"
        using Some by (subst pack_loop.simps) (auto simp: Let_def chosen_def cost_def cs_def)
      have "length cs < length candidates" using i by (simp add: cs_def)
      moreover have "used + cost = pack_total tokens depth (selected @ [chosen])"
        using less.prems(1) by (simp add: pack_total_def cost_def)
      moreover have "int (used + cost) \<le> budget \<or> length (selected @ [chosen]) \<le> 1"
        using False by auto
      ultimately obtain rest where r: "pack_loop tokens score lam depth budget cs (selected @ [chosen]) (used + cost) = (selected @ [chosen]) @ rest"
          "mset rest \<subseteq># mset cs"
        and b: "int (pack_total tokens depth (pack_loop tokens score lam depth budget cs (selected @ [chosen]) (used + cost))) \<le> budget
          \<or> length (pack_loop tokens score lam depth budget cs (selected @ [chosen]) (used + cost)) \<le> 1"
        using less.hyps by blast
      have "mset (chosen # rest) \<subseteq># mset candidates"
        using r(2) mset_take_nth_drop [OF i] unfolding cs_def chosen_def
        by (metis mset.simps(2) mset_subset_eq_add_mset_cancel)
      then show ?thesis using b r(1) unfolding e by (intro conjI exI [of _ "chosen # rest"]) auto
    qed
  qed
qed

lemma pack_loop_first:
  assumes "0 < lam" and "results \<noteq> []"
  shows "\<forall>r \<in> set results. score r \<le> score (hd (pack_loop tokens score lam depth budget results [] 0))"
proof -
  let ?scores = "mmr_scores lam score depth results (map (result_text_repr depth) [])"
  have sc: "?scores = map (\<lambda>r. lam * score r) results"
    by (simp add: mmr_scores_def max_similarity_def)
  obtain i where i: "best_index ?scores 0 None = Some i"
    using best_index_some [of ?scores 0 None] assms(2) sc by auto
  have lt: "i < length results" using best_index_bound [OF i] sc by simp
  have "\<forall>x \<in> set ?scores. x \<le> ?scores ! i" using best_index_max [OF i] by simp
  then have best: "\<forall>r \<in> set results. score r \<le> score (results ! i)"
    using assms(1) lt unfolding sc by simp
  let ?rest = "take i results @ drop (i + 1) results" and ?c = "result_tokens tokens depth (results ! i)"
  have "pack_loop tokens score lam depth budget results [] 0
      = pack_loop tokens score lam depth budget ?rest [results ! i] ?c"
    using i by (subst pack_loop.simps) (simp add: Let_def)
  moreover have "hd (pack_loop tokens score lam depth budget ?rest [results ! i] ?c) = results ! i"
    using pack_loop_ok [of ?c tokens depth "[results ! i]" budget score lam ?rest] by (auto simp: pack_total_def)
  ultimately show ?thesis using best by simp
qed

text \<open>
  C36. Packing under a positive budget, with a positive weight of relevance (the default is
  0.6), returns some of the results, none more often than given, within the budget unless it
  is a single one, and starts with a result of maximal score.
\<close>

theorem pack_results_within_budget:
  assumes "0 < budget" and "results \<noteq> []" and "0 < lam"
  shows "let packed = pack_results tokens score results budget depth lam
    in packed \<noteq> [] \<and> mset packed \<subseteq># mset results
       \<and> (int (pack_total tokens depth packed) \<le> budget \<or> length packed = 1)
       \<and> (\<forall>r. r \<in> set results \<longrightarrow> score r \<le> score (hd packed))"
proof -
  let ?p = "pack_loop tokens score lam depth budget results [] 0"
  have "(int (pack_total tokens depth ?p) \<le> budget \<or> length ?p \<le> 1)
    \<and> (\<exists>rest. ?p = [] @ rest \<and> mset rest \<subseteq># mset results \<and> ([] = [] \<and> results \<noteq> [] \<longrightarrow> rest \<noteq> []))"
    using pack_loop_ok [of 0 tokens depth "[]" budget score lam results] assms by (simp add: pack_total_def)
  then have "(int (pack_total tokens depth ?p) \<le> budget \<or> length ?p \<le> 1) \<and> ?p \<noteq> [] \<and> mset ?p \<subseteq># mset results"
    using assms(2) by auto
  moreover from this have "length ?p \<le> 1 \<Longrightarrow> length ?p = 1" by (cases ?p) auto
  ultimately show ?thesis
    using assms pack_loop_first [OF assms(3,2), of score tokens depth budget] by (auto simp: pack_results_def Let_def)
qed

theorem pack_results_within_budget_witness:
  "pack_results (\<lambda>s. 5) (\<lambda>r. 1) [[(''text'', JStr ''a'')], [(''text'', JStr ''b'')]] 3 ''snippet'' (3 / 5) \<noteq> []
   \<and> length (pack_results (\<lambda>s. 5) (\<lambda>r. 1) [[(''text'', JStr ''a'')], [(''text'', JStr ''b'')]] 3 ''snippet'' (3 / 5)) \<le> 2"
  using pack_results_within_budget [of 3 "[[(''text'', JStr ''a'')], [(''text'', JStr ''b'')]]" "3 / 5" "\<lambda>s. 5" "\<lambda>r. 1" "''snippet''"]
  by (auto simp: Let_def dest!: size_mset_mono)

end
