(* ===== verification/ThreadRelay.thy ===== *)
theory ThreadRelay
  imports Principal Store "HOL-Library.List_Lexorder" "HOL-Library.Char_ord" "HOL-Library.Product_Lexorder"
begin

text \<open>
  \<^verbatim>\<open>src/minni/thread_relay.py\<close>: delivery cursors of the notification relay.  The journal
  of a plan is the truth; the pending queue of a subscriber is rebuilt from it past the
  subscriber's cursor, and a cursor moves only on a successful delivery.  The file
  \<^verbatim>\<open>cursors.json\<close> is its decoded JSON value.
\<close>

subsection \<open>Rows\<close>

record thread_event =
  te_seq :: int
  te_kind :: string
  te_actor :: string
  te_at :: string
  te_slice :: string           \<comment> \<open>empty: no slice id\<close>

record pending_item =
  pi_seq :: int
  pi_plan :: string
  pi_actor :: string
  pi_kind :: string
  pi_delta :: string
  pi_at :: string
  pi_subscriber :: "string option"
  pi_slice :: string

record relay_cursor =
  rc_subscriber :: string
  rc_plan :: string
  rc_last :: int

record relay_store =
  rs_cursors :: "relay_cursor list"
  rs_pending :: "pending_item list"

definition empty_relay_store :: relay_store where
  "empty_relay_store = \<lparr>rs_cursors = [], rs_pending = []\<rparr>"

subsection \<open>Which hook of which host injects\<close>

definition HOST_INJECTION_TABLE :: "(string \<times> (string \<times> string) list) list" where
  "HOST_INJECTION_TABLE =
    [(''agy'', [(''host'', ''agy''), (''sessionStart'', ''injects''), (''promptSubmit'', ''injects''),
        (''stop'', ''rejects''), (''wire'', ''SessionStart + PreInvocation injectSteps''), (''wake'', ''deferred'')]),
     (''grok'', [(''host'', ''grok''), (''sessionStart'', ''ignored''), (''promptSubmit'', ''ignored''),
        (''stop'', ''injects''), (''wire'', ''Stop injects; SessionStart/UPS stdout ignored; boot ~/.grok/rules''),
        (''wake'', ''deferred'')]),
     (''codex'', [(''host'', ''codex''), (''sessionStart'', ''injects''), (''promptSubmit'', ''injects''),
        (''stop'', ''cannot''), (''wire'', ''SessionStart + UserPromptSubmit; Stop cannot; UNPROVEN''),
        (''wake'', ''unsupported'')]),
     (''cursor'', [(''host'', ''cursor''), (''sessionStart'', ''out''), (''promptSubmit'', ''out''),
        (''stop'', ''out''), (''wire'', ''out''), (''wake'', ''unsupported'')])]"

definition host_hook_injects :: "string \<Rightarrow> string \<Rightarrow> bool" where
  "host_hook_injects host hook \<longleftrightarrow>
     (case map_of HOST_INJECTION_TABLE host of
        None \<Rightarrow> False
      | Some row \<Rightarrow> map_of row hook = Some ''injects'')"

subsection \<open>Reading the journal\<close>

definition line_break :: "char \<Rightarrow> bool" where
  "line_break c \<longleftrightarrow> code_point c \<in> {10, 11, 12, 13, 28, 29, 30, 133}"

text \<open>\<^verbatim>\<open>str.splitlines\<close>: a carriage return and line feed together end one line.\<close>

fun py_splitlines :: "string \<Rightarrow> string \<Rightarrow> string list" where
  "py_splitlines acc [] = (if acc = [] then [] else [rev acc])"
| "py_splitlines acc (c # cs) =
     (if c = CHR 0x0D \<and> cs \<noteq> [] \<and> hd cs = CHR 0x0A then rev acc # py_splitlines [] (tl cs)
      else if line_break c then rev acc # py_splitlines [] cs
      else py_splitlines (c # acc) cs)"

text \<open>\<^verbatim>\<open>isinstance(x, int)\<close>, with the number it stands for.\<close>

fun as_int :: "json \<Rightarrow> int option" where
  "as_int (JInt n) = Some n"
| "as_int (JBool b) = Some (if b then 1 else 0)"
| "as_int _ = None"

fun str_or_empty :: "json \<Rightarrow> string" where
  "str_or_empty (JStr s) = s"
| "str_or_empty _ = []"

fun journal_row :: "json \<Rightarrow> thread_event option" where
  "journal_row (JObj row) =
     (case (as_int (jget row ''seq''), jget row ''kind'') of
        (Some seq, JStr kind) \<Rightarrow>
          Some \<lparr>te_seq = seq, te_kind = kind, te_actor = str_or_empty (jget row ''actor''),
                te_at = str_or_empty (jget row ''at''), te_slice = str_or_empty (jget row ''slice_id'')\<rparr>
      | _ \<Rightarrow> None)"
| "journal_row _ = None"

definition journal_items :: "jobj \<Rightarrow> json list" where
  "journal_items parsed =
     (case jget parsed ''thread_event_batch'' of JList items \<Rightarrow> items | _ \<Rightarrow> [])
     @ (case journal_row (JObj parsed) of Some _ \<Rightarrow> [JObj parsed] | None \<Rightarrow> [])"

text \<open>\<open>loads\<close> is \<^verbatim>\<open>json.loads\<close>; None when it raises.\<close>

definition journal_line :: "(string \<Rightarrow> json option) \<Rightarrow> string \<Rightarrow> thread_event list" where
  "journal_line loads line =
     (let trimmed = py_strip line
      in if \<not> starts_with ''{'' trimmed then []
         else case loads trimmed of
                Some (JObj parsed) \<Rightarrow> List.map_filter journal_row (journal_items parsed)
              | _ \<Rightarrow> [])"

definition parse_journal_events_from_log :: "(string \<Rightarrow> json option) \<Rightarrow> string \<Rightarrow> thread_event list" where
  "parse_journal_events_from_log loads raw =
     sort_key te_seq (concat (map (journal_line loads) (py_splitlines [] raw)))"

subsection \<open>The pending queue\<close>

definition format_state_delta :: "thread_event \<Rightarrow> string \<Rightarrow> string" where
  "format_state_delta e plan_id =
     te_actor e @ '' '' @ te_kind e @ '' plan='' @ plan_id
     @ (if te_slice e = [] then [] else '' slice='' @ te_slice e) @ '' seq='' @ int_text (te_seq e)"

definition pending_of :: "string \<Rightarrow> string option \<Rightarrow> thread_event \<Rightarrow> pending_item" where
  "pending_of plan_id subscriber e =
     \<lparr>pi_seq = te_seq e, pi_plan = plan_id, pi_actor = te_actor e, pi_kind = te_kind e,
      pi_delta = format_state_delta e plan_id, pi_at = te_at e, pi_subscriber = subscriber,
      pi_slice = te_slice e\<rparr>"

definition rebuild_queue_from_journal ::
  "string \<Rightarrow> thread_event list \<Rightarrow> int \<Rightarrow> string option \<Rightarrow> pending_item list" where
  "rebuild_queue_from_journal plan_id journal last_delivered_seq subscriber =
     map (pending_of plan_id subscriber) (filter (\<lambda>e. last_delivered_seq < te_seq e) (sort_key te_seq journal))"

definition advance_cursor :: "int \<Rightarrow> int \<Rightarrow> bool \<Rightarrow> int" where
  "advance_cursor last_delivered_seq delivered_through_seq delivery_succeeded =
     (if \<not> delivery_succeeded then last_delivered_seq
      else if delivered_through_seq \<le> last_delivered_seq then last_delivered_seq
      else delivered_through_seq)"

definition read_pending_attention ::
  "string \<Rightarrow> thread_event list \<Rightarrow> int \<Rightarrow> pending_item list \<times> string" where
  "read_pending_attention plan_id journal last_delivered_seq =
     (let notifications = rebuild_queue_from_journal plan_id journal last_delivered_seq None
      in (notifications, join_with [CHR 0x0A] (map pi_delta notifications)))"

subsection \<open>The cursor table of SQLite\<close>

type_synonym cursor_table = "string \<times> string \<Rightarrow> (int \<times> string) option"

definition load_cursor :: "cursor_table \<Rightarrow> string \<Rightarrow> string \<Rightarrow> int" where
  "load_cursor t sub plan = (case t (sub, plan) of None \<Rightarrow> 0 | Some (n, _) \<Rightarrow> n)"

definition persist_cursor :: "cursor_table \<Rightarrow> string \<Rightarrow> string \<Rightarrow> int \<Rightarrow> string \<Rightarrow> cursor_table" where
  "persist_cursor t sub plan n stamp = t((sub, plan) \<mapsto> (n, stamp))"

definition confirm_delivery ::
  "cursor_table \<Rightarrow> string \<Rightarrow> string \<Rightarrow> int \<Rightarrow> bool \<Rightarrow> string \<Rightarrow> int \<times> cursor_table" where
  "confirm_delivery t sub plan through ok stamp =
     (let advanced = advance_cursor (load_cursor t sub plan) through ok
      in (advanced, persist_cursor t sub plan advanced stamp))"

subsection \<open>The relay store\<close>

definition cursor_matches :: "string \<Rightarrow> string \<Rightarrow> relay_cursor \<Rightarrow> bool" where
  "cursor_matches sub plan c \<longleftrightarrow> rc_subscriber c = sub \<and> rc_plan c = plan"

definition cursor_for :: "relay_store \<Rightarrow> string \<Rightarrow> string \<Rightarrow> relay_cursor" where
  "cursor_for s sub plan =
     (case find (cursor_matches sub plan) (rs_cursors s) of
        Some c \<Rightarrow> c
      | None \<Rightarrow> \<lparr>rc_subscriber = sub, rc_plan = plan, rc_last = 0\<rparr>)"

text \<open>The directory name of the vault decides; \<open>resolve_path\<close> is \<^verbatim>\<open>Path.resolve\<close>.\<close>

definition vault_principal_subscriber_id :: "host \<Rightarrow> string \<Rightarrow> pyerr + string option" where
  "vault_principal_subscriber_id h vault =
     (case resolve_path h vault of
        None \<Rightarrow> Inl OSError
      | Some cs \<Rightarrow>
          (let base = (if cs = [] then [] else last cs); n = length base - length ''-vault''
           in if drop n base \<noteq> ''-vault'' then Inr None
              else if take n base = [] then Inr None
              else Inr (Some (canonical_principal (take n base)))))"

text \<open>The order of a Python set is not specified; here the order of first mention.\<close>

definition seed_relay_subscribers ::
  "string option \<Rightarrow> string \<Rightarrow> relay_cursor list \<Rightarrow> thread_event list \<Rightarrow> string list \<Rightarrow> string list" where
  "seed_relay_subscribers actor plan cursors journal extra =
     remdups (filter (\<lambda>i. i \<noteq> [])
       (map py_strip ((case actor of None \<Rightarrow> [] | Some a \<Rightarrow> [a])
          @ map rc_subscriber (filter (\<lambda>c. rc_plan c = plan) cursors)
          @ map te_actor journal @ extra)))"

fun ingest_subscribers ::
  "string \<Rightarrow> thread_event list \<Rightarrow> string list \<Rightarrow> relay_store \<Rightarrow> relay_store" where
  "ingest_subscribers plan journal [] s = s"
| "ingest_subscribers plan journal (sub # subs) s =
     (let c = cursor_for s sub plan;
          s1 = (if list_ex (cursor_matches sub plan) (rs_cursors s) then s
                else s\<lparr>rs_cursors := rs_cursors s @ [c]\<rparr>)
      in ingest_subscribers plan journal subs
           (s1\<lparr>rs_pending := rs_pending s1 @ rebuild_queue_from_journal plan journal (rc_last c) (Some sub)\<rparr>))"

definition other_subscribers :: "string \<Rightarrow> thread_event list \<Rightarrow> string list \<Rightarrow> relay_cursor list \<Rightarrow> pending_item list" where
  "other_subscribers plan journal seen cursors =
     concat (map (\<lambda>c. rebuild_queue_from_journal plan journal (rc_last c) (Some (rc_subscriber c)))
       (filter (\<lambda>c. rc_plan c = plan \<and> rc_subscriber c \<notin> set seen) cursors))"

definition pending_order :: "pending_item \<Rightarrow> int \<times> string \<times> string" where
  "pending_order i = (pi_seq i, (case pi_subscriber i of None \<Rightarrow> [] | Some s \<Rightarrow> s), pi_plan i)"

definition ingest_journal_events ::
  "relay_store \<Rightarrow> string \<Rightarrow> thread_event list \<Rightarrow> string list \<Rightarrow> relay_store" where
  "ingest_journal_events s plan journal subs =
     (let s1 = ingest_subscribers plan journal subs
                 \<lparr>rs_cursors = rs_cursors s, rs_pending = filter (\<lambda>i. pi_plan i \<noteq> plan) (rs_pending s)\<rparr>
      in s1\<lparr>rs_pending := sort_key pending_order
              (rs_pending s1 @ other_subscribers plan journal subs (rs_cursors s1))\<rparr>)"

definition confirm_delivery_store :: "relay_store \<Rightarrow> string \<Rightarrow> string \<Rightarrow> int \<Rightarrow> bool \<Rightarrow> relay_store" where
  "confirm_delivery_store s sub plan through ok =
     (let current = cursor_for s sub plan;
          advanced = advance_cursor (rc_last current) through ok
      in \<lparr>rs_cursors = filter (\<lambda>c. \<not> cursor_matches sub plan c) (rs_cursors s) @ [current\<lparr>rc_last := advanced\<rparr>],
          rs_pending = filter (\<lambda>i. pi_subscriber i \<noteq> Some sub \<or> pi_plan i \<noteq> plan \<or> advanced < pi_seq i)
                         (rs_pending s)\<rparr>)"

subsection \<open>The file\<close>

definition RELAY_STORE_VERSION :: int where
  "RELAY_STORE_VERSION = 1"

definition GRAPH_KEYS :: "string list" where
  "GRAPH_KEYS = [''slices'', ''dependencies'', ''depends_on'', ''claims'', ''claim_token'', ''evidence'',
     ''gate'', ''assigned_to'', ''generation'']"

definition store_holds_graph_state :: "jobj \<Rightarrow> bool" where
  "store_holds_graph_state payload \<longleftrightarrow>
     jget payload ''graph'' \<noteq> JBool False \<or> list_ex (has_key payload) GRAPH_KEYS"

definition cursor_json :: "relay_cursor \<Rightarrow> json" where
  "cursor_json c = JObj [(''subscriber_id'', JStr (rc_subscriber c)), (''plan_id'', JStr (rc_plan c)),
     (''last_delivered_seq'', JInt (rc_last c))]"

definition item_json :: "pending_item \<Rightarrow> json" where
  "item_json i = JObj ([(''seq'', JInt (pi_seq i)), (''plan_id'', JStr (pi_plan i)),
       (''actor'', JStr (pi_actor i)), (''kind'', JStr (pi_kind i)), (''delta'', JStr (pi_delta i)),
       (''at'', JStr (pi_at i))]
     @ (case pi_subscriber i of None \<Rightarrow> [] | Some s \<Rightarrow> [(''subscriber_id'', JStr s)])
     @ (if pi_slice i = [] then [] else [(''slice_id'', JStr (pi_slice i))]))"

definition store_json :: "relay_store \<Rightarrow> jobj" where
  "store_json s = [(''version'', JInt RELAY_STORE_VERSION), (''graph'', JBool False),
     (''cursors'', JList (map cursor_json (rs_cursors s))), (''pending'', JList (map item_json (rs_pending s)))]"

text \<open>The value the file holds after saving; \<^verbatim>\<open>graph\<close> is already False there.\<close>

definition save_relay_store :: "jobj \<Rightarrow> pyerr + json" where
  "save_relay_store payload =
     (if store_holds_graph_state payload then Inl (ValueError ''thread relay refuses graph state'')
      else Inr (JObj payload))"

fun list_or_empty :: "json \<Rightarrow> json list" where
  "list_or_empty (JList xs) = xs"
| "list_or_empty _ = []"

text \<open>\<^verbatim>\<open>1 == True == 1.0\<close> in Python, so each is the version.\<close>

fun is_version :: "json \<Rightarrow> bool" where
  "is_version (JInt n) = (n = 1)"
| "is_version (JBool b) = b"
| "is_version (JFloat v t) = (v = Fin 1)"
| "is_version _ = False"

definition load_relay_store :: "json option \<Rightarrow> jobj" where
  "load_relay_store file =
     (case file of
        Some (JObj raw) \<Rightarrow>
          if \<not> is_version (jget raw ''version'') \<or> jget raw ''graph'' \<noteq> JBool False
          then store_json empty_relay_store
          else [(''version'', JInt RELAY_STORE_VERSION), (''graph'', JBool False),
                (''cursors'', JList (list_or_empty (jget raw ''cursors''))),
                (''pending'', JList (list_or_empty (jget raw ''pending'')))]
      | _ \<Rightarrow> store_json empty_relay_store)"

text \<open>Reading rows back: the fields the operations above index.\<close>

fun cursor_row :: "json \<Rightarrow> relay_cursor option" where
  "cursor_row (JObj r) =
     (case (jget r ''subscriber_id'', jget r ''plan_id'', jget r ''last_delivered_seq'') of
        (JStr s, JStr p, JInt n) \<Rightarrow> Some \<lparr>rc_subscriber = s, rc_plan = p, rc_last = n\<rparr>
      | _ \<Rightarrow> None)"
| "cursor_row _ = None"

fun item_row :: "json \<Rightarrow> pending_item option" where
  "item_row (JObj r) =
     (case (jget r ''seq'', jget r ''plan_id'', jget r ''actor'', jget r ''kind'', jget r ''delta'', jget r ''at'') of
        (JInt n, JStr p, JStr a, JStr k, JStr d, JStr t) \<Rightarrow>
          Some \<lparr>pi_seq = n, pi_plan = p, pi_actor = a, pi_kind = k, pi_delta = d, pi_at = t,
                pi_subscriber = (case jget r ''subscriber_id'' of JStr s \<Rightarrow> Some s | _ \<Rightarrow> None),
                pi_slice = str_or_empty (jget r ''slice_id'')\<rparr>
      | _ \<Rightarrow> None)"
| "item_row _ = None"

definition relay_rows :: "jobj \<Rightarrow> relay_store" where
  "relay_rows payload =
     \<lparr>rs_cursors = List.map_filter cursor_row (list_or_empty (jget payload ''cursors'')),
      rs_pending = List.map_filter item_row (list_or_empty (jget payload ''pending''))\<rparr>"

text \<open>Load, ingest, save: the store that the file then holds.\<close>

definition ingest_journal_into_vault ::
  "json option \<Rightarrow> string \<Rightarrow> thread_event list \<Rightarrow> string list \<Rightarrow> pyerr + (relay_store \<times> json)" where
  "ingest_journal_into_vault file plan journal subs =
     (let s = ingest_journal_events (relay_rows (load_relay_store file)) plan journal subs
      in bind_result (save_relay_store (store_json s)) (\<lambda>j. Inr (s, j)))"


subsection \<open>Sorting and finding\<close>

lemma sort_key_sorted: "sorted (map k xs) \<Longrightarrow> sort_key k xs = xs"
  by (induction xs) (simp_all add: insort_is_Cons)

lemma concat_map_key:
  assumes "distinct (map key xs)"
  shows "concat (map f (filter (\<lambda>c. key c = k) xs))
    = (case find (\<lambda>c. key c = k) xs of Some c \<Rightarrow> f c | None \<Rightarrow> [])"
  using assms
proof (induction xs)
  case Nil
  then show ?case by simp
next
  case (Cons x xs)
  show ?case
  proof (cases "key x = k")
    case True
    then have "k \<notin> key ` set xs" using Cons.prems by simp
    then have "filter (\<lambda>c. key c = k) xs = []"
      using Cons.prems by (auto simp: filter_empty_conv)
    then show ?thesis using True by simp
  next
    case False
    then show ?thesis using Cons by simp
  qed
qed

subsection \<open>Cursors and pending queues\<close>

definition cursor_key :: "relay_cursor \<Rightarrow> string \<times> string" where
  "cursor_key c = (rc_subscriber c, rc_plan c)"

definition cursor_pos :: "relay_store \<Rightarrow> string \<Rightarrow> string \<Rightarrow> int" where
  "cursor_pos s sub plan = rc_last (cursor_for s sub plan)"

definition has_cursor :: "relay_store \<Rightarrow> string \<Rightarrow> string \<Rightarrow> bool" where
  "has_cursor s sub plan \<longleftrightarrow> list_ex (cursor_matches sub plan) (rs_cursors s)"

definition for_subscriber :: "string \<Rightarrow> string \<Rightarrow> pending_item list \<Rightarrow> pending_item list" where
  "for_subscriber sub plan = filter (\<lambda>i. pi_subscriber i = Some sub \<and> pi_plan i = plan)"

lemma cursor_matches_key: "cursor_matches sub plan c \<longleftrightarrow> cursor_key c = (sub, plan)"
  by (simp add: cursor_matches_def cursor_key_def)

lemma matches_eq: "cursor_matches sub plan = (\<lambda>c. cursor_key c = (sub, plan))"
  by (simp add: fun_eq_iff cursor_matches_key)

lemma has_cursor_key: "has_cursor s sub plan \<longleftrightarrow> (sub, plan) \<in> cursor_key ` set (rs_cursors s)"
  by (force simp: has_cursor_def list_ex_iff cursor_matches_key)

lemma find_append: "find P (xs @ ys) = (case find P xs of Some x \<Rightarrow> Some x | None \<Rightarrow> find P ys)"
  by (induction xs) simp_all

lemma find_none_key: "find (cursor_matches sub plan) cs = None \<longleftrightarrow> (sub, plan) \<notin> cursor_key ` set cs"
  by (force simp: find_None_iff cursor_matches_key)

lemma rebuild_for_subscriber:
  "for_subscriber sub plan (rebuild_queue_from_journal plan' js n (Some sub'))
     = (if sub' = sub \<and> plan' = plan then rebuild_queue_from_journal plan js n (Some sub) else [])"
  by (auto simp: for_subscriber_def rebuild_queue_from_journal_def filter_map comp_def pending_of_def
      filter_empty_conv)

lemma rebuild_sorted: "sorted (map pending_order (rebuild_queue_from_journal plan js n sub))"
proof -
  have "sorted (map te_seq (filter Q (sort_key te_seq js)))" for Q
    by (simp add: sorted_filter)
  then have "sorted (map (\<lambda>x. (x, (case sub of None \<Rightarrow> [] | Some s \<Rightarrow> s), plan))
      (map te_seq (filter (\<lambda>e. n < te_seq e) (sort_key te_seq js))))"
    by (auto simp: sorted_iff_nth_mono less_eq_prod_def order.order_iff_strict)
  then show ?thesis
    by (simp add: rebuild_queue_from_journal_def pending_order_def pending_of_def comp_def)
qed

lemma rebuild_advance:
  assumes "n \<le> m"
  shows "filter (\<lambda>i. m < pi_seq i) (rebuild_queue_from_journal plan js n sub)
     = rebuild_queue_from_journal plan js m sub"
proof -
  have "filter (\<lambda>e. n < te_seq e \<and> m < te_seq e) es = filter (\<lambda>e. m < te_seq e) es" for es :: "thread_event list"
    by (rule filter_cong) (use assms in auto)
  then show ?thesis
    by (simp add: rebuild_queue_from_journal_def filter_map comp_def pending_of_def)
qed

lemma advance_cursor_ge: "n \<le> advance_cursor n through ok"
  by (simp add: advance_cursor_def)

subsection \<open>Ingesting\<close>

lemma ingest_subscribers_frame:
  "cursor_pos (ingest_subscribers plan js subs s) sub p = cursor_pos s sub p
   \<and> (has_cursor (ingest_subscribers plan js subs s) sub p \<longleftrightarrow> has_cursor s sub p \<or> sub \<in> set subs \<and> p = plan)
   \<and> (distinct (map cursor_key (rs_cursors s))
      \<longrightarrow> distinct (map cursor_key (rs_cursors (ingest_subscribers plan js subs s))))"
proof (induction subs arbitrary: s)
  case Nil
  show ?case by simp
next
  case (Cons x xs)
  let ?c = "cursor_for s x plan"
  define s1 where "s1 = (if list_ex (cursor_matches x plan) (rs_cursors s) then s
      else s\<lparr>rs_cursors := rs_cursors s @ [?c]\<rparr>)"
  define s2 where "s2 = s1\<lparr>rs_pending := rs_pending s1 @ rebuild_queue_from_journal plan js (rc_last ?c) (Some x)\<rparr>"
  have st: "ingest_subscribers plan js (x # xs) s = ingest_subscribers plan js xs s2"
    by (simp add: s1_def s2_def Let_def)
  have new: "\<not> has_cursor s x plan \<Longrightarrow> ?c = \<lparr>rc_subscriber = x, rc_plan = plan, rc_last = 0\<rparr>"
    by (auto simp: has_cursor_def cursor_for_def list_ex_iff find_None_iff split: option.split
        dest!: find_Some_iff [THEN iffD1])
  have pos: "cursor_pos s2 sub p = cursor_pos s sub p"
    using new by (auto simp: s2_def s1_def cursor_pos_def cursor_for_def find_append cursor_matches_def
        has_cursor_def split: option.split)
  have has: "has_cursor s2 sub p \<longleftrightarrow> has_cursor s sub p \<or> sub = x \<and> p = plan"
    using new by (auto simp: s2_def s1_def has_cursor_def cursor_matches_def)
  have dis: "distinct (map cursor_key (rs_cursors s)) \<Longrightarrow> distinct (map cursor_key (rs_cursors s2))"
    using new by (auto simp: s2_def s1_def has_cursor_def list_ex_iff cursor_matches_key cursor_key_def)
  show ?case unfolding st using Cons.IH [of s2] pos has dis by auto
qed

lemmas ingest_subscribers_cursors =
  ingest_subscribers_frame [THEN conjunct1]
  ingest_subscribers_frame [THEN conjunct2, THEN conjunct1]
  ingest_subscribers_frame [THEN conjunct2, THEN conjunct2, rule_format]

lemma for_subscriber_Nil [simp]: "for_subscriber sub p [] = []"
  by (simp add: for_subscriber_def)

lemma for_subscriber_append [simp]:
  "for_subscriber sub p (xs @ ys) = for_subscriber sub p xs @ for_subscriber sub p ys"
  by (simp add: for_subscriber_def)

lemma ingest_subscribers_pending:
  assumes "distinct subs"
  shows "for_subscriber sub p (rs_pending (ingest_subscribers plan js subs s))
    = for_subscriber sub p (rs_pending s)
      @ (if p = plan \<and> sub \<in> set subs then rebuild_queue_from_journal plan js (cursor_pos s sub plan) (Some sub) else [])"
  using assms
proof (induction subs arbitrary: s)
  case Nil
  then show ?case by simp
next
  case (Cons x xs)
  let ?one = "ingest_subscribers plan js [x] s"
  have st: "ingest_subscribers plan js (x # xs) s = ingest_subscribers plan js xs ?one"
    by (simp add: Let_def)
  have "rs_pending ?one = rs_pending s @ rebuild_queue_from_journal plan js (cursor_pos s x plan) (Some x)"
    by (simp add: Let_def cursor_pos_def)
  then show ?case
    using Cons st ingest_subscribers_cursors(1) [of plan js "[x]" s sub plan]
    by (auto simp: rebuild_for_subscriber simp del: ingest_subscribers.simps)
qed

lemma other_subscribers_pending:
  assumes "distinct (map cursor_key cs)"
  shows "for_subscriber sub p (other_subscribers plan js seen cs)
    = (if p = plan \<and> sub \<notin> set seen
       then case find (cursor_matches sub plan) cs of None \<Rightarrow> []
            | Some c \<Rightarrow> rebuild_queue_from_journal plan js (rc_last c) (Some sub)
       else [])"
proof -
  let ?f = "\<lambda>c. rebuild_queue_from_journal plan js (rc_last c) (Some (rc_subscriber c))"
  have A: "for_subscriber sub p (concat (map ?f xs))
      = concat (map (\<lambda>c. if rc_subscriber c = sub \<and> plan = p then rebuild_queue_from_journal plan js (rc_last c) (Some sub) else []) xs)" for xs :: "relay_cursor list"
    by (induction xs) (simp_all add: rebuild_for_subscriber)
  have B: "concat (map (\<lambda>c. if rc_subscriber c = sub \<and> plan = p then g c else [])
        (filter (\<lambda>c. rc_plan c = plan \<and> rc_subscriber c \<notin> set seen) cs))
      = (if p = plan \<and> sub \<notin> set seen then concat (map g (filter (\<lambda>c. cursor_key c = (sub, plan)) cs)) else [])" for g
    by (induction cs) (auto simp: cursor_key_def)
  show ?thesis
    unfolding other_subscribers_def A B matches_eq concat_map_key [OF assms] by simp
qed

lemma ingest_pending:
  assumes d: "distinct subs" "distinct (map cursor_key (rs_cursors s))"
    and srt: "\<And>q. sorted (map pending_order (for_subscriber sub q (rs_pending s)))"
  shows "for_subscriber sub p (rs_pending (ingest_journal_events s plan js subs))
    = (if p \<noteq> plan then for_subscriber sub p (rs_pending s)
       else if has_cursor s sub plan \<or> sub \<in> set subs
       then rebuild_queue_from_journal plan js (cursor_pos s sub plan) (Some sub) else [])"
proof -
  define s0 where "s0 = \<lparr>rs_cursors = rs_cursors s, rs_pending = filter (\<lambda>i. pi_plan i \<noteq> plan) (rs_pending s)\<rparr>"
  define s1 where "s1 = ingest_subscribers plan js subs s0"
  have d1: "distinct (map cursor_key (rs_cursors s1))"
    unfolding s1_def by (rule ingest_subscribers_cursors(3)) (simp add: s0_def d(2))
  have pos: "cursor_pos s1 sub plan = cursor_pos s sub plan"
    unfolding s1_def ingest_subscribers_cursors(1) by (simp add: s0_def cursor_pos_def cursor_for_def)
  have has: "has_cursor s1 sub plan \<longleftrightarrow> has_cursor s sub plan \<or> sub \<in> set subs"
    unfolding s1_def ingest_subscribers_cursors(2) by (simp add: s0_def has_cursor_def)
  have pos0: "cursor_pos s0 sub plan = cursor_pos s sub plan"
    by (simp add: s0_def cursor_pos_def cursor_for_def)
  have old: "for_subscriber sub p (rs_pending s0) = (if p = plan then [] else for_subscriber sub p (rs_pending s))"
    by (auto simp: s0_def for_subscriber_def filter_empty_conv intro!: filter_cong)
  have oth: "(case find (cursor_matches sub plan) (rs_cursors s1) of None \<Rightarrow> []
      | Some c \<Rightarrow> rebuild_queue_from_journal plan js (rc_last c) (Some sub))
     = (if has_cursor s1 sub plan then rebuild_queue_from_journal plan js (cursor_pos s1 sub plan) (Some sub) else [])"
    by (auto simp: has_cursor_def cursor_pos_def cursor_for_def list_ex_iff find_None_iff split: option.split
        dest: find_Some_iff [THEN iffD1])
  let ?raw = "for_subscriber sub p (rs_pending s1 @ other_subscribers plan js subs (rs_cursors s1))"
  have raw: "?raw = (if p \<noteq> plan then for_subscriber sub p (rs_pending s)
       else if has_cursor s sub plan \<or> sub \<in> set subs
       then rebuild_queue_from_journal plan js (cursor_pos s sub plan) (Some sub) else [])"
    using ingest_subscribers_pending [OF d(1), of sub p plan js s0, folded s1_def] old pos pos0 has
    by (auto simp: other_subscribers_pending [OF d1] oth)
  have "sorted (map pending_order ?raw)"
    unfolding raw using srt rebuild_sorted by simp
  moreover have "for_subscriber sub p (rs_pending (ingest_journal_events s plan js subs)) = sort_key pending_order ?raw"
    by (simp add: ingest_journal_events_def Let_def s0_def [symmetric] s1_def [symmetric] for_subscriber_def filter_sort)
  ultimately show ?thesis using raw sort_key_sorted by metis
qed

lemma ingest_cursors:
  shows "cursor_pos (ingest_journal_events s plan js subs) sub p = cursor_pos s sub p"
    and "has_cursor (ingest_journal_events s plan js subs) sub p \<longleftrightarrow> has_cursor s sub p \<or> sub \<in> set subs \<and> p = plan"
    and "distinct (map cursor_key (rs_cursors s))
      \<Longrightarrow> distinct (map cursor_key (rs_cursors (ingest_journal_events s plan js subs)))"
  using ingest_subscribers_frame [of plan js subs "\<lparr>rs_cursors = rs_cursors s,
      rs_pending = filter (\<lambda>i. pi_plan i \<noteq> plan) (rs_pending s)\<rparr>"]
  by (simp_all add: ingest_journal_events_def Let_def cursor_pos_def cursor_for_def has_cursor_def)


subsection \<open>Confirming\<close>

lemma confirm_cursors:
  shows "cursor_pos (confirm_delivery_store s sub plan through ok) sub' p
      = (if sub' = sub \<and> p = plan then advance_cursor (cursor_pos s sub plan) through ok else cursor_pos s sub' p)"
    and "has_cursor (confirm_delivery_store s sub plan through ok) sub' p
      \<longleftrightarrow> has_cursor s sub' p \<or> sub' = sub \<and> p = plan"
    and "distinct (map cursor_key (rs_cursors s))
      \<Longrightarrow> distinct (map cursor_key (rs_cursors (confirm_delivery_store s sub plan through ok)))"
proof -
  let ?rest = "filter (\<lambda>c. \<not> cursor_matches sub plan c) (rs_cursors s)"
  have cur: "cursor_key (cursor_for s sub plan) = (sub, plan)"
    by (auto simp: cursor_for_def cursor_key_def cursor_matches_def split: option.split
        dest!: find_Some_iff [THEN iffD1])
  have rest: "find (cursor_matches sub' p) (filter (\<lambda>c. \<not> cursor_matches sub plan c) cs)
      = (if sub' = sub \<and> p = plan then None else find (cursor_matches sub' p) cs)" for cs :: "relay_cursor list"
    by (induction cs) (auto simp: matches_eq)
  define c1 where "c1 = (cursor_for s sub plan)\<lparr>rc_last := advance_cursor (cursor_pos s sub plan) through ok\<rparr>"
  have k: "cursor_matches sub' p c1 \<longleftrightarrow> sub' = sub \<and> p = plan" for sub' p
    using cur by (auto simp: c1_def cursor_matches_key cursor_key_def)
  have "rs_cursors (confirm_delivery_store s sub plan through ok) = ?rest @ [c1]"
    by (simp add: confirm_delivery_store_def Let_def c1_def cursor_pos_def)
  then have "find (cursor_matches sub' p) (rs_cursors (confirm_delivery_store s sub plan through ok))
      = (if sub' = sub \<and> p = plan then Some c1 else find (cursor_matches sub' p) (rs_cursors s))"
    by (auto simp: find_append rest k split: option.split)
  then show "cursor_pos (confirm_delivery_store s sub plan through ok) sub' p
      = (if sub' = sub \<and> p = plan then advance_cursor (cursor_pos s sub plan) through ok else cursor_pos s sub' p)"
    by (simp add: cursor_pos_def cursor_for_def [of _ sub' p] c1_def)
  show "has_cursor (confirm_delivery_store s sub plan through ok) sub' p
      \<longleftrightarrow> has_cursor s sub' p \<or> sub' = sub \<and> p = plan"
    using cur by (auto simp: confirm_delivery_store_def Let_def has_cursor_def list_ex_iff cursor_matches_key cursor_key_def)
  show "distinct (map cursor_key (rs_cursors s))
      \<Longrightarrow> distinct (map cursor_key (rs_cursors (confirm_delivery_store s sub plan through ok)))"
    using cur by (auto simp: confirm_delivery_store_def Let_def distinct_map_filter cursor_matches_key cursor_key_def)
qed

lemma confirm_pending:
  "for_subscriber sub' p (rs_pending (confirm_delivery_store s sub plan through ok))
    = (if sub' = sub \<and> p = plan
       then filter (\<lambda>i. advance_cursor (cursor_pos s sub plan) through ok < pi_seq i) (for_subscriber sub plan (rs_pending s))
       else for_subscriber sub' p (rs_pending s))"
  by (auto simp: confirm_delivery_store_def Let_def for_subscriber_def cursor_pos_def intro!: filter_cong)

subsection \<open>Histories\<close>

text \<open>
  A journal append is followed by an ingest of that plan's whole journal; a confirmation may
  come from anyone, also from a subscriber the store does not know yet, for whom it creates a
  cursor over an empty queue.
\<close>

type_synonym journals = "string \<Rightarrow> thread_event list"

inductive relay_step :: "journals \<times> relay_store \<Rightarrow> journals \<times> relay_store \<Rightarrow> bool" where
  appended: "distinct subs \<Longrightarrow>
    relay_step (js, s) (js(plan := js plan @ new), ingest_journal_events s plan (js plan @ new) subs)"
| confirmed: "relay_step (js, s) (js, confirm_delivery_store s sub plan through ok)"

inductive_cases relay_stepE: "relay_step (js, s) t"

inductive relay_run :: "journals \<times> relay_store \<Rightarrow> journals \<times> relay_store \<Rightarrow> bool" where
  start: "relay_run c c"
| more: "relay_run c d \<Longrightarrow> relay_step d e \<Longrightarrow> relay_run c e"

definition relay_exact :: "journals \<Rightarrow> relay_store \<Rightarrow> string \<Rightarrow> string \<Rightarrow> bool" where
  "relay_exact js s sub plan \<longleftrightarrow> has_cursor s sub plan
     \<and> for_subscriber sub plan (rs_pending s)
       = rebuild_queue_from_journal plan (js plan) (cursor_pos s sub plan) (Some sub)"

definition relay_inv :: "journals \<Rightarrow> relay_store \<Rightarrow> bool" where
  "relay_inv js s \<longleftrightarrow> distinct (map cursor_key (rs_cursors s))
     \<and> (\<forall>sub plan. for_subscriber sub plan (rs_pending s) = [] \<or> relay_exact js s sub plan)"

lemma relay_invD:
  assumes "relay_inv js s"
  shows "distinct (map cursor_key (rs_cursors s))"
    and "for_subscriber sub plan (rs_pending s) = [] \<or> relay_exact js s sub plan"
    and "sorted (map pending_order (for_subscriber sub plan (rs_pending s)))"
proof -
  show "distinct (map cursor_key (rs_cursors s))"
    and e: "for_subscriber sub plan (rs_pending s) = [] \<or> relay_exact js s sub plan"
    using assms by (simp_all add: relay_inv_def)
  show "sorted (map pending_order (for_subscriber sub plan (rs_pending s)))"
    using e rebuild_sorted by (auto simp: relay_exact_def)
qed

lemma relay_inv_empty: "relay_inv js empty_relay_store"
  by (simp add: relay_inv_def empty_relay_store_def)

lemma relay_step_inv:
  assumes "relay_step (js, s) (js', s')" and inv: "relay_inv js s"
  shows "relay_inv js' s' \<and> (\<forall>sub plan. cursor_pos s sub plan \<le> cursor_pos s' sub plan
      \<and> (relay_exact js s sub plan \<longrightarrow> relay_exact js' s' sub plan))"
  using assms(1)
proof cases
  case (appended subs plan new)
  show ?thesis
    unfolding appended relay_inv_def relay_exact_def
      ingest_pending [OF appended(3) relay_invD(1) [OF inv] relay_invD(3) [OF inv]] ingest_cursors(1,2)
    using ingest_cursors(3) [OF relay_invD(1) [OF inv]] relay_invD(2) [OF inv, unfolded relay_exact_def] by auto
next
  case (confirmed sub plan through ok)
  let ?t = "confirm_delivery_store s sub plan through ok"
  have keep: "relay_exact js ?t sub' p" if "relay_exact js s sub' p" for sub' p
    using that advance_cursor_ge [of "cursor_pos s sub plan" through ok]
    by (cases "sub' = sub \<and> p = plan")
      (auto simp: relay_exact_def confirm_pending confirm_cursors(1,2) rebuild_advance)
  have none: "for_subscriber sub' p (rs_pending ?t) = []" if "for_subscriber sub' p (rs_pending s) = []" for sub' p
    using that by (cases "sub' = sub \<and> p = plan") (auto simp: confirm_pending)
  have "for_subscriber sub' p (rs_pending ?t) = [] \<or> relay_exact js ?t sub' p" for sub' p
    using relay_invD(2) [OF inv, of sub' p] keep none by blast
  then show ?thesis
    using keep confirm_cursors(3) [OF relay_invD(1) [OF inv]] advance_cursor_ge
    by (simp add: confirmed relay_inv_def confirm_cursors(1))
qed

lemma relay_run_inv:
  assumes "relay_run c d" and "relay_inv (fst c) (snd c)"
  shows "relay_inv (fst d) (snd d) \<and> (\<forall>sub plan. cursor_pos (snd c) sub plan \<le> cursor_pos (snd d) sub plan
      \<and> (relay_exact (fst c) (snd c) sub plan \<longrightarrow> relay_exact (fst d) (snd d) sub plan))"
  using assms
proof (induction rule: relay_run.induct)
  case (start c)
  then show ?case by simp
next
  case (more c d e)
  obtain js s js' s' where d: "d = (js, s)" "e = (js', s')" by (cases d, cases e)
  have c: "relay_inv js s" "cursor_pos (snd c) sub plan \<le> cursor_pos s sub plan"
      "relay_exact (fst c) (snd c) sub plan \<Longrightarrow> relay_exact js s sub plan" for sub plan
    using more d by simp_all
  have s: "relay_inv js' s'" "cursor_pos s sub plan \<le> cursor_pos s' sub plan"
      "relay_exact js s sub plan \<Longrightarrow> relay_exact js' s' sub plan" for sub plan
    using relay_step_inv [of js s js' s'] c(1) more(2) d by simp_all
  show ?case using s c order_trans by (simp add: d) blast
qed

lemma ingest_exact:
  assumes "relay_inv js s" and "distinct subs" and "has_cursor s sub plan \<or> sub \<in> set subs"
  shows "relay_exact (js(plan := es)) (ingest_journal_events s plan es subs) sub plan"
  using assms(3)
  by (simp add: relay_exact_def ingest_pending [OF assms(2) relay_invD(1,3) [OF assms(1)]] ingest_cursors(1,2))

lemma rebuild_seqs: "set (map pi_seq (rebuild_queue_from_journal plan es n sb)) = {m \<in> te_seq ` set es. n < m}"
  by (auto simp: rebuild_queue_from_journal_def pending_of_def)

text \<open>
  C23. Take any run of journal ingests and confirmations, by known or unknown subscribers,
  then an append to a plan's journal with its ingest, then any further run: a subscriber that
  had a cursor for the plan before that ingest, or is named by it, has pending exactly the
  journal's events of the plan past its cursor, each rendered as the journal has it, and its
  cursor has not moved back. (Before such an ingest an unknown subscriber that confirms gets a
  cursor over an empty queue: lemma stranger_confirms_over_a_full_journal.)
\<close>

theorem relay_pending_exact:
  assumes "relay_run (js0, empty_relay_store) (js, s)"
    and "distinct subs" and "has_cursor s sub plan \<or> sub \<in> set subs"
    and "relay_run (js(plan := js plan @ new), ingest_journal_events s plan (js plan @ new) subs) (js', s')"
  shows "has_cursor s' sub plan
    \<and> for_subscriber sub plan (rs_pending s')
      = rebuild_queue_from_journal plan (js' plan) (cursor_pos s' sub plan) (Some sub)
    \<and> set (map pi_seq (for_subscriber sub plan (rs_pending s')))
      = {n \<in> te_seq ` set (js' plan). cursor_pos s' sub plan < n}
    \<and> cursor_pos s sub plan \<le> cursor_pos s' sub plan"
proof -
  let ?js = "js(plan := js plan @ new)" and ?s = "ingest_journal_events s plan (js plan @ new) subs"
  have inv: "relay_inv js s" using relay_run_inv [OF assms(1)] relay_inv_empty by simp
  have step: "relay_step (js, s) (?js, ?s)" by (rule relay_step.appended) (rule assms(2))
  have "relay_exact js' s' sub plan" "cursor_pos ?s sub plan \<le> cursor_pos s' sub plan"
    using relay_run_inv [OF assms(4)] relay_step_inv [OF step inv] ingest_exact [OF inv assms(2,3)] by simp_all
  then show ?thesis by (simp only: relay_exact_def rebuild_seqs ingest_cursors(1) simp_thms)
qed

lemma stranger_confirms_over_a_full_journal:
  assumes "relay_inv js s" and "\<not> has_cursor s sub plan"
  shows "has_cursor (confirm_delivery_store s sub plan through ok) sub plan
    \<and> for_subscriber sub plan (rs_pending (confirm_delivery_store s sub plan through ok)) = []"
  using relay_invD(2) [OF assms(1), of sub plan] assms(2)
  by (simp add: confirm_cursors(2) confirm_pending relay_exact_def)

theorem relay_cursor_monotone:
  assumes "relay_run (js0, empty_relay_store) (js, s)" and "relay_run (js, s) (js', s')"
  shows "cursor_pos s sub plan \<le> cursor_pos s' sub plan"
  using relay_run_inv [OF assms(2)] relay_run_inv [OF assms(1)] relay_inv_empty by simp

lemma failed_wake_keeps_everything:
  "cursor_pos (confirm_delivery_store s sub plan through False) sub' p = cursor_pos s sub' p
   \<and> (for_subscriber sub plan (rs_pending s) = rebuild_queue_from_journal plan es (cursor_pos s sub plan) (Some sub)
      \<longrightarrow> for_subscriber sub plan (rs_pending (confirm_delivery_store s sub plan through False))
          = for_subscriber sub plan (rs_pending s))"
  unfolding confirm_cursors(1) confirm_pending
  by (auto simp: advance_cursor_def rebuild_advance)

subsection \<open>The two cursor stores agree\<close>

definition same_cursors :: "relay_store \<Rightarrow> cursor_table \<Rightarrow> bool" where
  "same_cursors s t \<longleftrightarrow> (\<forall>sub plan. load_cursor t sub plan = cursor_pos s sub plan)"

text \<open>
  C22. Confirming a delivery in the relay file moves every subscriber's cursor exactly as the
  same confirmation on the cursor table does, and both report the same new position.
\<close>

theorem relay_store_refines_cursor_table:
  assumes "same_cursors s t"
  shows "same_cursors (confirm_delivery_store s sub plan through ok) (snd (confirm_delivery t sub plan through ok stamp))
    \<and> fst (confirm_delivery t sub plan through ok stamp)
      = cursor_pos (confirm_delivery_store s sub plan through ok) sub plan"
  using assms
  by (auto simp: same_cursors_def confirm_cursors(1) confirm_delivery_def Let_def load_cursor_def persist_cursor_def)

subsection \<open>The file round trip\<close>

lemma cursor_row_json [simp]: "cursor_row (cursor_json c) = Some c"
  by (simp add: cursor_json_def jget_or_def)

lemma item_row_json [simp]: "item_row (item_json i) = Some i"
  by (auto simp: item_json_def jget_or_def split: option.split)

lemma map_filter_roundtrip: "(\<And>x. g (f x) = Some x) \<Longrightarrow> List.map_filter g (map f xs) = xs"
  by (induction xs) (simp_all add: List.map_filter_simps)

lemma saved_payload: "save_relay_store (store_json s) = Inr (JObj (store_json s))"
  by (simp add: save_relay_store_def store_holds_graph_state_def store_json_def jget_or_def GRAPH_KEYS_def has_key_def)

lemma loaded_payload: "load_relay_store (Some (JObj (store_json s))) = store_json s"
  by (simp add: load_relay_store_def store_json_def jget_or_def RELAY_STORE_VERSION_def)

lemma rows_of_store: "relay_rows (store_json s) = s"
  by (simp add: relay_rows_def store_json_def jget_or_def map_filter_roundtrip)

theorem relay_file_roundtrip:
  "\<exists>s j. ingest_journal_into_vault file plan es subs = Inr (s, j)
    \<and> relay_rows (load_relay_store (Some j)) = s
    \<and> s = ingest_journal_events (relay_rows (load_relay_store file)) plan es subs"
  by (simp add: ingest_journal_into_vault_def Let_def saved_payload loaded_payload rows_of_store)

subsection \<open>A concrete relay\<close>

definition demo_event :: "int \<Rightarrow> thread_event" where
  "demo_event n = \<lparr>te_seq = n, te_kind = ''claim'', te_actor = ''codex'', te_at = ''t'', te_slice = []\<rparr>"

definition demo_relay :: relay_store where
  "demo_relay = confirm_delivery_store
     (ingest_journal_events empty_relay_store ''p'' [demo_event 2, demo_event 1] [''grok'']) ''grok'' ''p'' 1 True"

abbreviation demo_journals :: journals where
  "demo_journals \<equiv> (\<lambda>_. [])(''p'' := [] @ [demo_event 2, demo_event 1])"

lemma demo_confirmed:
  "relay_run (demo_journals, ingest_journal_events empty_relay_store ''p'' ([] @ [demo_event 2, demo_event 1]) [''grok''])
     (demo_journals, demo_relay)"
  unfolding demo_relay_def append_Nil
  by (rule relay_run.more [OF relay_run.start relay_step.confirmed])

lemma demo_relay_run: "relay_run (\<lambda>_. [], empty_relay_store) (demo_journals, demo_relay)"
proof -
  have a: "relay_step (\<lambda>_. [], empty_relay_store) (demo_journals, ingest_journal_events empty_relay_store ''p'' ([] @ [demo_event 2, demo_event 1]) [''grok''])"
    by (rule relay_step.appended) simp
  show ?thesis
    unfolding demo_relay_def append_Nil
    by (rule relay_run.more [OF relay_run.more [OF relay_run.start a [unfolded append_Nil]] relay_step.confirmed])
qed

lemma demo_cursor: "cursor_pos demo_relay ''grok'' ''p'' = 1"
  by (simp add: demo_relay_def confirm_cursors(1) ingest_cursors(1))
    (simp add: cursor_pos_def cursor_for_def empty_relay_store_def advance_cursor_def)

theorem relay_pending_exact_witness:
  "set (map pi_seq (for_subscriber ''grok'' ''p'' (rs_pending demo_relay))) = {2}"
  using relay_pending_exact [OF relay_run.start _ _ demo_confirmed, of "''grok''"]
  by (auto simp: demo_cursor demo_event_def)

theorem relay_cursor_monotone_witness:
  "\<exists>s'. relay_run (demo_journals, demo_relay) (demo_journals, s') \<and> 1 \<le> cursor_pos s' ''grok'' ''p''"
proof -
  have r: "relay_run (demo_journals, demo_relay) (demo_journals, confirm_delivery_store demo_relay ''grok'' ''p'' 0 True)"
    by (rule relay_run.more [OF relay_run.start relay_step.confirmed])
  show ?thesis
    using r relay_cursor_monotone [OF demo_relay_run r, of "''grok''" "''p''"] demo_cursor by auto
qed

theorem relay_store_refines_cursor_table_witness:
  "same_cursors (confirm_delivery_store empty_relay_store ''grok'' ''p'' 3 True)
     (snd (confirm_delivery (\<lambda>_. None) ''grok'' ''p'' 3 True ''t''))"
proof -
  have "same_cursors empty_relay_store (\<lambda>_. None)"
    by (simp add: same_cursors_def load_cursor_def cursor_pos_def cursor_for_def empty_relay_store_def)
  from relay_store_refines_cursor_table [OF this] show ?thesis by blast
qed

end
