(* ===== verification/RerankCache.thy ===== *)
theory RerankCache
  imports Prelude
begin

text \<open>
  \<^verbatim>\<open>src/minni/rerank_cache.py\<close>: the bounded cache of rerank scores with its generation
  counter.  The ordered dictionary is an association list, oldest entry first; the lock makes
  each method one step; \<open>sha\<close> is the hash of a text.
\<close>

record cache_key =
  ck_model :: string
  ck_version :: string
  ck_query :: string
  ck_chunk :: int
  ck_corpus :: string
  ck_passage :: string

record rerank_cache =
  capacity :: nat
  scores :: "(cache_key \<times> real) list"
  generation :: nat

definition new_cache :: "int \<Rightarrow> rerank_cache" where
  "new_cache n = \<lparr>capacity = nat (max 1 n), scores = [], generation = 0\<rparr>"

definition make_key ::
  "(string \<Rightarrow> string) \<Rightarrow> string \<Rightarrow> string \<Rightarrow> string \<Rightarrow> int \<Rightarrow> string \<Rightarrow> string \<Rightarrow> cache_key" where
  "make_key sha model_name model_version query chunk_id corpus passage =
     \<lparr>ck_model = (if model_name = [] then ''unknown'' else model_name),
      ck_version = (if model_version = [] then ''unknown'' else model_version),
      ck_query = sha query, ck_chunk = chunk_id, ck_corpus = corpus, ck_passage = sha passage\<rparr>"

definition pop_key :: "'k \<Rightarrow> ('k \<times> 'v) list \<Rightarrow> ('k \<times> 'v) list" where
  "pop_key k d = filter (\<lambda>e. fst e \<noteq> k) d"

definition cache_get :: "cache_key \<Rightarrow> rerank_cache \<Rightarrow> real option \<times> rerank_cache" where
  "cache_get k c =
     (case map_of (scores c) k of
        None \<Rightarrow> (None, c)
      | Some v \<Rightarrow> (Some v, c\<lparr>scores := pop_key k (scores c) @ [(k, v)]\<rparr>))"

fun evict :: "nat \<Rightarrow> 'a list \<Rightarrow> 'a list" where
  "evict n [] = []"
| "evict n (x # xs) = (if n < length (x # xs) then evict n xs else x # xs)"

text \<open>\<open>expected\<close> is the generation read before the prediction started, if it was read.\<close>

definition cache_set :: "cache_key \<Rightarrow> real \<Rightarrow> nat option \<Rightarrow> rerank_cache \<Rightarrow> rerank_cache" where
  "cache_set k v expected c =
     (if (case expected of None \<Rightarrow> False | Some g \<Rightarrow> g \<noteq> generation c) then c
      else c\<lparr>scores := evict (capacity c) (pop_key k (scores c) @ [(k, v)])\<rparr>)"

definition invalidate_chunks :: "int option list \<Rightarrow> rerank_cache \<Rightarrow> nat \<times> rerank_cache" where
  "invalidate_chunks ids c =
     (let doomed = List.map_filter (\<lambda>x. x) ids; gone = (\<lambda>e. ck_chunk (fst e) \<in> set doomed)
      in if doomed = [] then (0, c)
         else (length (filter gone (scores c)),
               c\<lparr>generation := generation c + 1, scores := filter (\<lambda>e. \<not> gone e) (scores c)\<rparr>))"

definition clear_cache :: "rerank_cache \<Rightarrow> rerank_cache" where
  "clear_cache c = c\<lparr>generation := generation c + 1, scores := []\<rparr>"

subsection \<open>The contract of a score cache\<close>

text \<open>
  What a client of the cache may rely on: entries come from accepted sets only, an
  invalidation removes what it names, and the size stays bounded.
\<close>

locale score_cache =
  fixes look :: "'c \<Rightarrow> 'k \<Rightarrow> 'v option"
    and touch :: "'k \<Rightarrow> 'c \<Rightarrow> 'c"
    and put :: "'k \<Rightarrow> 'v \<Rightarrow> 'c \<Rightarrow> 'c"
    and drop_all :: "('k \<Rightarrow> bool) \<Rightarrow> 'c \<Rightarrow> 'c"
    and good :: "'c \<Rightarrow> bool"
  assumes look_touch: "good c \<Longrightarrow> look (touch k c) = look c"
    and look_put_same: "good c \<Longrightarrow> look (put k v c) k = Some v"
    and look_put_other: "good c \<Longrightarrow> j \<noteq> k \<Longrightarrow> look (put k v c) j = look c j \<or> look (put k v c) j = None"
    and look_drop: "good c \<Longrightarrow> look (drop_all P c) j = (if P j then None else look c j)"
    and good_touch: "good c \<Longrightarrow> good (touch k c)"
    and good_put: "good c \<Longrightarrow> good (put k v c)"
    and good_drop: "good c \<Longrightarrow> good (drop_all P c)"
begin

text \<open>The cache never answers with anything but what the unbounded map would.\<close>

definition below :: "'c \<Rightarrow> ('k \<Rightarrow> 'v option) \<Rightarrow> bool" where
  "below c m \<longleftrightarrow> good c \<and> (\<forall>k v. look c k = Some v \<longrightarrow> m k = Some v)"

lemma below_touch: "below c m \<Longrightarrow> below (touch k c) m"
  by (simp add: below_def look_touch good_touch)

lemma below_put: "below c m \<Longrightarrow> below (put k v c) (m(k \<mapsto> v))"
  unfolding below_def using look_put_same look_put_other good_put by (metis fun_upd_other fun_upd_same option.distinct(1))

lemma below_drop: "below c m \<Longrightarrow> below (drop_all P c) (\<lambda>k. if P k then None else m k)"
  unfolding below_def using look_drop good_drop by (metis option.distinct(1))

end

subsection \<open>The rerank cache meets it\<close>

definition cache_wf :: "rerank_cache \<Rightarrow> bool" where
  "cache_wf c \<longleftrightarrow> 0 < capacity c \<and> distinct (map fst (scores c)) \<and> length (scores c) \<le> capacity c"

lemma evict_drop: "evict n xs = drop (length xs - n) xs"
  by (induction xs) (simp_all add: Suc_diff_le)

lemma pop_key_set: "set (pop_key k d) = {e \<in> set d. fst e \<noteq> k}"
  by (auto simp: pop_key_def)

lemma map_of_pop: "map_of (pop_key k d) = (map_of d)(k := None)"
  by (induction d) (auto simp: pop_key_def fun_eq_iff)

lemma pop_key_distinct: "distinct (map fst d) \<Longrightarrow> distinct (map fst (pop_key k d))"
  by (simp add: pop_key_def distinct_map_filter)

lemma pop_key_fresh: "k \<notin> fst ` set (pop_key k d)"
  by (auto simp: pop_key_def)

lemma moved_distinct: "distinct (map fst d) \<Longrightarrow> distinct (map fst (pop_key k d @ [(k, v)]))"
  by (simp add: pop_key_distinct pop_key_fresh)

lemma map_of_moved: "map_of (pop_key k d @ [(k, v)]) j = (if j = k then Some v else map_of d j)"
  by (auto simp: map_add_def map_of_pop split: option.split)

lemma pop_key_length:
  "k \<in> fst ` set d \<Longrightarrow> distinct (map fst d) \<Longrightarrow> length (pop_key k d) + 1 = length d"
proof (induction d)
  case (Cons e d)
  have n: "fst e \<notin> fst ` set d" and d: "distinct (map fst d)" using Cons.prems(2) by simp_all
  show ?case
  proof (cases "fst e = k")
    case True
    then have "fst x \<noteq> k" if "x \<in> set d" for x using n that by (metis image_eqI)
    then have "filter (\<lambda>e. fst e \<noteq> k) d = d" by (simp add: filter_id_conv)
    then show ?thesis using True by (simp add: pop_key_def)
  next
    case False
    then have "k \<in> fst ` set d" using Cons.prems(1) by auto
    then show ?thesis using Cons.IH d False by (simp add: pop_key_def)
  qed
qed simp

lemma get_wf: "cache_wf c \<Longrightarrow> cache_wf (snd (cache_get k c))"
proof (cases "map_of (scores c) k")
  case (Some v)
  assume c: "cache_wf c"
  have "(k, v) \<in> set (scores c)" using Some by (rule map_of_SomeD)
  then have k: "k \<in> fst ` set (scores c)" by force
  have "length (pop_key k (scores c)) + 1 = length (scores c)"
    using pop_key_length [OF k] c by (simp add: cache_wf_def)
  then show ?thesis
    using Some c moved_distinct [of "scores c" k v] by (simp add: cache_get_def cache_wf_def)
qed (simp add: cache_get_def)

lemma set_wf:
  assumes "cache_wf c"
  shows "cache_wf (cache_set k v expected c)"
proof -
  let ?xs = "pop_key k (scores c) @ [(k, v)]"
  have "distinct (map fst (evict (capacity c) ?xs))"
    unfolding evict_drop drop_map [symmetric]
    using moved_distinct [of "scores c" k v] assms by (simp add: cache_wf_def del: drop_append map_append)
  moreover have "length (evict (capacity c) ?xs) \<le> capacity c" by (simp add: evict_drop)
  ultimately show ?thesis using assms by (simp add: cache_set_def cache_wf_def)
qed

lemma invalidate_wf: "cache_wf c \<Longrightarrow> cache_wf (snd (invalidate_chunks ids c))"
  by (auto simp: cache_wf_def invalidate_chunks_def Let_def distinct_map_filter intro: order_trans [OF length_filter_le])

lemma clear_wf: "cache_wf c \<Longrightarrow> cache_wf (clear_cache c)"
  by (simp add: cache_wf_def clear_cache_def)

text \<open>The operations in the shape of the contract.\<close>

definition cache_look :: "rerank_cache \<Rightarrow> cache_key \<Rightarrow> real option" where
  "cache_look c k = fst (cache_get k c)"

definition cache_touch :: "cache_key \<Rightarrow> rerank_cache \<Rightarrow> rerank_cache" where
  "cache_touch k c = snd (cache_get k c)"

definition cache_put :: "cache_key \<Rightarrow> real \<Rightarrow> rerank_cache \<Rightarrow> rerank_cache" where
  "cache_put k v c = cache_set k v None c"

definition cache_drop :: "(cache_key \<Rightarrow> bool) \<Rightarrow> rerank_cache \<Rightarrow> rerank_cache" where
  "cache_drop P c = c\<lparr>generation := generation c + 1, scores := filter (\<lambda>e. \<not> P (fst e)) (scores c)\<rparr>"

lemma cache_look_map: "cache_look c = map_of (scores c)"
  by (auto simp: cache_look_def cache_get_def fun_eq_iff split: option.split)

lemma map_of_drop_cases:
  assumes "distinct (map fst d)"
  shows "map_of (drop n d) j = map_of d j \<or> map_of (drop n d) j = None"
proof (cases "map_of (drop n d) j")
  case (Some v)
  then have "(j, v) \<in> set d" using map_of_SomeD in_set_dropD by metis
  then show ?thesis using assms Some by simp
qed simp

lemma put_look:
  assumes "cache_wf c"
  shows "cache_look (cache_put k v c) k = Some v"
    and "j \<noteq> k \<Longrightarrow> cache_look (cache_put k v c) j = cache_look c j \<or> cache_look (cache_put k v c) j = None"
proof -
  let ?xs = "pop_key k (scores c) @ [(k, v)]"
  have d: "distinct (map fst ?xs)" by (rule moved_distinct) (use assms in \<open>simp add: cache_wf_def\<close>)
  have l: "cache_look (cache_put k v c) = map_of (drop (length ?xs - capacity c) ?xs)"
    by (simp add: cache_look_map cache_put_def cache_set_def evict_drop del: drop_append)
  have "(k, v) \<in> set (drop (length ?xs - capacity c) ?xs)"
    using assms by (simp add: cache_wf_def Suc_diff_le)
  moreover have "distinct (map fst (drop (length ?xs - capacity c) ?xs))"
    unfolding drop_map [symmetric] using d by (simp del: drop_append map_append)
  ultimately show "cache_look (cache_put k v c) k = Some v" unfolding l by (rule map_of_is_SomeI [rotated])
  show "j \<noteq> k \<Longrightarrow> cache_look (cache_put k v c) j = cache_look c j \<or> cache_look (cache_put k v c) j = None"
  proof -
    assume "j \<noteq> k"
    then have "map_of ?xs j = cache_look c j" by (simp only: map_of_moved cache_look_map if_False)
    then show ?thesis using map_of_drop_cases [OF d, of "length ?xs - capacity c" j] unfolding l by argo
  qed
qed

lemma map_of_filter_key: "map_of (filter (\<lambda>e. \<not> P (fst e)) d) j = (if P j then None else map_of d j)"
  by (induction d) auto

lemma touch_look: "cache_look (cache_touch k c) = cache_look c"
proof
  fix j
  show "cache_look (cache_touch k c) j = cache_look c j"
    by (cases "map_of (scores c) k") (simp_all add: cache_touch_def cache_get_def cache_look_map map_of_moved del: map_of_append)
qed

interpretation rc: score_cache cache_look cache_touch cache_put cache_drop cache_wf
proof unfold_locales
  show "cache_wf c \<Longrightarrow> cache_look (cache_touch k c) = cache_look c" for c k by (rule touch_look)
  show "cache_wf c \<Longrightarrow> cache_look (cache_put k v c) k = Some v" for c k v by (rule put_look)
  show "cache_wf c \<Longrightarrow> j \<noteq> k \<Longrightarrow> cache_look (cache_put k v c) j = cache_look c j \<or> cache_look (cache_put k v c) j = None"
    for c k v j by (rule put_look)
  show "cache_wf c \<Longrightarrow> cache_look (cache_drop P c) j = (if P j then None else cache_look c j)" for c P j
    by (simp add: cache_look_map cache_drop_def map_of_filter_key)
  show "cache_wf c \<Longrightarrow> cache_wf (cache_touch k c)" for c k unfolding cache_touch_def by (rule get_wf)
  show "cache_wf c \<Longrightarrow> cache_wf (cache_put k v c)" for c k v unfolding cache_put_def by (rule set_wf)
  show "cache_wf c \<Longrightarrow> cache_wf (cache_drop P c)" for c P
    by (auto simp: cache_wf_def cache_drop_def distinct_map_filter intro: order_trans [OF length_filter_le])
qed

lemma invalidate_is_drop:
  "snd (invalidate_chunks ids c)
     = (if List.map_filter (\<lambda>x. x) ids = [] then c
        else cache_drop (\<lambda>k. ck_chunk k \<in> set (List.map_filter (\<lambda>x. x) ids)) c)"
  by (simp add: invalidate_chunks_def Let_def cache_drop_def)

lemma clear_is_drop: "clear_cache c = cache_drop (\<lambda>_. True) c"
  by (simp add: clear_cache_def cache_drop_def)

subsection \<open>Histories\<close>

datatype cache_op =
    GetOp cache_key
  | SetOp cache_key real "nat option"
  | InvalidateOp "int option list"
  | ClearOp

fun cache_step :: "rerank_cache \<Rightarrow> cache_op \<Rightarrow> rerank_cache" where
  "cache_step c (GetOp k) = snd (cache_get k c)"
| "cache_step c (SetOp k v g) = cache_set k v g c"
| "cache_step c (InvalidateOp ids) = snd (invalidate_chunks ids c)"
| "cache_step c ClearOp = clear_cache c"

text \<open>The reference: an unbounded map with the same generation counter.\<close>

fun map_step :: "(cache_key \<Rightarrow> real option) \<times> nat \<Rightarrow> cache_op \<Rightarrow> (cache_key \<Rightarrow> real option) \<times> nat" where
  "map_step (m, g) (GetOp k) = (m, g)"
| "map_step (m, g) (SetOp k v e) = (if (case e of None \<Rightarrow> False | Some h \<Rightarrow> h \<noteq> g) then (m, g) else (m(k \<mapsto> v), g))"
| "map_step (m, g) (InvalidateOp ids) =
     (let doomed = List.map_filter (\<lambda>x. x) ids
      in if doomed = [] then (m, g) else (\<lambda>k. if ck_chunk k \<in> set doomed then None else m k, g + 1))"
| "map_step (m, g) ClearOp = (\<lambda>_. None, g + 1)"

definition simulates :: "rerank_cache \<Rightarrow> (cache_key \<Rightarrow> real option) \<times> nat \<Rightarrow> bool" where
  "simulates c mg \<longleftrightarrow> rc.below c (fst mg) \<and> generation c = snd mg"

lemma generation_get [simp]: "generation (snd (cache_get k c)) = generation c"
  by (auto simp: cache_get_def split: option.split)

lemma simulates_step: "simulates c mg \<Longrightarrow> simulates (cache_step c op) (map_step mg op)"
proof (cases mg)
  case (Pair m g)
  assume s: "simulates c mg"
  then have b: "rc.below c m" and g: "generation c = g" using Pair by (simp_all add: simulates_def)
  show ?thesis
  proof (cases op)
    case (GetOp k)
    then show ?thesis using rc.below_touch [OF b] g Pair by (simp add: simulates_def cache_touch_def)
  next
    case (SetOp k v e)
    have e: "cache_set k v e c = (if (case e of None \<Rightarrow> False | Some h \<Rightarrow> h \<noteq> g) then c else cache_put k v c)"
      using g by (auto simp: cache_set_def cache_put_def)
    show ?thesis using rc.below_put [OF b, of k v] b g Pair SetOp e
      by (auto simp: simulates_def cache_put_def cache_set_def)
  next
    case (InvalidateOp ids)
    then show ?thesis
      using rc.below_drop [OF b, of "\<lambda>k. ck_chunk k \<in> set (List.map_filter (\<lambda>x. x) ids)"] b g Pair
      by (auto simp: simulates_def invalidate_is_drop Let_def cache_drop_def)
  next
    case ClearOp
    then show ?thesis using rc.below_drop [OF b, of "\<lambda>_. True"] g Pair
      by (simp add: simulates_def clear_is_drop cache_drop_def)
  qed
qed

lemma simulates_run: "simulates c mg \<Longrightarrow> simulates (foldl cache_step c ops) (foldl map_step mg ops)"
  by (induction ops arbitrary: c mg) (simp_all add: simulates_step)

lemma simulates_new: "simulates (new_cache n) (\<lambda>_. None, 0)"
  by (simp add: simulates_def rc.below_def new_cache_def cache_wf_def cache_look_map)

text \<open>
  C35. Whatever the history of stores, lookups, invalidations and clears, a score the cache
  returns is the one the unbounded map holds for the exact model, query, chunk and passage:
  nothing stale survives an invalidation.
\<close>

theorem cache_refines_map:
  assumes "fst (cache_get k (foldl cache_step (new_cache n) ops)) = Some v"
  shows "fst (foldl map_step (\<lambda>_. None, 0) ops) k = Some v"
  using simulates_run [OF simulates_new, of n ops] assms
  by (simp add: simulates_def rc.below_def cache_look_def)

theorem cache_bounded:
  "cache_wf (foldl cache_step (new_cache n) ops)
   \<and> length (scores (foldl cache_step (new_cache n) ops)) \<le> nat (max 1 n)"
proof -
  have "cache_wf c \<Longrightarrow> cache_wf (cache_step c op) \<and> capacity (cache_step c op) = capacity c" for c op
    by (cases op) (auto simp: get_wf set_wf invalidate_wf clear_wf, auto simp: cache_get_def cache_set_def
        invalidate_chunks_def clear_cache_def Let_def split: option.split)
  then have run: "cache_wf c \<Longrightarrow> cache_wf (foldl cache_step c ops) \<and> capacity (foldl cache_step c ops) = capacity c" for c
    by (induction ops arbitrary: c) simp_all
  have "cache_wf (new_cache n)" by (simp add: new_cache_def cache_wf_def)
  from run [OF this] show ?thesis by (auto simp: cache_wf_def new_cache_def)
qed

text \<open>A score computed before an invalidation is not stored after it.\<close>

lemma generation_step: "generation c \<le> generation (cache_step c op)"
  by (cases op) (auto simp: cache_set_def invalidate_chunks_def clear_cache_def Let_def)

lemma generation_run: "generation c \<le> generation (foldl cache_step c ops)"
  by (induction ops arbitrary: c) (auto intro: order_trans [OF generation_step])

theorem stale_prediction_dropped:
  assumes "List.map_filter (\<lambda>x. x) ids \<noteq> []"
  shows "cache_set k v (Some (generation c))
      (foldl cache_step c (before @ InvalidateOp ids # later))
    = foldl cache_step c (before @ InvalidateOp ids # later)"
proof -
  let ?c1 = "foldl cache_step c before"
  have "generation ?c1 < generation (cache_step ?c1 (InvalidateOp ids))"
    using assms by (simp add: invalidate_chunks_def Let_def)
  also have "\<dots> \<le> generation (foldl cache_step c (before @ InvalidateOp ids # later))"
    using generation_run [of "cache_step ?c1 (InvalidateOp ids)" later] by simp
  finally have "generation c < generation (foldl cache_step c (before @ InvalidateOp ids # later))"
    using generation_run [of c before] by simp
  then show ?thesis by (simp add: cache_set_def)
qed

definition demo_key :: cache_key where
  "demo_key = make_key (\<lambda>s. s) ''m'' ''v'' ''q'' 1 [] ''p''"

theorem cache_refines_map_witness:
  "fst (foldl map_step (\<lambda>_. None, 0) [SetOp demo_key 5 None])
     demo_key = Some 5"
  by (rule cache_refines_map [of _ 2]) (simp add: cache_get_def cache_set_def new_cache_def pop_key_def)

theorem stale_prediction_dropped_witness:
  "cache_set demo_key 5 (Some 0) (foldl cache_step (new_cache 2) ([] @ InvalidateOp [Some 1] # []))
     = foldl cache_step (new_cache 2) ([] @ InvalidateOp [Some 1] # [])"
proof -
  have "List.map_filter (\<lambda>x. x) [Some (1 :: int)] \<noteq> []" by (simp add: List.map_filter_simps)
  from stale_prediction_dropped [OF this, of "demo_key" 5 "new_cache 2" "[]" "[]"]
  show ?thesis by (simp add: new_cache_def)
qed

end
