(* ===== verification/Fusion.thy ===== *)
theory Fusion
  imports Hits RerankCache
begin

text \<open>
  \<^verbatim>\<open>src/minni/retrieval.py\<close>: reciprocal rank fusion of the search legs, the correction and
  decay channels of the scores, the cross-encoder pass with its cache, feedback demotions and
  the context budget.  The cross-encoder, the hash and the token counter are parameters.
\<close>

record rank_config =
  rrf_k :: nat
  fts_weight :: real
  semantic_weight :: real
  correction_boost :: real        \<comment> \<open>\<^verbatim>\<open>correction_salience_boost\<close>\<close>
  decay_cfg :: decay_config
  reranker_enabled :: bool
  reranker_top_k :: nat
  reranker_final_k :: nat
  context_budget :: int

definition DEFAULT_RANK_CONFIG :: rank_config where
  "DEFAULT_RANK_CONFIG = \<lparr>rrf_k = 60, fts_weight = 35 / 100, semantic_weight = 65 / 100,
     correction_boost = 1 / 4, decay_cfg = DEFAULT_DECAY_CONFIG, reranker_enabled = True,
     reranker_top_k = 20, reranker_final_k = 5, context_budget = 4096\<rparr>"

definition correction_hit :: "rank_config \<Rightarrow> hit \<Rightarrow> bool" where
  "correction_hit cfg h \<longleftrightarrow> py_lower (or_text (h_page_type h) []) \<in> correction_class_page_types (decay_cfg cfg)"

section \<open>Scores\<close>

definition unit_clamp :: "real \<Rightarrow> real" where
  "unit_clamp x = max 0 (min 1 x)"

definition effective_decay :: "rank_config \<Rightarrow> hit \<Rightarrow> real" where
  "effective_decay cfg h =
     unit_clamp (if correction_hit cfg h then max (h_decay h) (correction_floor (decay_cfg cfg)) else h_decay h)"

definition score_merged_doc :: "rank_config \<Rightarrow> hit \<Rightarrow> hit" where
  "score_merged_doc cfg h =
     (let boost = (if correction_hit cfg h then correction_boost cfg else 0); decay = effective_decay cfg h
      in h\<lparr>h_salience := boost, h_applied := Some decay,
           h_final := (case h_rrf h of None \<Rightarrow> 0 | Some x \<Rightarrow> x) * decay * (1 + boost)\<rparr>)"

definition truthy_cell :: "cell \<Rightarrow> bool" where
  "truthy_cell c = (case c of CNull \<Rightarrow> False | CBool b \<Rightarrow> b | CInt n \<Rightarrow> n \<noteq> 0 | CReal v \<Rightarrow> v \<noteq> Fin 0
     | CText s \<Rightarrow> s \<noteq> [] | CBlob bs \<Rightarrow> bs \<noteq> [])"

definition or_opt :: "string option \<Rightarrow> string option \<Rightarrow> string option" where
  "or_opt a b = (if or_text a [] = [] \<and> or_text b [] \<noteq> [] then b else a)"

section \<open>Reciprocal rank fusion\<close>

definition has_doc :: "int \<Rightarrow> hit list \<Rightarrow> bool" where
  "has_doc d acc \<longleftrightarrow> d \<in> h_doc ` set acc"

definition at_doc :: "int \<Rightarrow> (hit \<Rightarrow> hit) \<Rightarrow> hit list \<Rightarrow> hit list" where
  "at_doc d f acc = map (\<lambda>h. if h_doc h = d then f h else h) acc"

definition add_rrf :: "real \<Rightarrow> hit \<Rightarrow> hit" where
  "add_rrf x h = h\<lparr>h_rrf := Some ((case h_rrf h of None \<Rightarrow> 0 | Some y \<Rightarrow> y) + x)\<rparr>"

text \<open>The dictionary a first occurrence creates.\<close>

definition new_merged :: "hit \<Rightarrow> nat option \<Rightarrow> nat option \<Rightarrow> hit" where
  "new_merged r fr sr = r\<lparr>h_chunk := None, h_created := CNull, h_rrf := Some 0, h_fts_rank := fr, h_sem_rank := sr\<rparr>"

definition carry_metadata :: "hit \<Rightarrow> hit \<Rightarrow> hit" where
  "carry_metadata r h = h\<lparr>h_page_type := or_opt (h_page_type h) (h_page_type r),
     h_evidence := or_opt (h_evidence h) (h_evidence r),
     h_indexed := (if \<not> truthy_cell (h_indexed h) \<and> truthy_cell (h_indexed r) then h_indexed r else h_indexed h),
     h_layer := (if h_layer h = [] \<and> h_layer r \<noteq> [] then h_layer r else h_layer h)\<rparr>"

definition fts_step :: "rank_config \<Rightarrow> hit list \<Rightarrow> nat \<times> hit \<Rightarrow> hit list" where
  "fts_step cfg acc x =
     (case x of (rank, r) \<Rightarrow>
       at_doc (h_doc r) (add_rrf (fts_weight cfg / real (rrf_k cfg + rank)))
         (if has_doc (h_doc r) acc then acc else acc @ [new_merged r (Some rank) None]))"

definition prefer_passage :: "hit \<Rightarrow> hit \<Rightarrow> hit" where
  "prefer_passage r h =
     (if h_text r = [] then h else h\<lparr>h_text := h_text r, h_heading := h_heading r, h_chunk := h_chunk r\<rparr>)"

definition sem_update :: "rank_config \<Rightarrow> nat \<Rightarrow> hit \<Rightarrow> hit \<Rightarrow> hit" where
  "sem_update cfg rank r h =
     (let h1 = add_rrf (semantic_weight cfg / real (rrf_k cfg + rank)) h;
          h2 = (if h_sem_rank h1 = None then h1\<lparr>h_sem_rank := Some rank\<rparr> else h1)
      in carry_metadata r (prefer_passage r h2))"

definition sem_step :: "rank_config \<Rightarrow> hit list \<Rightarrow> nat \<times> hit \<Rightarrow> hit list" where
  "sem_step cfg acc x =
     (case x of (rank, r) \<Rightarrow>
       at_doc (h_doc r) (sem_update cfg rank r)
         (if has_doc (h_doc r) acc then acc else acc @ [new_merged r None (Some rank)]))"

definition fused :: "rank_config \<Rightarrow> hit list \<Rightarrow> hit list \<Rightarrow> hit list" where
  "fused cfg fts sem =
     foldl (sem_step cfg) (foldl (fts_step cfg) [] (List.enumerate 1 fts)) (List.enumerate 1 sem)"

definition rrf_merge :: "rank_config \<Rightarrow> hit list \<Rightarrow> hit list \<Rightarrow> nat \<Rightarrow> hit list" where
  "rrf_merge cfg fts sem limit = take limit (sort_desc h_final (map (score_merged_doc cfg) (fused cfg fts sem)))"

subsection \<open>Any number of legs\<close>

datatype stream_label = Fts | Sem | Extra

text \<open>The flag of an entry is \<^verbatim>\<open>_sem_chunk\<close>.\<close>

definition multi_update :: "rank_config \<Rightarrow> real \<Rightarrow> stream_label \<Rightarrow> nat \<Rightarrow> hit \<Rightarrow> hit \<times> bool \<Rightarrow> hit \<times> bool" where
  "multi_update cfg weight lab rank r x =
     (case x of (h, flag) \<Rightarrow>
       (let h1 = add_rrf (weight / real (rrf_k cfg + rank)) h;
            h2 = (if lab = Fts then h1\<lparr>h_fts_rank := Some rank\<rparr>
                  else if lab = Sem \<and> h_sem_rank h1 = None then h1\<lparr>h_sem_rank := Some rank\<rparr> else h1)
        in if h_text r \<noteq> [] \<and> \<not> flag
           then (carry_metadata r (h2\<lparr>h_text := h_text r, h_heading := h_heading r,
                   h_chunk := (if lab \<noteq> Fts \<and> h_chunk r \<noteq> None then h_chunk r else h_chunk h2)\<rparr>), lab \<noteq> Fts)
           else (carry_metadata r h2, flag)))"

definition multi_step ::
  "rank_config \<Rightarrow> real \<Rightarrow> stream_label \<Rightarrow> (hit \<times> bool) list \<Rightarrow> nat \<times> hit \<Rightarrow> (hit \<times> bool) list" where
  "multi_step cfg weight lab acc x =
     (case x of (rank, r) \<Rightarrow>
       map (\<lambda>y. if h_doc (fst y) = h_doc r then multi_update cfg weight lab rank r y else y)
         (if h_doc r \<in> h_doc ` fst ` set acc then acc else acc @ [(new_merged r None None, False)]))"

definition add_stream ::
  "rank_config \<Rightarrow> real \<Rightarrow> stream_label \<Rightarrow> hit list \<Rightarrow> (hit \<times> bool) list \<Rightarrow> (hit \<times> bool) list" where
  "add_stream cfg weight lab rows acc = foldl (multi_step cfg weight lab) acc (List.enumerate 1 rows)"

definition rrf_merge_multi :: "rank_config \<Rightarrow> hit list \<Rightarrow> hit list \<Rightarrow> hit list list \<Rightarrow> nat \<Rightarrow> hit list" where
  "rrf_merge_multi cfg fts sem extras limit =
     (let acc = foldl (\<lambda>acc rows. add_stream cfg (semantic_weight cfg) Extra rows acc)
                  (add_stream cfg (semantic_weight cfg) Sem sem (add_stream cfg (fts_weight cfg) Fts fts [])) extras
      in take limit (sort_desc h_final (map (score_merged_doc cfg \<circ> fst) acc)))"

section \<open>The cross-encoder pass\<close>

definition rerank_or_zero :: "hit \<Rightarrow> real" where
  "rerank_or_zero h = (case h_rerank h of None \<Rightarrow> 0 | Some x \<Rightarrow> x)"

definition boosted :: "real \<Rightarrow> real \<Rightarrow> real" where
  "boosted boost x = (if 0 < x then x * (1 + boost) else if x < 0 then x / (1 + boost) else boost)"

definition apply_correction_rerank_boost :: "rank_config \<Rightarrow> hit list \<Rightarrow> hit list" where
  "apply_correction_rerank_boost cfg hs =
     (if correction_boost cfg \<le> 0 then hs
      else map (\<lambda>h. if correction_hit cfg h
             then h\<lparr>h_rerank := Some (boosted (correction_boost cfg) (rerank_or_zero h)),
                    h_salience := correction_boost cfg\<rparr>
             else h) hs)"

definition attenuated :: "real \<Rightarrow> real \<Rightarrow> real" where
  "attenuated decay x =
     (if 0 < x then x * decay else if x < 0 then (if 0 < decay then x / decay else x * 2) else decay - 1)"

definition apply_decay_rerank_attenuation :: "rank_config \<Rightarrow> hit list \<Rightarrow> hit list" where
  "apply_decay_rerank_attenuation cfg hs =
     map (\<lambda>h. let decay = effective_decay cfg h; h1 = h\<lparr>h_applied := Some decay\<rparr>
              in if decay = 1 then h1 else h1\<lparr>h_rerank := Some (attenuated decay (rerank_or_zero h1))\<rparr>) hs"

definition apply_rerank_score_adjustments :: "rank_config \<Rightarrow> hit list \<Rightarrow> hit list" where
  "apply_rerank_score_adjustments cfg hs =
     apply_decay_rerank_attenuation cfg (apply_correction_rerank_boost cfg
       (map (\<lambda>h. h\<lparr>h_raw_rerank := Some (rerank_or_zero h)\<rparr>) hs))"

definition rerank_passage :: "hit \<Rightarrow> string" where
  "rerank_passage h =
     (if h_heading h = [] then h_text h else ''['' @ h_heading h @ ''] '' @ h_text h)"

text \<open>
  The model and corpus a score belongs to, and the hash of the cache keys.  \<open>predict\<close> scores
  pairs of query and passage; None is an exception.
\<close>

record reranker =
  rk_model :: string
  rk_version :: string
  rk_corpus :: string
  rk_sha :: "string \<Rightarrow> string"
  rk_predict :: "(string \<times> string) list \<Rightarrow> real list option"

definition rerank_key :: "reranker \<Rightarrow> string \<Rightarrow> hit \<Rightarrow> cache_key option" where
  "rerank_key rk query h =
     map_option (\<lambda>c. make_key (rk_sha rk) (rk_model rk) (rk_version rk) query c (rk_corpus rk) (rerank_passage h))
       (h_chunk h)"

fun look_up_all :: "reranker \<Rightarrow> string \<Rightarrow> hit list \<Rightarrow> rerank_cache \<Rightarrow> real option list \<times> rerank_cache" where
  "look_up_all rk query [] c = ([], c)"
| "look_up_all rk query (h # hs) c =
     (let (v, c1) = (case rerank_key rk query h of None \<Rightarrow> (None, c) | Some k \<Rightarrow> cache_get k c);
          (vs, c2) = look_up_all rk query hs c1
      in (v # vs, c2))"

definition missing_pairs :: "string \<Rightarrow> hit list \<Rightarrow> real option list \<Rightarrow> (string \<times> string) list" where
  "missing_pairs query hs cached =
     map (\<lambda>(h, v). (query, rerank_passage h)) (filter (\<lambda>(h, v). v = None) (zip hs cached))"

text \<open>Filling the missing scores in order, and storing them; surplus candidates keep none.\<close>

fun fill_scores ::
  "reranker \<Rightarrow> string \<Rightarrow> nat \<Rightarrow> hit list \<Rightarrow> real option list \<Rightarrow> real list \<Rightarrow> rerank_cache
    \<Rightarrow> real option list \<times> rerank_cache" where
  "fill_scores rk query gen (h # hs) (Some v # vs) new c =
     (let (rest, c') = fill_scores rk query gen hs vs new c in (Some v # rest, c'))"
| "fill_scores rk query gen (h # hs) (None # vs) (s # new) c =
     (let c1 = (case rerank_key rk query h of None \<Rightarrow> c | Some k \<Rightarrow> cache_set k s (Some gen) c);
          (rest, c') = fill_scores rk query gen hs vs new c1
      in (Some s # rest, c'))"
| "fill_scores rk query gen (h # hs) (None # vs) [] c =
     (let (rest, c') = fill_scores rk query gen hs vs [] c in (None # rest, c'))"
| "fill_scores rk query gen _ _ _ c = ([], c)"

definition with_scores :: "rank_config \<Rightarrow> hit list \<Rightarrow> real option list \<Rightarrow> hit list" where
  "with_scores cfg hs vs =
     sort_desc rerank_or_zero (apply_rerank_score_adjustments cfg
       (map2 (\<lambda>h v. h\<lparr>h_rerank := Some (case v of None \<Rightarrow> 0 | Some x \<Rightarrow> x)\<rparr>) hs vs))"

datatype rerank_outcome = Reranked | SkippedLate | Failed

text \<open>\<open>late\<close>: the deadline leaves no time for a prediction.\<close>

definition rerank ::
  "rank_config \<Rightarrow> reranker \<Rightarrow> string \<Rightarrow> bool \<Rightarrow> hit list \<Rightarrow> rerank_cache
    \<Rightarrow> hit list \<times> rerank_outcome \<times> rerank_cache" where
  "rerank cfg rk query late hs c =
     (if hs = [] then (hs, Reranked, c)
      else let (cached, c1) = look_up_all rk query hs c; gen = generation c; pairs = missing_pairs query hs cached
           in if pairs = [] then (with_scores cfg hs cached, Reranked, c1)
              else if late then (hs, SkippedLate, c1)
              else (case rk_predict rk pairs of
                      None \<Rightarrow> (hs, Failed, c1)
                    | Some new \<Rightarrow>
                        (let (vs, c2) = fill_scores rk query gen hs cached new c1
                         in (with_scores cfg hs vs, Reranked, c2))))"

end
