(* ===== verification/Fusion_Laws.thy ===== *)
theory Fusion_Laws
  imports Fusion "HOL-Library.Multiset"
begin

text \<open>
  What the fusion computes: every document once, its reciprocal rank score the sum over its
  places in the legs, the best first; the two merges agree; corrections only move up and
  stale documents only down; and the rerank cache never changes a ranking.
\<close>

section \<open>Descending sorts\<close>

lemma sort_desc_set [simp]: "set (sort_desc f xs) = set xs"
  by (simp add: sort_desc_def)

lemma sort_desc_length [simp]: "length (sort_desc f xs) = length xs"
  by (simp add: sort_desc_def)

lemma sort_desc_mset: "mset (sort_desc f xs) = mset xs"
  by (simp add: sort_desc_def)

lemma sort_desc_sorted: "sorted_wrt (\<lambda>x y. f y \<le> f x) (sort_desc f xs)"
  using sorted_sort_key [of "\<lambda>x. - f x" xs]
  by (simp add: sort_desc_def sorted_wrt_map)

lemma sorted_wrt_take: "sorted_wrt P xs \<Longrightarrow> sorted_wrt P (take n xs)"
  by (metis append_take_drop_id sorted_wrt_append)

lemma sort_desc_rest:
  assumes "x \<in> set (take n (sort_desc f xs))" and "y \<in> set (drop n (sort_desc f xs))"
  shows "f y \<le> f x"
  using sort_desc_sorted [of f xs] assms
  by (metis append_take_drop_id sorted_wrt_append)

lemma sort_desc_distinct: "distinct (map g xs) \<Longrightarrow> distinct (map g (sort_desc f xs))"
  by (metis mset_eq_imp_distinct_iff mset_map sort_desc_mset)

section \<open>The score of a document is the sum over its places\<close>

definition stream_score :: "real \<Rightarrow> nat \<Rightarrow> int \<Rightarrow> hit list \<Rightarrow> real" where
  "stream_score w k d rows =
     sum_list (map (\<lambda>(i, r). if h_doc r = d then w / real (k + i) else 0) (List.enumerate 1 rows))"

definition scores_ok :: "hit list \<Rightarrow> (int \<Rightarrow> real) \<Rightarrow> int set \<Rightarrow> bool" where
  "scores_ok acc f docs \<longleftrightarrow> distinct (map h_doc acc) \<and> h_doc ` set acc = docs
     \<and> (\<forall>h \<in> set acc. h_rrf h = Some (f (h_doc h))) \<and> (\<forall>d. d \<notin> docs \<longrightarrow> f d = 0)"

lemma scores_step:
  assumes "scores_ok acc f docs"
    and g: "\<And>h. h_doc (g h) = h_doc h" "\<And>h y. h_rrf h = Some y \<Longrightarrow> h_rrf (g h) = Some (y + x)"
    and n: "h_doc n = d" "h_rrf n = Some 0"
  shows "scores_ok (at_doc d g (if has_doc d acc then acc else acc @ [n])) (f(d := f d + x)) (insert d docs)"
proof -
  define acc' where "acc' = (if has_doc d acc then acc else acc @ [n])"
  have a: "distinct (map h_doc acc')" "h_doc ` set acc' = insert d docs"
    "\<forall>h \<in> set acc'. h_rrf h = Some (f (h_doc h))" "\<forall>d. d \<notin> docs \<longrightarrow> f d = 0"
    using assms(1) n by (auto simp: acc'_def scores_ok_def has_doc_def)
  have m: "map h_doc (at_doc d g acc') = map h_doc acc'"
    by (simp add: at_doc_def g(1))
  have "h_doc ` set (at_doc d g acc') = insert d docs" using m a(2) by (metis set_map)
  moreover have "\<forall>h \<in> set (at_doc d g acc'). h_rrf h = Some ((f(d := f d + x)) (h_doc h))"
    using a(3) g by (auto simp: at_doc_def)
  ultimately show ?thesis using a(1,4) m unfolding acc'_def [symmetric] scores_ok_def by auto
qed

lemma scores_fold:
  assumes step: "\<And>acc f docs i r. scores_ok acc f docs \<Longrightarrow>
      scores_ok (st acc (i, r)) (f(h_doc r := f (h_doc r) + w / real (k + i))) (insert (h_doc r) docs)"
  shows "scores_ok acc f docs \<Longrightarrow> scores_ok (foldl st acc xs)
     (\<lambda>d. f d + sum_list (map (\<lambda>(i, r). if h_doc r = d then w / real (k + i) else 0) xs))
     (docs \<union> h_doc ` snd ` set xs)"
proof (induction xs arbitrary: acc f docs)
  case (Cons x xs)
  obtain i r where x: "x = (i, r)" by (cases x)
  note ih = Cons.IH [OF step [OF Cons.prems]]
  have "(\<lambda>d. (f(h_doc r := f (h_doc r) + w / real (k + i))) d
       + sum_list (map (\<lambda>(i, r). if h_doc r = d then w / real (k + i) else 0) xs))
     = (\<lambda>d. f d + sum_list (map (\<lambda>(i, r). if h_doc r = d then w / real (k + i) else 0) (x # xs)))"
    by (rule ext) (simp add: x)
  moreover have "insert (h_doc r) docs \<union> h_doc ` snd ` set xs = docs \<union> h_doc ` snd ` set (x # xs)"
    by (auto simp: x)
  ultimately show ?case using ih [of i r] by (simp only: x foldl_Cons)
qed simp

lemma fts_step_scores:
  assumes "scores_ok acc f docs"
  shows "scores_ok (fts_step cfg acc (i, r))
    (f(h_doc r := f (h_doc r) + fts_weight cfg / real (rrf_k cfg + i))) (insert (h_doc r) docs)"
  unfolding fts_step_def prod.case
  by (rule scores_step [OF assms]) (simp_all add: add_rrf_def new_merged_def)

lemma sem_step_scores:
  assumes "scores_ok acc f docs"
  shows "scores_ok (sem_step cfg acc (i, r))
    (f(h_doc r := f (h_doc r) + semantic_weight cfg / real (rrf_k cfg + i))) (insert (h_doc r) docs)"
  unfolding sem_step_def prod.case
  by (rule scores_step [OF assms])
    (simp_all add: add_rrf_def new_merged_def sem_update_def Let_def carry_metadata_def prefer_passage_def)

definition rrf_score :: "rank_config \<Rightarrow> hit list \<Rightarrow> hit list \<Rightarrow> int \<Rightarrow> real" where
  "rrf_score cfg fts sem d =
     stream_score (fts_weight cfg) (rrf_k cfg) d fts + stream_score (semantic_weight cfg) (rrf_k cfg) d sem"

lemma enumerate_snd: "snd ` set (List.enumerate n xs) = set xs"
  by (metis list.set_map map_snd_enumerate)

lemma fused_scores: "scores_ok (fused cfg fts sem) (rrf_score cfg fts sem) (h_doc ` set (fts @ sem))"
proof -
  have "scores_ok [] (\<lambda>_. 0) {}" by (simp add: scores_ok_def)
  note fts_ok = scores_fold [where st = "fts_step cfg" and xs = "List.enumerate 1 fts", OF fts_step_scores this]
  note scores_fold [where st = "sem_step cfg" and xs = "List.enumerate 1 sem", OF sem_step_scores fts_ok]
  then show ?thesis
    by (simp add: fused_def rrf_score_def [abs_def] stream_score_def enumerate_snd image_Un)
qed

lemma score_merged_simps [simp]:
  "h_doc (score_merged_doc cfg h) = h_doc h" "h_rrf (score_merged_doc cfg h) = h_rrf h"
  by (simp_all add: score_merged_doc_def Let_def)

definition salience :: "rank_config \<Rightarrow> hit \<Rightarrow> real" where
  "salience cfg h = (if correction_hit cfg h then correction_boost cfg else 0)"

lemma score_merged_final:
  "h_final (score_merged_doc cfg h) = (case h_rrf h of None \<Rightarrow> 0 | Some x \<Rightarrow> x)
     * effective_decay cfg (score_merged_doc cfg h) * (1 + salience cfg (score_merged_doc cfg h))"
  by (simp add: score_merged_doc_def Let_def effective_decay_def correction_hit_def salience_def)

text \<open>
  C25. The fusion of two legs is the beginning, as long as the limit allows, of a list of all
  documents of either leg, each once, in falling order of the final score, which is the
  weighted reciprocal-rank sum over the document's places in both legs times the effective
  decay times one plus the salience; so no document left out scores more than one returned.
\<close>

theorem rrf_merge_exact:
  "let merged = rrf_merge cfg fts sem limit; docs = h_doc ` set (fts @ sem)
   in length merged = min limit (card docs)
    \<and> (\<exists>rest. merged @ rest = rrf_merge cfg fts sem (card docs)
        \<and> distinct (map h_doc (merged @ rest)) \<and> h_doc ` set (merged @ rest) = docs
        \<and> sorted_wrt (\<lambda>x y. h_final y \<le> h_final x) (merged @ rest)
        \<and> list_all (\<lambda>h. h_rrf h = Some (rrf_score cfg fts sem (h_doc h))
            \<and> h_final h = rrf_score cfg fts sem (h_doc h) * effective_decay cfg h * (1 + salience cfg h)) (merged @ rest))"
proof -
  let ?all = "map (score_merged_doc cfg) (fused cfg fts sem)" and ?docs = "h_doc ` set (fts @ sem)"
  let ?sorted = "sort_desc h_final ?all"
  have ok: "distinct (map h_doc (fused cfg fts sem))" "h_doc ` set (fused cfg fts sem) = ?docs"
    "\<forall>h \<in> set (fused cfg fts sem). h_rrf h = Some (rrf_score cfg fts sem (h_doc h))"
    using fused_scores [of cfg fts sem] by (simp_all add: scores_ok_def)
  have d: "distinct (map h_doc ?sorted)" using ok(1) by (intro sort_desc_distinct) (simp add: comp_def)
  have len: "length ?sorted = card ?docs" using ok(1,2) by (metis distinct_card length_map set_map sort_desc_length)
  have docs: "h_doc ` set ?sorted = ?docs" using ok(2) by (simp add: image_image)
  have each: "list_all (\<lambda>h. h_rrf h = Some (rrf_score cfg fts sem (h_doc h))
      \<and> h_final h = rrf_score cfg fts sem (h_doc h) * effective_decay cfg h * (1 + salience cfg h)) ?sorted"
    using ok(3) score_merged_final [of cfg] by (auto simp: list_all_iff)
  have all: "rrf_merge cfg fts sem (card ?docs) = ?sorted"
    unfolding rrf_merge_def by (rule take_all) (simp add: len del: sort_desc_length)
  have "rrf_merge cfg fts sem limit @ drop limit ?sorted = ?sorted" by (simp add: rrf_merge_def)
  moreover have "length (rrf_merge cfg fts sem limit) = min limit (card ?docs)"
    unfolding rrf_merge_def length_take len by (rule min.commute)
  ultimately have "length (rrf_merge cfg fts sem limit) = min limit (card ?docs)"
    and r: "rrf_merge cfg fts sem limit @ drop limit ?sorted = ?sorted" by blast+
  then show ?thesis
    unfolding Let_def
    by (intro conjI exI [of _ "drop limit ?sorted"]; (unfold r)?)
      (simp_all only: all d docs each sort_desc_sorted)
qed

section \<open>The two merges agree\<close>

lemma carry_frame [simp]: "h_doc (carry_metadata r h) = h_doc h" "h_chunk (carry_metadata r h) = h_chunk h"
  by (simp_all add: carry_metadata_def)

lemma new_lexical: "fst (multi_update cfg (fts_weight cfg) Fts i r (new_merged r None None, False))
    = add_rrf (fts_weight cfg / real (rrf_k cfg + i)) (new_merged r (Some i) None)"
  "snd (multi_update cfg (fts_weight cfg) Fts i r (new_merged r None None, False)) = False"
  by (simp_all add: multi_update_def Let_def new_merged_def add_rrf_def carry_metadata_def or_opt_def)

lemma lexical_pairs:
  assumes "distinct (map (h_doc \<circ> snd) xs)" and "h_doc ` snd ` set xs \<inter> h_doc ` set acc = {}"
    and "map fst accm = acc" and "\<forall>(h, flag) \<in> set accm. \<not> flag \<and> h_chunk h = None"
  shows "map fst (foldl (multi_step cfg (fts_weight cfg) Fts) accm xs) = foldl (fts_step cfg) acc xs
    \<and> (\<forall>(h, flag) \<in> set (foldl (multi_step cfg (fts_weight cfg) Fts) accm xs). \<not> flag \<and> h_chunk h = None)"
  using assms
proof (induction xs arbitrary: acc accm)
  case (Cons x xs)
  obtain i r where x: "x = (i, r)" by (cases x)
  have fresh: "h_doc r \<notin> h_doc ` set acc" using Cons.prems(2) by (auto simp: x)
  have docs: "h_doc ` fst ` set accm = h_doc ` set acc"
    unfolding Cons.prems(3) [symmetric] by simp
  let ?new = "multi_update cfg (fts_weight cfg) Fts i r (new_merged r None None, False)"
  have keep: "map (\<lambda>y. if h_doc (fst y) = h_doc r then multi_update cfg (fts_weight cfg) Fts i r y else y) accm = accm"
    using fresh unfolding docs [symmetric] by (intro map_idI) (metis image_eqI)
  have m: "multi_step cfg (fts_weight cfg) Fts accm x = accm @ [?new]"
    using fresh docs keep by (simp add: multi_step_def x new_merged_def)
  have keep1: "at_doc (h_doc r) f acc = acc" for f
    unfolding at_doc_def using fresh by (intro map_idI) (metis image_eqI)
  have s: "fts_step cfg acc x = acc @ [fst ?new]"
    using fresh keep1 unfolding new_lexical
    by (simp add: fts_step_def x has_doc_def) (simp add: at_doc_def new_merged_def)
  have n: "h_doc (fst ?new) = h_doc r" "\<not> snd ?new" "h_chunk (fst ?new) = None"
    unfolding new_lexical by (simp_all add: add_rrf_def new_merged_def)
  show ?case
    unfolding foldl_Cons m s
    by (rule Cons.IH) (use Cons.prems n in \<open>auto simp: x case_prod_beta\<close>)
qed simp

lemma vector_update:
  assumes "\<not> flag" "h_chunk h = None"
  shows "fst (multi_update cfg (semantic_weight cfg) Sem i r (h, flag)) = sem_update cfg i r h"
  using assms
  by (cases h; cases r) (auto simp: multi_update_def sem_update_def Let_def prefer_passage_def add_rrf_def)

lemma new_vector: "fst (multi_update cfg (semantic_weight cfg) Sem i r (new_merged r None None, False))
    = sem_update cfg i r (new_merged r None (Some i))"
  by (cases r) (auto simp: multi_update_def sem_update_def Let_def prefer_passage_def add_rrf_def new_merged_def)

lemma multi_update_doc: "h_doc (fst (multi_update cfg w lab i r y)) = h_doc (fst y)"
  by (cases y) (simp add: multi_update_def Let_def add_rrf_def)

lemma sem_update_doc: "h_doc (sem_update cfg i r h) = h_doc h"
  by (simp add: sem_update_def Let_def prefer_passage_def add_rrf_def)

lemma vector_pairs:
  assumes "distinct (map (h_doc \<circ> snd) xs)" and "map fst accm = acc"
    and "\<forall>(h, flag) \<in> set accm. h_doc h \<in> h_doc ` snd ` set xs \<longrightarrow> \<not> flag \<and> h_chunk h = None"
  shows "map fst (foldl (multi_step cfg (semantic_weight cfg) Sem) accm xs) = foldl (sem_step cfg) acc xs"
  using assms
proof (induction xs arbitrary: acc accm)
  case (Cons x xs)
  obtain i r where x: "x = (i, r)" by (cases x)
  have docs: "h_doc ` fst ` set accm = h_doc ` set acc"
    unfolding Cons.prems(2) [symmetric] by simp
  define upd where "upd = (\<lambda>y :: hit \<times> bool. if h_doc (fst y) = h_doc r then multi_update cfg (semantic_weight cfg) Sem i r y else y)"
  define old where "old = map upd accm"
  have o: "map fst old = at_doc (h_doc r) (sem_update cfg i r) acc"
    using Cons.prems(2,3) vector_update
    by (auto simp: old_def upd_def at_doc_def x comp_def Cons.prems(2) [symmetric])
  define new where "new = (if h_doc r \<in> h_doc ` set acc then []
      else [multi_update cfg (semantic_weight cfg) Sem i r (new_merged r None None, False)])"
  have m: "multi_step cfg (semantic_weight cfg) Sem accm x = old @ new"
    using docs by (simp add: multi_step_def x old_def upd_def new_def new_merged_def)
  have s: "sem_step cfg acc x = map fst (old @ new)"
    by (simp add: sem_step_def x has_doc_def new_def o new_vector) (simp add: at_doc_def new_merged_def)
  have inv: "\<forall>(h, flag) \<in> set (old @ new). h_doc h \<in> h_doc ` snd ` set xs \<longrightarrow> \<not> flag \<and> h_chunk h = None"
  proof (intro ballI, clarify)
    fix h flag d y
    assume y: "(h, flag) \<in> set (old @ new)" and later: "h_doc h = h_doc (snd y)" "y \<in> set xs"
    have "h_doc (snd y) \<in> (\<lambda>z. h_doc (snd z)) ` set xs" using later(2) by (rule imageI)
    moreover have "h_doc r \<notin> (\<lambda>z. h_doc (snd z)) ` set xs" using Cons.prems(1) by (simp add: x comp_def)
    ultimately have ne: "h_doc h \<noteq> h_doc r" using later(1) by metis
    then have "(h, flag) \<in> set accm"
      using y multi_update_doc by (auto simp: old_def upd_def new_def new_merged_def split: if_split_asm dest: arg_cong [of _ _ fst])
    then show "\<not> flag \<and> h_chunk h = None" using Cons.prems(3) later by (auto simp: x)
  qed
  show ?case
    unfolding foldl_Cons m s by (rule Cons.IH [OF _ refl inv]) (use Cons.prems(1) in simp)
qed simp

lemma enumerate_docs: "map (h_doc \<circ> snd) (List.enumerate n rows) = map h_doc rows"
  by (metis map_map map_snd_enumerate)

text \<open>
  C26. On the default backend alone, the fusion of several backends and the two-leg fusion
  compute the same ranking when no leg has a document twice.
\<close>

theorem merges_agree:
  assumes "distinct (map h_doc fts)" and "distinct (map h_doc sem)"
  shows "rrf_merge_multi cfg fts sem [] limit = rrf_merge cfg fts sem limit"
proof -
  note lex = lexical_pairs [of "List.enumerate 1 fts" "[]" "[]" cfg]
  have "map fst (add_stream cfg (semantic_weight cfg) Sem sem (add_stream cfg (fts_weight cfg) Fts fts []))
      = fused cfg fts sem"
    unfolding add_stream_def fused_def
    using lex assms by (intro vector_pairs) (auto simp: enumerate_docs)
  then show ?thesis
    by (simp add: rrf_merge_multi_def rrf_merge_def flip: map_map)
qed

section \<open>The score adjustments of the cross-encoder pass\<close>

text \<open>A correction never sinks and decay never lifts.\<close>

lemma boosted_ge: "0 < b \<Longrightarrow> x \<le> boosted b x"
  by (auto simp: boosted_def field_simps mult_nonneg_nonpos)

lemma attenuated_le: "0 \<le> d \<Longrightarrow> d \<le> 1 \<Longrightarrow> attenuated d x \<le> x"
  by (auto simp: attenuated_def field_simps mult_le_cancel_left1 mult_le_cancel_left2)

lemma effective_decay_bounds: "0 \<le> effective_decay cfg h \<and> effective_decay cfg h \<le> 1"
  by (simp add: effective_decay_def unit_clamp_def)

definition adjusted_score :: "rank_config \<Rightarrow> hit \<Rightarrow> real" where
  "adjusted_score cfg h =
     (let x = rerank_or_zero h;
          y = (if correction_hit cfg h \<and> 0 < correction_boost cfg then boosted (correction_boost cfg) x else x);
          d = effective_decay cfg h
      in if d = 1 then y else attenuated d y)"

lemma adjustments_score:
  assumes "h_rerank h = Some x"
  shows "map rerank_or_zero (apply_rerank_score_adjustments cfg [h]) = [adjusted_score cfg h]"
    and "map h_raw_rerank (apply_rerank_score_adjustments cfg [h]) = [Some x]"
  using assms
  by (auto simp: apply_rerank_score_adjustments_def apply_decay_rerank_attenuation_def
      apply_correction_rerank_boost_def adjusted_score_def rerank_or_zero_def Let_def
      effective_decay_def correction_hit_def)

lemma adjustments_map: "apply_rerank_score_adjustments cfg hs = concat (map (\<lambda>h. apply_rerank_score_adjustments cfg [h]) hs)"
  by (induction hs) (simp_all add: apply_rerank_score_adjustments_def apply_decay_rerank_attenuation_def
      apply_correction_rerank_boost_def)

text \<open>Ordinary documents only move down, corrections at full decay only up, and zero-scored
  corrections stay above zero-scored ordinary documents.\<close>

theorem adjustments_directed:
  assumes "0 < correction_boost cfg"
  shows "(if correction_hit cfg h
      then effective_decay cfg h = 1 \<longrightarrow> rerank_or_zero h \<le> adjusted_score cfg h
      else adjusted_score cfg h \<le> rerank_or_zero h)
    \<and> (correction_hit cfg h \<and> rerank_or_zero h = 0 \<longrightarrow> 0 \<le> adjusted_score cfg h)"
  using assms boosted_ge attenuated_le effective_decay_bounds [of cfg h]
  by (auto simp: adjusted_score_def Let_def boosted_def attenuated_def)

text \<open>
  But the adjustments are not monotone around 0: of two corrections the one with the lower
  model score comes out on top, and so does, of two equally decayed documents, a lower one.
\<close>

definition plain_hit :: "int \<Rightarrow> string option \<Rightarrow> real \<Rightarrow> hit" where
  "plain_hit n ptype decay = hit_of_row \<lparr>r_doc = n, r_chunk = None, r_path = [], r_agent = [], r_sigil = [],
     r_decay = Some decay, r_status = None, r_privacy = None, r_page_type = ptype, r_evidence = None,
     r_indexed = CNull, r_layer = None, r_text = None, r_heading = None\<rparr> []"

lemma plain_hit_simps [simp]:
  "h_doc (plain_hit n p d) = n" "h_page_type (plain_hit n p d) = p" "h_rerank (plain_hit n p d) = None"
  "d \<noteq> 0 \<Longrightarrow> h_decay (plain_hit n p d) = d"
  by (simp_all add: plain_hit_def hit_of_row_def or_one_def)

lemma default_types:
  "correction_class_page_types (decay_cfg DEFAULT_RANK_CONFIG) = {''correction'', ''contradiction'', ''decision'', ''fix''}"
  by (simp add: DEFAULT_RANK_CONFIG_def correction_class_page_types_def DEFAULT_DECAY_CONFIG_def py_lower_def
      lower_char_def code_point_def)

lemma fix_is_correction: "h_page_type h = Some ''fix'' \<Longrightarrow> correction_hit DEFAULT_RANK_CONFIG h"
  unfolding correction_hit_def default_types by (simp add: or_text_def py_lower_def lower_char_def code_point_def)

lemma untyped_is_not: "h_page_type h = None \<Longrightarrow> \<not> correction_hit DEFAULT_RANK_CONFIG h"
  unfolding correction_hit_def default_types by (simp add: or_text_def py_lower_def)

lemma default_boost: "correction_boost DEFAULT_RANK_CONFIG = 1 / 4"
  by (simp add: DEFAULT_RANK_CONFIG_def)

lemma default_decays:
  "h_page_type h = Some ''fix'' \<Longrightarrow> h_decay h = 1 \<Longrightarrow> effective_decay DEFAULT_RANK_CONFIG h = 1"
  "h_page_type h = None \<Longrightarrow> h_decay h = 1 / 2 \<Longrightarrow> effective_decay DEFAULT_RANK_CONFIG h = 1 / 2"
  by (simp_all add: effective_decay_def fix_is_correction untyped_is_not unit_clamp_def)

lemma sort_desc_swap: "f x < f y \<Longrightarrow> sort_desc f [x, y] = [y, x]"
  by (simp add: sort_desc_def)

theorem zero_score_inverts_order:
  "map h_doc (with_scores DEFAULT_RANK_CONFIG [plain_hit 1 (Some ''fix'') 1, plain_hit 2 (Some ''fix'') 1]
       [Some (1 / 10), Some 0]) = [2, 1]
   \<and> map h_doc (with_scores DEFAULT_RANK_CONFIG [plain_hit 1 None (1 / 2), plain_hit 2 None (1 / 2)]
       [Some 0, Some (- 1 / 10)]) = [2, 1]"
proof -
  note defs = with_scores_def apply_rerank_score_adjustments_def apply_decay_rerank_attenuation_def
    apply_correction_rerank_boost_def default_boost Let_def
  have corr: "correction_hit DEFAULT_RANK_CONFIG (plain_hit n (Some ''fix'') 1 \<lparr>h_rerank := a, h_raw_rerank := b\<rparr>)" for n a b
    by (rule fix_is_correction) simp
  have "map h_doc (with_scores DEFAULT_RANK_CONFIG [plain_hit 1 (Some ''fix'') 1, plain_hit 2 (Some ''fix'') 1]
       [Some (1 / 10), Some 0]) = [2, 1]"
    by (simp add: defs corr default_decays, subst sort_desc_swap) (simp_all add: rerank_or_zero_def boosted_def)
  moreover have "map h_doc (with_scores DEFAULT_RANK_CONFIG [plain_hit 1 None (1 / 2), plain_hit 2 None (1 / 2)]
       [Some 0, Some (- 1 / 10)]) = [2, 1]"
    by (simp add: defs untyped_is_not default_decays, subst sort_desc_swap)
      (simp_all add: rerank_or_zero_def attenuated_def)
  ultimately show ?thesis by blast
qed

section \<open>The rerank cache never changes a ranking\<close>

text \<open>A model that scores each pair on its own.\<close>

definition pointwise :: "reranker \<Rightarrow> (string \<Rightarrow> string \<Rightarrow> real) \<Rightarrow> bool" where
  "pointwise rk score \<longleftrightarrow> (\<forall>pairs. rk_predict rk pairs = Some (map (\<lambda>(q, p). score q p) pairs))"

text \<open>
  For the texts that have met the cache, what it holds for the model and corpus is what the model
  says.
\<close>

definition coherent :: "reranker \<Rightarrow> (string \<Rightarrow> string \<Rightarrow> real) \<Rightarrow> string set \<Rightarrow> rerank_cache \<Rightarrow> bool" where
  "coherent rk score T c \<longleftrightarrow> cache_wf c \<and> (\<forall>q \<in> T. \<forall>p \<in> T. \<forall>n v.
     cache_look c (make_key (rk_sha rk) (rk_model rk) (rk_version rk) q n (rk_corpus rk) p) = Some v \<longrightarrow> v = score q p)"

lemma coherent_touch: "coherent rk score T c \<Longrightarrow> coherent rk score T (snd (cache_get k c))"
  using rc.look_touch rc.good_touch by (simp add: coherent_def cache_touch_def)

lemma coherent_put:
  assumes "coherent rk score T c" and "inj_on (rk_sha rk) T" and "q \<in> T" and "p \<in> T"
    and k: "k = make_key (rk_sha rk) (rk_model rk) (rk_version rk) q n (rk_corpus rk) p"
  shows "coherent rk score T (cache_put k (score q p) c)"
  unfolding coherent_def
proof (intro conjI ballI allI impI)
  show "cache_wf (cache_put k (score q p) c)" using assms(1) rc.good_put by (simp add: coherent_def)
  fix q' p' n' v
  let ?k = "make_key (rk_sha rk) (rk_model rk) (rk_version rk) q' n' (rk_corpus rk) p'"
  assume T: "q' \<in> T" "p' \<in> T" and v: "cache_look (cache_put k (score q p) c) ?k = Some v"
  have wf: "cache_wf c" using assms(1) by (simp add: coherent_def)
  show "v = score q' p'"
  proof (cases "?k = k")
    case True
    then have "q' = q" "p' = p" using assms(2-4) T by (auto simp: k make_key_def dest: inj_onD)
    then show ?thesis using v rc.look_put_same [OF wf] True by simp
  next
    case False
    then have "cache_look c ?k = Some v" using v rc.look_put_other [OF wf False, of "score q p"] by auto
    then show ?thesis using assms(1) T by (simp add: coherent_def)
  qed
qed

definition model_score :: "(string \<Rightarrow> string \<Rightarrow> real) \<Rightarrow> string \<Rightarrow> hit \<Rightarrow> real" where
  "model_score score query h = score query (rerank_passage h)"

definition texts_of :: "string \<Rightarrow> hit list \<Rightarrow> string set" where
  "texts_of query hs = insert query (rerank_passage ` set hs)"

lemma texts_of_Cons [simp]:
  "texts_of query (h # hs) \<subseteq> T \<longleftrightarrow> query \<in> T \<and> rerank_passage h \<in> T \<and> texts_of query hs \<subseteq> T"
  by (auto simp: texts_of_def)

lemma look_up_ok:
  assumes "coherent rk score T c" and "texts_of query hs \<subseteq> T" and "look_up_all rk query hs c = (vs, c')"
  shows "list_all2 (\<lambda>h v. v = None \<or> v = Some (model_score score query h)) hs vs
    \<and> coherent rk score T c' \<and> generation c' = generation c"
  using assms
proof (induction hs arbitrary: c vs)
  case (Cons h hs)
  obtain v c1 where v: "(case rerank_key rk query h of None \<Rightarrow> (None, c) | Some k \<Rightarrow> cache_get k c) = (v, c1)"
    by fastforce
  obtain ws where ws: "look_up_all rk query hs c1 = (ws, c')" and vs: "vs = v # ws"
    using Cons.prems(3) v by (auto simp: Let_def split: prod.split_asm)
  have "v = None \<or> v = Some (model_score score query h)"
  proof (cases "rerank_key rk query h")
    case (Some k)
    then have "v = cache_look c k" using v by (simp add: cache_look_def)
    moreover obtain n where "k = make_key (rk_sha rk) (rk_model rk) (rk_version rk) query n (rk_corpus rk) (rerank_passage h)"
      using Some by (auto simp: rerank_key_def)
    ultimately have "x = model_score score query h" if "v = Some x" for x
      using Cons.prems(1,2) that unfolding coherent_def model_score_def texts_of_Cons by metis
    then show ?thesis by (cases v) auto
  qed (use v in simp)
  moreover have "coherent rk score T c1 \<and> generation c1 = generation c"
  proof (cases "rerank_key rk query h")
    case (Some k)
    then have "c1 = snd (cache_get k c)" using v by simp
    then show ?thesis using coherent_touch [OF Cons.prems(1)] by (simp add: cache_get_def split: option.split)
  qed (use v Cons.prems(1) in simp)
  ultimately show ?case using Cons.IH [OF _ _ ws] Cons.prems(2) vs by simp
qed simp

lemma fill_ok:
  assumes "coherent rk score T c" and "inj_on (rk_sha rk) T" and "generation c = gen"
    and "texts_of query hs \<subseteq> T"
    and "list_all2 (\<lambda>h v. v = None \<or> v = Some (model_score score query h)) hs vs"
    and "fill_scores rk query gen hs vs (map (\<lambda>(q, p). score q p) (missing_pairs query hs vs)) c = (ws, c')"
  shows "ws = map (Some \<circ> model_score score query) hs \<and> coherent rk score T c'"
  using assms(5,1,3,4,6)
proof (induction hs vs arbitrary: c ws rule: list_all2_induct)
  case Nil
  then show ?case by simp
next
  case (Cons h hs v vs)
  show ?case
  proof (cases v)
    case (Some x)
    obtain rest where r: "fill_scores rk query gen hs vs (map (\<lambda>(q, p). score q p) (missing_pairs query hs vs)) c = (rest, c')"
      and ws: "ws = Some x # rest"
      using Cons.prems(4) Some by (auto simp: missing_pairs_def split: prod.split_asm)
    show ?thesis using Cons.IH [OF Cons.prems(1,2) _ r] Cons.prems(3) Cons.hyps(1) Some ws by simp
  next
    case None
    define s where "s = model_score score query h"
    define c1 where "c1 = (case rerank_key rk query h of None \<Rightarrow> c | Some k \<Rightarrow> cache_set k s (Some gen) c)"
    obtain rest where r: "fill_scores rk query gen hs vs (map (\<lambda>(q, p). score q p) (missing_pairs query hs vs)) c1 = (rest, c')"
      and ws: "ws = Some s # rest"
      using Cons.prems(4) None unfolding s_def c1_def model_score_def
      by (cases "fill_scores rk query gen hs vs (map (\<lambda>(q, p). score q p) (missing_pairs query hs vs))
          (case rerank_key rk query h of None \<Rightarrow> c
           | Some k \<Rightarrow> cache_set k (score query (rerank_passage h)) (Some gen) c)")
        (simp add: missing_pairs_def Let_def)
    have "coherent rk score T c1 \<and> generation c1 = gen"
    proof (cases "rerank_key rk query h")
      case (Some k)
      then obtain n where k: "k = make_key (rk_sha rk) (rk_model rk) (rk_version rk) query n (rk_corpus rk) (rerank_passage h)"
        by (auto simp: rerank_key_def)
      have "c1 = cache_put k (score query (rerank_passage h)) c"
        using Some Cons.prems(2) by (simp add: c1_def cache_put_def cache_set_def s_def model_score_def)
      then show ?thesis using coherent_put [OF Cons.prems(1) assms(2) _ _ k] Cons.prems(2,3)
        by (simp add: cache_put_def cache_set_def)
    qed (use Cons.prems(1,2) in \<open>simp add: c1_def\<close>)
    then show ?thesis using Cons.IH [OF _ _ _ r] Cons.prems(3) ws by (simp add: s_def)
  qed
qed

text \<open>
  C27. For a reranker that scores each pair on its own and never fails, with time left, and a
  hash without collision among the query, the passages and the texts that have met the cache,
  reranking with a cache that holds only the model's scores for these texts ranks by the
  model's scores, exactly as with any other such cache, an empty one included, whatever part
  of the scores was cached, and leaves such a cache.
\<close>

theorem rerank_cache_transparent:
  assumes "pointwise rk score" and "inj_on (rk_sha rk) T" and "texts_of query hs \<subseteq> T"
    and "coherent rk score T c" and "coherent rk score T d"
    and "rerank cfg rk query False hs c = (ranked, out, c')"
  shows "ranked = with_scores cfg hs (map (\<lambda>h. Some (score query (rerank_passage h))) hs)
    \<and> fst (rerank cfg rk query False hs d) = ranked \<and> out = Reranked \<and> coherent rk score T c'"
proof -
  have all: "fst (rerank cfg rk query False hs e) = with_scores cfg hs (map (Some \<circ> model_score score query) hs)
      \<and> fst (snd (rerank cfg rk query False hs e)) = Reranked \<and> coherent rk score T (snd (snd (rerank cfg rk query False hs e)))"
    if e: "coherent rk score T e" for e
  proof (cases "hs = []")
    case False
    obtain vs e1 where l: "look_up_all rk query hs e = (vs, e1)" by fastforce
    note ok = look_up_ok [OF e assms(3) l]
    define pairs where "pairs = missing_pairs query hs vs"
    obtain ws e2 where f: "fill_scores rk query (generation e) hs vs (map (\<lambda>(q, p). score q p) pairs) e1 = (ws, e2)"
      by fastforce
    have w: "ws = map (Some \<circ> model_score score query) hs \<and> coherent rk score T e2"
      by (rule fill_ok [OF _ assms(2) _ assms(3) _ f [unfolded pairs_def]]) (use ok in auto)
    have p: "rk_predict rk pairs = Some (map (\<lambda>(q, p). score q p) pairs)"
      using assms(1) by (simp add: pointwise_def)
    show ?thesis
    proof (cases "pairs = []")
      case True
      have some: "vs ! i \<noteq> None" if "i < length vs" for i
      proof -
        have "(hs ! i, vs ! i) \<in> set (zip hs vs)"
          using that list_all2_lengthD [OF conjunct1 [OF ok]] by (metis in_set_zip fst_conv snd_conv)
        then show ?thesis using True by (auto simp: pairs_def missing_pairs_def filter_empty_conv)
      qed
      have "vs ! i = Some (model_score score query (hs ! i))" if "i < length vs" for i
        using some [OF that] list_all2_nthD2 [OF conjunct1 [OF ok] that]
        by (auto simp del: not_None_eq)
      then have "vs = map (Some \<circ> model_score score query) hs"
        using list_all2_lengthD [OF conjunct1 [OF ok]] by (intro nth_equalityI) simp_all
      then show ?thesis using False True l ok by (simp add: rerank_def pairs_def Let_def)
    next
      case nonempty: False
      then show ?thesis using False l p f w by (simp add: rerank_def pairs_def Let_def)
    qed
  qed (simp add: rerank_def e with_scores_def sort_desc_def apply_rerank_score_adjustments_def
      apply_decay_rerank_attenuation_def apply_correction_rerank_boost_def)
  show ?thesis using all [OF assms(4)] all [OF assms(5)] assms(6) by (simp add: comp_def model_score_def)
qed

section \<open>Concrete inputs\<close>

theorem merges_agree_witness:
  "rrf_merge_multi DEFAULT_RANK_CONFIG [plain_hit 1 None 1, plain_hit 2 None 1] [plain_hit 2 None 1] [] 5
    = rrf_merge DEFAULT_RANK_CONFIG [plain_hit 1 None 1, plain_hit 2 None 1] [plain_hit 2 None 1] 5"
  by (rule merges_agree) simp_all

theorem adjustments_directed_witness:
  "0 < correction_boost DEFAULT_RANK_CONFIG
    \<and> adjusted_score DEFAULT_RANK_CONFIG (plain_hit 1 None (1 / 2)) \<le> rerank_or_zero (plain_hit 1 None (1 / 2))"
  using adjustments_directed [of DEFAULT_RANK_CONFIG "plain_hit 1 None (1 / 2)"]
  by (simp add: default_boost untyped_is_not)

definition demo_reranker :: reranker where
  "demo_reranker = \<lparr>rk_model = ''m'', rk_version = [], rk_corpus = [], rk_sha = id,
     rk_predict = \<lambda>pairs. Some (map (\<lambda>(q, p). real (length p)) pairs)\<rparr>"

lemma new_cache_coherent: "coherent rk score T (new_cache n)"
  by (simp add: coherent_def cache_wf_def new_cache_def cache_look_map)

definition chunk_hit :: "int \<Rightarrow> string \<Rightarrow> hit" where
  "chunk_hit n t = (plain_hit n None 1)\<lparr>h_chunk := Some n, h_text := t, h_heading := []\<rparr>"

definition demo_key :: cache_key where
  "demo_key = make_key id ''m'' [] ''q'' 7 [] ''abc''"

lemma demo_rerank_key: "rerank_key demo_reranker ''q'' (chunk_hit 7 ''abc'') = Some demo_key"
  by (simp add: rerank_key_def chunk_hit_def demo_key_def demo_reranker_def rerank_passage_def)

theorem rerank_cache_transparent_witness:
  "let hs = [chunk_hit 7 ''abc'', chunk_hit 8 ''abcde'']; warm = cache_put demo_key 3 (new_cache 8);
       (ranked, out, c') = rerank DEFAULT_RANK_CONFIG demo_reranker ''q'' False hs warm
   in cache_look warm demo_key = Some 3 \<and> rerank_key demo_reranker ''q'' (hd hs) = Some demo_key \<and> out = Reranked
    \<and> ranked = with_scores DEFAULT_RANK_CONFIG hs [Some 3, Some 5]
    \<and> fst (rerank DEFAULT_RANK_CONFIG demo_reranker ''q'' False hs (new_cache 4)) = ranked"
proof -
  let ?hs = "[chunk_hit 7 ''abc'', chunk_hit 8 ''abcde'']" and ?warm = "cache_put demo_key 3 (new_cache 8)"
  let ?sc = "\<lambda>(q :: string) (p :: string). real (length p)"
  obtain ranked out c' where r: "rerank DEFAULT_RANK_CONFIG demo_reranker ''q'' False ?hs ?warm = (ranked, out, c')"
    using prod_cases3 by blast
  have p: "pointwise demo_reranker ?sc" by (simp add: pointwise_def demo_reranker_def)
  have i: "inj_on (rk_sha demo_reranker) UNIV" by (simp add: demo_reranker_def)
  have "coherent demo_reranker ?sc UNIV (cache_put demo_key (?sc ''q'' ''abc'') (new_cache 8))"
    by (rule coherent_put [OF new_cache_coherent i]) (simp_all add: demo_key_def demo_reranker_def)
  then have w: "coherent demo_reranker ?sc UNIV ?warm" by simp
  have "cache_look ?warm demo_key = Some 3"
    using rc.look_put_same [of "new_cache 8"] new_cache_coherent [of demo_reranker ?sc UNIV 8] by (simp add: coherent_def)
  moreover have "rerank_passage (chunk_hit 7 ''abc'') = ''abc''" "rerank_passage (chunk_hit 8 ''abcde'') = ''abcde''"
    by (simp_all add: chunk_hit_def rerank_passage_def)
  ultimately show ?thesis
    using rerank_cache_transparent [OF p i _ w new_cache_coherent r] r by (simp add: Let_def demo_rerank_key)
qed

end
