(* ===== verification/Retrieve.thy ===== *)
theory Retrieve
  imports Fusion_Laws
begin

text \<open>
  \<^verbatim>\<open>RetrievalEngine\<close> of \<^verbatim>\<open>src/minni/retrieval.py\<close>: feedback, the context budget, and the ranking
  pipeline of \<^verbatim>\<open>_retrieve_body\<close> for one query variant on the default backend, without the
  HyDE pass (off by default), up to the filtered hits.  The legs are functions
  from a window size to rows; None is \<^verbatim>\<open>RequestDeadlineExceeded\<close>.
\<close>

section \<open>Feedback\<close>

definition query_class :: "(string \<Rightarrow> string) \<Rightarrow> string \<Rightarrow> string" where
  "query_class sha q = take 16 (sha (join_with SP (take 8 (py_split (py_lower (sanitize_fts_query q))))))"

record feedback_row =
  fb_hash :: string
  fb_query :: string
  fb_doc :: "int option"
  fb_chunk :: "int option"
  fb_agent :: string
  fb_useful :: bool
  fb_at :: int

record feedback_db =
  fd_chunks :: "(int \<times> int) list"     \<comment> \<open>chunk and its document\<close>
  fd_docs :: "int list"
  fd_rows :: "feedback_row list"

record feedback_cache =
  fc_table :: "((string \<times> string) \<times> (int \<times> real) list) list"
  fc_loaded :: real

text \<open>\<^verbatim>\<open>record_feedback\<close>: the result id is a chunk, else a document, else unknown.\<close>

definition record_feedback ::
  "(string \<Rightarrow> string) \<Rightarrow> string \<Rightarrow> int \<Rightarrow> bool \<Rightarrow> string \<Rightarrow> int \<Rightarrow> feedback_db \<times> feedback_cache
    \<Rightarrow> feedback_db \<times> feedback_cache" where
  "record_feedback sha query result_id useful agent tnow st =
     (case st of (d, c) \<Rightarrow>
       let (doc, chunk) = (case map_of (fd_chunks d) result_id of
             Some doc \<Rightarrow> (Some doc, Some result_id)
           | None \<Rightarrow> (if result_id \<in> set (fd_docs d) then Some result_id else None, None))
       in (d\<lparr>fd_rows := fd_rows d @ [\<lparr>fb_hash = query_class sha query, fb_query = query, fb_doc = doc,
             fb_chunk = chunk, fb_agent = agent, fb_useful = useful, fb_at = tnow\<rparr>]\<rparr>,
           c\<lparr>fc_loaded := 0\<rparr>))"

text \<open>\<^verbatim>\<open>GROUP BY query_text, doc_id, agent_id, useful\<close>, with the number of votes.\<close>

type_synonym feedback_group = "string \<times> int \<times> string \<times> bool"

definition group_of :: "feedback_row \<Rightarrow> feedback_group option" where
  "group_of r = map_option (\<lambda>d. (fb_query r, d, fb_agent r, fb_useful r)) (fb_doc r)"

definition feedback_groups :: "int \<Rightarrow> feedback_row list \<Rightarrow> (feedback_group \<times> nat) list" where
  "feedback_groups cutoff rows =
     (let gs = List.map_filter group_of (filter (\<lambda>r. cutoff \<le> fb_at r) rows)
      in map (\<lambda>g. (g, count_list gs g)) (remdups gs))"

definition vote_demotion :: "nat \<Rightarrow> real" where
  "vote_demotion votes = max (- 3 / 10) (- 5 / 100 * real votes)"

definition cache_key_of :: "(string \<Rightarrow> string) \<Rightarrow> feedback_group \<Rightarrow> string \<times> string" where
  "cache_key_of sha g = (case g of (q, d, a, u) \<Rightarrow> (if a = [] then ''main'' else a, query_class sha q))"

definition demotion_of :: "(int \<times> real) list \<Rightarrow> int \<Rightarrow> real" where
  "demotion_of ds d = (case map_of ds d of None \<Rightarrow> 0 | Some x \<Rightarrow> x)"

definition demotions_at :: "'k \<Rightarrow> ('k \<times> (int \<times> real) list) list \<Rightarrow> (int \<times> real) list" where
  "demotions_at k table = (case map_of table k of None \<Rightarrow> [] | Some ds \<Rightarrow> ds)"

definition add_group ::
  "(string \<Rightarrow> string) \<Rightarrow> feedback_group \<times> nat
    \<Rightarrow> ((string \<times> string) \<times> (int \<times> real) list) list \<Rightarrow> ((string \<times> string) \<times> (int \<times> real) list) list" where
  "add_group sha x table =
     (case x of ((q, d, a, useful), votes) \<Rightarrow>
       if useful then table
       else let k = cache_key_of sha (q, d, a, useful); ds = demotions_at k table
            in AList.update k (AList.update d (min (vote_demotion votes) (demotion_of ds d)) ds) table)"

text \<open>Reading the table may succeed, run into the deadline, or fail.\<close>

datatype feedback_read = FbRows "feedback_row list" | FbLate | FbError

definition refresh_feedback_cache ::
  "(string \<Rightarrow> string) \<Rightarrow> real \<Rightarrow> feedback_read \<Rightarrow> feedback_cache \<Rightarrow> feedback_cache" where
  "refresh_feedback_cache sha tnow got c =
     (case got of
        FbLate \<Rightarrow> c
      | FbError \<Rightarrow> c\<lparr>fc_table := [], fc_loaded := tnow\<rparr>
      | FbRows rows \<Rightarrow>
          c\<lparr>fc_table := foldl (\<lambda>t g. add_group sha g t) [] (feedback_groups (\<lfloor>tnow\<rfloor> - 30 * 86400) rows),
            fc_loaded := tnow\<rparr>)"

definition feedback_demotions ::
  "bool \<Rightarrow> (string \<Rightarrow> string) \<Rightarrow> real \<Rightarrow> feedback_read \<Rightarrow> string \<Rightarrow> string option \<Rightarrow> feedback_cache
    \<Rightarrow> (int \<times> real) list \<times> feedback_cache" where
  "feedback_demotions enabled sha tnow got query agent c =
     (if \<not> enabled then ([], c)
      else let c' = (if 60 < tnow - fc_loaded c then refresh_feedback_cache sha tnow got c else c)
           in (demotions_at (or_text agent ''main'', query_class sha query) (fc_table c'), c'))"

definition base_score :: "hit \<Rightarrow> real" where
  "base_score h = (case h_rerank h of None \<Rightarrow> h_final h | Some x \<Rightarrow> x)"

definition demoted :: "(int \<times> real) list \<Rightarrow> hit \<Rightarrow> hit" where
  "demoted ds h = (let x = demotion_of ds (h_doc h)
     in h\<lparr>h_demote := Some x, h_adjusted := Some (base_score h + x), h_final := h_final h + x\<rparr>)"

definition apply_feedback_demotions :: "(int \<times> real) list \<Rightarrow> hit list \<Rightarrow> hit list" where
  "apply_feedback_demotions ds merged =
     (if ds = [] then merged
      else sort_desc (\<lambda>h. case h_adjusted h of None \<Rightarrow> base_score h | Some x \<Rightarrow> x) (map (demoted ds) merged))"

section \<open>The context budget\<close>

definition entry_text :: "hit \<Rightarrow> string" where
  "entry_text h = (if h_heading h = [] then h_text h else h_heading h @ '': '' @ h_text h)"

fun budget_from :: "(string \<Rightarrow> nat) \<Rightarrow> int \<Rightarrow> nat \<Rightarrow> bool \<Rightarrow> hit list \<Rightarrow> hit list" where
  "budget_from tokens budget used started [] = []"
| "budget_from tokens budget used started (h # hs) =
     (let n = tokens (entry_text h)
      in if budget < int (used + n) \<and> started then []
         else h\<lparr>h_tokens := Some n\<rparr> # budget_from tokens budget (used + n) True hs)"

definition budget_results :: "(string \<Rightarrow> nat) \<Rightarrow> int \<Rightarrow> hit list \<Rightarrow> hit list" where
  "budget_results tokens budget hs = (if budget \<le> 0 then hs else budget_from tokens budget 0 False hs)"

section \<open>The pipeline\<close>

text \<open>
  \<open>lg_late w\<close>: the deadline has passed when the rows of window \<open>w\<close> have been looked at;
  \<open>lg_late_vector\<close> and \<open>lg_late_rerank\<close>: it has passed before those stages.
\<close>

record legs =
  lg_fts :: "nat \<Rightarrow> hit list option"
  lg_vector :: "nat \<Rightarrow> hit list option"
  lg_late :: "nat \<Rightarrow> bool"
  lg_late_vector :: bool
  lg_late_rerank :: bool
  lg_no_chunks :: bool

record retrieval =
  rt_hits :: "hit list"
  rt_suppressed :: "nat option"
  rt_vector_degraded :: bool
  rt_rerank_degraded :: bool
  rt_cache :: rerank_cache

definition rerank_window :: "rank_config \<Rightarrow> nat \<Rightarrow> nat" where
  "rerank_window cfg limit = max limit (if reranker_enabled cfg then reranker_top_k cfg else limit)"

definition empty_log :: gate_log where
  "empty_log = \<lparr>gl_denied = [], gl_saw = False\<rparr>"

text \<open>The vector leg: rows, whether it was cut short, and the log.\<close>

definition vector_stage ::
  "search_env \<Rightarrow> search_args \<Rightarrow> legs \<Rightarrow> nat \<Rightarrow> hit list \<Rightarrow> bool \<Rightarrow> gate_log \<Rightarrow> hit list \<times> bool \<times> gate_log" where
  "vector_stage e a l wanted fts searched g =
     (if lg_late_vector l then ([], searched, g)
      else if fts = [] \<and> lg_no_chunks l then ([], False, g)
      else let c = collect_eligible (lg_vector l) (eligible e a) (lg_late l) False wanted g
           in (case c_rows c of None \<Rightarrow> ([], searched, c_log c) | Some rows \<Rightarrow> (rows, False, c_log c)))"

definition rerank_stage ::
  "rank_config \<Rightarrow> reranker option \<Rightarrow> bool \<Rightarrow> string \<Rightarrow> nat \<Rightarrow> hit list \<Rightarrow> rerank_cache
    \<Rightarrow> hit list \<times> bool \<times> rerank_cache" where
  "rerank_stage cfg rk late query limit merged c =
     (if merged = [] \<or> \<not> reranker_enabled cfg then (take limit merged, False, c)
      else if late then (take limit merged, True, c)
      else (case rk of
              None \<Rightarrow> (take limit merged, False, c)
            | Some k \<Rightarrow>
                (let (hs, out, c') = rerank cfg k query False merged c
                 in (take (max (reranker_final_k cfg) limit) hs, out \<noteq> Reranked, c'))))"

text \<open>The final status filter and read gate, with the report of a blackout.\<close>

definition final_gate :: "search_env \<Rightarrow> search_args \<Rightarrow> gate_log \<Rightarrow> hit list \<Rightarrow> hit list \<times> nat option" where
  "final_gate e a g merged =
     (let kept = filter (lifecycle_ok a) merged
      in case a_principal a of
           None \<Rightarrow> (kept, None)
         | Some _ \<Rightarrow>
             (let (shown, suppressed) = apply_read_gate e a kept
              in if shown = [] \<and> gl_denied g \<noteq> [] \<and> \<not> gl_saw g
                 then (shown, snd (apply_read_gate e a (map snd (gl_denied g))))
                 else (shown, suppressed)))"

definition retrieve_ranked ::
  "rank_config \<Rightarrow> search_env \<Rightarrow> search_args \<Rightarrow> reranker option \<Rightarrow> legs \<Rightarrow> (int \<times> real) list
    \<Rightarrow> string \<Rightarrow> nat \<Rightarrow> rerank_cache \<Rightarrow> retrieval option" where
  "retrieve_ranked cfg e a rk l demotions query limit cache =
     (let wanted = rerank_window cfg limit;
          lex = collect_eligible (lg_fts l) (eligible e a) (lg_late l) True wanted empty_log
      in if c_rows lex = None \<and> \<not> c_fetched lex then None
         else
           let fts = (case c_rows lex of None \<Rightarrow> [] | Some rows \<Rightarrow> rows);
               (vec, cut, g1) = vector_stage e a l wanted fts (c_fetched lex) (c_log lex);
               (vec', g2) = eligible e a vec g1;
               (merged, g3) = eligible e a (rrf_merge cfg fts vec' wanted) g2;
               (ranked, ce_cut, cache') = rerank_stage cfg rk (lg_late_rerank l) query limit merged cache;
               (shown, suppressed) = final_gate e a g3 (apply_feedback_demotions demotions ranked)
           in Some \<lparr>rt_hits = shown, rt_suppressed = suppressed,
                    rt_vector_degraded = (c_rows lex = None \<or> cut), rt_rerank_degraded = ce_cut, rt_cache = cache'\<rparr>)"

end
