(* ===== verification/Retrieve_Laws.thy ===== *)
theory Retrieve_Laws
  imports Retrieve
begin

text \<open>
  What the pipeline of \<^verbatim>\<open>_retrieve_body\<close> promises: it shows only rows the caller may see, never
  more than its cuts allow, and it reports a blackout; feedback votes move down only what
  their own agent voted down; and the context budget keeps a prefix.
\<close>

section \<open>Ranking does not touch what the gate reads\<close>

definition gate_view :: "hit \<Rightarrow> hit" where
  "gate_view h = h\<lparr>h_chunk := None, h_text := [], h_heading := [], h_rrf := None, h_fts_rank := None,
     h_sem_rank := None, h_final := 0, h_salience := 0, h_applied := None, h_rerank := None,
     h_raw_rerank := None, h_demote := None, h_adjusted := None, h_tokens := None\<rparr>"

lemma gate_view_fields:
  assumes "gate_view h = gate_view k"
  shows "h_doc h = h_doc k" "h_path h = h_path k" "h_agent h = h_agent k" "h_sigil h = h_sigil k"
    "h_status h = h_status k" "h_privacy h = h_privacy k" "h_page_type h = h_page_type k"
    "h_indexed h = h_indexed k" "h_created h = h_created k" "h_layer h = h_layer k"
  using assms by (cases h; cases k; simp add: gate_view_def)+

lemma gate_view_admits:
  assumes "gate_view h = gate_view k"
  shows "admits e a h = admits e a k"
  unfolding admits_def scoped_def lifecycle_ok_def status_of_def privacy_of_def in_layers_def candidate_time_def
    may_read_def hit_json_def gate_view_fields [OF assms] ..

lemma gate_view_scores [simp]:
  "gate_view (h\<lparr>h_rerank := v\<rparr>) = gate_view h" "gate_view (h\<lparr>h_raw_rerank := v\<rparr>) = gate_view h"
  "gate_view (h\<lparr>h_salience := x\<rparr>) = gate_view h" "gate_view (h\<lparr>h_applied := v\<rparr>) = gate_view h"
  "gate_view (h\<lparr>h_final := x\<rparr>) = gate_view h" "gate_view (h\<lparr>h_demote := v\<rparr>) = gate_view h"
  "gate_view (h\<lparr>h_adjusted := v\<rparr>) = gate_view h"
  by (cases h; simp add: gate_view_def)+

lemma demotion_views: "gate_view ` set (apply_feedback_demotions ds hs) = gate_view ` set hs"
  by (simp add: apply_feedback_demotions_def image_image demoted_def Let_def)

lemma demotion_docs: "distinct (map h_doc hs) \<Longrightarrow> distinct (map h_doc (apply_feedback_demotions ds hs))"
  by (simp add: apply_feedback_demotions_def sort_desc_distinct comp_def demoted_def Let_def)

lemma demotion_length [simp]: "length (apply_feedback_demotions ds hs) = length hs"
  by (simp add: apply_feedback_demotions_def)

lemma adjustment_views:
  "map gate_view (apply_rerank_score_adjustments cfg hs) = map gate_view hs"
  by (simp add: apply_rerank_score_adjustments_def apply_decay_rerank_attenuation_def
      apply_correction_rerank_boost_def Let_def)

lemma map_view_docs: "map gate_view xs = map gate_view ys \<Longrightarrow> map h_doc xs = map h_doc ys"
proof -
  assume v: "map gate_view xs = map gate_view ys"
  have "map h_doc zs = map h_doc (map gate_view zs)" for zs
    by (simp add: gate_view_def)
  then show ?thesis using v by metis
qed

lemma zip_views: "map gate_view (map2 (\<lambda>h v. h\<lparr>h_rerank := f v\<rparr>) hs vs) = take (length vs) (map gate_view hs)"
proof (induction hs arbitrary: vs)
  case (Cons h hs)
  then show ?case by (cases vs) simp_all
qed simp

lemma with_scores_views: "gate_view ` set (with_scores cfg hs vs) \<subseteq> gate_view ` set hs"
proof -
  have "gate_view ` set (with_scores cfg hs vs)
      = set (take (length vs) (map gate_view hs))"
    unfolding with_scores_def sort_desc_set
    by (metis adjustment_views zip_views list.set_map)
  then show ?thesis by (metis list.set_map set_take_subset)
qed

lemma with_scores_docs: "distinct (map h_doc hs) \<Longrightarrow> distinct (map h_doc (with_scores cfg hs vs))"
proof -
  assume d: "distinct (map h_doc hs)"
  have "map gate_view (apply_rerank_score_adjustments cfg
       (map2 (\<lambda>h v. h\<lparr>h_rerank := Some (case v of None \<Rightarrow> 0 | Some x \<Rightarrow> x)\<rparr>) hs vs)) = map gate_view (take (length vs) hs)"
    by (simp only: adjustment_views zip_views take_map)
  then have "map h_doc (apply_rerank_score_adjustments cfg
       (map2 (\<lambda>h v. h\<lparr>h_rerank := Some (case v of None \<Rightarrow> 0 | Some x \<Rightarrow> x)\<rparr>) hs vs)) = map h_doc (take (length vs) hs)"
    by (rule map_view_docs)
  then show ?thesis unfolding with_scores_def using d by (metis sort_desc_distinct distinct_take take_map)
qed

text \<open>Every outcome of the cross-encoder pass keeps the documents it was given.\<close>

lemma rerank_out:
  assumes "rerank cfg rk query late hs c = (out, oc, c')"
  shows "out = hs \<or> (\<exists>vs. out = with_scores cfg hs vs)"
  using assms by (auto simp: rerank_def Let_def split: prod.splits if_splits option.splits)

lemma rerank_views:
  assumes "rerank cfg rk query late hs c = (out, oc, c')"
  shows "gate_view ` set out \<subseteq> gate_view ` set hs \<and> (distinct (map h_doc hs) \<longrightarrow> distinct (map h_doc out))"
  using rerank_out [OF assms] with_scores_views with_scores_docs by blast

lemma take_views:
  "gate_view ` set hs \<subseteq> V \<Longrightarrow> gate_view ` set (take n hs) \<subseteq> V"
  "distinct (map h_doc hs) \<Longrightarrow> distinct (map h_doc (take n hs))"
  by (auto dest: in_set_takeD simp: take_map [symmetric])

lemma rerank_stage_views:
  assumes "rerank_stage cfg rk late query limit merged c = (out, degraded, c')"
  shows "gate_view ` set out \<subseteq> gate_view ` set merged
    \<and> (distinct (map h_doc merged) \<longrightarrow> distinct (map h_doc out))
    \<and> length out \<le> max limit (if reranker_enabled cfg then reranker_final_k cfg else 0)"
proof (cases "merged = [] \<or> \<not> reranker_enabled cfg \<or> late \<or> rk = None")
  case True
  then have "out = take limit merged" using assms by (auto simp: rerank_stage_def split: if_split_asm)
  then show ?thesis by (simp add: take_views le_max_iff_disj)
next
  case False
  then obtain k hs oc where "rerank cfg k query False merged c = (hs, oc, c')"
    and "out = take (max (reranker_final_k cfg) limit) hs"
    using assms by (auto simp: rerank_stage_def split: if_split_asm option.split_asm prod.split_asm)
  moreover from this have "length out \<le> max limit (reranker_final_k cfg)" by (simp add: max.commute)
  ultimately show ?thesis using rerank_views False by (simp add: take_views)
qed

section \<open>Where the rows come from\<close>

definition leg_row :: "legs \<Rightarrow> hit \<Rightarrow> bool" where
  "leg_row l h \<longleftrightarrow> (\<exists>w rows. (lg_fts l w = Some rows \<or> lg_vector l w = Some rows) \<and> h \<in> set rows)"

lemma collect_source:
  assumes "collect_eligible fetch (eligible e a) late sql wanted g = c" and "c_rows c = Some rows"
  shows "\<exists>w raw. fetch w = Some raw \<and> rows = filter (admits e a) raw"
proof -
  let ?P = "\<lambda>(w :: nat) rows (stop :: bool). \<exists>raw. fetch w = Some raw \<and> rows = filter (admits e a) raw"
  have "\<exists>w. ?P w rows False \<and> (c_exhausted c \<or> (\<exists>w. fetch w = None)) \<or> ?P w rows True \<and> \<not> c_exhausted c"
    by (rule collect_induct [where P = ?P and fetch = fetch and elig = "eligible e a" and wanted = wanted and sql = sql,
          OF _ _ _ _ _ assms(1) [unfolded collect_eligible_def Let_def] assms(2)])
      (auto simp: eligible_filter)
  then show ?thesis by auto
qed

lemma fused_docs:
  "distinct (map h_doc (rrf_merge cfg fts sem limit))"
  "h_doc ` set (rrf_merge cfg fts sem limit) \<subseteq> h_doc ` set (fts @ sem)"
proof -
  let ?all = "map (score_merged_doc cfg) (fused cfg fts sem)"
  have ok: "distinct (map h_doc ?all)" "h_doc ` set ?all = h_doc ` set (fts @ sem)"
    using fused_scores [of cfg fts sem] by (simp_all add: scores_ok_def comp_def image_image)
  show "distinct (map h_doc (rrf_merge cfg fts sem limit))"
    unfolding rrf_merge_def using sort_desc_distinct [OF ok(1)] by (metis distinct_take take_map)
  show "h_doc ` set (rrf_merge cfg fts sem limit) \<subseteq> h_doc ` set (fts @ sem)"
    unfolding rrf_merge_def ok(2) [symmetric] by (auto dest: in_set_takeD)
qed

text \<open>The stages of one successful search.\<close>

lemma retrieve_stages:
  assumes "retrieve_ranked cfg e a rk l demotions query limit cache = Some r"
  obtains lex fts vec degraded g1 vec' g2 merged g3 ranked late cache'
  where "collect_eligible (lg_fts l) (eligible e a) (lg_late l) True (rerank_window cfg limit) empty_log = lex"
    and "fts = (case c_rows lex of None \<Rightarrow> [] | Some rows \<Rightarrow> rows)"
    and "vector_stage e a l (rerank_window cfg limit) fts (c_fetched lex) (c_log lex) = (vec, degraded, g1)"
    and "eligible e a vec g1 = (vec', g2)"
    and "eligible e a (rrf_merge cfg fts vec' (rerank_window cfg limit)) g2 = (merged, g3)"
    and "rerank_stage cfg rk (lg_late_rerank l) query limit merged cache = (ranked, late, cache')"
    and "final_gate e a g3 (apply_feedback_demotions demotions ranked) = (rt_hits r, rt_suppressed r)"
  using assms unfolding retrieve_ranked_def Let_def by (auto split: if_split_asm prod.split_asm)

lemma leg_rows:
  assumes "collect_eligible fetch (eligible e a) late sql wanted g = c"
    and "h \<in> set (case c_rows c of None \<Rightarrow> [] | Some rows \<Rightarrow> rows)"
  shows "\<exists>w raw. fetch w = Some raw \<and> h \<in> set raw"
proof (cases "c_rows c")
  case (Some rows)
  from collect_source [OF assms(1) Some] obtain w raw where "fetch w = Some raw" "rows = filter (admits e a) raw"
    by blast
  then show ?thesis using assms(2) Some by auto
qed (use assms(2) in simp)

lemma vector_rows:
  assumes "vector_stage e a l wanted fts searched g = (vec, degraded, g')" and "h \<in> set vec"
  shows "\<exists>w raw. lg_vector l w = Some raw \<and> h \<in> set raw"
  using assms leg_rows [of "lg_vector l" e a "lg_late l" False wanted g _ h, OF refl]
  by (auto simp: vector_stage_def Let_def split: if_split_asm option.split_asm)

lemma final_gate_shows:
  assumes "final_gate e a g hs = (shown, suppressed)"
  shows "shown = filter (\<lambda>h. lifecycle_ok a h \<and> (a_principal a = None \<or> may_read e a h)) hs"
  using assms
  by (auto simp: final_gate_def apply_read_gate_def Let_def filter_filter split: option.split_asm if_split_asm
      intro!: filter_cong)

text \<open>
  C12. Whatever a search returns: each document once, at most as many as the limit or the
  cross-encoder's window, and every hit comes from a leg and passes every filter of the
  request and the principal's read gate.
\<close>

theorem retrieval_sound:
  assumes "retrieve_ranked cfg e a rk l demotions query limit cache = Some r"
  shows "distinct (map h_doc (rt_hits r))
    \<and> length (rt_hits r) \<le> max limit (if reranker_enabled cfg then reranker_final_k cfg else 0)
    \<and> list_all (\<lambda>h. admits e a h \<and> (\<exists>row. leg_row l row \<and> h_doc row = h_doc h)) (rt_hits r)"
proof -
  obtain lex fts vec degraded g1 vec' g2 merged g3 ranked late cache' where st:
    "collect_eligible (lg_fts l) (eligible e a) (lg_late l) True (rerank_window cfg limit) empty_log = lex"
    "fts = (case c_rows lex of None \<Rightarrow> [] | Some rows \<Rightarrow> rows)"
    "vector_stage e a l (rerank_window cfg limit) fts (c_fetched lex) (c_log lex) = (vec, degraded, g1)"
    "eligible e a vec g1 = (vec', g2)"
    "eligible e a (rrf_merge cfg fts vec' (rerank_window cfg limit)) g2 = (merged, g3)"
    "rerank_stage cfg rk (lg_late_rerank l) query limit merged cache = (ranked, late, cache')"
    "final_gate e a g3 (apply_feedback_demotions demotions ranked) = (rt_hits r, rt_suppressed r)"
    by (rule retrieve_stages [OF assms])
  let ?out = "apply_feedback_demotions demotions ranked"
  have vec': "set vec' \<subseteq> set vec" using arg_cong [OF st(4), of fst] by (auto simp: eligible_filter)
  have merged: "merged = filter (admits e a) (rrf_merge cfg fts vec' (rerank_window cfg limit))"
    using arg_cong [OF st(5), of fst] by (simp add: eligible_filter)
  have rows: "leg_row l h" if "h \<in> set (fts @ vec')" for h
  proof (cases "h \<in> set fts")
    case True
    then show ?thesis using leg_rows [OF st(1), of h] unfolding st(2) leg_row_def by blast
  next
    case False
    then show ?thesis using that vec' vector_rows [OF st(3), of h] unfolding leg_row_def by auto
  qed
  have docs: "distinct (map h_doc merged)" "h_doc ` set merged \<subseteq> h_doc ` set (fts @ vec')"
    unfolding merged using fused_docs [of cfg fts vec' "rerank_window cfg limit"]
    by (simp_all add: distinct_map_filter subset_iff image_iff) blast
  have out: "gate_view ` set ?out \<subseteq> gate_view ` set merged" "distinct (map h_doc ?out)"
    "length ?out \<le> max limit (if reranker_enabled cfg then reranker_final_k cfg else 0)"
    using rerank_stage_views [OF st(6)] docs(1) by (simp_all add: demotion_views demotion_docs)
  have shown: "rt_hits r = filter (\<lambda>h. lifecycle_ok a h \<and> (a_principal a = None \<or> may_read e a h)) ?out"
    using final_gate_shows [OF st(7)] .
  have each: "admits e a h \<and> (\<exists>row. leg_row l row \<and> h_doc row = h_doc h)" if h: "h \<in> set ?out" for h
  proof -
    obtain m where m: "m \<in> set merged" "gate_view h = gate_view m" using out(1) h by blast
    have "h_doc h = h_doc m" by (rule gate_view_fields(1) [OF m(2)])
    then have "h_doc h \<in> h_doc ` set (fts @ vec')" using docs(2) m(1) by (metis image_eqI subsetD)
    then obtain row where "row \<in> set (fts @ vec')" "h_doc row = h_doc h" by (metis imageE)
    then have "\<exists>row. leg_row l row \<and> h_doc row = h_doc h" using rows by blast
    then show ?thesis using m(1) gate_view_admits [OF m(2)] by (simp add: merged)
  qed
  have "list_all (\<lambda>h. admits e a h \<and> (\<exists>row. leg_row l row \<and> h_doc row = h_doc h)) (rt_hits r)"
    unfolding shown list_all_iff using each by simp
  moreover have "distinct (map h_doc (rt_hits r))" "length (rt_hits r) \<le> length ?out"
    unfolding shown using out(2) by (simp_all add: distinct_map_filter del: demotion_length)
  ultimately show ?thesis using le_trans [OF _ out(3)] by (intro conjI)
qed

section \<open>A blackout is reported\<close>

text \<open>No leg has a row that the caller asked for and may read.\<close>

definition dark :: "search_env \<Rightarrow> search_args \<Rightarrow> legs \<Rightarrow> bool" where
  "dark e a l \<longleftrightarrow> (\<forall>h. leg_row l h \<longrightarrow> scoped e a h \<longrightarrow> \<not> may_read e a h)"

lemma collect_log:
  assumes step: "\<And>w raw g. fetch w = Some raw \<Longrightarrow> I g \<Longrightarrow> I (snd (elig raw g))"
  shows "I g \<Longrightarrow> I (c_log (collect_from fetch elig late sql wanted cap window last_rows fetched g))"
proof (induction "cap - window" arbitrary: window last_rows fetched g rule: less_induct)
  case less
  show ?case
  proof (cases "fetch window")
    case None
    then show ?thesis using less.prems by (subst collect_unfold) simp
  next
    case (Some raw)
    note I = step [OF Some less.prems]
    show ?thesis
    proof (cases "cap \<le> window")
      case True
      then show ?thesis using I by (subst collect_unfold) (simp add: Some)
    next
      case False
      then have "cap - min cap (max 1 (window * 2)) < cap - window" by (auto simp: min_def max_def)
      from less.hyps [OF this I] show ?thesis using I by (subst collect_unfold) (simp add: Some)
    qed
  qed
qed

lemma collect_first:
  assumes step: "\<And>w raw g. fetch w = Some raw \<Longrightarrow> I g \<Longrightarrow> I (snd (elig raw g))"
    and first: "fetch window = Some raw" "I (snd (elig raw g))"
  shows "I (c_log (collect_from fetch elig late sql wanted cap window last_rows fetched g))"
proof (cases "cap \<le> window")
  case True
  then show ?thesis using first by (subst collect_unfold) simp
next
  case False
  note collect_log [of fetch I elig, OF step first(2)]
  then show ?thesis using first by (subst collect_unfold) simp
qed

text \<open>The log of a search in the dark: nothing admitted, and only unreadable rows remembered.\<close>

definition dark_log :: "search_env \<Rightarrow> search_args \<Rightarrow> gate_log \<Rightarrow> bool" where
  "dark_log e a g \<longleftrightarrow> \<not> gl_saw g \<and> (\<forall>h \<in> snd ` set (gl_denied g). \<not> may_read e a h)"

lemma update_range: "snd ` set (AList.update k v xs) \<subseteq> insert v (snd ` set xs)"
  by (induction xs) auto

lemma update_nonempty: "AList.update k v xs \<noteq> []"
  by (cases xs) auto

lemma gate_rows_dark:
  assumes "\<forall>h \<in> set rows. \<not> may_read e a h" and "dark_log e a g"
  shows "fst (gate_rows e a rows g) = [] \<and> dark_log e a (snd (gate_rows e a rows g))
    \<and> (gl_denied g \<noteq> [] \<or> rows \<noteq> [] \<longrightarrow> gl_denied (snd (gate_rows e a rows g)) \<noteq> [])"
  using assms
proof (induction rows arbitrary: g)
  case (Cons r rs)
  let ?g = "g\<lparr>gl_denied := AList.update (h_doc r, h_path r) r (gl_denied g)\<rparr>"
  have "\<forall>h \<in> insert r (snd ` set (gl_denied g)). \<not> may_read e a h" using Cons.prems by (simp add: dark_log_def)
  then have "dark_log e a ?g"
    using Cons.prems update_range [of "(h_doc r, h_path r)" r "gl_denied g"] unfolding dark_log_def by fastforce
  from Cons.IH [OF _ this] Cons.prems(1) show ?case by (simp add: update_nonempty)
qed simp

lemma eligible_dark:
  assumes "a_principal a \<noteq> None" and "\<forall>h \<in> set rows. scoped e a h \<longrightarrow> \<not> may_read e a h" and "dark_log e a g"
  shows "fst (eligible e a rows g) = []" "dark_log e a (snd (eligible e a rows g))"
    "gl_denied g \<noteq> [] \<or> (\<exists>h \<in> set rows. scoped e a h) \<Longrightarrow> gl_denied (snd (eligible e a rows g)) \<noteq> []"
proof -
  obtain p where p: "a_principal a = Some p" using assms(1) by blast
  have "\<forall>h \<in> set (in_scope e a rows). \<not> may_read e a h" using assms(2) by (simp add: in_scope_filter)
  note gate_rows_dark [OF this assms(3)]
  then show "fst (eligible e a rows g) = []" "dark_log e a (snd (eligible e a rows g))"
    "gl_denied g \<noteq> [] \<or> (\<exists>h \<in> set rows. scoped e a h) \<Longrightarrow> gl_denied (snd (eligible e a rows g)) \<noteq> []"
    by (auto simp: eligible_def p in_scope_filter filter_empty_conv)
qed

lemma vector_dark:
  assumes "a_principal a \<noteq> None" and d: "dark e a l" and g: "dark_log e a g" "gl_denied g \<noteq> []"
    and v: "vector_stage e a l wanted fts searched g = (vec, degraded, g')"
  shows "vec = [] \<and> dark_log e a g' \<and> gl_denied g' \<noteq> []"
proof -
  have un: "\<forall>h \<in> set raw. scoped e a h \<longrightarrow> \<not> may_read e a h" if "lg_vector l w = Some raw" for w raw
    using d that by (auto simp: dark_def leg_row_def)
  define c where "c = collect_eligible (lg_vector l) (eligible e a) (lg_late l) False wanted g"
  have "dark_log e a (c_log c) \<and> gl_denied (c_log c) \<noteq> []"
    unfolding c_def collect_eligible_def Let_def
    by (rule collect_log) (use eligible_dark [OF assms(1) un] g in auto)
  moreover have "rows = []" if r: "c_rows c = Some rows" for rows
  proof -
    obtain w raw where "lg_vector l w = Some raw" "rows = filter (admits e a) raw"
      using collect_source [OF c_def [symmetric] r] by blast
    then show ?thesis using un [of w raw] assms(1) by (auto simp: admits_def filter_empty_conv)
  qed
  ultimately show ?thesis
    using v g by (auto simp: vector_stage_def Let_def c_def split: if_split_asm option.split_asm)
qed

lemma merge_nothing: "rrf_merge cfg [] [] n = []"
  by (simp add: rrf_merge_def fused_def sort_desc_def)

text \<open>
  C24. A search reports suppression only for a principal and with no hits. And for a
  principal, when no row that the lexical or the vector leg can hand out at any window is both
  in scope and readable, and the lexical leg's first window has a row in scope, the search
  reports a positive number of hidden rows instead of an ordinary empty answer.
\<close>

theorem blackout_reported:
  assumes "retrieve_ranked cfg e a rk l demotions query limit cache = Some r"
  shows "(rt_suppressed r \<noteq> None \<longrightarrow> rt_hits r = [] \<and> a_principal a \<noteq> None)
    \<and> (a_principal a \<noteq> None \<and> dark e a l
        \<and> (\<exists>raw. lg_fts l (max 1 (rerank_window cfg limit)) = Some raw \<and> list_ex (scoped e a) raw)
       \<longrightarrow> (\<exists>n > 0. rt_suppressed r = Some n))"
proof (intro conjI impI)
  obtain lex fts vec degraded g1 vec' g2 merged g3 ranked late cache' where st:
    "collect_eligible (lg_fts l) (eligible e a) (lg_late l) True (rerank_window cfg limit) empty_log = lex"
    "fts = (case c_rows lex of None \<Rightarrow> [] | Some rows \<Rightarrow> rows)"
    "vector_stage e a l (rerank_window cfg limit) fts (c_fetched lex) (c_log lex) = (vec, degraded, g1)"
    "eligible e a vec g1 = (vec', g2)"
    "eligible e a (rrf_merge cfg fts vec' (rerank_window cfg limit)) g2 = (merged, g3)"
    "rerank_stage cfg rk (lg_late_rerank l) query limit merged cache = (ranked, late, cache')"
    "final_gate e a g3 (apply_feedback_demotions demotions ranked) = (rt_hits r, rt_suppressed r)"
    by (rule retrieve_stages [OF assms])
  {
    assume "rt_suppressed r \<noteq> None"
    then show "rt_hits r = []" "a_principal a \<noteq> None"
      using st(7) by (auto simp: final_gate_def apply_read_gate_def Let_def split: option.split_asm if_split_asm)
  }
  assume a: "a_principal a \<noteq> None \<and> dark e a l
        \<and> (\<exists>raw. lg_fts l (max 1 (rerank_window cfg limit)) = Some raw \<and> list_ex (scoped e a) raw)"
  then obtain p raw where p: "a_principal a = Some p" "a_principal a \<noteq> None" and d: "dark e a l"
    and raw: "lg_fts l (max 1 (rerank_window cfg limit)) = Some raw" "\<exists>h \<in> set raw. scoped e a h"
    by (auto simp: list_ex_iff)
  have un: "\<forall>h \<in> set raw. scoped e a h \<longrightarrow> \<not> may_read e a h" if "lg_fts l w = Some raw" for w raw
    using d that by (auto simp: dark_def leg_row_def)
  have e0: "dark_log e a empty_log" by (simp add: dark_log_def empty_log_def)
  have "dark_log e a (c_log lex)"
    unfolding st(1) [symmetric] collect_eligible_def Let_def
    by (rule collect_log) (use eligible_dark(2) [OF p(2) un] e0 in auto)
  moreover have "gl_denied (c_log lex) \<noteq> [] \<and> dark_log e a (c_log lex)"
    unfolding st(1) [symmetric] collect_eligible_def Let_def
    by (rule collect_first [where I = "\<lambda>g. gl_denied g \<noteq> [] \<and> dark_log e a g" and fetch = "lg_fts l" and raw = raw, OF _ raw(1)])
      (use eligible_dark [OF p(2) un [OF raw(1)] e0] raw eligible_dark [OF p(2) un] in auto)
  ultimately have v: "vec = []" "dark_log e a g1" "gl_denied g1 \<noteq> []"
    using vector_dark [OF p(2) d _ _ st(3)] by blast+
  have f: "fts = []"
  proof (cases "c_rows lex")
    case (Some rows)
    then obtain w raw where "lg_fts l w = Some raw" "rows = filter (admits e a) raw"
      using collect_source [OF st(1) Some] by blast
    then show ?thesis using un [of w raw] p(2) st(2) Some by (auto simp: admits_def filter_empty_conv)
  qed (use st(2) in simp)
  have g2: "vec' = []" "dark_log e a g2" "gl_denied g2 \<noteq> []"
    using eligible_dark [OF p(2) _ v(2), of "[]"] v st(4) by auto
  then have g3: "merged = []" "dark_log e a g3" "gl_denied g3 \<noteq> []"
    using eligible_dark [OF p(2) _ g2(2), of "[]"] st(5) by (auto simp: f merge_nothing)
  then have "ranked = []" using st(6) by (simp add: rerank_stage_def)
  moreover have "filter (may_read e a) (map snd (gl_denied g3)) = []"
    using g3(2) by (auto simp: dark_log_def filter_empty_conv)
  ultimately show "\<exists>n > 0. rt_suppressed r = Some n"
    using st(7) g3 p(1)
    by (auto simp: final_gate_def apply_feedback_demotions_def sort_desc_def apply_read_gate_def Let_def dark_log_def)
qed

section \<open>Only a first fetch that runs out of time fails a search\<close>

lemma collect_fetched:
  "fetched \<or> fetch window \<noteq> None \<Longrightarrow> c_fetched (collect_from fetch elig late sql wanted cap window last_rows fetched g)"
proof (induction "cap - window" arbitrary: window last_rows fetched g rule: less_induct)
  case less
  show ?case
  proof (cases "fetch window")
    case None
    then show ?thesis using less.prems by (subst collect_unfold) simp
  next
    case (Some raw)
    show ?thesis
    proof (cases "cap \<le> window")
      case False
      then have "cap - min cap (max 1 (window * 2)) < cap - window" by (auto simp: min_def max_def)
      from less.hyps [OF this] show ?thesis by (subst collect_unfold) (simp add: Some)
    qed (subst collect_unfold, simp add: Some)
  qed
qed

lemma search_fetches:
  "retrieve_ranked cfg e a rk l demotions query limit cache = None
    \<longleftrightarrow> lg_fts l (max 1 (rerank_window cfg limit)) = None"
proof -
  let ?lex = "collect_eligible (lg_fts l) (eligible e a) (lg_late l) True (rerank_window cfg limit) empty_log"
  have "retrieve_ranked cfg e a rk l demotions query limit cache = None \<longleftrightarrow> c_rows ?lex = None \<and> \<not> c_fetched ?lex"
    unfolding retrieve_ranked_def Let_def by (auto split: prod.split)
  also have "\<dots> \<longleftrightarrow> lg_fts l (max 1 (rerank_window cfg limit)) = None"
  proof (cases "lg_fts l (max 1 (rerank_window cfg limit))")
    case None
    then show ?thesis unfolding collect_eligible_def Let_def by (subst (1 2) collect_unfold) simp
  next
    case (Some raw)
    then have "c_fetched ?lex" unfolding collect_eligible_def Let_def by (intro collect_fetched) simp
    then show ?thesis using Some by simp
  qed
  finally show ?thesis .
qed

theorem search_answers_after_first_fetch:
  "retrieve_ranked cfg e a rk l demotions query limit cache = None
    \<longleftrightarrow> lg_fts l (max 1 (rerank_window cfg limit)) = None"
  by (rule search_fetches)

section \<open>The budget keeps a prefix\<close>

definition cost :: "(string \<Rightarrow> nat) \<Rightarrow> hit list \<Rightarrow> int" where
  "cost tokens hs = int (sum_list (map (tokens \<circ> entry_text) hs))"

definition stamped :: "(string \<Rightarrow> nat) \<Rightarrow> hit list \<Rightarrow> hit list" where
  "stamped tokens hs = map (\<lambda>h. h\<lparr>h_tokens := Some (tokens (entry_text h))\<rparr>) hs"

lemma cost_simps [simp]:
  "cost tokens [] = 0" "cost tokens (h # hs) = int (tokens (entry_text h)) + cost tokens hs"
  "stamped tokens [] = []" "stamped tokens (h # hs) = h\<lparr>h_tokens := Some (tokens (entry_text h))\<rparr> # stamped tokens hs"
  by (simp_all add: cost_def stamped_def)

text \<open>Once started, the rest is the longest prefix that fits.\<close>

lemma budget_rest:
  "\<exists>n \<le> length hs. budget_from tokens budget used True hs = stamped tokens (take n hs)
    \<and> (0 < n \<longrightarrow> int used + cost tokens (take n hs) \<le> budget)
    \<and> (n < length hs \<longrightarrow> budget < int used + cost tokens (take (Suc n) hs))"
proof (induction hs arbitrary: used)
  case (Cons h hs)
  let ?n = "tokens (entry_text h)"
  show ?case
  proof (cases "budget < int (used + ?n)")
    case True
    then show ?thesis by (intro exI [of _ 0]) simp
  next
    case False
    from Cons.IH [of "used + ?n"] obtain n where n: "n \<le> length hs"
      "budget_from tokens budget (used + ?n) True hs = stamped tokens (take n hs)"
      "0 < n \<longrightarrow> int (used + ?n) + cost tokens (take n hs) \<le> budget"
      "n < length hs \<longrightarrow> budget < int (used + ?n) + cost tokens (take (Suc n) hs)"
      by blast
    have "int used + cost tokens (take (Suc n) (h # hs)) \<le> budget"
      using n(3) False by (cases n) simp_all
    then show ?thesis using n False by (intro exI [of _ "Suc n"]) (simp add: add.assoc)
  qed
qed simp

theorem budget_keeps_longest_prefix:
  assumes "0 < budget" and "hs \<noteq> []"
  shows "\<exists>n \<le> length hs. 0 < n \<and> budget_results tokens budget hs = stamped tokens (take n hs)
    \<and> (1 < n \<longrightarrow> cost tokens (take n hs) \<le> budget)
    \<and> (n < length hs \<longrightarrow> budget < cost tokens (take (Suc n) hs))"
proof -
  obtain h rest where hs: "hs = h # rest" using assms(2) by (cases hs) auto
  from budget_rest [of rest tokens budget "tokens (entry_text h)"] obtain n where n: "n \<le> length rest"
    "budget_from tokens budget (tokens (entry_text h)) True rest = stamped tokens (take n rest)"
    "0 < n \<longrightarrow> int (tokens (entry_text h)) + cost tokens (take n rest) \<le> budget"
    "n < length rest \<longrightarrow> budget < int (tokens (entry_text h)) + cost tokens (take (Suc n) rest)"
    by blast
  then show ?thesis
    using assms(1) by (intro exI [of _ "Suc n"]) (simp add: hs budget_results_def)
qed

section \<open>Feedback demotes what the agent itself voted down\<close>

lemma demotions_update:
  "demotions_at k (AList.update k' v t) = (if k = k' then v else demotions_at k t)"
  by (simp add: demotions_at_def update_conv')

lemma demotion_update: "demotion_of (AList.update d' x ds) d = (if d = d' then x else demotion_of ds d)"
  by (simp add: demotion_of_def update_conv')

text \<open>The groups of votes that count for one cache key and document.\<close>

definition counts_for ::
  "(string \<Rightarrow> string) \<Rightarrow> string \<times> string \<Rightarrow> int \<Rightarrow> feedback_group \<times> nat \<Rightarrow> bool" where
  "counts_for sha k d x =
     (case x of ((q, d', a, useful), votes) \<Rightarrow> \<not> useful \<and> d' = d \<and> cache_key_of sha (q, d', a, useful) = k)"

lemma add_group_demotion:
  "demotion_of (demotions_at k (add_group sha x t)) d
    = (if counts_for sha k d x then min (vote_demotion (snd x)) (demotion_of (demotions_at k t) d)
       else demotion_of (demotions_at k t) d)"
proof -
  obtain q d' a u n where x: "x = ((q, d', a, u), n)" by (metis prod_cases5 surj_pair)
  show ?thesis
    unfolding x by (cases u) (auto simp: add_group_def counts_for_def Let_def demotions_update demotion_update)
qed

lemma table_demotion:
  "demotion_of (demotions_at k (foldl (\<lambda>t g. add_group sha g t) t gs)) d
    = foldl min (demotion_of (demotions_at k t) d) (map (vote_demotion \<circ> snd) (filter (counts_for sha k d) gs))"
  by (induction gs arbitrary: t) (simp_all add: add_group_demotion min.commute)

lemma foldl_min_least: "foldl min (x :: real) ys = Min (insert x (set ys))"
proof (induction ys arbitrary: x)
  case (Cons y ys)
  have "Min (insert (min x y) (set ys)) = min x (Min (insert y (set ys)))"
    by (cases "set ys = {}") (simp_all add: min.assoc)
  then show ?case using Cons by (simp add: insert_commute)
qed simp

theorem demotions_from_own_votes:
  assumes "60 < tnow - fc_loaded c"
    and "feedback_demotions True sha tnow (FbRows rows) query agent c = (ds, c')"
  shows "demotion_of ds d = Min (insert 0 (vote_demotion `
       {n. \<exists>g. (g, n) \<in> set (feedback_groups (\<lfloor>tnow\<rfloor> - 30 * 86400) rows)
          \<and> counts_for sha (or_text agent ''main'', query_class sha query) d (g, n)}))
    \<and> - 3 / 10 \<le> demotion_of ds d \<and> demotion_of ds d \<le> 0"
proof -
  let ?k = "(or_text agent ''main'', query_class sha query)"
  let ?gs = "filter (counts_for sha ?k d) (feedback_groups (\<lfloor>tnow\<rfloor> - 30 * 86400) rows)"
  have ds: "ds = demotions_at ?k (foldl (\<lambda>t g. add_group sha g t) [] (feedback_groups (\<lfloor>tnow\<rfloor> - 30 * 86400) rows))"
    using assms by (auto simp: feedback_demotions_def refresh_feedback_cache_def Let_def)
  have m: "demotion_of ds d = Min (insert 0 (set (map (vote_demotion \<circ> snd) ?gs)))"
    unfolding ds table_demotion foldl_min_least by (simp add: demotions_at_def demotion_of_def)
  have e: "set (map (vote_demotion \<circ> snd) ?gs) = vote_demotion `
       {n. \<exists>g. (g, n) \<in> set (feedback_groups (\<lfloor>tnow\<rfloor> - 30 * 86400) rows) \<and> counts_for sha ?k d (g, n)}"
    unfolding set_map set_filter image_comp [symmetric] by (intro arg_cong [where f = "image vote_demotion"]) force
  have "\<forall>x \<in> insert 0 (set (map (vote_demotion \<circ> snd) ?gs)). - 3 / 10 \<le> x"
    by (auto simp: vote_demotion_def)
  then have "- 3 / 10 \<le> demotion_of ds d" "demotion_of ds d \<le> 0"
    unfolding m using Min_in [of "insert 0 (set (map (vote_demotion \<circ> snd) ?gs))"]
    by (simp_all del: set_map)
  then show ?thesis using m unfolding e by blast
qed

section \<open>A concrete pipeline\<close>

text \<open>Two accepted pages, a cross-encoder that scores 0, and a limit of one.\<close>

definition demo_hit :: "int \<Rightarrow> hit" where
  "demo_hit n = (hit_of_row (demo_row n ''accepted'') ''body'')\<lparr>h_chunk := None, h_heading := []\<rparr>"

definition demo_legs :: legs where
  "demo_legs = \<lparr>lg_fts = (\<lambda>w. Some (take w [demo_hit 1, demo_hit 2])), lg_vector = (\<lambda>_. Some []),
     lg_late = (\<lambda>_. False), lg_late_vector = False, lg_late_rerank = False, lg_no_chunks = True\<rparr>"

definition zero_reranker :: reranker where
  "zero_reranker = \<lparr>rk_model = ''m'', rk_version = ''1'', rk_corpus = ''c'', rk_sha = id,
     rk_predict = (\<lambda>pairs. Some (map (\<lambda>_. 0) pairs))\<rparr>"

lemma demo_hit_admits: "admits e demo_search (demo_hit n)"
  by (simp add: demo_hit_def demo_admits)

lemma demo_fused: "fused cfg [demo_hit 1, demo_hit 2] []
   = [add_rrf (fts_weight cfg / real (rrf_k cfg + 1)) (new_merged (demo_hit 1) (Some 1) None),
      add_rrf (fts_weight cfg / real (rrf_k cfg + 2)) (new_merged (demo_hit 2) (Some 2) None)]"
  by (simp add: fused_def fts_step_def has_doc_def at_doc_def add_rrf_def new_merged_def demo_hit_def
      hit_of_row_def demo_row_def)

definition fresh :: "hit \<Rightarrow> bool" where
  "fresh h \<longleftrightarrow> h_chunk h = None \<and> (\<exists>n. gate_view h = gate_view (demo_hit n))"

lemma demo_merged:
  "length (rrf_merge cfg [demo_hit 1, demo_hit 2] [] 20) = 2"
  "\<forall>h \<in> set (rrf_merge cfg [demo_hit 1, demo_hit 2] [] 20). fresh h"
proof -
  let ?all = "map (score_merged_doc cfg) (fused cfg [demo_hit 1, demo_hit 2] [])"
  have v: "fresh (score_merged_doc cfg (add_rrf x (new_merged (demo_hit n) fr sr)))" for x n fr sr
    by (auto simp: fresh_def score_merged_doc_def Let_def add_rrf_def new_merged_def gate_view_def demo_hit_def
        hit_of_row_def intro!: exI [of _ n])
  show "length (rrf_merge cfg [demo_hit 1, demo_hit 2] [] 20) = 2"
    by (simp add: rrf_merge_def demo_fused)
  show "\<forall>h \<in> set (rrf_merge cfg [demo_hit 1, demo_hit 2] [] 20). fresh h"
    unfolding rrf_merge_def demo_fused using v by (auto dest!: in_set_takeD)
qed

lemma look_up_keyless: "\<forall>h \<in> set hs. h_chunk h = None \<Longrightarrow> look_up_all rk q hs c = (map (\<lambda>_. None) hs, c)"
  by (induction hs) (simp_all add: rerank_key_def)

lemma missing_all: "missing_pairs q hs (map (\<lambda>_. None) hs) = map (\<lambda>h. (q, rerank_passage h)) hs"
  by (induction hs) (simp_all add: missing_pairs_def)

lemma fill_length:
  "length vs = length hs \<Longrightarrow> length (fst (fill_scores rk q gen hs vs new c)) = length hs"
  by (induction rk q gen hs vs new c rule: fill_scores.induct) (simp_all add: case_prod_beta Let_def split: option.split)

lemma demo_rerank:
  assumes "\<forall>h \<in> set hs. h_chunk h = None" "hs \<noteq> []"
  shows "\<exists>vs. length vs = length hs \<and> fst (rerank cfg zero_reranker q False hs c) = with_scores cfg hs vs"
proof -
  have "rerank cfg zero_reranker q False hs c
      = (let (vs, c2) = fill_scores zero_reranker q (generation c) hs (map (\<lambda>_. None) hs) (map (\<lambda>_. 0) hs) c
         in (with_scores cfg hs vs, Reranked, c2))"
    using assms by (simp add: rerank_def look_up_keyless missing_all zero_reranker_def comp_def)
  then show ?thesis
    by (intro exI [of _ "fst (fill_scores zero_reranker q (generation c) hs (map (\<lambda>_. None) hs) (map (\<lambda>_. 0) hs) c)"])
      (simp add: fill_length case_prod_beta Let_def)
qed

lemma demo_pipeline:
  "\<exists>r. retrieve_ranked DEFAULT_RANK_CONFIG e demo_search (Some zero_reranker) demo_legs [] q 1 c = Some r
     \<and> length (rt_hits r) = 2"
proof -
  let ?cfg = "DEFAULT_RANK_CONFIG"
  have w: "rerank_window ?cfg 1 = 20" "reranker_enabled ?cfg" "max (reranker_final_k ?cfg) 1 = 5"
    by (simp_all add: rerank_window_def DEFAULT_RANK_CONFIG_def)
  have all: "eligible e demo_search [demo_hit 1, demo_hit 2] g = ([demo_hit 1, demo_hit 2], g)" for g
  proof -
    have "fst (eligible e demo_search [demo_hit 1, demo_hit 2] g) = [demo_hit 1, demo_hit 2]"
      by (simp add: eligible_filter demo_hit_admits)
    then show ?thesis by (simp add: eligible_def demo_search_def)
  qed
  have none: "eligible e demo_search [] g = ([], g)" for g
    by (simp add: eligible_def demo_search_def in_scope_filter)
  have lex: "collect_eligible (lg_fts demo_legs) (eligible e demo_search) late True 20 g
      = \<lparr>c_rows = Some [demo_hit 1, demo_hit 2], c_exhausted = False, c_fetched = True, c_log = g\<rparr>" for late g
    unfolding collect_eligible_def Let_def
    by (subst collect_unfold) (simp add: demo_legs_def all COLLECT_CEILING_def)
  have "collect_eligible (lg_vector demo_legs) (eligible e demo_search) late False 20 g
      = \<lparr>c_rows = Some [], c_exhausted = False, c_fetched = True, c_log = g\<rparr>" for late g
    unfolding collect_eligible_def Let_def
    by (subst collect_unfold) (simp add: demo_legs_def none COLLECT_CEILING_def)
  then have vec: "vector_stage e demo_search demo_legs 20 [demo_hit 1, demo_hit 2] True g = ([], False, g)" for g
    by (simp add: vector_stage_def) (simp add: demo_legs_def)
  define m where "m = rrf_merge ?cfg [demo_hit 1, demo_hit 2] [] 20"
  have m: "length m = 2" "\<forall>h \<in> set m. fresh h" using demo_merged by (simp_all add: m_def)
  have adm: "admits e demo_search h" if "fresh h" for h
    using that gate_view_admits demo_hit_admits unfolding fresh_def by metis
  have me: "eligible e demo_search m g = (m, g)" for g
  proof -
    have "fst (eligible e demo_search m g) = m" using m(2) adm by (simp add: eligible_filter filter_id_conv)
    then show ?thesis by (simp add: eligible_def demo_search_def)
  qed
  have "m \<noteq> []" using m(1) by auto
  moreover have "\<forall>h \<in> set m. h_chunk h = None" using m(2) by (simp add: fresh_def)
  ultimately obtain vs where vs: "length vs = length m"
    "fst (rerank ?cfg zero_reranker q False m c) = with_scores ?cfg m vs"
    using demo_rerank [of m] by blast
  obtain out oc c' where rr: "rerank ?cfg zero_reranker q False m c = (out, oc, c')" by (metis prod_cases3)
  have len: "length out = 2"
    using vs rr m(1) by (simp add: with_scores_def apply_rerank_score_adjustments_def
        apply_decay_rerank_attenuation_def apply_correction_rerank_boost_def)
  have ok: "\<forall>h \<in> set out. lifecycle_ok demo_search h"
  proof
    fix h assume "h \<in> set out"
    then obtain k where "k \<in> set m" "gate_view h = gate_view k" using rerank_views [OF rr] by blast
    then have "admits e demo_search h" using m(2) adm gate_view_admits by metis
    then show "lifecycle_ok demo_search h" by (simp add: admits_def scoped_def)
  qed
  have st: "rerank_stage ?cfg (Some zero_reranker) False q 1 m c = (out, oc \<noteq> Reranked, c')"
    using rr len \<open>m \<noteq> []\<close> w by (simp add: rerank_stage_def)
  have g: "final_gate e demo_search g out = (out, None)" for g
    using ok by (simp add: final_gate_def demo_search_def filter_id_conv)
  have late: "\<not> lg_late_rerank demo_legs" by (simp add: demo_legs_def)
  show ?thesis
    using len
    by (simp add: retrieve_ranked_def Let_def w(1) lex vec none me [unfolded m_def] st [unfolded m_def] g
        apply_feedback_demotions_def late del: One_nat_def)
qed

theorem limit_is_not_a_cap:
  "\<exists>r. retrieve_ranked DEFAULT_RANK_CONFIG e demo_search (Some zero_reranker) demo_legs [] q 1 c = Some r
     \<and> 1 < length (rt_hits r)"
  using demo_pipeline [of e q c] by auto

theorem retrieval_sound_witness:
  "\<forall>e q c. \<exists>r. retrieve_ranked DEFAULT_RANK_CONFIG e demo_search (Some zero_reranker) demo_legs [] q 1 c = Some r
     \<and> length (rt_hits r) = 2 \<and> list_all (admits e demo_search) (rt_hits r)"
proof (intro allI)
  fix e q c
  obtain r where r: "retrieve_ranked DEFAULT_RANK_CONFIG e demo_search (Some zero_reranker) demo_legs [] q 1 c = Some r"
    "length (rt_hits r) = 2"
    using demo_pipeline by blast
  show "\<exists>r. retrieve_ranked DEFAULT_RANK_CONFIG e demo_search (Some zero_reranker) demo_legs [] q 1 c = Some r
     \<and> length (rt_hits r) = 2 \<and> list_all (admits e demo_search) (rt_hits r)"
    using retrieval_sound [OF r(1)] r by (auto simp: list_all_iff)
qed

text \<open>A caller that may read nothing of what matches.\<close>

definition private_hit :: hit where
  "private_hit = (demo_hit 1)\<lparr>h_privacy := ''private''\<rparr>"

definition stranger_search :: search_args where
  "stranger_search = demo_search\<lparr>a_principal := Some (demo_agent ''other'' [] [])\<rparr>"

definition private_legs :: legs where
  "private_legs = demo_legs\<lparr>lg_fts := (\<lambda>_. Some [private_hit])\<rparr>"

lemma private_scoped: "scoped e stranger_search private_hit"
  using demo_hit_admits [of e 1]
  by (simp add: admits_def scoped_def stranger_search_def private_hit_def lifecycle_ok_def skip_statuses_def
      status_of_def privacy_of_def in_layers_def candidate_time_def demo_search_def parse_iso_date_def
      normalize_agent_filter_def normalize_layers_def split: if_splits)

lemma private_unreadable: "\<not> may_read e stranger_search private_hit"
proof -
  have "\<not> audience_gate (demo_agent ''other'' [] [])
     [(''doc_id'', JInt 1), (''path'', JStr ''/v/a.md''), (''agent'', JStr ''codex''), (''sigil'', JStr []),
      (''page_status'', JStr ''accepted''), (''privacy_level'', JStr ''private''), (''page_type'', JNull),
      (''layer'', JStr ''knowledge'')]"
    by code_simp
  then show ?thesis
    by (simp add: may_read_def can_read_document_def stranger_search_def hit_json_def private_hit_def demo_hit_def
        hit_of_row_def demo_row_def or_text_def)
qed

theorem blackout_reported_witness:
  "\<forall>cfg e rk ds q limit c. \<exists>r n. retrieve_ranked cfg e stranger_search rk private_legs ds q limit c = Some r
     \<and> rt_suppressed r = Some n \<and> 0 < n \<and> rt_hits r = []"
proof (intro allI)
  fix cfg e rk ds q limit c
  have f: "lg_fts private_legs w = Some [private_hit]" for w by (simp add: private_legs_def)
  then obtain r where r: "retrieve_ranked cfg e stranger_search rk private_legs ds q limit c = Some r"
    using search_fetches [of cfg e stranger_search rk private_legs ds q limit c] by fastforce
  have "dark e stranger_search private_legs"
    using private_unreadable by (auto simp: dark_def leg_row_def private_legs_def demo_legs_def)
  moreover have "a_principal stranger_search \<noteq> None" by (simp add: stranger_search_def)
  ultimately show "\<exists>r n. retrieve_ranked cfg e stranger_search rk private_legs ds q limit c = Some r
     \<and> rt_suppressed r = Some n \<and> 0 < n \<and> rt_hits r = []"
    using blackout_reported [OF r] r f private_scoped by fastforce
qed

theorem budget_keeps_longest_prefix_witness:
  "budget_results length 5 [demo_hit 1, demo_hit 2] = stamped length [demo_hit 1]"
proof -
  let ?hs = "[demo_hit 1, demo_hit 2]"
  have "(0 :: int) < 5" "?hs \<noteq> []" by simp_all
  from budget_keeps_longest_prefix [OF this, of length] obtain n where n: "n \<le> length ?hs" "0 < n"
    "budget_results length 5 ?hs = stamped length (take n ?hs)" "1 < n \<longrightarrow> cost length (take n ?hs) \<le> 5"
    by blast
  have "n \<noteq> 2" using n(4) by (auto simp: entry_text_def demo_hit_def hit_of_row_def)
  then have "n = 1" using n(1,2) by simp
  then show ?thesis using n(3) by simp
qed

definition demo_vote :: "string \<Rightarrow> feedback_row" where
  "demo_vote q = \<lparr>fb_hash = [], fb_query = q, fb_doc = Some 7, fb_chunk = None, fb_agent = ''codex'',
     fb_useful = False, fb_at = 90\<rparr>"

theorem demotions_from_own_votes_witness:
  "\<forall>q. \<exists>ds c'. feedback_demotions True id 100 (FbRows [demo_vote q]) q (Some ''codex'') \<lparr>fc_table = [], fc_loaded = 0\<rparr> = (ds, c')
     \<and> demotion_of ds 7 = - 5 / 100"
proof
  fix q
  obtain ds c' where r: "feedback_demotions True id 100 (FbRows [demo_vote q]) q (Some ''codex'')
      \<lparr>fc_table = [], fc_loaded = 0\<rparr> = (ds, c')"
    by fastforce
  have g: "feedback_groups (\<lfloor>100 :: real\<rfloor> - 30 * 86400) [demo_vote q] = [((q, 7, ''codex'', False), 1)]"
    by (simp add: feedback_groups_def group_of_def demo_vote_def List.map_filter_def)
  have "{n. \<exists>g. (g, n) \<in> set (feedback_groups (\<lfloor>100 :: real\<rfloor> - 30 * 86400) [demo_vote q])
      \<and> counts_for id (or_text (Some ''codex'') ''main'', query_class id q) 7 (g, n)} = {1}"
    unfolding g by (auto simp: counts_for_def cache_key_of_def or_text_def)
  then have "demotion_of ds 7 = Min (insert 0 (vote_demotion ` {1}))"
    using demotions_from_own_votes [OF _ r, of 7] by simp
  then show "\<exists>ds c'. feedback_demotions True id 100 (FbRows [demo_vote q]) q (Some ''codex'') \<lparr>fc_table = [], fc_loaded = 0\<rparr> = (ds, c')
     \<and> demotion_of ds 7 = - 5 / 100"
    using r by (simp add: vote_demotion_def)
qed

section \<open>The vector leg stops short\<close>

text \<open>
  The loop over windows stops when the gate removed nothing.  The vector leg collapses chunks
  to documents, so a window filled by one document's chunks ends the search although closer
  looks would find more.
\<close>

definition chunk_row :: "int \<Rightarrow> int \<Rightarrow> doc_row" where
  "chunk_row c d = (demo_row d ''accepted'')\<lparr>r_chunk := Some c\<rparr>"

text \<open>Chunks 0 to 9 belong to document 1, chunk 10 to document 2.\<close>

definition crowded :: "nat \<Rightarrow> (int \<times> real) list" where
  "crowded n = take n (map (\<lambda>c. (int c, 1)) [0..<11])"

definition crowded_rows :: "int list \<Rightarrow> doc_row list" where
  "crowded_rows cs = map (\<lambda>c. chunk_row c (if c < 10 then 1 else 2)) cs"

lemma chunk_hit_admits: "admits e demo_search (hit_of_row (chunk_row c d) t)"
proof -
  have "gate_view (hit_of_row (chunk_row c d) t) = gate_view (demo_hit d)"
    by (simp add: gate_view_def demo_hit_def hit_of_row_def chunk_row_def demo_row_def)
  then show ?thesis using gate_view_admits demo_hit_admits by blast
qed

lemma crowded_once:
  "semantic_search (Some crowded) crowded_rows 2 = [hit_of_row (chunk_row 0 1) ''body'']"
proof -
  have "crowded 10 = map (\<lambda>c. (int c, 1)) [0,1,2,3,4,5,6,7,8,9]"
    by (simp add: crowded_def upt_rec)
  then show ?thesis
    by (simp add: semantic_search_def hits_to_dicts_def crowded_rows_def best_per_doc_def chunk_row_def
        hit_of_row_def demo_row_def or_text_def sort_desc_def)
qed

lemma crowded_more:
  "semantic_search (Some crowded) crowded_rows 3
    = [hit_of_row (chunk_row 0 1) ''body'', hit_of_row (chunk_row 10 2) ''body'']"
proof -
  have "crowded 15 = map (\<lambda>c. (int c, 1)) [0,1,2,3,4,5,6,7,8,9,10]"
    by (simp add: crowded_def upt_rec)
  then show ?thesis
    by (simp add: semantic_search_def hits_to_dicts_def crowded_rows_def best_per_doc_def chunk_row_def
        hit_of_row_def demo_row_def or_text_def sort_desc_def)
qed

theorem vector_leg_stops_short:
  "\<exists>h c. collect_eligible (\<lambda>w. Some (semantic_search (Some crowded) crowded_rows w)) (eligible e demo_search) late
       False 2 g = c \<and> c_rows c = Some [h] \<and> h_doc h = 1 \<and> \<not> c_exhausted c
     \<and> list_all (admits e demo_search) (semantic_search (Some crowded) crowded_rows 3)
     \<and> h_doc ` set (semantic_search (Some crowded) crowded_rows 3) = {1, 2}"
proof -
  let ?h = "hit_of_row (chunk_row 0 1) ''body''"
  have r: "collect_eligible (\<lambda>w. Some (semantic_search (Some crowded) crowded_rows w)) (eligible e demo_search) late
      False 2 g = \<lparr>c_rows = Some [?h], c_exhausted = False, c_fetched = True, c_log = snd (eligible e demo_search [?h] g)\<rparr>"
    unfolding collect_eligible_def Let_def
    by (subst collect_unfold) (simp add: crowded_once crowded_once [unfolded numeral_2_eq_2] eligible_filter chunk_hit_admits)
  show ?thesis
    unfolding r crowded_more by (simp add: chunk_hit_admits) (simp add: hit_of_row_def chunk_row_def demo_row_def)
qed

end
