(* ===== verification/Scoring.thy ===== *)
theory Scoring
  imports Decay
begin

text \<open>
  \<^verbatim>\<open>src/minni/scoring.py\<close>: confidence in [0, 1] from retrieval signals, calibrated against
  a rolling window of recorded scores.  The table is its rows with their ids, oldest first;
  a flag says that the database fails, another that the request deadline has passed.
\<close>

definition WINDOW_SIZE :: nat where
  "WINDOW_SIZE = 1000"

definition ACTIVATION_THRESHOLD :: nat where
  "ACTIVATION_THRESHOLD = 10"

record score_row =
  sr_id :: nat
  sr_raw :: real
  sr_kind :: string

record score_db =
  sd_rows :: "score_row list"
  sd_next :: nat
  sd_broken :: bool
  sd_expired :: bool

definition of_kind :: "string \<Rightarrow> score_db \<Rightarrow> score_row list" where
  "of_kind k d = filter (\<lambda>r. sr_kind r = k) (sd_rows d)"

text \<open>\<^verbatim>\<open>ORDER BY id DESC LIMIT n\<close>\<close>

definition newest :: "nat \<Rightarrow> 'a list \<Rightarrow> 'a list" where
  "newest n xs = take n (rev xs)"

definition window :: "score_db \<Rightarrow> real list" where
  "window d = map sr_raw (newest WINDOW_SIZE (of_kind ''combined'' d))"

record calibration =
  cal_rows :: nat
  cal_active :: bool
  cal_missing :: nat

definition calibration_status :: "score_db \<Rightarrow> calibration option" where
  "calibration_status d =
     (if sd_broken d \<or> sd_expired d then None
      else let n = length (window d)
           in Some \<lparr>cal_rows = n, cal_active = ACTIVATION_THRESHOLD \<le> n, cal_missing = ACTIVATION_THRESHOLD - n\<rparr>)"

subsection \<open>The raw blend\<close>

text \<open>\<^verbatim>\<open>math.exp(x)\<close> overflows above this value.\<close>

definition EXP_LIMIT :: real where
  "EXP_LIMIT = 709782712893384 / 10 ^ 12"

definition sigmoid_or_none :: "real option \<Rightarrow> real option" where
  "sigmoid_or_none ce =
     (case ce of
        None \<Rightarrow> None
      | Some x \<Rightarrow> if EXP_LIMIT < - x then None else Some (1 / (1 + exp (- x))))"

definition raw_confidence :: "real option \<Rightarrow> real option \<Rightarrow> real option \<Rightarrow> real" where
  "raw_confidence rrf_score cross_encoder_score decay_factor =
     (let rrf = (case rrf_score of None \<Rightarrow> 0 | Some x \<Rightarrow> x);
          decay = (case decay_factor of None \<Rightarrow> 1 | Some x \<Rightarrow> x);
          rrf_norm = min 1 (rrf * 20);
          raw = (case sigmoid_or_none cross_encoder_score of
                   Some p \<Rightarrow> 6 / 10 * p + 4 / 10 * rrf_norm
                 | None \<Rightarrow> rrf_norm)
      in raw * max 0 (min 1 decay))"

subsection \<open>Calibration\<close>

datatype deadline_error = RequestDeadlineExceeded

definition calibrate :: "real \<Rightarrow> score_db \<Rightarrow> deadline_error + real" where
  "calibrate raw d =
     (if sd_expired d then Inl RequestDeadlineExceeded
      else if sd_broken d then Inr raw
      else let w = window d; below = length (filter (\<lambda>x. x \<le> raw) w); n = length w
           in if n < ACTIVATION_THRESHOLD then Inr raw else Inr (real below / real n))"

definition unit_rounded :: "real \<Rightarrow> real" where
  "unit_rounded x = round4 (max 0 (min 1 x))"

definition calibrated_confidence :: "real \<Rightarrow> score_db \<Rightarrow> deadline_error + real" where
  "calibrated_confidence raw d = map_sum id unit_rounded (calibrate raw d)"

text \<open>Insert, then prune the rows of that kind beyond twice the window.\<close>

definition record_score :: "real \<Rightarrow> string \<Rightarrow> score_db \<Rightarrow> deadline_error + score_db" where
  "record_score raw kind d =
     (if sd_expired d then Inl RequestDeadlineExceeded
      else if sd_broken d then Inr d
      else let rows = sd_rows d @ [\<lparr>sr_id = sd_next d, sr_raw = raw, sr_kind = kind\<rparr>];
               keep = map sr_id (newest (WINDOW_SIZE * 2) (filter (\<lambda>r. sr_kind r = kind) rows))
           in Inr (d\<lparr>sd_rows := filter (\<lambda>r. sr_id r \<in> set keep \<or> sr_kind r \<noteq> kind) rows,
                     sd_next := sd_next d + 1\<rparr>))"

definition compute_confidence ::
  "real option \<Rightarrow> real option \<Rightarrow> real option \<Rightarrow> score_db option \<Rightarrow> bool \<Rightarrow> deadline_error + (real \<times> score_db option)" where
  "compute_confidence rrf ce decay db rec =
     (let raw = raw_confidence rrf ce decay
      in case db of
           None \<Rightarrow> Inr (unit_rounded raw, None)
         | Some d \<Rightarrow>
             (case (if rec then record_score raw ''combined'' d else Inr d) of
                Inl e \<Rightarrow> Inl e
              | Inr d' \<Rightarrow>
                  (case calibrate raw d' of
                     Inl e \<Rightarrow> Inl e
                   | Inr c \<Rightarrow> Inr (unit_rounded c, Some d'))))"

subsection \<open>The window\<close>

definition score_wf :: "score_db \<Rightarrow> bool" where
  "score_wf d \<longleftrightarrow> distinct (map sr_id (sd_rows d)) \<and> (\<forall>r \<in> set (sd_rows d). sr_id r < sd_next d)
     \<and> (\<forall>k. length (of_kind k d) \<le> 2 * WINDOW_SIZE)"

lemma set_newest: "set (newest n xs) = set (drop (length xs - n) xs)"
proof -
  have "newest n xs = rev (drop (length xs - n) xs)"
    unfolding newest_def by (rule take_rev)
  then show ?thesis by (simp only: set_rev)
qed

lemma newest_filter:
  assumes "distinct (map sr_id xs)"
  shows "filter (\<lambda>r. sr_id r \<in> set (map sr_id (newest n xs))) xs = drop (length xs - n) xs"
proof -
  define a where "a = take (length xs - n) xs"
  define b where "b = drop (length xs - n) xs"
  have xs: "xs = a @ b" by (simp add: a_def b_def)
  have d: "sr_id ` set a \<inter> sr_id ` set b = {}" using assms unfolding xs by auto
  have 1: "filter (\<lambda>r. sr_id r \<in> sr_id ` set b) a = []" using d by (auto simp: filter_empty_conv)
  have 2: "filter (\<lambda>r. sr_id r \<in> sr_id ` set b) b = b" by (auto simp: filter_id_conv)
  have "filter (\<lambda>r. sr_id r \<in> sr_id ` set b) xs = b"
    by (subst xs) (simp only: filter_append 1 2 append_Nil)
  then show ?thesis by (simp add: set_newest b_def)
qed

definition appended :: "real \<Rightarrow> string \<Rightarrow> score_db \<Rightarrow> score_row list" where
  "appended raw k d = sd_rows d @ [\<lparr>sr_id = sd_next d, sr_raw = raw, sr_kind = k\<rparr>]"

lemma record_score_ok:
  assumes "record_score raw k d = Inr d'" and "\<not> sd_broken d" and "score_wf d"
  shows "of_kind k d' = drop (length (of_kind k d) + 1 - 2 * WINDOW_SIZE)
                          (of_kind k d @ [\<lparr>sr_id = sd_next d, sr_raw = raw, sr_kind = k\<rparr>])"
    and "j \<noteq> k \<Longrightarrow> of_kind j d' = of_kind j d"
    and "sd_next d' = sd_next d + 1"
    and "set (sd_rows d') \<subseteq> set (appended raw k d)"
    and "distinct (map sr_id (sd_rows d'))"
    and "\<not> sd_broken d'" and "\<not> sd_expired d'"
proof -
  define xs where "xs = filter (\<lambda>r. sr_kind r = k) (appended raw k d)"
  define P :: "score_row \<Rightarrow> bool" where "P = (\<lambda>r. sr_id r \<in> set (map sr_id (newest (2 * WINDOW_SIZE) xs)))"
  have e: "\<not> sd_expired d" using assms(1) by (auto simp: record_score_def)
  have d': "d' = d\<lparr>sd_rows := filter (\<lambda>r. P r \<or> sr_kind r \<noteq> k) (appended raw k d),
                     sd_next := sd_next d + 1\<rparr>"
    using assms(1,2) e
    by (simp add: record_score_def Let_def xs_def P_def appended_def mult.commute del: filter_append)
  have dis: "distinct (map sr_id (appended raw k d))"
    using assms(3) by (auto simp: score_wf_def appended_def)
  have xs: "xs = of_kind k d @ [\<lparr>sr_id = sd_next d, sr_raw = raw, sr_kind = k\<rparr>]"
    by (simp add: xs_def appended_def of_kind_def)
  have "of_kind k d' = filter P xs"
    by (simp add: d' of_kind_def xs_def filter_filter conj_commute) (rule filter_cong, auto)
  also have "\<dots> = drop (length xs - 2 * WINDOW_SIZE) xs"
    unfolding P_def using dis by (intro newest_filter) (simp add: xs_def distinct_map_filter)
  finally show "of_kind k d' = drop (length (of_kind k d) + 1 - 2 * WINDOW_SIZE)
                          (of_kind k d @ [\<lparr>sr_id = sd_next d, sr_raw = raw, sr_kind = k\<rparr>])"
    by (simp add: xs)
  show "of_kind j d' = of_kind j d" if "j \<noteq> k"
  proof -
    have "of_kind j d' = filter (\<lambda>r. sr_kind r = j) (appended raw k d)"
      using that by (simp add: d' of_kind_def filter_filter) (rule filter_cong, auto)
    also have "\<dots> = of_kind j d" using that by (simp add: appended_def of_kind_def)
    finally show ?thesis .
  qed
  show "sd_next d' = sd_next d + 1" by (simp add: d')
  show "set (sd_rows d') \<subseteq> set (appended raw k d)" by (auto simp: d')
  show "distinct (map sr_id (sd_rows d'))" using dis by (simp add: d' distinct_map_filter)
  show "\<not> sd_broken d'" "\<not> sd_expired d'" using assms(2) e by (simp_all add: d')
qed

lemma record_score_wf:
  assumes "record_score raw k d = Inr d'" and "score_wf d"
  shows "score_wf d'"
proof (cases "sd_broken d")
  case True
  then show ?thesis using assms by (auto simp: record_score_def split: if_splits)
next
  case False
  note r = record_score_ok [OF assms(1) False assms(2)]
  have "sr_id x < sd_next d'" if "x \<in> set (sd_rows d')" for x
    using r(4) that assms(2) by (auto simp: appended_def score_wf_def r(3) less_Suc_eq)
  moreover have "length (of_kind j d') \<le> 2 * WINDOW_SIZE" for j
  proof (cases "j = k")
    case True
    then show ?thesis by (simp add: r(1))
  next
    case False
    then show ?thesis using r(2) assms(2) by (simp add: score_wf_def)
  qed
  ultimately show ?thesis using r(5) by (simp add: score_wf_def)
qed

subsection \<open>Runs of scores\<close>

text \<open>Recording the final scores of a search, one row per score, as the recall handler does.\<close>

primrec record_all :: "real list \<Rightarrow> string \<Rightarrow> score_db \<Rightarrow> deadline_error + score_db" where
  "record_all [] k d = Inr d"
| "record_all (x # xs) k d = (case record_score x k d of Inl e \<Rightarrow> Inl e | Inr d' \<Rightarrow> record_all xs k d')"

lemma newest_append: "newest n (xs @ [x]) = (if n = 0 then [] else x # newest (n - 1) xs)"
  by (cases n) (simp_all add: newest_def)

lemma newest_drop: "m + n \<le> length xs \<or> m = 0 \<Longrightarrow> newest n (drop m xs) = newest n xs"
  by (auto simp: newest_def rev_drop [symmetric] take_rev)

lemma record_score_newest:
  assumes "record_score raw k d = Inr d'" and "\<not> sd_broken d" and "score_wf d"
    and "n \<le> 2 * WINDOW_SIZE"
  shows "map sr_raw (newest n (of_kind k d')) = take n (raw # map sr_raw (newest n (of_kind k d)))"
proof -
  have "newest n (of_kind k d') = newest n (of_kind k d @ [\<lparr>sr_id = sd_next d, sr_raw = raw, sr_kind = k\<rparr>])"
    unfolding record_score_ok(1) [OF assms(1-3)] using assms(4)
    by (intro newest_drop) auto
  also have "\<dots> = take n (\<lparr>sr_id = sd_next d, sr_raw = raw, sr_kind = k\<rparr> # newest n (of_kind k d))"
    by (cases n) (auto simp: newest_append newest_def min_def)
  finally show ?thesis by (simp add: take_map [symmetric]) 
qed

lemma record_all_window:
  assumes "record_all xs ''combined'' d = Inr d'" and "\<not> sd_broken d" and "score_wf d"
  shows "window d' = take WINDOW_SIZE (rev xs @ window d) \<and> score_wf d'
    \<and> \<not> sd_broken d' \<and> (xs \<noteq> [] \<longrightarrow> \<not> sd_expired d')"
  using assms
proof (induction xs arbitrary: d)
  case Nil
  then show ?case by (simp add: window_def newest_def)
next
  case (Cons x xs)
  obtain d1 where d1: "record_score x ''combined'' d = Inr d1" and r: "record_all xs ''combined'' d1 = Inr d'"
    using Cons.prems(1) by (auto split: sum.splits)
  note ok = record_score_ok [OF d1 Cons.prems(2,3)]
  have w: "window d1 = take WINDOW_SIZE (x # window d)"
    unfolding window_def by (rule record_score_newest [OF d1 Cons.prems(2,3)]) simp
  have ih: "window d' = take WINDOW_SIZE (rev xs @ window d1) \<and> score_wf d'
    \<and> \<not> sd_broken d' \<and> (xs \<noteq> [] \<longrightarrow> \<not> sd_expired d')"
    by (rule Cons.IH [OF r ok(6) record_score_wf [OF d1 Cons.prems(3)]])
  have "take WINDOW_SIZE (rev xs @ take WINDOW_SIZE (x # window d))
      = take WINDOW_SIZE (rev xs @ x # window d)"
    by (simp add: take_append min_def)
  moreover have "xs = [] \<Longrightarrow> d' = d1" using r by simp
  ultimately show ?case using ih w ok(7) by (cases "xs = []") auto
qed

lemma record_all_total:
  assumes "\<not> sd_expired d"
  shows "\<exists>d'. record_all xs k d = Inr d' \<and> \<not> sd_expired d'"
  using assms
proof (induction xs arbitrary: d)
  case (Cons x xs)
  have "\<exists>d1. record_score x k d = Inr d1 \<and> \<not> sd_expired d1"
    using Cons.prems by (cases "sd_broken d") (simp_all add: record_score_def Let_def)
  then obtain d1 where "record_score x k d = Inr d1" "\<not> sd_expired d1" by blast
  then show ?case using Cons.IH [of d1] by simp
qed simp

definition fresh_scores :: score_db where
  "fresh_scores = \<lparr>sd_rows = [], sd_next = 1, sd_broken = False, sd_expired = False\<rparr>"

lemma fresh_scores_wf: "score_wf fresh_scores"
  by (simp add: score_wf_def fresh_scores_def of_kind_def)

theorem confidence_is_rank_among_latest:
  assumes "ACTIVATION_THRESHOLD \<le> length xs"
  shows "\<exists>d. record_all xs ''combined'' fresh_scores = Inr d
    \<and> (let w = take WINDOW_SIZE (rev xs)
       in calibrate raw d = Inr (real (length (filter (\<lambda>x. x \<le> raw) w)) / real (length w)))"
proof -
  obtain d where d: "record_all xs ''combined'' fresh_scores = Inr d" and e: "\<not> sd_expired d"
    using record_all_total [of fresh_scores xs "''combined''"] by (auto simp: fresh_scores_def)
  have w: "window d = take WINDOW_SIZE (rev xs)" and b: "\<not> sd_broken d"
    using record_all_window [OF d] fresh_scores_wf
    by (simp_all add: fresh_scores_def window_def of_kind_def newest_def)
  have "\<not> length (window d) < ACTIVATION_THRESHOLD"
    using assms unfolding w by (simp add: WINDOW_SIZE_def ACTIVATION_THRESHOLD_def)
  then show ?thesis using d e b by (simp add: calibrate_def Let_def w)
qed

theorem confidence_is_rank_among_latest_witness:
  "\<exists>d. record_all [1, 2, 3, 4, 5, 6, 7, 8, 9, 10] ''combined'' fresh_scores = Inr d
    \<and> calibrate 3 d = Inr (3 / 10)"
  using confidence_is_rank_among_latest [of "[1, 2, 3, 4, 5, 6, 7, 8, 9, 10]" 3]
  by (simp add: ACTIVATION_THRESHOLD_def WINDOW_SIZE_def)

theorem score_window_bounded:
  assumes "score_wf d" and "record_all xs k d = Inr d'"
  shows "length (of_kind j d') \<le> 2 * WINDOW_SIZE"
proof -
  have "score_wf d'" using assms
    by (induction xs arbitrary: d) (auto split: sum.splits intro: record_score_wf)
  then show ?thesis by (simp add: score_wf_def)
qed

theorem score_window_bounded_witness:
  "\<exists>d. record_all (replicate 5000 1) ''combined'' fresh_scores = Inr d \<and> length (of_kind ''combined'' d) \<le> 2000"
proof -
  obtain d where "record_all (replicate 5000 1) ''combined'' fresh_scores = Inr d"
    using record_all_total [of fresh_scores] by (fastforce simp: fresh_scores_def)
  from score_window_bounded [OF fresh_scores_wf this, of "''combined''"] this
  show ?thesis by (auto simp: WINDOW_SIZE_def)
qed

subsection \<open>Bounds\<close>

lemma round_half_even_mono: "x \<le> y \<Longrightarrow> round_half_even x \<le> round_half_even y"
proof (cases "\<lfloor>x\<rfloor> = \<lfloor>y\<rfloor>")
  case True
  then show "x \<le> y \<Longrightarrow> round_half_even x \<le> round_half_even y"
    by (auto simp: round_half_even_def Let_def)
next
  case False
  assume "x \<le> y"
  then have "\<lfloor>x\<rfloor> + 1 \<le> \<lfloor>y\<rfloor>" using False floor_mono [of x y] by linarith
  moreover have "round_half_even x \<le> \<lfloor>x\<rfloor> + 1" "\<lfloor>y\<rfloor> \<le> round_half_even y"
    by (auto simp: round_half_even_def Let_def)
  ultimately show "round_half_even x \<le> round_half_even y" by linarith
qed

lemma round4_mono: "x \<le> y \<Longrightarrow> round4 x \<le> round4 y"
  using round_half_even_mono [of "x * 10000" "y * 10000"] by (simp add: round4_def)

lemma round4_ge_0: "0 \<le> x \<Longrightarrow> 0 \<le> round4 x"
  using round_half_even_mono_int [of 0 "x * 10000"] by (simp add: round4_def)

lemma unit_rounded_mono: "x \<le> y \<Longrightarrow> unit_rounded x \<le> unit_rounded y"
  unfolding unit_rounded_def by (intro round4_mono) auto

lemma unit_rounded_bounds: "0 \<le> unit_rounded x \<and> unit_rounded x \<le> 1"
  by (simp add: unit_rounded_def round4_le_1 round4_ge_0)

lemma calibrate_mono:
  assumes "x \<le> y" and "calibrate x d = Inr a" and "calibrate y d = Inr b"
  shows "a \<le> b"
proof -
  have "length (filter (\<lambda>r. r \<le> x) (window d)) \<le> length (filter (\<lambda>r. r \<le> y) (window d))"
    using assms(1) by (intro length_filter_mono) simp
  then show ?thesis using assms
    by (auto simp: calibrate_def Let_def divide_right_mono split: if_splits)
qed

theorem confidence_bounded_monotone:
  assumes "calibrated_confidence x d = Inr a" and "calibrated_confidence y d = Inr b" and "x \<le> y"
  shows "0 \<le> a \<and> a \<le> b \<and> b \<le> 1"
proof -
  obtain u v where "calibrate x d = Inr u" "calibrate y d = Inr v"
    and ab: "a = unit_rounded u" "b = unit_rounded v"
    using assms(1,2) by (auto simp: calibrated_confidence_def map_sum_def split: sum.splits)
  then have "u \<le> v" using calibrate_mono assms(3) by blast
  then show ?thesis by (simp add: ab unit_rounded_bounds unit_rounded_mono)
qed

theorem confidence_bounded_monotone_witness:
  "calibrated_confidence (1 / 4) fresh_scores = Inr (unit_rounded (1 / 4))
    \<and> calibrated_confidence 3 fresh_scores = Inr (unit_rounded 3)
    \<and> 0 \<le> unit_rounded (1 / 4 :: real) \<and> unit_rounded (1 / 4 :: real) \<le> unit_rounded 3 \<and> unit_rounded (3 :: real) \<le> 1"
proof -
  have c: "calibrated_confidence x fresh_scores = Inr (unit_rounded x)" for x
    by (simp add: calibrated_confidence_def calibrate_def fresh_scores_def window_def of_kind_def
        newest_def ACTIVATION_THRESHOLD_def Let_def)
  show ?thesis using confidence_bounded_monotone [OF c c, of "1 / 4" 3] by (simp add: c)
qed

end
