(* ===== verification/Evidence.thy ===== *)
theory Evidence
  imports Retrieve_Laws Safety Scoring
begin

text \<open>
  \<^verbatim>\<open>src/minni/retrieval.py\<close>: the evidence envelope around every text a model gets to see, and the
  fields a hit is shown with.  Text is a list of code points here, since the marker of the
  perturbation is U+2063; \<open>ucd\<close> says which code points above 127 are word characters or spaces.
\<close>

section \<open>Substitution\<close>

type_synonym ucs = "nat list"

definition cps :: "string \<Rightarrow> ucs" where
  "cps s = map code_point s"

text \<open>\<open>k\<close> folds case: matching compares folded characters.\<close>

definition matches :: "('a \<Rightarrow> 'a) \<Rightarrow> 'a list \<Rightarrow> 'a list \<Rightarrow> bool" where
  "matches k p s \<longleftrightarrow> length p \<le> length s \<and> map k (take (length p) s) = map k p"

text \<open>\<^verbatim>\<open>str.replace\<close>, and \<^verbatim>\<open>re.sub\<close> for a literal pattern.\<close>

fun subst_all :: "('a \<Rightarrow> 'a) \<Rightarrow> 'a list \<Rightarrow> 'a list \<Rightarrow> 'a list \<Rightarrow> 'a list" where
  "subst_all k p new [] = []"
| "subst_all k p new (c # cs) =
     (if matches k p (c # cs) then new @ subst_all k p new (drop (length p - 1) cs)
      else c # subst_all k p new cs)"

abbreviation replace_all :: "'a list \<Rightarrow> 'a list \<Rightarrow> 'a list \<Rightarrow> 'a list" where
  "replace_all \<equiv> subst_all id"

text \<open>\<^verbatim>\<open>IGNORECASE\<close> on the letters of EVIDENCE: besides ASCII, the dotted and dotless i.\<close>

definition fold_cp :: "nat \<Rightarrow> nat" where
  "fold_cp c = (if 65 \<le> c \<and> c \<le> 90 then c + 32 else if c = 0x130 \<or> c = 0x131 then 105 else c)"

section \<open>Escaping\<close>

definition xml_attr_escape :: "ucs \<Rightarrow> ucs" where
  "xml_attr_escape s = replace_all (cps ''>'') (cps ''&gt;'') (replace_all (cps ''<'') (cps ''&lt;'')
     (replace_all [34] (cps ''&quot;'') (replace_all (cps ''&'') (cps ''&amp;'') s)))"

definition OPEN_TAG :: ucs where
  "OPEN_TAG = cps ''<EVIDENCE''"

definition END_TAG :: ucs where
  "END_TAG = cps ''</''"

definition evidence_body_escape :: "ucs \<Rightarrow> ucs" where
  "evidence_body_escape s = subst_all fold_cp OPEN_TAG (cps ''&#60;EVIDENCE'')
     (replace_all END_TAG [60, 92, 47] (replace_all [10, 35] [10, 92, 35] (replace_all [96] [92, 96] s)))"

subsection \<open>Perturbation\<close>

definition BOUNDARY :: nat where
  "BOUNDARY = 0x2063"

definition PLACEHOLDER :: ucs where
  "PLACEHOLDER = [0] @ cps ''MINNI_BOUNDARY'' @ [0]"

record ucd =
  ucd_word :: "nat \<Rightarrow> bool"
  ucd_space :: "nat \<Rightarrow> bool"

definition word_cp :: "ucd \<Rightarrow> nat \<Rightarrow> bool" where
  "word_cp u c \<longleftrightarrow> (if c < 128 then is_word_char (char_of c) else ucd_word u c)"

definition space_cp :: "ucd \<Rightarrow> nat \<Rightarrow> bool" where
  "space_cp u c \<longleftrightarrow> (if c < 128 then py_space (char_of c) else ucd_space u c)"

text \<open>
  \<open>(?<=\w)(\s+)(?=\w)\<close>: a run of spaces between word characters; \<open>prev\<close> says that the
  character before is one.  No space is a word character, so only a run's first space matches.
\<close>

fun mark_boundaries :: "ucd \<Rightarrow> bool \<Rightarrow> ucs \<Rightarrow> ucs" where
  "mark_boundaries u prev [] = []"
| "mark_boundaries u prev (c # cs) =
     (if prev \<and> space_cp u c \<and> (case dropWhile (space_cp u) cs of [] \<Rightarrow> False | d # ds \<Rightarrow> word_cp u d)
      then BOUNDARY # c # mark_boundaries u (word_cp u c) cs
      else c # mark_boundaries u (word_cp u c) cs)"

definition perturb_body :: "ucd \<Rightarrow> ucs \<Rightarrow> ucs" where
  "perturb_body u s = mark_boundaries u False (replace_all [BOUNDARY] [BOUNDARY, BOUNDARY] s)"

definition recover_body :: "ucs \<Rightarrow> ucs" where
  "recover_body s = replace_all PLACEHOLDER [BOUNDARY]
     (replace_all [BOUNDARY] [] (replace_all [BOUNDARY, BOUNDARY] PLACEHOLDER s))"

subsection \<open>The envelope\<close>

definition normalize_attribution_label :: "string option \<Rightarrow> string option" where
  "normalize_attribution_label l =
     map_of [(''entailment'', ''entailed''), (''entailed'', ''entailed''), (''neutral'', ''neutral''),
       (''contradiction'', ''contradicted''), (''contradicted'', ''contradicted'')]
       (py_lower (py_strip (or_text l [])))"

text \<open>\<^verbatim>\<open>f"{x:.3f}"\<close>\<close>

definition pad3 :: "nat \<Rightarrow> string" where
  "pad3 n = (let s = dec_digits n in replicate (3 - length s) (CHR ''0'') @ s)"

definition fixed3 :: "real \<Rightarrow> string" where
  "fixed3 x = (let n = nat (round_half_even (\<bar>x\<bar> * 1000))
     in (if x < 0 then ''-'' else []) @ dec_digits (n div 1000) @ ''.'' @ pad3 (n mod 1000))"

record evidence =
  ev_source :: ucs
  ev_agent :: ucs
  ev_status :: ucs
  ev_privacy :: ucs
  ev_score :: real
  ev_flag :: bool                  \<comment> \<open>\<^verbatim>\<open>instruction_like\<close>\<close>
  ev_visibility :: ucs
  ev_text :: ucs
  ev_attribution :: "string option"

definition attr :: "string \<Rightarrow> ucs \<Rightarrow> ucs" where
  "attr name v = cps name @ cps ''='' @ [34] @ v @ [34]"

definition bool_text :: "bool \<Rightarrow> string" where
  "bool_text b = (if b then ''true'' else ''false'')"

definition envelope_attrs :: "evidence \<Rightarrow> ucs" where
  "envelope_attrs v =
     cps '' '' @ attr ''source'' (xml_attr_escape (ev_source v))
     @ cps '' '' @ attr ''agent'' (xml_attr_escape (ev_agent v))
     @ cps '' '' @ attr ''status'' (xml_attr_escape (ev_status v))
     @ cps '' '' @ attr ''privacy'' (xml_attr_escape (ev_privacy v))
     @ cps '' '' @ attr ''score'' (cps (fixed3 (ev_score v)))
     @ cps '' '' @ attr ''instruction_like'' (cps (bool_text (ev_flag v)))
     @ (case normalize_attribution_label (ev_attribution v) of
          None \<Rightarrow> [] | Some l \<Rightarrow> cps '' '' @ attr ''attribution'' (xml_attr_escape (cps l)))
     @ cps '' '' @ attr ''visibility'' (xml_attr_escape (ev_visibility v))"

definition envelope_body :: "ucd \<Rightarrow> bool \<Rightarrow> evidence \<Rightarrow> ucs" where
  "envelope_body u perturbation v =
     (let body = evidence_body_escape (ev_text v)
      in if ev_flag v \<and> perturbation then perturb_body u body else body)"

definition build_evidence_envelope :: "ucd \<Rightarrow> bool \<Rightarrow> evidence \<Rightarrow> ucs" where
  "build_evidence_envelope u perturbation v =
     OPEN_TAG @ envelope_attrs v @ cps ''>'' @ envelope_body u perturbation v @ cps ''</EVIDENCE>''"

text \<open>The text of the snippet tier.\<close>

definition SNIPPET_MAX_CHARS :: nat where
  "SNIPPET_MAX_CHARS = 280"

definition snippet_text :: "ucs \<Rightarrow> ucs" where
  "snippet_text t = (if SNIPPET_MAX_CHARS < length t then take SNIPPET_MAX_CHARS t @ [0x2026] else t)"

end
