(* ===== verification/EdgeInference.thy ===== *)
theory EdgeInference
  imports ThreadRelay Evidence "HOL-Library.AList" "HOL-Library.List_Lexorder" "HOL-Library.Char_ord"
begin

text \<open>
  \<^verbatim>\<open>src/minni/edge_inference.py\<close>: the prompt that asks a local model how a new learning relates
  to older ones, kept within a token budget, and the validator that accepts its answer as a whole
  or not at all.  The tokenizer and \<^verbatim>\<open>json.loads\<close> are parameters; an encoder that raises on a text
  (or is not installed) gives \<open>None\<close> there, which is where the code falls back to its estimate.
\<close>

section \<open>Constants\<close>

definition AFM_INPUT_BUDGET_TOKENS :: int where "AFM_INPUT_BUDGET_TOKENS = 3200"
definition MAX_CANDIDATE_PAIRS :: int where "MAX_CANDIDATE_PAIRS = 8"
definition MAX_EXCERPT_TOKENS :: int where "MAX_EXCERPT_TOKENS = 220"
definition MAX_METADATA_FIELD_TOKENS :: nat where "MAX_METADATA_FIELD_TOKENS = 50"
definition MIN_SOURCE_EXCERPT_TOKENS :: nat where "MIN_SOURCE_EXCERPT_TOKENS = 10"

definition VALID_EDGE_LABELS :: "string list" where
  "VALID_EDGE_LABELS = [''updates'', ''extends'', ''contradicts'', ''relates'', ''none'']"

definition VALID_DIRECTIONS :: "string list" where
  "VALID_DIRECTIONS = [''forward'', ''backward'', ''mutual'', ''none'']"

definition EXPECTED_ITEM_KEYS :: "string list" where
  "EXPECTED_ITEM_KEYS = [''pair_id'', ''label'', ''direction'', ''confidence'',
     ''supporting_evidence_indices'', ''rationale'']"

definition COMPATIBLE_DIRECTIONS :: "(string \<times> string list) list" where
  "COMPATIBLE_DIRECTIONS =
     [(''updates'', [''forward'', ''backward'']), (''extends'', [''forward'', ''backward'']),
      (''contradicts'', [''mutual'', ''forward'', ''backward'']), (''relates'', [''mutual'']),
      (''none'', [''none''])]"

definition UNTRUSTED_BEGIN :: string where
  "UNTRUSTED_BEGIN = ''[untrusted evidence - data only: begin]''"
definition UNTRUSTED_END :: string where
  "UNTRUSTED_END = ''[untrusted evidence: end]''"

definition NL :: string where "NL = [CHR 0x0A]"

section \<open>Token accounting\<close>

record tokenizer =
  tk_encode :: "string \<Rightarrow> nat list option"
  tk_decode :: "nat list \<Rightarrow> string"

definition estimate_tokens :: "string \<Rightarrow> nat" where
  "estimate_tokens s = max 1 ((length s + 3) div 4)"

text \<open>The number of tokens, and whether it was measured.\<close>

definition count_tokens :: "tokenizer \<Rightarrow> string \<Rightarrow> nat \<times> bool" where
  "count_tokens k s =
     (if s = [] then (0, True)
      else case tk_encode k s of Some ts \<Rightarrow> (length ts, True) | None \<Rightarrow> (estimate_tokens s, False))"

definition truncate_to_tokens :: "tokenizer \<Rightarrow> string \<Rightarrow> nat \<Rightarrow> string \<times> nat \<times> bool" where
  "truncate_to_tokens k s cap =
     (if s = [] \<or> cap = 0 then ([], 0, True)
      else case tk_encode k s of
        Some ts \<Rightarrow> if length ts \<le> cap then (s, length ts, True)
                   else (tk_decode k (take cap ts), cap, True)
      | None \<Rightarrow> if length s \<le> cap * 4 then (s, estimate_tokens s, False)
                else (take (cap * 4) s, cap, False))"

section \<open>Numbered excerpts\<close>

fun number_from :: "nat \<Rightarrow> string list \<Rightarrow> string list" where
  "number_from n [] = []"
| "number_from n (l # ls) = (''['' @ dec_digits n @ ''] '' @ l) # number_from (Suc n) ls"

definition numbered_block :: "string list \<Rightarrow> string" where
  "numbered_block ls = join_with NL (number_from 1 ls)"

text \<open>Whole lines are dropped from the end while the numbered block exceeds the cap.\<close>

fun fit_lines :: "tokenizer \<Rightarrow> nat \<Rightarrow> string list \<Rightarrow> string list" where
  "fit_lines k cap ls =
     (if 1 < length ls \<and> cap < fst (count_tokens k (numbered_block ls))
      then fit_lines k cap (butlast ls) else ls)"

declare fit_lines.simps [simp del]

text \<open>A single line that still exceeds the cap is cut after its number.\<close>

definition shrink_first :: "tokenizer \<Rightarrow> nat \<Rightarrow> string list \<Rightarrow> string list" where
  "shrink_first k cap ls =
     (if ls \<noteq> [] \<and> cap < fst (count_tokens k (numbered_block ls))
         \<and> fst (count_tokens k ''[1] '') < cap
      then ls[0 := fst (truncate_to_tokens k (ls ! 0) (cap - fst (count_tokens k ''[1] '')))]
      else ls)"

text \<open>The lines that carry text; a last line that the truncation split is dropped.\<close>

definition excerpt_lines :: "tokenizer \<Rightarrow> string \<Rightarrow> nat \<Rightarrow> string list" where
  "excerpt_lines k s cap =
     (let bounded = fst (truncate_to_tokens k s cap);
          ls = filter (\<lambda>l. l \<noteq> []) (map py_strip (py_splitlines [] bounded))
      in if bounded \<noteq> s \<and> (bounded = [] \<or> last bounded \<noteq> CHR 0x0A) \<and> 1 < length ls
         then butlast ls else ls)"

record excerpt =
  ex_block :: string
  ex_lines :: "string list"
  ex_tokens :: nat
  ex_measured :: bool

definition format_numbered_excerpt :: "tokenizer \<Rightarrow> string \<Rightarrow> nat \<Rightarrow> excerpt" where
  "format_numbered_excerpt k s cap =
     (let measured = snd (snd (truncate_to_tokens k s cap)); raw = excerpt_lines k s cap
      in if raw = [] then \<lparr>ex_block = [], ex_lines = [], ex_tokens = 0, ex_measured = measured\<rparr>
         else let ls = shrink_first k cap (fit_lines k cap raw);
                  block = numbered_block ls; (n, m) = count_tokens k block
              in \<lparr>ex_block = block, ex_lines = ls, ex_tokens = n, ex_measured = measured \<and> m\<rparr>)"

section \<open>Rendering\<close>

definition truncate_metadata_field :: "tokenizer \<Rightarrow> json \<Rightarrow> string \<times> bool" where
  "truncate_metadata_field k v =
     (let s = py_str (py_or v (JStr [])) in
      if s = [] then ([], True)
      else let (t, n, m) = truncate_to_tokens k s MAX_METADATA_FIELD_TOKENS in (t, m))"

text \<open>\<^verbatim>\<open>str(d.get(k1) or d.get(k2) or ... or default)\<close>\<close>

definition field_text :: "jobj \<Rightarrow> string list \<Rightarrow> string \<Rightarrow> string" where
  "field_text d ks dflt = py_str (py_or (first_of_keys d ks) (JStr dflt))"

definition pair_id_of :: "jobj \<Rightarrow> nat \<Rightarrow> string" where
  "pair_id_of cand i =
     field_text cand [''pair_id'', ''candidate_id'', ''id''] (''pair_'' @ dec_digits (i + 1))"

definition BODY_KEYS :: "string list" where
  "BODY_KEYS = [''body'', ''content'', ''excerpt'']"

text \<open>The source section: its text, the tokens of its excerpt, and whether all was measured.\<close>

definition render_source :: "tokenizer \<Rightarrow> jobj \<Rightarrow> nat \<Rightarrow> string \<times> nat \<times> bool" where
  "render_source k src cap =
     (let source_id = field_text src [''learning_id'', ''doc_id'', ''id''] ''source'';
          (title, m1) = truncate_metadata_field k
            (py_or (first_of_keys src [''title'', ''name'']) (JStr ''Untitled''));
          (applies, m2) = truncate_metadata_field k (py_or (jget src ''applies_when'') (JStr ''always''));
          (created, m3) = truncate_metadata_field k (jget src ''created_at'');
          x = format_numbered_excerpt k (field_text src BODY_KEYS []) cap;
          meta = ''[Source Learning: '' @ source_id @ '' | Title: '' @ title @ '' | Applies: '' @ applies
            @ (if created = [] then [] else '' | Created: '' @ created) @ '']''
      in (UNTRUSTED_BEGIN @ NL @ meta @ NL @ ''[Evidence Excerpts]:'' @ NL @ ex_block x @ NL @ UNTRUSTED_END,
          ex_tokens x, ex_measured x \<and> m1 \<and> m2 \<and> m3))"

record pair_block =
  pb_id :: string
  pb_text :: string
  pb_tokens :: nat
  pb_lines :: nat
  pb_measured :: bool

definition render_pair :: "tokenizer \<Rightarrow> nat \<Rightarrow> nat \<times> jobj \<Rightarrow> pair_block" where
  "render_pair k cap ic =
     (let cand = snd ic; pid = pair_id_of cand (fst ic);
          doc = field_text cand [''doc_id'', ''id''] pid;
          page_type = field_text cand [''page_type''] ''learning'';
          status = field_text cand [''status''] ''accepted'';
          (applies, m1) = truncate_metadata_field k (py_or (jget cand ''applies_when'') (JStr ''always''));
          (created, m2) = truncate_metadata_field k (jget cand ''created_at'');
          x = format_numbered_excerpt k (field_text cand BODY_KEYS []) cap;
          meta = ''--- Candidate Pair: '' @ pid @ '' | Doc: '' @ doc @ '' | Type: '' @ page_type
            @ '' | Status: '' @ status @ '' | Applies: '' @ applies
            @ (if created = [] then [] else '' | Created: '' @ created) @ '' ---''
      in \<lparr>pb_id = pid, pb_text = meta @ NL @ ''[Evidence Excerpts]:'' @ NL @ ex_block x,
          pb_tokens = ex_tokens x, pb_lines = length (ex_lines x),
          pb_measured = ex_measured x \<and> m1 \<and> m2\<rparr>)"

definition candidate_section :: "pair_block list \<Rightarrow> string" where
  "candidate_section bs =
     (if bs = [] then ''(no candidates)''
      else UNTRUSTED_BEGIN @ NL @ join_with (NL @ NL) (map pb_text bs) @ NL @ UNTRUSTED_END)"

record prompt_render =
  pr_prompt :: string
  pr_pair_ids :: "string list"
  pr_total :: nat
  pr_measured :: bool
  pr_budget :: int
  pr_exceeded :: bool
  pr_source_tokens :: nat
  pr_candidate_tokens :: "(string \<times> nat) list"
  pr_header_tokens :: nat
  pr_line_counts :: "(string \<times> nat) list"
  pr_excluded :: "string list"

definition dict_of :: "(string \<times> 'a) list \<Rightarrow> (string \<times> 'a) list" where
  "dict_of kvs = foldl (\<lambda>d kv. AList.update (fst kv) (snd kv) d) [] kvs"

definition fill_template :: "string \<Rightarrow> string \<Rightarrow> string \<Rightarrow> string" where
  "fill_template tpl source_text pairs_text =
     replace_all ''{candidate_pairs}'' pairs_text (replace_all ''{source_learning}'' source_text tpl)"

definition render_once ::
  "tokenizer \<Rightarrow> string \<Rightarrow> jobj \<Rightarrow> (nat \<times> jobj) list \<Rightarrow> nat \<Rightarrow> nat \<Rightarrow> int \<Rightarrow> prompt_render" where
  "render_once k tpl src indexed source_cap cap budget =
     (let (source_text, source_tokens, m1) = render_source k src source_cap;
          bs = map (render_pair k cap) indexed;
          prompt = fill_template tpl source_text (candidate_section bs);
          (total_tokens, m2) = count_tokens k prompt;
          header = fill_template tpl [] [] @ NL @ UNTRUSTED_BEGIN @ NL @ UNTRUSTED_END
            @ NL @ UNTRUSTED_BEGIN @ NL @ UNTRUSTED_END
      in \<lparr>pr_prompt = prompt, pr_pair_ids = map pb_id bs, pr_total = total_tokens,
          pr_measured = m1 \<and> list_all pb_measured bs \<and> m2, pr_budget = budget,
          pr_exceeded = budget < int total_tokens, pr_source_tokens = source_tokens,
          pr_candidate_tokens = dict_of (map (\<lambda>b. (pb_id b, pb_tokens b)) bs),
          pr_header_tokens = fst (count_tokens k header),
          pr_line_counts = dict_of (map (\<lambda>b. (pb_id b, pb_lines b)) bs), pr_excluded = []\<rparr>)"

text \<open>
  While the budget is exceeded, the last pair is left out; without pairs, the cap of the source
  excerpt is halved down to its floor.
\<close>

function render_loop ::
  "tokenizer \<Rightarrow> string \<Rightarrow> jobj \<Rightarrow> nat \<Rightarrow> int \<Rightarrow> (nat \<times> jobj) list \<Rightarrow> nat \<Rightarrow> string list \<Rightarrow> prompt_render"
where
  "render_loop k tpl src cap budget indexed source_cap excluded =
     (let r = render_once k tpl src indexed source_cap cap budget in
      if \<not> pr_exceeded r then r\<lparr>pr_excluded := excluded\<rparr>
      else if indexed \<noteq> [] then
        render_loop k tpl src cap budget (butlast indexed) source_cap
          (pair_id_of (snd (last indexed)) (fst (last indexed)) # excluded)
      else if MIN_SOURCE_EXCERPT_TOKENS < source_cap then
        render_loop k tpl src cap budget indexed (max MIN_SOURCE_EXCERPT_TOKENS (source_cap div 2)) excluded
      else r\<lparr>pr_excluded := excluded\<rparr>)"
  by pat_completeness auto

termination
  by (relation "measure (\<lambda>(k, tpl, src, cap, budget, indexed, source_cap, excluded).
        length indexed + source_cap)")
     (auto simp: MIN_SOURCE_EXCERPT_TOKENS_def)

declare render_loop.simps [simp del]

definition render_edge_inference_prompt ::
  "tokenizer \<Rightarrow> string \<Rightarrow> jobj \<Rightarrow> jobj list \<Rightarrow> int \<Rightarrow> int \<Rightarrow> int \<Rightarrow> prompt_render" where
  "render_edge_inference_prompt k tpl src cands max_pairs max_excerpt_tokens budget =
     (let cap = nat (min max_excerpt_tokens MAX_EXCERPT_TOKENS)
      in render_loop k tpl src cap budget
           (enumerate 0 (take (nat (min max_pairs MAX_CANDIDATE_PAIRS)) cands)) cap [])"

section \<open>Validation of the answer\<close>

record inferred_edge =
  ie_pair :: string
  ie_label :: string
  ie_direction :: string
  ie_confidence :: real
  ie_confidence_text :: string       \<comment> \<open>the \<^verbatim>\<open>repr\<close> of the float\<close>
  ie_evidence :: "int list"
  ie_rationale :: string

text \<open>\<^verbatim>\<open>InferredEdge.to_dict\<close>\<close>

definition edge_json :: "inferred_edge \<Rightarrow> json" where
  "edge_json e = JObj [(''pair_id'', JStr (ie_pair e)), (''label'', JStr (ie_label e)),
     (''direction'', JStr (ie_direction e)),
     (''confidence'', JFloat (Fin (ie_confidence e)) (ie_confidence_text e)),
     (''supporting_evidence_indices'', JList (map JInt (ie_evidence e))),
     (''rationale'', JStr (ie_rationale e))]"

text \<open>The reasons of a refusal; the lists of names that some of the messages show are left out.\<close>

datatype edge_error =
    InvalidExpectedPairIds | InvalidExpectedPairId json | DuplicateExpectedPairId
  | MissingLineCounts | IncompleteLineCounts "string list" | InvalidLineCounts string json
  | DuplicateField | JsonDecodeError | NotAList | ItemNotDict nat
  | MissingField nat "string list" | UnknownField nat | InvalidPairId nat json
  | UnknownPairId string | DuplicatePairId string
  | InvalidLabel string json | InvalidDirection string json | IncompatibleLabelDirection string string string
  | InvalidConfidence string json | InvalidConfidenceRange string
  | InvalidEvidenceIndices string | MissingEvidence string | InvalidEvidenceIndexType string json
  | InvalidEvidenceIndexValue string int | EvidenceIndexOutOfRange string int
  | EmptyRationale string | RationaleTooLong string | MissingPairIds "string list"

text \<open>\<open>Raised\<close>: \<^verbatim>\<open>math.isnan\<close> of an integer too large for a float raises \<^verbatim>\<open>OverflowError\<close>.\<close>

datatype 'a checked = Raised | Bad edge_error | Good 'a

fun check_then :: "'a checked \<Rightarrow> ('a \<Rightarrow> 'b checked) \<Rightarrow> 'b checked" where
  "check_then Raised f = Raised"
| "check_then (Bad e) f = Bad e"
| "check_then (Good a) f = f a"

definition FENCE :: string where "FENCE = ''```''"

text \<open>One markdown fence around the whole text is taken off.\<close>

definition clean_json_text :: "string \<Rightarrow> string" where
  "clean_json_text raw =
     (let s = py_strip raw in
      if 6 \<le> length s \<and> starts_with FENCE s \<and> drop (length s - 3) s = FENCE
      then let body = drop 3 (take (length s - 3) s)
           in py_strip (if starts_with ''json'' body then drop 4 body else body)
      else s)"

datatype load_error = RepeatedKey | BadJson

fun as_str :: "json \<Rightarrow> string option" where
  "as_str (JStr s) = Some s"
| "as_str _ = None"

fun as_list :: "json \<Rightarrow> json list option" where
  "as_list (JList xs) = Some xs"
| "as_list _ = None"

fun expected_ids :: "json list \<Rightarrow> string list checked" where
  "expected_ids [] = Good []"
| "expected_ids (x # xs) =
     (case x of JStr s \<Rightarrow> if s = [] then Bad (InvalidExpectedPairId x)
                          else check_then (expected_ids xs) (\<lambda>ys. Good (s # ys))
      | _ \<Rightarrow> Bad (InvalidExpectedPairId x))"

definition check_expected :: "json \<Rightarrow> string list checked" where
  "check_expected v =
     (case py_iter v of
        Inl e \<Rightarrow> Bad InvalidExpectedPairIds
      | Inr xs \<Rightarrow> check_then (expected_ids xs)
          (\<lambda>ids. if distinct ids then Good ids else Bad DuplicateExpectedPairId))"

fun line_counts :: "jobj \<Rightarrow> (string \<times> int) list checked" where
  "line_counts [] = Good []"
| "line_counts ((pid, c) # kvs) =
     (case c of JInt n \<Rightarrow> if n < 0 then Bad (InvalidLineCounts pid c)
                          else check_then (line_counts kvs) (\<lambda>ys. Good ((pid, n) # ys))
      | _ \<Rightarrow> Bad (InvalidLineCounts pid c))"

definition check_line_counts :: "json \<Rightarrow> string list \<Rightarrow> (string \<times> int) list checked" where
  "check_line_counts v ids =
     (case v of
        JObj kvs \<Rightarrow>
          let missing = filter (\<lambda>p. \<not> has_key kvs p) ids
          in if missing \<noteq> [] then Bad (IncompleteLineCounts (sort missing)) else line_counts kvs
      | _ \<Rightarrow> Bad MissingLineCounts)"

definition parse_response :: "(string \<Rightarrow> load_error + json) \<Rightarrow> json \<Rightarrow> json list checked" where
  "parse_response loads raw =
     (case (case raw of JStr s \<Rightarrow> loads (clean_json_text s) | _ \<Rightarrow> Inr raw) of
        Inl RepeatedKey \<Rightarrow> Bad DuplicateField
      | Inl BadJson \<Rightarrow> Bad JsonDecodeError
      | Inr (JList items) \<Rightarrow> Good items
      | Inr _ \<Rightarrow> Bad NotAList)"

text \<open>\<^verbatim>\<open>float(n)\<close> overflows where rounding to 53 bits reaches \<open>2^1024\<close>.\<close>

definition float_overflows :: "int \<Rightarrow> bool" where
  "float_overflows n \<longleftrightarrow> 2 ^ 1024 - 2 ^ 970 \<le> \<bar>n\<bar>"

definition check_confidence :: "string \<Rightarrow> json \<Rightarrow> (real \<times> string) checked" where
  "check_confidence pid c =
     (case c of
        JInt n \<Rightarrow> if float_overflows n then Raised
                  else if 0 \<le> n \<and> n \<le> 1 then Good (of_int n, int_text n @ ''.0'')
                  else Bad (InvalidConfidenceRange pid)
      | JFloat (Fin x) t \<Rightarrow> if 0 \<le> x \<and> x \<le> 1 then Good (x, t) else Bad (InvalidConfidenceRange pid)
      | _ \<Rightarrow> Bad (InvalidConfidence pid c))"

fun evidence_refs :: "string \<Rightarrow> int \<Rightarrow> json list \<Rightarrow> int list checked" where
  "evidence_refs pid limit [] = Good []"
| "evidence_refs pid limit (x # xs) =
     (case x of
        JInt n \<Rightarrow> if n < 1 then Bad (InvalidEvidenceIndexValue pid n)
                  else if limit < n then Bad (EvidenceIndexOutOfRange pid n)
                  else check_then (evidence_refs pid limit xs) (\<lambda>ns. Good (n # ns))
      | _ \<Rightarrow> Bad (InvalidEvidenceIndexType pid x))"

definition check_evidence :: "string \<Rightarrow> string \<Rightarrow> int \<Rightarrow> json \<Rightarrow> int list checked" where
  "check_evidence pid label limit v =
     (case v of
        JList xs \<Rightarrow> if label \<noteq> ''none'' \<and> xs = [] then Bad (MissingEvidence pid)
                    else evidence_refs pid limit xs
      | _ \<Rightarrow> Bad (InvalidEvidenceIndices pid))"

definition check_rationale :: "string \<Rightarrow> json \<Rightarrow> string checked" where
  "check_rationale pid v =
     (case v of
        JStr s \<Rightarrow> if py_strip s = [] then Bad (EmptyRationale pid)
                  else if 200 < length s then Bad (RationaleTooLong pid) else Good (py_strip s)
      | _ \<Rightarrow> Bad (EmptyRationale pid))"

definition check_keys :: "nat \<Rightarrow> jobj \<Rightarrow> unit checked" where
  "check_keys i d =
     (let missing = filter (\<lambda>key. \<not> has_key d key) (sort EXPECTED_ITEM_KEYS)
      in if missing \<noteq> [] then Bad (MissingField i missing)
         else if list_all (\<lambda>kv. fst kv \<in> set EXPECTED_ITEM_KEYS) d then Good () else Bad (UnknownField i))"

definition check_pair_id :: "nat \<Rightarrow> string list \<Rightarrow> string list \<Rightarrow> json \<Rightarrow> string checked" where
  "check_pair_id i ids seen v =
     (case v of
        JStr s \<Rightarrow> if s = [] then Bad (InvalidPairId i v)
                  else if s \<notin> set ids then Bad (UnknownPairId s)
                  else if s \<in> set seen then Bad (DuplicatePairId s) else Good s
      | _ \<Rightarrow> Bad (InvalidPairId i v))"

definition check_label :: "string \<Rightarrow> json \<Rightarrow> json \<Rightarrow> (string \<times> string) checked" where
  "check_label pid lv dv =
     (case as_str lv of
        None \<Rightarrow> Bad (InvalidLabel pid lv)
      | Some l \<Rightarrow> if l \<notin> set VALID_EDGE_LABELS then Bad (InvalidLabel pid lv) else
       (case as_str dv of
          None \<Rightarrow> Bad (InvalidDirection pid dv)
        | Some d \<Rightarrow> if d \<notin> set VALID_DIRECTIONS then Bad (InvalidDirection pid dv)
                    else if d \<notin> set (the (map_of COMPATIBLE_DIRECTIONS l))
                    then Bad (IncompatibleLabelDirection pid l d) else Good (l, d)))"

definition check_item ::
  "string list \<Rightarrow> (string \<times> int) list \<Rightarrow> nat \<Rightarrow> string list \<Rightarrow> json \<Rightarrow> inferred_edge checked" where
  "check_item ids counts i seen item =
     (case item of
        JObj d \<Rightarrow>
          check_then (check_keys i d) (\<lambda>_.
          check_then (check_pair_id i ids seen (jget d ''pair_id'')) (\<lambda>pid.
          check_then (check_label pid (jget d ''label'') (jget d ''direction'')) (\<lambda>ld.
          check_then (check_confidence pid (jget d ''confidence'')) (\<lambda>c.
          check_then (check_evidence pid (fst ld) (the (map_of counts pid))
                       (jget d ''supporting_evidence_indices'')) (\<lambda>refs.
          check_then (check_rationale pid (jget d ''rationale'')) (\<lambda>why.
            Good \<lparr>ie_pair = pid, ie_label = fst ld, ie_direction = snd ld, ie_confidence = fst c,
                  ie_confidence_text = snd c, ie_evidence = refs, ie_rationale = why\<rparr>))))))
      | _ \<Rightarrow> Bad (ItemNotDict i))"

fun check_items ::
  "string list \<Rightarrow> (string \<times> int) list \<Rightarrow> nat \<Rightarrow> string list \<Rightarrow> json list \<Rightarrow> inferred_edge list checked"
where
  "check_items ids counts i seen [] =
     (let missing = filter (\<lambda>p. p \<notin> set seen) ids
      in if missing = [] then Good [] else Bad (MissingPairIds (sort missing)))"
| "check_items ids counts i seen (item # items) =
     check_then (check_item ids counts i seen item) (\<lambda>e.
     check_then (check_items ids counts (Suc i) (ie_pair e # seen) items) (\<lambda>es. Good (e # es)))"

definition validate_edge_inference_response ::
  "(string \<Rightarrow> load_error + json) \<Rightarrow> json \<Rightarrow> json \<Rightarrow> json \<Rightarrow> inferred_edge list checked" where
  "validate_edge_inference_response loads raw expected counts_map =
     check_then (check_expected expected) (\<lambda>ids.
     check_then (check_line_counts counts_map ids) (\<lambda>counts.
     check_then (parse_response loads raw) (check_items ids counts 0 [])))"

end
