(* ===== verification/EdgeClassifier.thy ===== *)
theory EdgeClassifier
  imports EdgeInference AfmChunking
begin

text \<open>
  \<^verbatim>\<open>src/minni/edge_classifier.py\<close> with the provider chain of \<^verbatim>\<open>model_provider.py\<close> it dispatches
  through: one batch of candidate pairs is rendered, sent to local providers only, and the answer
  is accepted whole or refused.  The hash, \<^verbatim>\<open>urlparse\<close>, \<^verbatim>\<open>json.loads\<close>, the tokenizer and the providers
  are parameters.  Left out are the texts of errors and the copy of the raw answer kept for logs.
\<close>

section \<open>Descriptors\<close>

fun finite_json :: "json \<Rightarrow> bool" where
  "finite_json (JFloat v t) = (case v of Fin x \<Rightarrow> True | _ \<Rightarrow> False)"
| "finite_json (JList xs) = list_all finite_json xs"
| "finite_json (JObj kvs) = list_all (\<lambda>kv. finite_json (snd kv)) kvs"
| "finite_json _ = True"

text \<open>\<^verbatim>\<open>json.loads(json.dumps(x, allow_nan=False))\<close> is a copy of a value without NaN or infinities.\<close>

definition snapshot_and_validate_descriptor :: "json \<Rightarrow> json option" where
  "snapshot_and_validate_descriptor v =
     (case v of JObj kvs \<Rightarrow> if finite_json v then Some v else None
      | JList xs \<Rightarrow> if finite_json v then Some v else None
      | _ \<Rightarrow> None)"

fun sort_json_keys :: "json \<Rightarrow> json" where
  "sort_json_keys (JList xs) = JList (map sort_json_keys xs)"
| "sort_json_keys (JObj kvs) = JObj (sort_key fst (map (\<lambda>kv. (fst kv, sort_json_keys (snd kv))) kvs))"
| "sort_json_keys v = v"

definition compute_canonical_hash :: "(string \<Rightarrow> string) \<Rightarrow> json \<Rightarrow> string" where
  "compute_canonical_hash sha v = sha (json_dumps (sort_json_keys v))"

section \<open>Providers\<close>

record chat_request =
  cr_prompt :: string
  cr_operation :: string
  cr_url :: "string option"
  cr_timeout :: real

record provider_result =
  res_ok :: bool
  res_data :: json
  res_provider :: string
  res_status :: string

text \<open>\<open>None\<close> is an exception.\<close>

record provider =
  pv_name :: string
  pv_tier :: "string option"
  pv_supports :: "(string \<Rightarrow> bool) option"     \<comment> \<open>\<open>None\<close>: no such method\<close>
  pv_urls :: "string list"                     \<comment> \<open>\<^verbatim>\<open>url\<close> and \<^verbatim>\<open>_url\<close>, where they are there\<close>
  pv_chat :: "chat_request \<Rightarrow> provider_result option"

definition LOOPBACK_HOSTS :: "string list" where
  "LOOPBACK_HOSTS = [''127.0.0.1'', ''localhost'', ''::1'', ''0.0.0.0'']"

definition DEFAULT_AFM_CHAT_COMPLETIONS_URL :: string where
  "DEFAULT_AFM_CHAT_COMPLETIONS_URL = ''http://127.0.0.1:11437/v1/chat/completions''"

text \<open>\<open>host_of\<close> is \<^verbatim>\<open>urlparse(url).hostname\<close>, with \<open>None\<close> for a \<^verbatim>\<open>ValueError\<close> and for no host.\<close>

definition is_loopback_request_url :: "(string \<Rightarrow> string option) \<Rightarrow> string \<Rightarrow> bool" where
  "is_loopback_request_url host_of url =
     (url \<noteq> [] \<and>
      (case host_of url of
         None \<Rightarrow> False
       | Some h \<Rightarrow> let host = py_lower h
                  in host \<noteq> [] \<and> (host \<in> set LOOPBACK_HOSTS \<or> starts_with (rev ''.localhost'') (rev host))))"

text \<open>\<^verbatim>\<open>ProviderChain.providers_for\<close>; a provider without \<^verbatim>\<open>supports\<close> raises.\<close>

fun providers_for :: "(string \<times> bool) list \<Rightarrow> string \<Rightarrow> provider list \<Rightarrow> provider list option" where
  "providers_for policies operation [] = Some []"
| "providers_for policies operation (p # ps) =
     (case pv_supports p of
        None \<Rightarrow> None
      | Some supports \<Rightarrow>
          let local_only = (operation = ''edge_inference'' \<or> map_of policies operation = Some True);
              keep = supports operation \<and> (local_only \<longrightarrow> pv_tier p = Some ''local'')
          in map_option (\<lambda>qs. if keep then p # qs else qs) (providers_for policies operation ps))"

definition requires_loopback :: "(string \<times> bool) list \<Rightarrow> string \<Rightarrow> bool" where
  "requires_loopback policies operation \<longleftrightarrow>
     operation = ''edge_inference'' \<or> map_of policies operation = Some True"

text \<open>The first answer that is ok, else the last one; with the providers called.\<close>

fun ask_in_turn ::
  "provider_result option \<Rightarrow> chat_request \<Rightarrow> provider list \<Rightarrow> provider_result option \<times> provider list"
where
  "ask_in_turn answer req [] = (answer, [])"
| "ask_in_turn answer req (p # ps) =
     (case pv_chat p req of
        None \<Rightarrow> (None, [p])
      | Some r \<Rightarrow> if res_ok r then (Some r, [p])
                  else let (a, called) = ask_in_turn (Some r) req ps in (a, p # called))"

definition chain_failure :: "string \<Rightarrow> provider_result" where
  "chain_failure st = \<lparr>res_ok = False, res_data = JObj [], res_provider = ''none'', res_status = st\<rparr>"

definition chain_chat ::
  "(string \<Rightarrow> string option) \<Rightarrow> (string \<times> bool) list \<Rightarrow> provider list \<Rightarrow> chat_request
     \<Rightarrow> provider_result option \<times> provider list" where
  "chain_chat host_of policies ps req =
     (let url = or_text (cr_url req) DEFAULT_AFM_CHAT_COMPLETIONS_URL in
      if requires_loopback policies (cr_operation req) \<and> \<not> is_loopback_request_url host_of url
      then (Some (chain_failure ''target_denied''), [])
      else case providers_for policies (cr_operation req) ps of
        None \<Rightarrow> (None, [])
      | Some [] \<Rightarrow> (Some (chain_failure ''no_provider''), [])
      | Some qs \<Rightarrow> ask_in_turn None req qs)"

text \<open>A chain object has providers, or is itself one, or is neither.\<close>

datatype chain = Providers "provider list" | ChatOnly provider | NoChain

fun chain_providers :: "chain \<Rightarrow> provider list" where
  "chain_providers (Providers ps) = ps"
| "chain_providers (ChatOnly p) = [p]"
| "chain_providers NoChain = []"

definition verified_local :: "(string \<Rightarrow> string option) \<Rightarrow> provider \<Rightarrow> bool" where
  "verified_local host_of p \<longleftrightarrow>
     pv_tier p = Some ''local''
     \<and> (case pv_supports p of None \<Rightarrow> True | Some f \<Rightarrow> f ''edge_inference'')
     \<and> list_all (\<lambda>u. u = [] \<or> is_loopback_request_url host_of u) (pv_urls p)"

section \<open>The completion\<close>

datatype completion = Text string | Truncated | NoText

definition cut_reason :: "json \<Rightarrow> bool" where
  "cut_reason v \<longleftrightarrow> v = JStr ''length'' \<or> v = JStr ''max_tokens''"

text \<open>The first of some keys that holds a string.\<close>

fun first_text :: "jobj \<Rightarrow> string list \<Rightarrow> completion" where
  "first_text d [] = NoText"
| "first_text d (k # ks) = (case jget d k of JStr s \<Rightarrow> Text s | _ \<Rightarrow> first_text d ks)"

definition choice_text :: "jobj \<Rightarrow> string option" where
  "choice_text c =
     (case jget c ''message'' of
        JObj m \<Rightarrow> (case jget m ''content'' of JStr s \<Rightarrow> Some s | _ \<Rightarrow> as_str (jget c ''text''))
      | _ \<Rightarrow> as_str (jget c ''text''))"

fun first_choice :: "json \<Rightarrow> jobj option" where
  "first_choice (JList (JObj c # cs)) = Some c"
| "first_choice _ = None"

definition extract_completion :: "json \<Rightarrow> completion" where
  "extract_completion v =
     (case v of
        JStr s \<Rightarrow> Text s
      | JObj d \<Rightarrow>
          if cut_reason (jget d ''finish_reason'') \<or> jget d ''truncated'' = JBool True then Truncated
          else (case first_choice (jget d ''choices'') of
              None \<Rightarrow> first_text d [''content'', ''text'', ''answer'']
            | Some c \<Rightarrow>
                if cut_reason (jget c ''finish_reason'') then Truncated
                else (case choice_text c of Some s \<Rightarrow> Text s
                      | None \<Rightarrow> first_text d [''content'', ''text'', ''answer'']))
      | _ \<Rightarrow> NoText)"

section \<open>The classifier\<close>

record edge_classifier =
  ec_max_pairs :: int
  ec_budget :: int
  ec_chain :: "chain option"
  ec_timeout :: real
  ec_version :: string

definition make_classifier :: "chain option \<Rightarrow> real \<Rightarrow> int \<Rightarrow> int \<Rightarrow> string \<Rightarrow> edge_classifier" where
  "make_classifier ch timeout max_pairs budget version =
     \<lparr>ec_max_pairs = max 0 (min max_pairs MAX_CANDIDATE_PAIRS),
      ec_budget = max 0 (min budget EdgeInference.AFM_INPUT_BUDGET_TOKENS),
      ec_chain = ch, ec_timeout = max (1/10) timeout, ec_version = version\<rparr>"

datatype classifier_error =
    InvalidSource | InvalidCandidates | DuplicateCandidatePairId | NoLocalProvider | TokenOverflow
  | ProviderException | ProviderUnavailable | TruncationDetected | EmptyCompletion
  | ValidationFailed edge_error

record batch_result =
  br_status :: string
  br_edges :: "inferred_edge list"
  br_classified :: "string list"
  br_unclassified :: "string list"
  br_evidence_hash :: string
  br_prompt_hash :: string
  br_source_hash :: string
  br_candidates_hash :: string
  br_batch_hash :: string
  br_output_hash :: string
  br_model :: string
  br_version :: string
  br_total :: nat
  br_measured :: bool
  br_error :: "classifier_error option"

definition blank_result :: "string \<Rightarrow> batch_result" where
  "blank_result version = \<lparr>br_status = [], br_edges = [], br_classified = [], br_unclassified = [],
     br_evidence_hash = [], br_prompt_hash = [], br_source_hash = [], br_candidates_hash = [],
     br_batch_hash = [], br_output_hash = [], br_model = [], br_version = version, br_total = 0,
     br_measured = True, br_error = None\<rparr>"

definition result_ok :: "batch_result \<Rightarrow> bool" where
  "result_ok r \<longleftrightarrow> br_status r = ''ok'' \<or> br_status r = ''no_candidates''"

record classify_env =
  cx_sha :: "string \<Rightarrow> string"
  cx_host :: "string \<Rightarrow> string option"
  cx_loads :: "string \<Rightarrow> load_error + json"
  cx_tokens :: tokenizer
  cx_template :: string
  cx_default_chain :: chain

definition colon_hash :: "classify_env \<Rightarrow> string list \<Rightarrow> string" where
  "colon_hash c parts = cx_sha c (join_with '':'' parts)"

text \<open>Checking the descriptors: the source and the candidates as objects, or the refusal.\<close>

definition source_object :: "json \<Rightarrow> jobj option" where
  "source_object v =
     (case v of JObj d \<Rightarrow> map_option (\<lambda>s. d) (snapshot_and_validate_descriptor v) | _ \<Rightarrow> None)"

fun objects_of :: "json list \<Rightarrow> jobj list option" where
  "objects_of [] = Some []"
| "objects_of (x # xs) = (case x of JObj d \<Rightarrow> map_option (\<lambda>ds. d # ds) (objects_of xs) | _ \<Rightarrow> None)"

definition candidate_ids :: "jobj list \<Rightarrow> string list" where
  "candidate_ids ds = map (\<lambda>ic. pair_id_of (snd ic) (fst ic)) (enumerate 0 ds)"

definition candidate_objects :: "json \<Rightarrow> classifier_error + jobj list" where
  "candidate_objects v =
     (case v of
        JList xs \<Rightarrow>
          (case objects_of xs of
             None \<Rightarrow> Inl InvalidCandidates
           | Some ds \<Rightarrow>
               if snapshot_and_validate_descriptor v = None then Inl InvalidCandidates
               else if distinct (candidate_ids ds) then Inr ds else Inl DuplicateCandidatePairId)
      | _ \<Rightarrow> Inl InvalidCandidates)"

definition model_of :: "provider_result \<Rightarrow> string" where
  "model_of r =
     (if res_provider r = [] then ''unknown_provider'' else res_provider r) @ '':''
     @ (case res_data r of
          JObj d \<Rightarrow> if truthy (jget d ''model'') then py_str (jget d ''model'') else ''unknown_model_revision''
        | _ \<Rightarrow> ''unknown_model_revision'')"

text \<open>What a batch is bound to: the hashes and the prompt every result of it carries.\<close>

definition batch_candidates :: "jobj list \<Rightarrow> string list \<Rightarrow> jobj list" where
  "batch_candidates ds ids =
     map snd (filter (\<lambda>ic. pair_id_of (snd ic) (fst ic) \<in> set ids) (enumerate 0 ds))"

definition rendered_result ::
  "classify_env \<Rightarrow> edge_classifier \<Rightarrow> jobj \<Rightarrow> jobj list \<Rightarrow> prompt_render \<Rightarrow> batch_result" where
  "rendered_result c ec src ds r =
     (blank_result (ec_version ec))
       \<lparr>br_unclassified := candidate_ids ds,
        br_prompt_hash := cx_sha c (pr_prompt r),
        br_source_hash := compute_canonical_hash (cx_sha c) (JObj src),
        br_candidates_hash := compute_canonical_hash (cx_sha c) (JList (map JObj ds)),
        br_batch_hash := compute_canonical_hash (cx_sha c)
          (JList (map JObj (batch_candidates ds (pr_pair_ids r)))),
        br_total := pr_total r, br_measured := pr_measured r\<rparr>"

text \<open>A refusal after rendering: the evidence hash names the reason, and the model where one answered.\<close>

definition refused :: "classify_env \<Rightarrow> batch_result \<Rightarrow> string \<Rightarrow> string \<Rightarrow> classifier_error \<Rightarrow> batch_result" where
  "refused c b status reason e =
     b\<lparr>br_status := status, br_error := Some e,
       br_evidence_hash := colon_hash c
         ([br_source_hash b, br_batch_hash b, br_prompt_hash b, [], reason, br_version b]
          @ (if br_model b = [] then [] else [br_model b]))\<rparr>"

definition accept_answer ::
  "classify_env \<Rightarrow> batch_result \<Rightarrow> jobj list \<Rightarrow> prompt_render \<Rightarrow> provider_result \<Rightarrow> batch_result option"
where
  "accept_answer c b0 ds r res =
     (let b = b0\<lparr>br_model := model_of res\<rparr> in
      case extract_completion (res_data res) of
        Truncated \<Rightarrow> Some (refused c b ''validation_failed'' ''truncation'' TruncationDetected)
      | NoText \<Rightarrow> Some (refused c b ''validation_failed'' ''empty_completion'' EmptyCompletion)
      | Text raw \<Rightarrow>
          (case validate_edge_inference_response (cx_loads c) (JStr raw)
                  (JList (map JStr (pr_pair_ids r)))
                  (JObj (map (\<lambda>pn. (fst pn, JInt (int (snd pn)))) (pr_line_counts r))) of
             Raised \<Rightarrow> None
           | Bad e \<Rightarrow> Some (refused c b ''validation_failed'' ''validation_failed'' (ValidationFailed e))
           | Good es \<Rightarrow>
               let out = compute_canonical_hash (cx_sha c) (JList (map edge_json es))
               in Some (b\<lparr>br_status := ''ok'', br_edges := es, br_classified := pr_pair_ids r,
                    br_unclassified := filter (\<lambda>p. p \<notin> set (pr_pair_ids r)) (candidate_ids ds),
                    br_output_hash := out,
                    br_evidence_hash := colon_hash c
                      [br_source_hash b, br_batch_hash b, br_prompt_hash b, out, br_version b, br_model b]\<rparr>)))"

text \<open>The result, \<open>None\<close> for an exception that leaves the classifier, and the requests made.\<close>

definition classify ::
  "classify_env \<Rightarrow> edge_classifier \<Rightarrow> json \<Rightarrow> json \<Rightarrow> real option
     \<Rightarrow> batch_result option \<times> (provider \<times> chat_request) list" where
  "classify c ec source cands timeout =
     (let blank = blank_result (ec_version ec) in
      case source_object source of
        None \<Rightarrow> (Some (blank\<lparr>br_status := ''validation_failed'', br_error := Some InvalidSource\<rparr>), [])
      | Some src \<Rightarrow>
     (let b0 = blank\<lparr>br_source_hash := compute_canonical_hash (cx_sha c) (JObj src)\<rparr> in
      case candidate_objects cands of
        Inl e \<Rightarrow> (Some (b0\<lparr>br_status := ''validation_failed'', br_error := Some e\<rparr>), [])
      | Inr ds \<Rightarrow>
     (let b1 = b0\<lparr>br_candidates_hash := compute_canonical_hash (cx_sha c) (JList (map JObj ds))\<rparr> in
      if ds = [] then
        (Some (b1\<lparr>br_status := ''no_candidates'', br_batch_hash := br_candidates_hash b1,
           br_evidence_hash := colon_hash c
             [br_source_hash b1, br_candidates_hash b1, [], ''empty'', br_version b1]\<rparr>), [])
      else
     (let chain = (case ec_chain ec of None \<Rightarrow> cx_default_chain c | Some ch \<Rightarrow> ch);
          local = filter (verified_local (cx_host c)) (chain_providers chain) in
      if local = [] then
        (Some (b1\<lparr>br_status := ''unsupported_route'', br_unclassified := candidate_ids ds,
           br_error := Some NoLocalProvider,
           br_evidence_hash := colon_hash c
             [br_source_hash b1, br_candidates_hash b1, [], ''unsupported_route'', br_version b1]\<rparr>), [])
      else
     (let r = render_edge_inference_prompt (cx_tokens c) (cx_template c) src ds (ec_max_pairs ec)
                MAX_EXCERPT_TOKENS (ec_budget ec);
          b2 = rendered_result c ec src ds r in
      if pr_exceeded r then (Some (refused c b2 ''token_overflow'' ''token_overflow'' TokenOverflow), [])
      else
     (let req = \<lparr>cr_prompt = pr_prompt r, cr_operation = ''edge_inference'', cr_url = None,
                 cr_timeout = (case timeout of None \<Rightarrow> ec_timeout ec | Some t \<Rightarrow> t)\<rparr>;
          (answer, called) = chain_chat (cx_host c) [(''edge_inference'', True)] local req;
          sent = map (\<lambda>p. (p, req)) called in
      case answer of
        None \<Rightarrow> (Some (refused c b2 ''provider_unavailable'' ''provider_unavailable'' ProviderException), sent)
      | Some res \<Rightarrow>
          if \<not> res_ok res
          then (Some (refused c b2 ''provider_unavailable'' ''provider_unavailable'' ProviderUnavailable), sent)
          else (accept_answer c b2 ds r res, sent)))))))"

end
