(* ===== verification/Shortlist.thy ===== *)
theory Shortlist
  imports Principal EdgeClassifier
begin

text \<open>
  \<^verbatim>\<open>src/minni/graph_candidates.py\<close>: from the nearest chunks of a new learning to the documents the
  edge classifier may look at.  The two accessors of the store are parameters and every use of
  them is logged, since the point of the order of the steps is what is read of whom.
\<close>

section \<open>Bounds\<close>

definition MAX_CHUNK_HITS :: int where "MAX_CHUNK_HITS = 48"
definition MAX_SHORTLIST_DOCS :: int where "MAX_SHORTLIST_DOCS = 12"
definition COSINE_FLOOR :: real where "COSINE_FLOOR = 42/100"
definition MAX_CLASSIFIER_PAIRS :: int where "MAX_CLASSIFIER_PAIRS = 8"
definition CLOSED_STATUSES :: "string list" where
  "CLOSED_STATUSES = [''draft'', ''expired'', ''rejected'', ''superseded'']"

definition clamp_bound :: "int \<Rightarrow> int \<Rightarrow> nat" where
  "clamp_bound n most = nat (max 0 (min n most))"

section \<open>Accessors and results\<close>

text \<open>An accessor gives \<open>None\<close> where it raises, and \<open>Some JNull\<close> for \<^verbatim>\<open>None\<close>.\<close>

record shortlist_env =
  sx_host :: host
  sx_principal :: effective_principal
  sx_metadata :: "string \<Rightarrow> int \<Rightarrow> json option"
  sx_content :: "string \<Rightarrow> int \<Rightarrow> json option"
  sx_sha :: "string \<Rightarrow> string"
  sx_tokens :: tokenizer
  sx_float :: "real \<Rightarrow> string"         \<comment> \<open>\<^verbatim>\<open>repr\<close> of a float\<close>

datatype access = ReadMetadata int | ReadContent int

datatype shortlist_error =
    BadEnvelope string | Aliased int int int | WrongIdentity string int | FloatOverflow
  | NonFiniteMetadata int | BadDigest int | BadContent int | HashMismatch int

record descriptor =
  ds_pair :: string
  ds_store :: string
  ds_content_hash :: json
  ds_metadata_hash :: string
  ds_evidence_hash :: string
  ds_doc :: int
  ds_chunk :: int
  ds_cosine :: real
  ds_title :: string
  ds_status :: string
  ds_page_type :: string
  ds_excerpt :: "string option"
  ds_tokens :: nat
  ds_measured :: bool

record shortlist =
  sl_pairs :: "descriptor list"
  sl_deferred :: "descriptor list"
  sl_chunks :: nat
  sl_docs :: nat
  sl_excluded :: nat
  sl_below :: nat
  sl_malformed :: nat
  sl_truncated :: bool

section \<open>Hits\<close>

datatype score = Score real | NoScore | ScoreRaises

definition finite_score :: "json \<Rightarrow> score" where
  "finite_score v =
     (case v of JInt n \<Rightarrow> if float_overflows n then ScoreRaises else Score (of_int n)
      | JFloat (Fin x) t \<Rightarrow> Score x
      | _ \<Rightarrow> NoScore)"

definition has_identity :: "string \<Rightarrow> int \<Rightarrow> jobj \<Rightarrow> bool" where
  "has_identity store d md \<longleftrightarrow> jget md ''store_id'' = JStr store \<and> jget md ''doc_id'' = JInt d"

record hit_scan =
  hs_best :: "(int \<times> real \<times> int) list"     \<comment> \<open>document, its best cosine and that chunk\<close>
  hs_owner :: "(int \<times> int) list"
  hs_malformed :: nat

definition better :: "(real \<times> int) option \<Rightarrow> real \<Rightarrow> int \<Rightarrow> bool" where
  "better prev s c =
     (case prev of None \<Rightarrow> True | Some (s0, c0) \<Rightarrow> s0 < s \<or> s = s0 \<and> c < c0)"

definition scan_hit :: "string \<Rightarrow> json \<Rightarrow> hit_scan \<Rightarrow> shortlist_error + hit_scan" where
  "scan_hit store entry h =
     (let malformed = Inr (h\<lparr>hs_malformed := Suc (hs_malformed h)\<rparr>) in
      case entry of
        JObj e \<Rightarrow>
          (case finite_score (jget_or (jget e ''score'') e ''cosine'') of
             ScoreRaises \<Rightarrow> Inl FloatOverflow
           | NoScore \<Rightarrow> malformed
           | Score s \<Rightarrow>
               (case (jget e ''doc_id'', jget e ''chunk_id'') of
                  (JInt d, JInt c) \<Rightarrow>
                    if \<not> has_identity store d e then Inl (WrongIdentity ''hit'' d)
                    else (case map_of (hs_owner h) c of
                        Some d' \<Rightarrow> if d' \<noteq> d then Inl (Aliased c d' d)
                          else Inr (if better (map_of (hs_best h) d) s c
                                    then h\<lparr>hs_best := AList.update d (s, c) (hs_best h)\<rparr> else h)
                      | None \<Rightarrow>
                          let h' = h\<lparr>hs_owner := AList.update c d (hs_owner h)\<rparr>
                          in Inr (if better (map_of (hs_best h) d) s c
                                  then h'\<lparr>hs_best := AList.update d (s, c) (hs_best h)\<rparr> else h'))
                | _ \<Rightarrow> malformed))
      | _ \<Rightarrow> malformed)"

fun scan_hits :: "string \<Rightarrow> json list \<Rightarrow> hit_scan \<Rightarrow> shortlist_error + hit_scan" where
  "scan_hits store [] h = Inr h"
| "scan_hits store (e # es) h = bind_result (scan_hit store e h) (scan_hits store es)"

definition rank_docs :: "(int \<times> real \<times> int) list \<Rightarrow> (int \<times> real \<times> int) list" where
  "rank_docs best = sort_key (\<lambda>b. - fst (snd b)) (sort_key fst best)"

section \<open>Metadata\<close>

definition metadata_eligible :: "jobj \<Rightarrow> bool" where
  "metadata_eligible md \<longleftrightarrow>
     jget md ''memory_kind'' = JStr ''learning''
     \<and> py_lower (py_str (py_or (jget md ''page_type'') (JStr []))) = ''learning''
     \<and> jget md ''privacy_level'' \<noteq> JStr ''blocked''
     \<and> py_str (py_or (jget md ''page_status'') (JStr [])) \<notin> set CLOSED_STATUSES"

definition is_digest :: "json \<Rightarrow> bool" where
  "is_digest v =
     (case v of JStr s \<Rightarrow> length s = 64 \<and> list_all (\<lambda>c. c \<in> set ''0123456789abcdef'') s | _ \<Rightarrow> False)"

text \<open>The metadata of a document that may be shortlisted, or that it may not.\<close>

definition examine_doc ::
  "shortlist_env \<Rightarrow> string \<Rightarrow> string \<Rightarrow> int \<Rightarrow> shortlist_error + jobj option" where
  "examine_doc x store workspace d =
     (case sx_metadata x store d of
        Some (JObj md) \<Rightarrow>
          if \<not> has_identity store d md then Inl (WrongIdentity ''metadata'' d)
          else if \<not> finite_json (JObj md) then Inl (NonFiniteMetadata d)
          else if \<not> can_read_document (sx_host x) (Some (sx_principal x)) workspace (JObj md) then Inr None
          else if \<not> metadata_eligible md then Inr None
          else if \<not> is_digest (jget md ''content_sha256'') then Inl (BadDigest d)
          else Inr (Some md)
      | _ \<Rightarrow> Inr None)"

record listed_doc =
  ld_doc :: int
  ld_cosine :: real
  ld_chunk :: int
  ld_metadata :: jobj

fun pick_docs ::
  "shortlist_env \<Rightarrow> string \<Rightarrow> string \<Rightarrow> int option \<Rightarrow> real \<Rightarrow> nat \<Rightarrow> (int \<times> real \<times> int) list
     \<Rightarrow> (shortlist_error + listed_doc list \<times> nat) \<times> access list" where
  "pick_docs x store ws self least_cos room [] = (Inr ([], 0), [])"
| "pick_docs x store ws self least_cos room ((d, s, c) # rs) =
     (if room = 0 then (Inr ([], 0), [])
      else if s < least_cos then pick_docs x store ws self least_cos room rs
      else if self = Some d then
        (let (r, acs) = pick_docs x store ws self least_cos room rs
         in (bind_result r (\<lambda>(ds, n). Inr (ds, Suc n)), acs))
      else case examine_doc x store ws d of
        Inl e \<Rightarrow> (Inl e, [ReadMetadata d])
      | Inr None \<Rightarrow>
          (let (r, acs) = pick_docs x store ws self least_cos room rs
           in (bind_result r (\<lambda>(ds, n). Inr (ds, Suc n)), ReadMetadata d # acs))
      | Inr (Some md) \<Rightarrow>
          (let (r, acs) = pick_docs x store ws self least_cos (room - 1) rs
           in (bind_result r (\<lambda>(ds, n). Inr (\<lparr>ld_doc = d, ld_cosine = s, ld_chunk = c, ld_metadata = md\<rparr> # ds, n)),
               ReadMetadata d # acs)))"

section \<open>Descriptors\<close>

definition describe ::
  "shortlist_env \<Rightarrow> string \<Rightarrow> listed_doc \<Rightarrow> (string \<times> nat \<times> bool) option \<Rightarrow> descriptor" where
  "describe x store ld ex =
     (let md = ld_metadata ld; d = ld_doc ld;
          mh = compute_canonical_hash (sx_sha x) (JObj md);
          ch = jget md ''content_sha256'';
          ev = JObj [(''version'', JInt 1), (''store_id'', JStr store), (''doc_id'', JInt d),
            (''chunk_id'', JInt (ld_chunk ld)),
            (''cosine'', JFloat (Fin (ld_cosine ld)) (sx_float x (ld_cosine ld))),
            (''metadata_sha256'', JStr mh), (''content_sha256'', ch),
            (''excerpt'', (case ex of None \<Rightarrow> JNull | Some (s, n, m) \<Rightarrow> JStr s))]
      in \<lparr>ds_pair = ''candidate-doc-'' @ int_text d, ds_store = store, ds_content_hash = ch,
          ds_metadata_hash = mh, ds_evidence_hash = compute_canonical_hash (sx_sha x) ev,
          ds_doc = d, ds_chunk = ld_chunk ld, ds_cosine = ld_cosine ld,
          ds_title = py_str (py_or (first_of_keys md [''title'', ''path'']) (JInt d)),
          ds_status = field_text md [''page_status''] ''accepted'',
          ds_page_type = field_text md [''page_type''] ''learning'',
          ds_excerpt = map_option fst ex,
          ds_tokens = (case ex of None \<Rightarrow> 0 | Some (s, n, m) \<Rightarrow> n),
          ds_measured = (case ex of None \<Rightarrow> True | Some (s, n, m) \<Rightarrow> m)\<rparr>)"

text \<open>The full text of a document, checked against its metadata; \<open>None\<close> when there is none.\<close>

definition fetch_text :: "shortlist_env \<Rightarrow> string \<Rightarrow> listed_doc \<Rightarrow> shortlist_error + string option" where
  "fetch_text x store ld =
     (case sx_content x store (ld_doc ld) of
        None \<Rightarrow> Inr None
      | Some JNull \<Rightarrow> Inr None
      | Some (JObj env) \<Rightarrow>
          if \<not> has_identity store (ld_doc ld) env then Inl (WrongIdentity ''content'' (ld_doc ld))
          else (case jget env ''content'' of
              JStr s \<Rightarrow> if JStr (sx_sha x s) \<noteq> jget (ld_metadata ld) ''content_sha256''
                        then Inl (HashMismatch (ld_doc ld)) else Inr (Some s)
            | _ \<Rightarrow> Inl (BadContent (ld_doc ld)))
      | Some _ \<Rightarrow> Inl (WrongIdentity ''content'' (ld_doc ld)))"

fun fill_pairs ::
  "shortlist_env \<Rightarrow> string \<Rightarrow> nat \<Rightarrow> listed_doc list
     \<Rightarrow> (shortlist_error + descriptor list \<times> descriptor list) \<times> access list" where
  "fill_pairs x store room [] = (Inr ([], []), [])"
| "fill_pairs x store room (ld # lds) =
     (if room = 0 then
        (let (r, acs) = fill_pairs x store room lds
         in (bind_result r (\<lambda>(ps, ds). Inr (ps, describe x store ld None # ds)), acs))
      else case fetch_text x store ld of
        Inl e \<Rightarrow> (Inl e, [ReadContent (ld_doc ld)])
      | Inr t \<Rightarrow>
          if t = None \<or> py_strip (the t) = [] then
            (let (r, acs) = fill_pairs x store room lds
             in (bind_result r (\<lambda>(ps, ds). Inr (ps, describe x store ld None # ds)), ReadContent (ld_doc ld) # acs))
          else
            (let (r, acs) = fill_pairs x store (room - 1) lds;
                 ex = truncate_to_tokens (sx_tokens x) (py_strip (the t)) (nat MAX_EXCERPT_TOKENS)
             in (bind_result r (\<lambda>(ps, ds). Inr (describe x store ld (Some ex) # ps, ds)),
                 ReadContent (ld_doc ld) # acs)))"

section \<open>The shortlist\<close>

record shortlist_request =
  sr_hits :: json
  sr_store :: string
  sr_self :: "int option"
  sr_workspace :: string
  sr_max_chunks :: int
  sr_max_docs :: int
  sr_floor :: pyfloat
  sr_max_pairs :: int

definition shortlist_floor :: "real \<Rightarrow> real" where
  "shortlist_floor x = max COSINE_FLOOR x"

definition prepare_candidate_shortlist ::
  "shortlist_env \<Rightarrow> shortlist_request \<Rightarrow> (shortlist_error + shortlist) \<times> access list" where
  "prepare_candidate_shortlist x q =
     (if py_strip (sr_store q) = [] then (Inl (BadEnvelope ''store_id''), [])
      else case sr_hits q of
        JList hits \<Rightarrow>
          if sr_workspace q = [] then (Inl (BadEnvelope ''workspace''), [])
          else (case sr_floor q of
            Fin fl \<Rightarrow>
             (let most = clamp_bound (sr_max_chunks q) MAX_CHUNK_HITS; least_cos = shortlist_floor fl in
              case scan_hits (sr_store q) (take most hits)
                     \<lparr>hs_best = [], hs_owner = [], hs_malformed = 0\<rparr> of
                Inl e \<Rightarrow> (Inl e, [])
              | Inr h \<Rightarrow>
                 (let ranked = rank_docs (hs_best h);
                      (picked, acs) = pick_docs x (sr_store q) (sr_workspace q) (sr_self q) least_cos
                        (clamp_bound (sr_max_docs q) MAX_SHORTLIST_DOCS) ranked in
                  case picked of
                    Inl e \<Rightarrow> (Inl e, acs)
                  | Inr (lds, excluded) \<Rightarrow>
                     (let (filled, acs') = fill_pairs x (sr_store q)
                        (clamp_bound (sr_max_pairs q) MAX_CLASSIFIER_PAIRS) lds
                      in (bind_result filled (\<lambda>(ps, ds). Inr
                            \<lparr>sl_pairs = ps, sl_deferred = ds, sl_chunks = min (length hits) most,
                             sl_docs = length ranked, sl_excluded = excluded,
                             sl_below = length (filter (\<lambda>b. fst (snd b) < least_cos) ranked),
                             sl_malformed = hs_malformed h, sl_truncated = most < length hits\<rparr>),
                          acs @ acs'))))
          | _ \<Rightarrow> (Inl (BadEnvelope ''cosine_floor''), []))
      | _ \<Rightarrow> (Inl (BadEnvelope ''hits''), []))"

end
