(* ===== verification/Coordinator.thy ===== *)
theory Coordinator
  imports Shortlist Learn
begin

text \<open>
  \<^verbatim>\<open>src/minni/graph_coordinator.py\<close>, Phase B: what a prepared learning may write inside the caller's
  transaction.  The store is the one of the governed handlers with the tables of the typed graph
  beside it: typed links, the contradiction log, pending reviews of updates, the full-text rows and
  the chunk vectors.  A vector is the byte string the embedder returned.  A refusal is \<open>Inl\<close>.
\<close>

section \<open>Thresholds\<close>

definition PERSIST_CONFIDENCE :: "(string \<times> real) list" where
  "PERSIST_CONFIDENCE = [(''updates'', 88/100), (''contradicts'', 88/100), (''extends'', 82/100),
     (''relates'', 78/100)]"

definition SUPERSEDE_CONFIDENCE :: real where "SUPERSEDE_CONFIDENCE = 96/100"

definition INFERENCE_METHOD :: string where "INFERENCE_METHOD = ''local_classifier''"

section \<open>Tables\<close>

record tlink =
  tl_source :: int
  tl_target :: int
  tl_type :: string
  tl_weight :: real
  tl_created :: real
  tl_confidence :: "real option"
  tl_method :: "string option"
  tl_model :: "string option"
  tl_prompt :: "string option"
  tl_run :: "string option"
  tl_evidence :: "string option"
  tl_inferred :: "real option"
  tl_status :: string

record log_row =
  lg_memory :: int
  lg_at :: real
  lg_source :: int
  lg_target :: int
  lg_run :: string
  lg_confidence :: real

text \<open>A \<^verbatim>\<open>graph_update_review\<close> row of \<^verbatim>\<open>consolidation_actions\<close>.\<close>

record review_row =
  rv_new :: int
  rv_old :: "int option"
  rv_confidence :: real
  rv_reason :: string
  rv_at :: real
  rv_status :: string

record text_row =
  ft_doc :: int
  ft_path :: string
  ft_content :: string
  ft_agent :: string
  ft_sigil :: "string option"

record vector_row =
  vc_id :: int
  vc_doc :: int
  vc_index :: nat
  vc_text :: string
  vc_vector :: string
  vc_model :: string
  vc_at :: real
  vc_layer :: string

record gstore =
  gs_db :: db
  gs_links :: "tlink list"
  gs_log :: "log_row list"
  gs_reviews :: "review_row list"
  gs_texts :: "text_row list"
  gs_chunks :: "vector_row list"
  gs_next_chunk :: int

text \<open>What the classifier found and the coordinator kept: target, label, direction, confidence.\<close>

type_synonym verdict = "descriptor \<times> string \<times> string \<times> real"

datatype coord_error = Abort string | Crash

section \<open>Edges\<close>

fun bind_verdict :: "int \<Rightarrow> verdict \<Rightarrow> (int \<times> int \<times> string \<times> real) list" where
  "bind_verdict src (d, label, direction, conf) =
     (let t = ds_doc d in
      if t = src then []
      else if direction = ''forward'' then [(src, t, label, conf)]
      else if direction = ''backward'' then [(t, src, label, conf)]
      else [(src, t, label, conf), (t, src, label, conf)])"

definition bind_edges :: "verdict list \<Rightarrow> int \<Rightarrow> (int \<times> int \<times> string \<times> real) list" where
  "bind_edges vs src = concat (map (bind_verdict src) vs)"

definition same_key :: "tlink \<Rightarrow> tlink \<Rightarrow> bool" where
  "same_key a b \<longleftrightarrow> tl_source a = tl_source b \<and> tl_target a = tl_target b \<and> tl_type a = tl_type b"

text \<open>\<^verbatim>\<open>ON CONFLICT\<close> keeps the weight and the creation time.\<close>

definition refresh_link :: "tlink \<Rightarrow> tlink \<Rightarrow> tlink" where
  "refresh_link n l = l\<lparr>tl_confidence := tl_confidence n, tl_method := tl_method n, tl_model := tl_model n,
     tl_prompt := tl_prompt n, tl_run := tl_run n, tl_evidence := tl_evidence n,
     tl_inferred := tl_inferred n, tl_status := ''active''\<rparr>"

definition upsert_link :: "tlink \<Rightarrow> tlink list \<Rightarrow> tlink list" where
  "upsert_link n ls =
     (if list_ex (same_key n) ls then update_where (same_key n) (refresh_link n) ls else ls @ [n])"

record provenance =
  pv_run :: string
  pv_model :: string
  pv_prompt :: string
  pv_evidence :: string
  pv_at :: real

definition edge_link :: "provenance \<Rightarrow> int \<times> int \<times> string \<times> real \<Rightarrow> tlink" where
  "edge_link p b =
     (case b of (s, t, ty, conf) \<Rightarrow>
       \<lparr>tl_source = s, tl_target = t, tl_type = ty, tl_weight = 1, tl_created = pv_at p,
        tl_confidence = Some conf, tl_method = Some INFERENCE_METHOD, tl_model = Some (pv_model p),
        tl_prompt = Some (pv_prompt p), tl_run = Some (pv_run p),
        tl_evidence = Some (json_dumps (sort_json_keys (JObj
          [(''pair'', JList [JInt s, JInt t]), (''evidence_hash'', JStr (pv_evidence p))]))),
        tl_inferred = Some (pv_at p), tl_status = ''active''\<rparr>)"

text \<open>One log row for each pair of documents that contradict each other.\<close>

fun write_edges ::
  "provenance \<Rightarrow> int \<Rightarrow> (int \<times> int) list \<Rightarrow> (int \<times> int \<times> string \<times> real) list \<Rightarrow> gstore \<Rightarrow> gstore \<times> bool"
where
  "write_edges p lid logged [] g = (g, False)"
| "write_edges p lid logged ((s, t, ty, conf) # bs) g =
     (let g1 = g\<lparr>gs_links := upsert_link (edge_link p (s, t, ty, conf)) (gs_links g)\<rparr> in
      if ty = ''contradicts'' \<and> (s, t) \<notin> set logged \<and> (t, s) \<notin> set logged
      then (fst (write_edges p lid ((s, t) # logged) bs
              (g1\<lparr>gs_log := gs_log g1 @ [\<lparr>lg_memory = lid, lg_at = pv_at p, lg_source = s, lg_target = t,
                 lg_run = pv_run p, lg_confidence = conf\<rparr>]\<rparr>)), True)
      else write_edges p lid logged bs g1)"

section \<open>Updates\<close>

definition member_active :: "int \<times> string \<times> string option \<times> int option \<Rightarrow> bool" where
  "member_active m =
     (case m of (i, ag, st, heir) \<Rightarrow>
        heir = None \<and> or_text st [] \<notin> {''rejected'', ''expired'', ''superseded''})"

definition member_ids ::
  "(int \<times> string \<times> string option \<times> int option \<Rightarrow> bool)
     \<Rightarrow> (int \<times> string \<times> string option \<times> int option) list \<Rightarrow> int list" where
  "member_ids P ms = map fst (filter P ms)"

definition plan_updates_action ::
  "string \<Rightarrow> string \<Rightarrow> real \<Rightarrow> string \<Rightarrow> int \<Rightarrow> target_state option
     \<Rightarrow> int list \<times> int option \<times> string option" where
  "plan_updates_action label direction conf agent new_lid st =
     (let none = ([], None, None); ms = (case st of None \<Rightarrow> [] | Some t \<Rightarrow> ts_members t);
          first_ref = (case ms of [] \<Rightarrow> None | m # _ \<Rightarrow> Some (fst m)) in
      if label \<noteq> ''updates'' \<or> conf < the (map_of PERSIST_CONFIDENCE ''updates'') then none
      else if direction \<noteq> ''forward'' then ([], first_ref, Some (''non_forward_updates:'' @ direction))
      else case st of
        None \<Rightarrow> none
      | Some t \<Rightarrow>
         (let doc = ts_doc t in
          if document.d_kind doc \<noteq> Some ''learning'' \<or> py_lower (or_text (document.d_page_type doc) []) \<noteq> ''learning''
          then ([], first_ref, Some ''non_learning_target'')
          else if projection_row_closed (document.d_page_status doc) (document.d_privacy doc)
          then ([], first_ref, Some ''target_closed'')
          else if conf < SUPERSEDE_CONFIDENCE then ([], first_ref, Some ''below_supersede_floor'')
          else
           (let own = (\<lambda>m. fst (snd m) = agent);
                retire = member_ids (\<lambda>m. own m \<and> member_active m) ms;
                self_done = member_ids (\<lambda>m. own m \<and> \<not> member_active m \<and> snd (snd (snd m)) = Some new_lid) ms;
                self_other = member_ids (\<lambda>m. own m \<and> \<not> member_active m \<and> snd (snd (snd m)) \<noteq> Some new_lid) ms;
                others = member_ids (\<lambda>m. \<not> own m \<and> member_active m) ms in
            if others \<noteq> [] then (retire, Some (hd (retire @ others)), Some ''other_agent_active'')
            else if retire = [] then
              if self_other \<noteq> [] then ([], Some (hd self_other), Some ''already_superseded'')
              else if self_done \<noteq> [] then none
              else ([], None, Some ''no_mapped_learning'')
            else (retire, None, None))))"

definition queue_update_review ::
  "int \<Rightarrow> int option \<Rightarrow> real \<Rightarrow> string \<Rightarrow> real \<Rightarrow> gstore \<Rightarrow> gstore \<times> bool" where
  "queue_update_review new_lid ref conf reason ts g =
     (if ref \<noteq> None \<and> list_ex (\<lambda>r. rv_new r = new_lid \<and> rv_old r = ref \<and> rv_status r = ''pending'') (gs_reviews g)
      then (g, False)
      else (g\<lparr>gs_reviews := gs_reviews g @ [\<lparr>rv_new = new_lid, rv_old = ref, rv_confidence = conf,
              rv_reason = reason, rv_at = ts, rv_status = ''pending''\<rparr>]\<rparr>, True))"

text \<open>The plan of a repair: nothing retires, and what would have is reviewed.\<close>

definition plan_for ::
  "bool \<Rightarrow> int list \<times> int option \<times> string option \<Rightarrow> int list \<times> int option \<times> string option" where
  "plan_for allow_retire plan =
     (case plan of (retire, ref, reason) \<Rightarrow>
        if \<not> allow_retire \<and> retire \<noteq> []
        then ([], Some (case ref of None \<Rightarrow> hd retire | Some r \<Rightarrow> r),
              Some (or_text reason ''repair_no_retire''))
        else plan)"

definition retire_planned :: "int \<Rightarrow> int list \<Rightarrow> int \<Rightarrow> int \<Rightarrow> real \<Rightarrow> gstore \<Rightarrow> gstore \<times> int list" where
  "retire_planned target lids new_lid new_doc ts g =
     (if lids = [] then (g, [])
      else let (d, retired, flipped) = retire_superseded_members target lids new_lid new_doc ts (gs_db g)
           in (g\<lparr>gs_db := d\<rparr>, retired))"

text \<open>The learnings retired and the number of reviews queued.\<close>

fun apply_updates_supersession ::
  "bool \<Rightarrow> int \<Rightarrow> int \<Rightarrow> string \<Rightarrow> real \<Rightarrow> int list \<Rightarrow> verdict list \<Rightarrow> gstore \<Rightarrow> gstore \<times> int list \<times> nat" where
  "apply_updates_supersession allow src new_lid agent ts seen [] g = (g, [], 0)"
| "apply_updates_supersession allow src new_lid agent ts seen ((d, label, direction, conf) # vs) g =
     (let target = ds_doc d in
      if target = src \<or> target \<in> set seen then apply_updates_supersession allow src new_lid agent ts seen vs g
      else
       (let (retire, ref, reason) = plan_for allow (plan_updates_action label direction conf agent new_lid
              (supersession_target_state (gs_db g) target));
            (g1, retired) = retire_planned target retire new_lid src ts g;
            (g2, queued) = (case reason of None \<Rightarrow> (g1, False)
               | Some why \<Rightarrow> queue_update_review new_lid ref conf why ts g1);
            (g3, more_retired, n) = apply_updates_supersession allow src new_lid agent ts (target # seen) vs g2
        in (g3, retired @ more_retired, if queued then Suc n else n)))"

section \<open>Revalidation of a target\<close>

record coord_env =
  ce_env :: env                        \<comment> \<open>SHA-1, YAML, files and statement faults\<close>
  ce_host :: host
  ce_sha :: "string \<Rightarrow> string"         \<comment> \<open>SHA-256\<close>
  ce_float :: "real \<Rightarrow> string"        \<comment> \<open>\<^verbatim>\<open>repr\<close> of a float\<close>
  ce_decode :: "string \<Rightarrow> real list"  \<comment> \<open>the floats of an embedding\<close>
  ce_realpath :: "string \<Rightarrow> string"
  ce_main :: "string option"           \<comment> \<open>the file of the main database\<close>
  ce_cursor_main :: "string option"    \<comment> \<open>the same for the caller's cursor\<close>

definition opt_json :: "string option \<Rightarrow> json" where
  "opt_json v = (case v of None \<Rightarrow> JNull | Some s \<Rightarrow> JStr s)"

definition row_metadata :: "document \<Rightarrow> jobj" where
  "row_metadata r = [(''agent'', JStr (document.d_agent r)), (''privacy_level'', opt_json (document.d_privacy r)),
     (''page_status'', opt_json (document.d_page_status r)), (''page_type'', opt_json (document.d_page_type r)),
     (''memory_kind'', opt_json (document.d_kind r)), (''path'', JStr (document.d_path r))]"

definition REVALIDATED_FIELDS :: "string list" where
  "REVALIDATED_FIELDS = [''agent'', ''privacy_level'', ''page_status'', ''page_type'', ''memory_kind'', ''path'']"

definition text_or :: "json \<Rightarrow> string" where
  "text_or v = py_str (py_or v (JStr []))"

text \<open>\<open>True\<close> when the target still is what the shortlist saw; every other outcome is \<^verbatim>\<open>stale_candidate\<close>.\<close>

definition revalidate_target ::
  "coord_env \<Rightarrow> gstore \<Rightarrow> effective_principal \<Rightarrow> string \<Rightarrow> string \<Rightarrow> jobj \<Rightarrow> descriptor \<Rightarrow> bool" where
  "revalidate_target ce g p workspace store snapshot d =
     (if ds_store d \<noteq> store then False
      else case find (\<lambda>x. document.d_id x = ds_doc d) (documents (gs_db g)) of
        None \<Rightarrow> False
      | Some row \<Rightarrow>
         (let md = row_metadata row in
          if \<not> can_read_document (ce_host ce) (Some p) workspace (JObj md) then False
          else if \<not> metadata_eligible md then False
          else if compute_canonical_hash (ce_sha ce) (JObj snapshot) \<noteq> ds_metadata_hash d then False
          else if \<not> list_all (\<lambda>f. text_or (jget md f) = text_or (jget snapshot f)) REVALIDATED_FIELDS then False
          else if field_text md [''page_status''] ''accepted'' \<noteq> ds_status d
               \<or> field_text md [''page_type''] ''learning'' \<noteq> ds_page_type d then False
          else case find (\<lambda>r. ft_doc r = ds_doc d) (gs_texts g) of
            None \<Rightarrow> False
          | Some t \<Rightarrow>
              JStr (ce_sha ce (ft_content t)) = ds_content_hash d
              \<and> (graph_schema (gs_db g) \<longrightarrow> list_ex learning_active (members_of (gs_db g) (ds_doc d)))))"

section \<open>The learning row and its projection\<close>

record learning_fields =
  lf_source_query :: "string option"
  lf_source_docs :: json
  lf_evidence_docs :: json
  lf_confidence :: "(pyfloat \<times> string) option"
  lf_assertion :: "string option"
  lf_applies :: "string option"
  lf_contradicts :: "int option"
  lf_supersedes :: "int option"
  lf_hash :: "string option"
  lf_status :: "string option"

definition no_fields :: learning_fields where
  "no_fields = \<lparr>lf_source_query = None, lf_source_docs = JNull, lf_evidence_docs = JNull,
     lf_confidence = None, lf_assertion = None, lf_applies = None, lf_contradicts = None,
     lf_supersedes = None, lf_hash = None, lf_status = None\<rparr>"

text \<open>\<^verbatim>\<open>json.dumps(..., allow_nan=False)\<close> raises \<^verbatim>\<open>ValueError\<close>, which nothing here catches.\<close>

definition json_or_text :: "json \<Rightarrow> coord_error + string option" where
  "json_or_text v =
     (case v of JNull \<Rightarrow> Inr None | JStr s \<Rightarrow> Inr (Some s)
      | JList xs \<Rightarrow> if finite_json v then Inr (Some (json_dumps (sort_json_keys v))) else Inl Crash
      | JObj kvs \<Rightarrow> if finite_json v then Inr (Some (json_dumps (sort_json_keys v))) else Inl Crash
      | _ \<Rightarrow> Inl (Abort ''learning_field_invalid''))"

fun finite_value :: "pyfloat \<Rightarrow> bool" where
  "finite_value (Fin x) = True"
| "finite_value _ = False"

definition learning_category :: "string \<Rightarrow> string" where
  "learning_category cat = (if cat \<in> set CATEGORIES then cat else ''general'')"

text \<open>The column \<^verbatim>\<open>source_doc_ids\<close> is checked but not kept in the rows of \<open>Store\<close>.\<close>

definition fields_row ::
  "string \<Rightarrow> string \<Rightarrow> string \<Rightarrow> real list option \<Rightarrow> real \<Rightarrow> learning_fields \<Rightarrow> string option \<Rightarrow> learning" where
  "fields_row agent category content emb created f evidence =
     (let conf = (case lf_confidence f of None \<Rightarrow> (Fin 1, ''1.0'') | Some c \<Rightarrow> c)
      in (new_learning agent content created)
           \<lparr>l_category := learning_category category, l_embedding := emb,
            l_confidence := JFloat (fst conf) (snd conf), l_source_query := opt_json (lf_source_query f),
            l_evidence := opt_json evidence, l_assertion := opt_json (lf_assertion f),
            l_applies_when := opt_json (lf_applies f),
            l_contradicts := (case lf_contradicts f of None \<Rightarrow> JNull | Some n \<Rightarrow> JInt n),
            l_hash := lf_hash f,
            l_status := (case lf_status f of None \<Rightarrow> Some ''active'' | Some s \<Rightarrow> Some s)\<rparr>)"

definition supersede_row :: "int option \<Rightarrow> int \<Rightarrow> db \<Rightarrow> db" where
  "supersede_row old lid d =
     (case old of None \<Rightarrow> d
      | Some i \<Rightarrow> d\<lparr>learnings := update_where (\<lambda>l. l_id l = i) (\<lambda>l. l\<lparr>l_superseded_by := Some lid\<rparr>) (learnings d)\<rparr>)"

definition insert_learning_row ::
  "string \<Rightarrow> string \<Rightarrow> string \<Rightarrow> real list option \<Rightarrow> real \<Rightarrow> learning_fields \<Rightarrow> db \<Rightarrow> coord_error + db \<times> int" where
  "insert_learning_row agent category content emb created f d =
     (if (case lf_confidence f of None \<Rightarrow> False | Some (v, t) \<Rightarrow> \<not> finite_value v)
      then Inl (Abort ''learning_field_invalid'')
      else bind_result (json_or_text (lf_source_docs f)) (\<lambda>_.
           bind_result (json_or_text (lf_evidence_docs f)) (\<lambda>evidence.
             if lf_hash f \<noteq> None \<and> \<not> has_hash_column d then Inl (Abort ''learning_field_unavailable'')
             else Inr (supersede_row (lf_supersedes f) (next_learning d)
                    (insert_learning (fields_row agent category content emb created f evidence) d),
                  next_learning d))))"

fun add_chunks ::
  "int \<Rightarrow> string \<Rightarrow> string \<Rightarrow> real \<Rightarrow> nat \<Rightarrow> (string \<times> string) list \<Rightarrow> gstore \<Rightarrow> gstore \<times> int list" where
  "add_chunks doc model layer ts i [] g = (g, [])"
| "add_chunks doc model layer ts i ((t, v) # cs) g =
     (let cid = gs_next_chunk g;
          g1 = g\<lparr>gs_chunks := gs_chunks g @ [\<lparr>vc_id = cid, vc_doc = doc, vc_index = i, vc_text = t,
                 vc_vector = v, vc_model = model, vc_at = ts, vc_layer = layer\<rparr>],
                 gs_next_chunk := cid + 1\<rparr>;
          (g2, ids) = add_chunks doc model layer ts (Suc i) cs g1
      in (g2, cid # ids))"

text \<open>The text row and the vectors of a node are filled independently; what is there stays.\<close>

definition fill_projection ::
  "int \<Rightarrow> string \<Rightarrow> string \<Rightarrow> string option \<Rightarrow> string \<Rightarrow> (string \<times> string) list \<Rightarrow> string \<Rightarrow> string \<Rightarrow> real
     \<Rightarrow> gstore \<Rightarrow> gstore \<times> int list" where
  "fill_projection doc path agent sigil content chunks model layer ts g =
     (let g1 = (if list_ex (\<lambda>t. ft_doc t = doc) (gs_texts g) then g
                else g\<lparr>gs_texts := gs_texts g @ [\<lparr>ft_doc = doc, ft_path = path, ft_content = content,
                       ft_agent = agent, ft_sigil = sigil\<rparr>]\<rparr>)
      in if chunks = [] \<or> list_ex (\<lambda>c. vc_doc c = doc) (gs_chunks g1) then (g1, [])
         else add_chunks doc model layer ts 0 chunks g1)"

section \<open>The prepared payload\<close>

record prepared =
  pc_digest :: string
  pc_store :: string
  pc_principal :: effective_principal
  pc_workspace :: string
  pc_content :: string
  pc_content_sha :: string
  pc_category :: string
  pc_vault :: string
  pc_model :: string
  pc_graph :: bool
  pc_vector :: "string option"
  pc_chunks :: "(string \<times> string) list"
  pc_path :: string
  pc_sigil :: "string option"
  pc_layer :: string
  pc_no_pairs :: bool
  pc_validated :: "verdict list"
  pc_info :: "(string \<times> string) list"
  pc_snapshots :: "(int \<times> jobj) list"
  pc_fields :: learning_fields
  pc_at :: real

definition verdict_json :: "coord_env \<Rightarrow> verdict \<Rightarrow> json" where
  "verdict_json ce v =
     (case v of (d, label, direction, conf) \<Rightarrow>
        JList [JStr (ds_pair d), JInt (ds_doc d), JStr (ds_store d), ds_content_hash d,
          JStr (ds_metadata_hash d), JStr label, JStr direction, JFloat (Fin conf) (ce_float ce conf)])"

definition text_json :: "coord_error + string option \<Rightarrow> json" where
  "text_json r = (case r of Inl e \<Rightarrow> JNull | Inr t \<Rightarrow> opt_json t)"

definition int_json :: "int option \<Rightarrow> json" where
  "int_json v = (case v of None \<Rightarrow> JNull | Some n \<Rightarrow> JInt n)"

definition fields_json :: "learning_fields \<Rightarrow> json" where
  "fields_json f = JObj [(''source_query'', opt_json (lf_source_query f)),
     (''source_doc_ids'', text_json (json_or_text (lf_source_docs f))),
     (''evidence_doc_ids'', text_json (json_or_text (lf_evidence_docs f))),
     (''confidence'', (case lf_confidence f of None \<Rightarrow> JNull | Some (v, t) \<Rightarrow> JFloat v t)),
     (''assertion'', opt_json (lf_assertion f)), (''applies_when'', opt_json (lf_applies f)),
     (''contradicts_id'', int_json (lf_contradicts f)), (''supersedes'', int_json (lf_supersedes f)),
     (''content_hash'', opt_json (lf_hash f)), (''status'', opt_json (lf_status f))]"

definition payload_body :: "coord_env \<Rightarrow> prepared \<Rightarrow> json" where
  "payload_body ce p = JObj [(''store_id'', JStr (pc_store p)),
     (''agent'', JStr (p_agent_id (pc_principal p))), (''workspace'', JStr (pc_workspace p)),
     (''caps'', JList (p_capabilities (pc_principal p))),
     (''roots'', JList (map JStr (p_allowed_vault_roots (pc_principal p)))),
     (''content_sha256'', JStr (pc_content_sha p)), (''category'', JStr (pc_category p)),
     (''vault_path'', JStr (pc_vault p)), (''embedding_model'', JStr (pc_model p)),
     (''graph_enabled'', JBool (pc_graph p)),
     (''learning_vector'', opt_json (map_option (ce_sha ce) (pc_vector p))),
     (''chunks'', JList (map (\<lambda>(t, v). JList [JStr t, JStr (ce_sha ce v)]) (pc_chunks p))),
     (''path'', JStr (pc_path p)), (''sigil'', opt_json (pc_sigil p)), (''layer'', JStr (pc_layer p)),
     (''shortlist_no_pairs'', JBool (pc_no_pairs p)),
     (''validated'', JList (map (verdict_json ce) (pc_validated p))),
     (''classifier_info'', JList (map (\<lambda>(k, v). JList [JStr k, JStr v]) (pc_info p))),
     (''meta_snapshots'', JList (map (\<lambda>(d, m). JList [JInt d, JStr (json_dumps (sort_json_keys (JObj m)))])
        (pc_snapshots p))),
     (''fields'', fields_json (pc_fields p)),
     (''prepared_at'', JFloat (Fin (pc_at p)) (ce_float ce (pc_at p)))]"

definition payload_digest :: "coord_env \<Rightarrow> prepared \<Rightarrow> string" where
  "payload_digest ce p = compute_canonical_hash (ce_sha ce) (payload_body ce p)"

section \<open>Phase B\<close>

definition bound_store :: "coord_env \<Rightarrow> string option \<Rightarrow> string \<Rightarrow> string option" where
  "bound_store ce main store =
     (if py_strip store = [] then Some ''store_binding_invalid''
      else case main of
        None \<Rightarrow> Some ''store_binding_mismatch''
      | Some file \<Rightarrow> if ce_realpath ce store = ce_realpath ce file then None else Some ''store_binding_mismatch'')"

text \<open>The first refusal before anything is written.\<close>

definition commit_refusal :: "coord_env \<Rightarrow> bool \<Rightarrow> prepared \<Rightarrow> effective_principal \<Rightarrow> string option" where
  "commit_refusal ce in_txn pc p =
     (if payload_digest ce pc \<noteq> pc_digest pc then Some ''payload_tampered''
      else if ce_sha ce (pc_content pc) \<noteq> pc_content_sha pc then Some ''payload_tampered''
      else if p_agent_id p \<noteq> p_agent_id (pc_principal pc) then Some ''principal_mismatch''
      else if p_workspace_id p \<noteq> p_workspace_id (pc_principal pc) then Some ''principal_mismatch''
      else if p_workspace_id p \<noteq> pc_workspace pc then Some ''principal_mismatch''
      else if \<not> in_txn then Some ''write_requires_transaction''
      else case bound_store ce (ce_main ce) (pc_store pc) of
        Some e \<Rightarrow> Some e
      | None \<Rightarrow> bound_store ce (ce_cursor_main ce) (pc_store pc))"

definition node_closed :: "db \<Rightarrow> string \<Rightarrow> bool" where
  "node_closed d path =
     (case find (\<lambda>x. document.d_path x = path) (documents d) of
        None \<Rightarrow> False | Some x \<Rightarrow> projection_row_closed (document.d_page_status x) (document.d_privacy x))"

text \<open>One descriptor for each target document, the last one given.\<close>

definition targets_of :: "verdict list \<Rightarrow> (int \<times> descriptor) list" where
  "targets_of vs = foldl (\<lambda>m v. AList.update (ds_doc (fst v)) (fst v) m) [] vs"

definition targets_valid ::
  "coord_env \<Rightarrow> gstore \<Rightarrow> effective_principal \<Rightarrow> string \<Rightarrow> string \<Rightarrow> (int \<times> jobj) list \<Rightarrow> verdict list \<Rightarrow> bool" where
  "targets_valid ce g p workspace store snapshots vs \<longleftrightarrow>
     list_all (\<lambda>(doc, d). case map_of snapshots doc of
         None \<Rightarrow> False | Some snap \<Rightarrow> revalidate_target ce g p workspace store snap d) (targets_of vs)"

definition run_id :: "coord_env \<Rightarrow> string \<Rightarrow> string \<Rightarrow> string \<Rightarrow> string" where
  "run_id ce model prompt evidence =
     take 16 (ce_sha ce (model @ [CHR 0x00] @ prompt @ [CHR 0x00] @ evidence))"

definition provenance_of :: "coord_env \<Rightarrow> (string \<times> string) list \<Rightarrow> real \<Rightarrow> provenance option" where
  "provenance_of ce info ts =
     (case (map_of info ''model_id'', map_of info ''prompt_version'', map_of info ''evidence_hash'') of
        (Some m, Some v, Some h) \<Rightarrow>
          Some \<lparr>pv_run = run_id ce m v h, pv_model = m, pv_prompt = v, pv_evidence = h, pv_at = ts\<rparr>
      | _ \<Rightarrow> None)"

record commit_result =
  cr_learning :: int
  cr_doc :: int
  cr_edges :: "(int \<times> int \<times> string \<times> real) list"
  cr_no_candidates :: bool
  cr_deferred :: "string option"
  cr_chunk_ids :: "int list"
  cr_vectors :: "string list"
  cr_logged :: bool
  cr_superseded :: "int list"
  cr_reviews :: nat

definition lift_db :: "pyerr + 'a \<Rightarrow> coord_error + 'a" where
  "lift_db r = (case r of Inl e \<Rightarrow> Inl Crash | Inr a \<Rightarrow> Inr a)"

definition live_verdicts :: "prepared \<Rightarrow> verdict list" where
  "live_verdicts pc = (if pc_graph pc then pc_validated pc else [])"

text \<open>What follows the node: targets, projection, edges, supersession.\<close>

definition commit_graph ::
  "coord_env \<Rightarrow> prepared \<Rightarrow> effective_principal \<Rightarrow> int \<Rightarrow> int \<Rightarrow> gstore \<Rightarrow> coord_error + gstore \<times> commit_result"
where
  "commit_graph ce pc p lid doc g =
     (let vs = live_verdicts pc; agent = p_agent_id (pc_principal pc) in
      if \<not> targets_valid ce g p (pc_workspace pc) (pc_store pc) (pc_snapshots pc) vs
      then Inl (Abort ''stale_candidate'')
      else
       (let bound = bind_edges vs doc;
            (g1, ids) = fill_projection doc (pc_path pc) agent (pc_sigil pc) (pc_content pc) (pc_chunks pc)
              (pc_model pc) (pc_layer pc) (pc_at pc) g
        in bind_result
            (if bound = [] then Inr (g1, False)
             else case provenance_of ce (pc_info pc) (pc_at pc) of
               None \<Rightarrow> Inl Crash | Some pv \<Rightarrow> Inr (write_edges pv lid [] bound g1))
            (\<lambda>(g2, logged).
              let (g3, retired, reviews) =
                    apply_updates_supersession True doc lid agent (pc_at pc) [] vs g2
              in Inr (g3, \<lparr>cr_learning = lid, cr_doc = doc, cr_edges = bound, cr_no_candidates = pc_no_pairs pc,
                    cr_deferred = (if pc_graph pc then None else Some ''disabled''), cr_chunk_ids = ids,
                    cr_vectors = (if ids = [] then [] else map snd (pc_chunks pc)), cr_logged = logged,
                    cr_superseded = retired, cr_reviews = reviews\<rparr>))))"

definition commit_prepared_learning ::
  "coord_env \<Rightarrow> bool \<Rightarrow> prepared \<Rightarrow> effective_principal \<Rightarrow> gstore \<Rightarrow> coord_error + gstore \<times> commit_result" where
  "commit_prepared_learning ce in_txn pc p g =
     (case commit_refusal ce in_txn pc p of
        Some code \<Rightarrow> Inl (Abort code)
      | None \<Rightarrow>
          if node_closed (gs_db g) (pc_path pc) then Inl (Abort ''canonical_restricted'')
          else
           (let agent = p_agent_id (pc_principal pc); e = (ce_env ce)\<lparr>vault_path := pc_vault pc\<rparr> in
            bind_result (insert_learning_row agent (pc_category pc) (pc_content pc)
                (map_option (ce_decode ce) (pc_vector pc)) (pc_at pc) (pc_fields pc) (gs_db g)) (\<lambda>(d1, lid).
            bind_result (lift_db (ensure_canonical_learning_node e lid agent (pc_content pc) (pc_at pc) d1))
              (\<lambda>(d2, node).
              case node of
                None \<Rightarrow> Inl (Abort ''canonical_failed'')
              | Some doc \<Rightarrow> commit_graph ce pc p lid doc (g\<lparr>gs_db := d2\<rparr>)))))"

end
