(* ===== verification/Prepare.thy ===== *)
theory Prepare
  imports Coordinator
begin

text \<open>
  \<^verbatim>\<open>src/minni/graph_coordinator.py\<close>, Phase A and the two entry points: preparing a payload outside any
  transaction, the wrapper that prepares and commits, and the repair of the projection of a
  committed learning.  The callbacks (chunker, embedder, search, accessors, classifier) are parameters;
  \<open>None\<close> is a callback that raised.
\<close>

section \<open>The classifier's batch, verified again\<close>

text \<open>A batch as the coordinator reads it; its edges are given as their dictionaries.\<close>

record batch =
  bt_prompt_hash :: json
  bt_source_hash :: json
  bt_candidates_hash :: json
  bt_batch_hash :: json
  bt_classified :: "string list"
  bt_unclassified :: "string list"
  bt_edges :: "json list"
  bt_output_hash :: json
  bt_model :: json
  bt_version :: json
  bt_evidence_hash :: json

datatype classify_answer = ClassifyRaised | ClassifyNone | ClassifyBatch batch

definition as_text :: "json \<Rightarrow> string" where
  "as_text v = (case v of JStr s \<Rightarrow> s | _ \<Rightarrow> [])"

definition accounted :: "string list \<Rightarrow> string list \<Rightarrow> string list \<Rightarrow> bool" where
  "accounted classified unclassified sent \<longleftrightarrow>
     set classified \<union> set unclassified = set sent \<and> set classified \<inter> set unclassified = {}
     \<and> distinct classified \<and> distinct unclassified"

definition persisted :: "inferred_edge \<Rightarrow> bool" where
  "persisted e \<longleftrightarrow> ie_label e \<noteq> ''none'' \<and> the (map_of PERSIST_CONFIDENCE (ie_label e)) \<le> ie_confidence e"

definition batch_info :: "batch \<Rightarrow> (string \<times> string) list" where
  "batch_info b = [(''evidence_hash'', as_text (bt_evidence_hash b)), (''model_id'', as_text (bt_model b)),
     (''output_hash'', as_text (bt_output_hash b)), (''prompt_version'', as_text (bt_version b))]"

text \<open>Is the batch bound to exactly what was rendered?\<close>

definition batch_bound ::
  "(string \<Rightarrow> string) \<Rightarrow> jobj \<Rightarrow> jobj list \<Rightarrow> prompt_render \<Rightarrow> batch \<Rightarrow> bool" where
  "batch_bound sha src ds r b \<longleftrightarrow>
     bt_prompt_hash b = JStr (sha (pr_prompt r))
     \<and> bt_source_hash b = JStr (compute_canonical_hash sha (JObj src))
     \<and> bt_candidates_hash b = JStr (compute_canonical_hash sha (JList (map JObj ds)))
     \<and> bt_batch_hash b = JStr (compute_canonical_hash sha
          (JList (map JObj (batch_candidates ds (pr_pair_ids r)))))
     \<and> accounted (bt_classified b) (bt_unclassified b) (candidate_ids ds)
     \<and> set (bt_classified b) = set (pr_pair_ids r)"

definition batch_outcome ::
  "(string \<Rightarrow> string) \<Rightarrow> jobj \<Rightarrow> jobj list \<Rightarrow> prompt_render \<Rightarrow> batch \<Rightarrow> inferred_edge list \<Rightarrow> bool" where
  "batch_outcome sha src ds r b es \<longleftrightarrow>
     (let out = compute_canonical_hash sha (JList (map edge_json es)) in
      bt_output_hash b = JStr out \<and> as_text (bt_model b) \<noteq> [] \<and> as_text (bt_version b) \<noteq> []
      \<and> bt_evidence_hash b = JStr (sha (join_with '':''
          [compute_canonical_hash sha (JObj src),
           compute_canonical_hash sha (JList (map JObj (batch_candidates ds (pr_pair_ids r)))),
           sha (pr_prompt r), out, as_text (bt_version b), as_text (bt_model b)])))"

record classify_ctx =
  cc_sha :: "string \<Rightarrow> string"
  cc_tokens :: tokenizer
  cc_template :: string
  cc_loads :: "string \<Rightarrow> load_error + json"

definition classify_validated ::
  "classify_ctx \<Rightarrow> jobj \<Rightarrow> jobj list \<Rightarrow> (jobj \<Rightarrow> jobj list \<Rightarrow> classify_answer) \<Rightarrow> (string \<times> descriptor) list
     \<Rightarrow> coord_error + verdict list \<times> (string \<times> string) list" where
  "classify_validated x src ds ask descriptors =
     (let failed = Inl (Abort ''edge_inference_failed'') in
      if \<not> finite_json (JObj src) \<or> \<not> finite_json (JList (map JObj ds)) then failed
      else
       (let r = render_edge_inference_prompt (cc_tokens x) (cc_template x) src ds MAX_CANDIDATE_PAIRS
                  MAX_EXCERPT_TOKENS EdgeInference.AFM_INPUT_BUDGET_TOKENS in
        if pr_exceeded r \<or> \<not> distinct (candidate_ids ds) then failed
        else case ask src ds of
          ClassifyBatch b \<Rightarrow>
            if \<not> batch_bound (cc_sha x) src ds r b then failed
            else (case validate_edge_inference_response (cc_loads x) (JList (bt_edges b))
                    (JList (map JStr (pr_pair_ids r)))
                    (JObj (map (\<lambda>pn. (fst pn, JInt (int (snd pn)))) (pr_line_counts r))) of
                Raised \<Rightarrow> Inl Crash
              | Bad e \<Rightarrow> failed
              | Good es \<Rightarrow>
                  if \<not> batch_outcome (cc_sha x) src ds r b es then failed
                  else Inr (map (\<lambda>e. (the (map_of descriptors (ie_pair e)), ie_label e, ie_direction e,
                                     ie_confidence e)) (filter persisted es), batch_info b))
        | _ \<Rightarrow> failed))"

section \<open>Phase A\<close>

record prep_env =
  pe_ce :: coord_env
  pe_ctx :: classify_ctx
  pe_chunks :: "string \<Rightarrow> string list option"
  pe_embed :: "string \<Rightarrow> string option"
  pe_search :: "string \<Rightarrow> json option"
  pe_metadata :: "string \<Rightarrow> int \<Rightarrow> json option"
  pe_content :: "string \<Rightarrow> int \<Rightarrow> json option"
  pe_classify :: "jobj \<Rightarrow> jobj list \<Rightarrow> classify_answer"
  pe_locked :: bool                 \<comment> \<open>a write transaction is open\<close>
  pe_ready :: bool                  \<comment> \<open>the typed graph's schema is there\<close>
  pe_clock :: real

record prep_request =
  pq_store :: string
  pq_principal :: effective_principal
  pq_content :: string
  pq_category :: string
  pq_vault :: string
  pq_model :: string
  pq_graph :: bool
  pq_workspace :: string
  pq_fields :: learning_fields

fun embed_all :: "(string \<Rightarrow> string option) \<Rightarrow> string list \<Rightarrow> string list option" where
  "embed_all emb [] = Some []"
| "embed_all emb (t # ts) =
     (case emb t of
        None \<Rightarrow> None
      | Some v \<Rightarrow> if v = [] then None else map_option (\<lambda>vs. v # vs) (embed_all emb ts))"

text \<open>\<^verbatim>\<open>==\<close> between a JSON value and an int.\<close>

definition equals_int :: "json \<Rightarrow> int \<Rightarrow> bool" where
  "equals_int v d =
     (case v of JInt n \<Rightarrow> n = d | JBool b \<Rightarrow> (if b then 1 else 0) = d | JFloat (Fin x) t \<Rightarrow> x = of_int d | _ \<Rightarrow> False)"

text \<open>The accessor handed to the shortlist: it raises on metadata that is not a copy of this document's.\<close>

definition capture_target_metadata ::
  "(string \<Rightarrow> int \<Rightarrow> json option) \<Rightarrow> string \<Rightarrow> int \<Rightarrow> json option" where
  "capture_target_metadata get store d =
     (case get store d of
        Some JNull \<Rightarrow> Some JNull
      | Some (JObj md) \<Rightarrow>
          if finite_json (JObj md) \<and> jget md ''store_id'' = JStr store \<and> equals_int (jget md ''doc_id'') d
          then Some (JObj md) else None
      | _ \<Rightarrow> None)"

fun captured :: "(int \<Rightarrow> json option) \<Rightarrow> access list \<Rightarrow> (int \<times> jobj) list \<Rightarrow> (int \<times> jobj) list" where
  "captured get [] m = m"
| "captured get (ReadMetadata d # as) m =
     (case get d of Some (JObj md) \<Rightarrow> captured get as (AList.update d md m) | _ \<Rightarrow> captured get as m)"
| "captured get (ReadContent d # as) m = captured get as m"

definition attempted :: "access list \<Rightarrow> int \<Rightarrow> bool" where
  "attempted acs d \<longleftrightarrow> ReadContent d \<in> set acs"

definition shortlist_for ::
  "prep_env \<Rightarrow> string \<Rightarrow> effective_principal \<Rightarrow> string \<Rightarrow> json \<Rightarrow> (shortlist_error + shortlist) \<times> access list" where
  "shortlist_for x store p workspace hits =
     prepare_candidate_shortlist
       \<lparr>sx_host = ce_host (pe_ce x), sx_principal = p,
        sx_metadata = capture_target_metadata (pe_metadata x), sx_content = pe_content x,
        sx_sha = ce_sha (pe_ce x), sx_tokens = cc_tokens (pe_ctx x), sx_float = ce_float (pe_ce x)\<rparr>
       \<lparr>sr_hits = hits, sr_store = store, sr_self = None, sr_workspace = workspace,
        sr_max_chunks = MAX_CHUNK_HITS, sr_max_docs = MAX_SHORTLIST_DOCS, sr_floor = Fin COSINE_FLOOR,
        sr_max_pairs = MAX_CLASSIFIER_PAIRS\<rparr>"

definition source_of :: "coord_env \<Rightarrow> string \<Rightarrow> string \<Rightarrow> string \<Rightarrow> jobj" where
  "source_of ce store agent content =
     [(''store_id'', JStr store), (''agent_id'', JStr agent), (''title'', JStr (''learning:'' @ agent)),
      (''content_sha256'', JStr (ce_sha ce content)), (''excerpt'', JStr (take 2000 (py_strip content)))]"

definition candidate_of :: "descriptor \<Rightarrow> jobj" where
  "candidate_of d =
     [(''pair_id'', JStr (ds_pair d)), (''doc_id'', JInt (ds_doc d)), (''store_id'', JStr (ds_store d)),
      (''title'', JStr (ds_title d)), (''status'', JStr (ds_status d)), (''page_type'', JStr (ds_page_type d)),
      (''excerpt'', opt_json (ds_excerpt d)), (''content_sha256'', ds_content_hash d)]"

text \<open>Shortlist and classification: the verdicts, their provenance, the snapshots, whether no pair was found.\<close>

definition infer_edges ::
  "prep_env \<Rightarrow> string \<Rightarrow> effective_principal \<Rightarrow> string \<Rightarrow> string \<Rightarrow> string \<Rightarrow> json
     \<Rightarrow> coord_error + verdict list \<times> (string \<times> string) list \<times> (int \<times> jobj) list \<times> bool" where
  "infer_edges x store p workspace agent content hits =
     (let (answer, acs) = shortlist_for x store p workspace hits;
          snaps = captured (capture_target_metadata (pe_metadata x) store) acs [] in
      case answer of
        Inl FloatOverflow \<Rightarrow> Inl Crash
      | Inl e \<Rightarrow> Inl (Abort ''shortlist_rejected'')
      | Inr sl \<Rightarrow>
          if list_ex (\<lambda>d. attempted acs (ds_doc d)) (sl_deferred sl)
          then Inl (Abort ''candidate_preparation_failed'')
          else if sl_pairs sl = [] then Inr ([], [], snaps, True)
          else bind_result (classify_validated (pe_ctx x) (source_of (pe_ce x) store agent content)
                  (map candidate_of (sl_pairs sl)) (pe_classify x)
                  (map (\<lambda>d. (ds_pair d, d)) (sl_pairs sl)))
                (\<lambda>(vs, info). Inr (vs, info, snaps, False)))"

definition freezable :: "json \<Rightarrow> bool" where
  "freezable v = (case v of JList xs \<Rightarrow> finite_json v | JObj kvs \<Rightarrow> finite_json v | _ \<Rightarrow> True)"

definition digestible :: "coord_env \<Rightarrow> prepared \<Rightarrow> bool" where
  "digestible ce pc \<longleftrightarrow> finite_json (payload_body ce pc)
     \<and> (\<exists>t. json_or_text (lf_source_docs (pc_fields pc)) = Inr t)
     \<and> (\<exists>t. json_or_text (lf_evidence_docs (pc_fields pc)) = Inr t)"

lemma digestible_code [code]:
  "digestible ce pc \<longleftrightarrow> finite_json (payload_body ce pc)
     \<and> (case json_or_text (lf_source_docs (pc_fields pc)) of Inl e \<Rightarrow> False | Inr t \<Rightarrow> True)
     \<and> (case json_or_text (lf_evidence_docs (pc_fields pc)) of Inl e \<Rightarrow> False | Inr t \<Rightarrow> True)"
  by (auto simp: digestible_def split: sum.splits)

text \<open>The embedding step: the vector of the content and the chunks with theirs.\<close>

definition embed_step ::
  "prep_env \<Rightarrow> bool \<Rightarrow> string \<Rightarrow> string list \<Rightarrow> coord_error + string option \<times> (string \<times> string) list" where
  "embed_step x graph content raw =
     (case embed_all (pe_embed x) (content # raw) of
        None \<Rightarrow> if graph then Inl (Abort ''embed_failed'') else Inr (None, [])
      | Some vs \<Rightarrow> Inr (Some (hd vs), zip raw (tl vs)))"

definition chunk_step :: "prep_env \<Rightarrow> string \<Rightarrow> coord_error + string list" where
  "chunk_step x content =
     (case pe_chunks x content of
        None \<Rightarrow> Inl (Abort ''chunk_failed'')
      | Some [] \<Rightarrow> Inr [py_strip content]
      | Some cs \<Rightarrow> Inr cs)"

definition edge_step ::
  "prep_env \<Rightarrow> prep_request \<Rightarrow> string option
     \<Rightarrow> coord_error + verdict list \<times> (string \<times> string) list \<times> (int \<times> jobj) list \<times> bool" where
  "edge_step x q vec =
     (if \<not> pq_graph q then Inr ([], [], [], False)
      else if \<not> pe_ready x then Inl (Abort ''edge_inference_schema_missing'')
      else case pe_search x (or_text vec []) of
        None \<Rightarrow> Inl (Abort ''search_failed'')
      | Some hits \<Rightarrow> infer_edges x (pq_store q) (pq_principal q) (pq_workspace q)
                      (p_agent_id (pq_principal q)) (pq_content q) hits)"

definition draft_payload ::
  "prep_env \<Rightarrow> prep_request \<Rightarrow> string option \<Rightarrow> (string \<times> string) list \<Rightarrow> verdict list \<Rightarrow> (string \<times> string) list
     \<Rightarrow> (int \<times> jobj) list \<Rightarrow> bool \<Rightarrow> prepared" where
  "draft_payload x q vec chunks vs info snaps no_pairs =
     (let ce = pe_ce x; e = (ce_env ce)\<lparr>vault_path := pq_vault q\<rparr>; md = durable_metadata e (pq_content q)
      in \<lparr>pc_digest = [], pc_store = pq_store q, pc_principal = pq_principal q, pc_workspace = pq_workspace q,
          pc_content = pq_content q, pc_content_sha = ce_sha ce (pq_content q), pc_category = pq_category q,
          pc_vault = pq_vault q, pc_model = pq_model q, pc_graph = pq_graph q, pc_vector = vec,
          pc_chunks = chunks, pc_path = durable_doc_path e (p_agent_id (pq_principal q)) (pq_content q),
          pc_sigil = dm_sigil md, pc_layer = dm_layer md, pc_no_pairs = no_pairs, pc_validated = vs,
          pc_info = info, pc_snapshots = sort_key fst snaps, pc_fields = pq_fields q, pc_at = pe_clock x\<rparr>)"

definition prepare_learning_with_graph :: "prep_env \<Rightarrow> prep_request \<Rightarrow> coord_error + prepared" where
  "prepare_learning_with_graph x q =
     (let ce = pe_ce x in
      if pq_workspace q \<noteq> p_workspace_id (pq_principal q) then Inl (Abort ''workspace_mismatch'')
      else case bound_store ce (ce_main ce) (pq_store q) of
        Some e \<Rightarrow> Inl (Abort e)
      | None \<Rightarrow>
          if pe_locked x then Inl (Abort ''model_in_transaction'')
          else if py_strip (pq_content q) = [] then Inl (Abort ''empty_content'')
          else if \<not> freezable (lf_source_docs (pq_fields q)) \<or> \<not> freezable (lf_evidence_docs (pq_fields q))
          then Inl Crash
          else bind_result (chunk_step x (pq_content q)) (\<lambda>raw.
               bind_result (embed_step x (pq_graph q) (pq_content q) raw) (\<lambda>(vec, chunks).
               bind_result (edge_step x q vec) (\<lambda>(vs, info, snaps, no_pairs).
                 let pc = draft_payload x q vec chunks vs info snaps no_pairs
                 in if digestible ce pc then Inr (pc\<lparr>pc_digest := payload_digest ce pc\<rparr>) else Inl Crash))))"

section \<open>The wrapper\<close>

text \<open>A refusal or an exception inside \<^verbatim>\<open>with db.transaction()\<close> rolls everything back.\<close>

definition commit_learning_with_graph ::
  "prep_env \<Rightarrow> prep_request \<Rightarrow> gstore \<Rightarrow> gstore \<times> (coord_error + commit_result)" where
  "commit_learning_with_graph x q g =
     (case prepare_learning_with_graph x q of
        Inl e \<Rightarrow> (g, Inl e)
      | Inr pc \<Rightarrow>
         (case commit_prepared_learning (pe_ce x) True pc (pq_principal q) g of
            Inl Crash \<Rightarrow> (g, Inl (Abort ''commit_failed''))
          | Inl e \<Rightarrow> (g, Inl e)
          | Inr (g', res) \<Rightarrow> (g', Inr res)))"

section \<open>Repair\<close>

record repair_request =
  rq_store :: string
  rq_learning :: int
  rq_vault :: string
  rq_model :: string
  rq_principal :: "effective_principal option"
  rq_edges :: bool              \<comment> \<open>classifier, search and accessors were all given\<close>
  rq_graph :: bool
  rq_workspace :: string

record repair_result =
  rr_status :: string
  rr_doc :: int
  rr_edges :: "(int \<times> int \<times> string \<times> real) list"
  rr_deferred :: "string option"
  rr_chunk_ids :: "int list"
  rr_vectors :: "string list"
  rr_reviews :: nat

text \<open>The edges of a repair, or why there are none: whatever fails there is only deferred.\<close>

definition repair_edges ::
  "prep_env \<Rightarrow> repair_request \<Rightarrow> string \<Rightarrow> string \<Rightarrow> bool
     \<Rightarrow> verdict list \<times> (string \<times> string) list \<times> (int \<times> jobj) list \<times> string option" where
  "repair_edges x q agent content lexical_only =
     (let degraded = ([], [], [], Some ''degraded'') in
      case (if rq_graph q \<and> rq_edges q then rq_principal q else None) of
        None \<Rightarrow> ([], [], [], if rq_graph q then None else Some ''disabled'')
      | Some p \<Rightarrow>
          if lexical_only then ([], [], [], None)
          else if \<not> pe_ready x then degraded
          else (case pe_embed x content of
              None \<Rightarrow> degraded
            | Some v \<Rightarrow>
               (case pe_search x v of
                  None \<Rightarrow> degraded
                | Some hits \<Rightarrow>
                   (case infer_edges x (rq_store q) p (rq_workspace q) agent content hits of
                      Inl e \<Rightarrow> degraded
                    | Inr (vs, info, snaps, no_pairs) \<Rightarrow> (vs, info, snaps, None)))))"

text \<open>The node of the learning; without the graph's schema a bare document row.\<close>

definition bare_document :: "int \<Rightarrow> string \<Rightarrow> string \<Rightarrow> durable_meta \<Rightarrow> real \<Rightarrow> document" where
  "bare_document doc path agent md ts =
     \<lparr>document.d_id = doc, document.d_path = path, document.d_agent = agent, document.d_sigil = dm_sigil md,
      document.d_modified = ts, document.d_page_status = Some (dm_page_status md),
      document.d_privacy = Some (dm_privacy md), document.d_page_type = Some (dm_page_type md),
      document.d_layer = Some (dm_layer md), document.d_kind = None, document.d_uri = None,
      document.d_superseded_by = None\<rparr>"

definition repair_node ::
  "env \<Rightarrow> int \<Rightarrow> string \<Rightarrow> string \<Rightarrow> real \<Rightarrow> db \<Rightarrow> coord_error + db \<times> int \<times> bool" where
  "repair_node e lid agent content ts d =
     (let path = durable_doc_path e agent content; md = durable_metadata e content in
      bind_result (lift_db (ensure_canonical_learning_node e lid agent content ts d)) (\<lambda>(d1, node).
        Inr (case node of
          Some doc \<Rightarrow> (d1, doc, False)
        | None \<Rightarrow>
            (case find (\<lambda>x. document.d_path x = path) (documents d1) of
               Some row \<Rightarrow> (d1, document.d_id row, True)
             | None \<Rightarrow>
                 (d1\<lparr>documents := documents d1 @ [bare_document (next_document d1) path agent md ts],
                     next_document := next_document d1 + 1\<rparr>, next_document d1, True)))))"

definition source_unchanged :: "db \<Rightarrow> int \<Rightarrow> string \<Rightarrow> string \<Rightarrow> bool" where
  "source_unchanged d lid agent content \<longleftrightarrow>
     (case learning_row d lid of
        None \<Rightarrow> False | Some l \<Rightarrow> l_agent l = agent \<and> l_content l = content \<and> learning_active l)"

text \<open>What follows the node: targets, projection, edges, and reviews in the place of retirements.\<close>

definition repair_graph ::
  "prep_env \<Rightarrow> repair_request \<Rightarrow> string \<Rightarrow> string \<Rightarrow> (string \<times> string) list
     \<Rightarrow> verdict list \<times> (string \<times> string) list \<times> (int \<times> jobj) list \<times> string option
     \<Rightarrow> int \<Rightarrow> bool \<Rightarrow> gstore \<Rightarrow> coord_error + gstore \<times> repair_result" where
  "repair_graph x q agent content chunks inferred doc missing g =
     (let ce = pe_ce x; e = (ce_env ce)\<lparr>vault_path := rq_vault q\<rparr>; lid = rq_learning q;
          md = durable_metadata e content; ts = pe_clock x;
          (vs, info, snaps, deferred) = inferred; live = (if missing then [] else vs) in
      if live \<noteq> [] \<and> (case rq_principal q of None \<Rightarrow> True
            | Some p \<Rightarrow> \<not> targets_valid ce g p (rq_workspace q) (rq_store q) snaps live)
      then Inl (Abort ''stale_candidate'')
      else
       (let bound = bind_edges live doc;
            (g1, ids) = fill_projection doc (durable_doc_path e agent content) agent (dm_sigil md) content chunks
              (rq_model q) (dm_layer md) ts g in
        bind_result (if bound = [] then Inr g1
           else case provenance_of ce info ts of
             None \<Rightarrow> Inl Crash | Some pv \<Rightarrow> Inr (fst (write_edges pv lid [] bound g1)))
          (\<lambda>g2. let (g3, retired, reviews) = apply_updates_supersession False doc lid agent ts [] live g2
            in Inr (g3, \<lparr>rr_status =
                   (if missing then ''incomplete_schema_missing''
                    else if list_ex (\<lambda>c. vc_doc c = doc) (gs_chunks g3) then ''complete''
                    else ''incomplete_lexical_only''),
                 rr_doc = doc, rr_edges = bound, rr_deferred = deferred, rr_chunk_ids = ids,
                 rr_vectors = (if ids = [] then [] else map snd chunks), rr_reviews = reviews\<rparr>))))"

definition repair_transaction ::
  "prep_env \<Rightarrow> repair_request \<Rightarrow> string \<Rightarrow> string \<Rightarrow> (string \<times> string) list
     \<Rightarrow> verdict list \<times> (string \<times> string) list \<times> (int \<times> jobj) list \<times> string option
     \<Rightarrow> gstore \<Rightarrow> coord_error + gstore \<times> repair_result" where
  "repair_transaction x q agent content chunks inferred g =
     (let e = (ce_env (pe_ce x))\<lparr>vault_path := rq_vault q\<rparr>; lid = rq_learning q in
      if \<not> source_unchanged (gs_db g) lid agent content then Inl (Abort ''stale_source'')
      else if node_closed (gs_db g) (durable_doc_path e agent content) then Inl (Abort ''projection_restricted'')
      else bind_result (repair_node e lid agent content (pe_clock x) (gs_db g)) (\<lambda>(d1, doc, missing).
        repair_graph x q agent content chunks inferred doc missing (g\<lparr>gs_db := d1\<rparr>)))"

definition repair_learning_projection ::
  "prep_env \<Rightarrow> repair_request \<Rightarrow> gstore \<Rightarrow> gstore \<times> (coord_error + repair_result)" where
  "repair_learning_projection x q g =
     (let failed = (\<lambda>code. (g, Inl (Abort code))) in
      case bound_store (pe_ce x) (ce_main (pe_ce x)) (rq_store q) of
        Some e \<Rightarrow> failed e
      | None \<Rightarrow>
         (case learning_row (gs_db g) (rq_learning q) of
            None \<Rightarrow> failed ''learning_missing''
          | Some l \<Rightarrow>
              if \<not> learning_active l then failed ''learning_inactive''
              else if py_strip (l_content l) = [] then failed ''learning_empty''
              else (case chunk_step x (l_content l) of
                  Inl e \<Rightarrow> failed ''chunk_failed''
                | Inr raw \<Rightarrow>
                   (let vectors = embed_all (pe_embed x) raw;
                        chunks = (case vectors of None \<Rightarrow> [] | Some vs \<Rightarrow> zip raw vs);
                        inferred = repair_edges x q (l_agent l) (l_content l) (vectors = None)
                    in (case repair_transaction x q (l_agent l) (l_content l) chunks inferred g of
                          Inl (Abort code) \<Rightarrow> failed (''repair_'' @ code)
                        | Inl Crash \<Rightarrow> failed ''repair_failed''
                        | Inr (g', res) \<Rightarrow> (g', Inr res))))))"

end
