(* ===== verification/Coordinator_Laws.thy ===== *)
theory Coordinator_Laws
  imports Coordinator
begin

text \<open>
  The laws of \<open>Coordinator\<close>: which rows of the store a commit may change, that retirement is
  confined to the committing agent's own learnings, and that reviews are queued once.
\<close>

section \<open>Links\<close>

definition link_key :: "tlink \<Rightarrow> int \<times> int \<times> string" where
  "link_key l = (tl_source l, tl_target l, tl_type l)"

definition bound_key :: "int \<times> int \<times> string \<times> real \<Rightarrow> int \<times> int \<times> string" where
  "bound_key b = (case b of (s, t, ty, c) \<Rightarrow> (s, t, ty))"

lemma same_key_iff: "same_key a b \<longleftrightarrow> link_key a = link_key b"
  by (simp add: same_key_def link_key_def)

lemma refresh_link_key [simp]: "link_key (refresh_link n l) = link_key l"
  by (simp add: refresh_link_def link_key_def)

lemma refresh_link_conf [simp]: "tl_confidence (refresh_link n l) = tl_confidence n"
  by (simp add: refresh_link_def)

lemma edge_link_key [simp]: "link_key (edge_link p b) = bound_key b"
  by (cases b) (simp add: edge_link_def link_key_def bound_key_def)

lemma upsert_link_others:
  "link_key n \<notin> K \<Longrightarrow> filter (\<lambda>l. link_key l \<in> K) (upsert_link n ls) = filter (\<lambda>l. link_key l \<in> K) ls"
proof -
  assume n: "link_key n \<notin> K"
  have "filter (\<lambda>l. link_key l \<in> K) (update_where (same_key n) f ls) = filter (\<lambda>l. link_key l \<in> K) ls"
    if "\<And>l. link_key (f l) = link_key l" for f
    using n by (induction ls) (auto simp: update_where_def same_key_iff that)
  then show ?thesis using n by (simp add: upsert_link_def)
qed

lemma upsert_link_members:
  "l \<in> set (upsert_link n ls) \<Longrightarrow> l \<in> set ls \<or> link_key l = link_key n \<and> tl_confidence l = tl_confidence n"
  by (auto simp: upsert_link_def update_where_def same_key_iff split: if_splits)

lemma upsert_link_distinct:
  "distinct (map link_key ls) \<Longrightarrow> distinct (map link_key (upsert_link n ls))"
proof -
  assume d: "distinct (map link_key ls)"
  have "map link_key (update_where (same_key n) (refresh_link n) ls) = map link_key ls"
    by (rule update_where_keys) simp
  then show ?thesis using d
    by (auto simp: upsert_link_def same_key_iff list_ex_iff)
qed

definition edge_conf :: "int \<times> int \<times> string \<times> real \<Rightarrow> real" where
  "edge_conf b = (case b of (s, t, ty, c) \<Rightarrow> c)"

lemma edge_link_conf [simp]: "tl_confidence (edge_link p b) = Some (edge_conf b)"
  by (cases b) (simp add: edge_link_def edge_conf_def)

lemma write_edges_frame:
  "gs_db (fst (write_edges p lid seen bs g)) = gs_db g
   \<and> gs_reviews (fst (write_edges p lid seen bs g)) = gs_reviews g
   \<and> gs_texts (fst (write_edges p lid seen bs g)) = gs_texts g
   \<and> gs_chunks (fst (write_edges p lid seen bs g)) = gs_chunks g"
  by (induction p lid seen bs g rule: write_edges.induct) (simp_all add: Let_def)

lemma write_edges_others:
  "K \<inter> bound_key ` set bs = {} \<Longrightarrow>
   filter (\<lambda>l. link_key l \<in> K) (gs_links (fst (write_edges p lid seen bs g))) =
   filter (\<lambda>l. link_key l \<in> K) (gs_links g)"
proof (induction p lid seen bs g rule: write_edges.induct)
  case (2 p lid seen s t ty c bs g)
  have "filter (\<lambda>l. link_key l \<in> K) (upsert_link (edge_link p (s, t, ty, c)) (gs_links g)) =
      filter (\<lambda>l. link_key l \<in> K) (gs_links g)"
    using 2(3) by (intro upsert_link_others) auto
  then show ?case using 2 by (cases "ty = ''contradicts''") (simp_all add: Let_def)
qed simp

lemma write_edges_members:
  "l \<in> set (gs_links (fst (write_edges p lid seen bs g))) \<Longrightarrow>
   l \<in> set (gs_links g) \<or> (\<exists>b\<in>set bs. link_key l = bound_key b \<and> tl_confidence l = Some (edge_conf b))"
proof (induction p lid seen bs g rule: write_edges.induct)
  case (2 p lid seen s t ty c bs g)
  let ?g1 = "g\<lparr>gs_links := upsert_link (edge_link p (s, t, ty, c)) (gs_links g)\<rparr>"
  have "l \<in> set (gs_links ?g1) \<or> (\<exists>b\<in>set bs. link_key l = bound_key b \<and> tl_confidence l = Some (edge_conf b))"
    using 2 by (auto simp: Let_def split: if_splits)
  then show ?case using upsert_link_members [of l "edge_link p (s, t, ty, c)" "gs_links g"] by auto
qed simp

lemma write_edges_distinct:
  "distinct (map link_key (gs_links g)) \<Longrightarrow>
   distinct (map link_key (gs_links (fst (write_edges p lid seen bs g))))"
  by (induction p lid seen bs g rule: write_edges.induct) (simp_all add: Let_def upsert_link_distinct)

lemma bind_edges_member:
  assumes "b \<in> set (bind_edges vs src)"
  obtains d label direction conf where "(d, label, direction, conf) \<in> set vs" "ds_doc d \<noteq> src"
    "b = (src, ds_doc d, label, conf) \<or> b = (ds_doc d, src, label, conf)"
proof -
  obtain d label direction conf where v: "(d, label, direction, conf) \<in> set vs"
    "b \<in> set (bind_verdict src (d, label, direction, conf))"
    using assms by (auto simp: bind_edges_def)
  then show ?thesis by (intro that [OF v(1)]) (auto simp: Let_def split: if_splits)
qed

section \<open>Retirement\<close>

lemma retire_if_twice: "retire_if ys new (retire_if xs new l) = retire_if (xs @ ys) new l"
  by (auto simp: retire_if_def)

lemma retire_if_same:
  assumes "\<forall>l\<in>set ls. learning_active l \<longrightarrow> (l_id l \<in> set xs \<longleftrightarrow> l_id l \<in> set ys)"
  shows "map (retire_if xs new) ls = map (retire_if ys new) ls"
  using assms by (auto simp: retire_if_def)

lemma retire_planned_learnings:
  assumes "retire_planned target lids new_lid new_doc ts g = (g', retired)"
  shows "learnings (gs_db g') = map (retire_if retired new_lid) (learnings (gs_db g))"
    and "set retired = {i \<in> set lids. \<exists>l\<in>set (learnings (gs_db g)). l_id l = i \<and> learning_active l}"
    and "learning_documents (gs_db g') = learning_documents (gs_db g)"
    and "gs_links g' = gs_links g" "gs_reviews g' = gs_reviews g" "gs_texts g' = gs_texts g"
proof -
  let ?out = "retire_superseded_members target lids new_lid new_doc ts (gs_db g)"
  have none: "retire_if [] new_lid l = l" for l by (simp add: retire_if_def)
  show s: "set retired = {i \<in> set lids. \<exists>l\<in>set (learnings (gs_db g)). l_id l = i \<and> learning_active l}"
    using assms retire_superseded_sound [of target lids new_lid new_doc ts "gs_db g"]
    by (auto simp: retire_planned_def split: if_splits prod.splits)
  have "learnings (gs_db g') = map (retire_if lids new_lid) (learnings (gs_db g))"
  proof (cases "lids = []")
    case True
    moreover have "map (retire_if [] new_lid) ls = ls" for ls by (simp add: none map_idI)
    ultimately show ?thesis using assms by (simp add: retire_planned_def)
  next
    case False
    then show ?thesis using assms retire_superseded_sound [of target lids new_lid new_doc ts "gs_db g"]
      by (auto simp: retire_planned_def split: prod.splits)
  qed
  also have "\<dots> = map (retire_if retired new_lid) (learnings (gs_db g))"
    by (rule retire_if_same) (use s in auto)
  finally show "learnings (gs_db g') = map (retire_if retired new_lid) (learnings (gs_db g))" .
  have "learning_documents (fst ?out) = learning_documents (gs_db g)"
    by (auto simp: retire_superseded_members_def Let_def split: prod.splits)
  then show "learning_documents (gs_db g') = learning_documents (gs_db g)"
    using assms by (auto simp: retire_planned_def split: if_splits prod.splits)
  show "gs_links g' = gs_links g" "gs_reviews g' = gs_reviews g" "gs_texts g' = gs_texts g"
    using assms by (auto simp: retire_planned_def split: if_splits prod.splits)
qed

text \<open>What a verdict must be for a learning to retire because of it.\<close>

definition retires :: "verdict \<Rightarrow> bool" where
  "retires v \<longleftrightarrow> fst (snd v) = ''updates'' \<and> fst (snd (snd v)) = ''forward'' \<and> 96/100 \<le> snd (snd (snd v))"

lemma planned_retirement:
  assumes "plan_updates_action label direction conf agent new_lid st = (lids, ref, reason)" "i \<in> set lids"
  shows "label = ''updates'' \<and> direction = ''forward'' \<and> 96/100 \<le> conf
    \<and> (\<exists>t m. st = Some t \<and> m \<in> set (ts_members t) \<and> fst m = i \<and> fst (snd m) = agent \<and> member_active m)"
proof -
  obtain t where "st = Some t"
    using assms by (auto simp: plan_updates_action_def Let_def split: option.splits if_splits)
  moreover have "label = ''updates''" "direction = ''forward''" "96/100 \<le> conf"
    "i \<in> set (member_ids (\<lambda>m. fst (snd m) = agent \<and> member_active m) (ts_members t))"
    using assms calculation
    by (auto simp: plan_updates_action_def Let_def SUPERSEDE_CONFIDENCE_def split: if_splits)
  ultimately show ?thesis unfolding member_ids_def by fastforce
qed

lemma member_row:
  assumes "supersession_target_state d doc = Some t" "m \<in> set (ts_members t)" "member_active m"
  obtains l where "l \<in> set (learnings d)" "l_id l = fst m" "l_agent l = fst (snd m)" "learning_active l"
    "(l_id l, doc) \<in> set (learning_documents d)"
proof -
  obtain l where l: "l \<in> set (members_of d doc)" "m = (l_id l, l_agent l, l_status l, l_superseded_by l)"
    using assms(1,2) by (auto simp: supersession_target_state_def split: option.splits if_splits)
  have "learning_active l"
    using assms(3) unfolding l(2) member_active_def learning_active_def or_text_def
    by (cases "l_status l") auto
  moreover have "l \<in> set (learnings d)" "(l_id l, doc) \<in> set (learning_documents d)"
    using l(1) by (auto simp: members_of_def mapped_ids_def)
  ultimately show ?thesis using l(2) that by simp
qed

lemma queue_frame:
  "gs_db (fst (queue_update_review a b c e f g)) = gs_db g"
  "gs_links (fst (queue_update_review a b c e f g)) = gs_links g"
  "gs_texts (fst (queue_update_review a b c e f g)) = gs_texts g"
  by (simp_all add: queue_update_review_def)

text \<open>
  Over all verdicts: the learnings change by retirement only, and each retired learning was an
  active one of the agent, mapped to the target of a verdict that retires.
\<close>

definition retired_for :: "bool \<Rightarrow> int \<Rightarrow> string \<Rightarrow> verdict list \<Rightarrow> db \<Rightarrow> int \<Rightarrow> bool" where
  "retired_for allow src agent vs d i \<longleftrightarrow>
     allow \<and> (\<exists>l\<in>set (learnings d). l_id l = i \<and> l_agent l = agent \<and> learning_active l
       \<and> (\<exists>v\<in>set vs. retires v \<and> ds_doc (fst v) \<noteq> src \<and> (i, ds_doc (fst v)) \<in> set (learning_documents d)))"

lemma retired_for_Cons: "retired_for allow src agent vs d i \<Longrightarrow> retired_for allow src agent (v # vs) d i"
  unfolding retired_for_def by (meson list.set_intros(2))

lemma retired_for_earlier:
  assumes "retired_for allow src agent vs d' i" "learnings d' = map (retire_if xs new_lid) (learnings d)"
    "learning_documents d' = learning_documents d"
  shows "retired_for allow src agent (v # vs) d i"
proof -
  obtain l' w where l': "l' \<in> set (learnings d')" "l_id l' = i" "l_agent l' = agent" "learning_active l'"
    and w: "w \<in> set vs" "retires w" "ds_doc (fst w) \<noteq> src" "(i, ds_doc (fst w)) \<in> set (learning_documents d)"
    and al: allow using assms(1,3) by (auto simp: retired_for_def)
  obtain l where l: "l \<in> set (learnings d)" "l' = retire_if xs new_lid l" using l'(1) assms(2) by auto
  then have "l' = l" using l'(4) by (auto simp: retire_if_def)
  then show ?thesis using l(1) l' w al unfolding retired_for_def by auto
qed

lemma plan_for_retire: "plan_for allow plan = (lids, ref, reason) \<Longrightarrow> i \<in> set lids \<Longrightarrow> allow \<and> i \<in> set (fst plan)"
  by (auto simp: plan_for_def split: prod.splits if_splits)

lemma supersession_learnings:
  assumes "apply_updates_supersession allow src new_lid agent ts seen vs g = (g', retired, n)"
  shows "learnings (gs_db g') = map (retire_if retired new_lid) (learnings (gs_db g))
    \<and> learning_documents (gs_db g') = learning_documents (gs_db g)
    \<and> gs_links g' = gs_links g \<and> gs_texts g' = gs_texts g
    \<and> (\<forall>i\<in>set retired. retired_for allow src agent vs (gs_db g) i)"
  using assms
proof (induction vs arbitrary: seen g g' retired n)
  case Nil
  have "map (retire_if [] new_lid) ls = ls" for ls by (simp add: retire_if_def map_idI)
  then show ?case using Nil by simp
next
  case (Cons v vs)
  obtain d label direction conf where v: "v = (d, label, direction, conf)" by (cases v)
  show ?case
  proof (cases "ds_doc d = src \<or> ds_doc d \<in> set seen")
    case True
    then have "apply_updates_supersession allow src new_lid agent ts seen vs g = (g', retired, n)"
      using Cons.prems v by simp
    from Cons.IH [OF this] show ?thesis using retired_for_Cons by blast
  next
    case False
    let ?plan = "plan_updates_action label direction conf agent new_lid
      (supersession_target_state (gs_db g) (ds_doc d))"
    obtain lids ref reason where pl: "plan_for allow ?plan = (lids, ref, reason)" by (cases "plan_for allow ?plan")
    obtain g1 r1 where r1: "retire_planned (ds_doc d) lids new_lid src ts g = (g1, r1)" by fastforce
    define q where "q = (case reason of None \<Rightarrow> (g1, False)
        | Some why \<Rightarrow> queue_update_review new_lid ref conf why ts g1)"
    obtain g3 r2 m where r2: "apply_updates_supersession allow src new_lid agent ts (ds_doc d # seen) vs (fst q)
        = (g3, r2, m)" by (cases "apply_updates_supersession allow src new_lid agent ts (ds_doc d # seen) vs (fst q)")
    have res: "g' = g3" "retired = r1 @ r2"
      using Cons.prems False pl r1 r2 unfolding v q_def
      by (auto simp: Let_def split: option.splits prod.splits)
    have q: "gs_db (fst q) = gs_db g1" "gs_links (fst q) = gs_links g1" "gs_texts (fst q) = gs_texts g1"
      unfolding q_def by (auto simp: queue_frame split: option.splits)
    note one = retire_planned_learnings [OF r1] and rest = Cons.IH [OF r2]
    have now: "retired_for allow src agent (v # vs) (gs_db g) i" if ir: "i \<in> set r1" for i
    proof -
      obtain t m where tm: "supersession_target_state (gs_db g) (ds_doc d) = Some t" "m \<in> set (ts_members t)"
        "fst m = i" "fst (snd m) = agent" "member_active m" and vr: "retires v" and al: allow
      proof -
        have i: "allow" "i \<in> set (fst ?plan)" using one(2) ir plan_for_retire [OF pl] by auto
        obtain a b c where "?plan = (a, b, c)" by (cases ?plan)
        then show ?thesis
          using planned_retirement [of label direction conf agent new_lid _ a b c i] i that
          unfolding retires_def v by fastforce
      qed
      obtain l where "l \<in> set (learnings (gs_db g))" "l_id l = fst m" "l_agent l = fst (snd m)"
        "learning_active l" "(l_id l, ds_doc d) \<in> set (learning_documents (gs_db g))"
        using member_row [OF tm(1,2,5)] .
      then show ?thesis using tm vr al False unfolding retired_for_def v by auto
    qed
    have later: "retired_for allow src agent (v # vs) (gs_db g) i" if "i \<in> set r2" for i
      by (rule retired_for_earlier [OF _ one(1,3)]) (use rest that q in auto)
    have "learnings (gs_db g') = map (retire_if retired new_lid) (learnings (gs_db g))"
      using rest one(1) unfolding res q by (simp add: retire_if_twice comp_def)
    moreover have "learning_documents (gs_db g') = learning_documents (gs_db g)"
      "gs_links g' = gs_links g" "gs_texts g' = gs_texts g"
      using rest one(3-6) q unfolding res by auto
    moreover have "\<forall>i\<in>set retired. retired_for allow src agent (v # vs) (gs_db g) i"
      unfolding res using now later by auto
    ultimately show ?thesis by blast
  qed
qed

text \<open>A repair retires nothing.\<close>

lemma repair_keeps_learnings:
  assumes "apply_updates_supersession False src new_lid agent ts seen vs g = (g', retired, n)"
  shows "retired = [] \<and> learnings (gs_db g') = learnings (gs_db g)"
proof -
  note r = supersession_learnings [OF assms]
  then have "retired = []" by (cases retired) (auto simp: retired_for_def)
  moreover have "map (retire_if [] new_lid) ls = ls" for ls by (simp add: retire_if_def map_idI)
  ultimately show ?thesis using r by simp
qed

section \<open>The node and the row\<close>

lemma fields_row_simps [simp]:
  "l_agent (fields_row agent category content emb created f ev) = agent"
  "l_content (fields_row agent category content emb created f ev) = content"
  "l_superseded_by (fields_row agent category content emb created f ev) = None"
  by (simp_all add: fields_row_def new_learning_def Let_def)

lemma supersede_row_frame [simp]:
  "documents (supersede_row old lid d) = documents d"
  "learning_documents (supersede_row old lid d) = learning_documents d"
  by (simp_all add: supersede_row_def split: option.splits)

lemma supersede_row_member:
  "l \<in> set (learnings d) \<Longrightarrow> Some (l_id l) \<noteq> old \<Longrightarrow> l \<in> set (learnings (supersede_row old lid d))"
  by (auto simp: supersede_row_def update_where_def image_iff split: option.splits)

lemma supersede_row_members:
  "l' \<in> set (learnings (supersede_row old lid d)) \<Longrightarrow> l' \<notin> set (learnings d) \<Longrightarrow>
     \<not> learning_active l' \<and> Some (l_id l') = old"
  by (auto simp: supersede_row_def update_where_def learning_active_def split: option.splits if_splits)

lemma insert_learning_row_Inr:
  "insert_learning_row agent category content emb created f d = Inr (d', lid) \<Longrightarrow>
     lid = next_learning d \<and> (\<exists>ev. d' = supersede_row (lf_supersedes f) lid
       (insert_learning (fields_row agent category content emb created f ev) d))"
  by (auto simp: insert_learning_row_def bind_result_Inr_iff split: if_splits)

lemma ensure_other_documents:
  assumes "ensure_canonical_learning_node e lid agent content created d = Inr (d', Some doc)"
    "x \<in> set (documents d')" "document.d_id x \<noteq> doc"
  shows "x \<in> set (documents d)"
  using assms(1)
proof (cases rule: ensure_node_cases)
  case create
  then show ?thesis using assms(2,3) by (auto simp: new_node_def)
next
  case (reuse row)
  then show ?thesis using assms(2,3)
    by (auto simp: stamp_mapping_def reconcile_new_active_mapping_def reopen_def update_where_def
        split: if_splits)
qed simp

lemma ensure_learning_documents:
  assumes "ensure_canonical_learning_node e lid agent content created d = Inr (d', Some doc)"
  shows "learning_documents d' = (if (lid, doc) \<in> set (learning_documents d) then learning_documents d
    else learning_documents d @ [(lid, doc)]) \<and> learnings d' = learnings d"
  using assms by (cases rule: ensure_node_cases) (auto simp: add_join_def)

section \<open>Targets\<close>

lemma update_members: "(k, d) \<in> set (AList.update k d m)" "fst ` set m \<subseteq> fst ` set (AList.update k d m)"
  by (induction m) auto

lemma update_keys_ok:
  "\<forall>e\<in>set m. ds_doc (snd e) = fst e \<Longrightarrow> \<forall>e\<in>set (AList.update (ds_doc d) d m). ds_doc (snd e) = fst e"
  by (induction m) auto

lemma targets_of_cover:
  "v \<in> set vs \<Longrightarrow> \<exists>d. (ds_doc (fst v), d) \<in> set (targets_of vs) \<and> ds_doc d = ds_doc (fst v)"
proof -
  have "(\<forall>e\<in>set m. ds_doc (snd e) = fst e) \<Longrightarrow>
      (\<forall>e\<in>set (foldl (\<lambda>m v. AList.update (ds_doc (fst v)) (fst v) m) m vs). ds_doc (snd e) = fst e)
      \<and> fst ` set m \<union> (ds_doc \<circ> fst) ` set vs
          \<subseteq> fst ` set (foldl (\<lambda>m v. AList.update (ds_doc (fst v)) (fst v) m) m vs)" for m
  proof (induction vs arbitrary: m)
    case (Cons v vs)
    let ?m = "AList.update (ds_doc (fst v)) (fst v) m"
    let ?F = "foldl (\<lambda>m v. AList.update (ds_doc (fst v)) (fst v) m) ?m vs"
    have v: "ds_doc (fst v) \<in> fst ` set ?m" "fst ` set m \<subseteq> fst ` set ?m"
      using update_members(1) [of "ds_doc (fst v)" "fst v" m] update_members(2) [of m "ds_doc (fst v)" "fst v"]
      by (metis fst_conv image_eqI)+
    have i: "\<forall>e\<in>set ?F. ds_doc (snd e) = fst e" "fst ` set ?m \<union> (ds_doc \<circ> fst) ` set vs \<subseteq> fst ` set ?F"
      using Cons.IH [of ?m] update_keys_ok [OF Cons.prems] by blast+
    have "fst ` set m \<union> insert (ds_doc (fst v)) ((ds_doc \<circ> fst) ` set vs) \<subseteq> fst ` set ?F"
      using i(2) v by blast
    then show ?case using i(1) by simp
  qed simp
  from this [of "[]"] show "v \<in> set vs \<Longrightarrow> ?thesis" unfolding targets_of_def by fastforce
qed

lemma targets_valid_readable:
  assumes "targets_valid ce g p ws store snaps vs" "v \<in> set vs"
  obtains x where "x \<in> set (documents (gs_db g))" "document.d_id x = ds_doc (fst v)"
    "can_read_document (ce_host ce) (Some p) ws (JObj (row_metadata x))" "metadata_eligible (row_metadata x)"
proof -
  obtain d where d: "(ds_doc (fst v), d) \<in> set (targets_of vs)" "ds_doc d = ds_doc (fst v)"
    using targets_of_cover [OF assms(2)] by blast
  then obtain snap where "revalidate_target ce g p ws store snap d"
    using assms(1) by (auto simp: targets_valid_def list_all_iff split: option.splits)
  then obtain x where x: "find (\<lambda>x. document.d_id x = ds_doc d) (documents (gs_db g)) = Some x"
    and c: "can_read_document (ce_host ce) (Some p) ws (JObj (row_metadata x))" "metadata_eligible (row_metadata x)"
    by (auto simp: revalidate_target_def Let_def split: if_splits option.splits)
  from find_Some_iff' [OF x] show ?thesis using that [of x] c d(2) by simp
qed

section \<open>A commit, step by step\<close>

lemma add_chunks_frame:
  "gs_db (fst (add_chunks doc m l ts i cs g)) = gs_db g
   \<and> gs_links (fst (add_chunks doc m l ts i cs g)) = gs_links g
   \<and> gs_reviews (fst (add_chunks doc m l ts i cs g)) = gs_reviews g
   \<and> gs_texts (fst (add_chunks doc m l ts i cs g)) = gs_texts g"
  by (induction doc m l ts i cs g rule: add_chunks.induct) (auto simp: Let_def split: prod.splits)

lemma fill_projection_frame:
  "gs_db (fst (fill_projection doc path agent sigil content cs m l ts g)) = gs_db g
   \<and> gs_links (fst (fill_projection doc path agent sigil content cs m l ts g)) = gs_links g
   \<and> gs_reviews (fst (fill_projection doc path agent sigil content cs m l ts g)) = gs_reviews g"
  using add_chunks_frame by (auto simp: fill_projection_def Let_def)

lemma commit_graph_steps:
  assumes "commit_graph ce pc p lid doc g = Inr (g', res)"
  obtains g2 where
    "targets_valid ce g p (pc_workspace pc) (pc_store pc) (pc_snapshots pc) (live_verdicts pc)"
    "cr_edges res = bind_edges (live_verdicts pc) doc" "cr_learning res = lid" "cr_doc res = doc"
    "gs_db g2 = gs_db g" "gs_reviews g2 = gs_reviews g"
    "filter (\<lambda>l. link_key l \<notin> bound_key ` set (cr_edges res)) (gs_links g2) =
     filter (\<lambda>l. link_key l \<notin> bound_key ` set (cr_edges res)) (gs_links g)"
    "\<And>l. l \<in> set (gs_links g2) \<Longrightarrow> l \<in> set (gs_links g)
       \<or> (\<exists>b\<in>set (cr_edges res). link_key l = bound_key b \<and> tl_confidence l = Some (edge_conf b))"
    "\<exists>n. apply_updates_supersession True doc lid (p_agent_id (pc_principal pc)) (pc_at pc) []
       (live_verdicts pc) g2 = (g', cr_superseded res, n)"
proof -
  let ?vs = "live_verdicts pc" and ?agent = "p_agent_id (pc_principal pc)"
  let ?bound = "bind_edges ?vs doc"
  obtain g1 ids where f: "fill_projection doc (pc_path pc) ?agent (pc_sigil pc) (pc_content pc) (pc_chunks pc)
              (pc_model pc) (pc_layer pc) (pc_at pc) g = (g1, ids)" by fastforce
  have g1: "gs_db g1 = gs_db g" "gs_links g1 = gs_links g" "gs_reviews g1 = gs_reviews g"
    using fill_projection_frame [of doc "pc_path pc" ?agent "pc_sigil pc" "pc_content pc" "pc_chunks pc"
        "pc_model pc" "pc_layer pc" "pc_at pc" g] f by auto
  have tv: "targets_valid ce g p (pc_workspace pc) (pc_store pc) (pc_snapshots pc) ?vs"
    using assms by (auto simp: commit_graph_def live_verdicts_def Let_def split: if_splits)
  let ?tail = "\<lambda>(g2, logged). case apply_updates_supersession True doc lid ?agent (pc_at pc) [] ?vs g2 of
      (g3, retired, reviews) \<Rightarrow> Inr (g3, \<lparr>cr_learning = lid, cr_doc = doc, cr_edges = ?bound,
         cr_no_candidates = pc_no_pairs pc, cr_deferred = (if pc_graph pc then None else Some ''disabled''),
         cr_chunk_ids = ids, cr_vectors = (if ids = [] then [] else map snd (pc_chunks pc)), cr_logged = logged,
         cr_superseded = retired, cr_reviews = reviews\<rparr>)"
  let ?links = "if ?bound = [] then Inr (g1, False)
             else case provenance_of ce (pc_info pc) (pc_at pc) of
               None \<Rightarrow> Inl Crash | Some pv \<Rightarrow> Inr (write_edges pv lid [] ?bound g1)"
  have "bind_result ?links ?tail = Inr (g', res)"
    using assms unfolding commit_graph_def Let_def f prod.case by (simp only: tv not_True_eq_False if_False)
  from iffD1 [OF bind_result_Inr_iff this] obtain gl where
    gl0: "?links = Inr gl \<and> ?tail gl = (Inr (g', res) :: coord_error + gstore \<times> commit_result)" by (rule exE)
  note gl = conjunct1 [OF gl0] conjunct2 [OF gl0]
  obtain g2 logged where gl2: "gl = (g2, logged)" by (cases gl)
  note g2 = gl(1) [unfolded gl2] and rest = gl(2) [unfolded gl2]
  obtain g3 retired reviews where
    a: "apply_updates_supersession True doc lid ?agent (pc_at pc) [] ?vs g2 = (g3, retired, reviews)"
    by (cases "apply_updates_supersession True doc lid ?agent (pc_at pc) [] ?vs g2")
  have res: "cr_edges res = ?bound" "cr_learning res = lid" "cr_doc res = doc" "cr_superseded res = retired" "g3 = g'"
  proof -
    let ?R = "\<lparr>cr_learning = lid, cr_doc = doc, cr_edges = ?bound,
         cr_no_candidates = pc_no_pairs pc, cr_deferred = (if pc_graph pc then None else Some ''disabled''),
         cr_chunk_ids = ids, cr_vectors = (if ids = [] then [] else map snd (pc_chunks pc)), cr_logged = logged,
         cr_superseded = retired, cr_reviews = reviews\<rparr>"
    have "(g3, ?R) = (g', res)"
      using rest unfolding a prod.case by (rule sum.inject(2) [THEN iffD1])
    then have r: "g3 = g'" "res = ?R" by (rule Pair_inject, simp)+
    show "cr_edges res = ?bound" "cr_learning res = lid" "cr_doc res = doc" "cr_superseded res = retired" "g3 = g'"
      by (simp_all add: r)
  qed
  show ?thesis
  proof (cases "?bound = []")
    case True
    then have "g2 = g1" using g2 by simp
    then show ?thesis using that [OF tv res(1-3), of g2] g1 a res by simp
  next
    case False
    then obtain pv where w: "g2 = fst (write_edges pv lid [] ?bound g1)"
      using g2 by (auto split: option.splits) (metis fst_conv)
    show ?thesis
    proof (rule that [OF tv res(1-3), of g2])
      show "gs_db g2 = gs_db g" "gs_reviews g2 = gs_reviews g"
        using write_edges_frame [of pv lid "[]" ?bound g1] g1 w by auto
      show "filter (\<lambda>l. link_key l \<notin> bound_key ` set (cr_edges res)) (gs_links g2) =
          filter (\<lambda>l. link_key l \<notin> bound_key ` set (cr_edges res)) (gs_links g)"
        using write_edges_others [of "- bound_key ` set ?bound" ?bound pv lid "[]" g1] g1 w res by simp
      show "l \<in> set (gs_links g2) \<Longrightarrow> l \<in> set (gs_links g)
          \<or> (\<exists>b\<in>set (cr_edges res). link_key l = bound_key b \<and> tl_confidence l = Some (edge_conf b))" for l
        using write_edges_members [of l pv lid "[]" ?bound g1] g1 w res by simp
      show "\<exists>n. apply_updates_supersession True doc lid ?agent (pc_at pc) [] ?vs g2 = (g', cr_superseded res, n)"
        using a res by blast
    qed
  qed
qed

lemma commit_steps:
  assumes "commit_prepared_learning ce in_txn pc p g = Inr (g', res)"
  obtains d1 lid d2 doc ev where "commit_refusal ce in_txn pc p = None"
    "\<not> node_closed (gs_db g) (pc_path pc)" "lid = next_learning (gs_db g)"
    "d1 = supersede_row (lf_supersedes (pc_fields pc)) lid
       (insert_learning (fields_row (p_agent_id (pc_principal pc)) (pc_category pc) (pc_content pc)
          (map_option (ce_decode ce) (pc_vector pc)) (pc_at pc) (pc_fields pc) ev) (gs_db g))"
    "ensure_canonical_learning_node ((ce_env ce)\<lparr>vault_path := pc_vault pc\<rparr>) lid
       (p_agent_id (pc_principal pc)) (pc_content pc) (pc_at pc) d1 = Inr (d2, Some doc)"
    "commit_graph ce pc p lid doc (g\<lparr>gs_db := d2\<rparr>) = Inr (g', res)"
proof -
  from assms obtain d1 lid d2 doc where
    r: "commit_refusal ce in_txn pc p = None" "\<not> node_closed (gs_db g) (pc_path pc)"
    and i: "insert_learning_row (p_agent_id (pc_principal pc)) (pc_category pc) (pc_content pc)
        (map_option (ce_decode ce) (pc_vector pc)) (pc_at pc) (pc_fields pc) (gs_db g) = Inr (d1, lid)"
    and e: "ensure_canonical_learning_node ((ce_env ce)\<lparr>vault_path := pc_vault pc\<rparr>) lid
       (p_agent_id (pc_principal pc)) (pc_content pc) (pc_at pc) d1 = Inr (d2, Some doc)"
    and c: "commit_graph ce pc p lid doc (g\<lparr>gs_db := d2\<rparr>) = Inr (g', res)"
    by (auto simp: commit_prepared_learning_def Let_def bind_result_Inr_iff lift_db_def
        split: option.splits if_splits sum.splits)
  from insert_learning_row_Inr [OF i] show ?thesis using that r e c by blast
qed

section \<open>What a commit changes\<close>

lemma same_id_same_row:
  assumes "wf_db d" "l \<in> set (learnings d)" "l' \<in> set (learnings d)" "l_id l = l_id l'"
  shows "l = l'"
  using assms ids_fresh_find [of l_id "learnings d" "next_learning d"] unfolding wf_db_def
  by (metis option.inject)

lemma wf_fresh: "wf_db d \<Longrightarrow> l \<in> set (learnings d) \<Longrightarrow> l_id l < next_learning d"
  by (auto simp: wf_db_def ids_fresh_def)

text \<open>A row of the new learning's own transaction is the old row, superseded, or the new one.\<close>

lemma inserted_rows:
  assumes "l' \<in> set (learnings (supersede_row old lid (insert_learning row d)))" "lid = next_learning d"
    "learning_active l'"
  shows "l' \<in> set (learnings d) \<or> l_id l' = lid"
proof -
  have "l' \<in> set (learnings (insert_learning row d))"
    using assms(1,3) supersede_row_members by blast
  then show ?thesis using assms(2) by auto
qed

text \<open>
  C38. Committing a prepared learning, in a store whose ids are unique, leaves every earlier
  learning as it was, with two exceptions: the one row the payload's own supersedes field
  names, and an active learning of the caller that the commit reports as superseded, retired
  in favour of the new one, and then only with the graph enabled and a verified forward
  'updates' verdict of confidence at least 0.96 on a document that learning is mapped to.
\<close>

theorem commit_retires_own_only:
  assumes "wf_db (gs_db g)"
    and "commit_prepared_learning ce in_txn pc p g = Inr (g', res)"
    and "l \<in> set (learnings (gs_db g))"
  shows "l \<in> set (learnings (gs_db g')) \<or> lf_supersedes (pc_fields pc) = Some (l_id l)
    \<or> (retire_learning (cr_learning res) l \<in> set (learnings (gs_db g')) \<and> l_id l \<in> set (cr_superseded res)
       \<and> learning_active l \<and> l_agent l = p_agent_id p \<and> pc_graph pc
       \<and> (\<exists>v\<in>set (pc_validated pc). fst (snd v) = ''updates'' \<and> fst (snd (snd v)) = ''forward''
            \<and> 96/100 \<le> snd (snd (snd v)) \<and> (l_id l, ds_doc (fst v)) \<in> set (learning_documents (gs_db g))))"
proof (cases "lf_supersedes (pc_fields pc) = Some (l_id l)")
  case False
  obtain d1 lid d2 doc ev where ref: "commit_refusal ce in_txn pc p = None" and lid: "lid = next_learning (gs_db g)"
    and d1: "d1 = supersede_row (lf_supersedes (pc_fields pc)) lid
       (insert_learning (fields_row (p_agent_id (pc_principal pc)) (pc_category pc) (pc_content pc)
          (map_option (ce_decode ce) (pc_vector pc)) (pc_at pc) (pc_fields pc) ev) (gs_db g))"
    and e: "ensure_canonical_learning_node ((ce_env ce)\<lparr>vault_path := pc_vault pc\<rparr>) lid
       (p_agent_id (pc_principal pc)) (pc_content pc) (pc_at pc) d1 = Inr (d2, Some doc)"
    and c: "commit_graph ce pc p lid doc (g\<lparr>gs_db := d2\<rparr>) = Inr (g', res)"
    using commit_steps [OF assms(2)] .
  have own: "p_agent_id (pc_principal pc) = p_agent_id p"
    using ref by (auto simp: commit_refusal_def split: if_splits)
  obtain g2 n where g2: "gs_db g2 = d2" and res: "cr_learning res = lid"
    and a: "apply_updates_supersession True doc lid (p_agent_id (pc_principal pc)) (pc_at pc) []
       (live_verdicts pc) g2 = (g', cr_superseded res, n)"
    using commit_graph_steps [OF c] by (metis gstore.select_convs(1) gstore.update_convs(1) gstore.surjective)
  note s = supersession_learnings [OF a, unfolded g2]
  note el = ensure_learning_documents [OF e]
  have "l \<in> set (learnings d1)"
    unfolding d1 using assms(3) False by (intro supersede_row_member) auto
  then have l2: "l \<in> set (learnings d2)" using el by simp
  then have img: "retire_if (cr_superseded res) lid l \<in> set (learnings (gs_db g'))" using s by simp
  show ?thesis
  proof (cases "l_id l \<in> set (cr_superseded res) \<and> learning_active l")
    case False
    then have "retire_if (cr_superseded res) lid l = l" by (auto simp: retire_if_def)
    then show ?thesis using img by simp
  next
    case True
    then obtain l' v where l': "l' \<in> set (learnings d2)" "l_id l' = l_id l" "l_agent l' = p_agent_id (pc_principal pc)"
        "learning_active l'"
      and v: "v \<in> set (live_verdicts pc)" "retires v" "(l_id l, ds_doc (fst v)) \<in> set (learning_documents d2)"
      using s by (auto simp: retired_for_def)
    have fresh: "l_id l < lid" using wf_fresh [OF assms(1,3)] lid by simp
    have "l' \<in> set (learnings (gs_db g))"
      using inserted_rows [of l' _ lid _ "gs_db g"] l' el fresh lid unfolding d1 by force
    then have "l' = l" using same_id_same_row [OF assms(1) _ assms(3)] l'(2) by blast
    moreover have "(l_id l, ds_doc (fst v)) \<in> set (learning_documents (gs_db g))"
      using v(3) el fresh unfolding d1 by (auto split: if_splits)
    moreover have "retire_if (cr_superseded res) lid l = retire_learning lid l" using True by (simp add: retire_if_def)
    ultimately show ?thesis
      using img True l'(3) v(1,2) own res by (auto simp: live_verdicts_def retires_def split: if_splits)
  qed
qed simp

theorem commit_edges_sound:
  assumes "commit_prepared_learning ce in_txn pc p g = Inr (g', res)"
  shows "(\<forall>(s, t, ty, c)\<in>set (cr_edges res). s \<noteq> t \<and> (s = cr_doc res \<or> t = cr_doc res)
      \<and> (\<exists>x\<in>set (documents (gs_db g)). document.d_id x \<in> {s, t} - {cr_doc res}
           \<and> can_read_document (ce_host ce) (Some p) (pc_workspace pc) (JObj (row_metadata x))
           \<and> metadata_eligible (row_metadata x)))
    \<and> filter (\<lambda>l. link_key l \<notin> bound_key ` set (cr_edges res)) (gs_links g') =
      filter (\<lambda>l. link_key l \<notin> bound_key ` set (cr_edges res)) (gs_links g)"
proof -
  obtain d1 lid d2 doc ev where
    d1: "d1 = supersede_row (lf_supersedes (pc_fields pc)) lid
       (insert_learning (fields_row (p_agent_id (pc_principal pc)) (pc_category pc) (pc_content pc)
          (map_option (ce_decode ce) (pc_vector pc)) (pc_at pc) (pc_fields pc) ev) (gs_db g))"
    and e: "ensure_canonical_learning_node ((ce_env ce)\<lparr>vault_path := pc_vault pc\<rparr>) lid
       (p_agent_id (pc_principal pc)) (pc_content pc) (pc_at pc) d1 = Inr (d2, Some doc)"
    and c: "commit_graph ce pc p lid doc (g\<lparr>gs_db := d2\<rparr>) = Inr (g', res)"
    using commit_steps [OF assms] .
  obtain g2 n where
    tv: "targets_valid ce (g\<lparr>gs_db := d2\<rparr>) p (pc_workspace pc) (pc_store pc) (pc_snapshots pc) (live_verdicts pc)"
    and ed: "cr_edges res = bind_edges (live_verdicts pc) doc" and doc: "cr_doc res = doc"
    and fl: "filter (\<lambda>l. link_key l \<notin> bound_key ` set (cr_edges res)) (gs_links g2) =
     filter (\<lambda>l. link_key l \<notin> bound_key ` set (cr_edges res)) (gs_links (g\<lparr>gs_db := d2\<rparr>))"
    and a: "apply_updates_supersession True doc lid (p_agent_id (pc_principal pc)) (pc_at pc) []
       (live_verdicts pc) g2 = (g', cr_superseded res, n)"
    by (rule commit_graph_steps [OF c]) blast
  have ends: "s \<noteq> t \<and> (s = doc \<or> t = doc) \<and> (\<exists>x\<in>set (documents (gs_db g)). document.d_id x \<in> {s, t} - {doc}
           \<and> can_read_document (ce_host ce) (Some p) (pc_workspace pc) (JObj (row_metadata x))
           \<and> metadata_eligible (row_metadata x))"
    if b: "(s, t, ty, cf) \<in> set (cr_edges res)" for s t ty cf
  proof -
    obtain d label direction conf where v: "(d, label, direction, conf) \<in> set (live_verdicts pc)" "ds_doc d \<noteq> doc"
      "(s, t, ty, cf) = (doc, ds_doc d, label, conf) \<or> (s, t, ty, cf) = (ds_doc d, doc, label, conf)"
      using bind_edges_member [OF b [unfolded ed]] .
    obtain x where x: "x \<in> set (documents d2)" "document.d_id x = ds_doc d"
      "can_read_document (ce_host ce) (Some p) (pc_workspace pc) (JObj (row_metadata x))"
      "metadata_eligible (row_metadata x)"
      using targets_valid_readable [OF tv v(1)] by auto
    have "x \<in> set (documents d1)" using ensure_other_documents [OF e x(1)] x(2) v(2) by simp
    then have xg: "x \<in> set (documents (gs_db g))" unfolding d1 by simp
    have st: "s = doc \<and> t = ds_doc d \<or> s = ds_doc d \<and> t = doc" using v(3) by blast
    have "document.d_id x \<in> {s, t} - {doc}" using st x(2) v(2) by auto
    moreover have "s \<noteq> t" "s = doc \<or> t = doc" using st v(2) by auto
    ultimately show ?thesis using xg x(3,4) by (intro conjI bexI [of _ x])
  qed
  have "gs_links g' = gs_links g2" using supersession_learnings [OF a] by blast
  then have "filter (\<lambda>l. link_key l \<notin> bound_key ` set (cr_edges res)) (gs_links g') =
      filter (\<lambda>l. link_key l \<notin> bound_key ` set (cr_edges res)) (gs_links g)"
    using fl by simp
  then show ?thesis unfolding doc
    by (intro conjI ballI; clarify?) (use ends in blast)+
qed

section \<open>A run\<close>

definition run_env :: coord_env where
  "run_env = \<lparr>ce_env = demo_env, ce_host = demo_host, ce_sha = \<lambda>s. ''h'', ce_float = \<lambda>r. ''0.0'',
     ce_decode = \<lambda>s. [], ce_realpath = id, ce_main = Some ''/db'', ce_cursor_main = Some ''/db''\<rparr>"

definition run_old :: learning where
  "run_old = (new_learning ''codex'' ''old'' 5)\<lparr>l_id := 1\<rparr>"

definition run_page :: document where
  "run_page = \<lparr>document.d_id = 1, document.d_path = ''/v'', document.d_agent = ''codex'', document.d_sigil = None, document.d_modified = 3,
     document.d_page_status = Some ''accepted'', document.d_privacy = Some ''safe'', document.d_page_type = Some ''learning'',
     document.d_layer = None, document.d_kind = Some ''learning'', document.d_uri = None, document.d_superseded_by = None\<rparr>"

definition run_store :: gstore where
  "run_store = \<lparr>gs_db = empty_db\<lparr>learnings := [run_old], next_learning := 2, documents := [run_page],
       next_document := 2, learning_documents := [(1, 1)]\<rparr>,
     gs_links = [], gs_log = [], gs_reviews = [],
     gs_texts = [\<lparr>ft_doc = 1, ft_path = ''/v'', ft_content = ''old'', ft_agent = ''codex'', ft_sigil = None\<rparr>],
     gs_chunks = [], gs_next_chunk = 1\<rparr>"

definition run_target :: descriptor where
  "run_target = \<lparr>ds_pair = ''candidate-doc-1'', ds_store = ''/db'', ds_content_hash = JStr ''h'',
     ds_metadata_hash = ''h'', ds_evidence_hash = ''h'', ds_doc = 1, ds_chunk = 1, ds_cosine = 1/2,
     ds_title = ''old'', ds_status = ''accepted'', ds_page_type = ''learning'', ds_excerpt = Some ''old'',
     ds_tokens = 1, ds_measured = True\<rparr>"

definition run_principal :: effective_principal where
  "run_principal = demo_agent ''codex'' [JStr ''read''] [''/v'']"

definition run_payload :: prepared where
  "run_payload = \<lparr>pc_digest = ''h'', pc_store = ''/db'', pc_principal = run_principal,
     pc_workspace = p_workspace_id run_principal, pc_content = ''new'', pc_content_sha = ''h'',
     pc_category = ''fact'', pc_vault = ''/v'', pc_model = ''m'', pc_graph = True, pc_vector = None,
     pc_chunks = [], pc_path = ''/v/new.md'', pc_sigil = None, pc_layer = ''l'', pc_no_pairs = False,
     pc_validated = [(run_target, ''updates'', ''forward'', 97/100)],
     pc_info = [(''model_id'', ''m''), (''prompt_version'', ''v''), (''evidence_hash'', ''e'')],
     pc_snapshots = [(1, row_metadata run_page)], pc_fields = no_fields, pc_at = 7\<rparr>"

lemma run_store_wf: "wf_db (gs_db run_store)"
  by (simp add: wf_db_def run_store_def empty_db_def run_old_def new_learning_def run_page_def ids_fresh_def)

lemma run_commit:
  "\<exists>g' res. commit_prepared_learning run_env True run_payload run_principal run_store = Inr (g', res)
     \<and> cr_superseded res = [1] \<and> cr_doc res = 2"
proof -
  have "case commit_prepared_learning run_env True run_payload run_principal run_store of
      Inl e \<Rightarrow> False | Inr (g', res) \<Rightarrow> cr_superseded res = [1] \<and> cr_doc res = 2" by code_simp
  then show ?thesis by (auto split: sum.splits)
qed

theorem commit_retires_own_only_witness:
  "\<exists>g' res. commit_prepared_learning run_env True run_payload run_principal run_store = Inr (g', res)
     \<and> (run_old \<in> set (learnings (gs_db g')) \<or> l_agent run_old = p_agent_id run_principal)"
proof -
  obtain g' res where c: "commit_prepared_learning run_env True run_payload run_principal run_store = Inr (g', res)"
    using run_commit by blast
  have "run_old \<in> set (learnings (gs_db run_store))" by (simp add: run_store_def)
  from commit_retires_own_only [OF run_store_wf c this] c show ?thesis
    by (auto simp: run_payload_def no_fields_def)
qed

theorem commit_edges_sound_witness:
  "\<exists>g' res. commit_prepared_learning run_env True run_payload run_principal run_store = Inr (g', res)
     \<and> (\<forall>(s, t, ty, c)\<in>set (cr_edges res). s \<noteq> t)"
proof -
  obtain g' res where c: "commit_prepared_learning run_env True run_payload run_principal run_store = Inr (g', res)"
    using run_commit by blast
  have "\<forall>(s, t, ty, c)\<in>set (cr_edges res). s \<noteq> t" using commit_edges_sound [OF c] by blast
  then show ?thesis using c by blast
qed

end
