(* ===== verification/EdgeClassifier_Laws.thy ===== *)
theory EdgeClassifier_Laws
  imports EdgeClassifier EdgeInference_Laws
begin

text \<open>
  The laws of \<open>EdgeClassifier\<close>: which providers a batch may reach and with what, and what a result
  says about every candidate pair.
\<close>

section \<open>The chain\<close>

lemma ask_in_turn_called: "set (snd (ask_in_turn a req ps)) \<subseteq> set ps"
proof (induction ps arbitrary: a)
  case (Cons p ps)
  show ?case
  proof (cases "pv_chat p req")
    case (Some r)
    then show ?thesis using Cons.IH [of "Some r"] by (cases "ask_in_turn (Some r) req ps") auto
  qed simp
qed simp

lemma providers_for_subset: "providers_for pol oper ps = Some qs \<Longrightarrow> set qs \<subseteq> set ps"
proof (induction ps arbitrary: qs)
  case (Cons p ps)
  then obtain f rs where "pv_supports p = Some f" "providers_for pol oper ps = Some rs" "set qs \<subseteq> insert p (set rs)"
    by (auto simp: Let_def split: option.splits if_splits)
  then show ?case using Cons.IH by fastforce
qed simp

lemma chain_chat_called: "set (snd (chain_chat h pol ps req)) \<subseteq> set ps"
proof (cases "providers_for pol (cr_operation req) ps")
  case (Some qs)
  then have "set (snd (ask_in_turn None req qs)) \<subseteq> set ps"
    using ask_in_turn_called [of None req qs] providers_for_subset [OF Some] by blast
  then show ?thesis using Some by (cases qs) (simp_all add: chain_chat_def Let_def)
qed (simp add: chain_chat_def Let_def)

lemma chain_chat_loopback:
  assumes "snd (chain_chat h pol ps req) \<noteq> []" "cr_operation req = ''edge_inference''"
  shows "is_loopback_request_url h (or_text (cr_url req) DEFAULT_AFM_CHAT_COMPLETIONS_URL)"
  using assms by (auto simp: chain_chat_def Let_def requires_loopback_def split: if_splits)

section \<open>The shapes of a result\<close>

text \<open>A refusal: no edge, nothing classified, and every known candidate still open.\<close>

definition closed :: "string list \<Rightarrow> batch_result \<Rightarrow> bool" where
  "closed ids b \<longleftrightarrow> br_status b \<noteq> ''ok'' \<and> br_edges b = [] \<and> br_classified b = [] \<and> br_unclassified b = ids"

lemma closed_refused:
  "br_edges b = [] \<Longrightarrow> br_classified b = [] \<Longrightarrow> br_unclassified b = ids \<Longrightarrow> st \<noteq> ''ok'' \<Longrightarrow>
     closed ids (refused c b st why e)"
  by (simp add: closed_def refused_def)

lemma rendered_fields [simp]:
  "br_edges (rendered_result c ec src ds r) = []" "br_classified (rendered_result c ec src ds r) = []"
  "br_unclassified (rendered_result c ec src ds r) = candidate_ids ds"
  by (simp_all add: rendered_result_def blank_result_def)

lemma status_refused [simp]: "br_status (refused c b st why e) = st"
  by (simp add: refused_def)

definition accepted_from ::
  "jobj list \<Rightarrow> prompt_render \<Rightarrow> batch_result \<Rightarrow> bool" where
  "accepted_from ds r b \<longleftrightarrow>
     br_status b = ''ok'' \<and> br_classified b = pr_pair_ids r
     \<and> br_unclassified b = filter (\<lambda>p. p \<notin> set (pr_pair_ids r)) (candidate_ids ds)
     \<and> distinct (map ie_pair (br_edges b)) \<and> ie_pair ` set (br_edges b) = set (pr_pair_ids r)
     \<and> list_all (edge_wf (shown_lines (pr_line_counts r))) (br_edges b)"

lemma accept_answer_cases:
  assumes "accept_answer c b0 ds r res = Some b" "br_edges b0 = []" "br_classified b0 = []"
    "br_unclassified b0 = candidate_ids ds"
  shows "closed (candidate_ids ds) b \<or> accepted_from ds r b"
proof -
  let ?v = "\<lambda>raw. validate_edge_inference_response (cx_loads c) (JStr raw)
    (JList (map JStr (pr_pair_ids r))) (counts_json (pr_line_counts r))"
  have cl: "closed (candidate_ids ds) (refused c (b0\<lparr>br_model := m\<rparr>) ''validation_failed'' why e)" for m why e
    by (rule closed_refused) (simp_all add: assms)
  show ?thesis
  proof (cases "extract_completion (res_data res)")
    case (Text raw)
    show ?thesis
    proof (cases "?v raw")
      case (Good es)
      have "accepted_from ds r b"
        using assms(1) Text Good accepted_answer [OF Good]
        by (auto simp: accept_answer_def accepted_from_def counts_json_def Let_def)
      then show ?thesis ..
    next
      case Raised
      then show ?thesis using assms(1) Text by (simp add: accept_answer_def counts_json_def Let_def)
    next
      case (Bad e)
      then show ?thesis using assms(1) Text cl
        by (auto simp: accept_answer_def counts_json_def Let_def)
    qed
  qed (use assms(1) cl in \<open>auto simp: accept_answer_def Let_def\<close>)
qed

section \<open>One call\<close>

text \<open>The render of a call, when it gets there.\<close>

definition call_render :: "classify_env \<Rightarrow> edge_classifier \<Rightarrow> jobj \<Rightarrow> jobj list \<Rightarrow> prompt_render" where
  "call_render c ec src ds =
     render_edge_inference_prompt (cx_tokens c) (cx_template c) src ds (ec_max_pairs ec)
       MAX_EXCERPT_TOKENS (ec_budget ec)"

definition call_request :: "classify_env \<Rightarrow> edge_classifier \<Rightarrow> jobj \<Rightarrow> jobj list \<Rightarrow> real option \<Rightarrow> chat_request" where
  "call_request c ec src ds timeout =
     \<lparr>cr_prompt = pr_prompt (call_render c ec src ds), cr_operation = ''edge_inference'', cr_url = None,
      cr_timeout = (case timeout of None \<Rightarrow> ec_timeout ec | Some t \<Rightarrow> t)\<rparr>"

definition call_chain :: "classify_env \<Rightarrow> edge_classifier \<Rightarrow> provider list" where
  "call_chain c ec = filter (verified_local (cx_host c))
     (chain_providers (case ec_chain ec of None \<Rightarrow> cx_default_chain c | Some ch \<Rightarrow> ch))"

lemma classify_asked:
  assumes "source_object source = Some src" "candidate_objects cands = Inr ds" "ds \<noteq> []"
    "call_chain c ec \<noteq> []" "\<not> pr_exceeded (call_render c ec src ds)"
    "chain_chat (cx_host c) [(''edge_inference'', True)] (call_chain c ec)
       (call_request c ec src ds timeout) = (answer, called)"
  shows "classify c ec source cands timeout =
            (case answer of
              None \<Rightarrow> (Some (refused c (rendered_result c ec src ds (call_render c ec src ds))
                    ''provider_unavailable'' ''provider_unavailable'' ProviderException),
                  map (\<lambda>p. (p, call_request c ec src ds timeout)) called)
            | Some res \<Rightarrow> if \<not> res_ok res
                then (Some (refused c (rendered_result c ec src ds (call_render c ec src ds))
                        ''provider_unavailable'' ''provider_unavailable'' ProviderUnavailable),
                      map (\<lambda>p. (p, call_request c ec src ds timeout)) called)
                else (accept_answer c (rendered_result c ec src ds (call_render c ec src ds)) ds
                        (call_render c ec src ds) res,
                      map (\<lambda>p. (p, call_request c ec src ds timeout)) called))"
  using assms unfolding call_chain_def call_render_def call_request_def
  by (simp add: classify_def Let_def)

text \<open>A call either ends before a provider is asked, or asks the verified providers once.\<close>

lemma classify_cases:
  assumes "classify c ec source cands timeout = (b, calls)"
  obtains (early) r where "b = Some r" "br_edges r = []" "br_classified r = []" "br_status r \<noteq> ''ok''"
      "calls = []"
      "\<And>src ds. source_object source = Some src \<Longrightarrow> candidate_objects cands = Inr ds \<Longrightarrow>
         br_unclassified r = candidate_ids ds"
  | (asked) src ds answer called where "source_object source = Some src" "candidate_objects cands = Inr ds"
      "ds \<noteq> []" "\<not> pr_exceeded (call_render c ec src ds)"
      "chain_chat (cx_host c) [(''edge_inference'', True)] (call_chain c ec) (call_request c ec src ds timeout)
         = (answer, called)"
      "calls = map (\<lambda>p. (p, call_request c ec src ds timeout)) called"
      "b = (case answer of
          None \<Rightarrow> Some (refused c (rendered_result c ec src ds (call_render c ec src ds))
                    ''provider_unavailable'' ''provider_unavailable'' ProviderException)
        | Some res \<Rightarrow> if \<not> res_ok res
            then Some (refused c (rendered_result c ec src ds (call_render c ec src ds))
                    ''provider_unavailable'' ''provider_unavailable'' ProviderUnavailable)
            else accept_answer c (rendered_result c ec src ds (call_render c ec src ds)) ds
                   (call_render c ec src ds) res)"
proof (cases "source_object source")
  case None
  then show ?thesis using assms by (intro early) (auto simp: classify_def blank_result_def)
next
  case (Some src)
  note S = Some
  show ?thesis
  proof (cases "candidate_objects cands")
    case (Inl e)
    then show ?thesis using assms S by (intro early) (auto simp: classify_def blank_result_def)
  next
    case (Inr ds)
    note D = Inr
    consider (empty) "ds = []" | (route) "ds \<noteq> []" "call_chain c ec = []"
      | (over) "ds \<noteq> []" "call_chain c ec \<noteq> []" "pr_exceeded (call_render c ec src ds)"
      | (ask) "ds \<noteq> []" "call_chain c ec \<noteq> []" "\<not> pr_exceeded (call_render c ec src ds)" by blast
    then show ?thesis
    proof cases
      case empty
      then show ?thesis using assms S D
        by (intro early) (auto simp: classify_def blank_result_def candidate_ids_def)
    next
      case route
      then show ?thesis using assms S D
        by (intro early) (auto simp: classify_def blank_result_def call_chain_def Let_def)
    next
      case over
      then show ?thesis using assms S D
        by (intro early)
           (auto simp: classify_def call_chain_def call_render_def Let_def refused_def)
    next
      case ask
      obtain answer called where a: "chain_chat (cx_host c) [(''edge_inference'', True)] (call_chain c ec)
          (call_request c ec src ds timeout) = (answer, called)" by fastforce
      show ?thesis
      proof (rule asked [OF S D ask(1,3) a])
        show "calls = map (\<lambda>p. (p, call_request c ec src ds timeout)) called"
          "b = (case answer of
          None \<Rightarrow> Some (refused c (rendered_result c ec src ds (call_render c ec src ds))
                    ''provider_unavailable'' ''provider_unavailable'' ProviderException)
        | Some res \<Rightarrow> if \<not> res_ok res
            then Some (refused c (rendered_result c ec src ds (call_render c ec src ds))
                    ''provider_unavailable'' ''provider_unavailable'' ProviderUnavailable)
            else accept_answer c (rendered_result c ec src ds (call_render c ec src ds)) ds
                   (call_render c ec src ds) res)"
          using assms unfolding classify_asked [OF S D ask a] by (auto split: option.splits if_splits)
      qed
    qed
  qed
qed

section \<open>Every pair is accounted for\<close>

lemma sent_ids: "ids_of (sent_candidates mp ds) = take (nat (min mp MAX_CANDIDATE_PAIRS)) (candidate_ids ds)"
proof -
  have "enumerate 0 (take n ds) = take n (enumerate 0 ds)" for n
    by (rule nth_equalityI) (auto simp: nth_enumerate_eq)
  then show ?thesis by (simp add: ids_of_def sent_candidates_def candidate_ids_def take_map)
qed

lemma filter_not_in_take: "distinct xs \<Longrightarrow> filter (\<lambda>x. x \<notin> set (take n xs)) xs = drop n xs"
proof -
  assume d: "distinct xs"
  have "filter (\<lambda>x. x \<notin> set (take n xs)) (take n xs @ drop n xs) = drop n xs"
    using d set_take_disj_set_drop_if_distinct [of xs n n]
    by (auto simp: filter_empty_conv filter_id_conv simp del: append_take_drop_id)
  then show ?thesis by simp
qed

lemma candidate_objects_distinct: "candidate_objects v = Inr ds \<Longrightarrow> distinct (candidate_ids ds)"
  by (auto simp: candidate_objects_def split: json.splits option.splits if_splits)

lemma classified_prefix:
  assumes "candidate_objects v = Inr ds"
  shows "pr_pair_ids (call_render c ec src ds)
      @ filter (\<lambda>p. p \<notin> set (pr_pair_ids (call_render c ec src ds))) (candidate_ids ds) = candidate_ids ds"
proof -
  let ?r = "call_render c ec src ds" and ?ids = "candidate_ids ds"
  have "pr_pair_ids ?r @ pr_excluded ?r = take (nat (min (ec_max_pairs ec) MAX_CANDIDATE_PAIRS)) ?ids"
    using rendered_batch(1) [OF call_render_def] unfolding sent_ids .
  then have "pr_pair_ids ?r = take (length (pr_pair_ids ?r)) ?ids"
    by (metis append_eq_conv_conj append_take_drop_id append_assoc)
  then show ?thesis
    using filter_not_in_take [OF candidate_objects_distinct [OF assms]] by (metis append_take_drop_id)
qed

lemma classify_accounts:
  assumes "classify c ec source cands timeout = (Some b, calls)"
    and S: "source_object source = Some src" and D: "candidate_objects cands = Inr ds"
  shows "br_classified b @ br_unclassified b = candidate_ids ds
    \<and> length (br_classified b) \<le> 8
    \<and> ie_pair ` set (br_edges b) = set (br_classified b) \<and> distinct (map ie_pair (br_edges b))
    \<and> (br_status b \<noteq> ''ok'' \<longrightarrow> br_edges b = [])"
  using assms(1)
proof (cases rule: classify_cases)
  case (early r)
  then show ?thesis using early(6) [OF S D] by simp
next
  case (asked src' ds' answer called)
  have ds: "src' = src" "ds' = ds" using asked(1,2) S D by auto
  let ?r = "call_render c ec src ds"
  have "closed (candidate_ids ds) b \<or> accepted_from ds ?r b"
  proof (cases answer)
    case None
    then show ?thesis using asked(7) unfolding ds by (simp add: closed_refused)
  next
    case (Some res)
    show ?thesis
    proof (cases "res_ok res")
      case True
      then show ?thesis using asked(7) accept_answer_cases [of c _ ds ?r res b] Some unfolding ds by simp
    next
      case False
      then show ?thesis using asked(7) Some unfolding ds by (simp add: closed_refused)
    qed
  qed
  then show ?thesis
    using classified_prefix [OF D, of c ec src] rendered_batch(2) [OF call_render_def, of c ec src ds]
    by (auto simp: closed_def accepted_from_def)
qed

lemma classify_calls:
  assumes "classify c ec source cands timeout = (b, calls)" "(p, req) \<in> set calls"
  obtains src ds where "source_object source = Some src" "candidate_objects cands = Inr ds"
    "p \<in> set (call_chain c ec)" "req = call_request c ec src ds timeout"
    "\<not> pr_exceeded (call_render c ec src ds)"
    "is_loopback_request_url (cx_host c) DEFAULT_AFM_CHAT_COMPLETIONS_URL"
  using assms(1)
proof (cases rule: classify_cases)
  case (early r)
  then show ?thesis using assms(2) by simp
next
  case (asked src ds answer called)
  have p: "p \<in> set called" and req: "req = call_request c ec src ds timeout"
    using asked(6) assms(2) by auto
  have "set called \<subseteq> set (call_chain c ec)"
    using chain_chat_called [of "cx_host c" "[(''edge_inference'', True)]" "call_chain c ec"
        "call_request c ec src ds timeout"] asked(5) by simp
  then have "p \<in> set (call_chain c ec)" using p by blast
  moreover have "is_loopback_request_url (cx_host c) DEFAULT_AFM_CHAT_COMPLETIONS_URL"
    using chain_chat_loopback [of "cx_host c" "[(''edge_inference'', True)]" "call_chain c ec"
        "call_request c ec src ds timeout"] p asked(5)
    by (cases called) (simp_all add: call_request_def or_text_def)
  ultimately show ?thesis using that [OF asked(1,2) _ req asked(4)] by simp
qed

section \<open>Properties\<close>

theorem classifier_asks_local_only:
  assumes "classify c (make_classifier ch pause mp budget v) source cands timeout = (b, calls)"
    and "(p, req) \<in> set calls"
  shows "pv_tier p = Some ''local'' \<and> (\<forall>u\<in>set (pv_urls p). u = [] \<or> is_loopback_request_url (cx_host c) u)
    \<and> cr_url req = None \<and> is_loopback_request_url (cx_host c) DEFAULT_AFM_CHAT_COMPLETIONS_URL
    \<and> fst (count_tokens (cx_tokens c) (cr_prompt req)) \<le> 3200"
proof -
  let ?ec = "make_classifier ch pause mp budget v"
  obtain src ds where p: "p \<in> set (call_chain c ?ec)" and req: "req = call_request c ?ec src ds timeout"
    and fits: "\<not> pr_exceeded (call_render c ?ec src ds)"
    and loop: "is_loopback_request_url (cx_host c) DEFAULT_AFM_CHAT_COMPLETIONS_URL"
    using classify_calls [OF assms] .
  have "verified_local (cx_host c) p" using p by (simp add: call_chain_def)
  moreover have "ec_budget ?ec \<le> 3200" by (simp add: make_classifier_def EdgeInference.AFM_INPUT_BUDGET_TOKENS_def)
  moreover have "int (fst (count_tokens (cx_tokens c) (cr_prompt req))) \<le> ec_budget ?ec"
    using fits rendered_batch(3,4) [OF call_render_def, of c ?ec src ds] by (simp add: req call_request_def)
  ultimately show ?thesis using loop by (auto simp: verified_local_def list_all_iff req call_request_def)
qed

theorem classifier_accounts_for_every_pair:
  assumes "classify c ec source cands timeout = (Some b, calls)"
    and "source_object source = Some src" and "candidate_objects cands = Inr ds"
  shows "br_classified b @ br_unclassified b = candidate_ids ds \<and> length (br_classified b) \<le> 8
    \<and> ie_pair ` set (br_edges b) = set (br_classified b) \<and> distinct (map ie_pair (br_edges b))
    \<and> (br_status b \<noteq> ''ok'' \<longrightarrow> br_edges b = [])"
  by (rule classify_accounts [OF assms])

subsection \<open>A run\<close>

definition sample_source :: jobj where
  "sample_source = [(''title'', JStr ''new'')]"

definition sample_candidate :: jobj where
  "sample_candidate = [(''pair_id'', JStr ''p''), (''body'', JStr (''a'' @ NL @ ''b''))]"

definition sample_provider :: provider where
  "sample_provider = \<lparr>pv_name = ''afm'', pv_tier = Some ''local'', pv_supports = Some (\<lambda>s. True), pv_urls = [],
     pv_chat = \<lambda>q. Some \<lparr>res_ok = True, res_data = JStr ''x'', res_provider = ''afm'', res_status = ''ok''\<rparr>\<rparr>"

definition sample_env :: classify_env where
  "sample_env = \<lparr>cx_sha = id, cx_host = \<lambda>u. Some ''localhost'', cx_loads = \<lambda>s. Inr sample_answer,
     cx_tokens = no_tokenizer, cx_template = [], cx_default_chain = NoChain\<rparr>"

abbreviation sample_classifier :: edge_classifier where
  "sample_classifier \<equiv> make_classifier (Some (Providers [sample_provider])) 2 8 3200 ''v''"

lemma sample_candidates: "candidate_objects (JList [JObj sample_candidate]) = Inr [sample_candidate]"
  by (simp add: candidate_objects_def snapshot_and_validate_descriptor_def sample_candidate_def
      candidate_ids_def)

lemma sample_src: "source_object (JObj sample_source) = Some sample_source"
  by (simp add: source_object_def snapshot_and_validate_descriptor_def sample_source_def)

lemma sample_render:
  "pr_pair_ids (call_render sample_env sample_classifier sample_source [sample_candidate]) = [''p'']
   \<and> pr_line_counts (call_render sample_env sample_classifier sample_source [sample_candidate]) = [(''p'', 2)]
   \<and> \<not> pr_exceeded (call_render sample_env sample_classifier sample_source [sample_candidate])"
proof -
  have r: "call_render sample_env sample_classifier sample_source [sample_candidate] =
    render_edge_inference_prompt no_tokenizer [] sample_source [sample_candidate] 8 MAX_EXCERPT_TOKENS 3200"
    by (simp add: call_render_def sample_env_def make_classifier_def MAX_CANDIDATE_PAIRS_def
        EdgeInference.AFM_INPUT_BUDGET_TOKENS_def)
  show ?thesis unfolding r by code_simp
qed

lemma sample_chat:
  "chain_chat (cx_host sample_env) [(''edge_inference'', True)] (call_chain sample_env sample_classifier)
     (call_request sample_env sample_classifier sample_source [sample_candidate] None)
   = (Some \<lparr>res_ok = True, res_data = JStr ''x'', res_provider = ''afm'', res_status = ''ok''\<rparr>, [sample_provider])"
proof -
  have "is_loopback_request_url (cx_host sample_env) DEFAULT_AFM_CHAT_COMPLETIONS_URL" by code_simp
  then show ?thesis
    by (simp add: chain_chat_def Let_def call_request_def or_text_def call_chain_def make_classifier_def
        verified_local_def sample_provider_def)
qed

lemma sample_chain: "call_chain sample_env sample_classifier = [sample_provider]"
  by (simp add: call_chain_def make_classifier_def verified_local_def sample_provider_def)

lemma sample_run:
  "\<exists>b. classify sample_env sample_classifier (JObj sample_source) (JList [JObj sample_candidate]) None
      = (Some b, [(sample_provider, call_request sample_env sample_classifier sample_source [sample_candidate] None)])
    \<and> br_status b = ''ok''"
proof -
  have v: "validate_edge_inference_response (cx_loads sample_env) (JStr x) (JList [JStr ''p''])
      (JObj [(''p'', JInt 2)]) = Good [sample_edge]" for x
    using sample_answer_accepted [of "\<lambda>s. Inl BadJson"]
    by (simp add: sample_env_def validate_edge_inference_response_def parse_response_def counts_json_def
        sample_answer_def)
  show ?thesis
    by (subst classify_asked [OF sample_src sample_candidates _ _ _ sample_chat])
       (use sample_render in \<open>simp_all add: sample_chain accept_answer_def extract_completion_def v Let_def\<close>)
qed

theorem classifier_asks_local_only_witness:
  "pv_tier sample_provider = Some ''local''
   \<and> fst (count_tokens (cx_tokens sample_env)
        (cr_prompt (call_request sample_env sample_classifier sample_source [sample_candidate] None))) \<le> 3200"
proof -
  obtain b where run: "classify sample_env sample_classifier (JObj sample_source) (JList [JObj sample_candidate]) None
      = (Some b, [(sample_provider, call_request sample_env sample_classifier sample_source [sample_candidate] None)])"
    using sample_run by blast
  show ?thesis using classifier_asks_local_only [OF run] by simp
qed

theorem classifier_accounts_for_every_pair_witness:
  "\<exists>b calls. classify sample_env sample_classifier (JObj sample_source) (JList [JObj sample_candidate]) None
      = (Some b, calls) \<and> br_status b = ''ok'' \<and> br_classified b @ br_unclassified b = [''p'']"
proof -
  obtain b where run: "classify sample_env sample_classifier (JObj sample_source) (JList [JObj sample_candidate]) None
      = (Some b, [(sample_provider, call_request sample_env sample_classifier sample_source [sample_candidate] None)])"
    and ok: "br_status b = ''ok''"
    using sample_run by blast
  have "candidate_ids [sample_candidate] = [''p'']" by code_simp
  then show ?thesis
    using classifier_accounts_for_every_pair [OF run sample_src sample_candidates] run ok by simp
qed

end
