(* ===== verification/Prepare_Laws.thy ===== *)
theory Prepare_Laws
  imports Prepare Coordinator_Laws EdgeClassifier_Laws
begin

text \<open>
  The laws of \<open>Prepare\<close>: what the classifier reports passes the coordinator's second verification,
  a refused wrapper call leaves the store alone, and a repair adds to the projection only.
\<close>

section \<open>The classifier and the coordinator\<close>

text \<open>The attributes of a result the coordinator reads, with each edge as its dictionary.\<close>

definition batch_of :: "batch_result \<Rightarrow> batch" where
  "batch_of b = \<lparr>bt_prompt_hash = JStr (br_prompt_hash b), bt_source_hash = JStr (br_source_hash b),
     bt_candidates_hash = JStr (br_candidates_hash b), bt_batch_hash = JStr (br_batch_hash b),
     bt_classified = br_classified b, bt_unclassified = br_unclassified b,
     bt_edges = map edge_json (br_edges b), bt_output_hash = JStr (br_output_hash b),
     bt_model = JStr (br_model b), bt_version = JStr (br_version b),
     bt_evidence_hash = JStr (br_evidence_hash b)\<rparr>"

definition context_of :: "classify_env \<Rightarrow> classify_ctx" where
  "context_of c = \<lparr>cc_sha = cx_sha c, cc_tokens = cx_tokens c, cc_template = cx_template c,
     cc_loads = cx_loads c\<rparr>"

lemma objects_of_JObj: "objects_of (map JObj ds) = Some ds"
  by (induction ds) auto

lemma objects_of_Some: "objects_of xs = Some ds \<Longrightarrow> xs = map JObj ds"
  by (induction xs arbitrary: ds) (auto split: json.splits)

lemma source_object_JObj: "source_object (JObj src) = Some s \<Longrightarrow> s = src \<and> finite_json (JObj src)"
  by (auto simp: source_object_def snapshot_and_validate_descriptor_def split: if_splits)

lemma candidate_objects_JObj:
  "candidate_objects (JList (map JObj ds)) = Inr es \<Longrightarrow> es = ds \<and> finite_json (JList (map JObj ds))"
  by (auto simp: candidate_objects_def objects_of_JObj snapshot_and_validate_descriptor_def
      split: if_splits)

lemma ok_answer:
  assumes "classify c ec (JObj src) (JList (map JObj ds)) timeout = (Some b, calls)" "br_status b = ''ok''"
  obtains m es raw where "m \<noteq> []" "finite_json (JObj src)" "finite_json (JList (map JObj ds))"
    "candidate_objects (JList (map JObj ds)) = Inr ds" "\<not> pr_exceeded (call_render c ec src ds)"
    "validate_edge_inference_response (cx_loads c) (JStr raw)
       (JList (map JStr (pr_pair_ids (call_render c ec src ds))))
       (counts_json (pr_line_counts (call_render c ec src ds))) = Good es"
    "b = (let r = call_render c ec src ds; b0 = (rendered_result c ec src ds r)\<lparr>br_model := m\<rparr>;
              out = compute_canonical_hash (cx_sha c) (JList (map edge_json es))
          in b0\<lparr>br_status := ''ok'', br_edges := es, br_classified := pr_pair_ids r,
               br_unclassified := filter (\<lambda>p. p \<notin> set (pr_pair_ids r)) (candidate_ids ds),
               br_output_hash := out,
               br_evidence_hash := colon_hash c
                 [br_source_hash b0, br_batch_hash b0, br_prompt_hash b0, out, br_version b0, br_model b0]\<rparr>)"
  using assms(1)
proof (cases rule: classify_cases)
  case (early r)
  then show ?thesis using assms(2) by simp
next
  case (asked src' ds' answer called)
  note S = source_object_JObj [OF asked(1)] and D = candidate_objects_JObj [OF asked(2)]
  let ?r = "call_render c ec src ds"
  obtain res where res: "answer = Some res" "res_ok res"
    "accept_answer c (rendered_result c ec src ds ?r) ds ?r res = Some b"
    using asked(7) assms(2) S D by (auto split: option.splits if_splits)
  show ?thesis
  proof (cases "extract_completion (res_data res)")
    case (Text raw)
    show ?thesis
    proof (cases "validate_edge_inference_response (cx_loads c) (JStr raw) (JList (map JStr (pr_pair_ids ?r)))
        (counts_json (pr_line_counts ?r))")
      case (Good es)
      show ?thesis
        by (rule that [of "model_of res", OF _ _ _ _ _ Good])
           (use res(3) Text Good S D asked(2,4) in
             \<open>simp_all add: accept_answer_def counts_json_def Let_def model_of_def\<close>)
    qed (use res(3) assms(2) Text in \<open>auto simp: accept_answer_def counts_json_def Let_def\<close>)
  qed (use res(3) assms(2) in \<open>auto simp: accept_answer_def Let_def\<close>)
qed

text \<open>The coordinator renders with the default bounds, as a classifier built with them does.\<close>

lemma call_render_default:
  "call_render c (make_classifier ch pause 8 3200 v) src ds =
     render_edge_inference_prompt (cx_tokens c) (cx_template c) src ds MAX_CANDIDATE_PAIRS
       MAX_EXCERPT_TOKENS EdgeInference.AFM_INPUT_BUDGET_TOKENS"
  by (simp add: call_render_def make_classifier_def MAX_CANDIDATE_PAIRS_def AFM_INPUT_BUDGET_TOKENS_def
      EdgeInference.AFM_INPUT_BUDGET_TOKENS_def)

theorem classifier_answer_verified:
  assumes "classify c (make_classifier ch pause 8 3200 v) (JObj src) (JList (map JObj ds)) timeout
      = (Some b, calls)"
    and "br_status b = ''ok''" and "v \<noteq> []"
  shows "classify_validated (context_of c) src ds (\<lambda>s d. ClassifyBatch (batch_of b)) descriptors =
    Inr (map (\<lambda>e. (the (map_of descriptors (ie_pair e)), ie_label e, ie_direction e, ie_confidence e))
           (filter persisted (br_edges b)),
         [(''evidence_hash'', br_evidence_hash b), (''model_id'', br_model b),
          (''output_hash'', br_output_hash b), (''prompt_version'', v)])"
proof -
  let ?ec = "make_classifier ch pause 8 3200 v"
  let ?r = "call_render c ?ec src ds"
  obtain m es raw where m: "m \<noteq> []" and fin: "finite_json (JObj src)" "finite_json (JList (map JObj ds))"
    and D: "candidate_objects (JList (map JObj ds)) = Inr ds" and fits: "\<not> pr_exceeded ?r"
    and good: "validate_edge_inference_response (cx_loads c) (JStr raw)
       (JList (map JStr (pr_pair_ids ?r))) (counts_json (pr_line_counts ?r)) = Good es"
    and b: "b = (let r = ?r; b0 = (rendered_result c ?ec src ds r)\<lparr>br_model := m\<rparr>;
              out = compute_canonical_hash (cx_sha c) (JList (map edge_json es))
          in b0\<lparr>br_status := ''ok'', br_edges := es, br_classified := pr_pair_ids r,
               br_unclassified := filter (\<lambda>p. p \<notin> set (pr_pair_ids r)) (candidate_ids ds),
               br_output_hash := out,
               br_evidence_hash := colon_hash c
                 [br_source_hash b0, br_batch_hash b0, br_prompt_hash b0, out, br_version b0, br_model b0]\<rparr>)"
    by (rule ok_answer [OF assms(1,2)])
  have dist: "distinct (candidate_ids ds)" using candidate_objects_distinct [OF D] .
  have split: "pr_pair_ids ?r @ filter (\<lambda>p. p \<notin> set (pr_pair_ids ?r)) (candidate_ids ds) = candidate_ids ds"
    by (rule classified_prefix [OF D])
  have acc: "accounted (pr_pair_ids ?r) (filter (\<lambda>p. p \<notin> set (pr_pair_ids ?r)) (candidate_ids ds))
      (candidate_ids ds)"
    using dist split unfolding accounted_def by (metis distinct_append set_append)
  have fields: "br_prompt_hash b = cx_sha c (pr_prompt ?r)"
    "br_source_hash b = compute_canonical_hash (cx_sha c) (JObj src)"
    "br_candidates_hash b = compute_canonical_hash (cx_sha c) (JList (map JObj ds))"
    "br_batch_hash b = compute_canonical_hash (cx_sha c) (JList (map JObj (batch_candidates ds (pr_pair_ids ?r))))"
    "br_classified b = pr_pair_ids ?r" "br_edges b = es" "br_model b = m" "br_version b = v"
    "br_unclassified b = filter (\<lambda>p. p \<notin> set (pr_pair_ids ?r)) (candidate_ids ds)"
    "br_output_hash b = compute_canonical_hash (cx_sha c) (JList (map edge_json es))"
    "br_evidence_hash b = cx_sha c (join_with '':'' [br_source_hash b, br_batch_hash b, br_prompt_hash b,
       br_output_hash b, br_version b, br_model b])"
    unfolding b by (simp_all add: Let_def rendered_result_def blank_result_def make_classifier_def colon_hash_def)
  have bound: "batch_bound (cx_sha c) src ds ?r (batch_of b)"
    using acc by (simp add: batch_bound_def batch_of_def fields)
  have outcome: "batch_outcome (cx_sha c) src ds ?r (batch_of b) es"
    using m assms(3) by (simp add: batch_outcome_def batch_of_def as_text_def Let_def fields)
  have again: "validate_edge_inference_response (cx_loads c) (JList (bt_edges (batch_of b)))
       (JList (map JStr (pr_pair_ids ?r)))
       (JObj (map (\<lambda>pn. (fst pn, JInt (int (snd pn)))) (pr_line_counts ?r))) = Good es"
    using accepted_answer_reprints [OF good] by (simp add: batch_of_def fields counts_json_def)
  show ?thesis
    unfolding classify_validated_def Let_def context_of_def classify_ctx.simps
      call_render_default [of c ch pause v src ds, symmetric]
    using fin fits dist bound outcome again
    by (simp add: batch_info_def batch_of_def as_text_def fields)
qed


theorem classifier_answer_verified_witness:
  "\<exists>b vs info. fst (classify sample_env sample_classifier (JObj sample_source) (JList [JObj sample_candidate]) None)
       = Some b
     \<and> classify_validated (context_of sample_env) sample_source [sample_candidate]
         (\<lambda>s d. ClassifyBatch (batch_of b)) [(''p'', run_target)] = Inr (vs, info)"
proof -
  obtain b where b: "classify sample_env sample_classifier (JObj sample_source) (JList [JObj sample_candidate]) None
      = (Some b, [(sample_provider, call_request sample_env sample_classifier sample_source [sample_candidate] None)])"
    "br_status b = ''ok''" using sample_run by blast
  have "classify sample_env sample_classifier (JObj sample_source) (JList (map JObj [sample_candidate])) None
      = (Some b, [(sample_provider, call_request sample_env sample_classifier sample_source [sample_candidate] None)])"
    using b(1) by simp
  from classifier_answer_verified [OF this b(2), of "[(''p'', run_target)]"] b(1) show ?thesis by simp
qed

section \<open>Refusals and repairs\<close>

text \<open>What a repair may touch: learnings stay, links of other pairs, texts, vectors and reviews stay.\<close>

lemma write_edges_learnings: "learnings (gs_db (fst (write_edges p lid seen bs g))) = learnings (gs_db g)"
  using write_edges_frame by simp

lemma add_chunks_prefix:
  "\<exists>new. gs_chunks (fst (add_chunks doc m l ts i cs g)) = gs_chunks g @ new"
  by (induction doc m l ts i cs g rule: add_chunks.induct) (fastforce simp: Let_def split: prod.splits)+

lemma fill_projection_extends:
  "\<exists>a b. gs_texts (fst (fill_projection doc path agent sigil content cs m l ts g)) = gs_texts g @ a
     \<and> gs_chunks (fst (fill_projection doc path agent sigil content cs m l ts g)) = gs_chunks g @ b"
proof -
  define g1 where "g1 = (if list_ex (\<lambda>t. ft_doc t = doc) (gs_texts g) then g
                else g\<lparr>gs_texts := gs_texts g @ [\<lparr>ft_doc = doc, ft_path = path, ft_content = content,
                       ft_agent = agent, ft_sigil = sigil\<rparr>]\<rparr>)"
  have g1: "\<exists>a. gs_texts g1 = gs_texts g @ a" "gs_chunks g1 = gs_chunks g" unfolding g1_def by auto
  have f: "fill_projection doc path agent sigil content cs m l ts g =
      (if cs = [] \<or> list_ex (\<lambda>c. vc_doc c = doc) (gs_chunks g1) then (g1, []) else add_chunks doc m l ts 0 cs g1)"
    by (simp add: fill_projection_def g1_def Let_def)
  show ?thesis
  proof (cases "cs = [] \<or> list_ex (\<lambda>c. vc_doc c = doc) (gs_chunks g1)")
    case True
    then show ?thesis using f g1 by auto
  next
    case False
    then show ?thesis
      using f g1 add_chunks_frame [of doc m l ts 0 cs g1] add_chunks_prefix [of doc m l ts 0 cs g1] by simp
  qed
qed

lemma queue_extends: "\<exists>new. gs_reviews (fst (queue_update_review a b c w e g)) = gs_reviews g @ new
    \<and> gs_chunks (fst (queue_update_review a b c w e g)) = gs_chunks g"
  by (simp add: queue_update_review_def)

lemma retire_planned_extends:
  "gs_reviews (fst (retire_planned t ls n d ts g)) = gs_reviews g
   \<and> gs_chunks (fst (retire_planned t ls n d ts g)) = gs_chunks g"
  by (simp add: retire_planned_def split: prod.splits)

lemma supersession_extends:
  "\<exists>new. gs_reviews (fst (apply_updates_supersession allow src lid agent ts seen vs g)) = gs_reviews g @ new
     \<and> gs_chunks (fst (apply_updates_supersession allow src lid agent ts seen vs g)) = gs_chunks g"
proof (induction vs arbitrary: seen g)
  case (Cons v vs)
  obtain d label direction conf where v: "v = (d, label, direction, conf)" by (cases v)
  show ?case
  proof (cases "ds_doc d = src \<or> ds_doc d \<in> set seen")
    case True
    then show ?thesis using Cons.IH unfolding v by simp
  next
    case False
    obtain lids ref reason where pl: "plan_for allow (plan_updates_action label direction conf agent lid
        (supersession_target_state (gs_db g) (ds_doc d))) = (lids, ref, reason)"
      by (metis prod_cases3)
    obtain g1 r1 where r1: "retire_planned (ds_doc d) lids lid src ts g = (g1, r1)" by fastforce
    define q where "q = (case reason of None \<Rightarrow> (g1, False)
        | Some why \<Rightarrow> queue_update_review lid ref conf why ts g1)"
    have "fst (apply_updates_supersession allow src lid agent ts seen (v # vs) g) =
        fst (apply_updates_supersession allow src lid agent ts (ds_doc d # seen) vs (fst q))"
      using False pl r1 unfolding v q_def by (auto simp: Let_def split: option.splits prod.splits)
    moreover have "\<exists>new. gs_reviews (fst q) = gs_reviews g @ new \<and> gs_chunks (fst q) = gs_chunks g"
      using retire_planned_extends [of "ds_doc d" lids lid src ts g] r1
        queue_extends [of lid ref conf "the reason" ts g1]
      unfolding q_def by (cases reason) simp_all
    ultimately show ?thesis using Cons.IH [of "ds_doc d # seen" "fst q"] by auto
  qed
qed simp

lemma repair_node_learnings:
  "repair_node e lid agent content ts d = Inr (d', doc, missing) \<Longrightarrow> learnings d' = learnings d"
  using ensure_node_frame(1) [of e lid agent content ts d]
  by (auto simp: repair_node_def Let_def bind_result_Inr_iff lift_db_def split: option.splits sum.splits)

text \<open>A repair may add texts, vectors and reviews, and write the links it reports; nothing else moves.\<close>

definition only_extends :: "(int \<times> int \<times> string) set \<Rightarrow> gstore \<Rightarrow> gstore \<Rightarrow> bool" where
  "only_extends K g g' \<longleftrightarrow> learnings (gs_db g') = learnings (gs_db g)
     \<and> (\<exists>xs. gs_texts g' = gs_texts g @ xs) \<and> (\<exists>xs. gs_chunks g' = gs_chunks g @ xs)
     \<and> (\<exists>xs. gs_reviews g' = gs_reviews g @ xs)
     \<and> filter (\<lambda>l. link_key l \<notin> K) (gs_links g') = filter (\<lambda>l. link_key l \<notin> K) (gs_links g)"

lemma only_extends_trans: "only_extends K a b \<Longrightarrow> only_extends K b c \<Longrightarrow> only_extends K a c"
  unfolding only_extends_def by (metis append.assoc)

lemma fill_only_extends:
  "only_extends K g (fst (fill_projection doc path agent sigil content cs m l ts g))"
  using fill_projection_extends [of doc path agent sigil content cs m l ts g]
    fill_projection_frame [of doc path agent sigil content cs m l ts g]
  unfolding only_extends_def by simp

lemma edges_only_extend: "only_extends (bound_key ` set bs) g (fst (write_edges p lid [] bs g))"
  using write_edges_frame [of p lid "[]" bs g] write_edges_others [of "- bound_key ` set bs" bs p lid "[]" g]
  unfolding only_extends_def by simp

lemma repair_reviews_only_extend:
  "only_extends K g (fst (apply_updates_supersession False doc lid agent ts seen vs g))"
proof -
  obtain g' r n where a: "apply_updates_supersession False doc lid agent ts seen vs g = (g', r, n)"
    by (metis prod_cases3)
  show ?thesis
    using supersession_learnings [OF a] repair_keeps_learnings [OF a]
      supersession_extends [of False doc lid agent ts seen vs g] a
    unfolding only_extends_def by simp
qed

lemma if_refusal: "(if P then Inl e else r) = Inr a \<longleftrightarrow> \<not> P \<and> r = Inr a"
  by simp

lemma repair_graph_extends:
  assumes "repair_graph x q agent content chunks inferred doc missing g = Inr (g', res)"
  shows "only_extends (bound_key ` set (rr_edges res)) g g'"
proof -
  obtain vs info snaps deferred where inf: "inferred = (vs, info, snaps, deferred)" by (cases inferred)
  define live where "live = (if missing then [] else vs)"
  define e where "e = (ce_env (pe_ce x))\<lparr>vault_path := rq_vault q\<rparr>"
  define md where "md = durable_metadata e content"
  obtain g1 ids where f: "fill_projection doc (durable_doc_path e agent content) agent (dm_sigil md) content chunks
              (rq_model q) (dm_layer md) (pe_clock x) g = (g1, ids)" by fastforce
  define written where "written = (if bind_edges live doc = [] then Inr g1
             else case provenance_of (pe_ce x) info (pe_clock x) of
               None \<Rightarrow> Inl coord_error.Crash
             | Some pv \<Rightarrow> Inr (fst (write_edges pv (rq_learning q) [] (bind_edges live doc) g1)))"
  let ?finish = "\<lambda>g2. (case apply_updates_supersession False doc (rq_learning q) agent (pe_clock x) [] live g2 of
      (g3, retired, reviews) \<Rightarrow> Inr (g3, \<lparr>rr_status =
                   (if missing then ''incomplete_schema_missing''
                    else if list_ex (\<lambda>c. vc_doc c = doc) (gs_chunks g3) then ''complete''
                    else ''incomplete_lexical_only''),
                 rr_doc = doc, rr_edges = bind_edges live doc, rr_deferred = deferred, rr_chunk_ids = ids,
                 rr_vectors = (if ids = [] then [] else map snd chunks), rr_reviews = reviews\<rparr>))
       :: coord_error + gstore \<times> repair_result"
  have "bind_result written ?finish = Inr (g', res)"
    using assms unfolding repair_graph_def inf Let_def prod.case live_def [symmetric] e_def [symmetric]
      md_def [symmetric] f written_def [symmetric] if_refusal by (elim conjE)
  from iffD1 [OF bind_result_Inr_iff this] obtain g2 where both: "written = Inr g2 \<and> ?finish g2 = Inr (g', res)"
    by (rule exE)
  note g2 = conjunct1 [OF both] and fin = conjunct2 [OF both]
  have res: "g' = fst (apply_updates_supersession False doc (rq_learning q) agent (pe_clock x) [] live g2)"
    "rr_edges res = bind_edges live doc"
    using fin by (auto split: prod.splits)
  have "only_extends K g g1" for K
    using fill_only_extends [of K g doc "durable_doc_path e agent content" agent "dm_sigil md" content chunks
      "rq_model q" "dm_layer md" "pe_clock x"] f by simp
  moreover have "only_extends (bound_key ` set (rr_edges res)) g1 g2"
    using g2 edges_only_extend [of "bind_edges live doc" g1] unfolding written_def res
    by (auto simp: only_extends_def split: if_splits option.splits)
  ultimately show ?thesis using repair_reviews_only_extend unfolding res(1) by (blast intro: only_extends_trans)
qed

theorem repair_only_adds:
  "case repair_learning_projection x q g of (g', r) \<Rightarrow>
     (case r of Inl e \<Rightarrow> g' = g | Inr res \<Rightarrow> only_extends (bound_key ` set (rr_edges res)) g g')"
proof -
  have "only_extends (bound_key ` set (rr_edges res)) g g'"
    if t: "repair_transaction x q agent content chunks inferred g = Inr (g', res)" for agent content chunks inferred g' res
  proof -
    obtain d1 doc missing where
      n: "repair_node ((ce_env (pe_ce x))\<lparr>vault_path := rq_vault q\<rparr>) (rq_learning q) agent content (pe_clock x)
        (gs_db g) = Inr (d1, doc, missing)"
      and r: "repair_graph x q agent content chunks inferred doc missing (g\<lparr>gs_db := d1\<rparr>) = Inr (g', res)"
      using t by (auto simp: repair_transaction_def Let_def bind_result_Inr_iff split: if_splits)
    show ?thesis
      using repair_graph_extends [OF r] repair_node_learnings [OF n] by (simp add: only_extends_def)
  qed
  then show ?thesis
    by (auto simp: repair_learning_projection_def Let_def split: option.splits sum.splits if_splits coord_error.splits)
qed

section \<open>The wrapper\<close>

text \<open>A verdict good enough to become an edge.\<close>

definition worth_persisting :: "verdict \<Rightarrow> bool" where
  "worth_persisting v \<longleftrightarrow>
     (case map_of PERSIST_CONFIDENCE (fst (snd v)) of None \<Rightarrow> False | Some c \<Rightarrow> c \<le> snd (snd (snd v)))"

lemma persisted_floor:
  assumes "edge_wf lines e" "persisted e"
  shows "worth_persisting (d, ie_label e, ie_direction e, ie_confidence e)"
proof -
  have "ie_label e \<in> {''updates'', ''extends'', ''contradicts'', ''relates''}"
    using assms by (auto simp: edge_wf_def compatible_def VALID_EDGE_LABELS_def persisted_def)
  then show ?thesis using assms(2) by (auto simp: worth_persisting_def persisted_def PERSIST_CONFIDENCE_def)
qed

lemma classify_validated_worth:
  assumes "classify_validated ctx src ds ask descriptors = Inr (vs, info)"
  shows "list_all worth_persisting vs"
proof -
  define r where "r = render_edge_inference_prompt (cc_tokens ctx) (cc_template ctx) src ds MAX_CANDIDATE_PAIRS
    MAX_EXCERPT_TOKENS EdgeInference.AFM_INPUT_BUDGET_TOKENS"
  obtain b :: batch and es where
    v: "validate_edge_inference_response (cc_loads ctx) (JList (bt_edges b)) (JList (map JStr (pr_pair_ids r)))
       (JObj (map (\<lambda>pn. (fst pn, JInt (int (snd pn)))) (pr_line_counts r))) = Good es"
    and vs: "map (\<lambda>e. (the (map_of descriptors (ie_pair e)), ie_label e, ie_direction e, ie_confidence e))
      (filter persisted es) = vs"
    using assms unfolding classify_validated_def Let_def r_def [symmetric]
    by (simp split: if_splits classify_answer.splits checked.splits)
  show ?thesis
    using accepted_answer [OF v [folded counts_json_def]] persisted_floor unfolding vs [symmetric] list_all_iff by auto
qed

lemma infer_edges_worth:
  "infer_edges x store p ws agent content hits = Inr (vs, info, snaps, no_pairs) \<Longrightarrow> list_all worth_persisting vs"
  using classify_validated_worth
  by (auto simp: infer_edges_def Let_def bind_result_Inr_iff
      split: prod.splits sum.splits if_splits shortlist_error.splits)

lemma prepared_validated:
  assumes "prepare_learning_with_graph x q = Inr pc"
  shows "pc_graph pc = pq_graph q \<and> list_all worth_persisting (pc_validated pc)"
proof -
  obtain vec chunks vs info snaps no_pairs where e: "edge_step x q vec = Inr (vs, info, snaps, no_pairs)"
    and pc: "pc = (draft_payload x q vec chunks vs info snaps no_pairs)\<lparr>pc_digest := payload_digest (pe_ce x)
      (draft_payload x q vec chunks vs info snaps no_pairs)\<rparr>"
    using assms by (auto simp: prepare_learning_with_graph_def Let_def bind_result_Inr_iff
        split: if_splits option.splits)
  have "list_all worth_persisting vs"
    using e infer_edges_worth by (auto simp: edge_step_def split: if_splits option.splits)
  then show ?thesis unfolding pc by (simp add: draft_payload_def Let_def)
qed

lemma bound_worth:
  assumes "list_all worth_persisting vs" "(s, t, ty, c) \<in> set (bind_edges vs doc)"
  shows "case map_of PERSIST_CONFIDENCE ty of None \<Rightarrow> False | Some f \<Rightarrow> f \<le> c"
proof -
  obtain d label direction conf where v: "(d, label, direction, conf) \<in> set vs"
    "(s, t, ty, c) = (doc, ds_doc d, label, conf) \<or> (s, t, ty, c) = (ds_doc d, doc, label, conf)"
    by (rule bind_edges_member [OF assms(2)])
  have "worth_persisting (d, label, direction, conf)" using assms(1) v(1) unfolding list_all_iff by blast
  moreover have "ty = label" "c = conf" using v(2) by auto
  ultimately show ?thesis by (simp add: worth_persisting_def split: option.splits)
qed

theorem wrapped_commit_all_or_nothing:
  "case commit_learning_with_graph x q g of (g', r) \<Rightarrow>
     (case r of
        Inl e \<Rightarrow> g' = g
      | Inr res \<Rightarrow>
          list_all (\<lambda>(s, t, ty, c). case map_of PERSIST_CONFIDENCE ty of None \<Rightarrow> False | Some f \<Rightarrow> f \<le> c)
            (cr_edges res)
          \<and> (pq_graph q \<or> cr_edges res = [] \<and> cr_superseded res = []))"
proof -
  have "list_all (\<lambda>(s, t, ty, c). case map_of PERSIST_CONFIDENCE ty of None \<Rightarrow> False | Some f \<Rightarrow> f \<le> c)
          (cr_edges res) \<and> (pq_graph q \<or> cr_edges res = [] \<and> cr_superseded res = [])"
    if p: "prepare_learning_with_graph x q = Inr pc"
      and c: "commit_prepared_learning (pe_ce x) True pc (pq_principal q) g = Inr (g', res)" for pc g' res
  proof -
    note v = prepared_validated [OF p]
    obtain d1 lid d2 doc ev where
      cg: "commit_graph (pe_ce x) pc (pq_principal q) lid doc (g\<lparr>gs_db := d2\<rparr>) = Inr (g', res)"
      by (rule commit_steps [OF c])
    obtain g2 n where ed: "cr_edges res = bind_edges (live_verdicts pc) doc"
      and a: "apply_updates_supersession True doc lid (p_agent_id (pc_principal pc)) (pc_at pc) []
       (live_verdicts pc) g2 = (g', cr_superseded res, n)"
      by (rule commit_graph_steps [OF cg]) blast
    have "list_all worth_persisting (live_verdicts pc)" using v by (simp add: live_verdicts_def)
    then have "list_all (\<lambda>(s, t, ty, c). case map_of PERSIST_CONFIDENCE ty of None \<Rightarrow> False | Some f \<Rightarrow> f \<le> c)
        (cr_edges res)"
      using bound_worth unfolding ed list_all_iff by fast
    moreover have "pq_graph q \<or> cr_edges res = [] \<and> cr_superseded res = []"
      using v a unfolding ed by (auto simp: live_verdicts_def bind_edges_def)
    ultimately show ?thesis ..
  qed
  then show ?thesis
    by (auto simp: commit_learning_with_graph_def split: sum.splits coord_error.splits)
qed

section \<open>Runs\<close>

text \<open>Both entry points succeed on a small store, so the properties above are not about refusals only.\<close>

definition prep_run :: prep_env where
  "prep_run = \<lparr>pe_ce = run_env,
     pe_ctx = \<lparr>cc_sha = \<lambda>s. ''h'', cc_tokens = no_tokenizer, cc_template = [], cc_loads = \<lambda>s. Inl BadJson\<rparr>,
     pe_chunks = \<lambda>s. Some [s], pe_embed = \<lambda>s. Some ''v'', pe_search = \<lambda>v. Some (JList []),
     pe_metadata = \<lambda>s d. None, pe_content = \<lambda>s d. None, pe_classify = \<lambda>s d. ClassifyNone,
     pe_locked = False, pe_ready = True, pe_clock = 9\<rparr>"

definition run_request :: prep_request where
  "run_request = \<lparr>pq_store = ''/db'', pq_principal = run_principal, pq_content = ''new'', pq_category = ''fact'',
     pq_vault = ''/v'', pq_model = ''m'', pq_graph = True, pq_workspace = p_workspace_id run_principal,
     pq_fields = no_fields\<rparr>"

definition run_repair :: repair_request where
  "run_repair = \<lparr>rq_store = ''/db'', rq_learning = 1, rq_vault = ''/v'', rq_model = ''m'', rq_principal = None,
     rq_edges = False, rq_graph = True, rq_workspace = ''w''\<rparr>"

lemma run_wrapped:
  "case commit_learning_with_graph prep_run run_request run_store of (g', r) \<Rightarrow>
     (case r of Inl e \<Rightarrow> False
      | Inr res \<Rightarrow> cr_no_candidates res \<and> cr_learning res = 2 \<and> map vc_doc (gs_chunks g') = [cr_doc res])"
  by code_simp

lemma run_repaired:
  "case repair_learning_projection prep_run run_repair run_store of (g', r) \<Rightarrow>
     (case r of Inl e \<Rightarrow> False | Inr res \<Rightarrow> rr_status res = ''complete'' \<and> learnings (gs_db g') = [run_old])"
  by code_simp

end
