(* ===== verification/Evidence_Laws.thy ===== *)
theory Evidence_Laws
  imports Evidence
begin

text \<open>
  Nothing written into an envelope can forge its tags: exactly one tag opens, exactly one
  closes, and the attributes keep their quotes; the perturbation can be undone; and the
  snippet tier cuts the closing tag off.
\<close>

section \<open>Occurrences of a tag\<close>

fun occ :: "('a \<Rightarrow> 'a) \<Rightarrow> 'a list \<Rightarrow> 'a list \<Rightarrow> nat" where
  "occ k p [] = 0"
| "occ k p (c # cs) = (if matches k p (c # cs) then 1 else 0) + occ k p cs"

lemma matches_Nil [simp]: "matches k [] s" "matches k (h # t) [] = False"
  by (simp_all add: matches_def)

lemma matches_Cons [simp]: "matches k (h # t) (c # cs) = (k c = k h \<and> matches k t cs)"
  by (auto simp: matches_def)

text \<open>A tag: its first character does not come up again.\<close>

definition tag :: "('a \<Rightarrow> 'a) \<Rightarrow> 'a list \<Rightarrow> bool" where
  "tag k p \<longleftrightarrow> p \<noteq> [] \<and> k (hd p) \<notin> k ` set (tl p)"

lemma matches_before:
  "k c \<notin> k ` set t \<Longrightarrow> matches k t (xs @ c # ys) = matches k t xs"
proof (induction t arbitrary: xs)
  case (Cons h t)
  then show ?case by (cases xs) auto
qed simp

lemma occ_split:
  assumes "tag k p" and "k c = k (hd p)"
  shows "occ k p (xs @ c # ys) = occ k p xs + occ k p (c # ys)"
proof (induction xs)
  case (Cons x xs)
  obtain h t where p: "p = h # t" "k h \<notin> k ` set t" using assms(1) by (cases p) (auto simp: tag_def)
  then have "matches k p ((x # xs) @ c # ys) = matches k p (x # xs)"
    using matches_before [of k c t xs ys] assms(2) by (simp add: p)
  then show ?case using Cons by simp
qed simp

lemma occ_free:
  assumes "p \<noteq> []" and "k (hd p) \<notin> k ` set xs"
  shows "occ k p (xs @ ys) = occ k p ys"
  using assms by (induction xs) (auto simp: neq_Nil_conv)

lemma occ_free_Nil: "p \<noteq> [] \<Longrightarrow> k (hd p) \<notin> k ` set xs \<Longrightarrow> occ k p xs = 0"
  using occ_free [of p k xs "[]"] by simp

text \<open>A substitution creates no match that starts before the text it inserts.\<close>

lemma matches_subst:
  assumes "new \<noteq> []" and "k (hd new) \<notin> k ` set t" and "matches k t (subst_all k' p new s)"
  shows "matches k t s"
  using assms
proof (induction k' p new s arbitrary: t rule: subst_all.induct)
  case (2 k' p new c cs)
  show ?case
  proof (cases t)
    case t: (Cons h t')
    then show ?thesis
      using 2 by (cases new) (auto split: if_splits)
  qed simp
qed simp

lemma occ_subst:
  assumes "tag k p'" and "new \<noteq> []" and "k (hd new) \<notin> k ` set (tl p')"
    and n: "\<And>r. occ k p' (new @ r) = occ k p' r"
    and z: "occ k p' s = 0 \<or> k' = k \<and> p = p'"
  shows "occ k p' (subst_all k' p new s) = 0"
  using z
proof (induction "length s" arbitrary: s rule: less_induct)
  case less
  obtain h t where p: "p' = h # t" using assms(1) by (cases p') (auto simp: tag_def)
  have drop: "occ k p' (drop n xs) = 0" if "occ k p' xs = 0" for n xs
    using that by (induction xs arbitrary: n) (auto split: nat.split simp: drop_Cons)
  show ?case
  proof (cases s)
    case (Cons c cs)
    show ?thesis
    proof (cases "matches k' p s")
      case True
      have "occ k p' (drop (length p - 1) cs) = 0 \<or> k' = k \<and> p = p'"
        using less.prems drop [of cs] by (auto simp: Cons)
      then show ?thesis using less.hyps [of "drop (length p - 1) cs"] n True by (simp add: Cons)
    next
      case False
      have rest: "occ k p' (subst_all k' p new cs) = 0"
        using less.prems by (intro less.hyps) (auto simp: Cons)
      have "\<not> matches k p' (c # subst_all k' p new cs)"
      proof
        assume m: "matches k p' (c # subst_all k' p new cs)"
        then have "matches k t (subst_all k' p new cs)" by (simp add: p)
        then have "matches k t cs" using assms(2,3) by (auto simp: p intro: matches_subst)
        then have "matches k p' s" using m by (simp add: p Cons)
        then show False using less.prems False by (auto simp: Cons)
      qed
      then show ?thesis using rest False by (simp add: Cons)
    qed
  qed simp
qed

text \<open>Inserting characters that no tag contains creates no tag.\<close>

lemma matches_mark:
  assumes "k BOUNDARY \<notin> k ` set t" and "matches k t (mark_boundaries u prev s)"
  shows "matches k t s"
  using assms
proof (induction u prev s arbitrary: t rule: mark_boundaries.induct)
  case (2 u prev c cs)
  then show ?case by (cases t) (auto split: if_splits)
qed simp

lemma occ_mark:
  assumes "p \<noteq> []" "k BOUNDARY \<notin> k ` set p" and "occ k p s = 0"
  shows "occ k p (mark_boundaries u prev s) = 0"
  using assms
proof (induction u prev s rule: mark_boundaries.induct)
  case (2 u prev c cs)
  obtain h t where p: "p = h # t" using \<open>p \<noteq> []\<close> by (cases p) auto
  have "\<not> matches k p (c # mark_boundaries u b cs)" for b
    using 2(4,5) matches_mark [of k t u b cs] by (auto simp: p split: if_splits)
  then show ?case using 2 by (auto simp: p split: if_splits)
qed simp

lemma fold_less [simp]: "fold_cp c = 60 \<longleftrightarrow> c = 60"
  by (simp add: fold_cp_def)

lemma tags: "tag fold_cp OPEN_TAG" "tag id END_TAG"
  by (auto simp: tag_def OPEN_TAG_def END_TAG_def cps_def code_point_def fold_cp_def)

lemma tag_heads: "hd OPEN_TAG = 60" "hd END_TAG = 60" "OPEN_TAG \<noteq> []" "END_TAG \<noteq> []"
  by (simp_all add: OPEN_TAG_def END_TAG_def cps_def code_point_def)

subsection \<open>The body\<close>

lemma body_no_close: "occ id END_TAG (evidence_body_escape s) = 0"
  unfolding evidence_body_escape_def
proof (rule occ_subst [OF tags(2)])
  show "cps ''&#60;EVIDENCE'' \<noteq> []" "id (hd (cps ''&#60;EVIDENCE'')) \<notin> id ` set (tl END_TAG)"
    by (simp_all add: cps_def END_TAG_def code_point_def)
  show "occ id END_TAG (cps ''&#60;EVIDENCE'' @ r) = occ id END_TAG r" for r
    by (rule occ_free) (simp_all add: cps_def END_TAG_def code_point_def)
  show "occ id END_TAG (replace_all END_TAG [60, 92, 47] (replace_all [10, 35] [10, 92, 35] (replace_all [96] [92, 96] s))) = 0
      \<or> fold_cp = id \<and> OPEN_TAG = END_TAG"
    by (rule disjI1, rule occ_subst [OF tags(2)]) (simp_all add: END_TAG_def cps_def code_point_def)
qed

lemma body_no_open: "occ fold_cp OPEN_TAG (evidence_body_escape s) = 0"
  unfolding evidence_body_escape_def
  by (rule occ_subst [OF tags(1)])
    (auto simp: cps_def OPEN_TAG_def code_point_def fold_cp_def)

lemma perturb_occ:
  assumes "tag k p" "k BOUNDARY \<notin> k ` set p" "occ k p s = 0"
  shows "occ k p (perturb_body u s) = 0"
proof -
  have ne: "p \<noteq> []" "k (hd p) \<noteq> k BOUNDARY" "k BOUNDARY \<notin> k ` set (tl p)"
    using assms(1,2) by (cases p; auto simp: tag_def)+
  have "occ k p (replace_all [BOUNDARY] [BOUNDARY, BOUNDARY] s) = 0"
    using ne assms(3) by (intro occ_subst [OF assms(1)]) (auto simp: neq_Nil_conv)
  then show ?thesis unfolding perturb_body_def using ne assms(2) by (intro occ_mark)
qed

lemma boundary_not_in_tags: "fold_cp BOUNDARY \<notin> fold_cp ` set OPEN_TAG" "id BOUNDARY \<notin> id ` set END_TAG"
  by (auto simp: BOUNDARY_def OPEN_TAG_def END_TAG_def cps_def code_point_def fold_cp_def)

lemma envelope_body_occ:
  "occ id END_TAG (envelope_body u perturbation v) = 0"
  "occ fold_cp OPEN_TAG (envelope_body u perturbation v) = 0"
  using body_no_close body_no_open perturb_occ tags boundary_not_in_tags
  by (auto simp: envelope_body_def Let_def)

subsection \<open>The attributes\<close>

lemma subst_one: "set (replace_all [c] new s) \<subseteq> set s - {c} \<union> set new"
  by (induction s) auto

lemma subst_gone: "c \<notin> set new \<Longrightarrow> c \<notin> set (replace_all [c] new s)"
  using subst_one [of c new s] by blast

lemma subst_kept: "d \<notin> set s \<Longrightarrow> d \<notin> set new \<Longrightarrow> d \<notin> set (replace_all [c] new s)"
  using subst_one [of c new s] by blast

lemma attr_escape_safe: "34 \<notin> set (xml_attr_escape s)" "60 \<notin> set (xml_attr_escape s)" "62 \<notin> set (xml_attr_escape s)"
proof -
  have c: "cps ''>'' = [62]" "cps ''<'' = [60]" "cps ''&'' = [38]"
    and n: "34 \<notin> set (cps ''&gt;'')" "60 \<notin> set (cps ''&gt;'')" "62 \<notin> set (cps ''&gt;'')"
    "34 \<notin> set (cps ''&lt;'')" "60 \<notin> set (cps ''&lt;'')" "34 \<notin> set (cps ''&quot;'')"
    by (simp_all add: cps_def code_point_def)
  show "34 \<notin> set (xml_attr_escape s)" "60 \<notin> set (xml_attr_escape s)" "62 \<notin> set (xml_attr_escape s)"
    unfolding xml_attr_escape_def c by (simp_all add: subst_gone subst_kept n)
qed

lemma dec_digits_safe: "set (dec_digits n) \<subseteq> {c. is_digit c}"
proof (induction n rule: dec_digits.induct)
  case (1 n)
  have "is_digit (char_of (48 + m))" if "m < 10" for m :: nat
    using that by (simp add: is_digit_def code_point_def of_char_of take_bit_eq_mod)
  then show ?case using 1 by (subst dec_digits.simps) auto
qed

lemma score_safe: "set (cps (fixed3 x)) \<inter> {34, 60, 62} = {}"
proof -
  have d: "c \<notin> code_point ` set (dec_digits n)" if "c \<in> {34, 60, 62}" for c n
    using dec_digits_safe [of n] that by (force simp: is_digit_def)
  show ?thesis
    using d by (auto simp: fixed3_def pad3_def cps_def Let_def code_point_def)
qed

text \<open>An attribute with a safe value has two quotes and no angle bracket.\<close>

definition plain :: "ucs \<Rightarrow> bool" where
  "plain s \<longleftrightarrow> set s \<inter> {34, 60, 62} = {}"

lemma plain_simps [simp]: "plain []" "plain (c # s) \<longleftrightarrow> c \<notin> {34, 60, 62} \<and> plain s"
  by (auto simp: plain_def)

lemma plain_values:
  "plain (xml_attr_escape s)" "plain (cps (fixed3 x))" "plain (cps (bool_text b))"
  using attr_escape_safe [of s] score_safe [of x]
  by (auto simp: plain_def bool_text_def cps_def code_point_def)

definition attr_ok :: "nat \<Rightarrow> ucs \<Rightarrow> bool" where
  "attr_ok n s \<longleftrightarrow> 60 \<notin> set s \<and> 62 \<notin> set s \<and> count_list s 34 = n"

lemma attr_ok_append: "attr_ok n s \<Longrightarrow> attr_ok m t \<Longrightarrow> attr_ok (n + m) (s @ t)"
  by (simp add: attr_ok_def)

lemma attr_ok_attr: "plain (cps name) \<Longrightarrow> plain v \<Longrightarrow> attr_ok 2 (cps '' '' @ attr name v)"
  by (auto simp: attr_ok_def attr_def plain_def cps_def code_point_def count_list_0_iff)

lemma envelope_attrs_ok:
  "attr_ok (if normalize_attribution_label (ev_attribution v) = None then 14 else 16) (envelope_attrs v)"
proof -
  have names: "plain (cps ''source'')" "plain (cps ''agent'')" "plain (cps ''status'')" "plain (cps ''privacy'')"
    "plain (cps ''score'')" "plain (cps ''instruction_like'')" "plain (cps ''attribution'')" "plain (cps ''visibility'')"
    by (simp_all add: cps_def code_point_def)
  have l: "attr_ok (if normalize_attribution_label (ev_attribution v) = None then 0 else 2)
      (case normalize_attribution_label (ev_attribution v) of
          None \<Rightarrow> [] | Some l \<Rightarrow> cps '' '' @ attr ''attribution'' (xml_attr_escape (cps l)))"
    using attr_ok_attr names plain_values by (auto simp: attr_ok_def split: option.split)
  note ok = attr_ok_attr [OF names(1) plain_values(1), of "ev_source v"]
    attr_ok_attr [OF names(2) plain_values(1), of "ev_agent v"]
    attr_ok_attr [OF names(3) plain_values(1), of "ev_status v"]
    attr_ok_attr [OF names(4) plain_values(1), of "ev_privacy v"]
    attr_ok_attr [OF names(5) plain_values(2), of "ev_score v"]
    attr_ok_attr [OF names(6) plain_values(3), of "ev_flag v"]
    attr_ok_attr [OF names(8) plain_values(1), of "ev_visibility v"]
  show ?thesis
    using attr_ok_append [OF ok(1) attr_ok_append [OF ok(2) attr_ok_append [OF ok(3) attr_ok_append [OF ok(4)
      attr_ok_append [OF ok(5) attr_ok_append [OF ok(6) attr_ok_append [OF l ok(7)]]]]]]]
    by (cases "normalize_attribution_label (ev_attribution v)") (simp_all add: envelope_attrs_def)
qed

subsection \<open>The envelope\<close>

lemma envelope_parts:
  assumes "tag k p" "k (hd p) = k 60" and "p = 60 # t" "k 60 \<notin> k ` set (drop 1 OPEN_TAG @ attrs @ [62])"
  shows "occ k p (OPEN_TAG @ attrs @ [62] @ body @ 60 # rest)
    = (if matches k p (OPEN_TAG @ attrs @ [62] @ body @ 60 # rest) then 1 else 0) + occ k p body + occ k p (60 # rest)"
proof -
  have o: "OPEN_TAG = 60 # drop 1 OPEN_TAG" by (simp add: OPEN_TAG_def cps_def code_point_def)
  have "occ k p ((drop 1 OPEN_TAG @ attrs @ [62]) @ body @ 60 # rest) = occ k p (body @ 60 # rest)"
    using assms by (intro occ_free) auto
  also have "\<dots> = occ k p body + occ k p (60 # rest)"
    using assms by (intro occ_split) auto
  finally have r: "occ k p ((drop 1 OPEN_TAG @ attrs @ [62]) @ body @ 60 # rest) = occ k p body + occ k p (60 # rest)" .
  have e: "OPEN_TAG @ attrs @ [62] @ body @ 60 # rest = 60 # (drop 1 OPEN_TAG @ attrs @ [62]) @ body @ 60 # rest"
    using o by (metis append_Cons append_assoc)
  show ?thesis unfolding e occ.simps(2) r by simp
qed

lemma CLOSER: "cps ''</EVIDENCE>'' = 60 # cps ''/EVIDENCE>''"
  by (simp add: cps_def code_point_def)

text \<open>
  C13. However hostile the path, agent, status and text are, an evidence envelope has one
  opening tag, one closing tag, no angle bracket among its attributes and exactly two quotes
  for each of its attributes.
\<close>

theorem envelope_unforgeable:
  "let e = build_evidence_envelope u perturbation v; l = normalize_attribution_label (ev_attribution v)
   in occ fold_cp OPEN_TAG e = 1 \<and> occ id END_TAG e = 1
    \<and> (\<exists>attrs body. e = OPEN_TAG @ attrs @ cps ''>'' @ body @ cps ''</EVIDENCE>''
        \<and> 60 \<notin> set attrs \<and> 62 \<notin> set attrs \<and> count_list attrs 34 = (if l = None then 14 else 16))"
proof -
  let ?a = "envelope_attrs v" and ?b = "envelope_body u perturbation v"
  let ?e = "OPEN_TAG @ ?a @ [62] @ ?b @ 60 # cps ''/EVIDENCE>''"
  have e: "build_evidence_envelope u perturbation v = ?e"
    unfolding build_evidence_envelope_def CLOSER by (simp add: cps_def code_point_def)
  have a: "60 \<notin> set ?a" "62 \<notin> set ?a" using envelope_attrs_ok [of v] by (simp_all add: attr_ok_def)
  have o: "60 \<notin> set (drop 1 OPEN_TAG)" by (simp add: OPEN_TAG_def cps_def code_point_def)
  have "occ fold_cp OPEN_TAG ?e = (if matches fold_cp OPEN_TAG ?e then 1 else 0) + occ fold_cp OPEN_TAG ?b
      + occ fold_cp OPEN_TAG (60 # cps ''/EVIDENCE>'')"
    by (rule envelope_parts [OF tags(1), where t = "drop 1 OPEN_TAG"])
      (use a o in \<open>auto simp: tag_heads OPEN_TAG_def cps_def code_point_def fold_cp_def\<close>)
  also have "\<dots> = 1"
    unfolding envelope_body_occ by (simp add: OPEN_TAG_def cps_def code_point_def fold_cp_def)
  finally have 1: "occ fold_cp OPEN_TAG ?e = 1" .
  have "occ id END_TAG ?e = (if matches id END_TAG ?e then 1 else 0) + occ id END_TAG ?b + occ id END_TAG (60 # cps ''/EVIDENCE>'')"
    by (rule envelope_parts [OF tags(2), where t = "drop 1 END_TAG"])
      (use a o in \<open>auto simp: tag_heads END_TAG_def cps_def code_point_def\<close>)
  also have "\<dots> = 1"
    unfolding envelope_body_occ by (simp add: OPEN_TAG_def END_TAG_def cps_def code_point_def)
  finally have 2: "occ id END_TAG ?e = 1" .
  have 3: "?e = OPEN_TAG @ ?a @ cps ''>'' @ ?b @ cps ''</EVIDENCE>''"
    unfolding CLOSER by (simp add: cps_def code_point_def)
  show ?thesis
    unfolding Let_def e using 1 2 3 envelope_attrs_ok [of v] unfolding attr_ok_def by blast
qed

section \<open>The perturbation can be undone\<close>

lemma subst_pair: "replace_all [b, b] new (b # b # s) = new @ replace_all [b, b] new s"
  by simp

lemma subst_other: "c \<noteq> b \<Longrightarrow> replace_all (b # p) new (c # s) = c # replace_all (b # p) new s"
  by simp

lemma subst_lone: "c \<noteq> b \<Longrightarrow> replace_all [b, b] new (b # c # s) = b # c # replace_all [b, b] new s"
  by simp

lemma subst_drop: "replace_all [b] [] (b # s) = replace_all [b] [] s"
  by simp

lemma subst_append_other: "b \<notin> set xs \<Longrightarrow> replace_all [b] new (xs @ s) = xs @ replace_all [b] new s"
  by (induction xs) auto

definition coded :: "ucs \<Rightarrow> ucs" where
  "coded s = concat (map (\<lambda>c. if c = BOUNDARY then PLACEHOLDER else [c]) s)"

lemma placeholder_no_boundary: "BOUNDARY \<notin> set PLACEHOLDER"
  by (simp add: BOUNDARY_def PLACEHOLDER_def cps_def code_point_def)

lemma unmark:
  assumes "\<not> space_cp u BOUNDARY"
  shows "replace_all [BOUNDARY] [] (replace_all [BOUNDARY, BOUNDARY] PLACEHOLDER
     (mark_boundaries u prev (replace_all [BOUNDARY] [BOUNDARY, BOUNDARY] s))) = coded s"
proof (induction s arbitrary: prev)
  case Nil
  then show ?case by (simp add: coded_def)
next
  case (Cons c s)
  show ?case
  proof (cases "c = BOUNDARY")
    case True
    have "mark_boundaries u prev (replace_all [BOUNDARY] [BOUNDARY, BOUNDARY] (c # s))
        = BOUNDARY # BOUNDARY # mark_boundaries u (word_cp u BOUNDARY) (replace_all [BOUNDARY] [BOUNDARY, BOUNDARY] s)"
      using assms by (simp add: True)
    then show ?thesis
      using Cons.IH subst_append_other [OF placeholder_no_boundary]
      by (simp only: subst_pair) (simp add: coded_def True)
  next
    case False
    define rest where "rest = mark_boundaries u (word_cp u c) (replace_all [BOUNDARY] [BOUNDARY, BOUNDARY] s)"
    define all where "all = mark_boundaries u prev (replace_all [BOUNDARY] [BOUNDARY, BOUNDARY] (c # s))"
    have "all = c # rest \<or> all = BOUNDARY # c # rest" using False by (simp add: all_def rest_def)
    moreover have "replace_all [BOUNDARY] [] (replace_all [BOUNDARY, BOUNDARY] PLACEHOLDER rest) = coded s"
      unfolding rest_def by (rule Cons.IH)
    moreover have "coded (c # s) = c # coded s" using False by (simp add: coded_def)
    ultimately show ?thesis
      unfolding all_def [symmetric] by (elim disjE) (simp_all only: subst_other [OF False] subst_lone [OF False] subst_drop)
  qed
qed

lemma subst_prefix: "p \<noteq> [] \<Longrightarrow> replace_all p new (p @ s) = new @ replace_all p new s"
  by (cases p) (auto simp: matches_def)

lemma decode: "0 \<notin> set s \<Longrightarrow> replace_all PLACEHOLDER [BOUNDARY] (coded s) = s"
proof (induction s)
  case (Cons c s)
  have p: "PLACEHOLDER = 0 # drop 1 PLACEHOLDER" by (simp add: PLACEHOLDER_def)
  show ?case
  proof (cases "c = BOUNDARY")
    case True
    have "coded (c # s) = PLACEHOLDER @ coded s" by (simp add: coded_def True)
    moreover have ne: "PLACEHOLDER \<noteq> []" by (simp add: PLACEHOLDER_def)
    ultimately have "replace_all PLACEHOLDER [BOUNDARY] (coded (c # s)) = [BOUNDARY] @ replace_all PLACEHOLDER [BOUNDARY] (coded s)"
      by (simp only: subst_prefix [OF ne])
    then show ?thesis using Cons.IH Cons.prems True by (metis append_Cons append_Nil list.set_intros(2))
  next
    case False
    then have "coded (c # s) = c # coded s" by (simp add: coded_def)
    then show ?thesis using Cons by (metis subst_other list.set_intros(1,2) p)
  qed
qed (simp add: coded_def)

text \<open>
  C28. Recovering a perturbed body gives back the body, also when it holds the invisible
  separator itself, as long as it has no NUL character.
\<close>

theorem perturbation_roundtrip:
  assumes "0 \<notin> set s" and "\<not> space_cp u BOUNDARY"
  shows "recover_body (perturb_body u s) = s"
  unfolding recover_body_def perturb_body_def unmark [OF assms(2)] by (rule decode [OF assms(1)])

text \<open>Python's tables, as far as the examples need them.\<close>

definition demo_ucd :: ucd where
  "demo_ucd = \<lparr>ucd_word = (\<lambda>_. False), ucd_space = (\<lambda>_. False)\<rparr>"

theorem perturbation_roundtrip_witness:
  "perturb_body demo_ucd (cps ''ignore all'') = cps ''ignore'' @ [BOUNDARY] @ cps '' all''
    \<and> recover_body (perturb_body demo_ucd (cps ''ignore all'')) = cps ''ignore all''"
proof -
  have "perturb_body demo_ucd (cps ''ignore all'') = cps ''ignore'' @ [BOUNDARY] @ cps '' all''"
    by (simp add: perturb_body_def cps_def code_point_def demo_ucd_def BOUNDARY_def space_cp_def word_cp_def
        py_space_def is_word_char_def in_ranges_def word_ranges_def)
  moreover have "0 \<notin> set (cps ''ignore all'')" by (simp add: cps_def code_point_def)
  moreover have "\<not> space_cp demo_ucd BOUNDARY" by (simp add: space_cp_def demo_ucd_def BOUNDARY_def)
  ultimately show ?thesis using perturbation_roundtrip by blast
qed

text \<open>A text that holds the placeholder of the recovery does not come back.\<close>

theorem perturbation_loses_placeholder:
  "recover_body (perturb_body u PLACEHOLDER) = [BOUNDARY]"
proof -
  have "perturb_body u PLACEHOLDER = PLACEHOLDER"
    by (simp add: perturb_body_def PLACEHOLDER_def BOUNDARY_def cps_def code_point_def space_cp_def
        py_space_def is_word_char_def)
  then show ?thesis
    by (simp add: recover_body_def PLACEHOLDER_def BOUNDARY_def cps_def code_point_def)
qed

section \<open>The snippet tier cuts the closing tag off\<close>

lemma occ_take: "occ k p s = 0 \<Longrightarrow> p \<noteq> [] \<Longrightarrow> occ k p (take n s) = 0"
proof (induction s arbitrary: n)
  case (Cons c cs)
  have "matches k p (c # cs)" if "matches k p (take n (c # cs))"
    using that by (auto simp: matches_def min_def take_map [symmetric] split: if_splits)
  then show ?case using Cons by (cases n) (auto split: if_splits)
qed simp

lemma take_upto: "n \<le> length (xs @ [y]) \<Longrightarrow> take n (xs @ y # zs) = take n (xs @ [y])"
  using take_append [of n "xs @ [y]" zs] by simp

theorem snippet_cuts_closing_tag:
  assumes "SNIPPET_MAX_CHARS + 10 \<le> length (build_evidence_envelope u perturbation v)"
  shows "occ id END_TAG (snippet_text (build_evidence_envelope u perturbation v)) = 0
    \<and> matches fold_cp OPEN_TAG (snippet_text (build_evidence_envelope u perturbation v))"
proof -
  let ?a = "envelope_attrs v" and ?b = "envelope_body u perturbation v"
  let ?front = "OPEN_TAG @ ?a @ [62] @ ?b"
  have e: "build_evidence_envelope u perturbation v = ?front @ 60 # cps ''/EVIDENCE>''"
    unfolding build_evidence_envelope_def CLOSER by (simp add: cps_def code_point_def)
  have len: "length (60 # cps ''/EVIDENCE>'') = 11" by (simp add: cps_def)
  have big: "SNIPPET_MAX_CHARS \<le> length (?front @ [60])" "SNIPPET_MAX_CHARS < length (build_evidence_envelope u perturbation v)"
    using assms len unfolding e by simp_all
  have "take SNIPPET_MAX_CHARS (?front @ 60 # cps ''/EVIDENCE>'') = take SNIPPET_MAX_CHARS (?front @ [60])"
    by (rule take_upto [OF big(1)])
  then have s: "snippet_text (build_evidence_envelope u perturbation v) = take SNIPPET_MAX_CHARS (?front @ [60]) @ [0x2026]"
    using big(2) unfolding e by (simp add: snippet_text_def)
  have "60 \<notin> set (drop 1 OPEN_TAG @ ?a @ [62])"
    using envelope_attrs_ok [of v] by (simp add: attr_ok_def OPEN_TAG_def cps_def code_point_def)
  then have "occ id END_TAG (OPEN_TAG @ ?a @ [62] @ ?b @ 60 # [])
      = (if matches id END_TAG (OPEN_TAG @ ?a @ [62] @ ?b @ 60 # []) then 1 else 0) + occ id END_TAG ?b + occ id END_TAG (60 # [])"
    by (intro envelope_parts [OF tags(2), where t = "drop 1 END_TAG"]) (auto simp: END_TAG_def cps_def code_point_def)
  moreover have "\<not> matches id END_TAG (OPEN_TAG @ x)" "occ id END_TAG [60] = 0" for x
    by (simp_all add: OPEN_TAG_def END_TAG_def cps_def code_point_def)
  ultimately have "occ id END_TAG (?front @ [60]) = 0" by (simp add: envelope_body_occ)
  then have t: "occ id END_TAG (take SNIPPET_MAX_CHARS (?front @ [60])) = 0"
    by (rule occ_take) (rule tag_heads)
  have app: "occ id END_TAG (xs @ [0x2026]) = occ id END_TAG xs + occ id END_TAG [0x2026]" for xs
  proof (induction xs)
    case (Cons x xs)
    then show ?case by (cases xs) (auto simp: END_TAG_def cps_def code_point_def)
  qed simp
  have "occ id END_TAG [0x2026] = 0" by (simp add: END_TAG_def cps_def code_point_def)
  then have "occ id END_TAG (snippet_text (build_evidence_envelope u perturbation v)) = 0" unfolding s app t by simp
  moreover have "matches fold_cp OPEN_TAG (snippet_text (build_evidence_envelope u perturbation v))"
    unfolding s by (simp add: SNIPPET_MAX_CHARS_def OPEN_TAG_def cps_def)
  ultimately show ?thesis by blast
qed

definition demo_evidence :: "string \<Rightarrow> evidence" where
  "demo_evidence t = \<lparr>ev_source = cps ''/v/a.md'', ev_agent = cps ''codex'', ev_status = cps ''accepted'',
     ev_privacy = cps ''safe'', ev_score = 1 / 2, ev_flag = False, ev_visibility = cps ''authorized'',
     ev_text = cps t, ev_attribution = None\<rparr>"

lemma escape_grows: "length s \<le> length (subst_all k p new s)" if "length p \<le> length new" "p \<noteq> []"
proof (induction "length s" arbitrary: s rule: less_induct)
  case less
  show ?case
  proof (cases s)
    case (Cons c cs)
    have "length (drop (length p - 1) cs) \<le> length (subst_all k p new (drop (length p - 1) cs))"
      "length cs \<le> length (subst_all k p new cs)"
      by (intro less.hyps; simp add: Cons)+
    then show ?thesis using that by (auto simp: Cons neq_Nil_conv)
  qed simp
qed

lemma body_grows: "length s \<le> length (evidence_body_escape s)"
proof -
  have l: "length [96 :: nat] \<le> length [92, 96 :: nat]" "length [10, 35 :: nat] \<le> length [10, 92, 35 :: nat]"
    "length END_TAG \<le> length [60, 92, 47 :: nat]" "length OPEN_TAG \<le> length (cps ''&#60;EVIDENCE'')"
    by (simp_all add: END_TAG_def OPEN_TAG_def cps_def)
  show ?thesis
    unfolding evidence_body_escape_def
    by (rule le_trans [OF escape_grows [OF l(1)] le_trans [OF escape_grows [OF l(2)]
          le_trans [OF escape_grows [OF l(3)] escape_grows [OF l(4)]]]]) (simp_all add: tag_heads)
qed

theorem snippet_cuts_closing_tag_witness:
  "occ id END_TAG (snippet_text (build_evidence_envelope u True (demo_evidence (replicate 300 (CHR ''a''))))) = 0"
proof -
  have "300 \<le> length (envelope_body u True (demo_evidence (replicate 300 (CHR ''a''))))"
    using body_grows [of "cps (replicate 300 (CHR ''a''))"]
    by (simp add: envelope_body_def demo_evidence_def) (simp add: cps_def)
  then have "SNIPPET_MAX_CHARS + 10 \<le> length (build_evidence_envelope u True (demo_evidence (replicate 300 (CHR ''a''))))"
    by (simp add: build_evidence_envelope_def SNIPPET_MAX_CHARS_def)
  then show ?thesis using snippet_cuts_closing_tag by blast
qed

end
