(* ===== verification/Trace.thy ===== *)
theory Trace
  imports Dispatch Redaction "HOL-Library.AList"
begin

text \<open>
  \<^verbatim>\<open>src/minni/trace.py\<close> and \<^verbatim>\<open>handle_trace\<close> of \<^verbatim>\<open>src/minni/minnid_runtime/recall.py\<close>: the
  bounded ring of query traces, and who may read one.  The size of an entry (\<^verbatim>\<open>json.dumps\<close>) and
  the random ids are parameters; \<open>draws\<close> are the ids the generator yields.
\<close>

section \<open>The ring\<close>

record trace_ring =
  tr_capacity :: nat
  tr_max :: nat
  tr_entries :: "(string \<times> jobj) list"       \<comment> \<open>oldest first\<close>
  tr_sizes :: "(string \<times> nat) list"
  tr_bytes :: int

definition OWNER :: string where
  "OWNER = ''_owner''"

definition new_ring :: "nat \<Rightarrow> nat \<Rightarrow> trace_ring" where
  "new_ring capacity max_bytes =
     \<lparr>tr_capacity = capacity, tr_max = max_bytes, tr_entries = [], tr_sizes = [], tr_bytes = 0\<rparr>"

definition size_at :: "(string \<times> nat) list \<Rightarrow> string \<Rightarrow> nat" where
  "size_at sizes i = (case map_of sizes i of None \<Rightarrow> 0 | Some n \<Rightarrow> n)"

definition with_owner :: "string option \<Rightarrow> jobj \<Rightarrow> jobj" where
  "with_owner owner e = (case owner of None \<Rightarrow> e | Some a \<Rightarrow> AList.update OWNER (JStr a) e)"

definition pop_oldest :: "trace_ring \<Rightarrow> trace_ring" where
  "pop_oldest r =
     (case tr_entries r of
        [] \<Rightarrow> r
      | (i, _) # rest \<Rightarrow> r\<lparr>tr_entries := rest, tr_bytes := tr_bytes r - int (size_at (tr_sizes r) i),
                            tr_sizes := AList.delete i (tr_sizes r)\<rparr>)"

function trim_ring :: "trace_ring \<Rightarrow> trace_ring" where
  "trim_ring r =
     (if tr_entries r \<noteq> [] \<and> (tr_capacity r < length (tr_entries r) \<or> int (tr_max r) < tr_bytes r \<and> 1 < length (tr_entries r))
      then trim_ring (pop_oldest r) else r)"
  by pat_completeness auto
termination
  by (relation "measure (\<lambda>r. length (tr_entries r))") (auto simp: pop_oldest_def split: list.split)

declare trim_ring.simps [simp del]

definition entry_too_large :: "string \<Rightarrow> jobj \<Rightarrow> jobj" where
  "entry_too_large i e =
     [(''trace_id'', JStr i), (''degraded'', JBool True), (''reason'', JStr ''trace entry exceeded max_bytes''),
      (''query'', jget e ''query''), (''timing'', jget_or (JObj []) e ''timing''),
      (''final_ordering'', jget_or (JList []) e ''final_ordering'')]"

definition stored_entry :: "(jobj \<Rightarrow> nat) \<Rightarrow> nat \<Rightarrow> string \<Rightarrow> string option \<Rightarrow> jobj \<Rightarrow> jobj" where
  "stored_entry size_of max_bytes i owner e =
     (let full = with_owner owner (AList.update ''trace_id'' (JStr i) e)
      in if max_bytes < size_of full then with_owner owner (entry_too_large i e) else full)"

definition put_trace ::
  "(jobj \<Rightarrow> nat) \<Rightarrow> string \<Rightarrow> jobj \<Rightarrow> string option \<Rightarrow> trace_ring \<Rightarrow> trace_ring" where
  "put_trace size_of i e owner r =
     (let s = stored_entry size_of (tr_max r) i owner e; n = size_of s;
          freed = (if i \<in> fst ` set (tr_entries r) then size_at (tr_sizes r) i else 0)
      in trim_ring (r\<lparr>tr_entries := AList.update i s (tr_entries r), tr_sizes := AList.update i n (tr_sizes r),
                      tr_bytes := tr_bytes r - int freed + int n\<rparr>))"

definition add_trace ::
  "(jobj \<Rightarrow> nat) \<Rightarrow> string list \<Rightarrow> jobj \<Rightarrow> string option \<Rightarrow> trace_ring \<Rightarrow> (string \<times> trace_ring) option" where
  "add_trace size_of draws e owner r =
     map_option (\<lambda>i. (i, put_trace size_of i e owner r)) (List.find (\<lambda>i. i \<notin> fst ` set (tr_entries r)) draws)"

definition may_see :: "string option \<Rightarrow> jobj \<Rightarrow> bool" where
  "may_see requester e \<longleftrightarrow>
     (case (map_of e OWNER, requester) of
        (Some owner, Some a) \<Rightarrow> owner = JNull \<or> owner = JStr a
      | _ \<Rightarrow> True)"

definition get_trace :: "string \<Rightarrow> string option \<Rightarrow> trace_ring \<Rightarrow> jobj option \<times> trace_ring" where
  "get_trace i requester r =
     (case map_of (tr_entries r) i of
        None \<Rightarrow> (None, r)
      | Some e \<Rightarrow>
          (if may_see requester e
           then (Some (AList.delete OWNER e), r\<lparr>tr_entries := AList.delete i (tr_entries r) @ [(i, e)]\<rparr>)
           else (None, r)))"

section \<open>\<^verbatim>\<open>handle_trace\<close>\<close>

definition trace_answer :: "json \<Rightarrow> json \<Rightarrow> string \<Rightarrow> json" where
  "trace_answer tid body status =
     JObj [(''trace_id'', tid), (''trace'', body), (''status'', JStr status), (''ephemeral'', JBool True)]"

text \<open>A lookup in the ring cannot raise; \<open>not_found\<close> also stands for a trace of someone else.\<close>

definition handle_trace :: "gate \<Rightarrow> trace_ring handler" where
  "handle_trace g params rid r =
     (case handler_principal g params rid ''agent_id'' of
        Inl exc \<Rightarrow> (Inl exc, r)
      | Inr (Inl err) \<Rightarrow> (Inr err, r)
      | Inr (Inr p) \<Rightarrow>
          (let tid = jget (cp_wire params) ''trace_id''
           in if \<not> truthy tid then (Inr (make_error (-32602) ''trace_id is required'' rid JNull), r)
              else let (got, r') = get_trace (py_str tid) (Some (p_agent_id p)) r
                   in (Inr (make_response (case got of
                         None \<Rightarrow> trace_answer tid JNull ''not_found''
                       | Some e \<Rightarrow> trace_answer tid (fst (redact_value (JObj e))) ''ok'') rid), r')))"

section \<open>The ring stays well formed\<close>

definition ring_wf :: "trace_ring \<Rightarrow> bool" where
  "ring_wf r \<longleftrightarrow> distinct (map fst (tr_entries r)) \<and> distinct (map fst (tr_sizes r))
     \<and> fst ` set (tr_sizes r) = fst ` set (tr_entries r)
     \<and> tr_bytes r = int (sum_list (map snd (tr_sizes r)))"

definition within_bounds :: "trace_ring \<Rightarrow> bool" where
  "within_bounds r \<longleftrightarrow> length (tr_entries r) \<le> tr_capacity r
     \<and> (tr_bytes r \<le> int (tr_max r) \<or> length (tr_entries r) \<le> 1)"

lemma delete_dom: "fst ` set (AList.delete i xs) = fst ` set xs - {i}"
  by (metis AList.delete_keys set_removeAll set_map)

lemma size_absent: "i \<notin> fst ` set xs \<Longrightarrow> size_at xs i = 0"
  by (simp add: size_at_def map_of_eq_None_iff [THEN iffD2])

lemma sum_delete:
  "distinct (map fst xs) \<Longrightarrow> sum_list (map snd (AList.delete i xs)) + size_at xs i = sum_list (map snd xs)"
proof (induction xs)
  case (Cons x xs)
  obtain k n where x: "x = (k, n)" by (cases x)
  have "AList.delete k xs = xs" "size_at xs k = 0" if "k = i"
    using Cons.prems x by (simp_all add: size_absent AList.delete_id)
  then show ?case using Cons by (auto simp: x size_at_def)
qed (simp add: size_at_def)

lemma sum_update:
  "distinct (map fst xs) \<Longrightarrow> sum_list (map snd (AList.update i n xs)) + size_at xs i = sum_list (map snd xs) + n"
proof (induction xs)
  case (Cons x xs)
  then show ?case by (cases x) (auto simp: size_at_def)
qed (simp add: size_at_def)

lemma pop_wf: "ring_wf r \<Longrightarrow> ring_wf (pop_oldest r)"
proof (cases "tr_entries r")
  case (Cons x rest)
  obtain i e where x: "x = (i, e)" by (cases x)
  assume wf: "ring_wf r"
  have "sum_list (map snd (AList.delete i (tr_sizes r))) + size_at (tr_sizes r) i = sum_list (map snd (tr_sizes r))"
    using wf by (intro sum_delete) (simp add: ring_wf_def)
  then show ?thesis
    using wf unfolding ring_wf_def
    by (auto simp: pop_oldest_def Cons x distinct_delete delete_dom)
qed (simp add: pop_oldest_def)

lemma pop_fields [simp]: "tr_capacity (pop_oldest r) = tr_capacity r" "tr_max (pop_oldest r) = tr_max r"
  "length (tr_entries (pop_oldest r)) = length (tr_entries r) - 1"
  by (auto simp: pop_oldest_def split: list.split)

text \<open>Trimming is repeated popping.\<close>

lemma trim_induct:
  assumes step: "\<And>r. tr_entries r \<noteq> [] \<Longrightarrow> P r \<Longrightarrow> P (pop_oldest r)"
  shows "P r \<Longrightarrow> P (trim_ring r)"
proof (induction r rule: trim_ring.induct)
  case (1 r)
  then show ?case using step by (subst trim_ring.simps) simp
qed

lemma trim_bounds: "within_bounds (trim_ring r)"
proof (induction r rule: trim_ring.induct)
  case (1 r)
  show ?case
  proof (cases "tr_entries r \<noteq> [] \<and> (tr_capacity r < length (tr_entries r)
      \<or> int (tr_max r) < tr_bytes r \<and> 1 < length (tr_entries r))")
    case True
    have "trim_ring r = trim_ring (pop_oldest r)" by (subst trim_ring.simps) (rule if_P [OF True])
    then show ?thesis using 1 [OF True] by simp
  next
    case False
    have "trim_ring r = r" by (subst trim_ring.simps) (rule if_not_P [OF False])
    moreover have "within_bounds r" using False by (cases "tr_entries r") (auto simp: within_bounds_def)
    ultimately show ?thesis by simp
  qed
qed

lemma put_base_wf:
  assumes "ring_wf r"
  shows "ring_wf (r\<lparr>tr_entries := AList.update i s (tr_entries r), tr_sizes := AList.update i n (tr_sizes r),
           tr_bytes := tr_bytes r - int (if i \<in> fst ` set (tr_entries r) then size_at (tr_sizes r) i else 0) + int n\<rparr>)"
proof -
  have "sum_list (map snd (AList.update i n (tr_sizes r))) + size_at (tr_sizes r) i = sum_list (map snd (tr_sizes r)) + n"
    using assms by (intro sum_update) (simp add: ring_wf_def)
  moreover have "size_at (tr_sizes r) i = 0" if "i \<notin> fst ` set (tr_entries r)"
    using that assms by (simp add: ring_wf_def size_absent)
  ultimately show ?thesis using assms by (auto simp: ring_wf_def distinct_update dom_update)
qed

lemma get_keys:
  assumes "map_of (tr_entries r) i = Some e"
  shows "fst ` set (AList.delete i (tr_entries r) @ [(i, e)]) = fst ` set (tr_entries r)"
  using assms by (auto simp: delete_dom) (metis domI dom_map_of_conv_image_fst imageI fst_conv)

lemma get_ring:
  obtains "snd (get_trace i requester r) = r"
  | e where "map_of (tr_entries r) i = Some e"
      "snd (get_trace i requester r) = r\<lparr>tr_entries := AList.delete i (tr_entries r) @ [(i, e)]\<rparr>"
proof (cases "map_of (tr_entries r) i")
  case None
  then show ?thesis using that(1) by (simp add: get_trace_def)
next
  case (Some e)
  then show ?thesis using that by (cases "may_see requester e") (simp_all add: get_trace_def)
qed

lemma put_wf: "ring_wf r \<Longrightarrow> ring_wf (put_trace size_of i e owner r)"
  unfolding put_trace_def Let_def by (rule trim_induct [OF pop_wf put_base_wf])

lemma get_ring_wf: "ring_wf r \<Longrightarrow> ring_wf (snd (get_trace i requester r))"
proof (rule get_ring [of i requester r])
  fix e
  assume wf: "ring_wf r" and e: "map_of (tr_entries r) i = Some e"
    and r: "snd (get_trace i requester r) = r\<lparr>tr_entries := AList.delete i (tr_entries r) @ [(i, e)]\<rparr>"
  have "distinct (map fst (AList.delete i (tr_entries r) @ [(i, e)]))"
    using wf by (simp add: ring_wf_def distinct_delete delete_dom)
  then show "ring_wf (snd (get_trace i requester r))"
    using wf get_keys [OF e] unfolding r ring_wf_def by simp
qed simp

lemma get_length: "ring_wf r \<Longrightarrow> length (tr_entries (snd (get_trace i requester r))) = length (tr_entries r)"
proof (rule get_ring [of i requester r])
  fix e
  assume wf: "ring_wf r" and e: "map_of (tr_entries r) i = Some e"
    and r: "snd (get_trace i requester r) = r\<lparr>tr_entries := AList.delete i (tr_entries r) @ [(i, e)]\<rparr>"
  have "card (fst ` set (tr_entries (snd (get_trace i requester r)))) = card (fst ` set (tr_entries r))"
    unfolding r using get_keys [OF e] by simp
  moreover have "length (tr_entries q) = card (fst ` set (tr_entries q))" if "ring_wf q" for q
    using that by (metis distinct_card length_map ring_wf_def set_map)
  ultimately show ?thesis using wf get_ring_wf [OF wf, of i requester] by simp
qed simp

text \<open>
  C29. The trace ring keeps its type invariant under storing and reading: ids are unique,
  every entry has a size and the byte count is their sum; after storing it is within its
  capacity and its byte bound, a single entry excepted.
\<close>

theorem ring_stays_wf:
  assumes "ring_wf r"
  shows "ring_wf (put_trace size_of i e owner r) \<and> within_bounds (put_trace size_of i e owner r)
    \<and> ring_wf (snd (get_trace i requester r)) \<and> (within_bounds r \<longrightarrow> within_bounds (snd (get_trace i requester r)))"
proof -
  have "within_bounds (put_trace size_of i e owner r)"
    unfolding put_trace_def Let_def by (rule trim_bounds)
  moreover have "tr_capacity (snd (get_trace i requester r)) = tr_capacity r"
    "tr_bytes (snd (get_trace i requester r)) = tr_bytes r" "tr_max (snd (get_trace i requester r)) = tr_max r"
    by (simp_all add: get_trace_def split: option.split)
  ultimately show ?thesis
    using put_wf [OF assms] get_ring_wf [OF assms] get_length [OF assms, of i requester] by (simp add: within_bounds_def)
qed

theorem ring_stays_wf_witness:
  "ring_wf (put_trace length ''t1'' [] (Some ''codex'') (new_ring 2 100))
    \<and> within_bounds (put_trace length ''t1'' [] (Some ''codex'') (new_ring 2 100))"
proof -
  have "ring_wf (new_ring 2 100)" by (simp add: ring_wf_def new_ring_def)
  from ring_stays_wf [OF this] show ?thesis by blast
qed

section \<open>A trace is read by its owner only\<close>

text \<open>What a store of owned entries promises, and what follows over any history.\<close>

locale owned_store =
  fixes good :: "'s \<Rightarrow> bool" and step :: "'op \<Rightarrow> 's \<Rightarrow> 's"
    and owned :: "'i \<Rightarrow> 'a \<Rightarrow> 's \<Rightarrow> bool" and writes :: "'op \<Rightarrow> 'i \<Rightarrow> bool"
  assumes good_step: "good s \<Longrightarrow> good (step op s)"
    and owned_step: "good s \<Longrightarrow> owned i a s \<Longrightarrow> \<not> writes op i \<Longrightarrow> owned i a (step op s)"
begin

lemma owned_run:
  "good s \<Longrightarrow> owned i a s \<Longrightarrow> \<forall>op \<in> set ops. \<not> writes op i
    \<Longrightarrow> good (fold step ops s) \<and> owned i a (fold step ops s)"
  by (induction ops arbitrary: s) (auto intro: good_step owned_step)

end

datatype ring_op = Put "jobj \<Rightarrow> nat" string jobj "string option" | Get string "string option"

fun ring_step :: "ring_op \<Rightarrow> trace_ring \<Rightarrow> trace_ring" where
  "ring_step (Put size_of i e owner) r = put_trace size_of i e owner r"
| "ring_step (Get i requester) r = snd (get_trace i requester r)"

fun ring_rewrites :: "ring_op \<Rightarrow> string \<Rightarrow> bool" where
  "ring_rewrites (Put _ j _ _) i \<longleftrightarrow> j = i"
| "ring_rewrites (Get _ _) i \<longleftrightarrow> False"

definition entry_owned :: "string \<Rightarrow> string \<Rightarrow> trace_ring \<Rightarrow> bool" where
  "entry_owned i a r \<longleftrightarrow> (\<forall>e. map_of (tr_entries r) i = Some e \<longrightarrow> map_of e OWNER = Some (JStr a))"

lemma pop_owned: "ring_wf r \<and> entry_owned i a r \<Longrightarrow> ring_wf (pop_oldest r) \<and> entry_owned i a (pop_oldest r)"
proof
  assume r: "ring_wf r \<and> entry_owned i a r"
  then show "ring_wf (pop_oldest r)" by (simp add: pop_wf)
  show "entry_owned i a (pop_oldest r)"
  proof (cases "tr_entries r")
    case (Cons x rest)
    then have "map_of rest (fst x) = None"
      using r by (cases x) (simp add: ring_wf_def map_of_eq_None_iff)
    then have "map_of rest i = Some e \<Longrightarrow> map_of (tr_entries r) i = Some e" for e
      using Cons by (cases x) auto
    then show ?thesis using r Cons by (cases x) (simp add: entry_owned_def pop_oldest_def)
  qed (use r in \<open>simp add: pop_oldest_def\<close>)
qed

lemma put_owned:
  assumes "ring_wf r" and "entry_owned i a r \<and> j \<noteq> i \<or> j = i \<and> owner = Some a"
  shows "entry_owned i a (put_trace size_of j e owner r)"
proof -
  let ?s = "stored_entry size_of (tr_max r) j owner e"
  have "entry_owned i a (r\<lparr>tr_entries := AList.update j ?s (tr_entries r), tr_sizes := sz, tr_bytes := b\<rparr>)" for sz b
    using assms(2) by (auto simp: entry_owned_def update_conv' stored_entry_def with_owner_def Let_def)
  then show ?thesis
    unfolding put_trace_def Let_def
    using trim_induct [where P = "\<lambda>r. ring_wf r \<and> entry_owned i a r", OF pop_owned] put_base_wf [OF assms(1)] by blast
qed

lemma get_owned: "entry_owned i a r \<Longrightarrow> ring_wf r \<Longrightarrow> entry_owned i a (snd (get_trace j requester r))"
proof (rule get_ring [of j requester r])
  fix e
  assume o: "entry_owned i a r" and e: "map_of (tr_entries r) j = Some e"
    and r: "snd (get_trace j requester r) = r\<lparr>tr_entries := AList.delete j (tr_entries r) @ [(j, e)]\<rparr>"
  show "entry_owned i a (snd (get_trace j requester r))"
    using o e unfolding r
    by (auto simp: entry_owned_def map_add_def delete_conv' split: option.splits if_splits)
qed simp

interpretation ring: owned_store ring_wf ring_step entry_owned ring_rewrites
proof
  show "ring_wf (ring_step op s)" if "ring_wf s" for op s
    using that by (cases op) (simp_all add: put_wf get_ring_wf)
  show "entry_owned i a (ring_step op s)" if "ring_wf s" "entry_owned i a s" "\<not> ring_rewrites op i" for op s i a
    using that by (cases op) (simp_all add: put_owned get_owned)
qed

text \<open>
  C15. After any run of stores under other ids and lookups, a principal that is not the owner
  of a trace gets not_found for its id, and the lookup leaves the ring as it is.
\<close>

theorem trace_read_by_owner_only:
  assumes "ring_wf r" and "fold ring_step ops (put_trace size_of i e (Some owner) r) = r'"
    and "\<forall>op \<in> set ops. \<not> ring_rewrites op i"
    and "handler_principal g params rid ''agent_id'' = Inr (Inr p)" and "p_agent_id p \<noteq> owner"
    and "py_str (jget (cp_wire params) ''trace_id'') = i" and "truthy (jget (cp_wire params) ''trace_id'')"
  shows "handle_trace g params rid r'
    = (Inr (make_response (trace_answer (jget (cp_wire params) ''trace_id'') JNull ''not_found'') rid), r')"
proof -
  have "entry_owned i owner (put_trace size_of i e (Some owner) r)" by (rule put_owned [OF assms(1)]) simp
  then have "entry_owned i owner r'"
    using ring.owned_run [OF put_wf [OF assms(1)] _ assms(3)] assms(2) by blast
  then have "get_trace i (Some (p_agent_id p)) r' = (None, r')"
    using assms(5) by (auto simp: get_trace_def entry_owned_def may_see_def split: option.split)
  then show ?thesis using assms by (simp add: handle_trace_def)
qed

definition demo_call :: "string \<Rightarrow> string \<Rightarrow> call_params" where
  "demo_call agent tid = \<lparr>cp_wire = [(''trace_id'', JStr tid)], cp_principal = Some (demo_agent agent [] [])\<rparr>"

theorem trace_read_by_owner_only_witness:
  "\<forall>g rid. fst (handle_trace g (demo_call ''codex'' ''t1'') rid (put_trace length ''t1'' [] (Some ''main'') (new_ring 2 100)))
    = Inr (make_response (trace_answer (JStr ''t1'') JNull ''not_found'') rid)"
proof (intro allI)
  fix g rid
  have "ring_wf (new_ring 2 100)" by (simp add: ring_wf_def new_ring_def)
  moreover have "handler_principal g (demo_call ''codex'' ''t1'') rid ''agent_id'' = Inr (Inr (demo_agent ''codex'' [] []))"
    by (simp add: handler_principal_def demo_call_def)
  ultimately show "fst (handle_trace g (demo_call ''codex'' ''t1'') rid
      (put_trace length ''t1'' [] (Some ''main'') (new_ring 2 100)))
    = Inr (make_response (trace_answer (JStr ''t1'') JNull ''not_found'') rid)"
    using trace_read_by_owner_only [of "new_ring 2 100" "[]" length "''t1''" "[]" "''main''" _ g "demo_call ''codex'' ''t1''" rid
        "demo_agent ''codex'' [] []"]
    by (simp add: demo_call_def demo_agent_def jget_or_def)
qed

end
