(* ===== verification/Subscribe.thy ===== *)
theory Subscribe
  imports Correct
begin

text \<open>
  \<^verbatim>\<open>handle_subscribe_contradictions\<close> of
  \<^verbatim>\<open>src/minni/minnid_runtime/governance.py\<close>: which corrections an agent is told
  about.  Times are real numbers; \<^verbatim>\<open>float(x)\<close> keeps the values that are not
  numbers apart.
\<close>

subsection \<open>\<^verbatim>\<open>float(x)\<close>\<close>

text \<open>A run of digits, single underscores between them, and the rest.\<close>

fun digit_run :: "bool \<Rightarrow> string \<Rightarrow> nat list \<times> string" where
  "digit_run after [] = ([], [])"
| "digit_run after (c # cs) =
     (if is_digit c
      then (let (ds, rest) = digit_run True cs in ((code_point c - 48) # ds, rest))
      else if c = CHR ''_'' \<and> after \<and> (case cs of [] \<Rightarrow> False | d # _ \<Rightarrow> is_digit d)
      then digit_run False cs
      else ([], c # cs))"

definition digits_value :: "nat list \<Rightarrow> nat" where
  "digits_value ds = foldl (\<lambda>a d. a * 10 + d) 0 ds"

fun exponent_part :: "string \<Rightarrow> int option" where
  "exponent_part [] = Some 0"
| "exponent_part (c # cs) =
     (if c \<noteq> CHR ''e'' then None
      else
        let (neg, body) = (case cs of
              CHR ''-'' # r \<Rightarrow> (True, r) | CHR ''+'' # r \<Rightarrow> (False, r) | _ \<Rightarrow> (False, cs));
            (ds, rest) = digit_run False body
        in if ds = [] \<or> rest \<noteq> [] then None
           else Some (if neg then - int (digits_value ds) else int (digits_value ds)))"

definition FLOAT_LIMIT :: real where
  "FLOAT_LIMIT = 2 ^ 1024 - 2 ^ 970"

definition decimal :: "string \<Rightarrow> pyfloat option" where
  "decimal s =
     (let (ip, r1) = digit_run False s;
          (fp, r2) = (case r1 of CHR ''.'' # r \<Rightarrow> digit_run False r | _ \<Rightarrow> ([], r1))
      in if ip = [] \<and> fp = [] then None
         else map_option (\<lambda>x.
           let m = real (digits_value (ip @ fp)); k = x - int (length fp);
               v = (if 0 \<le> k then m * 10 ^ nat k else m / 10 ^ nat (- k))
           in if v < FLOAT_LIMIT then Fin v else PosInf) (exponent_part r2))"

fun negate :: "pyfloat \<Rightarrow> pyfloat" where
  "negate (Fin v) = Fin (- v)"
| "negate PosInf = NegInf"
| "negate NegInf = PosInf"
| "negate NaN = NaN"

definition unsigned_float :: "string \<Rightarrow> pyfloat option" where
  "unsigned_float s =
     (if s \<in> {''inf'', ''infinity''} then Some PosInf
      else if s = ''nan'' then Some NaN
      else decimal s)"

definition parse_float :: "string \<Rightarrow> pyfloat option" where
  "parse_float s =
     (case py_lower (py_strip s) of
        CHR ''-'' # r \<Rightarrow> map_option negate (unsigned_float r)
      | CHR ''+'' # r \<Rightarrow> unsigned_float r
      | r \<Rightarrow> unsigned_float r)"

fun py_float :: "json \<Rightarrow> pyerr + pyfloat" where
  "py_float (JInt n) =
     (if \<bar>real_of_int n\<bar> < FLOAT_LIMIT then Inr (Fin (of_int n)) else Inl (RuntimeError ''OverflowError''))"
| "py_float (JBool b) = Inr (Fin (if b then 1 else 0))"
| "py_float (JFloat v t) = Inr v"
| "py_float (JStr s) =
     (case parse_float s of None \<Rightarrow> Inl (ValueError ''could not convert string to float'') | Some v \<Rightarrow> Inr v)"
| "py_float _ = Inl TypeError"

subsection \<open>The windows\<close>

record window =
  w_since :: real
  w_hours :: "real option"
  w_days :: real

text \<open>A parameter read as a number: \<open>None\<close> stands for a value that is not finite.\<close>

definition read_number :: "string \<Rightarrow> json \<Rightarrow> (real option) reply" where
  "read_number tag v =
     (case py_float v of
        Inl (RuntimeError m) \<Rightarrow> Raise (RuntimeError m)
      | Inl _ \<Rightarrow> Fail (-32602) tag
      | Inr (Fin x) \<Rightarrow> Ok (Some x)
      | Inr _ \<Rightarrow> Ok None)"

fun reply_bind :: "'a reply \<Rightarrow> ('a \<Rightarrow> 'b reply) \<Rightarrow> 'b reply" where
  "reply_bind (Ok a) f = f a"
| "reply_bind (Fail code tag) f = Fail code tag"
| "reply_bind (Raise x) f = Raise x"

definition clamp :: "real \<Rightarrow> real \<Rightarrow> real \<Rightarrow> real" where
  "clamp lo hi x = min (max x lo) hi"

definition subscribe_window :: "env \<Rightarrow> jobj \<Rightarrow> window reply" where
  "subscribe_window e params =
     reply_bind (read_number ''since_ts must be a number''
                   (py_or (jget_or (JInt 0) params ''since_ts'') (JInt 0))) (\<lambda>s.
       let since = min (case s of None \<Rightarrow> 0 | Some x \<Rightarrow> x) (now e + 60);
           hours = jget params ''read_window_hours''; days = jget params ''event_window_days'' in
       reply_bind (if hours = JNull then Ok None
                   else read_number ''read_window_hours must be a number'' hours) (\<lambda>h.
       reply_bind (if days = JNull then Ok (Some 30)
                   else read_number ''event_window_days must be a number'' days) (\<lambda>n.
         Ok \<lparr>w_since = since, w_hours = map_option (clamp 0 8760) h,
              w_days = clamp 0 365 (case n of None \<Rightarrow> 30 | Some x \<Rightarrow> x)\<rparr>)))"

definition event_since :: "env \<Rightarrow> window \<Rightarrow> real" where
  "event_since e w = max (w_since w) (now e - w_days w * 86400)"

definition read_since :: "env \<Rightarrow> window \<Rightarrow> real option" where
  "read_since e w = map_option (\<lambda>h. now e - h * 3600) (w_hours w)"

subsection \<open>The query\<close>

definition has_read :: "db \<Rightarrow> string \<Rightarrow> real option \<Rightarrow> int \<Rightarrow> bool" where
  "has_read d agent since lid \<longleftrightarrow>
     list_ex (\<lambda>r. lr_learning r = lid \<and> lr_agent r = agent
        \<and> (case since of None \<Rightarrow> True | Some t \<Rightarrow> t \<le> lr_at r)) (reads d)"

record subscription =
  sb_events :: "contradiction_event list"
  sb_status :: string
  sb_agent_events :: nat
  sb_reads :: nat
  sb_event_since :: real

definition subscribed_events :: "env \<Rightarrow> window \<Rightarrow> string \<Rightarrow> db \<Rightarrow> contradiction_event list" where
  "subscribed_events e w agent d =
     sort_key ev_at (sort_key ev_id
       (filter (\<lambda>x. event_since e w \<le> ev_at x \<and> has_read d agent (read_since e w) (ev_superseded x))
          (events d)))"

definition handle_subscribe_contradictions :: "env \<Rightarrow> jobj \<Rightarrow> stamp \<Rightarrow> db \<Rightarrow> subscription reply" where
  "handle_subscribe_contradictions e params who d =
     (case who of
        Inl (code, tag) \<Rightarrow> Fail code tag
      | Inr p \<Rightarrow>
          if p_agent_id p = [] then Fail (-32602) ''agent_id is required''
          else reply_bind (subscribe_window e params) (\<lambda>w.
            let evs = subscribed_events e w (p_agent_id p) d
            in Ok \<lparr>sb_events = evs,
                    sb_status = (if evs = [] then ''checked_no_match'' else ''matched''),
                    sb_agent_events = row_count (\<lambda>x. event_since e w \<le> ev_at x
                      \<and> has_read d (p_agent_id p) None (ev_superseded x)) (events d),
                    sb_reads = row_count (\<lambda>r. lr_agent r = p_agent_id p) (reads d),
                    sb_event_since = event_since e w\<rparr>))"

subsection \<open>Properties\<close>

lemma reply_bind_Ok: "reply_bind r f = Ok b \<longleftrightarrow> (\<exists>a. r = Ok a \<and> f a = Ok b)"
  by (cases r) auto

theorem subscribe_window_bounded:
  assumes "subscribe_window e params = Ok w"
  shows "0 \<le> w_days w \<and> w_days w \<le> 365 \<and> now e - 365 * 86400 \<le> event_since e w
    \<and> w_since w \<le> now e + 60
    \<and> (\<forall>h. w_hours w = Some h \<longrightarrow> 0 \<le> h \<and> h \<le> 8760)"
  using assms
  by (auto simp: subscribe_window_def Let_def reply_bind_Ok clamp_def event_since_def)

theorem subscription_exact:
  assumes "handle_subscribe_contradictions e params who d = Ok r" and "wf_db d"
  shows "\<exists>p w. who = Inr p \<and> subscribe_window e params = Ok w
    \<and> sb_event_since r = max (w_since w) (now e - w_days w * 86400)
    \<and> set (sb_events r) = {x \<in> set (events d). sb_event_since r \<le> ev_at x
         \<and> (\<exists>lr \<in> set (reads d). lr_learning lr = ev_superseded x \<and> lr_agent lr = p_agent_id p
              \<and> (\<forall>h. w_hours w = Some h \<longrightarrow> now e - h * 3600 \<le> lr_at lr))}
    \<and> sorted (map ev_at (sb_events r)) \<and> distinct (map ev_id (sb_events r))
    \<and> (sb_status r = ''matched'' \<longleftrightarrow> sb_events r \<noteq> [])"
proof -
  obtain p w where p: "who = Inr p" and w: "subscribe_window e params = Ok w"
    and r: "sb_events r = subscribed_events e w (p_agent_id p) d" "sb_event_since r = event_since e w"
      "sb_status r = (if sb_events r = [] then ''checked_no_match'' else ''matched'')"
    using assms(1)
    by (auto simp: handle_subscribe_contradictions_def reply_bind_Ok Let_def
        split: sum.split_asm if_split_asm)
  let ?rows = "filter (\<lambda>x. event_since e w \<le> ev_at x
      \<and> has_read d (p_agent_id p) (read_since e w) (ev_superseded x)) (events d)"
  have "distinct (map ev_id ?rows)"
    using assms(2) by (simp add: wf_db_def ids_fresh_def distinct_map_filter)
  then have "distinct (map ev_id (sort_key ev_at (sort_key ev_id ?rows)))"
    by (metis (mono_tags, lifting) distinct_map mset_sort mset_eq_imp_distinct_iff set_mset_mset)
  then have dist: "distinct (map ev_id (sb_events r))" by (simp add: r(1) subscribed_events_def)
  have set: "set (sb_events r) = {x \<in> set (events d). sb_event_since r \<le> ev_at x
         \<and> (\<exists>lr \<in> set (reads d). lr_learning lr = ev_superseded x \<and> lr_agent lr = p_agent_id p
              \<and> (\<forall>h. w_hours w = Some h \<longrightarrow> now e - h * 3600 \<le> lr_at lr))}"
    unfolding r(1,2) subscribed_events_def
    by (cases "w_hours w") (auto simp: has_read_def list_ex_iff read_since_def)
  show ?thesis using p w r set dist by (auto simp: event_since_def subscribed_events_def)
qed

definition demo_polled :: db where
  "demo_polled = empty_db\<lparr>events := [\<lparr>ev_id = 1, ev_superseded = 7, ev_new = 8, ev_agent = ''codex'', ev_at = 900\<rparr>],
     next_event := 2, reads := [\<lparr>lr_learning = 7, lr_agent = ''hermes'', lr_at = 5\<rparr>]\<rparr>"

theorem subscribe_window_bounded_witness:
  "\<exists>w. subscribe_window demo_env [(''event_window_days'', JFloat NaN ''nan'')] = Ok w
     \<and> w_days w \<le> 365 \<and> now demo_env - 365 * 86400 \<le> event_since demo_env w"
proof -
  have "\<exists>w. subscribe_window demo_env [(''event_window_days'', JFloat NaN ''nan'')] = Ok w"
    by (simp add: subscribe_window_def jget_or_def py_or_def read_number_def FLOAT_LIMIT_def Let_def)
  then show ?thesis using subscribe_window_bounded by blast
qed

theorem subscription_exact_witness:
  "\<exists>r. handle_subscribe_contradictions demo_env [] (Inr (demo_agent ''hermes'' [] [])) demo_polled = Ok r
     \<and> map ev_id (sb_events r) = [1] \<and> sb_status r = ''matched''"
proof -
  have wf: "wf_db demo_polled" by (simp add: demo_polled_def wf_db_def empty_db_def ids_fresh_def)
  let ?w = "\<lparr>w_since = 0, w_hours = None, w_days = 30\<rparr>"
  have w: "subscribe_window demo_env [] = Ok ?w"
    by (simp add: subscribe_window_def jget_or_def py_or_def read_number_def FLOAT_LIMIT_def Let_def
        demo_env_def clamp_def)
  obtain r where r: "handle_subscribe_contradictions demo_env [] (Inr (demo_agent ''hermes'' [] [])) demo_polled = Ok r"
    using w by (simp add: handle_subscribe_contradictions_def demo_agent_def Let_def)
  have "sb_events r = events demo_polled"
    using r w by (auto simp: handle_subscribe_contradictions_def demo_agent_def Let_def demo_polled_def
        subscribed_events_def event_since_def demo_env_def has_read_def read_since_def)
  moreover from this have "sb_status r = ''matched''"
    using subscription_exact [OF r wf] by (auto simp: demo_polled_def)
  ultimately show ?thesis using r by (auto simp: demo_polled_def)
qed

end
