(* ===== verification/Recall.thy ===== *)
theory Recall
  imports Results Trace Subscribe
begin

text \<open>
  \<^verbatim>\<open>src/minni/minnid_runtime/recall.py\<close>: one search over several corpora.  An engine is a
  number; what \<^verbatim>\<open>retrieve\<close> answers, or that it raises, is a parameter.  The legs run in
  order, as they do whenever a deadline is set; packing, learnings, episodic events and the
  recall trace come after and are not part of this model.
\<close>

section \<open>Request parameters\<close>

definition DEFAULT_SEARCH_BUDGET_MS :: int where
  "DEFAULT_SEARCH_BUDGET_MS = 25000"

definition SEARCH_BUDGET_MS_MAX :: int where
  "SEARCH_BUDGET_MS_MAX = 300000"

definition search_work_ms :: "jobj \<Rightarrow> int" where
  "search_work_ms params =
     (let raw = jget params ''timeout_ms'';
          budget = (if raw = JNull \<or> raw = JStr [] then DEFAULT_SEARCH_BUDGET_MS
                    else case py_int raw of None \<Rightarrow> DEFAULT_SEARCH_BUDGET_MS | Some n \<Rightarrow> n)
      in max 1 (max 1 (min budget SEARCH_BUDGET_MS_MAX) * 9 div 10))"

text \<open>\<^verbatim>\<open>float\<close> of a huge integer raises OverflowError, which nothing catches here.\<close>

definition search_start :: "jobj \<Rightarrow> real \<Rightarrow> pyerr + real" where
  "search_start params tnow =
     (let accepted = jget params ''_accepted_monotonic''
      in if accepted = JNull \<or> accepted = JStr [] then Inr tnow
         else case py_float accepted of
                Inr (Fin v) \<Rightarrow> Inr (if v \<le> tnow then v else tnow)
              | Inl (RuntimeError m) \<Rightarrow> Inl (RuntimeError m)
              | _ \<Rightarrow> Inr tnow)"

definition search_deadline_monotonic :: "jobj \<Rightarrow> real \<Rightarrow> pyerr + real" where
  "search_deadline_monotonic params tnow =
     map_sum id (\<lambda>start. start + of_int (search_work_ms params) / 1000) (search_start params tnow)"

datatype scope = Personal | Combined | Both

definition resolve_document_scope :: "jobj \<Rightarrow> pyerr + scope" where
  "resolve_document_scope params =
     (let raw = jget params ''scope''
      in if raw \<noteq> JNull
         then (let s = py_str raw
               in if s = ''personal'' then Inr Personal else if s = ''combined'' then Inr Combined
                  else if s = ''both'' then Inr Both
                  else Inl (ValueError ''scope must be personal, combined, or both''))
         else Inr (if truthy (jget params ''cross_agent'') then Combined else Both))"

definition KNOWN_BACKENDS :: "string list" where
  "KNOWN_BACKENDS = [''faiss-disk'', ''faiss-mem'', ''lance'', ''qdrant'']"

definition MAX_BACKENDS :: nat where
  "MAX_BACKENDS = 4"

definition known_text :: string where
  "known_text = py_repr (JList (map JStr KNOWN_BACKENDS))"

text \<open>None: the default path.  \<open>config\<close> is \<^verbatim>\<open>vector_backends\<close>.\<close>

definition resolve_backend :: "json \<Rightarrow> string list \<Rightarrow> pyerr + string list option" where
  "resolve_backend b config =
     (let valid = ''; valid values: '' @ known_text @ '' (or '' @ [CHR 0x22] @ ''auto'' @ [CHR 0x22] @ '')''
      in if b = JNull \<or> b = JStr ''auto''
         then Inr (if config = [] \<or> config = [''faiss-disk''] then None else Some config)
         else case b of
           JStr s \<Rightarrow>
             (if s \<in> set KNOWN_BACKENDS then Inr (Some [s])
              else Inl (ValueError (''unknown backend '' @ repr_str s @ valid)))
         | JList xs \<Rightarrow>
             (let names = map py_str xs; unknown = sort (remdups (filter (\<lambda>n. n \<notin> set KNOWN_BACKENDS) names));
                  distinct_names = length (remdups names)
              in if names = [] then Inl (ValueError (''backend list must not be empty'' @ valid))
                 else if unknown \<noteq> []
                 then Inl (ValueError (''unknown backend(s) '' @ py_repr (JList (map JStr unknown)) @ valid))
                 else if MAX_BACKENDS < distinct_names
                 then Inl (ValueError (''too many backends ('' @ dec_digits distinct_names @ ''); max '' @ dec_digits MAX_BACKENDS))
                 else Inr (Some names))
         | _ \<Rightarrow> Inl (ValueError (''backend must be '' @ [CHR 0x22] @ ''auto'' @ [CHR 0x22]
                  @ '', a backend name, or a list of backend names'')))"

definition episodic_layer_requested :: "json \<Rightarrow> bool" where
  "episodic_layer_requested layers =
     (case layers of
        JNull \<Rightarrow> True
      | JStr s \<Rightarrow> py_lower (py_strip s) = ''episodic''
      | JList xs \<Rightarrow> list_ex (\<lambda>l. py_lower (py_strip (py_str l)) = ''episodic'') xs
      | JObj kvs \<Rightarrow> list_ex (\<lambda>kv. py_lower (py_strip (fst kv)) = ''episodic'') kvs
      | _ \<Rightarrow> False)"

section \<open>Rows of several corpora\<close>

record row =
  rw_source :: string                 \<comment> \<open>\<^verbatim>\<open>source\<close>, else \<^verbatim>\<open>path\<close>\<close>
  rw_doc :: "int option"
  rw_chunk :: "int option"
  rw_score :: real
  rw_src :: string
  rw_engine :: nat                    \<comment> \<open>\<^verbatim>\<open>_qty_engine\<close>\<close>
  rw_poisoned :: bool                 \<comment> \<open>\<^verbatim>\<open>_deadline_poisoned\<close>\<close>
  rw_raw :: "real option"             \<comment> \<open>\<^verbatim>\<open>confidence_raw\<close>\<close>
  rw_confidence :: "real option"
  rw_status :: string
  rw_flag :: bool
  rw_action :: string

definition result_identity :: "row \<Rightarrow> string \<times> int option \<times> int option" where
  "result_identity r = (rw_source r, rw_doc r, rw_chunk r)"

definition tag_document_results :: "string \<Rightarrow> row list \<Rightarrow> row list" where
  "tag_document_results src rows = map (\<lambda>r. r\<lparr>rw_src := src\<rparr>) rows"

definition caller_visible_deadline_poisoned :: "row list \<Rightarrow> bool" where
  "caller_visible_deadline_poisoned rows \<longleftrightarrow> rows \<noteq> [] \<and> list_all rw_poisoned rows"

text \<open>\<^verbatim>\<open>xs[:n]\<close>; a negative \<open>n\<close> counts from the end.\<close>

definition py_take :: "int \<Rightarrow> 'a list \<Rightarrow> 'a list" where
  "py_take n xs = take (nat (if n < 0 then int (length xs) + n else n)) xs"

definition personal_priority :: "row \<Rightarrow> nat" where
  "personal_priority r = (if rw_src r = ''p'' then 1 else 0)"

definition replaces :: "row \<Rightarrow> row \<Rightarrow> bool" where
  "replaces r old \<longleftrightarrow>
     (if rw_poisoned r \<and> \<not> rw_poisoned old then False
      else if rw_poisoned old \<and> \<not> rw_poisoned r then True
      else rw_score old < rw_score r \<or> rw_score r = rw_score old \<and> personal_priority old < personal_priority r)"

fun dedup_row :: "row \<Rightarrow> row list \<Rightarrow> row list" where
  "dedup_row r [] = [r]"
| "dedup_row r (old # rest) =
     (if result_identity old = result_identity r then (if replaces r old then r # rest else old # rest)
      else old # dedup_row r rest)"

definition dedup_rows :: "row list \<Rightarrow> row list" where
  "dedup_rows rows = foldl (\<lambda>acc r. dedup_row r acc) [] rows"

definition candidates_of :: "row list list \<Rightarrow> row list" where
  "candidates_of sets =
     (if list_ex (list_ex (\<lambda>r. \<not> rw_poisoned r)) sets
      then concat (map (filter (\<lambda>r. \<not> rw_poisoned r)) sets) else concat sets)"

text \<open>The sort by score and then by origin is two stable sorts.\<close>

definition sort_rows :: "bool \<Rightarrow> row list \<Rightarrow> row list" where
  "sort_rows prefer_personal rows =
     sort_desc rw_score (if prefer_personal then sort_desc (\<lambda>r. real (personal_priority r)) rows else rows)"

definition merge_document_results :: "bool \<Rightarrow> row list list \<Rightarrow> int \<Rightarrow> row list" where
  "merge_document_results prefer_personal sets limit =
     (let merged = candidates_of sets
      in py_take limit (sort_rows prefer_personal (if prefer_personal then dedup_rows merged else merged)))"

section \<open>Legs\<close>

text \<open>
  What an engine answers: rows, or None when the deadline interrupted it; whether its ranking
  is the remains of a deadline; how many rows the read gate suppressed when it suppressed
  all; what degraded; the new trace.
\<close>

record answer =
  an_rows :: "row list option"
  an_poisoned :: bool
  an_suppressed :: "nat option"
  an_vector_down :: bool
  an_details :: "(string \<times> string) list"
  an_trace :: "string option"

datatype run = Raised string | Answered answer

record degradation =
  dg_src :: string
  dg_agent :: "string option"
  dg_vector :: bool
  dg_degraded :: bool
  dg_stage :: string
  dg_details :: "(string \<times> string) list"

definition DEADLINE_REASON :: string where
  "DEADLINE_REASON = ''search request deadline; stage skipped or interrupted''"

definition degrade_detail :: "string \<Rightarrow> string" where
  "degrade_detail m = take 400 (fst (redact_text m))"

definition degradation_for :: "answer \<Rightarrow> string \<Rightarrow> string option \<Rightarrow> degradation" where
  "degradation_for a src agent =
     (let details = map (\<lambda>(k, v). (k, degrade_detail v)) (filter (\<lambda>kv. snd kv \<noteq> []) (an_details a))
      in \<lparr>dg_src = src, dg_agent = agent, dg_vector = an_vector_down a,
          dg_degraded = (an_vector_down a \<or> details \<noteq> []), dg_stage = [], dg_details = details\<rparr>)"

definition deadline_degradation :: "string \<Rightarrow> string option \<Rightarrow> string \<Rightarrow> degradation" where
  "deadline_degradation src agent stage =
     \<lparr>dg_src = src, dg_agent = agent, dg_vector = False, dg_degraded = True, dg_stage = stage,
      dg_details = [(''reason'', DEADLINE_REASON)]\<rparr>"

definition failure_degradation :: "string \<Rightarrow> string option \<Rightarrow> string \<Rightarrow> string \<Rightarrow> degradation" where
  "failure_degradation src agent key detail =
     \<lparr>dg_src = src, dg_agent = agent, dg_vector = False, dg_degraded = True, dg_stage = [],
      dg_details = [(key, detail), (''reason'', detail)]\<rparr>"

datatype leg_op = AuthOp string nat bool | DegOp degradation bool | TraceOp string | PoisonOp

text \<open>
  \<^verbatim>\<open>retrieve_from\<close>, once the engine has answered; \<open>reused\<close> is the personal leg's snapshot
  shown again as a vault of the combined scope.
\<close>

definition answer_degradation :: "answer \<Rightarrow> string \<Rightarrow> string option \<Rightarrow> bool \<Rightarrow> degradation" where
  "answer_degradation a src agent reused =
     (if an_rows a = None
      then deadline_degradation src (if reused then (if or_text agent [] = [] then None else agent) else None) ''retrieve''
      else degradation_for a src (if or_text agent [] = [] then None else agent))"

definition leg_ops :: "answer \<Rightarrow> string \<Rightarrow> bool \<Rightarrow> string option \<Rightarrow> bool \<Rightarrow> leg_op list" where
  "leg_ops a src shared agent reused =
     (case an_suppressed a of None \<Rightarrow> [] | Some n \<Rightarrow> [AuthOp src n shared])
     @ [DegOp (answer_degradation a src agent reused) shared]
     @ (case an_trace a of Some t \<Rightarrow> if t \<noteq> [] \<and> \<not> reused then [TraceOp t] else [] | None \<Rightarrow> [])
     @ (if an_poisoned a then [PoisonOp] else [])"

definition leg_rows :: "answer \<Rightarrow> string \<Rightarrow> nat \<Rightarrow> row list" where
  "leg_rows a src engine =
     map (\<lambda>r. r\<lparr>rw_engine := engine, rw_poisoned := an_poisoned a\<rparr>)
       (tag_document_results src (case an_rows a of None \<Rightarrow> [] | Some rows \<Rightarrow> rows))"

definition retrieve_from ::
  "run \<Rightarrow> nat \<Rightarrow> string \<Rightarrow> bool \<Rightarrow> string option \<Rightarrow> bool \<Rightarrow> string + (row list \<times> leg_op list)" where
  "retrieve_from result engine src shared agent reused =
     (case result of
        Raised e \<Rightarrow> Inl e
      | Answered a \<Rightarrow> Inr (leg_rows a src engine, leg_ops a src shared agent reused))"

text \<open>
  The corpora of a request.  \<open>co_run i first\<close> is the call on engine \<open>i\<close>: \<open>first\<close> for the
  personal leg and its shared fallback, else for the combined scope.  Engine 0 is the shared one.
\<close>

record corpora =
  co_personal :: "nat option"
  co_vaults :: "(nat \<times> string) list"
  co_run :: "nat \<Rightarrow> bool \<Rightarrow> run"

definition retrieve_shared :: "corpora \<Rightarrow> bool \<Rightarrow> string + (row list \<times> leg_op list)" where
  "retrieve_shared co first = retrieve_from (co_run co 0 first) 0 ''c'' True None False"

definition retrieve_shared_soft :: "corpora \<Rightarrow> bool \<Rightarrow> row list \<times> leg_op list" where
  "retrieve_shared_soft co first =
     (case retrieve_shared co first of
        Inr x \<Rightarrow> x
      | Inl e \<Rightarrow> ([], [DegOp (failure_degradation ''c'' None ''shared_index_failed''
                             (degrade_detail (''shared index failed: '' @ e))) True]))"

definition retrieve_personal :: "corpora \<Rightarrow> bool \<Rightarrow> string + (row list \<times> leg_op list)" where
  "retrieve_personal co soft =
     (case co_personal co of
        None \<Rightarrow> (if soft then Inr (retrieve_shared_soft co True) else retrieve_shared co True)
      | Some i \<Rightarrow>
          (case retrieve_from (co_run co i True) i ''p'' False None False of
             Inr x \<Rightarrow> Inr x
           | Inl e \<Rightarrow>
               (let (rows, ops) = retrieve_shared_soft co True
                in Inr (rows, DegOp (failure_degradation ''p'' None ''personal_index_failed''
                       (degrade_detail (''personal vault index failed: '' @ e))) False # ops))))"

definition is_answer :: "run \<Rightarrow> bool" where
  "is_answer r = (case r of Answered a \<Rightarrow> True | Raised e \<Rightarrow> False)"

text \<open>The snapshot: in scope both the caller's own vault is not searched twice.\<close>

definition vault_run :: "corpora \<Rightarrow> bool \<Rightarrow> nat \<Rightarrow> run \<times> bool" where
  "vault_run co both i =
     (if both \<and> co_personal co = Some i \<and> is_answer (co_run co i True) then (co_run co i True, True)
      else (co_run co i False, False))"

definition vault_leg :: "corpora \<Rightarrow> bool \<Rightarrow> nat \<times> string \<Rightarrow> row list \<times> leg_op list" where
  "vault_leg co both v =
     (case v of (i, agent) \<Rightarrow>
       (let (result, reused) = vault_run co both i
        in case retrieve_from result i ''c'' False (Some agent) reused of
             Inr x \<Rightarrow> x
           | Inl e \<Rightarrow> ([], [DegOp (failure_degradation ''c'' (Some agent) ''combined_index_failed''
               (degrade_detail (''combined vault index failed'' @ (if agent = [] then [] else '' ('' @ agent @ '')'') @ '': '' @ e))) False])))"

definition combined_legs :: "corpora \<Rightarrow> bool \<Rightarrow> (row list \<times> leg_op list) list" where
  "combined_legs co both = map (vault_leg co both) (co_vaults co) @ [retrieve_shared_soft co False]"

section \<open>The sinks of a request\<close>

record sinks =
  sk_auth :: "(string \<times> nat) list"
  sk_degradations :: "degradation list"
  sk_seen_auth :: "(string \<times> nat) list"
  sk_seen_deg :: "degradation list"
  sk_traces :: "string list"
  sk_poisoned :: bool

definition no_sinks :: sinks where
  "no_sinks = \<lparr>sk_auth = [], sk_degradations = [], sk_seen_auth = [], sk_seen_deg = [], sk_traces = [], sk_poisoned = False\<rparr>"

fun replay_op :: "sinks \<Rightarrow> leg_op \<Rightarrow> sinks" where
  "replay_op k (AuthOp src n shared) =
     (if shared \<and> (src, n) \<in> set (sk_seen_auth k) then k
      else k\<lparr>sk_auth := sk_auth k @ [(src, n)],
             sk_seen_auth := (if shared then (src, n) # sk_seen_auth k else sk_seen_auth k)\<rparr>)"
| "replay_op k (DegOp d shared) =
     (if shared \<and> d \<in> set (sk_seen_deg k) then k
      else k\<lparr>sk_degradations := sk_degradations k @ [d],
             sk_seen_deg := (if shared then d # sk_seen_deg k else sk_seen_deg k)\<rparr>)"
| "replay_op k (TraceOp t) = (if t \<in> set (sk_traces k) then k else k\<lparr>sk_traces := sk_traces k @ [t]\<rparr>)"
| "replay_op k PoisonOp = k\<lparr>sk_poisoned := True\<rparr>"

definition replay_leg_ops :: "sinks \<Rightarrow> leg_op list \<Rightarrow> sinks" where
  "replay_leg_ops k ops = foldl replay_op k ops"

text \<open>The document part of \<^verbatim>\<open>_handle_search\<close>: an exception that leaves it, or rows and sinks.\<close>

definition search_documents ::
  "corpora \<Rightarrow> effective_principal option \<Rightarrow> scope \<Rightarrow> int \<Rightarrow> string + (row list \<times> sinks)" where
  "search_documents co p scope limit =
     (let done1 = (\<lambda>(rows, ops). (rows, replay_leg_ops no_sinks ops))
      in if p = None then map_sum id done1 (retrieve_shared co True)
         else case scope of
           Personal \<Rightarrow> map_sum id done1 (retrieve_personal co False)
         | Combined \<Rightarrow>
             (let legs = combined_legs co False
              in Inr (merge_document_results False (map fst legs) limit,
                      replay_leg_ops no_sinks (concat (map snd legs))))
         | Both \<Rightarrow>
             (case retrieve_personal co True of
                Inl e \<Rightarrow> Inl e
              | Inr (prows, pops) \<Rightarrow>
                  (let legs = combined_legs co True;
                       combined = merge_document_results False (map fst legs) limit
                   in Inr (merge_document_results True [prows, combined] limit,
                           replay_leg_ops (replay_leg_ops no_sinks pops) (concat (map snd legs))))))"

section \<open>After the merge\<close>

text \<open>\<^verbatim>\<open>_bump_merged_document_access\<close>: the documents counted as read, per engine, each once.\<close>

definition bump_merged_document_access :: "row list \<Rightarrow> (nat \<times> int) list" where
  "bump_merged_document_access rows =
     rev (remdups (rev (List.map_filter
       (\<lambda>r. if rw_poisoned r then None else map_option (\<lambda>d. (rw_engine r, d)) (rw_doc r)) rows)))"

definition skip_score_record :: "row list \<Rightarrow> sinks \<Rightarrow> bool" where
  "skip_score_record rows k \<longleftrightarrow> caller_visible_deadline_poisoned rows \<or> rows = [] \<and> sk_poisoned k"

text \<open>
  \<^verbatim>\<open>record_scores\<close> in two passes.  The first takes the raw score out of every row and records
  those of ranked rows; the second calibrates the recorded rows against the window all of
  them are in.  Inl: the deadline, with the rows as they were.
\<close>

definition recordable :: "bool \<Rightarrow> row \<Rightarrow> real option" where
  "recordable skip r = (if skip \<or> rw_poisoned r then None else rw_raw r)"

fun record_raws :: "real option list \<Rightarrow> score_db \<Rightarrow> deadline_error + score_db" where
  "record_raws [] d = Inr d"
| "record_raws (None # xs) d = record_raws xs d"
| "record_raws (Some x # xs) d =
     (case record_score x ''combined'' d of Inl e \<Rightarrow> Inl e | Inr d' \<Rightarrow> record_raws xs d')"

definition with_confidence :: "real \<Rightarrow> row \<Rightarrow> row" where
  "with_confidence c r = r\<lparr>rw_confidence := Some c, rw_action := recommended_action (rw_status r) (rw_flag r) (Some c)\<rparr>"

fun calibrate_rows :: "bool \<Rightarrow> score_db \<Rightarrow> row list \<Rightarrow> deadline_error + row list" where
  "calibrate_rows skip d [] = Inr []"
| "calibrate_rows skip d (r # rs) =
     (case calibrate_rows skip d rs of
        Inl e \<Rightarrow> Inl e
      | Inr rs' \<Rightarrow>
          (case (recordable skip r, rw_confidence r) of
             (Some x, Some _) \<Rightarrow> (case calibrated_confidence x d of
                Inl e \<Rightarrow> Inl e | Inr c \<Rightarrow> Inr (with_confidence c r # rs'))
           | _ \<Rightarrow> Inr (r # rs')))"

definition record_scores :: "bool \<Rightarrow> row list \<Rightarrow> score_db \<Rightarrow> deadline_error + (row list \<times> score_db)" where
  "record_scores skip rows d =
     (case record_raws (map (recordable skip) rows) d of
        Inl e \<Rightarrow> Inl e
      | Inr d' \<Rightarrow> map_sum id (\<lambda>rs. (rs, d')) (calibrate_rows skip d' rows))"

definition normalize_caller_visible_results :: "row list \<Rightarrow> row list" where
  "normalize_caller_visible_results rows = map (\<lambda>r. r\<lparr>rw_raw := None, rw_engine := 0, rw_poisoned := False\<rparr>) rows"

text \<open>
  The response: \<open>late\<close> says that the deadline has passed after the merge.  A ranking that is
  not poisoned is booked whether it has passed or not (\<^verbatim>\<open>allow_expired_sql\<close>); a poisoned or
  empty one only in time.  The store of scores is the shared engine's.
\<close>

record search_response =
  sr_rows :: "row list"
  sr_reads :: "(nat \<times> int) list"
  sr_scores :: score_db
  sr_degradations :: "degradation list"
  sr_auth :: "(string \<times> nat) list"
  sr_trace_ids :: "string list"
  sr_trace_id :: "string option"
  sr_degraded :: bool

definition finish_search :: "bool \<Rightarrow> row list \<Rightarrow> sinks \<Rightarrow> score_db \<Rightarrow> search_response" where
  "finish_search late rows k d =
     (let skip = skip_score_record rows k; open = \<not> skip \<or> \<not> late;
          reads = (if open then bump_merged_document_access rows else []);
          late_deg = (\<lambda>stage. deadline_degradation ''request'' None stage);
          skipped = (if open then [] else [late_deg ''document_access'', late_deg ''score_calibration'']);
          (rows', d', cut) = (if open
             then (case record_scores skip rows d of
                     Inl e \<Rightarrow> (rows, d, [late_deg ''score_calibration''])
                   | Inr (rs, d') \<Rightarrow> (rs, d', []))
             else (rows, d, []));
          degs = sk_degradations k @ skipped @ cut
      in \<lparr>sr_rows = normalize_caller_visible_results rows', sr_reads = reads, sr_scores = d',
          sr_degradations = degs, sr_auth = sk_auth k, sr_trace_ids = sk_traces k,
          sr_trace_id = (case sk_traces k of [t] \<Rightarrow> Some t | _ \<Rightarrow> None),
          sr_degraded = list_ex dg_degraded degs\<rparr>)"

definition handle_search ::
  "corpora \<Rightarrow> effective_principal option \<Rightarrow> scope \<Rightarrow> int \<Rightarrow> bool \<Rightarrow> score_db \<Rightarrow> string + search_response" where
  "handle_search co p scope limit late d =
     (case search_documents co p scope limit of
        Inl e \<Rightarrow> Inl (''Search error: '' @ e)
      | Inr (rows, k) \<Rightarrow> Inr (finish_search late rows k d))"

end
