(* ===== verification/Drill.thy ===== *)
theory Drill
  imports Results Trace
begin

text \<open>
  Going back to a hit: \<^verbatim>\<open>expand_result\<close> of \<^verbatim>\<open>src/minni/retrieval.py\<close>, and the handlers of
  \<^verbatim>\<open>minnid_runtime/recall.py\<close> that fetch single results again (\<^verbatim>\<open>handle_expand\<close>, \<^verbatim>\<open>handle_sm_drill\<close>) or
  export a context pack (\<^verbatim>\<open>handle_sm_export_pack\<close>).  A library is one index database.  Traces of
  attribution scores are left out.
\<close>

section \<open>One index\<close>

record chunk =
  ck_id :: int
  ck_doc :: int
  ck_text :: string
  ck_heading :: "string option"

record xdoc =
  xd_id :: int
  xd_path :: string
  xd_agent :: string
  xd_sigil :: string
  xd_privacy :: "string option"
  xd_type :: "string option"
  xd_status :: "string option"
  xd_access :: int
  xd_last :: "real option"

record library =
  lb_docs :: "xdoc list"
  lb_chunks :: "chunk list"
  lb_fts :: "(int \<times> string option) list"      \<comment> \<open>\<^verbatim>\<open>vault_fts\<close>: document and content\<close>

definition doc_of :: "library \<Rightarrow> int \<Rightarrow> xdoc option" where
  "doc_of l i = List.find (\<lambda>x. xd_id x = i) (lb_docs l)"

definition joined :: "library \<Rightarrow> chunk \<Rightarrow> (chunk \<times> xdoc) option" where
  "joined l c = map_option (Pair c) (doc_of l (ck_doc c))"

datatype id_kind = Auto | ChunkId | DocId

definition parse_id_kind :: "string option \<Rightarrow> pyerr + id_kind" where
  "parse_id_kind k =
     (let s = py_lower (py_strip (or_text k ''auto''))
      in if s = ''auto'' then Inr Auto else if s = ''chunk'' then Inr ChunkId else if s = ''doc'' then Inr DocId
         else Inl (ValueError ''unknown id_kind''))"

definition by_chunk :: "library \<Rightarrow> int \<Rightarrow> (chunk \<times> xdoc) option" where
  "by_chunk l i =
     (case List.map_filter (joined l) (filter (\<lambda>c. ck_id c = i) (lb_chunks l)) of [] \<Rightarrow> None | x # _ \<Rightarrow> Some x)"

definition by_doc :: "library \<Rightarrow> int \<Rightarrow> (chunk \<times> xdoc) option" where
  "by_doc l i =
     (case List.map_filter (joined l) (sort_key ck_id (filter (\<lambda>c. ck_doc c = i) (lb_chunks l))) of
        [] \<Rightarrow> None | x # _ \<Rightarrow> Some x)"

definition find_row :: "library \<Rightarrow> id_kind \<Rightarrow> int \<Rightarrow> (chunk \<times> xdoc) option" where
  "find_row l k i =
     (case k of
        ChunkId \<Rightarrow> by_chunk l i
      | DocId \<Rightarrow> by_doc l i
      | Auto \<Rightarrow> (case by_chunk l i of Some x \<Rightarrow> Some x | None \<Rightarrow> by_doc l i))"

definition fetch_full_document :: "library \<Rightarrow> int \<Rightarrow> string option" where
  "fetch_full_document l i =
     (case sort_key ck_id (filter (\<lambda>c. ck_doc c = i) (lb_chunks l)) of
        [] \<Rightarrow> (case map_of (lb_fts l) i of Some (Some t) \<Rightarrow> if t = [] then None else Some t | _ \<Rightarrow> None)
      | cs \<Rightarrow> Some (join_with [LF] (map ck_text cs)))"

definition bump :: "real \<Rightarrow> int \<Rightarrow> library \<Rightarrow> library" where
  "bump tnow i l = l\<lparr>lb_docs := map (\<lambda>x. if xd_id x = i
     then x\<lparr>xd_access := xd_access x + 1, xd_last := Some tnow\<rparr> else x) (lb_docs l)\<rparr>"

section \<open>\<^verbatim>\<open>expand_result\<close>\<close>

text \<open>What the read gate sees of a row.\<close>

definition row_json :: "chunk \<Rightarrow> xdoc \<Rightarrow> json" where
  "row_json c x = JObj [(''doc_id'', JInt (xd_id x)), (''chunk_id'', JInt (ck_id c)), (''path'', JStr (xd_path x)),
     (''source'', JStr (xd_path x)), (''filename'', JStr (basename (xd_path x))), (''agent'', JStr (xd_agent x)),
     (''sigil'', JStr (xd_sigil x)), (''privacy_level'', JStr (or_text (xd_privacy x) ''safe'')),
     (''page_type'', case xd_type x of None \<Rightarrow> JNull | Some t \<Rightarrow> JStr t),
     (''page_status'', JStr (or_text (xd_status x) ''candidate''))]"

record expanded =
  ex_chunk :: chunk
  ex_doc :: xdoc
  ex_text :: ucs
  ex_full :: "ucs option"
  ex_flag :: "bool option"
  ex_degraded :: bool
  ex_wikilink :: "string option"
  ex_depth :: depth

text \<open>\<open>late\<close>: the deadline passes while the whole document is fetched.  \<open>claim\<close> scores a claim.\<close>

record expand_env =
  xe_show :: show_env
  xe_host :: host
  xe_claim :: "string \<Rightarrow> string option"
  xe_late :: bool

definition expand_depth :: "string \<Rightarrow> depth" where
  "expand_depth s = (if s \<in> {''headline'', ''snippet'', ''chunk'', ''document''} then parse_depth s else Chunk)"

definition expand_envelope :: "expand_env \<Rightarrow> xdoc \<Rightarrow> string \<Rightarrow> ucs" where
  "expand_envelope e x t =
     build_evidence_envelope (se_ucd (xe_show e)) (se_perturb (xe_show e))
       \<lparr>ev_source = cps (xd_path x), ev_agent = cps (xd_agent x), ev_status = cps (or_text (xd_status x) ''candidate''),
        ev_privacy = cps (or_text (xd_privacy x) ''safe''), ev_score = 0, ev_flag = is_instruction_like t,
        ev_visibility = cps ''authorized-via-expand'', ev_text = cps t, ev_attribution = xe_claim e t\<rparr>"

text \<open>An id that does not fit a column is refused by the driver.\<close>

definition OVERFLOW_MESSAGE :: string where
  "OVERFLOW_MESSAGE = ''Python int too large to convert to SQLite INTEGER''"

definition sql_int :: "int \<Rightarrow> bool" where
  "sql_int n \<longleftrightarrow> - (2 ^ 63) \<le> n \<and> n < 2 ^ 63"

definition expand_result ::
  "expand_env \<Rightarrow> effective_principal option \<Rightarrow> string \<Rightarrow> bool \<Rightarrow> depth \<Rightarrow> id_kind \<Rightarrow> int \<Rightarrow> library
    \<Rightarrow> (string + expanded option) \<times> library" where
  "expand_result e p workspace update_access d k i l =
     (if \<not> sql_int i then (Inl OVERFLOW_MESSAGE, l)
      else case find_row l k i of
        None \<Rightarrow> (Inr None, l)
      | Some (c, x) \<Rightarrow>
          (let degraded = (d = Document \<and> xe_late e);
               full = (if d = Document \<and> \<not> xe_late e then fetch_full_document l (xd_id x) else None);
               l' = (if update_access then bump (se_now (xe_show e)) (xd_id x) l else l);
               raw = \<lparr>ex_chunk = c, ex_doc = x, ex_text = cps (ck_text c), ex_full = map_option cps full, ex_flag = None,
                      ex_degraded = degraded, ex_wikilink = None, ex_depth = d\<rparr>
           in case p of
                None \<Rightarrow> (Inr (Some raw), l')
              | Some q \<Rightarrow>
                  (if \<not> can_read_document (xe_host e) p (if workspace = [] then p_workspace_id q else workspace) (row_json c x)
                   then (Inr None, l')
                   else let t = or_text full (ck_text c); env = expand_envelope e x t
                        in (Inr (Some (raw\<lparr>ex_text := env, ex_full := (if d = Document \<and> \<not> xe_late e then Some env else None),
                                      ex_flag := Some (is_instruction_like t)\<rparr>)), l'))))"

text \<open>The texts the projection to the depth tier hands out.\<close>

definition expanded_texts :: "expanded \<Rightarrow> ucs list" where
  "expanded_texts r =
     (case (if ex_degraded r then Chunk else ex_depth r) of
        Headline \<Rightarrow> []
      | Snippet \<Rightarrow> [snippet_text (ex_text r)]
      | Chunk \<Rightarrow> [ex_text r]
      | Document \<Rightarrow> ex_text r # (case ex_full r of None \<Rightarrow> [] | Some t \<Rightarrow> [t]))"

section \<open>\<^verbatim>\<open>handle_expand\<close>\<close>

text \<open>\<^verbatim>\<open>int(v)\<close>: None for TypeError and ValueError; an infinity raises OverflowError.\<close>

definition int_overflows :: "json \<Rightarrow> bool" where
  "int_overflows v \<longleftrightarrow> (case v of JFloat PosInf _ \<Rightarrow> True | JFloat NegInf _ \<Rightarrow> True | _ \<Rightarrow> False)"

datatype 'a reply_of = Refusal json | Reply 'a

definition handle_expand ::
  "gate \<Rightarrow> expand_env \<Rightarrow> call_params \<Rightarrow> json \<Rightarrow> library
    \<Rightarrow> (pyerr + (int \<times> string \<times> expanded) reply_of) \<times> library" where
  "handle_expand g e params rid l =
     (let wire = cp_wire params; raw = jget wire ''result_id''
      in if raw = JNull then (Inr (Refusal (make_error (-32602) ''result_id is required'' rid JNull)), l)
         else if int_overflows raw then (Inl (RuntimeError ''OverflowError''), l)
         else case py_int raw of
           None \<Rightarrow> (Inr (Refusal (make_error (-32602) ''result_id must be an integer'' rid JNull)), l)
         | Some i \<Rightarrow>
             (let depth = py_str (jget_or (JStr ''chunk'') wire ''depth'')
              in case handler_principal g params rid ''agent_id'' of
                Inl exc \<Rightarrow> (Inl exc, l)
              | Inr (Inl err) \<Rightarrow> (Inr (Refusal err), l)
              | Inr (Inr p) \<Rightarrow>
                  (case expand_result e (Some p) (p_workspace_id p) True (expand_depth depth) Auto i l of
                     (Inl m, l') \<Rightarrow> (Inr (Refusal (make_error (-32000) (''Expand error: '' @ m) rid JNull)), l')
                   | (Inr None, l') \<Rightarrow> (Inr (Refusal (make_error (-32000)
                         (''No result found for result_id='' @ py_str (JInt i)) rid JNull)), l')
                   | (Inr (Some r), l') \<Rightarrow> (Inr (Reply (i, depth, r)), l'))))"

section \<open>References\<close>

text \<open>
  The engines of the daemon: number 0 is the shared one; \<open>en_db\<close> is the path of the database.  The
  libraries are the state.  \<open>resolve\<close> is \<^verbatim>\<open>Path(s).resolve()\<close>, None where it raises.
\<close>

record engines =
  en_db :: "nat \<Rightarrow> string"
  en_personal :: "nat option"
  en_vaults :: "nat list"
  en_resolve :: "string \<Rightarrow> string option"

definition candidate_engines :: "engines \<Rightarrow> json \<Rightarrow> nat list" where
  "candidate_engines en marker =
     (let personal = (case en_personal en of None \<Rightarrow> [] | Some i \<Rightarrow> [i])
      in if marker = JStr ''p'' then personal @ [0]
         else if marker = JStr ''c'' then en_vaults en @ [0]
         else personal @ en_vaults en @ [0])"

text \<open>Of the engines over one database the first is asked.\<close>

fun first_of_each :: "('a \<Rightarrow> 'b) \<Rightarrow> 'a list \<Rightarrow> 'a list" where
  "first_of_each f [] = []"
| "first_of_each f (x # xs) = x # filter (\<lambda>y. f y \<noteq> f x) (first_of_each f xs)"

definition reference_candidates :: "engines \<Rightarrow> jobj \<Rightarrow> nat list" where
  "reference_candidates en ref = first_of_each (en_db en) (candidate_engines en (jget ref ''src''))"

definition reference_id_kind :: "jobj \<Rightarrow> id_kind" where
  "reference_id_kind ref =
     (if truthy (jget ref ''chunk_id'') then ChunkId else if truthy (jget ref ''doc_id'') then DocId
      else if truthy (jget ref ''result_id'') then Auto else DocId)"

definition ref_source :: "jobj \<Rightarrow> json" where
  "ref_source ref = first_of_keys ref [''source'', ''path'']"

definition same_path :: "engines \<Rightarrow> string \<Rightarrow> string \<Rightarrow> bool" where
  "same_path en a b \<longleftrightarrow>
     (case (en_resolve en a, en_resolve en b) of (Some x, Some y) \<Rightarrow> x = y | _ \<Rightarrow> a = b)"

definition ref_wikilink :: "jobj \<Rightarrow> string" where
  "ref_wikilink ref =
     (let w = jget ref ''wikilink''; s = (if truthy w then py_strip (py_str w) else [])
      in if s \<noteq> [] \<and> \<not> starts_with ''[['' s
         then ''[['' @ (if starts_with (rev ''.md'') (rev s) then take (length s - 3) s else s) @ '']]'' else s)"

definition reference_ids :: "engines \<Rightarrow> jobj \<Rightarrow> library \<Rightarrow> string + int list" where
  "reference_ids en ref l =
     (let raw = first_of_keys ref [''chunk_id'', ''doc_id'', ''result_id''];
          src = ref_source ref; link = ref_wikilink ref
      in if int_overflows raw then Inl ''cannot convert float infinity to integer''
         else if raw \<noteq> JNull then Inr (case py_int raw of None \<Rightarrow> [] | Some i \<Rightarrow> [i])
         else Inr (List.map_filter (\<lambda>x.
           if truthy src \<and> same_path en (xd_path x) (py_str src) then Some (xd_id x)
           else if link \<noteq> [] \<and> path_to_wikilink (xd_path x) = Some link then Some (xd_id x) else None) (lb_docs l)))"

definition reference_matches :: "engines \<Rightarrow> expanded \<Rightarrow> jobj \<Rightarrow> bool" where
  "reference_matches en r ref \<longleftrightarrow>
     (if truthy (ref_source ref) then same_path en (xd_path (ex_doc r)) (py_str (ref_source ref))
      else if truthy (jget ref ''wikilink'') then or_text (ex_wikilink r) [] = py_str (jget ref ''wikilink'')
      else True)"

text \<open>The ids of one engine in turn; every one that is asked for is counted as read.\<close>

fun expand_ids ::
  "expand_env \<Rightarrow> engines \<Rightarrow> effective_principal \<Rightarrow> depth \<Rightarrow> jobj \<Rightarrow> int list \<Rightarrow> library
    \<Rightarrow> (string + expanded option) \<times> library" where
  "expand_ids e en p d ref [] l = (Inr None, l)"
| "expand_ids e en p d ref (i # is) l =
     (case expand_result e (Some p) (p_workspace_id p) True d (reference_id_kind ref) i l of
        (Inl m, l') \<Rightarrow> (Inl m, l')
      | (Inr (Some r), l') \<Rightarrow> if reference_matches en r ref then (Inr (Some r), l') else expand_ids e en p d ref is l'
      | (Inr None, l') \<Rightarrow> expand_ids e en p d ref is l')"

fun expand_over ::
  "expand_env \<Rightarrow> engines \<Rightarrow> effective_principal \<Rightarrow> depth \<Rightarrow> jobj \<Rightarrow> nat list \<Rightarrow> (nat \<Rightarrow> library)
    \<Rightarrow> (string + expanded option) \<times> (nat \<Rightarrow> library)" where
  "expand_over e en p d ref [] ls = (Inr None, ls)"
| "expand_over e en p d ref (k # ks) ls =
     (case reference_ids en ref (ls k) of
        Inl m \<Rightarrow> (Inl m, ls)
      | Inr is \<Rightarrow>
          (case expand_ids e en p d ref is (ls k) of
             (Inl m, l') \<Rightarrow> (Inl m, ls(k := l'))
           | (Inr (Some r), l') \<Rightarrow> (Inr (Some r), ls(k := l'))
           | (Inr None, l') \<Rightarrow> expand_over e en p d ref ks (ls(k := l'))))"

definition expand_reference ::
  "expand_env \<Rightarrow> engines \<Rightarrow> effective_principal \<Rightarrow> depth \<Rightarrow> jobj \<Rightarrow> (nat \<Rightarrow> library)
    \<Rightarrow> (string + expanded option) \<times> (nat \<Rightarrow> library)" where
  "expand_reference e en p d ref ls = expand_over e en p d ref (reference_candidates en ref) ls"

section \<open>\<^verbatim>\<open>handle_sm_drill\<close>\<close>

definition parse_reference :: "json \<Rightarrow> jobj option" where
  "parse_reference v =
     (case v of
        JObj kvs \<Rightarrow> Some kvs
      | JStr s \<Rightarrow> (let t = py_strip s in Some [(if starts_with ''[['' t then ''wikilink'' else ''source'', JStr t)])
      | _ \<Rightarrow> None)"

fun all_some :: "'a option list \<Rightarrow> 'a list option" where
  "all_some [] = Some []"
| "all_some (None # xs) = None"
| "all_some (Some x # xs) = map_option ((#) x) (all_some xs)"

text \<open>The arguments, or the message of the refusal.\<close>

definition list_arg :: "json \<Rightarrow> json list option" where
  "list_arg v = (case v of JNull \<Rightarrow> Some [] | JList xs \<Rightarrow> Some xs | _ \<Rightarrow> None)"

definition drill_args :: "jobj \<Rightarrow> string + (json list \<times> json list \<times> string)" where
  "drill_args wire =
     (let ids = jget_or (jget wire ''result_ids'') wire ''chunk_ids'';
          refs = jget_or (jget wire ''refs'') wire ''references'';
          depth = py_str (jget_or (JStr ''snippet'') wire ''depth'')
      in if ids = JNull \<and> refs = JNull then Inl ''chunk_ids, result_ids, references, or refs is required''
         else case list_arg ids of
           None \<Rightarrow> Inl ''chunk_ids/result_ids must be a list''
         | Some xs \<Rightarrow>
             (case list_arg refs of
                None \<Rightarrow> Inl ''references/refs must be a list''
              | Some ys \<Rightarrow>
                  if 20 < length xs + length ys then Inl ''sm_drill accepts at most 20 ids/references''
                  else if depth \<notin> {''snippet'', ''chunk'', ''document''} then Inl ''depth must be snippet, chunk, or document''
                  else Inr (xs, ys, depth)))"

text \<open>\<open>Inl\<close>: an exception, which ends the drill.\<close>

fun parse_ids :: "json list \<Rightarrow> pyerr + int list option" where
  "parse_ids [] = Inr (Some [])"
| "parse_ids (v # vs) =
     (if int_overflows v then Inl (RuntimeError ''OverflowError'')
      else case py_int v of None \<Rightarrow> Inr None | Some i \<Rightarrow> map_sum id (map_option ((#) i)) (parse_ids vs))"

fun drill_ids ::
  "expand_env \<Rightarrow> effective_principal \<Rightarrow> depth \<Rightarrow> int list \<Rightarrow> library
    \<Rightarrow> (string + (expanded list \<times> json list)) \<times> library" where
  "drill_ids e p d [] l = (Inr ([], []), l)"
| "drill_ids e p d (i # is) l =
     (case expand_result e (Some p) (p_workspace_id p) True d Auto i l of
        (Inl m, l') \<Rightarrow> (Inl m, l')
      | (Inr r, l') \<Rightarrow>
          (let (rest, l'') = drill_ids e p d is l'
           in (map_sum id (\<lambda>(rs, ms). case r of None \<Rightarrow> (rs, JInt i # ms) | Some x \<Rightarrow> (x # rs, ms)) rest, l'')))"

definition missing_label :: "nat \<Rightarrow> jobj \<Rightarrow> json" where
  "missing_label n ref = py_or (jget ref ''doc_id'') (py_or (jget ref ''chunk_id'') (py_or (jget ref ''source'') (JInt (int n))))"

fun drill_references ::
  "expand_env \<Rightarrow> engines \<Rightarrow> effective_principal \<Rightarrow> depth \<Rightarrow> nat \<Rightarrow> jobj list \<Rightarrow> (nat \<Rightarrow> library)
    \<Rightarrow> (string + (expanded list \<times> json list)) \<times> (nat \<Rightarrow> library)" where
  "drill_references e en p d n [] ls = (Inr ([], []), ls)"
| "drill_references e en p d n (ref # refs) ls =
     (case expand_reference e en p d ref ls of
        (Inl m, ls') \<Rightarrow> (Inl m, ls')
      | (Inr r, ls') \<Rightarrow>
          (let (rest, ls'') = drill_references e en p d (Suc n) refs ls'
           in (map_sum id (\<lambda>(rs, ms). case r of None \<Rightarrow> (rs, missing_label n ref # ms) | Some x \<Rightarrow> (x # rs, ms)) rest, ls'')))"

record drilled =
  dr_depth :: string
  dr_results :: "expanded list"
  dr_missing :: "json list"

definition drill ::
  "expand_env \<Rightarrow> engines \<Rightarrow> effective_principal \<Rightarrow> string \<Rightarrow> int list \<Rightarrow> jobj list \<Rightarrow> (nat \<Rightarrow> library)
    \<Rightarrow> (string + drilled) \<times> (nat \<Rightarrow> library)" where
  "drill e en p depth ids refs ls =
     (case drill_ids e p (expand_depth depth) ids (ls 0) of
        (Inl m, l') \<Rightarrow> (Inl m, ls(0 := l'))
      | (Inr (rs1, ms1), l') \<Rightarrow>
          (case drill_references e en p (expand_depth depth) 0 refs (ls(0 := l')) of
             (Inl m, ls') \<Rightarrow> (Inl m, ls')
           | (Inr (rs2, ms2), ls') \<Rightarrow>
               (Inr \<lparr>dr_depth = depth, dr_results = rs1 @ rs2, dr_missing = ms1 @ ms2\<rparr>, ls')))"

definition handle_sm_drill ::
  "gate \<Rightarrow> expand_env \<Rightarrow> engines \<Rightarrow> call_params \<Rightarrow> json \<Rightarrow> (nat \<Rightarrow> library)
    \<Rightarrow> (pyerr + drilled reply_of) \<times> (nat \<Rightarrow> library)" where
  "handle_sm_drill g e en params rid ls =
     (let bad = (\<lambda>m. (Inr (Refusal (make_error (-32602) m rid JNull)), ls))
      in case drill_args (cp_wire params) of
        Inl m \<Rightarrow> bad m
      | Inr (xs, ys, depth) \<Rightarrow>
          (case handler_principal g params rid ''agent_id'' of
             Inl exc \<Rightarrow> (Inl exc, ls)
           | Inr (Inl err) \<Rightarrow> (Inr (Refusal err), ls)
           | Inr (Inr p) \<Rightarrow>
               (case parse_ids xs of
                  Inl exc \<Rightarrow> (Inl exc, ls)
                | Inr None \<Rightarrow> bad ''all ids must be integers''
                | Inr (Some ids) \<Rightarrow>
                    (case all_some (map parse_reference ys) of
                       None \<Rightarrow> bad ''references must be objects or strings''
                     | Some refs \<Rightarrow>
                         (case drill e en p depth ids refs ls of
                            (Inl m, ls') \<Rightarrow> (Inr (Refusal (make_error (-32000) (''Drill error: '' @ m) rid JNull)), ls')
                          | (Inr r, ls') \<Rightarrow> (Inr (Reply r), ls'))))))"

end
