(* ===== verification/Drill_Laws.thy ===== *)
theory Drill_Laws
  imports Drill
begin

text \<open>
  What fetching results again promises: only documents the principal may read, only inside an
  envelope, resolved in the namespace the id was given in.
\<close>

section \<open>One result\<close>

text \<open>A page as it is stored, apart from the counts of its reads; what the gate must decide on.\<close>

definition unread :: "xdoc \<Rightarrow> xdoc" where
  "unread x = x\<lparr>xd_access := 0, xd_last := None\<rparr>"

definition stored_metadata :: "xdoc \<Rightarrow> jobj" where
  "stored_metadata x =
     [(''path'', JStr (xd_path x)), (''agent'', JStr (xd_agent x)), (''sigil'', JStr (xd_sigil x)),
      (''privacy_level'', (case xd_privacy x of None \<Rightarrow> JNull | Some s \<Rightarrow> JStr s)),
      (''page_type'', (case xd_type x of None \<Rightarrow> JNull | Some t \<Rightarrow> JStr t))]"

definition readable :: "expand_env \<Rightarrow> effective_principal \<Rightarrow> expanded \<Rightarrow> bool" where
  "readable e p r \<longleftrightarrow> can_read_document (xe_host e) (Some p) (p_workspace_id p) (JObj (stored_metadata (ex_doc r)))"

text \<open>
  A result of an index: a stored chunk of a stored page, whose text or, at the document tier, the
  whole document's is all that is shown, inside an envelope that names the page and is flagged
  when the text is instruction-like; the result carries the flag.
\<close>

definition shown_from :: "expand_env \<Rightarrow> depth \<Rightarrow> library \<Rightarrow> expanded \<Rightarrow> bool" where
  "shown_from e d l r \<longleftrightarrow>
     ex_chunk r \<in> set (lb_chunks l) \<and> xd_id (ex_doc r) = ck_doc (ex_chunk r)
     \<and> unread (ex_doc r) \<in> unread ` set (lb_docs l)
     \<and> (\<exists>t v. (t = ck_text (ex_chunk r) \<or> d = Document \<and> fetch_full_document l (xd_id (ex_doc r)) = Some t)
          \<and> ex_flag r = Some (is_instruction_like t)
          \<and> ev_text v = cps t \<and> (ev_flag v \<longleftrightarrow> is_instruction_like t)
          \<and> ev_source v = cps (xd_path (ex_doc r)) \<and> evidence.ev_agent v = cps (xd_agent (ex_doc r))
          \<and> (let env = build_evidence_envelope (se_ucd (xe_show e)) (se_perturb (xe_show e)) v in
             expanded_texts r \<in> (case d of Headline \<Rightarrow> {[]} | Snippet \<Rightarrow> {[snippet_text env]} | Chunk \<Rightarrow> {[env]}
               | Document \<Rightarrow> {[env], [env, env]})))"

text \<open>The gate decides on the stored page.\<close>

lemma py_or_falsy: "\<not> truthy v \<Longrightarrow> py_or v w = w" "truthy v \<Longrightarrow> py_or v w = v"
  by (simp_all add: py_or_def)

lemma gate_sees_stored:
  "can_read_document h (Some p) ws (row_json c x) \<longleftrightarrow> can_read_document h (Some p) ws (JObj (stored_metadata x))"
proof -
  define md where "md = (case row_json c x of JObj kvs \<Rightarrow> kvs)"
  have md: "row_json c x = JObj md" by (simp add: md_def row_json_def)
  have ag: "doc_agent md = doc_agent (stored_metadata x)"
    by (simp add: md_def doc_agent_def row_json_def stored_metadata_def jget_or_def)
  have pt: "doc_page_type md = doc_page_type (stored_metadata x)"
    by (simp add: md_def doc_page_type_def row_json_def stored_metadata_def jget_or_def)
  have pr: "doc_privacy md = doc_privacy (stored_metadata x)"
    by (cases "xd_privacy x") (simp_all add: md_def doc_privacy_def row_json_def stored_metadata_def jget_or_def
        or_text_def py_or_def)
  have path: "truthy (first_of_keys md [''path'', ''source'', ''filename''])
      = truthy (first_of_keys (stored_metadata x) [''path'', ''source'', ''filename''])"
    "truthy (first_of_keys md [''path'', ''source'', ''filename'']) \<Longrightarrow>
       first_of_keys md [''path'', ''source'', ''filename''] =
       first_of_keys (stored_metadata x) [''path'', ''source'', ''filename'']"
    by (auto simp: md_def row_json_def stored_metadata_def jget_or_def py_or_def basename_def)
  have ws: "first_of_keys md [''workspace_id'', ''workspace'', ''ws'']
      = first_of_keys (stored_metadata x) [''workspace_id'', ''workspace'', ''ws'']"
    by (simp add: md_def row_json_def stored_metadata_def jget_or_def)
  have same: "doc_same_agent p md = doc_same_agent p (stored_metadata x)" by (simp add: doc_same_agent_def ag pt)
  have "path_gate h p md = path_gate h p (stored_metadata x)"
    using path unfolding path_gate_def Let_def same by (cases "truthy (first_of_keys md [''path'', ''source'', ''filename''])") simp_all
  moreover have "workspace_gate p ws md = workspace_gate p ws (stored_metadata x)"
    by (simp only: workspace_gate_def ws same)
  moreover have "session_gate p md = session_gate p (stored_metadata x)"
    by (simp only: session_gate_def ag pt same)
  moreover have "audience_gate p md = audience_gate p (stored_metadata x)"
    by (simp only: audience_gate_def shared_page_def ag pt pr same)
  ultimately show ?thesis unfolding md can_read_document_def by simp
qed

lemma doc_of_id: "doc_of l i = Some x \<Longrightarrow> xd_id x = i \<and> x \<in> set (lb_docs l)"
  by (auto simp: doc_of_def find_Some_iff)

lemma joined_ids: "joined l c = Some (c', x) \<Longrightarrow> c' = c \<and> xd_id x = ck_doc c \<and> x \<in> set (lb_docs l)"
  by (auto simp: joined_def dest: doc_of_id)

lemma first_joined:
  assumes "(case List.map_filter (joined l) cs of [] \<Rightarrow> None | y # _ \<Rightarrow> Some y) = Some (c, x)"
  shows "c \<in> set cs \<and> xd_id x = ck_doc c \<and> x \<in> set (lb_docs l)"
proof -
  have "(c, x) \<in> set (List.map_filter (joined l) cs)" using assms by (auto split: list.splits)
  then obtain c' where "c' \<in> set cs" "joined l c' = Some (c, x)" by (auto simp: map_filter_def)
  then show ?thesis using joined_ids by fastforce
qed

lemma by_chunk_id: "by_chunk l i = Some (c, x) \<Longrightarrow>
     ck_id c = i \<and> c \<in> set (lb_chunks l) \<and> xd_id x = ck_doc c \<and> x \<in> set (lb_docs l)"
  unfolding by_chunk_def by (drule first_joined) auto

lemma by_doc_id: "by_doc l i = Some (c, x) \<Longrightarrow>
     xd_id x = i \<and> c \<in> set (lb_chunks l) \<and> xd_id x = ck_doc c \<and> x \<in> set (lb_docs l)"
  unfolding by_doc_def by (drule first_joined) auto

lemma find_row_kind:
  assumes "find_row l k i = Some (c, x)"
  shows "c \<in> set (lb_chunks l) \<and> xd_id x = ck_doc c \<and> x \<in> set (lb_docs l)
    \<and> (k = ChunkId \<longrightarrow> ck_id c = i) \<and> (k = DocId \<longrightarrow> xd_id x = i) \<and> (ck_id c = i \<or> xd_id x = i)"
  using assms by (cases k) (auto simp: find_row_def dest: by_chunk_id by_doc_id split: option.splits)

lemma expand_cases:
  assumes "expand_result e (Some p) (p_workspace_id p) u d k i l = (Inr (Some r), l')"
  shows "find_row l k i = Some (ex_chunk r, ex_doc r)" and "readable e p r" and "shown_from e d l r"
    and "ex_wikilink r = None" and "ex_depth r = d"
proof -
  obtain c x where f: "find_row l k i = Some (c, x)"
    using assms by (auto simp: expand_result_def split: option.splits if_splits)
  define t where "t = or_text (if d = Document \<and> \<not> xe_late e then fetch_full_document l (xd_id x) else None) (ck_text c)"
  have g: "can_read_document (xe_host e) (Some p) (p_workspace_id p) (row_json c x)"
    using assms f by (auto simp: expand_result_def Let_def split: if_splits)
  have r: "r = \<lparr>ex_chunk = c, ex_doc = x, ex_text = expand_envelope e x t,
      ex_full = (if d = Document \<and> \<not> xe_late e then Some (expand_envelope e x t) else None),
      ex_flag = Some (is_instruction_like t), ex_degraded = (d = Document \<and> xe_late e), ex_wikilink = None, ex_depth = d\<rparr>"
    using assms f g by (auto simp: expand_result_def Let_def t_def split: if_splits)
  show "find_row l k i = Some (ex_chunk r, ex_doc r)" "readable e p r" "ex_wikilink r = None" "ex_depth r = d"
    using f g by (simp_all add: r readable_def gate_sees_stored)
  have stored: "c \<in> set (lb_chunks l)" "xd_id x = ck_doc c" "x \<in> set (lb_docs l)"
    using find_row_kind [OF f] by auto
  have t: "t = ck_text c \<or> d = Document \<and> fetch_full_document l (xd_id x) = Some t"
    unfolding t_def or_text_def by (auto split: option.splits if_splits)
  define v where "v = \<lparr>ev_source = cps (xd_path x), evidence.ev_agent = cps (xd_agent x),
        ev_status = cps (or_text (xd_status x) ''candidate''),
        ev_privacy = cps (or_text (xd_privacy x) ''safe''), ev_score = 0, ev_flag = is_instruction_like t,
        ev_visibility = cps ''authorized-via-expand'', ev_text = cps t, ev_attribution = xe_claim e t\<rparr>"
  have env: "expand_envelope e x t = build_evidence_envelope (se_ucd (xe_show e)) (se_perturb (xe_show e)) v"
    by (simp add: expand_envelope_def v_def)
  show "shown_from e d l r"
    unfolding shown_from_def
  proof (intro conjI exI [of _ t] exI [of _ v])
    show "let env = build_evidence_envelope (se_ucd (xe_show e)) (se_perturb (xe_show e)) v in
        expanded_texts r \<in> (case d of Headline \<Rightarrow> {[]} | Snippet \<Rightarrow> {[snippet_text env]} | Chunk \<Rightarrow> {[env]}
               | Document \<Rightarrow> {[env], [env, env]})"
      unfolding r env [symmetric] Let_def by (cases d) (simp_all add: expanded_texts_def)
  qed (use stored t in \<open>auto simp: r v_def\<close>)
qed

theorem expand_sound:
  assumes "expand_result e (Some p) (p_workspace_id p) u d k i l = (Inr (Some r), l')"
  shows "readable e p r \<and> shown_from e d l r
    \<and> (k = ChunkId \<longrightarrow> ck_id (ex_chunk r) = i) \<and> (k = DocId \<longrightarrow> xd_id (ex_doc r) = i)"
  using expand_cases [OF assms] find_row_kind by blast

lemma expand_answers: "sql_int i \<Longrightarrow> \<exists>x l'. expand_result e p w u d k i l = (Inr x, l')"
  by (cases p; cases "find_row l k i") (auto simp: expand_result_def Let_def)

text \<open>The read is counted before the gate is asked.\<close>

theorem denied_expand_counts_access:
  assumes "find_row l k i = Some (c, x)" and "sql_int i"
    and "\<not> can_read_document (xe_host e) (Some p) (p_workspace_id p) (row_json c x)"
  shows "expand_result e (Some p) (p_workspace_id p) True d k i l = (Inr None, bump (se_now (xe_show e)) (xd_id x) l)"
  using assms by (simp add: expand_result_def Let_def)

section \<open>Drilling\<close>

text \<open>A drill changes the counts of reads only, so what is shown later was there from the start.\<close>

definition same_rows :: "library \<Rightarrow> library \<Rightarrow> bool" where
  "same_rows l l' \<longleftrightarrow> lb_chunks l' = lb_chunks l \<and> lb_fts l' = lb_fts l
     \<and> map unread (lb_docs l') = map unread (lb_docs l)"

lemma kept_refl [simp]: "same_rows l l"
  by (simp add: same_rows_def)

lemma kept_trans: "same_rows a b \<Longrightarrow> same_rows b c \<Longrightarrow> same_rows a c"
  by (simp add: same_rows_def)

lemma bump_kept: "same_rows l (bump t i l)"
  by (auto simp: same_rows_def bump_def unread_def)

lemma expand_kept: "expand_result e p w u d k i l = (x, l') \<Longrightarrow> same_rows l l'"
  by (auto simp: expand_result_def Let_def bump_kept split: if_splits option.splits)

lemma shown_from_kept: "same_rows l l' \<Longrightarrow> shown_from e d l' r \<Longrightarrow> shown_from e d l r"
proof -
  assume k: "same_rows l l'" and s: "shown_from e d l' r"
  have docs: "unread ` set (lb_docs l') = unread ` set (lb_docs l)" using k by (metis same_rows_def set_map)
  have chunks: "lb_chunks l' = lb_chunks l" using k by (simp add: same_rows_def)
  have body: "fetch_full_document l' i = fetch_full_document l i" for i
    using k unfolding same_rows_def fetch_full_document_def by (elim conjE) (simp only:)
  show ?thesis using s unfolding shown_from_def docs chunks body .
qed

text \<open>A result answers an id when its chunk or its document has it, and a reference when it has the id and the source given.\<close>

definition answers_id :: "json \<Rightarrow> expanded \<Rightarrow> bool" where
  "answers_id v r \<longleftrightarrow> py_int v \<in> {Some (ck_id (ex_chunk r)), Some (xd_id (ex_doc r))}"

definition answers_reference :: "engines \<Rightarrow> jobj \<Rightarrow> expanded \<Rightarrow> bool" where
  "answers_reference en ref r \<longleftrightarrow>
     (let raw = first_of_keys ref [''chunk_id'', ''doc_id'', ''result_id''] in
      (raw \<noteq> JNull \<longrightarrow> answers_id raw r) \<and> (raw = JNull \<longrightarrow> truthy (ref_source ref))
      \<and> (truthy (ref_source ref) \<longrightarrow> same_path en (xd_path (ex_doc r)) (py_str (ref_source ref))))"

lemma expand_id: "expand_result e (Some p) (p_workspace_id p) u d k i l = (Inr (Some r), l') \<Longrightarrow>
    ck_id (ex_chunk r) = i \<or> xd_id (ex_doc r) = i"
  using expand_cases(1) find_row_kind by blast

lemma expand_ids_sound:
  "expand_ids e en p d ref is l = (Inr (Some r), l') \<Longrightarrow>
     readable e p r \<and> shown_from e d l r \<and> reference_matches en r ref \<and> ex_wikilink r = None
     \<and> (\<exists>i\<in>set is. ck_id (ex_chunk r) = i \<or> xd_id (ex_doc r) = i)"
proof (induction "is" arbitrary: l)
  case (Cons i "is")
  obtain x l1 where x: "expand_result e (Some p) (p_workspace_id p) True d (reference_id_kind ref) i l = (Inr x, l1)"
    using Cons.prems by (auto split: prod.splits sum.splits)
  show ?case
  proof (cases "\<exists>r'. x = Some r' \<and> reference_matches en r' ref")
    case True
    then have "x = Some r" "reference_matches en r ref" using Cons.prems x by auto
    then show ?thesis using expand_cases(2,3,4) expand_id x by fastforce
  next
    case False
    then have "expand_ids e en p d ref is l1 = (Inr (Some r), l')" using Cons.prems x by (auto split: option.splits)
    from Cons.IH [OF this] show ?thesis using shown_from_kept [OF expand_kept [OF x]] by auto
  qed
qed simp

lemma expand_ids_kept: "expand_ids e en p d ref is l = (x, l') \<Longrightarrow> same_rows l l'"
proof (induction "is" arbitrary: l)
  case (Cons i "is")
  obtain y l1 where y: "expand_result e (Some p) (p_workspace_id p) True d (reference_id_kind ref) i l = (y, l1)"
    by fastforce
  have "l' = l1 \<or> expand_ids e en p d ref is l1 = (x, l')"
    using Cons.prems y by (auto split: sum.splits option.splits if_splits)
  then show ?case using Cons.IH [of l1] expand_kept [OF y] kept_trans by blast
qed simp

lemma map_filter_member: "i \<in> set (List.map_filter f xs) \<Longrightarrow> \<exists>x\<in>set xs. f x = Some i"
  by (auto simp: map_filter_def)

lemma reference_ids_asked:
  "reference_ids en ref l = Inr is \<Longrightarrow> first_of_keys ref [''chunk_id'', ''doc_id'', ''result_id''] \<noteq> JNull \<Longrightarrow> i \<in> set is \<Longrightarrow>
     py_int (first_of_keys ref [''chunk_id'', ''doc_id'', ''result_id'']) = Some i"
  by (auto simp: reference_ids_def Let_def split: if_splits option.splits)

lemma ref_wikilink_given: "ref_wikilink ref \<noteq> [] \<Longrightarrow> truthy (jget ref ''wikilink'') \<and> py_str (jget ref ''wikilink'') \<noteq> []"
proof (rule ccontr)
  assume w: "ref_wikilink ref \<noteq> []" and "\<not> (truthy (jget ref ''wikilink'') \<and> py_str (jget ref ''wikilink'') \<noteq> [])"
  then have "(if truthy (jget ref ''wikilink'') then py_strip (py_str (jget ref ''wikilink'')) else []) = []"
    by (auto simp: py_strip_def)
  then have "ref_wikilink ref = []" unfolding ref_wikilink_def Let_def by (simp only:) simp
  then show False using w by simp
qed

lemma matched_reference:
  assumes "reference_ids en ref l = Inr is" "reference_matches en r ref" "ex_wikilink r = None"
    "i \<in> set is" "ck_id (ex_chunk r) = i \<or> xd_id (ex_doc r) = i"
  shows "answers_reference en ref r"
proof -
  let ?raw = "first_of_keys ref [''chunk_id'', ''doc_id'', ''result_id'']"
  have "answers_id ?raw r" if "?raw \<noteq> JNull"
    using reference_ids_asked [OF assms(1) that assms(4)] assms(5) by (auto simp: answers_id_def)
  moreover have "truthy (ref_source ref)" if n: "?raw = JNull"
  proof (rule ccontr)
    assume f: "\<not> truthy (ref_source ref)"
    have "i \<in> set (List.map_filter (\<lambda>x.
           if truthy (ref_source ref) \<and> same_path en (xd_path x) (py_str (ref_source ref)) then Some (xd_id x)
           else if ref_wikilink ref \<noteq> [] \<and> path_to_wikilink (xd_path x) = Some (ref_wikilink ref)
           then Some (xd_id x) else None) (lb_docs l))"
      using assms(1,4) n unfolding reference_ids_def Let_def
      by (simp only: n int_overflows_def json.case if_False not_True_eq_False sum.inject simp_thms)
    then have "ref_wikilink ref \<noteq> []" using f by (auto dest!: map_filter_member split: if_splits)
    then have w: "truthy (jget ref ''wikilink'')" "py_str (jget ref ''wikilink'') \<noteq> []"
      using ref_wikilink_given by simp_all
    have "or_text (ex_wikilink r) [] = py_str (jget ref ''wikilink'')"
      using assms(2) unfolding reference_matches_def if_not_P [OF f] if_P [OF w(1)] .
    then show False using w(2) assms(3) by (simp add: or_text_def)
  qed
  moreover have "same_path en (xd_path (ex_doc r)) (py_str (ref_source ref))" if "truthy (ref_source ref)"
    using assms(2) that by (simp add: reference_matches_def)
  ultimately show ?thesis unfolding answers_reference_def Let_def by blast
qed

text \<open>Results of the references, over the engines as they were before the drill.\<close>

definition all_kept :: "(nat \<Rightarrow> library) \<Rightarrow> (nat \<Rightarrow> library) \<Rightarrow> bool" where
  "all_kept ls ls' \<longleftrightarrow> (\<forall>k. same_rows (ls k) (ls' k))"

lemma all_kept_refl [simp]: "all_kept ls ls"
  by (simp add: all_kept_def)

lemma all_kept_trans: "all_kept a b \<Longrightarrow> all_kept b c \<Longrightarrow> all_kept a c"
  unfolding all_kept_def using kept_trans by blast

lemma all_kept_upd: "same_rows (ls k) l' \<Longrightarrow> all_kept ls (ls(k := l'))"
  by (simp add: all_kept_def)

lemma expand_over_sound:
  "expand_over e en p d ref ks ls = (Inr (Some r), ls') \<Longrightarrow> readable e p r \<and> reference_matches en r ref
     \<and> ex_wikilink r = None \<and> answers_reference en ref r \<and> (\<exists>k\<in>set ks. shown_from e d (ls k) r)"
proof (induction ks arbitrary: ls)
  case (Cons k ks)
  obtain ids where ids: "reference_ids en ref (ls k) = Inr ids" using Cons.prems by (auto split: sum.splits)
  obtain x l1 where x: "expand_ids e en p d ref ids (ls k) = (Inr x, l1)"
    using Cons.prems ids by (auto split: prod.splits sum.splits)
  show ?case
  proof (cases x)
    case None
    then have "expand_over e en p d ref ks (ls(k := l1)) = (Inr (Some r), ls')" using Cons.prems ids x by simp
    from Cons.IH [OF this] obtain k' where h: "readable e p r" "reference_matches en r ref" "ex_wikilink r = None"
      "answers_reference en ref r" "k' \<in> set ks" "shown_from e d ((ls(k := l1)) k') r" by blast
    have "shown_from e d (ls k') r"
      using h(6) shown_from_kept [OF expand_ids_kept [OF x]] by (cases "k' = k") auto
    then show ?thesis using h(1-5) by auto
  next
    case (Some r')
    then have "r' = r" using Cons.prems ids x by simp
    then show ?thesis using expand_ids_sound x Some matched_reference [OF ids] by fastforce
  qed
qed simp

lemma expand_over_kept: "expand_over e en p d ref ks ls = (x, ls') \<Longrightarrow> all_kept ls ls'"
proof (induction ks arbitrary: ls)
  case (Cons k ks)
  show ?case
  proof (cases "reference_ids en ref (ls k)")
    case (Inl m)
    then show ?thesis using Cons.prems by simp
  next
    case (Inr ids)
    obtain y l1 where y: "expand_ids e en p d ref ids (ls k) = (y, l1)" by fastforce
    have "ls' = ls(k := l1) \<or> expand_over e en p d ref ks (ls(k := l1)) = (x, ls')"
      using Cons.prems Inr y by (auto split: sum.splits option.splits)
    then show ?thesis
      using Cons.IH [of "ls(k := l1)"] all_kept_upd [of ls k l1, OF expand_ids_kept [OF y]] all_kept_trans by blast
  qed
qed simp

definition good_answer :: "expand_env \<Rightarrow> effective_principal \<Rightarrow> depth \<Rightarrow> (nat \<Rightarrow> library) \<Rightarrow> expanded \<Rightarrow> bool" where
  "good_answer e p d ls r \<longleftrightarrow> readable e p r \<and> (\<exists>k. shown_from e d (ls k) r)"

lemma drill_ids_sound:
  "drill_ids e p d is l = (Inr (rs, ms), l') \<Longrightarrow>
     (\<forall>r\<in>set rs. readable e p r \<and> shown_from e d l r \<and> (\<exists>i\<in>set is. ck_id (ex_chunk r) = i \<or> xd_id (ex_doc r) = i))
     \<and> length rs + length ms = length is \<and> same_rows l l'"
proof (induction "is" arbitrary: l rs ms l')
  case (Cons i "is")
  obtain r l1 where r: "expand_result e (Some p) (p_workspace_id p) True d Auto i l = (Inr r, l1)"
    using Cons.prems by (auto split: prod.splits sum.splits)
  obtain rest l2 where rest: "drill_ids e p d is l1 = (rest, l2)" by (cases "drill_ids e p d is l1")
  obtain rs' ms' where x: "rest = Inr (rs', ms')"
    "(rs, ms) = (case r of None \<Rightarrow> (rs', JInt i # ms') | Some x \<Rightarrow> (x # rs', ms'))" "l' = l2"
    using Cons.prems by (cases rest) (auto simp: r rest)
  note k = expand_kept [OF r] and ih = Cons.IH [OF rest [unfolded x(1)]]
  have later: "\<forall>r\<in>set rs'. readable e p r \<and> shown_from e d l r
      \<and> (\<exists>j\<in>set (i # is). ck_id (ex_chunk r) = j \<or> xd_id (ex_doc r) = j)"
    using ih shown_from_kept [OF k] by auto
  have "same_rows l l'" using k ih x(3) kept_trans by blast
  then show ?case
  proof (cases r)
    case None
    then show ?thesis using x(2) later ih \<open>same_rows l l'\<close> by auto
  next
    case (Some y)
    then show ?thesis
      using x(2) later ih \<open>same_rows l l'\<close> expand_cases(2,3) [OF r [unfolded Some]] expand_id [OF r [unfolded Some]] by auto
  qed
qed simp

lemma drill_references_sound:
  "drill_references e en p d n refs ls = (Inr (rs, ms), ls') \<Longrightarrow>
     (\<forall>r\<in>set rs. good_answer e p d ls r \<and> (\<exists>ref\<in>set refs. answers_reference en ref r))
     \<and> length rs + length ms = length refs"
proof (induction refs arbitrary: n ls rs ms ls')
  case (Cons ref refs)
  obtain r ls1 where r: "expand_reference e en p d ref ls = (Inr r, ls1)"
    using Cons.prems by (auto split: prod.splits sum.splits)
  obtain rest ls2 where rest: "drill_references e en p d (Suc n) refs ls1 = (rest, ls2)"
    by (cases "drill_references e en p d (Suc n) refs ls1")
  obtain rs' ms' where x: "rest = Inr (rs', ms')"
    "(rs, ms) = (case r of None \<Rightarrow> (rs', missing_label n ref # ms') | Some x \<Rightarrow> (x # rs', ms'))"
    using Cons.prems by (cases rest) (auto simp: r rest)
  note over = r [unfolded expand_reference_def]
  note ih = Cons.IH [OF rest [unfolded x(1)]]
  have later: "\<forall>r\<in>set rs'. good_answer e p d ls r \<and> (\<exists>ref'\<in>set (ref # refs). answers_reference en ref' r)"
    using ih expand_over_kept [OF over] shown_from_kept unfolding good_answer_def all_kept_def by fastforce
  then show ?case
  proof (cases r)
    case None
    then show ?thesis using x(2) later ih by auto
  next
    case (Some y)
    have "good_answer e p d ls y \<and> answers_reference en ref y"
      using expand_over_sound [OF over [unfolded Some]] by (auto simp: good_answer_def)
    then show ?thesis using x(2) later ih Some by auto
  qed
qed simp

lemma all_some_length: "all_some xs = Some ys \<Longrightarrow> length ys = length xs"
  by (induction xs arbitrary: ys rule: all_some.induct) auto

lemma parse_ids_length: "parse_ids xs = Inr (Some is) \<Longrightarrow> length is = length xs"
proof (induction xs arbitrary: "is")
  case (Cons v vs)
  then show ?case
    by (cases "parse_ids vs"; cases "py_int v") (auto split: if_splits)
qed simp

lemma parse_ids_members: "parse_ids xs = Inr (Some is) \<Longrightarrow> i \<in> set is \<Longrightarrow> \<exists>v\<in>set xs. py_int v = Some i"
proof (induction xs arbitrary: "is")
  case (Cons v vs)
  then show ?case
    by (cases "parse_ids vs"; cases "py_int v") (auto split: if_splits)
qed simp

lemma all_some_members: "all_some xs = Some ys \<Longrightarrow> y \<in> set ys \<Longrightarrow> Some y \<in> set xs"
  by (induction xs arbitrary: ys rule: all_some.induct) auto

lemma drill_args_bound: "drill_args w = Inr (xs, ys, d) \<Longrightarrow> length xs + length ys \<le> 20"
  by (auto simp: drill_args_def Let_def split: if_splits option.splits)


text \<open>A fetched result has no wikilink, so a reference by wikilink never matches one.\<close>

text \<open>
  C40. A drill reference by wikilink alone never yields a result, whatever the indexes hold:
  the fetched row carries no wikilink, so it never matches the reference that found it.
\<close>

theorem wikilink_drill_finds_nothing:
  assumes "jget ref ''wikilink'' = JStr (c # cs)" and "\<not> truthy (ref_source ref)"
  shows "fst (expand_reference e en p d ref ls) \<noteq> Inr (Some r)"
proof
  assume "fst (expand_reference e en p d ref ls) = Inr (Some r)"
  then obtain ls' where "expand_over e en p d ref (reference_candidates en ref) ls = (Inr (Some r), ls')"
    by (metis expand_reference_def prod.collapse)
  from expand_over_sound [OF this] show False
    using assms by (auto simp: reference_matches_def or_text_def)
qed

section \<open>A concrete index\<close>

definition demo_library :: library where
  "demo_library = \<lparr>lb_docs = [\<lparr>xd_id = 7, xd_path = ''/v/wiki/plan.md'', xd_agent = ''codex'', xd_sigil = [],
       xd_privacy = None, xd_type = Some ''wiki'', xd_status = None, xd_access = 0, xd_last = None\<rparr>,
     \<lparr>xd_id = 8, xd_path = ''/v/wiki/secret.md'', xd_agent = ''main'', xd_sigil = [],
       xd_privacy = Some ''private'', xd_type = Some ''wiki'', xd_status = None, xd_access = 0, xd_last = None\<rparr>],
     lb_chunks = [\<lparr>ck_id = 8, ck_doc = 7, ck_text = ''the plan'', ck_heading = None\<rparr>,
       \<lparr>ck_id = 9, ck_doc = 8, ck_text = ''a secret'', ck_heading = None\<rparr>], lb_fts = []\<rparr>"

definition tree_host :: host where
  "tree_host = demo_host\<lparr>resolve_path := (\<lambda>s. Some (split_on (CHR ''/'') s))\<rparr>"

definition demo_expand :: expand_env where
  "demo_expand = \<lparr>xe_show = demo_show, xe_host = tree_host, xe_claim = (\<lambda>_. None), xe_late = False\<rparr>"

definition demo_reader :: effective_principal where
  "demo_reader = demo_agent ''codex'' [JStr ''read''] [''/v'']"

definition demo_engines :: engines where
  "demo_engines = \<lparr>en_db = (\<lambda>_. ''/db''), en_personal = None, en_vaults = [], en_resolve = Some\<rparr>"

definition demo_chunk :: "int \<Rightarrow> int \<Rightarrow> string \<Rightarrow> chunk" where
  "demo_chunk i d t = \<lparr>ck_id = i, ck_doc = d, ck_text = t, ck_heading = None\<rparr>"

lemma demo_rows:
  "find_row demo_library DocId 8 = Some (demo_chunk 9 8 ''a secret'', lb_docs demo_library ! 1)"
  "find_row demo_library ChunkId 8 = Some (demo_chunk 8 7 ''the plan'', lb_docs demo_library ! 0)"
  "find_row demo_library DocId 7 = Some (demo_chunk 8 7 ''the plan'', lb_docs demo_library ! 0)"
  by code_simp+

lemma demo_gate:
  "can_read_document tree_host (Some demo_reader) (p_workspace_id demo_reader)
     (row_json (demo_chunk 8 7 ''the plan'') (lb_docs demo_library ! 0))"
  "\<not> can_read_document tree_host (Some demo_reader) (p_workspace_id demo_reader)
     (row_json (demo_chunk 9 8 ''a secret'') (lb_docs demo_library ! 1))"
  by code_simp+

lemma demo_expands:
  "\<exists>r l'. expand_result demo_expand (Some demo_reader) (p_workspace_id demo_reader) True Chunk ChunkId 8 demo_library
     = (Inr (Some r), l') \<and> xd_id (ex_doc r) = 7"
  "\<exists>r l'. expand_result demo_expand (Some demo_reader) (p_workspace_id demo_reader) True Chunk DocId 7 demo_library
     = (Inr (Some r), l') \<and> xd_id (ex_doc r) = 7"
proof -
  have h: "xe_host demo_expand = tree_host" "\<not> xe_late demo_expand" by (simp_all add: demo_expand_def)
  have s: "sql_int 8" "sql_int 7" by (simp_all add: sql_int_def)
  have w: "p_workspace_id demo_reader \<noteq> []" by (simp add: demo_reader_def demo_agent_def)
  have i: "xd_id (lb_docs demo_library ! 0) = 7" by (simp add: demo_library_def)
  show "\<exists>r l'. expand_result demo_expand (Some demo_reader) (p_workspace_id demo_reader) True Chunk ChunkId 8 demo_library
     = (Inr (Some r), l') \<and> xd_id (ex_doc r) = 7"
    using h s w i demo_rows(2) demo_gate(1) by (simp add: expand_result_def Let_def)
  show "\<exists>r l'. expand_result demo_expand (Some demo_reader) (p_workspace_id demo_reader) True Chunk DocId 7 demo_library
     = (Inr (Some r), l') \<and> xd_id (ex_doc r) = 7"
    using h s w i demo_rows(3) demo_gate(1) by (simp add: expand_result_def Let_def)
qed

theorem expand_sound_witness:
  "\<exists>r l'. expand_result demo_expand (Some demo_reader) (p_workspace_id demo_reader) True Chunk ChunkId 8 demo_library
     = (Inr (Some r), l') \<and> readable demo_expand demo_reader r \<and> ck_id (ex_chunk r) = 8"
  using demo_expands(1) expand_sound by blast

theorem denied_expand_counts_access_witness:
  "map xd_access (lb_docs (snd (expand_result demo_expand (Some demo_reader) (p_workspace_id demo_reader) True Chunk DocId 8
     demo_library))) = [0, 1]
   \<and> fst (expand_result demo_expand (Some demo_reader) (p_workspace_id demo_reader) True Chunk DocId 8 demo_library) = Inr None"
proof -
  have "sql_int 8" by (simp add: sql_int_def)
  moreover have "\<not> can_read_document (xe_host demo_expand) (Some demo_reader) (p_workspace_id demo_reader)
     (row_json (demo_chunk 9 8 ''a secret'') (lb_docs demo_library ! 1))"
    using demo_gate(2) by (simp add: demo_expand_def)
  ultimately have "expand_result demo_expand (Some demo_reader) (p_workspace_id demo_reader) True Chunk DocId 8 demo_library
    = (Inr None, bump (se_now (xe_show demo_expand)) (xd_id (lb_docs demo_library ! 1)) demo_library)"
    by (rule denied_expand_counts_access [OF demo_rows(1)])
  then show ?thesis by (simp add: bump_def demo_library_def)
qed

definition drill_call :: "json \<Rightarrow> json \<Rightarrow> call_params" where
  "drill_call ids refs = \<lparr>cp_wire = [(''result_ids'', ids), (''references'', refs)], cp_principal = Some demo_reader\<rparr>"

lemma demo_snippet:
  "\<exists>r l'. expand_result demo_expand (Some demo_reader) (p_workspace_id demo_reader) True Snippet Auto 8 demo_library
     = (Inr (Some r), l') \<and> xd_path (ex_doc r) = ''/v/wiki/plan.md''"
proof -
  have "find_row demo_library Auto 8 = Some (demo_chunk 8 7 ''the plan'', lb_docs demo_library ! 0)" by code_simp
  moreover have "xe_host demo_expand = tree_host" "\<not> xe_late demo_expand" by (simp_all add: demo_expand_def)
  moreover have "sql_int 8" "p_workspace_id demo_reader \<noteq> []" by (simp_all add: sql_int_def demo_reader_def demo_agent_def)
  moreover have "xd_path (lb_docs demo_library ! 0) = ''/v/wiki/plan.md''" by (simp add: demo_library_def)
  ultimately show ?thesis using demo_gate(1) by (simp add: expand_result_def Let_def)
qed


theorem wikilink_drill_finds_nothing_witness:
  "reference_ids demo_engines [(''wikilink'', JStr ''[[wiki/plan]]'')] demo_library = Inr [7]
   \<and> readable demo_expand demo_reader (\<lparr>ex_chunk = demo_chunk 8 7 ''the plan'', ex_doc = lb_docs demo_library ! 0,
        ex_text = [], ex_full = None, ex_flag = None, ex_degraded = False, ex_wikilink = None, ex_depth = Chunk\<rparr>)
   \<and> (\<forall>r. fst (expand_reference demo_expand demo_engines demo_reader Chunk [(''wikilink'', JStr ''[[wiki/plan]]'')]
        (\<lambda>_. demo_library)) \<noteq> Inr (Some r))"
proof (intro conjI allI)
  show "reference_ids demo_engines [(''wikilink'', JStr ''[[wiki/plan]]'')] demo_library = Inr [7]" by code_simp
  show "readable demo_expand demo_reader (\<lparr>ex_chunk = demo_chunk 8 7 ''the plan'', ex_doc = lb_docs demo_library ! 0,
        ex_text = [], ex_full = None, ex_flag = None, ex_degraded = False, ex_wikilink = None, ex_depth = Chunk\<rparr>)"
    using demo_gate(1) by (simp add: readable_def demo_expand_def gate_sees_stored)
  fix r
  show "fst (expand_reference demo_expand demo_engines demo_reader Chunk [(''wikilink'', JStr ''[[wiki/plan]]'')]
        (\<lambda>_. demo_library)) \<noteq> Inr (Some r)"
    by (rule wikilink_drill_finds_nothing) (simp_all add: jget_or_def ref_source_def py_or_def)
qed

end
