(* ===== verification/Reading.thy ===== *)
theory Reading
  imports Recall Episodic Drill_Laws "HOL-Library.Product_Lexorder"
begin

text \<open>
  The remaining ways to read memory: \<^verbatim>\<open>search_learnings\<close> of \<^verbatim>\<open>src/minni/retrieval.py\<close>, and
  \<^verbatim>\<open>handle_read\<close>, \<^verbatim>\<open>handle_feedback\<close> and \<^verbatim>\<open>handle_sm_export_pack\<close> of \<^verbatim>\<open>minnid_runtime/recall.py\<close>.
  The markdown layout of the startup context is left out: its sections are lists of rows.
\<close>

section \<open>\<^verbatim>\<open>int(x)\<close> with its exceptions\<close>

definition py_int_exc :: "json \<Rightarrow> pyerr + int" where
  "py_int_exc v =
     (case py_int v of
        Some n \<Rightarrow> Inr n
      | None \<Rightarrow> (case v of
           JFloat PosInf _ \<Rightarrow> Inl (RuntimeError ''OverflowError'')
         | JFloat NegInf _ \<Rightarrow> Inl (RuntimeError ''OverflowError'')
         | JFloat _ _ \<Rightarrow> Inl (ValueError ''cannot convert float NaN to integer'')
         | JStr _ \<Rightarrow> Inl (ValueError ''invalid literal for int() with base 10'')
         | _ \<Rightarrow> Inl TypeError))"

section \<open>Learnings\<close>

text \<open>\<^verbatim>\<open>INSERT OR IGNORE\<close> into \<^verbatim>\<open>learning_reads\<close>.\<close>

definition insert_read :: "learning_read \<Rightarrow> learning_read list \<Rightarrow> learning_read list" where
  "insert_read r rs = (if r \<in> set rs then rs else rs @ [r])"

definition record_reads :: "string \<Rightarrow> real \<Rightarrow> learning list \<Rightarrow> db \<Rightarrow> db" where
  "record_reads agent tnow ls d =
     d\<lparr>reads := foldl (\<lambda>rs l. insert_read \<lparr>lr_learning = l_id l, lr_agent = agent, lr_at = tnow\<rparr> rs) (reads d) ls\<rparr>"

definition learning_scope :: "pdir \<Rightarrow> string option \<Rightarrow> seq_arg option \<Rightarrow> bool \<Rightarrow> pyerr + string list" where
  "learning_scope pd agent scope cross =
     (if cross then Inr []
      else case scope of
        Some s \<Rightarrow> Inr (normalize_agent_filter s)
      | None \<Rightarrow> if or_text agent [] \<noteq> [] then agent_scope_for pd (or_text agent []) else Inr [])"

definition match_learnings :: "(string \<Rightarrow> learning list) \<Rightarrow> string list \<Rightarrow> int \<Rightarrow> string \<Rightarrow> learning list" where
  "match_learnings matching scope limit q =
     sql_limit limit (filter (\<lambda>l. learning_active l \<and> (scope = [] \<or> l_agent l \<in> set scope)) (matching q))"

text \<open>
  \<open>matching q d\<close> are the learnings of the index that match, best first; \<open>late\<close>: the deadline
  rolls the tracking back.  The access counters of learnings are not part of the store.
\<close>

definition search_learnings ::
  "(string \<Rightarrow> db \<Rightarrow> learning list) \<Rightarrow> pdir \<Rightarrow> string \<Rightarrow> string option \<Rightarrow> seq_arg option \<Rightarrow> bool \<Rightarrow> int
    \<Rightarrow> bool \<Rightarrow> bool \<Rightarrow> real \<Rightarrow> db \<Rightarrow> pyerr + (learning list \<times> db)" where
  "search_learnings matching pd query agent scope cross limit update_access late tnow d =
     (let q = sanitize_fts_query query
      in if q = [] then Inr ([], d)
         else bind_result (learning_scope pd agent scope cross) (\<lambda>ids.
           let strict = match_learnings (\<lambda>q. matching q d) ids limit q;
               ls = (if strict = [] \<and> 1 < length (py_split q)
                     then match_learnings (\<lambda>q. matching q d) ids limit (or_query q) else strict)
           in Inr (ls, if ls \<noteq> [] \<and> update_access \<and> \<not> late
                       then record_reads (or_text agent ''unknown'') tnow (py_take limit ls) d else d)))"

section \<open>\<^verbatim>\<open>handle_read\<close>\<close>

record page =
  pg_path :: string
  pg_agent :: string
  pg_sigil :: string
  pg_whole :: bool
  pg_first :: "string option option"     \<comment> \<open>text of chunk 0\<close>
  pg_access :: int
  pg_decay :: real
  pg_last :: "real option"
  pg_privacy :: "string option"
  pg_type :: "string option"

record read_state =
  rs_pages :: "page list"
  rs_db :: db
  rs_episodes :: episodic_db

record startup =
  su_identity :: "(string \<times> string) list"
  su_prior :: "page list"
  su_learnings :: "learning list"
  su_recent :: "episode list"

definition identity_files :: "string \<Rightarrow> page list \<Rightarrow> (string \<times> string) list" where
  "identity_files agent pages =
     List.map_filter (\<lambda>x. map_option (\<lambda>t. (basename (pg_path x), or_text t [])) (pg_first x))
       (sort_key pg_path (filter (\<lambda>x. pg_agent x = ''identity:'' @ agent \<and> pg_whole x) pages))"

text \<open>SQLite's LIKE folds ASCII case.\<close>

definition prior_scope :: "string \<Rightarrow> page \<Rightarrow> bool" where
  "prior_scope agent x \<longleftrightarrow>
     (pg_agent x = agent \<or> pg_agent x = ''unknown'' \<or> starts_with ''wiki:'' (py_lower (pg_agent x))) \<and> \<not> pg_whole x"

text \<open>The row as the gate sees it: its privacy is always \<^verbatim>\<open>safe\<close>.\<close>

definition prior_json :: "page \<Rightarrow> json" where
  "prior_json x = JObj [(''path'', JStr (pg_path x)), (''agent'', JStr (pg_agent x)),
     (''page_type'', JStr (if substr_of ''wiki'' (pg_agent x) then ''wiki'' else ''knowledge'')),
     (''privacy_level'', JStr ''safe'')]"

definition prior_context :: "host \<Rightarrow> effective_principal \<Rightarrow> int \<Rightarrow> page list \<Rightarrow> page list" where
  "prior_context h p limit pages =
     filter (\<lambda>x. can_read_document h (Some p) (p_workspace_id p) (prior_json x))
       (sql_limit limit (sort_desc (\<lambda>x. pg_decay x * real_of_int (pg_access x))
         (sort_key (\<lambda>x. pg_last x = None) (sort_desc (\<lambda>x. case pg_last x of None \<Rightarrow> 0 | Some t \<Rightarrow> t)
           (filter (prior_scope (p_agent_id p)) pages)))))"

definition own_learnings :: "string \<Rightarrow> db \<Rightarrow> learning list" where
  "own_learnings agent d =
     take 10 (sort_desc l_created (filter (\<lambda>l. l_agent l = agent \<and> l_superseded_by l = None) (learnings d)))"

definition recent_activity :: "string \<Rightarrow> episodic_db \<Rightarrow> episode list" where
  "recent_activity agent d = take 5 (sort_desc ep_at (filter (\<lambda>e. ep_agent e = agent \<and> is_memory e) (ed_events d)))"

definition handle_read ::
  "gate \<Rightarrow> host \<Rightarrow> real \<Rightarrow> call_params \<Rightarrow> json \<Rightarrow> read_state \<Rightarrow> (pyerr + startup reply_of) \<times> read_state" where
  "handle_read g h tnow params rid s =
     (case handler_principal g params rid ''agent_id'' of
        Inl exc \<Rightarrow> (Inl exc, s)
      | Inr (Inl err) \<Rightarrow> (Inr (Refusal err), s)
      | Inr (Inr p) \<Rightarrow>
          (case py_int_exc (jget_or (JInt 5) (cp_wire params) ''limit'') of
             Inl exc \<Rightarrow> (Inl exc, s)
           | Inr n \<Rightarrow>
               (let limit = min n 20; a = p_agent_id p
                in if \<not> sql_int limit
                   then (Inr (Refusal (make_error (-32000) (''Read error: '' @ OVERFLOW_MESSAGE) rid JNull)), s)
                   else let ls = own_learnings a (rs_db s)
                        in (Inr (Reply \<lparr>su_identity = identity_files a (rs_pages s),
                               su_prior = prior_context h p limit (rs_pages s), su_learnings = ls,
                               su_recent = recent_activity a (rs_episodes s)\<rparr>),
                            s\<lparr>rs_db := record_reads a tnow ls (rs_db s)\<rparr>))))"

section \<open>\<^verbatim>\<open>handle_feedback\<close>\<close>

definition handle_feedback ::
  "gate \<Rightarrow> (string \<Rightarrow> string) \<Rightarrow> int \<Rightarrow> call_params \<Rightarrow> json \<Rightarrow> feedback_db \<times> feedback_cache
    \<Rightarrow> (pyerr + feedback_row reply_of) \<times> (feedback_db \<times> feedback_cache)" where
  "handle_feedback g sha tnow params rid st =
     (let wire = cp_wire params; query = jget_or (JStr []) wire ''query''; raw = jget wire ''result_id'';
          bad = (\<lambda>m. (Inr (Refusal (make_error (-32602) m rid JNull)), st))
      in if \<not> truthy query then bad ''query is required''
         else if raw = JNull then bad ''result_id is required''
         else if int_overflows raw then (Inl (RuntimeError ''OverflowError''), st)
         else case py_int raw of
           None \<Rightarrow> bad ''result_id must be an integer''
         | Some i \<Rightarrow>
             (let useful = truthy (jget_or (JBool False) wire ''useful'')
              in case handler_principal g params rid ''agent_id'' of
                Inl exc \<Rightarrow> (Inl exc, st)
              | Inr (Inl err) \<Rightarrow> (Inr (Refusal err), st)
              | Inr (Inr p) \<Rightarrow>
                  (case query of
                     JStr q \<Rightarrow>
                       (if \<not> sql_int i then (Inr (Refusal (make_error (-32000) (''Feedback error: '' @ OVERFLOW_MESSAGE) rid JNull)), st)
                        else let st' = record_feedback sha q i useful (p_agent_id p) tnow st
                             in (Inr (Reply (last (fd_rows (fst st')))), st'))
                   | _ \<Rightarrow> (Inr (Refusal (make_error (-32000) ''Feedback error'' rid JNull)), st))))"

section \<open>\<^verbatim>\<open>handle_sm_export_pack\<close>\<close>

text \<open>A result of \<^verbatim>\<open>retrieve\<close> at the snippet tier; \<open>pr_tokens\<close> is 0 where it has no count.\<close>

record pack_row =
  pr_source :: string
  pr_doc :: "int option"
  pr_chunk :: "int option"
  pr_text :: ucs
  pr_tokens :: int
  pr_score :: real

definition anchor_for_result :: "(string \<Rightarrow> string) \<Rightarrow> pack_row \<Rightarrow> string" where
  "anchor_for_result sha r =
     (case (pr_doc r, pr_chunk r) of
        (Some d, Some c) \<Rightarrow> ''sm://doc/'' @ py_str (JInt d) @ ''/chunk/'' @ py_str (JInt c)
      | (Some d, None) \<Rightarrow> ''sm://doc/'' @ py_str (JInt d)
      | _ \<Rightarrow> ''sm://source/'' @ take 16 (sha (if pr_source r = [] then ''unknown'' else pr_source r)))"

definition anchor_key :: "pack_row \<Rightarrow> string \<times> int \<times> int" where
  "anchor_key r = (pr_source r, case pr_doc r of None \<Rightarrow> 0 | Some d \<Rightarrow> d, case pr_chunk r of None \<Rightarrow> 0 | Some c \<Rightarrow> c)"

definition prefix_order :: "pack_row list \<Rightarrow> pack_row list" where
  "prefix_order rs = sort_key anchor_key rs"

definition row_tokens :: "pack_row \<Rightarrow> int" where
  "row_tokens r = (if pr_tokens r \<noteq> 0 then pr_tokens r else max 1 (int (length (pr_text r)) div 4))"

fun suffix_from :: "int \<Rightarrow> int \<Rightarrow> bool \<Rightarrow> pack_row list \<Rightarrow> pack_row list" where
  "suffix_from budget used started [] = []"
| "suffix_from budget used started (r # rs) =
     (if started \<and> budget < used + row_tokens r then []
      else r # suffix_from budget (used + row_tokens r) True rs)"

record context_pack =
  cp_cache_key :: string
  cp_query :: string
  cp_budget :: int
  cp_agent :: string
  cp_workspace :: json
  cp_anchors :: "(string \<times> int option \<times> int option \<times> string) list"
  cp_snippets :: "(string \<times> ucs \<times> real \<times> int) list"
  cp_tokens :: int

definition export_pack ::
  "(string \<Rightarrow> string) \<Rightarrow> string \<Rightarrow> string \<Rightarrow> int \<Rightarrow> string \<Rightarrow> json \<Rightarrow> pack_row list \<Rightarrow> context_pack" where
  "export_pack sha key query budget agent workspace rs =
     (let kept = suffix_from budget 0 False rs
      in \<lparr>cp_cache_key = key, cp_query = query, cp_budget = budget, cp_agent = agent, cp_workspace = workspace,
          cp_anchors = map (\<lambda>r. (anchor_for_result sha r, pr_doc r, pr_chunk r, pr_source r)) (prefix_order rs),
          cp_snippets = map (\<lambda>r. (anchor_for_result sha r, pr_text r, pr_score r, row_tokens r)) kept,
          cp_tokens = sum_list (map row_tokens kept)\<rparr>)"

text \<open>
  \<open>retrieve query limit p\<close> is the engine: an exception or the rows.  \<open>digest\<close> is the SHA-256 of
  the canonical JSON text.
\<close>

definition handle_sm_export_pack ::
  "gate \<Rightarrow> (string \<Rightarrow> string) \<Rightarrow> (context_pack \<Rightarrow> string) \<Rightarrow> (string \<Rightarrow> int \<Rightarrow> effective_principal \<Rightarrow> string + pack_row list)
    \<Rightarrow> real \<Rightarrow> call_params \<Rightarrow> json \<Rightarrow> pyerr + (context_pack \<times> string) reply_of" where
  "handle_sm_export_pack g sha digest retrieve tnow params rid =
     (case handler_principal g params rid ''agent_id'' of
        Inl exc \<Rightarrow> Inl exc
      | Inr (Inl err) \<Rightarrow> Inr (Refusal err)
      | Inr (Inr p) \<Rightarrow>
          (let wire = cp_wire params; query = py_strip (py_str (jget_or (JStr []) wire ''query''))
           in if query = [] then Inr (Refusal (make_error (-32602) ''query is required'' rid JNull))
              else bind_result (py_int_exc (jget_or (JInt 4096) wire ''budget_tokens'')) (\<lambda>budget.
                bind_result (py_int_exc (jget_or (JInt 12) wire ''limit'')) (\<lambda>n.
                bind_result (search_deadline_monotonic wire tnow) (\<lambda>_.
                  Inr (case retrieve query (min n 50) p of
                    Inl m \<Rightarrow> Refusal (make_error (-32000) (''Export pack error: '' @ m) rid JNull)
                  | Inr rs \<Rightarrow>
                      (let pack = export_pack sha (py_str (jget_or (JStr ''default'') wire ''cache_key'')) query budget
                             (p_agent_id p) (jget wire ''workspace_id'') rs
                       in Reply (pack, digest pack))))))))"

end
