(* ===== verification/Reading_Laws.thy ===== *)
theory Reading_Laws
  imports Reading
begin

text \<open>
  What the readers of memory promise: whose rows they show, that a read is tracked so that later
  corrections reach the reader, and that an exported pack is stable.
\<close>

section \<open>Learnings\<close>

lemma insert_reads_set:
  "set (foldl (\<lambda>rs l. insert_read (f l) rs) rs ls) = set rs \<union> f ` set ls"
  by (induction ls arbitrary: rs) (auto simp: insert_read_def)

lemma recorded: "l \<in> set ls \<Longrightarrow> \<lparr>lr_learning = l_id l, lr_agent = a, lr_at = t\<rparr> \<in> set (reads (record_reads a t ls d))"
  by (simp add: record_reads_def insert_reads_set)

lemma record_keeps [simp]:
  "learnings (record_reads a t ls d) = learnings d" "events (record_reads a t ls d) = events d"
  "candidates (record_reads a t ls d) = candidates d"
  by (simp_all add: record_reads_def)

lemma match_sound:
  "l \<in> set (match_learnings m ids limit q) \<Longrightarrow> learning_active l \<and> (ids = [] \<or> l_agent l \<in> set ids) \<and> l \<in> set (m q)"
  by (auto simp: match_learnings_def sql_limit_def split: if_splits dest: in_set_takeD)

lemma match_length: "0 \<le> limit \<Longrightarrow> int (length (match_learnings m ids limit q)) \<le> limit"
  by (simp add: match_learnings_def sql_limit_def)

theorem learning_search_scoped:
  assumes "search_learnings matching pd query (Some agent) None False limit u late tnow d = Inr (ls, d')" and "agent \<noteq> []"
  shows "\<exists>ids. (ls \<noteq> [] \<longrightarrow> agent_scope_for pd agent = Inr ids)
    \<and> list_all (\<lambda>l. learning_active l \<and> l_agent l \<in> set ids) ls
    \<and> learnings d' = learnings d \<and> candidates d' = candidates d \<and> events d' = events d"
proof (cases "sanitize_fts_query query = []")
  case True
  then show ?thesis using assms by (auto simp: search_learnings_def)
next
  case False
  then obtain ids where ids: "agent_scope_for pd agent = Inr ids"
    using assms by (cases "agent_scope_for pd agent")
      (auto simp: search_learnings_def learning_scope_def or_text_def Let_def)
  have "ls = (let q = sanitize_fts_query query; strict = match_learnings (\<lambda>q. matching q d) ids limit q
      in if strict = [] \<and> 1 < length (py_split q) then match_learnings (\<lambda>q. matching q d) ids limit (or_query q) else strict)"
    and k: "learnings d' = learnings d \<and> candidates d' = candidates d \<and> events d' = events d"
    using assms False ids
    by (auto simp: search_learnings_def learning_scope_def or_text_def Let_def split: if_splits)
  then have "l \<in> set ls \<Longrightarrow> learning_active l \<and> (ids = [] \<or> l_agent l \<in> set ids)" for l
    by (auto simp: Let_def dest: match_sound split: if_splits)
  moreover have "ids \<noteq> []" using agent_scope_for_sound [OF ids] by blast
  ultimately show ?thesis using ids k by (intro exI [of _ ids]) (auto simp: list_all_iff)
qed

lemma searched_learning_is_read:
  assumes "search_learnings matching pd query (Some agent) scope cross limit True False tnow d = Inr (ls, d')"
    and "agent \<noteq> []" and "0 \<le> limit" and "l \<in> set ls"
  shows "\<lparr>lr_learning = l_id l, lr_agent = agent, lr_at = tnow\<rparr> \<in> set (reads d')"
proof -
  have q: "sanitize_fts_query query \<noteq> []" using assms(1,4) by (auto simp: search_learnings_def)
  then obtain ids where ids: "learning_scope pd (Some agent) scope cross = Inr ids"
    using assms(1) by (cases "learning_scope pd (Some agent) scope cross") (auto simp: search_learnings_def Let_def)
  have ls: "ls = (let q = sanitize_fts_query query; strict = match_learnings (\<lambda>q. matching q d) ids limit q
      in if strict = [] \<and> 1 < length (py_split q) then match_learnings (\<lambda>q. matching q d) ids limit (or_query q) else strict)"
    and d': "d' = record_reads agent tnow (py_take limit ls) d"
    using assms(1,2,4) q ids by (auto simp: search_learnings_def Let_def or_text_def split: if_splits)
  have "int (length ls) \<le> limit" using match_length [OF assms(3)] unfolding ls by (simp add: Let_def)
  then have "py_take limit ls = ls" using assms(3) by (simp add: py_take_def)
  then show ?thesis using recorded [OF assms(4)] d' by simp
qed

lemma subscribed_correction:
  assumes "handle_subscribe_contradictions e params (Inr p) d = Ok r" and "subscribe_window e params = Ok w"
    and "x \<in> set (events d)" and "event_since e w \<le> ev_at x"
    and "has_read d (p_agent_id p) (read_since e w) (ev_superseded x)"
  shows "x \<in> set (sb_events r) \<and> sb_status r = ''matched''"
proof -
  have "x \<in> set (subscribed_events e w (p_agent_id p) d)" using assms(3-5) by (simp add: subscribed_events_def)
  then show ?thesis
    using assms(1,2)
    by (auto simp: handle_subscribe_contradictions_def Let_def split: if_split_asm)
qed

text \<open>
  C33. When a search in time, that tracks its reads, returned a learning to an agent, and
  later a correction, by anyone, that supersedes it succeeds, and the reads and events stay in
  the store, then a subscription of the agent whose windows cover the read and the correction
  is told about it: its events include one that names the learning, the correcting learning
  and the time of the correction.
\<close>

theorem correction_reaches_reader:
  assumes "search_learnings matching pd query (Some (p_agent_id p)) scope cross limit True False tnow d0 = Inr (ls, d1)"
    and "p_agent_id p \<noteq> []" and "0 \<le> limit" and "l \<in> set ls"
    and "set (reads d1) \<subseteq> set (reads d2)"
    and "handle_resolve_contradiction ec cparams who d2 = (Ok cr, d3)" and "l_id l \<in> set (cr_superseded cr)"
    and "set (reads d3) \<subseteq> set (reads d4)" and "set (events d3) \<subseteq> set (events d4)"
    and "handle_subscribe_contradictions es sparams (Inr p) d4 = Ok r" and "subscribe_window es sparams = Ok w"
    and "event_since es w \<le> now ec"
    and "case read_since es w of None \<Rightarrow> True | Some t \<Rightarrow> t \<le> tnow"
  shows "(\<exists>x \<in> set (sb_events r). ev_superseded x = l_id l \<and> ev_new x = cr_learning cr \<and> ev_at x = now ec)
    \<and> sb_status r = ''matched''"
proof -
  obtain x where x: "x \<in> set (events d3)" "ev_superseded x = l_id l" "ev_new x = cr_learning cr" "ev_at x = now ec"
    and k: "reads d3 = reads d2"
    using correction_events [OF assms(6,7)] by blast
  have "\<lparr>lr_learning = l_id l, lr_agent = p_agent_id p, lr_at = tnow\<rparr> \<in> set (reads d4)"
    using searched_learning_is_read [OF assms(1-4)] assms(5,8) k by auto
  then have "has_read d4 (p_agent_id p) (read_since es w) (ev_superseded x)"
    using assms(13) x(2) by (force simp: has_read_def list_ex_iff split: option.splits)
  from subscribed_correction [OF assms(10,11) _ _ this] x assms(9,12)
  show ?thesis by auto
qed

section \<open>\<^verbatim>\<open>handle_read\<close>\<close>

lemma prior_sound:
  assumes "x \<in> set (prior_context h p n pages)"
  shows "x \<in> set pages \<and> prior_scope (p_agent_id p) x \<and> can_read_document h (Some p) (p_workspace_id p) (prior_json x)"
proof -
  have sub: "x \<in> set (sql_limit n ys) \<Longrightarrow> x \<in> set ys" for ys :: "page list"
    by (auto simp: sql_limit_def split: if_splits dest: in_set_takeD)
  have "x \<in> set (filter (prior_scope (p_agent_id p)) pages) \<and> can_read_document h (Some p) (p_workspace_id p) (prior_json x)"
    using assms unfolding prior_context_def sort_desc_def set_filter
    by (metis (no_types, lifting) mem_Collect_eq set_filter set_sort sub)
  then show ?thesis by simp
qed

theorem read_shows_own:
  assumes "handle_read g h tnow params rid s = (Inr (Reply r), s')"
    and "handler_principal g params rid ''agent_id'' = Inr (Inr p)"
  shows "list_all (\<lambda>l. l_agent l = p_agent_id p \<and> l_superseded_by l = None
       \<and> \<lparr>lr_learning = l_id l, lr_agent = p_agent_id p, lr_at = tnow\<rparr> \<in> set (reads (rs_db s'))) (su_learnings r)
    \<and> list_all (\<lambda>e. ep_agent e = p_agent_id p \<and> is_memory e) (su_recent r)
    \<and> list_all (\<lambda>x. prior_scope (p_agent_id p) x \<and> can_read_document h (Some p) (p_workspace_id p) (prior_json x)) (su_prior r)
    \<and> length (su_learnings r) \<le> 10 \<and> length (su_recent r) \<le> 5 \<and> learnings (rs_db s') = learnings (rs_db s)"
proof -
  obtain n where r: "r = \<lparr>su_identity = identity_files (p_agent_id p) (rs_pages s),
      su_prior = prior_context h p n (rs_pages s), su_learnings = own_learnings (p_agent_id p) (rs_db s),
      su_recent = recent_activity (p_agent_id p) (rs_episodes s)\<rparr>"
    and s': "s' = s\<lparr>rs_db := record_reads (p_agent_id p) tnow (own_learnings (p_agent_id p) (rs_db s)) (rs_db s)\<rparr>"
    using assms by (auto simp: handle_read_def Let_def split: sum.splits if_splits)
  have "list_all (\<lambda>l. l_agent l = p_agent_id p \<and> l_superseded_by l = None) (own_learnings (p_agent_id p) (rs_db s))"
    by (auto simp: own_learnings_def list_all_iff sort_desc_def dest: in_set_takeD)
  moreover have "list_all (\<lambda>e. ep_agent e = p_agent_id p \<and> is_memory e) (recent_activity (p_agent_id p) (rs_episodes s))"
    by (auto simp: recent_activity_def list_all_iff sort_desc_def dest: in_set_takeD)
  moreover have "list_all (\<lambda>l. \<lparr>lr_learning = l_id l, lr_agent = p_agent_id p, lr_at = tnow\<rparr> \<in> set (reads (rs_db s')))
      (own_learnings (p_agent_id p) (rs_db s))"
    by (simp add: s' list_all_iff recorded)
  moreover have "list_all (\<lambda>x. prior_scope (p_agent_id p) x \<and> can_read_document h (Some p) (p_workspace_id p) (prior_json x))
      (prior_context h p n (rs_pages s))"
    unfolding list_all_iff using prior_sound by blast
  moreover have "length (own_learnings (p_agent_id p) (rs_db s)) \<le> 10" "length (recent_activity (p_agent_id p) (rs_episodes s)) \<le> 5"
    by (simp_all add: own_learnings_def recent_activity_def)
  ultimately show ?thesis unfolding list_all_iff r startup.simps by (simp add: s')
qed

text \<open>
  The gate is told that every page is safe, so a private wiki page of someone else is listed.
\<close>

definition private_page :: page where
  "private_page = \<lparr>pg_path = ''/v/ops/plan.md'', pg_agent = ''wiki:ops'', pg_sigil = [], pg_whole = False, pg_first = None,
     pg_access = 1, pg_decay = 1, pg_last = None, pg_privacy = Some ''private'', pg_type = Some ''wiki''\<rparr>"

definition page_json :: "page \<Rightarrow> json" where
  "page_json x = JObj [(''path'', JStr (pg_path x)), (''agent'', JStr (pg_agent x)),
     (''page_type'', case pg_type x of None \<Rightarrow> JNull | Some t \<Rightarrow> JStr t),
     (''privacy_level'', JStr (or_text (pg_privacy x) ''safe''))]"

theorem read_lists_private_page:
  "prior_context tree_host demo_reader 5 [private_page] = [private_page]
   \<and> \<not> can_read_document tree_host (Some demo_reader) (p_workspace_id demo_reader) (page_json private_page)"
proof -
  have "can_read_document tree_host (Some demo_reader) (p_workspace_id demo_reader) (prior_json private_page)" by code_simp
  moreover have "\<not> can_read_document tree_host (Some demo_reader) (p_workspace_id demo_reader) (page_json private_page)"
    by code_simp
  moreover have "prior_scope (p_agent_id demo_reader) private_page" by code_simp
  ultimately show ?thesis by (simp add: prior_context_def sort_desc_def sql_limit_def)
qed

text \<open>A rejected learning is shown by \<^verbatim>\<open>read\<close>, though no search finds it.\<close>

theorem read_shows_inactive_learning:
  assumes "l_agent l = agent" and "l_superseded_by l = None" and "l_status l = Some ''rejected''"
  shows "own_learnings agent (d\<lparr>learnings := [l]\<rparr>) = [l] \<and> match_learnings (\<lambda>_. [l]) ids limit q = []"
  using assms by (simp add: own_learnings_def sort_desc_def match_learnings_def learning_active_def sql_limit_def)

section \<open>Feedback\<close>

text \<open>
  A hit of the snippet tier names its document only.  A vote for that id goes to the chunk with
  the same number, which may belong to another document.
\<close>

theorem feedback_votes_for_colliding_chunk:
  assumes "map_of (fd_chunks d) i = Some other"
  shows "fb_doc (last (fd_rows (fst (record_feedback sha q i useful agent tnow (d, c))))) = Some other"
  using assms by (simp add: record_feedback_def)

section \<open>The exported pack\<close>

lemma suffix_prefix: "\<exists>n. suffix_from budget used started rs = take n rs"
proof (induction rs arbitrary: used started)
  case (Cons r rs)
  show ?case
  proof (cases "started \<and> budget < used + row_tokens r")
    case True
    then show ?thesis by (auto intro: exI [of _ 0])
  next
    case False
    obtain n where "suffix_from budget (used + row_tokens r) True rs = take n rs" using Cons.IH by blast
    then show ?thesis using False by (intro exI [of _ "Suc n"]) simp
  qed
qed simp

lemma suffix_bound:
  "used \<le> budget \<Longrightarrow> used + sum_list (map row_tokens (suffix_from budget used True rs)) \<le> budget"
  by (induction rs arbitrary: used) (auto simp: add.assoc [symmetric])

lemma suffix_over: "budget < used \<Longrightarrow> (\<And>r. r \<in> set rs \<Longrightarrow> 0 < row_tokens r) \<Longrightarrow> suffix_from budget used True rs = []"
  by (cases rs) (fastforce)+

theorem export_pack_stable:
  assumes "mset rs = mset rs'" and "inj_on anchor_key (set rs)" and "\<And>r. r \<in> set rs \<Longrightarrow> 0 \<le> pr_tokens r"
  shows "cp_anchors (export_pack sha key query budget a ws rs) = cp_anchors (export_pack sha key query budget a ws rs')
    \<and> (cp_tokens (export_pack sha key query budget a ws rs) \<le> max 0 budget
       \<or> length (cp_snippets (export_pack sha key query budget a ws rs)) = 1)
    \<and> (\<exists>n. map (fst \<circ> snd) (cp_snippets (export_pack sha key query budget a ws rs)) = map pr_text (take n rs))"
proof -
  have "prefix_order rs = prefix_order rs'"
    unfolding prefix_order_def using assms(1,2) by (intro sort_key_inj_key_eq) simp_all
  moreover have pos: "0 < row_tokens r" if "r \<in> set rs" for r
    using assms(3) [OF that] by (auto simp: row_tokens_def max_def)
  have "sum_list (map row_tokens (suffix_from budget 0 False rs)) \<le> max 0 budget \<or> length (suffix_from budget 0 False rs) = 1"
  proof (cases rs)
    case (Cons r rest)
    show ?thesis
    proof (cases "row_tokens r \<le> budget")
      case True
      then show ?thesis using suffix_bound [of "row_tokens r" budget rest] by (simp add: Cons le_max_iff_disj)
    next
      case False
      then have "suffix_from budget (row_tokens r) True rest = []"
        using pos by (intro suffix_over) (auto simp: Cons)
      then show ?thesis by (simp add: Cons)
    qed
  qed simp
  moreover obtain n where "suffix_from budget 0 False rs = take n rs" using suffix_prefix by blast
  ultimately show ?thesis by (auto simp: export_pack_def Let_def comp_def)
qed

section \<open>Concrete readings\<close>

definition demo_learning :: "int \<Rightarrow> learning" where
  "demo_learning i = \<lparr>l_id = i, l_agent = ''codex'', l_category = ''general'', l_content = ''plan'', l_created = 1,
     l_embedding = None, l_assertion = JNull, l_applies_when = JNull, l_evidence = JNull, l_contradicts = JNull,
     l_source_query = JNull, l_confidence = JNull, l_status = None, l_superseded_by = None, l_hash = None\<rparr>"

definition read_db :: db where
  "read_db = empty_db\<lparr>learnings := [demo_learning 7], next_learning := 8\<rparr>"

lemma demo_learning_search:
  "search_learnings (\<lambda>q d. learnings d) demo_dir ''plan'' (Some ''codex'') None False 5 True False 900 read_db
     = Inr ([demo_learning 7], record_reads ''codex'' 900 [demo_learning 7] read_db)"
proof -
  have "agent_scope_for demo_dir ''codex'' = Inr [''codex'', ''old-main'']" by code_simp
  then show ?thesis
    by (simp add: search_learnings_def demo_query learning_scope_def or_text_def match_learnings_def sql_limit_def
        read_db_def empty_db_def demo_learning_def learning_active_def py_take_def Let_def)
qed

theorem learning_search_scoped_witness:
  "\<exists>ids. agent_scope_for demo_dir ''codex'' = Inr ids \<and> list_all (\<lambda>l. learning_active l \<and> l_agent l \<in> set ids) [demo_learning 7]"
  using learning_search_scoped [OF demo_learning_search] by auto

text \<open>The agent searches, corrects what it found, and asks.\<close>

lemma memory_search:
  "search_learnings (\<lambda>q d. learnings d) demo_dir ''plan'' (Some ''codex'') None False 5 True False 900 demo_memory
     = Inr (learnings demo_memory, record_reads ''codex'' 900 (learnings demo_memory) demo_memory)"
proof -
  have "agent_scope_for demo_dir ''codex'' = Inr [''codex'', ''old-main'']" by code_simp
  then show ?thesis
    by (simp add: search_learnings_def demo_query learning_scope_def or_text_def match_learnings_def sql_limit_def
        demo_memory_def empty_db_def new_learning_def insert_learning_def learning_active_def py_take_def Let_def)
qed

theorem correction_reaches_reader_witness:
  "\<exists>cr d r. handle_resolve_contradiction demo_env demo_correction (Inr (demo_agent ''codex'' [] []))
        (record_reads ''codex'' 900 (learnings demo_memory) demo_memory) = (Ok cr, d)
    \<and> handle_subscribe_contradictions demo_env [] (Inr (demo_agent ''codex'' [] [])) d = Ok r
    \<and> (\<exists>x \<in> set (sb_events r). ev_superseded x = 1 \<and> ev_new x = cr_learning cr)"
proof -
  let ?p = "demo_agent ''codex'' [] []" and ?d = "record_reads ''codex'' 900 (learnings demo_memory) demo_memory"
  have i: "p_agent_id ?p = ''codex''" by (simp add: demo_agent_def)
  obtain rs where d: "?d = demo_memory\<lparr>reads := rs\<rparr>" by (simp add: record_reads_def)
  obtain cr d where c: "handle_resolve_contradiction demo_env demo_correction (Inr ?p) ?d = (Ok cr, d)" "cr_superseded cr = [1]"
    unfolding d using demo_corrects_read [of rs] by blast
  let ?w = "\<lparr>w_since = 0, w_hours = None, w_days = 30\<rparr>"
  have w: "subscribe_window demo_env [] = Ok ?w"
    by (simp add: subscribe_window_def jget_or_def py_or_def read_number_def FLOAT_LIMIT_def Let_def
        demo_env_def clamp_def)
  obtain r where r: "handle_subscribe_contradictions demo_env [] (Inr ?p) d = Ok r"
    using w i by (simp add: handle_subscribe_contradictions_def Let_def)
  have l: "(new_learning ''codex'' ''use nix flakes'' 1)\<lparr>l_embedding := Some [1], l_id := 1\<rparr> \<in> set (learnings demo_memory)"
    by (simp add: demo_memory_def insert_learning_def empty_db_def)
  let ?l = "(new_learning ''codex'' ''use nix flakes'' 1)\<lparr>l_embedding := Some [1], l_id := 1\<rparr>"
  have s: "search_learnings (\<lambda>q d. learnings d) demo_dir ''plan'' (Some (p_agent_id ?p)) None False 5 True False 900 demo_memory
     = Inr (learnings demo_memory, ?d)"
    unfolding i by (rule memory_search)
  have "event_since demo_env ?w \<le> now demo_env" "case read_since demo_env ?w of None \<Rightarrow> True | Some t \<Rightarrow> t \<le> 900"
    by (simp_all add: event_since_def read_since_def demo_env_def)
  from correction_reaches_reader [OF s _ _ l subset_refl c(1) _ subset_refl subset_refl r w this] i c(2)
  show ?thesis using c(1) r by auto
qed

definition demo_read_state :: read_state where
  "demo_read_state = \<lparr>rs_pages = [], rs_db = read_db, rs_episodes = no_events\<rparr>"

definition plain_call :: call_params where
  "plain_call = \<lparr>cp_wire = [], cp_principal = Some demo_reader\<rparr>"

theorem read_shows_own_witness:
  "\<forall>g rid. \<exists>r s'. handle_read g tree_host 900 plain_call rid demo_read_state = (Inr (Reply r), s')
     \<and> su_learnings r = [demo_learning 7]
     \<and> \<lparr>lr_learning = 7, lr_agent = ''codex'', lr_at = 900\<rparr> \<in> set (reads (rs_db s'))"
proof (intro allI)
  fix g rid
  have p: "handler_principal g plain_call rid ''agent_id'' = Inr (Inr demo_reader)"
    by (simp add: handler_principal_def plain_call_def)
  have a: "p_agent_id demo_reader = ''codex''" by (simp add: demo_reader_def demo_agent_def)
  obtain r s' where h: "handle_read g tree_host 900 plain_call rid demo_read_state = (Inr (Reply r), s')"
    and l: "su_learnings r = own_learnings ''codex'' read_db"
    using p a by (simp add: handle_read_def plain_call_def jget_or_def py_int_exc_def sql_int_def demo_read_state_def Let_def)
  have o: "own_learnings ''codex'' read_db = [demo_learning 7]"
    by (simp add: own_learnings_def read_db_def sort_desc_def demo_learning_def)
  show "\<exists>r s'. handle_read g tree_host 900 plain_call rid demo_read_state = (Inr (Reply r), s')
     \<and> su_learnings r = [demo_learning 7]
     \<and> \<lparr>lr_learning = 7, lr_agent = ''codex'', lr_at = 900\<rparr> \<in> set (reads (rs_db s'))"
    using h l o a read_shows_own [OF h p] by (auto simp: demo_learning_def)
qed

definition demo_pack_row :: "string \<Rightarrow> int \<Rightarrow> pack_row" where
  "demo_pack_row src i = \<lparr>pr_source = src, pr_doc = Some i, pr_chunk = None, pr_text = [1], pr_tokens = 3, pr_score = 1\<rparr>"

theorem export_pack_stable_witness:
  "\<forall>sha. cp_anchors (export_pack sha ''k'' ''q'' 3 ''codex'' JNull [demo_pack_row ''b'' 1, demo_pack_row ''a'' 2])
     = cp_anchors (export_pack sha ''k'' ''q'' 3 ''codex'' JNull [demo_pack_row ''a'' 2, demo_pack_row ''b'' 1])"
proof
  fix sha
  have "mset [demo_pack_row ''b'' 1, demo_pack_row ''a'' 2] = mset [demo_pack_row ''a'' 2, demo_pack_row ''b'' 1]"
    by (simp add: add_mset_commute)
  moreover have "inj_on anchor_key (set [demo_pack_row ''b'' 1, demo_pack_row ''a'' 2])"
    by (simp add: demo_pack_row_def anchor_key_def)
  moreover have "0 \<le> pr_tokens r" if "r \<in> set [demo_pack_row ''b'' 1, demo_pack_row ''a'' 2]" for r
    using that by (auto simp: demo_pack_row_def)
  ultimately show "cp_anchors (export_pack sha ''k'' ''q'' 3 ''codex'' JNull [demo_pack_row ''b'' 1, demo_pack_row ''a'' 2])
     = cp_anchors (export_pack sha ''k'' ''q'' 3 ''codex'' JNull [demo_pack_row ''a'' 2, demo_pack_row ''b'' 1])"
    using export_pack_stable by blast
qed

end
