(* ===== verification/Recall_Laws.thy ===== *)
theory Recall_Laws
  imports Recall
begin

text \<open>
  What a search over several corpora keeps: the merge ranks and drops nothing but the
  surplus, no failing corpus erases another's hits or goes unreported, and the confidences
  of one response share one basis.
\<close>

section \<open>The merge\<close>

lemma sort_rows_mset: "mset (sort_rows b rows) = mset rows"
  by (simp add: sort_rows_def sort_desc_mset)

lemma sort_rows_set [simp]: "set (sort_rows b rows) = set rows"
  by (metis set_mset_mset sort_rows_mset)

lemma sort_rows_length [simp]: "length (sort_rows b rows) = length rows"
  by (metis size_mset sort_rows_mset)

lemma sort_rows_sorted: "sorted_wrt (\<lambda>x y. rw_score y \<le> rw_score x) (sort_rows b rows)"
  by (simp add: sort_rows_def sort_desc_sorted)

definition uniform :: "row list \<Rightarrow> bool" where
  "uniform rows \<longleftrightarrow> (\<forall>r \<in> set rows. \<forall>s \<in> set rows. rw_poisoned r = rw_poisoned s)"

lemma candidates_uniform: "uniform (candidates_of sets)"
  by (auto simp: candidates_of_def uniform_def list_ex_iff)

lemma candidates_healthy:
  "list_ex (list_ex (\<lambda>r. \<not> rw_poisoned r)) sets \<Longrightarrow> set (candidates_of sets) = {r \<in> \<Union> (set ` set sets). \<not> rw_poisoned r}"
  "\<not> list_ex (list_ex (\<lambda>r. \<not> rw_poisoned r)) sets \<Longrightarrow> set (candidates_of sets) = \<Union> (set ` set sets)"
  by (auto simp: candidates_of_def)

lemma candidates_subset: "set (candidates_of sets) \<subseteq> set (concat sets)"
  by (auto simp: candidates_of_def)

lemma candidates_nonempty: "candidates_of sets = [] \<longleftrightarrow> (\<forall>rows \<in> set sets. rows = [])"
proof -
  have "set (candidates_of sets) = {} \<longleftrightarrow> \<Union> (set ` set sets) = {}"
  proof (cases "list_ex (list_ex (\<lambda>r. \<not> rw_poisoned r)) sets")
    case True
    then have "{r \<in> \<Union> (set ` set sets). \<not> rw_poisoned r} \<noteq> {}" by (auto simp: list_ex_iff)
    then show ?thesis using candidates_healthy(1) [OF True] by auto
  qed (simp add: candidates_healthy(2))
  then show ?thesis by auto
qed

subsection \<open>Duplicates\<close>

definition covers :: "row list \<Rightarrow> row \<Rightarrow> bool" where
  "covers acc r \<longleftrightarrow> (\<exists>s \<in> set acc. result_identity s = result_identity r \<and> rw_score r \<le> rw_score s)"

lemma dedup_row_ids: "result_identity ` set (dedup_row r acc) = insert (result_identity r) (result_identity ` set acc)"
  by (induction acc) auto

lemma dedup_row_distinct:
  "distinct (map result_identity acc) \<Longrightarrow> distinct (map result_identity (dedup_row r acc))"
proof (induction acc)
  case (Cons old rest)
  then show ?case by (cases "result_identity old = result_identity r") (simp_all add: dedup_row_ids)
qed simp

lemma dedup_row_subset: "set (dedup_row r acc) \<subseteq> insert r (set acc)"
  by (induction acc) auto

lemma uniform_subset: "uniform xs \<Longrightarrow> set ys \<subseteq> set xs \<Longrightarrow> uniform ys"
  unfolding uniform_def by blast

lemma dedup_row_covers:
  assumes "uniform (r # acc)"
  shows "covers (dedup_row r acc) r \<and> (\<forall>s. covers acc s \<longrightarrow> covers (dedup_row r acc) s)"
  using assms
proof (induction acc)
  case (Cons old rest)
  have u: "uniform (r # rest)" by (rule uniform_subset [OF Cons.prems]) auto
  have p: "rw_poisoned r = rw_poisoned old" using Cons.prems unfolding uniform_def by (meson list.set_intros)
  show ?case
  proof (cases "result_identity old = result_identity r")
    case True
    then show ?thesis using p by (auto simp: covers_def replaces_def)
  next
    case False
    then show ?thesis using Cons.IH [OF u] by (auto simp: covers_def)
  qed
qed (simp add: covers_def)

lemma dedup_rows_facts:
  assumes "uniform rows"
  shows "set (dedup_rows rows) \<subseteq> set rows \<and> distinct (map result_identity (dedup_rows rows))
    \<and> result_identity ` set (dedup_rows rows) = result_identity ` set rows \<and> (\<forall>r \<in> set rows. covers (dedup_rows rows) r)"
  using assms
proof (induction rows rule: rev_induct)
  case (snoc r rows)
  let ?d = "dedup_rows rows"
  have u: "uniform rows" by (rule uniform_subset [OF snoc.prems]) auto
  note ih = snoc.IH [OF u]
  have sub: "set ?d \<subseteq> set rows" using ih by blast
  have "uniform (r # ?d)" by (rule uniform_subset [OF snoc.prems]) (use sub in auto)
  note c = dedup_row_covers [OF this]
  have s: "dedup_rows (rows @ [r]) = dedup_row r ?d" by (simp add: dedup_rows_def)
  show ?case
  proof (intro conjI)
    show "set (dedup_rows (rows @ [r])) \<subseteq> set (rows @ [r])"
      unfolding s using sub dedup_row_subset [of r ?d] by auto
    show "distinct (map result_identity (dedup_rows (rows @ [r])))"
      unfolding s by (rule dedup_row_distinct) (use ih in blast)
    show "result_identity ` set (dedup_rows (rows @ [r])) = result_identity ` set (rows @ [r])"
      unfolding s dedup_row_ids using ih by simp
    show "\<forall>x \<in> set (rows @ [r]). covers (dedup_rows (rows @ [r])) x"
      unfolding s using ih c by simp
  qed
qed (simp add: dedup_rows_def)

subsection \<open>The ranking\<close>

lemma py_take_nonneg: "0 \<le> n \<Longrightarrow> py_take n xs = take (nat n) xs"
  by (simp add: py_take_def)

text \<open>
  C30. Merging the corpora returns given rows in falling score order, as many as fit; with the
  personal corpus preferred each result once; no row of an interrupted ranking beside a
  healthy one; and every candidate left out is covered by a kept row or scores no more than
  all of them.
\<close>

theorem merge_ranks_exactly:
  assumes "0 \<le> limit"
  shows "let m = merge_document_results pers sets limit; cands = candidates_of sets
    in set m \<subseteq> set cands \<and> sorted_wrt (\<lambda>x y. rw_score y \<le> rw_score x) m
     \<and> length m = min (nat limit) (if pers then card (result_identity ` set cands) else length cands)
     \<and> (pers \<longrightarrow> distinct (map result_identity m))
     \<and> (list_ex (list_ex (\<lambda>r. \<not> rw_poisoned r)) sets \<longrightarrow> list_all (\<lambda>r. \<not> rw_poisoned r) m)
     \<and> list_all (\<lambda>r. covers m r \<or> list_all (\<lambda>s. rw_score r \<le> rw_score s) m) cands"
proof -
  let ?c = "candidates_of sets"
  let ?d = "if pers then dedup_rows ?c else ?c"
  let ?s = "sort_rows pers ?d"
  have m: "merge_document_results pers sets limit = take (nat limit) ?s"
    using assms by (simp add: merge_document_results_def py_take_nonneg)
  note f = dedup_rows_facts [OF candidates_uniform [of sets]]
  have sub: "set ?d \<subseteq> set ?c" using f by simp
  have len: "length ?d = (if pers then card (result_identity ` set ?c) else length ?c)"
  proof (cases pers)
    case True
    have "length (dedup_rows ?c) = card (result_identity ` set (dedup_rows ?c))"
      using f by (metis distinct_card length_map set_map)
    then show ?thesis using True f by simp
  qed simp
  have cov: "covers ?d r" if "r \<in> set ?c" for r
    using f that by (auto simp: covers_def)
  have dist: "distinct (map result_identity (take (nat limit) ?s))" if pers
  proof -
    have "distinct (map result_identity ?s)"
    proof -
      have "distinct (map result_identity ?d)" using f that by simp
      moreover have "mset (map result_identity ?s) = mset (map result_identity ?d)" by (simp add: sort_rows_mset)
      ultimately show ?thesis using mset_eq_imp_distinct_iff by blast
    qed
    then show ?thesis by (metis distinct_take take_map)
  qed
  have top: "covers (take (nat limit) ?s) r \<or> list_all (\<lambda>s. rw_score r \<le> rw_score s) (take (nat limit) ?s)"
    if r: "r \<in> set ?c" for r
  proof -
    obtain s where s: "s \<in> set ?s" "result_identity s = result_identity r" "rw_score r \<le> rw_score s"
      using cov [OF r] by (auto simp: covers_def)
    then consider "s \<in> set (take (nat limit) ?s)" | "s \<in> set (drop (nat limit) ?s)"
      by (metis append_take_drop_id Un_iff set_append)
    then show ?thesis
    proof cases
      case 1
      then show ?thesis using s by (auto simp: covers_def)
    next
      case 2
      then have "\<forall>x \<in> set (take (nat limit) ?s). rw_score s \<le> rw_score x"
        using sort_rows_sorted [of pers ?d] by (metis append_take_drop_id sorted_wrt_append)
      then have "\<forall>x \<in> set (take (nat limit) ?s). rw_score r \<le> rw_score x" using s(3) order_trans by blast
      then show ?thesis unfolding list_all_iff by blast
    qed
  qed
  have "list_ex (list_ex (\<lambda>r. \<not> rw_poisoned r)) sets \<Longrightarrow> \<forall>r \<in> set ?c. \<not> rw_poisoned r"
    using candidates_healthy(1) [of sets] by blast
  then have healthy: "list_ex (list_ex (\<lambda>r. \<not> rw_poisoned r)) sets \<Longrightarrow> list_all (\<lambda>r. \<not> rw_poisoned r) (take (nat limit) ?s)"
    using sub unfolding list_all_iff by (auto dest!: in_set_takeD)
  show ?thesis
    unfolding Let_def m
    using sub len top dist healthy sorted_wrt_take [OF sort_rows_sorted [of pers ?d], of "nat limit"]
    by (auto simp: list_all_iff min.commute dest!: in_set_takeD)
qed

lemma merge_subset: "0 \<le> limit \<Longrightarrow> set (merge_document_results pers sets limit) \<subseteq> set (candidates_of sets)"
proof -
  assume "0 \<le> limit"
  then have "set (merge_document_results pers sets limit)
      \<subseteq> set (if pers then dedup_rows (candidates_of sets) else candidates_of sets)"
    by (auto simp: merge_document_results_def py_take_nonneg dest!: in_set_takeD)
  then show ?thesis using dedup_rows_facts [OF candidates_uniform [of sets]] by (auto split: if_split_asm)
qed

lemma merge_empty:
  assumes "0 < limit"
  shows "merge_document_results pers sets limit = [] \<longleftrightarrow> (\<forall>rows \<in> set sets. rows = [])"
proof -
  have "dedup_rows (candidates_of sets) = [] \<longleftrightarrow> candidates_of sets = []"
    using dedup_rows_facts [OF candidates_uniform [of sets]] by fastforce
  moreover have "sort_rows pers rows = [] \<longleftrightarrow> rows = []" for rows
    by (metis length_0_conv sort_rows_length)
  ultimately show ?thesis
    using assms by (simp add: merge_document_results_def py_take_nonneg candidates_nonempty Let_def)
qed

lemma merge_healthy:
  assumes "0 \<le> limit" and "\<exists>rows \<in> set sets. \<exists>r \<in> set rows. \<not> rw_poisoned r"
  shows "\<forall>r \<in> set (merge_document_results pers sets limit). \<not> rw_poisoned r"
proof -
  have "list_ex (list_ex (\<lambda>r. \<not> rw_poisoned r)) sets" using assms(2) by (simp add: list_ex_iff)
  from candidates_healthy(1) [OF this] merge_subset [OF assms(1), of pers sets] show ?thesis by auto
qed

section \<open>A failing corpus costs only its own hits\<close>

text \<open>The calls a request makes.\<close>

definition personal_calls :: "corpora \<Rightarrow> run list" where
  "personal_calls co =
     (case co_personal co of
        None \<Rightarrow> [co_run co 0 True]
      | Some i \<Rightarrow> co_run co i True # (if is_answer (co_run co i True) then [] else [co_run co 0 True]))"

definition combined_calls :: "corpora \<Rightarrow> bool \<Rightarrow> run list" where
  "combined_calls co both = map (\<lambda>v. fst (vault_run co both (fst v))) (co_vaults co) @ [co_run co 0 False]"

definition calls :: "corpora \<Rightarrow> effective_principal option \<Rightarrow> scope \<Rightarrow> run list" where
  "calls co p scope =
     (if p = None then [co_run co 0 True]
      else case scope of Personal \<Rightarrow> personal_calls co | Combined \<Rightarrow> combined_calls co False
        | Both \<Rightarrow> personal_calls co @ combined_calls co True)"

definition has_healthy :: "row list \<Rightarrow> bool" where
  "has_healthy rows \<longleftrightarrow> list_ex (\<lambda>r. \<not> rw_poisoned r) rows"

text \<open>A call that answered with hits of an uninterrupted ranking, and what it contributes.\<close>

definition ranked_hits :: "run \<Rightarrow> row list" where
  "ranked_hits c =
     (case c of Raised e \<Rightarrow> [] | Answered a \<Rightarrow> if an_poisoned a then [] else (case an_rows a of None \<Rightarrow> [] | Some rows \<Rightarrow> rows))"

definition shows_hit :: "run \<Rightarrow> row \<Rightarrow> bool" where
  "shows_hit c r \<longleftrightarrow> list_ex (\<lambda>x. result_identity r = result_identity x \<and> rw_score r = rw_score x) (ranked_hits c)"

definition faithful_leg :: "run list \<Rightarrow> row list \<Rightarrow> bool" where
  "faithful_leg cs rows \<longleftrightarrow> (list_ex (\<lambda>c. ranked_hits c \<noteq> []) cs \<longrightarrow> has_healthy rows)
     \<and> (\<forall>r \<in> set rows. \<not> rw_poisoned r \<longrightarrow> list_ex (\<lambda>c. shows_hit c r) cs)"

lemma answer_leg: "faithful_leg [Answered a] (leg_rows a src i)"
  by (auto simp: faithful_leg_def has_healthy_def ranked_hits_def shows_hit_def leg_rows_def tag_document_results_def
      result_identity_def list_ex_iff split: option.splits if_splits)
    (metis list.set_intros(1) neq_Nil_conv)

lemma raised_leg: "faithful_leg (Raised e # cs) rows \<longleftrightarrow> faithful_leg cs rows" "faithful_leg [] []"
  by (simp_all add: faithful_leg_def ranked_hits_def shows_hit_def)

lemma shared_leg: "faithful_leg [co_run co 0 first] (fst (retrieve_shared_soft co first))"
  by (cases "co_run co 0 first")
    (simp_all add: retrieve_shared_soft_def retrieve_shared_def retrieve_from_def answer_leg raised_leg)

lemma vault_leg_faithful: "faithful_leg [fst (vault_run co both (fst v))] (fst (vault_leg co both v))"
proof -
  obtain i agent where v: "v = (i, agent)" by (cases v)
  obtain result reused where r: "vault_run co both i = (result, reused)" by fastforce
  show ?thesis by (cases result) (simp_all add: v vault_leg_def r retrieve_from_def answer_leg raised_leg)
qed

lemma personal_leg:
  assumes "retrieve_personal co soft = Inr (rows, ops)"
  shows "faithful_leg (personal_calls co) rows"
proof (cases "co_personal co")
  case None
  then show ?thesis
    using assms shared_leg [of co True]
    by (cases "co_run co 0 True")
      (auto simp: retrieve_personal_def personal_calls_def retrieve_shared_soft_def retrieve_shared_def retrieve_from_def
        raised_leg split: if_split_asm)
next
  case (Some i)
  then show ?thesis
    using assms answer_leg shared_leg [of co True]
    by (cases "co_run co i True")
      (auto simp: retrieve_personal_def personal_calls_def retrieve_from_def is_answer_def raised_leg split: prod.split_asm)
qed

lemma leg_rows_uniform: "retrieve_personal co soft = Inr (rows, ops) \<Longrightarrow> has_healthy rows \<Longrightarrow> list_all (\<lambda>r. \<not> rw_poisoned r) rows"
  by (cases "co_run co 0 True"; cases "co_personal co"; (cases "co_run co (the (co_personal co)) True")?)
    (auto simp: retrieve_personal_def retrieve_shared_soft_def retrieve_shared_def retrieve_from_def leg_rows_def
      has_healthy_def list_ex_iff list_all_iff split: if_split_asm prod.split_asm)

text \<open>Merging faithful legs is faithful to all their calls, and shows nothing interrupted beside them.\<close>

lemma merge_faithful:
  assumes "0 < limit" and "list_all2 faithful_leg css sets"
  shows "faithful_leg (concat css) (merge_document_results pers sets limit)
    \<and> (list_ex (\<lambda>c. ranked_hits c \<noteq> []) (concat css)
       \<longrightarrow> merge_document_results pers sets limit \<noteq> [] \<and> list_all (\<lambda>r. \<not> rw_poisoned r) (merge_document_results pers sets limit))"
proof -
  let ?m = "merge_document_results pers sets limit"
  have some: "?m \<noteq> [] \<and> list_all (\<lambda>r. \<not> rw_poisoned r) ?m" if ex: "list_ex (\<lambda>c. ranked_hits c \<noteq> []) (concat css)"
  proof -
    obtain cs where cs: "cs \<in> set css" "list_ex (\<lambda>c. ranked_hits c \<noteq> []) cs" using ex unfolding list_ex_iff set_concat by blast
    then obtain rows where rows: "rows \<in> set sets" "faithful_leg cs rows"
      using assms(2) by (metis in_set_conv_nth list_all2_conv_all_nth)
    then obtain r where r: "r \<in> set rows" "\<not> rw_poisoned r" using cs(2) unfolding faithful_leg_def has_healthy_def list_ex_iff by blast
    then have "?m \<noteq> []" using merge_empty [OF assms(1), of pers sets] rows(1) by fastforce
    moreover have "\<forall>x \<in> set ?m. \<not> rw_poisoned x" using merge_healthy [of limit sets pers] assms(1) rows(1) r by auto
    ultimately show ?thesis by (simp add: list_all_iff)
  qed
  moreover have "list_ex (\<lambda>c. shows_hit c r) (concat css)" if r: "r \<in> set ?m" "\<not> rw_poisoned r" for r
  proof -
    have "r \<in> set (concat sets)" using merge_subset [of limit pers sets] candidates_subset [of sets] r(1) assms(1) by auto
    then obtain rows where "rows \<in> set sets" "r \<in> set rows" by auto
    then obtain i where i: "i < length sets" "r \<in> set (sets ! i)" by (metis in_set_conv_nth)
    then have "faithful_leg (css ! i) (sets ! i)" "i < length css" using assms(2) by (auto simp: list_all2_conv_all_nth)
    then have "list_ex (\<lambda>c. shows_hit c r) (css ! i)" "css ! i \<in> set css"
      using r(2) i(2) by (simp_all add: faithful_leg_def)
    then show ?thesis unfolding list_ex_iff set_concat by blast
  qed
  ultimately show ?thesis unfolding faithful_leg_def has_healthy_def by (cases ?m) (auto simp: list_ex_iff list_all_iff)
qed

lemma combined_faithful: "list_all2 faithful_leg (map (\<lambda>c. [c]) (combined_calls co both)) (map fst (combined_legs co both))"
proof -
  have "list_all2 faithful_leg (map (\<lambda>v. [fst (vault_run co both (fst v))]) vs) (map (\<lambda>v. fst (vault_leg co both v)) vs)" for vs
    by (induction vs) (simp_all add: vault_leg_faithful)
  then show ?thesis by (simp add: combined_legs_def combined_calls_def comp_def list_all2_appendI shared_leg)
qed

lemma personal_answers:
  assumes "soft \<or> co_personal co \<noteq> None"
  shows "\<exists>rows ops. retrieve_personal co soft = Inr (rows, ops)"
proof (cases "co_personal co")
  case None
  then show ?thesis using assms by (cases "retrieve_shared_soft co True") (simp add: retrieve_personal_def)
next
  case (Some i)
  then show ?thesis
    by (cases "co_run co i True") (auto simp: retrieve_personal_def retrieve_from_def split: prod.split)
qed

lemma soft_personal: "\<exists>x. retrieve_personal co True = Inr x"
  using personal_answers [of True co] by blast

text \<open>
  C31. For a principal and a positive limit, a search over the combined or both scopes, or
  over the personal scope of an agent with a personal index, always answers, whichever calls
  on an index raise; and when any of the calls it makes (the personal index, a vault, the
  shared index) answered with hits of an uninterrupted ranking, the answer is not empty and
  every row of it is a hit of such a call, with the call's score.
\<close>

theorem failing_corpora_erase_nothing:
  assumes "scope \<noteq> Personal \<or> co_personal co \<noteq> None" and "0 < limit"
  shows "\<exists>rows k. search_documents co (Some p) scope limit = Inr (rows, k)
    \<and> (list_ex (\<lambda>c. ranked_hits c \<noteq> []) (calls co (Some p) scope)
       \<longrightarrow> rows \<noteq> [] \<and> list_all (\<lambda>r. \<not> rw_poisoned r \<and> list_ex (\<lambda>c. shows_hit c r) (calls co (Some p) scope)) rows)"
proof (cases scope)
  case Personal
  then obtain prows pops where pr: "retrieve_personal co False = Inr (prows, pops)"
    using assms(1) personal_answers [of False co] by blast
  then show ?thesis
    using Personal personal_leg [OF pr] leg_rows_uniform [OF pr]
    by (auto simp: search_documents_def calls_def faithful_leg_def has_healthy_def list_all_iff)
next
  case Combined
  then show ?thesis
    using merge_faithful [OF assms(2) combined_faithful [of co False], of False]
    by (auto simp: search_documents_def Let_def calls_def faithful_leg_def list_all_iff comp_def)
next
  case Both
  obtain prows pops where pr: "retrieve_personal co True = Inr (prows, pops)" using soft_personal [of co] by auto
  let ?m = "merge_document_results False (map fst (combined_legs co True)) limit"
  have "faithful_leg (combined_calls co True) ?m"
    using merge_faithful [OF assms(2) combined_faithful [of co True], of False] by (simp add: comp_def)
  then have "list_all2 faithful_leg [personal_calls co, combined_calls co True] [prows, ?m]" using personal_leg [OF pr] by simp
  from merge_faithful [OF assms(2) this, of True] show ?thesis
    using pr Both by (auto simp: search_documents_def Let_def calls_def faithful_leg_def list_all_iff)
qed

section \<open>Nothing degrades silently\<close>

definition sinks_ok :: "sinks \<Rightarrow> bool" where
  "sinks_ok k \<longleftrightarrow> set (sk_seen_deg k) \<subseteq> set (sk_degradations k)"

lemma replay_degradations:
  "sinks_ok k \<Longrightarrow> sinks_ok (replay_leg_ops k ops)
    \<and> set (sk_degradations (replay_leg_ops k ops)) = set (sk_degradations k) \<union> {d. \<exists>b. DegOp d b \<in> set ops}"
proof (induction ops arbitrary: k)
  case (Cons op ops)
  have "sinks_ok (replay_op k op)
    \<and> set (sk_degradations (replay_op k op)) = set (sk_degradations k) \<union> {d. \<exists>b. op = DegOp d b}"
    using Cons.prems by (cases op) (auto simp: sinks_ok_def)
  then show ?case using Cons.IH [of "replay_op k op"] by (auto simp: replay_leg_ops_def)
qed (simp add: replay_leg_ops_def)

lemma no_sinks_ok: "sinks_ok no_sinks" "sk_degradations no_sinks = []"
  by (simp_all add: sinks_ok_def no_sinks_def)

text \<open>What went wrong with a call on an engine.\<close>

definition troubled :: "run \<Rightarrow> bool" where
  "troubled r = (case r of
     Raised e \<Rightarrow> True
   | Answered a \<Rightarrow> an_rows a = None \<or> an_vector_down a \<or> list_ex (\<lambda>kv. snd kv \<noteq> []) (an_details a))"

definition alarms :: "leg_op list \<Rightarrow> bool" where
  "alarms ops \<longleftrightarrow> (\<exists>d b. DegOp d b \<in> set ops \<and> dg_degraded d)"

lemma alarms_simps [simp]:
  "alarms [] = False" "alarms (DegOp d b # ops) = (dg_degraded d \<or> alarms ops)" "alarms (xs @ ys) = (alarms xs \<or> alarms ys)"
  by (auto simp: alarms_def)

lemma leg_ops_alarm: "alarms (leg_ops a src shared agent reused) \<longleftrightarrow> troubled (Answered a)"
  by (auto simp: alarms_def leg_ops_def answer_degradation_def deadline_degradation_def degradation_for_def troubled_def
      Let_def list_ex_iff filter_empty_conv split: option.splits)

lemma failure_degraded [simp]: "dg_degraded (failure_degradation src agent key detail)"
  by (simp add: failure_degradation_def)

lemma shared_alarm: "alarms (snd (retrieve_shared_soft co first)) \<longleftrightarrow> troubled (co_run co 0 first)"
  by (auto simp: retrieve_shared_soft_def retrieve_shared_def retrieve_from_def leg_ops_alarm troubled_def [of "Raised e" for e]
      split: run.split)

lemma shared_hard_alarm: "retrieve_shared co first = Inr (rows, ops) \<Longrightarrow> alarms ops \<longleftrightarrow> troubled (co_run co 0 first)"
  by (auto simp: retrieve_shared_def retrieve_from_def leg_ops_alarm split: run.split_asm)

lemma personal_alarm:
  assumes "retrieve_personal co soft = Inr (rows, ops)"
  shows "alarms ops \<longleftrightarrow> list_ex troubled (personal_calls co)"
proof (cases "co_personal co")
  case None
  then show ?thesis
    using assms shared_alarm [of co True] shared_hard_alarm
    by (auto simp: retrieve_personal_def personal_calls_def split: if_split_asm)
next
  case (Some i)
  then show ?thesis
    using assms
    by (cases "co_run co i True")
      (auto simp: retrieve_personal_def personal_calls_def retrieve_from_def is_answer_def leg_ops_alarm
        troubled_def [of "Raised e" for e] split: prod.split_asm)
qed

lemma vault_alarm: "alarms (snd (vault_leg co both v)) \<longleftrightarrow> troubled (fst (vault_run co both (fst v)))"
proof -
  obtain i agent where v: "v = (i, agent)" by (cases v)
  obtain result reused where r: "vault_run co both i = (result, reused)" by fastforce
  show ?thesis
    by (cases result) (simp_all add: v vault_leg_def r retrieve_from_def leg_ops_alarm troubled_def [of "Raised e" for e])
qed

lemma combined_alarm: "alarms (concat (map snd (combined_legs co both))) \<longleftrightarrow> list_ex troubled (combined_calls co both)"
proof -
  have "alarms (concat (map snd (map (vault_leg co both) vs))) \<longleftrightarrow> list_ex troubled (map (\<lambda>v. fst (vault_run co both (fst v))) vs)" for vs
    by (induction vs) (simp_all add: vault_alarm)
  then show ?thesis by (simp add: combined_legs_def combined_calls_def shared_alarm)
qed

lemma replay_alarm: "list_ex dg_degraded (sk_degradations (replay_leg_ops no_sinks ops)) \<longleftrightarrow> alarms ops"
  using replay_degradations [OF no_sinks_ok(1), of ops] by (auto simp: list_ex_iff alarms_def no_sinks_ok)

lemma replay_alarm2:
  "list_ex dg_degraded (sk_degradations (replay_leg_ops (replay_leg_ops no_sinks ops) ops')) \<longleftrightarrow> alarms ops \<or> alarms ops'"
proof -
  have "replay_leg_ops (replay_leg_ops no_sinks ops) ops' = replay_leg_ops no_sinks (ops @ ops')"
    by (simp add: replay_leg_ops_def)
  then show ?thesis by (simp add: replay_alarm)
qed

lemma documents_alarm:
  assumes "search_documents co p scope limit = Inr (rows, k)"
  shows "list_ex dg_degraded (sk_degradations k) \<longleftrightarrow> list_ex troubled (calls co p scope)"
proof (cases p)
  case None
  then show ?thesis
    using assms shared_hard_alarm
    by (cases "retrieve_shared co True") (auto simp: search_documents_def calls_def replay_alarm)
next
  case (Some q)
  show ?thesis
  proof (cases scope)
    case Personal
    then show ?thesis
      using assms Some personal_alarm
      by (cases "retrieve_personal co False") (auto simp: search_documents_def calls_def replay_alarm)
  next
    case Combined
    then show ?thesis
      using assms Some combined_alarm by (auto simp: search_documents_def calls_def replay_alarm Let_def)
  next
    case Both
    obtain prows pops where pr: "retrieve_personal co True = Inr (prows, pops)" using soft_personal [of co] by auto
    then show ?thesis
      using assms Some Both combined_alarm [of co True] personal_alarm [OF pr]
      by (auto simp: search_documents_def calls_def replay_alarm2 Let_def)
  qed
qed

lemma record_alive:
  "\<not> sd_expired d \<Longrightarrow> \<exists>d'. record_score x kind d = Inr d' \<and> \<not> sd_expired d'"
  by (simp add: record_score_def Let_def)

lemma record_raws_alive: "\<not> sd_expired d \<Longrightarrow> \<exists>d'. record_raws xs d = Inr d' \<and> \<not> sd_expired d'"
proof (induction xs arbitrary: d)
  case (Cons x xs)
  show ?case
  proof (cases x)
    case (Some v)
    obtain d' where "record_score v ''combined'' d = Inr d'" "\<not> sd_expired d'" using record_alive [OF Cons.prems] by blast
    then show ?thesis using Cons.IH [of d'] Some by simp
  qed (use Cons in simp)
qed simp

lemma calibrate_alive: "\<not> sd_expired d \<Longrightarrow> \<exists>c. calibrated_confidence x d = Inr c"
  by (simp add: calibrated_confidence_def calibrate_def Let_def)

lemma calibrate_rows_alive: "\<not> sd_expired d \<Longrightarrow> \<exists>rs'. calibrate_rows skip d rs = Inr rs'"
proof (induction rs)
  case (Cons r rs)
  then obtain rs' where "calibrate_rows skip d rs = Inr rs'" by blast
  then show ?case
    using calibrate_alive [OF Cons.prems] by (cases "recordable skip r"; cases "rw_confidence r") (auto split: sum.split, metis sum.simps(4))
qed simp

lemma record_scores_alive: "\<not> sd_expired d \<Longrightarrow> \<exists>rs d'. record_scores skip rows d = Inr (rs, d')"
  using record_raws_alive [of d "map (recordable skip) rows"] calibrate_rows_alive [of _ skip rows]
  by (fastforce simp: record_scores_def)

text \<open>
  C32. An answer in time says degraded exactly when one of the calls the request made raised,
  was cut by the deadline, lost its vector leg or reported a degraded stage.
\<close>

theorem degraded_exactly_when_troubled:
  assumes "handle_search co p scope limit False d = Inr resp" and "\<not> sd_expired d"
  shows "sr_degraded resp \<longleftrightarrow> list_ex troubled (calls co p scope)"
proof -
  obtain rows k where r: "search_documents co p scope limit = Inr (rows, k)" "resp = finish_search False rows k d"
    using assms(1) by (auto simp: handle_search_def split: sum.split_asm)
  obtain rs d' where "record_scores (skip_score_record rows k) rows d = Inr (rs, d')"
    using record_scores_alive [OF assms(2)] by blast
  then have "sr_degraded resp \<longleftrightarrow> list_ex dg_degraded (sk_degradations k)"
    by (simp add: r(2) finish_search_def Let_def)
  then show ?thesis using documents_alarm [OF r(1)] by simp
qed

section \<open>What a response books\<close>

lemma set_map_filter: "set (List.map_filter f xs) = {y. \<exists>x \<in> set xs. f x = Some y}"
  by (induction xs) (auto simp: map_filter_simps split: option.split)

lemma reads_facts:
  "distinct (bump_merged_document_access rows)"
  "(i, d) \<in> set (bump_merged_document_access rows)
    \<longleftrightarrow> (\<exists>r \<in> set rows. rw_engine r = i \<and> rw_doc r = Some d \<and> \<not> rw_poisoned r)"
  by (auto simp: bump_merged_document_access_def set_map_filter)

text \<open>A row shown with a confidence of its own, or calibrated against the window \<open>d\<close>.\<close>

definition on_basis :: "score_db \<Rightarrow> bool \<Rightarrow> row \<Rightarrow> row \<Rightarrow> bool" where
  "on_basis d skip r r' \<longleftrightarrow>
     (case (recordable skip r, rw_confidence r) of
        (Some x, Some _) \<Rightarrow> (case calibrated_confidence x d of Inr c \<Rightarrow> r' = with_confidence c r | Inl e \<Rightarrow> False)
      | _ \<Rightarrow> r' = r)"

lemma calibrate_rows_basis: "calibrate_rows skip d rs = Inr rs' \<Longrightarrow> list_all2 (on_basis d skip) rs rs'"
  by (induction rs arbitrary: rs') (auto simp: on_basis_def split: sum.split_asm option.split_asm)

lemma map_sum_Inr_iff: "map_sum f g x = Inr y \<longleftrightarrow> (\<exists>z. x = Inr z \<and> y = g z)"
  by (cases x) auto

lemma record_raws_healthy:
  "record_raws (map (recordable skip) rows) d
    = (if skip then Inr d else record_raws (map rw_raw (filter (\<lambda>r. \<not> rw_poisoned r) rows)) d)"
proof (induction rows arbitrary: d)
  case (Cons r rows)
  then show ?case
    by (cases "rw_raw r"; cases "skip \<or> rw_poisoned r") (auto simp: recordable_def split: sum.split)
qed simp

theorem response_books_once:
  assumes "handle_search co p scope limit False d = Inr resp" and "\<not> sd_expired d"
    and "search_documents co p scope limit = Inr (rows, k)"
  shows "distinct (sr_reads resp)
    \<and> (\<forall>i n. (i, n) \<in> set (sr_reads resp) \<longleftrightarrow> (\<exists>r \<in> set rows. rw_engine r = i \<and> rw_doc r = Some n \<and> \<not> rw_poisoned r))
    \<and> Inr (sr_scores resp) = (if skip_score_record rows k then Inr d
         else record_raws (map rw_raw (filter (\<lambda>r. \<not> rw_poisoned r) rows)) d)
    \<and> (\<exists>shown. list_all2 (on_basis (sr_scores resp) (skip_score_record rows k)) rows shown
         \<and> sr_rows resp = normalize_caller_visible_results shown)"
proof -
  let ?skip = "skip_score_record rows k"
  have resp: "resp = finish_search False rows k d" using assms(1,3) by (simp add: handle_search_def)
  obtain rs d' where rs: "record_scores ?skip rows d = Inr (rs, d')"
    using record_scores_alive [OF assms(2)] by blast
  have f: "sr_reads resp = bump_merged_document_access rows" "sr_scores resp = d'"
    "sr_rows resp = normalize_caller_visible_results rs"
    by (simp_all add: resp finish_search_def Let_def rs)
  have d': "record_raws (map (recordable ?skip) rows) d = Inr d'" and c: "calibrate_rows ?skip d' rows = Inr rs"
    using rs by (auto simp: record_scores_def map_sum_Inr_iff split: sum.split_asm)
  show ?thesis
    unfolding f using reads_facts d' calibrate_rows_basis [OF c] by (auto simp: record_raws_healthy)
qed

section \<open>A concrete request\<close>

text \<open>The shared index raises, the vault of codex answers.\<close>

definition demo_result :: row where
  "demo_result = \<lparr>rw_source = ''/v/a.md'', rw_doc = Some 1, rw_chunk = None, rw_score = 1 / 2, rw_src = [],
     rw_engine = 0, rw_poisoned = False, rw_raw = Some (1 / 2), rw_confidence = Some (1 / 2),
     rw_status = ''accepted'', rw_flag = False, rw_action = ''cite''\<rparr>"

definition demo_answer :: answer where
  "demo_answer = \<lparr>an_rows = Some [demo_result], an_poisoned = False, an_suppressed = None, an_vector_down = False,
     an_details = [], an_trace = None\<rparr>"

definition demo_corpora :: corpora where
  "demo_corpora = \<lparr>co_personal = None, co_vaults = [(1, ''codex'')],
     co_run = (\<lambda>i first. if i = 0 then Raised ''disk image is malformed'' else Answered demo_answer)\<rparr>"

theorem failing_corpora_erase_nothing_witness:
  "\<exists>rows k. search_documents demo_corpora (Some (demo_agent ''codex'' [] [])) Combined 5 = Inr (rows, k) \<and> rows \<noteq> []
    \<and> list_all (\<lambda>r. rw_source r = ''/v/a.md'') rows"
proof -
  have c: "calls demo_corpora (Some (demo_agent ''codex'' [] [])) Combined
      = [Answered demo_answer, Raised ''disk image is malformed'']"
    by (simp add: calls_def combined_calls_def vault_run_def demo_corpora_def)
  have h: "ranked_hits (Answered demo_answer) = [demo_result]" "ranked_hits (Raised e) = []" for e
    by (simp_all add: ranked_hits_def demo_answer_def)
  have "Combined \<noteq> Personal \<or> co_personal demo_corpora \<noteq> None" "(0 :: int) < 5" by simp_all
  from failing_corpora_erase_nothing [OF this, of "demo_agent ''codex'' [] []"] show ?thesis
    by (auto simp: c h shows_hit_def result_identity_def demo_result_def list_all_iff)
qed

lemma demo_search_answers: "\<exists>resp. handle_search demo_corpora (Some (demo_agent ''codex'' [] [])) Combined 5 False fresh_scores = Inr resp"
  by (simp add: handle_search_def search_documents_def Let_def)

lemma fresh_alive: "\<not> sd_expired fresh_scores"
  by (simp add: fresh_scores_def)

theorem degraded_exactly_when_troubled_witness:
  "\<exists>resp. handle_search demo_corpora (Some (demo_agent ''codex'' [] [])) Combined 5 False fresh_scores = Inr resp
    \<and> sr_degraded resp"
proof -
  obtain resp where r: "handle_search demo_corpora (Some (demo_agent ''codex'' [] [])) Combined 5 False fresh_scores = Inr resp"
    using demo_search_answers by blast
  have "list_ex troubled (calls demo_corpora (Some (demo_agent ''codex'' [] [])) Combined)"
    by (simp add: calls_def combined_calls_def) (simp add: demo_corpora_def troubled_def)
  then show ?thesis using degraded_exactly_when_troubled [OF r fresh_alive] r by blast
qed

theorem response_books_once_witness:
  "\<exists>resp. handle_search demo_corpora (Some (demo_agent ''codex'' [] [])) Combined 5 False fresh_scores = Inr resp
    \<and> distinct (sr_reads resp)"
proof -
  obtain resp where r: "handle_search demo_corpora (Some (demo_agent ''codex'' [] [])) Combined 5 False fresh_scores = Inr resp"
    using demo_search_answers by blast
  then obtain rows k where "search_documents demo_corpora (Some (demo_agent ''codex'' [] [])) Combined 5 = Inr (rows, k)"
    by (auto simp: handle_search_def split: sum.split_asm)
  from response_books_once [OF r fresh_alive this] show ?thesis using r by blast
qed

theorem merge_ranks_exactly_witness:
  "length (merge_document_results True [[demo_result], [demo_result]] 5) = 1"
proof -
  have "(0 :: int) \<le> 5" by simp
  note m = merge_ranks_exactly [OF this, of True "[[demo_result], [demo_result]]"]
  have "candidates_of [[demo_result], [demo_result]] = [demo_result, demo_result]"
    by (simp add: candidates_of_def demo_result_def)
  then show ?thesis using m by (simp add: Let_def)
qed

end
