(* ===== verification/Shortlist_Laws.thy ===== *)
theory Shortlist_Laws
  imports Shortlist EdgeInference_Laws "HOL-Library.Sublist"
begin

text \<open>
  The laws of \<open>Shortlist\<close>: whose content is read and after which checks, and what the pairs handed
  to the classifier are.
\<close>

section \<open>Numerals\<close>

definition digits_value :: "string \<Rightarrow> nat" where
  "digits_value s = foldl (\<lambda>a c. a * 10 + (code_point c - 48)) 0 s"

lemma code_point_digit: "n < 10 \<Longrightarrow> code_point (char_of (48 + n)) = 48 + n"
  by (simp add: code_point_def)

lemma digits_value_dec: "digits_value (dec_digits n) = n"
proof (induction n rule: dec_digits.induct)
  case (1 n)
  show ?case
  proof (cases "n < 10")
    case True
    then show ?thesis by (simp add: dec_digits.simps [of n] digits_value_def code_point_digit)
  next
    case False
    then have "digits_value (dec_digits (n div 10)) = n div 10" using 1 by blast
    then show ?thesis using False
      by (simp add: dec_digits.simps [of n] digits_value_def code_point_digit)
  qed
qed

lemma dec_digits_no_minus: "CHR ''-'' \<notin> set (dec_digits n)"
proof (induction n rule: dec_digits.induct)
  case (1 n)
  have d: "char_of (48 + m) \<noteq> CHR ''-''" if "m < 10" for m :: nat
  proof
    assume "char_of (48 + m) = CHR ''-''"
    then have "code_point (char_of (48 + m)) = 45" by (simp add: code_point_def)
    then show False using that by (simp add: code_point_digit)
  qed
  show ?case
  proof (cases "n < 10")
    case True
    then show ?thesis using d [of n] by (auto simp: dec_digits.simps [of n])
  next
    case False
    then show ?thesis using 1 d [of "n mod 10"] by (auto simp: dec_digits.simps [of n])
  qed
qed

lemma dec_digits_inj: "dec_digits m = dec_digits n \<longleftrightarrow> m = n"
  by (metis digits_value_dec)

lemma int_text_inj: "int_text m = int_text n \<longleftrightarrow> m = n"
proof
  assume e: "int_text m = int_text n"
  have no: "dec_digits a \<noteq> CHR ''-'' # dec_digits b" for a b
    using dec_digits_no_minus [of a] by (metis list.set_intros(1))
  show "m = n"
    using e no no [symmetric] by (auto simp: int_text_def dec_digits_inj split: if_splits)
qed simp

section \<open>Picking documents\<close>

definition admitted :: "shortlist_env \<Rightarrow> string \<Rightarrow> string \<Rightarrow> int \<Rightarrow> jobj \<Rightarrow> bool" where
  "admitted x store ws d md \<longleftrightarrow>
     sx_metadata x store d = Some (JObj md) \<and> has_identity store d md
     \<and> can_read_document (sx_host x) (Some (sx_principal x)) ws (JObj md)
     \<and> metadata_eligible md \<and> is_digest (jget md ''content_sha256'')"

lemma examine_doc_Some: "examine_doc x store ws d = Inr (Some md) \<Longrightarrow> admitted x store ws d md"
  by (auto simp: examine_doc_def admitted_def split: option.splits json.splits if_splits)

text \<open>Metadata is read of ranked documents at or above the floor, never of the source itself.\<close>

definition looked_at :: "real \<Rightarrow> int option \<Rightarrow> (int \<times> real \<times> int) list \<Rightarrow> access \<Rightarrow> bool" where
  "looked_at fl self rs a \<longleftrightarrow>
     (\<exists>b\<in>set rs. a = ReadMetadata (fst b) \<and> fl \<le> fst (snd b) \<and> self \<noteq> Some (fst b))"

lemma looked_at_Cons: "looked_at fl self rs a \<Longrightarrow> looked_at fl self (b # rs) a"
  by (auto simp: looked_at_def)

lemma pick_docs_reads_metadata:
  "pick_docs x store ws self fl room rs = (r, acs) \<Longrightarrow> list_all (looked_at fl self rs) acs"
proof (induction rs arbitrary: room r acs)
  case (Cons b rs)
  obtain d s c where b: "b = (d, s, c)" by (cases b) auto
  note prems = Cons.prems [unfolded b pick_docs.simps]
  have lift: "list_all (looked_at fl self (b # rs)) acs'"
    if "pick_docs x store ws self fl n rs = (r', acs')" for n r' acs'
    using Cons.IH [OF that] by (auto simp: list_all_iff intro: looked_at_Cons)
  consider (full) "room = 0" | (low) "room \<noteq> 0" "s < fl" | (own) "room \<noteq> 0" "\<not> s < fl" "self = Some d"
    | (look) "room \<noteq> 0" "\<not> s < fl" "self \<noteq> Some d" by blast
  then show ?case
  proof cases
    case full
    then show ?thesis using prems by simp
  next
    case low
    then show ?thesis using prems lift by simp
  next
    case own
    obtain r' acs' where p: "pick_docs x store ws self fl room rs = (r', acs')" by fastforce
    then show ?thesis using prems own lift [OF p] by simp
  next
    case look
    have here: "looked_at fl self (b # rs) (ReadMetadata d)" using look b by (auto simp: looked_at_def)
    show ?thesis
    proof (cases "examine_doc x store ws d")
      case (Inl e)
      then show ?thesis using prems look here by auto
    next
      case (Inr m)
      obtain n r' acs' where p: "pick_docs x store ws self fl n rs = (r', acs')" "acs = ReadMetadata d # acs'"
        using prems look Inr by (cases m) (auto split: prod.splits)
      then show ?thesis using lift here by simp
    qed
  qed
qed simp

lemma pick_docs_picks:
  "pick_docs x store ws self fl room rs = (Inr (lds, n), acs) \<Longrightarrow>
     length lds \<le> room \<and> subseq (map ld_doc lds) (map fst rs)
     \<and> (\<forall>ld\<in>set lds. fl \<le> ld_cosine ld \<and> self \<noteq> Some (ld_doc ld)
          \<and> admitted x store ws (ld_doc ld) (ld_metadata ld) \<and> ReadMetadata (ld_doc ld) \<in> set acs)"
proof (induction rs arbitrary: room lds n acs)
  case (Cons b rs)
  obtain d s c where b: "b = (d, s, c)" by (cases b) auto
  note prems = Cons.prems [unfolded b pick_docs.simps]
  consider (full) "room = 0" | (low) "room \<noteq> 0" "s < fl" | (own) "room \<noteq> 0" "\<not> s < fl" "self = Some d"
    | (look) "room \<noteq> 0" "\<not> s < fl" "self \<noteq> Some d" by blast
  then show ?case
  proof cases
    case full
    then show ?thesis using prems by simp
  next
    case low
    then have "pick_docs x store ws self fl room rs = (Inr (lds, n), acs)" using prems by simp
    from Cons.IH [OF this] show ?thesis by auto
  next
    case own
    then obtain n' where "pick_docs x store ws self fl room rs = (Inr (lds, n'), acs)"
      using prems by (auto simp: bind_result_Inr_iff split: prod.splits)
    from Cons.IH [OF this] show ?thesis by auto
  next
    case look
    show ?thesis
    proof (cases "examine_doc x store ws d")
      case (Inl e)
      then show ?thesis using prems look by simp
    next
      case (Inr m)
      show ?thesis
      proof (cases m)
        case None
        then obtain n' acs' where "pick_docs x store ws self fl room rs = (Inr (lds, n'), acs')"
          and a: "acs = ReadMetadata d # acs'"
          using prems look Inr by (auto simp: bind_result_Inr_iff split: prod.splits)
        from Cons.IH [OF this(1)] show ?thesis unfolding a by auto
      next
        case (Some md)
        then obtain lds' n' acs' where p: "pick_docs x store ws self fl (room - 1) rs = (Inr (lds', n'), acs')"
          and a: "acs = ReadMetadata d # acs'"
          and l: "lds = \<lparr>ld_doc = d, ld_cosine = s, ld_chunk = c, ld_metadata = md\<rparr> # lds'"
          using prems look Inr by (auto simp: bind_result_Inr_iff split: prod.splits)
        have "admitted x store ws d md" using examine_doc_Some Inr Some by simp
        then show ?thesis using Cons.IH [OF p] look unfolding a l b by auto
      qed
    qed
  qed
qed simp

section \<open>Filling the pairs\<close>

lemma fill_pairs_reads:
  "fill_pairs x store room lds = (r, acs) \<Longrightarrow> set acs \<subseteq> (ReadContent \<circ> ld_doc) ` set lds"
proof (induction lds arbitrary: room r acs)
  case (Cons ld lds)
  obtain r1 acs1 where p1: "fill_pairs x store room lds = (r1, acs1)" by fastforce
  obtain r2 acs2 where p2: "fill_pairs x store (room - 1) lds = (r2, acs2)" by fastforce
  show ?case
    using Cons.prems Cons.IH [OF p1] Cons.IH [OF p2] p1 p2
    by (cases "fetch_text x store ld") (auto simp: Let_def split: if_splits)
qed simp

text \<open>A pair: its text was fetched for that document and matches the hash of the metadata.\<close>

definition pair_from :: "shortlist_env \<Rightarrow> string \<Rightarrow> listed_doc \<Rightarrow> descriptor \<Rightarrow> bool" where
  "pair_from x store ld p \<longleftrightarrow>
     (\<exists>s. fetch_text x store ld = Inr (Some s)
        \<and> p = describe x store ld (Some (truncate_to_tokens (sx_tokens x) (py_strip s) (nat MAX_EXCERPT_TOKENS))))"

lemma fill_pairs_splits:
  "fill_pairs x store room lds = (Inr (ps, ds), acs) \<Longrightarrow>
     length ps \<le> room
     \<and> mset (map ds_doc (ps @ ds)) = mset (map ld_doc lds)
     \<and> (\<forall>p\<in>set ps. \<exists>ld\<in>set lds. pair_from x store ld p)
     \<and> (\<forall>p\<in>set ds. \<exists>ld\<in>set lds. p = describe x store ld None)"
proof (induction lds arbitrary: room ps ds acs)
  case (Cons ld lds)
  have doc: "ds_doc (describe x store ld ex) = ld_doc ld" for ex by (simp add: describe_def Let_def)
  have held: ?case if "fill_pairs x store room lds = (Inr (ps, ds'), acs')" "ds = describe x store ld None # ds'"
    for ds' acs'
    using Cons.IH [OF that(1)] that(2) doc by auto
  show ?case
  proof (cases "room = 0")
    case True
    then obtain ds' acs' where "fill_pairs x store room lds = (Inr (ps, ds'), acs')"
      "ds = describe x store ld None # ds'"
      using Cons.prems by (auto simp: bind_result_Inr_iff Let_def split: prod.splits)
    then show ?thesis by (rule held)
  next
    case False
    then obtain t where t: "fetch_text x store ld = Inr t"
      using Cons.prems by (cases "fetch_text x store ld") auto
    show ?thesis
    proof (cases "t = None \<or> py_strip (the t) = []")
      case True
      then obtain ds' acs' where "fill_pairs x store room lds = (Inr (ps, ds'), acs')"
        "ds = describe x store ld None # ds'"
        using Cons.prems False t by (auto simp: bind_result_Inr_iff Let_def split: prod.splits)
      then show ?thesis by (rule held)
    next
      case some: False
      then obtain s where s: "t = Some s" by auto
      then obtain ps' acs' where p: "fill_pairs x store (room - 1) lds = (Inr (ps', ds), acs')"
        and ps: "ps = describe x store ld
           (Some (truncate_to_tokens (sx_tokens x) (py_strip s) (nat MAX_EXCERPT_TOKENS))) # ps'"
        using Cons.prems False t some by (auto simp: bind_result_Inr_iff Let_def split: prod.splits)
      have "pair_from x store ld (hd ps)" unfolding pair_from_def ps using t s by auto
      then show ?thesis using Cons.IH [OF p] False doc unfolding ps by auto
    qed
  qed
qed simp

section \<open>Scanning the hits\<close>

definition scan_wf :: "string \<Rightarrow> json list \<Rightarrow> hit_scan \<Rightarrow> bool" where
  "scan_wf store seen h \<longleftrightarrow> distinct (map fst (hs_best h))
     \<and> (\<forall>b\<in>set (hs_best h). \<exists>e. JObj e \<in> set seen \<and> has_identity store (fst b) e
          \<and> finite_score (jget_or (jget e ''score'') e ''cosine'') = Score (fst (snd b)))"

lemma update_member: "b \<in> set (AList.update k v xs) \<Longrightarrow> b = (k, v) \<or> b \<in> set xs"
  by (induction xs) (auto split: if_splits)

lemma scan_hit_wf:
  assumes "scan_hit store e h = Inr h'" "scan_wf store seen h"
  shows "scan_wf store (e # seen) h'"
proof -
  consider (same) "hs_best h' = hs_best h"
    | (upd) d s c o' where "e = JObj o'" "has_identity store d o'"
        "finite_score (jget_or (jget o' ''score'') o' ''cosine'') = Score s"
        "hs_best h' = AList.update d (s, c) (hs_best h)"
    using assms(1) unfolding scan_hit_def
    by (auto simp: Let_def split: json.splits score.splits option.splits if_splits)
  then show ?thesis
  proof cases
    case same
    then show ?thesis using assms(2) by (auto simp: scan_wf_def)
  next
    case upd
    have m: "b = (d, s, c) \<or> b \<in> set (hs_best h)" if "b \<in> set (hs_best h')" for b
      using that update_member unfolding upd(4) by fastforce
    have "\<exists>e'. JObj e' \<in> set (e # seen) \<and> has_identity store (fst b) e'
          \<and> finite_score (jget_or (jget e' ''score'') e' ''cosine'') = Score (fst (snd b))"
      if "b \<in> set (hs_best h')" for b
      using m [OF that] upd(1-3) assms(2) unfolding scan_wf_def by fastforce
    moreover have "distinct (map fst (hs_best h'))"
      using assms(2) unfolding upd(4) scan_wf_def by (simp add: distinct_update)
    ultimately show ?thesis unfolding scan_wf_def by blast
  qed
qed

lemma scan_hits_wf:
  "scan_hits store es h = Inr h' \<Longrightarrow> scan_wf store seen h \<Longrightarrow> scan_wf store (rev es @ seen) h'"
proof (induction es arbitrary: h seen)
  case (Cons e es)
  then obtain h1 where "scan_hit store e h = Inr h1" "scan_hits store es h1 = Inr h'"
    by (auto simp: bind_result_Inr_iff)
  then show ?case using Cons.IH [of h1 "e # seen"] scan_hit_wf Cons.prems(2) by simp
qed simp

lemma rank_docs_distinct: "distinct (map fst xs) \<Longrightarrow> distinct (map fst (rank_docs xs))"
proof -
  assume d: "distinct (map fst xs)"
  have "mset (map fst (rank_docs xs)) = mset (map fst xs)" by (simp add: rank_docs_def)
  then show ?thesis using d mset_eq_imp_distinct_iff by blast
qed

lemma rank_docs_set [simp]: "set (rank_docs xs) = set xs"
  by (simp add: rank_docs_def)

section \<open>The shortlist\<close>

lemma prepare_cases:
  assumes "prepare_candidate_shortlist x q = (r, acs)" "acs \<noteq> [] \<or> (\<exists>sl. r = Inr sl)"
  obtains hits fl h picked acs1 where
    "sr_hits q = JList hits" "sr_floor q = Fin fl"
    "scan_wf (sr_store q) (rev (take (clamp_bound (sr_max_chunks q) MAX_CHUNK_HITS) hits)) h"
    "pick_docs x (sr_store q) (sr_workspace q) (sr_self q) (shortlist_floor fl)
       (clamp_bound (sr_max_docs q) MAX_SHORTLIST_DOCS) (rank_docs (hs_best h)) = (picked, acs1)"
    "(\<exists>e. picked = Inl e \<and> r = Inl e \<and> acs = acs1) \<or>
     (\<exists>lds n filled acs2. picked = Inr (lds, n) \<and> acs = acs1 @ acs2
        \<and> fill_pairs x (sr_store q) (clamp_bound (sr_max_pairs q) MAX_CLASSIFIER_PAIRS) lds = (filled, acs2)
        \<and> (\<forall>sl. r = Inr sl \<longrightarrow> filled = Inr (sl_pairs sl, sl_deferred sl)))"
proof -
  obtain hits where hits: "sr_hits q = JList hits"
    using assms by (cases "sr_hits q") (auto simp: prepare_candidate_shortlist_def split: if_splits)
  obtain fl where fl: "sr_floor q = Fin fl"
    using assms hits by (cases "sr_floor q") (auto simp: prepare_candidate_shortlist_def split: if_splits)
  let ?es = "take (clamp_bound (sr_max_chunks q) MAX_CHUNK_HITS) hits"
  let ?h0 = "\<lparr>hs_best = [], hs_owner = [], hs_malformed = 0\<rparr>"
  obtain h where h: "scan_hits (sr_store q) ?es ?h0 = Inr h"
    using assms hits fl
    by (cases "scan_hits (sr_store q) ?es ?h0")
       (auto simp: prepare_candidate_shortlist_def Let_def split: if_splits)
  have wf: "scan_wf (sr_store q) (rev ?es) h"
    using scan_hits_wf [OF h, of "[]"] by (simp add: scan_wf_def)
  obtain picked acs1 where p: "pick_docs x (sr_store q) (sr_workspace q) (sr_self q) (shortlist_floor fl)
       (clamp_bound (sr_max_docs q) MAX_SHORTLIST_DOCS) (rank_docs (hs_best h)) = (picked, acs1)" by fastforce
  have ok: "py_strip (sr_store q) \<noteq> []" "sr_workspace q \<noteq> []"
    using assms hits by (auto simp: prepare_candidate_shortlist_def split: if_splits)
  show ?thesis
  proof (cases picked)
    case (Inl e)
    then show ?thesis
      using assms(1) hits fl h p ok by (intro that [OF hits fl wf p]) (simp add: prepare_candidate_shortlist_def Let_def)
  next
    case (Inr a)
    obtain lds n where a: "a = (lds, n)" by (cases a)
    obtain filled acs2 where f:
      "fill_pairs x (sr_store q) (clamp_bound (sr_max_pairs q) MAX_CLASSIFIER_PAIRS) lds = (filled, acs2)" by fastforce
    show ?thesis
      using assms(1) hits fl h p ok Inr a f
      by (intro that [OF hits fl wf p])
         (auto simp: prepare_candidate_shortlist_def Let_def bind_result_Inr_iff)
  qed
qed

theorem content_read_only_when_admitted:
  assumes "prepare_candidate_shortlist x q = (r, acs)" and "ReadContent d \<in> set acs"
  shows "sr_self q \<noteq> Some d \<and> (\<exists>md. sx_metadata x (sr_store q) d = Some (JObj md)
    \<and> jget md ''store_id'' = JStr (sr_store q) \<and> jget md ''doc_id'' = JInt d
    \<and> can_read_document (sx_host x) (Some (sx_principal x)) (sr_workspace q) (JObj md)
    \<and> metadata_eligible md)
    \<and> (\<exists>before after. acs = before @ after \<and> ReadMetadata d \<in> set before \<and> ReadContent d \<notin> set before)"
proof -
  have "acs \<noteq> [] \<or> (\<exists>sl. r = Inr sl)" using assms(2) by auto
  then obtain fl and h :: hit_scan and picked acs1 where
    p: "pick_docs x (sr_store q) (sr_workspace q) (sr_self q) (shortlist_floor fl)
       (clamp_bound (sr_max_docs q) MAX_SHORTLIST_DOCS) (rank_docs (hs_best h)) = (picked, acs1)"
    and c: "(\<exists>e. picked = Inl e \<and> r = Inl e \<and> acs = acs1) \<or>
     (\<exists>lds n filled acs2. picked = Inr (lds, n) \<and> acs = acs1 @ acs2
        \<and> fill_pairs x (sr_store q) (clamp_bound (sr_max_pairs q) MAX_CLASSIFIER_PAIRS) lds = (filled, acs2)
        \<and> (\<forall>sl. r = Inr sl \<longrightarrow> filled = Inr (sl_pairs sl, sl_deferred sl)))"
    by (rule prepare_cases [OF assms(1)]) blast
  have no: "ReadContent d \<notin> set acs1"
    using pick_docs_reads_metadata [OF p] by (auto simp: list_all_iff looked_at_def)
  then obtain lds n filled acs2 where pk: "picked = Inr (lds, n)" and acs: "acs = acs1 @ acs2"
    and f: "fill_pairs x (sr_store q) (clamp_bound (sr_max_pairs q) MAX_CLASSIFIER_PAIRS) lds = (filled, acs2)"
    using c assms(2) by blast
  then have "ReadContent d \<in> set acs2" using no assms(2) by simp
  then obtain ld where ld: "ld \<in> set lds" "d = ld_doc ld"
    using fill_pairs_reads [OF f] by auto
  note l = pick_docs_picks [OF p [unfolded pk]]
  have a: "admitted x (sr_store q) (sr_workspace q) d (ld_metadata ld)" "sr_self q \<noteq> Some d"
    "ReadMetadata d \<in> set acs1"
    using l ld by auto
  show ?thesis using a no acs by (auto simp: admitted_def has_identity_def)
qed

lemma describe_fields [simp]:
  "ds_doc (describe x store ld ex) = ld_doc ld" "ds_cosine (describe x store ld ex) = ld_cosine ld"
  "ds_pair (describe x store ld ex) = ''candidate-doc-'' @ int_text (ld_doc ld)"
  "ds_content_hash (describe x store ld ex) = jget (ld_metadata ld) ''content_sha256''"
  "ds_excerpt (describe x store ld ex) = map_option fst ex"
  by (simp_all add: describe_def Let_def)

lemma pair_from_fields:
  assumes "pair_from x store ld p"
  obtains env s where "sx_content x store (ld_doc ld) = Some (JObj env)" "jget env ''content'' = JStr s"
    "ds_content_hash p = JStr (sx_sha x s)" "ds_doc p = ld_doc ld" "ds_cosine p = ld_cosine ld"
    "ds_excerpt p = Some (fst (truncate_to_tokens (sx_tokens x) (py_strip s) 220))"
proof -
  obtain s where f: "fetch_text x store ld = Inr (Some s)"
    and p: "p = describe x store ld (Some (truncate_to_tokens (sx_tokens x) (py_strip s) (nat MAX_EXCERPT_TOKENS)))"
    using assms by (auto simp: pair_from_def)
  from f obtain env where e: "sx_content x store (ld_doc ld) = Some (JObj env)" "jget env ''content'' = JStr s"
    "JStr (sx_sha x s) = jget (ld_metadata ld) ''content_sha256''"
    by (auto simp: fetch_text_def split: option.splits json.splits if_splits)
  show ?thesis by (rule that [OF e(1,2)]) (simp_all add: p e(3) MAX_EXCERPT_TOKENS_def)
qed

lemma subseq_keeps_distinct: "subseq xs ys \<Longrightarrow> distinct ys \<Longrightarrow> distinct xs"
  by (auto simp: subseq_conv_nths distinct_nthsI)

lemma clamp_bound_le: "clamp_bound n m \<le> nat m"
  by (simp add: clamp_bound_def)

lemma pair_ids_distinct:
  assumes "distinct (map ds_doc ps)" "\<forall>p\<in>set ps. ds_pair p = ''candidate-doc-'' @ int_text (ds_doc p)"
  shows "distinct (map ds_pair ps)"
  using assms by (induction ps) (auto simp: int_text_inj)

theorem shortlist_sound:
  assumes "prepare_candidate_shortlist x q = (Inr sl, acs)"
  shows "length (sl_pairs sl) \<le> 8 \<and> length (sl_pairs sl) + length (sl_deferred sl) \<le> 12
    \<and> distinct (map ds_pair (sl_pairs sl @ sl_deferred sl))
    \<and> (\<forall>p\<in>set (sl_pairs sl @ sl_deferred sl). 42/100 \<le> ds_cosine p \<and> sr_self q \<noteq> Some (ds_doc p))
    \<and> (\<forall>p\<in>set (sl_pairs sl). \<exists>env s. sx_content x (sr_store q) (ds_doc p) = Some (JObj env)
         \<and> jget env ''content'' = JStr s \<and> ds_content_hash p = JStr (sx_sha x s)
         \<and> ds_excerpt p = Some (fst (truncate_to_tokens (sx_tokens x) (py_strip s) 220)))
    \<and> (\<forall>p\<in>set (sl_deferred sl). ds_excerpt p = None)"
proof -
  obtain hits fl h picked acs1 where
    wf: "scan_wf (sr_store q) (rev (take (clamp_bound (sr_max_chunks q) MAX_CHUNK_HITS) hits)) h"
    and p: "pick_docs x (sr_store q) (sr_workspace q) (sr_self q) (shortlist_floor fl)
       (clamp_bound (sr_max_docs q) MAX_SHORTLIST_DOCS) (rank_docs (hs_best h)) = (picked, acs1)"
    and c: "(\<exists>e. picked = Inl e \<and> Inr sl = Inl e \<and> acs = acs1) \<or>
     (\<exists>lds n filled acs2. picked = Inr (lds, n) \<and> acs = acs1 @ acs2
        \<and> fill_pairs x (sr_store q) (clamp_bound (sr_max_pairs q) MAX_CLASSIFIER_PAIRS) lds = (filled, acs2)
        \<and> (\<forall>sl'. Inr sl = Inr sl' \<longrightarrow> filled = Inr (sl_pairs sl', sl_deferred sl')))"
    by (rule prepare_cases [OF assms]) blast+
  from c obtain lds n acs2 where pk: "picked = Inr (lds, n)"
    and f: "fill_pairs x (sr_store q) (clamp_bound (sr_max_pairs q) MAX_CLASSIFIER_PAIRS) lds
        = (Inr (sl_pairs sl, sl_deferred sl), acs2)" by auto
  note l = pick_docs_picks [OF p [unfolded pk]] and fs = fill_pairs_splits [OF f]
  have doc: "\<exists>ld\<in>set lds. ds_doc d = ld_doc ld \<and> ds_cosine d = ld_cosine ld
      \<and> ds_pair d = ''candidate-doc-'' @ int_text (ds_doc d)"
    if "d \<in> set (sl_pairs sl @ sl_deferred sl)" for d
    using that fs unfolding pair_from_def by fastforce
  have "length (sl_pairs sl) \<le> clamp_bound (sr_max_pairs q) MAX_CLASSIFIER_PAIRS" using fs by blast
  then have n8: "length (sl_pairs sl) \<le> 8" by (simp add: clamp_bound_def MAX_CLASSIFIER_PAIRS_def)
  have "length (map ds_doc (sl_pairs sl @ sl_deferred sl)) = length (map ld_doc lds)"
    using fs mset_eq_length by blast
  moreover have "length lds \<le> 12"
    using l clamp_bound_le [of "sr_max_docs q" MAX_SHORTLIST_DOCS] by (simp add: MAX_SHORTLIST_DOCS_def)
  ultimately have n12: "length (sl_pairs sl) + length (sl_deferred sl) \<le> 12" by simp
  have "distinct (map ld_doc lds)"
    using l wf rank_docs_distinct subseq_keeps_distinct unfolding scan_wf_def by blast
  then have "distinct (map ds_doc (sl_pairs sl @ sl_deferred sl))"
    using fs mset_eq_imp_distinct_iff by blast
  then have ds: "distinct (map ds_pair (sl_pairs sl @ sl_deferred sl))"
    using doc by (intro pair_ids_distinct) auto
  have cos: "42/100 \<le> ds_cosine d \<and> sr_self q \<noteq> Some (ds_doc d)"
    if dm: "d \<in> set (sl_pairs sl @ sl_deferred sl)" for d
  proof -
    obtain ld where "ld \<in> set lds" "ds_doc d = ld_doc ld" "ds_cosine d = ld_cosine ld"
      using doc [OF dm] by blast
    moreover have "COSINE_FLOOR \<le> shortlist_floor fl" by (simp add: shortlist_floor_def)
    ultimately show ?thesis using l unfolding COSINE_FLOOR_def by fastforce
  qed
  have "\<exists>env s. sx_content x (sr_store q) (ds_doc d) = Some (JObj env)
         \<and> jget env ''content'' = JStr s \<and> ds_content_hash d = JStr (sx_sha x s)
         \<and> ds_excerpt d = Some (fst (truncate_to_tokens (sx_tokens x) (py_strip s) 220))"
    if dm: "d \<in> set (sl_pairs sl)" for d
  proof -
    obtain ld where "pair_from x (sr_store q) ld d" using fs dm by blast
    then show ?thesis by (rule pair_from_fields) auto
  qed
  moreover have "ds_excerpt d = None" if "d \<in> set (sl_deferred sl)" for d
    using fs that by fastforce
  ultimately show ?thesis using n8 n12 ds cos by blast
qed

section \<open>A run\<close>

definition listed_metadata :: jobj where
  "listed_metadata = [(''store_id'', JStr ''s''), (''doc_id'', JInt 7), (''agent'', JStr ''codex''),
     (''memory_kind'', JStr ''learning''), (''page_type'', JStr ''learning''),
     (''content_sha256'', JStr (replicate 64 (CHR ''a'')))]"

definition listed_env :: shortlist_env where
  "listed_env = \<lparr>sx_host = demo_host, sx_principal = demo_agent ''codex'' [JStr ''read''] [],
     sx_metadata = \<lambda>s d. if d = 7 then Some (JObj listed_metadata) else Some JNull,
     sx_content = \<lambda>s d. Some (JObj [(''store_id'', JStr ''s''), (''doc_id'', JInt d), (''content'', JStr ''text'')]),
     sx_sha = \<lambda>s. replicate 64 (CHR ''a''), sx_tokens = no_tokenizer, sx_float = \<lambda>r. ''0.5''\<rparr>"

definition listed_request :: shortlist_request where
  "listed_request = \<lparr>sr_hits = JList [JObj [(''store_id'', JStr ''s''), (''doc_id'', JInt 7), (''chunk_id'', JInt 1),
       (''cosine'', JFloat (Fin (1/2)) ''0.5'')],
       JObj [(''store_id'', JStr ''s''), (''doc_id'', JInt 8), (''chunk_id'', JInt 2),
       (''cosine'', JFloat (Fin (9/10)) ''0.9'')]],
     sr_store = ''s'', sr_self = None, sr_workspace = ''default'', sr_max_chunks = 48, sr_max_docs = 12,
     sr_floor = Fin (42/100), sr_max_pairs = 8\<rparr>"

lemma listed_run:
  "\<exists>sl. prepare_candidate_shortlist listed_env listed_request =
     (Inr sl, [ReadMetadata 8, ReadMetadata 7, ReadContent 7])"
proof -
  have "snd (prepare_candidate_shortlist listed_env listed_request)
      = [ReadMetadata 8, ReadMetadata 7, ReadContent 7]" by code_simp
  moreover have "case fst (prepare_candidate_shortlist listed_env listed_request) of Inl e \<Rightarrow> False | Inr sl \<Rightarrow> True"
    by code_simp
  ultimately show ?thesis
    by (cases "prepare_candidate_shortlist listed_env listed_request") (auto split: sum.splits)
qed

theorem content_read_only_when_admitted_witness:
  "can_read_document (sx_host listed_env) (Some (sx_principal listed_env)) ''default'' (JObj listed_metadata)"
proof -
  obtain sl where run: "prepare_candidate_shortlist listed_env listed_request =
     (Inr sl, [ReadMetadata 8, ReadMetadata 7, ReadContent 7])" using listed_run by blast
  show ?thesis using content_read_only_when_admitted [OF run, of 7]
    by (auto simp: listed_env_def listed_request_def)
qed

theorem shortlist_sound_witness:
  "\<exists>sl acs. prepare_candidate_shortlist listed_env listed_request = (Inr sl, acs) \<and> length (sl_pairs sl) \<le> 8"
proof -
  obtain sl where run: "prepare_candidate_shortlist listed_env listed_request =
     (Inr sl, [ReadMetadata 8, ReadMetadata 7, ReadContent 7])" using listed_run by blast
  show ?thesis using shortlist_sound [OF run] run by blast
qed

end
