(* ===== verification/Variants.thy ===== *)
theory Variants
  imports Evidence Drill
begin

text \<open>
  \<^verbatim>\<open>src/minni/query_expand.py\<close>, \<^verbatim>\<open>hyde.py\<close> and the part of \<^verbatim>\<open>retrieval.py\<close> that searches several
  variants of one query: the expansion, the loop over the variants with its deadline, the
  merge, and the linked pages of a result.  The AFM answers are parameters.
\<close>

section \<open>Rule expansion\<close>

definition MAX_VARIANTS :: nat where
  "MAX_VARIANTS = 4"

text \<open>The lines of \<^verbatim>\<open>synonyms.yml\<close>.\<close>

definition rstrip :: "string \<Rightarrow> string" where
  "rstrip s = rev (dropWhile py_space (rev s))"

definition strip_quotes :: "string \<Rightarrow> string" where
  "strip_quotes s =
     (let q = (\<lambda>c. c = CHR 0x22 \<or> c = CHR 0x27) in rev (dropWhile q (rev (dropWhile q s))))"

definition synonym_line ::
  "string \<Rightarrow> string option \<times> (string \<times> string list) list \<Rightarrow> string option \<times> (string \<times> string list) list" where
  "synonym_line raw st =
     (case st of (key, table) \<Rightarrow>
       let line = rstrip raw; body = py_strip line
       in if line = [] \<or> starts_with ''#'' body then st
          else if \<not> starts_with '' '' line \<and> last line = CHR '':''
          then (let k = py_lower (py_strip (butlast line))
                in (Some k, if map_of table k = None then table @ [(k, [])] else table))
          else (case key of
                  None \<Rightarrow> st
                | Some k \<Rightarrow>
                    if k \<noteq> [] \<and> starts_with ''- '' body
                    then (let v = strip_quotes (py_strip (drop 2 body))
                          in if v = [] then st
                             else (key, AList.update k ((case map_of table k of None \<Rightarrow> [] | Some vs \<Rightarrow> vs) @ [v]) table))
                    else st))"

definition load_synonyms :: "string list \<Rightarrow> (string \<times> string list) list" where
  "load_synonyms ls = snd (foldl (\<lambda>st l. synonym_line l st) (None, []) ls)"

text \<open>\<open>\b\<close>: exactly one of the neighbours is a word character.\<close>

definition first_word :: "string \<Rightarrow> bool" where
  "first_word s \<longleftrightarrow> s \<noteq> [] \<and> is_word_char (hd s)"

definition term_at :: "string \<Rightarrow> bool \<Rightarrow> string \<Rightarrow> bool" where
  "term_at term prev s \<longleftrightarrow> term \<noteq> [] \<and> matches lower_char term s \<and> prev \<noteq> first_word s
     \<and> is_word_char (s ! (length term - 1)) \<noteq> first_word (drop (length term) s)"

fun sub_term :: "string \<Rightarrow> string \<Rightarrow> bool \<Rightarrow> string \<Rightarrow> string" where
  "sub_term term new prev [] = []"
| "sub_term term new prev (c # cs) =
     (if term_at term prev (c # cs)
      then new @ sub_term term new (is_word_char ((c # cs) ! (length term - 1))) (drop (length term - 1) cs)
      else c # sub_term term new (is_word_char c) cs)"

fun has_term :: "string \<Rightarrow> bool \<Rightarrow> string \<Rightarrow> bool" where
  "has_term term prev [] \<longleftrightarrow> False"
| "has_term term prev (c # cs) \<longleftrightarrow> term_at term prev (c # cs) \<or> has_term term (is_word_char c) cs"

definition clean :: "string \<Rightarrow> string" where
  "clean s = join_with SP (py_split s)"

fun dedupe_from :: "string list \<Rightarrow> string list \<Rightarrow> string list" where
  "dedupe_from seen [] = []"
| "dedupe_from seen (v # vs) =
     (let k = py_lower (clean v)
      in if clean v \<noteq> [] \<and> k \<notin> set seen then clean v # dedupe_from (k # seen) vs else dedupe_from seen vs)"

definition dedupe :: "string list \<Rightarrow> string list" where
  "dedupe vs = dedupe_from [] vs"

definition py_upper :: "string \<Rightarrow> string" where
  "py_upper s = concat (map upper_chars s)"

text \<open>\<^verbatim>\<open>str.isupper\<close>: a capital, and no small letter (223, 255 and the three small signs count as small).\<close>

definition small_char :: "char \<Rightarrow> bool" where
  "small_char c \<longleftrightarrow> (let n = code_point c in
     97 \<le> n \<and> n \<le> 122 \<or> 223 \<le> n \<and> n \<noteq> 247 \<or> n \<in> {170, 181, 186})"

definition is_upper :: "string \<Rightarrow> bool" where
  "is_upper w \<longleftrightarrow> list_ex (\<lambda>c. lower_char c \<noteq> c) w \<and> \<not> list_ex small_char w"

definition synonym_variants :: "(string \<times> string list) list \<Rightarrow> string \<Rightarrow> string list" where
  "synonym_variants table q =
     concat (map (\<lambda>(term, news). if has_term term False q then map (\<lambda>new. sub_term term new False q) news else []) table)"

definition case_variants :: "string \<Rightarrow> string list" where
  "case_variants q =
     (if py_lower q \<noteq> q then [py_lower q] else [])
     @ (if py_upper q \<noteq> q \<and> list_ex is_upper (py_split q) then [py_upper q] else [])"

definition rule_expand :: "(string \<times> string list) list \<Rightarrow> string \<Rightarrow> string list" where
  "rule_expand table q = take MAX_VARIANTS (dedupe (q # synonym_variants table q @ case_variants q))"

text \<open>\<open>afm q\<close>: the reformulations of the provider, at most three, none blank.\<close>

definition expand_with_status ::
  "(string \<times> string list) list \<Rightarrow> (string \<Rightarrow> string list) \<Rightarrow> string \<Rightarrow> string \<Rightarrow> string list \<times> string option" where
  "expand_with_status table afm query mode =
     (let q = py_strip query; m = (if mode = [] then ''rule'' else py_lower mode)
      in if q = [] then ([], None)
         else if m \<noteq> ''afm'' then (rule_expand table q, None)
         else if afm q = [] then (rule_expand table q, Some ''afm_unavailable'')
         else (take MAX_VARIANTS (dedupe (q # afm q @ rule_expand table q)), None))"

definition resolve_query_variants ::
  "(string \<times> string list) list \<Rightarrow> (string \<Rightarrow> string list) \<Rightarrow> string \<Rightarrow> string \<Rightarrow> json \<Rightarrow> string list \<times> string option" where
  "resolve_query_variants table afm default_mode query v =
     (let mode0 = (if default_mode = [] then ''rule'' else default_mode);
          run = (\<lambda>mode. case expand_with_status table afm query (py_lower mode) of
                   (vs, deg) \<Rightarrow> (if vs = [] then [query] else vs, deg))
      in case v of
        JNull \<Rightarrow> ([query], None)
      | JBool False \<Rightarrow> ([query], None)
      | JStr s \<Rightarrow> if py_lower s \<in> {''false'', ''off'', ''none'', ''0''} then ([query], None) else run s
      | JBool True \<Rightarrow> run (if py_lower mode0 \<in> {''rule'', ''afm''} then mode0 else ''rule'')
      | _ \<Rightarrow> run mode0)"

section \<open>The loop over the variants\<close>

text \<open>What the search of one variant leaves behind.\<close>

record child =
  ch_rows :: "jobj list"
  ch_suppressed :: "(nat \<times> string) option"      \<comment> \<open>\<^verbatim>\<open>pre_gate\<close> and reason\<close>
  ch_rerank :: "string option"
  ch_expand :: "string option"
  ch_vector :: "string option"
  ch_hyde :: "string option"
  ch_document :: "string option"

datatype outcome = Finished child | OutOfTime | Failed string

definition says_deadline :: "string \<Rightarrow> bool" where
  "says_deadline s \<longleftrightarrow> substr_of ''search deadline'' (py_lower s)"

definition child_poisoned :: "child \<Rightarrow> bool" where
  "child_poisoned c \<longleftrightarrow> list_ex (\<lambda>f. says_deadline (or_text f [])) [ch_vector c, ch_rerank c]"

text \<open>The notes of the kept variants, each with its variant in front.\<close>

definition notes_of :: "(child \<Rightarrow> string option) \<Rightarrow> (string \<times> child) list \<Rightarrow> string list" where
  "notes_of f kept = List.map_filter (\<lambda>(v, c). if or_text (f c) [] = [] then None
     else Some (v @ '': '' @ or_text (f c) [])) kept"

definition any_rows :: "(string \<times> child) list \<Rightarrow> bool" where
  "any_rows kept \<longleftrightarrow> list_ex (\<lambda>x. ch_rows (snd x) \<noteq> []) kept"

definition drops :: "(string \<times> child) list \<Rightarrow> child \<Rightarrow> bool" where
  "drops kept c \<longleftrightarrow> any_rows kept \<and> child_poisoned c
     \<and> \<not> list_ex says_deadline (notes_of ch_vector kept @ notes_of ch_rerank kept)"

text \<open>\<open>late n\<close>: the deadline has passed before variant \<open>n\<close> is started.  The flag is the truncation.\<close>

fun run_serial ::
  "(string \<Rightarrow> outcome) \<Rightarrow> (nat \<Rightarrow> bool) \<Rightarrow> (string \<times> child) list \<Rightarrow> string list
    \<Rightarrow> string + ((string \<times> child) list \<times> bool)" where
  "run_serial run late kept [] = Inr (kept, False)"
| "run_serial run late kept (v # vs) =
     (if any_rows kept \<and> late (length kept) then Inr (kept, True)
      else case run v of
        OutOfTime \<Rightarrow> Inr (kept, True)
      | Failed m \<Rightarrow> Inl m
      | Finished c \<Rightarrow> if drops kept c then Inr (kept, True) else run_serial run late (kept @ [(v, c)]) vs)"

text \<open>The pool runs every variant first; the first exception in their order leaves it.\<close>

fun gather :: "(string \<Rightarrow> outcome) \<Rightarrow> string list \<Rightarrow> string + (string \<times> child) list" where
  "gather run [] = Inr []"
| "gather run (v # vs) =
     (case run v of
        Finished c \<Rightarrow> map_sum id ((#) (v, c)) (gather run vs)
      | OutOfTime \<Rightarrow> Inl ''search request deadline exceeded''
      | Failed m \<Rightarrow> Inl m)"

fun keep_children :: "(string \<times> child) list \<Rightarrow> (string \<times> child) list \<Rightarrow> (string \<times> child) list \<times> bool" where
  "keep_children kept [] = (kept, False)"
| "keep_children kept (x # xs) = (if drops kept (snd x) then (kept, True) else keep_children (kept @ [x]) xs)"

definition run_pool :: "(string \<Rightarrow> outcome) \<Rightarrow> string list \<Rightarrow> string + ((string \<times> child) list \<times> bool)" where
  "run_pool run vs = map_sum id (keep_children []) (gather run vs)"

section \<open>Merging the rankings\<close>

text \<open>A row in the making: the first row of its document, the score, where it was found.\<close>

record fused =
  fu_row :: jobj
  fu_score :: real
  fu_found :: "string list"

definition row_doc :: "jobj \<Rightarrow> int option" where
  "row_doc r = (case jget r ''doc_id'' of JInt n \<Rightarrow> Some n | _ \<Rightarrow> None)"

definition number :: "json \<Rightarrow> real" where
  "number v = (case v of JInt n \<Rightarrow> of_int n | JFloat (Fin x) _ \<Rightarrow> x | _ \<Rightarrow> 0)"

definition add_rank ::
  "(jobj \<Rightarrow> jobj \<Rightarrow> jobj) \<Rightarrow> real \<Rightarrow> string \<Rightarrow> nat \<Rightarrow> jobj \<Rightarrow> (int \<times> fused) list \<Rightarrow> (int \<times> fused) list" where
  "add_rank fill k label rank r docs =
     (case row_doc r of
        None \<Rightarrow> docs
      | Some d \<Rightarrow>
          (let old = (case map_of docs d of
                 None \<Rightarrow> \<lparr>fu_row = r, fu_score = 0, fu_found = []\<rparr>
               | Some f \<Rightarrow> f\<lparr>fu_row := fill (fu_row f) r\<rparr>)
           in AList.update d (old\<lparr>fu_score := fu_score old + 1 / (k + real rank), fu_found := fu_found old @ [label]\<rparr>) docs))"

definition rank_stream ::
  "(jobj \<Rightarrow> jobj \<Rightarrow> jobj) \<Rightarrow> real \<Rightarrow> string \<Rightarrow> jobj list \<Rightarrow> (int \<times> fused) list \<Rightarrow> (int \<times> fused) list" where
  "rank_stream fill k label rs docs = foldl (\<lambda>ds (i, r). add_rank fill k label i r ds) docs (List.enumerate 1 rs)"

definition fuse :: "real \<Rightarrow> (string \<times> jobj list) list \<Rightarrow> (int \<times> fused) list" where
  "fuse k streams = foldl (\<lambda>ds (v, rs). rank_stream (\<lambda>a b. a) k v rs ds) [] streams"

text \<open>Descending by the fused score, then by the row's own.\<close>

definition ranked :: "(jobj \<Rightarrow> real) \<Rightarrow> (int \<times> fused) list \<Rightarrow> fused list" where
  "ranked own docs = sort_desc fu_score (sort_desc (own \<circ> fu_row) (map snd docs))"

definition merge_expanded_results :: "real \<Rightarrow> (string \<times> jobj list) list \<Rightarrow> nat \<Rightarrow> fused list" where
  "merge_expanded_results k streams limit = take limit (ranked (\<lambda>r. number (jget r ''score'')) (fuse k streams))"

record expanded_search =
  xs_results :: "fused list"
  xs_ran :: "string list"
  xs_rerank :: "string option"
  xs_expand :: "string option"
  xs_vector :: "string option"
  xs_hyde :: "string option"
  xs_document :: "string option"
  xs_suppressed :: "(nat \<times> string \<times> string list) option"

definition joined_notes :: "string list \<Rightarrow> string option" where
  "joined_notes ns = (if ns = [] then None else Some (join_with ''; '' ns))"

definition TRUNCATED :: string where
  "TRUNCATED = ''search deadline; truncated query expand''"

definition finish_variants ::
  "real \<Rightarrow> nat \<Rightarrow> string option \<Rightarrow> (string \<times> child) list \<times> bool \<Rightarrow> expanded_search" where
  "finish_variants k limit parent kt =
     (case kt of (kept, truncated) \<Rightarrow>
       let supp = List.map_filter (\<lambda>(v, c). map_option (\<lambda>(n, why). (v, n, why)) (ch_suppressed c)) kept
       in \<lparr>xs_results = merge_expanded_results k (map (\<lambda>(v, c). (v, ch_rows c)) kept) limit,
           xs_ran = map fst kept,
           xs_rerank = joined_notes (notes_of ch_rerank kept),
           xs_expand = joined_notes ((if or_text parent [] = [] then [] else [or_text parent []])
             @ notes_of ch_expand kept @ (if truncated then [TRUNCATED] else [])),
           xs_vector = joined_notes (notes_of ch_vector kept),
           xs_hyde = joined_notes (notes_of ch_hyde kept),
           xs_document = joined_notes (notes_of ch_document kept),
           xs_suppressed = (if supp = [] then None
             else Some (sum_list (map (\<lambda>(v, n, why). n) supp), join_with ''; '' (map (\<lambda>(v, n, why). why) supp),
                        map fst supp))\<rparr>)"

section \<open>HyDE\<close>

definition should_trigger_hyde :: "jobj list \<Rightarrow> bool \<Rightarrow> real \<Rightarrow> bool" where
  "should_trigger_hyde results enabled low \<longleftrightarrow>
     enabled \<and> results \<noteq> [] \<and> list_all (\<lambda>r. jget r ''confidence'' \<noteq> JNull \<and> number (jget r ''confidence'') < low) results"

definition fill_missing :: "jobj \<Rightarrow> jobj \<Rightarrow> jobj" where
  "fill_missing old new =
     foldl (\<lambda>d (k, v). if v \<noteq> JNull \<and> v \<noteq> JStr [] \<and> v \<noteq> JList [] \<and> \<not> truthy (jget d k) then AList.update k v d else d) old new"

definition hyde_own :: "jobj \<Rightarrow> real" where
  "hyde_own r = number (if has_key r ''rerank_score'' then jget r ''rerank_score'' else jget r ''final_score'')"

text \<open>Below: whether a row carries \<^verbatim>\<open>via_hyde\<close>.\<close>

definition via_hyde :: "fused \<Rightarrow> bool" where
  "via_hyde f \<longleftrightarrow> ''hyde'' \<in> set (fu_found f)"

definition merge_hyde_results :: "real \<Rightarrow> jobj list \<Rightarrow> jobj list \<Rightarrow> nat \<Rightarrow> fused list" where
  "merge_hyde_results k original hyde limit =
     (if hyde = [] then map (\<lambda>r. \<lparr>fu_row = r, fu_score = 0, fu_found = []\<rparr>) (take limit original)
      else take limit (ranked hyde_own
             (rank_stream fill_missing k ''hyde'' hyde (rank_stream (\<lambda>a b. a) k ''original'' original []))))"

section \<open>Linked pages\<close>

text \<open>\<open>\[\[([^\]]+)\]\]\<close>: the bodies, from left to right.\<close>

definition not_close :: "char \<Rightarrow> bool" where
  "not_close c \<longleftrightarrow> c \<noteq> CHR '']''"

function find_links :: "string \<Rightarrow> string list" where
  "find_links [] = []"
| "find_links (c # cs) =
     (let body = takeWhile not_close (drop 1 cs); rest = dropWhile not_close (drop 1 cs)
      in if starts_with ''[['' (c # cs) \<and> body \<noteq> [] \<and> starts_with '']]'' rest
         then body # find_links (drop 2 rest) else find_links cs)"
  by pat_completeness auto
termination
proof (relation "measure length")
  fix c cs body rest
  assume "rest = dropWhile not_close (drop 1 cs)"
  then have "length rest \<le> length cs" by (metis le_trans length_drop length_dropWhile_le diff_le_self)
  then show "(drop 2 rest, c # cs) \<in> measure length" by simp
qed auto

definition extract_wiki_links :: "string \<Rightarrow> string list" where
  "extract_wiki_links t =
     rev (remdups (rev (filter (\<lambda>s. s \<noteq> []) (map (\<lambda>raw. py_strip (takeWhile (\<lambda>c. c \<noteq> CHR ''|'') raw)) (find_links t)))))"

definition like_metachar :: "string \<Rightarrow> bool" where
  "like_metachar s \<longleftrightarrow> CHR 0x25 \<in> set s \<or> CHR ''_'' \<in> set s"

text \<open>\<^verbatim>\<open>s LIKE '%' || suffix\<close> for a suffix without metacharacters: SQLite folds ASCII only.\<close>

definition ascii_lower :: "char \<Rightarrow> char" where
  "ascii_lower c = (let n = code_point c in if 65 \<le> n \<and> n \<le> 90 then char_of (n + 32) else c)"

definition ends_like :: "string \<Rightarrow> string \<Rightarrow> bool" where
  "ends_like e s \<longleftrightarrow> starts_with (rev (map ascii_lower e)) (rev (map ascii_lower s))"

definition link_row :: "library \<Rightarrow> string \<Rightarrow> (chunk \<times> xdoc) option" where
  "link_row l candidate =
     (if like_metachar candidate then None
      else case filter (\<lambda>(c, x). ends_like candidate (xd_path x))
                  (List.map_filter (joined l) (sort_key ck_id (lb_chunks l))) of
        [] \<Rightarrow> None | x # _ \<Rightarrow> Some x)"

definition link_candidates :: "string \<Rightarrow> string list" where
  "link_candidates link =
     (let stem = (if starts_with (rev ''.md'') (rev link) then take (length link - 3) link else link);
          base = last (split_on (CHR ''/'') stem)
      in [stem, stem @ ''.md'', base, base @ ''.md''])"

definition find_linked :: "library \<Rightarrow> string \<Rightarrow> (chunk \<times> xdoc) option" where
  "find_linked l link =
     (case List.map_filter (link_row l) (link_candidates link) of [] \<Rightarrow> None | x # _ \<Rightarrow> Some x)"

record linked =
  lk_link :: string
  lk_doc :: xdoc
  lk_text :: string

definition linked_json :: "xdoc \<Rightarrow> json" where
  "linked_json x = JObj [(''doc_id'', JInt (xd_id x)), (''path'', JStr (xd_path x)), (''agent'', JStr (xd_agent x)),
     (''privacy_level'', case xd_privacy x of None \<Rightarrow> JNull | Some t \<Rightarrow> JStr t),
     (''page_type'', case xd_type x of None \<Rightarrow> JNull | Some t \<Rightarrow> JStr t),
     (''page_status'', case xd_status x of None \<Rightarrow> JNull | Some t \<Rightarrow> JStr t)]"

definition fetch_linked_context ::
  "host \<Rightarrow> effective_principal option \<Rightarrow> string \<Rightarrow> nat \<Rightarrow> string list \<Rightarrow> library \<Rightarrow> linked list" where
  "fetch_linked_context h p workspace limit ls l =
     (let ws = (if workspace \<noteq> [] then workspace else case p of None \<Rightarrow> ''default'' | Some q \<Rightarrow>
            if p_workspace_id q = [] then ''default'' else p_workspace_id q)
      in List.map_filter (\<lambda>link.
        case find_linked l link of
          None \<Rightarrow> None
        | Some (c, x) \<Rightarrow>
            if p = None \<or> py_lower (or_text (xd_status x) ''candidate'') \<in> {''draft'', ''rejected'', ''superseded'', ''expired''}
               \<or> \<not> can_read_document h p ws (linked_json x) then None
            else Some \<lparr>lk_link = link, lk_doc = x, lk_text = take 700 (ck_text c)\<rparr>) (take limit ls))"

section \<open>Neighbourhood summaries\<close>

record neighborhood =
  nb_ok :: bool
  nb_summary :: "string option"
  nb_links :: "string list"
  nb_contexts :: "linked list"

definition neighborhood_prompt :: "linked list \<Rightarrow> string" where
  "neighborhood_prompt cs =
     join_with [CHR 0x0A, CHR 0x0A] (map (\<lambda>c. lk_link c @ '' ('' @ xd_path (lk_doc c) @ ''):'' @ [CHR 0x0A] @ lk_text c) cs)"

text \<open>The text of a row, else its whole document; a text without links gives way to the document too.\<close>

definition row_links :: "library \<Rightarrow> jobj \<Rightarrow> string list" where
  "row_links l r =
     (let t = py_or (jget r ''text'') (jget r ''full_document_text'');
          t0 = (case t of JStr s \<Rightarrow> s | _ \<Rightarrow> []);
          whole = (case row_doc r of None \<Rightarrow> [] | Some d \<Rightarrow> or_text (fetch_full_document l d) []);
          ls = extract_wiki_links (if t0 = [] then whole else t0)
      in if ls = [] then extract_wiki_links whole else ls)"

text \<open>\<open>late n\<close>: less than the 1.5 seconds of a call are left at row \<open>n\<close>; the rows after it get nothing.\<close>

fun add_neighborhood_summaries ::
  "host \<Rightarrow> (string \<Rightarrow> string option) \<Rightarrow> (nat \<Rightarrow> bool) \<Rightarrow> effective_principal option \<Rightarrow> string \<Rightarrow> library
    \<Rightarrow> nat \<Rightarrow> jobj list \<Rightarrow> (jobj \<times> neighborhood option) list" where
  "add_neighborhood_summaries h afm late p ws l n [] = []"
| "add_neighborhood_summaries h afm late p ws l n (r # rs) =
     (let ls = row_links l r; cs = fetch_linked_context h p ws 8 ls l
      in if ls = [] then (r, None) # add_neighborhood_summaries h afm late p ws l (Suc n) rs
         else if cs \<noteq> [] \<and> late n
           then (r, Some \<lparr>nb_ok = False, nb_summary = None, nb_links = ls, nb_contexts = cs\<rparr>) # map (\<lambda>x. (x, None)) rs
         else (let s = (if cs = [] then None else afm (neighborhood_prompt cs))
               in (r, Some \<lparr>nb_ok = or_text s [] \<noteq> [], nb_summary = s, nb_links = ls, nb_contexts = cs\<rparr>)
                  # add_neighborhood_summaries h afm late p ws l (Suc n) rs))"

end
