(* ===== verification/Variants_Laws.thy ===== *)
theory Variants_Laws
  imports Variants Fusion_Laws Drill_Laws
begin

text \<open>
  What searching several variants of a query promises: the variants are few, clean and distinct
  and start with the query itself; the kept ones are a prefix of them; the merge returns each
  document once with the sum of its reciprocal ranks; a linked page is shown only to who may
  read it.
\<close>

section \<open>The variants of a query\<close>

definition clean_text :: "string \<Rightarrow> bool" where
  "clean_text v \<longleftrightarrow> v \<noteq> [] \<and> clean v = v"

lemma clean_idem [simp]: "clean (clean s) = clean s"
  by (simp add: clean_def py_split_join)

lemma clean_strip [simp]: "clean (py_strip s) = clean s"
  by (simp add: clean_def)

lemma words_acc_Nil: "words_acc acc s = [] \<longleftrightarrow> acc = [] \<and> (\<forall>c \<in> set s. py_space c)"
  by (induction acc s rule: words_acc.induct) auto

lemma clean_Nil: "clean s = [] \<longleftrightarrow> py_strip s = []"
proof -
  have "clean s = [] \<longleftrightarrow> py_split s = []"
    using join_nonblank [OF py_split_are_words [of s]] strip_nonempty [of "clean s"]
    by (cases "py_split s = []") (simp_all add: clean_def, fastforce)
  then show ?thesis using strip_nonempty [of s] by (auto simp: py_split_def words_acc_Nil)
qed

lemma dedupe_from_facts:
  "distinct (map py_lower (dedupe_from seen vs)) \<and> list_all clean_text (dedupe_from seen vs)
   \<and> set (map py_lower (dedupe_from seen vs)) \<inter> set seen = {}"
  by (induction seen vs rule: dedupe_from.induct) (auto simp: clean_text_def Let_def)

lemma dedupe_from_origin: "set (dedupe_from seen vs) \<subseteq> clean ` set vs"
  by (induction seen vs rule: dedupe_from.induct) (auto simp: Let_def)

lemma dedupe_Cons: "py_strip q \<noteq> [] \<Longrightarrow> \<exists>r. dedupe (q # vs) = clean q # r"
  by (simp add: dedupe_def Let_def clean_Nil)

lemma take_dedupe:
  assumes "py_strip q \<noteq> []" and "vs = take MAX_VARIANTS (dedupe (q # rest))"
  shows "vs \<noteq> [] \<and> hd vs = clean q \<and> length vs \<le> MAX_VARIANTS \<and> distinct (map py_lower vs)
    \<and> list_all clean_text vs"
proof -
  obtain r where r: "dedupe (q # rest) = clean q # r" using dedupe_Cons [OF assms(1)] by blast
  have "distinct (map py_lower vs)" "list_all clean_text vs"
    using dedupe_from_facts [of "[]" "q # rest"] set_take_subset [of MAX_VARIANTS "dedupe (q # rest)"]
    unfolding assms(2) dedupe_def take_map [symmetric] list_all_iff by (blast intro: distinct_take)+
  then show ?thesis using r by (simp add: assms(2) MAX_VARIANTS_def)
qed

theorem expansion_sound:
  assumes "expand_with_status table afm query mode = (vs, degraded)" and "py_strip query \<noteq> []"
  shows "vs \<noteq> [] \<and> hd vs = clean query \<and> length vs \<le> 4 \<and> distinct (map py_lower vs) \<and> list_all clean_text vs
    \<and> (degraded \<noteq> None \<longleftrightarrow> py_lower mode = ''afm'' \<and> afm (py_strip query) = [])"
proof -
  have q: "py_strip (py_strip query) \<noteq> []" using assms(2) by (simp add: py_strip_idem)
  have "\<exists>rest. vs = take MAX_VARIANTS (dedupe (py_strip query # rest))"
    using assms by (auto simp: expand_with_status_def rule_expand_def Let_def split: if_splits)
  then have "vs \<noteq> [] \<and> hd vs = clean query \<and> length vs \<le> MAX_VARIANTS \<and> distinct (map py_lower vs) \<and> list_all clean_text vs"
    using take_dedupe [OF q] by fastforce
  moreover have "degraded \<noteq> None \<longleftrightarrow> py_lower mode = ''afm'' \<and> afm (py_strip query) = []"
    using assms by (auto simp: expand_with_status_def Let_def py_lower_def split: if_splits)
  ultimately show ?thesis by (simp add: MAX_VARIANTS_def)
qed

section \<open>Variants that differ in case only\<close>

lemma code_point_char: "code_point (char_of n) = n mod 256"
  by (simp add: code_point_def)

lemma code_point_bound: "code_point c < 256"
  unfolding code_point_def by (metis of_char_mod_256 mod_less_divisor zero_less_numeral)

lemma char_code_point: "char_of (code_point c) = c"
  by (simp add: code_point_def)

text \<open>Folding \<open>f\<close> a character changes neither its word break nor its lower case.\<close>

definition case_fold :: "(char \<Rightarrow> char) \<Rightarrow> bool" where
  "case_fold f \<longleftrightarrow> (\<forall>c. py_space (f c) = py_space c \<and> lower_char (f c) = lower_char c)"

lemma case_fold_lower: "case_fold lower_char"
proof -
  have "py_space (lower_char c) = py_space c \<and> lower_char (lower_char c) = lower_char c" for c
    using code_point_bound [of c]
    by (auto simp: lower_char_def py_space_def Let_def code_point_char)
  then show ?thesis by (simp add: case_fold_def)
qed

definition upper1 :: "char \<Rightarrow> char" where
  "upper1 c = hd (upper_chars c)"

lemma upper_simple: "code_point c \<noteq> 223 \<Longrightarrow> upper_chars c = [upper_char c]"
  by (auto simp: upper_chars_def upper_char_def Let_def)

lemma case_fold_upper: "case_fold upper_char"
proof -
  have "py_space (upper_char c) = py_space c \<and> lower_char (upper_char c) = lower_char c" for c
    using code_point_bound [of c]
    by (auto simp: lower_char_def upper_char_def py_space_def Let_def code_point_char char_code_point)
  then show ?thesis by (simp add: case_fold_def)
qed

lemma words_acc_fold: "case_fold f \<Longrightarrow> words_acc (map f acc) (map f s) = map (map f) (words_acc acc s)"
proof (induction acc s rule: words_acc.induct)
  case (2 acc c cs)
  have "py_space (f c) = py_space c" using 2(4) by (simp add: case_fold_def)
  then show ?case using 2 by (simp add: rev_map)
qed (simp add: rev_map)

lemma map_join: "map f (join_with sep ws) = join_with (map f sep) (map (map f) ws)"
  by (induction sep ws rule: join_with.induct) simp_all

lemma key_fold:
  assumes "case_fold f" shows "py_lower (clean (map f s)) = py_lower (clean s)"
proof -
  have "py_split (map f s) = map (map f) (py_split s)"
    using words_acc_fold [OF assms, of "[]"] by (simp add: py_split_def)
  moreover have "lower_char \<circ> f = lower_char" using assms by (simp add: case_fold_def fun_eq_iff)
  ultimately show ?thesis by (simp add: clean_def py_lower_def map_join comp_def fun_eq_iff case_fold_def)
qed

lemma key_lower: "py_lower (clean (py_lower s)) = py_lower (clean s)"
  using key_fold [OF case_fold_lower] by (simp add: py_lower_def)

lemma key_upper:
  assumes "\<forall>c \<in> set s. code_point c \<noteq> 223" shows "py_lower (clean (py_upper s)) = py_lower (clean s)"
proof -
  have "py_upper s = map upper_char s" using assms by (induction s) (simp_all add: py_upper_def upper_simple)
  then show ?thesis using key_fold [OF case_fold_upper] by simp
qed

lemma dedupe_from_seen: "list_all (\<lambda>v. py_lower (clean v) \<in> set seen) vs \<Longrightarrow> dedupe_from seen vs = []"
  by (induction vs) simp_all

lemma dedupe_from_append:
  "dedupe_from seen (xs @ ys)
   = dedupe_from seen xs @ dedupe_from (rev (map py_lower (dedupe_from seen xs)) @ seen) ys"
  by (induction seen xs rule: dedupe_from.induct) (simp_all add: Let_def)

theorem case_variants_never_survive:
  assumes "\<forall>c \<in> set q. code_point c \<noteq> 223"
  shows "rule_expand table q = take MAX_VARIANTS (dedupe (q # synonym_variants table q))"
proof -
  let ?s = "q # synonym_variants table q"
  have same: "py_lower (clean v) = py_lower (clean q)" if "v \<in> set (case_variants q)" for v
    using that key_lower [of q] key_upper [OF assms] by (auto simp: case_variants_def split: if_splits)
  have "dedupe_from (rev (map py_lower (dedupe_from [] ?s)) @ []) (case_variants q) = []"
  proof (cases "clean q = []")
    case True
    have "clean v = []" if "v \<in> set (case_variants q)" for v
      using same [OF that] True by (simp add: py_lower_def)
    then have "dedupe_from seen vs = []" if "set vs \<subseteq> set (case_variants q)" for seen vs
      using that by (induction vs) (simp_all add: Let_def)
    then show ?thesis by blast
  next
    case False
    then have "py_lower (clean q) \<in> set (map py_lower (dedupe_from [] ?s))" by (simp add: Let_def)
    then show ?thesis using same by (intro dedupe_from_seen) (auto simp: list_all_iff)
  qed
  then show ?thesis
    unfolding rule_expand_def dedupe_def append_Cons [symmetric] dedupe_from_append [of "[]" ?s] by simp
qed

section \<open>Which variants are kept\<close>

lemma run_serial_kept:
  "run_serial run late kept0 vs = Inr (kept, truncated) \<Longrightarrow>
   \<exists>new. kept = kept0 @ new \<and> map fst new = take (length new) vs \<and> (truncated \<longleftrightarrow> length new < length vs)
     \<and> list_all (\<lambda>(v, c). run v = Finished c) new
     \<and> (\<forall>n < length new. \<not> drops (kept0 @ take n new) (snd (new ! n)))"
proof (induction run late kept0 vs rule: run_serial.induct)
  case (2 run late kept0 v vs)
  show ?case
  proof (cases "(any_rows kept0 \<and> late (length kept0)) \<or> run v = OutOfTime \<or> (\<exists>c. run v = Finished c \<and> drops kept0 c)")
    case True
    then have "kept = kept0 \<and> truncated" using 2(2) by (auto split: if_splits)
    then show ?thesis by simp
  next
    case False
    then obtain c where c: "run v = Finished c" "\<not> drops kept0 c" using 2(2) by (auto split: outcome.splits if_splits)
    obtain new where new: "kept = (kept0 @ [(v, c)]) @ new" "map fst new = take (length new) vs"
      "truncated \<longleftrightarrow> length new < length vs" "list_all (\<lambda>(v, c). run v = Finished c) new"
      "\<forall>n < length new. \<not> drops ((kept0 @ [(v, c)]) @ take n new) (snd (new ! n))"
      using 2(1) [OF _ c] 2(2) False c by (auto split: if_splits)
    have "\<forall>n < length ((v, c) # new). \<not> drops (kept0 @ take n ((v, c) # new)) (snd (((v, c) # new) ! n))"
      using new(5) c(2) by (auto simp: less_Suc_eq_0_disj)
    then show ?thesis using new c by (intro exI [of _ "(v, c) # new"]) auto
  qed
qed simp

theorem serial_keeps_prefix:
  assumes "run_serial run late [] vs = Inr (kept, truncated)"
  shows "map fst kept = take (length kept) vs \<and> (truncated \<longleftrightarrow> length kept < length vs)
    \<and> list_all (\<lambda>(v, c). run v = Finished c) kept
    \<and> (\<forall>n < length kept. \<not> drops (take n kept) (snd (kept ! n)))"
  using run_serial_kept [OF assms] by auto

lemma calm_keeps: "\<not> child_poisoned c \<Longrightarrow> \<not> drops kept c"
  by (simp add: drops_def)

lemma gather_serial:
  assumes "\<forall>n. \<not> late n" and "\<forall>v \<in> set vs. run v \<noteq> OutOfTime \<and> (\<forall>c. run v = Finished c \<longrightarrow> \<not> child_poisoned c)"
  shows "map_sum id (keep_children kept) (gather run vs) = run_serial run late kept vs"
  using assms(2)
proof (induction vs arbitrary: kept)
  case (Cons v vs)
  have rest: "map_sum id (keep_children k) (gather run vs) = run_serial run late k vs" for k
    using Cons.prems by (intro Cons.IH) simp
  show ?case
  proof (cases "run v")
    case (Finished c)
    then have "\<not> drops kept c" using Cons.prems by (simp add: calm_keeps)
    moreover have "\<not> late (length kept)" using assms(1) by blast
    ultimately show ?thesis using Finished rest [of "kept @ [(v, c)]"]
      by (cases "gather run vs") simp_all
  qed (use assms(1) [rule_format, of "length kept"] Cons.prems in simp_all)
qed simp

theorem pool_agrees_with_serial:
  assumes "\<forall>n. \<not> late n" and "\<forall>v \<in> set vs. run v \<noteq> OutOfTime \<and> (\<forall>c. run v = Finished c \<longrightarrow> \<not> child_poisoned c)"
  shows "run_pool run vs = run_serial run late [] vs"
  unfolding run_pool_def by (rule gather_serial [OF assms])

section \<open>The merged ranking\<close>

definition rank_sum :: "real \<Rightarrow> int \<Rightarrow> (nat \<times> jobj) list \<Rightarrow> real" where
  "rank_sum k d xs = sum_list (map (\<lambda>(i, r). if row_doc r = Some d then 1 / (k + real i) else 0) xs)"

definition variant_score :: "real \<Rightarrow> (string \<times> jobj list) list \<Rightarrow> int \<Rightarrow> real" where
  "variant_score k streams d = sum_list (map (\<lambda>(v, rs). rank_sum k d (List.enumerate 1 rs)) streams)"

definition found_in :: "(string \<times> jobj list) list \<Rightarrow> int \<Rightarrow> string list" where
  "found_in streams d = concat (map (\<lambda>(v, rs). map (\<lambda>r. v) (filter (\<lambda>r. row_doc r = Some d) rs)) streams)"

definition fused_ok :: "(int \<times> fused) list \<Rightarrow> (int \<Rightarrow> real) \<Rightarrow> (int \<Rightarrow> string list) \<Rightarrow> bool" where
  "fused_ok docs s g \<longleftrightarrow> distinct (map fst docs)
     \<and> (\<forall>d. case map_of docs d of None \<Rightarrow> g d = [] \<and> s d = 0
            | Some x \<Rightarrow> fu_score x = s d \<and> fu_found x = g d \<and> g d \<noteq> [])"

lemma add_rank_ok:
  assumes "fused_ok docs s g"
  shows "fused_ok (add_rank fill k v i r docs)
    (\<lambda>d. s d + (if row_doc r = Some d then 1 / (k + real i) else 0))
    (\<lambda>d. g d @ (if row_doc r = Some d then [v] else []))"
proof (cases "row_doc r")
  case None
  then show ?thesis using assms by (simp add: add_rank_def)
next
  case (Some d)
  have old: "case map_of docs e of None \<Rightarrow> g e = [] \<and> s e = 0 | Some x \<Rightarrow> fu_score x = s e \<and> fu_found x = g e \<and> g e \<noteq> []" for e
    using assms by (simp add: fused_ok_def)
  define y where "y = (let o1 = (case map_of docs d of None \<Rightarrow> \<lparr>fu_row = r, fu_score = 0, fu_found = []\<rparr>
      | Some f \<Rightarrow> f\<lparr>fu_row := fill (fu_row f) r\<rparr>)
    in o1\<lparr>fu_score := fu_score o1 + 1 / (k + real i), fu_found := fu_found o1 @ [v]\<rparr>)"
  have y: "fu_score y = s d + 1 / (k + real i)" "fu_found y = g d @ [v]"
    using old [of d] by (cases "map_of docs d"; simp add: y_def Let_def)+
  have a: "add_rank fill k v i r docs = AList.update d y docs" using Some by (simp add: add_rank_def y_def Let_def)
  have "distinct (map fst (AList.update d y docs))" using assms by (simp add: fused_ok_def distinct_update)
  moreover have "case map_of (AList.update d y docs) e of
      None \<Rightarrow> g e @ (if Some d = Some e then [v] else []) = [] \<and> s e + (if Some d = Some e then 1 / (k + real i) else 0) = 0
    | Some x \<Rightarrow> fu_score x = s e + (if Some d = Some e then 1 / (k + real i) else 0)
        \<and> fu_found x = g e @ (if Some d = Some e then [v] else []) \<and> g e @ (if Some d = Some e then [v] else []) \<noteq> []" for e
    using y old [of e] by (cases "e = d"; cases "map_of docs e") (simp_all add: update_conv')
  ultimately show ?thesis unfolding a Some fused_ok_def by blast
qed

lemma add_ranks_ok:
  "fused_ok docs s g \<Longrightarrow> fused_ok (foldl (\<lambda>ds (i, r). add_rank fill k v i r ds) docs xs)
     (\<lambda>d. s d + rank_sum k d xs) (\<lambda>d. g d @ map (\<lambda>x. v) (filter (\<lambda>x. row_doc (snd x) = Some d) xs))"
proof (induction xs arbitrary: docs s g)
  case (Cons x xs)
  obtain i r where x: "x = (i, r)" by (cases x)
  have e: "s d + rank_sum k d (x # xs) = s d + (if row_doc r = Some d then 1 / (k + real i) else 0) + rank_sum k d xs"
    "g d @ map (\<lambda>x. v) (filter (\<lambda>x. row_doc (snd x) = Some d) (x # xs))
     = (g d @ (if row_doc r = Some d then [v] else [])) @ map (\<lambda>x. v) (filter (\<lambda>x. row_doc (snd x) = Some d) xs)" for d
    by (simp_all add: x rank_sum_def)
  show ?case unfolding e using Cons.IH [OF add_rank_ok [OF Cons.prems, of fill k v i r]] by (simp add: x)
qed (simp add: rank_sum_def)

lemma filter_enumerate: "map f (filter (\<lambda>x. P (snd x)) (List.enumerate n xs)) = map (\<lambda>x. f (n, x)) (filter P xs)"
  if "\<And>i j x. f (i, x) = f (j, x)"
  by (induction xs arbitrary: n) (use that in auto)

lemma rank_stream_ok:
  assumes "fused_ok docs s g"
  shows "fused_ok (rank_stream fill k v rs docs) (\<lambda>d. s d + variant_score k [(v, rs)] d) (\<lambda>d. g d @ found_in [(v, rs)] d)"
proof -
  have "map (\<lambda>x. v) (filter (\<lambda>x. row_doc (snd x) = Some d) (List.enumerate 1 rs)) = found_in [(v, rs)] d" for d
    using filter_enumerate [of "\<lambda>x. v" "\<lambda>r. row_doc r = Some d" 1 rs] by (simp add: found_in_def)
  then show ?thesis using add_ranks_ok [OF assms, of fill k v "List.enumerate 1 rs"]
    by (simp add: rank_stream_def variant_score_def)
qed

lemma fuse_from_ok:
  "fused_ok docs s g \<Longrightarrow> fused_ok (foldl (\<lambda>ds (v, rs). rank_stream fill k v rs ds) docs streams)
     (\<lambda>d. s d + variant_score k streams d) (\<lambda>d. g d @ found_in streams d)"
proof (induction streams arbitrary: docs s g)
  case (Cons x xs)
  obtain v rs where x: "x = (v, rs)" by (cases x)
  have e: "s d + variant_score k (x # xs) d = s d + variant_score k [(v, rs)] d + variant_score k xs d"
    "g d @ found_in (x # xs) d = (g d @ found_in [(v, rs)] d) @ found_in xs d" for d
    by (simp_all add: x variant_score_def found_in_def)
  show ?case unfolding e using Cons.IH [OF rank_stream_ok [OF Cons.prems, of fill k v rs]] by (simp add: x)
qed (simp add: variant_score_def found_in_def)

lemma fused_ok_Nil: "fused_ok [] (\<lambda>d. 0) (\<lambda>d. [])"
  by (simp add: fused_ok_def)

lemma fuse_ok: "fused_ok (fuse k streams) (variant_score k streams) (found_in streams)"
  using fuse_from_ok [OF fused_ok_Nil, of "\<lambda>a b. a" k streams] by (simp add: fuse_def)

definition rows_from :: "jobj set \<Rightarrow> (int \<times> fused) list \<Rightarrow> bool" where
  "rows_from R docs \<longleftrightarrow> distinct (map fst docs) \<and> (\<forall>d x. (d, x) \<in> set docs \<longrightarrow> row_doc (fu_row x) = Some d \<and> fu_row x \<in> R)"

lemma in_update:
  "distinct (map fst xs) \<Longrightarrow> (k, v) \<in> set (AList.update k0 w xs) \<longleftrightarrow> (if k = k0 then v = w else (k, v) \<in> set xs)"
proof -
  assume d: "distinct (map fst xs)"
  have "(k, v) \<in> set (AList.update k0 w xs) \<longleftrightarrow> map_of (AList.update k0 w xs) k = Some v"
    using d by (simp only: map_of_eq_Some_iff distinct_update)
  also have "\<dots> \<longleftrightarrow> (if k = k0 then v = w else map_of xs k = Some v)" by (simp only: update_conv' fun_upd_apply option.inject) auto
  also have "\<dots> \<longleftrightarrow> (if k = k0 then v = w else (k, v) \<in> set xs)" using d by (simp only: map_of_eq_Some_iff)
  finally show ?thesis .
qed

lemma add_rank_rows:
  assumes "rows_from R docs" and "r \<in> R"
  shows "rows_from R (add_rank (\<lambda>a b. a) k v i r docs)"
proof (cases "row_doc r")
  case None
  then show ?thesis using assms by (simp add: add_rank_def)
next
  case (Some d)
  have "row_doc (fu_row x) = Some d \<and> fu_row x \<in> R" if "map_of docs d = Some x" for x
    using assms(1) that by (auto simp: rows_from_def dest: map_of_SomeD)
  then show ?thesis using assms Some
    by (auto simp: rows_from_def add_rank_def Let_def distinct_update in_update split: option.splits if_splits)
qed

lemma add_ranks_rows:
  "rows_from R docs \<Longrightarrow> snd ` set xs \<subseteq> R \<Longrightarrow> rows_from R (foldl (\<lambda>ds (i, r). add_rank (\<lambda>a b. a) k v i r ds) docs xs)"
proof (induction xs arbitrary: docs)
  case (Cons x xs)
  obtain i r where x: "x = (i, r)" by (cases x)
  show ?case using Cons.IH [OF add_rank_rows [OF Cons.prems(1)]] Cons.prems(2) by (simp add: x)
qed simp

lemma fuse_from_rows:
  "rows_from R docs \<Longrightarrow> (\<Union>x \<in> set streams. set (snd x)) \<subseteq> R
   \<Longrightarrow> rows_from R (foldl (\<lambda>ds (v, rs). rank_stream (\<lambda>a b. a) k v rs ds) docs streams)"
proof (induction streams arbitrary: docs)
  case (Cons x xs)
  obtain v rs where x: "x = (v, rs)" by (cases x)
  have "rows_from R (rank_stream (\<lambda>a b. a) k v rs docs)"
    unfolding rank_stream_def using Cons.prems x by (intro add_ranks_rows) (auto simp: enumerate_snd)
  then show ?case using Cons x by simp
qed simp

lemma ranked_facts:
  "set (ranked own docs) = snd ` set docs" "mset (ranked own docs) = mset (map snd docs)"
  "sorted_wrt (\<lambda>x y. fu_score y \<le> fu_score x) (ranked own docs)"
  by (simp_all add: ranked_def sort_desc_mset sort_desc_sorted)

lemma ranked_rest:
  "m \<in> set (take n (ranked own docs)) \<Longrightarrow> x \<in> set (drop n (ranked own docs)) \<Longrightarrow> fu_score x \<le> fu_score m"
  unfolding ranked_def by (rule sort_desc_rest)

theorem merge_expanded_exact:
  "let ms = merge_expanded_results k streams limit; shown = map (row_doc \<circ> fu_row) ms
   in length ms \<le> limit \<and> distinct shown \<and> sorted_wrt (\<lambda>x y. fu_score y \<le> fu_score x) ms
    \<and> (\<forall>m \<in> set ms. \<exists>d. row_doc (fu_row m) = Some d \<and> fu_score m = variant_score k streams d
         \<and> fu_found m = found_in streams d \<and> (\<exists>x \<in> set streams. fu_row m \<in> set (snd x)))
    \<and> (\<forall>d. found_in streams d \<noteq> [] \<and> Some d \<notin> set shown
         \<longrightarrow> length ms = limit \<and> (\<forall>m \<in> set ms. variant_score k streams d \<le> fu_score m))"
proof -
  define docs where "docs = fuse k streams"
  define R where "R = ranked (\<lambda>r. number (jget r ''score'')) docs"
  define S where "S = (\<Union>x \<in> set streams. set (snd x))"
  have ok: "fused_ok docs (variant_score k streams) (found_in streams)" unfolding docs_def by (rule fuse_ok)
  have "rows_from S []" by (simp add: rows_from_def)
  then have rows: "rows_from S docs" unfolding docs_def fuse_def by (rule fuse_from_rows) (simp add: S_def)
  have entry: "row_doc (fu_row x) = Some d \<and> fu_row x \<in> S \<and> fu_score x = variant_score k streams d \<and> fu_found x = found_in streams d"
    if "(d, x) \<in> set docs" for d x
  proof -
    have "map_of docs d = Some x" using that ok by (simp add: fused_ok_def)
    then show ?thesis using ok rows that by (auto simp: fused_ok_def rows_from_def dest!: spec [of _ d])
  qed
  have "map (row_doc \<circ> fu_row) (map snd docs) = map (Some \<circ> fst) docs" using entry by auto
  then have "distinct (map (row_doc \<circ> fu_row) (map snd docs))"
    using ok by (simp add: fused_ok_def distinct_map) (simp add: inj_on_def)
  then have dist: "distinct (map (row_doc \<circ> fu_row) R)"
    by (metis R_def mset_eq_imp_distinct_iff mset_map ranked_facts(2))
  have setR: "set R = snd ` set docs" by (simp add: R_def ranked_facts)
  have each: "\<exists>d. row_doc (fu_row m) = Some d \<and> fu_score m = variant_score k streams d
      \<and> fu_found m = found_in streams d \<and> (\<exists>x \<in> set streams. fu_row m \<in> set (snd x))" if "m \<in> set (take limit R)" for m
  proof -
    have "m \<in> snd ` set docs" using in_set_takeD [OF that] unfolding setR .
    then obtain d where "(d, m) \<in> set docs" by force
    from entry [OF this] show ?thesis by (auto simp: S_def)
  qed
  have rest: "length (take limit R) = limit \<and> (\<forall>m \<in> set (take limit R). variant_score k streams d \<le> fu_score m)"
    if d: "found_in streams d \<noteq> []" "Some d \<notin> set (map (row_doc \<circ> fu_row) (take limit R))" for d
  proof -
    obtain x where x: "map_of docs d = Some x"
      using ok d(1) unfolding fused_ok_def by (cases "map_of docs d") (auto dest!: spec [of _ d])
    then have dx: "(d, x) \<in> set docs" by (rule map_of_SomeD)
    then have e: "row_doc (fu_row x) = Some d" "fu_score x = variant_score k streams d" "x \<in> set R"
      using entry [OF dx] setR by force+
    then have "x \<notin> set (take limit R)" using d(2) by force
    then have "x \<in> set (drop limit R)" using e(3) by (metis Un_iff append_take_drop_id set_append)
    then have "fu_score x \<le> fu_score m" if "m \<in> set (take limit R)" for m
      using that unfolding R_def by (intro ranked_rest)
    moreover have "limit < length R" using \<open>x \<in> set (drop limit R)\<close> by (cases "limit < length R") simp_all
    ultimately show ?thesis using e(2) by simp
  qed
  show ?thesis
    unfolding merge_expanded_results_def Let_def docs_def [symmetric] R_def [symmetric]
  proof (intro conjI allI impI ballI)
    show "length (take limit R) \<le> limit" by simp
    show "distinct (map (row_doc \<circ> fu_row) (take limit R))" using dist by (simp add: take_map [symmetric])
    show "sorted_wrt (\<lambda>x y. fu_score y \<le> fu_score x) (take limit R)"
      unfolding R_def by (rule sorted_wrt_take [OF ranked_facts(3)])
  qed (use each rest in blast)+
qed

section \<open>HyDE\<close>

text \<open>The rows of both streams once each, and exactly those the probe found carry the mark.\<close>

theorem hyde_marks_exactly:
  assumes "m \<in> set (merge_hyde_results k original hyde limit)" and "hyde \<noteq> []"
  shows "\<exists>d. fu_score m = variant_score k [(''original'', original), (''hyde'', hyde)] d
    \<and> (via_hyde m \<longleftrightarrow> (\<exists>r \<in> set hyde. row_doc r = Some d))
    \<and> (\<exists>r \<in> set (original @ hyde). row_doc r = Some d)"
proof -
  let ?docs = "rank_stream fill_missing k ''hyde'' hyde (rank_stream (\<lambda>a b. a) k ''original'' original [])"
  let ?S = "[(''original'', original), (''hyde'', hyde)]"
  have ok: "fused_ok ?docs (variant_score k ?S) (found_in ?S)"
    using rank_stream_ok [OF rank_stream_ok [OF fused_ok_Nil, where k = k and v = "''original''" and rs = original],
        where fill = fill_missing and k = k and v = "''hyde''" and rs = hyde]
    unfolding variant_score_def [abs_def] found_in_def [abs_def] by simp
  have "m \<in> set (ranked hyde_own ?docs)" using assms by (auto simp: merge_hyde_results_def dest: in_set_takeD)
  then obtain d where "(d, m) \<in> set ?docs" unfolding ranked_facts by force
  then have "map_of ?docs d = Some m" using ok by (simp add: fused_ok_def)
  then have "fu_score m = variant_score k ?S d" "fu_found m = found_in ?S d" "found_in ?S d \<noteq> []"
    using ok unfolding fused_ok_def by (auto dest!: spec [of _ d])
  then show ?thesis by (intro exI [of _ d]) (auto simp: via_hyde_def found_in_def filter_empty_conv)
qed

section \<open>A query that speaks of the search deadline\<close>

definition quiet :: child where
  "quiet = \<lparr>ch_rows = [[(''doc_id'', JInt 1)]], ch_suppressed = None, ch_rerank = Some ''model missing'',
     ch_expand = None, ch_vector = None, ch_hyde = None, ch_document = None\<rparr>"

definition late_child :: child where
  "late_child = quiet\<lparr>ch_vector := Some ''search deadline; skipped vector''\<rparr>"

theorem query_text_mistaken_for_poison:
  "drops [(''release policy'', quiet)] late_child \<and> \<not> drops [(''search deadline policy'', quiet)] late_child"
  by (simp add: drops_def any_rows_def quiet_def late_child_def child_poisoned_def notes_of_def says_deadline_def
      or_text_def py_lower_def lower_char_def code_point_def starts_with_def map_filter_def)

section \<open>Linked pages\<close>

definition linked_ok :: "host \<Rightarrow> effective_principal option \<Rightarrow> string \<Rightarrow> library \<Rightarrow> linked \<Rightarrow> bool" where
  "linked_ok h p workspace l k \<longleftrightarrow> (\<exists>q. p = Some q
     \<and> can_read_document h p (if workspace \<noteq> [] then workspace
         else if p_workspace_id q = [] then ''default'' else p_workspace_id q) (linked_json (lk_doc k)))
     \<and> py_lower (or_text (xd_status (lk_doc k)) ''candidate'') \<notin> {''draft'', ''rejected'', ''superseded'', ''expired''}
     \<and> (\<exists>c \<in> set (lb_chunks l). ck_doc c = xd_id (lk_doc k) \<and> lk_text k = take 700 (ck_text c))
     \<and> list_ex (\<lambda>s. \<not> like_metachar s \<and> ends_like s (xd_path (lk_doc k))) (link_candidates (lk_link k))"

lemma in_map_filter: "y \<in> set (List.map_filter f xs) \<longleftrightarrow> (\<exists>x \<in> set xs. f x = Some y)"
  by (force simp: map_filter_def)

lemma link_row_Some:
  assumes "link_row l s = Some (c, x)"
  shows "c \<in> set (lb_chunks l) \<and> xd_id x = ck_doc c \<and> \<not> like_metachar s \<and> ends_like s (xd_path x)"
proof -
  obtain ys where ys: "filter (\<lambda>(c, x). ends_like s (xd_path x)) (List.map_filter (joined l) (sort_key ck_id (lb_chunks l))) = (c, x) # ys"
    using assms by (auto simp: link_row_def split: if_splits list.splits)
  then have "(c, x) \<in> set (filter (\<lambda>(c, x). ends_like s (xd_path x)) (List.map_filter (joined l) (sort_key ck_id (lb_chunks l))))"
    by simp
  then have cx: "ends_like s (xd_path x)" "(c, x) \<in> set (List.map_filter (joined l) (sort_key ck_id (lb_chunks l)))" by simp_all
  then obtain c' where "c' \<in> set (lb_chunks l)" "joined l c' = Some (c, x)" unfolding in_map_filter by auto
  then show ?thesis using cx(1) assms joined_ids [of l c' c x] by (auto simp: link_row_def split: if_splits)
qed

lemma find_linked_Some:
  assumes "find_linked l link = Some (c, x)"
  shows "c \<in> set (lb_chunks l) \<and> xd_id x = ck_doc c
    \<and> list_ex (\<lambda>s. \<not> like_metachar s \<and> ends_like s (xd_path x)) (link_candidates link)"
proof -
  have "(c, x) \<in> set (List.map_filter (link_row l) (link_candidates link))"
    using assms by (auto simp: find_linked_def split: list.splits)
  then obtain s where "s \<in> set (link_candidates link)" "link_row l s = Some (c, x)" by (auto simp: map_filter_def)
  then show ?thesis using link_row_Some [of l s c x] by (auto simp: list_ex_iff)
qed

lemma fetch_linked_ok:
  assumes "k \<in> set (fetch_linked_context h p workspace limit ls l)"
  shows "linked_ok h p workspace l k \<and> lk_link k \<in> set (take limit ls)"
proof -
  define ws where "ws = (if workspace \<noteq> [] then workspace else case p of None \<Rightarrow> ''default'' | Some q \<Rightarrow>
            if p_workspace_id q = [] then ''default'' else p_workspace_id q)"
  define bad where "bad = {''draft'', ''rejected'', ''superseded'', ''expired''}"
  obtain link where f: "link \<in> set (take limit ls)"
    and s: "(case find_linked l link of None \<Rightarrow> None
        | Some (c, x) \<Rightarrow> if p = None \<or> py_lower (or_text (xd_status x) ''candidate'') \<in> bad
               \<or> \<not> can_read_document h p ws (linked_json x) then None
            else Some \<lparr>lk_link = link, lk_doc = x, lk_text = take 700 (ck_text c)\<rparr>) = Some k"
    using assms unfolding fetch_linked_context_def Let_def in_map_filter ws_def [symmetric] bad_def [symmetric] by blast
  obtain c x where cx: "find_linked l link = Some (c, x)" using s by (cases "find_linked l link") auto
  then have g: "p \<noteq> None" "py_lower (or_text (xd_status x) ''candidate'') \<notin> bad" "can_read_document h p ws (linked_json x)"
    and k: "k = \<lparr>lk_link = link, lk_doc = x, lk_text = take 700 (ck_text c)\<rparr>"
    using s by (simp_all split: if_splits)
  obtain q where q: "p = Some q" using g(1) by blast
  have "ws = (if workspace \<noteq> [] then workspace else if p_workspace_id q = [] then ''default'' else p_workspace_id q)"
    by (simp add: ws_def q)
  then show ?thesis using f g(2,3) k find_linked_Some [OF cx] unfolding linked_ok_def bad_def q by auto
qed

lemma summaries_ok:
  "(r, Some nb) \<in> set (add_neighborhood_summaries h afm late p ws l n rows) \<Longrightarrow> list_all (linked_ok h p ws l) (nb_contexts nb)"
proof (induction h afm late p ws l n rows rule: add_neighborhood_summaries.induct)
  case (2 h afm late p ws l n r0 rs)
  have c: "list_all (linked_ok h p ws l) (fetch_linked_context h p ws 8 (row_links l r0) l)"
    using fetch_linked_ok by (fastforce simp: list_all_iff)
  show ?case using 2 c by (auto simp: Let_def split: if_splits)
qed simp

theorem linked_pages_readable:
  assumes "(r, Some nb) \<in> set (add_neighborhood_summaries h afm late p ws l 0 rows)"
  shows "r \<in> set rows \<and> list_all (linked_ok h p ws l) (nb_contexts nb)"
proof -
  have "map fst (add_neighborhood_summaries h afm late p ws l n rows) = rows" for n
    by (induction h afm late p ws l n rows rule: add_neighborhood_summaries.induct) (simp_all add: Let_def comp_def)
  then have "r \<in> set rows" using assms by (metis fst_conv image_eqI list.set_map)
  then show ?thesis using summaries_ok [OF assms] by blast
qed

lemma last_split_end: "last (split_on x (s @ [x])) = []"
proof -
  have "split_on x (s @ [x]) \<noteq> [] \<and> last (split_on x (s @ [x])) = [] \<and> length (split_on x (s @ [x])) \<ge> 2"
  proof (induction s)
    case (Cons c s)
    then show ?case by (cases "split_on x (s @ [x])") auto
  qed simp
  then show ?thesis by blast
qed

text \<open>The guard against wildcards does not see the empty name: a link that ends in a slash finds a page
  whatever the link says.\<close>

theorem slash_link_matches_any_page:
  assumes "List.map_filter (joined l) (lb_chunks l) \<noteq> []"
  shows "find_linked l (s @ ''/'') \<noteq> None"
proof -
  have "[] \<in> set (link_candidates (s @ ''/''))"
    using last_split_end [of "CHR ''/''" s] by (simp add: link_candidates_def starts_with_def)
  moreover have "link_row l [] \<noteq> None"
  proof -
    obtain c where "c \<in> set (lb_chunks l)" "joined l c \<noteq> None" using assms by (auto simp: map_filter_def filter_empty_conv)
    then have "List.map_filter (joined l) (sort_key ck_id (lb_chunks l)) \<noteq> []" by (auto simp: map_filter_def filter_empty_conv)
    then show ?thesis by (simp add: link_row_def like_metachar_def ends_like_def starts_with_def split: list.splits)
  qed
  ultimately have "List.map_filter (link_row l) (link_candidates (s @ ''/'')) \<noteq> []"
    by (auto simp: map_filter_def filter_empty_conv)
  then show ?thesis by (simp add: find_linked_def split: list.splits)
qed

section \<open>The theorems at work\<close>

definition demo_synonyms :: "(string \<times> string list) list" where
  "demo_synonyms = load_synonyms [''# expansions'', ''db:'', ''  - database'', [], ''database:'', ''  - DB'']"

lemma demo_expansion:
  "expand_with_status demo_synonyms (\<lambda>q. []) '' which  DB '' ''afm'' = ([''which DB'', ''which database''], Some ''afm_unavailable'')"
  by code_simp

theorem expansion_sound_witness:
  "hd (fst (expand_with_status demo_synonyms (\<lambda>q. []) '' which  DB '' ''afm'')) = clean '' which  DB ''"
proof -
  have "py_strip '' which  DB '' \<noteq> []" by code_simp
  from expansion_sound [OF demo_expansion this] show ?thesis unfolding demo_expansion fst_conv by blast
qed

theorem case_variants_never_survive_witness:
  "rule_expand demo_synonyms ''WHICH DB'' = take MAX_VARIANTS (dedupe (''WHICH DB'' # synonym_variants demo_synonyms ''WHICH DB''))"
  by (rule case_variants_never_survive) (simp add: code_point_def)

definition demo_run :: "string \<Rightarrow> outcome" where
  "demo_run v = (if v = ''a'' then Finished quiet else if v = ''b'' then Finished late_child else Failed ''gone'')"

lemma demo_serial: "run_serial demo_run (\<lambda>n. False) [] [''a'', ''b'', ''c''] = Inr ([(''a'', quiet)], True)"
  by code_simp

theorem serial_keeps_prefix_witness:
  "\<exists>kept. run_serial demo_run (\<lambda>n. False) [] [''a'', ''b'', ''c''] = Inr (kept, True)
     \<and> map fst kept = take (length kept) [''a'', ''b'', ''c''] \<and> length kept < 3"
  using serial_keeps_prefix [OF demo_serial] demo_serial by simp

theorem pool_agrees_with_serial_witness:
  "run_pool demo_run [''a'', ''c''] = run_serial demo_run (\<lambda>n. False) [] [''a'', ''c'']
    \<and> run_pool demo_run [''a'', ''c''] = Inl ''gone''"
proof -
  have "run_pool demo_run [''a'', ''c''] = run_serial demo_run (\<lambda>n. False) [] [''a'', ''c'']"
    by (rule pool_agrees_with_serial)
      (simp_all add: demo_run_def quiet_def child_poisoned_def says_deadline_def or_text_def py_lower_def
        lower_char_def code_point_def starts_with_def)
  moreover have "run_pool demo_run [''a'', ''c''] = Inl ''gone''" by code_simp
  ultimately show ?thesis by blast
qed

definition demo_streams :: "(string \<times> jobj list) list" where
  "demo_streams = [(''a'', [[(''doc_id'', JInt 1)], [(''doc_id'', JInt 2)]]), (''b'', [[(''doc_id'', JInt 2)]])]"

theorem merge_expanded_exact_witness:
  "\<exists>m. merge_expanded_results 60 demo_streams 1 = [m] \<and> row_doc (fu_row m) = Some 2 \<and> fu_found m = [''a'', ''b'']"
proof -
  let ?ms = "merge_expanded_results 60 demo_streams 1"
  note exact = merge_expanded_exact [of 60 demo_streams 1, unfolded Let_def]
  have found: "found_in demo_streams 1 = [''a'']" "found_in demo_streams 2 = [''a'', ''b'']"
    by (simp_all add: found_in_def demo_streams_def row_doc_def jget_or_def)
  have score: "variant_score 60 demo_streams 1 = 1 / 61" "variant_score 60 demo_streams 2 = 1 / 62 + 1 / 61"
    by (simp_all add: variant_score_def rank_sum_def demo_streams_def row_doc_def jget_or_def)
  have two: "Some 2 \<in> set (map (row_doc \<circ> fu_row) ?ms)"
  proof (rule ccontr)
    assume no: "Some 2 \<notin> set (map (row_doc \<circ> fu_row) ?ms)"
    then have l: "length ?ms = 1" and le: "\<forall>m \<in> set ?ms. variant_score 60 demo_streams 2 \<le> fu_score m"
      using exact found(2) by (metis list.distinct(1))+
    obtain m where m: "?ms = [m]" using l by (cases ?ms) auto
    then obtain d where d: "row_doc (fu_row m) = Some d" "fu_score m = variant_score 60 demo_streams d"
      "\<exists>x \<in> set demo_streams. fu_row m \<in> set (snd x)" using exact by auto
    then have "d = 1 \<or> d = 2" by (auto simp: demo_streams_def row_doc_def jget_or_def)
    then show False using d le m score no by auto
  qed
  moreover have "length ?ms \<le> 1" using exact by blast
  ultimately obtain m where m: "?ms = [m]" "row_doc (fu_row m) = Some 2" by (cases ?ms) auto
  then show ?thesis using exact found(2) by auto
qed

theorem hyde_marks_exactly_witness:
  "\<forall>m \<in> set (merge_hyde_results 60 [[(''doc_id'', JInt 1)]] [[(''doc_id'', JInt 2)]] 5).
     \<exists>d. via_hyde m \<longleftrightarrow> (\<exists>r \<in> {[(''doc_id'', JInt 2)]}. row_doc r = Some d)"
proof
  fix m assume "m \<in> set (merge_hyde_results 60 [[(''doc_id'', JInt 1)]] [[(''doc_id'', JInt 2)]] 5)"
  from hyde_marks_exactly [OF this] show "\<exists>d. via_hyde m \<longleftrightarrow> (\<exists>r \<in> {[(''doc_id'', JInt 2)]}. row_doc r = Some d)"
    by auto
qed

theorem slash_link_matches_any_page_witness: "find_linked demo_library ''no such page/'' \<noteq> None"
proof -
  have "List.map_filter (joined demo_library) (lb_chunks demo_library) \<noteq> []" by code_simp
  from slash_link_matches_any_page [OF this, of "''no such page''"] show ?thesis by simp
qed

definition demo_linking_row :: jobj where
  "demo_linking_row = [(''text'', JStr ''see [[plan]] and [[secret]]'')]"

definition demo_summaries :: "(jobj \<times> neighborhood option) list" where
  "demo_summaries = add_neighborhood_summaries tree_host (\<lambda>t. Some ''in short'') (\<lambda>n. False) (Some demo_reader) [] demo_library 0
     [demo_linking_row]"

lemma demo_summary:
  "demo_summaries = [(demo_linking_row, Some \<lparr>nb_ok = True, nb_summary = Some ''in short'', nb_links = [''plan'', ''secret''],
     nb_contexts = [\<lparr>lk_link = ''plan'', lk_doc = lb_docs demo_library ! 0, lk_text = ''the plan''\<rparr>]\<rparr>)]"
  by code_simp

theorem linked_pages_readable_witness:
  "\<exists>nb. demo_summaries = [(demo_linking_row, Some nb)] \<and> length (nb_contexts nb) = 1
     \<and> list_all (linked_ok tree_host (Some demo_reader) [] demo_library) (nb_contexts nb)"
proof -
  obtain nb where nb: "demo_summaries = [(demo_linking_row, Some nb)]" "length (nb_contexts nb) = 1"
    using demo_summary by fastforce
  have "(demo_linking_row, Some nb) \<in> set demo_summaries" unfolding nb(1) by simp
  then show ?thesis using linked_pages_readable nb unfolding demo_summaries_def by blast
qed

end
