(* ===== verification/Spec2Isabelle.thy ===== *)
theory Spec2Isabelle
  imports AfmChunking_Laws Chunker_Laws Episodic_Laws Expansion_Laws Handoff_Laws History
    Pack Prepare_Laws Reading_Laws Recall_Laws Shortlist_Laws Variants_Laws
begin

text \<open>
  A verification library for Minni, the memory daemon under \<^verbatim>\<open>src/src/minni\<close>.  Agents talk to
  the daemon over a socket: they stage candidate memories, resolve and correct them, hand work
  over to each other and search what is stored.  The daemon decides who a caller is and what it
  may do, keeps the tables and vaults, and shows what it found in a form that a model cannot
  mistake for instructions.  The theories model those decisions; file names below are relative to
  \<^verbatim>\<open>src/src/minni\<close>.

  \<^bold>\<open>How the parts interact.\<close>  A frame enters at \<^verbatim>\<open>minnid_runtime/dispatch.py\<close>, which looks the method up,
  resolves the caller's claim to a principal (\<^verbatim>\<open>principal.py\<close>, \<^verbatim>\<open>provenance.py\<close>), checks the
  capability and calls a handler.  The handlers of \<^verbatim>\<open>governance.py\<close> write candidates, learnings and
  contradiction events; the background drain of \<^verbatim>\<open>afm.py\<close> promotes, rejects or parks candidates the
  consolidation pass has triaged; \<^verbatim>\<open>handoff.py\<close> and \<^verbatim>\<open>thread_relay.py\<close> move packets and events between
  agents; \<^verbatim>\<open>recall.py\<close> asks one or several \<^verbatim>\<open>RetrievalEngine\<close>s (\<^verbatim>\<open>retrieval.py\<close>), merges what they
  answer and reports what degraded.

  \<^bold>\<open>Theories, in the order of the code.\<close>
  \<^item> \<open>Prelude\<close>: Python values (JSON, \<open>str\<close>, \<open>int\<close>, \<open>float\<close>, truth), exceptions as the type \<open>pyerr\<close>,
    the collection \<open>py_simps\<close> and the lemmas on strings and maps that the components share.
    \<open>Regex\<close>: \<^verbatim>\<open>re.sub\<close> over recognisers, with fuel the length of the text; every step consumes a
    character, so it never runs out.  \<open>Words\<close>: \<^verbatim>\<open>str.split\<close>.
  \<^item> \<open>Safety\<close> (\<^verbatim>\<open>safety.py\<close>), \<open>Redaction\<close> (\<^verbatim>\<open>redaction.py\<close>): instruction-likeness and secrets.
  \<^item> \<open>Principal\<close> (\<^verbatim>\<open>principal.py\<close>): identity files, stamping, aliases, vault roots and the read gate of a
    document.  \<open>Frontmatter\<close> (\<^verbatim>\<open>indexer.py\<close>): what a page may claim about itself.
  \<^item> \<open>Dispatch\<close> (\<^verbatim>\<open>minnid_runtime/dispatch.py\<close>, \<^verbatim>\<open>provenance.py\<close>, \<^verbatim>\<open>rpc.py\<close>, \<^verbatim>\<open>minnid.py\<close>): the method table, the
    capability gate and the frame of a handler.
  \<^item> \<open>Store\<close>: the rows of the tables and the state \<open>store\<close> all governed writers pass on.
    \<open>ReviewMarkers\<close> (\<^verbatim>\<open>afm_review_markers.py\<close>), \<open>Graph\<close> (\<^verbatim>\<open>graph_commit.py\<close>): fences and canonical nodes.
    \<open>Gates\<close>, \<open>Stage\<close>, \<open>Resolve\<close>, \<open>Learn\<close>, \<open>Correct\<close>, \<open>Subscribe\<close> (\<^verbatim>\<open>governance.py\<close>): one theory per handler.
    \<open>Consolidation\<close> (\<^verbatim>\<open>afm_passes/consolidation.py\<close>) and \<open>Drain\<close> (\<^verbatim>\<open>afm.py\<close>): triage and its application.
    \<open>Queue\<close> is the abstract candidate queue as a locale; \<open>History\<close> interprets it over the seven
    writers together and states what holds over every history of calls.
  \<^item> \<open>Handoff\<close>, \<open>Handoff_Laws\<close> (\<^verbatim>\<open>handoff.py\<close>, \<^verbatim>\<open>afm_passes/inbox_archive.py\<close>): packets in vaults and leases in the
    database, sent, listed, acknowledged, awaited.  \<open>ThreadRelay\<close> (\<^verbatim>\<open>thread_relay.py\<close>): journals, cursors.
  \<^item> \<open>Timestamps\<close>, \<open>Decay\<close>, \<open>Scoring\<close>, \<open>RerankCache\<close>, \<open>Obs\<close>: stored times, the decay pass, calibration of
    confidence, the bounded cache of cross-encoder scores, counters.
  \<^item> \<open>Pack\<close> (\<^verbatim>\<open>tokens.py\<close>), \<open>Chunker\<close>, \<open>AfmChunking\<close> with their laws: budgets, sections and windows, and the
    splitting of native calls that overflow.
  \<^item> \<open>Hits\<close>, \<open>Fusion\<close>, \<open>Retrieve\<close>, \<open>Evidence\<close>, \<open>Results\<close> with their laws (\<^verbatim>\<open>retrieval.py\<close>): the legs and the
    filters behind a growing candidate window, fusion and cross-encoder, the pipeline, the evidence
    envelope, and how hits are shown at each depth.  \<open>Variants\<close> (\<^verbatim>\<open>query_expand.py\<close>, \<^verbatim>\<open>hyde.py\<close>, \<^verbatim>\<open>retrieval.py\<close>):
    expanded queries, their legs and linked pages.
  \<^item> \<open>Trace\<close> (\<^verbatim>\<open>trace.py\<close>), \<open>Recall\<close>, \<open>Recall_Laws\<close> (\<^verbatim>\<open>minnid_runtime/recall.py\<close>): the ring of query traces; one
    request over several corpora.  \<open>Episodic\<close> (\<^verbatim>\<open>episodic.py\<close>): the event log, its index and repair.  \<open>Drill\<close> and
    \<open>Reading\<close> with their laws: the expand, drill, read, feedback and export handlers and the search of
    learnings.
  \<^item> \<open>Expansion\<close> (\<^verbatim>\<open>graph_expansion.py\<close>): neighbours of seeds over one and two hops.  \<open>Shortlist\<close>
    (\<^verbatim>\<open>graph_candidates.py\<close>): which documents a new learning is compared with.  \<open>EdgeInference\<close>
    (\<^verbatim>\<open>edge_inference.py\<close>): the prompt within its budget and the validation of an answer.
    \<open>EdgeClassifier\<close> (\<^verbatim>\<open>edge_classifier.py\<close>, \<^verbatim>\<open>model_provider.py\<close>): asking local models only.  \<open>Coordinator\<close> and
    \<open>Prepare\<close> (\<^verbatim>\<open>graph_coordinator.py\<close>): preparing a learning outside any transaction, committing it
    with its edges and supersessions, the wrapper, and the repair of a projection.  Each with its laws.

  \<^bold>\<open>State and errors.\<close>  A table is a list of rows in insertion order, a dict an association list or a
  map, a file tree a map from paths; a handler takes the state and returns the answer with the
  new state, so that a refused call visibly leaves it alone.  A Python exception is \<open>Inl\<close> of a
  \<open>pyerr\<close> or of an error of the component; a rollback returns the state of the transaction's start.
  Python's unbounded ints are \<open>int\<close>; floats of scores are \<open>real\<close>, with infinities and NaN written out where
  the code parses them.  A string is a list of characters read as code points below 256; lengths, case
  and white space of text beyond that range are outside the model.  \<open>Evidence\<close> works on lists of any code
  points, since it inserts U+2063.  Scores have no rounding and no NaN.

  \<^bold>\<open>Groups of lemmas.\<close>  Each component has its well-formedness or type invariant with its
  preservation, the effect of every operation on its success and its error branches, and the
  properties stated as C1 to C40 right after a text block of that name.  Locales state the
  interfaces between components (the candidate queue, stores of owned entries, monotone windows
  over a source of rows, handlers behind the gate); each is interpreted on the definitions of
  the code in the theory that provides them.

  \<^bold>\<open>Bounds and fuel.\<close>  Awaiting a handoff has the number of polls as fuel; C20 says when it returns, and
  \<open>await_enough_polls\<close> that 6001 polls (300 s at 50 ms) are enough for every timeout when each poll
  advances the wall clock by its sleep.  The candidate window doubles up to 512 rows or the number
  wanted.  Archive names are tried with a counter over the names present.  Rendering the prompt drops
  one candidate at a time, so the number of candidates decreases.  The graph walk asks its deadline a
  bounded number of times; a deadline is the number of checks left.  \<open>reduce_via_same_op\<close> need not
  converge and is a partial function; \<open>reduce_may_not_return\<close> shows a run that no depth of recursion ends
  (Python raises RecursionError).

  \<^bold>\<open>Parameters\<close> are what the sources only call: YAML, tokenizer, embedder, vector and FTS indexes,
  cross-encoder and NLI models, the native AFM operation, hashes, clocks, random ids, Unicode
  tables above 127, and JSON sizes.  What the code relies on of them is a named hypothesis.

  \<^bold>\<open>Not modelled\<close>: sockets and transport limits, SQLite connections and DDL, file watching,
  installers and host wiring, model calls and page writing of the AFM passes, the offline
  evaluation harness, the HTTP transport of model providers, other vector backends, exceptions raised
  after the commit of resolve, correct and learn (writing the markdown copy, purging projections),
  columns no operation reads (\<^verbatim>\<open>source_doc_ids\<close>, access counters of learnings), and locks and threads: operations run one after the other, and the legs of a search run in their serial order, which is
  the order the code merges and reports them in.
\<close>

end
